(* ===== verification/Framing.thy ===== *)
theory Framing
  imports Prelude
begin

text \<open>
  The framing of JSON-RPC messages on the standard streams, from src/include/lsp/JsonRpc.h:
  \<open>sendMessage\<close> and \<open>readJson\<close>.

  An input stream is what is left of it and the two error bits of \<open>std::istream\<close>. When a read
  is tried on a stream that is not good, the library sets the fail bit and touches neither the
  line nor the buffer, which both outlive a call of \<open>readJson\<close>. JSON parsing is third-party, a
  parameter: \<open>parse\<close> gives the request or the text of the error and \<open>is_response\<close> says whether
  the content reads as a response.
\<close>

section \<open>Input streams\<close>

record istream =
  rest :: string
  eofbit :: bool
  failbit :: bool

definition open_stream :: "string \<Rightarrow> istream" where
  "open_stream bytes = \<lparr>rest = bytes, eofbit = False, failbit = False\<rparr>"

definition good :: "istream \<Rightarrow> bool" where
  "good s \<longleftrightarrow> \<not> eofbit s \<and> \<not> failbit s"

text \<open>\<open>std::getline\<close>: the line read (the old one when the stream is not good) and the stream.\<close>

definition getline :: "istream \<Rightarrow> string \<Rightarrow> string \<times> istream" where
  "getline s old = (if \<not> good s then (old, s\<lparr>failbit := True\<rparr>)
     else (case find_char (CHR 0x0A) (rest s) of
        Some i \<Rightarrow> (take i (rest s), s\<lparr>rest := drop (Suc i) (rest s)\<rparr>)
      | None \<Rightarrow> (rest s, s\<lparr>rest := [], eofbit := True, failbit := rest s = []\<rparr>)))"

text \<open>\<open>std::istream::read\<close> into a buffer of exactly \<open>n\<close> bytes.\<close>

definition read_bytes :: "istream \<Rightarrow> string \<Rightarrow> string \<times> istream" where
  "read_bytes s buf = (if \<not> good s then (buf, s\<lparr>failbit := True\<rparr>)
     else if length buf \<le> length (rest s)
       then (take (length buf) (rest s), s\<lparr>rest := drop (length buf) (rest s)\<rparr>)
     else (rest s @ drop (length (rest s)) buf, s\<lparr>rest := [], eofbit := True, failbit := True\<rparr>))"

definition resize :: "string \<Rightarrow> int \<Rightarrow> string result" where
  "resize buf n = (if n < 0 then Inl LengthError
     else Inr (take (nat n) buf @ replicate (nat n - length buf) (CHR 0x00)))"

section \<open>Decimal numbers\<close>

text \<open>\<open>std::stoi\<close> in base 10: blanks, a sign, at least one digit, and the \<open>int\<close> range.\<close>

definition stoi :: "string \<Rightarrow> int result" where
  "stoi str = (let s = dropWhile isspace str;
      neg = (case s of c # _ \<Rightarrow> c = CHR ''-'' | [] \<Rightarrow> False);
      body = (case s of c # cs \<Rightarrow> if c = CHR ''-'' \<or> c = CHR ''+'' then cs else s | [] \<Rightarrow> s);
      ds = takeWhile isdigit body in
      if ds = [] then Inl InvalidArgument else
      let v = (if neg then - int (digits_value ds) else int (digits_value ds)) in
      if - (2 ^ 31) \<le> v \<and> v < 2 ^ 31 then Inr v else Inl OutOfRange)"

section \<open>Sending\<close>

definition header_name :: string where
  "header_name = ''Content-Length: ''"

definition crlf :: string where
  "crlf = [CHR 0x0D, CHR 0x0A]"

definition sendMessage :: "string \<Rightarrow> string \<Rightarrow> string" where
  "sendMessage out message_str =
     out @ header_name @ to_string (int (length message_str)) @ crlf @ crlf @ message_str"

section \<open>Reading\<close>

text \<open>The header loop reads lines until one of at most one character. It need not end: on a
  stream that has hit its end inside a header line, every further \<open>getline\<close> leaves the line.\<close>

partial_function (option) header_loop :: "istream \<Rightarrow> string \<Rightarrow> (string \<times> istream) option" where
  "header_loop s line = (let r = getline s line in
     if length (fst r) > 1 then header_loop (snd r) (fst r) else Some r)"

text \<open>The outcome of one call: a request, the end of the stream, or an exception that leaves
  the call, with the stream, the line and the content buffer, and what was sent meanwhile.\<close>

datatype 'r read_result = Request 'r | Closed | Failed exn

record reader =
  strm :: istream
  line_buf :: string
  content_buf :: string
  replies :: string

definition parse_error_reply :: "string \<Rightarrow> string \<Rightarrow> string" where
  "parse_error_reply err content = ''Error parsing JSON: '' @ err @ '' for content: '' @ content"

partial_function (option) readJson ::
  "(string \<Rightarrow> string + 'r) \<Rightarrow> (string \<Rightarrow> bool) \<Rightarrow> (string \<Rightarrow> string) \<Rightarrow> reader
     \<Rightarrow> ('r read_result \<times> reader) option" where
  "readJson parse is_response error_json rd =
    (case getline (strm rd) (line_buf rd) of (line, s1) \<Rightarrow>
     if failbit s1 then Some (Closed, rd\<lparr>strm := s1, line_buf := line\<rparr>)
     else if \<not> starts_with line header_name
       then readJson parse is_response error_json (rd\<lparr>strm := s1, line_buf := line\<rparr>)
     else (case stoi (drop 16 line) of
         Inl e \<Rightarrow> Some (Failed e, rd\<lparr>strm := s1, line_buf := line\<rparr>)
       | Inr n \<Rightarrow> (case resize (content_buf rd) n of
           Inl e \<Rightarrow> Some (Failed e, rd\<lparr>strm := s1, line_buf := line\<rparr>)
         | Inr buf \<Rightarrow> Option.bind (header_loop s1 line) (\<lambda>(line2, s2).
             (case read_bytes s2 buf of (content, s3) \<Rightarrow>
               let rd3 = rd\<lparr>strm := s3, line_buf := line2, content_buf := content\<rparr> in
               (case parse content of
                  Inr req \<Rightarrow> Some (Request req, rd3)
                | Inl err \<Rightarrow>
                    if is_response content then readJson parse is_response error_json rd3
                    else readJson parse is_response error_json
                      (rd3\<lparr>replies := sendMessage (replies rd3)
                         (error_json (parse_error_reply err content))\<rparr>)))))))"

section \<open>Facts about the reader\<close>

lemma isdigit_facts:
  assumes "isdigit c"
  shows "\<not> isspace c" and "c \<noteq> CHR ''-''" and "c \<noteq> CHR ''+''" and "c \<noteq> CHR 0x0A"
  using assms by (auto simp: ctype_defs char_eq_byte)

lemma stoi_digits:
  assumes "n < 2 ^ 31" and "tl_s = [] \<or> \<not> isdigit (hd tl_s)"
  shows "stoi (digits_of n @ tl_s) = Inr (int n)"
proof -
  obtain c cs where d: "digits_of n = c # cs" using digits_of_not_Nil [of n] by (cases "digits_of n") auto
  have c: "isdigit c" using digits_of_digits [of c n] d by simp
  have tw: "takeWhile isdigit (digits_of n @ tl_s) = digits_of n"
    using assms(2) digits_of_digits by (intro takeWhile_append_stop) auto
  have dw: "dropWhile isspace (digits_of n @ tl_s) = digits_of n @ tl_s"
    using isdigit_facts(1) [OF c] by (simp add: d)
  show ?thesis
    unfolding stoi_def dw Let_def
    using tw assms(1) isdigit_facts [OF c] digits_value_of [of n] d by simp
qed

lemma find_char_append:
  "c \<notin> set xs \<Longrightarrow> find_char c (xs @ c # ys) = Some (length xs)"
  by (induction xs) auto

lemma getline_line:
  assumes "CHR 0x0A \<notin> set line"
  shows "getline \<lparr>rest = line @ CHR 0x0A # inp, eofbit = False, failbit = False\<rparr> old
       = (line, \<lparr>rest = inp, eofbit = False, failbit = False\<rparr>)"
  using find_char_append [OF assms] by (simp add: getline_def good_def)

lemma header_loop_blank:
  "header_loop \<lparr>rest = crlf @ inp, eofbit = False, failbit = False\<rparr> old
     = Some ([CHR 0x0D], \<lparr>rest = inp, eofbit = False, failbit = False\<rparr>)"
  using getline_line [of "[CHR 0x0D]" inp old]
  by (subst header_loop.simps) (simp add: crlf_def Let_def)

lemma header_loop_stuck:
  assumes "\<not> good s" and "1 < length line"
  shows "header_loop s line = None"
proof -
  let ?P = "\<lambda>s' l' (r :: string \<times> istream). \<not> good s' \<longrightarrow> l' \<noteq> line"
  have "?P s' l' r" if "header_loop s' l' = Some r" for s' l' r
  proof (rule header_loop.raw_induct [where P = ?P, OF _ that])
    fix f s' l' r
    assume ih: "\<And>x y z. f x y = Some z \<Longrightarrow> \<not> good x \<longrightarrow> y \<noteq> line"
      and eq: "(let r = getline s' l' in if 1 < length (fst r) then f (snd r) (fst r) else Some r) = Some r"
    show "\<not> good s' \<longrightarrow> l' \<noteq> line"
      using ih [of "s'\<lparr>failbit := True\<rparr>" line r] eq assms(2)
      by (auto simp: getline_def good_def Let_def)
  qed
  then show ?thesis using assms by (cases "header_loop s line") auto
qed

text \<open>One message as it is sent.\<close>

definition frame :: "string \<Rightarrow> string" where
  "frame body = sendMessage [] body"

lemma frame_append:
  "frame body @ inp = (header_name @ digits_of (length body) @ [CHR 0x0D]) @ CHR 0x0A # crlf @ body @ inp"
  by (simp add: frame_def sendMessage_def to_string_def crlf_def)

lemma header_line_no_lf: "CHR 0x0A \<notin> set (header_name @ digits_of n @ [CHR 0x0D])"
  using isdigit_facts(4) digits_of_digits [of _ n] by (auto simp: header_name_def)

lemma header_line_stoi:
  "n < 2 ^ 31 \<Longrightarrow> stoi (drop 16 (header_name @ digits_of n @ [CHR 0x0D])) = Inr (int n)"
  using stoi_digits [of n "[CHR 0x0D]"] by (simp add: header_name_def isdigit_def)

lemma resize_ok: "\<exists>buf. resize old (int n) = Inr buf \<and> length buf = n"
  by (simp add: resize_def)

lemma resize_same: "resize old (int (length old)) = Inr old"
  by (simp add: resize_def)

abbreviation good_stream :: "string \<Rightarrow> istream" where
  "good_stream s \<equiv> \<lparr>rest = s, eofbit = False, failbit = False\<rparr>"

text \<open>One call on a stream that starts with a whole message.\<close>

lemma readJson_frame:
  assumes "strm rd = good_stream (frame body @ inp)" and "length body < 2 ^ 31"
    and "parse body = Inr req"
  shows "readJson parse is_response error_json rd = Some (Request req,
    rd\<lparr>strm := good_stream inp, line_buf := [CHR 0x0D], content_buf := body\<rparr>)"
proof -
  let ?line = "header_name @ digits_of (length body) @ [CHR 0x0D]"
  obtain buf where buf: "resize (content_buf rd) (int (length body)) = Inr buf" "length buf = length body"
    using resize_ok by blast
  have g: "getline (strm rd) (line_buf rd) = (?line, good_stream (crlf @ body @ inp))"
    using getline_line [OF header_line_no_lf] by (simp only: assms(1) frame_append)
  have r: "read_bytes (good_stream (body @ inp)) buf = (body, good_stream inp)"
    using buf(2) by (simp add: read_bytes_def good_def)
  show ?thesis
    by (subst readJson.simps)
       (simp add: g header_line_stoi [OF assms(2), simplified] buf(1) header_loop_blank r assms(3) Let_def
          del: append_assoc)
qed

text \<open>The same length again, with the content cut off.\<close>

lemma readJson_truncated:
  assumes "strm rd = good_stream (header_name @ digits_of (length (content_buf rd)) @ crlf @ crlf)"
    and "length (content_buf rd) < 2 ^ 31" and "parse (content_buf rd) = Inr req" and "content_buf rd \<noteq> []"
  shows "\<exists>rd'. readJson parse is_response error_json rd = Some (Request req, rd')"
proof -
  let ?body = "content_buf rd"
  let ?line = "header_name @ digits_of (length ?body) @ [CHR 0x0D]"
  have g: "getline (strm rd) (line_buf rd) = (?line, good_stream (crlf @ []))"
    using getline_line [OF header_line_no_lf, of "length ?body" "crlf"] by (simp add: assms(1) crlf_def)
  have r: "\<exists>s. read_bytes (good_stream []) ?body = (?body, s)"
    using assms(4) by (simp add: read_bytes_def good_def)
  then obtain s where s: "read_bytes (good_stream []) ?body = (?body, s)" by blast
  show ?thesis
    by (subst readJson.simps)
       (simp add: g header_line_stoi [OF assms(2), simplified] resize_same
          header_loop_blank s assms(3) Let_def del: append_assoc append_Nil2)
qed

text \<open>A header that the end of the stream cuts off before its line end.\<close>

lemma readJson_stuck:
  assumes "strm rd = good_stream (header_name @ digits_of n)" and "n < 2 ^ 31"
  shows "readJson parse is_response error_json rd = None"
proof -
  have no: "CHR 0x0A \<notin> set (header_name @ digits_of n)"
    using header_line_no_lf [of n] by auto
  have g: "getline (strm rd) (line_buf rd) = (header_name @ digits_of n,
      \<lparr>rest = [], eofbit = True, failbit = False\<rparr>)"
    using no by (simp add: assms(1) getline_def good_def find_char_None [THEN iffD2] header_name_def)
  have st: "stoi (drop 16 (header_name @ digits_of n)) = Inr (int n)"
    using stoi_digits [OF assms(2), of "[]"] by (simp add: header_name_def)
  obtain buf where buf: "resize (content_buf rd) (int n) = Inr buf" using resize_ok by blast
  have h: "header_loop \<lparr>rest = [], eofbit = True, failbit = False\<rparr> (header_name @ digits_of n) = None"
    by (rule header_loop_stuck) (simp_all add: good_def header_name_def)
  show ?thesis
    by (subst readJson.simps) (simp add: g st buf h del: drop_append)
qed

text \<open>Several calls in a row.\<close>

fun read_n :: "(string \<Rightarrow> string + 'r) \<Rightarrow> (string \<Rightarrow> bool) \<Rightarrow> (string \<Rightarrow> string) \<Rightarrow> nat \<Rightarrow> reader
    \<Rightarrow> ('r list \<times> reader) option" where
  "read_n parse is_response error_json 0 rd = Some ([], rd)"
| "read_n parse is_response error_json (Suc k) rd = (case readJson parse is_response error_json rd of
     Some (Request r, rd') \<Rightarrow> map_option (\<lambda>(rs, rd''). (r # rs, rd'')) (read_n parse is_response error_json k rd')
   | _ \<Rightarrow> None)"

section \<open>Properties\<close>

text \<open>C8. What one side sends, the other reads: the messages written one after the other by
  \<open>sendMessage\<close> are read back by as many calls of \<open>readJson\<close>, in order and none split or
  joined, and the stream is left at what follows them.\<close>

theorem framing_roundtrip:
  assumes "list_all (\<lambda>body. length body < 2 ^ 31 \<and> parse body = Inr (request body)) bodies"
    and "strm rd = good_stream (concat (map frame bodies) @ inp)"
  shows "\<exists>rd'. read_n parse is_response error_json (length bodies) rd = Some (map request bodies, rd')
    \<and> strm rd' = good_stream inp \<and> replies rd' = replies rd"
  using assms
proof (induction bodies arbitrary: rd)
  case (Cons body bodies)
  let ?rd = "rd\<lparr>strm := good_stream (concat (map frame bodies) @ inp), line_buf := [CHR 0x0D],
    content_buf := body\<rparr>"
  have "readJson parse is_response error_json rd = Some (Request (request body), ?rd)"
    using Cons.prems by (intro readJson_frame) simp_all
  moreover obtain rd' where "read_n parse is_response error_json (length bodies) ?rd
      = Some (map request bodies, rd')" "strm rd' = good_stream inp" "replies rd' = replies rd"
    using Cons.IH [of ?rd] Cons.prems(1) by auto
  ultimately show ?case by simp
qed simp

theorem framing_roundtrip_witness:
  "\<exists>rd'. read_n (\<lambda>s. Inr s :: string + string) (\<lambda>_. False) id (length [''{}'', ''[1]''])
      \<lparr>strm = good_stream (concat (map frame [''{}'', ''[1]'']) @ ''x''), line_buf = [],
       content_buf = [], replies = []\<rparr> = Some (map (\<lambda>b. b) [''{}'', ''[1]''], rd')
    \<and> strm rd' = good_stream ''x'' \<and> replies rd' = []"
  using framing_roundtrip [of "\<lambda>s. Inr s" "\<lambda>b. b" "[''{}'', ''[1]'']"
      "\<lparr>strm = good_stream (concat (map frame [''{}'', ''[1]'']) @ ''x''), line_buf = [],
       content_buf = [], replies = []\<rparr>" "''x''" "\<lambda>_. False" id]
  by simp

text \<open>A stream that ends right after a message header is not told from one that carries
  the message: when the header announces as many bytes as the message before it had, the call
  returns that earlier message a second time.\<close>

theorem truncated_message_replayed:
  assumes "parse body = Inr req" and "body \<noteq> []" and "length body < 2 ^ 31"
  shows "\<exists>rd1 rd2. readJson parse is_response error_json
      \<lparr>strm = good_stream (frame body @ header_name @ digits_of (length body) @ crlf @ crlf),
       line_buf = [], content_buf = [], replies = []\<rparr> = Some (Request req, rd1)
    \<and> readJson parse is_response error_json rd1 = Some (Request req, rd2)"
proof -
  let ?rd = "\<lparr>strm = good_stream (header_name @ digits_of (length body) @ crlf @ crlf),
    line_buf = [CHR 0x0D], content_buf = body, replies = []\<rparr>"
  have "\<exists>rd2. readJson parse is_response error_json ?rd = Some (Request req, rd2)"
    using assms by (intro readJson_truncated) simp_all
  then show ?thesis using assms(1, 3) by (subst readJson_frame) simp_all
qed

theorem truncated_message_replayed_witness:
  "\<exists>rd1 rd2. readJson (\<lambda>s. Inr s :: string + string) (\<lambda>_. False) id
      \<lparr>strm = good_stream (frame ''{}'' @ header_name @ digits_of (length ''{}'') @ crlf @ crlf),
       line_buf = [], content_buf = [], replies = []\<rparr> = Some (Request ''{}'', rd1)
    \<and> readJson (\<lambda>s. Inr s) (\<lambda>_. False) id rd1 = Some (Request ''{}'', rd2)"
  by (rule truncated_message_replayed) simp_all

text \<open>A stream that ends inside a \<open>Content-Length\<close> line never gives its reader back: the
  loop that skips the other header lines finds the same unfinished line again and again.\<close>

theorem unfinished_header_hangs:
  assumes "n < 2 ^ 31"
  shows "readJson parse is_response error_json
    \<lparr>strm = good_stream (header_name @ digits_of n), line_buf = l, content_buf = c, replies = r\<rparr> = None"
  using assms by (intro readJson_stuck) simp_all

theorem unfinished_header_hangs_witness:
  "readJson (\<lambda>s. Inr s :: string + string) (\<lambda>_. False) id
    \<lparr>strm = good_stream (header_name @ digits_of 25), line_buf = [], content_buf = [], replies = []\<rparr> = None"
  by (rule unfinished_header_hangs) simp

end
