(* ===== verification/JsonRpc.thy ===== *)
theory JsonRpc
  imports Framing
begin

text \<open>
  The JSON-RPC server, from src/include/lsp/JsonRpcServer.h and RequestContext.h: request
  contexts with their shared cancellation cells, the registry of active requests and pending
  document changes, \<open>processMessage\<close>, \<open>handleMessage\<close> and the two threads of \<open>run\<close>.

  The handlers that \<open>Impl\<close> registers are a parameter: a function of the implementation state,
  the parameters, the context and the values its reads of the cancellation flag give. The two
  threads share state only under a mutex, so a step of the relation \<open>rpc_step\<close> is one critical
  section (a whole \<open>sendMessage\<close> included), and the steps of the threads interleave freely.
  Logging is left out. Context ids are unbounded where the code has 64 bits.
\<close>

section \<open>Messages\<close>

datatype rpc_id = IdInt int | IdString string

record 'g rpc_request =
  rq_id :: "rpc_id option"
  rq_method :: string
  rq_params :: "'g option"

datatype 'g message =
    Response "rpc_id option" 'g
  | ErrorResponse "rpc_id option" int string

fun message_id :: "'g message \<Rightarrow> rpc_id option" where
  "message_id (Response i _) = i"
| "message_id (ErrorResponse i _ _) = i"

abbreviation err_internal :: int where "err_internal \<equiv> - 32603"
abbreviation err_invalid_request :: int where "err_invalid_request \<equiv> - 32600"
abbreviation err_not_initialized :: int where "err_not_initialized \<equiv> - 32002"
abbreviation err_cancelled :: int where "err_cancelled \<equiv> - 32800"

section \<open>Request contexts\<close>

text \<open>Copies of a context share one \<open>State\<close>; the cell is found by the id of its context.\<close>

record rpc_context =
  cx_id :: nat
  cx_method :: string
  cx_rpc :: "rpc_id option"
  cx_cancellable :: bool

record registry =
  next_id :: nat
  cancelled_cells :: "nat set"
  started_cells :: "nat set"
  active_requests :: "rpc_id \<rightharpoonup> rpc_context"
  pending_changes :: "string \<rightharpoonup> rpc_context"

definition has_state :: "rpc_context \<Rightarrow> bool" where
  "has_state cx \<longleftrightarrow> cx_rpc cx \<noteq> None \<or> cx_cancellable cx"

definition ctx_cancel :: "rpc_context \<Rightarrow> registry \<Rightarrow> registry" where
  "ctx_cancel cx r = (if has_state cx then r\<lparr>cancelled_cells := insert (cx_id cx) (cancelled_cells r)\<rparr> else r)"

definition isCancelled :: "registry \<Rightarrow> rpc_context \<Rightarrow> bool" where
  "isCancelled r cx \<longleftrightarrow> has_state cx \<and> cx_id cx \<in> cancelled_cells r"

definition markStarted :: "rpc_context \<Rightarrow> registry \<Rightarrow> registry" where
  "markStarted cx r = (if has_state cx then r\<lparr>started_cells := insert (cx_id cx) (started_cells r)\<rparr> else r)"

definition hasStarted :: "registry \<Rightarrow> rpc_context \<Rightarrow> bool" where
  "hasStarted r cx \<longleftrightarrow> has_state cx \<and> cx_id cx \<in> started_cells r"

section \<open>What the implementation registers\<close>

datatype handler_exn = ExnCancelled string | ExnStd string | ExnUnknown

type_synonym ('g, 's) request_handler =
  "'s \<Rightarrow> 'g \<Rightarrow> rpc_context \<Rightarrow> (nat \<Rightarrow> bool) \<Rightarrow> 's \<times> (handler_exn + 'g)"

datatype ('g, 's) notification_handler =
    CancelHandler
  | ImplHandler "'s \<Rightarrow> 'g \<Rightarrow> rpc_context \<Rightarrow> (nat \<Rightarrow> bool) \<Rightarrow> 's \<times> handler_exn option"

text \<open>\<open>did_change_uri\<close> and \<open>cancel_target\<close> are the conversions of rfl from generic JSON to the
  parameters of \<open>didChange\<close> (its document URI) and of \<open>$/cancelRequest\<close>; \<open>writable\<close> says which
  messages rfl can serialise.\<close>

record ('g, 's) rpc_env =
  requests_tab :: "string \<Rightarrow> ('g, 's) request_handler option"
  notifications_tab :: "string \<Rightarrow> ('g, 's) notification_handler option"
  cancellable_methods :: "string list"
  did_change_uri :: "'g \<Rightarrow> string option"
  cancel_target :: "'g \<Rightarrow> string + rpc_id"
  null_generic :: 'g
  writable :: "'g message \<Rightarrow> bool"

section \<open>The registry\<close>

definition createContext :: "('g, 's) rpc_env \<Rightarrow> 'g rpc_request \<Rightarrow> registry \<Rightarrow> rpc_context \<times> registry" where
  "createContext env rq r =
     (\<lparr>cx_id = next_id r, cx_method = rq_method rq, cx_rpc = rq_id rq,
       cx_cancellable = rq_method rq \<in> set (cancellable_methods env)\<rparr>,
      r\<lparr>next_id := next_id r + 1\<rparr>)"

definition getDidChangeKey :: "('g, 's) rpc_env \<Rightarrow> 'g rpc_request \<Rightarrow> string option" where
  "getDidChangeKey env rq = (if rq_method rq \<noteq> ''textDocument/didChange'' then None
     else (case rq_params rq of None \<Rightarrow> None | Some p \<Rightarrow> did_change_uri env p))"

definition register_change :: "string \<Rightarrow> rpc_context \<Rightarrow> registry \<Rightarrow> registry" where
  "register_change key cx r =
     (let r' = (case pending_changes r key of
                  None \<Rightarrow> r
                | Some old \<Rightarrow> if cx_id old \<noteq> cx_id cx then ctx_cancel old r else r)
      in r'\<lparr>pending_changes := (pending_changes r')(key \<mapsto> cx)\<rparr>)"

definition registerContext ::
  "('g, 's) rpc_env \<Rightarrow> 'g rpc_request \<Rightarrow> rpc_context \<Rightarrow> registry \<Rightarrow> registry" where
  "registerContext env rq cx r =
     (if rq_id rq = None \<and> \<not> cx_cancellable cx then r else
      let r1 = (case rq_id rq of None \<Rightarrow> r
                | Some i \<Rightarrow> r\<lparr>active_requests := (active_requests r)(i \<mapsto> cx)\<rparr>) in
      if cx_cancellable cx
      then (case getDidChangeKey env rq of None \<Rightarrow> r1 | Some key \<Rightarrow> register_change key cx r1)
      else r1)"

text \<open>Erase an entry only when it is the context's own.\<close>

definition erase_own :: "('k \<rightharpoonup> rpc_context) \<Rightarrow> 'k \<Rightarrow> rpc_context \<Rightarrow> ('k \<rightharpoonup> rpc_context)" where
  "erase_own m k cx = (case m k of None \<Rightarrow> m | Some c \<Rightarrow> if cx_id c = cx_id cx then m(k := None) else m)"

definition unregisterContext ::
  "('g, 's) rpc_env \<Rightarrow> 'g rpc_request \<Rightarrow> rpc_context \<Rightarrow> registry \<Rightarrow> registry" where
  "unregisterContext env rq cx r =
     (if rq_id rq = None \<and> \<not> cx_cancellable cx then r else
      let r1 = (case rq_id rq of None \<Rightarrow> r
                | Some i \<Rightarrow> r\<lparr>active_requests := erase_own (active_requests r) i cx\<rparr>) in
      if cx_cancellable cx
      then (case getDidChangeKey env rq of None \<Rightarrow> r1
            | Some key \<Rightarrow> r1\<lparr>pending_changes := erase_own (pending_changes r1) key cx\<rparr>)
      else r1)"

text \<open>A request that is no longer active only gets a context of its own, for the log.\<close>

definition cancelRequest :: "rpc_id \<Rightarrow> registry \<Rightarrow> registry" where
  "cancelRequest i r = (case active_requests r i of
     Some target \<Rightarrow> (if \<not> hasStarted r target \<or> cx_cancellable target then ctx_cancel target r else r)
   | None \<Rightarrow> r\<lparr>next_id := next_id r + 1\<rparr>)"

text \<open>\<open>None\<close> when the request was cancelled before its handler.\<close>

definition startRequest :: "rpc_context \<Rightarrow> registry \<Rightarrow> registry option" where
  "startRequest cx r = (if isCancelled r cx then None else Some (markStarted cx r))"

section \<open>Handling one message\<close>

record ('g, 's) core =
  reg :: registry
  impl :: 's
  outbox :: "'g message list"
  reports :: "(string \<times> string) list"

datatype 'g outcome = OutResult 'g | OutError int string | OutNone

definition notifyInternalError :: "string \<Rightarrow> string \<Rightarrow> ('g, 's) core \<Rightarrow> ('g, 's) core" where
  "notifyInternalError m msg st = st\<lparr>reports := reports st @ [(m, msg)]\<rparr>"

definition cancelled_error :: "'g outcome" where
  "cancelled_error = OutError err_cancelled ''Request cancelled''"

text \<open>
  \<open>processMessage\<close> up to the call of the handler, and from it on. \<open>Some\<close> result of the first
  part means that no handler runs.
\<close>

definition process_begin ::
  "('g, 's) rpc_env \<Rightarrow> 'g rpc_request \<Rightarrow> rpc_context \<Rightarrow> ('g, 's) core \<Rightarrow> ('g, 's) core \<times> 'g outcome option" where
  "process_begin env rq cx st = (case rq_id rq of
     None \<Rightarrow> (case notifications_tab env (rq_method rq) of
        None \<Rightarrow> (st, Some OutNone) | Some h \<Rightarrow> (st, None))
   | Some i \<Rightarrow> (case requests_tab env (rq_method rq) of
        None \<Rightarrow> (st, Some OutNone)
      | Some h \<Rightarrow> (case startRequest cx (reg st) of
          None \<Rightarrow> (st, Some cancelled_error)
        | Some r \<Rightarrow> (st\<lparr>reg := r\<rparr>, None))))"

definition run_notification ::
  "('g, 's) rpc_env \<Rightarrow> ('g, 's) notification_handler \<Rightarrow> 'g \<Rightarrow> rpc_context \<Rightarrow> (nat \<Rightarrow> bool)
     \<Rightarrow> ('g, 's) core \<Rightarrow> ('g, 's) core \<times> handler_exn option" where
  "run_notification env h p cx polls st = (case h of
     CancelHandler \<Rightarrow> (case cancel_target env p of
        Inl e \<Rightarrow> (st, Some (ExnStd e))
      | Inr i \<Rightarrow> (st\<lparr>reg := cancelRequest i (reg st)\<rparr>, None))
   | ImplHandler f \<Rightarrow> (let res = f (impl st) p cx polls in (st\<lparr>impl := fst res\<rparr>, snd res)))"

definition process_end ::
  "('g, 's) rpc_env \<Rightarrow> 'g rpc_request \<Rightarrow> rpc_context \<Rightarrow> (nat \<Rightarrow> bool) \<Rightarrow> ('g, 's) core
     \<Rightarrow> ('g, 's) core \<times> 'g outcome" where
  "process_end env rq cx polls st =
    (let p = (case rq_params rq of Some p \<Rightarrow> p | None \<Rightarrow> null_generic env) in
     case rq_id rq of
       None \<Rightarrow> (case notifications_tab env (rq_method rq) of
          None \<Rightarrow> (st, OutNone)
        | Some h \<Rightarrow> (case run_notification env h p cx polls st of
            (st', None) \<Rightarrow> (st', OutNone)
          | (st', Some (ExnCancelled _)) \<Rightarrow> (st', OutNone)
          | (st', Some (ExnStd m)) \<Rightarrow> (notifyInternalError (rq_method rq) m st', OutNone)
          | (st', Some ExnUnknown) \<Rightarrow>
              (notifyInternalError (rq_method rq) ''unknown exception'' st', OutNone)))
     | Some i \<Rightarrow> (case requests_tab env (rq_method rq) of
          None \<Rightarrow> (st, OutNone)
        | Some h \<Rightarrow> (case h (impl st) p cx polls of
            (s', res) \<Rightarrow> let st' = st\<lparr>impl := s'\<rparr> in
             (case res of
               Inr g \<Rightarrow> (st', if isCancelled (reg st') cx then cancelled_error else OutResult g)
             | Inl (ExnCancelled _) \<Rightarrow> (st', cancelled_error)
             | Inl (ExnStd m) \<Rightarrow> (notifyInternalError (rq_method rq) m st', OutError err_internal m)
             | Inl ExnUnknown \<Rightarrow> (notifyInternalError (rq_method rq) ''unknown exception'' st',
                 OutError err_internal ''Unknown exception'')))))"

definition processMessage ::
  "('g, 's) rpc_env \<Rightarrow> 'g rpc_request \<Rightarrow> rpc_context \<Rightarrow> (nat \<Rightarrow> bool) \<Rightarrow> ('g, 's) core
     \<Rightarrow> ('g, 's) core \<times> 'g outcome" where
  "processMessage env rq cx polls st = (case process_begin env rq cx st of
     (st', Some out) \<Rightarrow> (st', out) | (st', None) \<Rightarrow> process_end env rq cx polls st')"

text \<open>What \<open>handleMessage\<close> sends for an outcome: a message that cannot be serialised is
  replaced by an error, and dropped when that cannot be either.\<close>

definition reply_messages :: "('g, 's) rpc_env \<Rightarrow> 'g rpc_request \<Rightarrow> 'g outcome \<Rightarrow> 'g message list" where
  "reply_messages env rq out =
    (let fallback = ErrorResponse (rq_id rq) err_internal ''Failed to serialize the response'';
         attempt = (\<lambda>m. if writable env m then [m] else if writable env fallback then [fallback] else []) in
     case out of
       OutResult g \<Rightarrow> attempt (Response (rq_id rq) g)
     | OutError c m \<Rightarrow> attempt (ErrorResponse (rq_id rq) c m)
     | OutNone \<Rightarrow> [])"

definition finish_message ::
  "('g, 's) rpc_env \<Rightarrow> 'g rpc_request \<Rightarrow> rpc_context \<Rightarrow> 'g outcome \<Rightarrow> ('g, 's) core \<Rightarrow> ('g, 's) core" where
  "finish_message env rq cx out st =
     st\<lparr>reg := unregisterContext env rq cx (reg st),
        outbox := outbox st @ reply_messages env rq out\<rparr>"

definition handleMessage ::
  "('g, 's) rpc_env \<Rightarrow> 'g rpc_request \<Rightarrow> rpc_context \<Rightarrow> (nat \<Rightarrow> bool) \<Rightarrow> ('g, 's) core \<Rightarrow> ('g, 's) core" where
  "handleMessage env rq cx polls st = (case processMessage env rq cx polls st of
     (st', out) \<Rightarrow> finish_message env rq cx out st')"

definition handleMessage_new ::
  "('g, 's) rpc_env \<Rightarrow> 'g rpc_request \<Rightarrow> (nat \<Rightarrow> bool) \<Rightarrow> ('g, 's) core \<Rightarrow> ('g, 's) core" where
  "handleMessage_new env rq polls st = (case createContext env rq (reg st) of
     (cx, r) \<Rightarrow> handleMessage env rq cx polls (st\<lparr>reg := registerContext env rq cx r\<rparr>))"

section \<open>The two threads of run\<close>

text \<open>
  \<open>Init\<close> is the first loop, \<open>Main n\<close> the main loop after \<open>n\<close> failures in a row, \<open>Draining\<close> the
  loop after \<open>shutdown\<close>, \<open>Joining\<close> the wait for the worker. \<open>Aborted\<close> is an exception that
  leaves \<open>run\<close>. The reader holds a message between registering and queueing it.
\<close>

datatype phase = Init | Main nat | Draining | Stopping | Joining | Finished | Aborted

datatype 'g worker =
    WNone | WIdle
  | WTaken "'g rpc_request" rpc_context
  | WRunning "'g rpc_request" rpc_context
  | WExited

record ('g, 's) server = "('g, 's) core" +
  phase :: phase
  hold :: "('g rpc_request \<times> rpc_context) option"
  queue :: "('g rpc_request \<times> rpc_context) list"
  worker :: "'g worker"
  inputFinished :: bool

text \<open>The core inside a server, and the server with a new core.\<close>

definition core_of :: "('g, 's) server \<Rightarrow> ('g, 's) core" where
  "core_of s = core.truncate s"

definition with_core :: "('g, 's) server \<Rightarrow> ('g, 's) core \<Rightarrow> ('g, 's) server" where
  "with_core s c = s\<lparr>reg := reg c, impl := impl c, outbox := outbox c, reports := reports c\<rparr>"

definition send_error :: "('g, 's) server \<Rightarrow> 'g rpc_request \<Rightarrow> int \<Rightarrow> string \<Rightarrow> ('g, 's) server" where
  "send_error s rq code msg = s\<lparr>outbox := outbox s @ [ErrorResponse (rq_id rq) code msg]\<rparr>"

text \<open>Handling \<open>$/cancelRequest\<close> on the reader thread.\<close>

definition handleCancelRequest :: "('g, 's) rpc_env \<Rightarrow> 'g rpc_request \<Rightarrow> (nat \<Rightarrow> bool) \<Rightarrow> ('g, 's) server \<Rightarrow> ('g, 's) server" where
  "handleCancelRequest env rq polls s = (case createContext env rq (reg s) of
     (cx, r) \<Rightarrow> with_core s (fst (processMessage env rq cx polls ((core_of s)\<lparr>reg := r\<rparr>))))"

definition begin_queueing :: "('g, 's) rpc_env \<Rightarrow> 'g rpc_request \<Rightarrow> ('g, 's) server \<Rightarrow> ('g, 's) server" where
  "begin_queueing env rq s = (case createContext env rq (reg s) of
     (cx, r) \<Rightarrow> s\<lparr>reg := registerContext env rq cx r, hold := Some (rq, cx)\<rparr>)"

text \<open>Reads of the cancellation flag by a handler: unset until some read, set from it on.\<close>

definition flag_reads :: "nat option \<Rightarrow> nat \<Rightarrow> bool" where
  "flag_reads first n = (case first of None \<Rightarrow> False | Some k \<Rightarrow> k \<le> n)"

text \<open>The events of a run: a message queued for the worker, a message the worker is done with
  (and what it sent), and every other step.\<close>

datatype 'g event =
    Queued "'g rpc_request" rpc_context
  | Handled "'g rpc_request" rpc_context "'g message list"
  | Quiet

inductive rpc_step :: "('g, 's) rpc_env \<Rightarrow> ('g, 's) server \<Rightarrow> 'g event \<Rightarrow> ('g, 's) server \<Rightarrow> bool"
  for env where
  init_closed: "phase s = Init \<Longrightarrow> rpc_step env s Quiet (s\<lparr>phase := Finished\<rparr>)"
| init_failed: "phase s = Init \<Longrightarrow> rpc_step env s Quiet (s\<lparr>phase := Aborted\<rparr>)"
| init_reject: "phase s = Init \<Longrightarrow> rq_method rq \<noteq> ''initialize'' \<Longrightarrow>
    rpc_step env s Quiet (send_error s rq err_not_initialized ''Server not initialized'')"
| init_accept: "phase s = Init \<Longrightarrow> rq_method rq = ''initialize'' \<Longrightarrow>
    rpc_step env s Quiet ((with_core s (handleMessage_new env rq (flag_reads None) (core_of s)))
      \<lparr>phase := Main 0, worker := WIdle\<rparr>)"
| read_failed: "phase s = Main n \<Longrightarrow> hold s = None \<Longrightarrow>
    rpc_step env s Quiet (s\<lparr>phase := if n + 1 > 5 then Stopping else Main (n + 1)\<rparr>)"
| read_closed: "phase s = Main n \<Longrightarrow> hold s = None \<Longrightarrow> rpc_step env s Quiet (s\<lparr>phase := Stopping\<rparr>)"
| read_cancel: "phase s = Main n \<Longrightarrow> hold s = None \<Longrightarrow> rq_method rq = ''$/cancelRequest'' \<Longrightarrow>
    rpc_step env s Quiet ((handleCancelRequest env rq (flag_reads None) s)\<lparr>phase := Main 0\<rparr>)"
| read_message: "phase s = Main n \<Longrightarrow> hold s = None \<Longrightarrow> rq_method rq \<noteq> ''$/cancelRequest'' \<Longrightarrow>
    rpc_step env s Quiet ((begin_queueing env rq s)\<lparr>phase := Main 0\<rparr>)"
| enqueue: "phase s = Main n \<Longrightarrow> hold s = Some (rq, cx) \<Longrightarrow>
    rpc_step env s (Queued rq cx) (s\<lparr>hold := None, queue := queue s @ [(rq, cx)],
      phase := if rq_method rq = ''shutdown'' then Draining else Main n\<rparr>)"
| drain_cancel: "phase s = Draining \<Longrightarrow> rq_method rq = ''$/cancelRequest'' \<Longrightarrow>
    rpc_step env s Quiet (handleCancelRequest env rq (flag_reads None) s)"
| drain_reject: "phase s = Draining \<Longrightarrow> rq_method rq \<notin> {''exit'', ''$/cancelRequest''} \<Longrightarrow>
    rpc_step env s Quiet (send_error s rq err_invalid_request ''Invalid Request'')"
| drain_end: "phase s = Draining \<Longrightarrow> rpc_step env s Quiet (s\<lparr>phase := Stopping\<rparr>)"
| stop: "phase s = Stopping \<Longrightarrow> rpc_step env s Quiet (s\<lparr>phase := Joining, inputFinished := True\<rparr>)"
| take: "worker s = WIdle \<Longrightarrow> queue s = (rq, cx) # q \<Longrightarrow>
    rpc_step env s Quiet (s\<lparr>queue := q, worker := WTaken rq cx\<rparr>)"
| begin_run: "worker s = WTaken rq cx \<Longrightarrow> process_begin env rq cx (core_of s) = (c, None) \<Longrightarrow>
    rpc_step env s Quiet ((with_core s c)\<lparr>worker := WRunning rq cx\<rparr>)"
| begin_done: "worker s = WTaken rq cx \<Longrightarrow> process_begin env rq cx (core_of s) = (c, Some out) \<Longrightarrow>
    rpc_step env s (Handled rq cx (reply_messages env rq out))
      ((with_core s (finish_message env rq cx out c))\<lparr>worker := WIdle\<rparr>)"
| end_run: "worker s = WRunning rq cx \<Longrightarrow> first \<noteq> None \<longrightarrow> isCancelled (reg s) cx \<Longrightarrow>
    process_end env rq cx (flag_reads first) (core_of s) = (c, out) \<Longrightarrow>
    rpc_step env s (Handled rq cx (reply_messages env rq out))
      ((with_core s (finish_message env rq cx out c))\<lparr>worker := WIdle\<rparr>)"
| exit_worker: "worker s = WIdle \<Longrightarrow> inputFinished s \<Longrightarrow> queue s = [] \<Longrightarrow>
    rpc_step env s Quiet (s\<lparr>worker := WExited\<rparr>)"
| join: "phase s = Joining \<Longrightarrow> worker s = WExited \<Longrightarrow> rpc_step env s Quiet (s\<lparr>phase := Finished\<rparr>)"

inductive rpc_run :: "('g, 's) rpc_env \<Rightarrow> ('g, 's) server \<Rightarrow> 'g event list \<Rightarrow> ('g, 's) server \<Rightarrow> bool"
  for env where
  run_nil: "rpc_run env s [] s"
| run_snoc: "rpc_run env s evs s' \<Longrightarrow> rpc_step env s' ev s'' \<Longrightarrow> rpc_run env s (evs @ [ev]) s''"

inductive_simps rpc_run_nil [simp]: "rpc_run env s [] s'"
inductive_cases rpc_stepE: "rpc_step env s ev s'"

definition init_registry :: registry where
  "init_registry = \<lparr>next_id = 1, cancelled_cells = {}, started_cells = {},
     active_requests = Map.empty, pending_changes = Map.empty\<rparr>"

definition start :: "'s \<Rightarrow> ('g, 's) server" where
  "start s0 = \<lparr>reg = init_registry, impl = s0, outbox = [], reports = [], phase = Init, hold = None,
     queue = [], worker = WNone, inputFinished = False\<rparr>"

end
