(* ===== verification/JsonRpcRuns.thy ===== *)
theory JsonRpcRuns
  imports JsonRpc
begin

text \<open>
  What holds of every run of the JSON-RPC server of theory JsonRpc: the two tables of the
  registry hold the latest context of each key among the messages under way (the locale
  \<open>context_table\<close>, interpreted for both tables), replies come once and in order, a newer change
  cancels the older ones, a cancelled request never starts, and shutdown ends.
\<close>

section \<open>Tables of the latest context\<close>

type_synonym 'g item = "'g rpc_request \<times> rpc_context"

text \<open>The table that holds, for every key, the context of the last item with that key.\<close>

definition entries :: "('g item \<Rightarrow> 'k option) \<Rightarrow> 'g item list \<Rightarrow> ('k \<times> rpc_context) list" where
  "entries key ps = List.map_filter (\<lambda>p. map_option (\<lambda>k. (k, snd p)) (key p)) ps"

definition latest :: "('g item \<Rightarrow> 'k option) \<Rightarrow> 'g item list \<Rightarrow> ('k \<rightharpoonup> rpc_context)" where
  "latest key ps = map_of (rev (entries key ps))"

lemma entries_simps [simp]: "entries key [] = []"
  "entries key (p # ps) = (case key p of None \<Rightarrow> entries key ps | Some k \<Rightarrow> (k, snd p) # entries key ps)"
  "entries key (ps @ qs) = entries key ps @ entries key qs"
  by (auto simp: entries_def List.map_filter_def split: option.splits)

lemma latest_Nil [simp]: "latest key [] = Map.empty"
  by (simp add: latest_def)

lemma latest_snoc: "latest key (ps @ [p]) = (case key p of None \<Rightarrow> latest key ps | Some k \<Rightarrow> (latest key ps)(k \<mapsto> snd p))"
  by (auto simp: latest_def split: option.splits)

lemma latest_mem: "latest key ps k = Some c \<Longrightarrow> \<exists>p \<in> set ps. key p = Some k \<and> snd p = c"
proof (induction ps rule: rev_induct)
  case (snoc p ps)
  then show ?case by (auto simp: latest_snoc split: option.splits if_splits)
qed simp

lemma latest_Cons: "latest key (p # ps) = (case key p of None \<Rightarrow> latest key ps
    | Some k \<Rightarrow> (if k \<in> dom (latest key ps) then latest key ps else (latest key ps)(k \<mapsto> snd p)))"
proof (cases "key p")
  case (Some k)
  have "map_of (rev (entries key ps) @ [(k, snd p)])
      = (if k \<in> dom (map_of (rev (entries key ps))) then map_of (rev (entries key ps))
         else (map_of (rev (entries key ps)))(k \<mapsto> snd p))"
    by (auto simp: map_add_def fun_eq_iff split: option.splits)
  then show ?thesis using Some by (simp add: latest_def)
qed (simp add: latest_def)

lemma erase_own_latest:
  assumes "key p = Some k" and "\<forall>q \<in> set ps. cx_id (snd p) < cx_id (snd q)"
  shows "erase_own (latest key (p # ps)) k (snd p) = latest key ps"
proof (cases "latest key ps k")
  case None
  then have "latest key (p # ps) = (latest key ps)(k \<mapsto> snd p)"
    using assms(1) by (auto simp: latest_Cons)
  then show ?thesis using None by (auto simp: erase_own_def)
next
  case (Some c)
  then have "cx_id c \<noteq> cx_id (snd p)" using latest_mem [OF Some] assms(2) by auto
  moreover have "latest key (p # ps) = latest key ps" using assms(1) Some by (auto simp: latest_Cons)
  ultimately show ?thesis using Some by (simp add: erase_own_def)
qed

text \<open>
  What the server asks of a table in the registry: to put a context under its key, to erase
  a context's own entry, and to look one up. A table that keeps these laws holds the latest
  item of the list of messages under way.
\<close>

locale context_table =
  fixes key :: "'g item \<Rightarrow> 'k option"
    and get :: "'t \<Rightarrow> 'k \<rightharpoonup> rpc_context"
    and put :: "'k \<Rightarrow> rpc_context \<Rightarrow> 't \<Rightarrow> 't"
    and del :: "'k \<Rightarrow> rpc_context \<Rightarrow> 't \<Rightarrow> 't"
  assumes get_put: "get (put k c t) = (get t)(k \<mapsto> c)"
    and get_del: "get (del k c t) = erase_own (get t) k c"
begin

lemma put_tracks: "get t = latest key ps \<Longrightarrow> key p = Some k \<Longrightarrow> get (put k (snd p) t) = latest key (ps @ [p])"
  by (simp add: get_put latest_snoc)

lemma skip_tracks: "get t = latest key ps \<Longrightarrow> key p = None \<Longrightarrow> get t = latest key (ps @ [p])"
  by (simp add: latest_snoc)

lemma del_tracks:
  "get t = latest key (p # ps) \<Longrightarrow> key p = Some k \<Longrightarrow> \<forall>q \<in> set ps. cx_id (snd p) < cx_id (snd q)
    \<Longrightarrow> get (del k (snd p) t) = latest key ps"
  by (simp add: get_del erase_own_latest)

lemma drop_tracks: "get t = latest key (p # ps) \<Longrightarrow> key p = None \<Longrightarrow> get t = latest key ps"
  by (simp add: latest_Cons)

lemma tracks_empty: "get t = latest key [] \<Longrightarrow> get t k = None"
  by simp

lemma tracks_mem: "get t = latest key ps \<Longrightarrow> get t k = Some c \<Longrightarrow> \<exists>p \<in> set ps. key p = Some k \<and> snd p = c"
  by (simp add: latest_mem)

end

definition id_key :: "'g item \<Rightarrow> rpc_id option" where
  "id_key p = rq_id (fst p)"

definition change_key :: "('g, 's) rpc_env \<Rightarrow> 'g item \<Rightarrow> string option" where
  "change_key env p = (if cx_cancellable (snd p) then getDidChangeKey env (fst p) else None)"

definition put_active :: "rpc_id \<Rightarrow> rpc_context \<Rightarrow> registry \<Rightarrow> registry" where
  "put_active i cx r = r\<lparr>active_requests := (active_requests r)(i \<mapsto> cx)\<rparr>"

definition del_active :: "rpc_id \<Rightarrow> rpc_context \<Rightarrow> registry \<Rightarrow> registry" where
  "del_active i cx r = r\<lparr>active_requests := erase_own (active_requests r) i cx\<rparr>"

definition del_change :: "string \<Rightarrow> rpc_context \<Rightarrow> registry \<Rightarrow> registry" where
  "del_change k cx r = r\<lparr>pending_changes := erase_own (pending_changes r) k cx\<rparr>"

interpretation active: context_table id_key active_requests put_active del_active
  by unfold_locales (simp_all add: put_active_def del_active_def)

lemma ctx_cancel_fields [simp]:
  "active_requests (ctx_cancel c r) = active_requests r" "pending_changes (ctx_cancel c r) = pending_changes r"
  "next_id (ctx_cancel c r) = next_id r" "started_cells (ctx_cancel c r) = started_cells r"
  by (simp_all add: ctx_cancel_def)

interpretation changes: context_table "change_key env" pending_changes register_change del_change
  for env :: "('g, 's) rpc_env"
  by unfold_locales
    (auto simp: register_change_def del_change_def Let_def split: option.split)

lemma registerContext_alt:
  "registerContext env rq cx r =
    (case change_key env (rq, cx) of None \<Rightarrow> id | Some k \<Rightarrow> register_change k cx)
      ((case id_key (rq, cx) of None \<Rightarrow> id | Some i \<Rightarrow> put_active i cx) r)"
  by (auto simp: registerContext_def change_key_def id_key_def put_active_def Let_def split: option.split)

lemma unregisterContext_alt:
  "unregisterContext env rq cx r =
    (case change_key env (rq, cx) of None \<Rightarrow> id | Some k \<Rightarrow> del_change k cx)
      ((case id_key (rq, cx) of None \<Rightarrow> id | Some i \<Rightarrow> del_active i cx) r)"
  by (auto simp: unregisterContext_def change_key_def id_key_def del_active_def del_change_def Let_def
      split: option.split)

section \<open>The registry invariant\<close>

definition made_for :: "('g, 's) rpc_env \<Rightarrow> 'g item \<Rightarrow> bool" where
  "made_for env p \<longleftrightarrow> cx_rpc (snd p) = rq_id (fst p) \<and> cx_method (snd p) = rq_method (fst p) \<and>
     cx_cancellable (snd p) = (rq_method (fst p) \<in> set (cancellable_methods env))"

text \<open>Ids grow along the list, and of two document changes with the same key the earlier one
  is cancelled.\<close>

definition ordered :: "('g, 's) rpc_env \<Rightarrow> registry \<Rightarrow> 'g item \<Rightarrow> 'g item \<Rightarrow> bool" where
  "ordered env r p q \<longleftrightarrow> cx_id (snd p) < cx_id (snd q) \<and>
     (\<forall>k. change_key env p = Some k \<longrightarrow> change_key env q = Some k \<longrightarrow> isCancelled r (snd p))"

definition reg_inv :: "('g, 's) rpc_env \<Rightarrow> 'g item list \<Rightarrow> registry \<Rightarrow> bool" where
  "reg_inv env ps r \<longleftrightarrow> active_requests r = latest id_key ps \<and>
     pending_changes r = latest (change_key env) ps \<and>
     sorted_wrt (ordered env r) ps \<and> (\<forall>p \<in> set ps. cx_id (snd p) < next_id r \<and> made_for env p)"

text \<open>Changes of a registry that concern the cells only.\<close>

definition cells_le :: "registry \<Rightarrow> registry \<Rightarrow> bool" where
  "cells_le r r' \<longleftrightarrow> active_requests r' = active_requests r \<and> pending_changes r' = pending_changes r \<and>
     next_id r \<le> next_id r' \<and> cancelled_cells r \<subseteq> cancelled_cells r' \<and> started_cells r \<subseteq> started_cells r'"

lemma cells_le_refl [simp]: "cells_le r r"
  by (simp add: cells_le_def)

lemma cells_le_trans: "cells_le a b \<Longrightarrow> cells_le b c \<Longrightarrow> cells_le a c"
  by (auto simp: cells_le_def)

lemma isCancelled_mono: "cancelled_cells r \<subseteq> cancelled_cells r' \<Longrightarrow> isCancelled r c \<Longrightarrow> isCancelled r' c"
  by (auto simp: isCancelled_def)

lemma reg_inv_cells: "cells_le r r' \<Longrightarrow> reg_inv env ps r \<Longrightarrow> reg_inv env ps r'"
  unfolding reg_inv_def cells_le_def
  by (fastforce elim!: sorted_wrt_mono_rel [rotated] simp: ordered_def dest: isCancelled_mono)

lemma cells_le_ops [simp]: "cells_le r (ctx_cancel c r)" "cells_le r (markStarted c r)"
  "cells_le r (cancelRequest i r)" "cells_le r (r\<lparr>next_id := next_id r + 1\<rparr>)"
  by (auto simp: cells_le_def ctx_cancel_def markStarted_def cancelRequest_def split: option.splits)

lemma latest_dom: "p \<in> set ps \<Longrightarrow> key p = Some k \<Longrightarrow> \<exists>c. latest key ps k = Some c"
  by (induction ps rule: rev_induct) (auto simp: latest_snoc split: option.splits)

lemma latest_or_cancelled:
  assumes "sorted_wrt (ordered env r) ps" and "p \<in> set ps" and "change_key env p = Some k"
    and "latest (change_key env) ps k = Some c"
  shows "snd p = c \<or> isCancelled r (snd p)"
  using assms
proof (induction ps rule: rev_induct)
  case (snoc q ps)
  show ?case
  proof (cases "change_key env q = Some k")
    case True
    then show ?thesis using snoc.prems by (auto simp: latest_snoc sorted_wrt_append ordered_def)
  next
    case False
    then show ?thesis using snoc by (auto simp: latest_snoc sorted_wrt_append split: option.splits)
  qed
qed simp

lemma registerContext_cells:
  "next_id (registerContext env rq cx r) = next_id r"
  "cancelled_cells r \<subseteq> cancelled_cells (registerContext env rq cx r)"
  "started_cells (registerContext env rq cx r) = started_cells r"
  by (auto simp: registerContext_def register_change_def ctx_cancel_def Let_def split: option.splits)

lemma register_cancels_older:
  assumes "change_key env (rq, cx) = Some k" and "pending_changes r k = Some old"
    and "cx_id old \<noteq> cx_id cx" and "cx_cancellable old"
  shows "isCancelled (registerContext env rq cx r) old"
  using assms
  by (auto simp: registerContext_def change_key_def register_change_def ctx_cancel_def isCancelled_def
      has_state_def Let_def split: option.splits if_splits)

lemma unregister_tables_other:
  "pending_changes (put_active i cx r) = pending_changes r" "active_requests (register_change k cx r) = active_requests r"
  "pending_changes (del_active i cx r) = pending_changes r" "active_requests (del_change k cx r) = active_requests r"
  by (auto simp: put_active_def del_active_def del_change_def register_change_def Let_def split: option.splits)

lemma register_tables:
  assumes "active_requests r = latest id_key ps" and "pending_changes r = latest (change_key env) ps"
  shows "active_requests (registerContext env rq cx r) = latest id_key (ps @ [(rq, cx)])"
    and "pending_changes (registerContext env rq cx r) = latest (change_key env) (ps @ [(rq, cx)])"
  using assms active.put_tracks [of r ps "(rq, cx)"] active.skip_tracks [of r ps "(rq, cx)"]
    changes.put_tracks [of _ env ps "(rq, cx)"] changes.skip_tracks [of _ env ps "(rq, cx)"]
  by (auto simp: registerContext_alt unregister_tables_other split: option.splits)

lemma register_inv:
  assumes inv: "reg_inv env ps r" and cx: "createContext env rq r = (cx, r1)"
  shows "reg_inv env (ps @ [(rq, cx)]) (registerContext env rq cx r1)"
proof -
  let ?r2 = "registerContext env rq cx r1"
  have r1: "r1 = r\<lparr>next_id := next_id r + 1\<rparr>" "cx_id cx = next_id r" "made_for env (rq, cx)"
    using cx by (auto simp: createContext_def made_for_def)
  have i1: "reg_inv env ps r1" using inv reg_inv_cells r1(1) cells_le_ops(4) by blast
  then have so: "sorted_wrt (ordered env ?r2) ps"
    using isCancelled_mono [OF registerContext_cells(2)]
    by (auto simp: reg_inv_def ordered_def elim!: sorted_wrt_mono_rel [rotated])
  have "ordered env ?r2 p (rq, cx)" if p: "p \<in> set ps" for p
    unfolding ordered_def
  proof (intro conjI allI impI)
    show "cx_id (snd p) < cx_id (snd (rq, cx))" using inv p r1(2) by (auto simp: reg_inv_def)
    fix k
    assume k: "change_key env p = Some k" "change_key env (rq, cx) = Some k"
    obtain old where old: "latest (change_key env) ps k = Some old" using latest_dom [of p ps "change_key env" k] p k(1) by blast
    then obtain q where q: "q \<in> set ps" "change_key env q = Some k" "snd q = old" using latest_mem by metis
    have "cx_id old \<noteq> cx_id cx" "cx_cancellable old"
      using q inv r1(2) by (auto simp: reg_inv_def change_key_def split: if_splits)
    then have "isCancelled ?r2 old"
      using register_cancels_older [OF k(2)] old i1 by (auto simp: reg_inv_def)
    moreover have "snd p = old \<or> isCancelled r1 (snd p)"
      using latest_or_cancelled [OF _ p k(1) old] i1 by (auto simp: reg_inv_def)
    ultimately show "isCancelled ?r2 (snd p)"
      using isCancelled_mono [OF registerContext_cells(2)] by auto
  qed
  moreover have "\<forall>p \<in> set ps. cx_id (snd p) < next_id r \<and> made_for env p" using inv by (simp add: reg_inv_def)
  ultimately show ?thesis
    using so i1 register_tables [of r1 ps env rq cx] r1
    by (auto simp: reg_inv_def sorted_wrt_append registerContext_cells)
qed

lemma unregister_cells:
  "next_id (unregisterContext env rq cx r) = next_id r"
  "cancelled_cells (unregisterContext env rq cx r) = cancelled_cells r"
  "started_cells (unregisterContext env rq cx r) = started_cells r"
  by (auto simp: unregisterContext_def Let_def split: option.splits)

lemma unregister_inv:
  assumes "reg_inv env ((rq, cx) # ps) r"
  shows "reg_inv env ps (unregisterContext env rq cx r)"
proof -
  have lt: "\<forall>q \<in> set ps. cx_id (snd (rq, cx)) < cx_id (snd q)"
    using assms by (auto simp: reg_inv_def ordered_def)
  have tabs: "active_requests (unregisterContext env rq cx r) = latest id_key ps"
    "pending_changes (unregisterContext env rq cx r) = latest (change_key env) ps"
    using assms active.del_tracks [OF _ _ lt, of r] active.drop_tracks [of r "(rq, cx)" ps]
      changes.del_tracks [OF _ _ lt, of _ env] changes.drop_tracks [of _ env "(rq, cx)" ps]
    by (auto simp: reg_inv_def unregisterContext_alt unregister_tables_other split: option.splits)
  have "sorted_wrt (ordered env (unregisterContext env rq cx r)) ps"
    using assms by (auto simp: reg_inv_def ordered_def isCancelled_def unregister_cells elim!: sorted_wrt_mono_rel [rotated])
  then show ?thesis using assms tabs by (simp add: reg_inv_def unregister_cells)
qed

section \<open>Handling keeps the tables\<close>

lemma process_begin_cells: "process_begin env rq cx st = (st', out) \<Longrightarrow> cells_le (reg st) (reg st')"
  by (auto simp: process_begin_def startRequest_def split: option.splits if_splits)

lemma run_notification_cells: "cells_le (reg st) (reg (fst (run_notification env h p cx polls st)))"
  by (cases h) (auto simp: run_notification_def Let_def split: sum.splits)

lemma notifyInternalError_reg [simp]: "reg (notifyInternalError m e st) = reg st"
  by (simp add: notifyInternalError_def)

lemma process_end_reg:
  "reg (fst (process_end env rq cx polls st)) = reg st \<or>
   (\<exists>h p. reg (fst (process_end env rq cx polls st)) = reg (fst (run_notification env h p cx polls st)))"
proof (cases "rq_id rq")
  case None
  show ?thesis
  proof (cases "notifications_tab env (rq_method rq)")
    case None
    then show ?thesis using \<open>rq_id rq = None\<close> by (simp add: process_end_def)
  next
    case (Some h)
    let ?p = "case rq_params rq of Some p \<Rightarrow> p | None \<Rightarrow> null_generic env"
    obtain st' e where "run_notification env h ?p cx polls st = (st', e)" by force
    then show ?thesis
      using \<open>rq_id rq = None\<close> Some
      by (intro disjI2 exI [of _ h] exI [of _ ?p])
         (auto simp: process_end_def Let_def split: option.split handler_exn.split)
  qed
next
  case (Some i)
  then show ?thesis
    by (auto simp: process_end_def Let_def split: option.split sum.split handler_exn.split prod.split)
qed

lemma process_end_cells: "process_end env rq cx polls st = (st', out) \<Longrightarrow> cells_le (reg st) (reg st')"
  using process_end_reg [of env rq cx polls st] run_notification_cells [of st env _ _ cx polls]
  by (metis cells_le_refl fst_conv)

lemma processMessage_cells: "cells_le (reg st) (reg (fst (processMessage env rq cx polls st)))"
proof -
  obtain st' out where b: "process_begin env rq cx st = (st', out)" by force
  obtain st'' out' where e: "process_end env rq cx polls st' = (st'', out')" by force
  show ?thesis
    using b e cells_le_trans [OF process_begin_cells [OF b] process_end_cells [OF e]]
      process_begin_cells [OF b]
    by (cases out) (simp_all add: processMessage_def)
qed

definition needs_reply :: "('g, 's) rpc_env \<Rightarrow> 'g rpc_request \<Rightarrow> bool" where
  "needs_reply env rq \<longleftrightarrow> rq_id rq \<noteq> None \<and> requests_tab env (rq_method rq) \<noteq> None"

lemma process_begin_out:
  "process_begin env rq cx st = (st', Some out) \<Longrightarrow> out = OutNone \<longleftrightarrow> \<not> needs_reply env rq"
  by (auto simp: process_begin_def needs_reply_def cancelled_error_def split: option.splits)

lemma process_end_out:
  "process_end env rq cx polls st = (st', out) \<Longrightarrow> out = OutNone \<longleftrightarrow> \<not> needs_reply env rq"
  by (auto simp: process_end_def needs_reply_def cancelled_error_def Let_def
      split: option.splits sum.splits handler_exn.splits prod.splits if_splits)

definition serialization_error :: "'g rpc_request \<Rightarrow> 'g message" where
  "serialization_error rq = ErrorResponse (rq_id rq) err_internal ''Failed to serialize the response''"

lemma reply_messages_count:
  assumes "writable env (serialization_error rq)" and "out = OutNone \<longleftrightarrow> \<not> needs_reply env rq"
  shows "length (reply_messages env rq out) = (if needs_reply env rq then 1 else 0)"
    and "m \<in> set (reply_messages env rq out) \<Longrightarrow> message_id m = rq_id rq"
  using assms by (auto simp: reply_messages_def serialization_error_def Let_def split: outcome.splits if_splits)

section \<open>The invariant of the server\<close>

definition in_worker :: "('g, 's) server \<Rightarrow> 'g item list" where
  "in_worker s = (case worker s of WTaken rq cx \<Rightarrow> [(rq, cx)] | WRunning rq cx \<Rightarrow> [(rq, cx)] | _ \<Rightarrow> [])"

text \<open>The messages under way, oldest first.\<close>

definition under_way :: "('g, 's) server \<Rightarrow> 'g item list" where
  "under_way s = in_worker s @ queue s @ (case hold s of None \<Rightarrow> [] | Some p \<Rightarrow> [p])"

definition is_main :: "phase \<Rightarrow> bool" where
  "is_main ph = (case ph of Main _ \<Rightarrow> True | _ \<Rightarrow> False)"

definition shape :: "('g, 's) server \<Rightarrow> bool" where
  "shape s \<longleftrightarrow> (\<not> is_main (phase s) \<longrightarrow> hold s = None)
     \<and> (worker s = WNone \<longrightarrow> queue s = [] \<and> phase s \<in> {Init, Finished, Aborted})
     \<and> (phase s \<in> {Init, Aborted} \<longrightarrow> worker s = WNone)
     \<and> (worker s = WExited \<longrightarrow> queue s = [] \<and> inputFinished s)
     \<and> (inputFinished s \<longrightarrow> phase s \<in> {Joining, Finished})
     \<and> (phase s = Joining \<longrightarrow> inputFinished s)
     \<and> (phase s = Finished \<longrightarrow> worker s \<in> {WNone, WExited})"

definition srv_inv :: "('g, 's) rpc_env \<Rightarrow> ('g, 's) server \<Rightarrow> bool" where
  "srv_inv env s \<longleftrightarrow> reg_inv env (under_way s) (reg s) \<and> shape s"

lemma with_core_fields [simp]:
  "reg (with_core s c) = reg c" "impl (with_core s c) = impl c" "outbox (with_core s c) = outbox c"
  "phase (with_core s c) = phase s" "hold (with_core s c) = hold s" "queue (with_core s c) = queue s"
  "worker (with_core s c) = worker s" "inputFinished (with_core s c) = inputFinished s"
  by (simp_all add: with_core_def)

lemma core_of_fields [simp]: "reg (core_of s) = reg s" "impl (core_of s) = impl s" "outbox (core_of s) = outbox s"
  by (simp_all add: core_of_def core.truncate_def)

lemma finish_message_fields [simp]:
  "reg (finish_message env rq cx out st) = unregisterContext env rq cx (reg st)"
  "impl (finish_message env rq cx out st) = impl st"
  by (simp_all add: finish_message_def)

lemma handleMessage_new_inv:
  assumes "reg_inv env [] (reg st)"
  shows "reg_inv env [] (reg (handleMessage_new env rq polls st))"
proof -
  obtain cx r where cx: "createContext env rq (reg st) = (cx, r)" by force
  let ?st = "st\<lparr>reg := registerContext env rq cx r\<rparr>"
  have "reg_inv env [(rq, cx)] (reg ?st)" using register_inv [OF assms cx] by simp
  then have "reg_inv env [(rq, cx)] (reg (fst (processMessage env rq cx polls ?st)))"
    using reg_inv_cells [OF processMessage_cells] by blast
  then show ?thesis
    using unregister_inv
    by (cases "processMessage env rq cx polls ?st") (simp add: handleMessage_new_def handleMessage_def cx)
qed

lemma createContext_cells: "createContext env rq r = (cx, r') \<Longrightarrow> cells_le r r'"
  by (auto simp: createContext_def cells_le_def)

lemma handleCancelRequest_inv:
  assumes "reg_inv env ps (reg s)"
  shows "reg_inv env ps (reg (handleCancelRequest env rq polls s))"
proof -
  obtain cx r where cx: "createContext env rq (reg s) = (cx, r)" by force
  then have "reg_inv env ps r" using reg_inv_cells [OF createContext_cells assms] by blast
  then show ?thesis
    using reg_inv_cells [OF processMessage_cells [of "(core_of s)\<lparr>reg := r\<rparr>"]]
    by (simp add: handleCancelRequest_def cx)
qed

lemma handleCancelRequest_fields [simp]:
  "phase (handleCancelRequest env rq polls s) = phase s" "hold (handleCancelRequest env rq polls s) = hold s"
  "queue (handleCancelRequest env rq polls s) = queue s" "worker (handleCancelRequest env rq polls s) = worker s"
  "inputFinished (handleCancelRequest env rq polls s) = inputFinished s"
  by (simp_all add: handleCancelRequest_def split: prod.split)

lemma shape_step: "rpc_step env s ev s' \<Longrightarrow> shape s \<Longrightarrow> shape s'"
  by (induction rule: rpc_step.induct)
    (auto simp: shape_def is_main_def send_error_def begin_queueing_def split: prod.split phase.splits)

lemma under_way_worker:
  "worker s \<in> {WTaken rq cx, WRunning rq cx} \<Longrightarrow> \<exists>ps. under_way s = (rq, cx) # ps \<and>
     under_way ((with_core s c)\<lparr>worker := WIdle\<rparr>) = ps"
  by (auto simp: under_way_def in_worker_def)

lemma finish_inv:
  assumes "reg_inv env (under_way s) (reg s)" and "worker s \<in> {WTaken rq cx, WRunning rq cx}"
    and "cells_le (reg s) (reg c)"
  shows "reg_inv env (under_way ((with_core s (finish_message env rq cx out c))\<lparr>worker := WIdle\<rparr>))
     (reg ((with_core s (finish_message env rq cx out c))\<lparr>worker := WIdle\<rparr>))"
  using under_way_worker [OF assms(2), of "finish_message env rq cx out c"]
    unregister_inv reg_inv_cells [OF assms(3, 1)] by fastforce

lemma reg_inv_step: "rpc_step env s ev s' \<Longrightarrow> srv_inv env s \<Longrightarrow> reg_inv env (under_way s') (reg s')"
proof (induction rule: rpc_step.induct)
  case (init_accept s rq)
  then have e: "under_way s = []" by (auto simp: srv_inv_def shape_def is_main_def under_way_def in_worker_def)
  then have "reg_inv env [] (reg (core_of s))" using init_accept by (simp add: srv_inv_def)
  then have "reg_inv env [] (reg (handleMessage_new env rq (flag_reads None) (core_of s)))"
    by (rule handleMessage_new_inv)
  moreover have "under_way ((with_core s c)\<lparr>phase := Main 0, worker := WIdle\<rparr>) = []" for c
    using e by (auto simp: under_way_def in_worker_def split: option.splits)
  ultimately show ?case by simp
next
  case (read_cancel s n rq)
  then show ?case
    using handleCancelRequest_inv [of env "under_way s" s rq] by (simp add: srv_inv_def under_way_def in_worker_def)
next
  case (drain_cancel s rq)
  then show ?case
    using handleCancelRequest_inv [of env "under_way s" s rq] by (simp add: srv_inv_def under_way_def in_worker_def)
next
  case (read_message s n rq)
  obtain cx r where cx: "createContext env rq (reg s) = (cx, r)" by force
  show ?case
    using register_inv [OF _ cx, of "under_way s"] read_message
    by (simp add: srv_inv_def begin_queueing_def cx under_way_def in_worker_def)
next
  case (begin_done s rq cx c out)
  then show ?case
    using process_begin_cells [OF begin_done(2)] by (intro finish_inv) (auto simp: srv_inv_def)
next
  case (end_run s rq cx first c out)
  then show ?case
    using process_end_cells [OF end_run(3)] by (intro finish_inv) (auto simp: srv_inv_def)
next
  case (begin_run s rq cx c)
  then show ?case
    using reg_inv_cells [OF process_begin_cells [OF begin_run(2)]]
    by (auto simp: srv_inv_def under_way_def in_worker_def)
qed (auto simp: srv_inv_def under_way_def in_worker_def send_error_def shape_def is_main_def split: worker.splits option.splits)

lemma srv_inv_start: "srv_inv env (start s0)"
  by (simp add: srv_inv_def reg_inv_def shape_def start_def init_registry_def under_way_def in_worker_def is_main_def)

lemma srv_inv_run: "rpc_run env s evs s' \<Longrightarrow> srv_inv env s \<Longrightarrow> srv_inv env s'"
  by (induction rule: rpc_run.induct) (auto simp: srv_inv_def dest: reg_inv_step [unfolded srv_inv_def] shape_step)

section \<open>The order of replies\<close>

fun queued_items :: "'g event list \<Rightarrow> 'g item list" where
  "queued_items [] = []"
| "queued_items (Queued rq cx # evs) = (rq, cx) # queued_items evs"
| "queued_items (_ # evs) = queued_items evs"

fun handled_items :: "'g event list \<Rightarrow> 'g item list" where
  "handled_items [] = []"
| "handled_items (Handled rq cx ms # evs) = (rq, cx) # handled_items evs"
| "handled_items (_ # evs) = handled_items evs"

lemma queued_items_append [simp]: "queued_items (xs @ ys) = queued_items xs @ queued_items ys"
  by (induction xs rule: queued_items.induct) auto

lemma handled_items_append [simp]: "handled_items (xs @ ys) = handled_items xs @ handled_items ys"
  by (induction xs rule: handled_items.induct) auto

definition reply_ok :: "('g, 's) rpc_env \<Rightarrow> 'g event \<Rightarrow> bool" where
  "reply_ok env ev = (case ev of
     Handled rq cx ms \<Rightarrow> (if needs_reply env rq then (\<exists>m. ms = [m] \<and> message_id m = rq_id rq) else ms = [])
   | _ \<Rightarrow> True)"

lemma fifo_step:
  "rpc_step env s ev s' \<Longrightarrow> srv_inv env s \<Longrightarrow>
   in_worker s @ queue s @ queued_items [ev] = handled_items [ev] @ in_worker s' @ queue s'"
  by (induction rule: rpc_step.induct)
    (auto simp: in_worker_def send_error_def begin_queueing_def srv_inv_def shape_def split: worker.splits prod.split)

lemma reply_step:
  assumes "rpc_step env s ev s'" and "\<And>rq. writable env (serialization_error rq)"
  shows "reply_ok env ev"
proof -
  have r: "reply_ok env (Handled rq cx (reply_messages env rq out))" if "out = OutNone \<longleftrightarrow> \<not> needs_reply env rq" for rq cx out
    using reply_messages_count [OF assms(2) that] by (auto simp: reply_ok_def length_Suc_conv)
  show ?thesis
    using assms(1) r
    by (induction rule: rpc_step.induct)
      (auto simp: reply_ok_def [of env Quiet] reply_ok_def [of env "Queued _ _"] dest: process_begin_out process_end_out)
qed

lemma fifo_run:
  "rpc_run env s evs s' \<Longrightarrow> srv_inv env s \<Longrightarrow>
   in_worker s @ queue s @ queued_items evs = handled_items evs @ in_worker s' @ queue s'"
proof (induction rule: rpc_run.induct)
  case (run_snoc s evs s' ev s'')
  then show ?case using fifo_step [OF run_snoc(2)] srv_inv_run [OF run_snoc(1)]
    by simp (metis append_assoc)
qed simp

lemma reply_run:
  assumes "rpc_run env s evs s'" and "\<And>rq. writable env (serialization_error rq)"
  shows "\<forall>ev \<in> set evs. reply_ok env ev"
  using assms(1) by (induction rule: rpc_run.induct) (auto intro: reply_step assms(2))

section \<open>Cancellation before the handler\<close>

lemma handled_cells_step:
  assumes "rpc_step env s ev s'" and "isCancelled (reg s) cx"
  shows "isCancelled (reg s') cx"
proof -
  have r: "cancelled_cells (reg s) \<subseteq> cancelled_cells (reg s')"
    using assms(1)
  proof (induction rule: rpc_step.induct)
    case (init_accept s rq)
    obtain cx r where cx: "createContext env rq (reg s) = (cx, r)" by force
    let ?st = "(core_of s)\<lparr>reg := registerContext env rq cx r\<rparr>"
    have "cancelled_cells (reg s) \<subseteq> cancelled_cells (registerContext env rq cx r)"
      using registerContext_cells(2) [of r env rq cx] createContext_cells [OF cx] by (auto simp: cells_le_def)
    then show ?case
      using processMessage_cells [of ?st env rq cx "flag_reads None"]
      by (cases "processMessage env rq cx (flag_reads None) ?st")
         (auto simp: handleMessage_new_def handleMessage_def cx unregister_cells cells_le_def)
  next
    case (read_message s n rq)
    obtain cx r where cx: "createContext env rq (reg s) = (cx, r)" by force
    then show ?case
      using registerContext_cells(2) [of r env rq cx] createContext_cells [OF cx]
      by (auto simp: begin_queueing_def cells_le_def)
  next
    case (begin_done s rq cx c out)
    then show ?case using process_begin_cells [OF begin_done(2)] by (auto simp: cells_le_def unregister_cells)
  next
    case (end_run s rq cx first c out)
    then show ?case using process_end_cells [OF end_run(3)] by (auto simp: cells_le_def unregister_cells)
  next
    case (begin_run s rq cx c)
    then show ?case using process_begin_cells [OF begin_run(2)] by (auto simp: cells_le_def)
  next
    case (read_cancel s n rq)
    obtain cx r where cx: "createContext env rq (reg s) = (cx, r)" by force
    then show ?case
      using processMessage_cells [of "(core_of s)\<lparr>reg := r\<rparr>" env rq cx "flag_reads None"] createContext_cells [OF cx]
      by (auto simp: handleCancelRequest_def cells_le_def)
  next
    case (drain_cancel s rq)
    obtain cx r where cx: "createContext env rq (reg s) = (cx, r)" by force
    then show ?case
      using processMessage_cells [of "(core_of s)\<lparr>reg := r\<rparr>" env rq cx "flag_reads None"] createContext_cells [OF cx]
      by (auto simp: handleCancelRequest_def cells_le_def)
  qed (auto simp: send_error_def)
  then show ?thesis using assms(2) isCancelled_mono by blast
qed

text \<open>A message whose context is cancelled while it waits never reaches a running worker, and its
  only reply is the cancellation error.\<close>

definition waits_cancelled :: "('g, 's) server \<Rightarrow> 'g item \<Rightarrow> bool" where
  "waits_cancelled s p \<longleftrightarrow> isCancelled (reg s) (snd p) \<and> worker s \<noteq> WRunning (fst p) (snd p)"

lemma cancelled_step:
  assumes "rpc_step env s ev s'" and "waits_cancelled s (rq, cx)" and "needs_reply env rq"
  shows "waits_cancelled s' (rq, cx)"
    and "ev = Handled rq cx ms \<Longrightarrow> ms = reply_messages env rq cancelled_error \<and> impl s' = impl s"
proof -
  have nb: "process_begin env rq cx (core_of s) = (core_of s, Some cancelled_error)"
    using assms(2, 3)
    by (auto simp: process_begin_def needs_reply_def waits_cancelled_def startRequest_def split: option.splits)
  have "worker s' \<noteq> WRunning rq cx"
    using assms(1)
  proof cases
    case (begin_run rq' cx' c)
    then show ?thesis using nb by auto
  qed (use assms(2) in \<open>auto simp: waits_cancelled_def send_error_def begin_queueing_def split: prod.split\<close>)
  then show "waits_cancelled s' (rq, cx)"
    using handled_cells_step [OF assms(1)] assms(2) by (simp add: waits_cancelled_def)
  show "ms = reply_messages env rq cancelled_error \<and> impl s' = impl s" if "ev = Handled rq cx ms"
    using assms(1) unfolding that
  proof cases
    case (begin_done c out)
    then show ?thesis using nb by auto
  next
    case (end_run first c out)
    then show ?thesis using assms(2) by (auto simp: waits_cancelled_def)
  qed
qed

lemma cancelled_run:
  assumes "rpc_run env s evs s'" and "waits_cancelled s (rq, cx)" and "needs_reply env rq"
  shows "waits_cancelled s' (rq, cx) \<and>
    (\<forall>ms. Handled rq cx ms \<in> set evs \<longrightarrow> ms = reply_messages env rq cancelled_error)"
  using assms(1, 2)
proof (induction rule: rpc_run.induct)
  case (run_snoc s evs s' ev s'')
  then show ?case using cancelled_step [OF run_snoc(2) _ assms(3)] by fastforce
qed simp

section \<open>Shutdown ends\<close>

lemma rpc_run_trans: "rpc_run env s' evs' s'' \<Longrightarrow> rpc_run env s evs s' \<Longrightarrow> rpc_run env s (evs @ evs') s''"
proof (induction rule: rpc_run.induct)
  case (run_snoc s' evs' s2 ev s3)
  then show ?case using rpc_run.run_snoc [of env s "evs @ evs'" s2 ev s3] by simp
qed simp

lemma rpc_run_cons: "rpc_step env s ev s' \<Longrightarrow> rpc_run env s' evs s'' \<Longrightarrow> rpc_run env s (ev # evs) s''"
  using rpc_run_trans [of env s' evs s'' s "[ev]"] rpc_run.run_snoc [OF rpc_run.run_nil, of env s ev s'] by simp

definition worker_load :: "('g, 's) server \<Rightarrow> nat" where
  "worker_load s = 3 * length (queue s) + (case worker s of WTaken _ _ \<Rightarrow> 2 | WRunning _ _ \<Rightarrow> 1 | _ \<Rightarrow> 0)"

lemma joining_step:
  assumes "shape s" and "phase s = Joining" and "worker s \<noteq> WExited"
  shows "\<exists>ev s'. rpc_step env s ev s' \<and> phase s' = Joining \<and>
    (worker_load s' < worker_load s \<or> worker s' = WExited)"
proof (cases "worker s")
  case WNone
  then show ?thesis using assms by (auto simp: shape_def)
next
  case WIdle
  show ?thesis
  proof (cases "queue s")
    case Nil
    then show ?thesis using exit_worker [OF WIdle, of env] assms
      by (intro exI [of _ Quiet] exI [of _ "s\<lparr>worker := WExited\<rparr>"]) (auto simp: shape_def)
  next
    case (Cons p q)
    then obtain rq cx where "queue s = (rq, cx) # q" by (cases p) auto
    then show ?thesis using take [OF WIdle, of rq cx q env] assms(2) WIdle
      by (intro exI [of _ Quiet] exI [of _ "s\<lparr>queue := q, worker := WTaken rq cx\<rparr>"]) (auto simp: worker_load_def)
  qed
next
  case (WTaken rq cx)
  obtain c out where c: "process_begin env rq cx (core_of s) = (c, out)" by force
  show ?thesis
  proof (cases out)
    case None
    then show ?thesis
      using begin_run [OF WTaken, of env c] c assms(2) WTaken
      by (intro exI [of _ Quiet] exI [of _ "(with_core s c)\<lparr>worker := WRunning rq cx\<rparr>"]) (auto simp: worker_load_def)
  next
    case (Some o')
    then show ?thesis
      using begin_done [OF WTaken, of env c o'] c assms(2) WTaken
      by (intro exI [of _ "Handled rq cx (reply_messages env rq o')"]
          exI [of _ "(with_core s (finish_message env rq cx o' c))\<lparr>worker := WIdle\<rparr>"]) (auto simp: worker_load_def)
  qed
next
  case (WRunning rq cx)
  obtain c out where c: "process_end env rq cx (flag_reads None) (core_of s) = (c, out)" by force
  then show ?thesis
    using end_run [OF WRunning _ c] assms(2) WRunning
    by (intro exI [of _ "Handled rq cx (reply_messages env rq out)"]
        exI [of _ "(with_core s (finish_message env rq cx out c))\<lparr>worker := WIdle\<rparr>"]) (auto simp: worker_load_def)
next
  case WExited
  then show ?thesis using assms by simp
qed

lemma joining_ends:
  "shape s \<Longrightarrow> phase s = Joining \<Longrightarrow> \<exists>evs s'. rpc_run env s evs s' \<and> phase s' = Finished"
proof (induction "worker_load s" arbitrary: s rule: less_induct)
  case less
  have fin: "\<exists>evs s'. rpc_run env t evs s' \<and> phase s' = Finished"
    if "phase t = Joining" "worker t = WExited" for t :: "('a, 'b) server"
    using rpc_run.run_snoc [OF rpc_run.run_nil join [OF that]] by fastforce
  show ?case
  proof (cases "worker s = WExited")
    case True
    then show ?thesis using fin less.prems by blast
  next
    case False
    then obtain ev s' where st: "rpc_step env s ev s'" "phase s' = Joining"
        "worker_load s' < worker_load s \<or> worker s' = WExited"
      using joining_step [OF less.prems] by blast
    have "shape s'" using shape_step st(1) less.prems(1) by blast
    then have "\<exists>evs s''. rpc_run env s' evs s'' \<and> phase s'' = Finished"
      using less.hyps st fin by blast
    then show ?thesis using rpc_run_cons st(1) by blast
  qed
qed

section \<open>What has started\<close>

definition waiting :: "('g, 's) server \<Rightarrow> 'g item list" where
  "waiting s = (case worker s of WTaken rq cx \<Rightarrow> [(rq, cx)] | _ \<Rightarrow> []) @ queue s
     @ (case hold s of None \<Rightarrow> [] | Some p \<Rightarrow> [p])"

definition started_inv :: "('g, 's) server \<Rightarrow> bool" where
  "started_inv s \<longleftrightarrow> (\<forall>n \<in> started_cells (reg s). n < next_id (reg s)) \<and>
     (\<forall>p \<in> set (waiting s). cx_id (snd p) \<notin> started_cells (reg s))"

lemma cancelRequest_started [simp]: "started_cells (cancelRequest i r) = started_cells r"
  by (simp add: cancelRequest_def split: option.split)

lemma process_end_started: "process_end env rq cx polls st = (st', out) \<Longrightarrow>
  started_cells (reg st') = started_cells (reg st)"
proof -
  have "started_cells (reg (fst (run_notification env h p cx polls st))) = started_cells (reg st)" for h p
    by (cases h) (auto simp: run_notification_def Let_def split: sum.splits)
  then show "process_end env rq cx polls st = (st', out) \<Longrightarrow> ?thesis"
    using process_end_reg [of env rq cx polls st] by (metis fst_conv)
qed

lemma process_begin_started: "process_begin env rq cx st = (st', out) \<Longrightarrow>
  started_cells (reg st') \<subseteq> insert (cx_id cx) (started_cells (reg st)) \<and>
  (out \<noteq> None \<longrightarrow> started_cells (reg st') = started_cells (reg st))"
  by (auto simp: process_begin_def startRequest_def markStarted_def split: option.splits if_splits)

lemma processMessage_started: "started_cells (reg (fst (processMessage env rq cx polls st)))
  \<subseteq> insert (cx_id cx) (started_cells (reg st))"
proof -
  obtain st' out where b: "process_begin env rq cx st = (st', out)" by force
  obtain st'' out' where e: "process_end env rq cx polls st' = (st'', out')" by force
  show ?thesis
    using b e process_begin_started [OF b] process_end_started [OF e]
    by (cases out) (auto simp: processMessage_def)
qed

lemma handleCancelRequest_started:
  assumes "\<forall>n \<in> started_cells (reg s). n < next_id (reg s)"
    and "\<forall>p \<in> set ps. cx_id (snd p) < next_id (reg s) \<and> cx_id (snd p) \<notin> started_cells (reg s)"
  shows "(\<forall>n \<in> started_cells (reg (handleCancelRequest env rq polls s)). n < next_id (reg (handleCancelRequest env rq polls s)))
    \<and> (\<forall>p \<in> set ps. cx_id (snd p) \<notin> started_cells (reg (handleCancelRequest env rq polls s)))"
proof -
  obtain cx r where cx: "createContext env rq (reg s) = (cx, r)" by force
  then have r: "cx_id cx = next_id (reg s)" "next_id r = next_id (reg s) + 1" "started_cells r = started_cells (reg s)"
    by (auto simp: createContext_def)
  let ?st = "(core_of s)\<lparr>reg := r\<rparr>"
  have "next_id r \<le> next_id (reg (fst (processMessage env rq cx polls ?st)))"
    using processMessage_cells [of ?st env rq cx polls] by (simp add: cells_le_def)
  then show ?thesis
    using processMessage_started [of env rq cx polls ?st] assms r
    by (fastforce simp: handleCancelRequest_def cx)
qed

lemma waiting_under_way: "p \<in> set (waiting s) \<Longrightarrow> p \<in> set (under_way s)"
  by (auto simp: waiting_def under_way_def in_worker_def split: worker.splits)

lemma started_step:
  assumes "rpc_step env s ev s'" and "srv_inv env s" and "started_inv s"
  shows "started_inv s'"
proof -
  have w: "\<forall>p \<in> set (waiting s). cx_id (snd p) < next_id (reg s) \<and> cx_id (snd p) \<notin> started_cells (reg s)"
    using assms(2, 3) waiting_under_way by (fastforce simp: srv_inv_def reg_inv_def started_inv_def)
  have n: "\<forall>n \<in> started_cells (reg s). n < next_id (reg s)" using assms(3) by (simp add: started_inv_def)
  show ?thesis
    using assms(1)
  proof cases
    case (init_accept rq)
    obtain cx r where cx: "createContext env rq (reg s) = (cx, r)" by force
    let ?st = "(core_of s)\<lparr>reg := registerContext env rq cx r\<rparr>"
    have r: "cx_id cx = next_id (reg s)" "next_id r = next_id (reg s) + 1" "started_cells r = started_cells (reg s)"
      using cx by (auto simp: createContext_def)
    have "waiting s = []" using assms(2) init_accept
      by (auto simp: srv_inv_def shape_def is_main_def waiting_def)
    then have e: "waiting s' = []" using init_accept by (auto simp: waiting_def split: option.splits)
    have "started_cells (reg s') \<subseteq> insert (next_id (reg s)) (started_cells (reg s))"
      and "next_id (reg s) + 1 \<le> next_id (reg s')"
      using processMessage_started [of env rq cx "flag_reads None" ?st]
        processMessage_cells [of ?st env rq cx "flag_reads None"] r init_accept
      by (cases "processMessage env rq cx (flag_reads None) ?st";
          simp add: handleMessage_new_def handleMessage_def cx unregister_cells registerContext_cells cells_le_def)+
    then show ?thesis using n e by (fastforce simp: started_inv_def)
  next
    case (read_cancel n rq)
    then show ?thesis using handleCancelRequest_started [OF n w] by (simp add: started_inv_def waiting_def)
  next
    case (drain_cancel rq)
    then show ?thesis using handleCancelRequest_started [OF n w] by (simp add: started_inv_def waiting_def)
  next
    case (read_message k rq)
    obtain cx r where cx: "createContext env rq (reg s) = (cx, r)" by force
    then have r: "cx_id cx = next_id (reg s)" "next_id r = next_id (reg s) + 1" "started_cells r = started_cells (reg s)"
      by (auto simp: createContext_def)
    show ?thesis
      using read_message n w r
      by (fastforce simp: started_inv_def begin_queueing_def cx registerContext_cells waiting_def)
  next
    case (begin_run rq cx c)
    have lt: "\<forall>p \<in> set (waiting s'). cx_id cx < cx_id (snd p)"
      using assms(2) begin_run
      by (auto simp: srv_inv_def reg_inv_def ordered_def under_way_def in_worker_def waiting_def split: option.splits)
    have "cells_le (reg s) (reg c)" using process_begin_cells begin_run by fastforce
    moreover have "started_cells (reg c) \<subseteq> insert (cx_id cx) (started_cells (reg s))"
      using process_begin_started begin_run by fastforce
    moreover have "cx_id cx < next_id (reg s)" using w begin_run by (auto simp: waiting_def)
    moreover have "\<forall>p \<in> set (waiting s'). p \<in> set (waiting s)" using begin_run by (auto simp: waiting_def)
    ultimately show ?thesis using begin_run n w lt by (fastforce simp: started_inv_def cells_le_def)
  next
    case (begin_done rq cx c out)
    have "started_cells (reg c) = started_cells (reg s)"
      using process_begin_started begin_done by fastforce
    moreover have "cells_le (reg s) (reg c)" using process_begin_cells begin_done by fastforce
    ultimately show ?thesis
      using begin_done n w by (fastforce simp: started_inv_def cells_le_def unregister_cells waiting_def)
  next
    case (end_run rq cx first c out)
    have "started_cells (reg c) = started_cells (reg s)"
      using process_end_started end_run by fastforce
    moreover have "cells_le (reg s) (reg c)" using process_end_cells end_run by fastforce
    ultimately show ?thesis
      using end_run n w by (fastforce simp: started_inv_def cells_le_def unregister_cells waiting_def)
  qed (use n w in \<open>auto simp: started_inv_def send_error_def waiting_def\<close>)
qed

lemma started_run: "rpc_run env s evs s' \<Longrightarrow> srv_inv env s \<Longrightarrow> started_inv s \<Longrightarrow> started_inv s'"
  by (induction rule: rpc_run.induct) (auto dest: srv_inv_run started_step)

lemma started_start: "started_inv (start s0)"
  by (simp add: started_inv_def start_def init_registry_def waiting_def)

section \<open>A small server\<close>

text \<open>One request method that echoes its parameter, and document changes; only the witnesses
  use it.\<close>

definition sample_env :: "(int, unit) rpc_env" where
  "sample_env = \<lparr>
     requests_tab = (\<lambda>m. if m = ''ping'' then Some (\<lambda>s p cx polls. (s, Inr p)) else None),
     notifications_tab = (\<lambda>m. if m = ''textDocument/didChange'' then Some (ImplHandler (\<lambda>s p cx polls. (s, None)))
        else if m = ''$/cancelRequest'' then Some CancelHandler else None),
     cancellable_methods = [''textDocument/didChange''],
     did_change_uri = (\<lambda>p. Some ''file:///a.sv''), cancel_target = (\<lambda>p. Inr (IdInt p)),
     null_generic = 0, writable = (\<lambda>_. True)\<rparr>"

definition sample_message :: "string \<Rightarrow> rpc_id option \<Rightarrow> int rpc_request" where
  "sample_message m i = \<lparr>rq_id = i, rq_method = m, rq_params = Some 7\<rparr>"

definition sample_context :: "nat \<Rightarrow> int rpc_request \<Rightarrow> rpc_context" where
  "sample_context n rq = fst (createContext sample_env rq (init_registry\<lparr>next_id := n\<rparr>))"

definition sample_main :: "(int, unit) server" where
  "sample_main = (start ())\<lparr>phase := Main 0, worker := WIdle, reg := init_registry\<lparr>next_id := 2\<rparr>\<rparr>"

definition sample_queue :: "int rpc_request \<Rightarrow> (int, unit) server \<Rightarrow> (int, unit) server" where
  "sample_queue rq s = (case createContext sample_env rq (reg s) of
     (cx, r) \<Rightarrow> s\<lparr>reg := registerContext sample_env rq cx r, queue := queue s @ [(rq, cx)]\<rparr>)"

lemma sample_init: "rpc_run sample_env (start ()) [Quiet] sample_main"
proof -
  let ?rq = "sample_message ''initialize'' None"
  have e: "(with_core (start ()) (handleMessage_new sample_env ?rq (flag_reads None) (core_of (start ()))))
      \<lparr>phase := Main 0, worker := WIdle\<rparr> = sample_main"
    by (simp add: sample_main_def handleMessage_new_def handleMessage_def createContext_def start_def
        init_registry_def sample_message_def sample_env_def registerContext_def processMessage_def
        process_begin_def finish_message_def unregisterContext_def with_core_def reply_messages_def core_of_def
        core.truncate_def)
  have "rpc_step sample_env (start ()) Quiet sample_main"
    unfolding e [symmetric] by (rule init_accept) (simp_all add: start_def sample_message_def)
  then show ?thesis using rpc_run_cons rpc_run.run_nil by fast
qed

lemma sample_queue_run:
  assumes "phase s = Main 0" and "hold s = None" and "rq_method rq \<notin> {''$/cancelRequest'', ''shutdown''}"
  shows "rpc_run sample_env s [Quiet, Queued rq (sample_context (next_id (reg s)) rq)] (sample_queue rq s)
    \<and> phase (sample_queue rq s) = Main 0 \<and> hold (sample_queue rq s) = None"
proof -
  obtain cx r where cx: "createContext sample_env rq (reg s) = (cx, r)" by force
  then have c: "sample_context (next_id (reg s)) rq = cx" by (auto simp: sample_context_def createContext_def)
  let ?s1 = "(begin_queueing sample_env rq s)\<lparr>phase := Main 0\<rparr>"
  have "rpc_step sample_env s Quiet ?s1" using assms by (intro read_message) auto
  moreover have "rpc_step sample_env ?s1 (Queued rq cx) (?s1\<lparr>hold := None, queue := queue ?s1 @ [(rq, cx)],
      phase := if rq_method rq = ''shutdown'' then Draining else Main 0\<rparr>)"
    by (rule enqueue) (simp_all add: begin_queueing_def cx)
  moreover have "?s1\<lparr>hold := None, queue := queue ?s1 @ [(rq, cx)],
      phase := if rq_method rq = ''shutdown'' then Draining else Main 0\<rparr> = sample_queue rq s"
    using assms(1-3) by (simp add: sample_queue_def begin_queueing_def cx)
  ultimately show ?thesis
    using rpc_run_cons [OF _ rpc_run_cons [OF _ rpc_run.run_nil]] c assms
    by (auto simp: sample_queue_def cx)
qed

lemma sample_queued:
  assumes "list_all (\<lambda>rq. rq_method rq \<notin> {''$/cancelRequest'', ''shutdown''}) rqs"
  shows "\<exists>evs. rpc_run sample_env (start ()) evs (fold sample_queue rqs sample_main)
    \<and> phase (fold sample_queue rqs sample_main) = Main 0 \<and> hold (fold sample_queue rqs sample_main) = None"
  using assms
proof (induction rqs rule: rev_induct)
  case Nil
  then show ?case using sample_init by (auto simp: sample_main_def start_def)
next
  case (snoc rq rqs)
  then obtain evs where e: "rpc_run sample_env (start ()) evs (fold sample_queue rqs sample_main)"
      "phase (fold sample_queue rqs sample_main) = Main 0" "hold (fold sample_queue rqs sample_main) = None"
    by auto
  from sample_queue_run [OF e(2,3), of rq] snoc.prems show ?case
    using rpc_run_trans [OF _ e(1)] by fastforce
qed

lemmas sample_simps = sample_queue_def sample_main_def start_def init_registry_def sample_message_def
  createContext_def sample_env_def

text \<open>A request whose method nobody registered gets no reply at all, not even an error.\<close>

lemma unknown_request_unanswered:
  "rq_id rq = Some i \<Longrightarrow> requests_tab env (rq_method rq) = None \<Longrightarrow>
     outbox (handleMessage env rq cx polls st) = outbox st"
  by (simp add: handleMessage_def processMessage_def process_begin_def finish_message_def reply_messages_def)

section \<open>Properties\<close>



text \<open>C2. The registry holds exactly what is under way: an id is active with the context of the
  latest message under way that carries it, a document has the context of its latest change,
  and both tables are empty when \<open>run\<close> returns, so nothing leaks.\<close>

theorem registry_matches_messages:
  assumes "rpc_run env (start s0) evs s"
  shows "active_requests (reg s) = latest id_key (under_way s)
    \<and> pending_changes (reg s) = latest (change_key env) (under_way s)
    \<and> (phase s = Finished \<longrightarrow> active_requests (reg s) = Map.empty \<and> pending_changes (reg s) = Map.empty)"
proof -
  have i: "srv_inv env s" using srv_inv_run [OF assms srv_inv_start] .
  then have "phase s = Finished \<Longrightarrow> under_way s = []"
    by (auto simp: srv_inv_def shape_def under_way_def in_worker_def is_main_def split: worker.splits)
  then show ?thesis using i by (auto simp: srv_inv_def reg_inv_def)
qed

theorem registry_matches_messages_witness:
  "\<exists>evs s. rpc_run sample_env (start ()) evs s \<and> active_requests (reg s) (IdInt 1) \<noteq> None \<and>
    active_requests (reg s) = latest id_key (under_way s)"
proof -
  let ?rqs = "[sample_message ''ping'' (Some (IdInt 1))]"
  let ?s = "fold sample_queue ?rqs sample_main"
  obtain evs where r: "rpc_run sample_env (start ()) evs ?s"
    using sample_queued [of ?rqs] by (auto simp: sample_message_def)
  have "active_requests (reg ?s) (IdInt 1) \<noteq> None" by (simp add: sample_simps registerContext_def)
  then show ?thesis using conjunct1 [OF registry_matches_messages [OF r]] r by blast
qed

text \<open>C9. A newer change of a document supersedes the older ones: of two changes of one document
  that are both under way, the earlier is cancelled, whether it waits or runs.\<close>

theorem superseded_changes_cancelled:
  assumes "rpc_run env (start s0) evs s" and "under_way s = xs @ p # ys @ q # zs"
    and "change_key env p = Some k" and "change_key env q = Some k"
  shows "isCancelled (reg s) (snd p)"
  using srv_inv_run [OF assms(1) srv_inv_start] assms(2,3,4)
  by (auto simp: srv_inv_def reg_inv_def sorted_wrt_append ordered_def)

theorem superseded_changes_cancelled_witness:
  "\<exists>evs s p q. rpc_run sample_env (start ()) evs s \<and> under_way s = [p, q] \<and> isCancelled (reg s) (snd p)"
proof -
  let ?rq = "sample_message ''textDocument/didChange'' None"
  let ?s = "fold sample_queue [?rq, ?rq] sample_main"
  obtain evs where r: "rpc_run sample_env (start ()) evs ?s"
    using sample_queued [of "[?rq, ?rq]"] by (auto simp: sample_message_def)
  obtain p q where pq: "under_way ?s = [p, q]" "change_key sample_env p \<noteq> None"
      "change_key sample_env p = change_key sample_env q"
    by (simp add: sample_simps under_way_def in_worker_def change_key_def getDidChangeKey_def
        registerContext_def register_change_def Let_def)
  then obtain k where "change_key sample_env p = Some k" "change_key sample_env q = Some k" by auto
  then have "isCancelled (reg ?s) (snd p)"
    using superseded_changes_cancelled [OF r, of "[]" p "[]" q "[]"] pq(1) by simp
  then show ?thesis using r pq(1) by blast
qed



text \<open>C12. Shutting down never hangs: from every reachable state in which the reader has stopped
  reading, the worker can finish what is queued and \<open>run\<close> returns; by then every queued message
  has been handled.\<close>

theorem stopping_finishes:
  assumes "rpc_run env (start s0) evs s" and "phase s \<in> {Stopping, Joining}"
  shows "\<exists>evs' s'. rpc_run env s evs' s' \<and> phase s' = Finished \<and>
    queued_items (evs @ evs') = handled_items (evs @ evs')"
proof -
  have inv: "srv_inv env s" using srv_inv_run [OF assms(1) srv_inv_start] .
  have "\<exists>evs' s'. rpc_run env s evs' s' \<and> phase s' = Finished"
  proof (cases "phase s = Joining")
    case True
    then show ?thesis using joining_ends inv by (auto simp: srv_inv_def)
  next
    case False
    then have st: "rpc_step env s Quiet (s\<lparr>phase := Joining, inputFinished := True\<rparr>)"
      using assms(2) by (intro stop) simp
    moreover have "shape (s\<lparr>phase := Joining, inputFinished := True\<rparr>)"
      using shape_step [OF st] inv by (simp add: srv_inv_def)
    ultimately show ?thesis using joining_ends [of "s\<lparr>phase := Joining, inputFinished := True\<rparr>" env] rpc_run_cons
      by fastforce
  qed
  then obtain evs' s' where f: "rpc_run env s evs' s'" "phase s' = Finished" by blast
  have run: "rpc_run env (start s0) (evs @ evs') s'" using rpc_run_trans [OF f(1) assms(1)] .
  have "in_worker s' @ queue s' = []"
    using srv_inv_run [OF run srv_inv_start] f(2) by (auto simp: srv_inv_def shape_def in_worker_def split: worker.splits)
  then have "queued_items (evs @ evs') = handled_items (evs @ evs')"
    using fifo_run [OF run srv_inv_start] by (simp add: start_def in_worker_def)
  then show ?thesis using f by blast
qed

theorem stopping_finishes_witness:
  "\<exists>evs s. rpc_run sample_env (start ()) evs s \<and> phase s = Stopping \<and> queue s \<noteq> [] \<and>
    (\<exists>evs' s'. rpc_run sample_env s evs' s' \<and> phase s' = Finished \<and>
      queued_items (evs @ evs') = handled_items (evs @ evs'))"
proof -
  let ?rq = "sample_message ''ping'' (Some (IdInt 1))"
  let ?s = "fold sample_queue [?rq] sample_main"
  obtain evs where r: "rpc_run sample_env (start ()) evs ?s" "phase ?s = Main 0" "hold ?s = None"
    using sample_queued [of "[?rq]"] by (auto simp: sample_message_def)
  have "rpc_run sample_env (start ()) (evs @ [Quiet]) (?s\<lparr>phase := Stopping\<rparr>)"
    using run_snoc [OF r(1) read_closed [OF r(2,3)]] .
  moreover have "queue (?s\<lparr>phase := Stopping\<rparr>) \<noteq> []" by (simp add: sample_simps)
  moreover have "phase (?s\<lparr>phase := Stopping\<rparr>) = Stopping" by simp
  ultimately show ?thesis using stopping_finishes by (metis insertI1)
qed

end
