(* ===== verification/Uri.thy ===== *)
theory Uri
  imports Prelude
begin

text \<open>
  The \<open>URI\<close> class (\<open>src/lsp/URI.cpp\<close>, \<open>include/lsp/URI.h\<close>): a URI is
  stored as one decoded string with five (offset, length) pairs into it. The POSIX
  build is modelled; the \<open>_WIN32\<close> blocks are not. \<open>ctre\<close> is not part of the
  repository: which characters its \<open>.\<close> matches is the parameter \<open>dot\<close>.
\<close>

section \<open>The class and its accessors\<close>

type_synonym range = "nat \<times> nat"

record uri =
  scheme_rng :: range
  authority_rng :: range
  path_rng :: range
  query_rng :: range
  fragment_rng :: range
  fsPath :: string
  underlying :: string

definition empty_uri :: uri where
  "empty_uri = \<lparr>scheme_rng = (0, 0), authority_rng = (0, 0), path_rng = (0, 0),
     query_rng = (0, 0), fragment_rng = (0, 0), fsPath = [], underlying = []\<rparr>"

definition view :: "uri \<Rightarrow> range \<Rightarrow> string" where
  "view u r = substr (underlying u) (fst r) (snd r)"

definition uri_scheme :: "uri \<Rightarrow> string" where
  "uri_scheme u = view u (scheme_rng u)"

definition uri_authority :: "uri \<Rightarrow> string" where
  "uri_authority u = view u (authority_rng u)"

definition uri_path :: "uri \<Rightarrow> string" where
  "uri_path u = view u (path_rng u)"

definition uri_query :: "uri \<Rightarrow> string" where
  "uri_query u = view u (query_rng u)"

definition uri_fragment :: "uri \<Rightarrow> string" where
  "uri_fragment u = view u (fragment_rng u)"

definition uri_str :: "uri \<Rightarrow> string" where
  "uri_str u = underlying u"

definition uri_eq :: "uri \<Rightarrow> uri \<Rightarrow> bool" where
  "uri_eq u v \<longleftrightarrow> underlying u = underlying v"

text \<open>\<open>getPath\<close> fills the mutable cache \<open>fsPath_\<close>, so it also returns the object.\<close>

definition uri_getPath :: "uri \<Rightarrow> string \<times> uri" where
  "uri_getPath u =
     (if fsPath u \<noteq> [] then (fsPath u, u)
      else let p = uri_path u in (p, u\<lparr>fsPath := p\<rparr>))"

section \<open>Building a URI from its components\<close>

definition slashed :: "string \<Rightarrow> string" where
  "slashed path =
     (if path = [] then ''/'' else if hd path \<noteq> CHR ''/'' then CHR ''/'' # path else path)"

definition uri_init :: "string \<Rightarrow> string \<Rightarrow> string \<Rightarrow> string \<Rightarrow> string \<Rightarrow> uri" where
  "uri_init scheme authority path0 query fragment =
    (let path = slashed path0;
         (und, pos, sc) =
           (if scheme \<noteq> [] then (scheme @ '':'', length scheme + 1, (0, length scheme))
            else ([], 0, (0, 0)));
         (und, pos) =
           (if authority \<noteq> [] \<or> scheme = ''file'' then (und @ ''//'', pos + 2) else (und, pos));
         (und, pos, au) =
           (if authority \<noteq> [] then (und @ authority, pos + length authority, (pos, length authority))
            else (und, pos, (0, 0)));
         pa = (pos, length path);
         und = und @ path;
         pos = pos + length path;
         (und, pos, qu) =
           (if query \<noteq> [] then (und @ ''?'' @ query, pos + 1 + length query, (pos + 1, length query))
            else (und, pos, (0, 0)));
         (und, pos, fr) =
           (if fragment \<noteq> []
            then (und @ ''#'' @ fragment, pos + 1 + length fragment, (pos + 1, length fragment))
            else (und, pos, (0, 0)))
     in \<lparr>scheme_rng = sc, authority_rng = au, path_rng = pa, query_rng = qu, fragment_rng = fr,
         fsPath = [], underlying = und\<rparr>)"

definition uri_fromFile :: "string \<Rightarrow> uri" where
  "uri_fromFile file = (if file = [] then empty_uri else uri_init ''file'' [] file [] [])"

section \<open>Percent encoding\<close>

definition hex_digit :: "nat \<Rightarrow> char" where
  "hex_digit n = ''0123456789ABCDEF'' ! n"

definition to_hex :: "char \<Rightarrow> string" where
  "to_hex c = [hex_digit (byte c div 16 mod 16), hex_digit (byte c mod 16)]"

definition unreserved :: "char \<Rightarrow> bool" where
  "unreserved c \<longleftrightarrow> isalnum c \<or> c \<in> set ''-._~/''"

definition encode_byte :: "char \<Rightarrow> string" where
  "encode_byte c = (if unreserved c then [c] else CHR ''%'' # to_hex c)"

definition uri_encode :: "string \<Rightarrow> string" where
  "uri_encode s = concat (map encode_byte s)"

text \<open>\<open>std::stoi(s, nullptr, 16)\<close>, that is \<open>strtol\<close> in base 16 with the
  \<open>std::invalid_argument\<close> that an empty conversion throws.\<close>

definition xvalue :: "char \<Rightarrow> int" where
  "xvalue c = (if isdigit c then int (byte c) - 48
               else if isupper c then int (byte c) - 55 else int (byte c) - 87)"

definition stoi16 :: "string \<Rightarrow> int result" where
  "stoi16 s0 =
    (let s = dropWhile isspace s0;
         neg = (s \<noteq> [] \<and> hd s = CHR ''-'');
         s = (if s \<noteq> [] \<and> (hd s = CHR ''-'' \<or> hd s = CHR ''+'') then tl s else s);
         s = (if length s > 2 \<and> s ! 0 = CHR ''0'' \<and> (s ! 1 = CHR ''x'' \<or> s ! 1 = CHR ''X'')
                 \<and> isxdigit (s ! 2) then drop 2 s else s);
         ds = takeWhile isxdigit s;
         v = foldl (\<lambda>a d. 16 * a + xvalue d) 0 ds
     in if ds = [] then Inl InvalidArgument else Inr (if neg then - v else v))"

definition char_of_int :: "int \<Rightarrow> char" where
  "char_of_int v = char_of (nat (v mod 256))"

fun uri_decode :: "string \<Rightarrow> string result" where
  "uri_decode [] = Inr []"
| "uri_decode (c # cs) =
     (if c = CHR ''%'' \<and> 2 \<le> length cs
      then case stoi16 (take 2 cs) of
             Inl e \<Rightarrow> Inl e
           | Inr v \<Rightarrow> (case uri_decode (drop 2 cs) of
                         Inl e \<Rightarrow> Inl e | Inr r \<Rightarrow> Inr (char_of_int v # r))
      else case uri_decode cs of Inl e \<Rightarrow> Inl e | Inr r \<Rightarrow> Inr (c # r))"

section \<open>Parsing\<close>

text \<open>
  The RFC 3986 pattern. Every quantified class stops at the delimiter the next element
  needs and is possessive, so a match is the left-to-right cut below; the pattern fails
  only where the fragment holds a character that \<open>.\<close> does not match.
\<close>

definition uri_match ::
  "(char \<Rightarrow> bool) \<Rightarrow> string \<Rightarrow> (string \<times> string \<times> string \<times> string \<times> string) option" where
  "uri_match dot s =
    (let in_scheme = (\<lambda>c. c \<notin> set '':/?#'');
         t = takeWhile in_scheme s;
         r = dropWhile in_scheme s;
         (scheme, r) = (if t \<noteq> [] \<and> r \<noteq> [] \<and> hd r = CHR '':'' then (t, tl r) else ([], s));
         in_auth = (\<lambda>c. c \<notin> set ''/?#'');
         (authority, r) =
           (if starts_with r ''//'' then (takeWhile in_auth (drop 2 r), dropWhile in_auth (drop 2 r))
            else ([], r));
         in_path = (\<lambda>c. c \<notin> set ''?#'');
         path = takeWhile in_path r;
         r = dropWhile in_path r;
         in_query = (\<lambda>c. c \<noteq> CHR ''#'');
         (query, r) =
           (if r \<noteq> [] \<and> hd r = CHR ''?'' then (takeWhile in_query (tl r), dropWhile in_query (tl r))
            else ([], r))
     in if r = [] then Some (scheme, authority, path, query, [])
        else if list_all dot (tl r) then Some (scheme, authority, path, query, tl r)
        else None)"

definition uri_parse :: "(char \<Rightarrow> bool) \<Rightarrow> string \<Rightarrow> uri result" where
  "uri_parse dot input =
    (case uri_match dot input of
       None \<Rightarrow> Inr empty_uri
     | Some (scheme, authority, path, query, fragment) \<Rightarrow>
        (case uri_decode authority of Inl e \<Rightarrow> Inl e | Inr authority' \<Rightarrow>
        (case uri_decode path of Inl e \<Rightarrow> Inl e | Inr path' \<Rightarrow>
        (case uri_decode query of Inl e \<Rightarrow> Inl e | Inr query' \<Rightarrow>
        (case uri_decode fragment of Inl e \<Rightarrow> Inl e | Inr fragment' \<Rightarrow>
           Inr (uri_init scheme authority' path' query' fragment'))))))"

definition uri_fromWeb :: "(char \<Rightarrow> bool) \<Rightarrow> string \<Rightarrow> uri result" where
  "uri_fromWeb dot url = uri_parse dot (''https://'' @ url)"

section \<open>Lemmas: hexadecimal digits\<close>

lemma hex_digit_props:
  assumes "n < 16"
  shows "isxdigit (hex_digit n)" "\<not> isspace (hex_digit n)" "xvalue (hex_digit n) = int n"
    "hex_digit n \<noteq> CHR ''-''" "hex_digit n \<noteq> CHR ''+''"
proof -
  have "list_all (\<lambda>n. isxdigit (hex_digit n) \<and> \<not> isspace (hex_digit n)
      \<and> xvalue (hex_digit n) = int n \<and> hex_digit n \<noteq> CHR ''-'' \<and> hex_digit n \<noteq> CHR ''+'') [0..<16]"
    by code_simp
  from list_all_upt [OF this assms]
  show "isxdigit (hex_digit n)" "\<not> isspace (hex_digit n)" "xvalue (hex_digit n) = int n"
    "hex_digit n \<noteq> CHR ''-''" "hex_digit n \<noteq> CHR ''+''"
    by blast+
qed

lemma length_to_hex [simp]: "length (to_hex c) = 2"
  by (simp add: to_hex_def)

lemma stoi16_to_hex: "stoi16 (to_hex c) = Inr (int (byte c))"
proof -
  let ?h = "byte c div 16" and ?l = "byte c mod 16"
  have h: "?h < 16" and l: "?l < 16"
    using byte_less_256 [of c] by (simp_all add: less_mult_imp_div_less)
  have "16 * ?h + ?l = byte c" by simp
  then have sum: "16 * int ?h + int ?l = int (byte c)"
    by (metis of_nat_add of_nat_mult of_nat_numeral)
  show ?thesis
    using sum h hex_digit_props [OF h] hex_digit_props [OF l]
    by (simp add: stoi16_def to_hex_def Let_def)
qed

lemma char_of_int_byte [simp]: "char_of_int (int (byte c)) = c"
proof -
  have "int (byte c) mod 256 = int (byte c)"
    using byte_less_256 [of c] by simp
  then show ?thesis by (simp add: char_of_int_def)
qed

lemma uri_decode_escape:
  "uri_decode (CHR ''%'' # to_hex c @ s) =
     (case uri_decode s of Inl e \<Rightarrow> Inl e | Inr r \<Rightarrow> Inr (c # r))"
  by (simp add: stoi16_to_hex split: sum.split)

lemma percent_reserved: "\<not> unreserved (CHR ''%'')"
  by (simp add: unreserved_def ctype_defs)

lemma uri_decode_encode_byte:
  "uri_decode (encode_byte c @ s) = (case uri_decode s of Inl e \<Rightarrow> Inl e | Inr r \<Rightarrow> Inr (c # r))"
proof (cases "unreserved c")
  case True
  then have "c \<noteq> CHR ''%''" using percent_reserved by auto
  with True show ?thesis by (simp add: encode_byte_def)
next
  case False
  then show ?thesis by (simp add: encode_byte_def uri_decode_escape del: uri_decode.simps)
qed

lemma uri_decode_encode_all: "uri_decode (uri_encode s) = Inr s"
  by (induction s) (simp_all add: uri_encode_def uri_decode_encode_byte)

interpretation uri_codec: byte_codec uri_encode uri_decode
  by unfold_locales (rule uri_decode_encode_all)

lemma uri_decode_plain: "CHR ''%'' \<notin> set s \<Longrightarrow> uri_decode s = Inr s"
  by (induction s) auto

section \<open>Lemmas: the stored ranges\<close>

lemma slashed_props [simp]: "slashed p \<noteq> []" "hd (slashed p) = CHR ''/''"
  by (simp_all add: slashed_def)

lemma slashed_id [simp]: "p \<noteq> [] \<Longrightarrow> hd p = CHR ''/'' \<Longrightarrow> slashed p = p"
  by (simp add: slashed_def)

text \<open>The parts of the underlying string, each with the delimiter that introduces it.\<close>

abbreviation scheme_part :: "string \<Rightarrow> string" where
  "scheme_part scheme \<equiv> (if scheme \<noteq> [] then scheme @ '':'' else [])"

abbreviation slash_part :: "string \<Rightarrow> string \<Rightarrow> string" where
  "slash_part scheme authority \<equiv>
     (if authority \<noteq> [] \<or> scheme = ''file'' then ''//'' else [])"

abbreviation delim_part :: "string \<Rightarrow> string \<Rightarrow> string" where
  "delim_part d s \<equiv> (if s \<noteq> [] then d @ s else [])"

lemma uri_init_fields:
  fixes scheme authority path query fragment :: string
  defines "u \<equiv> uri_init scheme authority path query fragment"
    and "pre \<equiv> scheme_part scheme @ slash_part scheme authority"
  shows "scheme_rng u = (0, length scheme)"
    and "authority_rng u = (if authority \<noteq> [] then (length pre, length authority) else (0, 0))"
    and "path_rng u = (length (pre @ authority), length (slashed path))"
    and "query_rng u = (if query \<noteq> []
           then (length (pre @ authority @ slashed path @ ''?''), length query) else (0, 0))"
    and "fragment_rng u = (if fragment \<noteq> []
           then (length (pre @ authority @ slashed path @ delim_part ''?'' query @ ''#''), length fragment)
           else (0, 0))"
    and "underlying u = pre @ authority @ slashed path @ delim_part ''?'' query
           @ delim_part ''#'' fragment"
  unfolding u_def pre_def uri_init_def Let_def
  by (cases "scheme = []"; cases "authority = []"; cases "query = []"; cases "fragment = []"; simp)+

lemma uri_init_underlying:
  "underlying (uri_init scheme authority path query fragment) =
     scheme_part scheme @ slash_part scheme authority @ authority @ slashed path @
     delim_part ''?'' query @ delim_part ''#'' fragment"
  by (simp only: uri_init_fields append_assoc)

lemma view_middle: "underlying u = a @ b @ c \<Longrightarrow> view u (length a, length b) = b"
  by (simp add: view_def substr_def)

lemma uri_init_scheme: "uri_scheme (uri_init scheme authority path query fragment) = scheme"
  unfolding uri_scheme_def uri_init_fields(1)
  by (cases "scheme = []") (simp_all add: view_def substr_def uri_init_underlying)

lemma uri_init_authority: "uri_authority (uri_init scheme authority path query fragment) = authority"
proof (cases "authority = []")
  case True
  then show ?thesis by (simp add: uri_authority_def view_def substr_def uri_init_fields)
next
  case False
  have "authority_rng (uri_init scheme authority path query fragment) =
    (length (scheme_part scheme @ slash_part scheme authority), length authority)"
    using False by (simp only: uri_init_fields(2) if_True not_False_eq_True)
  moreover have "underlying (uri_init scheme authority path query fragment) =
    (scheme_part scheme @ slash_part scheme authority) @ authority
      @ slashed path @ delim_part ''?'' query @ delim_part ''#'' fragment"
    by (simp only: uri_init_fields(6) append_assoc)
  ultimately show ?thesis
    unfolding uri_authority_def by (simp only: view_middle)
qed

lemma uri_init_path: "uri_path (uri_init scheme authority path query fragment) = slashed path"
  unfolding uri_path_def uri_init_fields(3)
  by (rule view_middle) (simp only: uri_init_fields(6) append_assoc)

lemma uri_init_query: "uri_query (uri_init scheme authority path query fragment) = query"
proof (cases "query = []")
  case True
  then show ?thesis by (simp add: uri_query_def view_def substr_def uri_init_fields)
next
  case False
  show ?thesis
    unfolding uri_query_def uri_init_fields(4) using False
    by (simp only: if_True not_False_eq_True, intro view_middle)
      (simp only: uri_init_fields(6) append_assoc if_True not_False_eq_True)
qed

lemma uri_init_fragment: "uri_fragment (uri_init scheme authority path query fragment) = fragment"
proof (cases "fragment = []")
  case True
  then show ?thesis by (simp add: uri_fragment_def view_def substr_def uri_init_fields)
next
  case False
  have "underlying (uri_init scheme authority path query fragment) =
    ((scheme_part scheme @ slash_part scheme authority) @ authority @ slashed path
      @ delim_part ''?'' query @ ''#'') @ fragment @ []"
    using False by (simp only: uri_init_fields(6) append_assoc if_True not_False_eq_True append_Nil2)
  then show ?thesis
    unfolding uri_fragment_def uri_init_fields(5) using False
    by (simp only: if_True not_False_eq_True, intro view_middle)
qed

lemmas uri_init_views =
  uri_init_scheme uri_init_authority uri_init_path uri_init_query uri_init_fragment

lemma uri_init_fsPath [simp]: "fsPath (uri_init scheme authority path query fragment) = []"
  by (simp add: uri_init_def Let_def split: if_splits)

text \<open>The cache never disagrees with the path it caches.\<close>

definition cache_ok :: "uri \<Rightarrow> bool" where
  "cache_ok u \<longleftrightarrow> fsPath u = [] \<or> fsPath u = uri_path u"

lemma uri_getPath_cache:
  "cache_ok u \<Longrightarrow> fst (uri_getPath u) = uri_path u \<and> cache_ok (snd (uri_getPath u))"
  by (auto simp: uri_getPath_def cache_ok_def uri_path_def view_def Let_def)

section \<open>Lemmas: reading back what the server writes\<close>

lemma uri_match_file:
  assumes "p \<noteq> []" "hd p = CHR ''/''" "CHR ''?'' \<notin> set p" "CHR ''#'' \<notin> set p"
  shows "uri_match dot (''file://'' @ p) = Some (''file'', [], p, [], [])"
proof -
  from assms(1,2) obtain q where p: "p = CHR ''/'' # q" by (cases p) auto
  have tw: "takeWhile (\<lambda>c. c \<noteq> CHR ''?'' \<and> c \<noteq> CHR ''#'') p = p"
    and dw: "dropWhile (\<lambda>c. c \<noteq> CHR ''?'' \<and> c \<noteq> CHR ''#'') p = []"
    using assms(3,4) by (auto simp: takeWhile_eq_all_conv dropWhile_eq_Nil_conv)
  from tw dw show ?thesis by (simp add: uri_match_def Let_def p)
qed

lemma uri_parse_file:
  assumes "p \<noteq> []" "hd p = CHR ''/''" "set p \<inter> set ''?#%'' = {}"
  shows "uri_parse dot (''file://'' @ p) = Inr (uri_init ''file'' [] p [] [])"
proof -
  from assms(3) have "CHR ''?'' \<notin> set p" "CHR ''#'' \<notin> set p" "CHR ''%'' \<notin> set p" by auto
  then show ?thesis
    using uri_match_file [OF assms(1,2), of dot] by (simp add: uri_parse_def uri_decode_plain)
qed

section \<open>Properties\<close>

text \<open>Decoding undoes encoding, for every byte string: each byte that
  \<open>encode\<close> escapes is written as two hexadecimal digits that \<open>std::stoi\<close>
  reads back, and \<open>decode\<close> throws nothing on them.\<close>

theorem uri_decode_encode: "uri_decode (uri_encode s) = Inr s"
  by (rule uri_codec.dec_enc)

text \<open>A URI built from an absolute file path is read back, by the constructor that
  parses messages, as the same URI with the same path, as long as the path has none of
  \<open>?\<close>, \<open>#\<close> and \<open>%\<close> (\<open>fromFile\<close> does not percent-encode).\<close>

theorem uri_fromFile_roundtrip:
  assumes "p \<noteq> []" and "hd p = CHR ''/''" and "set p \<inter> set ''?#%'' = {}"
  shows "uri_parse dot (uri_str (uri_fromFile p)) = Inr (uri_fromFile p)
    \<and> fst (uri_getPath (uri_fromFile p)) = p"
proof -
  have str: "uri_str (uri_fromFile p) = ''file://'' @ p"
    using assms(1,2) by (simp add: uri_str_def uri_fromFile_def uri_init_underlying)
  have path: "fst (uri_getPath (uri_fromFile p)) = p"
    using assms(1,2) by (simp add: uri_fromFile_def uri_getPath_def uri_init_path Let_def)
  show ?thesis
    using uri_parse_file [OF assms, of dot] assms(1) str path by (simp add: uri_fromFile_def)
qed

theorem uri_fromFile_roundtrip_witness:
  "uri_parse (\<lambda>_. True) (uri_str (uri_fromFile ''/home/a b.sv'')) = Inr (uri_fromFile ''/home/a b.sv'')
    \<and> fst (uri_getPath (uri_fromFile ''/home/a b.sv'')) = ''/home/a b.sv''"
  by (rule uri_fromFile_roundtrip) simp_all

text \<open>The five ranges stored by \<open>init\<close> cut the underlying string back into
  exactly the components it was built from; only the path changes, and only to gain the
  leading slash.\<close>

theorem uri_init_components:
  "uri_scheme (uri_init scheme authority path query fragment) = scheme
   \<and> uri_authority (uri_init scheme authority path query fragment) = authority
   \<and> uri_path (uri_init scheme authority path query fragment) = slashed path
   \<and> uri_query (uri_init scheme authority path query fragment) = query
   \<and> uri_fragment (uri_init scheme authority path query fragment) = fragment"
  by (simp add: uri_init_views)

end
