(* ===== verification/Utf.thy ===== *)
theory Utf
  imports Prelude "HOL-Library.Word"
begin

text \<open>
  UTF-8 validation (\<open>validUtf8SequenceLength\<close>, \<open>isValidUtf8\<close>,
  \<open>escapeInvalidUtf8\<close> of \<open>src/util/Formatting.cpp\<close>) and the two conversions
  between byte offsets and the UTF-16 columns that LSP positions use
  (\<open>utf16Length\<close>, \<open>utf16ToByteOffset\<close> of \<open>src/util/Converters.cpp\<close>).

  \<open>utf8Len\<close> and \<open>utf8Decode\<close> are slang's; they are the parameter \<open>L\<close> of
  every definition, and \<open>utf8_lib_ok\<close> states what the sources rely on.
  Columns are \<open>uint32_t\<close>, kept as \<open>32 word\<close>.
\<close>

type_synonym u32 = "32 word"

section \<open>The decoder of the library\<close>

record utf8_lib =
  utf8Len :: "char \<Rightarrow> nat"
  utf8Decode :: "string \<Rightarrow> nat \<times> int \<times> nat"  \<comment> \<open>code point, error, decoded length of four bytes\<close>

definition dec_error :: "utf8_lib \<Rightarrow> string \<Rightarrow> int" where
  "dec_error L bs = fst (snd (utf8Decode L bs))"

definition dec_length :: "utf8_lib \<Rightarrow> string \<Rightarrow> nat" where
  "dec_length L bs = snd (snd (utf8Decode L bs))"

text \<open>
  Documented behaviour: the length is read off the first byte and is at most four; an ASCII
  byte is a sequence of length one and decodes without error; a successful decode reports
  that length; and the outcome depends on no byte beyond it.
\<close>

definition utf8_lib_ok :: "utf8_lib \<Rightarrow> bool" where
  "utf8_lib_ok L \<longleftrightarrow>
     (\<forall>c. utf8Len L c \<le> 4) \<and>
     (\<forall>c. byte c < 128 \<longrightarrow> utf8Len L c = 1) \<and>
     (\<forall>bs. length bs = 4 \<longrightarrow> byte (hd bs) < 128 \<longrightarrow> dec_error L bs = 0) \<and>
     (\<forall>bs. length bs = 4 \<longrightarrow> utf8Len L (hd bs) \<noteq> 0 \<longrightarrow> dec_error L bs = 0 \<longrightarrow>
        dec_length L bs = utf8Len L (hd bs)) \<and>
     (\<forall>bs cs. length bs = 4 \<longrightarrow> length cs = 4 \<longrightarrow> hd bs = hd cs \<longrightarrow>
        take (utf8Len L (hd bs)) bs = take (utf8Len L (hd bs)) cs \<longrightarrow>
        dec_error L bs = dec_error L cs)"

section \<open>Validation\<close>

definition validUtf8SequenceLength :: "utf8_lib \<Rightarrow> string \<Rightarrow> nat" where
  "validUtf8SequenceLength L s =
    (if s = [] then 0
     else let sequenceLength = utf8Len L (hd s)
          in if sequenceLength = 0 \<or> length s < sequenceLength then 0
             else let bytes = take 4 (s @ replicate 4 (CHR 0x00))
                  in if dec_error L bytes \<noteq> 0 then 0 else dec_length L bytes)"

definition lhex :: "nat \<Rightarrow> char" where
  "lhex n = ''0123456789abcdef'' ! n"

text \<open>
  The loops below advance by the length found, or by one byte. The condition
  \<open>n \<noteq> 0\<close> of the source is what makes them stop.
\<close>

function escapeInvalidUtf8 :: "utf8_lib \<Rightarrow> string \<Rightarrow> string" where
  "escapeInvalidUtf8 L s =
    (if s = [] then []
     else let n = validUtf8SequenceLength L s
          in if n \<noteq> 0 then take n s @ escapeInvalidUtf8 L (drop n s)
             else [CHR 0x5C, CHR ''x'', lhex (byte (hd s) div 16), lhex (byte (hd s) mod 16)]
                  @ escapeInvalidUtf8 L (tl s))"
  by pat_completeness auto
termination by (relation "measure (\<lambda>(L, s). length s)") (auto simp: Let_def)

function isValidUtf8 :: "utf8_lib \<Rightarrow> string \<Rightarrow> bool" where
  "isValidUtf8 L s =
    (if s = [] then True
     else let n = validUtf8SequenceLength L s
          in if n = 0 then False else isValidUtf8 L (drop n s))"
  by pat_completeness auto
termination by (relation "measure (\<lambda>(L, s). length s)") auto

section \<open>UTF-16 columns\<close>

function utf16Length_loop :: "utf8_lib \<Rightarrow> string \<Rightarrow> u32 \<Rightarrow> u32" where
  "utf16Length_loop L text count =
    (if text = [] then count
     else if byte (hd text) < 128 then utf16Length_loop L (tl text) (count + 1)
     else let sequence = validUtf8SequenceLength L text
          in if sequence = 0 then utf16Length_loop L (tl text) (count + 1)
             else utf16Length_loop L (drop sequence text) (count + (if sequence = 4 then 2 else 1)))"
  by pat_completeness auto
termination by (relation "measure (\<lambda>(L, s, c). length s)") auto

definition utf16Length :: "utf8_lib \<Rightarrow> string \<Rightarrow> u32" where
  "utf16Length L text = utf16Length_loop L text 0"

text \<open>The loop of \<open>utf16ToByteOffset\<close>: \<open>rest\<close> is the line from byte \<open>i\<close> on,
  \<open>sz\<close> the length of the whole line.\<close>

definition step_units :: "utf8_lib \<Rightarrow> string \<Rightarrow> nat \<times> nat" where
  "step_units L rest =
    (if 128 \<le> byte (hd rest)
     then let sequence = validUtf8SequenceLength L rest
          in if sequence \<noteq> 0 then (sequence, if sequence = 4 then 2 else 1) else (1, 1)
     else (1, 1))"

lemma step_units_pos: "0 < fst (step_units L rest)"
  by (simp add: step_units_def Let_def)

function utf16ToByteOffset_loop ::
  "utf8_lib \<Rightarrow> nat \<Rightarrow> string \<Rightarrow> nat \<Rightarrow> u32 \<Rightarrow> u32 \<Rightarrow> nat option" where
  "utf16ToByteOffset_loop L sz rest i count column =
    (if rest = [] then (if count = column then Some sz else None)
     else if count = column then Some i
     else let (len, units) = step_units L rest;
              adv = min len (length rest)
          in utf16ToByteOffset_loop L sz (drop adv rest) (i + adv) (count + of_nat units) column)"
  by pat_completeness auto
termination
proof (relation "measure (\<lambda>(L, sz, rest, i, c, col). length rest)", goal_cases)
  case 1
  show ?case by simp
next
  case (2 L sz rest i count column p len units adv)
  then have "0 < len" using step_units_pos [of L rest] by (metis fst_conv)
  with 2 show ?case by (auto simp: min_def)
qed

definition utf16ToByteOffset :: "utf8_lib \<Rightarrow> string \<Rightarrow> u32 \<Rightarrow> nat option" where
  "utf16ToByteOffset L line column = utf16ToByteOffset_loop L (length line) line 0 0 column"

declare escapeInvalidUtf8.simps [simp del] isValidUtf8.simps [simp del]
  utf16Length_loop.simps [simp del] utf16ToByteOffset_loop.simps [simp del]

section \<open>The segmentation both directions share\<close>

text \<open>Abstract view of a line: its segments, each a number of bytes and of UTF-16 units.\<close>

function segs :: "utf8_lib \<Rightarrow> string \<Rightarrow> (nat \<times> nat) list" where
  "segs L s = (if s = [] then [] else step_units L s # segs L (drop (fst (step_units L s)) s))"
  by pat_completeness auto
termination by (relation "measure (\<lambda>(L, s). length s)") (auto simp: step_units_pos)

declare segs.simps [simp del]

lemma segs_Nil [simp]: "segs L [] = []"
  by (simp add: segs.simps)

lemma segs_Cons: "s \<noteq> [] \<Longrightarrow> segs L s = step_units L s # segs L (drop (fst (step_units L s)) s)"
  by (simp add: segs.simps [of L s])

abbreviation nbytes :: "(nat \<times> nat) list \<Rightarrow> nat" where
  "nbytes ss \<equiv> sum_list (map fst ss)"

abbreviation nunits :: "(nat \<times> nat) list \<Rightarrow> nat" where
  "nunits ss \<equiv> sum_list (map snd ss)"

text \<open>A byte offset at which a segment starts, or the end of the line.\<close>

definition boundary :: "utf8_lib \<Rightarrow> string \<Rightarrow> nat \<Rightarrow> bool" where
  "boundary L s i \<longleftrightarrow> i \<in> set (map (\<lambda>k. nbytes (take k (segs L s))) [0..<Suc (length (segs L s))])"

lemma boundary_iff: "boundary L s i \<longleftrightarrow> (\<exists>k \<le> length (segs L s). i = nbytes (take k (segs L s)))"
proof -
  have "set [0..<Suc (length (segs L s))] = {..length (segs L s)}" by auto
  then show ?thesis by (auto simp: boundary_def simp del: upt_Suc)
qed

subsection \<open>The validator\<close>

lemma valid_len_le: "utf8_lib_ok L \<Longrightarrow> validUtf8SequenceLength L s \<le> length s"
proof (cases "s = []")
  case False
  assume ok: "utf8_lib_ok L"
  let ?b = "take 4 (s @ replicate 4 (CHR 0x00))"
  have hd: "hd ?b = hd s" and len: "length ?b = 4"
    using False by (cases s; simp)+
  show ?thesis
  proof (cases "utf8Len L (hd s) = 0 \<or> length s < utf8Len L (hd s) \<or> dec_error L ?b \<noteq> 0")
    case True
    with False show ?thesis by (auto simp: validUtf8SequenceLength_def Let_def)
  next
    case no: False
    then have "dec_length L ?b = utf8Len L (hd s)"
      using ok len hd unfolding utf8_lib_ok_def by metis
    with no show ?thesis by (simp add: validUtf8SequenceLength_def Let_def)
  qed
qed (simp add: validUtf8SequenceLength_def)

text \<open>What a positive answer means, and that it looks at the sequence only.\<close>

lemma valid_len_Some:
  assumes ok: "utf8_lib_ok L" and n: "validUtf8SequenceLength L s = n" "n \<noteq> 0"
  shows "s \<noteq> []" "n = utf8Len L (hd s)" "n \<le> length s" "n \<le> 4"
    "dec_error L (take 4 (s @ replicate 4 (CHR 0x00))) = 0"
proof -
  show ne: "s \<noteq> []" using n by (auto simp: validUtf8SequenceLength_def)
  let ?b = "take 4 (s @ replicate 4 (CHR 0x00))"
  have hd: "hd ?b = hd s" and len: "length ?b = 4" using ne by (cases s; simp)+
  from n ne have c: "utf8Len L (hd s) \<noteq> 0" "\<not> length s < utf8Len L (hd s)" "dec_error L ?b = 0"
    and dl: "n = dec_length L ?b"
    by (auto simp: validUtf8SequenceLength_def Let_def split: if_splits)
  from c(1,3) show "n = utf8Len L (hd s)" using ok len hd dl unfolding utf8_lib_ok_def by metis
  then show "n \<le> length s" "n \<le> 4" using c(2) ok by (auto simp: utf8_lib_ok_def)
  show "dec_error L ?b = 0" by (rule c(3))
qed

lemma valid_len_local:
  assumes ok: "utf8_lib_ok L" and n: "validUtf8SequenceLength L s = n" "n \<noteq> 0"
    and t: "take n t = take n s"
  shows "validUtf8SequenceLength L t = n"
proof -
  note S = valid_len_Some [OF ok n]
  let ?b = "take 4 (s @ replicate 4 (CHR 0x00))" and ?c = "take 4 (t @ replicate 4 (CHR 0x00))"
  have lt: "n \<le> length t" using t S(3) by (metis length_take min.absorb2 min.cobounded1 nat_le_linear take_all)
  then have tne: "t \<noteq> []" using n(2) by auto
  have hd: "hd t = hd s" using t n(2) tne S(1) by (metis hd_take neq0_conv)
  have len: "length ?b = 4" "length ?c = 4" by simp_all
  have hdb: "hd ?b = hd s" "hd ?c = hd s" using S(1) tne hd by (cases s; cases t; simp)+
  have "take n ?b = take n ?c"
    using t S(3,4) lt by (simp add: min_def)
  then have e: "dec_error L ?c = 0"
    using ok len hdb S(2,5) unfolding utf8_lib_ok_def by metis
  moreover have "dec_length L ?c = n"
    using ok len(2) hdb(2) S(2) n(2) e unfolding utf8_lib_ok_def by metis
  ultimately show ?thesis
    using tne hd S(2) n(2) lt by (auto simp: validUtf8SequenceLength_def Let_def)
qed

lemma valid_len_ascii:
  assumes "utf8_lib_ok L" "s \<noteq> []" "byte (hd s) < 128"
  shows "validUtf8SequenceLength L s = 1"
proof -
  let ?b = "take 4 (s @ replicate 4 (CHR 0x00))"
  have hd: "hd ?b = hd s" and len: "length ?b = 4" using assms(2) by (cases s; simp)+
  have u: "utf8Len L (hd s) = 1" using assms by (simp add: utf8_lib_ok_def)
  have e: "dec_error L ?b = 0" using assms(1,3) len hd unfolding utf8_lib_ok_def by metis
  have "dec_length L ?b = 1" using assms(1) len hd u e unfolding utf8_lib_ok_def by (metis one_neq_zero)
  moreover have "Suc 0 \<le> length s" using assms(2) by (cases s) auto
  ultimately show ?thesis using assms(2) u e by (simp add: validUtf8SequenceLength_def Let_def)
qed

subsection \<open>Segments\<close>

lemma step_units_le: "utf8_lib_ok L \<Longrightarrow> s \<noteq> [] \<Longrightarrow> fst (step_units L s) \<le> length s"
  using valid_len_le [of L s] by (cases s) (auto simp: step_units_def Let_def)

lemma step_units_units:
  "0 < snd (step_units L s)" "snd (step_units L s) \<le> fst (step_units L s)"
  by (auto simp: step_units_def Let_def)

lemma step_units_ascii: "byte (hd s) < 128 \<Longrightarrow> step_units L s = (1, 1)"
  by (simp add: step_units_def)

lemma step_units_prefix:
  assumes ok: "utf8_lib_ok L" and s: "s \<noteq> []" and m: "fst (step_units L s) \<le> m"
  shows "step_units L (take m s) = step_units L s"
proof -
  have mpos: "0 < m" using m step_units_pos [of L s] by simp
  then have hd: "hd (take m s) = hd s" using s by simp
  have "validUtf8SequenceLength L (take m s) = validUtf8SequenceLength L s" if "128 \<le> byte (hd s)"
  proof (cases "validUtf8SequenceLength L s = 0")
    case True
    show ?thesis
    proof (rule ccontr)
      let ?n = "validUtf8SequenceLength L (take m s)"
      assume "?n \<noteq> validUtf8SequenceLength L s"
      with True have n: "?n \<noteq> 0" by simp
      then have "?n \<le> m" using valid_len_le [OF ok, of "take m s"] by simp
      then have "take ?n s = take ?n (take m s)" by (simp add: min_def)
      with valid_len_local [OF ok refl n] have "validUtf8SequenceLength L s = ?n" by blast
      with True n show False by simp
    qed
  next
    case False
    let ?n = "validUtf8SequenceLength L s"
    have "?n \<le> m" using m False that by (simp add: step_units_def Let_def)
    then have "take ?n (take m s) = take ?n s" by (simp add: min_def)
    then show ?thesis using valid_len_local [OF ok refl False] by blast
  qed
  then show ?thesis using hd by (simp add: step_units_def Let_def)
qed

lemma nunits_le_nbytes: "nunits (segs L s) \<le> nbytes (segs L s)"
proof (induction L s rule: segs.induct)
  case (1 L s)
  then show ?case
    using step_units_units [of L s] by (cases "s = []") (auto simp: segs_Cons)
qed

lemma nbytes_segs: "utf8_lib_ok L \<Longrightarrow> nbytes (segs L s) = length s"
proof (induction L s rule: segs.induct)
  case (1 L s)
  then show ?case
    using step_units_le [of L s] by (cases "s = []") (auto simp: segs_Cons)
qed

lemma nunits_bound: "utf8_lib_ok L \<Longrightarrow> length s < 2 ^ 32 \<Longrightarrow> nunits (segs L s) < 2 ^ 32"
  using nunits_le_nbytes [of L s] nbytes_segs [of L s] by simp

lemma segs_units_pos: "x \<in> set (segs L s) \<Longrightarrow> 0 < snd x"
proof (induction L s rule: segs.induct)
  case (1 L s)
  then show ?case
    using step_units_units(1) [of L s] by (cases "s = []") (auto simp: segs_Cons)
qed

lemma segs_take:
  "utf8_lib_ok L \<Longrightarrow> k \<le> length (segs L s) \<Longrightarrow>
     segs L (take (nbytes (take k (segs L s))) s) = take k (segs L s)"
proof (induction L s arbitrary: k rule: segs.induct)
  case (1 L s)
  show ?case
  proof (cases "s = [] \<or> k = 0")
    case True
    then show ?thesis by auto
  next
    case False
    let ?n = "fst (step_units L s)"
    from False obtain k' where k: "k = Suc k'" by (cases k) auto
    let ?m = "nbytes (take k' (segs L (drop ?n s)))"
    have IH: "segs L (take ?m (drop ?n s)) = take k' (segs L (drop ?n s))"
      using "1" False k by (simp add: segs_Cons)
    have "take (?n + ?m) s \<noteq> []" using False step_units_pos [of L s] by auto
    moreover have "step_units L (take (?n + ?m) s) = step_units L s"
      using False "1.prems"(1) by (intro step_units_prefix) auto
    moreover have "drop ?n (take (?n + ?m) s) = take ?m (drop ?n s)"
      by (simp add: drop_take)
    ultimately have "segs L (take (?n + ?m) s) = step_units L s # take k' (segs L (drop ?n s))"
      using IH by (simp add: segs_Cons)
    then show ?thesis using False k by (simp add: segs_Cons)
  qed
qed

subsection \<open>The two loops as functions of the segments\<close>

lemma utf16Length_loop_segs:
  "utf16Length_loop L str count = count + of_nat (nunits (segs L str))"
proof (induction L str count rule: utf16Length_loop.induct)
  case (1 L str count)
  show ?case
  proof (cases "str = []")
    case True
    then show ?thesis by (simp add: utf16Length_loop.simps [of L "[]"])
  next
    case False
    let ?n = "validUtf8SequenceLength L str"
    show ?thesis
    proof (cases "byte (hd str) < 128 \<or> ?n = 0")
      case True
      with "1" False have "utf16Length_loop L str count =
          count + 1 + of_nat (nunits (segs L (tl str)))"
        by (subst utf16Length_loop.simps) (auto simp: Let_def)
      moreover have "step_units L str = (1, 1)"
        using True by (auto simp: step_units_def Let_def)
      ultimately show ?thesis using False by (simp add: segs_Cons drop_Suc)
    next
      case c: False
      with "1"(3) False have "utf16Length_loop L str count =
          count + (if ?n = 4 then 2 else 1) + of_nat (nunits (segs L (drop ?n str)))"
        by (subst utf16Length_loop.simps) (auto simp: Let_def)
      moreover have "step_units L str = (?n, if ?n = 4 then 2 else 1)"
        using c by (auto simp: step_units_def Let_def)
      ultimately show ?thesis using False by (auto simp: segs_Cons)
    qed
  qed
qed

lemma utf16Length_segs: "utf16Length L text = of_nat (nunits (segs L text))"
  by (simp add: utf16Length_def utf16Length_loop_segs)

fun seg_find :: "(nat \<times> nat) list \<Rightarrow> nat \<Rightarrow> u32 \<Rightarrow> u32 \<Rightarrow> nat option" where
  "seg_find [] i count column = (if count = column then Some i else None)"
| "seg_find (nu # ss) i count column =
     (if count = column then Some i else seg_find ss (i + fst nu) (count + of_nat (snd nu)) column)"

lemma utf16ToByteOffset_loop_segs:
  "utf8_lib_ok L \<Longrightarrow> sz = i + length rest \<Longrightarrow>
     utf16ToByteOffset_loop L sz rest i count column = seg_find (segs L rest) i count column"
proof (induction L sz rest i count column rule: utf16ToByteOffset_loop.induct)
  case (1 L sz rest i count column)
  show ?case
  proof (cases "rest = [] \<or> count = column")
    case True
    then show ?thesis
      using "1.prems" by (subst utf16ToByteOffset_loop.simps) (auto simp: segs_Cons)
  next
    case False
    let ?n = "fst (step_units L rest)" and ?u = "snd (step_units L rest)"
    have le: "?n \<le> length rest" using False "1.prems"(1) by (intro step_units_le) auto
    have "utf16ToByteOffset_loop L sz (drop ?n rest) (i + ?n) (count + of_nat ?u) column =
        seg_find (segs L (drop ?n rest)) (i + ?n) (count + of_nat ?u) column"
      using False le "1.prems" by (intro "1.IH" [OF _ _ refl prod.collapse]) (auto simp: min_def)
    then show ?thesis
      using False le by (subst utf16ToByteOffset_loop.simps)
        (simp add: segs_Cons split_beta Let_def min_def)
  qed
qed

lemma utf16ToByteOffset_segs:
  "utf8_lib_ok L \<Longrightarrow> utf16ToByteOffset L line column = seg_find (segs L line) 0 0 column"
  by (simp add: utf16ToByteOffset_def utf16ToByteOffset_loop_segs)

lemma seg_find_Some:
  "seg_find ss i count column = Some j \<Longrightarrow>
     \<exists>k \<le> length ss. j = i + nbytes (take k ss) \<and> column = count + of_nat (nunits (take k ss))"
proof (induction ss arbitrary: i count)
  case Nil
  then show ?case by (auto split: if_splits)
next
  case (Cons nu ss)
  show ?case
  proof (cases "count = column")
    case True
    with Cons.prems show ?thesis by (intro exI [of _ 0]) simp
  next
    case False
    with Cons.prems have "seg_find ss (i + fst nu) (count + of_nat (snd nu)) column = Some j" by simp
    from Cons.IH [OF this] obtain k where "k \<le> length ss"
      "j = i + fst nu + nbytes (take k ss)"
      "column = count + of_nat (snd nu) + of_nat (nunits (take k ss))" by blast
    then show ?thesis by (intro exI [of _ "Suc k"]) (simp add: ac_simps)
  qed
qed

lemma seg_find_hit:
  assumes "\<forall>x \<in> set ss. 0 < snd x" "k \<le> length ss" "nunits ss < 2 ^ 32"
  shows "seg_find ss i count (count + of_nat (nunits (take k ss))) = Some (i + nbytes (take k ss))"
  using assms
proof (induction ss arbitrary: i count k)
  case Nil
  then show ?case by simp
next
  case (Cons nu ss)
  show ?case
  proof (cases k)
    case 0
    then show ?thesis by simp
  next
    case (Suc k')
    let ?t = "nunits (take k' ss)"
    have "?t \<le> nunits ss"
      by (metis add_leE append_take_drop_id le_add1 map_append sum_list_append)
    then have b: "0 < snd nu + ?t" "snd nu + ?t < 2 ^ 32" using Cons.prems by auto
    have "(of_nat (snd nu + ?t) :: u32) \<noteq> 0"
      using b by (simp add: word_of_nat_eq_0_iff nat_dvd_not_less del: of_nat_add)
    then have "count \<noteq> count + (of_nat (snd nu) + of_nat ?t)" by simp
    moreover have "seg_find ss (i + fst nu) (count + of_nat (snd nu))
        (count + of_nat (snd nu) + of_nat ?t) = Some (i + fst nu + nbytes (take k' ss))"
      using Cons.prems Suc by (intro Cons.IH) auto
    ultimately show ?thesis using Suc by (simp add: ac_simps)
  qed
qed

section \<open>The contract of the column conversions\<close>

text \<open>
  What the position conversions and the document edits rely on: an offset found for a column
  lies on a boundary of the line and measures back to that column, and the column measured
  up to a boundary leads back to it.
\<close>

locale columns =
  fixes good :: "'l \<Rightarrow> string \<Rightarrow> bool"
    and len :: "'l \<Rightarrow> string \<Rightarrow> u32"
    and off :: "'l \<Rightarrow> string \<Rightarrow> u32 \<Rightarrow> nat option"
    and bnd :: "'l \<Rightarrow> string \<Rightarrow> nat \<Rightarrow> bool"
  assumes off_sound: "good L s \<Longrightarrow> off L s c = Some i \<Longrightarrow>
      bnd L s i \<and> i \<le> length s \<and> len L (take i s) = c"
    and off_complete: "good L s \<Longrightarrow> bnd L s i \<Longrightarrow> off L s (len L (take i s)) = Some i"
begin

lemma off_Some_iff:
  "good L s \<Longrightarrow> off L s c = Some i \<longleftrightarrow> bnd L s i \<and> len L (take i s) = c"
  using off_sound off_complete by blast

lemma off_None_iff:
  "good L s \<Longrightarrow> off L s c = None \<longleftrightarrow> (\<nexists>i. bnd L s i \<and> len L (take i s) = c)"
  using off_Some_iff by (metis not_Some_eq)

lemma len_inj:
  "good L s \<Longrightarrow> bnd L s i \<Longrightarrow> bnd L s j \<Longrightarrow> len L (take i s) = len L (take j s) \<Longrightarrow> i = j"
  by (metis off_complete option.inject)

end

definition line_ok :: "utf8_lib \<Rightarrow> string \<Rightarrow> bool" where
  "line_ok L s \<longleftrightarrow> utf8_lib_ok L \<and> length s < 2 ^ 32"

lemma boundary_le: "utf8_lib_ok L \<Longrightarrow> boundary L s i \<Longrightarrow> i \<le> length s"
  by (metis append_take_drop_id boundary_iff le_add1 map_append nbytes_segs sum_list_append)

interpretation utf16: columns line_ok utf16Length utf16ToByteOffset boundary
proof
  fix L s c i
  assume g: "line_ok L s" and f: "utf16ToByteOffset L s c = Some i"
  then have ok: "utf8_lib_ok L" by (simp add: line_ok_def)
  from f obtain k where k: "k \<le> length (segs L s)" "i = nbytes (take k (segs L s))"
      "c = of_nat (nunits (take k (segs L s)))"
    using seg_find_Some [of "segs L s" 0 0 c i] by (auto simp: utf16ToByteOffset_segs [OF ok])
  then have b: "boundary L s i" by (auto simp: boundary_iff)
  with k show "boundary L s i \<and> i \<le> length s \<and> utf16Length L (take i s) = c"
    using boundary_le [OF ok b] segs_take [OF ok k(1)] by (simp add: utf16Length_segs)
next
  fix L s i
  assume g: "line_ok L s" and b: "boundary L s i"
  then have ok: "utf8_lib_ok L" and n: "nunits (segs L s) < 2 ^ 32"
    using nunits_bound by (auto simp: line_ok_def)
  from b obtain k where k: "k \<le> length (segs L s)" "i = nbytes (take k (segs L s))"
    by (auto simp: boundary_iff)
  have "utf16Length L (take i s) = of_nat (nunits (take k (segs L s)))"
    using k segs_take [OF ok k(1)] by (simp add: utf16Length_segs)
  then show "utf16ToByteOffset L s (utf16Length L (take i s)) = Some i"
    using seg_find_hit [OF _ k(1) n, of 0 0] segs_units_pos k(2)
    by (simp add: utf16ToByteOffset_segs [OF ok])
qed

section \<open>Validity of the escaped text\<close>

lemma isValidUtf8_Nil [simp]: "isValidUtf8 L []"
  by (simp add: isValidUtf8.simps)

lemma isValidUtf8_ascii:
  "utf8_lib_ok L \<Longrightarrow> byte c < 128 \<Longrightarrow> isValidUtf8 L (c # s) = isValidUtf8 L s"
  using valid_len_ascii [of L "c # s"] by (subst isValidUtf8.simps) simp

lemma isValidUtf8_seq:
  assumes "utf8_lib_ok L" "validUtf8SequenceLength L s = n" "n \<noteq> 0"
  shows "isValidUtf8 L (take n s @ r) = isValidUtf8 L r"
proof -
  note v = valid_len_Some [OF assms]
  have "validUtf8SequenceLength L (take n s @ r) = n"
    using v(3) by (intro valid_len_local [OF assms]) simp
  then show ?thesis
    using v(1,3) assms(3) by (subst isValidUtf8.simps) (auto simp: min_def)
qed

lemma lhex_ascii: "n < 16 \<Longrightarrow> byte (lhex n) < 128"
proof -
  have "list_all (\<lambda>n. byte (lhex n) < 128) [0..<16]" by code_simp
  then show "n < 16 \<Longrightarrow> byte (lhex n) < 128" using list_all_upt by blast
qed

lemma escapeInvalidUtf8_Nil [simp]: "escapeInvalidUtf8 L [] = []"
  by (simp add: escapeInvalidUtf8.simps)

lemma escapeInvalidUtf8_valid: "utf8_lib_ok L \<Longrightarrow> isValidUtf8 L (escapeInvalidUtf8 L s)"
proof (induction L s rule: escapeInvalidUtf8.induct)
  case (1 L s)
  show ?case
  proof (cases "s = []")
    case False
    have d: "byte (hd s) div 16 < 16" "byte (hd s) mod 16 < 16"
      using byte_less_256 [of "hd s"] by (simp_all add: less_mult_imp_div_less)
    show ?thesis
    proof (cases "validUtf8SequenceLength L s = 0")
      case True
      with "1" False d lhex_ascii show ?thesis
        by (subst escapeInvalidUtf8.simps) (simp add: isValidUtf8_ascii)
    next
      case n: False
      with "1" False show ?thesis
        by (subst escapeInvalidUtf8.simps) (simp add: isValidUtf8_seq Let_def)
    qed
  qed simp
qed

lemma escapeInvalidUtf8_id: "utf8_lib_ok L \<Longrightarrow> isValidUtf8 L s \<Longrightarrow> escapeInvalidUtf8 L s = s"
proof (induction L s rule: escapeInvalidUtf8.induct)
  case (1 L s)
  show ?case
  proof (cases "s = []")
    case False
    let ?n = "validUtf8SequenceLength L s"
    have n: "?n \<noteq> 0" and r: "isValidUtf8 L (drop ?n s)"
      using "1.prems"(2) False by (auto simp: isValidUtf8.simps [of L s] Let_def split: if_splits)
    then show ?thesis
      using False "1.IH"(1) [OF False refl n "1.prems"(1) r]
      by (subst escapeInvalidUtf8.simps) (simp add: Let_def)
  qed simp
qed

section \<open>A concrete decoder\<close>

text \<open>A decoder of RFC 3629 that meets \<open>utf8_lib_ok\<close>; only the witnesses use it.\<close>

definition lead_length :: "char \<Rightarrow> nat" where
  "lead_length c = (let b = byte c in
     if b < 128 then 1 else if 194 \<le> b \<and> b < 224 then 2 else if 224 \<le> b \<and> b < 240 then 3
     else if 240 \<le> b \<and> b < 245 then 4 else 0)"

definition continuation :: "char \<Rightarrow> bool" where
  "continuation c \<longleftrightarrow> byte c div 64 = 2"

definition decode_checked :: "string \<Rightarrow> nat \<times> int \<times> nat" where
  "decode_checked bs = (let n = lead_length (hd bs) in
     (0, if 0 < n \<and> list_all continuation (tl (take n bs)) then 0 else 1, n))"

definition sample_utf8 :: utf8_lib where
  "sample_utf8 = \<lparr>utf8Len = lead_length, utf8Decode = decode_checked\<rparr>"

lemma sample_utf8_ok: "utf8_lib_ok sample_utf8"
proof -
  have "lead_length c \<le> 4" for c by (simp add: lead_length_def Let_def)
  moreover have "byte c < 128 \<Longrightarrow> lead_length c = 1" for c by (simp add: lead_length_def)
  moreover have "tl (take (Suc 0) bs) = []" for bs :: string by (cases bs) auto
  ultimately show ?thesis
    by (auto simp: utf8_lib_ok_def sample_utf8_def dec_error_def dec_length_def
        decode_checked_def Let_def)
qed

section \<open>Properties\<close>

text \<open>C18. The UTF-16 column measured from the start of a line to a boundary of it is
  turned back by \<open>utf16ToByteOffset\<close> into exactly that byte offset, malformed bytes and
  surrogate pairs included.\<close>

theorem utf16_offset_roundtrip:
  assumes "utf8_lib_ok L" and "length line < 2 ^ 32" and "boundary L line i"
  shows "utf16ToByteOffset L line (utf16Length L (take i line)) = Some i"
  using assms by (intro utf16.off_complete) (simp_all add: line_ok_def)

theorem utf16_offset_roundtrip_witness:
  "utf16ToByteOffset sample_utf8 [CHR ''a'', CHR 0xF0, CHR 0x9F, CHR 0x98, CHR 0x80, CHR ''b'']
     (utf16Length sample_utf8
        (take 5 [CHR ''a'', CHR 0xF0, CHR 0x9F, CHR 0x98, CHR 0x80, CHR ''b''])) = Some 5"
proof (rule utf16_offset_roundtrip [OF sample_utf8_ok])
  show "boundary sample_utf8 [CHR ''a'', CHR 0xF0, CHR 0x9F, CHR 0x98, CHR 0x80, CHR ''b''] 5"
    by code_simp
qed simp

text \<open>A column is accepted only if some boundary of the line measures exactly to it:
  a column inside a surrogate pair or past the end gives no offset, and an accepted one
  gives an offset inside the line whose prefix measures back to the column.\<close>

theorem utf16_offset_exact:
  assumes "utf8_lib_ok L" and "length line < 2 ^ 32"
  shows "(utf16ToByteOffset L line column = Some i) =
     (boundary L line i \<and> i \<le> length line \<and> utf16Length L (take i line) = column)"
  using assms utf16.off_Some_iff [of L line column i] boundary_le [of L line i]
  by (auto simp: line_ok_def)

theorem utf16_offset_exact_witness:
  "utf16ToByteOffset sample_utf8 [CHR ''a'', CHR 0xC3, CHR 0xA9] 1 = Some 1"
proof -
  have "boundary sample_utf8 [CHR ''a'', CHR 0xC3, CHR 0xA9] 1
      \<and> utf16Length sample_utf8 (take 1 [CHR ''a'', CHR 0xC3, CHR 0xA9]) = 1"
    by code_simp
  then show ?thesis
    using utf16_offset_exact [OF sample_utf8_ok, of "[CHR ''a'', CHR 0xC3, CHR 0xA9]" 1 1] by simp
qed

text \<open>Escaping the invalid bytes of any byte string gives valid UTF-8, and it changes
  nothing exactly when the string was valid already.\<close>

theorem escape_gives_valid_utf8:
  assumes "utf8_lib_ok L"
  shows "isValidUtf8 L (escapeInvalidUtf8 L s) \<and> (escapeInvalidUtf8 L s = s) = isValidUtf8 L s"
  using escapeInvalidUtf8_valid [OF assms, of s] escapeInvalidUtf8_id [OF assms, of s] by metis

theorem escape_gives_valid_utf8_witness:
  "isValidUtf8 sample_utf8 (escapeInvalidUtf8 sample_utf8 [CHR 0xFF])
    \<and> (escapeInvalidUtf8 sample_utf8 [CHR 0xFF] = [CHR 0xFF]) = isValidUtf8 sample_utf8 [CHR 0xFF]"
  by (rule escape_gives_valid_utf8 [OF sample_utf8_ok])

end
