(* ===== verification/Positions.thy ===== *)
theory Positions
  imports Uri Utf
begin

text \<open>
  Source locations and LSP positions, from src/util/Converters.cpp: \<open>toPosition\<close>,
  \<open>toSourceLocation\<close>, both forms of \<open>toRange\<close> and the \<open>toLocation\<close> functions.

  slang's \<open>SourceManager\<close> is a submodule and so a parameter, a record of the member functions
  the conversions call. \<open>sm_lines_ok\<close> states what its documentation promises of lines and
  columns: columns count bytes from 1, and line \<open>n\<close> column 1 is the location the column of a
  character counts from.
\<close>

section \<open>Data\<close>

record source_location =
  lbuffer :: nat
  loffset :: nat

type_synonym source_range = "source_location \<times> source_location"

record position =
  p_line :: u32
  p_char :: u32

record lsp_range =
  r_start :: position
  r_end :: position

record location =
  l_uri :: uri
  l_range :: lsp_range

record source_manager =
  getSourceText :: "nat \<Rightarrow> string"
  getColumnNumber :: "source_location \<Rightarrow> nat"
  getRawLineNumber :: "source_location \<Rightarrow> nat"
  getSourceLocation :: "nat \<Rightarrow> nat \<Rightarrow> nat \<Rightarrow> source_location option"
  getFullyExpandedLoc :: "source_location \<Rightarrow> source_location"
  getFullyExpandedRange :: "source_range \<Rightarrow> source_range"
  getFullyOriginalRange :: "source_range \<Rightarrow> source_range"
  getFullPath :: "nat \<Rightarrow> string"

abbreviation loc_at :: "nat \<Rightarrow> nat \<Rightarrow> source_location" where
  "loc_at b i \<equiv> \<lparr>lbuffer = b, loffset = i\<rparr>"

section \<open>Conversions\<close>

text \<open>The casts to \<open>lsp::uint\<close> keep the low 32 bits, which is \<open>of_nat\<close>.\<close>

definition toPositionAt ::
  "utf8_lib \<Rightarrow> source_manager \<Rightarrow> source_location \<Rightarrow> nat \<Rightarrow> position" where
  "toPositionAt L sm actualLoc i = (let text = getSourceText sm (lbuffer actualLoc) in
     if text = [] then \<lparr>p_line = 0, p_char = 0\<rparr> else
     let loc = loc_at (lbuffer actualLoc) (min i (length text - 1));
         byteColumn = getColumnNumber sm loc;
         character = (if byteColumn > 0 then byteColumn - 1 else 0);
         units = (if character \<le> loffset loc
                  then utf16Length L (substr text (loffset loc - character) character)
                  else of_nat character)
     in \<lparr>p_line = of_nat (getRawLineNumber sm loc) - 1, p_char = units\<rparr>)"

definition toPosition :: "utf8_lib \<Rightarrow> source_manager \<Rightarrow> source_location \<Rightarrow> position" where
  "toPosition L sm loc = (let actualLoc = getFullyExpandedLoc sm loc in
     toPositionAt L sm actualLoc (loffset actualLoc))"

abbreviation line_end :: "char \<Rightarrow> bool" where
  "line_end c \<equiv> c = CHR 0x0A \<or> c = CHR 0x0D"

definition toSourceLocation ::
  "utf8_lib \<Rightarrow> source_manager \<Rightarrow> nat \<Rightarrow> position \<Rightarrow> source_location option" where
  "toSourceLocation L sm buf pos =
     (case getSourceLocation sm buf (unat (p_line pos + 1)) 1 of
        None \<Rightarrow> None
      | Some lineStartLoc \<Rightarrow>
         (let text = getSourceText sm buf; lineStart = loffset lineStartLoc in
          if lineStart > length text then None else
          (case utf16ToByteOffset L (takeWhile (\<lambda>c. \<not> line_end c) (drop lineStart text)) (p_char pos) of
             None \<Rightarrow> None
           | Some byteOffset \<Rightarrow> Some (loc_at buf (lineStart + byteOffset)))))"

definition toRange :: "utf8_lib \<Rightarrow> source_manager \<Rightarrow> source_range \<Rightarrow> lsp_range" where
  "toRange L sm rg = (let actualRange = getFullyExpandedRange sm rg in
     \<lparr>r_start = toPosition L sm (fst actualRange), r_end = toPosition L sm (snd actualRange)\<rparr>)"

definition toOriginalLocation :: "utf8_lib \<Rightarrow> source_manager \<Rightarrow> source_range \<Rightarrow> location" where
  "toOriginalLocation L sm rg = (let origRange = getFullyOriginalRange sm rg in
     \<lparr>l_uri = uri_fromFile (getFullPath sm (lbuffer (fst origRange))),
      l_range = toRange L sm origRange\<rparr>)"

definition toRange_len ::
  "utf8_lib \<Rightarrow> source_manager \<Rightarrow> source_location \<Rightarrow> nat \<Rightarrow> lsp_range" where
  "toRange_len L sm loc len = (let actualLoc = getFullyExpandedLoc sm loc in
     \<lparr>r_start = toPositionAt L sm actualLoc (loffset actualLoc),
      r_end = toPositionAt L sm actualLoc (loffset actualLoc + len)\<rparr>)"

definition toLocation_range :: "utf8_lib \<Rightarrow> source_manager \<Rightarrow> source_range \<Rightarrow> location" where
  "toLocation_range L sm rg = (let declRange = getFullyExpandedRange sm rg in
     \<lparr>l_uri = uri_fromFile (getFullPath sm (lbuffer (fst declRange))),
      l_range = toRange L sm declRange\<rparr>)"

definition toLocation_loc :: "utf8_lib \<Rightarrow> source_manager \<Rightarrow> source_location \<Rightarrow> location" where
  "toLocation_loc L sm loc = (let actualLoc = getFullyExpandedLoc sm loc in
     \<lparr>l_uri = uri_fromFile (getFullPath sm (lbuffer actualLoc)),
      l_range = \<lparr>r_start = toPosition L sm actualLoc, r_end = toPosition L sm actualLoc\<rparr>\<rparr>)"

section \<open>What the source manager promises\<close>

text \<open>
  Lines are numbered from 1 and the column of a byte is its distance from the first byte of
  its line, plus 1. The LF of a CR LF pair is left out: the two bytes end one line together
  and no position of the protocol lies between them.
\<close>

definition line_start_of :: "source_manager \<Rightarrow> nat \<Rightarrow> nat \<Rightarrow> nat" where
  "line_start_of sm b i = i + 1 - getColumnNumber sm (loc_at b i)"

definition sm_line_ok :: "source_manager \<Rightarrow> nat \<Rightarrow> nat \<Rightarrow> bool" where
  "sm_line_ok sm b i \<longleftrightarrow>
     (let col = getColumnNumber sm (loc_at b i); n = getRawLineNumber sm (loc_at b i);
          ls = line_start_of sm b i in
      0 < col \<and> col \<le> i + 1 \<and> 0 < n \<and> n < 2 ^ 32 \<and>
      list_all (\<lambda>c. \<not> line_end c) (substr (getSourceText sm b) ls (col - 1)) \<and>
      getSourceLocation sm b n 1 = Some (loc_at b ls))"

definition sm_lines_ok :: "source_manager \<Rightarrow> nat \<Rightarrow> bool" where
  "sm_lines_ok sm b \<longleftrightarrow> (\<forall>i \<in> set [0..<length (getSourceText sm b)].
     (\<not> (getSourceText sm b ! i = CHR 0x0A \<and> 0 < i \<and> getSourceText sm b ! (i - 1) = CHR 0x0D)
      \<longrightarrow> sm_line_ok sm b i))"

definition line_of :: "source_manager \<Rightarrow> nat \<Rightarrow> nat \<Rightarrow> string" where
  "line_of sm b i = takeWhile (\<lambda>c. \<not> line_end c)
     (drop (line_start_of sm b i) (getSourceText sm b))"

lemma takeWhile_drop_prefix:
  assumes "list_all P (take k (drop ls xs))" and "ls + k \<le> length xs"
  shows "takeWhile P (drop ls xs) = take k (drop ls xs) @ takeWhile P (drop (ls + k) xs)"
proof -
  have "drop ls xs = take k (drop ls xs) @ drop (ls + k) xs"
    by (metis append_take_drop_id drop_drop add.commute)
  then show ?thesis
    using assms(1) takeWhile_append2 [of "take k (drop ls xs)" P "drop (ls + k) xs"]
    by (metis list_all_iff)
qed

lemma line_prefix:
  assumes "sm_line_ok sm b i" and "i < length (getSourceText sm b)"
  shows "take (i - line_start_of sm b i) (line_of sm b i)
       = substr (getSourceText sm b) (line_start_of sm b i) (i - line_start_of sm b i)"
proof -
  let ?ls = "line_start_of sm b i" and ?t = "getSourceText sm b"
  have k: "getColumnNumber sm (loc_at b i) - 1 = i - ?ls"
    using assms(1) by (auto simp: sm_line_ok_def line_start_of_def Let_def)
  have "list_all (\<lambda>c. \<not> line_end c) (take (i - ?ls) (drop ?ls ?t))"
    using assms(1) unfolding sm_line_ok_def Let_def substr_def k by blast
  moreover have "?ls \<le> i" using assms(1) by (auto simp: sm_line_ok_def line_start_of_def Let_def)
  ultimately show ?thesis
    using takeWhile_drop_prefix [of "\<lambda>c. \<not> line_end c" "i - ?ls" ?ls ?t] assms(2)
    by (simp add: line_of_def substr_def)
qed

lemma toPositionAt_eq:
  assumes "sm_line_ok sm b i" and i: "i < length (getSourceText sm b)"
  shows "toPositionAt L sm (loc_at b i) i =
    \<lparr>p_line = of_nat (getRawLineNumber sm (loc_at b i)) - 1,
     p_char = utf16Length L (take (i - line_start_of sm b i) (line_of sm b i))\<rparr>"
proof -
  have c: "0 < getColumnNumber sm (loc_at b i)" "getColumnNumber sm (loc_at b i) \<le> i + 1"
    using assms(1) by (auto simp: sm_line_ok_def Let_def)
  then have k: "getColumnNumber sm (loc_at b i) - 1 = i - line_start_of sm b i"
    and l: "i - (i - line_start_of sm b i) = line_start_of sm b i"
    by (auto simp: line_start_of_def)
  have "min i (length (getSourceText sm b) - 1) = i" using i by simp
  moreover have "getSourceText sm b \<noteq> []" using i by auto
  ultimately show ?thesis
    using c k l line_prefix [OF assms] by (simp add: toPositionAt_def Let_def del: of_nat_diff)
qed

lemma raw_line_unat:
  assumes "sm_line_ok sm b i"
  shows "unat (of_nat (getRawLineNumber sm (loc_at b i)) - 1 + 1 :: u32)
       = getRawLineNumber sm (loc_at b i)"
  using assms by (simp add: sm_line_ok_def Let_def unat_of_nat)

lemma toSourceLocation_toPositionAt:
  assumes ok: "sm_line_ok sm b i" and i: "i < length (getSourceText sm b)"
    and L: "utf8_lib_ok L" and len: "length (getSourceText sm b) < 2 ^ 32"
    and bnd: "boundary L (line_of sm b i) (i - line_start_of sm b i)"
  shows "toSourceLocation L sm b (toPositionAt L sm (loc_at b i) i) = Some (loc_at b i)"
proof -
  let ?ls = "line_start_of sm b i"
  have ls: "?ls \<le> i" "getSourceLocation sm b (getRawLineNumber sm (loc_at b i)) (Suc 0) = Some (loc_at b ?ls)"
    using ok by (auto simp: sm_line_ok_def line_start_of_def Let_def)
  have "length (line_of sm b i) \<le> length (getSourceText sm b)"
    unfolding line_of_def by (rule le_trans [OF length_takeWhile_le]) simp
  then have "line_ok L (line_of sm b i)" using L len by (simp add: line_ok_def)
  then have "utf16ToByteOffset L (line_of sm b i)
      (utf16Length L (take (i - ?ls) (line_of sm b i))) = Some (i - ?ls)"
    using bnd by (rule utf16.off_complete)
  then show ?thesis
    using raw_line_unat [OF ok] ls i
    by (simp add: toPositionAt_eq [OF ok i] toSourceLocation_def Let_def line_of_def [symmetric]
        del: One_nat_def)
       (simp add: line_of_def)
qed

section \<open>A source manager of one buffer\<close>

text \<open>Lines that end in LF, counted from the text; only the witnesses use it.\<close>

definition lf_line_start :: "string \<Rightarrow> nat \<Rightarrow> nat" where
  "lf_line_start text i = i - length (takeWhile (\<lambda>c. c \<noteq> CHR 0x0A) (rev (take i text)))"

definition lf_line_number :: "string \<Rightarrow> nat \<Rightarrow> nat" where
  "lf_line_number text i = Suc (count_list (take i text) (CHR 0x0A))"

definition sample_sm :: "string \<Rightarrow> source_manager" where
  "sample_sm text = \<lparr>getSourceText = (\<lambda>_. text),
     getColumnNumber = (\<lambda>l. loffset l - lf_line_start text (loffset l) + 1),
     getRawLineNumber = (\<lambda>l. lf_line_number text (loffset l)),
     getSourceLocation = (\<lambda>b n c. map_option (\<lambda>i. loc_at b (i + c - 1))
        (find (\<lambda>i. lf_line_start text i = i \<and> lf_line_number text i = n) [0..<Suc (length text)])),
     getFullyExpandedLoc = id, getFullyExpandedRange = id, getFullyOriginalRange = id,
     getFullPath = (\<lambda>_. ''/a.sv'')\<rparr>"

section \<open>Properties\<close>

text \<open>C4. Locations and positions agree: the position reported for a character of a buffer is
  turned back into that very location, on every line, with multi-byte characters and malformed
  bytes before it.\<close>

theorem position_roundtrip:
  assumes "utf8_lib_ok L" and "sm_lines_ok sm b" and "length (getSourceText sm b) < 2 ^ 32"
    and "i < length (getSourceText sm b)"
    and "\<not> (getSourceText sm b ! i = CHR 0x0A \<and> 0 < i \<and> getSourceText sm b ! (i - 1) = CHR 0x0D)"
    and "boundary L (line_of sm b i) (i - line_start_of sm b i)"
    and "getFullyExpandedLoc sm loc = loc_at b i"
  shows "toSourceLocation L sm b (toPosition L sm loc) = Some (loc_at b i)"
  using assms toSourceLocation_toPositionAt [of sm b i L]
  by (auto simp: sm_lines_ok_def toPosition_def Let_def)

theorem position_roundtrip_witness:
  "toSourceLocation sample_utf8 (sample_sm [CHR ''m'', CHR 0x0A, CHR 0xC3, CHR 0xA9, CHR ''x'', CHR 0x00])
     0 (toPosition sample_utf8
          (sample_sm [CHR ''m'', CHR 0x0A, CHR 0xC3, CHR 0xA9, CHR ''x'', CHR 0x00]) (loc_at 0 4))
   = Some (loc_at 0 4)"
proof (rule position_roundtrip [OF sample_utf8_ok])
  show "sm_lines_ok (sample_sm [CHR ''m'', CHR 0x0A, CHR 0xC3, CHR 0xA9, CHR ''x'', CHR 0x00]) 0"
    by (simp add: sm_lines_ok_def sm_line_ok_def line_start_of_def sample_sm_def lf_line_start_def
        lf_line_number_def substr_def upt_rec_numeral upt_rec)
  show "boundary sample_utf8
      (line_of (sample_sm [CHR ''m'', CHR 0x0A, CHR 0xC3, CHR 0xA9, CHR ''x'', CHR 0x00]) 0 4)
      (4 - line_start_of (sample_sm [CHR ''m'', CHR 0x0A, CHR 0xC3, CHR 0xA9, CHR ''x'', CHR 0x00]) 0 4)"
    by code_simp
qed (simp_all add: sample_sm_def)

end
