(* ===== verification/Symbols.thy ===== *)
theory Symbols
  imports Prelude
begin

text \<open>
  The symbol kinds of slang that the server tells apart, and the conversions of
  src/util/Converters.cpp from them to the kinds of the protocol.

  \<open>symbol_kind\<close> and \<open>syntax_kind\<close> have one constructor for each enumerator the sources name
  and \<open>OtherKind\<close>, \<open>OtherSyntax\<close> for the rest, which every switch of the sources sends to its
  default. A symbol carries what the sources read of it; \<open>body_definition\<close> is the definition
  an instance body points to.
\<close>

datatype symbol_kind =
    Package | ConfigBlock | Definition | InterfacePort | Modport | ModportPort | ModportClocking
  | ClockingBlock | Port | MultiPort | PrimitivePort | AssertionPort | Net | NetAlias | Variable
  | ClockVar | LocalAssertionVar | Iterator | Genvar | FormalArgument | Parameter | Specparam
  | DefParam | TypeParameter | EnumValue | EnumType | TypeAlias | PackedStructType
  | UnpackedStructType | PackedUnionType | UnpackedUnionType | ForwardingTypedef | ClassType
  | GenericClassDef | CovergroupType | Instance | InstanceArray | PrimitiveInstance
  | CheckerInstance | CheckerInstanceBody | InstanceBody | Field | ClassProperty | PatternVar
  | ConstraintBlock | Subroutine | MethodPrototype | LetDecl | Sequence | PropertyDecl
  | GenerateBlock | GenerateBlockArray | OtherKind

datatype definition_kind = DefModule | DefInterface | DefProgram

datatype subroutine_kind = FunctionKind | TaskKind

record symbol_info =
  sym_id :: nat
  sym_kind :: symbol_kind
  sym_location :: nat
  definitionKind :: definition_kind
  isLocalParam :: bool
  alias_isEnum :: bool

datatype symbol = Symbol (info: symbol_info) (body_definition: "symbol option")

abbreviation kind_of :: "symbol \<Rightarrow> symbol_kind" where
  "kind_of s \<equiv> sym_kind (info s)"

datatype completion_kind =
    CK_Module | CK_Interface | CK_Property | CK_Variable | CK_Constant | CK_TypeParameter
  | CK_EnumMember | CK_Enum | CK_Struct | CK_Class | CK_Field | CK_Function | CK_Snippet
  | CK_Keyword | CK_Text

definition toCompletionItemKind :: "symbol \<Rightarrow> completion_kind" where
  "toCompletionItemKind s = (case kind_of s of
     Package \<Rightarrow> CK_Module | ConfigBlock \<Rightarrow> CK_Module
   | Definition \<Rightarrow> (case definitionKind (info s) of
        DefInterface \<Rightarrow> CK_Interface | DefModule \<Rightarrow> CK_Module | DefProgram \<Rightarrow> CK_Module)
   | InterfacePort \<Rightarrow> CK_Interface | Modport \<Rightarrow> CK_Interface | ModportPort \<Rightarrow> CK_Interface
   | ModportClocking \<Rightarrow> CK_Interface | ClockingBlock \<Rightarrow> CK_Interface
   | Port \<Rightarrow> CK_Variable | MultiPort \<Rightarrow> CK_Variable | PrimitivePort \<Rightarrow> CK_Variable
   | AssertionPort \<Rightarrow> CK_Variable | Net \<Rightarrow> CK_Variable | NetAlias \<Rightarrow> CK_Variable
   | Variable \<Rightarrow> CK_Variable | ClockVar \<Rightarrow> CK_Variable | LocalAssertionVar \<Rightarrow> CK_Variable
   | Iterator \<Rightarrow> CK_Variable | Genvar \<Rightarrow> CK_Variable
   | FormalArgument \<Rightarrow> CK_Constant | Parameter \<Rightarrow> CK_Constant | Specparam \<Rightarrow> CK_Constant
   | DefParam \<Rightarrow> CK_Constant
   | TypeParameter \<Rightarrow> CK_TypeParameter
   | EnumValue \<Rightarrow> CK_EnumMember
   | EnumType \<Rightarrow> CK_Enum
   | TypeAlias \<Rightarrow> (if alias_isEnum (info s) then CK_Enum else CK_Struct)
   | PackedStructType \<Rightarrow> CK_Struct | UnpackedStructType \<Rightarrow> CK_Struct
   | PackedUnionType \<Rightarrow> CK_Struct | UnpackedUnionType \<Rightarrow> CK_Struct
   | ForwardingTypedef \<Rightarrow> CK_Struct
   | ClassType \<Rightarrow> CK_Class | GenericClassDef \<Rightarrow> CK_Class | CovergroupType \<Rightarrow> CK_Class
   | Instance \<Rightarrow> CK_Class | InstanceArray \<Rightarrow> CK_Class | PrimitiveInstance \<Rightarrow> CK_Class
   | CheckerInstance \<Rightarrow> CK_Class | CheckerInstanceBody \<Rightarrow> CK_Class
   | Field \<Rightarrow> CK_Field | ClassProperty \<Rightarrow> CK_Field | PatternVar \<Rightarrow> CK_Field
   | Subroutine \<Rightarrow> CK_Function | MethodPrototype \<Rightarrow> CK_Function | LetDecl \<Rightarrow> CK_Function
   | GenerateBlock \<Rightarrow> CK_Snippet | GenerateBlockArray \<Rightarrow> CK_Snippet
   | _ \<Rightarrow> CK_Property)"

datatype syntax_kind =
    InterfaceDeclaration | ModuleDeclaration | CheckerDeclaration | ProgramDeclaration
  | PackageDeclaration | ClassDeclaration | FunctionDeclaration | TaskDeclaration | OtherSyntax

datatype lsp_symbol_kind = SK_Interface | SK_Module | SK_Package | SK_Class | SK_Function | SK_Null

definition toSymbolKind :: "syntax_kind \<Rightarrow> lsp_symbol_kind" where
  "toSymbolKind k = (case k of
     InterfaceDeclaration \<Rightarrow> SK_Interface
   | ModuleDeclaration \<Rightarrow> SK_Module | CheckerDeclaration \<Rightarrow> SK_Module
   | ProgramDeclaration \<Rightarrow> SK_Module
   | PackageDeclaration \<Rightarrow> SK_Package
   | ClassDeclaration \<Rightarrow> SK_Class
   | FunctionDeclaration \<Rightarrow> SK_Function | TaskDeclaration \<Rightarrow> SK_Function
   | OtherSyntax \<Rightarrow> SK_Null)"

definition subroutineString :: "subroutine_kind \<Rightarrow> string" where
  "subroutineString k = (case k of FunctionKind \<Rightarrow> ''function'' | TaskKind \<Rightarrow> ''task'')"

end
