(* ===== verification/SemanticTokens.thy ===== *)
theory SemanticTokens
  imports Positions Symbols
begin

text \<open>
  Semantic tokens, from src/document/SemanticTokens.cpp: the legend, the classification of
  symbols and of tokens, the collector with its disabled regions, and the encoding into the
  relative format of the protocol.

  slang's syntax tree is seen through what the collector reads: a token's parents are a list,
  nearest first, of nodes with the tokens the sources compare. Lookups that slang or
  \<open>ShallowAnalysis\<close> answer are fields of \<open>lookups\<close>. The cancellation flag is written by another
  thread, so \<open>cancelled\<close> gives the value of each of its reads, by the number of the read.
\<close>

section \<open>The legend\<close>

datatype token_type =
    TT_Namespace | TT_Class | TT_Interface | TT_Enum | TT_EnumMember | TT_Struct | TT_Type
  | TT_TypeParameter | TT_Parameter | TT_Variable | TT_Property | TT_Function | TT_Macro
  | TT_Label | TT_Net | TT_Port | TT_Instance | TT_Modport

fun type_index :: "token_type \<Rightarrow> nat" where
  "type_index TT_Namespace = 0" | "type_index TT_Class = 1" | "type_index TT_Interface = 2"
| "type_index TT_Enum = 3" | "type_index TT_EnumMember = 4" | "type_index TT_Struct = 5"
| "type_index TT_Type = 6" | "type_index TT_TypeParameter = 7" | "type_index TT_Parameter = 8"
| "type_index TT_Variable = 9" | "type_index TT_Property = 10" | "type_index TT_Function = 11"
| "type_index TT_Macro = 12" | "type_index TT_Label = 13" | "type_index TT_Net = 14"
| "type_index TT_Port = 15" | "type_index TT_Instance = 16" | "type_index TT_Modport = 17"

definition type_names :: "string list" where
  "type_names = [''namespace'', ''class'', ''interface'', ''enum'', ''enumMember'', ''struct'',
     ''type'', ''typeParameter'', ''parameter'', ''variable'', ''property'', ''function'',
     ''macro'', ''label'', ''net'', ''port'', ''instance'', ''modport'']"

datatype modifier = Mod_Declaration | Mod_Definition | Mod_ReadOnly | Mod_DefaultLibrary

fun modifier_index :: "modifier \<Rightarrow> nat" where
  "modifier_index Mod_Declaration = 0" | "modifier_index Mod_Definition = 1"
| "modifier_index Mod_ReadOnly = 2" | "modifier_index Mod_DefaultLibrary = 3"

definition modifier_names :: "string list" where
  "modifier_names = [''declaration'', ''definition'', ''readonly'', ''defaultLibrary'']"

definition modifierBit :: "modifier \<Rightarrow> u32" where
  "modifierBit md = push_bit (modifier_index md) 1"

definition isCustomSemanticTokenType :: "token_type \<Rightarrow> bool" where
  "isCustomSemanticTokenType ty \<longleftrightarrow> type_index TT_Net \<le> type_index ty \<and> type_index ty < 18"

definition tokenTypePriority :: "token_type \<Rightarrow> int" where
  "tokenTypePriority ty = (case ty of
     TT_Port \<Rightarrow> 0 | TT_Modport \<Rightarrow> 1 | TT_Net \<Rightarrow> 2 | TT_Variable \<Rightarrow> 3 | TT_Parameter \<Rightarrow> 4
   | TT_EnumMember \<Rightarrow> 5 | TT_Property \<Rightarrow> 6 | TT_TypeParameter \<Rightarrow> 7
   | TT_Type \<Rightarrow> 8 | TT_Enum \<Rightarrow> 8 | TT_Struct \<Rightarrow> 8 | TT_Class \<Rightarrow> 8 | TT_Interface \<Rightarrow> 8
   | TT_Namespace \<Rightarrow> 8 | TT_Function \<Rightarrow> 9 | TT_Instance \<Rightarrow> 10 | TT_Label \<Rightarrow> 11 | TT_Macro \<Rightarrow> 11)"

definition positionLess :: "position \<Rightarrow> position \<Rightarrow> bool" where
  "positionLess l r = (if p_line l \<noteq> p_line r then p_line l < p_line r else p_char l < p_char r)"

section \<open>Classification of symbols\<close>

record token_class =
  c_type :: token_type
  c_modifiers :: u32
  c_symbol :: "symbol option"

definition plain_class :: "symbol \<Rightarrow> token_type \<Rightarrow> token_class" where
  "plain_class s ty = \<lparr>c_type = ty, c_modifiers = 0, c_symbol = Some s\<rparr>"

definition add_modifier :: "modifier \<Rightarrow> token_class \<Rightarrow> token_class" where
  "add_modifier md cls = cls\<lparr>c_modifiers := or (c_modifiers cls) (modifierBit md)\<rparr>"

fun classifySymbol :: "symbol \<Rightarrow> token_class option" where
  "classifySymbol (Symbol i body) = (let res = (\<lambda>ty. Some (plain_class (Symbol i body) ty)) in
   case sym_kind i of
     Package \<Rightarrow> res TT_Namespace | ConfigBlock \<Rightarrow> res TT_Namespace
   | Definition \<Rightarrow> (case definitionKind i of
        DefModule \<Rightarrow> res TT_Class | DefProgram \<Rightarrow> res TT_Class | DefInterface \<Rightarrow> res TT_Interface)
   | InterfacePort \<Rightarrow> res TT_Port | Port \<Rightarrow> res TT_Port | MultiPort \<Rightarrow> res TT_Port
   | PrimitivePort \<Rightarrow> res TT_Port | AssertionPort \<Rightarrow> res TT_Port
   | Modport \<Rightarrow> res TT_Modport | ModportPort \<Rightarrow> res TT_Modport
   | ModportClocking \<Rightarrow> res TT_Modport | ClockingBlock \<Rightarrow> res TT_Modport
   | Net \<Rightarrow> res TT_Net | NetAlias \<Rightarrow> res TT_Net
   | Variable \<Rightarrow> res TT_Variable | ClockVar \<Rightarrow> res TT_Variable
   | LocalAssertionVar \<Rightarrow> res TT_Variable | Iterator \<Rightarrow> res TT_Variable
   | Genvar \<Rightarrow> map_option (add_modifier Mod_ReadOnly) (res TT_Variable)
   | FormalArgument \<Rightarrow> res TT_Parameter
   | Parameter \<Rightarrow> (if isLocalParam i then map_option (add_modifier Mod_ReadOnly) (res TT_Parameter)
                   else res TT_Parameter)
   | Specparam \<Rightarrow> res TT_Parameter | DefParam \<Rightarrow> res TT_Parameter
   | EnumValue \<Rightarrow> res TT_EnumMember
   | EnumType \<Rightarrow> res TT_Enum
   | PackedStructType \<Rightarrow> res TT_Struct | UnpackedStructType \<Rightarrow> res TT_Struct
   | PackedUnionType \<Rightarrow> res TT_Struct | UnpackedUnionType \<Rightarrow> res TT_Struct
   | ClassType \<Rightarrow> res TT_Class | GenericClassDef \<Rightarrow> res TT_Class | CovergroupType \<Rightarrow> res TT_Class
   | TypeAlias \<Rightarrow> res TT_Type | ForwardingTypedef \<Rightarrow> res TT_Type
   | TypeParameter \<Rightarrow> res TT_TypeParameter
   | Field \<Rightarrow> res TT_Property | ClassProperty \<Rightarrow> res TT_Property | PatternVar \<Rightarrow> res TT_Property
   | ConstraintBlock \<Rightarrow> res TT_Property
   | Subroutine \<Rightarrow> res TT_Function | MethodPrototype \<Rightarrow> res TT_Function | LetDecl \<Rightarrow> res TT_Function
   | Sequence \<Rightarrow> res TT_Function | PropertyDecl \<Rightarrow> res TT_Function
   | Instance \<Rightarrow> res TT_Instance | InstanceArray \<Rightarrow> res TT_Instance
   | PrimitiveInstance \<Rightarrow> res TT_Instance | CheckerInstance \<Rightarrow> res TT_Instance
   | CheckerInstanceBody \<Rightarrow> res TT_Instance
   | InstanceBody \<Rightarrow> (case body of None \<Rightarrow> None | Some d \<Rightarrow> classifySymbol d)
   | _ \<Rightarrow> None)"

section \<open>Tokens and their surroundings\<close>

datatype token_kind = Identifier | SystemIdentifier | MacroUsage | OtherToken

record token =
  tok_id :: nat
  tok_kind :: token_kind
  tok_missing :: bool
  tok_raw :: string
  tok_value :: string
  tok_offset :: nat

text \<open>A syntax node as the collector reads it: which node it is and, for the kinds it asks
  about, the tokens it compares with.\<close>

datatype node_shape =
    ScopedName (double_colon: bool) (left_first: token) (right_first: token)
  | PackageImportItem (package_name: token)
  | DotMemberClause (member_name: token)
  | MemberAccessExpression (access_name: token)
  | NamedPortConnection (has_paren: bool) (connection_name: token)
  | DefineDirective (define_name: token)
  | NamedBlockClause (clause_name: token)
  | HierarchicalInstance (decl_name: "token option")
  | ExplicitNonAnsiPort (port_name: token)
  | OtherNode

type_synonym node_chain = "(nat \<times> node_shape) list"

fun isScopeQualifier_from :: "nat \<Rightarrow> node_chain \<Rightarrow> token \<Rightarrow> bool" where
  "isScopeQualifier_from depth [] tok = False"
| "isScopeQualifier_from depth ((n, sh) # up) tok = (if depth = 0 then False else
     (case sh of
        ScopedName dc l r \<Rightarrow> (if dc then l = tok else isScopeQualifier_from (depth - 1) up tok)
      | PackageImportItem p \<Rightarrow> p = tok
      | _ \<Rightarrow> isScopeQualifier_from (depth - 1) up tok))"

definition isScopeQualifier :: "node_chain \<Rightarrow> token \<Rightarrow> bool" where
  "isScopeQualifier = isScopeQualifier_from 2"

fun isMemberName_from :: "nat \<Rightarrow> node_chain \<Rightarrow> token \<Rightarrow> bool" where
  "isMemberName_from depth [] tok = False"
| "isMemberName_from depth ((n, sh) # up) tok = (if depth = 0 then False else
     (case sh of
        ScopedName dc l r \<Rightarrow> r = tok
      | DotMemberClause m \<Rightarrow> m = tok
      | MemberAccessExpression a \<Rightarrow> a = tok
      | _ \<Rightarrow> isMemberName_from (depth - 1) up tok))"

text \<open>
  What the collector reads: the parents of a token (empty when it has none), the two symbol
  maps of \<open>SymbolIndexer\<close> with their nullable entries, and the lookups that \<open>ShallowAnalysis\<close>
  and slang answer. A scope is a number; \<open>as_scope\<close> is \<open>isScope\<close> with the cast.
\<close>

record lookups =
  getTokenParent :: "token \<Rightarrow> node_chain"
  symdex :: "token \<Rightarrow> symbol option list"
  syntex :: "nat \<Rightarrow> symbol option list option"
  getSymbolsAtToken :: "token \<Rightarrow> symbol option list"
  as_scope :: "symbol \<Rightarrow> nat option"
  getParentScope :: "symbol \<Rightarrow> nat option"
  lookupName :: "nat \<Rightarrow> string \<Rightarrow> symbol option"
  getPackage :: "string \<Rightarrow> symbol option"
  getDefinition :: "string \<Rightarrow> symbol option"
  disabledRegions :: "(nat \<times> nat) list"

definition isMemberName :: "lookups \<Rightarrow> token \<Rightarrow> bool" where
  "isMemberName lk tok = isMemberName_from 3 (getTokenParent lk tok) tok"

definition isShorthandPortConnection :: "lookups \<Rightarrow> token \<Rightarrow> bool" where
  "isShorthandPortConnection lk tok = (case getTokenParent lk tok of
     (_, NamedPortConnection paren nm) # _ \<Rightarrow> \<not> paren \<and> nm = tok | _ \<Rightarrow> False)"

section \<open>Classification of tokens\<close>

fun classifyBest_from :: "token_class option \<Rightarrow> symbol option list \<Rightarrow> token_class option" where
  "classifyBest_from best [] = best"
| "classifyBest_from best (None # ss) = classifyBest_from best ss"
| "classifyBest_from best (Some s # ss) = (case classifySymbol s of
     None \<Rightarrow> classifyBest_from best ss
   | Some cls \<Rightarrow> (case best of
       None \<Rightarrow> classifyBest_from (Some cls) ss
     | Some b \<Rightarrow> classifyBest_from
         (Some (if tokenTypePriority (c_type cls) < tokenTypePriority (c_type b) then cls else b)) ss))"

definition classifyBest :: "symbol option list \<Rightarrow> token_class option" where
  "classifyBest = classifyBest_from None"

definition classifyIndexed :: "lookups \<Rightarrow> token \<Rightarrow> token_class option" where
  "classifyIndexed lk tok = (case symdex lk tok of [] \<Rightarrow> None | symbols \<Rightarrow>
     (case classifyBest symbols of
        None \<Rightarrow> None
      | Some best \<Rightarrow> Some (case c_symbol best of
          Some s \<Rightarrow> (if sym_location (info s) = tok_offset tok then
             (if kind_of s = Definition then add_modifier Mod_Definition (add_modifier Mod_Declaration best)
              else add_modifier Mod_Declaration best) else best)
        | None \<Rightarrow> best)))"

fun scope_of_entries :: "lookups \<Rightarrow> symbol option list \<Rightarrow> nat option" where
  "scope_of_entries lk [] = None"
| "scope_of_entries lk (None # ss) = scope_of_entries lk ss"
| "scope_of_entries lk (Some s # ss) = (case as_scope lk s of
     Some sc \<Rightarrow> Some sc
   | None \<Rightarrow> (if kind_of s = Definition then scope_of_entries lk ss
             else (case getParentScope lk s of Some sc \<Rightarrow> Some sc | None \<Rightarrow> scope_of_entries lk ss)))"

fun findEnclosingScope :: "lookups \<Rightarrow> node_chain \<Rightarrow> nat option" where
  "findEnclosingScope lk [] = None"
| "findEnclosingScope lk ((n, _) # up) = (case syntex lk n of
     None \<Rightarrow> findEnclosingScope lk up
   | Some entries \<Rightarrow> (case scope_of_entries lk entries of
       Some sc \<Rightarrow> Some sc | None \<Rightarrow> findEnclosingScope lk up))"

definition package_class :: "lookups \<Rightarrow> string \<Rightarrow> token_class option" where
  "package_class lk name = map_option
     (\<lambda>p. \<lparr>c_type = TT_Namespace, c_modifiers = 0, c_symbol = Some p\<rparr>) (getPackage lk name)"

definition or_else :: "'a option \<Rightarrow> 'a option \<Rightarrow> 'a option" where
  "or_else x y = (case x of Some v \<Rightarrow> Some v | None \<Rightarrow> y)"

definition classifyReference :: "lookups \<Rightarrow> token \<Rightarrow> token_class option" where
  "classifyReference lk tok = (let parent = getTokenParent lk tok; name = tok_value tok in
     if parent = [] then None else if name = [] then None else
     or_else (if isMemberName lk tok then classifyBest (getSymbolsAtToken lk tok) else None)
    (or_else (case findEnclosingScope lk parent of None \<Rightarrow> None
              | Some sc \<Rightarrow> (case lookupName lk sc name of None \<Rightarrow> None | Some s \<Rightarrow> classifySymbol s))
    (or_else (if isScopeQualifier parent tok then package_class lk name else None)
    (or_else (case getDefinition lk name of None \<Rightarrow> None | Some d \<Rightarrow> classifySymbol d)
             (package_class lk name)))))"

definition syntax_class :: "token_type \<Rightarrow> u32 \<Rightarrow> token_class option" where
  "syntax_class ty mods = Some \<lparr>c_type = ty, c_modifiers = mods, c_symbol = None\<rparr>"

definition classifySyntax :: "lookups \<Rightarrow> token \<Rightarrow> token_class option" where
  "classifySyntax lk tok = (case getTokenParent lk tok of [] \<Rightarrow> None | (_, sh) # _ \<Rightarrow>
     (case sh of
        DefineDirective nm \<Rightarrow> (if nm = tok then syntax_class TT_Macro (modifierBit Mod_Declaration) else None)
      | NamedBlockClause nm \<Rightarrow> (if nm = tok then syntax_class TT_Label 0 else None)
      | HierarchicalInstance decl \<Rightarrow> (if decl = Some tok then syntax_class TT_Instance 0 else None)
      | NamedPortConnection _ nm \<Rightarrow> (if nm = tok then syntax_class TT_Port 0 else None)
      | ExplicitNonAnsiPort nm \<Rightarrow> (if nm = tok then syntax_class TT_Port 0 else None)
      | _ \<Rightarrow> None))"

definition classifyToken :: "lookups \<Rightarrow> token \<Rightarrow> token_class option" where
  "classifyToken lk tok =
     (if tok_kind tok = MacroUsage then syntax_class TT_Macro 0
      else if tok_kind tok = SystemIdentifier then
        syntax_class TT_Function (modifierBit Mod_DefaultLibrary)
      else if isShorthandPortConnection lk tok then syntax_class TT_Port 0
      else or_else (classifyIndexed lk tok)
          (or_else (classifySyntax lk tok) (classifyReference lk tok)))"

section \<open>The collector\<close>

record semantic_token =
  st_offset :: u32
  st_length :: u32
  st_type :: token_type
  st_modifiers :: u32

text \<open>\<open>partition_point\<close> on ranges sorted by their start.\<close>

definition sorted_regions :: "lookups \<Rightarrow> (nat \<times> nat) list" where
  "sorted_regions lk = sort_key fst (disabledRegions lk)"

definition isInactive :: "(nat \<times> nat) list \<Rightarrow> nat \<Rightarrow> bool" where
  "isInactive regions i = (case rev (takeWhile (\<lambda>r. fst r \<le> i) regions) of
     [] \<Rightarrow> False | r # _ \<Rightarrow> snd r > i)"

fun strip_blanks_end :: "string \<Rightarrow> string" where
  "strip_blanks_end s = rev (dropWhile (\<lambda>c. c = CHR '' '' \<or> c = CHR 0x09) (rev s))"

text \<open>The highlighted range of a token: an escaped identifier loses its backslash and the
  blanks that end it.\<close>

definition token_extent :: "token \<Rightarrow> (u32 \<times> string) option" where
  "token_extent tok = (let text = tok_raw tok; i = of_nat (tok_offset tok) in
     if text = [] then None
     else if length text > 1 \<and> hd text = CHR 0x5C then
       (let body = strip_blanks_end (tl text) in if body = [] then None else Some (i + 1, body))
     else Some (i, text))"

definition collect_one :: "lookups \<Rightarrow> token option \<Rightarrow> semantic_token option" where
  "collect_one lk entry = (case entry of None \<Rightarrow> None | Some tok \<Rightarrow>
     if tok_missing tok then None
     else if tok_kind tok = OtherToken then None
     else if tok_raw tok = [] then None
     else if isInactive (sorted_regions lk) (tok_offset tok) then None
     else (case token_extent tok of None \<Rightarrow> None | Some (i, text) \<Rightarrow>
       map_option (\<lambda>cls. \<lparr>st_offset = i, st_length = of_nat (length text),
                          st_type = c_type cls, st_modifiers = c_modifiers cls\<rparr>)
         (classifyToken lk tok)))"

fun collectTokens_from ::
  "lookups \<Rightarrow> (nat \<Rightarrow> bool) \<Rightarrow> nat \<Rightarrow> token option list \<Rightarrow> semantic_token list
     \<Rightarrow> semantic_token list result" where
  "collectTokens_from lk cancelled counter [] acc = Inr acc"
| "collectTokens_from lk cancelled counter (t # ts) acc =
     (if Suc counter mod 64 = 0 \<and> cancelled (Suc counter div 64)
      then Inl (RequestCancelled ''semantic tokens'')
      else collectTokens_from lk cancelled (Suc counter) ts
        (case collect_one lk t of None \<Rightarrow> acc | Some st \<Rightarrow> acc @ [st]))"

definition collectSemanticTokens ::
  "lookups \<Rightarrow> (nat \<Rightarrow> bool) \<Rightarrow> token option list \<Rightarrow> semantic_token list result" where
  "collectSemanticTokens lk cancelled toks = collectTokens_from lk cancelled 0 toks []"

section \<open>The relative encoding\<close>

text \<open>\<open>lineOf\<close>: the index before the first line offset that is greater.\<close>

definition lineOf :: "nat list \<Rightarrow> nat \<Rightarrow> nat option" where
  "lineOf lineOffsets i = (let k = length (takeWhile (\<lambda>ls. ls \<le> i) lineOffsets) in
     if k = 0 then None else Some (k - 1))"

record placed =
  pl_line :: nat
  pl_char :: u32
  pl_length :: u32

text \<open>What the loop computes for a token before the range test: nothing when the token is
  skipped, an exception when \<open>substr\<close> throws or \<open>lineOf\<close> runs below the first line.\<close>

definition place_token ::
  "utf8_lib \<Rightarrow> string \<Rightarrow> nat list \<Rightarrow> semantic_token \<Rightarrow> placed option result" where
  "place_token L text lineOffsets t =
     (if st_length t = 0 \<or> unat (st_offset t + st_length t) > length text then Inr None else
      let i = unat (st_offset t) in
      if i > length text then Inl OutOfRange else
      let tokenText = substr text i (unat (st_length t)) in
      if list_ex line_end tokenText then Inr None else
      (case lineOf lineOffsets i of
         None \<Rightarrow> Inl Undefined
       | Some line \<Rightarrow> (let lineStart = lineOffsets ! line in
           if lineStart > length text then Inl OutOfRange else
           Inr (Some \<lparr>pl_line = line,
             pl_char = utf16Length L (substr text lineStart (i - lineStart)),
             pl_length = utf16Length L tokenText\<rparr>))))"

definition in_requested :: "lsp_range option \<Rightarrow> placed \<Rightarrow> bool" where
  "in_requested rg p = (case rg of None \<Rightarrow> True | Some r \<Rightarrow>
     (let start = \<lparr>p_line = of_nat (pl_line p), p_char = pl_char p\<rparr> in
      \<not> (positionLess start (r_start r) \<or> \<not> positionLess start (r_end r))))"

definition emit_token :: "nat \<times> u32 \<Rightarrow> placed \<Rightarrow> semantic_token \<Rightarrow> u32 list" where
  "emit_token prev p t = [of_nat (pl_line p) - of_nat (fst prev),
     if pl_line p = fst prev then pl_char p - snd prev else pl_char p,
     pl_length p, of_nat (type_index (st_type t)), st_modifiers t]"

fun encode_loop ::
  "utf8_lib \<Rightarrow> (nat \<Rightarrow> bool) \<Rightarrow> string \<Rightarrow> nat list \<Rightarrow> lsp_range option \<Rightarrow> nat \<Rightarrow> nat \<times> u32
     \<Rightarrow> semantic_token list \<Rightarrow> u32 list \<Rightarrow> u32 list result" where
  "encode_loop L cancelled text lineOffsets rg counter prev [] data =
     (if cancelled (Suc (counter div 256)) then Inl (RequestCancelled ''encode semantic tokens'')
      else Inr data)"
| "encode_loop L cancelled text lineOffsets rg counter prev (t # ts) data =
     (if Suc counter mod 256 = 0 \<and> cancelled (Suc counter div 256)
      then Inl (RequestCancelled ''encode semantic tokens'')
      else (case place_token L text lineOffsets t of
         Inl e \<Rightarrow> Inl e
       | Inr None \<Rightarrow> encode_loop L cancelled text lineOffsets rg (Suc counter) prev ts data
       | Inr (Some p) \<Rightarrow>
           (if in_requested rg p
            then encode_loop L cancelled text lineOffsets rg (Suc counter)
                   (unat (of_nat (pl_line p) :: u32), pl_char p) ts (data @ emit_token prev p t)
            else encode_loop L cancelled text lineOffsets rg (Suc counter) prev ts data)))"

definition encodeSemanticTokens ::
  "utf8_lib \<Rightarrow> (string \<Rightarrow> nat list) \<Rightarrow> (nat \<Rightarrow> bool) \<Rightarrow> string \<Rightarrow> semantic_token list
     \<Rightarrow> lsp_range option \<Rightarrow> u32 list result" where
  "encodeSemanticTokens L computeLineOffsets cancelled text toks rg =
     (if toks = [] then Inr [] else
      let lineOffsets = computeLineOffsets text in
      if lineOffsets = [] then Inr [] else
      encode_loop L cancelled text lineOffsets rg 0 (0, 0) toks [])"

section \<open>The client's reading of the encoding\<close>

text \<open>
  The protocol's decoder: every group of five numbers moves from the previous token, the
  character counting from the previous one on the same line and from the line start on
  another.
\<close>

fun decode_rel :: "u32 \<times> u32 \<Rightarrow> u32 list \<Rightarrow> (u32 \<times> u32 \<times> u32 \<times> u32 \<times> u32) list" where
  "decode_rel (l, c) (dl # dc # len # ty # md # rest) = (let l' = l + dl;
     c' = (if dl = 0 then c + dc else dc) in (l', c', len, ty, md) # decode_rel (l', c') rest)"
| "decode_rel lc _ = []"

definition absolute :: "placed \<Rightarrow> semantic_token \<Rightarrow> u32 \<times> u32 \<times> u32 \<times> u32 \<times> u32" where
  "absolute p t = (of_nat (pl_line p), pl_char p, pl_length p,
     of_nat (type_index (st_type t)), st_modifiers t)"

fun visible :: "utf8_lib \<Rightarrow> string \<Rightarrow> nat list \<Rightarrow> lsp_range option \<Rightarrow> semantic_token list
    \<Rightarrow> (u32 \<times> u32 \<times> u32 \<times> u32 \<times> u32) list" where
  "visible L text ls rg [] = []"
| "visible L text ls rg (t # ts) = (case place_token L text ls t of
     Inr (Some p) \<Rightarrow> (if in_requested rg p then [absolute p t] else []) @ visible L text ls rg ts
   | _ \<Rightarrow> visible L text ls rg ts)"

lemma lineOf_less: "lineOf ls i = Some k \<Longrightarrow> k < length ls"
  by (auto simp: lineOf_def Let_def split: if_splits)
     (metis Suc_pred length_takeWhile_le less_Suc_eq_le le_neq_implies_less not_less_eq_eq gr0I
       length_greater_0_conv list.size(3) takeWhile.simps(1))

lemma place_token_line: "place_token L text ls t = Inr (Some p) \<Longrightarrow> pl_line p < length ls"
  by (auto simp: place_token_def Let_def dest: lineOf_less split: if_splits option.splits)

fun rel_end :: "u32 \<times> u32 \<Rightarrow> u32 list \<Rightarrow> u32 \<times> u32" where
  "rel_end (l, c) (dl # dc # len # ty # md # rest) =
     rel_end (l + dl, if dl = 0 then c + dc else dc) rest"
| "rel_end lc _ = lc"

lemma decode_rel_append:
  "length xs mod 5 = 0 \<Longrightarrow> decode_rel lc (xs @ ys) = decode_rel lc xs @ decode_rel (rel_end lc xs) ys"
  by (induction lc xs rule: decode_rel.induct) (auto simp: Let_def)

lemma rel_end_append:
  "length xs mod 5 = 0 \<Longrightarrow> rel_end lc (xs @ ys) = rel_end (rel_end lc xs) ys"
  by (induction lc xs rule: rel_end.induct) auto

lemma u32_of_nat_inj: 
  assumes "a < 2 ^ 32" and "b < 2 ^ 32"
  shows "(of_nat a :: u32) = of_nat b \<longleftrightarrow> a = b"
proof -
  have "unat (of_nat a :: u32) = a" "unat (of_nat b :: u32) = b"
    using assms by (simp_all add: unat_of_nat)
  then show ?thesis by metis
qed

lemma emit_token_step:
  assumes "fst prev < 2 ^ 32" and "pl_line p < 2 ^ 32"
  shows "decode_rel (of_nat (fst prev), snd prev) (emit_token prev p t) = [absolute p t]"
    and "rel_end (of_nat (fst prev), snd prev) (emit_token prev p t) = (of_nat (pl_line p), pl_char p)"
  using u32_of_nat_inj [OF assms(2, 1)] by (auto simp: emit_token_def absolute_def)

lemma emit_token_length: "length (emit_token prev p t) = 5"
  by (simp add: emit_token_def)

lemma encode_loop_decode:
  assumes "encode_loop L cancelled str ls rg n prev ts data = Inr out" and "length ls < 2 ^ 32"
    and "fst prev < 2 ^ 32" and "length data mod 5 = 0"
    and "rel_end (0, 0) data = (of_nat (fst prev), snd prev)"
  shows "decode_rel (0, 0) out = decode_rel (0, 0) data @ visible L str ls rg ts"
  using assms
proof (induction L cancelled str ls rg n prev ts data rule: encode_loop.induct)
  case (1 L cancelled str ls rg n prev data)
  then show ?case by (auto split: if_splits)
next
  case (2 L cancelled str ls rg n prev t ts data)
  have nc: "\<not> (Suc n mod 256 = 0 \<and> cancelled (Suc n div 256))"
    using "2.prems"(1) by (auto split: if_splits)
  show ?case
  proof (cases "place_token L str ls t")
    case (Inl e)
    then show ?thesis using "2.prems"(1) nc by auto
  next
    case (Inr po)
    show ?thesis
    proof (cases po)
      case None
      then show ?thesis using 2 Inr nc by auto
    next
      case (Some p)
      show ?thesis
      proof (cases "in_requested rg p")
        case False
        then show ?thesis using 2 Inr Some nc by auto
      next
        case True
        have lt: "pl_line p < 2 ^ 32" using place_token_line [of L str ls t p] Inr Some "2.prems"(2) by simp
        then have u: "unat (of_nat (pl_line p) :: u32) = pl_line p" by (simp add: unat_of_nat)
        have st: "decode_rel (rel_end (0, 0) data) (emit_token prev p t) = [absolute p t]"
            "rel_end (rel_end (0, 0) data) (emit_token prev p t) = (of_nat (pl_line p), pl_char p)"
          using emit_token_step [OF "2.prems"(3) lt] "2.prems"(5) by simp_all
        have "encode_loop L cancelled str ls rg (Suc n) (pl_line p, pl_char p) ts
            (data @ emit_token prev p t) = Inr out"
          using "2.prems"(1) nc Inr Some True u by auto
        then have "decode_rel (0, 0) out = decode_rel (0, 0) (data @ emit_token prev p t)
            @ visible L str ls rg ts"
          using "2.IH"(2) [OF nc Inr Some True] "2.prems" lt u st
          by (simp add: rel_end_append emit_token_length)
        then show ?thesis using Inr Some True st "2.prems"(4) by (simp add: decode_rel_append)
      qed
    qed
  qed
qed

lemma place_token_returns:
  assumes "ls \<noteq> []" and "hd ls = 0" and "list_all (\<lambda>l. l \<le> length text) ls"
    and "unat (st_offset t) + unat (st_length t) \<le> length text" and "length text < 2 ^ 32"
  shows "\<exists>po. place_token L text ls t = Inr po"
proof -
  have "unat (st_offset t + st_length t) = unat (st_offset t) + unat (st_length t)"
    using assms(4, 5) by (intro unat_add_lem [THEN iffD1]) simp
  moreover obtain k where k: "lineOf ls (unat (st_offset t)) = Some k"
    using assms(1, 2) by (cases ls) (auto simp: lineOf_def)
  moreover have "ls ! k \<le> length text"
    using lineOf_less [OF k] assms(3) by (simp add: list_all_iff)
  ultimately show ?thesis using assms(4) by (auto simp: place_token_def Let_def)
qed

lemma encode_loop_returns:
  assumes "\<forall>t \<in> set ts. \<exists>po. place_token L text ls t = Inr po"
  shows "\<exists>out. encode_loop L (\<lambda>_. False) text ls rg n prev ts data = Inr out"
  using assms
proof (induction ts arbitrary: n prev data)
  case (Cons t ts)
  obtain po where "place_token L text ls t = Inr po" using Cons.prems by auto
  then show ?case using Cons by (cases po) auto
qed simp

section \<open>Disabled regions and the best class\<close>

lemma last_starting_region:
  assumes "sorted (map fst rs)" and "distinct rs"
    and "\<forall>r \<in> set rs. \<forall>s \<in> set rs. r \<noteq> s \<longrightarrow> snd r \<le> fst s \<or> snd s \<le> fst r"
    and "\<forall>r \<in> set rs. fst r < snd r"
  shows "isInactive rs i \<longleftrightarrow> (\<exists>r \<in> set rs. fst r \<le> i \<and> i < snd r)"
  using assms
proof (induction rs rule: rev_induct)
  case (snoc r rs)
  have le: "\<forall>s \<in> set rs. fst s \<le> fst r" using snoc.prems(1) by (auto simp: sorted_append)
  show ?case
  proof (cases "fst r \<le> i")
    case True
    then have "takeWhile (\<lambda>r. fst r \<le> i) (rs @ [r]) = rs @ [r]"
      using le by (intro takeWhile_eq_all_conv [THEN iffD2]) auto
    then have "isInactive (rs @ [r]) i \<longleftrightarrow> i < snd r"
      by (simp add: isInactive_def del: takeWhile_append)
    moreover have False if "s \<in> set rs" "fst s \<le> i" "i < snd s" "\<not> i < snd r" for s
    proof -
      have "s \<noteq> r" using snoc.prems(2) that(1) by auto
      then have "snd r \<le> fst s \<or> snd s \<le> fst r" using snoc.prems(3) that(1) by auto
      moreover have "fst s \<le> fst r" "fst r < snd r" using le that(1) snoc.prems(4) by auto
      ultimately show False using that True by linarith
    qed
    ultimately show ?thesis using True by fastforce
  next
    case False
    then have "takeWhile (\<lambda>r. fst r \<le> i) (rs @ [r]) = takeWhile (\<lambda>r. fst r \<le> i) rs"
      by (auto simp: takeWhile_append takeWhile_eq_all_conv [THEN iffD2])
    then show ?thesis using snoc False by (auto simp: isInactive_def sorted_append)
  qed
qed (simp add: isInactive_def)

definition classes :: "symbol option list \<Rightarrow> token_class list" where
  "classes ss = List.map_filter (\<lambda>s. case s of None \<Rightarrow> None | Some x \<Rightarrow> classifySymbol x) ss"

abbreviation prio :: "token_class \<Rightarrow> int" where "prio c \<equiv> tokenTypePriority (c_type c)"

definition first_best :: "token_class list \<Rightarrow> token_class \<Rightarrow> bool" where
  "first_best cs c \<longleftrightarrow> (\<exists>pre post. cs = pre @ c # post \<and>
     (\<forall>d \<in> set pre. prio c < prio d) \<and> (\<forall>d \<in> set post. prio c \<le> prio d))"

text \<open>Lookups that find nothing; only the witnesses use them.\<close>

definition empty_lookups :: lookups where
  "empty_lookups = \<lparr>getTokenParent = (\<lambda>_. []), symdex = (\<lambda>_. []), syntex = (\<lambda>_. None),
     getSymbolsAtToken = (\<lambda>_. []), as_scope = (\<lambda>_. None), getParentScope = (\<lambda>_. None),
     lookupName = (\<lambda>_ _. None), getPackage = (\<lambda>_. None), getDefinition = (\<lambda>_. None),
     disabledRegions = []\<rparr>"

lemma classes_simps [simp]: "classes [] = []" "classes (None # ss) = classes ss"
  "classes (Some s # ss) = (case classifySymbol s of None \<Rightarrow> classes ss | Some c \<Rightarrow> c # classes ss)"
  by (auto simp: classes_def List.map_filter_simps split: option.splits)

lemma first_best_cons:
  "first_best (c # cs) x \<longleftrightarrow>
     (x = c \<and> (\<forall>d \<in> set cs. prio c \<le> prio d)) \<or> (first_best cs x \<and> prio x < prio c)"
proof
  assume "first_best (c # cs) x"
  then obtain pre post where p: "c # cs = pre @ x # post" "\<forall>d \<in> set pre. prio x < prio d"
      "\<forall>d \<in> set post. prio x \<le> prio d"
    by (auto simp: first_best_def)
  then show "(x = c \<and> (\<forall>d \<in> set cs. prio c \<le> prio d)) \<or> (first_best cs x \<and> prio x < prio c)"
    by (cases pre) (auto simp: first_best_def)
next
  assume "(x = c \<and> (\<forall>d \<in> set cs. prio c \<le> prio d)) \<or> (first_best cs x \<and> prio x < prio c)"
  then show "first_best (c # cs) x"
    unfolding first_best_def
    by (metis append_Cons append_Nil empty_iff empty_set set_ConsD)
qed

lemma first_best_Nil [simp]: "\<not> first_best [] x"
  by (simp add: first_best_def)

lemma first_best_pair:
  "first_best (c # d # cs) x \<longleftrightarrow> first_best ((if prio d < prio c then d else c) # cs) x"
  by (auto simp: first_best_cons)

lemma classifyBest_from_first:
  "classifyBest_from (Some b) ss = Some x \<longleftrightarrow> first_best (b # classes ss) x"
proof (induction "Some b" ss arbitrary: b rule: classifyBest_from.induct)
  case 1
  then show ?case by (auto simp: first_best_cons)
next
  case (3 s ss)
  then show ?case
    by (cases "classifySymbol s") (auto simp: first_best_pair)
qed simp

lemma classifyBest_from_Some: "classifyBest_from (Some b) ss \<noteq> None"
  by (induction "Some b" ss arbitrary: b rule: classifyBest_from.induct) (auto split: option.splits)

lemma classifyBest_first: "classifyBest ss = Some x \<longleftrightarrow> first_best (classes ss) x"
  unfolding classifyBest_def
proof (induction ss)
  case Nil
  then show ?case by (simp add: first_best_def)
next
  case (Cons s ss)
  then show ?case
    by (cases s) (auto simp: classifyBest_from_first split: option.splits)
qed

text \<open>Line offsets of a text with LF line ends; only the witnesses use it.\<close>

definition lf_offsets :: "string \<Rightarrow> nat list" where
  "lf_offsets text = 0 # map Suc (filter (\<lambda>i. text ! i = CHR 0x0A) [0..<length text])"

text \<open>The completion kind that corresponds to a token type.\<close>

fun kind_for_type :: "token_type \<Rightarrow> completion_kind" where
  "kind_for_type TT_Namespace = CK_Module" | "kind_for_type TT_Class = CK_Class"
| "kind_for_type TT_Interface = CK_Interface" | "kind_for_type TT_Enum = CK_Enum"
| "kind_for_type TT_EnumMember = CK_EnumMember" | "kind_for_type TT_Struct = CK_Struct"
| "kind_for_type TT_Type = CK_Struct" | "kind_for_type TT_TypeParameter = CK_TypeParameter"
| "kind_for_type TT_Parameter = CK_Constant" | "kind_for_type TT_Variable = CK_Variable"
| "kind_for_type TT_Property = CK_Field" | "kind_for_type TT_Function = CK_Function"
| "kind_for_type TT_Macro = CK_Property" | "kind_for_type TT_Label = CK_Property"
| "kind_for_type TT_Net = CK_Variable" | "kind_for_type TT_Port = CK_Variable"
| "kind_for_type TT_Instance = CK_Class" | "kind_for_type TT_Modport = CK_Interface"

section \<open>Properties\<close>



text \<open>A token counts as inactive exactly when it starts inside a disabled region, for
  regions as the preprocessor reports them (in any order, none empty, no two overlapping).\<close>

theorem isInactive_iff_in_region:
  assumes "distinct (disabledRegions lk)" and "\<forall>r \<in> set (disabledRegions lk). fst r < snd r"
    and "\<forall>r \<in> set (disabledRegions lk). \<forall>s \<in> set (disabledRegions lk).
           r \<noteq> s \<longrightarrow> snd r \<le> fst s \<or> snd s \<le> fst r"
  shows "isInactive (sorted_regions lk) i =
    (\<exists>r \<in> set (disabledRegions lk). fst r \<le> i \<and> i < snd r)"
  using assms last_starting_region [of "sorted_regions lk" i] by (simp add: sorted_regions_def)

theorem isInactive_iff_in_region_witness:
  "isInactive (sorted_regions (empty_lookups\<lparr>disabledRegions := [(10, 20), (2, 5)]\<rparr>)) 12 =
    (\<exists>r \<in> set (disabledRegions (empty_lookups\<lparr>disabledRegions := [(10, 20), (2, 5)]\<rparr>)).
       fst r \<le> 12 \<and> 12 < snd r)"
  by (rule isInactive_iff_in_region) simp_all

text \<open>Of the symbols a token stands for, \<open>classifyBest\<close> takes the first one whose class
  has the best priority, and finds none exactly when no symbol has a class.\<close>

theorem classifyBest_optimal:
  "(classifyBest ss = Some cls) = first_best (classes ss) cls \<and>
   (classifyBest ss = None) = (classes ss = [])"
proof -
  have "classifyBest ss = None \<longleftrightarrow> classes ss = []"
  proof (induction ss)
    case (Cons s ss)
    then show ?case
      by (cases s) (auto simp: classifyBest_def classifyBest_from_Some split: option.splits)
  qed (simp add: classifyBest_def)
  then show ?thesis by (simp add: classifyBest_first)
qed

text \<open>Completion kinds and token types group symbols the same way: for every symbol kind
  but those listed, the completion kind is a function of the token type (with the definition
  kind for modules). The kinds listed are where the two tables differ.\<close>

theorem kinds_agree:
  "(\<exists>cls. classifySymbol (Symbol i None) = Some cls \<and>
          toCompletionItemKind (Symbol i None) \<noteq> kind_for_type (c_type cls)) =
   (sym_kind i \<in> {InterfacePort, ConstraintBlock, Sequence, PropertyDecl} \<or>
    sym_kind i = Definition \<and> definitionKind i \<noteq> DefInterface \<or>
    sym_kind i = TypeAlias \<and> alias_isEnum i)"
  by (cases "sym_kind i"; cases "definitionKind i")
     (simp_all add: toCompletionItemKind_def plain_class_def add_modifier_def Let_def)

end
