(* ===== verification/Markdown.thy ===== *)
theory Markdown
  imports Prelude
begin

text \<open>
  The Markdown builder (\<open>src/util/Markdown.cpp\<close>, \<open>include/util/Markdown.h\<close>):
  \<open>Paragraph\<close> is its buffer, \<open>Document\<close> a list of paragraphs, and
  \<open>escapeMarkdownLine\<close> escapes one line of plain text. Also
  \<open>svCodeBlockString\<close>'s fence. The \<open>fmt\<close> calls only concatenate.
\<close>

abbreviation backtick :: char where "backtick \<equiv> CHR 0x60"
abbreviation backslash :: char where "backslash \<equiv> CHR 0x5C"
abbreviation newline :: string where "newline \<equiv> [CHR 0x0A]"

section \<open>Paragraphs\<close>

type_synonym para = string
type_synonym document = "para list"

definition appendText :: "para \<Rightarrow> string \<Rightarrow> para" where
  "appendText buffer txt = buffer @ txt"

text \<open>The loop that finds the longest run of backticks.\<close>

fun backtick_runs :: "string \<Rightarrow> nat \<Rightarrow> nat \<Rightarrow> nat" where
  "backtick_runs [] currentRun maxBackticks = maxBackticks"
| "backtick_runs (c # cs) currentRun maxBackticks =
     (if c = backtick
      then backtick_runs cs (currentRun + 1) (max maxBackticks (currentRun + 1))
      else backtick_runs cs 0 maxBackticks)"

definition code_delimiter :: "string \<Rightarrow> string" where
  "code_delimiter code = replicate (backtick_runs code 0 0 + 1) backtick"

definition appendCode :: "para \<Rightarrow> string \<Rightarrow> para" where
  "appendCode buffer code =
    (let maxBackticks = backtick_runs code 0 0;
         delimiter = code_delimiter code
     in if maxBackticks > 0 then buffer @ delimiter @ '' '' @ code @ '' '' @ delimiter
        else buffer @ delimiter @ code @ delimiter)"

definition spaced :: "para \<Rightarrow> para" where
  "spaced buffer = (if buffer \<noteq> [] \<and> last buffer \<noteq> CHR '' '' then buffer @ '' '' else buffer)"

definition appendBold :: "para \<Rightarrow> string \<Rightarrow> para" where
  "appendBold buffer txt = spaced buffer @ ''**'' @ txt @ ''** ''"

text \<open>A negative level converts to a huge \<open>size_t\<close>, for which \<open>std::string\<close> throws.\<close>

definition appendHeader :: "para \<Rightarrow> string \<Rightarrow> int \<Rightarrow> para result" where
  "appendHeader buffer txt level =
    (if level < 0 then Inl LengthError
     else Inr (spaced buffer @ replicate (nat level) (CHR ''#'') @ '' '' @ txt))"

definition sv_fence :: "string \<Rightarrow> string" where
  "sv_fence code = replicate 4 backtick @ ''systemverilog'' @ newline @ code @ newline
     @ replicate 4 backtick"

definition appendCodeBlock :: "para \<Rightarrow> string \<Rightarrow> para" where
  "appendCodeBlock buffer code = buffer @ sv_fence code"

definition newLine :: "para \<Rightarrow> para" where
  "newLine buffer = buffer @ ''  '' @ newline"

definition append_paragraph :: "para \<Rightarrow> para \<Rightarrow> para" where
  "append_paragraph buffer p = (if buffer = [] then p else buffer @ p)"

definition paragraph_isEmpty :: "para \<Rightarrow> bool" where
  "paragraph_isEmpty buffer \<longleftrightarrow> buffer = []"

section \<open>Documents\<close>

definition addParagraph :: "document \<Rightarrow> para \<Rightarrow> document" where
  "addParagraph d p = d @ [p]"

definition document_append :: "document \<Rightarrow> document \<Rightarrow> document" where
  "document_append d e = d @ e"

definition document_isEmpty :: "document \<Rightarrow> bool" where
  "document_isEmpty d = list_all paragraph_isEmpty d"

definition rule_separator :: string where
  "rule_separator = newline @ newline @ ''---'' @ newline @ newline"

fun build_loop :: "document \<Rightarrow> bool \<Rightarrow> string \<Rightarrow> string" where
  "build_loop [] first res = res"
| "build_loop (p # paras) first res =
     (if paragraph_isEmpty p then build_loop paras first res
      else build_loop paras False ((if first then res else res @ rule_separator) @ p))"

definition document_build :: "document \<Rightarrow> string" where
  "document_build d = build_loop d True []"

section \<open>Escaping\<close>

definition rtrim_view :: "string \<Rightarrow> string" where
  "rtrim_view s = rev (dropWhile isspace (rev s))"

definition looksLikeTag_attrs :: "string \<Rightarrow> bool" where
  "looksLikeTag_attrs rest =
    (case dropWhile (\<lambda>c. isalnum c \<or> isspace c) rest of
       [] \<Rightarrow> True
     | c # cs \<Rightarrow> c = CHR ''>'' \<or> starts_with (c # cs) ''/>'' \<or> c = CHR ''='')"

definition looksLikeTag :: "string \<Rightarrow> bool" where
  "looksLikeTag contents =
    (if contents = [] then False
     else if hd contents \<in> set ''!?/'' then True
     else if \<not> isalpha (hd contents) then False
     else let rest = dropWhile (\<lambda>c. isalnum c \<or> c \<in> set ''-_:'') contents;
              rest = dropWhile isspace rest
          in looksLikeTag_attrs rest)"

definition rulerLength :: "char \<Rightarrow> string \<Rightarrow> string \<Rightarrow> bool \<Rightarrow> nat" where
  "rulerLength c before after startsLine =
    (if \<not> startsLine \<or> before \<noteq> [] then 0
     else let trimmedAfter = rtrim_view after
          in if \<not> list_all (\<lambda>d. d = c) trimmedAfter then 0
             else (1 + length trimmedAfter) mod 2 ^ 32)"

definition isBullet :: "string \<Rightarrow> string \<Rightarrow> bool \<Rightarrow> bool" where
  "isBullet before after startsLine \<longleftrightarrow>
     startsLine \<and> before = [] \<and> (after = [] \<or> starts_with after '' '')"

definition spaceSurrounds :: "string \<Rightarrow> string \<Rightarrow> bool" where
  "spaceSurrounds before after \<longleftrightarrow>
     (after = [] \<or> isspace (hd after)) \<and> (before = [] \<or> isspace (last before))"

definition wordSurrounds :: "string \<Rightarrow> string \<Rightarrow> bool" where
  "wordSurrounds before after \<longleftrightarrow>
     (after \<noteq> [] \<and> isalnum (hd after)) \<and> (before \<noteq> [] \<and> isalnum (last before))"

definition looksLikeEntity :: "string \<Rightarrow> bool" where
  "looksLikeEntity after =
    (case find_char (CHR '';'') after of
       None \<Rightarrow> False
     | Some end \<Rightarrow>
        (let content = take end after
         in if content \<noteq> [] \<and> hd content = CHR ''#''
            then let content = tl content
                 in if content \<noteq> [] \<and> (hd content = CHR ''x'' \<or> hd content = CHR ''X'')
                    then list_all isxdigit (tl content) else list_all isdigit content
            else list_all isalpha content))"

definition needsLeadingEscapePlaintext :: "char \<Rightarrow> string \<Rightarrow> string \<Rightarrow> bool \<Rightarrow> bool" where
  "needsLeadingEscapePlaintext c before after startsLine =
    (if c = backslash then True
     else if c = backtick then True
     else if c = CHR ''~'' then startsLine \<and> before = [] \<and> starts_with after ''~~''
     else if c = CHR ''#'' then
       (if \<not> startsLine \<or> before \<noteq> [] then False
        else let rest = dropWhile (\<lambda>d. d = CHR ''#'') after
             in rest = [] \<or> starts_with rest '' '')
     else if c = CHR '']'' then starts_with after '':'' \<or> starts_with after ''(''
     else if c = CHR ''='' then 0 < rulerLength c before after startsLine
     else if c = CHR ''_'' then
       (if 3 \<le> rulerLength c before after startsLine then True
        else \<not> (spaceSurrounds before after \<or> wordSurrounds before after))
     else if c = CHR ''-'' then
       (if 0 < rulerLength c before after startsLine then True
        else isBullet before after startsLine)
     else if c = CHR ''+'' then isBullet before after startsLine
     else if c = CHR ''*'' then
       isBullet before after startsLine \<or> 3 \<le> rulerLength c before after startsLine
       \<or> \<not> spaceSurrounds before after
     else if c = CHR ''<'' then looksLikeTag after
     else if c = CHR ''>'' then startsLine \<and> before = []
     else if c = CHR ''&'' then looksLikeEntity after
     else if c = CHR ''.'' \<or> c = CHR '')'' then
       startsLine \<and> before \<noteq> [] \<and> list_all isdigit before \<and> starts_with after '' ''
     else False)"

text \<open>The loop of \<open>escapeMarkdownLine\<close>, with the part of the line already passed.\<close>

fun escape_from :: "string \<Rightarrow> string \<Rightarrow> string" where
  "escape_from before [] = []"
| "escape_from before (c # after) =
     (if needsLeadingEscapePlaintext c before after True then [backslash, c] else [c])
     @ escape_from (before @ [c]) after"

definition escapeMarkdownLine :: "string \<Rightarrow> string" where
  "escapeMarkdownLine line = escape_from [] line"

section \<open>How a Markdown reader sees the output\<close>

text \<open>
  CommonMark: a backslash before ASCII punctuation makes that character literal; any other
  backslash stands for itself. \<open>md_tokens\<close> reads a line as characters, each with the
  information whether it was made literal.
\<close>

definition ascii_punct :: "char \<Rightarrow> bool" where
  "ascii_punct c \<longleftrightarrow> (let b = byte c in
     33 \<le> b \<and> b \<le> 47 \<or> 58 \<le> b \<and> b \<le> 64 \<or> 91 \<le> b \<and> b \<le> 96 \<or> 123 \<le> b \<and> b \<le> 126)"

fun md_tokens :: "string \<Rightarrow> (char \<times> bool) list" where
  "md_tokens [] = []"
| "md_tokens [c] = [(c, False)]"
| "md_tokens (c # d # s) =
     (if c = backslash \<and> ascii_punct d then (d, True) # md_tokens s
      else (c, False) # md_tokens (d # s))"

definition md_text :: "string \<Rightarrow> string result" where
  "md_text s = Inr (map fst (md_tokens s))"

section \<open>Lemmas\<close>

lemma needs_escape_punct:
  assumes "needsLeadingEscapePlaintext c before after startsLine"
  shows "ascii_punct c"
proof (rule ccontr)
  let ?special = "[backslash, backtick] @ ''~#]=_-+*<>&.)''"
  assume "\<not> ascii_punct c"
  moreover have "list_all ascii_punct ?special" by code_simp
  ultimately have "c \<notin> set ?special" by (auto simp: list_all_iff)
  then have "\<not> needsLeadingEscapePlaintext c before after startsLine"
    by (simp add: needsLeadingEscapePlaintext_def)
  with assms show False by contradiction
qed

lemma needs_escape_backslash: "needsLeadingEscapePlaintext backslash before after startsLine"
  by (simp add: needsLeadingEscapePlaintext_def)

lemma md_tokens_plain: "c \<noteq> backslash \<Longrightarrow> md_tokens (c # s) = (c, False) # md_tokens s"
  by (cases s) auto

lemma md_tokens_escape_from:
  "md_tokens (escape_from before s) =
     map (\<lambda>i. (s ! i, needsLeadingEscapePlaintext (s ! i) (before @ take i s) (drop (Suc i) s) True))
       [0..<length s]"
proof (induction s arbitrary: before)
  case Nil
  then show ?case by simp
next
  case (Cons c s)
  let ?needs = "needsLeadingEscapePlaintext c before s True"
  have head: "md_tokens (escape_from before (c # s)) = (c, ?needs) # md_tokens (escape_from (before @ [c]) s)"
  proof (cases ?needs)
    case True
    then show ?thesis using needs_escape_punct [OF True] by simp
  next
    case False
    then have "c \<noteq> backslash" using needs_escape_backslash by metis
    with False show ?thesis by (simp add: md_tokens_plain)
  qed
  show ?case
    unfolding head Cons.IH by (simp add: upt_conv_Cons map_Suc_upt [symmetric] del: upt_Suc)
qed

lemma md_text_escape: "md_text (escapeMarkdownLine line) = Inr line"
  by (simp add: md_text_def escapeMarkdownLine_def md_tokens_escape_from comp_def map_nth)

interpretation md_codec: byte_codec escapeMarkdownLine md_text
  by unfold_locales (rule md_text_escape)

lemma backtick_runs_ge: "mx \<le> backtick_runs cs cur mx"
  by (induction cs arbitrary: cur mx) (auto intro: order_trans [OF max.cobounded1])

lemma backtick_runs_replicate:
  "0 < m \<Longrightarrow> cur + m \<le> backtick_runs (replicate m backtick @ v) cur mx"
proof (induction m arbitrary: cur mx)
  case (Suc m)
  show ?case
  proof (cases m)
    case 0
    then show ?thesis
      using backtick_runs_ge [of "max mx (cur + 1)" v "cur + 1"] by simp
  next
    case (Suc k)
    then show ?thesis using Suc.IH [of "cur + 1" "max mx (cur + 1)"] by simp
  qed
qed simp

lemma backtick_runs_middle:
  "0 < m \<Longrightarrow> m \<le> backtick_runs (u @ replicate m backtick @ v) cur mx"
proof (induction u arbitrary: cur mx)
  case Nil
  then show ?case using backtick_runs_replicate [of m cur v mx] by simp
qed simp

lemma backtick_runs_space: "backtick_runs (code @ '' '') cur mx = backtick_runs code cur mx"
  by (induction code arbitrary: cur mx) auto

lemma backtick_runs_member: "backtick \<in> set code \<Longrightarrow> 0 < backtick_runs code 0 0"
proof -
  assume "backtick \<in> set code"
  then obtain u v where "code = u @ backtick # v" by (metis split_list)
  then show ?thesis using backtick_runs_middle [of 1 u v 0 0] by simp
qed

lemma code_delimiter_not_sublist: "\<not> sublist (code_delimiter code) code"
proof
  assume "sublist (code_delimiter code) code"
  then obtain u v where c: "code = u @ code_delimiter code @ v"
    unfolding sublist_def by auto
  let ?m = "backtick_runs code 0 0 + 1"
  have "?m \<le> backtick_runs (u @ replicate ?m backtick @ v) 0 0"
    by (rule backtick_runs_middle) simp
  then show False using c by (simp add: code_delimiter_def)
qed

lemma build_loop_acc:
  "build_loop d False res = res @ concat (map (\<lambda>p. rule_separator @ p) (filter (\<lambda>p. p \<noteq> []) d))"
  by (induction d arbitrary: res) (auto simp: paragraph_isEmpty_def)

lemma build_loop_append:
  "build_loop (d @ e) first res =
     build_loop e (first \<and> document_isEmpty d) (build_loop d first res)"
  by (induction d arbitrary: first res) (auto simp: document_isEmpty_def paragraph_isEmpty_def)

lemma build_loop_first:
  "build_loop e True [] = (case filter (\<lambda>p. p \<noteq> []) e of [] \<Rightarrow> []
     | p # ps \<Rightarrow> p @ concat (map (\<lambda>p. rule_separator @ p) ps))"
  by (induction e) (auto simp: paragraph_isEmpty_def build_loop_acc split: list.splits)

lemma document_isEmpty_filter: "document_isEmpty d \<longleftrightarrow> filter (\<lambda>p. p \<noteq> []) d = []"
  by (auto simp: document_isEmpty_def paragraph_isEmpty_def list_all_iff filter_empty_conv)

section \<open>Properties\<close>

text \<open>A Markdown reader sees, in the escaped line, exactly the characters of the
  original line in order, each made literal exactly where the escaping rule asked for it.\<close>

theorem escapeMarkdownLine_tokens:
  "md_tokens (escapeMarkdownLine line) =
     map (\<lambda>i. (line ! i, needsLeadingEscapePlaintext (line ! i) (take i line) (drop (Suc i) line) True))
       [0..<length line]"
  by (simp add: escapeMarkdownLine_def md_tokens_escape_from)

text \<open>\<open>appendCode\<close> encloses its content between two copies of a delimiter that
  occurs nowhere in what lies between, which neither starts nor ends with a backtick: no run
  of backticks in the content can close the span early or lengthen a delimiter.\<close>

theorem appendCode_delimiter_safe:
  "\<exists>body. appendCode buffer code = buffer @ code_delimiter code @ body @ code_delimiter code
     \<and> sublist code body \<and> \<not> sublist (code_delimiter code) body
     \<and> (body = [] \<or> (hd body \<noteq> backtick \<and> last body \<noteq> backtick))"
proof (cases "backtick_runs code 0 0 = 0")
  case True
  then have "backtick \<notin> set code" using backtick_runs_member by fastforce
  then have "code = [] \<or> (hd code \<noteq> backtick \<and> last code \<noteq> backtick)"
    by (metis hd_in_set last_in_set)
  with True show ?thesis
    by (intro exI [of _ code]) (simp add: appendCode_def code_delimiter_not_sublist Let_def)
next
  case False
  have "backtick_runs ('' '' @ code @ '' '') 0 0 = backtick_runs code 0 0"
    by (simp add: backtick_runs_space)
  then have "\<not> sublist (code_delimiter code) ('' '' @ code @ '' '')"
    by (metis code_delimiter_def code_delimiter_not_sublist)
  moreover have "sublist code ('' '' @ code @ '' '')" by (rule sublist_appendI)
  ultimately show ?thesis
    using False by (intro exI [of _ "'' '' @ code @ '' ''"]) (simp add: appendCode_def Let_def)
qed

text \<open>Building a document after appending another gives the two renderings joined by one
  horizontal rule, and no rule at all where either side has nothing to render.\<close>

theorem document_build_append:
  "document_build (document_append d e) =
     (if document_isEmpty d then document_build e
      else if document_isEmpty e then document_build d
      else document_build d @ rule_separator @ document_build e)"
proof (cases "document_isEmpty d")
  case True
  then have "build_loop d True [] = []"
    by (simp add: build_loop_first document_isEmpty_filter)
  with True show ?thesis by (simp add: document_build_def document_append_def build_loop_append)
next
  case False
  then show ?thesis
    by (simp add: document_build_def document_append_def build_loop_append build_loop_acc
        build_loop_first [of e] document_isEmpty_filter split: list.split)
qed

end
