(* ===== verification/Snippet.thy ===== *)
theory Snippet
  imports Prelude
begin

text \<open>
  \<open>SnippetString\<close> (\<open>include/lsp/SnippetString.h\<close>): the builder of LSP completion
  snippets, a value and the number of the next automatic tab stop. The last section states
  how a client reads the text, after the snippet grammar of the LSP specification.
\<close>

record snippet =
  snip_value :: string
  snip_tabstop :: int

definition snippet_new :: "string \<Rightarrow> snippet" where
  "snippet_new v = \<lparr>snip_value = v, snip_tabstop = 1\<rparr>"

definition special_char :: "char \<Rightarrow> bool" where
  "special_char c \<longleftrightarrow> c \<in> {CHR ''$'', CHR ''}'', CHR 0x5C}"

fun snippet_escape :: "string \<Rightarrow> string" where
  "snippet_escape [] = []"
| "snippet_escape (c # cs) = (if special_char c then [CHR 0x5C, c] else [c]) @ snippet_escape cs"

definition nextTabstop :: "snippet \<Rightarrow> int option \<Rightarrow> int \<times> snippet" where
  "nextTabstop s number =
    (case number of
       Some n \<Rightarrow> (n, s\<lparr>snip_tabstop := max (snip_tabstop s) (n + 1)\<rparr>)
     | None \<Rightarrow> (snip_tabstop s, s\<lparr>snip_tabstop := snip_tabstop s + 1\<rparr>))"

abbreviation emit :: "snippet \<Rightarrow> string \<Rightarrow> snippet" where
  "emit s t \<equiv> s\<lparr>snip_value := snip_value s @ t\<rparr>"

definition snippet_appendText :: "snippet \<Rightarrow> string \<Rightarrow> snippet" where
  "snippet_appendText s txt = emit s (snippet_escape txt)"

definition appendTabstop :: "snippet \<Rightarrow> int option \<Rightarrow> snippet" where
  "appendTabstop s number =
    (let s = emit s ''$''; (n, s) = nextTabstop s number in emit s (to_string n))"

definition appendPlaceholder :: "snippet \<Rightarrow> string \<Rightarrow> int option \<Rightarrow> snippet" where
  "appendPlaceholder s v number =
    (let s = emit s ''${''; (n, s) = nextTabstop s number
     in emit s (to_string n @ '':'' @ snippet_escape v @ ''}''))"

text \<open>The escaping of a choice inserts a backslash before each comma, bar and backslash.\<close>

fun choice_escape :: "string \<Rightarrow> string" where
  "choice_escape [] = []"
| "choice_escape (c # cs) =
     (if c = CHR '','' \<or> c = CHR ''|'' \<or> c = CHR 0x5C then [CHR 0x5C, c] else [c]) @ choice_escape cs"

fun choice_join :: "string list \<Rightarrow> bool \<Rightarrow> string" where
  "choice_join [] first = []"
| "choice_join (v # vs) first =
     (if first then [] else '','') @ choice_escape v @ choice_join vs False"

definition appendChoice :: "snippet \<Rightarrow> string list \<Rightarrow> int option \<Rightarrow> snippet" where
  "appendChoice s values number =
    (if values = [] then s
     else let s = emit s ''${''; (n, s) = nextTabstop s number
          in emit s (to_string n @ ''|'' @ choice_join values True @ ''|}''))"

definition appendVariable :: "snippet \<Rightarrow> string \<Rightarrow> string \<Rightarrow> snippet" where
  "appendVariable s name defaultValue =
     emit s (''${'' @ name @ (if defaultValue \<noteq> [] then '':'' @ snippet_escape defaultValue else []) @ ''}'')"

definition appendVariable_nested :: "snippet \<Rightarrow> string \<Rightarrow> (snippet \<Rightarrow> snippet) \<Rightarrow> snippet" where
  "appendVariable_nested s name callback =
    (let nested = snip_value (callback (snippet_new []))
     in emit s (''${'' @ name @ (if nested \<noteq> [] then '':'' @ nested else []) @ ''}''))"

section \<open>Sequences of builder calls\<close>

datatype snip_op =
    OpText string
  | OpTabstop "int option"
  | OpPlaceholder string "int option"
  | OpChoice "string list" "int option"
  | OpVariable string string

fun snip_step :: "snippet \<Rightarrow> snip_op \<Rightarrow> snippet" where
  "snip_step s (OpText t) = snippet_appendText s t"
| "snip_step s (OpTabstop n) = appendTabstop s n"
| "snip_step s (OpPlaceholder v n) = appendPlaceholder s v n"
| "snip_step s (OpChoice vs n) = appendChoice s vs n"
| "snip_step s (OpVariable x d) = appendVariable s x d"

text \<open>The number a call writes into the snippet, if it writes one.\<close>

fun op_number :: "snippet \<Rightarrow> snip_op \<Rightarrow> int option" where
  "op_number s (OpTabstop n) = Some (fst (nextTabstop s n))"
| "op_number s (OpPlaceholder v n) = Some (fst (nextTabstop s n))"
| "op_number s (OpChoice vs n) = (if vs = [] then None else Some (fst (nextTabstop s n)))"
| "op_number s op = None"

fun run_numbers :: "snippet \<Rightarrow> snip_op list \<Rightarrow> int list" where
  "run_numbers s [] = []"
| "run_numbers s (x # xs) =
     (case op_number s x of None \<Rightarrow> [] | Some n \<Rightarrow> [n]) @ run_numbers (snip_step s x) xs"

definition snip_run :: "snippet \<Rightarrow> snip_op list \<Rightarrow> snippet" where
  "snip_run s xs = foldl snip_step s xs"

section \<open>How a client reads the text\<close>

text \<open>
  Inside a placeholder the grammar escapes with a backslash; an unescaped closing brace ends
  the placeholder. \<open>scan_placeholder\<close> returns the literal text and what follows the brace,
  and nothing where the text holds a variable or tab stop of its own.
\<close>

fun scan_placeholder :: "string \<Rightarrow> (string \<times> string) option" where
  "scan_placeholder [] = None"
| "scan_placeholder (c # cs) =
     (if c = CHR ''}'' then Some ([], cs)
      else if c = CHR ''$'' then None
      else if c = CHR 0x5C
      then (case cs of
              [] \<Rightarrow> None
            | d # ds \<Rightarrow>
               if special_char d
               then map_option (\<lambda>(t, r). (d # t, r)) (scan_placeholder ds)
               else map_option (\<lambda>(t, r). (c # t, r)) (scan_placeholder cs))
      else map_option (\<lambda>(t, r). (c # t, r)) (scan_placeholder cs))"

text \<open>Inside a choice a comma separates and a bar ends; both, and the backslash, are escaped.\<close>

fun scan_choice :: "string \<Rightarrow> string \<Rightarrow> (string list \<times> string) option" where
  "scan_choice acc [] = None"
| "scan_choice acc (c # cs) =
     (if c = CHR ''|'' then Some ([acc], cs)
      else if c = CHR '','' then map_option (\<lambda>(vs, r). (acc # vs, r)) (scan_choice [] cs)
      else if c = CHR 0x5C
      then (case cs of
              [] \<Rightarrow> None
            | d # ds \<Rightarrow>
               if d = CHR '','' \<or> d = CHR ''|'' \<or> d = CHR 0x5C then scan_choice (acc @ [d]) ds
               else scan_choice (acc @ [c]) cs)
      else scan_choice (acc @ [c]) cs)"

section \<open>Lemmas\<close>

lemma scan_placeholder_escape:
  "scan_placeholder (snippet_escape v @ CHR ''}'' # rest) = Some (v, rest)"
  by (induction v) (auto simp: special_char_def)

definition placeholder_text :: "string \<Rightarrow> string result" where
  "placeholder_text s =
     (case scan_placeholder (s @ ''}'') of Some (t, []) \<Rightarrow> Inr t | _ \<Rightarrow> Inl InvalidArgument)"

interpretation snippet_codec: byte_codec snippet_escape placeholder_text
  by unfold_locales (simp add: placeholder_text_def scan_placeholder_escape)

lemma scan_choice_escape:
  "scan_choice acc (choice_escape v @ rest) = scan_choice (acc @ v) rest"
  by (induction v arbitrary: acc) auto

lemma scan_choice_join_tail:
  "scan_choice acc (choice_join vs False @ CHR ''|'' # rest) = Some (acc # vs, rest)"
  by (induction vs arbitrary: acc) (auto simp: scan_choice_escape)

lemma scan_choice_join:
  "vs \<noteq> [] \<Longrightarrow> scan_choice [] (choice_join vs True @ CHR ''|'' # rest) = Some (vs, rest)"
  by (cases vs) (auto simp: scan_choice_escape scan_choice_join_tail)

lemma nextTabstop_props:
  "fst (nextTabstop s n) < snip_tabstop (snd (nextTabstop s n))"
  "snip_tabstop s \<le> snip_tabstop (snd (nextTabstop s n))"
  by (auto simp: nextTabstop_def split: option.splits)

lemma snip_step_tabstop_mono: "snip_tabstop s \<le> snip_tabstop (snip_step s x)"
  by (cases x) (auto simp: snippet_appendText_def appendTabstop_def appendPlaceholder_def
      appendChoice_def appendVariable_def nextTabstop_def Let_def split: option.splits)

lemma snip_step_tabstop_number: "op_number s x = Some n \<Longrightarrow> n < snip_tabstop (snip_step s x)"
  by (cases x) (auto simp: appendTabstop_def appendPlaceholder_def appendChoice_def
      nextTabstop_def Let_def split: option.splits if_splits)

lemma snip_run_mono: "snip_tabstop s \<le> snip_tabstop (snip_run s xs)"
proof (induction xs arbitrary: s)
  case (Cons x xs)
  show ?case
    using snip_step_tabstop_mono [of s x] Cons.IH [of "snip_step s x"] by (simp add: snip_run_def)
qed (simp add: snip_run_def)

lemma run_numbers_below: "n \<in> set (run_numbers s xs) \<Longrightarrow> n < snip_tabstop (snip_run s xs)"
proof (induction xs arbitrary: s)
  case (Cons x xs)
  have run: "snip_run s (x # xs) = snip_run (snip_step s x) xs" by (simp add: snip_run_def)
  from Cons.prems consider "op_number s x = Some n" | "n \<in> set (run_numbers (snip_step s x) xs)"
    by (auto split: option.splits)
  then show ?case
  proof cases
    case 1
    then show ?thesis
      unfolding run using snip_step_tabstop_number [of s x n] snip_run_mono [of "snip_step s x" xs]
      by linarith
  next
    case 2
    then show ?thesis unfolding run by (rule Cons.IH)
  qed
qed simp

section \<open>Properties\<close>

text \<open>The text a placeholder is given is the text the client shows in it: reading the
  snippet from the placeholder's colon, the client finds exactly that text, ended by the
  brace that \<open>appendPlaceholder\<close> wrote.\<close>

theorem placeholder_roundtrip:
  "\<exists>number. snip_value (appendPlaceholder s v n) @ rest
      = snip_value s @ ''${'' @ number @ '':'' @ snippet_escape v @ ''}'' @ rest
    \<and> scan_placeholder (snippet_escape v @ ''}'' @ rest) = Some (v, rest)"
  by (intro exI [of _ "to_string (fst (nextTabstop (emit s ''${'') n))"])
    (auto simp: appendPlaceholder_def Let_def split_beta nextTabstop_def scan_placeholder_escape
      split: option.splits)

text \<open>The client reads the choices of a choice element back as the list given,
  whatever commas, bars and backslashes they hold.\<close>

theorem choice_roundtrip:
  assumes "values \<noteq> []"
  shows "\<exists>number. snip_value (appendChoice s values n) @ rest
      = snip_value s @ ''${'' @ number @ ''|'' @ choice_join values True @ ''|}'' @ rest
    \<and> scan_choice [] (choice_join values True @ ''|}'' @ rest) = Some (values, ''}'' @ rest)"
  using assms
  by (intro exI [of _ "to_string (fst (nextTabstop (emit s ''${'') n))"])
    (auto simp: appendChoice_def Let_def split_beta nextTabstop_def scan_choice_join
      split: option.splits)

theorem choice_roundtrip_witness:
  "\<exists>number. snip_value (appendChoice (snippet_new []) [''a,b'', ''c|''] None) @ []
      = [] @ ''${'' @ number @ ''|'' @ choice_join [''a,b'', ''c|''] True @ ''|}'' @ []
    \<and> scan_choice [] (choice_join [''a,b'', ''c|''] True @ ''|}'' @ []) = Some ([''a,b'', ''c|''], ''}'' @ [])"
  using choice_roundtrip [of "[''a,b'', ''c|'']" "snippet_new []" None "[]"]
  by (simp add: snippet_new_def)

text \<open>An automatic tab stop is new: after any sequence of calls, the number the
  builder hands out next is larger than every number it has written, automatic or explicit.\<close>

theorem tabstop_fresh:
  assumes "n \<in> set (run_numbers (snippet_new v) xs)"
  shows "n < fst (nextTabstop (snip_run (snippet_new v) xs) None)"
  using run_numbers_below [OF assms] by (simp add: nextTabstop_def)

theorem tabstop_fresh_witness:
  "7 < fst (nextTabstop (snip_run (snippet_new []) [OpTabstop None, OpPlaceholder ''w'' (Some 7)]) None)"
  by (rule tabstop_fresh) (simp add: snippet_new_def nextTabstop_def appendTabstop_def)

end
