(* ===== verification/Paths.thy ===== *)
theory Paths
  imports Prelude
begin

text \<open>
  The lexical operations of \<open>std::filesystem::path\<close> (POSIX) that the sources use. A path is the
  sequence of its elements, as its iterators give them: the root directory \<open>/\<close> first when there
  is one, and an empty last element after a trailing separator. Two paths of the library are
  equal exactly when these sequences are.

  What depends on the file system is a parameter, the record \<open>filesystem\<close>: canonical paths (with
  \<open>None\<close> for an error), the kind of an entry, and the current directory.
\<close>

type_synonym path = "string list"

abbreviation root_dir :: string where "root_dir \<equiv> ''/''"
abbreviation dot :: string where "dot \<equiv> ''.''"
abbreviation dotdot :: string where "dotdot \<equiv> ''..''"

record filesystem =
  weakly_canonical :: "path \<Rightarrow> path option"
  is_regular_file :: "path \<Rightarrow> bool"
  is_directory :: "path \<Rightarrow> bool"
  exists_path :: "path \<Rightarrow> bool"
  current_path :: path

section \<open>Strings and paths\<close>

fun split_slashes :: "string \<Rightarrow> string list" where
  "split_slashes [] = [[]]"
| "split_slashes (c # cs) = (if c = CHR ''/'' then [] # split_slashes cs
     else (case split_slashes cs of [] \<Rightarrow> [[c]] | p # ps \<Rightarrow> (c # p) # ps))"

text \<open>Repeated separators count as one; the element after a trailing one is empty.\<close>

definition path_of_string :: "string \<Rightarrow> path" where
  "path_of_string s = (if s = [] then [] else
     let names = filter (\<lambda>p. p \<noteq> []) (split_slashes s);
         root = (if hd s = CHR ''/'' then [root_dir] else []) in
     root @ names @ (if names \<noteq> [] \<and> last s = CHR ''/'' then [[]] else []))"

fun join_slashes :: "string list \<Rightarrow> string" where
  "join_slashes [] = []"
| "join_slashes [p] = p"
| "join_slashes (p # ps) = p @ CHR ''/'' # join_slashes ps"

definition generic_string :: "path \<Rightarrow> string" where
  "generic_string p = (case p of [] \<Rightarrow> [] | x # xs \<Rightarrow>
     if x = root_dir then CHR ''/'' # join_slashes xs else join_slashes p)"

section \<open>Elements\<close>

definition is_absolute :: "path \<Rightarrow> bool" where
  "is_absolute p \<longleftrightarrow> p \<noteq> [] \<and> hd p = root_dir"

definition filename :: "path \<Rightarrow> string" where
  "filename p = (if p = [] \<or> last p = root_dir then [] else last p)"

definition parent_path :: "path \<Rightarrow> path" where
  "parent_path p = (if p = [root_dir] then p else butlast p)"

text \<open>The extension starts at the last dot, unless that is the first character.\<close>

definition extension :: "path \<Rightarrow> string" where
  "extension p = (let f = filename p in
     if f = dot \<or> f = dotdot \<or> CHR ''.'' \<notin> set f then []
     else let stem = rev (tl (dropWhile (\<lambda>c. c \<noteq> CHR ''.'') (rev f))) in
       if stem = [] then [] else drop (length stem) f)"

definition append_path :: "path \<Rightarrow> path \<Rightarrow> path" where
  "append_path p q = (if is_absolute q then q
     else if q = [] then (if p = [] \<or> last p \<in> {[], root_dir} then p else p @ [[]])
     else if p \<noteq> [] \<and> last p = [] then butlast p @ q else p @ q)"

section \<open>Normal forms\<close>

fun normal_step :: "string list \<Rightarrow> string \<Rightarrow> string list" where
  "normal_step st x = (if x = dot \<or> x = [] then st
     else if x = dotdot then
       (if st \<noteq> [] \<and> last st \<notin> {dotdot, root_dir} then butlast st
        else if st \<noteq> [] \<and> last st = root_dir then st else st @ [x])
     else st @ [x])"

definition lexically_normal :: "path \<Rightarrow> path" where
  "lexically_normal p = (if p = [] then [] else
     let st = foldl normal_step [] p in
     if st = [] then [dot]
     else if last p \<in> {[], dot, dotdot} \<and> last st \<notin> {dotdot, root_dir} then st @ [[]] else st)"

fun mismatch :: "'a list \<Rightarrow> 'a list \<Rightarrow> 'a list \<times> 'a list" where
  "mismatch (x # xs) (y # ys) = (if x = y then mismatch xs ys else (x # xs, y # ys))"
| "mismatch xs ys = (xs, ys)"

definition lexically_relative :: "path \<Rightarrow> path \<Rightarrow> path" where
  "lexically_relative p base = (if is_absolute p \<noteq> is_absolute base then [] else
     case mismatch p base of (a, b) \<Rightarrow>
       if a = [] \<and> b = [] then [dot] else
       let ups = length (filter (\<lambda>x. x \<noteq> [] \<and> x \<noteq> dot \<and> x \<noteq> dotdot) b);
           downs = length (filter (\<lambda>x. x = dotdot) b) in
       if ups < downs then []
       else if ups = downs \<and> (a = [] \<or> hd a = []) then [dot]
       else replicate (ups - downs) dotdot @ a)"

definition absolute_path :: "filesystem \<Rightarrow> path \<Rightarrow> path" where
  "absolute_path fs p = append_path (current_path fs) p"

text \<open>\<open>path / ""\<close> as a string: the directory with its trailing separator.\<close>

definition directory_string :: "path \<Rightarrow> string" where
  "directory_string p = generic_string (append_path p [])"

section \<open>Facts\<close>

lemma mismatch_same [simp]: "mismatch xs xs = ([], [])"
  by (induction xs) auto

lemma lexically_relative_same [simp]: "lexically_relative p p = [dot]"
  by (simp add: lexically_relative_def)

lemma mismatch_append: "mismatch (xs @ ys) xs = (ys, [])"
  by (induction xs) (cases ys, auto)

lemma lexically_relative_below:
  "ys \<noteq> [] \<Longrightarrow> hd ys \<noteq> [] \<Longrightarrow> is_absolute (xs @ ys) = is_absolute xs \<Longrightarrow> lexically_relative (xs @ ys) xs = ys"
  by (simp add: lexically_relative_def mismatch_append)

end
