(* ===== verification/Tables.thy ===== *)
theory Tables
  imports Main "HOL-Library.AList"
begin

text \<open>
  Maps from keys to lists of values, as the index and the diagnostics client keep them: an
  \<open>unordered_map\<close> is a list of distinct keys with their values, in some order.
\<close>

type_synonym ('k, 'v) table = "('k \<times> 'v list) list"

section \<open>Tables of lists\<close>

text \<open>\<open>table[k].push_back(v)\<close>, and the removal of the entries that satisfy a test, with the key
  when none is left.\<close>

definition tab_get :: "('k, 'v) table \<Rightarrow> 'k \<Rightarrow> 'v list" where
  "tab_get t k = (case map_of t k of None \<Rightarrow> [] | Some vs \<Rightarrow> vs)"

definition tab_push :: "'k \<Rightarrow> 'v \<Rightarrow> ('k, 'v) table \<Rightarrow> ('k, 'v) table" where
  "tab_push k v t = AList.update k (tab_get t k @ [v]) t"

definition tab_remove :: "('v \<Rightarrow> bool) \<Rightarrow> 'k \<Rightarrow> ('k, 'v) table \<Rightarrow> ('k, 'v) table" where
  "tab_remove P k t = (case map_of t k of
     None \<Rightarrow> t
   | Some vs \<Rightarrow> (let vs' = filter (\<lambda>v. \<not> P v) vs in
       if vs' = [] then AList.delete k t else AList.update k vs' t))"

section \<open>Facts about tables of lists\<close>

text \<open>No key twice and none without values.\<close>

definition neat :: "('k, 'v) table \<Rightarrow> bool" where
  "neat t \<longleftrightarrow> distinct (map fst t) \<and> (\<forall>kv \<in> set t. snd kv \<noteq> [])"

lemma tab_get_push: "tab_get (tab_push k v t) k' = tab_get t k' @ (if k' = k then [v] else [])"
  by (simp add: tab_get_def tab_push_def update_conv')

lemma tab_get_remove:
  "tab_get (tab_remove P k t) k' = (if k' = k then filter (\<lambda>v. \<not> P v) (tab_get t k) else tab_get t k')"
  by (auto simp: tab_get_def tab_remove_def update_conv' delete_conv' Let_def split: option.splits)

lemma neat_Nil [simp]: "neat []"
  by (simp add: neat_def)

lemma neat_update: "neat t \<Longrightarrow> vs \<noteq> [] \<Longrightarrow> neat (AList.update k vs t)"
proof -
  assume a: "neat t" "vs \<noteq> []"
  have "snd kv \<noteq> []" if "kv \<in> set (AList.update k vs t)" for kv
  proof -
    have "distinct (map fst (AList.update k vs t))" using a(1) by (simp add: neat_def distinct_update)
    then have "map_of (AList.update k vs t) (fst kv) = Some (snd kv)" using that by simp
    then have "kv = (k, vs) \<or> map_of t (fst kv) = Some (snd kv)"
      by (auto simp: update_conv' split: if_splits)
    then show ?thesis using a by (auto simp: neat_def dest: map_of_SomeD)
  qed
  then show ?thesis using a(1) by (auto simp: neat_def distinct_update)
qed

lemma neat_delete: "neat t \<Longrightarrow> neat (AList.delete k t)"
  by (auto simp: neat_def AList.delete_eq distinct_map_filter)

lemma neat_push: "neat t \<Longrightarrow> neat (tab_push k v t)"
  by (simp add: tab_push_def neat_update)

lemma neat_remove: "neat t \<Longrightarrow> neat (tab_remove P k t)"
  by (auto simp: tab_remove_def neat_update neat_delete Let_def split: option.splits)

lemma neat_key: "neat t \<Longrightarrow> map_of t k \<noteq> None \<longleftrightarrow> tab_get t k \<noteq> []"
  by (auto simp: neat_def tab_get_def dest: map_of_SomeD split: option.splits)

end
