(* ===== verification/Indexer.thy ===== *)
theory Indexer
  imports Paths Tables
begin

text \<open>
  The workspace index, from src/Indexer.cpp: the tables from names to files, the parsed include
  edges, and the updates \<open>indexPath\<close>, \<open>removePathFromIndex\<close>, \<open>replaceIncludes\<close>,
  \<open>updateIncludes\<close>, \<open>addDocuments\<close>, \<open>onWorkspaceDidChangeWatchedFiles\<close> and \<open>indexAndReport\<close>.

  A pointer to
  an interned path is the path: \<open>uniqueUris_\<close> makes the two the same. Parsing a file (slang) is
  the parameter that gives its \<open>indexed\<close> record. The lock that every operation takes makes each
  of them atomic.
\<close>

section \<open>State\<close>

text \<open>The number of the slang \<open>SyntaxKind\<close> is all the index keeps of a declaration's kind.\<close>

type_synonym kind_id = nat

record indexed =
  ix_symbols :: "(string \<times> kind_id) list"
  ix_macros :: "string list"
  ix_references :: "string list"
  ix_headers :: "string list"
  ix_includes :: "string list"

definition empty_indexed :: indexed where
  "empty_indexed = \<lparr>ix_symbols = [], ix_macros = [], ix_references = [], ix_headers = [], ix_includes = []\<rparr>"

record indexer =
  symbolToFiles :: "(string, path \<times> kind_id) table"
  macroToFiles :: "(string, path) table"
  symbolReferences :: "(string, path) table"
  headerSymbolToFiles :: "(string, path) table"
  includeReferences :: "(string, path) table"
  includeToFiles :: "(string, path) table"
  includers :: "(path, path) table"
  includedFiles :: "(path, path) table"
  resolvedIncluders :: "(path, path) table"
  includeDirectories :: "path list"
  directoryEntryCounts :: "(path \<times> nat) list"
  indexedFiles :: "(path \<times> indexed) list"

definition empty_indexer :: indexer where
  "empty_indexer = \<lparr>symbolToFiles = [], macroToFiles = [], symbolReferences = [],
     headerSymbolToFiles = [], includeReferences = [], includeToFiles = [], includers = [],
     includedFiles = [], resolvedIncluders = [], includeDirectories = [], directoryEntryCounts = [],
     indexedFiles = []\<rparr>"

definition include_name :: "string \<Rightarrow> string" where
  "include_name spelling = filename (path_of_string spelling)"

section \<open>Include edges\<close>

definition remove_edge :: "path \<Rightarrow> path \<Rightarrow> (path, path) table \<Rightarrow> (path, path) table" where
  "remove_edge parent target t = tab_remove (\<lambda>p. p = parent) target t"

text \<open>\<open>sort\<close> and \<open>unique\<close>.\<close>

definition sort_unique :: "path list \<Rightarrow> path list" where
  "sort_unique ps = remdups_adj (sort ps)"

definition replaceIncludes :: "path \<Rightarrow> path list \<Rightarrow> indexer \<Rightarrow> indexer" where
  "replaceIncludes parent targets ix =
    (let old = tab_get (includedFiles ix) parent;
         cleared = fold (remove_edge parent) old (includers ix);
         ts = sort_unique targets
     in ix\<lparr>resolvedIncluders := [],
           includers := fold (\<lambda>t. tab_push t parent) ts cleared,
           includedFiles := AList.update parent ts (AList.delete parent (includedFiles ix))\<rparr>)"

section \<open>Indexing one file\<close>

definition removePathFromIndex :: "filesystem \<Rightarrow> path \<Rightarrow> indexer \<Rightarrow> indexer" where
  "removePathFromIndex fs p ix0 =
    (let ix1 = ix0\<lparr>resolvedIncluders := []\<rparr>;
         ix2 = (if includedFiles ix1 = [] then ix1 else
                (case weakly_canonical fs p of
                   None \<Rightarrow> ix1
                 | Some c \<Rightarrow> (if map_of (includedFiles ix1) c = None then ix1
                     else let ix' = replaceIncludes c [] ix1
                          in ix'\<lparr>includedFiles := AList.delete c (includedFiles ix')\<rparr>)))
     in case map_of (indexedFiles ix2) p of
       None \<Rightarrow> ix2
     | Some entry \<Rightarrow> ix2\<lparr>
         includeReferences := fold (\<lambda>sp. tab_remove (\<lambda>q. q = p) (include_name sp))
           (ix_includes entry) (includeReferences ix2),
         headerSymbolToFiles := fold (tab_remove (\<lambda>q. q = p)) (ix_headers entry) (headerSymbolToFiles ix2),
         symbolToFiles := fold (\<lambda>(name, kind). tab_remove (\<lambda>v. v = (p, kind)) name)
           (ix_symbols entry) (symbolToFiles ix2),
         macroToFiles := fold (tab_remove (\<lambda>q. q = p)) (ix_macros entry) (macroToFiles ix2),
         symbolReferences := fold (tab_remove (\<lambda>q. q = p)) (ix_references entry) (symbolReferences ix2),
         indexedFiles := AList.delete p (indexedFiles ix2)\<rparr>)"

text \<open>A file is listed once under each include filename, however often it includes it.\<close>

definition include_names :: "indexed \<Rightarrow> string list" where
  "include_names e = rev (remdups (rev (map include_name (ix_includes e))))"

definition indexPath :: "filesystem \<Rightarrow> path \<Rightarrow> indexed \<Rightarrow> indexer \<Rightarrow> indexer" where
  "indexPath fs p e ix0 = (let ix = removePathFromIndex fs p ix0 in
     ix\<lparr>symbolToFiles := fold (\<lambda>(name, kind). tab_push name (p, kind)) (ix_symbols e) (symbolToFiles ix),
        macroToFiles := fold (\<lambda>name. tab_push name p) (ix_macros e) (macroToFiles ix),
        symbolReferences := fold (\<lambda>name. tab_push name p) (ix_references e) (symbolReferences ix),
        headerSymbolToFiles := fold (\<lambda>name. tab_push name p) (ix_headers e) (headerSymbolToFiles ix),
        includeReferences := fold (\<lambda>name. tab_push name p) (include_names e) (includeReferences ix),
        indexedFiles := AList.update p e (indexedFiles ix)\<rparr>)"

section \<open>Updates\<close>

definition addDocuments :: "filesystem \<Rightarrow> (path \<Rightarrow> indexed) \<Rightarrow> path list \<Rightarrow> indexer \<Rightarrow> indexer" where
  "addDocuments fs parse paths ix = fold (\<lambda>p. indexPath fs p (parse p)) paths ix"

text \<open>\<open>updateIncludes\<close>: every buffer of the tree gets an entry, and every include of a buffer
  that was read is an edge; the order of the entries is that of an unordered map.\<close>

definition include_edges :: "path list \<Rightarrow> (path \<times> path) list \<Rightarrow> (path, path) table" where
  "include_edges buffers directives =
     fold (\<lambda>(source, target). tab_push source target) directives
       (fold (\<lambda>b t. if b = [] \<or> map_of t b \<noteq> None then t else t @ [(b, [])]) buffers [])"

definition updateIncludes :: "path list \<Rightarrow> (path \<times> path) list \<Rightarrow> indexer \<Rightarrow> indexer" where
  "updateIncludes buffers directives ix =
     fold (\<lambda>(p, ts). replaceIncludes p ts) (include_edges buffers directives) ix"

datatype change_type = Created | Changed | Deleted

text \<open>The loop over the changes, with the paths to add.\<close>

fun watched_changes :: "filesystem \<Rightarrow> (path \<times> change_type) list \<Rightarrow> indexer \<Rightarrow> path list \<Rightarrow> indexer \<times> path list" where
  "watched_changes fs [] ix adds = (ix, adds)"
| "watched_changes fs ((p, Created) # cs) ix adds = watched_changes fs cs ix (adds @ [p])"
| "watched_changes fs ((p, Changed) # cs) ix adds =
     watched_changes fs cs (removePathFromIndex fs p ix) (if exists_path fs p then adds @ [p] else adds)"
| "watched_changes fs ((p, Deleted) # cs) ix adds = watched_changes fs cs (removePathFromIndex fs p ix) adds"

definition onWorkspaceDidChangeWatchedFiles ::
  "filesystem \<Rightarrow> (path \<Rightarrow> indexed) \<Rightarrow> (path \<times> change_type) list \<Rightarrow> indexer \<Rightarrow> indexer" where
  "onWorkspaceDidChangeWatchedFiles fs parse changes ix0 =
    (case watched_changes fs changes ix0 [] of (ix, adds) \<Rightarrow> addDocuments fs parse adds ix)"

section \<open>Queries of the tables\<close>

definition getFilesForSymbol :: "indexer \<Rightarrow> string \<Rightarrow> path list" where
  "getFilesForSymbol ix name = map fst (tab_get (symbolToFiles ix) name)"

definition getFilesForMacro :: "indexer \<Rightarrow> string \<Rightarrow> path list" where
  "getFilesForMacro ix name = tab_get (macroToFiles ix) name"

definition getFilesReferencingSymbol :: "indexer \<Rightarrow> string \<Rightarrow> path list" where
  "getFilesReferencingSymbol ix name = tab_get (symbolReferences ix) name"

definition getHeadersForSymbol :: "indexer \<Rightarrow> string \<Rightarrow> path list" where
  "getHeadersForSymbol ix name = sort (tab_get (headerSymbolToFiles ix) name)"

definition getAllMacroNames :: "indexer \<Rightarrow> string list" where
  "getAllMacroNames ix = map fst (macroToFiles ix)"

definition getSymbolCount :: "indexer \<Rightarrow> nat" where
  "getSymbolCount ix = length (symbolToFiles ix)"

definition hasPotentialIncluders :: "indexer \<Rightarrow> path \<Rightarrow> bool" where
  "hasPotentialIncluders ix p \<longleftrightarrow>
     map_of (includeReferences ix) (filename p) \<noteq> None \<or> map_of (includers ix) p \<noteq> None"

definition getIncludeDirectories :: "indexer \<Rightarrow> path list" where
  "getIncludeDirectories ix = includeDirectories ix"

definition forEachSymbol :: "(string \<Rightarrow> path \<times> kind_id \<Rightarrow> 's \<Rightarrow> 's) \<Rightarrow> indexer \<Rightarrow> 's \<Rightarrow> 's" where
  "forEachSymbol callback ix =
     fold (\<lambda>(name, vs). fold (callback name) vs) (symbolToFiles ix)"

end
