(* ===== verification/IndexTables.thy ===== *)
theory IndexTables
  imports Indexer
begin

text \<open>
  The tables of the index agree with the entries stored for the files. The locale
  \<open>file_table\<close> states what the index asks of a table; it is interpreted for the four tables of
  declared names, for the include names and for the parsed include edges, and every update of
  theory Indexer keeps the invariants \<open>names_inv\<close> and \<open>edges_inv\<close> built from it.
\<close>

definition push_all :: "('k \<times> 'v) list \<Rightarrow> ('k, 'v) table \<Rightarrow> ('k, 'v) table" where
  "push_all items = fold (\<lambda>(k, v). tab_push k v) items"

definition remove_all :: "('k \<times> 'v) list \<Rightarrow> ('k, 'v) table \<Rightarrow> ('k, 'v) table" where
  "remove_all items = fold (\<lambda>(k, v). tab_remove (\<lambda>x. x = v) k) items"

abbreviation values_of :: "'k \<Rightarrow> ('k \<times> 'v) list \<Rightarrow> 'v list" where
  "values_of k items \<equiv> map snd (filter (\<lambda>kv. fst kv = k) items)"

lemma push_all_get: "tab_get (push_all items t) k = tab_get t k @ values_of k items"
  by (induction items arbitrary: t) (auto simp: push_all_def tab_get_push)

lemma remove_all_get: "tab_get (remove_all items t) k = filter (\<lambda>v. (k, v) \<notin> set items) (tab_get t k)"
  by (induction items arbitrary: t) (auto simp: remove_all_def tab_get_remove intro: filter_cong)

lemma push_all_neat: "neat t \<Longrightarrow> neat (push_all items t)"
  by (induction items arbitrary: t) (auto simp: push_all_def neat_push)

lemma remove_all_neat: "neat t \<Longrightarrow> neat (remove_all items t)"
  by (induction items arbitrary: t) (auto simp: remove_all_def neat_remove)

section \<open>The contract of a table of the index\<close>

text \<open>
  Every table of the index lists, under a key, what the files of an index say of it. The client
  (the index) adds the items of a file's entry and deletes them again; a table keeps the
  contract when it then tracks the entries: of the values that belong to a file it holds those
  of the file's current entry, in order, and no others.
\<close>

locale file_table =
  fixes items :: "path \<Rightarrow> 'e \<Rightarrow> ('k \<times> 'v) list"
    and owner :: "'v \<Rightarrow> path"
    and add :: "path \<Rightarrow> 'e \<Rightarrow> ('k, 'v) table \<Rightarrow> ('k, 'v) table"
    and del :: "path \<Rightarrow> 'e \<Rightarrow> ('k, 'v) table \<Rightarrow> ('k, 'v) table"
  assumes owner_items: "(k, v) \<in> set (items p e) \<Longrightarrow> owner v = p"
    and add_get: "tab_get (add p e t) k = tab_get t k @ values_of k (items p e)"
    and del_get: "tab_get (del p e t) k = filter (\<lambda>v. (k, v) \<notin> set (items p e)) (tab_get t k)"
    and add_neat: "neat t \<Longrightarrow> neat (add p e t)"
    and del_neat: "neat t \<Longrightarrow> neat (del p e t)"
begin

definition tracks :: "('k, 'v) table \<Rightarrow> (path \<rightharpoonup> 'e) \<Rightarrow> bool" where
  "tracks t idx \<longleftrightarrow> neat t \<and> (\<forall>k p. filter (\<lambda>v. owner v = p) (tab_get t k)
     = (case idx p of None \<Rightarrow> [] | Some e \<Rightarrow> values_of k (items p e)))"

lemma tracks_empty: "tracks [] Map.empty"
  by (simp add: tracks_def tab_get_def)

lemma owner_values: "v \<in> set (values_of k (items p e)) \<Longrightarrow> owner v = p"
  using owner_items by fastforce

lemma tracks_add:
  assumes "tracks t idx" and "idx p = None"
  shows "tracks (add p e t) (idx(p \<mapsto> e))"
proof -
  have own: "filter (\<lambda>v. owner v = q) (values_of k (items p e)) = (if q = p then values_of k (items p e) else [])" for q k
  proof (cases "q = p")
    case True
    then show ?thesis using owner_values by (simp add: filter_id_conv del: set_map)
  next
    case False
    then show ?thesis using owner_values [of _ k p e] by (auto simp: filter_empty_conv simp del: set_map)
  qed
  show ?thesis
    using assms by (auto simp: tracks_def add_get add_neat own simp del: filter_map)
qed

lemma tracks_del:
  assumes "tracks t idx" and "idx p = Some e \<or> idx p = None"
  shows "tracks (del p e t) (idx(p := None))"
proof -
  have "filter (\<lambda>v. owner v = q) (filter (\<lambda>v. (k, v) \<notin> set (items p e)) (tab_get t k))
      = (case (idx(p := None)) q of None \<Rightarrow> [] | Some e \<Rightarrow> values_of k (items q e))" for k q
  proof (cases "q = p")
    case True
    have "filter (\<lambda>v. owner v = p) (tab_get t k) = values_of k (items p e) \<or>
        filter (\<lambda>v. owner v = p) (tab_get t k) = []"
      using assms by (auto simp: tracks_def)
    then have "set (filter (\<lambda>v. owner v = p) (tab_get t k)) \<subseteq> set (values_of k (items p e))"
      by (metis empty_set empty_subsetI order_refl)
    then show ?thesis using True by (auto simp: filter_empty_conv)
  next
    case False
    have "filter (\<lambda>v. owner v = q) (filter (\<lambda>v. (k, v) \<notin> set (items p e)) (tab_get t k))
        = filter (\<lambda>v. owner v = q) (tab_get t k)"
      unfolding filter_filter using False owner_items by (intro filter_cong) auto
    then show ?thesis using False assms(1) by (simp add: tracks_def)
  qed
  then show ?thesis using assms(1) by (simp add: tracks_def del_get del_neat)
qed

lemma tracks_member:
  assumes "tracks t idx"
  shows "v \<in> set (tab_get t k) \<longleftrightarrow> (\<exists>e. idx (owner v) = Some e \<and> (k, v) \<in> set (items (owner v) e))"
proof -
  have "v \<in> set (tab_get t k) \<longleftrightarrow> v \<in> set (filter (\<lambda>w. owner w = owner v) (tab_get t k))" by simp
  also have "\<dots> \<longleftrightarrow> v \<in> set (case idx (owner v) of None \<Rightarrow> [] | Some e \<Rightarrow> values_of k (items (owner v) e))"
    using assms unfolding tracks_def by metis
  also have "\<dots> \<longleftrightarrow> (\<exists>e. idx (owner v) = Some e \<and> (k, v) \<in> set (items (owner v) e))"
    by (cases "idx (owner v)") force+
  finally show ?thesis .
qed

end

section \<open>The six tables\<close>

definition symbol_items :: "path \<Rightarrow> indexed \<Rightarrow> (string \<times> path \<times> kind_id) list" where
  "symbol_items p e = map (\<lambda>(name, kind). (name, p, kind)) (ix_symbols e)"

definition name_items :: "(indexed \<Rightarrow> string list) \<Rightarrow> path \<Rightarrow> indexed \<Rightarrow> (string \<times> path) list" where
  "name_items names p e = map (\<lambda>name. (name, p)) (names e)"

definition edge_items :: "path \<Rightarrow> path list \<Rightarrow> (path \<times> path) list" where
  "edge_items p targets = map (\<lambda>t. (t, p)) targets"

definition add_symbols :: "path \<Rightarrow> indexed \<Rightarrow> (string, path \<times> kind_id) table \<Rightarrow> (string, path \<times> kind_id) table" where
  "add_symbols p e t = fold (\<lambda>(name, kind). tab_push name (p, kind)) (ix_symbols e) t"

definition del_symbols :: "path \<Rightarrow> indexed \<Rightarrow> (string, path \<times> kind_id) table \<Rightarrow> (string, path \<times> kind_id) table" where
  "del_symbols p e t = fold (\<lambda>(name, kind). tab_remove (\<lambda>v. v = (p, kind)) name) (ix_symbols e) t"

definition add_names :: "(indexed \<Rightarrow> string list) \<Rightarrow> path \<Rightarrow> indexed \<Rightarrow> (string, path) table \<Rightarrow> (string, path) table" where
  "add_names names p e t = fold (\<lambda>name. tab_push name p) (names e) t"

definition del_names :: "(indexed \<Rightarrow> string list) \<Rightarrow> path \<Rightarrow> indexed \<Rightarrow> (string, path) table \<Rightarrow> (string, path) table" where
  "del_names names p e t = fold (tab_remove (\<lambda>q. q = p)) (names e) t"

definition del_includes :: "path \<Rightarrow> indexed \<Rightarrow> (string, path) table \<Rightarrow> (string, path) table" where
  "del_includes p e t = fold (\<lambda>sp. tab_remove (\<lambda>q. q = p) (include_name sp)) (ix_includes e) t"

definition add_edges :: "path \<Rightarrow> path list \<Rightarrow> (path, path) table \<Rightarrow> (path, path) table" where
  "add_edges p targets t = fold (\<lambda>k. tab_push k p) targets t"

definition del_edges :: "path \<Rightarrow> path list \<Rightarrow> (path, path) table \<Rightarrow> (path, path) table" where
  "del_edges p targets t = fold (remove_edge p) targets t"

lemma add_symbols_all: "add_symbols p e = push_all (symbol_items p e)"
  by (simp add: add_symbols_def push_all_def symbol_items_def fold_map fun_eq_iff comp_def split_def)

lemma del_symbols_all: "del_symbols p e = remove_all (symbol_items p e)"
  by (simp add: del_symbols_def remove_all_def symbol_items_def fold_map fun_eq_iff comp_def split_def)

lemma add_names_all: "add_names names p e = push_all (name_items names p e)"
  by (simp add: add_names_def push_all_def name_items_def fold_map fun_eq_iff comp_def)

lemma del_names_all: "del_names names p e = remove_all (name_items names p e)"
  by (simp add: del_names_def remove_all_def name_items_def fold_map fun_eq_iff comp_def)

lemma del_includes_all: "del_includes p e = remove_all (name_items (\<lambda>e. map include_name (ix_includes e)) p e)"
  by (simp add: del_includes_def remove_all_def name_items_def fold_map fun_eq_iff comp_def)

lemma add_edges_all: "add_edges p ts = push_all (edge_items p ts)"
  by (simp add: add_edges_def push_all_def edge_items_def fold_map fun_eq_iff comp_def)

lemma remove_edge_eq: "remove_edge p = tab_remove (\<lambda>x. x = p)"
  by (simp add: remove_edge_def fun_eq_iff)

lemma del_edges_all: "del_edges p ts = remove_all (edge_items p ts)"
  by (simp add: del_edges_def remove_all_def edge_items_def remove_edge_eq fold_map fun_eq_iff comp_def)

interpretation symbols: file_table symbol_items fst add_symbols del_symbols
  by unfold_locales
    (auto simp: symbol_items_def add_symbols_all del_symbols_all push_all_get remove_all_get
      push_all_neat remove_all_neat)

interpretation names: file_table "name_items f" "\<lambda>p. p" "add_names f" "del_names f"
  for f :: "indexed \<Rightarrow> string list"
  by unfold_locales
    (auto simp: name_items_def add_names_all del_names_all push_all_get remove_all_get
      push_all_neat remove_all_neat)

lemma set_include_names: "set (include_names e) = include_name ` set (ix_includes e)"
  by (simp add: include_names_def)

interpretation include_refs: file_table "name_items include_names" "\<lambda>p. p" "add_names include_names" del_includes
  by unfold_locales
    (auto simp: name_items_def add_names_all del_includes_all push_all_get remove_all_get
      push_all_neat remove_all_neat set_include_names image_image)

interpretation edges: file_table edge_items "\<lambda>p. p" add_edges del_edges
  by unfold_locales
    (auto simp: edge_items_def add_edges_all del_edges_all push_all_get remove_all_get
      push_all_neat remove_all_neat)

section \<open>The invariant of the index\<close>

text \<open>The tables of names agree with the stored entries. A full indexing run forgets the include
  names but not the entries of files it did not see again, so that table tracks a part of them.\<close>

definition names_inv :: "indexer \<Rightarrow> bool" where
  "names_inv ix \<longleftrightarrow> (let idx = map_of (indexedFiles ix) in
     symbols.tracks (symbolToFiles ix) idx \<and> names.tracks ix_macros (macroToFiles ix) idx \<and>
     names.tracks ix_references (symbolReferences ix) idx \<and>
     names.tracks ix_headers (headerSymbolToFiles ix) idx \<and>
     (\<exists>part. part \<subseteq>\<^sub>m idx \<and> include_refs.tracks (includeReferences ix) part))"

definition tidy :: "path list \<Rightarrow> bool" where
  "tidy ts \<longleftrightarrow> sorted ts \<and> distinct ts"

definition edges_inv :: "indexer \<Rightarrow> bool" where
  "edges_inv ix \<longleftrightarrow> edges.tracks (includers ix) (map_of (includedFiles ix)) \<and>
     (\<forall>p ts. map_of (includedFiles ix) p = Some ts \<longrightarrow> tidy ts)"

lemma distinct_remdups_adj_sorted: "sorted xs \<Longrightarrow> distinct (remdups_adj xs)"
  by (induction xs rule: remdups_adj.induct) (auto simp: order.order_iff_strict)

lemma sort_unique_tidy: "tidy (sort_unique ps)"
  by (simp add: tidy_def sort_unique_def distinct_remdups_adj_sorted)

lemma sort_unique_set: "set (sort_unique ps) = set ps"
  by (simp add: sort_unique_def)

lemma tidy_Nil [simp]: "tidy []"
  by (simp add: tidy_def)

lemma replaceIncludes_edges:
  assumes "edges_inv ix"
  shows "edges_inv (replaceIncludes p ts ix)"
    and "map_of (includedFiles (replaceIncludes p ts ix)) = (map_of (includedFiles ix))(p \<mapsto> sort_unique ts)"
proof -
  let ?idx = "map_of (includedFiles ix)"
  have "edges.tracks (del_edges p (tab_get (includedFiles ix) p) (includers ix)) (?idx(p := None))"
    using assms by (intro edges.tracks_del) (auto simp: edges_inv_def tab_get_def split: option.splits)
  then have "edges.tracks (add_edges p (sort_unique ts) (del_edges p (tab_get (includedFiles ix) p) (includers ix)))
      (?idx(p := None, p \<mapsto> sort_unique ts))"
    by (rule edges.tracks_add) simp
  then have t: "edges.tracks (includers (replaceIncludes p ts ix)) (?idx(p \<mapsto> sort_unique ts))"
    by (simp add: replaceIncludes_def Let_def add_edges_def del_edges_def)
  show m: "map_of (includedFiles (replaceIncludes p ts ix)) = ?idx(p \<mapsto> sort_unique ts)"
    by (simp add: replaceIncludes_def Let_def update_conv' delete_conv' fun_eq_iff)
  show "edges_inv (replaceIncludes p ts ix)"
    using t m assms sort_unique_tidy by (auto simp: edges_inv_def)
qed

lemma replaceIncludes_fields [simp]:
  "indexedFiles (replaceIncludes p ts ix) = indexedFiles ix"
  "symbolToFiles (replaceIncludes p ts ix) = symbolToFiles ix"
  "macroToFiles (replaceIncludes p ts ix) = macroToFiles ix"
  "symbolReferences (replaceIncludes p ts ix) = symbolReferences ix"
  "headerSymbolToFiles (replaceIncludes p ts ix) = headerSymbolToFiles ix"
  "includeReferences (replaceIncludes p ts ix) = includeReferences ix"
  "resolvedIncluders (replaceIncludes p ts ix) = []"
  by (simp_all add: replaceIncludes_def Let_def)

text \<open>The part of \<open>removePathFromIndex\<close> that forgets the parsed edges of a file.\<close>

definition drop_edges :: "filesystem \<Rightarrow> path \<Rightarrow> indexer \<Rightarrow> indexer" where
  "drop_edges fs p ix0 = (let ix1 = ix0\<lparr>resolvedIncluders := []\<rparr> in
     if includedFiles ix1 = [] then ix1 else
     (case weakly_canonical fs p of
        None \<Rightarrow> ix1
      | Some c \<Rightarrow> (if map_of (includedFiles ix1) c = None then ix1
          else let ix' = replaceIncludes c [] ix1
               in ix'\<lparr>includedFiles := AList.delete c (includedFiles ix')\<rparr>)))"

lemma drop_edges_edges: "edges_inv ix \<Longrightarrow> edges_inv (drop_edges fs p ix)"
proof -
  assume "edges_inv ix"
  then have i: "edges_inv (ix\<lparr>resolvedIncluders := []\<rparr>)" by (simp add: edges_inv_def)
  have "edges_inv (ix'\<lparr>includedFiles := AList.delete c (includedFiles ix')\<rparr>)"
    if "ix' = replaceIncludes c [] (ix\<lparr>resolvedIncluders := []\<rparr>)" for ix' c
  proof -
    have e: "edges_inv ix'" "map_of (includedFiles ix') c = Some []"
      using replaceIncludes_edges [OF i, of c "[]"] that by (auto simp: sort_unique_def)
    then have "edges.tracks (del_edges c [] (includers ix')) ((map_of (includedFiles ix'))(c := None))"
      by (intro edges.tracks_del) (auto simp: edges_inv_def)
    moreover have "map_of (AList.delete c (includedFiles ix')) = (map_of (includedFiles ix'))(c := None)"
      by (simp add: delete_conv' fun_eq_iff)
    ultimately show ?thesis using e by (auto simp: edges_inv_def del_edges_def)
  qed
  then show ?thesis using i by (simp add: drop_edges_def Let_def split: option.split)
qed

lemma drop_edges_fields [simp]:
  "indexedFiles (drop_edges fs p ix) = indexedFiles ix"
  "symbolToFiles (drop_edges fs p ix) = symbolToFiles ix"
  "macroToFiles (drop_edges fs p ix) = macroToFiles ix"
  "symbolReferences (drop_edges fs p ix) = symbolReferences ix"
  "headerSymbolToFiles (drop_edges fs p ix) = headerSymbolToFiles ix"
  "includeReferences (drop_edges fs p ix) = includeReferences ix"
  by (simp_all add: drop_edges_def Let_def split: option.split)

lemma removePathFromIndex_alt:
  "removePathFromIndex fs p ix = (let ix2 = drop_edges fs p ix in case map_of (indexedFiles ix) p of
     None \<Rightarrow> ix2
   | Some e \<Rightarrow> ix2\<lparr>
       includeReferences := del_includes p e (includeReferences ix),
       headerSymbolToFiles := del_names ix_headers p e (headerSymbolToFiles ix),
       symbolToFiles := del_symbols p e (symbolToFiles ix),
       macroToFiles := del_names ix_macros p e (macroToFiles ix),
       symbolReferences := del_names ix_references p e (symbolReferences ix),
       indexedFiles := AList.delete p (indexedFiles ix)\<rparr>)"
proof -
  define ix2 where "ix2 = drop_edges fs p ix"
  have "removePathFromIndex fs p ix = (case map_of (indexedFiles ix2) p of
       None \<Rightarrow> ix2
     | Some e \<Rightarrow> ix2\<lparr>
         includeReferences := del_includes p e (includeReferences ix2),
         headerSymbolToFiles := del_names ix_headers p e (headerSymbolToFiles ix2),
         symbolToFiles := del_symbols p e (symbolToFiles ix2),
         macroToFiles := del_names ix_macros p e (macroToFiles ix2),
         symbolReferences := del_names ix_references p e (symbolReferences ix2),
         indexedFiles := AList.delete p (indexedFiles ix2)\<rparr>)"
    by (simp only: removePathFromIndex_def Let_def ix2_def drop_edges_def del_includes_def del_names_def del_symbols_def)
  then show ?thesis by (simp add: ix2_def Let_def split: option.split)
qed

lemma remove_inv:
  assumes "names_inv ix" and "edges_inv ix"
  shows "names_inv (removePathFromIndex fs p ix)" and "edges_inv (removePathFromIndex fs p ix)"
    and "map_of (indexedFiles (removePathFromIndex fs p ix)) = (map_of (indexedFiles ix))(p := None)"
proof -
  let ?r = "removePathFromIndex fs p ix" and ?idx = "map_of (indexedFiles ix)"
  show m: "map_of (indexedFiles ?r) = ?idx(p := None)"
    by (auto simp: removePathFromIndex_alt Let_def delete_conv' fun_eq_iff split: option.split)
  show "edges_inv ?r"
    using drop_edges_edges [OF assms(2), of fs p]
    by (simp add: removePathFromIndex_alt edges_inv_def Let_def split: option.split)
  show "names_inv ?r"
  proof (cases "?idx p")
    case None
    then have "?idx(p := None) = ?idx" by auto
    then show ?thesis using assms(1) None by (simp add: names_inv_def removePathFromIndex_alt Let_def)
  next
    case (Some e)
    obtain part where part: "part \<subseteq>\<^sub>m ?idx" "include_refs.tracks (includeReferences ix) part"
      using assms(1) by (auto simp: names_inv_def Let_def)
    have pp: "part p = Some e \<or> part p = None"
      using part(1) Some by (metis domIff map_le_def)
    have "part(p := None) \<subseteq>\<^sub>m ?idx(p := None)" using part(1) by (auto simp: map_le_def)
    moreover have "include_refs.tracks (del_includes p e (includeReferences ix)) (part(p := None))"
      using include_refs.tracks_del [OF part(2) pp] .
    ultimately show ?thesis
      using assms(1) Some m unfolding names_inv_def Let_def m
      by (auto simp: removePathFromIndex_alt Let_def intro: symbols.tracks_del names.tracks_del)
  qed
qed

lemma indexPath_alt:
  "indexPath fs p e ix0 = (let ix = removePathFromIndex fs p ix0 in
     ix\<lparr>symbolToFiles := add_symbols p e (symbolToFiles ix),
        macroToFiles := add_names ix_macros p e (macroToFiles ix),
        symbolReferences := add_names ix_references p e (symbolReferences ix),
        headerSymbolToFiles := add_names ix_headers p e (headerSymbolToFiles ix),
        includeReferences := add_names include_names p e (includeReferences ix),
        indexedFiles := AList.update p e (indexedFiles ix)\<rparr>)"
  by (simp only: indexPath_def add_symbols_def add_names_def)

lemma index_inv:
  assumes "names_inv ix" and "edges_inv ix"
  shows "names_inv (indexPath fs p e ix)" and "edges_inv (indexPath fs p e ix)"
    and "map_of (indexedFiles (indexPath fs p e ix)) = (map_of (indexedFiles ix))(p \<mapsto> e)"
proof -
  let ?r = "removePathFromIndex fs p ix"
  have r: "names_inv ?r" "edges_inv ?r" "map_of (indexedFiles ?r) = (map_of (indexedFiles ix))(p := None)"
    using remove_inv [OF assms] by auto
  show m: "map_of (indexedFiles (indexPath fs p e ix)) = (map_of (indexedFiles ix))(p \<mapsto> e)"
    by (simp add: indexPath_alt Let_def update_conv' r(3))
  show "edges_inv (indexPath fs p e ix)"
    using r(2) by (simp add: indexPath_alt Let_def edges_inv_def)
  let ?idx = "(map_of (indexedFiles ix))(p := None)"
  obtain part where part: "part \<subseteq>\<^sub>m ?idx" "include_refs.tracks (includeReferences ?r) part"
    using r(1) by (auto simp: names_inv_def Let_def r(3))
  have "part p = None" using part(1) by (metis domIff fun_upd_same map_le_def)
  then have i: "include_refs.tracks (add_names include_names p e (includeReferences ?r)) (part(p \<mapsto> e))"
    by (rule include_refs.tracks_add [OF part(2)])
  define old where "old = ?idx"
  have le: "part(p \<mapsto> e) \<subseteq>\<^sub>m old(p \<mapsto> e)" using part(1) by (auto simp: map_le_def old_def)
  have idx: "(map_of (indexedFiles ix))(p \<mapsto> e) = old(p \<mapsto> e)" and n: "old p = None" by (simp_all add: old_def)
  have tr: "symbols.tracks (symbolToFiles ?r) old" "names.tracks ix_macros (macroToFiles ?r) old"
      "names.tracks ix_references (symbolReferences ?r) old" "names.tracks ix_headers (headerSymbolToFiles ?r) old"
    using r(1) by (simp_all add: names_inv_def Let_def r(3) old_def)
  show "names_inv (indexPath fs p e ix)"
    unfolding names_inv_def Let_def m idx
    using i le symbols.tracks_add [OF tr(1) n, of e] names.tracks_add [OF tr(2) n, of e]
      names.tracks_add [OF tr(3) n, of e] names.tracks_add [OF tr(4) n, of e]
    by (auto simp: indexPath_alt Let_def)
qed

lemma addDocuments_inv:
  assumes "names_inv ix" and "edges_inv ix"
  shows "names_inv (addDocuments fs parse paths ix)" and "edges_inv (addDocuments fs parse paths ix)"
  using assms by (induction paths arbitrary: ix) (simp_all add: addDocuments_def index_inv)

lemma watched_changes_inv:
  assumes "names_inv ix" and "edges_inv ix"
  shows "names_inv (fst (watched_changes fs changes ix adds)) \<and> edges_inv (fst (watched_changes fs changes ix adds))"
  using assms by (induction fs changes ix adds rule: watched_changes.induct) (simp_all add: remove_inv)

lemma watched_inv:
  assumes "names_inv ix" and "edges_inv ix"
  shows "names_inv (onWorkspaceDidChangeWatchedFiles fs parse changes ix)"
    and "edges_inv (onWorkspaceDidChangeWatchedFiles fs parse changes ix)"
  using watched_changes_inv [OF assms, of fs changes "[]"]
  by (simp_all add: onWorkspaceDidChangeWatchedFiles_def split_beta addDocuments_inv)

lemma replaceIncludes_names: "names_inv ix \<Longrightarrow> names_inv (replaceIncludes p ts ix)"
  by (simp add: names_inv_def)

lemma updateIncludes_inv:
  assumes "names_inv ix" and "edges_inv ix"
  shows "names_inv (updateIncludes buffers directives ix)" and "edges_inv (updateIncludes buffers directives ix)"
proof -
  have "names_inv (fold (\<lambda>(p, ts). replaceIncludes p ts) es ix) \<and> edges_inv (fold (\<lambda>(p, ts). replaceIncludes p ts) es ix)" for es
    using assms
    by (induction es arbitrary: ix) (auto simp: replaceIncludes_names replaceIncludes_edges(1))
  then show "names_inv (updateIncludes buffers directives ix)" "edges_inv (updateIncludes buffers directives ix)"
    by (simp_all add: updateIncludes_def)
qed

lemma empty_inv: "names_inv empty_indexer" "edges_inv empty_indexer"
  using symbols.tracks_empty names.tracks_empty include_refs.tracks_empty edges.tracks_empty
  by (auto simp: names_inv_def edges_inv_def empty_indexer_def Let_def intro!: exI [of _ Map.empty])

end
