(* ===== verification/IncludeSearch.thy ===== *)
theory IncludeSearch
  imports IndexTables
begin

text \<open>
  Searching the index, from src/Indexer.cpp: exclusion sets, the nearest files of a source, include
  spellings resolved against the crawled files, the includers of a header with their cache, the
  inferred include directories, full indexing and the exclusion of directories.
\<close>

section \<open>Exclusion sets\<close>

definition exclusion_contains :: "string list \<Rightarrow> string \<Rightarrow> bool" where
  "exclusion_contains vals v \<longleftrightarrow> v \<in> set vals"

text \<open>The walk over the ancestors of a path: drop the separator at the end, and go back to the
  one before it.\<close>

definition up_to_separator :: "string \<Rightarrow> string option" where
  "up_to_separator s = (let r = dropWhile (\<lambda>c. c \<noteq> CHR ''/'') (rev s) in
     if r = [] then None else Some (rev r))"

lemma up_to_separator_shorter: "up_to_separator (butlast p) = Some q \<Longrightarrow> p \<noteq> [] \<Longrightarrow> length q < length p"
  using length_dropWhile_le [of "\<lambda>c. c \<noteq> CHR ''/''" "rev (butlast p)"]
  by (cases p) (auto simp: up_to_separator_def Let_def split: if_splits)

function ancestor_walk :: "string set \<Rightarrow> string \<Rightarrow> bool" where
  "ancestor_walk hashed p = (if p = [] then False else if p \<in> hashed then True
     else (case up_to_separator (butlast p) of None \<Rightarrow> False | Some q \<Rightarrow> ancestor_walk hashed q))"
  by pat_completeness auto
termination by (relation "measure (\<lambda>(_, p). length p)") (auto dest: up_to_separator_shorter)

declare ancestor_walk.simps [simp del]

definition containsDirectoryOrAncestor :: "string list \<Rightarrow> string \<Rightarrow> bool" where
  "containsDirectoryOrAncestor vals p =
     (if length vals \<le> 16 then list_ex (\<lambda>v. starts_with p v) vals else ancestor_walk (set vals) p)"

section \<open>The nearest files\<close>

definition path_distance :: "path \<Rightarrow> path \<Rightarrow> nat option" where
  "path_distance source p = (let relative = lexically_relative (parent_path p) (parent_path source) in
     if relative = [] then None else Some (length (filter (\<lambda>x. x \<noteq> dot) relative)))"

fun nearest_loop ::
  "filesystem \<Rightarrow> path \<Rightarrow> ('c \<Rightarrow> path option) \<Rightarrow> 'c list \<Rightarrow> (path \<times> 'c) list \<Rightarrow> nat option \<Rightarrow> (path \<times> 'c) list" where
  "nearest_loop fs source getPath [] nearest best = nearest"
| "nearest_loop fs source getPath (c # cs) nearest best =
    (case Option.bind (getPath c) (weakly_canonical fs) of
       None \<Rightarrow> nearest_loop fs source getPath cs nearest best
     | Some p \<Rightarrow> (case path_distance source p of
         None \<Rightarrow> nearest_loop fs source getPath cs nearest best
       | Some d \<Rightarrow>
          (if best = None \<or> (\<exists>b \<in> set_option best. d < b)
           then nearest_loop fs source getPath cs [(p, c)] (Some d)
           else if best = Some d then nearest_loop fs source getPath cs (nearest @ [(p, c)]) best
           else nearest_loop fs source getPath cs nearest best)))"

text \<open>After sorting by path, one candidate of each path.\<close>

fun first_of_each :: "(path \<times> 'c) list \<Rightarrow> 'c list" where
  "first_of_each [] = []"
| "first_of_each [(p, c)] = [c]"
| "first_of_each ((p, c) # (q, d) # rest) =
     (if p = q then first_of_each ((p, c) # rest) else c # first_of_each ((q, d) # rest))"

definition nearestFiles :: "filesystem \<Rightarrow> path \<Rightarrow> 'c list \<Rightarrow> ('c \<Rightarrow> path option) \<Rightarrow> 'c list" where
  "nearestFiles fs source candidates getPath = (case weakly_canonical fs source of
     None \<Rightarrow> []
   | Some src \<Rightarrow> first_of_each (sort_key fst (nearest_loop fs src getPath candidates [] None)))"

section \<open>Include spellings\<close>

text \<open>What is left of a relative path after its elements that also end the other path.\<close>

function strip_suffix :: "path \<Rightarrow> path \<Rightarrow> path" where
  "strip_suffix s r = (if s \<noteq> [] \<and> s \<noteq> [root_dir] \<and> filename s = filename r
     then strip_suffix (parent_path s) (parent_path r) else s)"
  by pat_completeness auto
termination by (relation "measure (\<lambda>(s, _). length s)") (auto simp: parent_path_def)

declare strip_suffix.simps [simp del]

definition searchable_include :: "path \<Rightarrow> bool" where
  "searchable_include p \<longleftrightarrow> p \<noteq> [] \<and> \<not> is_absolute p \<and> dotdot \<notin> set p"

definition nearestInclude :: "filesystem \<Rightarrow> string \<Rightarrow> path \<Rightarrow> path list \<Rightarrow> path option" where
  "nearestInclude fs spelling source candidates =
    (let includePath = lexically_normal (path_of_string spelling) in
     if \<not> searchable_include includePath then None else
     (case nearestFiles fs source candidates
         (\<lambda>c. if strip_suffix includePath (lexically_normal c) = [] \<and> is_regular_file fs c then Some c else None) of
        [] \<Rightarrow> None | c # _ \<Rightarrow> Some c))"

definition getNearestFileForInclude :: "filesystem \<Rightarrow> indexer \<Rightarrow> string \<Rightarrow> path \<Rightarrow> path option" where
  "getNearestFileForInclude fs ix spelling source =
    (case map_of (includeToFiles ix) (include_name spelling) of
       None \<Rightarrow> None | Some cs \<Rightarrow> nearestInclude fs spelling source cs)"

definition getFilesForInclude :: "indexer \<Rightarrow> string \<Rightarrow> path list" where
  "getFilesForInclude ix spelling = (let includePath = lexically_normal (path_of_string spelling) in
     if \<not> searchable_include includePath then [] else
     sort (filter (\<lambda>c. strip_suffix includePath (lexically_normal c) = [])
       (tab_get (includeToFiles ix) (filename includePath))))"

definition getNearestSymbolLocs :: "filesystem \<Rightarrow> indexer \<Rightarrow> string \<Rightarrow> path \<Rightarrow> (path \<times> kind_id) list" where
  "getNearestSymbolLocs fs ix name source = (case tab_get (symbolToFiles ix) name of
     [] \<Rightarrow> [] | [loc] \<Rightarrow> [loc]
   | locs \<Rightarrow> nearestFiles fs source locs (\<lambda>loc. Some (fst loc)))"

definition getNearestSymbolLoc :: "filesystem \<Rightarrow> indexer \<Rightarrow> string \<Rightarrow> path \<Rightarrow> (path \<times> kind_id) option" where
  "getNearestSymbolLoc fs ix name source = (case getNearestSymbolLocs fs ix name source of
     [] \<Rightarrow> None | l # _ \<Rightarrow> Some l)"

section \<open>The includers of a header\<close>

definition spelling_target :: "filesystem \<Rightarrow> indexer \<Rightarrow> path \<Rightarrow> string \<Rightarrow> string \<Rightarrow> path option" where
  "spelling_target fs ix parent name spelling =
    (let target = append_path (parent_path parent) (path_of_string spelling) in
     if is_regular_file fs target then Some target else
     (case map_of (includeToFiles ix) name of
        None \<Rightarrow> None | Some cs \<Rightarrow> nearestInclude fs spelling parent cs))"

definition includes_file :: "filesystem \<Rightarrow> indexer \<Rightarrow> path \<Rightarrow> string \<Rightarrow> path \<Rightarrow> string \<Rightarrow> bool" where
  "includes_file fs ix parent name canonicalPath spelling \<longleftrightarrow> include_name spelling = name \<and>
     (case spelling_target fs ix parent name spelling of
        None \<Rightarrow> False | Some t \<Rightarrow> weakly_canonical fs t = Some canonicalPath)"

text \<open>\<open>indexedFiles.at(source)\<close> throws when the file has no entry.\<close>

fun gathered_includers :: "filesystem \<Rightarrow> indexer \<Rightarrow> string \<Rightarrow> path \<Rightarrow> path list \<Rightarrow> path list result" where
  "gathered_includers fs ix name canonicalPath [] = Inr []"
| "gathered_includers fs ix name canonicalPath (source # sources) =
    (case weakly_canonical fs source of
       None \<Rightarrow> gathered_includers fs ix name canonicalPath sources
     | Some parent \<Rightarrow>
        if map_of (includedFiles ix) parent \<noteq> None then gathered_includers fs ix name canonicalPath sources
        else (case map_of (indexedFiles ix) source of
            None \<Rightarrow> Inl OutOfRange
          | Some e \<Rightarrow> map_sum id (\<lambda>ps. if list_ex (includes_file fs ix parent name canonicalPath) (ix_includes e)
                then parent # ps else ps) (gathered_includers fs ix name canonicalPath sources)))"

definition resolve_includers :: "filesystem \<Rightarrow> indexer \<Rightarrow> path \<Rightarrow> path list result" where
  "resolve_includers fs ix canonicalPath =
    (let parsed = tab_get (includers ix) canonicalPath; name = filename canonicalPath in
     map_sum id (\<lambda>ps. sort_unique (parsed @ ps))
       (gathered_includers fs ix name canonicalPath (tab_get (includeReferences ix) name)))"

definition getFilesIncluding :: "filesystem \<Rightarrow> path \<Rightarrow> indexer \<Rightarrow> path list result \<times> indexer" where
  "getFilesIncluding fs p ix = (case weakly_canonical fs p of
     None \<Rightarrow> (Inr [], ix)
   | Some c \<Rightarrow> (case map_of (resolvedIncluders ix) c of
       Some ps \<Rightarrow> (Inr ps, ix)
     | None \<Rightarrow> (case resolve_includers fs ix c of
         Inl e \<Rightarrow> (Inl e, ix)
       | Inr ps \<Rightarrow> (Inr ps, ix\<lparr>resolvedIncluders := (c, ps) # resolvedIncluders ix\<rparr>))))"

section \<open>Inferred include directories\<close>

text \<open>The one crawled file that a spelling names: none when two different files match.\<close>

fun unique_match :: "filesystem \<Rightarrow> path \<Rightarrow> path list \<Rightarrow> (path \<times> path) option \<Rightarrow> path option" where
  "unique_match fs includePath [] found = map_option fst found"
| "unique_match fs includePath (c # cs) found =
    (if strip_suffix includePath c \<noteq> [] \<or> \<not> is_regular_file fs c then unique_match fs includePath cs found
     else (case weakly_canonical fs c of
         None \<Rightarrow> unique_match fs includePath cs found
       | Some canonical \<Rightarrow> (case found of
           Some (m, identity) \<Rightarrow> (if identity \<noteq> canonical then None
              else unique_match fs includePath cs (Some (c, canonical)))
         | None \<Rightarrow> unique_match fs includePath cs (Some (c, canonical)))))"

definition match_directory :: "path \<Rightarrow> path \<Rightarrow> path" where
  "match_directory includePath m = fold (\<lambda>_ d. parent_path d) includePath m"

definition include_directory :: "filesystem \<Rightarrow> indexer \<Rightarrow> path \<Rightarrow> string \<Rightarrow> path option result" where
  "include_directory fs ix parent spelling =
    (if is_regular_file fs (append_path (parent_path parent) (path_of_string spelling)) then Inr None else
     let includePath = lexically_normal (path_of_string spelling) in
     if \<not> searchable_include includePath then Inr None else
     (case map_of (includeToFiles ix) (filename includePath) of
        None \<Rightarrow> Inr None
      | Some cs \<Rightarrow> (case unique_match fs includePath cs None of
          None \<Rightarrow> Inr None
        | Some m \<Rightarrow> (case weakly_canonical fs (match_directory includePath m) of
            None \<Rightarrow> Inl (RuntimeError ''filesystem error'') | Some d \<Rightarrow> Inr (Some d)))))"

fun infer_spellings :: "filesystem \<Rightarrow> indexer \<Rightarrow> path \<Rightarrow> string list \<Rightarrow> path list \<Rightarrow> path list result" where
  "infer_spellings fs ix parent [] acc = Inr acc"
| "infer_spellings fs ix parent (sp # sps) acc = (case include_directory fs ix parent sp of
     Inl e \<Rightarrow> Inl e
   | Inr None \<Rightarrow> infer_spellings fs ix parent sps acc
   | Inr (Some d) \<Rightarrow> infer_spellings fs ix parent sps (if d \<in> set acc then acc else acc @ [d]))"

fun infer_paths :: "filesystem \<Rightarrow> indexer \<Rightarrow> path list \<Rightarrow> path list \<Rightarrow> path list result" where
  "infer_paths fs ix [] acc = Inr acc"
| "infer_paths fs ix (p # ps) acc = (case map_of (indexedFiles ix) p of
     None \<Rightarrow> infer_paths fs ix ps acc
   | Some e \<Rightarrow> (if ix_includes e = [] then infer_paths fs ix ps acc else
       (case weakly_canonical fs p of
          None \<Rightarrow> Inl (RuntimeError ''filesystem error'')
        | Some parent \<Rightarrow> (case infer_spellings fs ix parent (ix_includes e) acc of
            Inl err \<Rightarrow> Inl err | Inr acc' \<Rightarrow> infer_paths fs ix ps acc'))))"

definition inferIncludeSearchDirectories :: "filesystem \<Rightarrow> path list \<Rightarrow> indexer \<Rightarrow> indexer result" where
  "inferIncludeSearchDirectories fs paths ix = map_sum id
     (\<lambda>ds. ix\<lparr>includeDirectories := sort (includeDirectories ix @ ds)\<rparr>) (infer_paths fs ix paths [])"

section \<open>Full indexing and exclusion\<close>

definition crawled_files :: "filesystem \<Rightarrow> path list \<Rightarrow> (string, path) table" where
  "crawled_files fs paths = fold (\<lambda>p t. let q = lexically_normal (absolute_path fs p) in
     if q \<in> set (tab_get t (filename q)) then t else tab_push (filename q) q t) paths []"

definition indexAndReport ::
  "filesystem \<Rightarrow> (path \<Rightarrow> indexed) \<Rightarrow> path list \<Rightarrow> bool \<Rightarrow> (path \<times> nat) list \<Rightarrow> indexer \<Rightarrow> indexer result" where
  "indexAndReport fs parse paths infer counts ix0 =
    (let ix1 = ix0\<lparr>directoryEntryCounts := counts, includeReferences := [], includers := [],
                   includedFiles := [], resolvedIncluders := []\<rparr>;
         ix2 = addDocuments fs parse paths ix1;
         ix3 = ix2\<lparr>includeToFiles := crawled_files fs paths, includeDirectories := []\<rparr>
     in if infer then inferIncludeSearchDirectories fs paths ix3 else Inr ix3)"

definition excluded_by :: "filesystem \<Rightarrow> path list \<Rightarrow> path \<Rightarrow> bool" where
  "excluded_by fs directories p =
     (let normal = (\<lambda>d. directory_string (lexically_normal (absolute_path fs d)))
      in containsDirectoryOrAncestor (map normal directories) (normal p))"

fun remove_excluded :: "filesystem \<Rightarrow> (path \<Rightarrow> bool) \<Rightarrow> path list \<Rightarrow> indexer \<Rightarrow> indexer" where
  "remove_excluded fs excl [] ix = ix"
| "remove_excluded fs excl (p # ps) ix =
     remove_excluded fs excl ps (if excl p then removePathFromIndex fs p ix else ix)"

definition excludeDirectories :: "filesystem \<Rightarrow> path list \<Rightarrow> indexer \<Rightarrow> indexer result" where
  "excludeDirectories fs directories ix0 = (if directories = [] then Inr ix0 else
    let excl = excluded_by fs directories;
        kept = filter (\<lambda>kv. snd kv \<noteq> []) (map (\<lambda>(k, ps). (k, filter (\<lambda>p. \<not> excl p) ps)) (includeToFiles ix0));
        remaining = concat (map snd kept);
        keys = map fst (indexedFiles ix0);
        sources = filter (\<lambda>p. \<not> excl p \<and> lexically_normal (absolute_path fs p) \<in> set remaining) keys;
        ix1 = remove_excluded fs excl keys (ix0\<lparr>includeToFiles := kept\<rparr>);
        ix2 = ix1\<lparr>directoryEntryCounts := filter (\<lambda>e. \<not> excl (fst e)) (directoryEntryCounts ix1),
                  includeDirectories := []\<rparr>
    in inferIncludeSearchDirectories fs sources ix2)"

section \<open>Conflicting include directories\<close>

text \<open>The state of the search: the first file and directory seen for a relative path, and the
  directories in conflict.\<close>

type_synonym conflict_state = "(path \<times> path \<times> path) list \<times> path list"

definition note_conflict :: "path \<Rightarrow> path list \<Rightarrow> path list" where
  "note_conflict d ds = (if d \<in> set ds then ds else ds @ [d])"

definition conflict_step ::
  "filesystem \<Rightarrow> path list \<Rightarrow> path \<Rightarrow> path \<Rightarrow> conflict_state \<Rightarrow> conflict_state result" where
  "conflict_step fs configured canonical directory st =
    (let relative = lexically_relative canonical directory in
     if relative = [] \<or> hd relative = dotdot then Inr st else
     let (found, cs) = st;
         (found1, cs1) = (case map_of found relative of
            None \<Rightarrow> ((relative, canonical, directory) # found, cs)
          | Some (f, d) \<Rightarrow> (found, if f \<noteq> canonical then note_conflict d (note_conflict directory cs) else cs));
         existing = filter (is_regular_file fs) (map (\<lambda>c. append_path c relative) configured)
     in if list_ex (\<lambda>e. weakly_canonical fs e = None) existing then Inl (RuntimeError ''filesystem error'')
        else Inr (found1, if list_ex (\<lambda>e. weakly_canonical fs e \<noteq> Some canonical) existing
                          then note_conflict directory cs1 else cs1))"

fun conflict_directories ::
  "filesystem \<Rightarrow> path list \<Rightarrow> path \<Rightarrow> path list \<Rightarrow> conflict_state \<Rightarrow> conflict_state result" where
  "conflict_directories fs configured canonical [] st = Inr st"
| "conflict_directories fs configured canonical (d # ds) st = (case conflict_step fs configured canonical d st of
     Inl e \<Rightarrow> Inl e | Inr st' \<Rightarrow> conflict_directories fs configured canonical ds st')"

fun conflict_files :: "filesystem \<Rightarrow> path list \<Rightarrow> path list \<Rightarrow> path list \<Rightarrow> conflict_state \<Rightarrow> conflict_state result" where
  "conflict_files fs configured directories [] st = Inr st"
| "conflict_files fs configured directories (f # files) st = (case weakly_canonical fs f of
     None \<Rightarrow> Inl (RuntimeError ''filesystem error'')
   | Some canonical \<Rightarrow> (case conflict_directories fs configured canonical directories st of
       Inl e \<Rightarrow> Inl e | Inr st' \<Rightarrow> conflict_files fs configured directories files st'))"

definition getConflictingIncludeDirectories :: "filesystem \<Rightarrow> path list \<Rightarrow> indexer \<Rightarrow> path list result" where
  "getConflictingIncludeDirectories fs configured ix = map_sum id (\<lambda>st. sort (snd st))
     (conflict_files fs configured (includeDirectories ix) (concat (map snd (includeToFiles ix))) ([], []))"

end
