(* ===== verification/IndexRuns.thy ===== *)
theory IndexRuns
  imports IncludeSearch
begin

text \<open>
  Properties of the workspace index over whole runs: every update, query, full run and exclusion is
  a step, and the lemmas carry the invariants of the tables and of the includers cache through any
  sequence of them. Before that, the two exclusion tests and the search of the nearest files are
  compared with what they promise.
\<close>

section \<open>Prefixes that are directories\<close>

lemma up_to_separator_Some:
  "up_to_separator s = Some q \<longleftrightarrow> (\<exists>tl_s. s = q @ tl_s \<and> CHR ''/'' \<notin> set tl_s) \<and> q \<noteq> [] \<and> last q = CHR ''/''"
proof
  assume "up_to_separator s = Some q"
  then have q: "q = rev (dropWhile (\<lambda>c. c \<noteq> CHR ''/'') (rev s))" "q \<noteq> []"
    by (auto simp: up_to_separator_def Let_def split: if_splits)
  have "s = q @ rev (takeWhile (\<lambda>c. c \<noteq> CHR ''/'') (rev s))"
    using q(1) by (metis rev_append rev_rev_ident takeWhile_dropWhile_id)
  moreover have "CHR ''/'' \<notin> set (rev (takeWhile (\<lambda>c. c \<noteq> CHR ''/'') (rev s)))"
    using set_takeWhileD by fastforce
  moreover have "last q = CHR ''/''"
    using q hd_dropWhile [of "\<lambda>c. c \<noteq> CHR ''/''" "rev s"] by (simp add: last_rev)
  ultimately show "(\<exists>tl_s. s = q @ tl_s \<and> CHR ''/'' \<notin> set tl_s) \<and> q \<noteq> [] \<and> last q = CHR ''/''"
    using q(2) by blast
next
  assume "(\<exists>tl_s. s = q @ tl_s \<and> CHR ''/'' \<notin> set tl_s) \<and> q \<noteq> [] \<and> last q = CHR ''/''"
  then obtain t where t: "s = q @ t" "CHR ''/'' \<notin> set t" "q \<noteq> []" "last q = CHR ''/''" by blast
  then have "dropWhile (\<lambda>c. c \<noteq> CHR ''/'') (rev s) = rev q"
    by (auto simp: dropWhile_append3 intro!: dropWhile_append_stop) (metis hd_rev dropWhile_append_stop rev_is_Nil_conv set_rev)
  then show "up_to_separator s = Some q" using t by (simp add: up_to_separator_def Let_def)
qed

definition is_dir_string :: "string \<Rightarrow> bool" where
  "is_dir_string s \<longleftrightarrow> s \<noteq> [] \<and> last s = CHR ''/''"

lemma ancestor_walk_iff:
  assumes "\<forall>v \<in> hashed. is_dir_string v" and "p = [] \<or> is_dir_string p"
  shows "ancestor_walk hashed p \<longleftrightarrow> (\<exists>v \<in> hashed. prefix v p)"
  using assms(2)
proof (induction "length p" arbitrary: p rule: less_induct)
  case less
  show ?case
  proof (cases "p = []")
    case True
    then show ?thesis using assms(1) by (auto simp: ancestor_walk.simps is_dir_string_def)
  next
    case False
    have p: "p = butlast p @ ''/''" using less.prems False by (metis append_butlast_last_id is_dir_string_def)
    have step: "prefix v p \<longleftrightarrow> v = p \<or> prefix v (butlast p)" for v
      by (metis p prefix_snoc)
    show ?thesis
    proof (cases "p \<in> hashed")
      case True
      then show ?thesis using False by (auto simp: ancestor_walk.simps)
    next
      case notin: False
      show ?thesis
      proof (cases "up_to_separator (butlast p)")
        case None
        have "\<not> prefix v (butlast p)" if "v \<in> hashed" for v
        proof
          assume "prefix v (butlast p)"
          moreover have "is_dir_string v" using assms(1) that by blast
          ultimately have "CHR ''/'' \<in> set (rev (butlast p))"
            by (auto simp: is_dir_string_def prefix_def) (metis last_in_set)
          then have "dropWhile (\<lambda>c. c \<noteq> CHR ''/'') (rev (butlast p)) \<noteq> []" by (auto simp: dropWhile_eq_Nil_conv)
          then show False using None by (auto simp: up_to_separator_def Let_def split: if_splits)
        qed
        then show ?thesis using None False notin step by (auto simp: ancestor_walk.simps)
      next
        case (Some q)
        then obtain t where q: "butlast p = q @ t" "CHR ''/'' \<notin> set t" "is_dir_string q"
          unfolding up_to_separator_Some is_dir_string_def by blast
        have "length q < length p" using up_to_separator_shorter [OF Some False] .
        then have ih: "ancestor_walk hashed q \<longleftrightarrow> (\<exists>v \<in> hashed. prefix v q)" using less.hyps q(3) by blast
        have "prefix v (butlast p) \<longleftrightarrow> prefix v q" if "v \<in> hashed" for v
        proof
          assume "prefix v (butlast p)"
          then have "prefix v q \<or> (\<exists>us. v = q @ us \<and> prefix us t \<and> us \<noteq> [])"
            unfolding q(1) prefix_append by (metis append_Nil2 prefix_order.order_refl)
          then consider "prefix v q" | us where "v = q @ us" "prefix us t" "us \<noteq> []" by blast
          then show "prefix v q"
          proof cases
            case 2
            then have "last v \<in> set t" by (auto simp: prefix_def)
            then show ?thesis using assms(1) that q(2) by (auto simp: is_dir_string_def)
          qed
        qed (simp add: q(1))
        then show ?thesis using Some False notin step ih by (auto simp: ancestor_walk.simps)
      qed
    qed
  qed
qed

section \<open>The closest candidates\<close>

definition cand_path :: "filesystem \<Rightarrow> ('c \<Rightarrow> path option) \<Rightarrow> 'c \<Rightarrow> path option" where
  "cand_path fs getPath c = Option.bind (getPath c) (weakly_canonical fs)"

definition cand_distance :: "filesystem \<Rightarrow> path \<Rightarrow> ('c \<Rightarrow> path option) \<Rightarrow> 'c \<Rightarrow> nat option" where
  "cand_distance fs src getPath c = Option.bind (cand_path fs getPath c) (path_distance src)"

fun closer :: "nat option \<Rightarrow> nat option \<Rightarrow> nat option" where
  "closer None d = d"
| "closer b None = b"
| "closer (Some b) (Some d) = Some (min b d)"

definition least :: "('c \<Rightarrow> nat option) \<Rightarrow> 'c list \<Rightarrow> nat option \<Rightarrow> nat option" where
  "least dist cs best = foldl (\<lambda>b c. closer b (dist c)) best cs"

lemma least_simps [simp]: "least dist [] best = best"
  "least dist (c # cs) best = least dist cs (closer best (dist c))"
  by (simp_all add: least_def)

lemma least_le: "least dist cs (Some b) = Some m \<Longrightarrow> m \<le> b"
proof (induction cs arbitrary: b)
  case (Cons c cs)
  show ?case
  proof (cases "dist c")
    case None
    then show ?thesis using Cons by simp
  next
    case (Some d)
    then show ?thesis using Cons.IH [of "min b d"] Cons.prems by simp
  qed
qed simp

lemma least_ge: "least dist cs best = Some m \<Longrightarrow> c \<in> set cs \<Longrightarrow> dist c = Some d \<Longrightarrow> m \<le> d"
proof (induction cs arbitrary: best)
  case (Cons a cs)
  show ?case
  proof (cases "c = a")
    case True
    then obtain b where "closer best (dist a) = Some b" "b \<le> d"
      using Cons.prems(3) by (cases best) auto
    then show ?thesis using Cons.prems(1) least_le by (metis le_trans least_simps(2))
  next
    case False
    then show ?thesis using Cons by auto
  qed
qed simp

lemma least_Some: "least dist cs (Some b) \<noteq> None"
  by (induction cs arbitrary: b) (simp, metis closer.simps(2,3) least_simps(2) option.exhaust)

lemma least_None: "least dist cs None = None \<Longrightarrow> c \<in> set cs \<Longrightarrow> dist c = None"
proof (induction cs)
  case (Cons a cs)
  have "dist a = None"
  proof (rule ccontr)
    assume "dist a \<noteq> None"
    then obtain d where "dist a = Some d" by auto
    then show False using Cons.prems(1) least_Some [of dist cs d] by simp
  qed
  then show ?case using Cons by auto
qed simp

definition candidates_at :: "filesystem \<Rightarrow> path \<Rightarrow> ('c \<Rightarrow> path option) \<Rightarrow> 'c list \<Rightarrow> nat option \<Rightarrow> (path \<times> 'c) list" where
  "candidates_at fs src getPath cs m =
     map (\<lambda>c. (the (cand_path fs getPath c), c)) (filter (\<lambda>c. cand_distance fs src getPath c = m) cs)"

lemma nearest_loop_eq:
  assumes "best = None \<longrightarrow> near = []"
  shows "nearest_loop fs src getPath cs near best =
    (let m = least (cand_distance fs src getPath) cs best in
     if m = None then near else (if m = best then near else []) @ candidates_at fs src getPath cs m)"
  using assms
proof (induction cs arbitrary: near best)
  case Nil
  then show ?case by (simp add: candidates_at_def)
next
  case (Cons c cs)
  show ?case
  proof (cases "cand_distance fs src getPath c")
    case None
    have "nearest_loop fs src getPath (c # cs) near best = nearest_loop fs src getPath cs near best"
    proof (cases "cand_path fs getPath c")
      case None
      then show ?thesis by (simp add: cand_path_def)
    next
      case (Some p)
      then have "path_distance src p = None" using None by (simp add: cand_distance_def)
      then show ?thesis using Some by (simp add: cand_path_def)
    qed
    moreover have "closer best None = best" by (cases best) auto
    ultimately show ?thesis using Cons None by (auto simp: candidates_at_def Let_def)
  next
    case (Some d)
    then obtain p where p: "cand_path fs getPath c = Some p" "path_distance src p = Some d"
      by (cases "cand_path fs getPath c") (auto simp: cand_distance_def)
    then have p': "Option.bind (getPath c) (weakly_canonical fs) = Some p" by (simp add: cand_path_def)
    let ?L = "least (cand_distance fs src getPath) cs"
    consider (new) "best = None \<or> (\<exists>b. best = Some b \<and> d < b)" | (eq) "best = Some d"
      | (worse) b where "best = Some b" "b < d"
      by (cases best) (auto, metis linorder_neqE_nat)
    then show ?thesis
    proof cases
      case new
      then have n: "nearest_loop fs src getPath (c # cs) near best = nearest_loop fs src getPath cs [(p, c)] (Some d)"
        by (auto simp: p' p(2))
      have cl: "closer best (Some d) = Some d" using new by auto
      obtain m where m: "?L (Some d) = Some m" using least_Some by fast
      have "m \<noteq> b" if "best = Some b" for b using least_le [OF m] new that by auto
      then show ?thesis
        using n Cons.IH [of "Some d" "[(p, c)]"] cl m Some p(1) by (auto simp: candidates_at_def Let_def)
    next
      case eq
      then have n: "nearest_loop fs src getPath (c # cs) near best = nearest_loop fs src getPath cs (near @ [(p, c)]) best"
        by (auto simp: p' p(2))
      obtain m where m: "?L (Some d) = Some m" using least_Some by fast
      then show ?thesis
        using n Cons.IH [of best "near @ [(p, c)]"] eq Some p(1) by (auto simp: candidates_at_def Let_def)
    next
      case worse
      then have n: "nearest_loop fs src getPath (c # cs) near best = nearest_loop fs src getPath cs near best"
        by (auto simp: p' p(2))
      obtain m where m: "?L (Some b) = Some m" using least_Some by fast
      have "m \<noteq> d" using least_le [OF m] worse by simp
      then show ?thesis
        using n Cons.IH [of best near] worse Some m by (auto simp: candidates_at_def Let_def)
    qed
  qed
qed

lemma first_of_each_set: "set (first_of_each xs) \<subseteq> snd ` set xs"
  by (induction xs rule: first_of_each.induct) auto

lemma first_of_each_covers: "(p, c) \<in> set xs \<Longrightarrow> \<exists>d \<in> set (first_of_each xs). (p, d) \<in> set xs"
proof (induction xs arbitrary: p c rule: first_of_each.induct)
  case (3 p1 c1 q d rest)
  show ?case
  proof (cases "p1 = q")
    case True
    have "(p, c) \<in> set ((p1, c1) # rest) \<or> p = p1" using 3(3) True by auto
    then have "\<exists>e. (p, e) \<in> set ((p1, c1) # rest)" by auto
    then obtain e where "(p, e) \<in> set ((p1, c1) # rest)" by blast
    then show ?thesis using 3(1) [OF True] True by fastforce
  next
    case False
    then show ?thesis using 3(2) [OF False] 3(3) by (cases "(p, c) = (p1, c1)") auto
  qed
qed auto

lemma first_of_each_keys:
  assumes "sorted (map fst xs)" and "\<forall>x \<in> set xs. key (snd x) = fst x"
  shows "sorted_wrt (<) (map key (first_of_each xs)) \<and> (\<forall>c \<in> set (first_of_each xs). \<exists>p. (p, c) \<in> set xs)"
  using assms
proof (induction xs rule: first_of_each.induct)
  case (3 p c q d rest)
  show ?case
  proof (cases "p = q")
    case True
    then show ?thesis using 3 by auto
  next
    case False
    then have "\<forall>e \<in> set (first_of_each ((q, d) # rest)). p < key e"
      using 3 first_of_each_set [of "(q, d) # rest"] by (fastforce simp: less_le)
    then show ?thesis using 3 False by auto
  qed
qed auto

section \<open>Every update of the index\<close>

datatype index_op =
    OpDocument path indexed
  | OpAdd "path \<Rightarrow> indexed" "path list"
  | OpWatched "path \<Rightarrow> indexed" "(path \<times> change_type) list"
  | OpIncludes "path list" "(path \<times> path) list"
  | OpQuery path
  | OpReindex "path \<Rightarrow> indexed" "path list" bool "(path \<times> nat) list"
  | OpExclude "path list"

fun index_step :: "filesystem \<Rightarrow> index_op \<Rightarrow> indexer \<Rightarrow> indexer result" where
  "index_step fs (OpDocument p e) ix = Inr (indexPath fs p e ix)"
| "index_step fs (OpAdd parse paths) ix = Inr (addDocuments fs parse paths ix)"
| "index_step fs (OpWatched parse changes) ix = Inr (onWorkspaceDidChangeWatchedFiles fs parse changes ix)"
| "index_step fs (OpIncludes buffers directives) ix = Inr (updateIncludes buffers directives ix)"
| "index_step fs (OpQuery p) ix = Inr (snd (getFilesIncluding fs p ix))"
| "index_step fs (OpReindex parse paths infer counts) ix = indexAndReport fs parse paths infer counts ix"
| "index_step fs (OpExclude dirs) ix = excludeDirectories fs dirs ix"

fun index_run :: "filesystem \<Rightarrow> index_op list \<Rightarrow> indexer \<Rightarrow> indexer result" where
  "index_run fs [] ix = Inr ix"
| "index_run fs (op # ops) ix = (case index_step fs op ix of Inl e \<Rightarrow> Inl e | Inr ix' \<Rightarrow> index_run fs ops ix')"

lemma infer_fields:
  assumes "inferIncludeSearchDirectories fs ps ix = Inr ix'"
  shows "\<exists>ds. ix' = ix\<lparr>includeDirectories := ds\<rparr>"
  using assms by (cases "infer_paths fs ix ps []") (auto simp: inferIncludeSearchDirectories_def)

lemma inv_cong:
  "names_inv (ix\<lparr>includeDirectories := ds\<rparr>) = names_inv ix" "edges_inv (ix\<lparr>includeDirectories := ds\<rparr>) = edges_inv ix"
  "names_inv (ix\<lparr>includeToFiles := t\<rparr>) = names_inv ix" "edges_inv (ix\<lparr>includeToFiles := t\<rparr>) = edges_inv ix"
  "names_inv (ix\<lparr>directoryEntryCounts := cs\<rparr>) = names_inv ix" "edges_inv (ix\<lparr>directoryEntryCounts := cs\<rparr>) = edges_inv ix"
  "names_inv (ix\<lparr>resolvedIncluders := r\<rparr>) = names_inv ix" "edges_inv (ix\<lparr>resolvedIncluders := r\<rparr>) = edges_inv ix"
  by (simp_all add: names_inv_def edges_inv_def)

lemma forget_inv:
  assumes "names_inv ix"
  shows "names_inv (ix\<lparr>directoryEntryCounts := counts, includeReferences := [], includers := [],
      includedFiles := [], resolvedIncluders := []\<rparr>)"
    and "edges_inv (ix\<lparr>directoryEntryCounts := counts, includeReferences := [], includers := [],
      includedFiles := [], resolvedIncluders := []\<rparr>)"
  using assms include_refs.tracks_empty edges.tracks_empty
  by (auto simp: names_inv_def edges_inv_def Let_def intro!: exI [of _ Map.empty])

lemma reindex_inv:
  assumes "names_inv ix" and "indexAndReport fs parse paths infer counts ix = Inr ix'"
  shows "names_inv ix' \<and> edges_inv ix'"
proof -
  let ?ix2 = "addDocuments fs parse paths (ix\<lparr>directoryEntryCounts := counts, includeReferences := [],
    includers := [], includedFiles := [], resolvedIncluders := []\<rparr>)"
  have i: "names_inv ?ix2" "edges_inv ?ix2" using addDocuments_inv [OF forget_inv [OF assms(1)]] by auto
  then show ?thesis
    using assms(2) infer_fields [of fs paths "?ix2\<lparr>includeToFiles := crawled_files fs paths, includeDirectories := []\<rparr>" ix']
    by (auto simp: indexAndReport_def Let_def inv_cong split: if_splits)
qed

lemma remove_excluded_inv:
  "names_inv ix \<Longrightarrow> edges_inv ix \<Longrightarrow> names_inv (remove_excluded fs excl ps ix) \<and> edges_inv (remove_excluded fs excl ps ix)"
  by (induction fs excl ps ix rule: remove_excluded.induct) (auto simp: remove_inv)

lemma exclude_inv:
  assumes "names_inv ix" and "edges_inv ix" and "excludeDirectories fs dirs ix = Inr ix'"
  shows "names_inv ix' \<and> edges_inv ix'"
proof (cases "dirs = []")
  case False
  define kept where "kept = filter (\<lambda>kv. snd kv \<noteq> []) (map (\<lambda>(k, ps). (k, filter (\<lambda>p. \<not> excluded_by fs dirs p) ps)) (includeToFiles ix))"
  define ix1 where "ix1 = remove_excluded fs (excluded_by fs dirs) (map fst (indexedFiles ix)) (ix\<lparr>includeToFiles := kept\<rparr>)"
  define ix2 where "ix2 = ix1\<lparr>directoryEntryCounts := filter (\<lambda>e. \<not> excluded_by fs dirs (fst e)) (directoryEntryCounts ix1),
                  includeDirectories := []\<rparr>"
  have "names_inv ix1 \<and> edges_inv ix1"
    unfolding ix1_def by (rule remove_excluded_inv) (simp_all add: assms(1,2) inv_cong)
  then have i: "names_inv ix2 \<and> edges_inv ix2" by (simp add: ix2_def inv_cong)
  obtain sources where "inferIncludeSearchDirectories fs sources ix2 = Inr ix'"
    using assms(3) False unfolding excludeDirectories_def Let_def kept_def [symmetric] ix1_def [symmetric] ix2_def [symmetric]
    by auto
  then show ?thesis using infer_fields i by (fastforce simp: inv_cong)
qed (use assms in \<open>simp add: excludeDirectories_def\<close>)

lemma query_fields: "\<exists>r. snd (getFilesIncluding fs p ix) = ix\<lparr>resolvedIncluders := r\<rparr>"
proof -
  have "snd (getFilesIncluding fs p ix) = ix \<or> (\<exists>r. snd (getFilesIncluding fs p ix) = ix\<lparr>resolvedIncluders := r\<rparr>)"
    by (auto simp: getFilesIncluding_def split: option.split sum.split)
  moreover have "ix = ix\<lparr>resolvedIncluders := resolvedIncluders ix\<rparr>" by simp
  ultimately show ?thesis by metis
qed

lemma index_step_inv:
  assumes "names_inv ix" and "edges_inv ix" and "index_step fs op ix = Inr ix'"
  shows "names_inv ix' \<and> edges_inv ix'"
proof (cases op)
  case (OpQuery p)
  obtain r where "snd (getFilesIncluding fs p ix) = ix\<lparr>resolvedIncluders := r\<rparr>" using query_fields by blast
  then have "ix' = ix\<lparr>resolvedIncluders := r\<rparr>" using assms(3) OpQuery by simp
  then show ?thesis using assms(1,2) by (simp add: inv_cong)
next
  case (OpReindex parse paths infer counts)
  then show ?thesis using assms(3) reindex_inv [OF assms(1)] by simp
next
  case (OpExclude dirs)
  then show ?thesis using assms(3) exclude_inv [OF assms(1,2)] by simp
next
  case (OpDocument p e)
  then show ?thesis using assms(3) index_inv(1,2) [OF assms(1,2), of fs p e] by simp
next
  case (OpAdd parse paths)
  then show ?thesis using assms(3) addDocuments_inv [OF assms(1,2), of fs parse paths] by simp
next
  case (OpWatched parse changes)
  then show ?thesis using assms(3) watched_inv [OF assms(1,2), of fs parse changes] by simp
next
  case (OpIncludes bs ds)
  then show ?thesis using assms(3) updateIncludes_inv [OF assms(1,2), of bs ds] by simp
qed

lemma index_run_inv:
  "index_run fs ops ix = Inr ix' \<Longrightarrow> names_inv ix \<Longrightarrow> edges_inv ix \<Longrightarrow> names_inv ix' \<and> edges_inv ix'"
  by (induction ops arbitrary: ix) (auto dest: index_step_inv split: sum.splits)

section \<open>The cache of includers\<close>

text \<open>Every file listed under an include name has an entry, so \<open>at\<close> never throws.\<close>

lemma include_reference_indexed:
  assumes "names_inv ix" and "p \<in> set (tab_get (includeReferences ix) name)"
  shows "map_of (indexedFiles ix) p \<noteq> None"
proof -
  obtain part where "part \<subseteq>\<^sub>m map_of (indexedFiles ix)" "include_refs.tracks (includeReferences ix) part"
    using assms(1) by (auto simp: names_inv_def Let_def)
  moreover from this(2) obtain e where "part p = Some e" using include_refs.tracks_member assms(2) by metis
  ultimately have "map_of (indexedFiles ix) p = Some e" by (metis domI map_le_def)
  then show ?thesis by simp
qed

lemma gathered_includers_returns:
  "(\<forall>p \<in> set sources. map_of (indexedFiles ix) p \<noteq> None) \<Longrightarrow> \<exists>ps. gathered_includers fs ix name c sources = Inr ps"
  by (induction sources) (auto split: option.splits)

lemma resolve_includers_returns:
  assumes "names_inv ix"
  shows "\<exists>ps. resolve_includers fs ix c = Inr ps"
proof -
  obtain ps where "gathered_includers fs ix (filename c) c (tab_get (includeReferences ix) (filename c)) = Inr ps"
    using gathered_includers_returns include_reference_indexed [OF assms] by blast
  then show ?thesis by (simp add: resolve_includers_def Let_def)
qed

lemma gathered_includers_cache: "gathered_includers fs (ix\<lparr>resolvedIncluders := r\<rparr>) name c sources = gathered_includers fs ix name c sources"
proof -
  have "spelling_target fs (ix\<lparr>resolvedIncluders := r\<rparr>) = spelling_target fs ix"
    by (simp add: fun_eq_iff spelling_target_def Let_def)
  then have "includes_file fs (ix\<lparr>resolvedIncluders := r\<rparr>) = includes_file fs ix"
    by (simp add: fun_eq_iff includes_file_def)
  then show ?thesis by (induction sources) (auto split: option.splits)
qed

lemma resolve_includers_cache: "resolve_includers fs (ix\<lparr>resolvedIncluders := r\<rparr>) = resolve_includers fs ix"
  by (simp add: fun_eq_iff resolve_includers_def gathered_includers_cache)

definition cache_ok :: "filesystem \<Rightarrow> indexer \<Rightarrow> bool" where
  "cache_ok fs ix \<longleftrightarrow> (\<forall>c ps. map_of (resolvedIncluders ix) c = Some ps \<longrightarrow> resolve_includers fs ix c = Inr ps)"

lemma cache_ok_empty [simp]: "resolvedIncluders ix = [] \<Longrightarrow> cache_ok fs ix"
  by (simp add: cache_ok_def)

lemma remove_clears [simp]: "resolvedIncluders (removePathFromIndex fs p ix) = []"
  by (simp add: removePathFromIndex_alt drop_edges_def Let_def split: option.split)

lemma index_clears [simp]: "resolvedIncluders (indexPath fs p e ix) = []"
  by (simp add: indexPath_alt Let_def)

lemma addDocuments_clears: "addDocuments fs parse paths ix = ix \<or> resolvedIncluders (addDocuments fs parse paths ix) = []"
  by (cases paths rule: rev_cases) (simp_all add: addDocuments_def)

lemma watched_changes_clears:
  "fst (watched_changes fs changes ix adds) = ix \<or> resolvedIncluders (fst (watched_changes fs changes ix adds)) = []"
proof (induction fs changes ix adds rule: watched_changes.induct)
  case (3 fs p cs ix adds)
  then show ?case using remove_clears [of fs p ix] by (metis watched_changes.simps(3))
next
  case (4 fs p cs ix adds)
  then show ?case using remove_clears [of fs p ix] by (metis watched_changes.simps(4))
qed simp_all

lemma watched_clears: "onWorkspaceDidChangeWatchedFiles fs parse changes ix = ix \<or>
   resolvedIncluders (onWorkspaceDidChangeWatchedFiles fs parse changes ix) = []"
  using watched_changes_clears [of fs changes ix "[]"]
    addDocuments_clears [of fs parse "snd (watched_changes fs changes ix [])" "fst (watched_changes fs changes ix [])"]
  by (auto simp: onWorkspaceDidChangeWatchedFiles_def split_beta)

lemma updateIncludes_clears: "updateIncludes bs ds ix = ix \<or> resolvedIncluders (updateIncludes bs ds ix) = []"
proof -
  have "fold (\<lambda>(p, ts). replaceIncludes p ts) es ix = ix \<or>
      resolvedIncluders (fold (\<lambda>(p, ts). replaceIncludes p ts) es ix) = []" for es
    by (cases es rule: rev_cases) (auto split: prod.split)
  then show ?thesis by (simp add: updateIncludes_def)
qed

lemma query_cache: "cache_ok fs ix \<Longrightarrow> cache_ok fs (snd (getFilesIncluding fs p ix))"
  by (auto simp: getFilesIncluding_def cache_ok_def resolve_includers_cache split: option.splits sum.splits)

fun keeps_crawl :: "index_op \<Rightarrow> bool" where
  "keeps_crawl (OpExclude _) = False"
| "keeps_crawl _ = True"

lemma index_step_cache:
  assumes "cache_ok fs ix" and "index_step fs op ix = Inr ix'" and "keeps_crawl op"
  shows "cache_ok fs ix'"
proof (cases op)
  case (OpReindex parse paths infer counts)
  let ?ix1 = "ix\<lparr>directoryEntryCounts := counts, includeReferences := [], includers := [],
    includedFiles := [], resolvedIncluders := []\<rparr>"
  let ?ix2 = "addDocuments fs parse paths ?ix1"
  let ?ix3 = "?ix2\<lparr>includeToFiles := crawled_files fs paths, includeDirectories := []\<rparr>"
  have c: "resolvedIncluders ?ix2 = []"
    using addDocuments_clears [of fs parse paths ?ix1]
  proof
    assume "?ix2 = ?ix1"
    moreover have "resolvedIncluders ?ix1 = []" by simp
    ultimately show ?thesis by (rule ssubst)
  qed
  have "index_step fs op ix = (if infer then inferIncludeSearchDirectories fs paths ?ix3 else Inr ?ix3)"
    by (simp add: OpReindex indexAndReport_def Let_def)
  then have "ix' = ?ix3 \<or> (\<exists>ds. ix' = ?ix3\<lparr>includeDirectories := ds\<rparr>)"
    using assms(2) infer_fields [of fs paths ?ix3 ix'] by (simp split: if_splits)
  then have "resolvedIncluders ix' = []" using c by auto
  then show ?thesis by simp
next
  case (OpAdd parse paths)
  then show ?thesis using assms(1,2) addDocuments_clears [of fs parse paths ix] by (simp, metis cache_ok_empty)
next
  case (OpWatched parse changes)
  then show ?thesis using assms(1,2) watched_clears [of fs parse changes ix] by (simp, metis cache_ok_empty)
next
  case (OpIncludes bs ds)
  then show ?thesis using assms(1,2) updateIncludes_clears [of bs ds ix] by (simp, metis cache_ok_empty)
next
  case (OpDocument p e)
  then have "ix' = indexPath fs p e ix" using assms(2) by simp
  then show ?thesis using cache_ok_empty index_clears by simp
next
  case (OpQuery p)
  then have "ix' = snd (getFilesIncluding fs p ix)" using assms(2) by simp
  then show ?thesis using query_cache [OF assms(1)] by simp
next
  case (OpExclude dirs)
  then show ?thesis using assms(3) by simp
qed

lemma index_run_cache:
  "index_run fs ops ix = Inr ix' \<Longrightarrow> list_all keeps_crawl ops \<Longrightarrow> cache_ok fs ix \<Longrightarrow> cache_ok fs ix'"
  by (induction ops arbitrary: ix) (auto dest: index_step_cache split: sum.splits)

section \<open>Small examples for the witnesses\<close>

text \<open>A file system in which every path is canonical and nothing is regular.\<close>

definition sample_fs :: filesystem where
  "sample_fs = \<lparr>weakly_canonical = Some, is_regular_file = (\<lambda>_. False), is_directory = (\<lambda>_. False),
     exists_path = (\<lambda>_. False), current_path = [''/'']\<rparr>"

definition sample_entry :: indexed where
  "sample_entry = empty_indexed\<lparr>ix_symbols := [(''top'', 1)], ix_macros := [''M'']\<rparr>"

section \<open>Properties\<close>

text \<open>C5. After any sequence of updates, queries, full runs and exclusions, the index answers for
  a name exactly the files whose current entry has it: for symbols, macros, references and
  header declarations. And the parsed edges are kept both ways: a file is among the includers
  of a header exactly when the header is among the files it includes.\<close>

theorem index_tables_consistent:
  assumes "index_run fs ops empty_indexer = Inr ix"
  shows "(p \<in> set (getFilesForSymbol ix name) \<longleftrightarrow>
       (\<exists>e kind. map_of (indexedFiles ix) p = Some e \<and> (name, kind) \<in> set (ix_symbols e))) \<and>
     (p \<in> set (getFilesForMacro ix name) \<longleftrightarrow> (\<exists>e. map_of (indexedFiles ix) p = Some e \<and> name \<in> set (ix_macros e))) \<and>
     (p \<in> set (getFilesReferencingSymbol ix name) \<longleftrightarrow>
       (\<exists>e. map_of (indexedFiles ix) p = Some e \<and> name \<in> set (ix_references e))) \<and>
     (p \<in> set (getHeadersForSymbol ix name) \<longleftrightarrow>
       (\<exists>e. map_of (indexedFiles ix) p = Some e \<and> name \<in> set (ix_headers e))) \<and>
     (p \<in> set (tab_get (includers ix) target) \<longleftrightarrow> target \<in> set (tab_get (includedFiles ix) p))"
proof -
  have i: "names_inv ix" "edges_inv ix" using index_run_inv [OF assms empty_inv] by auto
  let ?idx = "map_of (indexedFiles ix)"
  have tr: "symbols.tracks (symbolToFiles ix) ?idx" "names.tracks ix_macros (macroToFiles ix) ?idx"
    "names.tracks ix_references (symbolReferences ix) ?idx" "names.tracks ix_headers (headerSymbolToFiles ix) ?idx"
    using i(1) by (simp_all add: names_inv_def Let_def)
  have "p \<in> set (getFilesForSymbol ix name) \<longleftrightarrow> (\<exists>kind. (p, kind) \<in> set (tab_get (symbolToFiles ix) name))"
    by (force simp: getFilesForSymbol_def)
  then have "p \<in> set (getFilesForSymbol ix name) \<longleftrightarrow> (\<exists>e kind. ?idx p = Some e \<and> (name, kind) \<in> set (ix_symbols e))"
    unfolding symbols.tracks_member [OF tr(1)] by (fastforce simp: symbol_items_def)
  moreover have "p \<in> set (tab_get (macroToFiles ix) name) \<longleftrightarrow> (\<exists>e. ?idx p = Some e \<and> name \<in> set (ix_macros e))"
    unfolding names.tracks_member [OF tr(2)] by (auto simp: name_items_def)
  moreover have "p \<in> set (tab_get (symbolReferences ix) name) \<longleftrightarrow> (\<exists>e. ?idx p = Some e \<and> name \<in> set (ix_references e))"
    unfolding names.tracks_member [OF tr(3)] by (auto simp: name_items_def)
  moreover have "p \<in> set (tab_get (headerSymbolToFiles ix) name) \<longleftrightarrow> (\<exists>e. ?idx p = Some e \<and> name \<in> set (ix_headers e))"
    unfolding names.tracks_member [OF tr(4)] by (auto simp: name_items_def)
  moreover have "p \<in> set (tab_get (includers ix) target) \<longleftrightarrow> target \<in> set (tab_get (includedFiles ix) p)"
  proof -
    have tr: "edges.tracks (includers ix) (map_of (includedFiles ix))" using i(2) by (simp add: edges_inv_def)
    show ?thesis unfolding edges.tracks_member [OF tr]
      by (cases "map_of (includedFiles ix) p") (auto simp: edge_items_def tab_get_def [of "includedFiles ix"] image_iff)
  qed
  ultimately show ?thesis
    by (simp add: getFilesForMacro_def getFilesReferencingSymbol_def getHeadersForSymbol_def)
qed

theorem index_tables_consistent_witness:
  "\<exists>ix. index_run sample_fs [OpDocument [''/'', ''a.sv''] sample_entry, OpWatched (\<lambda>_. sample_entry) [([''/'', ''b.sv''], Created), ([''/'', ''a.sv''], Deleted)]]
      empty_indexer = Inr ix \<and> [''/'', ''b.sv''] \<in> set (getFilesForMacro ix ''M'')
      \<and> [''/'', ''a.sv''] \<notin> set (getFilesForMacro ix ''M'')"
proof -
  let ?ops = "[OpDocument [''/'', ''a.sv''] sample_entry, OpWatched (\<lambda>_. sample_entry) [([''/'', ''b.sv''], Created), ([''/'', ''a.sv''], Deleted)]]"
  obtain ix where r: "index_run sample_fs ?ops empty_indexer = Inr ix" by simp
  have "map_of (indexedFiles ix) = [[''/'', ''b.sv''] \<mapsto> sample_entry]"
  proof -
    let ?ix1 = "indexPath sample_fs [''/'', ''a.sv''] sample_entry empty_indexer"
    let ?ix2 = "removePathFromIndex sample_fs [''/'', ''a.sv''] ?ix1"
    have i1: "names_inv ?ix1" "edges_inv ?ix1" using index_inv(1,2) [OF empty_inv] by auto
    have i2: "names_inv ?ix2" "edges_inv ?ix2" using remove_inv(1,2) [OF i1] by auto
    have "ix = indexPath sample_fs [''/'', ''b.sv''] sample_entry ?ix2"
      using r by (simp add: onWorkspaceDidChangeWatchedFiles_def addDocuments_def)
    then show ?thesis
      using index_inv(3) [OF i2] remove_inv(3) [OF i1] index_inv(3) [OF empty_inv] by (simp add: empty_indexer_def)
  qed
  then show ?thesis
    using index_tables_consistent [OF r, of _ "''M''"] r by (fastforce simp: sample_entry_def)
qed



text \<open>The two ways of asking whether a path lies in an excluded directory agree: comparing the
  path with every exclusion, and walking the path's ancestors when there are many exclusions.\<close>

theorem exclusion_walk_equals_prefix_test:
  assumes "\<forall>v \<in> set vals. is_dir_string v" and "is_dir_string p"
  shows "containsDirectoryOrAncestor vals p = (\<exists>v \<in> set vals. starts_with p v)"
  using ancestor_walk_iff [of "set vals" p] assms
  by (auto simp: containsDirectoryOrAncestor_def list_ex_iff)

theorem exclusion_walk_equals_prefix_test_witness:
  "containsDirectoryOrAncestor (replicate 17 ''/w/gen/'') ''/w/gen/x/''
     = (\<exists>v \<in> set (replicate 17 ''/w/gen/''). starts_with ''/w/gen/x/'' v)"
  by (rule exclusion_walk_equals_prefix_test) (simp_all add: is_dir_string_def)

text \<open>The nearest files of a source are exactly the candidates at the least directory distance:
  every result is one of them, every canonical path among them is represented once, and the
  results come in the order of their canonical paths.\<close>

theorem nearestFiles_closest:
  assumes "weakly_canonical fs source = Some src"
  shows "sorted_wrt (<) (map (\<lambda>c. the (cand_path fs getPath c)) (nearestFiles fs source cs getPath))
    \<and> (\<forall>c \<in> set (nearestFiles fs source cs getPath). c \<in> set cs \<and>
        (\<exists>d. cand_distance fs src getPath c = Some d \<and>
          (\<forall>c' \<in> set cs. \<forall>d'. cand_distance fs src getPath c' = Some d' \<longrightarrow> d \<le> d')))
    \<and> (\<forall>c \<in> set cs. (\<exists>d. cand_distance fs src getPath c = Some d \<and>
          (\<forall>c' \<in> set cs. \<forall>d'. cand_distance fs src getPath c' = Some d' \<longrightarrow> d \<le> d')) \<longrightarrow>
        (\<exists>r \<in> set (nearestFiles fs source cs getPath). cand_path fs getPath r = cand_path fs getPath c))"
proof -
  let ?m = "least (cand_distance fs src getPath) cs None"
  let ?xs = "sort_key fst (if ?m = None then [] else candidates_at fs src getPath cs ?m)"
  have loop: "nearestFiles fs source cs getPath = first_of_each ?xs"
    using nearest_loop_eq [of None "[]" fs src getPath cs] assms by (auto simp: nearestFiles_def Let_def)
  have mem: "(p, c) \<in> set ?xs \<longleftrightarrow> c \<in> set cs \<and> ?m \<noteq> None \<and> cand_distance fs src getPath c = ?m
      \<and> p = the (cand_path fs getPath c)" for p c
    by (auto simp: candidates_at_def)
  have keys: "sorted_wrt (<) (map (\<lambda>c. the (cand_path fs getPath c)) (first_of_each ?xs))
      \<and> (\<forall>c \<in> set (first_of_each ?xs). \<exists>p. (p, c) \<in> set ?xs)"
    by (rule first_of_each_keys) (auto simp: candidates_at_def)
  have le: "?m = Some d \<Longrightarrow> \<forall>c' \<in> set cs. \<forall>d'. cand_distance fs src getPath c' = Some d' \<longrightarrow> d \<le> d'" for d
    using least_ge by fast
  have ex: "\<exists>c' \<in> set cs. cand_distance fs src getPath c' = Some d" if "?m = Some d" for d
  proof -
    have "\<exists>c' \<in> set as. dist c' = Some d" if "least dist as b = Some d" "b \<noteq> Some d" for as dist b
      using that
    proof (induction as arbitrary: b)
      case (Cons a as)
      show ?case
      proof (cases "closer b (dist a) = Some d")
        case True
        then show ?thesis using Cons.prems(2) by (cases b; cases "dist a") (auto simp: min_def split: if_splits)
      next
        case False
        then show ?thesis using Cons by auto
      qed
    qed simp
    then show ?thesis using that by blast
  qed
  have cover: "\<exists>r \<in> set (first_of_each ?xs). cand_path fs getPath r = cand_path fs getPath c"
    if c: "c \<in> set cs" "cand_distance fs src getPath c = Some d"
      "\<forall>c' \<in> set cs. \<forall>d'. cand_distance fs src getPath c' = Some d' \<longrightarrow> d \<le> d'" for c d
  proof -
    have "?m \<noteq> None"
    proof
      assume n: "?m = None"
      then show False using least_None [OF n] c by fastforce
    qed
    then obtain m where m: "?m = Some m" by auto
    then have "d = m" using ex [OF m] c(3) le [OF m] c(1,2) by (meson order_antisym)
    then have "(the (cand_path fs getPath c), c) \<in> set ?xs" using mem m c by simp
    then obtain r where r: "r \<in> set (first_of_each ?xs)" "(the (cand_path fs getPath c), r) \<in> set ?xs"
      using first_of_each_covers by metis
    then have "cand_distance fs src getPath r = Some m" "the (cand_path fs getPath c) = the (cand_path fs getPath r)"
      using mem m by auto
    then show ?thesis using r(1) c(2) by (metis bind_eq_None_conv cand_distance_def option.expand option.distinct(1))
  qed
  show ?thesis unfolding loop
  proof (intro conjI ballI impI)
    show "sorted_wrt (<) (map (\<lambda>c. the (cand_path fs getPath c)) (first_of_each ?xs))" using keys by simp
    fix c
    assume "c \<in> set (first_of_each ?xs)"
    then obtain p where "(p, c) \<in> set ?xs" using keys by blast
    then show "c \<in> set cs" and "\<exists>d. cand_distance fs src getPath c = Some d \<and>
        (\<forall>c' \<in> set cs. \<forall>d'. cand_distance fs src getPath c' = Some d' \<longrightarrow> d \<le> d')"
      using mem le by auto
  next
    fix c
    assume "c \<in> set cs" "\<exists>d. cand_distance fs src getPath c = Some d \<and>
          (\<forall>c' \<in> set cs. \<forall>d'. cand_distance fs src getPath c' = Some d' \<longrightarrow> d \<le> d')"
    then show "\<exists>r \<in> set (first_of_each ?xs). cand_path fs getPath r = cand_path fs getPath c" using cover by blast
  qed
qed

theorem nearestFiles_closest_witness:
  "sorted_wrt (<) (map (\<lambda>c. the (cand_path sample_fs Some c))
     (nearestFiles sample_fs [''/'', ''w'', ''a.sv''] [[''/'', ''w'', ''x'', ''b.sv''], [''/'', ''w'', ''c.sv'']] Some))"
  using nearestFiles_closest [of sample_fs "[''/'', ''w'', ''a.sv'']" "[''/'', ''w'', ''a.sv'']" Some
      "[[''/'', ''w'', ''x'', ''b.sv''], [''/'', ''w'', ''c.sv'']]"]
  by (simp add: sample_fs_def)

end
