(* ===== verification/DocText.thy ===== *)
theory DocText
  imports Positions
begin

text \<open>
  The text of an open document, from src/document/SlangDoc.cpp: the byte offsets of an LSP range,
  the changes of a \<open>didChange\<close> notification applied in order, and the comparison with a
  text of the client.

  The stored text ends in the NUL byte that slang keeps after every buffer.
  \<open>SourceManager::computeLineOffsets\<close> is slang's, the parameter \<open>cl\<close>;
  \<open>line_offsets_documented\<close> states what its documentation promises on texts in which no LF
  is followed by CR. The client's side of the protocol is a function of its own: it knows its
  document as a text without terminator and names places in it by line and UTF-16 column.
\<close>

section \<open>Changes\<close>

datatype content_change =
    PartialChange lsp_range string
  | WholeDocument string

abbreviation nul :: char where
  "nul \<equiv> CHR 0x00"

section \<open>Offsets of a range\<close>

text \<open>The loop that takes the line terminator off the end of a line.\<close>

fun strip_line_end :: "string \<Rightarrow> nat \<Rightarrow> nat \<Rightarrow> nat" where
  "strip_line_end text lineStart 0 = 0"
| "strip_line_end text lineStart (Suc e) =
     (if lineStart < Suc e \<and> line_end (text ! e) then strip_line_end text lineStart e else Suc e)"

definition getOffset :: "utf8_lib \<Rightarrow> nat list \<Rightarrow> string \<Rightarrow> position \<Rightarrow> nat result" where
  "getOffset L lineOffsets textView pos =
    (let n = unat (p_line pos) in
     if length lineOffsets \<le> n then Inl (RuntimeError ''line out of bounds'') else
     let lineStart = lineOffsets ! n;
         lineEnd = (if n + 1 < length lineOffsets then lineOffsets ! (n + 1) else length textView);
         stripped = strip_line_end textView lineStart lineEnd
     in case utf16ToByteOffset L (substr textView lineStart (stripped - lineStart)) (p_char pos) of
          None \<Rightarrow> Inl (RuntimeError ''column out of bounds'')
        | Some column \<Rightarrow> Inr (lineStart + column))"

definition getOffsets :: "utf8_lib \<Rightarrow> (string \<Rightarrow> nat list) \<Rightarrow> string \<Rightarrow> lsp_range \<Rightarrow> (nat \<times> nat) result" where
  "getOffsets L cl textView rg =
    (case getOffset L (cl textView) textView (r_start rg) of
       Inl e \<Rightarrow> Inl e
     | Inr i \<Rightarrow> (case getOffset L (cl textView) textView (r_end rg) of
         Inl e \<Rightarrow> Inl e
       | Inr j \<Rightarrow> (if j < i \<or> length textView \<le> j then Inl (RuntimeError ''Range out of bounds'')
                   else Inr (i, j))))"

definition ensureNullTerminated :: "string \<Rightarrow> string" where
  "ensureNullTerminated buffer = (if buffer = [] \<or> last buffer \<noteq> nul then buffer @ [nul] else buffer)"

section \<open>Applying changes\<close>

text \<open>The first change copies around the range; the others edit the buffer in place.\<close>

definition apply_first :: "utf8_lib \<Rightarrow> (string \<Rightarrow> nat list) \<Rightarrow> string \<Rightarrow> content_change \<Rightarrow> string result" where
  "apply_first L cl textView change = (case change of
     PartialChange rg new \<Rightarrow> map_sum id
       (\<lambda>(i, j). ensureNullTerminated (take i textView @ new @ drop j textView)) (getOffsets L cl textView rg)
   | WholeDocument new \<Rightarrow> Inr (ensureNullTerminated new))"

definition apply_next :: "utf8_lib \<Rightarrow> (string \<Rightarrow> nat list) \<Rightarrow> string \<Rightarrow> content_change \<Rightarrow> string result" where
  "apply_next L cl buffer change = (case change of
     PartialChange rg new \<Rightarrow> (case getOffsets L cl buffer rg of
         Inl e \<Rightarrow> Inl e
       | Inr (i, j) \<Rightarrow>
          (let erased = (if i < j then take i buffer @ drop j buffer else buffer)
           in Inr (take i erased @ new @ drop i erased)))
   | WholeDocument new \<Rightarrow> Inr (ensureNullTerminated new))"

fun apply_rest :: "utf8_lib \<Rightarrow> (string \<Rightarrow> nat list) \<Rightarrow> string \<Rightarrow> content_change list \<Rightarrow> string result" where
  "apply_rest L cl buffer [] = Inr buffer"
| "apply_rest L cl buffer (c # cs) = (case apply_next L cl buffer c of
     Inl e \<Rightarrow> Inl e | Inr buffer' \<Rightarrow> apply_rest L cl buffer' cs)"

text \<open>No change at all leaves the document as it is, with an error in the log.\<close>

definition changed_text :: "utf8_lib \<Rightarrow> (string \<Rightarrow> nat list) \<Rightarrow> string \<Rightarrow> content_change list \<Rightarrow> string option result" where
  "changed_text L cl textView changes = (case changes of
     [] \<Rightarrow> Inr None
   | c # cs \<Rightarrow> (case apply_first L cl textView c of
       Inl e \<Rightarrow> Inl e | Inr buffer \<Rightarrow> map_sum id Some (apply_rest L cl buffer cs)))"

text \<open>\<open>memcmp\<close> also reads the byte after the client's text: the NUL that ends every
  \<open>std::string\<close>.\<close>

definition textMatches :: "string \<Rightarrow> string \<Rightarrow> bool" where
  "textMatches bufText str \<longleftrightarrow> length bufText = length str + 1 \<and> bufText = str @ [nul]"

section \<open>The client's side\<close>

text \<open>Where lines start by the protocol: after LF, CR LF, or CR.\<close>

fun line_starts_from :: "nat \<Rightarrow> string \<Rightarrow> nat list" where
  "line_starts_from i [] = []"
| "line_starts_from i (c # s) =
    (if c = CHR 0x0A \<or> c = CHR 0x0D \<and> (s = [] \<or> hd s \<noteq> CHR 0x0A) then [i + 1] else [])
    @ line_starts_from (i + 1) s"

definition line_starts :: "string \<Rightarrow> nat list" where
  "line_starts s = 0 # line_starts_from 0 s"

fun no_lf_cr :: "string \<Rightarrow> bool" where
  "no_lf_cr (c # d # s) \<longleftrightarrow> \<not> (c = CHR 0x0A \<and> d = CHR 0x0D) \<and> no_lf_cr (d # s)"
| "no_lf_cr s \<longleftrightarrow> True"

definition line_offsets_documented :: "(string \<Rightarrow> nat list) \<Rightarrow> bool" where
  "line_offsets_documented cl \<longleftrightarrow> (\<forall>t. no_lf_cr t \<longrightarrow> cl t = line_starts t)"

text \<open>The place of a byte offset: the number of the last line that starts at or before it, and
  the UTF-16 length of what precedes it on that line.\<close>

definition line_index :: "string \<Rightarrow> nat \<Rightarrow> nat" where
  "line_index s i = length (takeWhile (\<lambda>start. start \<le> i) (line_starts s)) - 1"

definition line_text :: "string \<Rightarrow> nat \<Rightarrow> string" where
  "line_text s n = takeWhile (\<lambda>c. \<not> line_end c) (drop (line_starts s ! n) s)"

definition place_of :: "utf8_lib \<Rightarrow> string \<Rightarrow> nat \<Rightarrow> position" where
  "place_of L d i = (let n = line_index d i; ls = line_starts d ! n in
     \<lparr>p_line = of_nat n, p_char = utf16Length L (substr d ls (i - ls))\<rparr>)"

text \<open>The offsets that have a place: inside the line, not between the bytes of a character nor
  behind the first byte of a terminator.\<close>

definition addressable :: "utf8_lib \<Rightarrow> string \<Rightarrow> nat \<Rightarrow> bool" where
  "addressable L d i \<longleftrightarrow> i \<le> length d \<and>
     boundary L (line_text (d @ [nul]) (line_index d i)) (i - line_starts d ! line_index d i)"

text \<open>An edit as the client makes it, and the change it sends for it.\<close>

datatype client_edit =
    ReplaceBytes nat nat string
  | ReplaceAll string

fun client_apply :: "client_edit \<Rightarrow> string \<Rightarrow> string" where
  "client_apply (ReplaceBytes i j new) d = take i d @ new @ drop j d"
| "client_apply (ReplaceAll new) d = new"

fun change_of :: "utf8_lib \<Rightarrow> string \<Rightarrow> client_edit \<Rightarrow> content_change" where
  "change_of L d (ReplaceBytes i j new) = PartialChange \<lparr>r_start = place_of L d i, r_end = place_of L d j\<rparr> new"
| "change_of L d (ReplaceAll new) = WholeDocument new"

text \<open>A text the server can hold.\<close>

definition plain_text :: "string \<Rightarrow> bool" where
  "plain_text d \<longleftrightarrow> nul \<notin> set d \<and> no_lf_cr d \<and> length d + 1 < 2 ^ 32"

fun edit_ok :: "utf8_lib \<Rightarrow> string \<Rightarrow> client_edit \<Rightarrow> bool" where
  "edit_ok L d (ReplaceBytes i j new) \<longleftrightarrow> i \<le> j \<and> addressable L d i \<and> addressable L d j"
| "edit_ok L d (ReplaceAll new) \<longleftrightarrow> True"

fun edits_ok :: "utf8_lib \<Rightarrow> string \<Rightarrow> client_edit list \<Rightarrow> bool" where
  "edits_ok L d [] \<longleftrightarrow> plain_text d"
| "edits_ok L d (e # es) \<longleftrightarrow> plain_text d \<and> edit_ok L d e \<and> edits_ok L (client_apply e d) es"

text \<open>The changes of one notification, each computed on the document the one before it left.\<close>

fun changes_of :: "utf8_lib \<Rightarrow> string \<Rightarrow> client_edit list \<Rightarrow> content_change list" where
  "changes_of L d [] = []"
| "changes_of L d (e # es) = change_of L d e # changes_of L (client_apply e d) es"

section \<open>Lines\<close>

lemma line_starts_from_mem:
  "b \<in> set (line_starts_from k s) \<longleftrightarrow> (\<exists>m < length s. b = k + m + 1 \<and>
     (s ! m = CHR 0x0A \<or> s ! m = CHR 0x0D \<and> (m + 1 = length s \<or> s ! (m + 1) \<noteq> CHR 0x0A)))"
proof (induction k s rule: line_starts_from.induct)
  case (2 k c s)
  show ?case (is "?l \<longleftrightarrow> ?r")
  proof
    assume ?l
    then consider "b = k + 1" "c = CHR 0x0A \<or> c = CHR 0x0D \<and> (s = [] \<or> hd s \<noteq> CHR 0x0A)"
      | "b \<in> set (line_starts_from (k + 1) s)" by (auto split: if_splits)
    then show ?r
    proof cases
      case 1
      then show ?thesis by (intro exI [of _ 0]) (cases s; auto)
    next
      case m: 2
      then obtain m where "m < length s" "b = k + 1 + m + 1"
        "s ! m = CHR 0x0A \<or> s ! m = CHR 0x0D \<and> (m + 1 = length s \<or> s ! (m + 1) \<noteq> CHR 0x0A)"
        using "2.IH" by auto
      then show ?thesis by (intro exI [of _ "Suc m"]) auto
    qed
  next
    assume ?r
    then obtain m where m: "m < Suc (length s)" "b = k + m + 1"
      "(c # s) ! m = CHR 0x0A \<or> (c # s) ! m = CHR 0x0D \<and> (m = length s \<or> s ! m \<noteq> CHR 0x0A)" by auto
    show ?l
    proof (cases m)
      case 0
      then show ?thesis using m by (cases s) auto
    next
      case (Suc m')
      then have "b \<in> set (line_starts_from (k + 1) s)"
        unfolding "2.IH" using m by (intro exI [of _ m']) auto
      then show ?thesis by simp
    qed
  qed
qed simp

lemma line_starts_from_sorted: "sorted_wrt (<) (line_starts_from k s) \<and> (\<forall>b \<in> set (line_starts_from k s). k < b)"
proof (induction k s rule: line_starts_from.induct)
  case (2 k c s)
  then show ?case by (auto simp: sorted_wrt_append)
qed simp

lemma line_starts_sorted: "sorted_wrt (<) (line_starts s)"
  using line_starts_from_sorted [of 0 s] by (simp add: line_starts_def)

lemma line_starts_mem: "b \<in> set (line_starts s) \<longleftrightarrow> b = 0 \<or> (0 < b \<and> b \<le> length s \<and>
    (s ! (b - 1) = CHR 0x0A \<or> s ! (b - 1) = CHR 0x0D \<and> (b = length s \<or> s ! b \<noteq> CHR 0x0A)))"
  by (cases b) (auto simp: line_starts_def line_starts_from_mem)

lemma line_starts_from_length: "length (line_starts_from k s) \<le> length s"
  by (induction k s rule: line_starts_from.induct) auto

lemma line_starts_from_nul: "line_starts_from k (d @ [nul]) = line_starts_from k d"
proof (induction k d rule: line_starts_from.induct)
  case (2 k c s)
  then show ?case by (cases s) auto
qed simp

lemma line_starts_nul: "line_starts (d @ [nul]) = line_starts d"
  by (simp add: line_starts_def line_starts_from_nul)

lemma no_lf_cr_nul: "no_lf_cr (d @ [nul]) = no_lf_cr d"
  by (induction d rule: no_lf_cr.induct) simp_all

lemma line_index_props:
  shows "line_index s i < length (line_starts s)"
    and "line_starts s ! line_index s i \<le> i"
    and "line_index s i + 1 < length (line_starts s) \<Longrightarrow> i < line_starts s ! (line_index s i + 1)"
proof -
  let ?xs = "line_starts s" and ?w = "takeWhile (\<lambda>start. start \<le> i) (line_starts s)"
  have ne: "?w \<noteq> []" by (simp add: line_starts_def)
  then have n: "line_index s i < length ?w" by (simp add: line_index_def)
  then show "line_index s i < length ?xs" using length_takeWhile_le [of "\<lambda>start. start \<le> i" ?xs] by linarith
  show "?xs ! line_index s i \<le> i"
    using nth_mem [OF n] set_takeWhileD n by (metis takeWhile_nth)
  assume "line_index s i + 1 < length ?xs"
  then have "length ?w < length ?xs" using ne by (simp add: line_index_def)
  then have "\<not> ?xs ! length ?w \<le> i" by (rule nth_length_takeWhile)
  then show "i < ?xs ! (line_index s i + 1)" using ne by (simp add: line_index_def)
qed

text \<open>Between two line starts there is no other; behind the last one there is none.\<close>

lemma next_line_start:
  assumes "n < length (line_starts s)" "b \<in> set (line_starts s)" "line_starts s ! n < b"
  shows "n + 1 < length (line_starts s)" "line_starts s ! (n + 1) \<le> b"
proof -
  obtain m where m: "m < length (line_starts s)" "b = line_starts s ! m" using assms(2) by (metis in_set_conv_nth)
  have "n < m" using assms(1,3) m line_starts_sorted [of s]
    by (metis linorder_neqE_nat not_less_iff_gr_or_eq sorted_wrt_nth_less)
  then show "n + 1 < length (line_starts s)" using m by simp
  then show "line_starts s ! (n + 1) \<le> b"
    using \<open>n < m\<close> m line_starts_sorted [of s]
    by (metis Suc_eq_plus1 Suc_leI le_neq_implies_less less_imp_le order_refl sorted_wrt_nth_less)
qed

section \<open>The range of a place\<close>

lemma strip_line_end_eq:
  assumes "a \<le> e" "e \<le> b" "\<And>p. e \<le> p \<Longrightarrow> p < b \<Longrightarrow> line_end (text ! p)"
    and "e = a \<or> \<not> line_end (text ! (e - 1))"
  shows "strip_line_end text a b = e"
  using assms
proof (induction b)
  case (Suc b)
  show ?case
  proof (cases "e = Suc b")
    case True
    then show ?thesis using Suc.prems(4) by auto
  next
    case False
    then have "e \<le> b" using Suc.prems(2) by simp
    moreover have "line_end (text ! b)" using Suc.prems(2,3) False by (simp add: le_Suc_eq)
    ultimately show ?thesis using Suc by simp
  qed
qed simp

text \<open>Every line of a text that ends in NUL is its content and then its terminator.\<close>

lemma line_content_end:
  fixes d :: string
  defines "t \<equiv> d @ [nul]"
  assumes n: "n < length (line_starts t)" and plain: "no_lf_cr t"
  defines "a \<equiv> line_starts t ! n"
  defines "b \<equiv> (if n + 1 < length (line_starts t) then line_starts t ! (n + 1) else length t)"
  shows "strip_line_end t a b = a + length (line_text t n)" "a + length (line_text t n) \<le> length t"
proof -
  let ?e = "a + length (line_text t n)"
  have am: "a \<in> set (line_starts t)" unfolding a_def using n by simp
  then have al: "a \<le> length t" by (auto simp: line_starts_mem)
  have tl: "line_text t n = takeWhile (\<lambda>c. \<not> line_end c) (drop a t)" by (simp add: line_text_def a_def)
  have el: "?e \<le> length t"
    using length_takeWhile_le [of "\<lambda>c. \<not> line_end c" "drop a t"] al by (simp add: tl)
  then show "?e \<le> length t" .
  have before: "\<not> line_end (t ! p)" if "a \<le> p" "p < ?e" for p
  proof -
    have k: "p - a < length (takeWhile (\<lambda>c. \<not> line_end c) (drop a t))" using that by (simp add: tl)
    then have "takeWhile (\<lambda>c. \<not> line_end c) (drop a t) ! (p - a) = t ! p"
      using that al el by (simp add: takeWhile_nth tl)
    then show ?thesis using nth_mem [OF k] set_takeWhileD by fastforce
  qed
  have at: "line_end (t ! ?e)" if "?e < length t"
    using nth_length_takeWhile [of "\<lambda>c. \<not> line_end c" "drop a t"] that al by (simp add: tl)
  text \<open>A line terminator at \<open>p\<close> makes a line start one or two bytes on.\<close>
  have next_start: "(p + 1 \<in> set (line_starts t)) \<or> (t ! p = CHR 0x0D \<and> t ! (p + 1) = CHR 0x0A \<and> p + 2 \<in> set (line_starts t))"
    if "line_end (t ! p)" "p < length t" for p
  proof -
    have "p + 1 < length t" using that by (auto simp: t_def nth_append split: if_splits)
    then show ?thesis using that by (auto simp: line_starts_mem)
  qed
  have starts: "b \<le> q" if "q \<in> set (line_starts t)" "a < q" for q
    using next_line_start [OF n that(1)] that(2) by (simp add: a_def b_def)
  have bl: "b \<le> length t"
  proof (cases "n + 1 < length (line_starts t)")
    case True
    then have "b \<in> set (line_starts t)" by (simp add: b_def)
    then show ?thesis by (auto simp: line_starts_mem)
  qed (simp add: b_def)
  have eb: "?e \<le> b"
  proof (cases "n + 1 < length (line_starts t)")
    case True
    then have bm: "b \<in> set (line_starts t)" and ab: "a < b"
      using sorted_wrt_nth_less [OF line_starts_sorted, of n "n + 1" t] by (simp_all add: b_def a_def)
    then have "line_end (t ! (b - 1))" by (auto simp: line_starts_mem)
    then have "\<not> (a \<le> b - 1 \<and> b - 1 < ?e)" using before by blast
    then show ?thesis using ab by linarith
  qed (use el in \<open>simp add: b_def\<close>)
  have "line_end (t ! p)" if p: "?e \<le> p" "p < b" for p
  proof -
    have e: "line_end (t ! ?e)" "?e < length t" using at p bl by auto
    from next_start [OF e] show ?thesis
    proof
      assume "?e + 1 \<in> set (line_starts t)"
      then have "b \<le> ?e + 1" using starts by simp
      then show ?thesis using p e(1) by (metis Suc_eq_plus1 le_antisym less_Suc_eq_le order_less_le_trans)
    next
      assume c: "t ! ?e = CHR 0x0D \<and> t ! (?e + 1) = CHR 0x0A \<and> ?e + 2 \<in> set (line_starts t)"
      then have "b \<le> ?e + 2" using starts by simp
      then have "p = ?e \<or> p = ?e + 1" using p by linarith
      then show ?thesis using c by auto
    qed
  qed
  moreover have "?e = a \<or> \<not> line_end (t ! (?e - 1))"
  proof (cases "line_text t n")
    case (Cons c cs)
    then show ?thesis using before [of "?e - 1"] by simp
  qed simp
  ultimately show "strip_line_end t a b = ?e" using eb by (intro strip_line_end_eq) auto
qed

lemma getOffset_place:
  assumes L: "utf8_lib_ok L" and cl: "line_offsets_documented cl" and plain: "plain_text d"
    and i: "addressable L d i"
  shows "getOffset L (cl (d @ [nul])) (d @ [nul]) (place_of L d i) = Inr i"
proof -
  let ?t = "d @ [nul]" and ?n = "line_index d i"
  let ?a = "line_starts d ! ?n" and ?w = "line_text (d @ [nul]) (line_index d i)"
  have nl: "no_lf_cr ?t" using plain by (simp add: plain_text_def no_lf_cr_nul)
  then have offs: "cl ?t = line_starts d" using cl by (simp add: line_offsets_documented_def line_starts_nul)
  have n: "?n < length (line_starts d)" "?a \<le> i" using line_index_props by auto
  have len: "length (line_starts d) \<le> length d + 1"
    using line_starts_from_length [of 0 d] by (simp add: line_starts_def)
  then have un: "unat (of_nat ?n :: u32) = ?n" using n plain by (simp add: plain_text_def unat_of_nat)
  note c = line_content_end [of ?n d, unfolded line_starts_nul, OF n(1) nl]
  have sub: "substr ?t ?a (length ?w) = ?w"
    unfolding substr_def line_text_def line_starts_nul
    by (metis takeWhile_eq_take)
  have b: "boundary L ?w (i - ?a)" and il: "i \<le> length d" using i by (simp_all add: addressable_def)
  have ik: "i - ?a \<le> length ?w" using boundary_le [OF L b] .
  have "length ?w < 2 ^ 32" using c(2) plain by (simp add: plain_text_def)
  then have ok: "line_ok L ?w" using L by (simp add: line_ok_def)
  have "substr d ?a (i - ?a) = take (i - ?a) (substr ?t ?a (length ?w))"
    using ik il n(2) by (simp add: substr_def min_absorb1)
  then have "p_char (place_of L d i) = utf16Length L (take (i - ?a) ?w)"
    by (simp add: place_of_def Let_def sub)
  then have "utf16ToByteOffset L ?w (p_char (place_of L d i)) = Some (i - ?a)"
    using utf16.off_complete [OF ok b] by simp
  moreover have "unat (p_line (place_of L d i)) = ?n" by (simp add: place_of_def Let_def un)
  ultimately show ?thesis
    using n c(1) by (simp add: getOffset_def offs Let_def sub)
qed

section \<open>Edits of the client\<close>

lemma getOffsets_places:
  assumes "utf8_lib_ok L" "line_offsets_documented cl" "plain_text d"
    and "i \<le> j" "addressable L d i" "addressable L d j"
  shows "getOffsets L cl (d @ [nul]) \<lparr>r_start = place_of L d i, r_end = place_of L d j\<rparr> = Inr (i, j)"
proof -
  have "j \<le> length d" using assms(6) by (simp add: addressable_def)
  then show ?thesis
    using getOffset_place [OF assms(1,2,3,5)] getOffset_place [OF assms(1,2,3,6)] assms(4)
    by (simp add: getOffsets_def)
qed

lemma ensureNull_plain: "nul \<notin> set d \<Longrightarrow> ensureNullTerminated d = d @ [nul]"
  by (auto simp: ensureNullTerminated_def dest: last_in_set)

lemma ensureNull_stored [simp]: "ensureNullTerminated (d @ [nul]) = d @ [nul]"
  by (simp add: ensureNullTerminated_def)

lemma apply_edit:
  assumes ok: "utf8_lib_ok L" "line_offsets_documented cl" "plain_text d" and e: "edit_ok L d e"
    and plain': "plain_text (client_apply e d)"
  shows "apply_first L cl (d @ [nul]) (change_of L d e) = Inr (client_apply e d @ [nul])"
    and "apply_next L cl (d @ [nul]) (change_of L d e) = Inr (client_apply e d @ [nul])"
proof -
  have "apply_first L cl (d @ [nul]) (change_of L d e) = Inr (client_apply e d @ [nul])
    \<and> apply_next L cl (d @ [nul]) (change_of L d e) = Inr (client_apply e d @ [nul])"
  proof (cases e)
    case (ReplaceBytes i j new)
    then have le: "i \<le> j" "j \<le> length d" and g: "getOffsets L cl (d @ [nul])
        \<lparr>r_start = place_of L d i, r_end = place_of L d j\<rparr> = Inr (i, j)"
      using e getOffsets_places [OF ok] by (auto simp: addressable_def)
    then have "ensureNullTerminated (take i (d @ [nul]) @ new @ drop j (d @ [nul])) = take i d @ new @ drop j d @ [nul]"
      using ensureNull_stored [of "take i d @ new @ drop j d"] by simp
    then show ?thesis using ReplaceBytes le g by (auto simp: apply_first_def apply_next_def)
  next
    case (ReplaceAll new)
    then show ?thesis using plain'
      by (simp add: apply_first_def apply_next_def plain_text_def ensureNull_plain)
  qed
  then show "apply_first L cl (d @ [nul]) (change_of L d e) = Inr (client_apply e d @ [nul])"
    "apply_next L cl (d @ [nul]) (change_of L d e) = Inr (client_apply e d @ [nul])" by auto
qed

lemma edits_ok_plain: "edits_ok L d es \<Longrightarrow> plain_text d"
  by (cases es) auto

lemma apply_rest_edits:
  assumes "utf8_lib_ok L" "line_offsets_documented cl"
  shows "edits_ok L d es \<Longrightarrow>
    apply_rest L cl (d @ [nul]) (changes_of L d es) = Inr (fold client_apply es d @ [nul])"
proof (induction es arbitrary: d)
  case (Cons e es)
  then show ?case
    using apply_edit(2) [OF assms, of d e] edits_ok_plain [of L "client_apply e d" es] by simp
qed simp

lemma changed_text_edits:
  assumes "utf8_lib_ok L" "line_offsets_documented cl" "edits_ok L d es" "es \<noteq> []"
  shows "changed_text L cl (d @ [nul]) (changes_of L d es) = Inr (Some (fold client_apply es d @ [nul]))"
proof (cases es)
  case (Cons e es')
  then show ?thesis
    using assms(3) apply_edit(1) [OF assms(1,2), of d e] apply_rest_edits [OF assms(1,2), of "client_apply e d" es']
      edits_ok_plain [of L "client_apply e d" es']
    by (simp add: changed_text_def)
qed (use assms(4) in simp)

text \<open>Whatever the changes, the terminator stays.\<close>

lemma ensureNull_terminated: "ensureNullTerminated b \<noteq> [] \<and> last (ensureNullTerminated b) = nul"
  by (simp add: ensureNullTerminated_def)

lemma apply_first_terminated: "apply_first L cl t c = Inr b \<Longrightarrow> b \<noteq> [] \<and> last b = nul"
proof (cases c)
  case (PartialChange rg new)
  assume "apply_first L cl t c = Inr b"
  then show ?thesis
    using PartialChange ensureNull_terminated
    by (cases "getOffsets L cl t rg") (auto simp: apply_first_def)
next
  case (WholeDocument new)
  assume "apply_first L cl t c = Inr b"
  then show ?thesis using WholeDocument ensureNull_terminated by (auto simp: apply_first_def)
qed

lemma getOffsets_bounds: "getOffsets L cl t rg = Inr (i, j) \<Longrightarrow> i \<le> j \<and> j < length t"
  by (auto simp: getOffsets_def split: sum.splits if_splits)

lemma apply_next_terminated:
  assumes "apply_next L cl t c = Inr t'" "t \<noteq> []" "last t = nul"
  shows "t' \<noteq> [] \<and> last t' = nul"
proof (cases c)
  case (PartialChange rg new)
  then obtain i j where g: "getOffsets L cl t rg = Inr (i, j)"
    using assms(1) by (auto simp: apply_next_def split: sum.splits)
  note b = getOffsets_bounds [OF g]
  then have "t' = take i t @ new @ drop j t"
    using assms(1) PartialChange g by (auto simp: apply_next_def Let_def)
  then show ?thesis using b assms(3) by simp
next
  case (WholeDocument new)
  then show ?thesis using assms(1) ensureNull_terminated [of new] by (auto simp: apply_next_def)
qed

lemma apply_rest_terminated:
  "apply_rest L cl t cs = Inr t' \<Longrightarrow> t \<noteq> [] \<Longrightarrow> last t = nul \<Longrightarrow> t' \<noteq> [] \<and> last t' = nul"
  by (induction cs arbitrary: t) (auto split: sum.splits dest: apply_next_terminated)

lemma sample_boundary: "boundary sample_utf8 s (length s)"
  using boundary_iff [of sample_utf8 s "length s"] nbytes_segs [OF sample_utf8_ok, of s] by auto

section \<open>Properties\<close>

text \<open>C6. The server follows the client's edits: for every sequence of edits of a document, the
  changes the client sends for them, ranges in lines and UTF-16 columns, give on the server
  exactly the client's text with its terminator, and the comparison on save then succeeds.\<close>

theorem changes_follow_client:
  assumes "utf8_lib_ok L" and "line_offsets_documented cl" and "edits_ok L d es" and "es \<noteq> []"
  shows "\<exists>t. changed_text L cl (d @ [nul]) (changes_of L d es) = Inr (Some t)
    \<and> textMatches t (fold client_apply es d)"
  using changed_text_edits [OF assms] by (simp add: textMatches_def)

theorem changes_follow_client_witness:
  "\<exists>t. changed_text sample_utf8 line_starts (''ab'' @ [CHR 0x0A, nul])
      (changes_of sample_utf8 (''ab'' @ [CHR 0x0A]) [ReplaceBytes 1 2 ''x'']) = Inr (Some t)
    \<and> textMatches t (''ax'' @ [CHR 0x0A])"
proof -
  have "addressable sample_utf8 (''ab'' @ [CHR 0x0A]) 1 \<and> addressable sample_utf8 (''ab'' @ [CHR 0x0A]) 2"
    by code_simp
  then have "edits_ok sample_utf8 (''ab'' @ [CHR 0x0A]) [ReplaceBytes 1 2 ''x'']"
    by (simp add: plain_text_def)
  then show ?thesis
    using changes_follow_client [OF sample_utf8_ok, of line_starts "''ab'' @ [CHR 0x0A]" "[ReplaceBytes 1 2 ''x'']"]
    by (simp add: line_offsets_documented_def)
qed

text \<open>Whatever a client sends, a notification that is accepted leaves a text that still ends
  in its terminator; positions outside the text are rejected as errors instead.\<close>

theorem changes_keep_terminator:
  assumes "changed_text L cl t changes = Inr (Some t')"
  shows "t' \<noteq> [] \<and> last t' = nul"
proof (cases changes)
  case (Cons c cs)
  then obtain b where b: "apply_first L cl t c = Inr b" "map_sum id Some (apply_rest L cl b cs) = Inr (Some t')"
    using assms by (auto simp: changed_text_def split: sum.splits)
  have r: "apply_rest L cl b cs = Inr t'" using b(2) by (cases "apply_rest L cl b cs") auto
  from b have "b \<noteq> [] \<and> last b = nul"
    using apply_first_terminated by blast
  then show ?thesis using apply_rest_terminated [OF r] by simp
qed (use assms in \<open>simp add: changed_text_def\<close>)

theorem changes_keep_terminator_witness:
  "last (''new'' @ [nul]) = nul"
  using changes_keep_terminator [of sample_utf8 line_starts "[nul]" "[WholeDocument ''new'']" "''new'' @ [nul]"]
  by (simp add: changed_text_def apply_first_def ensureNullTerminated_def)

end
