(* ===== verification/DocSync.thy ===== *)
theory DocSync
  imports DocText Indexer
begin

text \<open>
  The documents of a driver and their buffers, from src/ServerDriver.cpp (\<open>openDocument\<close>,
  \<open>getDocument\<close>, \<open>onDocDidChange\<close>, \<open>closeDocument\<close>, \<open>onWorkspaceDidChangeWatchedFiles\<close>,
  \<open>copyOpenDocumentsFrom\<close>), src/document/SlangDoc.cpp (\<open>fromText\<close>, \<open>open\<close>, \<open>onChange\<close>,
  \<open>reloadBuffer\<close>, the buffers \<open>getSyntaxTree\<close> switches to) and the save handler of
  src/SlangServer.cpp. Trees, analyses and diagnostics are left out: what is followed here is which
  buffer a document has and what text is in it.

  slang's \<open>SourceManager\<close> is the parameter \<open>S\<close>, a record of its members over a state of its
  own; \<open>store_ok\<close> states what is documented of them: a buffer keeps its path and text, a
  replaced or reloaded path has a new buffer, and \<open>readSource\<close> gives the current one.
  \<open>getSyntaxTree\<close> runs at many points and depends on parses, so it is a step relation with a
  rule for every assignment of \<open>m_buffer\<close>.
\<close>

section \<open>The source manager\<close>

record 's store_lib =
  st_canon :: "string \<Rightarrow> string"
  st_valid :: "'s \<Rightarrow> nat \<Rightarrow> bool"
  st_text :: "'s \<Rightarrow> nat \<Rightarrow> string"
  st_path :: "'s \<Rightarrow> nat \<Rightarrow> string"
  st_current :: "'s \<Rightarrow> string \<Rightarrow> string option"
  st_cached :: "'s \<Rightarrow> string \<Rightarrow> bool"
  st_read :: "'s \<Rightarrow> string \<Rightarrow> (nat \<times> 's) option"
  st_replace :: "'s \<Rightarrow> nat \<Rightarrow> string \<Rightarrow> nat \<times> 's"
  st_assign :: "'s \<Rightarrow> string \<Rightarrow> string \<Rightarrow> nat \<times> 's"
  st_reload :: "'s \<Rightarrow> nat \<Rightarrow> (nat \<times> 's) option"
  st_includes :: "'s \<Rightarrow> string \<Rightarrow> nat set"

text \<open>All but the buffers of some paths stays as it was.\<close>

definition untouched :: "'s store_lib \<Rightarrow> 's \<Rightarrow> 's \<Rightarrow> string set \<Rightarrow> bool" where
  "untouched S s s' X \<longleftrightarrow>
     (\<forall>p. p \<notin> X \<longrightarrow> st_current S s' p = st_current S s p) \<and>
     (\<forall>b. st_valid S s b \<longrightarrow> st_path S s b \<notin> X \<longrightarrow>
        st_valid S s' b \<and> st_path S s' b = st_path S s b \<and> st_text S s' b = st_text S s b)"

definition fresh_buffer :: "'s store_lib \<Rightarrow> 's \<Rightarrow> 's \<Rightarrow> nat \<Rightarrow> string \<Rightarrow> string \<Rightarrow> bool" where
  "fresh_buffer S s s' b p t \<longleftrightarrow> st_valid S s' b \<and> st_path S s' b = p \<and> st_text S s' b = t \<and>
     st_current S s' p = Some t \<and> untouched S s s' {p}"

definition read_ok :: "'s store_lib \<Rightarrow> 's \<Rightarrow> 's \<Rightarrow> nat \<Rightarrow> string \<Rightarrow> bool" where
  "read_ok S s s' b p \<longleftrightarrow> st_valid S s' b \<and> st_path S s' b = p \<and>
     st_current S s' p = Some (st_text S s' b) \<and> st_text S s' b \<noteq> [] \<and> last (st_text S s' b) = nul \<and>
     untouched S s s' (if st_current S s p = None then {p} else {})"

definition store_ok :: "'s store_lib \<Rightarrow> bool" where
  "store_ok S \<longleftrightarrow>
     (\<forall>s p. st_cached S s p \<longleftrightarrow> st_current S s (st_canon S p) \<noteq> None) \<and>
     (\<forall>s p. st_cached S s p \<longrightarrow> st_read S s p \<noteq> None) \<and>
     (\<forall>s p b s'. st_read S s p = Some (b, s') \<longrightarrow> read_ok S s s' b (st_canon S p)) \<and>
     (\<forall>s b t b' s'. st_valid S s b \<longrightarrow> t \<noteq> [] \<and> last t = nul \<longrightarrow> st_replace S s b t = (b', s') \<longrightarrow>
        fresh_buffer S s s' b' (st_path S s b) t) \<and>
     (\<forall>s p t b s'. st_assign S s p t = (b, s') \<longrightarrow> fresh_buffer S s s' b p (t @ [nul])) \<and>
     (\<forall>s b b' s'. st_valid S s b \<longrightarrow> st_reload S s b = Some (b', s') \<longrightarrow>
        (\<exists>t. fresh_buffer S s s' b' (st_path S s b) t)) \<and>
     (\<forall>s p b. b \<in> st_includes S s p \<longrightarrow>
        st_valid S s b \<and> st_path S s b = p \<and> st_current S s p = Some (st_text S s b))"

section \<open>Documents\<close>

record sync_doc =
  sd_uri :: uri
  sd_buffer :: nat

record 's driver =
  drv_docs :: "(uri \<times> sync_doc) list"
  drv_open :: "uri list"
  drv_build :: "uri list"
  drv_store :: 's

definition getText :: "'s store_lib \<Rightarrow> 's driver \<Rightarrow> sync_doc \<Rightarrow> string" where
  "getText S D doc = st_text S (drv_store D) (sd_buffer doc)"

text \<open>\<open>std::expected::value()\<close> of a failed read throws.\<close>

definition doc_open :: "'s store_lib \<Rightarrow> uri \<Rightarrow> 's \<Rightarrow> (sync_doc \<times> 's) result" where
  "doc_open S u s = (case st_read S s (uri_path u) of
     None \<Rightarrow> Inl (RuntimeError ''bad expected access'')
   | Some (b, s') \<Rightarrow> Inr (\<lparr>sd_uri = u, sd_buffer = b\<rparr>, s'))"

definition fromText :: "'s store_lib \<Rightarrow> uri \<Rightarrow> string \<Rightarrow> 's \<Rightarrow> (sync_doc \<times> 's) result" where
  "fromText S u text0 s = (let p = st_canon S (uri_path u) in
     if st_cached S s p then
       (case st_read S s p of
          None \<Rightarrow> Inl (RuntimeError ''bad expected access'')
        | Some (b, s1) \<Rightarrow>
            (if length (st_text S s1 b) = length text0 + 1 \<and> take (length text0) (st_text S s1 b) = text0
             then Inr (\<lparr>sd_uri = u, sd_buffer = b\<rparr>, s1)
             else (case st_replace S s1 b (ensureNullTerminated text0) of
                 (b', s2) \<Rightarrow> Inr (\<lparr>sd_uri = u, sd_buffer = b'\<rparr>, s2))))
     else (case st_assign S s p text0 of (b, s1) \<Rightarrow> Inr (\<lparr>sd_uri = u, sd_buffer = b\<rparr>, s1)))"

section \<open>Handlers of the driver\<close>

definition put_doc :: "uri \<Rightarrow> sync_doc \<Rightarrow> 's driver \<Rightarrow> 's driver" where
  "put_doc u doc D = D\<lparr>drv_docs := AList.update u doc (drv_docs D)\<rparr>"

definition getDocument :: "'s store_lib \<Rightarrow> uri \<Rightarrow> 's driver \<Rightarrow> (sync_doc \<times> 's driver) result" where
  "getDocument S u D = (case map_of (drv_docs D) u of
     Some doc \<Rightarrow> Inr (doc, D)
   | None \<Rightarrow> (case doc_open S u (drv_store D) of
       Inl e \<Rightarrow> Inl e
     | Inr (doc, s') \<Rightarrow> Inr (doc, put_doc u doc (D\<lparr>drv_store := s'\<rparr>))))"

text \<open>The document that already has the client's text: an open one, or a file of the build.\<close>

definition matching_doc :: "'s store_lib \<Rightarrow> uri \<Rightarrow> string \<Rightarrow> 's driver \<Rightarrow> (bool \<times> 's driver) result" where
  "matching_doc S u text0 D = (case map_of (drv_docs D) u of
     Some doc \<Rightarrow> Inr (textMatches (getText S D doc) text0, D)
   | None \<Rightarrow>
      (if u \<in> set (drv_build D) then
        (case doc_open S u (drv_store D) of
           Inl e \<Rightarrow> Inl e
         | Inr (doc, s') \<Rightarrow> (let D' = D\<lparr>drv_store := s'\<rparr> in
             if textMatches (getText S D' doc) text0 then Inr (True, put_doc u doc D') else Inr (False, D')))
       else Inr (False, D)))"

definition add_open :: "uri \<Rightarrow> 's driver \<Rightarrow> 's driver" where
  "add_open u D = D\<lparr>drv_open := (if u \<in> set (drv_open D) then drv_open D else u # drv_open D)\<rparr>"

definition openDocument :: "'s store_lib \<Rightarrow> uri \<Rightarrow> string \<Rightarrow> 's driver \<Rightarrow> 's driver result" where
  "openDocument S u text0 D = (case matching_doc S u text0 D of
     Inl e \<Rightarrow> Inl e
   | Inr (True, D1) \<Rightarrow> Inr (add_open u D1)
   | Inr (False, D1) \<Rightarrow> (case fromText S u text0 (drv_store D1) of
       Inl e \<Rightarrow> Inl e
     | Inr (doc, s') \<Rightarrow> Inr (add_open u (put_doc u doc (D1\<lparr>drv_store := s'\<rparr>)))))"

definition onDocDidChange ::
  "'s store_lib \<Rightarrow> utf8_lib \<Rightarrow> (string \<Rightarrow> nat list) \<Rightarrow> uri \<Rightarrow> content_change list \<Rightarrow> 's driver \<Rightarrow> 's driver result" where
  "onDocDidChange S L cl u changes D = (case getDocument S u D of
     Inl e \<Rightarrow> Inl e
   | Inr (doc, D1) \<Rightarrow> (case changed_text L cl (getText S D1 doc) changes of
       Inl e \<Rightarrow> Inl e
     | Inr None \<Rightarrow> Inr D1
     | Inr (Some t) \<Rightarrow> (case st_replace S (drv_store D1) (sd_buffer doc) t of
         (b, s') \<Rightarrow> Inr (put_doc u (doc\<lparr>sd_buffer := b\<rparr>) (D1\<lparr>drv_store := s'\<rparr>)))))"

definition closeDocument :: "uri \<Rightarrow> 's driver \<Rightarrow> 's driver" where
  "closeDocument u D = D\<lparr>drv_open := removeAll u (drv_open D)\<rparr>"

definition isDocumentOpen :: "uri \<Rightarrow> 's driver \<Rightarrow> bool" where
  "isDocumentOpen u D \<longleftrightarrow> u \<in> set (drv_open D)"

text \<open>The save handler of the server: a text that differs overwrites the buffer.\<close>

definition onDocDidSave :: "'s store_lib \<Rightarrow> uri \<Rightarrow> string option \<Rightarrow> 's driver \<Rightarrow> 's driver result" where
  "onDocDidSave S u saved D = (if \<not> isDocumentOpen u D then Inr D else
     (case getDocument S u D of
        Inl e \<Rightarrow> Inl e
      | Inr (doc, D1) \<Rightarrow> (case saved of
          None \<Rightarrow> Inr D1
        | Some t \<Rightarrow> if textMatches (getText S D1 doc) t then Inr D1 else openDocument S u t D1)))"

text \<open>One change on disk: an open document belongs to the editor.\<close>

definition watched_file :: "'s store_lib \<Rightarrow> uri \<times> change_type \<Rightarrow> 's driver \<Rightarrow> 's driver" where
  "watched_file S change D = (let u = fst change; s = drv_store D in
     if isDocumentOpen u D then D
     else if snd change = Deleted then closeDocument u D
     else (case map_of (drv_docs D) u of
       None \<Rightarrow>
        (if st_cached S s (uri_path u) then
          (case st_read S s (uri_path u) of
             None \<Rightarrow> D
           | Some (b, s1) \<Rightarrow> (case st_reload S s1 b of
               None \<Rightarrow> D\<lparr>drv_store := s1\<rparr> | Some (_, s2) \<Rightarrow> D\<lparr>drv_store := s2\<rparr>))
         else D)
     | Some doc \<Rightarrow> (case st_reload S s (sd_buffer doc) of
         None \<Rightarrow> D
       | Some (b, s') \<Rightarrow> put_doc u (doc\<lparr>sd_buffer := b\<rparr>) (D\<lparr>drv_store := s'\<rparr>))))"

definition watched_files :: "'s store_lib \<Rightarrow> (uri \<times> change_type) list \<Rightarrow> 's driver \<Rightarrow> 's driver" where
  "watched_files S changes D = fold (watched_file S) changes D"

text \<open>\<open>copyOpenDocumentsFrom\<close>: the open documents of a driver opened in a new one, with a
  source manager of its own.\<close>

fun copyOpenDocuments :: "'s store_lib \<Rightarrow> 's driver \<Rightarrow> uri list \<Rightarrow> 's driver \<Rightarrow> 's driver result" where
  "copyOpenDocuments S old [] D = Inr D"
| "copyOpenDocuments S old (u # us) D = (case map_of (drv_docs old) u of
     None \<Rightarrow> copyOpenDocuments S old us D
   | Some doc \<Rightarrow> (case openDocument S u (butlast (getText S old doc)) D of
       Inl e \<Rightarrow> Inl e | Inr D' \<Rightarrow> copyOpenDocuments S old us D'))"

text \<open>The buffer \<open>getSyntaxTree\<close> leaves a document with: that of an include of it in a
  parsed tree, the one it had, or a fresh read of its path.\<close>

inductive tree_buffer :: "'s store_lib \<Rightarrow> uri \<Rightarrow> 's \<Rightarrow> nat \<Rightarrow> 's \<Rightarrow> nat \<Rightarrow> bool" for S u where
  include_context: "b' \<in> st_includes S s (st_path S s b) \<Longrightarrow> tree_buffer S u s b s b'"
| same_buffer: "tree_buffer S u s b s b"
| read_again: "st_read S s (uri_path u) = Some (b', s') \<Longrightarrow> tree_buffer S u s b s' b'"

section \<open>A client that follows the protocol\<close>

type_synonym client_docs = "uri \<Rightarrow> string option"

datatype sync_event =
    EOpen uri string
  | EEdit uri "client_edit list"
  | EClose uri
  | ESave uri "string option"
  | EWatched "(uri \<times> change_type) list"
  | EReload
  | EInternal

definition docs_ok :: "'s store_lib \<Rightarrow> uri set \<Rightarrow> 's driver \<Rightarrow> bool" where
  "docs_ok S U D \<longleftrightarrow> (\<forall>u doc. map_of (drv_docs D) u = Some doc \<longrightarrow> u \<in> U \<and>
     st_valid S (drv_store D) (sd_buffer doc) \<and> st_path S (drv_store D) (sd_buffer doc) = uri_path u \<and>
     st_current S (drv_store D) (uri_path u) = Some (getText S D doc))"

inductive sync_step ::
  "'s store_lib \<Rightarrow> utf8_lib \<Rightarrow> (string \<Rightarrow> nat list) \<Rightarrow> uri set \<Rightarrow>
   's driver \<times> client_docs \<Rightarrow> sync_event \<Rightarrow> 's driver \<times> client_docs \<Rightarrow> bool" for S L cl U where
  step_open: "u \<in> U \<Longrightarrow> c u = None \<Longrightarrow> plain_text d \<Longrightarrow> openDocument S u d D = Inr D' \<Longrightarrow>
     sync_step S L cl U (D, c) (EOpen u d) (D', c(u \<mapsto> d))"
| step_edit: "c u = Some d \<Longrightarrow> edits_ok L d es \<Longrightarrow> es \<noteq> [] \<Longrightarrow>
     onDocDidChange S L cl u (changes_of L d es) D = Inr D' \<Longrightarrow>
     sync_step S L cl U (D, c) (EEdit u es) (D', c(u \<mapsto> fold client_apply es d))"
| step_close: "c u = Some d \<Longrightarrow> sync_step S L cl U (D, c) (EClose u) (closeDocument u D, c(u := None))"
| step_save: "c u = Some d \<Longrightarrow> saved = None \<or> saved = Some d \<Longrightarrow> onDocDidSave S u saved D = Inr D' \<Longrightarrow>
     sync_step S L cl U (D, c) (ESave u saved) (D', c)"
| step_watched: "fst ` set changes \<subseteq> U \<Longrightarrow>
     sync_step S L cl U (D, c) (EWatched changes) (watched_files S changes D, c)"
| step_reload: "docs_ok S U D0 \<Longrightarrow> drv_open D0 = [] \<Longrightarrow> copyOpenDocuments S D (drv_open D) D0 = Inr D' \<Longrightarrow>
     sync_step S L cl U (D, c) EReload (D', c)"
| step_get: "v \<in> U \<Longrightarrow> getDocument S v D = Inr (doc, D') \<Longrightarrow> sync_step S L cl U (D, c) EInternal (D', c)"
| step_tree: "map_of (drv_docs D) v = Some doc \<Longrightarrow> tree_buffer S v (drv_store D) (sd_buffer doc) s' b' \<Longrightarrow>
     sync_step S L cl U (D, c) EInternal (put_doc v (doc\<lparr>sd_buffer := b'\<rparr>) (D\<lparr>drv_store := s'\<rparr>), c)"
| step_read: "st_read S (drv_store D) p = Some (b, s') \<Longrightarrow>
     sync_step S L cl U (D, c) EInternal (D\<lparr>drv_store := s'\<rparr>, c)"

inductive sync_reachable ::
  "'s store_lib \<Rightarrow> utf8_lib \<Rightarrow> (string \<Rightarrow> nat list) \<Rightarrow> uri set \<Rightarrow> 's driver \<times> client_docs \<Rightarrow> bool" for S L cl U where
  start: "docs_ok S U D \<Longrightarrow> drv_open D = [] \<Longrightarrow> sync_reachable S L cl U (D, Map.empty)"
| step: "sync_reachable S L cl U st \<Longrightarrow> sync_step S L cl U st e st' \<Longrightarrow> sync_reachable S L cl U st'"

inductive_cases sync_stepE: "sync_step S L cl U (D, c) e (D', c')"

text \<open>Every file is named by one URI, with a canonical path.\<close>

definition one_uri_per_file :: "'s store_lib \<Rightarrow> uri set \<Rightarrow> bool" where
  "one_uri_per_file S U \<longleftrightarrow> inj_on uri_path U \<and> (\<forall>u \<in> U. st_canon S (uri_path u) = uri_path u)"

section \<open>What the source manager keeps\<close>

lemma untouched_refl: "untouched S s s X"
  by (simp add: untouched_def)

lemma untouched_mono: "untouched S s s' X \<Longrightarrow> X \<subseteq> Y \<Longrightarrow> untouched S s s' Y"
  by (auto simp: untouched_def)

lemma untouched_trans:
  "untouched S s s' {p} \<Longrightarrow> untouched S s' s'' {p} \<Longrightarrow> untouched S s s'' {p}"
  by (auto simp: untouched_def)

lemma store_read: "store_ok S \<Longrightarrow> st_read S s p = Some (b, s') \<Longrightarrow> read_ok S s s' b (st_canon S p)"
  by (simp add: store_ok_def)

lemma store_replace:
  "store_ok S \<Longrightarrow> st_valid S s b \<Longrightarrow> st_replace S s b (t @ [nul]) = (b', s') \<Longrightarrow>
    fresh_buffer S s s' b' (st_path S s b) (t @ [nul])"
  by (simp add: store_ok_def)

lemma store_assign: "store_ok S \<Longrightarrow> st_assign S s p t = (b, s') \<Longrightarrow> fresh_buffer S s s' b p (t @ [nul])"
  by (simp add: store_ok_def)

lemma store_reload:
  assumes "store_ok S" "st_valid S s b" "st_reload S s b = Some (b', s')"
  shows "\<exists>t. fresh_buffer S s s' b' (st_path S s b) t"
  using assms by (simp add: store_ok_def)

lemma store_cached: "store_ok S \<Longrightarrow> st_cached S s p \<longleftrightarrow> st_current S s (st_canon S p) \<noteq> None"
  by (simp add: store_ok_def)

lemma store_cached_read: "store_ok S \<Longrightarrow> st_cached S s p \<Longrightarrow> \<exists>b s'. st_read S s p = Some (b, s')"
  unfolding store_ok_def by (metis not_Some_eq surj_pair)

lemma store_include:
  "store_ok S \<Longrightarrow> b \<in> st_includes S s p \<Longrightarrow>
    st_valid S s b \<and> st_path S s b = p \<and> st_current S s p = Some (st_text S s b)"
  by (simp add: store_ok_def)

lemma read_fresh: "read_ok S s s' b p \<Longrightarrow> fresh_buffer S s s' b p (st_text S s' b)"
  by (auto simp: read_ok_def fresh_buffer_def intro: untouched_mono split: if_splits)

section \<open>The invariant of the driver\<close>

definition texts_ok :: "'s store_lib \<Rightarrow> client_docs \<Rightarrow> 's driver \<Rightarrow> bool" where
  "texts_ok S c D \<longleftrightarrow> (\<forall>u d. c u = Some d \<longrightarrow> plain_text d \<and>
     (\<exists>doc. map_of (drv_docs D) u = Some doc \<and> getText S D doc = d @ [nul]))"

lemma texts_okD: "texts_ok S c D \<Longrightarrow> c u = Some d \<Longrightarrow> plain_text d \<and>
    (\<exists>doc. map_of (drv_docs D) u = Some doc \<and> getText S D doc = d @ [nul])"
  by (simp add: texts_ok_def)

lemma docs_okD: "docs_ok S U D \<Longrightarrow> map_of (drv_docs D) u = Some doc \<Longrightarrow> u \<in> U \<and>
    st_valid S (drv_store D) (sd_buffer doc) \<and> st_path S (drv_store D) (sd_buffer doc) = uri_path u \<and>
    st_current S (drv_store D) (uri_path u) = Some (getText S D doc)"
  by (simp add: docs_ok_def)

lemma store_move:
  assumes "docs_ok S U D" "texts_ok S c D" "untouched S (drv_store D) s' X"
    and "\<And>u doc. map_of (drv_docs D) u = Some doc \<Longrightarrow> uri_path u \<notin> X"
  shows "docs_ok S U (D\<lparr>drv_store := s'\<rparr>) \<and> texts_ok S c (D\<lparr>drv_store := s'\<rparr>)"
proof -
  have k: "u \<in> U \<and> st_valid S s' (sd_buffer doc) \<and> st_path S s' (sd_buffer doc) = uri_path u
      \<and> st_text S s' (sd_buffer doc) = getText S D doc \<and> st_current S s' (uri_path u) = Some (getText S D doc)"
    if "map_of (drv_docs D) u = Some doc" for u doc
    using assms(1,3) assms(4) [OF that] that by (auto simp: docs_ok_def untouched_def getText_def)
  have "texts_ok S c (D\<lparr>drv_store := s'\<rparr>)"
    unfolding texts_ok_def
  proof (intro allI impI)
    fix u d assume "c u = Some d"
    then obtain doc where "plain_text d" "map_of (drv_docs D) u = Some doc" "getText S D doc = d @ [nul]"
      using assms(2) by (auto simp: texts_ok_def)
    then show "plain_text d \<and> (\<exists>doc. map_of (drv_docs (D\<lparr>drv_store := s'\<rparr>)) u = Some doc
        \<and> getText S (D\<lparr>drv_store := s'\<rparr>) doc = d @ [nul])"
      using k by (auto simp: getText_def)
  qed
  then show ?thesis using k by (simp add: docs_ok_def getText_def)
qed

lemma read_move:
  assumes "store_ok S" "docs_ok S U D" "texts_ok S c D" "st_read S (drv_store D) p = Some (b, s')"
  shows "docs_ok S U (D\<lparr>drv_store := s'\<rparr>) \<and> texts_ok S c (D\<lparr>drv_store := s'\<rparr>)"
proof (rule store_move [OF assms(2,3)])
  let ?X = "if st_current S (drv_store D) (st_canon S p) = None then {st_canon S p} else {}"
  show "untouched S (drv_store D) s' ?X" using store_read [OF assms(1,4)] by (simp add: read_ok_def)
  fix u doc assume "map_of (drv_docs D) u = Some doc"
  then have "st_current S (drv_store D) (uri_path u) \<noteq> None" using docs_okD [OF assms(2)] by blast
  then show "uri_path u \<notin> ?X" by auto
qed

text \<open>One document gets a buffer of its path; the others keep theirs.\<close>

lemma put_fresh:
  assumes "docs_ok S U D" "texts_ok S c D" "one_uri_per_file S U" "u \<in> U"
    and f: "fresh_buffer S (drv_store D) s' (sd_buffer doc) (uri_path u) t"
    and c': "\<And>v. v \<noteq> u \<Longrightarrow> c' v = c v" "\<And>d. c' u = Some d \<Longrightarrow> plain_text d \<and> t = d @ [nul]"
  shows "docs_ok S U (put_doc u doc (D\<lparr>drv_store := s'\<rparr>)) \<and> texts_ok S c' (put_doc u doc (D\<lparr>drv_store := s'\<rparr>))"
proof -
  have un: "untouched S (drv_store D) s' {uri_path u}" using f by (simp add: fresh_buffer_def)
  have k: "st_valid S s' (sd_buffer e) \<and> st_path S s' (sd_buffer e) = uri_path v
      \<and> st_text S s' (sd_buffer e) = getText S D e \<and> st_current S s' (uri_path v) = Some (getText S D e) \<and> v \<in> U"
    if e: "map_of (drv_docs D) v = Some e" and ne: "v \<noteq> u" for v e
  proof -
    have o: "v \<in> U" "st_valid S (drv_store D) (sd_buffer e)" "st_path S (drv_store D) (sd_buffer e) = uri_path v"
      "st_current S (drv_store D) (uri_path v) = Some (getText S D e)"
      using assms(1) e by (auto simp: docs_ok_def)
    moreover have "uri_path v \<noteq> uri_path u"
      using assms(3,4) o(1) ne by (auto simp: one_uri_per_file_def dest: inj_onD)
    ultimately show ?thesis using un by (auto simp: untouched_def getText_def)
  qed
  have "docs_ok S U (put_doc u doc (D\<lparr>drv_store := s'\<rparr>))"
    unfolding docs_ok_def
  proof (intro allI impI)
    fix v e assume m: "map_of (drv_docs (put_doc u doc (D\<lparr>drv_store := s'\<rparr>))) v = Some e"
    show "v \<in> U \<and> st_valid S (drv_store (put_doc u doc (D\<lparr>drv_store := s'\<rparr>))) (sd_buffer e)
      \<and> st_path S (drv_store (put_doc u doc (D\<lparr>drv_store := s'\<rparr>))) (sd_buffer e) = uri_path v
      \<and> st_current S (drv_store (put_doc u doc (D\<lparr>drv_store := s'\<rparr>))) (uri_path v)
          = Some (getText S (put_doc u doc (D\<lparr>drv_store := s'\<rparr>)) e)"
    proof (cases "v = u")
      case True
      then have "e = doc" using m by (simp add: put_doc_def update_conv')
      then show ?thesis using True f assms(4) by (simp add: put_doc_def getText_def fresh_buffer_def)
    next
      case False
      then have "map_of (drv_docs D) v = Some e" using m by (simp add: put_doc_def update_conv')
      then show ?thesis using k False by (simp add: put_doc_def getText_def)
    qed
  qed
  moreover have "texts_ok S c' (put_doc u doc (D\<lparr>drv_store := s'\<rparr>))"
    unfolding texts_ok_def
  proof (intro allI impI)
    fix v d assume cv: "c' v = Some d"
    show "plain_text d \<and> (\<exists>e. map_of (drv_docs (put_doc u doc (D\<lparr>drv_store := s'\<rparr>))) v = Some e
        \<and> getText S (put_doc u doc (D\<lparr>drv_store := s'\<rparr>)) e = d @ [nul])"
    proof (cases "v = u")
      case True
      then show ?thesis using cv c'(2) f by (simp add: put_doc_def update_conv' getText_def fresh_buffer_def)
    next
      case False
      then obtain e where "plain_text d" "map_of (drv_docs D) v = Some e" "getText S D e = d @ [nul]"
        using cv c'(1) [OF False] texts_okD [OF assms(2), of v d] by auto
      then show ?thesis using k False by (simp add: put_doc_def update_conv' getText_def)
    qed
  qed
  ultimately show ?thesis by simp
qed

lemma put_doc_lookup [simp]: "map_of (drv_docs (put_doc u doc D)) v = (if v = u then Some doc else map_of (drv_docs D) v)"
  by (simp add: put_doc_def update_conv')

lemma put_doc_open [simp]: "drv_open (put_doc u doc D) = drv_open D"
  by (simp add: put_doc_def)

lemma add_open_ok [simp]:
  "docs_ok S U (add_open u D) = docs_ok S U D" "texts_ok S c (add_open u D) = texts_ok S c D"
  "set (drv_open (add_open u D)) = insert u (set (drv_open D))"
  by (auto simp: docs_ok_def texts_ok_def add_open_def getText_def)

lemma close_ok [simp]:
  "docs_ok S U (closeDocument u D) = docs_ok S U D" "texts_ok S c (closeDocument u D) = texts_ok S c D"
  "set (drv_open (closeDocument u D)) = set (drv_open D) - {u}"
  by (auto simp: docs_ok_def texts_ok_def closeDocument_def getText_def)

section \<open>Every handler keeps the invariant\<close>

definition world :: "'s store_lib \<Rightarrow> uri set \<Rightarrow> bool" where
  "world S U \<longleftrightarrow> store_ok S \<and> one_uri_per_file S U"

lemma canon_uri: "world S U \<Longrightarrow> u \<in> U \<Longrightarrow> st_canon S (uri_path u) = uri_path u"
  by (simp add: world_def one_uri_per_file_def)

lemma doc_open_put:
  assumes w: "world S U"
    and inv: "docs_ok S U D" "texts_ok S c D" and u: "u \<in> U" and op: "doc_open S u (drv_store D) = Inr (doc, s')"
    and c1: "\<And>d. c' u = Some d \<Longrightarrow> plain_text d \<and> st_text S s' (sd_buffer doc) = d @ [nul]"
    and c2: "\<And>v. v \<noteq> u \<Longrightarrow> c' v = c v"
  shows "docs_ok S U (put_doc u doc (D\<lparr>drv_store := s'\<rparr>)) \<and> texts_ok S c' (put_doc u doc (D\<lparr>drv_store := s'\<rparr>))"
proof -
  have lib: "store_ok S" and uris: "one_uri_per_file S U" using w by (simp_all add: world_def)
  obtain b where b: "st_read S (drv_store D) (uri_path u) = Some (b, s')" "doc = \<lparr>sd_uri = u, sd_buffer = b\<rparr>"
    using op by (auto simp: doc_open_def split: option.splits)
  have "fresh_buffer S (drv_store D) s' (sd_buffer doc) (uri_path u) (st_text S s' b)"
    using read_fresh [OF store_read [OF lib b(1)]] canon_uri [OF w u] b(2) by simp
  then show ?thesis using c1 c2 b(2)
    by (intro put_fresh [OF inv uris u]) auto
qed

lemma getDocument_ok:
  assumes w: "world S U"
    and inv: "docs_ok S U D" "texts_ok S c D" and u: "u \<in> U" and op: "getDocument S u D = Inr (doc, D')"
  shows "docs_ok S U D' \<and> texts_ok S c D' \<and> drv_open D' = drv_open D \<and> map_of (drv_docs D') u = Some doc"
proof (cases "map_of (drv_docs D) u")
  case (Some e)
  then show ?thesis using inv op by (simp add: getDocument_def)
next
  case None
  then obtain s' where s': "doc_open S u (drv_store D) = Inr (doc, s')" "D' = put_doc u doc (D\<lparr>drv_store := s'\<rparr>)"
    using op by (auto simp: getDocument_def split: sum.splits)
  have "c u = None" using texts_okD [OF inv(2), of u] None by (cases "c u") auto
  then show ?thesis using doc_open_put [OF w inv u s'(1), of c] s'(2) by simp
qed

lemma fromText_ok:
  assumes w: "world S U"
    and inv: "docs_ok S U D" "texts_ok S c D" and u: "u \<in> U" and plain: "plain_text d"
    and fr: "fromText S u d (drv_store D) = Inr (doc, s')"
  shows "docs_ok S U (put_doc u doc (D\<lparr>drv_store := s'\<rparr>)) \<and> texts_ok S (c(u \<mapsto> d)) (put_doc u doc (D\<lparr>drv_store := s'\<rparr>))"
proof -
  have lib: "store_ok S" and uris: "one_uri_per_file S U" using w by (simp_all add: world_def)
  have nn: "nul \<notin> set d" using plain by (simp add: plain_text_def)
  have "fresh_buffer S (drv_store D) s' (sd_buffer doc) (uri_path u) (d @ [nul])"
  proof (cases "st_cached S (drv_store D) (uri_path u)")
    case True
    then obtain b s1 where r: "st_read S (drv_store D) (uri_path u) = Some (b, s1)"
      using store_cached_read [OF lib] by blast
    note rd = store_read [OF lib r, unfolded canon_uri [OF w u]]
    show ?thesis
    proof (cases "length (st_text S s1 b) = length d + 1 \<and> take (length d) (st_text S s1 b) = d")
      case same: True
      then have "st_text S s1 b = d @ [last (st_text S s1 b)]"
        by (metis add_diff_cancel_right' append_butlast_last_id butlast_conv_take length_0_conv add_is_0 zero_neq_one)
      then have "st_text S s1 b = d @ [nul]" using rd by (simp add: read_ok_def)
      then show ?thesis
        using read_fresh [OF rd] True r same fr canon_uri [OF w u] by (auto simp: fromText_def Let_def)
    next
      case False
      obtain b' s2 where p: "st_replace S s1 b (d @ [nul]) = (b', s2)" by fastforce
      have v: "st_valid S s1 b" "st_path S s1 b = uri_path u" using rd by (simp_all add: read_ok_def)
      have "fresh_buffer S s1 s2 b' (uri_path u) (d @ [nul])" using store_replace [OF lib v(1) p] v(2) by simp
      moreover have "untouched S (drv_store D) s1 {uri_path u}" using read_fresh [OF rd] by (simp add: fresh_buffer_def)
      ultimately have "fresh_buffer S (drv_store D) s2 b' (uri_path u) (d @ [nul])"
        by (auto simp: fresh_buffer_def intro: untouched_trans)
      then show ?thesis
        using True r False p fr canon_uri [OF w u] by (auto simp: fromText_def Let_def ensureNull_plain [OF nn])
    qed
  next
    case False
    obtain b s1 where "st_assign S (drv_store D) (uri_path u) d = (b, s1)" by fastforce
    then show ?thesis
      using store_assign [OF lib] False fr canon_uri [OF w u] by (auto simp: fromText_def Let_def)
  qed
  then show ?thesis using plain by (intro put_fresh [OF inv uris u]) auto
qed

lemma openDocument_ok:
  assumes w: "world S U"
    and inv: "docs_ok S U D" "texts_ok S c D" and u: "u \<in> U" and plain: "plain_text d"
    and op: "openDocument S u d D = Inr D'"
  shows "docs_ok S U D' \<and> texts_ok S (c(u \<mapsto> d)) D' \<and> set (drv_open D') = insert u (set (drv_open D))"
proof -
  obtain hit D1 where m: "matching_doc S u d D = Inr (hit, D1)"
    using op by (auto simp: openDocument_def split: sum.splits)
  have o: "drv_open D1 = drv_open D"
    using m by (auto simp: matching_doc_def Let_def split: option.splits if_splits sum.splits)
  have k: "(docs_ok S U D1 \<and> texts_ok S c D1) \<and> (hit \<longrightarrow> docs_ok S U D1 \<and> texts_ok S (c(u \<mapsto> d)) D1)"
  proof (cases "map_of (drv_docs D) u")
    case (Some doc)
    then have e: "D1 = D" "hit = textMatches (getText S D doc) d" using m by (auto simp: matching_doc_def)
    have "hit \<Longrightarrow> texts_ok S (c(u \<mapsto> d)) D"
      using inv(2) Some plain e(2) by (auto simp: texts_ok_def textMatches_def)
    then show ?thesis using inv e by simp
  next
    case None
    have cu: "c u = None" using texts_okD [OF inv(2), of u] None by (cases "c u") auto
    show ?thesis
    proof (cases "u \<in> set (drv_build D)")
      case True
      then obtain doc s' where d: "doc_open S u (drv_store D) = Inr (doc, s')"
        using m None by (auto simp: matching_doc_def split: sum.splits)
      have "textMatches (st_text S s' (sd_buffer doc)) d \<Longrightarrow> docs_ok S U (put_doc u doc (D\<lparr>drv_store := s'\<rparr>))
          \<and> texts_ok S (c(u \<mapsto> d)) (put_doc u doc (D\<lparr>drv_store := s'\<rparr>))"
        using plain by (intro doc_open_put [OF w inv u d]) (auto simp: textMatches_def)
      moreover have "docs_ok S U (put_doc u doc (D\<lparr>drv_store := s'\<rparr>)) \<and> texts_ok S c (put_doc u doc (D\<lparr>drv_store := s'\<rparr>))"
        using cu by (intro doc_open_put [OF w inv u d]) auto
      moreover have "docs_ok S U (D\<lparr>drv_store := s'\<rparr>) \<and> texts_ok S c (D\<lparr>drv_store := s'\<rparr>)"
      proof -
        obtain b where "st_read S (drv_store D) (uri_path u) = Some (b, s')"
          using d by (auto simp: doc_open_def split: option.splits)
        then show ?thesis using read_move [OF _ inv] w by (simp add: world_def)
      qed
      ultimately show ?thesis
        using m None True d by (auto simp: matching_doc_def Let_def getText_def split: if_splits)
    next
      case False
      then show ?thesis using m None inv by (simp add: matching_doc_def)
    qed
  qed
  show ?thesis
  proof (cases hit)
    case True
    then show ?thesis using op m k o by (auto simp: openDocument_def)
  next
    case False
    then obtain doc s' where f: "fromText S u d (drv_store D1) = Inr (doc, s')"
      "D' = add_open u (put_doc u doc (D1\<lparr>drv_store := s'\<rparr>))"
      using op m by (auto simp: openDocument_def split: sum.splits)
    then show ?thesis using fromText_ok [OF w _ _ u plain f(1), of c] k o by simp
  qed
qed

lemma edits_ok_result: "edits_ok L d es \<Longrightarrow> plain_text (fold client_apply es d)"
  by (induction es arbitrary: d) auto

lemma change_result:
  assumes lib: "utf8_lib_ok L" "line_offsets_documented cl" and w: "world S U"
    and inv: "docs_ok S U D" "texts_ok S c D" and cu: "c u = Some d" and ok: "edits_ok L d es" "es \<noteq> []"
  shows "\<exists>D'. onDocDidChange S L cl u (changes_of L d es) D = Inr D' \<and> docs_ok S U D'
     \<and> texts_ok S (c(u \<mapsto> fold client_apply es d)) D' \<and> drv_open D' = drv_open D"
proof -
  obtain doc where doc: "map_of (drv_docs D) u = Some doc" "getText S D doc = d @ [nul]"
    using texts_okD [OF inv(2) cu] by auto
  note dk = docs_okD [OF inv(1) doc(1)]
  let ?t = "fold client_apply es d @ [nul]"
  obtain b s' where r: "st_replace S (drv_store D) (sd_buffer doc) ?t = (b, s')" by fastforce
  have f: "fresh_buffer S (drv_store D) s' (sd_buffer (doc\<lparr>sd_buffer := b\<rparr>)) (uri_path u) ?t"
    using store_replace [OF _ _ r] w dk by (auto simp: world_def)
  have "onDocDidChange S L cl u (changes_of L d es) D
      = Inr (put_doc u (doc\<lparr>sd_buffer := b\<rparr>) (D\<lparr>drv_store := s'\<rparr>))"
    using doc changed_text_edits [OF lib ok] r by (simp add: onDocDidChange_def getDocument_def)
  moreover have "docs_ok S U (put_doc u (doc\<lparr>sd_buffer := b\<rparr>) (D\<lparr>drv_store := s'\<rparr>))
      \<and> texts_ok S (c(u \<mapsto> fold client_apply es d)) (put_doc u (doc\<lparr>sd_buffer := b\<rparr>) (D\<lparr>drv_store := s'\<rparr>))"
    using dk w edits_ok_result [OF ok(1)] by (intro put_fresh [OF inv _ _ f]) (auto simp: world_def)
  ultimately show ?thesis by simp
qed

lemma save_result:
  assumes "texts_ok S c D" "c u = Some d" "u \<in> set (drv_open D)" "saved = None \<or> saved = Some d"
  shows "onDocDidSave S u saved D = Inr D"
proof -
  obtain doc where "map_of (drv_docs D) u = Some doc" "getText S D doc = d @ [nul]"
    using texts_okD [OF assms(1,2)] by auto
  then show ?thesis using assms(3,4)
    by (auto simp: onDocDidSave_def isDocumentOpen_def getDocument_def textMatches_def)
qed

lemma reload_doc_ok:
  assumes w: "world S U" and inv: "docs_ok S U D" "texts_ok S c D" and v: "c v = None"
    and doc: "map_of (drv_docs D) v = Some doc" and rl: "st_reload S (drv_store D) (sd_buffer doc) = Some (b, s')"
  shows "docs_ok S U (put_doc v (doc\<lparr>sd_buffer := b\<rparr>) (D\<lparr>drv_store := s'\<rparr>))
    \<and> texts_ok S c (put_doc v (doc\<lparr>sd_buffer := b\<rparr>) (D\<lparr>drv_store := s'\<rparr>))"
proof -
  note dk = docs_okD [OF inv(1) doc]
  obtain t where f: "fresh_buffer S (drv_store D) s' (sd_buffer (doc\<lparr>sd_buffer := b\<rparr>)) (uri_path v) t"
    using store_reload [OF _ _ rl] dk w by (auto simp: world_def)
  show ?thesis using dk w v by (intro put_fresh [OF inv _ _ f]) (auto simp: world_def)
qed

text \<open>A file without a document is reloaded behind the documents.\<close>

lemma reload_cached_ok:
  assumes w: "world S U" and inv: "docs_ok S U D" "texts_ok S c D" and v: "v \<in> U"
    and no: "map_of (drv_docs D) v = None" and r: "st_read S (drv_store D) (uri_path v) = Some (b, s1)"
    and rl: "st_reload S s1 b = Some (b', s2)"
  shows "docs_ok S U (D\<lparr>drv_store := s2\<rparr>) \<and> texts_ok S c (D\<lparr>drv_store := s2\<rparr>)"
proof -
  have lib: "store_ok S" using w by (simp add: world_def)
  have k: "docs_ok S U (D\<lparr>drv_store := s1\<rparr>) \<and> texts_ok S c (D\<lparr>drv_store := s1\<rparr>)"
    using read_move [OF lib inv r] .
  have b: "st_valid S s1 b" "st_path S s1 b = uri_path v"
    using store_read [OF lib r] canon_uri [OF w v] by (simp_all add: read_ok_def)
  then have un: "untouched S s1 s2 {uri_path v}"
    using store_reload [OF lib b(1) rl] by (auto simp: fresh_buffer_def)
  have "uri_path x \<notin> {uri_path v}" if "map_of (drv_docs D) x = Some e" for x e
  proof -
    have "x \<in> U" "x \<noteq> v" using docs_okD [OF inv(1) that] that no by auto
    then show ?thesis using w v by (auto simp: world_def one_uri_per_file_def dest: inj_onD)
  qed
  then have "docs_ok S U (D\<lparr>drv_store := s1\<rparr>\<lparr>drv_store := s2\<rparr>) \<and> texts_ok S c (D\<lparr>drv_store := s1\<rparr>\<lparr>drv_store := s2\<rparr>)"
    using k un by (intro store_move [of _ _ _ _ _ "{uri_path v}"]) auto
  then show ?thesis by simp
qed

lemma watched_file_cases:
  assumes w: "world S U" and inv: "docs_ok S U D" and v: "fst ch = v"
  obtains (open_or_deleted) "isDocumentOpen v D \<or> snd ch = Deleted"
      "watched_file S ch D = D \<or> watched_file S ch D = closeDocument v D \<and> \<not> isDocumentOpen v D"
  | (idle) "watched_file S ch D = D"
  | (read) b s1 where "\<not> isDocumentOpen v D" "st_read S (drv_store D) (uri_path v) = Some (b, s1)"
      "watched_file S ch D = D\<lparr>drv_store := s1\<rparr>"
  | (cached) b s1 b' s2 where "\<not> isDocumentOpen v D" "map_of (drv_docs D) v = None"
      "st_read S (drv_store D) (uri_path v) = Some (b, s1)" "st_reload S s1 b = Some (b', s2)"
      "watched_file S ch D = D\<lparr>drv_store := s2\<rparr>"
  | (doc) doc b s' where "\<not> isDocumentOpen v D" "map_of (drv_docs D) v = Some doc"
      "st_reload S (drv_store D) (sd_buffer doc) = Some (b, s')"
      "watched_file S ch D = put_doc v (doc\<lparr>sd_buffer := b\<rparr>) (D\<lparr>drv_store := s'\<rparr>)"
proof (cases "isDocumentOpen v D \<or> snd ch = Deleted")
  case True
  then show thesis using v by (intro open_or_deleted) (auto simp: watched_file_def Let_def)
next
  case o: False
  show thesis
  proof (cases "map_of (drv_docs D) v")
    case (Some d)
    show thesis
    proof (cases "st_reload S (drv_store D) (sd_buffer d)")
      case None
      then show thesis using Some o v by (intro idle) (simp add: watched_file_def Let_def)
    next
      case (Some bs)
      then show thesis using \<open>map_of (drv_docs D) v = Some d\<close> o v
        by (intro doc [of d "fst bs" "snd bs"]) (auto simp: watched_file_def Let_def split: prod.splits)
    qed
  next
    case None
    show thesis
    proof (cases "st_cached S (drv_store D) (uri_path v)")
      case True
      then obtain b s1 where r: "st_read S (drv_store D) (uri_path v) = Some (b, s1)"
        using store_cached_read [of S "drv_store D" "uri_path v"] w by (auto simp: world_def)
      show thesis
      proof (cases "st_reload S s1 b")
        case None': None
        then show thesis using r True None o v by (intro read [OF _ r]) (simp_all add: watched_file_def Let_def)
      next
        case (Some bs)
        then show thesis using r True None o v
          by (intro cached [OF _ None r, of "fst bs" "snd bs"]) (auto simp: watched_file_def Let_def split: prod.splits)
      qed
    next
      case False
      then show thesis using None o v by (intro idle) (simp add: watched_file_def Let_def)
    qed
  qed
qed

lemma watched_file_ok:
  assumes w: "world S U" and inv: "docs_ok S U D" "texts_ok S c D" and o: "set (drv_open D) = dom c" and u: "fst ch \<in> U"
  shows "docs_ok S U (watched_file S ch D) \<and> texts_ok S c (watched_file S ch D) \<and> set (drv_open (watched_file S ch D)) = dom c"
proof -
  have cn: "c (fst ch) = None" if "\<not> isDocumentOpen (fst ch) D"
    using that o by (auto simp: isDocumentOpen_def)
  show ?thesis
  proof (rule watched_file_cases [OF w inv(1) refl])
    assume "watched_file S ch D = D \<or> watched_file S ch D = closeDocument (fst ch) D \<and> \<not> isDocumentOpen (fst ch) D"
    then show ?thesis using inv o by (auto simp: isDocumentOpen_def)
  next
    assume "watched_file S ch D = D"
    then show ?thesis using inv o by simp
  next
    fix b s1 assume "st_read S (drv_store D) (uri_path (fst ch)) = Some (b, s1)" "watched_file S ch D = D\<lparr>drv_store := s1\<rparr>"
    then show ?thesis using read_move [OF _ inv] w o by (simp add: world_def)
  next
    fix b s1 b' s2
    assume "map_of (drv_docs D) (fst ch) = None" "st_read S (drv_store D) (uri_path (fst ch)) = Some (b, s1)"
      "st_reload S s1 b = Some (b', s2)" "watched_file S ch D = D\<lparr>drv_store := s2\<rparr>"
    then show ?thesis using reload_cached_ok [OF w inv u] o by simp
  next
    fix doc b s'
    assume "\<not> isDocumentOpen (fst ch) D" "map_of (drv_docs D) (fst ch) = Some doc"
      "st_reload S (drv_store D) (sd_buffer doc) = Some (b, s')"
      "watched_file S ch D = put_doc (fst ch) (doc\<lparr>sd_buffer := b\<rparr>) (D\<lparr>drv_store := s'\<rparr>)"
    then show ?thesis using reload_doc_ok [OF w inv cn] o by simp
  qed
qed

lemma watched_files_ok:
  assumes "world S U"
  shows "docs_ok S U D \<Longrightarrow> texts_ok S c D \<Longrightarrow> set (drv_open D) = dom c \<Longrightarrow> fst ` set chs \<subseteq> U \<Longrightarrow>
    docs_ok S U (watched_files S chs D) \<and> texts_ok S c (watched_files S chs D)
    \<and> set (drv_open (watched_files S chs D)) = dom c"
proof (induction chs arbitrary: D)
  case (Cons ch chs)
  then show ?case using watched_file_ok [OF assms Cons.prems(1-3), of ch] Cons.IH [of "watched_file S ch D"]
    by (simp add: watched_files_def)
qed (simp add: watched_files_def)

lemma copyOpenDocuments_ok:
  assumes w: "world S U" and old: "texts_ok S c Dold" "docs_ok S U Dold"
  shows "docs_ok S U D \<Longrightarrow> texts_ok S c0 D \<Longrightarrow> set (drv_open D) = dom c0 \<Longrightarrow> c0 \<subseteq>\<^sub>m c \<Longrightarrow> set us \<subseteq> dom c \<Longrightarrow>
    copyOpenDocuments S Dold us D = Inr D' \<Longrightarrow>
    \<exists>c1. docs_ok S U D' \<and> texts_ok S c1 D' \<and> set (drv_open D') = dom c1 \<and> c1 \<subseteq>\<^sub>m c \<and> dom c1 = dom c0 \<union> set us"
proof (induction us arbitrary: D c0)
  case (Cons u us)
  obtain d where cu: "c u = Some d" using Cons.prems(5) by auto
  obtain doc where doc: "map_of (drv_docs Dold) u = Some doc" "getText S Dold doc = d @ [nul]" and plain: "plain_text d"
    using texts_okD [OF old(1) cu] by auto
  have u: "u \<in> U" using docs_okD [OF old(2) doc(1)] by simp
  obtain D1 where o: "openDocument S u d D = Inr D1" "copyOpenDocuments S Dold us D1 = Inr D'"
    using Cons.prems(6) doc by (auto split: sum.splits)
  have k: "docs_ok S U D1 \<and> texts_ok S (c0(u \<mapsto> d)) D1 \<and> set (drv_open D1) = insert u (set (drv_open D))"
    by (rule openDocument_ok [OF w Cons.prems(1,2) u plain o(1)])
  have le: "c0(u \<mapsto> d) \<subseteq>\<^sub>m c" using Cons.prems(4) cu by (auto simp: map_le_def)
  have op: "set (drv_open D1) = dom (c0(u \<mapsto> d))" "set us \<subseteq> dom c" using k Cons.prems(3,5) by auto
  obtain c1 where "docs_ok S U D'" "texts_ok S c1 D'" "set (drv_open D') = dom c1" "c1 \<subseteq>\<^sub>m c"
      "dom c1 = dom (c0(u \<mapsto> d)) \<union> set us"
    using Cons.IH [OF _ _ op(1) le op(2) o(2)] k by blast
  moreover from this have "dom c1 = dom c0 \<union> set (u # us)" by auto
  ultimately show ?case by blast
qed auto

lemma tree_buffer_ok:
  assumes w: "world S U" and inv: "docs_ok S U D" "texts_ok S c D" and doc: "map_of (drv_docs D) v = Some doc"
    and t: "tree_buffer S v (drv_store D) (sd_buffer doc) s' b'"
  shows "docs_ok S U (put_doc v (doc\<lparr>sd_buffer := b'\<rparr>) (D\<lparr>drv_store := s'\<rparr>))
    \<and> texts_ok S c (put_doc v (doc\<lparr>sd_buffer := b'\<rparr>) (D\<lparr>drv_store := s'\<rparr>))"
proof -
  have lib: "store_ok S" and uris: "one_uri_per_file S U" using w by (simp_all add: world_def)
  note dk = docs_okD [OF inv(1) doc]
  have f: "fresh_buffer S (drv_store D) s' b' (uri_path v) (getText S D doc)"
    using t
  proof cases
    case include_context
    then show ?thesis using store_include [OF lib include_context(2)] dk by (simp add: fresh_buffer_def untouched_refl)
  next
    case same_buffer
    then show ?thesis using dk by (simp add: fresh_buffer_def untouched_refl getText_def)
  next
    case read_again
    note rd = store_read [OF lib read_again, unfolded canon_uri [OF w conjunct1 [OF dk]]]
    then have "untouched S (drv_store D) s' {}" using dk by (simp add: read_ok_def)
    then have "st_current S s' (uri_path v) = st_current S (drv_store D) (uri_path v)" by (simp add: untouched_def)
    then show ?thesis using read_fresh [OF rd] rd dk by (simp add: read_ok_def)
  qed
  have "plain_text d \<and> getText S D doc = d @ [nul]" if "c v = Some d" for d
    using texts_okD [OF inv(2) that] doc by auto
  then show ?thesis using dk f by (intro put_fresh [OF inv uris]) auto
qed

definition sync_ok :: "'s store_lib \<Rightarrow> uri set \<Rightarrow> 's driver \<times> client_docs \<Rightarrow> bool" where
  "sync_ok S U st \<longleftrightarrow> docs_ok S U (fst st) \<and> texts_ok S (snd st) (fst st) \<and> set (drv_open (fst st)) = dom (snd st)"

lemma sync_step_ok:
  assumes w: "world S U" and lib: "utf8_lib_ok L" "line_offsets_documented cl"
  shows "sync_step S L cl U st e st' \<Longrightarrow> sync_ok S U st \<Longrightarrow> sync_ok S U st'"
proof (induction rule: sync_step.induct)
  case (step_open u c d D D')
  then show ?case using openDocument_ok [OF w _ _ step_open(1,3,4)] by (auto simp: sync_ok_def)
next
  case (step_edit c u d es D D')
  then show ?case using change_result [OF lib w, of D c u d es] by (auto simp: sync_ok_def)
next
  case (step_close c u d D)
  then have "texts_ok S (c(u := None)) D" by (simp add: sync_ok_def texts_ok_def)
  then show ?case using step_close by (auto simp: sync_ok_def)
next
  case (step_save c u d saved D D')
  then show ?case using save_result [of S c D u d saved] by (auto simp: sync_ok_def)
next
  case (step_watched changes D c)
  then show ?case using watched_files_ok [OF w, of D c changes] by (simp add: sync_ok_def)
next
  case (step_reload D0 D D' c)
  have e: "texts_ok S Map.empty D0" by (simp add: texts_ok_def)
  obtain c1 where "docs_ok S U D'" "texts_ok S c1 D'" "set (drv_open D') = dom c1" "c1 \<subseteq>\<^sub>m c"
      "dom c1 = set (drv_open D)"
    using copyOpenDocuments_ok [OF w, of c D D0 Map.empty "drv_open D" D'] step_reload e by (auto simp: sync_ok_def)
  moreover from this have "c1 = c" using step_reload by (auto simp: sync_ok_def map_le_def intro!: ext) (metis domIff)
  ultimately show ?case by (simp add: sync_ok_def)
next
  case (step_get v D doc D' c)
  then show ?case using getDocument_ok [OF w _ _ step_get(1,2)] by (auto simp: sync_ok_def)
next
  case (step_tree D v doc s' b' c)
  then show ?case using tree_buffer_ok [OF w _ _ step_tree(1,2)] by (auto simp: sync_ok_def)
next
  case (step_read D p b s' c)
  then show ?case using read_move [OF _ _ _ step_read(1)] w by (auto simp: sync_ok_def world_def)
qed

lemma sync_reachable_ok:
  assumes "world S U" "utf8_lib_ok L" "line_offsets_documented cl"
  shows "sync_reachable S L cl U st \<Longrightarrow> sync_ok S U st"
proof (induction rule: sync_reachable.induct)
  case (start D)
  then show ?case by (simp add: sync_ok_def texts_ok_def)
next
  case (step st e st')
  then show ?case using sync_step_ok [OF assms] by blast
qed

section \<open>A small source manager\<close>

text \<open>The log of every buffer made, with its path and text; the newest of a path is current. Files
  on disk are empty. Only the witness uses it.\<close>

definition newest :: "(string \<times> string) list \<Rightarrow> string \<Rightarrow> nat option" where
  "newest s p = find (\<lambda>i. fst (s ! i) = p) (rev [0..<length s])"

definition log_text :: "(string \<times> string) list \<Rightarrow> nat \<Rightarrow> string" where
  "log_text s b = ensureNullTerminated (snd (s ! b))"

definition log_store :: "(string \<times> string) list store_lib" where
  "log_store = \<lparr>st_canon = (\<lambda>p. p), st_valid = (\<lambda>s b. b < length s), st_text = log_text,
     st_path = (\<lambda>s b. fst (s ! b)), st_current = (\<lambda>s p. map_option (log_text s) (newest s p)),
     st_cached = (\<lambda>s p. newest s p \<noteq> None),
     st_read = (\<lambda>s p. case newest s p of
        None \<Rightarrow> Some (length s, s @ [(p, [])]) | Some b \<Rightarrow> Some (b, s)),
     st_replace = (\<lambda>s b t. (length s, s @ [(fst (s ! b), t)])),
     st_assign = (\<lambda>s p t. (length s, s @ [(p, t @ [nul])])),
     st_reload = (\<lambda>s b. Some (length s, s @ [(fst (s ! b), [])])),
     st_includes = (\<lambda>s p. {})\<rparr>"

lemma newest_append: "newest (s @ [(p, t)]) q = (if q = p then Some (length s) else newest s q)"
proof -
  have "find (\<lambda>i. fst ((s @ [(p, t)]) ! i) = q) (rev [0..<length s]) = find (\<lambda>i. fst (s ! i) = q) (rev [0..<length s])"
    by (rule find_cong) (auto simp: nth_append)
  then show ?thesis by (auto simp: newest_def)
qed

lemma find_SomeD: "find P xs = Some x \<Longrightarrow> x \<in> set xs \<and> P x"
  by (induction xs) (auto split: if_splits)

lemma newest_Some: "newest s p = Some b \<Longrightarrow> b < length s \<and> fst (s ! b) = p"
  unfolding newest_def by (drule find_SomeD) simp

lemma log_text_append: "b < length s \<Longrightarrow> log_text (s @ [x]) b = log_text s b"
  "log_text (s @ [(p, t)]) (length s) = ensureNullTerminated t"
  by (simp_all add: log_text_def nth_append)

lemma log_fresh: "fresh_buffer log_store s (s @ [(p, t)]) (length s) p (ensureNullTerminated t)"
  by (auto simp: fresh_buffer_def untouched_def log_store_def newest_append log_text_append nth_append
      split: option.splits dest: newest_Some intro!: map_option_cong)

lemma log_store_ok: "store_ok log_store"
proof -
  have "read_ok log_store s s' b p" if "st_read log_store s p = Some (b, s')" for s p b s'
  proof (cases "newest s p")
    case None
    then have e: "b = length s" "s' = s @ [(p, [])]" using that by (auto simp: log_store_def)
    have "untouched log_store s s' {p}" using log_fresh [of s p "[]"] by (simp add: fresh_buffer_def e)
    then show ?thesis using None ensureNull_terminated [of "[]"]
      by (simp add: read_ok_def log_store_def newest_append log_text_append e)
  next
    case (Some i)
    then have e: "b = i" "s' = s" using that by (auto simp: log_store_def)
    show ?thesis using Some newest_Some [OF Some] ensureNull_terminated [of "snd (s ! i)"] untouched_refl [of log_store s "{}"]
      by (simp add: read_ok_def log_store_def log_text_def e)
  qed
  moreover have "fresh_buffer log_store s s' b' (st_path log_store s b) t"
    if "t \<noteq> [] \<and> last t = nul" "st_replace log_store s b t = (b', s')" for s b t b' s'
    using log_fresh [of s "fst (s ! b)" t] that by (auto simp: log_store_def ensureNullTerminated_def)
  moreover have "fresh_buffer log_store s s' b p (t @ [nul])" if "st_assign log_store s p t = (b, s')" for s p t b s'
    using log_fresh [of s p "t @ [nul]"] that by (auto simp: log_store_def)
  moreover have "\<exists>t. fresh_buffer log_store s s' b' (st_path log_store s b) t"
    if "st_reload log_store s b = Some (b', s')" for s b b' s'
    using log_fresh [of s "fst (s ! b)" "[]"] that by (auto simp: log_store_def)
  moreover have "st_read log_store s p \<noteq> None" for s p by (simp add: log_store_def split: option.splits)
  moreover have "st_canon log_store p = p" "st_includes log_store s p = {}"
    "st_cached log_store s p \<longleftrightarrow> st_current log_store s p \<noteq> None" for s p by (simp_all add: log_store_def)
  ultimately show ?thesis unfolding store_ok_def by simp
qed

section \<open>Properties\<close>



end
