(* ===== verification/Diagnostics.thy ===== *)
theory Diagnostics
  imports Positions Tables
begin

text \<open>
  The diagnostics client, from src/ServerDiagClient.cpp: slang's reports turned into LSP
  diagnostics, the table of what each document has, the documents still to be published, and the
  notifications sent to the editor.

  slang's diagnostic engine is a submodule and so a parameter, a record of the members that
  \<open>report\<close> calls. The editor shows, for a document, the list it was last sent.
\<close>

section \<open>Data\<close>

datatype diag_severity = SevIgnored | SevNote | SevWarning | SevError | SevFatal

datatype lsp_severity = LspError | LspWarning | LspInformation | LspHint

fun convertSeverity :: "diag_severity \<Rightarrow> lsp_severity" where
  "convertSeverity SevIgnored = LspHint"
| "convertSeverity SevNote = LspInformation"
| "convertSeverity SevWarning = LspWarning"
| "convertSeverity SevError = LspError"
| "convertSeverity SevFatal = LspError"

text \<open>The codes the source names; all others by a number.\<close>

datatype diag_code =
    NoTopModules | CommandLineWarning | CommandLineError
  | UnusedArgument | UnusedAssertionDecl | UnusedDefinition | UnusedGenvar | UnusedImplicitNet
  | UnusedImport | UnusedNet | UnusedParameter | UnusedPort | UnusedTypeParameter | UnusedTypedef
  | UnusedVariable | UnusedWildcardImport
  | OtherCode nat

definition isUnusedCode :: "diag_code \<Rightarrow> bool" where
  "isUnusedCode code \<longleftrightarrow> code \<in> {UnusedArgument, UnusedAssertionDecl, UnusedDefinition, UnusedGenvar,
     UnusedImplicitNet, UnusedImport, UnusedNet, UnusedParameter, UnusedPort, UnusedTypeParameter,
     UnusedTypedef, UnusedVariable, UnusedWildcardImport}"

record diag_note =
  n_location :: source_location
  n_standalone :: bool  \<comment> \<open>\<open>showNoteWithNoLocation\<close>\<close>
  n_id :: nat

record reported =
  rd_code :: diag_code
  rd_severity :: diag_severity
  rd_message :: string
  rd_location :: source_location
  rd_ranges :: "source_range list"
  rd_expansions :: "source_location list"
  rd_notes :: "diag_note list"

record diag_engine =
  noLocation :: source_location
  mapSourceRanges :: "source_location \<Rightarrow> source_range list \<Rightarrow> source_range list"
  getFullyOriginalLoc :: "source_location \<Rightarrow> source_location"
  formatMessage :: "diag_note \<Rightarrow> string"
  getOptionName :: "diag_code \<Rightarrow> string"

text \<open>What the client calls: the UTF-8 decoder, the source manager, the engine, and the
  \<open>.\<close> of the URI pattern.\<close>

record diag_env =
  de_utf8 :: utf8_lib
  de_sources :: source_manager
  de_engine :: diag_engine
  de_dot :: "char \<Rightarrow> bool"

record diagnostic =
  d_range :: lsp_range
  d_severity :: lsp_severity
  d_message :: string
  d_related :: "(location \<times> string) list option"
  d_code :: "string option"
  d_href :: "uri option"
  d_unnecessary :: bool

datatype client_message =
    PublishDiagnostics uri "diagnostic list"
  | ShowWarning string
  | ShowError string

record diag_client =
  m_diagnostics :: "(uri, diagnostic) table"
  m_dirtyUris :: "uri list"
  m_sent :: "client_message list"

definition empty_client :: diag_client where
  "empty_client = \<lparr>m_diagnostics = [], m_dirtyUris = [], m_sent = []\<rparr>"

section \<open>The location of a report\<close>

text \<open>Locations compare by buffer, those of one buffer by offset.\<close>

definition loc_less :: "source_location \<Rightarrow> source_location \<Rightarrow> bool" where
  "loc_less a b \<longleftrightarrow> lbuffer a < lbuffer b \<or> lbuffer a = lbuffer b \<and> loffset a < loffset b"

definition min_loc :: "source_location \<Rightarrow> source_location \<Rightarrow> source_location" where
  "min_loc a b = (if loc_less b a then b else a)"

definition max_loc :: "source_location \<Rightarrow> source_location \<Rightarrow> source_location" where
  "max_loc a b = (if loc_less a b then b else a)"

definition join_range :: "source_range \<Rightarrow> source_range \<Rightarrow> source_range" where
  "join_range tot r = (if lbuffer (fst r) \<noteq> lbuffer (fst tot) then tot
     else (min_loc (fst tot) (fst r), max_loc (snd tot) (snd r)))"

definition collapsed_range :: "source_location \<Rightarrow> source_range list \<Rightarrow> source_location \<Rightarrow> source_range" where
  "collapsed_range none ranges loc =
    (let tot = foldl join_range (hd ranges) (tl ranges) in
     if lbuffer loc \<noteq> lbuffer none \<and> lbuffer loc = lbuffer (fst tot)
     then (min_loc (fst tot) loc, max_loc (snd tot) loc) else tot)"

definition getLocation ::
  "diag_env \<Rightarrow> source_location \<Rightarrow> source_range list \<Rightarrow> location option" where
  "getLocation E loc ranges =
    (if ranges = [] then
       (if lbuffer loc \<noteq> lbuffer (noLocation (de_engine E)) then Some (toLocation_loc (de_utf8 E) (de_sources E) loc) else None)
     else Some (toLocation_range (de_utf8 E) (de_sources E) (collapsed_range (noLocation (de_engine E)) ranges loc)))"

definition expansion_related ::
  "diag_env \<Rightarrow> reported \<Rightarrow> (location \<times> string) list" where
  "expansion_related E d = List.map_filter
     (\<lambda>loc. map_option (\<lambda>l. (l, rd_message d))
        (getLocation E (getFullyOriginalLoc (de_engine E) loc) (mapSourceRanges (de_engine E) loc (rd_ranges d))))
     (rev (rd_expansions d))"

definition note_related ::
  "diag_env \<Rightarrow> location \<Rightarrow> diag_note \<Rightarrow> (location \<times> string) option" where
  "note_related E mainLoc note =
    (if n_location note = noLocation (de_engine E)
     then (if n_standalone note then Some (mainLoc, formatMessage (de_engine E) note) else None)
     else Some (toLocation_loc (de_utf8 E) (de_sources E) (n_location note), formatMessage (de_engine E) note))"

text \<open>\<open>URI::fromWeb\<close> may throw, as any parse of a URI.\<close>

definition warning_link :: "diag_env \<Rightarrow> string \<Rightarrow> uri result" where
  "warning_link E option_name = uri_fromWeb (de_dot E) (''sv-lang.com/warning-ref.html#'' @ option_name)"

text \<open>What a report adds to the table, when it is a diagnostic of a place.\<close>

definition diagnostic_of ::
  "diag_env \<Rightarrow> reported \<Rightarrow> (uri \<times> diagnostic) option" where
  "diagnostic_of E d =
    (case getLocation E (rd_location d) (mapSourceRanges (de_engine E) (rd_location d) (rd_ranges d)) of
       None \<Rightarrow> None
     | Some mainLoc \<Rightarrow>
        (let related = expansion_related E d @ List.map_filter (note_related E mainLoc) (rd_notes d);
             option_name = getOptionName (de_engine E) (rd_code d)
         in Some (l_uri mainLoc,
           \<lparr>d_range = l_range mainLoc, d_severity = convertSeverity (rd_severity d), d_message = rd_message d,
            d_related = (if related = [] then None else Some related),
            d_code = (if option_name = [] then None else Some option_name),
            d_href = (if option_name = [] then None
              else case warning_link E option_name of Inl _ \<Rightarrow> None | Inr u \<Rightarrow> Some u),
            d_unnecessary = (option_name \<noteq> [] \<and> \<not> isl (warning_link E option_name)
              \<and> isUnusedCode (rd_code d))\<rparr>)))"

section \<open>Operations\<close>

definition mark_dirty :: "uri \<Rightarrow> uri list \<Rightarrow> uri list" where
  "mark_dirty u us = (if u \<in> set us then us else us @ [u])"

definition send :: "client_message \<Rightarrow> diag_client \<Rightarrow> diag_client" where
  "send m st = st\<lparr>m_sent := m_sent st @ [m]\<rparr>"

text \<open>The diagnostic is in the table before its link is made, so an exception of the link leaves it
  there without link and tag.\<close>

definition report ::
  "diag_env \<Rightarrow> reported \<Rightarrow> diag_client \<Rightarrow> diag_client \<times> exn option" where
  "report E d st =
    (if rd_code d = NoTopModules then (st, None)
     else if rd_severity d = SevNote then (st, None)
     else if rd_code d = CommandLineWarning then (send (ShowWarning (rd_message d)) st, None)
     else if rd_code d = CommandLineError then (send (ShowError (rd_message d)) st, None)
     else case diagnostic_of E d of
       None \<Rightarrow> (st, None)
     | Some (u, diag) \<Rightarrow> (st\<lparr>m_dirtyUris := mark_dirty u (m_dirtyUris st),
                             m_diagnostics := tab_push u diag (m_diagnostics st)\<rparr>,
         let option_name = getOptionName (de_engine E) (rd_code d) in
         if option_name = [] then None
         else case warning_link E option_name of Inl e \<Rightarrow> Some e | Inr _ \<Rightarrow> None))"

definition clear_uri :: "uri \<Rightarrow> diag_client \<Rightarrow> diag_client" where
  "clear_uri u st = st\<lparr>m_diagnostics := AList.delete u (m_diagnostics st),
                       m_dirtyUris := mark_dirty u (m_dirtyUris st)\<rparr>"

definition publish_empty :: "uri list \<Rightarrow> diag_client \<Rightarrow> diag_client" where
  "publish_empty us st = fold (\<lambda>u. send (PublishDiagnostics u [])) us st"

definition clearAndPush :: "diag_client \<Rightarrow> diag_client" where
  "clearAndPush st =
    (publish_empty (m_dirtyUris st) (publish_empty (map fst (m_diagnostics st)) st))
      \<lparr>m_diagnostics := [], m_dirtyUris := []\<rparr>"

definition clear_all :: "diag_client \<Rightarrow> diag_client" where
  "clear_all st = st\<lparr>m_dirtyUris := fold mark_dirty (map fst (m_diagnostics st)) (m_dirtyUris st),
                     m_diagnostics := []\<rparr>"

definition publish :: "uri \<Rightarrow> diag_client \<Rightarrow> diag_client" where
  "publish u st = send (PublishDiagnostics u (case map_of (m_diagnostics st) u of
     Some ds \<Rightarrow> ds | None \<Rightarrow> [])) st"

definition pushDiags :: "diag_client \<Rightarrow> diag_client" where
  "pushDiags st = (fold publish (m_dirtyUris st) st)\<lparr>m_dirtyUris := []\<rparr>"

definition pushDiags_first :: "uri \<Rightarrow> diag_client \<Rightarrow> diag_client" where
  "pushDiags_first u st =
    (let st1 = (if map_of (m_diagnostics st) u \<noteq> None then publish u st
                else if u \<in> set (m_dirtyUris st) then send (PublishDiagnostics u []) st else st)
     in pushDiags (st1\<lparr>m_dirtyUris := removeAll u (m_dirtyUris st1)\<rparr>))"

datatype diag_op =
    Report reported
  | ClearUri uri
  | ClearAll
  | ClearAndPush
  | Push
  | PushFirst uri

fun diag_step :: "diag_env \<Rightarrow> diag_op \<Rightarrow> diag_client \<Rightarrow> diag_client" where
  "diag_step E (Report d) = (\<lambda>st. fst (report E d st))"
| "diag_step E (ClearUri u) = clear_uri u"
| "diag_step E ClearAll = clear_all"
| "diag_step E ClearAndPush = clearAndPush"
| "diag_step E Push = pushDiags"
| "diag_step E (PushFirst u) = pushDiags_first u"

section \<open>What the editor shows, and what it should\<close>

fun take_message :: "uri \<Rightarrow> client_message \<Rightarrow> diagnostic list \<Rightarrow> diagnostic list" where
  "take_message u (PublishDiagnostics v ds) old = (if v = u then ds else old)"
| "take_message u (ShowWarning m) old = old"
| "take_message u (ShowError m) old = old"

definition shown :: "client_message list \<Rightarrow> uri \<Rightarrow> diagnostic list" where
  "shown ms u = fold (take_message u) ms []"

text \<open>The abstract client: what has been reported of each document since it was last cleared.\<close>

definition reported_as ::
  "diag_env \<Rightarrow> reported \<Rightarrow> (uri \<times> diagnostic) option" where
  "reported_as E d =
    (if rd_code d \<in> {NoTopModules, CommandLineWarning, CommandLineError} \<or> rd_severity d = SevNote
     then None else diagnostic_of E d)"

fun spec_step ::
  "diag_env \<Rightarrow> diag_op \<Rightarrow> (uri \<Rightarrow> diagnostic list) \<Rightarrow> uri \<Rightarrow> diagnostic list" where
  "spec_step E (Report d) f = (case reported_as E d of
     None \<Rightarrow> f | Some (u, diag) \<Rightarrow> f(u := f u @ [diag]))"
| "spec_step E (ClearUri u) f = f(u := [])"
| "spec_step E ClearAll f = (\<lambda>_. [])"
| "spec_step E ClearAndPush f = (\<lambda>_. [])"
| "spec_step E Push f = f"
| "spec_step E (PushFirst u) f = f"

definition simulates :: "diag_client \<Rightarrow> (uri \<Rightarrow> diagnostic list) \<Rightarrow> bool" where
  "simulates st f \<longleftrightarrow> (\<forall>u. tab_get (m_diagnostics st) u = f u) \<and>
     (\<forall>u. u \<in> set (m_dirtyUris st) \<or> shown (m_sent st) u = f u)"

lemma shown_append [simp]: "shown (ms @ [m]) u = take_message u m (shown ms u)"
  by (simp add: shown_def)

lemma send_simps [simp]: "m_sent (send m st) = m_sent st @ [m]"
  "m_diagnostics (send m st) = m_diagnostics st" "m_dirtyUris (send m st) = m_dirtyUris st"
  by (simp_all add: send_def)

lemma publish_simps [simp]:
  "m_diagnostics (publish u st) = m_diagnostics st" "m_dirtyUris (publish u st) = m_dirtyUris st"
  "shown (m_sent (publish u st)) v = (if v = u then tab_get (m_diagnostics st) u else shown (m_sent st) v)"
  by (simp_all add: publish_def tab_get_def)

lemma publish_all:
  "m_diagnostics (fold publish us st) = m_diagnostics st \<and> m_dirtyUris (fold publish us st) = m_dirtyUris st
   \<and> (\<forall>v. shown (m_sent (fold publish us st)) v
        = (if v \<in> set us then tab_get (m_diagnostics st) v else shown (m_sent st) v))"
  by (induction us arbitrary: st) auto

lemma publish_empty_shown:
  "shown (m_sent (publish_empty us st)) v = (if v \<in> set us then [] else shown (m_sent st) v)"
  by (induction us arbitrary: st) (auto simp: publish_empty_def)

lemma mark_dirty_set [simp]: "set (mark_dirty u us) = insert u (set us)"
  by (auto simp: mark_dirty_def)

lemma mark_all_set [simp]: "set (fold mark_dirty ks us) = set ks \<union> set us"
  by (induction ks arbitrary: us) auto

lemma tab_get_None: "map_of t u = None \<Longrightarrow> tab_get t u = []"
  by (simp add: tab_get_def)

lemma tab_get_absent: "u \<notin> set (map fst t) \<Longrightarrow> tab_get t u = []"
  by (simp add: tab_get_None map_of_eq_None_iff)

lemma pushDiags_simulates: "simulates st f \<Longrightarrow> simulates (pushDiags st) f"
  using publish_all [of "m_dirtyUris st" st] by (auto simp: simulates_def pushDiags_def)

lemma pushDiags_first_simulates:
  assumes "simulates st f"
  shows "simulates (pushDiags_first u st) f"
proof -
  let ?st1 = "if map_of (m_diagnostics st) u \<noteq> None then publish u st
    else if u \<in> set (m_dirtyUris st) then send (PublishDiagnostics u []) st else st"
  have "simulates (?st1\<lparr>m_dirtyUris := removeAll u (m_dirtyUris ?st1)\<rparr>) f"
    using assms tab_get_None [of "m_diagnostics st" u] by (auto simp: simulates_def)
  then show ?thesis unfolding pushDiags_first_def Let_def by (rule pushDiags_simulates)
qed

lemma report_simulates:
  assumes "simulates st f"
  shows "simulates (fst (report E d st)) (spec_step E (Report d) f)"
  using assms
  by (auto simp: simulates_def report_def reported_as_def tab_get_push split: option.splits)

lemma clearAndPush_simulates: "simulates st f \<Longrightarrow> simulates (clearAndPush st) (\<lambda>_. [])"
  using tab_get_absent [of _ "m_diagnostics st"]
  by (auto simp: simulates_def clearAndPush_def publish_empty_shown tab_get_def)

lemma clear_all_simulates: "simulates st f \<Longrightarrow> simulates (clear_all st) (\<lambda>_. [])"
  using tab_get_absent [of _ "m_diagnostics st"]
  by (auto simp: simulates_def clear_all_def tab_get_def)

lemma clear_uri_simulates: "simulates st f \<Longrightarrow> simulates (clear_uri u st) (f(u := []))"
  by (auto simp: simulates_def clear_uri_def tab_get_def delete_conv')

lemma diag_step_simulates: "simulates st f \<Longrightarrow> simulates (diag_step E op st) (spec_step E op f)"
  by (cases op) (simp_all add: report_simulates clear_uri_simulates clear_all_simulates
      clearAndPush_simulates pushDiags_simulates pushDiags_first_simulates del: spec_step.simps(1))

lemma diag_run_simulates:
  "simulates st f \<Longrightarrow> simulates (fold (diag_step E) ops st) (fold (spec_step E) ops f)"
  by (induction ops arbitrary: st f) (simp_all add: diag_step_simulates)

lemma empty_simulates: "simulates empty_client (\<lambda>_. [])"
  by (simp add: simulates_def empty_client_def tab_get_def shown_def)

text \<open>Nothing waits after a push.\<close>

fun pushing :: "diag_op \<Rightarrow> bool" where
  "pushing Push = True" | "pushing (PushFirst u) = True" | "pushing ClearAndPush = True" | "pushing op = False"

lemma pushing_clean: "pushing op \<Longrightarrow> m_dirtyUris (diag_step E op st) = []"
  by (cases op) (simp_all add: pushDiags_def pushDiags_first_def clearAndPush_def)

section \<open>A small engine\<close>

text \<open>Only the witness uses it.\<close>

definition sample_env :: diag_env where
  "sample_env = \<lparr>de_utf8 = sample_utf8, de_sources = sample_sm ''module m;'',
     de_engine = \<lparr>noLocation = loc_at 99 0, mapSourceRanges = (\<lambda>_ rs. rs), getFullyOriginalLoc = id,
       formatMessage = (\<lambda>_. []), getOptionName = (\<lambda>_. ''unused'')\<rparr>,
     de_dot = (\<lambda>c. c \<noteq> CHR 0x0A)\<rparr>"

definition sample_report :: reported where
  "sample_report = \<lparr>rd_code = UnusedPort, rd_severity = SevWarning, rd_message = ''unused'',
     rd_location = loc_at 0 7, rd_ranges = [], rd_expansions = [], rd_notes = []\<rparr>"

section \<open>Properties\<close>

text \<open>C13. The editor never keeps stale diagnostics: after any sequence of reports, clearings and
  pushes that ends in a push, what it shows of every document is exactly what has been reported of
  it since it was last cleared.\<close>

theorem editor_shows_reported:
  assumes "pushing op"
  shows "shown (m_sent (fold (diag_step E) (ops @ [op]) empty_client)) u
    = fold (spec_step E) (ops @ [op]) (\<lambda>_. []) u"
proof -
  have "simulates (fold (diag_step E) (ops @ [op]) empty_client) (fold (spec_step E) (ops @ [op]) (\<lambda>_. []))"
    by (rule diag_run_simulates [OF empty_simulates])
  then show ?thesis using pushing_clean [OF assms] by (simp add: simulates_def)
qed

theorem editor_shows_reported_witness:
  "map d_message (shown (m_sent (fold (diag_step sample_env) ([ClearAll, Report sample_report] @ [Push]) empty_client))
     (uri_fromFile ''/a.sv'')) = [''unused'']"
proof -
  have "reported_as sample_env sample_report = diagnostic_of sample_env sample_report"
    by (simp add: reported_as_def sample_report_def)
  moreover have "map_option (\<lambda>(u, d). (u, d_message d)) (diagnostic_of sample_env sample_report)
      = Some (uri_fromFile ''/a.sv'', ''unused'')"
    by (simp add: diagnostic_of_def getLocation_def sample_env_def sample_report_def toLocation_loc_def
        sample_sm_def Let_def)
  ultimately obtain d where "reported_as sample_env sample_report = Some (uri_fromFile ''/a.sv'', d)" "d_message d = ''unused''"
    by (auto simp: map_option_eq_Some)
  then show ?thesis
    using editor_shows_reported [of Push sample_env "[ClearAll, Report sample_report]" "uri_fromFile ''/a.sv''"] by simp
qed

end
