(* ===== verification/Formatting.thy ===== *)
theory Formatting
  imports Utf Markdown
begin

text \<open>
  Formatting of source text for hovers and completions, from src/util/Formatting.cpp: blank lines
  and indentation, squashed spaces, code blocks, doc comments found in the trivia of a declaration,
  camel case and the strings of ports and constants.

  The printers of slang are parameters, as the text they print; so is its \<open>isWhitespace\<close>. The
  syntax tree is seen through what the functions read of it: the trivia of tokens, the chain of a
  node's ancestors and the members before it. In the C locale \<open>isspace\<close> is false on the bytes
  from 128 on.
\<close>

section \<open>Lines\<close>

text \<open>The lines \<open>std::getline\<close> reads: no line follows the last newline.\<close>

abbreviation nl :: char where
  "nl \<equiv> CHR 0x0A"

function getlines :: "string \<Rightarrow> string list" where
  "getlines s = (if s = [] then []
     else takeWhile (\<lambda>c. c \<noteq> nl) s # getlines (tl (dropWhile (\<lambda>c. c \<noteq> nl) s)))"
  by pat_completeness auto
termination
proof (relation "measure length", goal_cases)
  case (2 s)
  then show ?case using length_dropWhile_le [of "\<lambda>c. c \<noteq> nl" s]
    by (cases s; cases "dropWhile (\<lambda>c. c \<noteq> nl) s") auto
qed simp

declare getlines.simps [simp del]

definition unlines :: "string list \<Rightarrow> string" where
  "unlines ls = concat (map (\<lambda>l. l @ [nl]) ls)"

text \<open>\<open>s.resize(s.size() - 1)\<close>: on an empty string the size wraps around and \<open>resize\<close> throws.\<close>

definition drop_last_char :: "string \<Rightarrow> string result" where
  "drop_last_char s = (if s = [] then Inl LengthError else Inr (butlast s))"

definition isSingleLine :: "string \<Rightarrow> bool" where
  "isSingleLine s \<longleftrightarrow> nl \<notin> set s"

definition ltrim :: "string \<Rightarrow> string" where
  "ltrim s = dropWhile isspace s"

definition rtrim :: "string \<Rightarrow> string" where
  "rtrim s = rev (dropWhile isspace (rev s))"

text \<open>Everything up to the last newline before the first token goes.\<close>

definition stripBlankLines :: "(char \<Rightarrow> bool) \<Rightarrow> string \<Rightarrow> string" where
  "stripBlankLines ws s = (let before = takeWhile ws s in
     if nl \<in> set before then rev (takeWhile (\<lambda>c. c \<noteq> nl) (rev before)) @ dropWhile ws s else s)"

section \<open>Indentation\<close>

definition indent_of :: "char \<Rightarrow> string \<Rightarrow> nat" where
  "indent_of iChar line = length (takeWhile (\<lambda>c. c = iChar) line)"

definition remove_indent :: "char \<Rightarrow> nat \<Rightarrow> string \<Rightarrow> string" where
  "remove_indent iChar n line = drop (min n (indent_of iChar line)) line"

definition content_indents :: "char \<Rightarrow> string list \<Rightarrow> nat list" where
  "content_indents iChar ls = map (indent_of iChar) (filter (\<lambda>l. l \<noteq> [] \<and> indent_of iChar l < length l) ls)"

definition indent_char :: "string \<Rightarrow> char" where
  "indent_char s = (if CHR 0x09 \<in> set s then CHR 0x09 else CHR '' '')"

definition shiftIndent :: "string \<Rightarrow> string result" where
  "shiftIndent s =
    (if s = [] then Inr s
     else if isSingleLine s then Inr (ltrim s)
     else let iChar = indent_char s;
              indents = content_indents iChar (tl (getlines s))
          in if indents = [] \<or> Min (set indents) = 0 then Inr s
             else drop_last_char (unlines
               (map (remove_indent iChar (Min (set indents))) (filter (\<lambda>l. l \<noteq> []) (getlines s)))))"

section \<open>Squashed spaces\<close>

fun squash_content :: "bool \<Rightarrow> string \<Rightarrow> string" where
  "squash_content inSpaces [] = []"
| "squash_content inSpaces (c # cs) =
    (if c = CHR '' '' then (if inSpaces then squash_content True cs else c # squash_content True cs)
     else c # squash_content False cs)"

abbreviation space_or_tab :: "char \<Rightarrow> bool" where
  "space_or_tab c \<equiv> c = CHR '' '' \<or> c = CHR 0x09"

definition squash_line :: "string \<Rightarrow> string" where
  "squash_line line = takeWhile space_or_tab line @ squash_content False (dropWhile space_or_tab line)"

definition squashSpaces :: "string \<Rightarrow> string result" where
  "squashSpaces s = (if s = [] then Inr s
     else drop_last_char (unlines (map squash_line (filter (\<lambda>l. l \<noteq> []) (getlines s)))))"

section \<open>Printed code\<close>

definition detailFormat :: "(char \<Rightarrow> bool) \<Rightarrow> string \<Rightarrow> string result" where
  "detailFormat ws printed = map_sum id ltrim (squashSpaces (stripBlankLines ws printed))"

definition svCodeBlockString :: "utf8_lib \<Rightarrow> (char \<Rightarrow> bool) \<Rightarrow> string \<Rightarrow> string result" where
  "svCodeBlockString L ws code = map_sum id
     (\<lambda>res. ''````systemverilog'' @ [nl] @ res @ [nl] @ ''````'')
     (shiftIndent (stripBlankLines ws (escapeInvalidUtf8 L code)))"

definition formatDocComment :: "(char \<Rightarrow> bool) \<Rightarrow> string \<Rightarrow> string result" where
  "formatDocComment ws printed = (if printed = [] then Inr []
     else map_sum id (\<lambda>res. rtrim res @ [nl]) (shiftIndent (stripBlankLines ws printed)))"

definition formatCode :: "(char \<Rightarrow> bool) \<Rightarrow> string \<Rightarrow> string result" where
  "formatCode ws printed =
    (case (if isSingleLine printed then squashSpaces printed else Inr printed) of
       Inl e \<Rightarrow> Inl e | Inr res \<Rightarrow> shiftIndent (stripBlankLines ws res))"

definition formatCodeWithLeadingComments :: "(char \<Rightarrow> bool) \<Rightarrow> string \<Rightarrow> string result" where
  "formatCodeWithLeadingComments ws printed = shiftIndent (stripBlankLines ws printed)"

definition svCodeBlock_node :: "utf8_lib \<Rightarrow> (char \<Rightarrow> bool) \<Rightarrow> string \<Rightarrow> string \<Rightarrow> string result" where
  "svCodeBlock_node L ws comments code = (case formatDocComment ws comments of
     Inl e \<Rightarrow> Inl e
   | Inr doc \<Rightarrow> (case formatCode ws code of
       Inl e \<Rightarrow> Inl e | Inr res \<Rightarrow> svCodeBlockString L ws (doc @ res)))"

section \<open>Camel case\<close>

text \<open>The loop over the second to the last but one character: the characters from \<open>i\<close> on, and
  whether the first of them is upper case.\<close>

fun camel_loop :: "bool \<Rightarrow> string \<Rightarrow> string" where
  "camel_loop currentIsUpper (c # d # cs) =
    (let nextIsUpper = isupper d in
     if currentIsUpper \<and> nextIsUpper then tolower c # camel_loop nextIsUpper (d # cs)
     else c # d # cs)"
| "camel_loop currentIsUpper [c] = [if currentIsUpper then tolower c else c]"
| "camel_loop currentIsUpper [] = []"

definition toCamelCase :: "string \<Rightarrow> string" where
  "toCamelCase str = (case str of
     [] \<Rightarrow> []
   | [c] \<Rightarrow> [tolower c]
   | c # d # cs \<Rightarrow> tolower c # camel_loop (isupper d) (d # cs))"

section \<open>Ports and constants\<close>

datatype direction = DirIn | DirOut | DirInOut | DirRef

fun portString :: "direction \<Rightarrow> string" where
  "portString DirIn = ''input''"
| "portString DirOut = ''output''"
| "portString DirInOut = ''inout''"
| "portString DirRef = ''ref''"

text \<open>The directions of the modport port that a value is, and of the port that refers to it.\<close>

definition getTypeString_value :: "direction option \<Rightarrow> direction option \<Rightarrow> string \<Rightarrow> string" where
  "getTypeString_value modportPort port typeString =
    (case modportPort of
       Some dir \<Rightarrow> portString dir @ '' '' @ typeString
     | None \<Rightarrow> (case port of
         Some dir \<Rightarrow> portString dir @ '' '' @ typeString
       | None \<Rightarrow> typeString))"

record constant_value =
  cv_integer :: "(nat \<times> bool) option"  \<comment> \<open>bit width, unknown bits\<close>
  cv_true :: bool
  cv_string :: "string option"
  cv_toString :: string

definition formatConstantValue :: "utf8_lib \<Rightarrow> constant_value \<Rightarrow> string" where
  "formatConstantValue L v =
    (if cv_integer v = Some (1, False) then (if cv_true v then ''1'' else ''0'')
     else case cv_string v of
       Some str \<Rightarrow> (if isValidUtf8 L str then cv_toString v else escapeInvalidUtf8 L str)
     | None \<Rightarrow> cv_toString v)"

section \<open>Trivia\<close>

datatype trivia_kind =
    TvWhitespace | TvEndOfLine | TvLineComment | TvBlockComment | TvDirective | TvOther

text \<open>A directive brings the trivia of its own first token.\<close>

datatype trivia = Trivia (tv_kind: trivia_kind) (tv_text: string) (tv_directive: "trivia list option")

text \<open>The walk backwards through the trivia before a token, given in reverse. The state: the last
  comment seen, the start found so far, whether the last trivia was a newline, and the newlines
  below the first comment.\<close>

fun doc_walk :: "trivia_kind list \<Rightarrow> nat option \<Rightarrow> nat option \<Rightarrow> bool \<Rightarrow> nat \<Rightarrow> nat option" where
  "doc_walk [] lastComment start lastIsNewline newlines = start"
| "doc_walk (k # ks) lastComment start lastIsNewline newlines = (case k of
     TvEndOfLine \<Rightarrow>
       (if lastComment = None then
          (if newlines + 1 > 1 then start else doc_walk ks lastComment lastComment True (newlines + 1))
        else if lastIsNewline then start
        else doc_walk ks lastComment lastComment True newlines)
   | TvBlockComment \<Rightarrow> Some (length ks)
   | TvLineComment \<Rightarrow> doc_walk ks (Some (length ks)) start False newlines
   | _ \<Rightarrow> doc_walk ks lastComment start False newlines)"

definition findLeadingDocCommentStart :: "trivia list \<Rightarrow> nat option" where
  "findLeadingDocCommentStart ts = doc_walk (rev (map tv_kind ts)) None None False 0"

section \<open>Comments\<close>

datatype comment_format = PlainText | MarkdownText

definition strip_prefix :: "string \<Rightarrow> string \<Rightarrow> string" where
  "strip_prefix p s = (if starts_with s p then drop (length p) s else s)"

definition strip_suffix_of :: "string \<Rightarrow> string \<Rightarrow> string" where
  "strip_suffix_of p s = (if ends_with s p then take (length s - length p) s else s)"

definition comment_line :: "trivia_kind \<Rightarrow> comment_format \<Rightarrow> string \<Rightarrow> string" where
  "comment_line kind fmt line0 =
    (let line = ltrim line0;
         body = (if kind = TvLineComment
                 then (if starts_with line ''///'' then drop 3 line else strip_prefix ''//'' line)
                 else strip_prefix ''*'' line);
         body = ltrim body;
         shown = (case fmt of PlainText \<Rightarrow> escapeMarkdownLine body | MarkdownText \<Rightarrow> body)
     in shown @ (if body \<noteq> [] then ''  '' @ [nl] else [nl]))"

text \<open>The pieces between newlines, the last one also when it is empty.\<close>

function split_nl :: "string \<Rightarrow> string list" where
  "split_nl s = (case dropWhile (\<lambda>c. c \<noteq> nl) s of
     [] \<Rightarrow> [s] | _ # rest \<Rightarrow> takeWhile (\<lambda>c. c \<noteq> nl) s # split_nl rest)"
  by pat_completeness auto
termination
proof (relation "measure length", goal_cases)
  case (2 s c rest)
  then show ?case using length_dropWhile_le [of "\<lambda>c. c \<noteq> nl" s] by simp
qed simp

declare split_nl.simps [simp del]

definition block_text :: "string \<Rightarrow> string" where
  "block_text raw =
    (let opened = (if starts_with raw ''/*'' then strip_prefix ''*'' (drop 2 raw) else raw)
     in if ends_with opened ''*/'' then strip_suffix_of ''*'' (take (length opened - 2) opened) else opened)"

definition appendComment :: "comment_format \<Rightarrow> trivia \<Rightarrow> string" where
  "appendComment fmt t = (case tv_kind t of
     TvLineComment \<Rightarrow> comment_line TvLineComment fmt (tv_text t)
   | TvBlockComment \<Rightarrow> concat (map (comment_line TvBlockComment fmt) (split_nl (block_text (tv_text t))))
   | _ \<Rightarrow> [])"

fun appendLineComments :: "comment_format \<Rightarrow> trivia list \<Rightarrow> string" where
  "appendLineComments fmt [] = []"
| "appendLineComments fmt (t # ts) =
    (if tv_kind t = TvWhitespace then appendLineComments fmt ts
     else if tv_kind t \<noteq> TvLineComment \<and> tv_kind t \<noteq> TvBlockComment then []
     else appendComment fmt t @ appendLineComments fmt ts)"

text \<open>The comments in the trivia of one following token, and whether the line goes on after it.\<close>

fun trailing_trivia :: "comment_format \<Rightarrow> trivia list \<Rightarrow> string \<times> bool" where
  "trailing_trivia fmt [] = ([], True)"
| "trailing_trivia fmt (t # ts) = (case tv_kind t of
     TvWhitespace \<Rightarrow> trailing_trivia fmt ts
   | TvLineComment \<Rightarrow> apfst ((@) (appendComment fmt t)) (trailing_trivia fmt ts)
   | TvBlockComment \<Rightarrow> apfst ((@) (appendComment fmt t)) (trailing_trivia fmt ts)
   | TvDirective \<Rightarrow> (case tv_directive t of
       None \<Rightarrow> ([], False) | Some own \<Rightarrow> (appendLineComments fmt own, False))
   | _ \<Rightarrow> ([], False))"

fun appendTrailingComment :: "comment_format \<Rightarrow> trivia list list \<Rightarrow> string" where
  "appendTrailingComment fmt [] = []"
| "appendTrailingComment fmt (token # tokens) = (case trailing_trivia fmt token of
     (out, goes_on) \<Rightarrow> out @ (if goes_on then appendTrailingComment fmt tokens else []))"

section \<open>Declarations\<close>

datatype node_kind =
    NkClassMethodDeclaration | NkClassPropertyDeclaration | NkParameterDeclarationStatement | NkOther

definition isQualifierWrapper :: "node_kind \<Rightarrow> bool" where
  "isQualifierWrapper k \<longleftrightarrow>
     k \<in> {NkClassMethodDeclaration, NkClassPropertyDeclaration, NkParameterDeclarationStatement}"

text \<open>A node and its ancestors up to the root, each with its kind and the location of its first
  token; the climb never takes the root.\<close>

fun getDeclarationElement :: "(node_kind \<times> 'a) list \<Rightarrow> nat" where
  "getDeclarationElement (n # p # g # up) =
    (if snd p \<noteq> snd n \<and> \<not> isQualifierWrapper (fst p) then 0
     else Suc (getDeclarationElement (p # g # up)))"
| "getDeclarationElement up = 0"

definition countNewlines :: "trivia list \<Rightarrow> nat" where
  "countNewlines ts = length (filter (\<lambda>t. tv_kind t = TvEndOfLine) ts)"

text \<open>The members that end at a declaration, it first, each as the trivia of its first token.\<close>

fun findCommentBlock :: "trivia list list \<Rightarrow> (trivia list \<times> nat) option" where
  "findCommentBlock [] = None"
| "findCommentBlock (ts # previous) = (case findLeadingDocCommentStart ts of
     Some i \<Rightarrow> Some (ts, i)
   | None \<Rightarrow> if previous = [] \<or> countNewlines ts \<noteq> 1 then None else findCommentBlock previous)"

definition getDocCommentForHover :: "comment_format \<Rightarrow> trivia list list \<Rightarrow> trivia list list \<Rightarrow> string" where
  "getDocCommentForHover fmt members following =
    (case findCommentBlock members of
       None \<Rightarrow> []
     | Some (ts, i) \<Rightarrow> concat (map (appendComment fmt) (drop i ts)))
    @ appendTrailingComment fmt following"

section \<open>Facts about lines\<close>

lemma getlines_Nil [simp]: "getlines [] = []"
  by (simp add: getlines.simps)

lemma some_content: "xs \<noteq> [] \<Longrightarrow> hd xs \<noteq> nl \<Longrightarrow> \<exists>c \<in> set xs. c \<noteq> nl"
  by (cases xs) auto

lemma hd_takeWhile_ne: "takeWhile (\<lambda>c. c \<noteq> nl) xs \<noteq> [] \<Longrightarrow> hd (takeWhile (\<lambda>c. c \<noteq> nl) xs) \<noteq> nl"
  by (cases xs) (auto split: if_splits)

lemma getlines_content: "(\<exists>l \<in> set (getlines s). l \<noteq> []) \<longleftrightarrow> (\<exists>c \<in> set s. c \<noteq> nl)"
proof (induction s rule: getlines.induct)
  case (1 s)
  show ?case
  proof (cases "s = []")
    case False
    let ?r = "dropWhile (\<lambda>c. c \<noteq> nl) s"
    have sets: "set s = set (takeWhile (\<lambda>c. c \<noteq> nl) s) \<union> set ?r" by (metis set_append takeWhile_dropWhile_id)
    have r: "?r = [] \<or> ?r = nl # tl ?r" using hd_dropWhile [of "\<lambda>c. c \<noteq> nl" s] by (cases ?r) auto
    let ?w = "takeWhile (\<lambda>c. c \<noteq> nl) s"
    have w: "(\<exists>c \<in> set ?w. c \<noteq> nl) \<longleftrightarrow> ?w \<noteq> []"
      using some_content [of ?w] hd_takeWhile_ne [of s] by fastforce
    have t: "(\<exists>c \<in> set ?r. c \<noteq> nl) \<longleftrightarrow> (\<exists>c \<in> set (tl ?r). c \<noteq> nl)"
    proof (cases ?r)
      case (Cons a as)
      then show ?thesis using r by auto
    next
      case Nil
      show ?thesis unfolding Nil by simp
    qed
    have "(\<exists>c \<in> set s. c \<noteq> nl) \<longleftrightarrow> ?w \<noteq> [] \<or> (\<exists>c \<in> set (tl ?r). c \<noteq> nl)"
      by (simp only: sets bex_Un w t)
    then show ?thesis using 1 [OF False] False by (simp add: getlines.simps [of s])
  qed simp
qed

lemma getlines_no_nl: "l \<in> set (getlines s) \<Longrightarrow> nl \<notin> set l"
proof (induction s rule: getlines.induct)
  case (1 s)
  then show ?case by (cases "s = []") (auto simp: getlines.simps [of s] dest: set_takeWhileD)
qed

lemma drop_last_unlines: "ls \<noteq> [] \<Longrightarrow> drop_last_char (unlines ls) = Inr (butlast (unlines ls))"
  by (cases ls) (simp_all add: drop_last_char_def unlines_def)

lemma squash_total: "s = [] \<or> (\<exists>c \<in> set s. c \<noteq> nl) \<Longrightarrow> \<exists>t. squashSpaces s = Inr t"
proof -
  assume a: "s = [] \<or> (\<exists>c \<in> set s. c \<noteq> nl)"
  then have "s = [] \<or> map squash_line (filter (\<lambda>l. l \<noteq> []) (getlines s)) \<noteq> []"
    using getlines_content [of s] by (auto simp: filter_empty_conv)
  then show ?thesis using drop_last_unlines by (auto simp: squashSpaces_def)
qed

lemma content_line: "content_indents iChar (tl ls) \<noteq> [] \<Longrightarrow> filter (\<lambda>l. l \<noteq> []) ls \<noteq> []"
  by (cases ls) (auto simp: content_indents_def filter_empty_conv)

lemma shift_total: "\<exists>t. shiftIndent s = Inr t"
  using content_line [of "indent_char s" "getlines s"]
  by (auto simp: shiftIndent_def Let_def drop_last_unlines)

lemma strip_content:
  assumes "ws nl" "stripBlankLines ws s \<noteq> []"
  shows "\<exists>c \<in> set (stripBlankLines ws s). c \<noteq> nl"
proof -
  let ?b = "takeWhile ws s" and ?r = "dropWhile ws s"
  have hr: "?r \<noteq> [] \<Longrightarrow> hd ?r \<noteq> nl" using hd_dropWhile [of ws s] assms(1) by auto
  show ?thesis
  proof (cases "nl \<in> set ?b")
    case True
    let ?p = "takeWhile (\<lambda>c. c \<noteq> nl) (rev ?b)"
    have e: "stripBlankLines ws s = rev ?p @ ?r" using True by (simp add: stripBlankLines_def Let_def)
    show ?thesis
    proof (cases "?p = []")
      case True
      then have "stripBlankLines ws s = ?r" using e by simp
      then show ?thesis using some_content [of ?r] hr assms(2) by metis
    next
      case False
      then have "\<exists>c \<in> set ?p. c \<noteq> nl" by (intro some_content hd_takeWhile_ne)
      then show ?thesis unfolding e by fastforce
    qed
  next
    case False
    then have e: "stripBlankLines ws s = s" by (simp add: stripBlankLines_def Let_def)
    show ?thesis
    proof (cases "?b = []")
      case True
      then have "?r = s" by (metis append_Nil takeWhile_dropWhile_id)
      then show ?thesis using some_content [of s] hr assms(2) e by metis
    next
      case f: False
      then obtain c where "c \<in> set ?b" by (cases ?b) auto
      then have "c \<in> set s" "c \<noteq> nl" using False set_takeWhileD [of c ws s] by auto
      then show ?thesis using e by auto
    qed
  qed
qed

section \<open>Pieces between newlines\<close>

lemma split_nl_unlines:
  "\<forall>l \<in> set (ls @ [l']). nl \<notin> set l \<Longrightarrow> split_nl (unlines ls @ l') = ls @ [l']"
proof (induction ls)
  case Nil
  then have d: "dropWhile (\<lambda>c. c \<noteq> nl) l' = []" by (auto simp: dropWhile_eq_Nil_conv)
  show ?case by (simp add: unlines_def split_nl.simps [of l'] d del: dropWhile_eq_Nil_conv)
next
  case (Cons l ls)
  have "\<forall>c \<in> set l. c \<noteq> nl" using Cons.prems by auto
  then have "takeWhile (\<lambda>c. c \<noteq> nl) (l @ nl # unlines ls @ l') = l"
    "dropWhile (\<lambda>c. c \<noteq> nl) (l @ nl # unlines ls @ l') = nl # unlines ls @ l'"
    by (simp_all add: takeWhile_append_stop dropWhile_append_stop)
  then have "split_nl (l @ nl # unlines ls @ l') = l # split_nl (unlines ls @ l')"
    by (simp add: split_nl.simps [of "l @ nl # unlines ls @ l'"])
  then show ?case using Cons by (simp add: unlines_def)
qed

lemma split_nl_joined:
  assumes "ls \<noteq> []" "\<forall>l \<in> set ls. nl \<notin> set l"
  shows "split_nl (butlast (unlines ls)) = ls"
proof -
  obtain xs x where e: "ls = xs @ [x]" using assms(1) by (cases ls rule: rev_cases) auto
  have "butlast (unlines ls) = unlines xs @ x" by (simp add: e unlines_def butlast_append)
  then show ?thesis using split_nl_unlines [of xs x] assms(2) e by simp
qed

lemma remove_indent_split: "indent_of i l \<ge> n \<Longrightarrow> l = replicate n i @ remove_indent i n l"
proof -
  assume n: "indent_of i l \<ge> n"
  have "\<forall>c \<in> set (takeWhile (\<lambda>c. c = i) l). c = i" using set_takeWhileD by fastforce
  then have "takeWhile (\<lambda>c. c = i) l = replicate (indent_of i l) i"
    by (metis indent_of_def replicate_eqI)
  moreover have "take n l = take n (takeWhile (\<lambda>c. c = i) l)"
    using n by (metis append_take_drop_id indent_of_def take_append takeWhile_dropWhile_id diff_is_0_eq take_0 append_Nil2)
  ultimately have "take n l = replicate n i" using n by (simp add: min_absorb1)
  then show ?thesis using n by (metis append_take_drop_id min_absorb1 remove_indent_def)
qed

section \<open>Runs of capitals\<close>

lemma camel_loop_run:
  "cs \<noteq> [] \<Longrightarrow> camel_loop (isupper (hd cs)) cs = (let run = length (takeWhile isupper cs);
     k = (if run = length cs then run else run - 1) in map tolower (take k cs) @ drop k cs)"
proof (induction cs)
  case (Cons c cs)
  show ?case
  proof (cases cs)
    case Nil
    then show ?thesis by simp
  next
    case (Cons d ds)
    then show ?thesis
    proof (cases "isupper c \<and> isupper d")
      case True
      then have "camel_loop (isupper c) (c # cs) = tolower c # camel_loop (isupper (hd cs)) cs" using Cons by simp
      moreover have "length (takeWhile isupper cs) > 0" using True Cons by simp
      ultimately show ?thesis using Cons.IH True Cons by (auto simp: Let_def take_Cons' drop_Cons')
    next
      case False
      then show ?thesis using Cons by (auto simp: Let_def)
    qed
  qed
qed simp

section \<open>The block above a declaration\<close>

fun no_blank_line :: "trivia_kind list \<Rightarrow> bool" where
  "no_blank_line (k # l # ks) \<longleftrightarrow> \<not> (k = TvEndOfLine \<and> l = TvEndOfLine) \<and> no_blank_line (l # ks)"
| "no_blank_line ks \<longleftrightarrow> True"

definition is_comment :: "trivia_kind \<Rightarrow> bool" where
  "is_comment k \<longleftrightarrow> k = TvLineComment \<or> k = TvBlockComment"

lemma no_blank_Cons: "no_blank_line (k # ks) \<longleftrightarrow> (k = TvEndOfLine \<longrightarrow> ks = [] \<or> hd ks \<noteq> TvEndOfLine) \<and> no_blank_line ks"
  by (cases ks) auto

text \<open>The invariant of the walk: \<open>passed\<close> is what it has passed, in order.\<close>

definition walk_inv :: "trivia_kind list \<Rightarrow> trivia_kind list \<Rightarrow> nat option \<Rightarrow> nat option \<Rightarrow> bool \<Rightarrow> nat \<Rightarrow> bool" where
  "walk_inv all passed lastComment start lastNl newlines \<longleftrightarrow>
     no_blank_line passed \<and> (lastNl \<longleftrightarrow> passed \<noteq> [] \<and> hd passed = TvEndOfLine) \<and>
     (lastComment = None \<longrightarrow> start = None \<and> newlines = length (filter (\<lambda>k. k = TvEndOfLine) passed)
        \<and> \<not> list_ex is_comment passed) \<and>
     (\<forall>i. lastComment = Some i \<or> start = Some i \<longrightarrow> i < length all \<and> is_comment (all ! i) \<and> no_blank_line (drop i all))"

lemma doc_walk_block:
  assumes "all = rev ks @ passed" "walk_inv all passed lastComment start lastNl newlines"
    "doc_walk ks lastComment start lastNl newlines = Some i"
  shows "i < length all \<and> is_comment (all ! i) \<and> no_blank_line (drop i all)"
  using assms
proof (induction ks arbitrary: passed lastComment start lastNl newlines)
  case Nil
  then show ?case by (simp add: walk_inv_def)
next
  case (Cons k ks)
  have all: "all = rev ks @ k # passed" using Cons.prems(1) by simp
  then have at: "length ks < length all" "all ! length ks = k" "drop (length ks) all = k # passed"
    by (simp_all add: nth_append)
  note inv = Cons.prems(2)[unfolded walk_inv_def]
  have nb: "k \<noteq> TvEndOfLine \<Longrightarrow> no_blank_line (k # passed)" using inv by (simp add: no_blank_Cons)
  show ?case
  proof (cases k)
    case TvEndOfLine
    have stop: ?thesis if "start = Some i" using inv that by blast
    have go: ?thesis if "\<not> lastNl" "doc_walk ks lastComment lastComment True n = Some i"
      "lastComment = None \<longrightarrow> n = newlines + 1" for n
    proof (rule Cons.IH [OF all _ that(2)])
      show "walk_inv all (k # passed) lastComment lastComment True n"
        using inv that(1,3) TvEndOfLine by (auto simp: walk_inv_def no_blank_Cons is_comment_def)
    qed
    show ?thesis
    proof (cases "lastComment = None")
      case True
      show ?thesis
      proof (cases "newlines = 0")
        case z: True
        have "\<not> lastNl" using inv True z by (cases passed) auto
        then show ?thesis using go [of "newlines + 1"] Cons.prems(3) TvEndOfLine True z by simp
      next
        case False
        then show ?thesis using stop Cons.prems(3) TvEndOfLine True by simp
      qed
    next
      case False
      then show ?thesis using stop go [of newlines] Cons.prems(3) TvEndOfLine by (cases lastNl) auto
    qed
  next
    case TvBlockComment
    then show ?thesis using Cons.prems(3) at nb by (auto simp: is_comment_def)
  next
    case TvLineComment
    then have w: "doc_walk ks (Some (length ks)) start False newlines = Some i" using Cons.prems(3) by simp
    show ?thesis
    proof (rule Cons.IH [OF all _ w])
      show "walk_inv all (k # passed) (Some (length ks)) start False newlines"
        using inv nb at TvLineComment by (auto simp: walk_inv_def is_comment_def)
    qed
  next
    case TvWhitespace
    show ?thesis
    proof (rule Cons.IH [OF all])
      show "walk_inv all (k # passed) lastComment start False newlines"
        using inv nb TvWhitespace by (auto simp: walk_inv_def is_comment_def)
    qed (use Cons.prems(3) TvWhitespace in simp)
  next
    case TvDirective
    show ?thesis
    proof (rule Cons.IH [OF all])
      show "walk_inv all (k # passed) lastComment start False newlines"
        using inv nb TvDirective by (auto simp: walk_inv_def is_comment_def)
    qed (use Cons.prems(3) TvDirective in simp)
  next
    case TvOther
    show ?thesis
    proof (rule Cons.IH [OF all])
      show "walk_inv all (k # passed) lastComment start False newlines"
        using inv nb TvOther by (auto simp: walk_inv_def is_comment_def)
    qed (use Cons.prems(3) TvOther in simp)
  qed
qed

text \<open>An empty block comment is read as a slash: its star belongs to the opening and the closing.\<close>

lemma empty_block_comment: "block_text ''/**/'' = ''/''"
  by code_simp

lemma detail_total:
  assumes "ws nl"
  shows "\<exists>t. detailFormat ws printed = Inr t"
proof -
  have "stripBlankLines ws printed = [] \<or> (\<exists>c \<in> set (stripBlankLines ws printed). c \<noteq> nl)"
    using strip_content [of ws printed] assms by blast
  from squash_total [OF this] show ?thesis by (auto simp: detailFormat_def)
qed

lemma code_block_total: "\<exists>t. svCodeBlock_node L ws comments printed = Inr t"
proof -
  obtain d where d: "formatDocComment ws comments = Inr d"
    using shift_total [of "stripBlankLines ws comments"] by (cases "comments = []") (auto simp: formatDocComment_def)
  have "\<exists>t. (if isSingleLine printed then squashSpaces printed else Inr printed) = Inr t"
    using squash_total [of printed] by (cases printed) (auto simp: isSingleLine_def)
  then obtain c where c: "formatCode ws printed = Inr c"
    using shift_total by (fastforce simp: formatCode_def)
  show ?thesis
    using d c shift_total [of "stripBlankLines ws (escapeInvalidUtf8 L (d @ c))"]
    by (auto simp: svCodeBlock_node_def svCodeBlockString_def)
qed

section \<open>Properties\<close>

text \<open>No text a printer gives makes the formatting throw, although both routines that shorten
  their result by one character would on an empty one: the callers strip blank lines first, and an
  indentation is only removed when a line has content.\<close>

theorem formatting_never_throws:
  assumes "ws nl"
  shows "(\<exists>t. detailFormat ws printed = Inr t) \<and> (\<exists>t. svCodeBlock_node L ws comments printed = Inr t)
    \<and> (\<exists>t. formatCodeWithLeadingComments ws printed = Inr t)"
  using detail_total [of ws, OF assms] code_block_total shift_total by (auto simp: formatCodeWithLeadingComments_def)

theorem formatting_never_throws_witness:
  "(\<exists>t. detailFormat isspace [nl] = Inr t) \<and> (\<exists>t. svCodeBlock_node sample_utf8 isspace [] [nl] = Inr t)
    \<and> (\<exists>t. formatCodeWithLeadingComments isspace [nl] = Inr t)"
  by (rule formatting_never_throws) (simp add: isspace_def)

text \<open>Removing the indentation of a text of several lines: the empty lines go, every other line
  loses the least indentation of the lines with content (the first line may have less), and some
  line with content is left without any.\<close>

theorem shiftIndent_removes_least:
  assumes "nl \<in> set s" and "content_indents (indent_char s) (tl (getlines s)) \<noteq> []"
    and "Min (set (content_indents (indent_char s) (tl (getlines s)))) = m" and "0 < m"
  shows "(\<exists>t. shiftIndent s = Inr t \<and>
      split_nl t = map (remove_indent (indent_char s) m) (filter (\<lambda>l. l \<noteq> []) (getlines s)))
    \<and> list_all (\<lambda>l. indent_of (indent_char s) l < length l \<longrightarrow>
        l = replicate m (indent_char s) @ remove_indent (indent_char s) m l) (tl (getlines s))
    \<and> list_ex (\<lambda>l. indent_of (indent_char s) l = m \<and> m < length l) (tl (getlines s))"
proof (intro conjI)
  let ?i = "indent_char s"
  let ?ls = "filter (\<lambda>l. l \<noteq> []) (getlines s)"
  have fin: "finite (set (content_indents ?i (tl (getlines s))))" by simp
  have ne: "set (content_indents ?i (tl (getlines s))) \<noteq> {}" using assms(2) by simp
  have ls: "?ls \<noteq> []" using content_line assms(2) by blast
  have nonl: "\<forall>l \<in> set (map (remove_indent ?i m) ?ls). nl \<notin> set l"
    using getlines_no_nl by (auto simp: remove_indent_def dest: in_set_dropD)
  have "shiftIndent s = Inr (butlast (unlines (map (remove_indent ?i m) ?ls)))"
    using assms ls by (auto simp: shiftIndent_def isSingleLine_def Let_def drop_last_unlines)
  moreover have "split_nl (butlast (unlines (map (remove_indent ?i m) ?ls))) = map (remove_indent ?i m) ?ls"
    using split_nl_joined [OF _ nonl] ls by simp
  ultimately show "\<exists>t. shiftIndent s = Inr t \<and> split_nl t = map (remove_indent ?i m) ?ls" by blast
  have mem: "indent_of ?i l \<in> set (content_indents ?i (tl (getlines s)))"
    if "l \<in> set (tl (getlines s))" "indent_of ?i l < length l" for l
    using that by (auto simp: content_indents_def)
  show "list_all (\<lambda>l. indent_of ?i l < length l \<longrightarrow> l = replicate m ?i @ remove_indent ?i m l) (tl (getlines s))"
    unfolding list_all_iff
  proof (intro ballI impI)
    fix l assume "l \<in> set (tl (getlines s))" "indent_of ?i l < length l"
    then have "m \<le> indent_of ?i l" using Min_le [OF fin mem] assms(3) by simp
    then show "l = replicate m ?i @ remove_indent ?i m l" by (rule remove_indent_split)
  qed
  have "m \<in> set (content_indents ?i (tl (getlines s)))" using Min_in [OF fin ne] assms(3) by simp
  then show "list_ex (\<lambda>l. indent_of ?i l = m \<and> m < length l) (tl (getlines s))"
    by (auto simp: content_indents_def list_ex_iff)
qed

theorem shiftIndent_removes_least_witness:
  "\<exists>t. shiftIndent (''a'' @ [nl, nl] @ ''  b'') = Inr t \<and> split_nl t = [''a'', ''b'']"
proof -
  let ?s = "''a'' @ [nl, nl] @ ''  b''"
  have g: "getlines ?s = [''a'', [], ''  b'']" by code_simp
  have i: "indent_char ?s = CHR '' ''" by code_simp
  have c: "content_indents (CHR '' '') [[], ''  b''] = [2]" by code_simp
  have r: "map (remove_indent (CHR '' '') 2) [''a'', ''  b''] = [''a'', ''b'']" by code_simp
  have n: "nl \<in> set ?s" by simp
  show ?thesis
    using shiftIndent_removes_least [OF n, of 2] r by (simp add: g i c del: append.simps append_Cons)
qed

text \<open>Camel case: the first character and the run of capitals after it become lower case, but
  the last capital of the run stays when something follows it.\<close>

theorem toCamelCase_lowers_run:
  "toCamelCase (c # cs) = (let run = length (takeWhile isupper cs);
     k = (if run = length cs then run else run - 1) in tolower c # map tolower (take k cs) @ drop k cs)"
  using camel_loop_run [of cs] by (cases cs) (simp_all add: toCamelCase_def Let_def)

text \<open>The comment block found above a declaration begins with a comment, and no blank line
  separates its lines from each other or from the declaration.\<close>

theorem doc_comment_block_contiguous:
  assumes "findLeadingDocCommentStart ts = Some i"
  shows "i < length ts \<and> is_comment (tv_kind (ts ! i)) \<and> no_blank_line (map tv_kind (drop i ts))"
proof -
  have "walk_inv (map tv_kind ts) [] None None False 0" by (simp add: walk_inv_def)
  from doc_walk_block [OF _ this assms [unfolded findLeadingDocCommentStart_def]]
  show ?thesis by (auto simp: drop_map)
qed

theorem doc_comment_block_contiguous_witness:
  "is_comment (tv_kind ([Trivia TvEndOfLine [] None, Trivia TvLineComment ''// a'' None, Trivia TvEndOfLine [] None] ! 1))"
proof -
  have "findLeadingDocCommentStart [Trivia TvEndOfLine [] None, Trivia TvLineComment ''// a'' None, Trivia TvEndOfLine [] None] = Some 1"
    by code_simp
  from doc_comment_block_contiguous [OF this] show ?thesis by blast
qed

end
