(* ===== verification/SuggestDirs.thy ===== *)
theory SuggestDirs
  imports Indexer
begin

text \<open>
  Suggested index directories, from src/Indexer.cpp (\<open>getSuggestedIndexDirectories\<close>): the
  directories of the last crawl as a tree with their entry counts, and the roots that cover every
  directory with sources at the least cost, a root costing what the crawl below it finds plus a
  penalty. A \<open>std::map\<close> of children is a list sorted by name.
\<close>

section \<open>The tree of directories\<close>

datatype dir = Dir (dir_entries: nat) (dir_sources: bool) (dir_children: "(string \<times> dir) list")

definition child_get :: "string \<Rightarrow> (string \<times> dir) list \<Rightarrow> dir" where
  "child_get n cs = (case map_of cs n of Some d \<Rightarrow> d | None \<Rightarrow> Dir 0 False [])"

definition child_put :: "string \<Rightarrow> dir \<Rightarrow> (string \<times> dir) list \<Rightarrow> (string \<times> dir) list" where
  "child_put n d cs = insort_key fst (n, d) (filter (\<lambda>c. fst c \<noteq> n) cs)"

text \<open>The node at the end of a path, made on the way when it is missing, gets an update.\<close>

fun dir_update :: "string list \<Rightarrow> (dir \<Rightarrow> dir) \<Rightarrow> dir \<Rightarrow> dir" where
  "dir_update [] f d = f d"
| "dir_update (n # ns) f (Dir e s cs) = Dir e s (child_put n (dir_update ns f (child_get n cs)) cs)"

definition set_entries :: "nat \<Rightarrow> dir \<Rightarrow> dir" where
  "set_entries e d = Dir e (dir_sources d) (dir_children d)"

definition set_sources :: "dir \<Rightarrow> dir" where
  "set_sources d = Dir (dir_entries d) True (dir_children d)"

text \<open>\<open>addDirectory\<close>: the parts of a path below the root of the workspace.\<close>

definition relative_parts :: "filesystem \<Rightarrow> path \<Rightarrow> path \<Rightarrow> string list option" where
  "relative_parts fs root p =
    (let relative = lexically_relative (lexically_normal (absolute_path fs p)) root in
     if relative = [] \<or> is_absolute relative \<or> hd relative = dotdot then None
     else Some (filter (\<lambda>x. x \<noteq> [] \<and> x \<noteq> dot) relative))"

fun add_entries :: "filesystem \<Rightarrow> path \<Rightarrow> (path \<times> nat) list \<Rightarrow> dir \<times> nat \<Rightarrow> dir \<times> nat" where
  "add_entries fs root [] st = st"
| "add_entries fs root ((p, e) # counts) (tree, n) = (case relative_parts fs root p of
     None \<Rightarrow> add_entries fs root counts (tree, n)
   | Some parts \<Rightarrow> add_entries fs root counts (dir_update parts (set_entries e) tree, n + e))"

fun add_sources :: "filesystem \<Rightarrow> path \<Rightarrow> path list \<Rightarrow> dir \<Rightarrow> dir option" where
  "add_sources fs root [] tree = Some tree"
| "add_sources fs root (file # files) tree = (case relative_parts fs root (parent_path file) of
     None \<Rightarrow> add_sources fs root files tree
   | Some [] \<Rightarrow> None
   | Some parts \<Rightarrow> add_sources fs root files (dir_update parts set_sources tree))"

section \<open>The selection\<close>

record selection =
  sel_entries :: nat
  sel_cost :: nat
  sel_directories :: "string list list"

definition choose_root :: "nat \<Rightarrow> string list \<Rightarrow> bool \<Rightarrow> selection \<Rightarrow> selection" where
  "choose_root rootPenalty path sources result =
    (let parentCost = sel_entries result + rootPenalty in
     if path \<noteq> [] \<and> (sources \<or> sel_directories result \<noteq> [] \<and> parentCost \<le> sel_cost result)
     then result\<lparr>sel_cost := parentCost, sel_directories := [path]\<rparr> else result)"

definition join_selection :: "selection \<Rightarrow> selection \<Rightarrow> selection" where
  "join_selection a b = \<lparr>sel_entries = sel_entries a + sel_entries b, sel_cost = sel_cost a + sel_cost b,
     sel_directories = sel_directories a @ sel_directories b\<rparr>"

fun select :: "nat \<Rightarrow> dir \<Rightarrow> string list \<Rightarrow> selection"
  and select_children :: "nat \<Rightarrow> (string \<times> dir) list \<Rightarrow> string list \<Rightarrow> selection \<Rightarrow> selection" where
  "select pen (Dir e s cs) path = choose_root pen path s
     (select_children pen cs path \<lparr>sel_entries = e, sel_cost = 0, sel_directories = []\<rparr>)"
| "select_children pen [] path result = result"
| "select_children pen ((n, d) # cs) path result =
     select_children pen cs path (join_selection result (select pen d (path @ [n])))"

definition source_tree :: "filesystem \<Rightarrow> path \<Rightarrow> indexer \<Rightarrow> (dir \<times> nat) option" where
  "source_tree fs workspace ix =
    (let root = lexically_normal (absolute_path fs workspace);
         (tree, entries) = add_entries fs root (directoryEntryCounts ix) (Dir 0 False [], 0)
     in map_option (\<lambda>t. (t, entries)) (add_sources fs root (concat (map snd (includeToFiles ix))) tree))"

definition getSuggestedIndexDirectories :: "filesystem \<Rightarrow> path \<Rightarrow> indexer \<Rightarrow> string list list" where
  "getSuggestedIndexDirectories fs workspace ix =
    (if directoryEntryCounts ix = [] then []
     else case source_tree fs workspace ix of
       None \<Rightarrow> []
     | Some (tree, entries) \<Rightarrow> sel_directories (select (max 32 (entries div 20)) tree []))"

section \<open>Covers\<close>

text \<open>A choice of roots, any set of paths: every directory with sources must be chosen or lie below
  a chosen one, and each chosen root costs the entries below it and the penalty. The workspace
  itself cannot be chosen.\<close>

fun total_entries :: "dir \<Rightarrow> nat" where
  "total_entries (Dir e s cs) = e + sum_list (map (\<lambda>(n, d). total_entries d) cs)"

fun covered :: "(string list \<Rightarrow> bool) \<Rightarrow> dir \<Rightarrow> string list \<Rightarrow> bool" where
  "covered ch (Dir e s cs) path \<longleftrightarrow>
     (path \<noteq> [] \<and> ch path) \<or> (\<not> s \<and> list_all (\<lambda>(n, d). covered ch d (path @ [n])) cs)"

fun choice_cost :: "nat \<Rightarrow> (string list \<Rightarrow> bool) \<Rightarrow> dir \<Rightarrow> string list \<Rightarrow> nat" where
  "choice_cost pen ch (Dir e s cs) path =
     (if path \<noteq> [] \<and> ch path then total_entries (Dir e s cs) + pen else 0)
     + sum_list (map (\<lambda>(n, d). choice_cost pen ch d (path @ [n])) cs)"

fun distinct_names :: "dir \<Rightarrow> bool" where
  "distinct_names (Dir e s cs) \<longleftrightarrow> distinct (map fst cs) \<and> list_all (\<lambda>(n, d). distinct_names d) cs"

section \<open>The selection, node by node\<close>

lemma select_children_eq:
  "select_children pen cs path r = \<lparr>sel_entries = sel_entries r + sum_list (map (\<lambda>(n, d). sel_entries (select pen d (path @ [n]))) cs),
     sel_cost = sel_cost r + sum_list (map (\<lambda>(n, d). sel_cost (select pen d (path @ [n]))) cs),
     sel_directories = sel_directories r @ concat (map (\<lambda>(n, d). sel_directories (select pen d (path @ [n]))) cs)\<rparr>"
  by (induction cs arbitrary: r) (auto simp: join_selection_def select.simps)

declare select.simps [simp del]

lemma dir_induct [case_names Dir]:
  assumes "\<And>e s cs. (\<And>n d. (n, d) \<in> set cs \<Longrightarrow> P d) \<Longrightarrow> P (Dir e s cs)"
  shows "P d"
  by (induction d) (rule assms, force simp: snds.simps)

lemma select_entries: "sel_entries (select pen d path) = total_entries d"
proof (induction d arbitrary: path rule: dir_induct)
  case (Dir e s cs)
  have "sum_list (map (\<lambda>(n, d). sel_entries (select pen d (path @ [n]))) cs) = sum_list (map (\<lambda>(n, d). total_entries d) cs)"
    using Dir by (intro arg_cong [of _ _ sum_list] map_cong) auto
  then show ?case by (simp only: select.simps choose_root_def select_children_eq Let_def total_entries.simps) simp
qed

lemma select_node:
  fixes pen e s cs path
  defines "below \<equiv> sum_list (map (\<lambda>(n, d). sel_cost (select pen d (path @ [n]))) cs)"
  defines "dirs \<equiv> concat (map (\<lambda>(n, d). sel_directories (select pen d (path @ [n]))) cs)"
  defines "whole \<equiv> total_entries (Dir e s cs) + pen"
  defines "up \<equiv> path \<noteq> [] \<and> (s \<or> dirs \<noteq> [] \<and> whole \<le> below)"
  shows "sel_cost (select pen (Dir e s cs) path) = (if up then whole else below)"
    "sel_directories (select pen (Dir e s cs) path) = (if up then [path] else dirs)"
proof -
  have t: "e + sum_list (map (\<lambda>(n, d). sel_entries (select pen d (path @ [n]))) cs) = total_entries (Dir e s cs)"
    using select_entries by (auto intro!: arg_cong [of _ _ sum_list] map_cong)
  show "sel_cost (select pen (Dir e s cs) path) = (if up then whole else below)"
    "sel_directories (select pen (Dir e s cs) path) = (if up then [path] else dirs)"
    using t unfolding below_def dirs_def whole_def up_def
    by (auto simp: select.simps choose_root_def select_children_eq Let_def simp del: total_entries.simps)
qed

lemma no_directories_no_cost: "sel_directories (select pen d path) = [] \<Longrightarrow> sel_cost (select pen d path) = 0"
proof (induction d arbitrary: path rule: dir_induct)
  case (Dir e s cs)
  have "sel_directories (select pen d (path @ [n])) = []" if "(n, d) \<in> set cs" for n d
    using Dir.prems that by (auto simp: select_node split: if_splits)
  then have "\<forall>x \<in> set cs. (case x of (n, d) \<Rightarrow> sel_cost (select pen d (path @ [n]))) = 0"
    using Dir.IH by auto
  then show ?case using Dir.prems by (auto simp: select_node split: if_splits)
qed

lemma directories_extend: "q \<in> set (sel_directories (select pen d path)) \<Longrightarrow> prefix path q"
proof (induction d arbitrary: path rule: dir_induct)
  case (Dir e s cs)
  show ?case
  proof (cases "q = path")
    case False
    then obtain n d where "(n, d) \<in> set cs" "q \<in> set (sel_directories (select pen d (path @ [n])))"
      using Dir.prems by (auto simp: select_node split: if_splits)
    then show ?thesis using Dir.IH append_prefixD by blast
  qed simp
qed

section \<open>No choice is cheaper\<close>

lemma select_lower_bound: "covered ch d path \<Longrightarrow> sel_cost (select pen d path) \<le> choice_cost pen ch d path"
proof (induction d arbitrary: path rule: dir_induct)
  case (Dir e s cs)
  let ?below = "sum_list (map (\<lambda>(n, d). sel_cost (select pen d (path @ [n]))) cs)"
  let ?dirs = "concat (map (\<lambda>(n, d). sel_directories (select pen d (path @ [n]))) cs)"
  have none: "?below = 0" if "?dirs = []"
  proof -
    have "sel_cost (select pen d (path @ [n])) = 0" if "(n, d) \<in> set cs" for n d
      using \<open>?dirs = []\<close> that by (intro no_directories_no_cost) auto
    then show ?thesis by auto
  qed
  have le: "sel_cost (select pen (Dir e s cs) path) \<le> total_entries (Dir e s cs) + pen" if "path \<noteq> []"
  proof (cases "?dirs = []")
    case True
    show ?thesis unfolding select_node(1) none [OF True] by simp
  next
    case False
    then show ?thesis unfolding select_node(1) using that by simp
  qed
  show ?case
  proof (cases "path \<noteq> [] \<and> ch path")
    case True
    then show ?thesis using le by simp
  next
    case False
    then have c: "\<not> s" "\<And>n d. (n, d) \<in> set cs \<Longrightarrow> covered ch d (path @ [n])"
      using Dir.prems by (auto simp: list_all_iff)
    have "?below \<le> sum_list (map (\<lambda>(n, d). choice_cost pen ch d (path @ [n])) cs)"
      using Dir.IH c(2) by (intro sum_list_mono) auto
    moreover have "sel_cost (select pen (Dir e s cs) path) \<le> ?below"
      using c(1) by (auto simp: select_node simp del: total_entries.simps)
    ultimately show ?thesis using False by simp
  qed
qed

section \<open>The selection is a choice\<close>

lemma choice_cong:
  "(\<And>q. prefix path q \<Longrightarrow> ch q = ch' q) \<Longrightarrow>
    choice_cost pen ch d path = choice_cost pen ch' d path \<and> covered ch d path = covered ch' d path"
proof (induction d arbitrary: path rule: dir_induct)
  case (Dir e s cs)
  have k: "choice_cost pen ch d (path @ [n]) = choice_cost pen ch' d (path @ [n])
      \<and> covered ch d (path @ [n]) = covered ch' d (path @ [n])" if "(n, d) \<in> set cs" for n d
    using Dir.IH [OF that] Dir.prems append_prefixD by blast
  then have c: "map (\<lambda>(n, d). choice_cost pen ch d (path @ [n])) cs = map (\<lambda>(n, d). choice_cost pen ch' d (path @ [n])) cs"
    by (intro map_cong) auto
  have p: "ch path = ch' path" using Dir.prems by simp
  have "list_all (\<lambda>(n, d). covered ch d (path @ [n])) cs = list_all (\<lambda>(n, d). covered ch' d (path @ [n])) cs"
    using k by (auto simp: list_all_iff)
  then show ?case by (simp only: choice_cost.simps covered.simps c p)
qed

lemma choice_cost_none: "(\<And>q. prefix path q \<Longrightarrow> \<not> ch q) \<Longrightarrow> choice_cost pen ch d path = 0"
proof (induction d arbitrary: path rule: dir_induct)
  case (Dir e s cs)
  have "choice_cost pen ch d (path @ [n]) = 0" if "(n, d) \<in> set cs" for n d
    using Dir.IH [OF that] Dir.prems append_prefixD by blast
  then have "sum_list (map (\<lambda>(n, d). choice_cost pen ch d (path @ [n])) cs) = 0" by auto
  then show ?case using Dir.prems [of path] by simp
qed

lemma prefix_child: "prefix (path @ [n]) q \<Longrightarrow> prefix (path @ [m]) q \<Longrightarrow> n = m"
  by (auto simp: prefix_def)

lemma children_directories:
  assumes "(n, d) \<in> set cs" "distinct (map fst cs)" "prefix (path @ [n]) q"
  shows "q \<in> set (concat (map (\<lambda>(n, d). sel_directories (select pen d (path @ [n]))) cs))
    \<longleftrightarrow> q \<in> set (sel_directories (select pen d (path @ [n])))"
proof
  assume "q \<in> set (concat (map (\<lambda>(n, d). sel_directories (select pen d (path @ [n]))) cs))"
  then obtain m d' where m: "(m, d') \<in> set cs" "q \<in> set (sel_directories (select pen d' (path @ [m])))" by auto
  have "m = n" by (rule prefix_child [OF directories_extend [OF m(2)] assms(3)])
  have "d' = d" using m(1) unfolding \<open>m = n\<close> by (rule eq_key_imp_eq_value [OF assms(2) _ assms(1)])
  then show "q \<in> set (sel_directories (select pen d (path @ [n])))" using m(2) \<open>m = n\<close> by simp
next
  assume "q \<in> set (sel_directories (select pen d (path @ [n])))"
  then show "q \<in> set (concat (map (\<lambda>(n, d). sel_directories (select pen d (path @ [n]))) cs))"
    using assms(1) by force
qed

lemma choose_this:
  assumes "path \<noteq> []"
  shows "choice_cost pen (\<lambda>q. q = path) (Dir e s cs) path = total_entries (Dir e s cs) + pen"
proof -
  have "choice_cost pen (\<lambda>q. q = path) d (path @ [n]) = 0" for n d
    by (rule choice_cost_none) (auto simp: prefix_def)
  then have "sum_list (map (\<lambda>(n, d). choice_cost pen (\<lambda>q. q = path) d (path @ [n])) cs) = 0"
    by (auto simp: case_prod_beta)
  then show ?thesis using assms by (simp only: choice_cost.simps) simp
qed

text \<open>The selection as a choice: it covers the tree and costs what the selection says.\<close>

definition attained :: "nat \<Rightarrow> dir \<Rightarrow> string list \<Rightarrow> bool" where
  "attained pen d path \<longleftrightarrow> covered (\<lambda>q. q \<in> set (sel_directories (select pen d path))) d path
    \<and> choice_cost pen (\<lambda>q. q \<in> set (sel_directories (select pen d path))) d path = sel_cost (select pen d path)"

lemma attained_below:
  assumes kids: "\<And>n d. (n, d) \<in> set cs \<Longrightarrow> attained pen d (path @ [n])" and dist: "distinct (map fst cs)" and "\<not> s"
    and ds: "sel_directories (select pen (Dir e s cs) path) = concat (map (\<lambda>(n, d). sel_directories (select pen d (path @ [n]))) cs)"
    and cost: "sel_cost (select pen (Dir e s cs) path) = sum_list (map (\<lambda>(n, d). sel_cost (select pen d (path @ [n]))) cs)"
  shows "attained pen (Dir e s cs) path"
proof -
  let ?ds = "concat (map (\<lambda>(n, d). sel_directories (select pen d (path @ [n]))) cs)"
  have np: "path \<notin> set ?ds"
  proof
    assume "path \<in> set ?ds"
    then obtain n d where "path \<in> set (sel_directories (select pen d (path @ [n])))" by auto
    then have "prefix (path @ [n]) path" by (rule directories_extend)
    then show False by (auto simp: prefix_def)
  qed
  have k: "covered (\<lambda>q. q \<in> set ?ds) d (path @ [n])
      \<and> choice_cost pen (\<lambda>q. q \<in> set ?ds) d (path @ [n]) = sel_cost (select pen d (path @ [n]))"
    if nd: "(n, d) \<in> set cs" for n d
  proof -
    have "choice_cost pen (\<lambda>q. q \<in> set ?ds) d (path @ [n])
        = choice_cost pen (\<lambda>q. q \<in> set (sel_directories (select pen d (path @ [n])))) d (path @ [n])
      \<and> covered (\<lambda>q. q \<in> set ?ds) d (path @ [n])
        = covered (\<lambda>q. q \<in> set (sel_directories (select pen d (path @ [n])))) d (path @ [n])"
      by (rule choice_cong) (rule children_directories [OF nd dist])
    then show ?thesis using kids [OF nd] by (simp add: attained_def)
  qed
  have "map (\<lambda>(n, d). choice_cost pen (\<lambda>q. q \<in> set ?ds) d (path @ [n])) cs
      = map (\<lambda>(n, d). sel_cost (select pen d (path @ [n]))) cs"
    using k by (intro map_cong) auto
  then have "choice_cost pen (\<lambda>q. q \<in> set ?ds) (Dir e s cs) path = sel_cost (select pen (Dir e s cs) path)"
    using np cost by (simp only: choice_cost.simps) simp
  moreover have "covered (\<lambda>q. q \<in> set ?ds) (Dir e s cs) path"
    using k assms(3) unfolding covered.simps list_all_iff by blast
  ultimately show ?thesis unfolding attained_def ds by simp
qed

lemma select_attained:
  "distinct_names d \<Longrightarrow> path \<noteq> [] \<or> \<not> dir_sources d \<Longrightarrow> attained pen d path"
proof (induction d arbitrary: path rule: dir_induct)
  case (Dir e s cs)
  let ?ds = "concat (map (\<lambda>(n, d). sel_directories (select pen d (path @ [n]))) cs)"
  show ?case
  proof (cases "path \<noteq> [] \<and> (s \<or> ?ds \<noteq> [] \<and> total_entries (Dir e s cs) + pen
      \<le> sum_list (map (\<lambda>(n, d). sel_cost (select pen d (path @ [n]))) cs))")
    case True
    have d: "sel_directories (select pen (Dir e s cs) path) = [path]"
      unfolding select_node(2) by (rule if_P [OF True])
    have c: "sel_cost (select pen (Dir e s cs) path) = total_entries (Dir e s cs) + pen"
      unfolding select_node(1) by (rule if_P [OF True])
    from d c show ?thesis using True choose_this [of path pen e s cs]
      unfolding attained_def by (simp del: choice_cost.simps total_entries.simps)
  next
    case False
    show ?thesis
    proof (rule attained_below)
      fix n d assume "(n, d) \<in> set cs"
      then show "attained pen d (path @ [n])" using Dir.IH Dir.prems(1) by (auto simp: list_all_iff)
    next
      show "distinct (map fst cs)" "\<not> s" using Dir.prems False by auto
      show "sel_directories (select pen (Dir e s cs) path) = ?ds"
        unfolding select_node(2) by (rule if_not_P [OF False])
      show "sel_cost (select pen (Dir e s cs) path) = sum_list (map (\<lambda>(n, d). sel_cost (select pen d (path @ [n]))) cs)"
        unfolding select_node(1) by (rule if_not_P [OF False])
    qed
  qed
qed

section \<open>The tree of a crawl\<close>

lemma map_of_insort: "n \<notin> fst ` set cs \<Longrightarrow>
    map_of (insort_key fst (n, d) cs) m = (if m = n then Some d else map_of cs m)"
  by (induction cs) auto

lemma map_of_filter_ne: "m \<noteq> n \<Longrightarrow> map_of (filter (\<lambda>c. fst c \<noteq> n) cs) m = map_of cs m"
  by (induction cs) auto

lemma child_get_put [simp]: "child_get m (child_put n d cs) = (if m = n then d else child_get m cs)"
proof -
  have "n \<notin> fst ` set (filter (\<lambda>c. fst c \<noteq> n) cs)" by auto
  then show ?thesis by (simp add: child_get_def child_put_def map_of_insort map_of_filter_ne)
qed

lemma child_put_names:
  assumes "distinct (map fst cs)"
  shows "distinct (map fst (child_put n d cs))"
proof -
  have "distinct (map fst (filter (\<lambda>c. fst c \<noteq> n) cs))" using assms by (simp add: distinct_map_filter)
  moreover have "n \<notin> fst ` set (filter (\<lambda>c. fst c \<noteq> n) cs)" by auto
  moreover have "distinct (map fst (insort_key fst (n, d) xs))" if "distinct (map fst xs)" "n \<notin> fst ` set xs" for xs
    using that by (induction xs) (auto simp: set_insort_key)
  ultimately show ?thesis by (simp add: child_put_def)
qed

lemma child_put_distinct:
  "distinct_names (Dir e s cs) \<Longrightarrow> distinct_names d \<Longrightarrow> distinct_names (Dir e s (child_put n d cs))"
  using child_put_names [of cs n d] by (auto simp: list_all_iff child_put_def set_insort_key)

lemma child_get_distinct: "distinct_names (Dir e s cs) \<Longrightarrow> distinct_names (child_get n cs)"
  by (auto simp: child_get_def list_all_iff split: option.splits dest: map_of_SomeD)

lemma dir_update_distinct:
  "(\<And>d. distinct_names d \<Longrightarrow> distinct_names (f d)) \<Longrightarrow> distinct_names d \<Longrightarrow> distinct_names (dir_update ns f d)"
proof (induction ns arbitrary: d)
  case (Cons n ns)
  then show ?case using child_put_distinct child_get_distinct by (cases d) (simp del: distinct_names.simps)
qed simp

lemma update_keeps [simp]:
  "distinct_names d \<Longrightarrow> distinct_names (set_entries e d)" "distinct_names d \<Longrightarrow> distinct_names (set_sources d)"
  "dir_sources (set_entries e d) = dir_sources d" "dir_sources (set_sources d)"
  "dir_children (set_entries e d) = dir_children d" "dir_children (set_sources d) = dir_children d"
  by (cases d; simp add: set_entries_def set_sources_def)+

lemma dir_update_root: "dir_sources (dir_update (n # ns) f d) = dir_sources d"
  by (cases d) simp

lemma add_entries_tree:
  "add_entries fs root counts (tree, n) = (tree', n') \<Longrightarrow> distinct_names tree \<Longrightarrow> \<not> dir_sources tree \<Longrightarrow>
    distinct_names tree' \<and> \<not> dir_sources tree'"
proof (induction counts arbitrary: tree n)
  case (Cons pe counts)
  obtain p e where pe: "pe = (p, e)" by fastforce
  have "\<not> dir_sources (dir_update parts (set_entries e) tree)" for parts
    using Cons.prems(3) by (cases parts) (simp_all add: dir_update_root del: dir_update.simps(2))
  moreover have "distinct_names (dir_update parts (set_entries e) tree)" for parts
    using Cons.prems(2) by (intro dir_update_distinct) auto
  ultimately show ?case
    using Cons.IH Cons.prems pe by (cases "relative_parts fs root p") auto
qed simp

fun source_at :: "string list \<Rightarrow> dir \<Rightarrow> bool" where
  "source_at [] d \<longleftrightarrow> dir_sources d"
| "source_at (n # ns) d \<longleftrightarrow> source_at ns (child_get n (dir_children d))"

lemma source_at_update: "source_at ps (dir_update qs set_sources d) \<longleftrightarrow> ps = qs \<or> source_at ps d"
proof (induction qs arbitrary: ps d)
  case Nil
  then show ?case by (cases ps) auto
next
  case (Cons q qs)
  then show ?case by (cases d; cases ps) auto
qed

lemma add_sources_tree:
  "add_sources fs root files tree = Some tree' \<Longrightarrow> distinct_names tree \<Longrightarrow> \<not> dir_sources tree \<Longrightarrow>
    distinct_names tree' \<and> \<not> dir_sources tree' \<and> (\<forall>ps. source_at ps tree \<longrightarrow> source_at ps tree') \<and>
    (\<forall>src_file \<in> set files. \<forall>parts. relative_parts fs root (parent_path src_file) = Some parts \<longrightarrow> source_at parts tree')"
proof (induction files arbitrary: tree)
  case (Cons src_file files)
  show ?case
  proof (cases "relative_parts fs root (parent_path src_file)")
    case None
    then show ?thesis using Cons by simp
  next
    case (Some parts)
    then obtain n ns where parts: "parts = n # ns" using Cons.prems(1) by (cases parts) auto
    let ?t = "dir_update parts set_sources tree"
    have "add_sources fs root files ?t = Some tree'" using Cons.prems(1) Some parts by simp
    moreover have "distinct_names ?t" using Cons.prems(2) by (intro dir_update_distinct) auto
    moreover have "\<not> dir_sources ?t" using Cons.prems(3) by (simp add: parts dir_update_root del: dir_update.simps(2))
    ultimately have ih: "distinct_names tree' \<and> \<not> dir_sources tree' \<and> (\<forall>ps. source_at ps ?t \<longrightarrow> source_at ps tree') \<and>
      (\<forall>src_file \<in> set files. \<forall>parts. relative_parts fs root (parent_path src_file) = Some parts \<longrightarrow> source_at parts tree')"
      by (rule Cons.IH)
    then show ?thesis using Some source_at_update [of _ parts tree] by auto
  qed
qed simp

lemma covered_source:
  "covered ch d path \<Longrightarrow> source_at ns d \<Longrightarrow> \<exists>k. path @ take k ns \<noteq> [] \<and> ch (path @ take k ns)"
proof (induction ns arbitrary: d path)
  case Nil
  then show ?case by (cases d) auto
next
  case (Cons n ns)
  obtain e s cs where d: "d = Dir e s cs" by (cases d)
  show ?case
  proof (cases "path \<noteq> [] \<and> ch path")
    case True
    then show ?thesis by (intro exI [of _ 0]) simp
  next
    case False
    have "(n, child_get n cs) \<in> set cs"
    proof (cases "map_of cs n")
      case None
      then have "source_at ns (Dir 0 False [])" using Cons.prems(2) d by (simp add: child_get_def)
      moreover have "\<not> source_at ns (Dir 0 False [])" for ns by (induction ns) (simp_all add: child_get_def)
      ultimately show ?thesis by blast
    next
      case (Some c)
      then show ?thesis by (simp add: child_get_def map_of_SomeD)
    qed
    then have "covered ch (child_get n cs) (path @ [n])" using Cons.prems(1) False d by (auto simp: list_all_iff)
    then obtain k where "(path @ [n]) @ take k ns \<noteq> [] \<and> ch ((path @ [n]) @ take k ns)"
      using Cons.IH [of "child_get n cs" "path @ [n]"] Cons.prems(2) d by auto
    then show ?thesis by (intro exI [of _ "Suc k"]) simp
  qed
qed

section \<open>Properties\<close>

text \<open>The suggested index directories cover the sources at the least cost: every crawled file
  below the workspace lies in one of them, and no other choice of directories that covers the
  sources costs less, a root costing the entries below it and the penalty.\<close>

theorem suggested_directories_optimal:
  assumes "directoryEntryCounts ix \<noteq> []" and "source_tree fs workspace ix = Some (tree, entries)"
  shows "(\<forall>src_file \<in> set (concat (map snd (includeToFiles ix))). \<forall>parts.
        relative_parts fs (lexically_normal (absolute_path fs workspace)) (parent_path src_file) = Some parts \<longrightarrow>
        (\<exists>q \<in> set (getSuggestedIndexDirectories fs workspace ix). prefix q parts))
    \<and> (\<forall>ch. covered ch tree [] \<longrightarrow>
        choice_cost (max 32 (entries div 20)) (\<lambda>q. q \<in> set (getSuggestedIndexDirectories fs workspace ix)) tree []
        \<le> choice_cost (max 32 (entries div 20)) ch tree [])"
proof -
  let ?root = "lexically_normal (absolute_path fs workspace)" and ?pen = "max 32 (entries div 20)"
  let ?r = "getSuggestedIndexDirectories fs workspace ix"
  have r: "?r = sel_directories (select ?pen tree [])"
    using assms by (simp add: getSuggestedIndexDirectories_def)
  obtain t0 n0 where t0: "add_entries fs ?root (directoryEntryCounts ix) (Dir 0 False [], 0) = (t0, n0)" by fastforce
  then have s: "add_sources fs ?root (concat (map snd (includeToFiles ix))) t0 = Some tree"
    using assms(2) by (auto simp: source_tree_def Let_def)
  have "distinct_names t0 \<and> \<not> dir_sources t0" by (rule add_entries_tree [OF t0]) auto
  then have t: "distinct_names tree" "\<not> dir_sources tree"
    "\<forall>src_file \<in> set (concat (map snd (includeToFiles ix))). \<forall>parts.
       relative_parts fs ?root (parent_path src_file) = Some parts \<longrightarrow> source_at parts tree"
    using add_sources_tree [OF s] by blast+
  have "attained ?pen tree []" by (rule select_attained [OF t(1)]) (simp add: t(2))
  then have a: "covered (\<lambda>q. q \<in> set ?r) tree []" "choice_cost ?pen (\<lambda>q. q \<in> set ?r) tree [] = sel_cost (select ?pen tree [])"
    unfolding attained_def r by auto
  have "\<exists>q \<in> set ?r. prefix q parts"
    if "src_file \<in> set (concat (map snd (includeToFiles ix)))" "relative_parts fs ?root (parent_path src_file) = Some parts" for src_file parts
  proof -
    have "source_at parts tree" using t(3) that by blast
    from covered_source [OF a(1) this] obtain k where "take k parts \<in> set ?r" by auto
    then show ?thesis using take_is_prefix by blast
  qed
  then show ?thesis using a(2) select_lower_bound [of _ tree "[]" ?pen] by auto
qed

definition sample_crawl :: indexer where
  "sample_crawl = empty_indexer\<lparr>directoryEntryCounts := [([''/'', ''w'', ''rtl''], 3)],
     includeToFiles := [(''a.sv'', [[''/'', ''w'', ''rtl'', ''a.sv'']])]\<rparr>"

definition sample_disk :: filesystem where
  "sample_disk = \<lparr>weakly_canonical = Some, is_regular_file = (\<lambda>_. True), is_directory = (\<lambda>_. False),
     exists_path = (\<lambda>_. True), current_path = [''/'']\<rparr>"

theorem suggested_directories_optimal_witness:
  "\<exists>q \<in> set (getSuggestedIndexDirectories sample_disk [''/'', ''w''] sample_crawl). prefix q [''rtl'']"
proof -
  have "case source_tree sample_disk [''/'', ''w''] sample_crawl of None \<Rightarrow> False | Some _ \<Rightarrow> True"
    by code_simp
  then obtain tree n where "source_tree sample_disk [''/'', ''w''] sample_crawl = Some (tree, n)"
    by (auto split: option.splits)
  moreover have "directoryEntryCounts sample_crawl \<noteq> []" by (simp add: sample_crawl_def)
  moreover have "relative_parts sample_disk (lexically_normal (absolute_path sample_disk [''/'', ''w'']))
      (parent_path [''/'', ''w'', ''rtl'', ''a.sv'']) = Some [''rtl'']" by code_simp
  moreover have "[''/'', ''w'', ''rtl'', ''a.sv''] \<in> set (concat (map snd (includeToFiles sample_crawl)))"
    by (simp add: sample_crawl_def)
  ultimately show ?thesis using suggested_directories_optimal by blast
qed

end
