(* ===== verification/SyntaxIndex.thy ===== *)
theory SyntaxIndex
  imports Positions
begin

text \<open>
  The index of a document's syntax, from src/document/SyntaxIndexer.cpp: the visitor that
  collects the tokens of one buffer with their parents, the disabled regions and the macro
  expansions, and the searches for the token at, before and after a location.

  slang's tree is data: nodes with their children, tokens with their trivia, trivia that hold
  directives or skipped tokens. Pointers to nodes and tokens are their numbers. How slang orders
  locations, whether a location is inside a macro, where it expands and whether a range contains
  it are the parameter \<open>syntax_lib\<close>. A token's range starts at its location.
\<close>

section \<open>The tree\<close>

datatype lex_kind =
    LexIdentifier | LexSystemIdentifier | LexDirective | LexMacroUsage | LexPlaceholder
  | LexOther nat

record src_token =
  tk_id :: nat
  tk_kind :: lex_kind
  tk_loc :: source_location
  tk_end :: source_location
  tk_raw :: string
  tk_trivia :: "string list"
  tk_missing :: bool

datatype syntax_kind =
    SkMacroUsage | SkInvocationExpression | SkHierarchyInstantiation | SkClassName
  | SkAssignmentPatternExpression | SkParameterDeclaration
  | SkOrderedPortConnection | SkNamedPortConnection | SkOrderedArgument | SkNamedArgument
  | SkOrderedParamAssignment | SkNamedParamAssignment | SkConditionalExpression
  | SkConditionalStatement | SkParenthesizedExpression | SkExpressionStatement
  | SkEqualsValueClause | SkMacroActualArgument | SkMacroActualArgumentList
  | SkAnsiPortList | SkNonAnsiPortList | SkWildcardPortList | SkImplicitAnsiPort | SkPortDeclaration
  | SkModuleDeclaration | SkInterfaceDeclaration | SkProgramDeclaration | SkPackageDeclaration
  | SkClassDeclaration | SkGenerateBlock | SkGenerateRegion
  | SkTypeParameterDeclaration | SkParameterPortList | SkParameterValueAssignment
  | SkDataDeclaration | SkNetDeclaration | SkTypedefDeclaration | SkLocalVariableDeclaration
  | SkSpecparamDeclaration
  | SkFunctionDeclaration | SkTaskDeclaration | SkAlwaysBlock | SkAlwaysCombBlock
  | SkAlwaysFFBlock | SkAlwaysLatchBlock | SkInitialBlock | SkFinalBlock
  | SkSequentialBlockStatement | SkParallelBlockStatement
  | SkOther nat

text \<open>What a branch directive disables: from the end of its condition (or of its keyword) to
  the end of the last disabled token, if there is one.\<close>

datatype branch = NoBranch | Branch source_location "source_location option"

record node_info =
  nd_id :: nat
  nd_kind :: syntax_kind
  nd_first :: src_token
  nd_last_end :: source_location
  nd_range :: source_range
  nd_branch :: branch
  nd_directive :: source_location
  nd_type_range :: source_range

datatype snode = SNode (node_info: node_info) "schild list"
  and schild = ChildNode snode | ChildToken stoken | ChildNone
  and stoken = SToken src_token "strivia list"
  and strivia = SyntaxTrivia bool snode | SkippedTokens "stoken list" | TextTrivia

record syntax_lib =
  loc_less :: "source_location \<Rightarrow> source_location \<Rightarrow> bool"
  isMacroLoc :: "source_location \<Rightarrow> bool"
  fullyExpanded :: "source_location \<Rightarrow> source_location"
  range_contains :: "source_range \<Rightarrow> source_location \<Rightarrow> bool"

section \<open>The visitor\<close>

record syntax_index =
  collected :: "src_token list"
  disabled_ranges :: "source_range list"
  tokenToParent :: "nat \<rightharpoonup> nat"
  collectedHints :: "u32 \<rightharpoonup> nat"
  macroExpansions :: "nat \<rightharpoonup> src_token list"
  triviaParent :: "nat \<rightharpoonup> nat"
  currentMacroUsage :: "node_info option"
  currentExpansion :: "src_token list"

definition empty_index :: syntax_index where
  "empty_index = \<lparr>collected = [], disabled_ranges = [], tokenToParent = Map.empty,
     collectedHints = Map.empty, macroExpansions = Map.empty, triviaParent = Map.empty,
     currentMacroUsage = None, currentExpansion = []\<rparr>"

definition flushMacroExpansion :: "syntax_index \<Rightarrow> syntax_index" where
  "flushMacroExpansion st = (case currentMacroUsage st of
     None \<Rightarrow> st
   | Some u \<Rightarrow> st\<lparr>macroExpansions := (macroExpansions st)(nd_id u \<mapsto> currentExpansion st),
                  currentExpansion := [], currentMacroUsage := None\<rparr>)"

definition is_hint_kind :: "syntax_kind \<Rightarrow> bool" where
  "is_hint_kind k \<longleftrightarrow> k \<in> {SkMacroUsage, SkInvocationExpression, SkHierarchyInstantiation,
     SkClassName, SkAssignmentPatternExpression, SkParameterDeclaration}"

text \<open>\<open>emplace\<close> keeps the node that is there.\<close>

definition note_hint :: "nat \<Rightarrow> node_info \<Rightarrow> syntax_index \<Rightarrow> syntax_index" where
  "note_hint b n st = (let start = tk_loc (nd_first n); key = of_nat (loffset start) in
     if is_hint_kind (nd_kind n) \<and> lbuffer start = b \<and> collectedHints st key = None
     then st\<lparr>collectedHints := (collectedHints st)(key \<mapsto> nd_id n)\<rparr> else st)"

definition collect :: "node_info \<Rightarrow> src_token \<Rightarrow> syntax_index \<Rightarrow> syntax_index" where
  "collect parent tok st = st\<lparr>collected := collected st @ [tok],
     tokenToParent := (tokenToParent st)(tk_id tok \<mapsto> nd_id parent)\<rparr>"

text \<open>The part of \<open>visit\<close> for a token, after its trivia.\<close>

definition in_expansion :: "syntax_lib \<Rightarrow> src_token \<Rightarrow> syntax_index \<Rightarrow> bool" where
  "in_expansion lib tok st = (case currentMacroUsage st of None \<Rightarrow> False
     | Some u \<Rightarrow> isMacroLoc lib (tk_loc tok)
         \<and> range_contains lib (nd_range u) (fullyExpanded lib (tk_loc tok)))"

definition visit_token :: "syntax_lib \<Rightarrow> nat \<Rightarrow> node_info \<Rightarrow> src_token \<Rightarrow> syntax_index \<Rightarrow> syntax_index" where
  "visit_token lib b parent tok st =
    (if in_expansion lib tok st then st\<lparr>currentExpansion := currentExpansion st @ [tok]\<rparr>
     else let st' = flushMacroExpansion st in
       if lbuffer (tk_loc tok) = b \<and> tk_kind tok \<noteq> LexPlaceholder then collect parent tok st' else st')"

definition track_usage :: "nat \<Rightarrow> node_info \<Rightarrow> node_info \<Rightarrow> syntax_index \<Rightarrow> syntax_index" where
  "track_usage b parent n st =
    (let st1 = st\<lparr>triviaParent := (triviaParent st)(nd_id n \<mapsto> nd_id parent)\<rparr> in
     if nd_kind n = SkMacroUsage \<and> lbuffer (nd_directive n) = b
     then (flushMacroExpansion st1)\<lparr>currentMacroUsage := Some n\<rparr> else st1)"

definition add_skipped :: "nat \<Rightarrow> node_info \<Rightarrow> src_token \<Rightarrow> syntax_index \<Rightarrow> syntax_index" where
  "add_skipped b parent tok st =
    (if lbuffer (tk_loc tok) = b \<and> \<not> tk_missing tok \<and> tk_kind tok \<noteq> LexPlaceholder
     then collect parent tok st else st)"

definition disabled_range :: "syntax_lib \<Rightarrow> nat \<Rightarrow> node_info \<Rightarrow> source_range list" where
  "disabled_range lib b n = (if lbuffer (tk_loc (nd_first n)) \<noteq> b then [] else
     (case nd_branch n of Branch start (Some stop) \<Rightarrow> (if loc_less lib start stop then [(start, stop)] else [])
      | _ \<Rightarrow> []))"

definition addDisabledRange :: "syntax_lib \<Rightarrow> nat \<Rightarrow> node_info \<Rightarrow> syntax_index \<Rightarrow> syntax_index" where
  "addDisabledRange lib b n st = st\<lparr>disabled_ranges := disabled_ranges st @ disabled_range lib b n\<rparr>"

fun visit :: "syntax_lib \<Rightarrow> nat \<Rightarrow> snode \<Rightarrow> syntax_index \<Rightarrow> syntax_index"
  and visit_children :: "syntax_lib \<Rightarrow> nat \<Rightarrow> node_info \<Rightarrow> schild list \<Rightarrow> syntax_index \<Rightarrow> syntax_index"
  and processTrivia :: "syntax_lib \<Rightarrow> nat \<Rightarrow> node_info \<Rightarrow> strivia list \<Rightarrow> syntax_index \<Rightarrow> syntax_index"
  and process_skipped :: "syntax_lib \<Rightarrow> nat \<Rightarrow> node_info \<Rightarrow> stoken list \<Rightarrow> syntax_index \<Rightarrow> syntax_index"
where
  "visit lib b (SNode n cs) st = visit_children lib b n cs (note_hint b n st)"
| "visit_children lib b n [] st = st"
| "visit_children lib b n (ChildNode c # cs) st = visit_children lib b n cs (visit lib b c st)"
| "visit_children lib b n (ChildToken (SToken tok tr) # cs) st =
     visit_children lib b n cs (visit_token lib b n tok (processTrivia lib b n tr st))"
| "visit_children lib b n (ChildNone # cs) st = visit_children lib b n cs st"
| "processTrivia lib b n [] st = st"
| "processTrivia lib b n (SyntaxTrivia directive s # ts) st =
     processTrivia lib b n ts (addDisabledRange lib b (node_info s)
       (if directive then track_usage b n (node_info s) (visit lib b s st) else st))"
| "processTrivia lib b n (SkippedTokens toks # ts) st =
     processTrivia lib b n ts (process_skipped lib b n toks st)"
| "processTrivia lib b n (TextTrivia # ts) st = processTrivia lib b n ts st"
| "process_skipped lib b n [] st = st"
| "process_skipped lib b n (SToken tok tr # ts) st =
     process_skipped lib b n ts (add_skipped b n tok (processTrivia lib b n tr st))"

text \<open>The constructor: no buffer means the first of the tree.\<close>

definition syntax_indexer :: "syntax_lib \<Rightarrow> nat list \<Rightarrow> nat option \<Rightarrow> snode \<Rightarrow> syntax_index" where
  "syntax_indexer lib buffers buffer root =
    (let b = (case buffer of Some b \<Rightarrow> b | None \<Rightarrow> hd buffers)
     in flushMacroExpansion (visit lib b root empty_index))"

definition expansion_text :: "src_token list \<Rightarrow> string" where
  "expansion_text toks = concat (map (\<lambda>tok. concat (tk_trivia tok) @ tk_raw tok) toks)"

section \<open>Searches\<close>

text \<open>\<open>static_cast<int>\<close> of a size.\<close>

definition int_of_size :: "nat \<Rightarrow> int" where
  "int_of_size n = sint (of_nat n :: 32 word)"

lemma int_of_size_small: "n < 2 ^ 31 \<Longrightarrow> int_of_size n = int n"
  by (simp add: int_of_size_def signed_of_nat) (simp add: signed_take_bit_int_eq_self)

text \<open>\<open>a <= b\<close> on locations, which are totally ordered.\<close>

definition loc_le :: "syntax_lib \<Rightarrow> source_location \<Rightarrow> source_location \<Rightarrow> bool" where
  "loc_le lib a b \<longleftrightarrow> \<not> loc_less lib b a"

function index_search :: "syntax_lib \<Rightarrow> src_token list \<Rightarrow> source_location \<Rightarrow> nat \<Rightarrow> nat \<Rightarrow> nat" where
  "index_search lib toks loc low high =
    (if low + 1 < high then
       let mid = low + (high - low) div 2 in
       if loc_le lib (tk_loc (toks ! mid)) loc then index_search lib toks loc mid high
       else index_search lib toks loc low mid
     else low)"
  by pat_completeness auto
termination by (relation "measure (\<lambda>(lib, toks, loc, low, high). high - low)") auto

declare index_search.simps [simp del]

definition tokenIndexBefore :: "syntax_lib \<Rightarrow> nat \<Rightarrow> src_token list \<Rightarrow> source_location \<Rightarrow> int" where
  "tokenIndexBefore lib b toks loc =
    (if lbuffer loc \<noteq> b then - 1
     else if toks = [] then - 1
     else if loc_less lib loc (tk_loc (toks ! 0)) then - 1
     else int_of_size (index_search lib toks loc 0 (length toks)))"

definition editorContains :: "syntax_lib \<Rightarrow> src_token \<Rightarrow> source_location \<Rightarrow> bool" where
  "editorContains lib tok loc \<longleftrightarrow> loc_le lib (tk_loc tok) loc \<and> loc_less lib loc (tk_end tok)"

definition isIdToken :: "lex_kind \<Rightarrow> bool" where
  "isIdToken k \<longleftrightarrow> k \<in> {LexIdentifier, LexSystemIdentifier, LexDirective, LexMacroUsage}"

definition getWordTokenAt :: "syntax_lib \<Rightarrow> nat \<Rightarrow> src_token list \<Rightarrow> source_location \<Rightarrow> src_token option" where
  "getWordTokenAt lib b toks loc = (let atInd = tokenIndexBefore lib b toks loc in
     if atInd = - 1 then None
     else let here = toks ! nat atInd; before = toks ! nat (atInd - 1) in
     if isIdToken (tk_kind here) \<and> editorContains lib here loc then Some here
     else if atInd = 0 then None
     else if isIdToken (tk_kind before) \<and> editorContains lib before loc then Some before
     else None)"

definition getTokenAt :: "syntax_lib \<Rightarrow> nat \<Rightarrow> src_token list \<Rightarrow> source_location \<Rightarrow> src_token option" where
  "getTokenAt lib b toks loc = (let atInd = tokenIndexBefore lib b toks loc in
     if atInd = - 1 then None
     else let tok = toks ! nat atInd in
       if range_contains lib (tk_loc tok, tk_end tok) loc then Some tok else None)"

function step_back :: "syntax_lib \<Rightarrow> src_token list \<Rightarrow> source_location \<Rightarrow> int \<Rightarrow> int" where
  "step_back lib toks loc i =
    (if 0 \<le> i \<and> loc_le lib loc (tk_loc (toks ! nat i)) then step_back lib toks loc (i - 1) else i)"
  by pat_completeness auto
termination by (relation "measure (\<lambda>(lib, toks, loc, i). nat (i + 1))") auto

declare step_back.simps [simp del]

definition getTokenBefore :: "syntax_lib \<Rightarrow> nat \<Rightarrow> src_token list \<Rightarrow> source_location \<Rightarrow> src_token option" where
  "getTokenBefore lib b toks loc =
    (let i = step_back lib toks loc (tokenIndexBefore lib b toks loc);
         j = (if 0 \<le> i \<and> loc_less lib loc (tk_end (toks ! nat i)) then i - 1 else i)
     in if 0 \<le> j then Some (toks ! nat j) else None)"

text \<open>\<open>std::lower_bound\<close> on tokens in the order of their locations.\<close>

definition getTokenAfter :: "syntax_lib \<Rightarrow> nat \<Rightarrow> src_token list \<Rightarrow> source_location \<Rightarrow> src_token option" where
  "getTokenAfter lib b toks loc =
    (if lbuffer loc \<noteq> b \<or> toks = [] then None
     else (case dropWhile (\<lambda>t. loc_less lib (tk_loc t) loc) toks of [] \<Rightarrow> None | t # _ \<Rightarrow> Some t))"

text \<open>The nodes from a node up to the root, as its parent pointers lead, are \<open>up\<close>.\<close>

definition tokenParent :: "(nat \<rightharpoonup> nat) \<Rightarrow> src_token \<Rightarrow> nat option" where
  "tokenParent parents tok = parents (tk_id tok)"

definition nodes_above :: "(nat \<Rightarrow> nat list) \<Rightarrow> nat option \<Rightarrow> nat list" where
  "nodes_above up n = (case n of None \<Rightarrow> [] | Some n \<Rightarrow> up n)"

definition first_common :: "(nat \<Rightarrow> nat list) \<Rightarrow> nat option \<Rightarrow> nat option \<Rightarrow> nat option" where
  "first_common up before after =
     find (\<lambda>n. n \<in> set (nodes_above up before)) (nodes_above up after)"

definition getSyntaxAt ::
  "syntax_lib \<Rightarrow> (nat \<Rightarrow> nat list) \<Rightarrow> nat \<Rightarrow> syntax_index \<Rightarrow> source_location \<Rightarrow> nat option" where
  "getSyntaxAt lib up b ix loc =
    (let toks = collected ix; i = tokenIndexBefore lib b toks loc in
     if i = - 1 then None
     else let beforeToken = toks ! nat i in
     if loc_less lib loc (tk_end beforeToken) \<or> tk_missing beforeToken \<and> loc = tk_loc beforeToken
     then tokenParent (tokenToParent ix) beforeToken
     else if i + 1 \<ge> int_of_size (length toks) then None
     else first_common up (tokenParent (tokenToParent ix) beforeToken)
            (tokenParent (tokenToParent ix) (toks ! nat (i + 1))))"

end
