(* ===== verification/SyntaxQueries.thy ===== *)
theory SyntaxQueries
  imports SyntaxIndex
begin

text \<open>
  Correctness of the syntax index: what the visitor collects, what the searches find, and that
  the node between two tokens is their lowest common ancestor.
\<close>

section \<open>What the visitor collects\<close>

text \<open>The tokens of a tree in source order, each with whether the parser skipped it.\<close>

fun tokens_of :: "snode \<Rightarrow> (bool \<times> src_token) list"
  and tokens_of_children :: "schild list \<Rightarrow> (bool \<times> src_token) list"
  and tokens_of_trivia :: "strivia list \<Rightarrow> (bool \<times> src_token) list"
  and tokens_of_skipped :: "stoken list \<Rightarrow> (bool \<times> src_token) list"
where
  "tokens_of (SNode n cs) = tokens_of_children cs"
| "tokens_of_children [] = []"
| "tokens_of_children (ChildNode c # cs) = tokens_of c @ tokens_of_children cs"
| "tokens_of_children (ChildToken (SToken tok tr) # cs) =
     tokens_of_trivia tr @ (False, tok) # tokens_of_children cs"
| "tokens_of_children (ChildNone # cs) = tokens_of_children cs"
| "tokens_of_trivia [] = []"
| "tokens_of_trivia (SyntaxTrivia directive s # ts) =
     (if directive then tokens_of s else []) @ tokens_of_trivia ts"
| "tokens_of_trivia (SkippedTokens toks # ts) = tokens_of_skipped toks @ tokens_of_trivia ts"
| "tokens_of_trivia (TextTrivia # ts) = tokens_of_trivia ts"
| "tokens_of_skipped [] = []"
| "tokens_of_skipped (SToken tok tr # ts) = tokens_of_trivia tr @ (True, tok) # tokens_of_skipped ts"

text \<open>The tokens written in buffer \<open>b\<close>: not placeholders, and of the skipped ones not those the
  parser made up.\<close>

definition written_in :: "nat \<Rightarrow> bool \<times> src_token \<Rightarrow> bool" where
  "written_in b e \<longleftrightarrow> lbuffer (tk_loc (snd e)) = b \<and> tk_kind (snd e) \<noteq> LexPlaceholder
     \<and> (fst e \<longrightarrow> \<not> tk_missing (snd e))"

definition written :: "nat \<Rightarrow> (bool \<times> src_token) list \<Rightarrow> src_token list" where
  "written b es = map snd (filter (written_in b) es)"

lemma written_simps [simp]:
  "written b [] = []"
  "written b (e # es) = (if written_in b e then snd e # written b es else written b es)"
  "written b (xs @ ys) = written b xs @ written b ys"
  by (simp_all add: written_def)

lemma collected_updates [simp]:
  "collected (flushMacroExpansion st) = collected st"
  "collected (note_hint b n st) = collected st"
  "collected (track_usage b p n st) = collected st"
  "collected (addDisabledRange lib b n st) = collected st"
  by (simp_all add: flushMacroExpansion_def note_hint_def track_usage_def addDisabledRange_def
      Let_def split: option.splits)

text \<open>Locations in macro expansions are in buffers of their own.\<close>

definition macros_apart :: "syntax_lib \<Rightarrow> nat \<Rightarrow> bool" where
  "macros_apart lib b \<longleftrightarrow> (\<forall>loc. isMacroLoc lib loc \<longrightarrow> lbuffer loc \<noteq> b)"

lemma collected_visit_token:
  assumes "macros_apart lib b"
  shows "collected (visit_token lib b p tok st) = collected st @ written b [(False, tok)]"
  using assms unfolding macros_apart_def
  by (auto simp: visit_token_def in_expansion_def collect_def written_in_def Let_def split: option.splits)

lemma collected_add_skipped:
  "collected (add_skipped b p tok st) = collected st @ written b [(True, tok)]"
  by (simp add: add_skipped_def collect_def written_in_def)

lemma collected_visit:
  shows "macros_apart lib b \<Longrightarrow> collected (visit lib b s st) = collected st @ written b (tokens_of s)"
    and "macros_apart lib b \<Longrightarrow>
      collected (visit_children lib b n cs st) = collected st @ written b (tokens_of_children cs)"
    and "macros_apart lib b \<Longrightarrow>
      collected (processTrivia lib b n ts st) = collected st @ written b (tokens_of_trivia ts)"
    and "macros_apart lib b \<Longrightarrow>
      collected (process_skipped lib b n toks st) = collected st @ written b (tokens_of_skipped toks)"
  by (induction lib b s st and lib b n cs st and lib b n ts st and lib b n toks st
      rule: visit_visit_children_processTrivia_process_skipped.induct)
     (simp_all add: collected_visit_token collected_add_skipped)

text \<open>An invariant of the visitor: collected tokens have parents, and expansions hold tokens of
  macros only.\<close>

definition index_ok :: "syntax_lib \<Rightarrow> syntax_index \<Rightarrow> bool" where
  "index_ok lib st \<longleftrightarrow> (\<forall>tok \<in> set (collected st). tokenToParent st (tk_id tok) \<noteq> None)
     \<and> (\<forall>u toks. macroExpansions st u = Some toks \<longrightarrow> list_all (\<lambda>t. isMacroLoc lib (tk_loc t)) toks)
     \<and> list_all (\<lambda>t. isMacroLoc lib (tk_loc t)) (currentExpansion st)"

lemma index_ok_steps:
  assumes "index_ok lib st"
  shows "index_ok lib (flushMacroExpansion st)" and "index_ok lib (note_hint b n st)"
    and "index_ok lib (collect p tok st)" and "index_ok lib (addDisabledRange lib b n st)"
  using assms
  by (auto simp: index_ok_def flushMacroExpansion_def note_hint_def collect_def addDisabledRange_def
      Let_def split: option.splits)

lemma index_ok_more:
  assumes "index_ok lib st"
  shows "index_ok lib (track_usage b p n st)" and "index_ok lib (visit_token lib b p tok st)"
    and "index_ok lib (add_skipped b p tok st)"
proof -
  have 1: "index_ok lib (st\<lparr>triviaParent := m\<rparr>)" for m using assms by (simp add: index_ok_def)
  have 2: "index_ok lib (s\<lparr>currentMacroUsage := u\<rparr>)" if "index_ok lib s" for s u
    using that by (simp add: index_ok_def)
  show "index_ok lib (track_usage b p n st)"
    using 2 [OF index_ok_steps(1) [OF 1]] 1 by (simp add: track_usage_def Let_def)
  show "index_ok lib (visit_token lib b p tok st)"
  proof (cases "in_expansion lib tok st")
    case True
    then have "isMacroLoc lib (tk_loc tok)" by (simp add: in_expansion_def split: option.splits)
    with True assms show ?thesis by (simp add: visit_token_def index_ok_def)
  next
    case False
    then show ?thesis using index_ok_steps(1,3) [OF index_ok_steps(1) [OF assms]] index_ok_steps(1) [OF assms]
      by (simp add: visit_token_def Let_def)
  qed
  show "index_ok lib (add_skipped b p tok st)"
    using assms index_ok_steps(3) [OF assms] by (simp add: add_skipped_def)
qed

lemma index_ok_visit:
  shows "index_ok lib st \<Longrightarrow> index_ok lib (visit lib b s st)"
    and "index_ok lib st \<Longrightarrow> index_ok lib (visit_children lib b n cs st)"
    and "index_ok lib st \<Longrightarrow> index_ok lib (processTrivia lib b n ts st)"
    and "index_ok lib st \<Longrightarrow> index_ok lib (process_skipped lib b n toks st)"
  by (induction lib b s st and lib b n cs st and lib b n ts st and lib b n toks st
      rule: visit_visit_children_processTrivia_process_skipped.induct)
     (simp_all add: index_ok_steps index_ok_more)

section \<open>Searches\<close>

lemma index_search_range:
  assumes "low < high" and "loc_le lib (tk_loc (toks ! low)) loc"
    and "high < length toks \<Longrightarrow> loc_less lib loc (tk_loc (toks ! high))" and "high \<le> length toks"
  shows "let i = index_search lib toks loc low high in
     low \<le> i \<and> i < high \<and> loc_le lib (tk_loc (toks ! i)) loc
     \<and> (i + 1 < length toks \<longrightarrow> loc_less lib loc (tk_loc (toks ! (i + 1))))"
  using assms
proof (induction lib toks loc low high rule: index_search.induct)
  case (1 lib toks loc low high)
  show ?case
  proof (cases "low + 1 < high")
    case True
    define mid where "mid = low + (high - low) div 2"
    have mid: "low < mid" "mid < high" using True by (auto simp: mid_def)
    show ?thesis
    proof (cases "loc_le lib (tk_loc (toks ! mid)) loc")
      case le: True
      show ?thesis
        using "1.IH"(1) [OF True mid_def le mid(2) le "1.prems"(3,4)] mid(1) True le
        by (simp add: index_search.simps [of lib toks loc low high] Let_def mid_def)
    next
      case gt: False
      have "loc_less lib loc (tk_loc (toks ! mid))" using gt by (simp add: loc_le_def)
      then show ?thesis
        using "1.IH"(2) [OF True mid_def gt mid(1) "1.prems"(2)] mid(2) True gt "1.prems"(4)
        by (simp add: index_search.simps [of lib toks loc low high] Let_def mid_def)
    qed
  next
    case False
    then have "high = low + 1" using "1.prems"(1) by simp
    with "1.prems" show ?thesis by (simp add: index_search.simps [of lib toks loc low "Suc low"] Let_def)
  qed
qed

lemma tokenIndexBefore_cases:
  assumes "length toks < 2 ^ 31"
  shows "tokenIndexBefore lib b toks loc = - 1
      \<and> (lbuffer loc \<noteq> b \<or> toks = [] \<or> loc_less lib loc (tk_loc (toks ! 0)))
    \<or> (\<exists>i. tokenIndexBefore lib b toks loc = int i \<and> lbuffer loc = b \<and> i < length toks
        \<and> loc_le lib (tk_loc (toks ! i)) loc
        \<and> (i + 1 < length toks \<longrightarrow> loc_less lib loc (tk_loc (toks ! (i + 1)))))"
proof (cases "lbuffer loc \<noteq> b \<or> toks = [] \<or> loc_less lib loc (tk_loc (toks ! 0))")
  case True
  then show ?thesis by (auto simp: tokenIndexBefore_def)
next
  case False
  define i where "i = index_search lib toks loc 0 (length toks)"
  have i: "i < length toks" "loc_le lib (tk_loc (toks ! i)) loc"
    "i + 1 < length toks \<longrightarrow> loc_less lib loc (tk_loc (toks ! (i + 1)))"
    using index_search_range [of 0 "length toks" lib toks loc] False by (auto simp: loc_le_def i_def Let_def)
  have "tokenIndexBefore lib b toks loc = int i"
    using False int_of_size_small [of i] i(1) assms by (simp add: tokenIndexBefore_def i_def)
  with i False show ?thesis by blast
qed

text \<open>Locations of one buffer are in the order of their offsets.\<close>

definition loc_order :: "syntax_lib \<Rightarrow> bool" where
  "loc_order lib \<longleftrightarrow>
     (\<forall>a c. lbuffer a = lbuffer c \<longrightarrow> loc_less lib a c = (loffset a < loffset c))"

abbreviation start_of :: "src_token \<Rightarrow> nat" where "start_of t \<equiv> loffset (tk_loc t)"
abbreviation end_of :: "src_token \<Rightarrow> nat" where "end_of t \<equiv> loffset (tk_end t)"

definition tokens_in_order :: "nat \<Rightarrow> src_token list \<Rightarrow> bool" where
  "tokens_in_order b toks \<longleftrightarrow>
     list_all (\<lambda>t. lbuffer (tk_loc t) = b \<and> lbuffer (tk_end t) = b \<and> start_of t \<le> end_of t) toks
     \<and> sorted_wrt (\<lambda>s t. end_of s \<le> start_of t) toks"

lemma in_order_nth:
  assumes "tokens_in_order b toks" and "i < length toks"
  shows "lbuffer (tk_loc (toks ! i)) = b" and "lbuffer (tk_end (toks ! i)) = b"
    and "start_of (toks ! i) \<le> end_of (toks ! i)"
  using assms by (auto simp: tokens_in_order_def list_all_length)

lemma in_order_before:
  "tokens_in_order b toks \<Longrightarrow> i < j \<Longrightarrow> j < length toks \<Longrightarrow> end_of (toks ! i) \<le> start_of (toks ! j)"
  by (auto simp: tokens_in_order_def sorted_wrt_iff_nth_less)

lemma in_order_starts:
  assumes "tokens_in_order b toks" and "i \<le> j" and "j < length toks"
  shows "start_of (toks ! i) \<le> start_of (toks ! j)"
proof (cases "i = j")
  case False
  with assms show ?thesis using in_order_before [of b toks i j] in_order_nth(3) [of b toks i] by simp
qed simp

text \<open>The number of tokens that start at or before an offset, and strictly before it.\<close>

definition count_upto :: "src_token list \<Rightarrow> nat \<Rightarrow> nat" where
  "count_upto toks i = length (takeWhile (\<lambda>t. start_of t \<le> i) toks)"

definition count_below :: "src_token list \<Rightarrow> nat \<Rightarrow> nat" where
  "count_below toks i = length (takeWhile (\<lambda>t. start_of t < i) toks)"

lemma count_upto_props:
  assumes "tokens_in_order b toks"
  shows "count_upto toks i \<le> length toks" and "k < count_upto toks i \<Longrightarrow> start_of (toks ! k) \<le> i"
    and "count_upto toks i \<le> k \<Longrightarrow> k < length toks \<Longrightarrow> i < start_of (toks ! k)"
proof -
  show "count_upto toks i \<le> length toks" by (simp add: count_upto_def length_takeWhile_le)
  show "k < count_upto toks i \<Longrightarrow> start_of (toks ! k) \<le> i"
    using takeWhile_nth [of k _ toks] set_takeWhileD nth_mem unfolding count_upto_def by metis
  assume k: "count_upto toks i \<le> k" "k < length toks"
  then have "i < start_of (toks ! count_upto toks i)"
    using nth_length_takeWhile [of "\<lambda>t. start_of t \<le> i" toks] by (simp add: count_upto_def)
  with in_order_starts [OF assms k] show "i < start_of (toks ! k)" by simp
qed

lemma count_below_props:
  assumes "tokens_in_order b toks"
  shows "count_below toks i \<le> count_upto toks i" and "k < count_below toks i \<Longrightarrow> start_of (toks ! k) < i"
    and "count_below toks i \<le> k \<Longrightarrow> k < length toks \<Longrightarrow> i \<le> start_of (toks ! k)"
proof -
  show "k < count_below toks i \<Longrightarrow> start_of (toks ! k) < i" for k
    using takeWhile_nth [of k _ toks] set_takeWhileD nth_mem unfolding count_below_def by metis
  then have "count_below toks i - 1 < count_below toks i \<Longrightarrow> start_of (toks ! (count_below toks i - 1)) \<le> i"
    by (meson less_imp_le)
  moreover have "count_below toks i \<le> length toks" by (simp add: count_below_def length_takeWhile_le)
  ultimately show "count_below toks i \<le> count_upto toks i"
    using count_upto_props(3) [OF assms, of i "count_below toks i - 1"] by (cases "count_below toks i") force+
  assume k: "count_below toks i \<le> k" "k < length toks"
  then have "i \<le> start_of (toks ! count_below toks i)"
    using nth_length_takeWhile [of "\<lambda>t. start_of t < i" toks] by (simp add: count_below_def)
  with in_order_starts [OF assms k] show "i \<le> start_of (toks ! k)" by simp
qed

lemma tokenIndexBefore_upto:
  assumes "loc_order lib" and "tokens_in_order b toks" and "length toks < 2 ^ 31" and "lbuffer loc = b"
  shows "tokenIndexBefore lib b toks loc = int (count_upto toks (loffset loc)) - 1"
  using tokenIndexBefore_cases [OF assms(3), of lib b loc]
proof (elim disjE conjE exE)
  assume none: "tokenIndexBefore lib b toks loc = - 1" and "toks = []"
  then show ?thesis by (simp add: count_upto_def)
next
  assume none: "tokenIndexBefore lib b toks loc = - 1" and lt: "loc_less lib loc (tk_loc (toks ! 0))"
  have "count_upto toks (loffset loc) = 0"
  proof (cases toks)
    case (Cons t ts)
    with lt assms(1,4) in_order_nth(1) [OF assms(2), of 0] show ?thesis
      by (simp add: count_upto_def loc_order_def)
  qed (simp add: count_upto_def)
  with none show ?thesis by simp
next
  fix i assume i: "tokenIndexBefore lib b toks loc = int i" "i < length toks"
    "loc_le lib (tk_loc (toks ! i)) loc"
    "i + 1 < length toks \<longrightarrow> loc_less lib loc (tk_loc (toks ! (i + 1)))"
  have "start_of (toks ! i) \<le> loffset loc"
    using i(3) in_order_nth(1) [OF assms(2) i(2)] assms(1,4) by (simp add: loc_le_def loc_order_def)
  then have 1: "i < count_upto toks (loffset loc)"
    using count_upto_props(3) [OF assms(2), of "loffset loc" i] i(2) by (meson leD not_le_imp_less)
  have 2: "count_upto toks (loffset loc) \<le> i + 1"
  proof (cases "i + 1 < length toks")
    case True
    then have "loffset loc < start_of (toks ! (i + 1))"
      using i(4) in_order_nth(1) [OF assms(2) True] assms(1,4) by (simp add: loc_order_def)
    with count_upto_props(2) [OF assms(2), of "i + 1" "loffset loc"] show ?thesis by fastforce
  next
    case False
    with count_upto_props(1) [OF assms(2), of "loffset loc"] show ?thesis by simp
  qed
  from 1 2 i(1) show ?thesis by simp
qed (simp_all add: assms)

lemma step_back_below:
  assumes "loc_order lib" and "tokens_in_order b toks" and "lbuffer loc = b"
    and "n \<le> length toks" and "count_below toks (loffset loc) \<le> n"
  shows "step_back lib toks loc (int n - 1) = int (count_below toks (loffset loc)) - 1"
  using assms(4,5)
proof (induction n)
  case 0
  then show ?case by (simp add: step_back.simps)
next
  case (Suc n)
  have le: "loc_le lib loc (tk_loc (toks ! n)) \<longleftrightarrow> loffset loc \<le> start_of (toks ! n)"
    using in_order_nth(1) [OF assms(2), of n] assms(1,3) Suc.prems(1)
    by (simp add: loc_le_def loc_order_def not_less)
  show ?case
  proof (cases "count_below toks (loffset loc) = Suc n")
    case True
    then have "start_of (toks ! n) < loffset loc"
      using count_below_props(2) [OF assms(2), of n "loffset loc"] by simp
    with le True show ?thesis by (simp add: step_back.simps [of lib toks loc "int n"])
  next
    case False
    then have "loffset loc \<le> start_of (toks ! n)"
      using count_below_props(3) [OF assms(2), of "loffset loc" n] Suc.prems by simp
    with le False Suc.IH Suc.prems show ?thesis
      by (simp add: step_back.simps [of lib toks loc "int n"])
  qed
qed

section \<open>The searches as linear scans\<close>

definition last_of :: "'a list \<Rightarrow> 'a option" where
  "last_of xs = (if xs = [] then None else Some (last xs))"

lemma find_unique:
  assumes "i < length xs" and "\<And>j. j < length xs \<Longrightarrow> P (xs ! j) \<longleftrightarrow> j = i \<and> Q"
  shows "find P xs = (if Q then Some (xs ! i) else None)"
  using assms by (auto simp: find_Some_iff find_None_iff in_set_conv_nth)

lemma find_never: "(\<And>j. j < length xs \<Longrightarrow> \<not> P (xs ! j)) \<Longrightarrow> find P xs = None"
  by (auto simp: find_None_iff in_set_conv_nth)

lemma filter_prefix:
  assumes "n \<le> length xs" and "\<And>j. j < length xs \<Longrightarrow> P (xs ! j) \<longleftrightarrow> j < n"
  shows "filter P xs = take n xs"
proof -
  have "filter P (take n xs) = take n xs" "filter P (drop n xs) = []"
    using assms by (auto simp: filter_id_conv filter_empty_conv in_set_conv_nth)
  then show ?thesis by (metis append_take_drop_id filter_append append_Nil2)
qed

lemma getWordTokenAt_scan:
  assumes "loc_order lib" and "tokens_in_order b toks" and "length toks < 2 ^ 31" and "lbuffer loc = b"
  shows "getWordTokenAt lib b toks loc =
    find (\<lambda>t. isIdToken (tk_kind t) \<and> start_of t \<le> loffset loc \<and> loffset loc < end_of t) toks"
proof -
  let ?n = "count_upto toks (loffset loc)"
  have contains: "editorContains lib (toks ! j) loc \<longleftrightarrow>
      start_of (toks ! j) \<le> loffset loc \<and> loffset loc < end_of (toks ! j)" if "j < length toks" for j
    using in_order_nth(1,2) [OF assms(2) that] assms(1,4)
    by (simp add: editorContains_def loc_le_def loc_order_def not_less)
  have only: "\<not> (start_of (toks ! j) \<le> loffset loc \<and> loffset loc < end_of (toks ! j))"
    if "j < length toks" "j + 1 \<noteq> ?n" for j
  proof (cases "j < ?n")
    case True
    with that(2) have "j < ?n - 1" by simp
    moreover have "?n - 1 < length toks" using True count_upto_props(1) [OF assms(2), of "loffset loc"] by simp
    ultimately have "end_of (toks ! j) \<le> start_of (toks ! (?n - 1))" by (rule in_order_before [OF assms(2)])
    moreover have "start_of (toks ! (?n - 1)) \<le> loffset loc"
      using True by (intro count_upto_props(2) [OF assms(2)]) simp
    ultimately show ?thesis by simp
  next
    case False
    with count_upto_props(3) [OF assms(2), of "loffset loc" j] that(1) show ?thesis by simp
  qed
  show ?thesis
  proof (cases "?n = 0")
    case True
    then show ?thesis using only find_never [of toks] tokenIndexBefore_upto [OF assms]
      by (simp add: getWordTokenAt_def)
  next
    case False
    then have i: "?n - 1 < length toks" using count_upto_props(1) [OF assms(2), of "loffset loc"] by simp
    have "find (\<lambda>t. isIdToken (tk_kind t) \<and> start_of t \<le> loffset loc \<and> loffset loc < end_of t) toks
      = (if isIdToken (tk_kind (toks ! (?n - 1))) \<and> editorContains lib (toks ! (?n - 1)) loc
         then Some (toks ! (?n - 1)) else None)"
    proof (rule find_unique [OF i])
      fix j assume j: "j < length toks"
      show "isIdToken (tk_kind (toks ! j)) \<and> start_of (toks ! j) \<le> loffset loc \<and> loffset loc < end_of (toks ! j)
        \<longleftrightarrow> j = ?n - 1 \<and> isIdToken (tk_kind (toks ! (?n - 1))) \<and> editorContains lib (toks ! (?n - 1)) loc"
      proof (cases "j = ?n - 1")
        case True
        then show ?thesis using contains [OF i] by simp
      next
        case other: False
        with False have "j + 1 \<noteq> ?n" by simp
        with only [OF j] other show ?thesis by blast
      qed
    qed
    moreover have "\<not> editorContains lib (toks ! (?n - 2)) loc" if "1 < ?n"
      using only [of "?n - 2"] contains [of "?n - 2"] i that by fastforce
    moreover have "nat (int ?n - 1) = ?n - 1" "nat (int ?n - 1 - 1) = ?n - 2" using False by auto
    ultimately show ?thesis using False tokenIndexBefore_upto [OF assms]
      by (auto simp: getWordTokenAt_def Let_def)
  qed
qed

lemma getTokenBefore_scan:
  assumes "loc_order lib" and "tokens_in_order b toks" and "length toks < 2 ^ 31" and "lbuffer loc = b"
  shows "getTokenBefore lib b toks loc =
    last_of (filter (\<lambda>t. start_of t < loffset loc \<and> end_of t \<le> loffset loc) toks)"
proof -
  let ?m = "count_below toks (loffset loc)"
  have m: "?m \<le> length toks" using count_below_props(1) count_upto_props(1) assms(2) le_trans by metis
  have stepped: "step_back lib toks loc (tokenIndexBefore lib b toks loc) = int ?m - 1"
    using step_back_below [OF assms(1,2,4) count_upto_props(1) [OF assms(2)] count_below_props(1) [OF assms(2)]]
      tokenIndexBefore_upto [OF assms] by simp
  define n where "n = (if 0 < ?m \<and> loffset loc < end_of (toks ! (?m - 1)) then ?m - 1 else ?m)"
  have n: "n \<le> ?m" "n \<le> length toks" using m by (auto simp: n_def)
  have kept: "filter (\<lambda>t. start_of t < loffset loc \<and> end_of t \<le> loffset loc) toks = take n toks"
  proof (rule filter_prefix [OF n(2)])
    fix j assume j: "j < length toks"
    have "end_of (toks ! j) \<le> loffset loc" if "j < ?m - 1"
    proof -
      have "?m - 1 < length toks" using m that by simp
      then have "end_of (toks ! j) \<le> start_of (toks ! (?m - 1))" by (rule in_order_before [OF assms(2) that])
      moreover have "start_of (toks ! (?m - 1)) < loffset loc"
        using that by (intro count_below_props(2) [OF assms(2)]) simp
      ultimately show ?thesis by simp
    qed
    moreover have "start_of (toks ! j) < loffset loc \<longleftrightarrow> j < ?m"
      using count_below_props(2,3) [OF assms(2), of j "loffset loc"]
        count_below_props(3) [OF assms(2), of "loffset loc" j] j by (meson leD leI)
    ultimately show "start_of (toks ! j) < loffset loc \<and> end_of (toks ! j) \<le> loffset loc \<longleftrightarrow> j < n"
      by (cases "j = ?m - 1") (auto simp: n_def not_less)
  qed
  have "loc_less lib loc (tk_end (toks ! (?m - 1))) \<longleftrightarrow> loffset loc < end_of (toks ! (?m - 1))" if "0 < ?m"
    using in_order_nth(2) [OF assms(2), of "?m - 1"] assms(1,4) m that by (simp add: loc_order_def)
  moreover have "nat (int ?m - 1) = ?m - 1" by simp
  ultimately have "getTokenBefore lib b toks loc = (if 0 < n then Some (toks ! (n - 1)) else None)"
    unfolding getTokenBefore_def stepped Let_def n_def by (auto simp: nat_diff_distrib' numeral_2_eq_2)
  moreover have "last_of (take n toks) = (if 0 < n then Some (toks ! (n - 1)) else None)"
    using n(2) by (auto simp: last_of_def last_conv_nth)
  ultimately show ?thesis using kept by simp
qed

lemma getTokenAfter_scan:
  assumes "loc_order lib" and "tokens_in_order b toks" and "lbuffer loc = b"
  shows "getTokenAfter lib b toks loc = find (\<lambda>t. loffset loc \<le> start_of t) toks"
proof -
  have "(case dropWhile (\<lambda>t. loc_less lib (tk_loc t) loc) ts of [] \<Rightarrow> None | t # _ \<Rightarrow> Some t)
      = find (\<lambda>t. loffset loc \<le> start_of t) ts" if "set ts \<subseteq> set toks" for ts
    using that
  proof (induction ts)
    case (Cons t ts)
    then have "lbuffer (tk_loc t) = b" using assms(2) by (auto simp: tokens_in_order_def list_all_iff)
    with Cons assms(1,3) show ?case by (auto simp: loc_order_def)
  qed simp
  then show ?thesis using assms(3) by (simp add: getTokenAfter_def)
qed

section \<open>The node between two tokens\<close>

text \<open>Parent pointers form a tree: from every node they lead up without repetition, and from a
  node on the way they lead on as the way does.\<close>

definition parent_chains :: "(nat \<Rightarrow> nat list) \<Rightarrow> bool" where
  "parent_chains up \<longleftrightarrow> (\<forall>n. distinct (up n) \<and> (\<exists>ns. up n = n # ns)
     \<and> (\<forall>m \<in> set (up n). \<exists>ns. up n = ns @ up m))"

lemma find_SomeE:
  assumes "find P xs = Some x"
  obtains ys zs where "xs = ys @ x # zs" and "P x" and "\<forall>y \<in> set ys. \<not> P y"
proof
  have d: "dropWhile (Not \<circ> P) xs = x # tl (dropWhile (Not \<circ> P) xs)"
    using assms by (simp add: find_dropWhile split: list.splits)
  show "xs = takeWhile (Not \<circ> P) xs @ x # tl (dropWhile (Not \<circ> P) xs)"
    using d takeWhile_dropWhile_id [of "Not \<circ> P" xs] by simp
  show "P x" using assms by (auto simp: find_Some_iff)
  show "\<forall>y \<in> set (takeWhile (Not \<circ> P) xs). \<not> P y" by (auto dest: set_takeWhileD)
qed

lemma chain_suffix:
  assumes "parent_chains up" and "up n = ys @ m # zs"
  shows "up m = m # zs"
proof -
  have m: "m \<in> set (up n)" using assms(2) by simp
  obtain ns where ns: "up n = ns @ up m" using assms(1) m by (auto simp: parent_chains_def)
  obtain ms where ms: "up m = m # ms" using assms(1) by (auto simp: parent_chains_def)
  have eq: "ns @ m # ms = ys @ m # zs" using assms(2) ns ms by simp
  have "distinct (ys @ m # zs)" using assms by (metis parent_chains_def)
  then have "m \<notin> set ys" and "m \<notin> set zs" by simp_all
  then have "ms = zs" using eq [symmetric] by (simp add: append_Cons_eq_iff)
  with ms show ?thesis by simp
qed

lemma first_common_lowest:
  assumes "parent_chains up"
  shows "first_common up (Some p) (Some q) = None \<Longrightarrow> set (up p) \<inter> set (up q) = {}"
    and "first_common up (Some p) (Some q) = Some r \<Longrightarrow>
      r \<in> set (up p) \<inter> set (up q) \<and> set (up r) = set (up p) \<inter> set (up q)"
proof -
  show "first_common up (Some p) (Some q) = None \<Longrightarrow> set (up p) \<inter> set (up q) = {}"
    by (auto simp: first_common_def nodes_above_def find_None_iff)
  assume "first_common up (Some p) (Some q) = Some r"
  then obtain ys zs where q: "up q = ys @ r # zs" and r: "r \<in> set (up p)"
    and ys: "\<forall>y \<in> set ys. y \<notin> set (up p)"
    by (auto simp: first_common_def nodes_above_def elim: find_SomeE)
  obtain ms where p: "up p = ms @ up r" using assms r by (auto simp: parent_chains_def)
  have ur: "up r = r # zs" by (rule chain_suffix [OF assms q])
  have "set (up p) \<inter> set (up q) = set (up r)"
  proof
    show "set (up p) \<inter> set (up q) \<subseteq> set (up r)" using ys ur q by auto
    show "set (up r) \<subseteq> set (up p) \<inter> set (up q)" using p ur q by auto
  qed
  then show "r \<in> set (up p) \<inter> set (up q) \<and> set (up r) = set (up p) \<inter> set (up q)" using r q by auto
qed

lemma tokenIndexBefore_between:
  assumes "loc_order lib" and "tokens_in_order b toks" and "length toks < 2 ^ 31" and "lbuffer loc = b"
    and "i + 1 < length toks" and "end_of (toks ! i) \<le> loffset loc"
    and "loffset loc < start_of (toks ! (i + 1))"
  shows "tokenIndexBefore lib b toks loc = int i"
proof -
  have "start_of (toks ! i) \<le> loffset loc" using in_order_nth(3) [OF assms(2), of i] assms(5,6) by simp
  then have "i < count_upto toks (loffset loc)"
    using count_upto_props(3) [OF assms(2), of "loffset loc" i] assms(5) by fastforce
  moreover have "count_upto toks (loffset loc) \<le> i + 1"
    using count_upto_props(2) [OF assms(2), of "i + 1" "loffset loc"] assms(7) by fastforce
  ultimately show ?thesis using tokenIndexBefore_upto [OF assms(1-4)] by simp
qed

section \<open>Properties\<close>

text \<open>A location order, two documents and a small tree, for the witnesses.\<close>

definition sample_lib :: syntax_lib where
  "sample_lib = \<lparr>loc_less = (\<lambda>a c. lbuffer a < lbuffer c \<or> lbuffer a = lbuffer c \<and> loffset a < loffset c),
     isMacroLoc = (\<lambda>loc. 9 \<le> lbuffer loc), fullyExpanded = (\<lambda>loc. loc_at 1 (loffset loc)),
     range_contains = (\<lambda>rg loc. loffset (fst rg) \<le> loffset loc \<and> loffset loc < loffset (snd rg))\<rparr>"

definition sample_token :: "nat \<Rightarrow> lex_kind \<Rightarrow> nat \<Rightarrow> nat \<Rightarrow> src_token" where
  "sample_token i k s e = \<lparr>tk_id = i, tk_kind = k, tk_loc = loc_at 1 s, tk_end = loc_at 1 e,
     tk_raw = ''x'', tk_trivia = [], tk_missing = False\<rparr>"

definition sample_tokens :: "src_token list" where
  "sample_tokens = [sample_token 0 LexIdentifier 0 3, sample_token 1 (LexOther 0) 3 5,
     sample_token 2 LexIdentifier 8 9]"

lemma sample_lib_ok: "loc_order sample_lib" "macros_apart sample_lib 1"
  by (auto simp: loc_order_def macros_apart_def sample_lib_def)

lemma sample_tokens_ok: "tokens_in_order 1 sample_tokens" "length sample_tokens < 2 ^ 31"
  by (simp_all add: tokens_in_order_def sample_tokens_def sample_token_def)

text \<open>The index a token search returns is in bounds and brackets the location, whatever the
  order of the tokens: it is -1 when the location is in another buffer or before the first token,
  and otherwise an index whose token starts at or before the location while the next token, if
  there is one, starts after it. (The result is an \<open>int\<close>, so the bound on the number of tokens
  is needed.)\<close>

theorem tokenIndexBefore_bounds:
  assumes "length toks < 2 ^ 31"
  shows "- 1 \<le> tokenIndexBefore lib b toks loc \<and> tokenIndexBefore lib b toks loc < int (length toks)
    \<and> (let i = tokenIndexBefore lib b toks loc in
       if i = - 1 then lbuffer loc \<noteq> b \<or> toks = [] \<or> loc_less lib loc (tk_loc (toks ! 0))
       else lbuffer loc = b \<and> loc_le lib (tk_loc (toks ! nat i)) loc
         \<and> (nat i + 1 < length toks \<longrightarrow> loc_less lib loc (tk_loc (toks ! (nat i + 1)))))"
  using tokenIndexBefore_cases [OF assms, of lib b loc] by (elim disjE exE) (auto simp: Let_def)

theorem tokenIndexBefore_bounds_witness:
  "tokenIndexBefore sample_lib 1 sample_tokens (loc_at 1 4) < 3"
  using tokenIndexBefore_bounds [OF sample_tokens_ok(2), of sample_lib 1 "loc_at 1 4"]
  by (simp add: sample_tokens_def)

text \<open>The binary searches of the token index agree with scans of all tokens, for tokens in
  source order that do not overlap: the word at a location is the word token that contains it,
  the token before is the last one that starts before the location and ends by it, the token after
  is the first that starts at or after it.\<close>

theorem token_searches_scan:
  assumes "loc_order lib" and "tokens_in_order b toks" and "length toks < 2 ^ 31" and "lbuffer loc = b"
  shows "getWordTokenAt lib b toks loc =
      find (\<lambda>t. isIdToken (tk_kind t) \<and> start_of t \<le> loffset loc \<and> loffset loc < end_of t) toks
    \<and> getTokenBefore lib b toks loc =
      last_of (filter (\<lambda>t. start_of t < loffset loc \<and> end_of t \<le> loffset loc) toks)
    \<and> getTokenAfter lib b toks loc = find (\<lambda>t. loffset loc \<le> start_of t) toks"
  using getWordTokenAt_scan [OF assms] getTokenBefore_scan [OF assms] getTokenAfter_scan [OF assms(1,2,4)]
  by blast

theorem token_searches_scan_witness:
  "getTokenBefore sample_lib 1 sample_tokens (loc_at 1 4) = Some (sample_token 0 LexIdentifier 0 3)"
  using token_searches_scan [OF sample_lib_ok(1) sample_tokens_ok, of "loc_at 1 4"]
  by (simp add: sample_tokens_def sample_token_def last_of_def)

text \<open>C33. The visitor collects exactly the tokens written in its buffer, in source order: of the
  tree's tokens, directives and skipped tokens included, those of the buffer that are neither
  placeholders nor made up while skipping. The tracking of macro expansions never takes one away,
  every collected token has a parent node, and the recorded expansions hold macro tokens only.\<close>

theorem syntax_index_complete:
  assumes "macros_apart lib b"
  shows "collected (syntax_indexer lib bs (Some b) root) = written b (tokens_of root)
    \<and> index_ok lib (syntax_indexer lib bs (Some b) root)"
proof -
  have "index_ok lib empty_index" by (simp add: index_ok_def empty_index_def)
  then show ?thesis using collected_visit(1) [OF assms, of root empty_index]
      index_ok_steps(1) [OF index_ok_visit(1)]
    by (simp add: syntax_indexer_def) (simp add: empty_index_def)
qed

definition sample_info :: "nat \<Rightarrow> syntax_kind \<Rightarrow> node_info" where
  "sample_info i k = \<lparr>nd_id = i, nd_kind = k, nd_first = sample_token 0 LexIdentifier 0 3,
     nd_last_end = loc_at 1 9, nd_range = (loc_at 1 0, loc_at 1 9), nd_branch = NoBranch,
     nd_directive = loc_at 1 0, nd_type_range = (loc_at 1 0, loc_at 1 3)\<rparr>"

definition sample_tree :: snode where
  "sample_tree = SNode (sample_info 0 SkModuleDeclaration)
     [ChildToken (SToken (sample_token 0 LexIdentifier 0 3)
        [SyntaxTrivia True (SNode (sample_info 1 SkMacroUsage) [])]),
      ChildToken (SToken ((sample_token 5 LexIdentifier 1 2)\<lparr>tk_loc := loc_at 9 1\<rparr>) [TextTrivia]),
      ChildNode (SNode (sample_info 2 SkDataDeclaration)
        [ChildToken (SToken (sample_token 1 (LexOther 0) 3 5) []), ChildNone]),
      ChildToken (SToken (sample_token 2 LexIdentifier 8 9) [SkippedTokens [SToken (sample_token 3 LexPlaceholder 6 6) []]])]"

theorem syntax_index_complete_witness:
  "collected (syntax_indexer sample_lib [1] (Some 1) sample_tree) = sample_tokens"
  using syntax_index_complete [OF sample_lib_ok(2), of "[1]" sample_tree]
  by (simp add: sample_tree_def sample_tokens_def sample_token_def written_in_def)

text \<open>Between two tokens, the syntax at a location is the lowest common ancestor of their
  parents: a node above both, whose own ancestors are all the common ones; there is none only
  when the two have no ancestor in common.\<close>

theorem syntax_between_tokens:
  assumes "loc_order lib" and "parent_chains up"
    and "tokens_in_order b (collected ix)" and "length (collected ix) < 2 ^ 31" and "lbuffer loc = b"
    and "i + 1 < length (collected ix)" and "end_of (collected ix ! i) \<le> loffset loc"
    and "loffset loc < start_of (collected ix ! (i + 1))" and "\<not> tk_missing (collected ix ! i)"
    and "tokenToParent ix (tk_id (collected ix ! i)) = Some p"
    and "tokenToParent ix (tk_id (collected ix ! (i + 1))) = Some q"
  shows "case getSyntaxAt lib up b ix loc of
      None \<Rightarrow> set (up p) \<inter> set (up q) = {}
    | Some r \<Rightarrow> r \<in> set (up p) \<inter> set (up q) \<and> set (up r) = set (up p) \<inter> set (up q)"
proof -
  have i: "tokenIndexBefore lib b (collected ix) loc = int i"
    by (rule tokenIndexBefore_between [OF assms(1,3-8)])
  have "\<not> loc_less lib loc (tk_end (collected ix ! i))"
    using in_order_nth(2) [OF assms(3), of i] assms(1,5-7) by (simp add: loc_order_def)
  moreover have "nat (int i + 1) = i + 1" by simp
  ultimately have "getSyntaxAt lib up b ix loc = first_common up (Some p) (Some q)"
    using i assms(4,6,9-11) by (simp add: getSyntaxAt_def tokenParent_def int_of_size_small)
  then show ?thesis using first_common_lowest [OF assms(2), of p q] by (auto split: option.splits)
qed

definition sample_up :: "nat \<Rightarrow> nat list" where
  "sample_up n = (if n = 0 then [0] else [n, 0])"

theorem syntax_between_tokens_witness:
  "getSyntaxAt sample_lib sample_up 1 (syntax_indexer sample_lib [1] (Some 1) sample_tree) (loc_at 1 6) = Some 0"
proof -
  let ?ix = "syntax_indexer sample_lib [1] (Some 1) sample_tree"
  have c: "collected ?ix = sample_tokens"
    using collected_visit(1) [OF sample_lib_ok(2), of sample_tree empty_index]
    by (simp add: syntax_indexer_def, simp add: empty_index_def sample_tree_def sample_tokens_def
        sample_token_def written_in_def)
  have p: "tokenToParent ?ix 1 = Some 2" "tokenToParent ?ix 2 = Some 0"
    by (simp_all add: syntax_indexer_def sample_tree_def visit_token_def in_expansion_def track_usage_def
        flushMacroExpansion_def note_hint_def is_hint_kind_def collect_def add_skipped_def addDisabledRange_def
        empty_index_def sample_info_def sample_token_def sample_lib_def Let_def)
  have "parent_chains sample_up" by (auto simp: parent_chains_def sample_up_def)
  from syntax_between_tokens [OF sample_lib_ok(1) this, of 1 ?ix "loc_at 1 6" 1 2 0] c p
  show ?thesis using sample_tokens_ok
    by (auto simp: sample_tokens_def sample_token_def sample_up_def split: option.splits if_splits)
qed

end
