(* ===== verification/CompletionKinds.thy ===== *)
theory CompletionKinds
  imports SyntaxIndex
begin

text \<open>
  The kind of a completion site, from src/completions/CompletionContext.cpp: the kind predicates
  of the anonymous namespace and the walk from the syntax at the cursor up to the root.

  The families of node kinds that slang defines (\<open>isKind\<close> of a base class, assignment operators)
  and its keyword test are the parameter \<open>syntax_facts\<close>.
\<close>

datatype completion_kind =
  PortListKind | ExpressionKind | ModuleMemberKind | ProceduralKind | DeclarationKind | UnknownKind

record syntax_facts =
  isSelectorKind :: "syntax_kind \<Rightarrow> bool"
  isAssignmentOperator :: "syntax_kind \<Rightarrow> bool"
  isMemberKind :: "syntax_kind \<Rightarrow> bool"
  isKeyword :: "lex_kind \<Rightarrow> bool"

definition isExpressionContext :: "syntax_facts \<Rightarrow> syntax_kind \<Rightarrow> bool" where
  "isExpressionContext F k \<longleftrightarrow> isSelectorKind F k \<or> k \<in> {SkOrderedPortConnection,
     SkNamedPortConnection, SkOrderedArgument, SkNamedArgument, SkOrderedParamAssignment,
     SkNamedParamAssignment, SkConditionalExpression, SkConditionalStatement,
     SkParenthesizedExpression, SkInvocationExpression, SkExpressionStatement,
     SkEqualsValueClause, SkMacroActualArgument, SkMacroActualArgumentList}"

definition isPortListContext :: "syntax_kind \<Rightarrow> bool" where
  "isPortListContext k \<longleftrightarrow> k \<in> {SkAnsiPortList, SkNonAnsiPortList, SkWildcardPortList,
     SkImplicitAnsiPort, SkPortDeclaration}"

definition isModuleMemberContext :: "syntax_kind \<Rightarrow> bool" where
  "isModuleMemberContext k \<longleftrightarrow> k \<in> {SkModuleDeclaration, SkInterfaceDeclaration,
     SkProgramDeclaration, SkPackageDeclaration, SkClassDeclaration, SkGenerateBlock,
     SkGenerateRegion}"

definition isDeclarationContext :: "syntax_kind \<Rightarrow> bool" where
  "isDeclarationContext k \<longleftrightarrow> k \<in> {SkParameterDeclaration, SkTypeParameterDeclaration,
     SkParameterPortList, SkParameterValueAssignment}"

definition isDeclaringMember :: "syntax_kind \<Rightarrow> bool" where
  "isDeclaringMember k \<longleftrightarrow> k \<in> {SkDataDeclaration, SkNetDeclaration, SkTypedefDeclaration,
     SkPortDeclaration, SkLocalVariableDeclaration, SkSpecparamDeclaration}"

definition isProceduralBlockContext :: "syntax_kind \<Rightarrow> bool" where
  "isProceduralBlockContext k \<longleftrightarrow> k \<in> {SkFunctionDeclaration, SkTaskDeclaration,
     SkAlwaysBlock, SkAlwaysCombBlock, SkAlwaysFFBlock, SkAlwaysLatchBlock, SkInitialBlock,
     SkFinalBlock, SkSequentialBlockStatement, SkParallelBlockStatement}"

definition isInstantiationType :: "syntax_lib \<Rightarrow> node_info \<Rightarrow> source_location \<Rightarrow> bool" where
  "isInstantiationType lib n loc \<longleftrightarrow> nd_kind n = SkHierarchyInstantiation
     \<and> loc_le lib (fst (nd_type_range n)) loc \<and> loc_le lib loc (snd (nd_type_range n))"

text \<open>What one node decides; \<open>None\<close> when the walk goes on to its parent.\<close>

definition member_decides ::
  "syntax_lib \<Rightarrow> syntax_facts \<Rightarrow> source_location \<Rightarrow> node_info \<Rightarrow> completion_kind option" where
  "member_decides lib F loc n = (let firstToken = nd_first n in
     if \<not> isKeyword F (tk_kind firstToken) \<and> loc_le lib (tk_loc firstToken) loc
        \<and> loc_le lib loc (tk_end firstToken) then None
     else if loc_less lib loc (nd_last_end n) \<and> \<not> isInstantiationType lib n loc
     then Some (if isDeclaringMember (nd_kind n) then DeclarationKind else ExpressionKind)
     else if loc_less lib (tk_end firstToken) loc then Some ExpressionKind
     else None)"

definition node_decides ::
  "syntax_lib \<Rightarrow> syntax_facts \<Rightarrow> source_location \<Rightarrow> node_info \<Rightarrow> completion_kind option" where
  "node_decides lib F loc n = (let k = nd_kind n in
     if isAssignmentOperator F k \<or> isExpressionContext F k then Some ExpressionKind
     else if isProceduralBlockContext k then Some ProceduralKind
     else if isPortListContext k then Some PortListKind
     else if isModuleMemberContext k then Some ModuleMemberKind
     else if isDeclarationContext k then Some DeclarationKind
     else if isMemberKind F k then member_decides lib F loc n
     else None)"

fun walk_up ::
  "syntax_lib \<Rightarrow> syntax_facts \<Rightarrow> source_location \<Rightarrow> node_info list \<Rightarrow> completion_kind option" where
  "walk_up lib F loc [] = None"
| "walk_up lib F loc (n # ns) = (case node_decides lib F loc n of
     Some k \<Rightarrow> Some k | None \<Rightarrow> walk_up lib F loc ns)"

text \<open>The kind \<open>fromLocation\<close> gives: the nodes are those from the syntax at the cursor up, none
  when there is no syntax.\<close>

definition context_kind :: "syntax_lib \<Rightarrow> syntax_facts \<Rightarrow> bool \<Rightarrow> node_info list \<Rightarrow> source_location \<Rightarrow> completion_kind" where
  "context_kind lib F has_scope nodes loc = (case walk_up lib F loc nodes of
     Some k \<Rightarrow> k | None \<Rightarrow> if has_scope then ModuleMemberKind else UnknownKind)"

section \<open>Correctness\<close>

lemma walk_up_prefix:
  "list_all (\<lambda>n. node_decides lib F loc n = None) ns \<Longrightarrow> walk_up lib F loc (ns @ ms) = walk_up lib F loc ms"
  by (induction ns) simp_all

lemma walk_up_None: "walk_up lib F loc ns = None \<longleftrightarrow> list_all (\<lambda>n. node_decides lib F loc n = None) ns"
  by (induction ns) (auto split: option.splits)

text \<open>While the first word of an item is being written, the item decides nothing: the kind is that
  of the place it starts in.\<close>

lemma first_word_transparent:
  assumes "\<not> isKeyword F (tk_kind (nd_first n))" and "loc_le lib (tk_loc (nd_first n)) loc"
    and "loc_le lib loc (tk_end (nd_first n))" and "isMemberKind F (nd_kind n)"
    and "nd_kind n = SkOther k" and "\<not> isSelectorKind F (SkOther k)" and "\<not> isAssignmentOperator F (SkOther k)"
  shows "context_kind lib F sc (n # ns) loc = context_kind lib F sc ns loc"
  using assms
  by (simp add: context_kind_def node_decides_def member_decides_def isExpressionContext_def
      isProceduralBlockContext_def isPortListContext_def isModuleMemberContext_def
      isDeclarationContext_def)

text \<open>A site in a scope always has a kind.\<close>

lemma context_kind_known: "has_scope \<Longrightarrow> context_kind lib F has_scope nodes loc \<noteq> UnknownKind"
proof -
  have "node_decides lib F loc n \<noteq> Some UnknownKind" for n
    by (simp add: node_decides_def member_decides_def Let_def)
  then have "walk_up lib F loc ns \<noteq> Some UnknownKind" for ns
    by (induction ns) (auto split: option.splits)
  then show "has_scope \<Longrightarrow> ?thesis" by (auto simp: context_kind_def split: option.splits)
qed

end
