(* ===== verification/IncludeContexts.thy ===== *)
theory IncludeContexts
  imports IndexRuns Positions
begin

text \<open>
  Include contexts, from src/ServerDriver.cpp: \<open>getIncludeContexts\<close> finds the sources that include
  a header, directly or through other headers, and the places where they do; \<open>setIncludeContext\<close>
  records the one the user chooses, and \<open>getIncludeContexts\<close> then puts it first.

  The search calls \<open>getFilesIncluding\<close> of the index, whose cache it fills. What the document of a
  source gives (\<open>getDocument\<close> and slang's parse of it: its URI and its include directives) is the
  field \<open>source_tree\<close> of the environment, \<open>None\<close> when there is no document; so are the answers of
  \<open>isCached\<close> and \<open>isMacroOnly\<close>.
\<close>

section \<open>Data\<close>

record include_selection =
  sel_uri :: uri
  sel_source :: uri
  sel_occurrence :: nat

record include_directive =
  inc_buffer :: "nat option"
  inc_target :: path
  inc_location :: location

record include_context =
  ctx_source :: uri
  ctx_buffer :: nat
  ctx_location :: location
  ctx_occurrence :: nat

record include_env =
  env_fs :: filesystem
  env_cached :: "path \<Rightarrow> bool"
  env_macro_only :: "path \<Rightarrow> bool"
  source_tree :: "path \<Rightarrow> (uri \<times> include_directive list) option"

type_synonym selections = "path \<rightharpoonup> include_selection"

section \<open>The walk over the includers\<close>

text \<open>The first selection on the way; that of another file only counts for its source.\<close>

definition preferred_at :: "selections \<Rightarrow> path \<Rightarrow> path \<Rightarrow> include_selection option \<Rightarrow> include_selection option" where
  "preferred_at sels canonical current preferred = (case preferred of
     Some s \<Rightarrow> Some s
   | None \<Rightarrow> map_option (\<lambda>s. if current \<noteq> canonical then s\<lparr>sel_occurrence := 0\<rparr> else s) (sels current))"

partial_function (option) include_walk ::
  "filesystem \<Rightarrow> selections \<Rightarrow> path \<Rightarrow> path list \<Rightarrow> path list \<Rightarrow> path list \<Rightarrow> include_selection option
    \<Rightarrow> indexer \<Rightarrow> ((path list \<times> include_selection option) result \<times> indexer) option" where
  "include_walk fs sels canonical pending visited sources preferred ix = (case pending of
     [] \<Rightarrow> Some (Inr (sources, preferred), ix)
   | current # rest_paths \<Rightarrow>
      if current \<in> set visited then include_walk fs sels canonical rest_paths visited sources preferred ix
      else (case getFilesIncluding fs current ix of
         (Inl e, ix') \<Rightarrow> Some (Inl e, ix')
       | (Inr parents, ix') \<Rightarrow>
           include_walk fs sels canonical (rest_paths @ sort parents) (current # visited)
             (if parents = [] \<and> current \<noteq> canonical then sources @ [current] else sources)
             (preferred_at sels canonical current preferred) ix'))"

declare include_walk.simps [code]

text \<open>\<open>std::rotate(first, it, it + 1)\<close>: the element found comes first.\<close>

fun rotate_to_front :: "('a \<Rightarrow> bool) \<Rightarrow> 'a list \<Rightarrow> 'a list" where
  "rotate_to_front P xs = (case find P xs of None \<Rightarrow> xs
     | Some x \<Rightarrow> x # takeWhile (\<lambda>y. \<not> P y) xs @ tl (dropWhile (\<lambda>y. \<not> P y) xs))"

definition order_sources :: "include_selection option \<Rightarrow> path list \<Rightarrow> path list" where
  "order_sources preferred sources = (case preferred of
     None \<Rightarrow> sort sources
   | Some s \<Rightarrow> rotate_to_front (\<lambda>p. p = path_of_string (fst (uri_getPath (sel_source s)))) (sort sources))"

section \<open>The contexts of the sources\<close>

fun occurrences :: "path \<Rightarrow> uri \<Rightarrow> nat \<Rightarrow> include_directive list \<Rightarrow> include_context list" where
  "occurrences canonical u n [] = []"
| "occurrences canonical u n (d # ds) = (case inc_buffer d of
     None \<Rightarrow> occurrences canonical u n ds
   | Some b \<Rightarrow> if inc_target d \<noteq> canonical then occurrences canonical u n ds
       else \<lparr>ctx_source = u, ctx_buffer = b, ctx_location = inc_location d, ctx_occurrence = n\<rparr>
         # occurrences canonical u (n + 1) ds)"

definition source_contexts :: "include_env \<Rightarrow> path \<Rightarrow> path \<Rightarrow> include_context list" where
  "source_contexts E canonical source =
    (if \<not> env_cached E source \<and> \<not> is_regular_file (env_fs E) source then []
     else (case source_tree E source of None \<Rightarrow> [] | Some (u, ds) \<Rightarrow> occurrences canonical u 0 ds))"

fun all_contexts :: "include_env \<Rightarrow> path \<Rightarrow> bool \<Rightarrow> include_context list \<Rightarrow> path list \<Rightarrow> include_context list" where
  "all_contexts E canonical selectedOnly acc [] = acc"
| "all_contexts E canonical selectedOnly acc (source # sources) =
    (let acc' = acc @ source_contexts E canonical source in
     if selectedOnly \<and> acc' \<noteq> [] then acc' else all_contexts E canonical selectedOnly acc' sources)"

definition is_selected :: "include_selection \<Rightarrow> include_context \<Rightarrow> bool" where
  "is_selected s c \<longleftrightarrow> uri_eq (ctx_source c) (sel_source s) \<and> ctx_occurrence c = sel_occurrence s"

definition order_contexts :: "include_selection option \<Rightarrow> include_context list \<Rightarrow> include_context list" where
  "order_contexts preferred contexts = (case preferred of
     None \<Rightarrow> contexts | Some s \<Rightarrow> rotate_to_front (is_selected s) contexts)"

definition contexts_of ::
  "include_env \<Rightarrow> path \<Rightarrow> bool \<Rightarrow> path list \<Rightarrow> include_selection option \<Rightarrow> include_context list" where
  "contexts_of E canonical selectedOnly sources preferred = (if sources = [] then [] else
     let contexts = order_contexts preferred
           (all_contexts E canonical selectedOnly [] (order_sources preferred sources))
     in if selectedOnly \<and> length contexts > 1 then take 1 contexts else contexts)"

definition getIncludeContexts ::
  "include_env \<Rightarrow> selections \<Rightarrow> path \<Rightarrow> bool \<Rightarrow> indexer \<Rightarrow> (include_context list result \<times> indexer) option" where
  "getIncludeContexts E sels p selectedOnly ix = (case weakly_canonical (env_fs E) p of
     None \<Rightarrow> Some (Inl (RuntimeError ''filesystem error''), ix)
   | Some canonical \<Rightarrow>
      if \<not> hasPotentialIncluders ix canonical then Some (Inr [], ix)
      else if \<not> env_cached E canonical \<and> \<not> is_regular_file (env_fs E) canonical
              \<or> env_macro_only E canonical then Some (Inr [], ix)
      else (case include_walk (env_fs E) sels canonical [canonical] [] [] None ix of
         None \<Rightarrow> None
       | Some (Inl e, ix') \<Rightarrow> Some (Inl e, ix')
       | Some (Inr (sources, preferred), ix') \<Rightarrow>
           Some (Inr (contexts_of E canonical selectedOnly sources preferred), ix')))"

text \<open>\<open>setIncludeContext\<close> up to the refresh of the clients: whether the selection is one of the
  contexts, and the selections and the index it leaves.\<close>

definition setIncludeContext ::
  "include_env \<Rightarrow> include_selection \<Rightarrow> selections \<Rightarrow> indexer
    \<Rightarrow> ((bool \<times> selections) result \<times> indexer) option" where
  "setIncludeContext E s sels ix =
    (let fs = env_fs E; file_path = (\<lambda>u. path_of_string (fst (uri_getPath u))) in
     case (weakly_canonical fs (file_path (sel_uri s)), weakly_canonical fs (file_path (sel_source s))) of
       (Some canonical, Some src) \<Rightarrow>
        (let source = uri_fromFile (generic_string src);
             chosen = \<lparr>sel_uri = uri_fromFile (generic_string canonical), sel_source = source,
                       sel_occurrence = sel_occurrence s\<rparr>
         in case getIncludeContexts E sels canonical False ix of
              None \<Rightarrow> None
            | Some (Inl e, ix') \<Rightarrow> Some (Inl e, ix')
            | Some (Inr contexts, ix') \<Rightarrow>
                Some (Inr (if list_ex (is_selected chosen) contexts
                           then (True, sels(canonical \<mapsto> chosen)) else (False, sels)), ix'))
     | _ \<Rightarrow> Some (Inl (RuntimeError ''filesystem error''), ix))"

section \<open>What the walk finds\<close>

text \<open>The includers of a file as the index resolves them.\<close>

definition includers_of :: "filesystem \<Rightarrow> indexer \<Rightarrow> path \<Rightarrow> path list" where
  "includers_of fs ix p = (case weakly_canonical fs p of None \<Rightarrow> []
     | Some c \<Rightarrow> (case resolve_includers fs ix c of Inl _ \<Rightarrow> [] | Inr ps \<Rightarrow> ps))"

definition reached_from :: "filesystem \<Rightarrow> indexer \<Rightarrow> path \<Rightarrow> path set" where
  "reached_from fs ix p = {q. (p, q) \<in> {(a, b). b \<in> set (includers_of fs ix a)}\<^sup>*}"

text \<open>States of the index that differ in the cache only.\<close>

definition same_but_cache :: "filesystem \<Rightarrow> indexer \<Rightarrow> indexer \<Rightarrow> bool" where
  "same_but_cache fs ix ix' \<longleftrightarrow> IndexRuns.cache_ok fs ix' \<and> (\<exists>r. ix' = ix\<lparr>resolvedIncluders := r\<rparr>)"

lemma getFilesIncluding_resolves:
  assumes "names_inv ix" and "same_but_cache fs ix ix'"
  shows "\<exists>ix''. getFilesIncluding fs p ix' = (Inr (includers_of fs ix p), ix'') \<and> same_but_cache fs ix ix''"
proof -
  obtain r where ix': "ix' = ix\<lparr>resolvedIncluders := r\<rparr>" and c: "IndexRuns.cache_ok fs ix'"
    using assms(2) by (auto simp: same_but_cache_def)
  have same: "resolve_includers fs ix' = resolve_includers fs ix" by (simp add: ix' resolve_includers_cache)
  obtain r' where r': "snd (getFilesIncluding fs p ix') = ix'\<lparr>resolvedIncluders := r'\<rparr>" using query_fields by blast
  have "same_but_cache fs ix (snd (getFilesIncluding fs p ix'))"
    using query_cache [OF c, of p] r' by (auto simp: same_but_cache_def ix')
  moreover have "fst (getFilesIncluding fs p ix') = Inr (includers_of fs ix p)"
  proof (cases "weakly_canonical fs p")
    case (Some q)
    obtain ps where "resolve_includers fs ix q = Inr ps" using resolve_includers_returns [OF assms(1)] by blast
    with Some c same show ?thesis
      by (auto simp: getFilesIncluding_def IndexRuns.cache_ok_def includers_of_def split: option.split)
  qed (simp add: getFilesIncluding_def includers_of_def)
  ultimately show ?thesis by (metis prod.collapse)
qed

text \<open>All includers the index can name, a finite set.\<close>

definition known_includers :: "filesystem \<Rightarrow> indexer \<Rightarrow> path set" where
  "known_includers fs ix = (\<Union>e \<in> set (includers ix). set (snd e))
     \<union> (\<lambda>p. the (weakly_canonical fs p)) ` (\<Union>e \<in> set (includeReferences ix). set (snd e))"

lemma finite_known: "finite (known_includers fs ix)"
  by (simp add: known_includers_def)

lemma tab_get_known: "x \<in> set (tab_get t k) \<Longrightarrow> \<exists>e \<in> set t. x \<in> set (snd e)"
  by (cases "map_of t k") (force simp: tab_get_def dest: map_of_SomeD)+

lemma gathered_known:
  "gathered_includers fs ix name c srcs = Inr ps \<Longrightarrow> q \<in> set ps \<Longrightarrow> \<exists>s \<in> set srcs. weakly_canonical fs s = Some q"
proof (induction srcs arbitrary: ps)
  case (Cons s srcs)
  then show ?case by (fastforce split: option.splits if_splits sum.splits simp: map_sum_def)
qed simp

lemma includers_known: "q \<in> set (includers_of fs ix p) \<Longrightarrow> q \<in> known_includers fs ix"
proof -
  assume q: "q \<in> set (includers_of fs ix p)"
  then obtain c ps where c: "resolve_includers fs ix c = Inr ps" "q \<in> set ps"
    by (cases "weakly_canonical fs p"; cases "resolve_includers fs ix (the (weakly_canonical fs p))")
       (auto simp: includers_of_def)
  then obtain gs where g: "gathered_includers fs ix (filename c) c (tab_get (includeReferences ix) (filename c)) = Inr gs"
    and ps: "ps = sort_unique (tab_get (includers ix) c @ gs)"
    by (auto simp: resolve_includers_def Let_def map_sum_def split: sum.splits)
  from c(2) ps have "q \<in> set (tab_get (includers ix) c) \<or> q \<in> set gs" by (simp add: sort_unique_set)
  then show ?thesis
  proof
    assume "q \<in> set (tab_get (includers ix) c)"
    then show ?thesis using tab_get_known by (fastforce simp: known_includers_def)
  next
    assume "q \<in> set gs"
    then obtain s where "s \<in> set (tab_get (includeReferences ix) (filename c))" "weakly_canonical fs s = Some q"
      using gathered_known [OF g] by blast
    then show ?thesis using tab_get_known [of s] by (force simp: known_includers_def image_iff)
  qed
qed

text \<open>The invariant of the walk: everything met is reachable, what was visited has its includers
  visited or pending, and the sources are the visited files without includers.\<close>

definition walk_inv ::
  "filesystem \<Rightarrow> indexer \<Rightarrow> selections \<Rightarrow> path \<Rightarrow> path list \<Rightarrow> path list \<Rightarrow> path list
    \<Rightarrow> include_selection option \<Rightarrow> bool" where
  "walk_inv fs ix sels canonical pending visited sources preferred \<longleftrightarrow>
     set pending \<union> set visited \<subseteq> reached_from fs ix canonical
     \<and> canonical \<in> set pending \<union> set visited
     \<and> (\<forall>v \<in> set visited. set (includers_of fs ix v) \<subseteq> set pending \<union> set visited)
     \<and> distinct visited \<and> distinct sources
     \<and> set sources = {v \<in> set visited. includers_of fs ix v = [] \<and> v \<noteq> canonical}
     \<and> (preferred \<noteq> None \<longleftrightarrow> (\<exists>v \<in> set visited. sels v \<noteq> None))"

lemma reached_step: "a \<in> reached_from fs ix p \<Longrightarrow> b \<in> set (includers_of fs ix a) \<Longrightarrow> b \<in> reached_from fs ix p"
  by (auto simp: reached_from_def intro: rtrancl_into_rtrancl)

lemma reached_known: "reached_from fs ix p \<subseteq> insert p (known_includers fs ix)"
proof
  fix q assume "q \<in> reached_from fs ix p"
  then have "(p, q) \<in> {(a, b). b \<in> set (includers_of fs ix a)}\<^sup>*" by (simp add: reached_from_def)
  then show "q \<in> insert p (known_includers fs ix)"
    by (induction rule: rtrancl_induct) (auto dest: includers_known)
qed

lemma reached_closed:
  assumes "p \<in> V" and "\<forall>v \<in> V. set (includers_of fs ix v) \<subseteq> V"
  shows "reached_from fs ix p \<subseteq> V"
proof
  fix q assume "q \<in> reached_from fs ix p"
  then have "(p, q) \<in> {(a, b). b \<in> set (includers_of fs ix a)}\<^sup>*" by (simp add: reached_from_def)
  then show "q \<in> V" by (induction rule: rtrancl_induct) (use assms in auto)
qed

lemma walk_inv_skip:
  "walk_inv fs ix sels c (q # qs) V S pr \<Longrightarrow> q \<in> set V \<Longrightarrow> walk_inv fs ix sels c qs V S pr"
  by (auto simp: walk_inv_def)

lemma walk_inv_visit:
  assumes "walk_inv fs ix sels c (q # qs) V S pr" and "q \<notin> set V"
  shows "walk_inv fs ix sels c (qs @ sort (includers_of fs ix q)) (q # V)
    (if includers_of fs ix q = [] \<and> q \<noteq> c then S @ [q] else S) (preferred_at sels c q pr)"
proof -
  have reach: "set (includers_of fs ix q) \<subseteq> reached_from fs ix c"
    using assms(1) reached_step [of q fs ix c] by (auto simp: walk_inv_def)
  have pr: "preferred_at sels c q pr \<noteq> None \<longleftrightarrow> pr \<noteq> None \<or> sels q \<noteq> None"
    by (simp add: preferred_at_def split: option.splits)
  have new: "set (qs @ sort (includers_of fs ix q)) \<union> set (q # V) = set (q # qs) \<union> set V \<union> set (includers_of fs ix q)"
    by auto
  have "\<forall>v \<in> set (q # V). set (includers_of fs ix v)
      \<subseteq> set (qs @ sort (includers_of fs ix q)) \<union> set (q # V)"
    unfolding new using assms(1) by (simp add: walk_inv_def) blast
  moreover have "set (if includers_of fs ix q = [] \<and> q \<noteq> c then S @ [q] else S)
      = {v \<in> set (q # V). includers_of fs ix v = [] \<and> v \<noteq> c}"
    using assms(1) by (auto simp: walk_inv_def)
  moreover have "distinct (if includers_of fs ix q = [] \<and> q \<noteq> c then S @ [q] else S)"
    using assms by (auto simp: walk_inv_def)
  ultimately show ?thesis using assms reach unfolding walk_inv_def new pr by simp blast
qed

lemma include_walk_total:
  assumes "names_inv ix" and "walk_inv fs ix sels c pending V S pr" and "same_but_cache fs ix ix'"
  shows "\<exists>S' pr' ix''. include_walk fs sels c pending V S pr ix' = Some (Inr (S', pr'), ix'')
    \<and> distinct S' \<and> set S' = {q \<in> reached_from fs ix c. includers_of fs ix q = [] \<and> q \<noteq> c}
    \<and> (pr' \<noteq> None \<longleftrightarrow> (\<exists>q \<in> reached_from fs ix c. sels q \<noteq> None)) \<and> same_but_cache fs ix ix''
    \<and> (pr \<noteq> None \<longrightarrow> pr' = pr)"
  using assms(2,3)
proof (induction "card (insert c (known_includers fs ix)) - length V" arbitrary: pending V S pr ix' rule: less_induct)
  case less
  from less.prems(1) show ?case
  proof (induction pending)
    case Nil
    then have "reached_from fs ix c = set V"
      using reached_closed [of c "set V" fs ix] by (auto simp: walk_inv_def)
    then show ?case using Nil less.prems(2) by (simp add: include_walk.simps walk_inv_def)
  next
    case (Cons q qs)
    show ?case
    proof (cases "q \<in> set V")
      case True
      then show ?thesis using Cons.IH walk_inv_skip [OF Cons.prems True] by (simp add: include_walk.simps)
    next
      case False
      let ?S = "if includers_of fs ix q = [] \<and> q \<noteq> c then S @ [q] else S"
      obtain ix2 where q: "getFilesIncluding fs q ix' = (Inr (includers_of fs ix q), ix2)" "same_but_cache fs ix ix2"
        using getFilesIncluding_resolves [OF assms(1) less.prems(2)] by blast
      have inv: "walk_inv fs ix sels c (qs @ sort (includers_of fs ix q)) (q # V) ?S (preferred_at sels c q pr)"
        by (rule walk_inv_visit [OF Cons.prems False])
      then have "set (q # V) \<subseteq> insert c (known_includers fs ix)" "distinct (q # V)"
        using reached_known [of fs ix c] by (auto simp: walk_inv_def)
      then have "length (q # V) \<le> card (insert c (known_includers fs ix))"
        by (metis card_mono distinct_card finite_insert finite_known)
      then have "card (insert c (known_includers fs ix)) - length (q # V)
          < card (insert c (known_includers fs ix)) - length V" by simp
      from less.hyps [OF this inv q(2)] obtain S' pr' ix''
        where w: "include_walk fs sels c (qs @ sort (includers_of fs ix q)) (q # V) ?S (preferred_at sels c q pr) ix2
            = Some (Inr (S', pr'), ix'')"
          and S': "distinct S'" "set S' = {q \<in> reached_from fs ix c. includers_of fs ix q = [] \<and> q \<noteq> c}"
          and pr': "pr' \<noteq> None \<longleftrightarrow> (\<exists>q \<in> reached_from fs ix c. sels q \<noteq> None)"
          and ix'': "same_but_cache fs ix ix''"
          and kept: "preferred_at sels c q pr \<noteq> None \<longrightarrow> pr' = preferred_at sels c q pr" by blast
      have "include_walk fs sels c (q # qs) V S pr ix' = Some (Inr (S', pr'), ix'')"
        using False q(1) w by (simp add: include_walk.simps [of fs sels c "q # qs"])
      moreover have "pr \<noteq> None \<longrightarrow> pr' = pr" using kept by (auto simp: preferred_at_def)
      ultimately show ?thesis using S' pr' ix'' by blast
    qed
  qed
qed

lemma same_but_cache_refl: "IndexRuns.cache_ok fs ix \<Longrightarrow> same_but_cache fs ix ix"
  by (auto simp: same_but_cache_def intro: exI [of _ "resolvedIncluders ix"])

text \<open>The whole walk; a selection for the file itself is the preferred one.\<close>

lemma include_walk_start:
  assumes "names_inv ix" and "same_but_cache fs ix ix0"
  shows "\<exists>S pr ix'. include_walk fs sels c [c] [] [] None ix0 = Some (Inr (S, pr), ix')
    \<and> distinct S \<and> set S = {q \<in> reached_from fs ix c. includers_of fs ix q = [] \<and> q \<noteq> c}
    \<and> same_but_cache fs ix ix' \<and> (sels c \<noteq> None \<longrightarrow> pr = sels c)"
proof -
  have inv0: "walk_inv fs ix sels c [c] [] [] None" by (simp add: walk_inv_def reached_from_def)
  obtain ix2 where q: "getFilesIncluding fs c ix0 = (Inr (includers_of fs ix c), ix2)" "same_but_cache fs ix ix2"
    using getFilesIncluding_resolves [OF assms] by blast
  have inv: "walk_inv fs ix sels c (sort (includers_of fs ix c)) [c] [] (preferred_at sels c c None)"
    using walk_inv_visit [OF inv0] by simp
  have first: "include_walk fs sels c [c] [] [] None ix0
      = include_walk fs sels c (sort (includers_of fs ix c)) [c] [] (preferred_at sels c c None) ix2"
    using q(1) by (simp add: include_walk.simps [of fs sels c "[c]"])
  have "preferred_at sels c c None = sels c" by (simp add: preferred_at_def option.map_ident)
  then show ?thesis using include_walk_total [OF assms(1) inv q(2)] unfolding first by auto
qed

section \<open>Orders\<close>

declare rotate_to_front.simps [simp del]

lemma rotate_absent: "\<not> (\<exists>x \<in> set xs. P x) \<Longrightarrow> rotate_to_front P xs = xs"
proof -
  assume "\<not> (\<exists>x \<in> set xs. P x)"
  then have "find P xs = None" by (auto simp: find_None_iff)
  then show ?thesis by (simp add: rotate_to_front.simps)
qed

lemma rotate_found:
  assumes "xs = ys @ x # zs" and "P x" and "\<forall>y \<in> set ys. \<not> P y"
  shows "rotate_to_front P xs = x # ys @ zs"
proof -
  have "takeWhile (\<lambda>y. \<not> P y) xs = ys" "dropWhile (\<lambda>y. \<not> P y) xs = x # zs"
    using assms by (simp_all add: takeWhile_append2 dropWhile_append2)
  moreover from this have "find P xs = Some x" by (simp add: find_dropWhile comp_def)
  ultimately show ?thesis by (simp add: rotate_to_front.simps)
qed

lemma rotate_set [simp]: "set (rotate_to_front P xs) = set xs"
proof (cases "\<exists>x \<in> set xs. P x")
  case True
  then obtain ys x zs where "xs = ys @ x # zs" "P x" "\<forall>y \<in> set ys. \<not> P y" using split_list_first_prop [of xs P] by blast
  then show ?thesis using rotate_found [of xs ys x zs P] by auto
qed (simp add: rotate_absent)

lemma rotate_head: "\<exists>x \<in> set xs. P x \<Longrightarrow> \<exists>x ys. rotate_to_front P xs = x # ys \<and> P x"
proof -
  assume "\<exists>x \<in> set xs. P x"
  then obtain ys x zs where "xs = ys @ x # zs" "P x" "\<forall>y \<in> set ys. \<not> P y" using split_list_first_prop [of xs P] by blast
  then show ?thesis using rotate_found [of xs ys x zs P] by auto
qed

lemma rotate_head_append:
  assumes "\<exists>x \<in> set xs. P x"
  shows "take 1 (rotate_to_front P (xs @ ys)) = take 1 (rotate_to_front P xs)"
proof -
  obtain as x bs where "xs = as @ x # bs" "P x" "\<forall>y \<in> set as. \<not> P y" using split_list_first_prop [OF assms] by blast
  then show ?thesis using rotate_found [of xs as x bs P] rotate_found [of "xs @ ys" as x "bs @ ys" P] by simp
qed

lemma order_sources_set [simp]: "set (order_sources preferred S) = set S"
  by (simp add: order_sources_def split: option.split)

lemma order_contexts_set [simp]: "set (order_contexts preferred cs) = set cs"
  by (simp add: order_contexts_def split: option.split)

lemma all_contexts_full: "all_contexts E c False acc ss = acc @ concat (map (source_contexts E c) ss)"
  by (induction ss arbitrary: acc) (simp_all add: Let_def)

lemma all_contexts_selected:
  "all_contexts E c True [] ss = (case dropWhile (\<lambda>x. x = []) (map (source_contexts E c) ss) of [] \<Rightarrow> [] | x # _ \<Rightarrow> x)"
  by (induction ss) (simp_all add: Let_def)

lemma first_nonempty:
  "\<exists>zs. concat xss = (case dropWhile (\<lambda>x. x = []) xss of [] \<Rightarrow> [] | x # _ \<Rightarrow> x) @ zs
    \<and> ((case dropWhile (\<lambda>x. x = []) xss of [] \<Rightarrow> [] | x # _ \<Rightarrow> x) = [] \<longrightarrow> zs = [])"
proof (induction xss)
  case (Cons xs xss)
  then show ?case by (cases "xs = []") auto
qed simp

lemma contexts_of_set:
  "set (contexts_of E c False S pr) = (\<Union>q \<in> set S. set (source_contexts E c q))"
  by (simp add: contexts_of_def Let_def all_contexts_full)

lemma source_contexts_uri:
  "x \<in> set (source_contexts E c q) \<Longrightarrow> \<exists>ds. source_tree E q = Some (ctx_source x, ds)"
proof -
  have "x \<in> set (occurrences c u n ds) \<Longrightarrow> ctx_source x = u" for u n ds
    by (induction c u n ds rule: occurrences.induct) (auto split: option.splits if_splits)
  then show "x \<in> set (source_contexts E c q) \<Longrightarrow> ?thesis"
    by (fastforce simp: source_contexts_def split: option.splits if_splits)
qed

text \<open>The URIs of the documents name their files.\<close>

definition documents_named :: "include_env \<Rightarrow> bool" where
  "documents_named E \<longleftrightarrow> (\<forall>q u ds v. source_tree E q = Some (u, ds) \<longrightarrow> uri_eq u v \<longrightarrow>
     path_of_string (fst (uri_getPath v)) = q)"

lemma contexts_of_selected:
  assumes "documents_named E"
  shows "contexts_of E c True S pr = take 1 (contexts_of E c False S pr)"
proof -
  define ss where "ss = order_sources pr S"
  define sel where "sel = all_contexts E c True [] ss"
  obtain zs where full: "all_contexts E c False [] ss = sel @ zs" and empty: "sel = [] \<longrightarrow> zs = []"
    using first_nonempty [of "map (source_contexts E c) ss"]
    by (auto simp: all_contexts_full all_contexts_selected sel_def)
  have take1: "take 1 (order_contexts pr sel) = take 1 (order_contexts pr (sel @ zs))"
  proof (cases "\<exists>s. pr = Some s \<and> (\<exists>x \<in> set (sel @ zs). is_selected s x)")
    case True
    then obtain s x where s: "pr = Some s" and x: "x \<in> set (sel @ zs)" "is_selected s x" by blast
    obtain q where q: "q \<in> set ss" "x \<in> set (source_contexts E c q)" using x(1) by (auto simp: full [symmetric] all_contexts_full)
    then have named: "path_of_string (fst (uri_getPath (sel_source s))) = q"
      using assms x(2) source_contexts_uri [of x E c q] by (auto simp: documents_named_def is_selected_def)
    have "\<exists>p \<in> set (sort S). p = path_of_string (fst (uri_getPath (sel_source s)))"
      using q(1) named by (simp add: ss_def)
    then obtain p ps where "ss = p # ps" "p = path_of_string (fst (uri_getPath (sel_source s)))"
      using rotate_head [of "sort S" "\<lambda>p. p = path_of_string (fst (uri_getPath (sel_source s)))"] s
      by (auto simp: ss_def order_sources_def)
    then have "sel = source_contexts E c q" using named q(2) by (auto simp: sel_def Let_def)
    then have "\<exists>x \<in> set sel. is_selected s x" using x(2) q(2) by blast
    from rotate_head_append [OF this, of zs] show ?thesis by (simp add: order_contexts_def s)
  next
    case False
    then have "order_contexts pr sel = sel" "order_contexts pr (sel @ zs) = sel @ zs"
      by (auto simp: order_contexts_def rotate_absent split: option.split)
    then show ?thesis using empty by (cases sel) auto
  qed
  show ?thesis
  proof (cases "S = []")
    case False
    then show ?thesis using full take1 [symmetric]
      by (simp add: contexts_of_def Let_def ss_def [symmetric] sel_def [symmetric])
  qed (simp add: contexts_of_def)
qed

section \<open>Properties\<close>

lemma same_includers:
  assumes "same_but_cache fs ix ix'"
  shows "includers_of fs ix' = includers_of fs ix" and "reached_from fs ix' = reached_from fs ix"
    and "hasPotentialIncluders ix' = hasPotentialIncluders ix" and "names_inv ix' = names_inv ix"
proof -
  obtain r where r: "ix' = ix\<lparr>resolvedIncluders := r\<rparr>" using assms by (auto simp: same_but_cache_def)
  show *: "includers_of fs ix' = includers_of fs ix" by (rule ext) (simp only: r includers_of_def resolve_includers_cache)
  show "reached_from fs ix' = reached_from fs ix" by (simp add: fun_eq_iff reached_from_def *)
  show "hasPotentialIncluders ix' = hasPotentialIncluders ix" by (simp add: r fun_eq_iff hasPotentialIncluders_def)
  show "names_inv ix' = names_inv ix" by (simp add: r inv_cong)
qed

text \<open>The state of the index at a search, and a file the search does not turn down.\<close>

definition searchable :: "include_env \<Rightarrow> path \<Rightarrow> indexer \<Rightarrow> bool" where
  "searchable E c ix \<longleftrightarrow> hasPotentialIncluders ix c \<and> (env_cached E c \<or> is_regular_file (env_fs E) c)
     \<and> \<not> env_macro_only E c"

lemma getIncludeContexts_all:
  assumes "names_inv ix" and "same_but_cache (env_fs E) ix ix0"
    and "weakly_canonical (env_fs E) p = Some c" and "searchable E c ix"
  shows "\<exists>S pr ix'. getIncludeContexts E sels p False ix0 = Some (Inr (contexts_of E c False S pr), ix')
    \<and> set S = {q \<in> reached_from (env_fs E) ix c. includers_of (env_fs E) ix q = [] \<and> q \<noteq> c}
    \<and> same_but_cache (env_fs E) ix ix' \<and> (sels c \<noteq> None \<longrightarrow> pr = sels c)"
proof -
  obtain S pr ix' where w: "include_walk (env_fs E) sels c [c] [] [] None ix0 = Some (Inr (S, pr), ix')"
    and S: "set S = {q \<in> reached_from (env_fs E) ix c. includers_of (env_fs E) ix q = [] \<and> q \<noteq> c}"
    and k: "same_but_cache (env_fs E) ix ix'" "sels c \<noteq> None \<longrightarrow> pr = sels c"
    using include_walk_start [OF assms(1,2), of sels c] by blast
  have "getIncludeContexts E sels p False ix0 = Some (Inr (contexts_of E c False S pr), ix')"
    using w assms(3,4) same_includers(3) [OF assms(2)] by (auto simp: getIncludeContexts_def searchable_def)
  with S k show ?thesis by blast
qed

lemma run_state:
  assumes "index_run fs ops empty_indexer = Inr ix" and "list_all keeps_crawl ops"
  shows "names_inv ix" and "same_but_cache fs ix ix"
  using index_run_inv [OF assms(1) empty_inv] index_run_cache [OF assms] IndexRuns.cache_ok_empty [of empty_indexer]
    same_but_cache_refl by (auto simp: empty_indexer_def)


definition sample_env :: include_env where
  "sample_env = \<lparr>env_fs = sample_fs, env_cached = (\<lambda>_. True), env_macro_only = (\<lambda>_. False),
     source_tree = (\<lambda>q. if q = [''/'', ''a.sv''] then Some (uri_fromFile ''/a.sv'',
       [\<lparr>inc_buffer = Some 7, inc_target = [''/'', ''h.svh''],
         inc_location = \<lparr>l_uri = uri_fromFile ''/a.sv'', l_range = \<lparr>r_start = \<lparr>p_line = 0, p_char = 0\<rparr>, r_end = \<lparr>p_line = 0, p_char = 9\<rparr>\<rparr>\<rparr>\<rparr>])
       else None)\<rparr>"

abbreviation sample_ops :: "index_op list" where
  "sample_ops \<equiv> [OpIncludes [[''/'', ''a.sv'']] [([''/'', ''a.sv''], [''/'', ''h.svh''])]]"

lemma sample_env_fs [simp]: "env_fs sample_env = sample_fs" "weakly_canonical sample_fs = Some"
  by (simp_all add: sample_env_def sample_fs_def)

lemma sample_searchable:
  assumes "index_run sample_fs sample_ops empty_indexer = Inr ix"
  shows "searchable sample_env [''/'', ''h.svh''] ix"
  using assms
  by (auto simp: searchable_def sample_env_def hasPotentialIncluders_def updateIncludes_def include_edges_def
      replaceIncludes_def tab_push_def tab_get_def empty_indexer_def sort_unique_def Let_def)


text \<open>The context a document is parsed in is the one the list of contexts shows first: asking for
  the selected context only, which stops at the first source that has one, gives the head of the
  full answer (and fails or runs on exactly when the full search does).\<close>

theorem selected_context_first:
  assumes "documents_named E"
  shows "getIncludeContexts E sels p True ix
    = map_option (map_prod (map_sum id (take 1)) id) (getIncludeContexts E sels p False ix)"
  using contexts_of_selected [OF assms]
  by (auto simp: getIncludeContexts_def split: option.split sum.split)

theorem selected_context_first_witness:
  "getIncludeContexts (sample_env\<lparr>source_tree := \<lambda>_. None\<rparr>) Map.empty [''/'', ''h.svh''] True empty_indexer
    = map_option (map_prod (map_sum id (take 1)) id)
        (getIncludeContexts (sample_env\<lparr>source_tree := \<lambda>_. None\<rparr>) Map.empty [''/'', ''h.svh''] False empty_indexer)"
  by (rule selected_context_first) (simp add: documents_named_def)

text \<open>A selection that is accepted takes effect: the search that follows finds the same contexts,
  and the selected one first.\<close>

theorem accepted_selection_first:
  assumes "index_run (env_fs E) ops empty_indexer = Inr ix" and "list_all keeps_crawl ops"
    and "weakly_canonical (env_fs E) (path_of_string (fst (uri_getPath (sel_uri s)))) = Some c"
    and "weakly_canonical (env_fs E) c = Some c" and "searchable E c ix"
    and "setIncludeContext E s sels ix = Some (Inr (True, sels'), ix')"
  shows "\<exists>chosen x xs ix''. sels' = sels(c \<mapsto> chosen) \<and> sel_occurrence chosen = sel_occurrence s
    \<and> getIncludeContexts E sels' c False ix' = Some (Inr (x # xs), ix'') \<and> is_selected chosen x
    \<and> (\<exists>old ix1. getIncludeContexts E sels c False ix = Some (Inr old, ix1) \<and> set old = set (x # xs))"
proof -
  note st = run_state [OF assms(1,2)]
  obtain src where src: "weakly_canonical (env_fs E) (path_of_string (fst (uri_getPath (sel_source s)))) = Some src"
    using assms(3,6) by (cases "weakly_canonical (env_fs E) (path_of_string (fst (uri_getPath (sel_source s))))")
      (auto simp: setIncludeContext_def Let_def)
  define chosen where "chosen = \<lparr>sel_uri = uri_fromFile (generic_string c), sel_source = uri_fromFile (generic_string src),
    sel_occurrence = sel_occurrence s\<rparr>"
  obtain S pr ix1 where old: "getIncludeContexts E sels c False ix = Some (Inr (contexts_of E c False S pr), ix1)"
    and S: "set S = {q \<in> reached_from (env_fs E) ix c. includers_of (env_fs E) ix q = [] \<and> q \<noteq> c}"
    and ix1: "same_but_cache (env_fs E) ix ix1"
    using getIncludeContexts_all [OF st assms(4,5), of sels] by blast
  have sel: "sels' = sels(c \<mapsto> chosen)" "ix' = ix1" "list_ex (is_selected chosen) (contexts_of E c False S pr)"
    using assms(3,6) src old by (auto simp: setIncludeContext_def Let_def chosen_def split: if_splits)
  obtain S' ix2 where new: "getIncludeContexts E sels' c False ix' = Some (Inr (contexts_of E c False S' (Some chosen)), ix2)"
    and S': "set S' = set S"
    using getIncludeContexts_all [OF st(1) ix1 assms(4,5), of sels'] sel(1,2) S by auto
  have same: "set (contexts_of E c False S' (Some chosen)) = set (contexts_of E c False S pr)"
    by (simp add: contexts_of_set S')
  then have ex: "\<exists>x \<in> set (contexts_of E c False S' (Some chosen)). is_selected chosen x"
    using sel(3) by (auto simp: list_ex_iff)
  have "contexts_of E c False S' (Some chosen)
      = rotate_to_front (is_selected chosen) (all_contexts E c False [] (order_sources (Some chosen) S'))"
    using ex by (auto simp: contexts_of_def order_contexts_def Let_def split: if_splits)
  with ex have "\<exists>x xs. contexts_of E c False S' (Some chosen) = x # xs \<and> is_selected chosen x"
    using rotate_head [of "all_contexts E c False [] (order_sources (Some chosen) S')" "is_selected chosen"] by simp
  then obtain x xs where x: "contexts_of E c False S' (Some chosen) = x # xs" "is_selected chosen x" by blast
  have "sel_occurrence chosen = sel_occurrence s" by (simp add: chosen_def)
  then show ?thesis using sel(1) new x old same by auto
qed

definition sample_choice :: include_selection where
  "sample_choice = \<lparr>sel_uri = uri_fromFile ''/h.svh'', sel_source = uri_fromFile ''/a.sv'', sel_occurrence = 0\<rparr>"

lemma sample_choice_accepted:
  "case index_run sample_fs sample_ops empty_indexer of Inl _ \<Rightarrow> False
   | Inr ix \<Rightarrow> (case setIncludeContext sample_env sample_choice Map.empty ix of
       Some (Inr (ok, _), _) \<Rightarrow> ok | _ \<Rightarrow> False)"
  by code_simp

theorem accepted_selection_first_witness:
  "\<exists>ix sels' ix' x xs ix''. setIncludeContext sample_env sample_choice Map.empty ix = Some (Inr (True, sels'), ix')
    \<and> getIncludeContexts sample_env sels' [''/'', ''h.svh''] False ix' = Some (Inr (x # xs), ix'')"
proof -
  obtain ix where r: "index_run sample_fs sample_ops empty_indexer = Inr ix" by simp
  then have r': "index_run (env_fs sample_env) sample_ops empty_indexer = Inr ix" by simp
  obtain sels' ix' where a: "setIncludeContext sample_env sample_choice Map.empty ix = Some (Inr (True, sels'), ix')"
    using sample_choice_accepted r by (auto split: option.splits sum.splits prod.splits)
  have p: "path_of_string (fst (uri_getPath (sel_uri sample_choice))) = [''/'', ''h.svh'']" by code_simp
  show ?thesis using accepted_selection_first [OF r' _ _ _ sample_searchable [OF r] a] a p by fastforce
qed

end
