(* ===== verification/Config.thy ===== *)
theory Config
  imports Paths "HOL-Library.AList" "HOL-Library.Word"
begin

text \<open>
  The configuration of the server, from src/Config.cpp and include/Config.h: layering the workspace,
  the user and the local file over the defaults, which flags win, and the define the code action adds
  to the local file (\<open>SlangServer::addDefine\<close>).

  JSON values are those of the library's generic reader. The library itself (reading, checking
  against the schema, converting to the struct and back) is a parameter, and so are the contents of
  the files and the environment.
\<close>

section \<open>The configuration\<close>

record flag_source =
  fs_filePath :: string
  fs_flags :: string

record build_entry =
  be_name :: "string option"
  be_glob :: string
  be_command :: string

record config =
  cf_flags :: string
  cf_incdirs :: "string list"
  cf_indexGlobs :: "string list"
  cf_excludeDirs :: "string list"
  cf_index :: "(string list \<times> string list option) list"
  cf_build :: "string option"
  cf_buildPattern :: "string option"
  cf_builds :: "build_entry list"
  cf_flagsByFile :: "flag_source list"

definition default_config :: config where
  "default_config = \<lparr>cf_flags = [], cf_incdirs = [], cf_indexGlobs = [], cf_excludeDirs = [],
     cf_index = [], cf_build = None, cf_buildPattern = None, cf_builds = [], cf_flagsByFile = []\<rparr>"

definition getIndexGlobs :: "config \<Rightarrow> string list" where
  "getIndexGlobs c = (if cf_indexGlobs c = [] then [''./.../*.sv*''] else remdups_adj (sort (cf_indexGlobs c)))"

section \<open>Generic values\<close>

text \<open>A double is kept as the bits of its representation.\<close>

datatype generic =
    GNull
  | GBool bool
  | GInt int
  | GDouble "64 word"
  | GString string
  | GArray "generic list"
  | GObject "(string \<times> generic) list"

type_synonym object = "(string \<times> generic) list"

fun to_array :: "generic \<Rightarrow> generic list option" where
  "to_array (GArray xs) = Some xs"
| "to_array _ = None"

fun to_object :: "generic \<Rightarrow> object option" where
  "to_object (GObject xs) = Some xs"
| "to_object _ = None"

fun string_of_generic :: "generic \<Rightarrow> string option" where
  "string_of_generic (GString s) = Some s"
| "string_of_generic _ = None"

text \<open>Reading a field of an object adds it with the null value when it is missing, which no caller
  sees except through this value.\<close>

definition obj_at :: "object \<Rightarrow> string \<Rightarrow> generic" where
  "obj_at obj k = (case map_of obj k of None \<Rightarrow> GNull | Some v \<Rightarrow> v)"

section \<open>Layering\<close>

text \<open>\<open>ce_contents\<close> gives the text of a file that exists. \<open>ce_validate\<close> checks it against the
  schema, \<open>ce_generic\<close> reads it as a generic value, both ignoring comments and trailing commas.\<close>

record config_env =
  ce_contents :: "string \<Rightarrow> string option"
  ce_validate :: "string \<Rightarrow> string option"
  ce_generic :: "string \<Rightarrow> string + generic"
  ce_object_error :: string
  ce_array_error :: string
  ce_defaults :: object
  ce_from_generic :: "object \<Rightarrow> string + config"
  ce_write :: "generic \<Rightarrow> string"
  ce_home :: "string option"
  ce_testing :: bool

fun merge_fields :: "string \<Rightarrow> object \<Rightarrow> object \<Rightarrow> object result" where
  "merge_fields err [] config = Inr config"
| "merge_fields err ((k, v) # members) config = (case to_array (obj_at config k) of
     Some arr \<Rightarrow> (case to_array v of
         None \<Rightarrow> Inl (RuntimeError err)
       | Some new \<Rightarrow> merge_fields err members (AList.update k (GArray (arr @ new)) config))
   | None \<Rightarrow> merge_fields err members (AList.update k v config))"

text \<open>The object a file contributes, with the error that keeps it from contributing any.\<close>

definition read_object :: "config_env \<Rightarrow> string \<Rightarrow> string + object option" where
  "read_object E confPath = (case ce_contents E confPath of
     None \<Rightarrow> Inr None
   | Some json \<Rightarrow> (case ce_validate E json of
       Some err \<Rightarrow> Inl (''Failed to read config from '' @ confPath @ '': '' @ err)
     | None \<Rightarrow> (case ce_generic E json of
         Inl err \<Rightarrow> Inl (''Failed to read generic config from '' @ confPath @ '': '' @ err)
       | Inr g \<Rightarrow> (case to_object g of
           None \<Rightarrow> Inl (''Failed to convert config from '' @ confPath @ '' to object: '' @ ce_object_error E)
         | Some obj \<Rightarrow> Inr (Some obj)))))"

text \<open>The state of the layering is the merged object and the read error, the latest one when
  several files cannot be read.\<close>

definition layerFile ::
  "config_env \<Rightarrow> string \<Rightarrow> object \<times> string option \<Rightarrow> (object option \<times> (object \<times> string option)) result" where
  "layerFile E confPath st = (case read_object E confPath of
     Inl err \<Rightarrow> Inr (None, (fst st, Some err))
   | Inr None \<Rightarrow> Inr (None, st)
   | Inr (Some obj) \<Rightarrow> (case merge_fields (ce_array_error E) obj (fst st) of
       Inl e \<Rightarrow> Inl e
     | Inr config \<Rightarrow> Inr (Some obj, (config, snd st))))"

definition layer_if ::
  "config_env \<Rightarrow> string option \<Rightarrow> object \<times> string option \<Rightarrow> (object option \<times> (object \<times> string option)) result" where
  "layer_if E conf st = (case conf of None \<Rightarrow> Inr (None, st) | Some p \<Rightarrow> layerFile E p st)"

definition hasField :: "object option \<Rightarrow> string \<Rightarrow> bool" where
  "hasField obj field = (case obj of None \<Rightarrow> False | Some fs \<Rightarrow> field \<in> fst ` set fs)"

definition extractFlags :: "object option \<Rightarrow> string" where
  "extractFlags obj = (case obj of None \<Rightarrow> []
   | Some fs \<Rightarrow> (case string_of_generic (obj_at fs ''flags'') of None \<Rightarrow> [] | Some s \<Rightarrow> s))"

definition file_flags :: "string option \<Rightarrow> string \<Rightarrow> flag_source list" where
  "file_flags conf flags = [\<lparr>fs_filePath = (case conf of None \<Rightarrow> [] | Some p \<Rightarrow> p), fs_flags = flags\<rparr>]"

definition flags_by_file ::
  "string option \<times> object option \<Rightarrow> string option \<times> object option \<Rightarrow> string option \<times> object option \<Rightarrow> flag_source list" where
  "flags_by_file w u l =
    (if extractFlags (snd w) \<noteq> [] then file_flags (fst w) (extractFlags (snd w))
     else if extractFlags (snd u) \<noteq> [] then file_flags (fst u) (extractFlags (snd u)) else [])
    @ (if extractFlags (snd l) \<noteq> [] then file_flags (fst l) (extractFlags (snd l)) else [])"

fun merge_flags :: "flag_source list \<Rightarrow> string \<Rightarrow> string" where
  "merge_flags [] merged = merged"
| "merge_flags (src # srcs) merged =
     merge_flags srcs ((if merged = [] then [] else merged @ '' '') @ fs_flags src)"

definition finish_config ::
  "string option \<times> object option \<Rightarrow> string option \<times> object option \<Rightarrow> string option \<times> object option \<Rightarrow> config \<Rightarrow> config" where
  "finish_config w u l raw =
    (let explicit = hasField (snd w) ''buildPattern'' \<or> hasField (snd u) ''buildPattern''
                    \<or> hasField (snd l) ''buildPattern'';
         c = (if \<not> explicit \<and> cf_builds raw = [] then raw\<lparr>cf_buildPattern := Some ''**/*.f''\<rparr> else raw);
         byFile = flags_by_file w u l
     in c\<lparr>cf_flagsByFile := byFile, cf_flags := merge_flags byFile []\<rparr>)"

definition fromFiles ::
  "config_env \<Rightarrow> string option \<Rightarrow> string option \<Rightarrow> string option \<Rightarrow> (string + config) result" where
  "fromFiles E workspaceConf userConf localConf =
    (case layer_if E workspaceConf (ce_defaults E, None) of
       Inl e \<Rightarrow> Inl e
     | Inr (workspaceObj, st1) \<Rightarrow> (case layer_if E userConf st1 of
         Inl e \<Rightarrow> Inl e
       | Inr (userObj, st2) \<Rightarrow> (case layer_if E localConf st2 of
           Inl e \<Rightarrow> Inl e
         | Inr (localObj, (config, Some err)) \<Rightarrow> Inr (Inl err)
         | Inr (localObj, (config, None)) \<Rightarrow> (case ce_from_generic E config of
             Inl err \<Rightarrow> Inr (Inl (''Failed to convert final config: '' @ err))
           | Inr raw \<Rightarrow> Inr (Inr (finish_config (workspaceConf, workspaceObj) (userConf, userObj)
               (localConf, localObj) raw))))))"

text \<open>The files a server with this workspace folder reads.\<close>

definition server_json :: "string \<Rightarrow> string" where
  "server_json dir = generic_string (append_path (append_path (path_of_string dir) [''.slang'']) [''server.json''])"

definition local_json :: "string \<Rightarrow> string" where
  "local_json dir = generic_string (append_path (append_path (append_path (path_of_string dir) [''.slang''])
     [''local'']) [''server.json''])"

definition read_config :: "config_env \<Rightarrow> string option \<Rightarrow> (string + config) result" where
  "read_config E workspace = fromFiles E (map_option server_json workspace)
     (if ce_testing E then None else map_option server_json (ce_home E)) (map_option local_json workspace)"

section \<open>Adding a define\<close>

text \<open>The object the define is added to: that of the local file when it can be read, else an empty one.\<close>

definition existing_object :: "config_env \<Rightarrow> string \<Rightarrow> object" where
  "existing_object E path = (case ce_contents E path of
     None \<Rightarrow> []
   | Some json \<Rightarrow> (case ce_generic E json of
       Inl _ \<Rightarrow> []
     | Inr g \<Rightarrow> (case to_object g of None \<Rightarrow> [] | Some obj \<Rightarrow> obj)))"

definition with_define :: "string \<Rightarrow> object \<Rightarrow> object" where
  "with_define macroName obj =
    (let existing = (case string_of_generic (obj_at obj ''flags'') of None \<Rightarrow> [] | Some s \<Rightarrow> s);
         flags = (if existing = [] then [] else existing @ '' '') @ ''-D'' @ macroName
     in AList.update ''flags'' (GString flags) obj)"

definition write_define :: "string \<Rightarrow> string \<Rightarrow> config_env \<Rightarrow> config_env" where
  "write_define path macroName E = E\<lparr>ce_contents := (ce_contents E)(path \<mapsto>
     ce_write E (GObject (with_define macroName (existing_object E path))))\<rparr>"

end
