(* ===== verification/ServerState.thy ===== *)
theory ServerState
  imports DocSync IndexTables Config
begin

text \<open>
  The server above its parts, from src/SlangServer.cpp, src/ServerDriver.cpp and
  src/lsp/FileWatchers.cpp: making a driver for a configuration (\<open>parseAndLoadSources\<close>,
  \<open>createForExplore\<close>, \<open>createFromFileLists\<close>, \<open>createFromTop\<close>), switching between exploring, a build
  file and a top level (\<open>setExplore\<close>, \<open>setTopLevel\<close>, \<open>setBuildFile\<close>), loading and reloading the
  configuration, the file watchers and their dispatch, and the notices of internal errors.

  A step happens in a \<open>world\<close>: the config files, what slang's command line driver answers, the
  documents it parses, the file system and the clock at that moment. An operation returns the
  exception that leaves it, if one does, and the state it leaves behind either way; the errors shown
  before an exception are left out of that state. Published diagnostics are those of theory
  Diagnostics and are left out here, and so are log lines and the number of indexing threads.
\<close>

section \<open>Configurations and drivers\<close>

datatype compilation = BuildCompilation | TopCompilation string

record 's server_driver =
  dr_config :: config
  dr_builds :: "string list"
  dr_comp :: "compilation option"
  dr_docs :: "'s driver"
  dr_command_files :: "path list"

text \<open>\<open>world_tops\<close> gives the top module names of a text, the one module of the file or the tops of
  its compilation, \<open>world_dependents\<close> the documents of the trees it depends on.\<close>

record 's world =
  world_env :: config_env
  world_fs :: filesystem
  world_workspace_ok :: bool
  world_flags_ok :: "string \<Rightarrow> bool"
  world_options_ok :: bool
  world_command_file_ok :: "string \<Rightarrow> bool"
  world_incdir_error :: "path \<Rightarrow> string option"
  world_sources_ok :: bool
  world_fresh :: "config \<Rightarrow> string list \<Rightarrow> 's driver"
  world_command_files :: "config \<Rightarrow> string list \<Rightarrow> path list"
  world_tops :: "string \<Rightarrow> string list"
  world_dependents :: "string \<Rightarrow> 's driver \<Rightarrow> (uri \<times> sync_doc) list"
  world_now :: int

datatype client_message =
    ShowError string
  | InternalError string string
  | SetConfig config

section \<open>Making a driver\<close>

definition incdir_path :: "string option \<Rightarrow> string \<Rightarrow> path" where
  "incdir_path workspace directory = (let p = path_of_string directory in
     case workspace of
       Some w \<Rightarrow> if \<not> is_absolute p \<and> w \<noteq> [] then append_path (path_of_string w) p else p
     | None \<Rightarrow> p)"

text \<open>The result of \<open>parseAndLoadSources\<close> and the errors it shows.\<close>

definition parseAndLoadSources ::
  "'s world \<Rightarrow> config \<Rightarrow> string option \<Rightarrow> string list \<Rightarrow> bool \<Rightarrow> bool \<times> client_message list" where
  "parseAndLoadSources W c workspace builds requireValid =
    (let flags = list_all (world_flags_ok W) (map fs_flags (cf_flagsByFile c)) \<and> world_options_ok W;
         files = list_all (world_command_file_ok W) builds;
         dir_error = (\<lambda>d. world_incdir_error W (incdir_path workspace d));
         dirs = list_all (\<lambda>d. dir_error d = None) (cf_incdirs c);
         shown = (if requireValid then [] else
           (if flags then [] else [ShowError ''Failed to parse config flags''])
           @ map (\<lambda>b. ShowError (''Failed to process build file: '' @ b))
               (filter (\<lambda>b. \<not> world_command_file_ok W b) builds)
           @ map (\<lambda>d. ShowError (''Cannot use include directory '' @
                 generic_string (incdir_path workspace d) @ '': '' @ the (dir_error d)))
               (filter (\<lambda>d. dir_error d \<noteq> None) (cf_incdirs c)))
     in if \<not> (flags \<and> files \<and> dirs) \<and> requireValid then (False, shown)
        else (flags \<and> files \<and> dirs \<and> world_sources_ok W, shown))"

text \<open>The constructor changes to the workspace directory, which throws when it is gone.\<close>

definition new_driver ::
  "'s world \<Rightarrow> config \<Rightarrow> string option \<Rightarrow> string list \<Rightarrow> bool
    \<Rightarrow> ('s server_driver \<times> bool \<times> client_message list) result" where
  "new_driver W c workspace builds requireValid =
    (if workspace \<noteq> None \<and> \<not> world_workspace_ok W then Inl (RuntimeError ''filesystem error'')
     else (case parseAndLoadSources W c workspace builds requireValid of
       (ok, shown) \<Rightarrow> Inr (\<lparr>dr_config = c, dr_builds = builds, dr_comp = None,
         dr_docs = world_fresh W c builds, dr_command_files = world_command_files W c builds\<rparr>, ok, shown)))"

definition copyOpenDocumentsFrom ::
  "'s store_lib \<Rightarrow> 's server_driver option \<Rightarrow> 's server_driver \<Rightarrow> 's server_driver result" where
  "copyOpenDocumentsFrom S old d = (case old of
     None \<Rightarrow> Inr d
   | Some o' \<Rightarrow> map_sum id (\<lambda>D. d\<lparr>dr_docs := D\<rparr>)
       (copyOpenDocuments S (dr_docs o') (drv_open (dr_docs o')) (dr_docs d)))"

text \<open>A result without a driver is the null pointer of a driver that is not valid.\<close>

definition createForExplore ::
  "'s store_lib \<Rightarrow> 's world \<Rightarrow> config \<Rightarrow> string option \<Rightarrow> 's server_driver option \<Rightarrow> bool
    \<Rightarrow> ('s server_driver option \<times> client_message list) result" where
  "createForExplore S W c workspace old requireValid =
    (case new_driver W c workspace [] requireValid of
       Inl e \<Rightarrow> Inl e
     | Inr (d, ok, shown) \<Rightarrow> if requireValid \<and> \<not> ok then Inr (None, shown)
         else map_sum id (\<lambda>d. (Some d, shown)) (copyOpenDocumentsFrom S old d))"

definition createFromFileLists ::
  "'s store_lib \<Rightarrow> 's world \<Rightarrow> config \<Rightarrow> string list \<Rightarrow> string option \<Rightarrow> 's server_driver option \<Rightarrow> bool
    \<Rightarrow> ('s server_driver option \<times> client_message list) result" where
  "createFromFileLists S W c builds workspace old requireValid =
    (case new_driver W c workspace builds requireValid of
       Inl e \<Rightarrow> Inl e
     | Inr (d, ok, shown) \<Rightarrow> if requireValid \<and> \<not> ok then Inr (None, shown)
         else map_sum id (\<lambda>d. (Some d, shown)) (copyOpenDocumentsFrom S old
           (if drv_docs (dr_docs d) = [] then d else d\<lparr>dr_comp := Some BuildCompilation\<rparr>)))"

definition with_documents :: "(uri \<times> sync_doc) list \<Rightarrow> 's driver \<Rightarrow> 's driver" where
  "with_documents ds D = fold (\<lambda>(u, doc). put_doc u doc) ds D"

definition createFromTop ::
  "'s store_lib \<Rightarrow> 's world \<Rightarrow> config \<Rightarrow> uri \<Rightarrow> string option \<Rightarrow> 's server_driver option
    \<Rightarrow> ('s server_driver \<times> client_message list) result" where
  "createFromTop S W c topUri workspace old =
    (case createForExplore S W c workspace old False of
       Inl e \<Rightarrow> Inl e
     | Inr (None, shown) \<Rightarrow> Inl Undefined
     | Inr (Some d, shown) \<Rightarrow> (case getDocument S topUri (dr_docs d) of
         Inl e \<Rightarrow> Inl e
       | Inr (doc, D) \<Rightarrow> (let text = getText S D doc in case world_tops W text of
           [] \<Rightarrow> Inr (d\<lparr>dr_docs := D\<rparr>,
             shown @ [ShowError (''No top modules found in: '' @ fst (uri_getPath topUri))])
         | t # _ \<Rightarrow> Inr (d\<lparr>dr_docs := with_documents ((sd_uri doc, doc) # world_dependents W text D) D,
                           dr_comp := Some (TopCompilation t)\<rparr>, shown))))"

section \<open>The server\<close>

datatype index_request =
    IndexGlobs "string list" "string list"
  | IndexDirs "(string list \<times> string list option) list" "string option"

record 's slang_server =
  sv_workspace :: "string option"
  sv_config :: config
  sv_driver :: "'s server_driver option"
  sv_buildfile :: "string option"
  sv_topFile :: "string option"
  sv_reloadPending :: bool
  sv_lastNotice :: int
  sv_index :: indexer
  sv_indexing :: "index_request list"
  sv_sent :: "client_message list"

definition initial_server :: "string option \<Rightarrow> 's slang_server" where
  "initial_server workspace = \<lparr>sv_workspace = workspace, sv_config = default_config, sv_driver = None,
     sv_buildfile = None, sv_topFile = None, sv_reloadPending = False, sv_lastNotice = 0,
     sv_index = empty_indexer, sv_indexing = [], sv_sent = []\<rparr>"

definition tell :: "client_message list \<Rightarrow> 's slang_server \<Rightarrow> 's slang_server" where
  "tell ms st = st\<lparr>sv_sent := sv_sent st @ ms\<rparr>"

definition setExplore :: "'s store_lib \<Rightarrow> 's world \<Rightarrow> 's slang_server \<Rightarrow> exn option \<times> 's slang_server" where
  "setExplore S W st0 = (let st = st0\<lparr>sv_buildfile := None, sv_topFile := None\<rparr> in
     case createForExplore S W (sv_config st) (sv_workspace st) (sv_driver st) False of
       Inl e \<Rightarrow> (Some e, st)
     | Inr (d, shown) \<Rightarrow> (None, (tell shown st)\<lparr>sv_driver := d\<rparr>))"

definition setTopLevel :: "'s store_lib \<Rightarrow> 's world \<Rightarrow> string \<Rightarrow> 's slang_server \<Rightarrow> exn option \<times> 's slang_server" where
  "setTopLevel S W path st = (if path = [] then setExplore S W st else
     let go = (\<lambda>topPath.
       let st1 = st\<lparr>sv_buildfile := None, sv_topFile := Some topPath\<rparr> in
       case createFromTop S W (sv_config st) (uri_fromFile topPath) (sv_workspace st) (sv_driver st) of
         Inl e \<Rightarrow> (Some e, st1)
       | Inr (d, shown) \<Rightarrow> (None, (tell shown st1)\<lparr>sv_driver := Some d\<rparr>))
     in if is_absolute (path_of_string path) then go path
        else (case sv_workspace st of
          None \<Rightarrow> (None, tell [ShowError (''Cannot set top level to relative path '' @ path @
            '': no workspace folder to resolve it against. Use an absolute path.'')] st)
        | Some w \<Rightarrow> go (generic_string (lexically_normal (append_path (path_of_string w) (path_of_string path))))))"

definition setBuildFile :: "'s store_lib \<Rightarrow> 's world \<Rightarrow> string \<Rightarrow> 's slang_server \<Rightarrow> exn option \<times> 's slang_server" where
  "setBuildFile S W path st0 = (if path = [] then setExplore S W st0 else
     let st = st0\<lparr>sv_topFile := None, sv_buildfile := Some path\<rparr> in
     case createFromFileLists S W (sv_config st) [path] (sv_workspace st) (sv_driver st) False of
       Inl e \<Rightarrow> (Some e, st)
     | Inr (d, shown) \<Rightarrow> (None, (tell shown st)\<lparr>sv_driver := d\<rparr>))"

section \<open>Loading the configuration\<close>

text \<open>The indexing a new configuration asks for.\<close>

definition index_requests :: "config \<Rightarrow> config \<Rightarrow> string option \<Rightarrow> bool \<Rightarrow> index_request list" where
  "index_requests old c workspace force =
    (if cf_indexGlobs c \<noteq> [] \<or> cf_excludeDirs c \<noteq> [] then
       (if force \<or> getIndexGlobs old \<noteq> getIndexGlobs c \<or> cf_excludeDirs old \<noteq> cf_excludeDirs c
        then [IndexGlobs (if workspace = None then filter (\<lambda>g. is_absolute (path_of_string g)) (getIndexGlobs c)
                          else getIndexGlobs c) (cf_excludeDirs c)]
        else [])
     else if force then [IndexDirs (cf_index c) workspace] else [])"

definition load_config ::
  "'s store_lib \<Rightarrow> 's world \<Rightarrow> config \<Rightarrow> bool \<Rightarrow> bool \<Rightarrow> 's slang_server \<Rightarrow> (exn + bool) \<times> 's slang_server" where
  "load_config S W c force requireValid st =
    (let buildfile = (if requireValid \<and> sv_buildfile st \<noteq> None then sv_buildfile st else cf_build c);
         created = (case buildfile of
            Some b \<Rightarrow> createFromFileLists S W c [b] (sv_workspace st) (sv_driver st) requireValid
          | None \<Rightarrow> createForExplore S W c (sv_workspace st) (sv_driver st) requireValid)
     in case created of
          Inl e \<Rightarrow> (Inl e, st)
        | Inr (None, shown) \<Rightarrow> (Inr False, tell shown st)
        | Inr (Some d, shown) \<Rightarrow> (Inr True, (tell (shown @ [SetConfig c]) st)\<lparr>sv_config := c,
            sv_driver := Some d, sv_buildfile := buildfile, sv_topFile := None, sv_reloadPending := False,
            sv_indexing := sv_indexing st @ index_requests (sv_config st) c (sv_workspace st) force\<rparr>))"

definition loadConfig :: "'s store_lib \<Rightarrow> 's world \<Rightarrow> bool \<Rightarrow> 's slang_server \<Rightarrow> (exn + bool) \<times> 's slang_server" where
  "loadConfig S W requireValid st = (case read_config (world_env W) (sv_workspace st) of
     Inl e \<Rightarrow> (Inl e, st)
   | Inr (Inl err) \<Rightarrow> if requireValid then (Inr False, st)
       else (let st1 = tell [ShowError err] st in
         if sv_driver st \<noteq> None then (Inr False, st1) else load_config S W default_config True False st1)
   | Inr (Inr c) \<Rightarrow> load_config S W c True requireValid st)"

definition reloadWatchedConfig :: "'s store_lib \<Rightarrow> 's world \<Rightarrow> 's slang_server \<Rightarrow> exn option \<times> 's slang_server" where
  "reloadWatchedConfig S W st = (let savedTop = sv_topFile st in
     case loadConfig S W True st of
       (Inl e, st1) \<Rightarrow> (Some e, st1)
     | (Inr True, st1) \<Rightarrow> (case savedTop of None \<Rightarrow> (None, st1) | Some t \<Rightarrow> setTopLevel S W t st1)
     | (Inr False, st1) \<Rightarrow> (None, st1\<lparr>sv_reloadPending := True\<rparr>))"

definition addDefine ::
  "'s store_lib \<Rightarrow> 's world \<Rightarrow> string \<Rightarrow> 's slang_server \<Rightarrow> exn option \<times> 's slang_server" where
  "addDefine S W macroName st = (case sv_workspace st of
     None \<Rightarrow> (None, tell [ShowError ''Cannot add define: no workspace folder''] st)
   | Some w \<Rightarrow> (let W' = W\<lparr>world_env := write_define (local_json w) macroName (world_env W)\<rparr> in
       case loadConfig S W' False st of
         (Inl e, st1) \<Rightarrow> (Some e, st1)
       | (Inr _, st1) \<Rightarrow> (case sv_buildfile st of None \<Rightarrow> (None, st1) | Some b \<Rightarrow> setBuildFile S W' b st1)))"

section \<open>Watched files\<close>

type_synonym changes = "(uri \<times> change_type) list"

text \<open>A handler returns whether the dispatch stops.\<close>

type_synonym 'st handler = "changes \<Rightarrow> 'st \<Rightarrow> (exn + bool) \<times> 'st"

record 'st watcher =
  wt_patterns :: "string list"
  wt_extensions :: "string list"
  wt_handler :: "'st handler"

definition addExtensions :: "string list \<Rightarrow> 'st handler \<Rightarrow> string list \<Rightarrow> 'st watcher list \<Rightarrow> 'st watcher list" where
  "addExtensions extensions h patterns ws = ws @ [\<lparr>
     wt_patterns = (if patterns = [] then map (\<lambda>e. ''**/*'' @ e) extensions else patterns),
     wt_extensions = extensions, wt_handler = h\<rparr>]"

definition registrationOptions :: "uri \<Rightarrow> 'st watcher list \<Rightarrow> (uri \<times> string) list" where
  "registrationOptions workspace ws = concat (map (\<lambda>w. map (Pair workspace) (wt_patterns w)) ws)"

definition change_extension :: "uri \<times> change_type \<Rightarrow> string" where
  "change_extension change = extension (path_of_string (fst (uri_getPath (fst change))))"

fun dispatch :: "'st watcher list \<Rightarrow> changes \<Rightarrow> 'st \<Rightarrow> exn option \<times> 'st" where
  "dispatch [] changes st = (None, st)"
| "dispatch (w # ws) changes st =
    (let matching = filter (\<lambda>c. change_extension c \<in> set (wt_extensions w)) changes in
     if matching = [] then dispatch ws changes st
     else (case wt_handler w matching st of
        (Inl e, st1) \<Rightarrow> (Some e, st1)
      | (Inr True, st1) \<Rightarrow> (None, st1)
      | (Inr False, st1) \<Rightarrow> dispatch ws changes st1))"

text \<open>Turns a handler without a result into one that stops the dispatch or not.\<close>

definition returning :: "bool \<Rightarrow> exn option \<times> 'st \<Rightarrow> (exn + bool) \<times> 'st" where
  "returning stop r = (case r of (Some e, st) \<Rightarrow> (Inl e, st) | (None, st) \<Rightarrow> (Inr stop, st))"

definition is_command_file :: "'s world \<Rightarrow> 's slang_server \<Rightarrow> uri \<Rightarrow> bool" where
  "is_command_file W st u = (let p = path_of_string (fst (uri_getPath u));
       commandFile = (case weakly_canonical (world_fs W) p of Some c \<Rightarrow> c | None \<Rightarrow> p)
     in case sv_driver st of None \<Rightarrow> False | Some d \<Rightarrow> commandFile \<in> set (dr_command_files d))"

definition sources_changed ::
  "'s store_lib \<Rightarrow> 's world \<Rightarrow> (path \<Rightarrow> indexed) \<Rightarrow> changes \<Rightarrow> 's slang_server \<Rightarrow> 's slang_server" where
  "sources_changed S W parse changes st =
     st\<lparr>sv_index := onWorkspaceDidChangeWatchedFiles (world_fs W) parse
          (map (\<lambda>(u, t). (path_of_string (fst (uri_getPath u)), t)) changes) (sv_index st),
        sv_driver := map_option (\<lambda>d. d\<lparr>dr_docs := watched_files S changes (dr_docs d)\<rparr>) (sv_driver st)\<rparr>"

definition registerFileWatchers ::
  "'s store_lib \<Rightarrow> 's world \<Rightarrow> (path \<Rightarrow> indexed) \<Rightarrow> 's slang_server watcher list" where
  "registerFileWatchers S W parse =
     addExtensions [''.sv'', ''.svh'', ''.v'', ''.vh'']
       (\<lambda>changes st. (Inr False, sources_changed S W parse changes st)) []
    (addExtensions [''.f''] (\<lambda>changes st.
        if list_ex (is_command_file W st) (map fst changes) then returning True (reloadWatchedConfig S W st)
        else (Inr False, st)) []
    (addExtensions [''.json''] (\<lambda>changes st. returning True (reloadWatchedConfig S W st))
       [''.slang/server.json'', ''.slang/local/server.json''] []))"

definition onDidChangeWatchedFiles ::
  "'s store_lib \<Rightarrow> 's world \<Rightarrow> (path \<Rightarrow> indexed) \<Rightarrow> changes \<Rightarrow> 's slang_server \<Rightarrow> exn option \<times> 's slang_server" where
  "onDidChangeWatchedFiles S W parse changes st =
    (if sv_reloadPending st then reloadWatchedConfig S W st
     else dispatch (registerFileWatchers S W parse) changes st)"

section \<open>Notices of internal errors\<close>

definition notice_gap :: int where
  "notice_gap = 5 * 60 * 10 ^ 9"

definition onInternalError :: "'s world \<Rightarrow> string \<Rightarrow> string \<Rightarrow> 's slang_server \<Rightarrow> 's slang_server" where
  "onInternalError W m msg st = (if world_now W - sv_lastNotice st < notice_gap then st
     else (tell [InternalError m msg] st)\<lparr>sv_lastNotice := world_now W\<rparr>)"

section \<open>Runs\<close>

datatype server_op =
    OpInitialize
  | OpSetTop string
  | OpSetBuild string
  | OpAddDefine string
  | OpChanges changes
  | OpInternalError string string

fun run_op ::
  "'s store_lib \<Rightarrow> (path \<Rightarrow> indexed) \<Rightarrow> 's world \<Rightarrow> server_op \<Rightarrow> 's slang_server \<Rightarrow> exn option \<times> 's slang_server" where
  "run_op S parse W OpInitialize st = (case loadConfig S W False st of
     (Inl e, st1) \<Rightarrow> (Some e, st1) | (Inr _, st1) \<Rightarrow> (None, st1))"
| "run_op S parse W (OpSetTop p) st = setTopLevel S W p st"
| "run_op S parse W (OpSetBuild p) st = setBuildFile S W p st"
| "run_op S parse W (OpAddDefine m) st = addDefine S W m st"
| "run_op S parse W (OpChanges cs) st = onDidChangeWatchedFiles S W parse cs st"
| "run_op S parse W (OpInternalError m msg) st = (None, onInternalError W m msg st)"

text \<open>A run of operations none of which throws.\<close>

fun server_run ::
  "'s store_lib \<Rightarrow> (path \<Rightarrow> indexed) \<Rightarrow> ('s world \<times> server_op) list \<Rightarrow> 's slang_server \<Rightarrow> 's slang_server result" where
  "server_run S parse [] st = Inr st"
| "server_run S parse ((W, opn) # ops) st = (case run_op S parse W opn st of
     (Some e, st1) \<Rightarrow> Inl e | (None, st1) \<Rightarrow> server_run S parse ops st1)"

end
