(* ===== verification/ConfigLayers.thy ===== *)
theory ConfigLayers
  imports Config
begin

text \<open>
  What the layering of configuration files amounts to: lists are appended over all files, other
  fields are those of the last file that has them, the flags are those of the workspace, or else of
  the user, followed by the local ones, and an added define comes last.
\<close>

section \<open>Merging, one field at a time\<close>

definition values_of :: "string \<Rightarrow> object \<Rightarrow> generic list" where
  "values_of k obj = map snd (filter (\<lambda>m. fst m = k) obj)"

definition merge_value :: "generic \<Rightarrow> generic \<Rightarrow> generic" where
  "merge_value v old = (case to_array old of Some arr \<Rightarrow> GArray (arr @ the (to_array v)) | None \<Rightarrow> v)"

lemma values_of_simps [simp]:
  "values_of k [] = []" "values_of k ((k', v) # ms) = (if k' = k then [v] else []) @ values_of k ms"
  "values_of k (xs @ ys) = values_of k xs @ values_of k ys"
  by (simp_all add: values_of_def)

lemma values_of_update [simp]: "k \<noteq> k' \<Longrightarrow> values_of k (AList.update k' v obj) = values_of k obj"
  by (induction obj) auto

lemma obj_at_update [simp]: "obj_at (AList.update k v obj) k' = (if k' = k then v else obj_at obj k')"
  by (simp add: obj_at_def update_conv)

lemma merge_field_value:
  "merge_fields err ms c = Inr c' \<Longrightarrow> obj_at c' k = fold merge_value (values_of k ms) (obj_at c k)"
  by (induction err ms c rule: merge_fields.induct) (auto simp: merge_value_def split: option.splits)

lemma merge_append:
  "merge_fields err (xs @ ys) c = (case merge_fields err xs c of Inl e \<Rightarrow> Inl e | Inr c' \<Rightarrow> merge_fields err ys c')"
  by (induction err xs c rule: merge_fields.induct) (auto split: option.split)

lemma fold_merge_array:
  "fold merge_value vs (GArray a) = GArray (a @ concat (map (\<lambda>v. the (to_array v)) vs))"
  by (induction vs arbitrary: a) (auto simp: merge_value_def)

lemma fold_merge_scalar:
  "to_array old = None \<Longrightarrow> \<forall>v \<in> set vs. to_array v = None \<Longrightarrow> fold merge_value vs old = last (old # vs)"
  by (induction vs arbitrary: old) (auto simp: merge_value_def)

lemma to_array_Some: "to_array g = Some a \<longleftrightarrow> g = GArray a"
  by (cases g) auto

lemma merge_arrays_only:
  assumes "merge_fields err ms c = Inr c'" and "to_array (obj_at c k) \<noteq> None"
  shows "\<forall>v \<in> set (values_of k ms). to_array v \<noteq> None"
  using assms
proof (induction err ms c rule: merge_fields.induct)
  case (2 err k' v ms c)
  show ?case
  proof (cases "to_array (obj_at c k')")
    case None
    then have "k' \<noteq> k" using "2.prems"(2) by auto
    then show ?thesis using None 2 by simp
  next
    case (Some arr)
    then obtain new where "to_array v = Some new" using "2.prems"(1) by (auto split: option.splits)
    then show ?thesis using Some 2 by (cases "k' = k") auto
  qed
qed simp

section \<open>All three files\<close>

definition file_object :: "config_env \<Rightarrow> string option \<Rightarrow> object option" where
  "file_object E conf = (case conf of None \<Rightarrow> None
   | Some p \<Rightarrow> (case read_object E p of Inl _ \<Rightarrow> None | Inr obj \<Rightarrow> obj))"

definition readable :: "config_env \<Rightarrow> string option \<Rightarrow> bool" where
  "readable E conf = (case conf of None \<Rightarrow> True | Some p \<Rightarrow> (case read_object E p of Inl _ \<Rightarrow> False | Inr _ \<Rightarrow> True))"

definition members_of :: "config_env \<Rightarrow> string option \<Rightarrow> object" where
  "members_of E conf = (case file_object E conf of None \<Rightarrow> [] | Some obj \<Rightarrow> obj)"

definition all_members :: "config_env \<Rightarrow> string option \<Rightarrow> string option \<Rightarrow> string option \<Rightarrow> object" where
  "all_members E w u l = members_of E w @ members_of E u @ members_of E l"

definition merged_object :: "config_env \<Rightarrow> string option \<Rightarrow> string option \<Rightarrow> string option \<Rightarrow> object result" where
  "merged_object E w u l = merge_fields (ce_array_error E) (all_members E w u l) (ce_defaults E)"

lemma layer_readable:
  "readable E p \<Longrightarrow> layer_if E p st = (case merge_fields (ce_array_error E) (members_of E p) (fst st) of
      Inl e \<Rightarrow> Inl e | Inr c \<Rightarrow> Inr (file_object E p, (c, snd st)))"
  by (cases st) (auto simp: layer_if_def layerFile_def readable_def members_of_def file_object_def
      split: option.splits sum.splits)

lemma layer_error:
  assumes "layer_if E p st = Inr (obj, st')"
  shows "snd st \<noteq> None \<Longrightarrow> snd st' \<noteq> None" and "\<not> readable E p \<Longrightarrow> snd st' \<noteq> None"
  using assms by (auto simp: layer_if_def layerFile_def readable_def split: option.splits sum.splits)

lemma fromFiles_readable:
  assumes "fromFiles E w u l = Inr (Inr c)"
  shows "readable E w \<and> readable E u \<and> readable E l"
proof -
  obtain wo s1 uo s2 lo g where
    layers: "layer_if E w (ce_defaults E, None) = Inr (wo, s1)" "layer_if E u s1 = Inr (uo, s2)"
      "layer_if E l s2 = Inr (lo, (g, None))"
    using assms by (auto simp: fromFiles_def split: sum.splits prod.splits option.splits)
  show ?thesis using layer_error [OF layers(1)] layer_error [OF layers(2)] layer_error [OF layers(3)] by auto
qed

lemma fromFiles_merged:
  assumes "fromFiles E w u l = Inr (Inr c)"
  shows "\<exists>obj raw. merged_object E w u l = Inr obj \<and> ce_from_generic E obj = Inr raw
    \<and> c = finish_config (w, file_object E w) (u, file_object E u) (l, file_object E l) raw"
  using fromFiles_readable [OF assms] assms
  by (auto simp: fromFiles_def layer_readable merged_object_def all_members_def merge_append split: sum.splits)

section \<open>Flags\<close>

definition flags_in :: "config_env \<Rightarrow> string option \<Rightarrow> string" where
  "flags_in E conf = extractFlags (file_object E conf)"

text \<open>Two lists of flags as one.\<close>

definition join_flags :: "string \<Rightarrow> string \<Rightarrow> string" where
  "join_flags a b = (if a = [] then b else if b = [] then a else a @ '' '' @ b)"

lemma finish_flags:
  "cf_flags (finish_config (w, file_object E w) (u, file_object E u) (l, file_object E l) raw)
    = join_flags (if flags_in E w \<noteq> [] then flags_in E w else flags_in E u) (flags_in E l)"
  by (simp add: finish_config_def flags_by_file_def file_flags_def flags_in_def join_flags_def Let_def)

lemma flags_in_path: "flags_in E conf \<noteq> [] \<Longrightarrow> \<exists>p. conf = Some p"
  by (cases conf) (auto simp: flags_in_def file_object_def extractFlags_def)

lemma finish_sources:
  assumes "s \<in> set (cf_flagsByFile (finish_config (w, file_object E w) (u, file_object E u) (l, file_object E l) raw))"
  shows "Some (fs_filePath s) \<in> {w, u, l} \<and> fs_flags s = flags_in E (Some (fs_filePath s)) \<and> fs_flags s \<noteq> []"
  using assms flags_in_path [of E w] flags_in_path [of E u] flags_in_path [of E l]
  by (auto simp: finish_config_def flags_by_file_def file_flags_def flags_in_def Let_def split: if_splits)

text \<open>What a field must be after layering, from its default and the values the files give it.\<close>

definition layered :: "generic \<Rightarrow> generic list \<Rightarrow> generic \<Rightarrow> bool" where
  "layered old vs new \<longleftrightarrow> (case to_array old of
     Some a \<Rightarrow> (\<forall>v \<in> set vs. to_array v \<noteq> None) \<and> new = GArray (a @ concat (map (\<lambda>v. the (to_array v)) vs))
   | None \<Rightarrow> (\<forall>v \<in> set vs. to_array v = None) \<longrightarrow> new = last (old # vs))"

lemma merged_layered:
  assumes "merged_object E w u l = Inr obj"
  shows "layered (obj_at (ce_defaults E) k) (values_of k (all_members E w u l)) (obj_at obj k)"
  using merge_arrays_only [OF assms [unfolded merged_object_def], of k]
    merge_field_value [OF assms [unfolded merged_object_def], of k]
  by (auto simp: layered_def fold_merge_array fold_merge_scalar to_array_Some split: option.split)

text \<open>C31. A configuration that is read is the conversion of one object, and this object has at a list
  field of the defaults the default followed by the lists of the workspace, the user and the local
  file in this order, each of which is a list, and at any other field, when no file has a list there,
  the value of the last file that has the field. The flags are those of the workspace, or those of the
  user when it has none, followed by the local ones, and each list of flags is attributed to the file
  it stands in.\<close>

theorem config_layering:
  assumes "fromFiles E w u l = Inr (Inr c)"
  shows "(\<exists>obj raw. ce_from_generic E obj = Inr raw
       \<and> c = raw\<lparr>cf_buildPattern := cf_buildPattern c, cf_flagsByFile := cf_flagsByFile c, cf_flags := cf_flags c\<rparr>
       \<and> (\<forall>k. layered (obj_at (ce_defaults E) k) (values_of k (all_members E w u l)) (obj_at obj k)))
    \<and> cf_flags c = join_flags (if flags_in E w \<noteq> [] then flags_in E w else flags_in E u) (flags_in E l)
    \<and> (\<forall>s \<in> set (cf_flagsByFile c). Some (fs_filePath s) \<in> {w, u, l}
          \<and> fs_flags s = flags_in E (Some (fs_filePath s)))"
proof -
  obtain obj raw where m: "merged_object E w u l = Inr obj" and raw: "ce_from_generic E obj = Inr raw"
    and c: "c = finish_config (w, file_object E w) (u, file_object E u) (l, file_object E l) raw"
    using fromFiles_merged [OF assms] by blast
  have "c = raw\<lparr>cf_buildPattern := cf_buildPattern c, cf_flagsByFile := cf_flagsByFile c, cf_flags := cf_flags c\<rparr>"
    by (simp add: c finish_config_def Let_def)
  then show ?thesis using raw merged_layered [OF m] finish_sources finish_flags unfolding c by blast
qed

section \<open>Adding a define\<close>

text \<open>The library reads back an object it has written.\<close>

definition reads_back :: "config_env \<Rightarrow> object \<Rightarrow> bool" where
  "reads_back E obj \<longleftrightarrow> ce_generic E (ce_write E (GObject obj)) = Inr (GObject obj)"

lemma write_define_other [simp]: "p \<noteq> l \<Longrightarrow> read_object (write_define l m E) p = read_object E p"
  by (simp add: read_object_def write_define_def split: option.split sum.split)

lemma write_define_defaults [simp]:
  "ce_defaults (write_define l m E) = ce_defaults E" "ce_from_generic (write_define l m E) = ce_from_generic E"
  by (simp_all add: write_define_def)

lemma file_object_other [simp]: "conf \<noteq> Some l \<Longrightarrow> file_object (write_define l m E) conf = file_object E conf"
  by (cases conf) (simp_all add: file_object_def)

text \<open>The object of a local file that can be read is the one the define is added to.\<close>

lemma existing_readable: "readable E (Some l) \<Longrightarrow> existing_object E l = members_of E (Some l)"
  by (auto simp: readable_def existing_object_def members_of_def file_object_def read_object_def
      split: option.splits sum.splits)

lemma write_define_object:
  assumes "reads_back E (with_define m (existing_object E l))" and "readable (write_define l m E) (Some l)"
  shows "file_object (write_define l m E) (Some l) = Some (with_define m (existing_object E l))"
  using assms by (auto simp: reads_back_def readable_def file_object_def read_object_def write_define_def split: option.splits)

lemma extract_with_define:
  "extractFlags (Some (with_define m obj)) = join_flags (extractFlags (Some obj)) (''-D'' @ m)"
  by (auto simp: extractFlags_def with_define_def join_flags_def Let_def)

lemma join_flags_assoc: "join_flags (join_flags a b) c = join_flags a (join_flags b c)"
  by (simp add: join_flags_def)

lemma flags_of_members: "flags_in E conf = extractFlags (Some (members_of E conf))"
  by (auto simp: flags_in_def members_of_def extractFlags_def obj_at_def split: option.split)

lemma with_define_values [simp]: "k \<noteq> ''flags'' \<Longrightarrow> values_of k (with_define m obj) = values_of k obj"
  by (simp add: with_define_def Let_def)

text \<open>When a define is added and the configuration is read again, its flags are those it had
  before followed by the define, the define is in the flags attributed to the local file, and no
  other field of the layered object changes, for a library that reads back what it writes and a local
  file that is not also the workspace or the user file.\<close>

theorem define_added:
  assumes "reads_back E (with_define m (existing_object E l))" and "w \<noteq> Some l" and "u \<noteq> Some l"
    and "fromFiles E w u (Some l) = Inr (Inr c)"
    and "fromFiles (write_define l m E) w u (Some l) = Inr (Inr c')"
  shows "cf_flags c' = join_flags (cf_flags c) (''-D'' @ m)
    \<and> fs_filePath (last (cf_flagsByFile c')) = l
    \<and> fs_flags (last (cf_flagsByFile c')) = join_flags (flags_in E (Some l)) (''-D'' @ m)
    \<and> (\<exists>obj obj'. merged_object E w u (Some l) = Inr obj
          \<and> merged_object (write_define l m E) w u (Some l) = Inr obj'
          \<and> (\<forall>k. k \<noteq> ''flags'' \<longrightarrow> obj_at obj' k = obj_at obj k))"
proof -
  let ?E = "write_define l m E"
  obtain obj raw where obj: "merged_object E w u (Some l) = Inr obj"
    and c: "c = finish_config (w, file_object E w) (u, file_object E u) (Some l, file_object E (Some l)) raw"
    using fromFiles_merged [OF assms(4)] by blast
  obtain obj' raw' where obj': "merged_object ?E w u (Some l) = Inr obj'"
    and c': "c' = finish_config (w, file_object ?E w) (u, file_object ?E u) (Some l, file_object ?E (Some l)) raw'"
    using fromFiles_merged [OF assms(5)] by blast
  have loc: "members_of ?E (Some l) = with_define m (members_of E (Some l))"
    using write_define_object [OF assms(1)] fromFiles_readable [OF assms(5)]
      existing_readable fromFiles_readable [OF assms(4)] by (simp add: members_of_def)
  have flags: "flags_in ?E (Some l) = join_flags (flags_in E (Some l)) (''-D'' @ m)"
    by (simp add: flags_of_members loc extract_with_define)
  have others: "members_of ?E w = members_of E w" "members_of ?E u = members_of E u"
    "flags_in ?E w = flags_in E w" "flags_in ?E u = flags_in E u"
    using assms(2,3) by (simp_all add: members_of_def flags_in_def)
  have "obj_at obj' k = obj_at obj k" if "k \<noteq> ''flags''" for k
    using merge_field_value [OF obj [unfolded merged_object_def], of k]
      merge_field_value [OF obj' [unfolded merged_object_def], of k] that
    by (simp add: all_members_def loc others)
  moreover have "cf_flags c' = join_flags (cf_flags c) (''-D'' @ m)"
    unfolding c c' finish_flags flags others by (simp only: join_flags_assoc)
  moreover have "flags_in ?E (Some l) \<noteq> []" by (simp add: flags join_flags_def)
  then have "last (cf_flagsByFile c') = \<lparr>fs_filePath = l, fs_flags = flags_in ?E (Some l)\<rparr>"
    by (simp add: c' finish_config_def flags_by_file_def file_flags_def flags_in_def Let_def)
  ultimately show ?thesis using obj obj' flags by simp
qed

section \<open>What goes wrong\<close>

text \<open>A field the schema does not know is layered all the same. When one file has a list there and a
  later one another value, the exception leaves \<open>fromFiles\<close> instead of being a read error.\<close>

lemma unknown_field_throws:
  assumes "read_object E w = Inr (Some [(k, GArray a)])" and "read_object E l = Inr (Some [(k, v)])"
    and "obj_at (ce_defaults E) k = GNull" and "to_array v = None"
  shows "fromFiles E (Some w) None (Some l) = Inl (RuntimeError (ce_array_error E))"
  using assms by (simp add: fromFiles_def layer_if_def layerFile_def)

text \<open>A local file that cannot be read as JSON is replaced by the define alone.\<close>

lemma unreadable_local_lost:
  assumes "ce_contents E l = Some json" and "ce_generic E json = Inl err"
  shows "ce_contents (write_define l m E) l = Some (ce_write E (GObject [(''flags'', GString (''-D'' @ m))]))"
  using assms by (simp add: write_define_def existing_object_def with_define_def obj_at_def)

text \<open>In a workspace that is the home directory the same file is layered twice, so its lists are doubled.\<close>

lemma home_workspace_doubles:
  assumes "merged_object E (Some p) (Some p) None = Inr obj" and "to_array (obj_at (ce_defaults E) k) = Some a"
  shows "obj_at obj k = GArray (a @ concat (map (\<lambda>v. the (to_array v)) (values_of k (members_of E (Some p))))
      @ concat (map (\<lambda>v. the (to_array v)) (values_of k (members_of E (Some p)))))"
  using merged_layered [OF assms(1), of k] assms(2)
  by (simp add: layered_def all_members_def members_of_def [of E None] file_object_def [of E None])

section \<open>A sample\<close>

text \<open>A library that reads the text W as an object with flags and a list, and any other valid
  text as an object whose flags are the text; only the witnesses use it.\<close>

definition sample_env :: "(string \<Rightarrow> string option) \<Rightarrow> config_env" where
  "sample_env files = \<lparr>ce_contents = files, ce_validate = (\<lambda>t. if t = ''bad'' then Some ''not valid'' else None),
     ce_generic = (\<lambda>t. Inr (GObject (if t = ''W'' then [(''incdirs'', GArray [GString ''inc'']), (''flags'', GString ''-DA'')]
        else [(''flags'', GString t), (''incdirs'', GArray [GString ''local''])]))),
     ce_object_error = ''not an object'', ce_array_error = ''not an array'',
     ce_defaults = [(''flags'', GString []), (''incdirs'', GArray [])],
     ce_from_generic = (\<lambda>obj. Inr (default_config\<lparr>cf_incdirs :=
        map (\<lambda>v. the (string_of_generic v)) (the (to_array (obj_at obj ''incdirs'')))\<rparr>)),
     ce_write = (\<lambda>g. the (string_of_generic (obj_at (the (to_object g)) ''flags''))),
     ce_home = None, ce_testing = True\<rparr>"

definition sample_files :: "string \<Rightarrow> string option" where
  "sample_files = (\<lambda>p. if p = ''w'' then Some ''W'' else if p = ''l'' then Some ''-DB'' else None)"

definition config_of :: "(string + config) result \<Rightarrow> config" where
  "config_of r = (case r of Inl _ \<Rightarrow> default_config | Inr (Inl _) \<Rightarrow> default_config | Inr (Inr c) \<Rightarrow> c)"

lemma sample_read:
  "fromFiles (sample_env sample_files) (Some ''w'') None (Some ''l'')
    = Inr (Inr (config_of (fromFiles (sample_env sample_files) (Some ''w'') None (Some ''l''))))"
  "fromFiles (write_define ''l'' ''C'' (sample_env sample_files)) (Some ''w'') None (Some ''l'')
    = Inr (Inr (config_of (fromFiles (write_define ''l'' ''C'' (sample_env sample_files)) (Some ''w'') None (Some ''l''))))"
  by code_simp+

theorem config_layering_witness:
  "cf_flags (config_of (fromFiles (sample_env sample_files) (Some ''w'') None (Some ''l''))) = ''-DA -DB''
    \<and> cf_incdirs (config_of (fromFiles (sample_env sample_files) (Some ''w'') None (Some ''l''))) = [''inc'', ''local'']"
proof
  have "flags_in (sample_env sample_files) (Some ''w'') = ''-DA''" "flags_in (sample_env sample_files) (Some ''l'') = ''-DB''"
    by code_simp+
  then show "cf_flags (config_of (fromFiles (sample_env sample_files) (Some ''w'') None (Some ''l''))) = ''-DA -DB''"
    using config_layering [OF sample_read(1)] by (simp add: join_flags_def)
  show "cf_incdirs (config_of (fromFiles (sample_env sample_files) (Some ''w'') None (Some ''l''))) = [''inc'', ''local'']"
    by code_simp
qed

theorem define_added_witness:
  "cf_flags (config_of (fromFiles (write_define ''l'' ''C'' (sample_env sample_files)) (Some ''w'') None (Some ''l'')))
    = ''-DA -DB -DC''"
proof -
  have rb: "reads_back (sample_env sample_files) (with_define ''C'' (existing_object (sample_env sample_files) ''l''))"
    by code_simp
  have "cf_flags (config_of (fromFiles (sample_env sample_files) (Some ''w'') None (Some ''l''))) = ''-DA -DB''"
    by code_simp
  then show ?thesis
    using define_added [OF rb _ _ sample_read(1) sample_read(2)] by (simp add: join_flags_def)
qed

end
