(* ===== verification/ServerRuns.thy ===== *)
theory ServerRuns
  imports ServerState ConfigLayers
begin

text \<open>
  Correctness of the server's modes: the driver always belongs to the configuration, the build
  file and the top level the server remembers, a reload is all or nothing, and notices of internal
  errors keep their distance.
\<close>

section \<open>Drivers\<close>

text \<open>A driver made for a configuration and some build files.\<close>

definition made_for :: "config \<Rightarrow> string list \<Rightarrow> 's server_driver \<Rightarrow> bool" where
  "made_for c builds d \<longleftrightarrow> dr_config d = c \<and> dr_builds d = builds"

lemma made_for_docs [simp]:
  "made_for c bs (d\<lparr>dr_docs := D\<rparr>) = made_for c bs d" "made_for c bs (d\<lparr>dr_comp := k\<rparr>) = made_for c bs d"
  by (simp_all add: made_for_def)

lemma new_driver_made: "new_driver W c ws bs v = Inr (d, ok, shown) \<Longrightarrow> made_for c bs d"
  by (auto simp: new_driver_def made_for_def split: if_splits prod.splits)

lemma new_driver_quiet: "new_driver W c ws bs True = Inr (d, ok, shown) \<Longrightarrow> shown = []"
  by (auto simp: new_driver_def parseAndLoadSources_def Let_def split: if_splits)

lemma copy_made: "copyOpenDocumentsFrom S old d = Inr d' \<Longrightarrow> made_for c bs d \<Longrightarrow> made_for c bs d'"
  by (auto simp: copyOpenDocumentsFrom_def map_sum_def split: option.splits sum.splits)

lemma explore_made:
  "createForExplore S W c ws old v = Inr (Some d, shown) \<Longrightarrow> made_for c [] d"
  by (auto simp: createForExplore_def map_sum_def split: sum.splits prod.splits if_splits
      dest!: new_driver_made dest: copy_made)

lemma file_lists_made:
  "createFromFileLists S W c bs ws old v = Inr (Some d, shown) \<Longrightarrow> made_for c bs d"
  by (auto simp: createFromFileLists_def map_sum_def split: sum.splits prod.splits if_splits
      dest!: new_driver_made dest: copy_made)

lemma top_made: "createFromTop S W c u ws old = Inr (d, shown) \<Longrightarrow> made_for c [] d"
  by (auto simp: createFromTop_def Let_def split: sum.splits prod.splits option.splits list.splits
      dest!: explore_made)

text \<open>Without the demand for a valid configuration there is always a driver.\<close>

lemma explore_some:
  "createForExplore S W c ws old False = Inr (d, shown) \<Longrightarrow> \<exists>d'. d = Some d' \<and> made_for c [] d'"
  by (cases d) (auto simp: createForExplore_def map_sum_def split: sum.splits prod.splits
      dest: explore_made [unfolded createForExplore_def] dest!: new_driver_made dest: copy_made)

lemma file_lists_some:
  "createFromFileLists S W c bs ws old False = Inr (d, shown) \<Longrightarrow> \<exists>d'. d = Some d' \<and> made_for c bs d'"
  using file_lists_made [of S W c bs ws old False _ shown]
  by (cases d) (auto simp: createFromFileLists_def map_sum_def split: sum.splits prod.splits)

lemma explore_quiet: "createForExplore S W c ws old True = Inr (d, shown) \<Longrightarrow> shown = []"
  by (auto simp: createForExplore_def map_sum_def split: sum.splits prod.splits if_splits
      dest: new_driver_quiet)

lemma file_lists_quiet: "createFromFileLists S W c bs ws old True = Inr (d, shown) \<Longrightarrow> shown = []"
  by (auto simp: createFromFileLists_def map_sum_def split: sum.splits prod.splits if_splits
      dest: new_driver_quiet)

section \<open>The mode of the server\<close>

text \<open>The configuration as its files read now.\<close>

abbreviation now_config :: "'s world \<Rightarrow> 's slang_server \<Rightarrow> (string + config) result" where
  "now_config W st \<equiv> read_config (world_env W) (sv_workspace st)"

definition mode_ok :: "'s slang_server \<Rightarrow> bool" where
  "mode_ok st \<longleftrightarrow> (sv_buildfile st = None \<or> sv_topFile st = None) \<and>
     (\<exists>d. sv_driver st = Some d \<and>
       made_for (sv_config st) (case sv_buildfile st of None \<Rightarrow> [] | Some b \<Rightarrow> [b]) d)"

lemma mode_ok_cong [simp]:
  "mode_ok (tell ms st) = mode_ok st" "mode_ok (st\<lparr>sv_reloadPending := p\<rparr>) = mode_ok st"
  "mode_ok (st\<lparr>sv_lastNotice := t\<rparr>) = mode_ok st"
  by (simp_all add: mode_ok_def tell_def)

lemma setExplore_mode: "setExplore S W st = (None, st') \<Longrightarrow> mode_ok st'"
  by (auto simp: setExplore_def mode_ok_def tell_def Let_def split: sum.splits prod.splits
      dest: explore_some)

lemma setBuildFile_mode: "setBuildFile S W p st = (None, st') \<Longrightarrow> mode_ok st'"
proof (cases "p = []")
  case True
  assume "setBuildFile S W p st = (None, st')"
  then show ?thesis using True setExplore_mode by (auto simp: setBuildFile_def)
next
  case False
  assume "setBuildFile S W p st = (None, st')"
  then show ?thesis using False
    by (auto simp: setBuildFile_def mode_ok_def tell_def Let_def split: sum.splits prod.splits
        dest: file_lists_some)
qed

lemma setTopLevel_mode:
  assumes "setTopLevel S W p st = (None, st')" and "mode_ok st"
  shows "mode_ok st'"
proof (cases "p = []")
  case True
  then show ?thesis using assms setExplore_mode by (auto simp: setTopLevel_def)
next
  case False
  then show ?thesis using assms
    by (auto simp: setTopLevel_def mode_ok_def tell_def Let_def split: sum.splits prod.splits if_splits option.splits
        intro: top_made)
qed

lemma load_config_mode:
  assumes "load_config S W c force v st = (Inr b, st')"
  shows "b \<Longrightarrow> mode_ok st' \<and> sv_config st' = c \<and> \<not> sv_reloadPending st' \<and> sv_topFile st' = None"
    and "\<not> b \<Longrightarrow> v \<and> st' = st"
proof -
  let ?bf = "if v \<and> sv_buildfile st \<noteq> None then sv_buildfile st else cf_build c"
  let ?made = "case ?bf of
      Some b \<Rightarrow> createFromFileLists S W c [b] (sv_workspace st) (sv_driver st) v
    | None \<Rightarrow> createForExplore S W c (sv_workspace st) (sv_driver st) v"
  have made: "made_for c (case ?bf of None \<Rightarrow> [] | Some b \<Rightarrow> [b]) d" if "?made = Inr (Some d, shown)" for d shown
    using that by (cases ?bf) (auto intro: explore_made file_lists_made)
  have none: "v \<and> shown = []" if "?made = Inr (None, shown)" for shown
    using that explore_some file_lists_some explore_quiet file_lists_quiet by (cases ?bf; cases v) fastforce+
  show "b \<Longrightarrow> mode_ok st' \<and> sv_config st' = c \<and> \<not> sv_reloadPending st' \<and> sv_topFile st' = None"
    using assms made unfolding load_config_def Let_def
    by (cases ?made) (auto simp: mode_ok_def tell_def split: option.splits prod.splits)
  show "\<not> b \<Longrightarrow> v \<and> st' = st"
    using assms none unfolding load_config_def Let_def
    by (cases ?made) (auto simp: tell_def split: option.splits prod.splits)
qed

lemma loadConfig_mode:
  assumes "loadConfig S W v st = (Inr b, st')"
  shows "b \<Longrightarrow> mode_ok st' \<and> \<not> sv_reloadPending st' \<and> sv_topFile st' = None
      \<and> (\<forall>c. now_config W st = Inr (Inr c) \<longrightarrow> sv_config st' = c)"
    and "\<not> b \<Longrightarrow> mode_ok st' = mode_ok st" and "\<not> b \<Longrightarrow> v \<Longrightarrow> st' = st"
    and "\<not> v \<Longrightarrow> sv_driver st = None \<Longrightarrow> b"
proof -
  have valid: "load_config S W c True v st = (Inr b, st')" if "now_config W st = Inr (Inr c)" for c
    using assms that by (simp add: loadConfig_def)
  have invalid: "v \<and> \<not> b \<and> st' = st
      \<or> \<not> v \<and> sv_driver st \<noteq> None \<and> \<not> b \<and> st' = tell [ShowError err] st
      \<or> \<not> v \<and> sv_driver st = None \<and> load_config S W default_config True False (tell [ShowError err] st) = (Inr b, st')"
    if "now_config W st = Inr (Inl err)" for err
    using assms that by (auto simp: loadConfig_def Let_def split: if_splits)
  have reading: P if "\<And>err. now_config W st = Inr (Inl err) \<Longrightarrow> P" "\<And>c. now_config W st = Inr (Inr c) \<Longrightarrow> P" for P
    using assms that by (auto simp: loadConfig_def split: sum.splits)
  show "b \<Longrightarrow> mode_ok st' \<and> \<not> sv_reloadPending st' \<and> sv_topFile st' = None
      \<and> (\<forall>c. now_config W st = Inr (Inr c) \<longrightarrow> sv_config st' = c)"
    using valid invalid load_config_mode(1) by - (rule reading, blast+)
  show "\<not> b \<Longrightarrow> mode_ok st' = mode_ok st"
    using valid invalid load_config_mode(2) by - (rule reading, (fastforce simp: mode_ok_cong(1))+)
  show "\<not> b \<Longrightarrow> v \<Longrightarrow> st' = st"
    using valid invalid load_config_mode(2) by - (rule reading, blast+)
  show "\<not> v \<Longrightarrow> sv_driver st = None \<Longrightarrow> b"
    using valid invalid load_config_mode(2) by - (rule reading, blast+)
qed

lemma reload_cases:
  assumes "reloadWatchedConfig S W st = (None, st')" and "mode_ok st"
  shows "st' = st\<lparr>sv_reloadPending := True\<rparr> \<or> mode_ok st'"
proof (cases "loadConfig S W True st")
  case (Pair r st1)
  then obtain b where b: "loadConfig S W True st = (Inr b, st1)"
    using assms(1) by (cases r) (auto simp: reloadWatchedConfig_def)
  show ?thesis
  proof (cases b)
    case True
    then have ok: "mode_ok st1" using loadConfig_mode(1) [OF b] by simp
    show ?thesis
    proof (cases "sv_topFile st")
      case None
      then show ?thesis using assms(1) b True ok by (simp add: reloadWatchedConfig_def)
    next
      case (Some t)
      then have "setTopLevel S W t st1 = (None, st')" using assms(1) b True by (simp add: reloadWatchedConfig_def)
      then show ?thesis using setTopLevel_mode ok by blast
    qed
  next
    case False
    then show ?thesis using assms(1) b loadConfig_mode(3) [OF b] by (auto simp: reloadWatchedConfig_def)
  qed
qed

lemma reload_mode: "reloadWatchedConfig S W st = (None, st') \<Longrightarrow> mode_ok st \<Longrightarrow> mode_ok st'"
  using reload_cases by fastforce

lemma addDefine_mode:
  assumes "addDefine S W m st = (None, st')" and "mode_ok st"
  shows "mode_ok st'"
proof (cases "sv_workspace st")
  case (Some w)
  let ?W = "W\<lparr>world_env := write_define (local_json w) m (world_env W)\<rparr>"
  obtain b st1 where b: "loadConfig S ?W False st = (Inr b, st1)"
    using assms(1) Some by (auto simp: addDefine_def Let_def split: sum.splits prod.splits)
  have "mode_ok st1" using loadConfig_mode(1,2) [OF b] assms(2) by (cases b) auto
  then show ?thesis using assms(1) b Some setBuildFile_mode
    by (auto simp: addDefine_def Let_def split: option.splits)
qed (use assms in \<open>auto simp: addDefine_def\<close>)

definition handler_keeps :: "('st \<Rightarrow> bool) \<Rightarrow> 'st watcher \<Rightarrow> bool" where
  "handler_keeps P w \<longleftrightarrow> (\<forall>cs st b st'. P st \<longrightarrow> wt_handler w cs st = (Inr b, st') \<longrightarrow> P st')"

lemma dispatch_keeps:
  assumes "\<forall>w \<in> set ws. handler_keeps P w"
    and "dispatch ws changes st = (None, st')" and "P st"
  shows "P st'"
  using assms
proof (induction ws changes st rule: dispatch.induct)
  case (2 w ws changes st)
  let ?m = "filter (\<lambda>c. change_extension c \<in> set (wt_extensions w)) changes"
  have keep: "\<forall>w \<in> set ws. handler_keeps P w"
    using "2.prems"(1) by simp
  show ?case
  proof (cases "?m = []")
    case True
    then have "dispatch ws changes st = (None, st')" using "2.prems"(2) by (simp add: Let_def)
    from "2.IH"(1) [OF refl True keep this "2.prems"(3)] show ?thesis .
  next
    case False
    obtain r st1 where r: "wt_handler w ?m st = (r, st1)" by (cases "wt_handler w ?m st")
    with "2.prems"(2) False obtain b where b: "r = Inr b" by (cases r) (auto simp: Let_def)
    have p: "P st1" using "2.prems"(1,3) r b by (auto simp: handler_keeps_def)
    show ?thesis
    proof (cases b)
      case True
      then show ?thesis using "2.prems"(2) False r b p by (simp add: Let_def)
    next
      case go: False
      then have d: "dispatch ws changes st1 = (None, st')" using "2.prems"(2) False r b by (simp add: Let_def)
      show ?thesis using "2.IH"(2) [OF refl False r [symmetric] b _ keep d p] go by simp
    qed
  qed
qed simp

lemma sources_changed_mode [simp]: "mode_ok (sources_changed S W parse cs st) = mode_ok st"
  by (cases "sv_driver st") (auto simp: sources_changed_def mode_ok_def)

lemma watchers_mode:
  assumes "w \<in> set (registerFileWatchers S W parse)" and "mode_ok st" and "wt_handler w cs st = (Inr b, st')"
  shows "mode_ok st'"
  using assms
  by (auto simp: registerFileWatchers_def addExtensions_def returning_def split: if_splits prod.splits option.splits
      intro: reload_mode)

lemma changes_mode:
  assumes "onDidChangeWatchedFiles S W parse cs st = (None, st')" and "mode_ok st"
  shows "mode_ok st'"
proof (cases "sv_reloadPending st")
  case True
  then show ?thesis using assms reload_mode by (auto simp: onDidChangeWatchedFiles_def)
next
  case False
  then have "dispatch (registerFileWatchers S W parse) cs st = (None, st')"
    using assms(1) by (simp add: onDidChangeWatchedFiles_def)
  then show ?thesis using dispatch_keeps [of "registerFileWatchers S W parse" mode_ok] watchers_mode assms(2)
    unfolding handler_keeps_def by blast
qed

lemma run_op_mode:
  assumes "run_op S parse W opn st = (None, st')" and "mode_ok st"
  shows "mode_ok st'"
proof (cases opn)
  case OpInitialize
  then obtain b where b: "loadConfig S W False st = (Inr b, st')"
    using assms(1) by (auto split: sum.splits prod.splits)
  show ?thesis using loadConfig_mode(1,2) [OF b] assms(2) by (cases b) auto
qed (use assms in \<open>auto simp: onInternalError_def intro: setTopLevel_mode setBuildFile_mode addDefine_mode changes_mode\<close>)

lemma server_run_mode: "server_run S parse ops st = Inr st' \<Longrightarrow> mode_ok st \<Longrightarrow> mode_ok st'"
proof (induction ops arbitrary: st)
  case (Cons e ops)
  obtain W opn where e: "e = (W, opn)" by (cases e)
  with Cons.prems(1) obtain st1 where "run_op S parse W opn st = (None, st1)" "server_run S parse ops st1 = Inr st'"
    by (auto simp del: run_op.simps split: prod.splits option.splits)
  then show ?case using Cons.IH run_op_mode Cons.prems(2) by blast
qed simp

lemma initialised_mode:
  assumes "server_run S parse ((W, OpInitialize) # ops) (initial_server ws) = Inr st"
  shows "mode_ok st"
proof -
  obtain b st1 where b: "loadConfig S W False (initial_server ws) = (Inr b, st1)"
    and run: "server_run S parse ops st1 = Inr st"
    using assms by (auto split: sum.splits prod.splits option.splits)
  have "b" using loadConfig_mode(4) [OF b] by (simp add: initial_server_def)
  then show ?thesis using loadConfig_mode(1) [OF b] server_run_mode [OF run] by blast
qed

section \<open>What goes wrong\<close>

text \<open>The top level of a file that cannot be read throws after the server has forgotten its build file
  and taken the new top level, so the driver no longer belongs to what the server remembers.\<close>

lemma unreadable_top_breaks_mode:
  assumes "sv_driver st = Some d" and "sv_buildfile st = Some b" and "made_for (sv_config st) [b] d"
    and "is_absolute (path_of_string p)" and "p \<noteq> []"
    and "createFromTop S W (sv_config st) (uri_fromFile p) (sv_workspace st) (sv_driver st) = Inl e"
  shows "\<exists>st'. setTopLevel S W p st = (Some e, st') \<and> \<not> mode_ok st' \<and> sv_topFile st' = Some p"
  using assms by (auto simp: setTopLevel_def Let_def mode_ok_def made_for_def)

text \<open>While a reload is pending and the configuration stays invalid, changes of sources are dropped:
  neither the index nor the documents hear of them.\<close>

lemma pending_reload_drops_changes:
  assumes "sv_reloadPending st" and "now_config W st = Inr (Inl err)"
  shows "onDidChangeWatchedFiles S W parse changes st = (None, st)"
  using assms by (simp add: onDidChangeWatchedFiles_def reloadWatchedConfig_def loadConfig_def Let_def)

section \<open>Notices\<close>

text \<open>The times of the notices a run sends.\<close>

fun notice_times ::
  "'s store_lib \<Rightarrow> (path \<Rightarrow> indexed) \<Rightarrow> ('s world \<times> server_op) list \<Rightarrow> 's slang_server \<Rightarrow> int list" where
  "notice_times S parse [] st = []"
| "notice_times S parse ((W, opn) # ops) st =
     (let st' = snd (run_op S parse W opn st) in
      (case opn of OpInternalError m msg \<Rightarrow>
         if sv_sent st' = sv_sent st @ [InternalError m msg] then [world_now W] else [] | _ \<Rightarrow> [])
      @ notice_times S parse ops st')"

text \<open>Only a notice moves the time of the last notice.\<close>

lemma tell_notice [simp]: "sv_lastNotice (tell ms st) = sv_lastNotice st"
  by (simp add: tell_def)

lemma setExplore_notice [simp]: "sv_lastNotice (snd (setExplore S W st)) = sv_lastNotice st"
  by (auto simp: setExplore_def Let_def split: sum.split)

lemma setBuildFile_notice [simp]: "sv_lastNotice (snd (setBuildFile S W p st)) = sv_lastNotice st"
  by (auto simp: setBuildFile_def Let_def split: sum.split)

lemma setTopLevel_notice [simp]: "sv_lastNotice (snd (setTopLevel S W p st)) = sv_lastNotice st"
  by (auto simp: setTopLevel_def Let_def split: sum.split option.split)

lemma load_config_notice [simp]: "sv_lastNotice (snd (load_config S W c force v st)) = sv_lastNotice st"
  by (auto simp: load_config_def Let_def split: sum.split option.split)

lemma loadConfig_notice [simp]: "sv_lastNotice (snd (loadConfig S W v st)) = sv_lastNotice st"
  by (auto simp: loadConfig_def Let_def split: sum.split)

lemma reload_notice [simp]: "sv_lastNotice (snd (reloadWatchedConfig S W st)) = sv_lastNotice st"
proof (cases "loadConfig S W True st")
  case (Pair r st1)
  then have "sv_lastNotice st1 = sv_lastNotice st" using loadConfig_notice [of S W True st] by simp
  then show ?thesis
    by (simp add: reloadWatchedConfig_def Pair split: sum.split bool.split option.split)
qed

lemma addDefine_notice [simp]: "sv_lastNotice (snd (addDefine S W m st)) = sv_lastNotice st"
proof (cases "sv_workspace st")
  case (Some w)
  let ?W = "W\<lparr>world_env := write_define (local_json w) m (world_env W)\<rparr>"
  obtain r st1 where r: "loadConfig S ?W False st = (r, st1)" by (cases "loadConfig S ?W False st")
  then have "sv_lastNotice st1 = sv_lastNotice st" using loadConfig_notice [of S ?W False st] by simp
  then show ?thesis by (simp add: addDefine_def Some r Let_def split: sum.split option.split)
qed (simp add: addDefine_def)

lemma returning_snd [simp]: "snd (returning b r) = snd r"
  by (cases r) (auto simp: returning_def split: option.split)

lemma sources_changed_notice [simp]: "sv_lastNotice (sources_changed S W parse cs st) = sv_lastNotice st"
  by (simp add: sources_changed_def)

lemma dispatch_notice:
  assumes "\<forall>w \<in> set ws. \<forall>cs st. sv_lastNotice (snd (wt_handler w cs st)) = sv_lastNotice st"
  shows "sv_lastNotice (snd (dispatch ws changes st)) = sv_lastNotice st"
  using assms
proof (induction ws changes st rule: dispatch.induct)
  case (2 w ws changes st)
  then show ?case
    by (auto simp: Let_def split: prod.split sum.split bool.split) (metis snd_conv)+
qed simp

lemma changes_notice [simp]: "sv_lastNotice (snd (onDidChangeWatchedFiles S W parse cs st)) = sv_lastNotice st"
proof -
  have "\<forall>w \<in> set (registerFileWatchers S W parse). \<forall>cs st. sv_lastNotice (snd (wt_handler w cs st)) = sv_lastNotice st"
    by (simp add: registerFileWatchers_def addExtensions_def)
  then show ?thesis by (simp add: onDidChangeWatchedFiles_def dispatch_notice)
qed

section \<open>Reloads\<close>

text \<open>What a reload that took place leaves behind.\<close>

definition reloaded :: "'s world \<Rightarrow> 's slang_server \<Rightarrow> 's slang_server \<Rightarrow> bool" where
  "reloaded W st st' \<longleftrightarrow> now_config W st = Inr (Inr (sv_config st')) \<and> mode_ok st'
     \<and> \<not> sv_reloadPending st' \<and> sv_topFile st' = sv_topFile st
     \<and> sv_buildfile st' = (if sv_topFile st \<noteq> None then None
          else if sv_buildfile st \<noteq> None then sv_buildfile st else cf_build (sv_config st'))"

lemma load_config_build:
  "load_config S W c force True st = (Inr True, st')
    \<Longrightarrow> sv_buildfile st' = (if sv_buildfile st \<noteq> None then sv_buildfile st else cf_build c)"
  by (auto simp: load_config_def Let_def tell_def split: sum.splits option.splits prod.splits)

lemma setTopLevel_absolute:
  assumes "setTopLevel S W p st = (None, st')" and "p \<noteq> []" and "is_absolute (path_of_string p)"
  shows "sv_config st' = sv_config st" and "sv_topFile st' = Some p" and "sv_buildfile st' = None"
    and "sv_reloadPending st' = sv_reloadPending st"
  using assms by (auto simp: setTopLevel_def Let_def tell_def split: sum.splits prod.splits)


text \<open>A world for the witnesses: every file list works but \<open>bad.f\<close>, the file /a.sv is on disk and
  has the module a.\<close>

definition sample_world :: "bool \<Rightarrow> int \<Rightarrow> (string \<times> string) list world" where
  "sample_world good t = \<lparr>
     world_env = sample_env (\<lambda>p. if p = ''/w/.slang/server.json'' then Some (if good then ''W'' else ''bad'') else None),
     world_fs = \<lparr>weakly_canonical = Some, is_regular_file = (\<lambda>p. p = path_of_string ''/a.sv''),
       is_directory = (\<lambda>_. False), exists_path = (\<lambda>p. p = path_of_string ''/a.sv''), current_path = path_of_string ''/''\<rparr>, world_workspace_ok = True,
     world_flags_ok = (\<lambda>_. True), world_options_ok = True, world_command_file_ok = (\<lambda>f. f \<noteq> ''bad.f''),
     world_incdir_error = (\<lambda>_. None), world_sources_ok = True,
     world_fresh = (\<lambda>_ _. \<lparr>drv_docs = [], drv_open = [], drv_build = [], drv_store = [(''/a.sv'', ''module a'')]\<rparr>),
     world_command_files = (\<lambda>_ _. []), world_tops = (\<lambda>_. [''a'']), world_dependents = (\<lambda>_ _. []), world_now = t\<rparr>"


text \<open>A run that chooses a top level, meets a configuration that cannot be read and recovers with the
  next change.\<close>

definition sample_run :: "((string \<times> string) list world \<times> server_op) list" where
  "sample_run =
     [(sample_world True 2, OpSetTop ''/a.sv''),
      (sample_world False 3, OpChanges [(uri_fromFile ''/w/server.json'', Changed)]),
      (sample_world True 4, OpChanges [(uri_fromFile ''/a.sv'', Changed)])]"

lemma sample_run_result:
  "case server_run log_store (\<lambda>_. empty_indexed) ((sample_world True 1, OpInitialize) # sample_run)
       (initial_server (Some ''/w'')) of
     Inl _ \<Rightarrow> False | Inr st \<Rightarrow> sv_topFile st = Some ''/a.sv'' \<and> \<not> sv_reloadPending st"
  by code_simp


lemma sample_reload:
  "case server_run log_store (\<lambda>_. empty_indexed) ((sample_world True 1, OpInitialize) # take 1 sample_run)
       (initial_server (Some ''/w'')) of
     Inl _ \<Rightarrow> False
   | Inr st \<Rightarrow> sv_topFile st = Some ''/a.sv''
       \<and> fst (reloadWatchedConfig log_store (sample_world True 5) st) = None
       \<and> \<not> sv_reloadPending (snd (reloadWatchedConfig log_store (sample_world True 5) st))"
  by code_simp


section \<open>The distance of notices\<close>

text \<open>In every run of the server, whatever else happens in between, two notices of internal
  errors sent one after the other are at least five minutes apart, and so is the first from the time
  the server counts as the last notice at its start.\<close>

theorem notices_spaced:
  "successively (\<lambda>s t. notice_gap \<le> t - s) (sv_lastNotice st # notice_times S parse ops st)"
proof (induction S parse ops st rule: notice_times.induct)
  case (2 S parse W opn ops st)
  let ?st' = "snd (run_op S parse W opn st)"
  show ?case
  proof (cases opn)
    case (OpInternalError m msg)
    then show ?thesis using "2.IH" [OF refl]
      by (auto simp: onInternalError_def tell_def Let_def)
  next
    case OpInitialize
    have "sv_lastNotice ?st' = sv_lastNotice st"
      using loadConfig_notice [of S W False st] OpInitialize
      by (cases "loadConfig S W False st") (auto split: sum.split)
    then show ?thesis using "2.IH" [OF refl] OpInitialize by (simp add: Let_def del: run_op.simps)
  qed (use "2.IH" [OF refl] in \<open>simp_all add: Let_def\<close>)
qed simp

end
