(* ===== verification/CodeActions.thy ===== *)
theory CodeActions
  imports Formatting IndexTables DocText "HOL-Library.Product_Lexorder"
begin

text \<open>
  Code actions, from src/codeactions/AddInclude.cpp, ExpandMacro.cpp, AddDefine.cpp and
  CodeActionDispatch.cpp, and the file of expanded macros (\<open>SlangServer::expandMacros\<close>).

  What slang gives of the document is the record \<open>action_ctx\<close>: the token and the syntax at the
  cursor, the unknown directives among the diagnostics, the include directives, the files of the
  tree, how a header's spelling resolves, and the text of the macro expansions. An edit stands at
  an offset of the document; theory Positions turns offsets into positions.
\<close>

section \<open>Searching text\<close>

fun find_str :: "string \<Rightarrow> string \<Rightarrow> nat option" where
  "find_str pat [] = (if pat = [] then Some 0 else None)"
| "find_str pat (c # cs) = (if prefix pat (c # cs) then Some 0 else map_option Suc (find_str pat cs))"

lemma find_str_bound: "find_str pat s = Some i \<Longrightarrow> i + length pat \<le> length s"
  by (induction pat s arbitrary: i rule: find_str.induct) (auto split: if_splits dest: prefix_length_le)

section \<open>Adding an include\<close>

record include_directive =
  inc_path :: string
  inc_system :: bool
  inc_range :: "(nat \<times> nat) option"

text \<open>\<open>inc_range\<close> is the range of a directive of the document's own buffer. An ancestor of the syntax
  at the cursor: where its first token stands, whether in the document, whether it is the
  compilation unit, and whether it is a module declaration reached from outside its header.\<close>

record ancestor =
  an_offset :: nat
  an_in_buffer :: bool
  an_unit :: bool
  an_module_body :: bool

datatype action_syntax =
    ActMacroUsage | ActConditionalName | ActIdentifierName | ActClassName | ActOther

record action_ctx =
  ac_only :: "string list option"
  ac_text :: string
  ac_path :: string
  ac_uri :: string
  ac_cursor :: "nat option"
  ac_unknown :: "nat list"
  ac_token :: "string option"
  ac_syntax :: "action_syntax option"
  ac_first_token :: nat
  ac_ancestors :: "ancestor list"
  ac_has_symbol :: bool
  ac_macros :: "string list"
  ac_includes :: "include_directive list"
  ac_tree_files :: "path list"
  ac_readHeader :: "string \<Rightarrow> path option"
  ac_expansion :: "(nat \<times> nat \<times> string) option"

definition directive_char :: "char \<Rightarrow> bool" where
  "directive_char c \<longleftrightarrow> isalnum c \<or> c = CHR ''_'' \<or> c = CHR ''$''"

text \<open>The first unknown directive the cursor is on.\<close>

fun unknown_directive :: "string \<Rightarrow> nat \<Rightarrow> nat list \<Rightarrow> string option" where
  "unknown_directive text cursor [] = None"
| "unknown_directive text cursor (start # starts) =
    (let name = takeWhile directive_char (drop (start + 1) text) in
     if cursor \<ge> start \<and> cursor \<le> start + 1 + length name then Some name
     else unknown_directive text cursor starts)"

text \<open>The name to look up, and whether it is a macro; no result when there is none or the macro is
  known. A directive without a name leaves the flag set for the name of a token.\<close>

definition lookup_name :: "action_ctx \<Rightarrow> nat \<Rightarrow> (string \<times> bool) option" where
  "lookup_name ctx cursor =
    (let d = unknown_directive (ac_text ctx) cursor (ac_unknown ctx);
         macro = (d \<noteq> None);
         name = (case d of None \<Rightarrow> [] | Some n \<Rightarrow> n);
         found = (if name \<noteq> [] then Some (name, macro)
           else (case (ac_token ctx, ac_syntax ctx) of
               (Some token, Some ActConditionalName) \<Rightarrow>
                 if token \<in> set (ac_macros ctx) then None else Some (token, True)
             | (Some token, Some ActIdentifierName) \<Rightarrow> if ac_has_symbol ctx then Some ([], macro) else Some (token, macro)
             | (Some token, Some ActClassName) \<Rightarrow> if ac_has_symbol ctx then Some ([], macro) else Some (token, macro)
             | _ \<Rightarrow> Some ([], macro)))
     in case found of None \<Rightarrow> None | Some (n, k) \<Rightarrow> if n = [] then None else Some (n, k))"

text \<open>How far the leading blanks and comments of a text reach.\<close>

function leading_trivia :: "string \<Rightarrow> nat" where
  "leading_trivia s = (if s = [] then 0
     else if isspace (hd s) then Suc (leading_trivia (tl s))
     else if prefix ''//'' s then (case find_char nl s of
         None \<Rightarrow> 0 | Some e \<Rightarrow> Suc e + leading_trivia (drop (Suc e) s))
     else if prefix ''/*'' s then (case find_str ''*/'' (drop 2 s) of
         None \<Rightarrow> 0 | Some e \<Rightarrow> e + 4 + leading_trivia (drop (e + 4) s))
     else 0)"
  by pat_completeness auto
termination by (relation "measure length") auto

declare leading_trivia.simps [simp del]

fun enclosing_member :: "nat \<Rightarrow> ancestor list \<Rightarrow> nat" where
  "enclosing_member offset [] = offset"
| "enclosing_member offset (p # ps) =
    (if an_unit p \<or> \<not> an_in_buffer p \<or> an_module_body p then offset else enclosing_member (an_offset p) ps)"

text \<open>Where the last include directive before the cursor ends, its line included when that ends
  before the cursor.\<close>

fun after_includes :: "string \<Rightarrow> nat \<Rightarrow> include_directive list \<Rightarrow> nat \<Rightarrow> nat" where
  "after_includes text cursor [] offset = offset"
| "after_includes text cursor (i # is) offset = (case inc_range i of
     None \<Rightarrow> after_includes text cursor is offset
   | Some (start, end1) \<Rightarrow> if end1 > cursor then after_includes text cursor is offset
     else let end2 = (case find_char nl (drop end1 text) of
            None \<Rightarrow> end1 | Some k \<Rightarrow> if end1 + k < cursor then end1 + k + 1 else end1)
          in after_includes text cursor is (max offset end2))"

definition include_offset :: "action_ctx \<Rightarrow> nat \<Rightarrow> bool \<Rightarrow> nat" where
  "include_offset ctx cursor macro =
    (if macro then after_includes (ac_text ctx) cursor (ac_includes ctx) (leading_trivia (ac_text ctx))
     else enclosing_member (ac_first_token ctx) (ac_ancestors ctx))"

definition line_start :: "string \<Rightarrow> nat \<Rightarrow> nat" where
  "line_start text offset = offset - length (takeWhile (\<lambda>c. c \<noteq> nl) (rev (take offset text)))"

text \<open>The offset of the insertion and the indentation of its line: an offset with only blanks before
  it moves to the start of its line.\<close>

definition place_line :: "string \<Rightarrow> nat \<Rightarrow> nat \<times> string" where
  "place_line text offset = (let lineStart = line_start text offset;
       before = take (offset - lineStart) (drop lineStart text)
     in if list_all space_or_tab before then (lineStart, before) else (offset, []))"

text \<open>The shortest tail of the path by which a header search finds the file.\<close>

function find_spelling :: "(string \<Rightarrow> path option) \<Rightarrow> path \<Rightarrow> path \<Rightarrow> path \<Rightarrow> path option" where
  "find_spelling readHeader fullPath tail directory =
    (if directory = [] then None
     else if readHeader (generic_string tail) = Some fullPath then Some tail
     else if directory = (if is_absolute directory then [root_dir] else []) then None
     else find_spelling readHeader fullPath (append_path [filename directory] tail) (parent_path directory))"
  by pat_completeness auto
termination by (relation "measure (\<lambda>(_, _, _, d). length d)") (auto simp: parent_path_def is_absolute_def)

declare find_spelling.simps [simp del]

definition spelling_of :: "action_ctx \<Rightarrow> path \<Rightarrow> path \<Rightarrow> path option" where
  "spelling_of ctx currentPath fullPath =
    (case find_spelling (ac_readHeader ctx) fullPath [filename fullPath] (parent_path fullPath) of
       Some s \<Rightarrow> Some s
     | None \<Rightarrow> (let relative = lexically_relative fullPath (parent_path currentPath) in
         if relative = [] \<or> ac_readHeader ctx (generic_string relative) \<noteq> Some fullPath then None
         else Some relative))"

record include_action =
  ia_title :: string
  ia_uri :: string
  ia_offset :: nat
  ia_newText :: string

definition dquote :: char where "dquote = CHR 0x22"

definition include_line :: "string \<Rightarrow> string" where
  "include_line p = CHR 0x60 # ''include '' @ [dquote] @ p @ [dquote]"

definition newline_of :: "string \<Rightarrow> string" where
  "newline_of text = (if find_str [CHR 0x0D, nl] text \<noteq> None then [CHR 0x0D, nl] else [nl])"

definition include_action_for :: "filesystem \<Rightarrow> action_ctx \<Rightarrow> nat \<Rightarrow> string \<Rightarrow> path \<Rightarrow> include_action option" where
  "include_action_for fs ctx offset indentation p =
    (let text = ac_text ctx;
         currentPath = lexically_normal (path_of_string (ac_path ctx));
         fullPath = lexically_normal (absolute_path fs p)
     in if fullPath = currentPath \<or> fullPath \<in> set (ac_tree_files ctx) then None
        else (case spelling_of ctx currentPath fullPath of
           None \<Rightarrow> None
         | Some spelling \<Rightarrow> (let includePath = generic_string spelling in
             if includePath = [] \<or> list_ex (\<lambda>c. c = dquote \<or> c = CHR 0x0D \<or> c = nl) includePath
               \<or> list_ex (\<lambda>i. lexically_normal (path_of_string (inc_path i)) = spelling) (ac_includes ctx)
             then None
             else Some \<lparr>ia_title = ''Add '' @ include_line includePath, ia_uri = ac_uri ctx, ia_offset = offset,
               ia_newText = (if offset > 0 \<and> text ! (offset - 1) \<noteq> nl then newline_of text else [])
                 @ indentation @ include_line includePath @ newline_of text\<rparr>)))"

definition quickfix_wanted :: "action_ctx \<Rightarrow> bool" where
  "quickfix_wanted ctx \<longleftrightarrow> (case ac_only ctx of None \<Rightarrow> True | Some kinds \<Rightarrow> list_ex (\<lambda>k. k = [] \<or> k = ''quickfix'') kinds)"

definition include_files :: "indexer \<Rightarrow> string \<Rightarrow> bool \<Rightarrow> path list" where
  "include_files ix name macro =
     remdups_adj (sort (if macro then getFilesForMacro ix name else getHeadersForSymbol ix name))"

definition addIncludeActions :: "filesystem \<Rightarrow> indexer \<Rightarrow> action_ctx \<Rightarrow> include_action list" where
  "addIncludeActions fs ix ctx = (if \<not> quickfix_wanted ctx then []
     else (case ac_cursor ctx of
       None \<Rightarrow> []
     | Some cursor \<Rightarrow> (case lookup_name ctx cursor of
         None \<Rightarrow> []
       | Some (name, macro) \<Rightarrow>
         (case place_line (ac_text ctx) (include_offset ctx cursor macro) of (offset, indentation) \<Rightarrow>
            List.map_filter (include_action_for fs ctx offset indentation) (include_files ix name macro)))))"

section \<open>Expanding a macro\<close>

definition blank_prefix :: "string \<Rightarrow> nat option" where
  "blank_prefix line = (if list_all space_or_tab line then None else Some (length (takeWhile space_or_tab line)))"

definition min_indent :: "string list \<Rightarrow> nat" where
  "min_indent lines = (case List.map_filter blank_prefix lines of [] \<Rightarrow> 0 | ps \<Rightarrow> Min (set ps))"

definition reindent_line :: "nat \<Rightarrow> nat \<Rightarrow> string \<Rightarrow> string" where
  "reindent_line minIndent column line = replicate column (CHR '' '') @ (case blank_prefix line of
     None \<Rightarrow> [] | Some pos \<Rightarrow> replicate (pos - minIndent) (CHR '' '') @ drop pos line)"

definition reindent :: "string \<Rightarrow> nat \<Rightarrow> string" where
  "reindent text column = (if nl \<notin> set text then text
     else let ls = getlines text; m = min_indent (tl ls)
          in hd ls @ concat (map (\<lambda>l. nl # reindent_line m column l) (tl ls)))"

record define_action =
  da_title :: string
  da_argument :: string

datatype code_action =
    IncludeAction include_action
  | ExpandAction "nat \<times> nat" string
  | DefineAction define_action

text \<open>\<open>ac_expansion\<close> is the range of the macro usage at the cursor and the text of its expansion, when
  the analysis has one; \<open>column\<close> gives the UTF-16 column of an offset.\<close>

definition addExpandMacroAction :: "(nat \<Rightarrow> nat) \<Rightarrow> action_ctx \<Rightarrow> code_action list" where
  "addExpandMacroAction column ctx = (case ac_expansion ctx of
     None \<Rightarrow> []
   | Some (start, stop, text) \<Rightarrow> [ExpandAction (start, stop) (reindent text (column start))])"

definition addAddDefineAction :: "action_ctx \<Rightarrow> code_action list" where
  "addAddDefineAction ctx = (case ac_token ctx of
     None \<Rightarrow> []
   | Some macroName \<Rightarrow> if macroName = [] \<or> macroName \<in> set (ac_macros ctx) then []
       else [DefineAction \<lparr>da_title = ''Add define '' @ [CHR 0x27] @ macroName @ [CHR 0x27] @ '' to local flags'',
               da_argument = macroName\<rparr>])"

text \<open>A document that cannot be found never gets here: \<open>getDocument\<close> throws.\<close>

definition getCodeActions :: "filesystem \<Rightarrow> indexer \<Rightarrow> (nat \<Rightarrow> nat) \<Rightarrow> action_ctx \<Rightarrow> code_action list" where
  "getCodeActions fs ix column ctx = map IncludeAction (addIncludeActions fs ix ctx)
     @ (case ac_syntax ctx of
          Some ActMacroUsage \<Rightarrow> addExpandMacroAction column ctx
        | Some ActConditionalName \<Rightarrow> addAddDefineAction ctx
        | _ \<Rightarrow> [])"

section \<open>Expanding all macros\<close>

record usage =
  us_start :: nat
  us_end :: nat
  us_text :: string

text \<open>By start, the longer first.\<close>

definition sort_usages :: "usage list \<Rightarrow> usage list" where
  "sort_usages us = sort_key (\<lambda>u. (us_start u, - int (us_end u))) us"

fun expand_loop :: "string \<Rightarrow> usage list \<Rightarrow> nat \<Rightarrow> string" where
  "expand_loop text [] offset = drop offset text"
| "expand_loop text (u # us) offset =
    (if us_start u < offset then expand_loop text us offset
     else substr text offset (us_start u - offset) @ us_text u @ expand_loop text us (us_end u))"

text \<open>The bytes written to the new file, from the text without its terminator.\<close>

definition expandMacros :: "string \<Rightarrow> usage list \<Rightarrow> string" where
  "expandMacros text usages = expand_loop (butlast text) (sort_usages usages) 0"

end
