(* ===== verification/CodeActionRuns.thy ===== *)
theory CodeActionRuns
  imports CodeActions "HOL-Library.Multiset"
begin

text \<open>
  Correctness of the code actions: every include offered resolves to the wanted file, is not there
  yet and gets a line of its own; the file of expanded macros is the text with the outermost usages
  replaced; reindenting keeps the relative indentation.
\<close>

section \<open>Where an include goes\<close>

lemma leading_trivia_bound: "leading_trivia s \<le> length s"
proof (induction s rule: leading_trivia.induct)
  case (1 s)
  show ?case
  proof (cases "s = [] \<or> isspace (hd s)")
    case True
    then show ?thesis using 1(1) by (subst leading_trivia.simps) (cases s, auto)
  next
    case False
    note simps = leading_trivia.simps [of s]
    show ?thesis
    proof (cases "prefix ''//'' s")
      case True
      then show ?thesis using False 1(2) find_char_Some [of nl s]
        by (auto simp: simps split: option.split)
    next
      case no: False
      then show ?thesis using False 1(3) find_str_bound [of "''*/''" "drop 2 s"]
        by (auto simp: simps split: option.split)
    qed
  qed
qed

lemma after_includes_bound:
  "offset \<le> length src \<Longrightarrow> \<forall>i \<in> set incs. \<forall>rg \<in> set_option (inc_range i). snd rg \<le> length src
    \<Longrightarrow> after_includes src cursor incs offset \<le> length src"
proof (induction src cursor incs offset rule: after_includes.induct)
  case (2 src cursor i incs offset)
  show ?case
  proof (cases "inc_range i")
    case None
    then show ?thesis using 2 by simp
  next
    case (Some rg)
    obtain s e where rg: "rg = (s, e)" by (cases rg)
    have e: "e \<le> length src" using 2(5) Some rg by auto
    have "e + k + 1 \<le> length src" if "find_char nl (drop e src) = Some k" for k
      using that find_char_Some [of nl "drop e src" k] e by auto
    then show ?thesis using 2 Some rg e by (auto simp: Let_def split: option.split)
  qed
qed simp

lemma enclosing_member_bound:
  "offset \<le> n \<Longrightarrow> \<forall>p \<in> set ps. an_offset p \<le> n \<Longrightarrow> enclosing_member offset ps \<le> n"
  by (induction offset ps rule: enclosing_member.induct) auto

definition offsets_ok :: "action_ctx \<Rightarrow> bool" where
  "offsets_ok ctx \<longleftrightarrow> ac_first_token ctx \<le> length (ac_text ctx)
     \<and> (\<forall>p \<in> set (ac_ancestors ctx). an_offset p \<le> length (ac_text ctx))
     \<and> (\<forall>i \<in> set (ac_includes ctx). \<forall>rg \<in> set_option (inc_range i). snd rg \<le> length (ac_text ctx))"

lemma include_offset_bound: "offsets_ok ctx \<Longrightarrow> include_offset ctx cursor macro \<le> length (ac_text ctx)"
  unfolding offsets_ok_def include_offset_def
  by (auto intro!: after_includes_bound enclosing_member_bound leading_trivia_bound)

lemma line_start_le: "line_start text offset \<le> offset"
  by (simp add: line_start_def)

lemma line_start_nl:
  assumes "offset \<le> length text" and "line_start text offset \<noteq> 0"
  shows "text ! (line_start text offset - 1) = nl"
proof -
  let ?r = "rev (take offset text)"
  let ?k = "length (takeWhile (\<lambda>c. c \<noteq> nl) ?r)"
  have len: "length ?r = offset" using assms(1) by simp
  have k: "?k < length ?r" using assms(2) len by (simp add: line_start_def)
  have "\<not> (?r ! ?k \<noteq> nl)" using nth_length_takeWhile [OF k] .
  moreover have "?r ! ?k = text ! (offset - 1 - ?k)" using k len assms(1) by (simp add: rev_nth)
  ultimately show ?thesis using len by (simp add: line_start_def)
qed

lemma place_line_ok:
  assumes "place_line text offset = (off, ind)" and "offset \<le> length text"
  shows "off \<le> length text \<and> list_all space_or_tab ind \<and> prefix ind (drop off text)
    \<and> (ind \<noteq> [] \<longrightarrow> off = 0 \<or> text ! (off - 1) = nl)"
  using assms line_start_le [of "text" offset] line_start_nl [of offset "text"]
  by (auto simp: place_line_def Let_def take_is_prefix split: if_splits)

section \<open>What an include resolves to\<close>

lemma find_spelling_resolves: "find_spelling rh full sfx dir = Some s \<Longrightarrow> rh (generic_string s) = Some full"
proof (induction rh full sfx dir rule: find_spelling.induct)
  case (1 rh full sfx dir)
  then show ?case using find_spelling.simps [of rh full sfx dir] by (auto split: if_splits)
qed

lemma spelling_resolves: "spelling_of ctx cur full = Some s \<Longrightarrow> ac_readHeader ctx (generic_string s) = Some full"
  by (auto simp: spelling_of_def Let_def split: option.splits if_splits dest: find_spelling_resolves)

lemma map_filter_set: "set (List.map_filter f xs) = {y. \<exists>x \<in> set xs. f x = Some y}"
  by (induction xs) (auto simp: List.map_filter_simps split: option.splits)

definition clean_name :: "string \<Rightarrow> bool" where
  "clean_name p \<longleftrightarrow> p \<noteq> [] \<and> dquote \<notin> set p \<and> nl \<notin> set p \<and> CHR 0x0D \<notin> set p"

text \<open>Inserting \<open>ins\<close> at \<open>off\<close> puts \<open>line\<close> on a line of its own, indented as the line it goes before.\<close>

definition own_line :: "string \<Rightarrow> nat \<Rightarrow> string \<Rightarrow> string \<Rightarrow> bool" where
  "own_line text off ins line \<longleftrightarrow> off \<le> length text \<and> (\<exists>pre ind.
     ins = pre @ ind @ line @ newline_of text \<and> (pre = [] \<or> pre = newline_of text)
     \<and> list_all space_or_tab ind \<and> prefix ind (drop off text)
     \<and> (take off text @ pre = [] \<or> last (take off text @ pre) = nl))"

lemma last_newline [simp]: "newline_of text \<noteq> []" "last (newline_of text) = nl"
  by (simp_all add: newline_of_def)

lemma last_take: "0 < off \<Longrightarrow> off \<le> length text \<Longrightarrow> last (take off text) = text ! (off - 1)"
  by (subst last_conv_nth) auto

lemma own_lineI:
  assumes "off \<le> length text" and "list_all space_or_tab ind" and "prefix ind (drop off text)"
  shows "own_line text off ((if off > 0 \<and> text ! (off - 1) \<noteq> nl then newline_of text else []) @ ind @ line @ newline_of text) line"
  unfolding own_line_def
  using assms last_take [of off "text"]
  by (intro conjI exI [of _ "if off > 0 \<and> text ! (off - 1) \<noteq> nl then newline_of text else []"] exI [of _ ind])
     (auto simp: last_append)

lemma added_include:
  assumes "a \<in> set (addIncludeActions fs ix ctx)"
  shows "\<exists>cursor name macro p off ind. p \<in> set (include_files ix name macro)
    \<and> place_line (ac_text ctx) (include_offset ctx cursor macro) = (off, ind)
    \<and> include_action_for fs ctx off ind p = Some a"
proof -
  obtain cursor name macro where found: "ac_cursor ctx = Some cursor" "lookup_name ctx cursor = Some (name, macro)"
  proof (cases "ac_cursor ctx")
    case (Some cursor)
    then show ?thesis using that assms
      by (cases "lookup_name ctx cursor") (auto simp: addIncludeActions_def split: if_splits)
  qed (use assms in \<open>simp add: addIncludeActions_def split: if_splits\<close>)
  obtain off ind where place: "place_line (ac_text ctx) (include_offset ctx cursor macro) = (off, ind)"
    by (cases "place_line (ac_text ctx) (include_offset ctx cursor macro)")
  have "\<exists>p \<in> set (include_files ix name macro). include_action_for fs ctx off ind p = Some a"
    using assms found place by (simp add: addIncludeActions_def map_filter_set split: if_splits)
  then show ?thesis using place by blast
qed

text \<open>C34. Every include that is offered resolves, by the header search of the document, to a file the
  index names for the macro or the symbol, which is neither the document nor in its tree; its
  spelling needs no escape and is not included yet; and the edit puts the directive on a line of its
  own with the indentation of the line it goes before.\<close>

theorem offered_includes_sound:
  assumes "a \<in> set (addIncludeActions fs ix ctx)" and "offsets_ok ctx"
  shows "\<exists>name macro p s full.
      p \<in> set (include_files ix name macro)
    \<and> full = lexically_normal (absolute_path fs p)
    \<and> full \<noteq> lexically_normal (path_of_string (ac_path ctx)) \<and> full \<notin> set (ac_tree_files ctx)
    \<and> ac_readHeader ctx (generic_string s) = Some full \<and> clean_name (generic_string s)
    \<and> (\<forall>i \<in> set (ac_includes ctx). lexically_normal (path_of_string (inc_path i)) \<noteq> s)
    \<and> own_line (ac_text ctx) (ia_offset a) (ia_newText a) (include_line (generic_string s))"
proof -
  obtain cursor name macro p off ind where
    p: "p \<in> set (include_files ix name macro)"
    and place: "place_line (ac_text ctx) (include_offset ctx cursor macro) = (off, ind)"
    and a: "include_action_for fs ctx off ind p = Some a"
    using added_include [OF assms(1)] by blast
  note ok = place_line_ok [OF place include_offset_bound [OF assms(2)]]
  let ?full = "lexically_normal (absolute_path fs p)"
  obtain s where s: "spelling_of ctx (lexically_normal (path_of_string (ac_path ctx))) ?full = Some s"
    and new: "?full \<noteq> lexically_normal (path_of_string (ac_path ctx))" "?full \<notin> set (ac_tree_files ctx)"
    using a unfolding include_action_for_def Let_def by (auto split: if_splits option.splits)
  have name: "clean_name (generic_string s)" "\<forall>i \<in> set (ac_includes ctx). lexically_normal (path_of_string (inc_path i)) \<noteq> s"
    using a s unfolding include_action_for_def Let_def clean_name_def by (auto simp: list_ex_iff split: if_splits)
  have edit: "ia_offset a = off" "ia_newText a = (if off > 0 \<and> ac_text ctx ! (off - 1) \<noteq> nl then newline_of (ac_text ctx) else [])
      @ ind @ include_line (generic_string s) @ newline_of (ac_text ctx)"
    using a s unfolding include_action_for_def Let_def by (auto split: if_splits)
  have "own_line (ac_text ctx) (ia_offset a) (ia_newText a) (include_line (generic_string s))"
    unfolding edit using own_lineI ok by blast
  then show ?thesis using p new name spelling_resolves [OF s] by blast
qed

definition sample_files_system :: filesystem where
  "sample_files_system = \<lparr>weakly_canonical = Some, is_regular_file = (\<lambda>_. True), is_directory = (\<lambda>_. False),
     exists_path = (\<lambda>_. True), current_path = [''/'']\<rparr>"

definition sample_ctx :: action_ctx where
  "sample_ctx = \<lparr>ac_only = None, ac_text = ''// m'' @ [nl] @ ''`FOO'' @ [nl, nul], ac_path = ''/w/a.sv'', ac_uri = ''u'',
     ac_cursor = Some 7, ac_unknown = [5], ac_token = None, ac_syntax = None, ac_first_token = 0, ac_ancestors = [],
     ac_has_symbol = False, ac_macros = [], ac_includes = [], ac_tree_files = [[''/'', ''w'', ''a.sv'']],
     ac_readHeader = (\<lambda>s. if s = ''inc/foo.svh'' then Some [''/'', ''w'', ''inc'', ''foo.svh''] else None),
     ac_expansion = None\<rparr>"

definition sample_index :: indexer where
  "sample_index = empty_indexer\<lparr>macroToFiles := [(''FOO'', [[''/'', ''w'', ''inc'', ''foo.svh'']])]\<rparr>"

definition sample_action :: include_action where
  "sample_action = \<lparr>ia_title = ''Add '' @ include_line ''inc/foo.svh'', ia_uri = ''u'', ia_offset = 5,
     ia_newText = include_line ''inc/foo.svh'' @ [nl]\<rparr>"

theorem offered_includes_sound_witness:
  "addIncludeActions sample_files_system sample_index sample_ctx = [sample_action] \<and>
   (\<exists>s full. ac_readHeader sample_ctx (generic_string s) = Some full \<and> clean_name (generic_string s)
     \<and> own_line (ac_text sample_ctx) (ia_offset sample_action) (ia_newText sample_action) (include_line (generic_string s)))"
proof -
  have a: "addIncludeActions sample_files_system sample_index sample_ctx = [sample_action]" by code_simp
  have "offsets_ok sample_ctx" by code_simp
  with offered_includes_sound [of sample_action sample_files_system sample_index sample_ctx] a
  show ?thesis by auto
qed

section \<open>Expanding all macros\<close>

text \<open>Usages stand in the text, each in a range of its own, and two of them are disjoint or nested.\<close>

definition nested :: "usage \<Rightarrow> usage \<Rightarrow> bool" where
  "nested u v \<longleftrightarrow> us_start v \<le> us_start u \<and> us_end u \<le> us_end v"

definition apart :: "usage \<Rightarrow> usage \<Rightarrow> bool" where
  "apart u v \<longleftrightarrow> us_end u \<le> us_start v \<or> us_end v \<le> us_start u"

definition usages_ok :: "usage set \<Rightarrow> nat \<Rightarrow> bool" where
  "usages_ok U n \<longleftrightarrow> (\<forall>u \<in> U. us_start u < us_end u \<and> us_end u \<le> n)
     \<and> (\<forall>u \<in> U. \<forall>v \<in> U. u \<noteq> v \<longrightarrow> apart u v \<or> nested u v \<noteq> nested v u)"

definition outermost :: "usage set \<Rightarrow> usage \<Rightarrow> bool" where
  "outermost U u \<longleftrightarrow> u \<in> U \<and> (\<forall>v \<in> U. nested u v \<longrightarrow> v = u)"

definition covered :: "usage set \<Rightarrow> nat \<Rightarrow> bool" where
  "covered U p \<longleftrightarrow> (\<exists>u \<in> U. us_start u \<le> p \<and> p < us_end u)"

text \<open>What becomes of the byte at \<open>p\<close>: where an outermost usage starts its expansion, inside a usage
  nothing, elsewhere itself.\<close>

definition expanded_at :: "usage list \<Rightarrow> string \<Rightarrow> nat \<Rightarrow> string" where
  "expanded_at us text p =
     concat (map us_text (filter (\<lambda>u. us_start u = p \<and> outermost (set us) u) us))
     @ (if covered (set us) p then [] else [text ! p])"

definition before_us :: "usage \<Rightarrow> usage \<Rightarrow> bool" where
  "before_us u v \<longleftrightarrow> us_start u < us_start v \<or> us_start u = us_start v \<and> us_end v \<le> us_end u"

lemma sort_usages_sorted: "sorted_wrt before_us (sort_usages us)"
proof -
  have "sorted (map (\<lambda>u. (us_start u, - int (us_end u))) (sort_usages us))"
    by (simp add: sort_usages_def)
  then show ?thesis
    unfolding sorted_map by (rule sorted_wrt_mono_rel [rotated]) (auto simp: before_us_def less_eq_prod_def)
qed

text \<open>A usage that starts inside the first is nested in it.\<close>

lemma inside_first:
  assumes "usages_ok (set (u # us)) n" and "sorted_wrt before_us (u # us)" and "distinct (u # us)"
    and "v \<in> set us" and "us_start v < us_end u"
  shows "nested v u"
proof -
  have ok: "us_start v < us_end v" "apart u v \<or> nested u v \<noteq> nested v u"
    using assms(1,3,4) by (auto simp: usages_ok_def)
  have "before_us u v" using assms(2,4) by simp
  then show ?thesis using ok assms(5) by (auto simp: before_us_def apart_def nested_def)
qed

lemma expand_piece: "o' \<le> s \<Longrightarrow> s \<le> length src \<Longrightarrow> concat (map (\<lambda>p. [src ! p]) [o'..<s]) = substr src o' (s - o')"
  by (rule nth_equalityI) (auto simp: substr_def concat_map_singleton)

lemma expanded_first:
  assumes ok: "usages_ok (set (u # us)) n" and sorted: "sorted_wrt before_us (u # us)" and dist: "distinct (u # us)"
  shows "p < us_start u \<Longrightarrow> expanded_at (u # us) src p = [src ! p]"
    and "expanded_at (u # us) src (us_start u) = us_text u"
    and "us_start u < p \<Longrightarrow> p < us_end u \<Longrightarrow> expanded_at (u # us) src p = []"
    and "us_end u \<le> p \<Longrightarrow> expanded_at (u # us) src p = expanded_at (filter (\<lambda>v. us_end u \<le> us_start v) us) src p"
proof -
  have later: "us_start u \<le> us_start v" if "v \<in> set us" for v
    using sorted that by (auto simp: before_us_def)
  have len: "us_start u < us_end u" using ok by (simp add: usages_ok_def)
  have inside: "nested v u \<and> v \<noteq> u" if "v \<in> set us" "us_start v < us_end u" for v
    using inside_first [OF ok sorted dist that] that(1) dist by auto
  show "expanded_at (u # us) src p = [src ! p]" if "p < us_start u"
    using that later by (fastforce simp: expanded_at_def covered_def filter_empty_conv)
  have "\<not> outermost (set (u # us)) v" if "v \<in> set us" "us_start v < us_end u" for v
    using inside [OF that] by (auto simp: outermost_def)
  moreover have "outermost (set (u # us)) u"
    using later ok dist inside len by (fastforce simp: outermost_def usages_ok_def nested_def apart_def)
  moreover have "covered (set (u # us)) (us_start u)" using len by (auto simp: covered_def)
  ultimately show "expanded_at (u # us) src (us_start u) = us_text u"
    using len by (auto simp: expanded_at_def filter_empty_conv)
  show "expanded_at (u # us) src p = []" if "us_start u < p" "p < us_end u"
    using that inside by (auto simp: expanded_at_def covered_def filter_empty_conv outermost_def)
  show "expanded_at (u # us) src p = expanded_at (filter (\<lambda>v. us_end u \<le> us_start v) us) src p" if "us_end u \<le> p"
  proof -
    let ?L = "filter (\<lambda>v. us_end u \<le> us_start v) us"
    have cov: "covered (set (u # us)) p = covered (set ?L) p"
      using that inside by (fastforce simp: covered_def nested_def)
    have "outermost (set (u # us)) v = outermost (set ?L) v" if v: "v \<in> set us" "us_end u \<le> us_start v" for v
    proof -
      have "us_start v < us_end v" using ok v(1) by (simp add: usages_ok_def)
      then have "w \<in> set ?L" if "w \<in> set (u # us)" "nested v w" for w
        using that inside [of w] v(2) by (fastforce simp: nested_def)
      then show ?thesis using v by (auto simp: outermost_def)
    qed
    then have "filter (\<lambda>v. us_start v = p \<and> outermost (set (u # us)) v) (u # us)
        = filter (\<lambda>v. us_start v = p \<and> outermost (set ?L) v) ?L"
      using that len by (auto intro!: filter_cong)
    then show ?thesis using cov by (simp only: expanded_at_def)
  qed
qed

lemma usages_ok_subset: "usages_ok U n \<Longrightarrow> V \<subseteq> U \<Longrightarrow> usages_ok V n"
  unfolding usages_ok_def by blast

lemma expanded_nothing: "expanded_at [] src p = [src ! p]"
  by (simp add: expanded_at_def covered_def)

lemma expand_rest: "m \<le> length src \<Longrightarrow> drop m src = concat (map (\<lambda>p. [src ! p]) [m..<length src])"
  using expand_piece [of m "length src" src] by (simp add: substr_def)

lemma expand_loop_pieces:
  assumes "usages_ok (set us) (length src)" and "sorted_wrt before_us us" and "distinct us" and "m \<le> length src"
  shows "expand_loop src us m
    = concat (map (expanded_at (filter (\<lambda>u. m \<le> us_start u) us) src) [m..<length src])"
  using assms
proof (induction us arbitrary: m)
  case Nil
  then show ?case by (simp add: expand_rest expanded_nothing)
next
  case (Cons u us)
  note first = expanded_first [OF Cons.prems(1-3)]
  have us: "usages_ok (set us) (length src)" "sorted_wrt before_us us" "distinct us"
    using Cons.prems usages_ok_subset [OF Cons.prems(1)] by auto
  have u: "us_start u < us_end u" "us_end u \<le> length src" using Cons.prems(1) by (auto simp: usages_ok_def)
  show ?case
  proof (cases "us_start u < m")
    case True
    then show ?thesis using Cons.IH [OF us Cons.prems(4)] by simp
  next
    case False
    let ?f = "expanded_at (u # us) src"
    have all: "filter (\<lambda>v. m \<le> us_start v) (u # us) = u # us"
      using False Cons.prems(2) by (auto simp: filter_id_conv before_us_def)
    have split: "[m..<length src]
        = [m..<us_start u] @ [us_start u] @ [Suc (us_start u)..<us_end u] @ [us_end u..<length src]"
      using False u upt_add_eq_append [of m "us_start u" "length src - us_start u"]
        upt_add_eq_append [of "Suc (us_start u)" "us_end u" "length src - us_end u"]
      by (simp add: upt_conv_Cons)
    have "map ?f [m..<us_start u] = map (\<lambda>p. [src ! p]) [m..<us_start u]"
      using first(1) by auto
    then have before: "concat (map ?f [m..<us_start u]) = substr src m (us_start u - m)"
      using False u expand_piece [of m "us_start u" src] by (simp only: not_less)
    have within: "concat (map ?f [Suc (us_start u)..<us_end u]) = []" using first(3) by auto
    have beyond: "map ?f [us_end u..<length src]
        = map (expanded_at (filter (\<lambda>v. us_end u \<le> us_start v) us) src) [us_end u..<length src]"
      using first(4) by auto
    show ?thesis
      by (simp only: all split map_append concat_append before within beyond)
         (simp add: False first(2) Cons.IH [OF us u(2)])
  qed
qed

lemma uniform_perm:
  assumes "mset xs = mset ys" and "\<forall>x \<in> set xs. \<forall>y \<in> set xs. x = y"
  shows "xs = ys"
proof (cases xs)
  case (Cons x zs)
  have "set ys = set xs" "length ys = length xs" using assms(1) mset_eq_setD mset_eq_length by metis+
  then have "ys = replicate (length xs) x" "xs = replicate (length xs) x"
    using assms(2) Cons by (auto intro!: replicate_eqI simp del: replicate.simps)
  then show ?thesis by simp
qed (use assms(1) in simp)

lemma expanded_at_perm:
  assumes "mset us = mset vs" and "usages_ok (set us) n"
  shows "expanded_at us src p = expanded_at vs src p"
proof -
  have eq: "set us = set vs" using assms(1) mset_eq_setD by blast
  let ?P = "\<lambda>u. us_start u = p \<and> outermost (set us) u"
  have "mset (filter ?P us) = mset (filter ?P vs)" using assms(1) by simp
  moreover have "u = v" if "u \<in> set (filter ?P us)" "v \<in> set (filter ?P us)" for u v
  proof (rule ccontr)
    assume "u \<noteq> v"
    then have "apart u v \<or> nested u v \<noteq> nested v u" "us_start u < us_end u" "us_start v < us_end v"
      using that assms(2) by (auto simp: usages_ok_def)
    then show False using that \<open>u \<noteq> v\<close> by (auto simp: outermost_def apart_def)
  qed
  ultimately have "filter ?P us = filter ?P vs" by (intro uniform_perm) blast+
  then show ?thesis by (simp add: expanded_at_def eq)
qed

text \<open>C38. For usages that stand in the text and are pairwise disjoint or nested, in whatever order the
  analysis has them, the file of expanded macros is the text in which every byte outside all usages
  is kept, the expansion of an outermost usage stands where that usage starts, and nothing else is
  left of the usages.\<close>

theorem expand_macros_outermost:
  assumes "usages_ok (set us) (length src)" and "distinct us"
  shows "expandMacros (src @ [nul]) us = concat (map (expanded_at us src) [0..<length src])"
proof -
  let ?s = "sort_usages us"
  have s: "mset ?s = mset us" "set ?s = set us" "distinct ?s"
    using assms(2) by (simp_all add: sort_usages_def)
  have "expand_loop src ?s 0 = concat (map (expanded_at ?s src) [0..<length src])"
    using expand_loop_pieces [of ?s src 0] assms(1) s sort_usages_sorted by simp
  moreover have "expanded_at ?s src = expanded_at us src"
    using expanded_at_perm [of ?s us] s assms(1) by (intro ext) simp
  ultimately show ?thesis by (simp add: expandMacros_def)
qed

definition sample_usages :: "usage list" where
  "sample_usages = [\<lparr>us_start = 5, us_end = 7, us_text = ''x''\<rparr>, \<lparr>us_start = 9, us_end = 10, us_text = ''y''\<rparr>,
     \<lparr>us_start = 2, us_end = 8, us_text = ''f(x)''\<rparr>]"

theorem expand_macros_outermost_witness:
  "expandMacros (''a=`F(`X)+`'' @ [nul]) sample_usages = ''a=f(x)+y''
    \<and> concat (map (expanded_at sample_usages ''a=`F(`X)+`'') [0..<10]) = ''a=f(x)+y''"
proof -
  have "usages_ok (set sample_usages) (length ''a=`F(`X)+`'')" "distinct sample_usages" by code_simp+
  from expand_macros_outermost [OF this] show ?thesis by code_simp
qed

section \<open>Reindenting\<close>

lemma blank_prefix_Some: "blank_prefix line = Some n \<longleftrightarrow>
    (\<exists>blanks c rest. line = blanks @ c # rest \<and> length blanks = n \<and> list_all space_or_tab blanks \<and> \<not> space_or_tab c)"
proof
  assume n: "blank_prefix line = Some n"
  then have "dropWhile space_or_tab line \<noteq> []"
    by (auto simp: blank_prefix_def list_all_iff dropWhile_eq_Nil_conv split: if_splits)
  then obtain c rest where c: "dropWhile space_or_tab line = c # rest" by (cases "dropWhile space_or_tab line") auto
  then have "\<not> space_or_tab c" using hd_dropWhile [of space_or_tab line] by auto
  moreover have "line = takeWhile space_or_tab line @ c # rest" using c takeWhile_dropWhile_id [of space_or_tab line] by simp
  moreover have "list_all space_or_tab (takeWhile space_or_tab line)"
    unfolding list_all_iff using set_takeWhileD [of _ space_or_tab line] by blast
  ultimately show "\<exists>blanks c rest. line = blanks @ c # rest \<and> length blanks = n \<and> list_all space_or_tab blanks \<and> \<not> space_or_tab c"
  proof (intro exI conjI)
    show "length (takeWhile space_or_tab line) = n" using n by (simp add: blank_prefix_def split: if_splits)
  qed
next
  assume "\<exists>blanks c rest. line = blanks @ c # rest \<and> length blanks = n \<and> list_all space_or_tab blanks \<and> \<not> space_or_tab c"
  then obtain blanks c rest where l: "line = blanks @ c # rest" "length blanks = n"
    "\<forall>b \<in> set blanks. space_or_tab b" "\<not> space_or_tab c" by (auto simp: list_all_iff)
  have "takeWhile space_or_tab line = blanks" unfolding l(1) by (subst takeWhile_append2) (use l(3,4) in auto)
  moreover have "\<not> list_all space_or_tab line" using l(1,4) by simp
  ultimately show "blank_prefix line = Some n" using l(2) by (simp add: blank_prefix_def)
qed

text \<open>A line of the expansion that is not blank keeps its content, at the column of the usage plus what
  it was indented beyond the least indented line.\<close>

lemma reindent_line_content:
  assumes "blank_prefix line = Some n"
  shows "blank_prefix (reindent_line m column line) = Some (column + (n - m))"
    and "drop (column + (n - m)) (reindent_line m column line) = drop n line"
proof -
  obtain blanks c rest where l: "line = blanks @ c # rest" "length blanks = n" "\<not> space_or_tab c"
    using assms blank_prefix_Some by blast
  have eq: "reindent_line m column line = replicate (column + (n - m)) (CHR '' '') @ c # rest"
    unfolding reindent_line_def assms using l by (simp add: replicate_add)
  show "blank_prefix (reindent_line m column line) = Some (column + (n - m))"
    unfolding eq blank_prefix_Some using l(3) by (intro exI [of _ "replicate (column + (n - m)) (CHR '' '')"]) (auto simp: list_all_iff)
  show "drop (column + (n - m)) (reindent_line m column line) = drop n line" using eq l by simp
qed

end
