(* ===== verification/Wcp.thy ===== *)
theory Wcp
  imports ServerState
begin

text \<open>
  The client of the waveform viewer, from include/ast/WcpClient.h and src/ast/WcpClient.cpp, and the
  server's operations on it (src/SlangServer.cpp): frames ended by a null byte, the receive buffer,
  the greeting, the loop of the client thread, and opening a waveform.

  What the socket answers is a list of events: each call of \<open>select\<close> and \<open>recv\<close> takes one, and each
  \<open>send\<close> takes a result. The JSON library (reading a greeting and an event, writing a command) is
  the record \<open>wcp_json\<close>. The sockets are made before the first event; a failure there stops the
  client like any other.
\<close>

section \<open>The client\<close>

datatype recv_event =
    SelectFailed
  | TimedOut
  | RecvFailed
  | Disconnected
  | Received string

record wcp_client =
  wc_running :: bool
  wc_recvBuffer :: string
  wc_wire :: string
  wc_stops :: nat

text \<open>\<open>wc_wire\<close> holds the bytes the socket has taken, \<open>wc_stops\<close> counts how often the sockets are
  closed.\<close>

definition new_client :: wcp_client where
  "new_client = \<lparr>wc_running = True, wc_recvBuffer = [], wc_wire = [], wc_stops = 0\<rparr>"

definition wcp_stop :: "wcp_client \<Rightarrow> wcp_client" where
  "wcp_stop c = c\<lparr>wc_running := False, wc_stops := wc_stops c + 1\<rparr>"

section \<open>Sending\<close>

text \<open>A result of \<open>send\<close> is the number of bytes taken, or an error. Without a further result the
  call blocks, and nothing more is sent.\<close>

fun sendBuffer :: "nat option list \<Rightarrow> string \<Rightarrow> wcp_client \<Rightarrow> wcp_client \<times> nat option list" where
  "sendBuffer rs [] c = (c, rs)"
| "sendBuffer [] bytes c = (c, [])"
| "sendBuffer (None # rs) bytes c = (c, rs)"
| "sendBuffer (Some n # rs) bytes c = sendBuffer rs (drop n bytes) (c\<lparr>wc_wire := wc_wire c @ take n bytes\<rparr>)"

definition wcp_sendMessage :: "nat option list \<Rightarrow> string \<Rightarrow> wcp_client \<Rightarrow> wcp_client \<times> nat option list" where
  "wcp_sendMessage rs json c = (case sendBuffer rs json c of (c1, rs1) \<Rightarrow> sendBuffer rs1 [nul] c1)"

fun wcp_send_all :: "nat option list \<Rightarrow> string list \<Rightarrow> wcp_client \<Rightarrow> wcp_client \<times> nat option list" where
  "wcp_send_all rs [] c = (c, rs)"
| "wcp_send_all rs (m # ms) c = (case wcp_sendMessage rs m c of (c1, rs1) \<Rightarrow> wcp_send_all rs1 ms c1)"

section \<open>Receiving\<close>

definition getMessage :: "recv_event \<Rightarrow> wcp_client \<Rightarrow> string option \<times> wcp_client" where
  "getMessage ev c = (case ev of
     SelectFailed \<Rightarrow> (None, wcp_stop c)
   | TimedOut \<Rightarrow> (None, c)
   | RecvFailed \<Rightarrow> (None, wcp_stop c)
   | Disconnected \<Rightarrow> (None, wcp_stop c)
   | Received bytes \<Rightarrow> (let b = wc_recvBuffer c @ bytes in case find_char nul b of
       None \<Rightarrow> (None, c\<lparr>wc_recvBuffer := b\<rparr>)
     | Some pos \<Rightarrow> (Some (take pos b), c\<lparr>wc_recvBuffer := drop (pos + 1) b\<rparr>)))"

text \<open>The messages a sequence of calls gives.\<close>

fun receive_all :: "recv_event list \<Rightarrow> wcp_client \<Rightarrow> string list \<times> wcp_client" where
  "receive_all [] c = ([], c)"
| "receive_all (ev # evs) c = (case getMessage ev c of (m, c1) \<Rightarrow>
     (case receive_all evs c1 of (ms, c2) \<Rightarrow> ((case m of None \<Rightarrow> ms | Some x \<Rightarrow> x # ms), c2)))"

section \<open>The protocol\<close>

record greeting =
  gr_type :: string
  gr_version :: string
  gr_commands :: "string list"

datatype wcp_event =
    WaveformsLoaded string
  | GotoDeclaration string
  | AddDrivers string
  | AddLoads string

text \<open>A message from the viewer: not decodable, a response, an event that is not decodable, or an event.\<close>

datatype s2c_message =
    S2CError
  | S2CResponse
  | S2CEventError
  | S2CEvent wcp_event

datatype wcp_command =
    CmdGreeting greeting
  | CmdAddVariables "string list"
  | CmdAddItems "string list" bool
  | CmdLoad string

record wcp_json =
  wj_greeting :: "string \<Rightarrow> greeting option"
  wj_message :: "string \<Rightarrow> s2c_message"
  wj_write :: "wcp_command \<Rightarrow> string"

definition client_greeting :: greeting where
  "client_greeting = \<lparr>gr_type = ''greeting'', gr_version = ''0'',
     gr_commands = [''waveforms_loaded'', ''goto_declaration'', ''add_drivers'', ''add_loads'']\<rparr>"

definition required_commands :: "string list" where
  "required_commands = [''add_items'', ''get_item_list'', ''get_item_info'', ''focus_item'', ''load'']"

definition stop_if :: "bool \<Rightarrow> wcp_client \<Rightarrow> wcp_client" where
  "stop_if b c = (if b then wcp_stop c else c)"

definition check_greeting :: "greeting option \<Rightarrow> wcp_client \<Rightarrow> wcp_client" where
  "check_greeting g c = (case g of
     None \<Rightarrow> wcp_stop c
   | Some gr \<Rightarrow> fold (\<lambda>cmd. stop_if (cmd \<notin> set (gr_commands gr))) required_commands
       (stop_if (gr_version gr \<noteq> ''0'') (stop_if (gr_type gr \<noteq> ''greeting'') c)))"

text \<open>The wait for the viewer's greeting. Each event comes with whether more than two seconds have
  passed after it; the wait has no result when the events end.\<close>

fun await_greeting :: "(recv_event \<times> bool) list \<Rightarrow> wcp_client \<Rightarrow> (string option \<times> wcp_client \<times> (recv_event \<times> bool) list) option" where
  "await_greeting [] c = None"
| "await_greeting ((ev, late) # evs) c = (case getMessage ev c of
     (Some m, c1) \<Rightarrow> Some (Some m, c1, evs)
   | (None, c1) \<Rightarrow> if late then Some (None, wcp_stop c1, evs) else await_greeting evs c1)"

definition wcp_greet ::
  "wcp_json \<Rightarrow> nat option list \<Rightarrow> (recv_event \<times> bool) list \<Rightarrow> wcp_client \<Rightarrow> (wcp_client \<times> (recv_event \<times> bool) list) option" where
  "wcp_greet J rs evs c = (case wcp_sendMessage rs (wj_write J (CmdGreeting client_greeting)) c of (c1, rs1) \<Rightarrow>
     (case await_greeting evs c1 of
        None \<Rightarrow> None
      | Some (None, c2, evs2) \<Rightarrow> Some (c2, evs2)
      | Some (Some m, c2, evs2) \<Rightarrow> Some (check_greeting (wj_greeting J m) c2, evs2)))"

section \<open>The loop of the client\<close>

text \<open>What the server does for an event, which may throw: the exception is logged and the loop goes
  on. \<open>wh_drivers\<close> and \<open>wh_loads\<close> give the paths to answer with.\<close>

record 'st wcp_handlers =
  wh_loaded :: "string \<Rightarrow> 'st \<Rightarrow> 'st"
  wh_goto :: "string \<Rightarrow> 'st \<Rightarrow> 'st"
  wh_drivers :: "string \<Rightarrow> 'st \<Rightarrow> string list result"
  wh_loads :: "string \<Rightarrow> 'st \<Rightarrow> string list result"

definition reply_variables ::
  "wcp_json \<Rightarrow> nat option list \<Rightarrow> string list result \<Rightarrow> wcp_client \<Rightarrow> wcp_client \<times> nat option list" where
  "reply_variables J rs paths c = (case paths of
     Inl e \<Rightarrow> (c, rs) | Inr ps \<Rightarrow> wcp_sendMessage rs (wj_write J (CmdAddVariables ps)) c)"

definition handle_message ::
  "wcp_json \<Rightarrow> 'st wcp_handlers \<Rightarrow> string \<Rightarrow> nat option list \<Rightarrow> wcp_client \<times> 'st \<Rightarrow> (wcp_client \<times> 'st) \<times> nat option list" where
  "handle_message J H m rs s = (case s of (c, st) \<Rightarrow> (case wj_message J m of
     S2CEvent (WaveformsLoaded source) \<Rightarrow> ((c, wh_loaded H source st), rs)
   | S2CEvent (GotoDeclaration path) \<Rightarrow> ((c, wh_goto H path st), rs)
   | S2CEvent (AddDrivers path) \<Rightarrow> (case reply_variables J rs (wh_drivers H path st) c of (c1, rs1) \<Rightarrow> ((c1, st), rs1))
   | S2CEvent (AddLoads path) \<Rightarrow> (case reply_variables J rs (wh_loads H path st) c of (c1, rs1) \<Rightarrow> ((c1, st), rs1))
   | _ \<Rightarrow> ((c, st), rs)))"

text \<open>The loop has no result as long as it runs.\<close>

fun runClient ::
  "wcp_json \<Rightarrow> 'st wcp_handlers \<Rightarrow> recv_event list \<Rightarrow> nat option list \<Rightarrow> wcp_client \<times> 'st \<Rightarrow> (wcp_client \<times> 'st) option" where
  "runClient J H [] rs (c, st) = (if wc_running c then None else Some (wcp_stop c, st))"
| "runClient J H (ev # evs) rs (c, st) =
    (if \<not> wc_running c then Some (wcp_stop c, st)
     else (case getMessage ev c of
        (None, c1) \<Rightarrow> runClient J H evs rs (c1, st)
      | (Some m, c1) \<Rightarrow> (case handle_message J H m rs (c1, st) of (s, rs1) \<Rightarrow> runClient J H evs rs1 s)))"

definition addItem :: "wcp_json \<Rightarrow> nat option list \<Rightarrow> string \<Rightarrow> bool \<Rightarrow> wcp_client \<Rightarrow> wcp_client \<times> nat option list" where
  "addItem J rs path recursive c = wcp_sendMessage rs (wj_write J (CmdAddItems [path] recursive)) c"

definition loadWaveform :: "wcp_json \<Rightarrow> nat option list \<Rightarrow> string \<Rightarrow> wcp_client \<Rightarrow> wcp_client \<times> nat option list" where
  "loadWaveform J rs source c = wcp_sendMessage rs (wj_write J (CmdLoad source)) c"

section \<open>The server's waveforms\<close>

text \<open>The client the server holds. Its thread is started by the constructor and never joined, so
  destroying the client ends the process (\<open>std::terminate\<close>).\<close>

datatype waveform_result =
    WaveformError
  | WaveformSent
  | ProcessTerminated

text \<open>\<open>made\<close> is the client the constructor leaves, after the viewer's greeting.\<close>

definition openWaveform ::
  "wcp_json \<Rightarrow> nat option list \<Rightarrow> wcp_client \<Rightarrow> string \<Rightarrow> wcp_client option \<Rightarrow> waveform_result \<times> wcp_client option" where
  "openWaveform J rs made path held = (case held of
     Some c \<Rightarrow> if wc_running c then (WaveformSent, Some (fst (loadWaveform J rs path c)))
       else (ProcessTerminated, None)
   | None \<Rightarrow> (WaveformSent, Some (fst (loadWaveform J rs path made))))"

definition addToWaveform ::
  "wcp_json \<Rightarrow> nat option list \<Rightarrow> string \<Rightarrow> bool \<Rightarrow> wcp_client option \<Rightarrow> waveform_result \<times> wcp_client option" where
  "addToWaveform J rs path recursive held = (case held of
     Some c \<Rightarrow> if wc_running c then (WaveformSent, Some (fst (addItem J rs path recursive c))) else (WaveformError, held)
   | None \<Rightarrow> (WaveformError, held))"

definition stem :: "path \<Rightarrow> string" where
  "stem p = take (length (filename p) - length (extension p)) (filename p)"

text \<open>\<open>vformat\<close> is the formatting library.\<close>

definition onWaveformLoaded ::
  "'s store_lib \<Rightarrow> 's world \<Rightarrow> (string \<Rightarrow> string \<Rightarrow> string result) \<Rightarrow> string \<Rightarrow> 's slang_server \<Rightarrow> exn option \<times> 's slang_server" where
  "onWaveformLoaded S W vformat waveform st = (case cf_buildPattern (sv_config st) of
     None \<Rightarrow> (None, st)
   | Some pat \<Rightarrow> (case vformat pat (stem (path_of_string waveform)) of
       Inl e \<Rightarrow> (Some e, st)
     | Inr buildFile \<Rightarrow> if exists_path (world_fs W) (path_of_string buildFile)
         then setBuildFile S W buildFile st else (None, st)))"

end
