(* ===== verification/WcpRuns.thy ===== *)
theory WcpRuns
  imports Wcp
begin

text \<open>
  Correctness of the viewer's protocol: messages arrive whole and in order however the stream is
  cut, a session goes on only after a proper greeting; and what goes wrong when a session ends or
  two messages arrive at once.
\<close>

section \<open>Frames\<close>

definition frames :: "string list \<Rightarrow> string" where
  "frames ms = concat (map (\<lambda>m. m @ [nul]) ms)"

lemma frames_simps [simp]: "frames [] = []" "frames (m # ms) = m @ nul # frames ms"
  by (simp_all add: frames_def)

fun chunk :: "recv_event \<Rightarrow> string" where
  "chunk (Received bytes) = bytes"
| "chunk _ = []"

definition received :: "recv_event list \<Rightarrow> string" where
  "received evs = concat (map chunk evs)"

lemma received_simps [simp]: "received [] = []" "received (ev # evs) = chunk ev @ received evs"
  by (simp_all add: received_def)

lemma getMessage_cases:
  assumes "getMessage ev c = (m, c')"
  shows "m = None \<Longrightarrow> wc_recvBuffer c' = wc_recvBuffer c @ chunk ev"
    and "m = Some x \<Longrightarrow> nul \<notin> set x \<and> wc_recvBuffer c @ chunk ev = x @ nul # wc_recvBuffer c'"
proof -
  have got: "nul \<notin> set x \<and> wc_recvBuffer c @ bytes = x @ nul # wc_recvBuffer c'"
    if ev: "ev = Received bytes" "m = Some x" for bytes
  proof -
    let ?b = "wc_recvBuffer c @ bytes"
    obtain pos where pos: "find_char nul ?b = Some pos" "x = take pos ?b" "wc_recvBuffer c' = drop (pos + 1) ?b"
      using assms ev by (auto simp: getMessage_def Let_def split: option.splits)
    then show ?thesis using find_char_Some [of nul ?b pos] id_take_nth_drop [of pos ?b] by simp
  qed
  show "m = None \<Longrightarrow> wc_recvBuffer c' = wc_recvBuffer c @ chunk ev"
    using assms by (auto simp: getMessage_def wcp_stop_def Let_def split: recv_event.splits option.splits)
  show "m = Some x \<Longrightarrow> nul \<notin> set x \<and> wc_recvBuffer c @ chunk ev = x @ nul # wc_recvBuffer c'"
    using assms got by (cases ev) (auto simp: getMessage_def)
qed

text \<open>What has been received is the frames of the messages given so far and the buffer.\<close>

lemma receive_all_frames:
  "receive_all evs c = (ms, c') \<Longrightarrow>
    wc_recvBuffer c @ received evs = frames ms @ wc_recvBuffer c' \<and> (\<forall>m \<in> set ms. nul \<notin> set m)"
proof (induction evs arbitrary: c ms)
  case (Cons ev evs)
  obtain m c1 where m: "getMessage ev c = (m, c1)" by (cases "getMessage ev c")
  obtain ns where rec: "receive_all evs c1 = (ns, c')" "ms = (case m of None \<Rightarrow> ns | Some x \<Rightarrow> x # ns)"
    using Cons.prems m by (auto split: prod.splits)
  note IH = Cons.IH [OF rec(1)]
  show ?case
  proof (cases m)
    case None
    then show ?thesis using getMessage_cases(1) [OF m] IH rec(2) by simp
  next
    case (Some x)
    have "wc_recvBuffer c @ received (ev # evs) = x @ nul # (wc_recvBuffer c1 @ received evs)"
      using getMessage_cases(2) [OF m Some] by (metis append.assoc append_Cons received_simps(2))
    then show ?thesis using getMessage_cases(2) [OF m Some] IH rec(2) Some by simp
  qed
qed simp

lemma getMessage_drains:
  assumes "getMessage ev c = (m, c')" and "nul \<notin> set (wc_recvBuffer c)" and "count_list (chunk ev) nul \<le> 1"
  shows "nul \<notin> set (wc_recvBuffer c')"
proof (cases m)
  case None
  then show ?thesis using assms find_char_None [of nul "wc_recvBuffer c @ chunk ev"]
    by (cases ev) (auto simp: getMessage_def wcp_stop_def Let_def split: option.splits)
next
  case (Some x)
  have "wc_recvBuffer c @ chunk ev = x @ nul # wc_recvBuffer c'" using getMessage_cases(2) [OF assms(1) Some] by simp
  then have "count_list (wc_recvBuffer c @ chunk ev) nul = count_list (x @ nul # wc_recvBuffer c') nul" by simp
  then show ?thesis using assms(2,3) by (simp add: count_list_0_iff)
qed

lemma receive_all_drains:
  "receive_all evs c = (ms, c') \<Longrightarrow> nul \<notin> set (wc_recvBuffer c) \<Longrightarrow> \<forall>ev \<in> set evs. count_list (chunk ev) nul \<le> 1
    \<Longrightarrow> nul \<notin> set (wc_recvBuffer c')"
proof (induction evs arbitrary: c ms)
  case (Cons ev evs)
  obtain m c1 where m: "getMessage ev c = (m, c1)" by (cases "getMessage ev c")
  obtain ns where "receive_all evs c1 = (ns, c')" using Cons.prems(1) m by (auto split: prod.splits)
  then show ?case using Cons.IH getMessage_drains [OF m] Cons.prems(2,3) by simp
qed simp

section \<open>Sending\<close>

lemma sendBuffer_wire:
  "sendBuffer rs bytes c = (c', rs') \<Longrightarrow> None \<notin> set rs \<Longrightarrow>
    None \<notin> set rs' \<and> (\<exists>k. wc_wire c' = wc_wire c @ take k bytes \<and> (length bytes \<le> k \<or> rs' = []))"
proof (induction rs bytes c rule: sendBuffer.induct)
  case (4 k0 rs b bs c)
  then obtain k where "None \<notin> set rs'" "wc_wire c' = wc_wire c @ take k0 (b # bs) @ take k (drop k0 (b # bs))"
    "length (drop k0 (b # bs)) \<le> k \<or> rs' = []" by auto
  then show ?case by (intro conjI exI [of _ "k0 + k"]) (auto simp: take_add)
qed auto

lemma sendMessage_wire:
  assumes "wcp_sendMessage rs m c = (c', rs')" and "None \<notin> set rs"
  shows "None \<notin> set rs' \<and> (\<exists>k. wc_wire c' = wc_wire c @ take k (m @ [nul]) \<and> (length m < k \<or> rs' = []))"
proof -
  obtain c1 rs1 where s: "sendBuffer rs m c = (c1, rs1)" "sendBuffer rs1 [nul] c1 = (c', rs')"
    using assms(1) by (auto simp: wcp_sendMessage_def split: prod.splits)
  obtain k where k: "None \<notin> set rs1" "wc_wire c1 = wc_wire c @ take k m" "length m \<le> k \<or> rs1 = []"
    using sendBuffer_wire [OF s(1) assms(2)] by auto
  obtain j where j: "None \<notin> set rs'" "wc_wire c' = wc_wire c1 @ take j [nul]" "1 \<le> j \<or> rs' = []"
    using sendBuffer_wire [OF s(2) k(1)] by auto
  show ?thesis
  proof (cases "length m \<le> k")
    case True
    then show ?thesis using k(2) j by (intro conjI exI [of _ "length m + j"]) auto
  next
    case False
    then have "rs1 = []" using k(3) by simp
    then show ?thesis using s(2) k(2) False by (intro conjI exI [of _ k]) auto
  qed
qed

lemma send_blocked: "wcp_send_all [] ms c = (c, [])"
proof (induction ms)
  case (Cons m ms)
  have "wcp_sendMessage [] m c = (c, [])" by (cases m) (simp_all add: wcp_sendMessage_def)
  then show ?case using Cons by simp
qed simp

lemma send_all_wire:
  "wcp_send_all rs ms c = (c', rs') \<Longrightarrow> None \<notin> set rs \<Longrightarrow> \<exists>k. wc_wire c' = wc_wire c @ take k (frames ms)"
proof (induction ms arbitrary: rs c)
  case (Cons m ms)
  obtain c1 rs1 where s: "wcp_sendMessage rs m c = (c1, rs1)" "wcp_send_all rs1 ms c1 = (c', rs')"
    using Cons.prems(1) by (auto split: prod.splits)
  obtain k where k: "None \<notin> set rs1" "wc_wire c1 = wc_wire c @ take k (m @ [nul])" "length m < k \<or> rs1 = []"
    using sendMessage_wire [OF s(1) Cons.prems(2)] by auto
  show ?case
  proof (cases "length m < k")
    case True
    obtain j where "wc_wire c' = wc_wire c1 @ take j (frames ms)" using Cons.IH [OF s(2) k(1)] by auto
    then show ?thesis using True k(2) by (intro exI [of _ "Suc (length m) + j"]) simp
  next
    case False
    then have "c' = c1" using k(3) s(2) send_blocked by simp
    then show ?thesis using False k(2) by (intro exI [of _ k]) simp
  qed
qed simp

lemma split_first: "x \<notin> set xs \<Longrightarrow> x \<notin> set ys \<Longrightarrow> xs @ x # zs = ys @ x # ws \<Longrightarrow> xs = ys \<and> zs = ws"
proof (induction xs arbitrary: ys)
  case Nil
  then show ?case by (cases ys) auto
next
  case (Cons a xs)
  then show ?case by (cases ys) auto
qed

lemma frames_prefix:
  assumes "prefix (frames ms @ b) (frames js)" and "\<forall>m \<in> set ms. nul \<notin> set m" and "\<forall>j \<in> set js. nul \<notin> set j"
  shows "prefix ms js \<and> (nul \<notin> set b \<longrightarrow> frames ms @ b = frames js \<longrightarrow> ms = js \<and> b = [])"
  using assms
proof (induction ms arbitrary: js)
  case Nil
  then show ?case by (cases js) auto
next
  case (Cons m ms)
  then obtain j js' where js: "js = j # js'" by (cases js) auto
  obtain z where z: "j @ nul # frames js' = m @ nul # (frames ms @ b @ z)"
    using Cons.prems(1) js by (auto simp: prefix_def)
  have "j = m \<and> frames js' = frames ms @ b @ z"
    using split_first [OF _ _ z] Cons.prems(2,3) js by simp
  then show ?case using Cons.IH [of js'] Cons.prems js by (auto simp: prefix_def)
qed


section \<open>Messages\<close>

text \<open>Messages one side sends, with sends that take any number of bytes but do not fail, and
  whose bytes reach the other side cut in any way, with timeouts and disconnections in between, are
  read whole and in order: those read are the first ones sent. If moreover no piece ends two
  messages, everything that has arrived completely has been read, so that all messages have been
  read once all bytes are there.\<close>

theorem wcp_messages_in_order:
  assumes "wcp_send_all rs sent new_client = (c, rs')" and "None \<notin> set rs" and "\<forall>m \<in> set sent. nul \<notin> set m"
    and "receive_all evs new_client = (got, d)" and "prefix (received evs) (wc_wire c)"
  shows "prefix got sent
    \<and> ((\<forall>ev \<in> set evs. count_list (chunk ev) nul \<le> 1) \<longrightarrow> received evs = frames sent \<longrightarrow> got = sent)"
proof -
  obtain k where "wc_wire c = take k (frames sent)"
    using send_all_wire [OF assms(1,2)] by (auto simp: new_client_def)
  then have p: "prefix (received evs) (frames sent)" using assms(5) take_is_prefix prefix_order.trans by metis
  have got: "received evs = frames got @ wc_recvBuffer d" "\<forall>m \<in> set got. nul \<notin> set m"
    using receive_all_frames [OF assms(4)] by (auto simp: new_client_def)
  have "nul \<notin> set (wc_recvBuffer d)" if "\<forall>ev \<in> set evs. count_list (chunk ev) nul \<le> 1"
    using receive_all_drains [OF assms(4)] that by (simp add: new_client_def)
  then show ?thesis using frames_prefix [of got "wc_recvBuffer d" sent] p got assms(3) by auto
qed

theorem wcp_messages_in_order_witness:
  "\<exists>c rs' got d. wcp_send_all [Some 2, Some 1, Some 1, Some 2, Some 1] [''abc'', ''d''] new_client = (c, rs')
    \<and> receive_all [Received ''ab'', TimedOut, Received [CHR ''c'', nul, CHR ''d''], Received [nul]] new_client = (got, d)
    \<and> prefix got [''abc'', ''d''] \<and> got = [''abc'', ''d'']"
proof -
  let ?rs = "[Some 2, Some 1, Some 1, Some 2, Some 1]"
  let ?evs = "[Received ''ab'', TimedOut, Received [CHR ''c'', nul, CHR ''d''], Received [nul]]"
  obtain c rs' where c: "wcp_send_all ?rs [''abc'', ''d''] new_client = (c, rs')"
    by (cases "wcp_send_all ?rs [''abc'', ''d''] new_client")
  obtain got d where d: "receive_all ?evs new_client = (got, d)" by (cases "receive_all ?evs new_client")
  have "wc_wire (fst (wcp_send_all ?rs [''abc'', ''d''] new_client)) = received ?evs" "received ?evs = frames [''abc'', ''d'']"
    "list_all (\<lambda>ev. count_list (chunk ev) nul \<le> 1) ?evs"
    by code_simp+
  then show ?thesis using wcp_messages_in_order [OF c _ _ d] c d by (auto simp: list_all_iff)
qed

section \<open>The greeting\<close>

definition good_greeting :: "greeting \<Rightarrow> bool" where
  "good_greeting g \<longleftrightarrow> gr_type g = ''greeting'' \<and> gr_version g = ''0'' \<and> set required_commands \<subseteq> set (gr_commands g)"

lemma stop_if_running [simp]: "wc_running (stop_if b c) \<longleftrightarrow> wc_running c \<and> \<not> b"
  by (simp add: stop_if_def wcp_stop_def)

lemma fold_stop_if: "wc_running (fold (\<lambda>cmd. stop_if (P cmd)) cmds c) \<longleftrightarrow> wc_running c \<and> (\<forall>cmd \<in> set cmds. \<not> P cmd)"
  by (induction cmds arbitrary: c) auto

lemma check_greeting_running: "wc_running (check_greeting g c) \<longleftrightarrow> wc_running c \<and> (\<exists>gr. g = Some gr \<and> good_greeting gr)"
  by (cases g) (auto simp: check_greeting_def fold_stop_if good_greeting_def wcp_stop_def)

lemma check_greeting_buffer [simp]: "wc_recvBuffer (check_greeting g c) = wc_recvBuffer c"
proof -
  have one: "wc_recvBuffer (stop_if b c) = wc_recvBuffer c" for b c by (simp add: stop_if_def wcp_stop_def)
  have "wc_recvBuffer (fold (\<lambda>cmd. stop_if (P cmd)) cmds c) = wc_recvBuffer c" for P c and cmds :: "string list"
    by (induction cmds arbitrary: c) (simp_all add: one)
  then show ?thesis by (simp add: check_greeting_def one wcp_stop_def split: option.split)
qed

lemma getMessage_running: "getMessage ev c = (m, c') \<Longrightarrow> wc_running c' \<Longrightarrow> wc_running c \<and> (m = None \<longrightarrow> ev = TimedOut \<or> (\<exists>b. ev = Received b))"
  by (auto simp: getMessage_def wcp_stop_def Let_def split: recv_event.splits option.splits)

lemma await_running:
  "await_greeting evs c = Some (m, c', evs') \<Longrightarrow> wc_running c' \<Longrightarrow>
    \<exists>x. m = Some x \<and> wc_running c \<and> (\<exists>used. evs = used @ evs' \<and> wc_recvBuffer c @ received (map fst used) = x @ nul # wc_recvBuffer c' \<and> nul \<notin> set x)"
proof (induction evs c rule: await_greeting.induct)
  case (2 ev late evs c)
  obtain r c1 where r: "getMessage ev c = (r, c1)" by (cases "getMessage ev c")
  show ?case
  proof (cases r)
    case (Some x)
    then have "m = Some x" "c' = c1" "evs' = evs" using "2.prems"(1) r by auto
    then show ?thesis using getMessage_cases(2) [OF r Some] getMessage_running [OF r] "2.prems"(2)
      by (intro exI [of _ x] conjI exI [of _ "[(ev, late)]"]) auto
  next
    case None
    then have go: "\<not> late" "await_greeting evs c1 = Some (m, c', evs')"
      using "2.prems" r by (auto simp: wcp_stop_def split: if_splits)
    obtain x used where x: "m = Some x" "wc_running c1" "evs = used @ evs'"
      "wc_recvBuffer c1 @ received (map fst used) = x @ nul # wc_recvBuffer c'" "nul \<notin> set x"
      using "2.IH" [OF r [symmetric] None go(1) go(2) "2.prems"(2)] by auto
    then show ?thesis using getMessage_cases(1) [OF r None] getMessage_running [OF r]
      by (intro exI [of _ x] conjI exI [of _ "(ev, late) # used"]) auto
  qed
qed simp

lemma send_keeps: "sendBuffer rs bytes c = (c', rs') \<Longrightarrow> wc_running c' = wc_running c \<and> wc_recvBuffer c' = wc_recvBuffer c \<and> wc_stops c' = wc_stops c"
  by (induction rs bytes c rule: sendBuffer.induct) auto

lemma sendMessage_keeps:
  "wcp_sendMessage rs m c = (c', rs') \<Longrightarrow> wc_running c' = wc_running c \<and> wc_recvBuffer c' = wc_recvBuffer c \<and> wc_stops c' = wc_stops c"
  by (auto simp: wcp_sendMessage_def split: prod.splits dest!: send_keeps)

text \<open>A session with the viewer is running after the handshake only if the first message of the
  stream could be read as a greeting of the right type and version that offers every command the
  client needs; what the viewer sent after it is still in the buffer.\<close>

theorem greeting_required:
  assumes "wcp_greet J rs evs new_client = Some (c, evs')" and "wc_running c"
  shows "\<exists>m g used. evs = used @ evs' \<and> received (map fst used) = m @ nul # wc_recvBuffer c \<and> nul \<notin> set m
    \<and> wj_greeting J m = Some g \<and> good_greeting g"
proof -
  obtain c1 rs1 where s: "wcp_sendMessage rs (wj_write J (CmdGreeting client_greeting)) new_client = (c1, rs1)"
    by (cases "wcp_sendMessage rs (wj_write J (CmdGreeting client_greeting)) new_client")
  have c1: "wc_recvBuffer c1 = []" using sendMessage_keeps [OF s] by (simp add: new_client_def)
  obtain m c2 where a: "await_greeting evs c1 = Some (m, c2, evs')"
    and c: "c = (case m of None \<Rightarrow> c2 | Some x \<Rightarrow> check_greeting (wj_greeting J x) c2)"
    using assms(1) s by (auto simp: wcp_greet_def split: option.splits)
  have c2: "wc_running c2" using assms(2) c check_greeting_running by (cases m) auto
  then obtain x used where x: "m = Some x" "evs = used @ evs'" "received (map fst used) = x @ nul # wc_recvBuffer c2" "nul \<notin> set x"
    using await_running [OF a] c1 by auto
  obtain g where g: "wj_greeting J x = Some g" "good_greeting g"
    using assms(2) c x(1) check_greeting_running by auto
  have "wc_recvBuffer c = wc_recvBuffer c2"
    using c x(1) check_greeting_buffer by simp
  then show ?thesis using x g by metis
qed

text \<open>A viewer that greets properly, for the witness.\<close>

definition sample_json :: wcp_json where
  "sample_json = \<lparr>wj_greeting = (\<lambda>m. if m = ''hello'' then Some \<lparr>gr_type = ''greeting'', gr_version = ''0'',
       gr_commands = required_commands\<rparr> else None),
     wj_message = (\<lambda>_. S2CResponse), wj_write = (\<lambda>_. ''hi'')\<rparr>"

theorem greeting_required_witness:
  "\<exists>c evs'. wcp_greet sample_json [Some 2, Some 1] [(Received ''hel'', False), (Received ([CHR ''l'', CHR ''o'', nul]), False)]
      new_client = Some (c, evs') \<and> wc_running c \<and> (\<exists>m g. wj_greeting sample_json m = Some g \<and> good_greeting g)"
proof -
  let ?evs = "[(Received ''hel'', False), (Received ([CHR ''l'', CHR ''o'', nul]), False)]"
  have "case wcp_greet sample_json [Some 2, Some 1] ?evs new_client of None \<Rightarrow> False | Some (c, evs') \<Rightarrow> wc_running c"
    by code_simp
  then obtain c evs' where c: "wcp_greet sample_json [Some 2, Some 1] ?evs new_client = Some (c, evs')" "wc_running c"
    by (auto split: option.splits)
  then show ?thesis using greeting_required [OF c] by blast
qed

section \<open>What goes wrong\<close>

text \<open>A message that arrives together with an earlier one stays in the buffer until the viewer sends
  more: no number of timeouts gives it out.\<close>

lemma buffered_message_waits:
  "\<forall>ev \<in> set evs. ev = TimedOut \<Longrightarrow> receive_all evs c = ([], c)"
  by (induction evs) (auto simp: getMessage_def)

lemma second_message_waits:
  assumes "\<forall>ev \<in> set evs. ev = TimedOut" and "nul \<notin> set m"
  shows "fst (receive_all (Received (frames [m, m']) # evs) new_client) = [m]"
proof -
  have "find_char nul (m @ nul # z) = Some (length m)" for z
    using assms(2) by (induction m) auto
  then have "getMessage (Received (frames [m, m'])) new_client = (Some m, new_client\<lparr>wc_recvBuffer := frames [m']\<rparr>)"
    by (simp add: getMessage_def new_client_def Let_def)
  then show ?thesis using buffered_message_waits [OF assms(1)] by simp
qed

text \<open>The thread ends only with the client stopped, and its end closes the sockets a second time: in
  the meantime the numbers may belong to other files of the server.\<close>

lemma handle_keeps:
  "handle_message J H m rs (c, st) = ((c', st'), rs') \<Longrightarrow> wc_running c' = wc_running c \<and> wc_stops c' = wc_stops c"
  by (auto simp: handle_message_def reply_variables_def split: s2c_message.splits wcp_event.splits sum.splits prod.splits
      dest!: sendMessage_keeps)

lemma getMessage_stops:
  "getMessage ev c = (m, c') \<Longrightarrow> wc_stops c' + (if wc_running c' then 1 else 0) \<ge> wc_stops c + (if wc_running c then 1 else 0)"
  by (auto simp: getMessage_def wcp_stop_def Let_def split: recv_event.splits option.splits)

lemma sockets_closed_twice:
  "runClient J H evs rs (c, st) = Some (c', st') \<Longrightarrow>
    \<not> wc_running c' \<and> wc_stops c' \<ge> wc_stops c + (if wc_running c then 2 else 1)"
proof (induction evs arbitrary: rs c st)
  case Nil
  then show ?case by (auto simp: wcp_stop_def split: if_splits)
next
  case (Cons ev evs)
  show ?case
  proof (cases "wc_running c")
    case False
    then show ?thesis using Cons.prems by (auto simp: wcp_stop_def)
  next
    case True
    obtain m c1 where m: "getMessage ev c = (m, c1)" by (cases "getMessage ev c")
    obtain c2 st2 rs2 where go: "runClient J H evs rs2 (c2, st2) = Some (c', st')"
      and same: "wc_running c2 = wc_running c1 \<and> wc_stops c2 = wc_stops c1"
    proof (cases m)
      case None
      then show ?thesis using that [of rs c1 st] Cons.prems True m by simp
    next
      case (Some x)
      obtain c2 st2 rs2 where h: "handle_message J H x rs (c1, st) = ((c2, st2), rs2)"
        by (metis surj_pair)
      then show ?thesis using that [of rs2 c2 st2] handle_keeps [OF h] Cons.prems True m Some by simp
    qed
    show ?thesis using Cons.IH [OF go] same getMessage_stops [OF m] True by (auto split: if_splits)
  qed
qed

text \<open>Once the viewer has gone, opening another waveform destroys the old client, whose thread was
  never joined, and ends the server.\<close>

lemma reopening_terminates:
  assumes "runClient J H evs rs (c, st) = Some (c', st')"
  shows "openWaveform J rs' made path (Some c') = (ProcessTerminated, None)"
  using sockets_closed_twice [OF assms] by (simp add: openWaveform_def)

end
