(* ===== verification/Dependencies.thy ===== *)
theory Dependencies
  imports IndexRuns
begin

text \<open>
  How the driver parses a document on its own and finds what it depends on, from
  src/ServerDriver.cpp: \<open>parseShallowTree\<close> infers include directories from the index, and
  \<open>getDependentTrees\<close> loads the documents that declare the names a tree refers to.

  slang's parser is a parameter: the include directives of the tree that a list of additional
  include paths gives, and what the metadata of a tree lists. The index is that of theory Indexer.
  Both loops are total functions; their termination is proved here.
\<close>

section \<open>Parsing with inferred include directories\<close>

text \<open>An include directive of a tree: the file it stands in, the header a search with the configured
  paths alone finds from there, and the file the tree took, as full paths.\<close>

record shallow_include =
  si_path :: string
  si_system :: bool
  si_source :: path
  si_normal :: "path option"
  si_buffer :: "path option"

record shallow_env =
  se_fs :: filesystem
  se_index :: indexer
  se_configured :: "path list"
  se_build_source :: bool
  se_parse :: "path list \<Rightarrow> shallow_include list"

definition findTarget :: "shallow_env \<Rightarrow> shallow_include \<Rightarrow> path option \<times> bool" where
  "findTarget E i = (case si_normal i of
     Some p \<Rightarrow> (Some p, True)
   | None \<Rightarrow> (getNearestFileForInclude (se_fs E) (se_index E) (si_path i) (si_source i), False))"

text \<open>The directory below which the spelling names the target.\<close>

function strip_spelling :: "path \<Rightarrow> path \<Rightarrow> path option" where
  "strip_spelling directory sfx = (if sfx = [] then Some directory
     else if filename directory = filename sfx \<and> sfx \<noteq> [root_dir]
     then strip_spelling (parent_path directory) (parent_path sfx) else None)"
  by pat_completeness auto
termination by (relation "measure (\<lambda>(_, s). length s)") (auto simp: parent_path_def)

declare strip_spelling.simps [simp del]

definition spelled_directory :: "string \<Rightarrow> path \<Rightarrow> path option" where
  "spelled_directory spelling target = (let sfx = lexically_normal (path_of_string spelling) in
     if is_absolute sfx \<or> dotdot \<in> set sfx then None else strip_spelling target sfx)"

definition add_once :: "path \<Rightarrow> path list \<Rightarrow> path list" where
  "add_once p ps = (if p \<in> set ps then ps else ps @ [p])"

text \<open>The additional paths and the proposed directories after one include directive.\<close>

definition propose :: "shallow_env \<Rightarrow> shallow_include \<Rightarrow> path list \<times> path list \<Rightarrow> path list \<times> path list" where
  "propose E i s = (case s of (paths, proposed) \<Rightarrow>
     if si_system i then s
     else (case findTarget E i of
       (None, _) \<Rightarrow> s
     | (Some target, normal) \<Rightarrow> (case spelled_directory (si_path i) target of
         None \<Rightarrow> s
       | Some directory \<Rightarrow> if normal then (add_once directory paths, proposed)
           else (paths, add_once directory proposed))))"

text \<open>Whether the includes of a tree are those a search would expect; canonical paths may throw.\<close>

fun compatible :: "shallow_env \<Rightarrow> shallow_include list \<Rightarrow> bool result" where
  "compatible E [] = Inr True"
| "compatible E (i # rest) = (case si_buffer i of
     None \<Rightarrow> compatible E rest
   | Some b \<Rightarrow> if si_system i then compatible E rest
     else (case fst (findTarget E i) of
         None \<Rightarrow> Inr False
       | Some expected \<Rightarrow> (case weakly_canonical (se_fs E) expected of
           None \<Rightarrow> Inl (RuntimeError ''filesystem error'')
         | Some c \<Rightarrow> if c \<noteq> b then Inr False else compatible E rest)))"

definition propose_all :: "shallow_env \<Rightarrow> path list \<Rightarrow> shallow_include list \<Rightarrow> path list \<times> path list" where
  "propose_all E inferred tree = fold (propose E) tree (se_configured E, inferred)"

definition with_proposed :: "path list \<Rightarrow> path list \<Rightarrow> path list" where
  "with_proposed paths proposed = fold add_once proposed paths"

text \<open>The directories the index can propose.\<close>

definition index_directories :: "indexer \<Rightarrow> path set" where
  "index_directories ix = (\<Union>(name, cs) \<in> set (includeToFiles ix). \<Union>c \<in> set cs. {d. prefix d c})"

lemma index_directories_finite [simp]: "finite (index_directories ix)"
proof -
  have "{d. prefix d c} = set (prefixes c)" for c :: path by auto
  then show ?thesis by (auto simp: index_directories_def)
qed

lemma strip_spelling_prefix: "strip_spelling d s = Some d' \<Longrightarrow> prefix d' d"
proof (induction d s rule: strip_spelling.induct)
  case (1 d s)
  have "prefix (parent_path d) d" by (simp add: parent_path_def prefixeq_butlast)
  with 1 show ?case by (auto simp: strip_spelling.simps [of d s] split: if_splits)
qed

lemma nearest_loop_candidates:
  "x \<in> set (nearest_loop fs src getPath cs near best) \<Longrightarrow> snd x \<in> set cs \<or> x \<in> set near"
proof (induction fs src getPath cs near best rule: nearest_loop.induct)
  case (2 fs src getPath c cs near best)
  show ?case
  proof (cases "Option.bind (getPath c) (weakly_canonical fs)")
    case None
    then show ?thesis using 2 by auto
  next
    case (Some p)
    show ?thesis
    proof (cases "path_distance src p")
      case None
      then show ?thesis using 2 Some by auto
    next
      case d: (Some d)
      let ?closer = "best = None \<or> (\<exists>b \<in> set_option best. d < b)"
      show ?thesis
      proof (cases ?closer)
        case True
        then show ?thesis using 2(3) [OF Some d True] 2(6) Some d by auto
      next
        case far: False
        then show ?thesis using 2(4) [OF Some d far] 2(5) [OF Some d far] 2(6) Some d
          by (cases "best = Some d") auto
      qed
    qed
  qed
qed simp

lemma nearestFiles_candidates: "set (nearestFiles fs source cs getPath) \<subseteq> set cs"
proof (cases "weakly_canonical fs source")
  case (Some src)
  then show ?thesis
    using nearest_loop_candidates [of _ fs src getPath cs "[]" None]
      first_of_each_set [of "sort_key fst (nearest_loop fs src getPath cs [] None)"]
    by (auto simp: nearestFiles_def)
qed (simp add: nearestFiles_def)

lemma target_indexed:
  assumes "findTarget E i = (Some target, False)"
  shows "{d. prefix d target} \<subseteq> index_directories (se_index E)"
proof -
  obtain cs where cs: "map_of (includeToFiles (se_index E)) (include_name (si_path i)) = Some cs"
    "nearestInclude (se_fs E) (si_path i) (si_source i) cs = Some target"
    using assms by (auto simp: findTarget_def getNearestFileForInclude_def split: option.splits)
  obtain g rest where g: "nearestFiles (se_fs E) (si_source i) cs g = target # rest"
    using cs(2) unfolding nearestInclude_def Let_def by (simp split: if_splits list.splits)
  have "target \<in> set cs" using nearestFiles_candidates [of "se_fs E" "si_source i" cs g] g by simp
  then show ?thesis using map_of_SomeD [OF cs(1)] by (fastforce simp: index_directories_def)
qed

text \<open>Proposals only grow, by directories of the index.\<close>

definition grows :: "shallow_env \<Rightarrow> path list \<Rightarrow> path list \<Rightarrow> bool" where
  "grows E inferred proposed \<longleftrightarrow> set inferred \<subseteq> set proposed
     \<and> set proposed - set inferred \<subseteq> index_directories (se_index E)
     \<and> (proposed \<noteq> inferred \<longrightarrow> set proposed \<noteq> set inferred)"

lemma grows_refl [simp]: "grows E q q"
  by (simp add: grows_def)

lemma grows_trans: "grows E p q \<Longrightarrow> grows E q r \<Longrightarrow> grows E p r"
  unfolding grows_def by blast

lemma propose_grows: "grows E (snd s) (snd (propose E i s))"
proof (cases s)
  case (Pair paths q)
  have "grows E q (add_once d q)" if "findTarget E i = (Some target, False)" "spelled_directory (si_path i) target = Some d" for target d
  proof -
    have "prefix d target" using that(2) strip_spelling_prefix by (auto simp: spelled_directory_def Let_def split: if_splits)
    then show ?thesis using target_indexed [OF that(1)] by (auto simp: grows_def add_once_def)
  qed
  then show ?thesis using Pair by (auto simp: propose_def split: option.split prod.split)
qed

lemma propose_all_grows: "propose_all E inferred tree = (paths, proposed) \<Longrightarrow> grows E inferred proposed"
proof -
  have "grows E (snd s) (snd (fold (propose E) tree s))" for s
  proof (induction tree arbitrary: s)
    case (Cons i tree)
    then show ?case using grows_trans [OF propose_grows [of E s i] Cons.IH [of "propose E i s"]] by simp
  qed simp
  from this [of "(se_configured E, inferred)"] show "propose_all E inferred tree = (paths, proposed) \<Longrightarrow> grows E inferred proposed"
    by (simp add: propose_all_def)
qed

text \<open>The loop over rounds; \<open>paths\<close> and \<open>tree\<close> are those of the document so far.\<close>

function infer_loop ::
  "shallow_env \<Rightarrow> path list \<Rightarrow> path list \<Rightarrow> shallow_include list \<Rightarrow> (path list \<times> shallow_include list) result" where
  "infer_loop E inferred paths tree = (case propose_all E inferred tree of (base, proposed) \<Rightarrow>
     if proposed = inferred then Inr (paths, tree)
     else (let newPaths = with_proposed base proposed; candidate = se_parse E newPaths in
       case compatible E candidate of
         Inl e \<Rightarrow> Inl e
       | Inr ok \<Rightarrow> if \<not> ok then Inr (paths, tree) else infer_loop E proposed newPaths candidate))"
  by pat_completeness auto
termination
proof (relation "measure (\<lambda>(E, inferred, _). card (index_directories (se_index E) - set inferred))", goal_cases)
  case (2 E inferred paths tree base proposed)
  then have g: "grows E inferred proposed" using propose_all_grows [of E inferred tree base proposed] by simp
  let ?U = "index_directories (se_index E)"
  have "?U - set proposed \<subset> ?U - set inferred" using g 2 by (auto simp: grows_def)
  then show ?case by (simp add: psubset_card_mono)
qed simp

declare infer_loop.simps [simp del]

definition parseShallowTree :: "shallow_env \<Rightarrow> (path list \<times> shallow_include list) result" where
  "parseShallowTree E = (let tree = se_parse E (se_configured E) in
     if se_build_source E then Inr (se_configured E, tree) else infer_loop E [] (se_configured E) tree)"

section \<open>The documents a tree depends on\<close>

text \<open>What the metadata of a tree lists, each name with the full path of the file it stands in. The
  names that are empty come from missing tokens.\<close>

type_synonym reference = "string \<times> path"

record tree_meta =
  tm_declared :: "string list"
  tm_instances :: "reference list"
  tm_classPackages :: "reference list"
  tm_imports :: "reference list"
  tm_virtualInterfaces :: "reference list"
  tm_interfacePorts :: "reference list"
  tm_portTypes :: "reference list"
  tm_files :: "path list"
  tm_package_like :: bool

text \<open>\<open>de_document\<close> gives the tree of the document at a path, as a number, none when there is no document.\<close>

record dep_env =
  de_fs :: filesystem
  de_index :: indexer
  de_meta :: "nat \<Rightarrow> tree_meta"
  de_document :: "path \<Rightarrow> nat option result"

record dep_state =
  ds_known :: "string list"
  ds_trees :: "nat list"
  ds_files :: "path list"
  ds_queue :: "nat list"
  ds_result :: "nat list"

definition references :: "dep_env \<Rightarrow> bool \<Rightarrow> nat \<Rightarrow> reference list" where
  "references E fullHierarchy t = (let m = de_meta E t in
     tm_instances m @ tm_classPackages m @ tm_imports m @ tm_virtualInterfaces m
     @ (if fullHierarchy then [] else tm_interfacePorts m @ tm_portTypes m))"

definition expands :: "dep_env \<Rightarrow> bool \<Rightarrow> nat \<Rightarrow> bool" where
  "expands E fullHierarchy t \<longleftrightarrow> fullHierarchy \<or> tm_package_like (de_meta E t)"

text \<open>Loads the document at the path a name resolves to. A file that is there already may declare the
  name only under other preprocessor flags and is not loaded again.\<close>

definition load_path :: "dep_env \<Rightarrow> bool \<Rightarrow> path \<Rightarrow> dep_state \<Rightarrow> dep_state result" where
  "load_path E fullHierarchy p st = (case weakly_canonical (de_fs E) p of
     None \<Rightarrow> Inl (RuntimeError ''filesystem error'')
   | Some c \<Rightarrow> if c \<in> set (ds_files st) then Inr st
       else (case de_document E p of
         Inl e \<Rightarrow> Inl e
       | Inr None \<Rightarrow> Inr st
       | Inr (Some t) \<Rightarrow> if t \<in> set (ds_trees st) then Inr st
           else Inr \<lparr>ds_known = tm_declared (de_meta E t) @ ds_known st, ds_trees = t # ds_trees st,
             ds_files = tm_files (de_meta E t) @ ds_files st,
             ds_queue = ds_queue st @ (if expands E fullHierarchy t then [t] else []),
             ds_result = ds_result st @ [t]\<rparr>))"

definition loadDependency :: "dep_env \<Rightarrow> bool \<Rightarrow> reference \<Rightarrow> dep_state \<Rightarrow> dep_state result" where
  "loadDependency E fullHierarchy r st = (case r of (name, source) \<Rightarrow>
     if name = [] \<or> name \<in> set (ds_known st) then Inr st
     else (case getNearestSymbolLoc (de_fs E) (de_index E) name source of
       None \<Rightarrow> Inr st
     | Some (p, _) \<Rightarrow> load_path E fullHierarchy p (st\<lparr>ds_known := name # ds_known st\<rparr>)))"

fun load_all :: "dep_env \<Rightarrow> bool \<Rightarrow> reference list \<Rightarrow> dep_state \<Rightarrow> dep_state result" where
  "load_all E fullHierarchy [] st = Inr st"
| "load_all E fullHierarchy (r # rs) st = (case loadDependency E fullHierarchy r st of
     Inl e \<Rightarrow> Inl e | Inr st1 \<Rightarrow> load_all E fullHierarchy rs st1)"

text \<open>The names the index declares that are not known yet: every document that is loaded makes one
  of them known, so the queue runs empty.\<close>

definition unknown_names :: "dep_env \<Rightarrow> dep_state \<Rightarrow> string set" where
  "unknown_names E st = fst ` set (symbolToFiles (de_index E)) - set (ds_known st)"

lemma nearest_name: "getNearestSymbolLoc fs ix name source = Some l \<Longrightarrow> name \<in> fst ` set (symbolToFiles ix)"
  by (auto simp: getNearestSymbolLoc_def getNearestSymbolLocs_def tab_get_def image_iff
      split: option.splits dest!: map_of_SomeD) force

definition progress :: "dep_env \<Rightarrow> dep_state \<Rightarrow> dep_state \<Rightarrow> bool" where
  "progress E st st' \<longleftrightarrow> unknown_names E st' \<subseteq> unknown_names E st
     \<and> (\<exists>new. ds_queue st' = ds_queue st @ new \<and> (new \<noteq> [] \<longrightarrow> unknown_names E st' \<noteq> unknown_names E st))"

lemma loadDependency_progress:
  assumes "loadDependency E fullHierarchy r st = Inr st'"
  shows "progress E st st'"
proof -
  obtain name source where r: "r = (name, source)" by (cases r)
  have "name \<in> unknown_names E st" if "name \<notin> set (ds_known st)" "getNearestSymbolLoc (de_fs E) (de_index E) name source = Some l" for l
    using that nearest_name by (auto simp: unknown_names_def)
  then have "st' = st \<or> (name \<in> unknown_names E st \<and> name \<in> set (ds_known st')
      \<and> set (ds_known st) \<subseteq> set (ds_known st') \<and> (\<exists>new. ds_queue st' = ds_queue st @ new))"
    using assms r by (auto simp: loadDependency_def load_path_def split: if_splits option.splits sum.splits)
  moreover have "unknown_names E st' \<noteq> unknown_names E st" if "name \<in> unknown_names E st" "name \<in> set (ds_known st')"
    using that unfolding unknown_names_def by blast
  moreover have "unknown_names E st' \<subseteq> unknown_names E st" if "set (ds_known st) \<subseteq> set (ds_known st')"
    using that unfolding unknown_names_def by blast
  ultimately show ?thesis unfolding progress_def by auto
qed

lemma load_all_progress: "load_all E fullHierarchy rs st = Inr st' \<Longrightarrow> progress E st st'"
proof (induction rs arbitrary: st)
  case Nil
  then show ?case by (simp add: progress_def)
next
  case (Cons r rs)
  obtain st1 where st1: "loadDependency E fullHierarchy r st = Inr st1" "load_all E fullHierarchy rs st1 = Inr st'"
    using Cons.prems by (auto split: sum.splits)
  show ?case using loadDependency_progress [OF st1(1)] Cons.IH [OF st1(2)]
    unfolding progress_def by (auto; blast)
qed

function dep_loop :: "dep_env \<Rightarrow> bool \<Rightarrow> dep_state \<Rightarrow> dep_state result" where
  "dep_loop E fullHierarchy st = (case ds_queue st of
     [] \<Rightarrow> Inr st
   | t # q \<Rightarrow> (case load_all E fullHierarchy (references E fullHierarchy t) (st\<lparr>ds_queue := q\<rparr>) of
       Inl e \<Rightarrow> Inl e | Inr st1 \<Rightarrow> dep_loop E fullHierarchy st1))"
  by pat_completeness auto
termination
proof (relation "measures [\<lambda>(E, _, st). card (unknown_names E st), \<lambda>(_, _, st). length (ds_queue st)]", goal_cases)
  case (2 E fullHierarchy st t q st1)
  then have p: "progress E (st\<lparr>ds_queue := q\<rparr>) st1" using load_all_progress by simp
  have fin: "finite (unknown_names E st)" by (simp add: unknown_names_def)
  have same: "unknown_names E (st\<lparr>ds_queue := q\<rparr>) = unknown_names E st" by (simp add: unknown_names_def)
  obtain new where new: "ds_queue st1 = q @ new" "new \<noteq> [] \<longrightarrow> unknown_names E st1 \<noteq> unknown_names E st"
    and sub: "unknown_names E st1 \<subseteq> unknown_names E st"
    using p by (auto simp: progress_def same)
  show ?case
  proof (cases "unknown_names E st1 = unknown_names E st")
    case True
    then show ?thesis using new 2(1) by simp
  next
    case False
    then have "card (unknown_names E st1) < card (unknown_names E st)" using sub fin by (simp add: psubset_card_mono psubset_eq)
    then show ?thesis by simp
  qed
qed simp

declare dep_loop.simps [simp del]

definition start_state :: "dep_env \<Rightarrow> nat \<Rightarrow> dep_state" where
  "start_state E root = \<lparr>ds_known = tm_declared (de_meta E root), ds_trees = [root],
     ds_files = tm_files (de_meta E root), ds_queue = [root], ds_result = []\<rparr>"

definition getDependentTrees :: "dep_env \<Rightarrow> nat \<Rightarrow> bool \<Rightarrow> nat list result" where
  "getDependentTrees E root fullHierarchy = map_sum id ds_result (dep_loop E fullHierarchy (start_state E root))"

end
