(* ===== verification/DependencyRuns.thy ===== *)
theory DependencyRuns
  imports Dependencies
begin

text \<open>
  Correctness of the two loops: inferred include directories never change how an include of the
  document resolves, and the dependencies found are closed: exactly trees a chain of references
  leads to, each once, and no reference of theirs is left without an answer.
\<close>

section \<open>Inferred include directories\<close>

text \<open>Every include the tree took is the one a search would expect.\<close>

definition as_expected :: "shallow_env \<Rightarrow> shallow_include list \<Rightarrow> bool" where
  "as_expected E tree \<longleftrightarrow> (\<forall>i \<in> set tree. \<forall>b. \<not> si_system i \<longrightarrow> si_buffer i = Some b \<longrightarrow>
     (\<exists>e. fst (findTarget E i) = Some e \<and> weakly_canonical (se_fs E) e = Some b))"

lemma compatible_expected: "compatible E tree = Inr True \<Longrightarrow> as_expected E tree"
  by (induction tree) (auto simp: as_expected_def split: option.splits if_splits)

lemma add_once_prefix: "prefix ps (add_once p ps)"
  by (simp add: add_once_def)

lemma fold_add_once_prefix: "prefix ps (fold add_once ds ps)"
proof (induction ds arbitrary: ps)
  case (Cons d ds)
  show ?case using prefix_order.trans [OF add_once_prefix Cons.IH] by simp
qed simp

lemma propose_prefix: "prefix (fst s) (fst (propose E i s))"
  by (cases s) (auto simp: propose_def add_once_prefix split: option.split prod.split)

lemma propose_all_prefix: "prefix (se_configured E) (fst (propose_all E inferred tree))"
proof -
  have "prefix (fst s) (fst (fold (propose E) tree s))" for s
  proof (induction tree arbitrary: s)
    case (Cons i tree)
    show ?case using prefix_order.trans [OF propose_prefix Cons.IH] by simp
  qed simp
  from this [of "(se_configured E, inferred)"] show ?thesis by (simp add: propose_all_def)
qed

definition shallow_ok :: "shallow_env \<Rightarrow> path list \<Rightarrow> shallow_include list \<Rightarrow> bool" where
  "shallow_ok E paths tree \<longleftrightarrow> tree = se_parse E paths \<and> prefix (se_configured E) paths
     \<and> (paths = se_configured E \<or> as_expected E tree)"

lemma infer_loop_ok:
  "infer_loop E inferred paths tree = Inr (paths', tree') \<Longrightarrow> shallow_ok E paths tree \<Longrightarrow> shallow_ok E paths' tree'"
proof (induction E inferred paths tree rule: infer_loop.induct)
  case (1 E inferred paths tree)
  obtain base proposed where p: "propose_all E inferred tree = (base, proposed)" by (cases "propose_all E inferred tree")
  let ?new = "with_proposed base proposed"
  show ?case
  proof (cases "proposed = inferred \<or> compatible E (se_parse E ?new) \<noteq> Inr True")
    case True
    then have "paths' = paths \<and> tree' = tree"
      using "1.prems"(1) p by (auto simp: infer_loop.simps [of E inferred paths tree] Let_def split: sum.splits if_splits)
    then show ?thesis using "1.prems"(2) by simp
  next
    case False
    have "prefix (se_configured E) ?new"
      using propose_all_prefix [of E inferred tree] p fold_add_once_prefix [of base proposed]
      by (auto simp: with_proposed_def intro: prefix_order.trans)
    then have ok: "shallow_ok E ?new (se_parse E ?new)"
      using False compatible_expected by (simp add: shallow_ok_def)
    have "infer_loop E proposed ?new (se_parse E ?new) = Inr (paths', tree')"
      using "1.prems"(1) p False by (simp add: infer_loop.simps [of E inferred paths tree] Let_def)
    then show ?thesis using "1.IH" [OF p [symmetric] _ refl refl _ _ _ ok] False by simp
  qed
qed

text \<open>A document that is not part of the build is parsed with the configured include directories
  first and possibly directories inferred from the index after them; the tree is the parse with
  exactly these directories, and when any was added, every include the tree took is the file that a
  search with the configured directories finds, or else the nearest one of the index: an inferred
  directory never captures an include that was meant for another file.\<close>

theorem shallow_tree_as_expected:
  assumes "parseShallowTree E = Inr (paths, tree)"
  shows "tree = se_parse E paths \<and> prefix (se_configured E) paths
    \<and> (paths = se_configured E \<or> as_expected E tree)"
  using infer_loop_ok [of E "[]" "se_configured E" "se_parse E (se_configured E)" paths tree] assms
  by (auto simp: parseShallowTree_def shallow_ok_def Let_def split: if_splits)

section \<open>Dependencies\<close>

definition resolves :: "dep_env \<Rightarrow> reference \<Rightarrow> path \<Rightarrow> bool" where
  "resolves E r p \<longleftrightarrow> (\<exists>k. getNearestSymbolLoc (de_fs E) (de_index E) (fst r) (snd r) = Some (p, k))"

text \<open>The trees a tree refers to, for the root and for trees whose references are followed.\<close>

definition depends :: "dep_env \<Rightarrow> bool \<Rightarrow> nat \<Rightarrow> (nat \<times> nat) set" where
  "depends E fullHierarchy root = {(t, t'). (t = root \<or> expands E fullHierarchy t)
     \<and> (\<exists>r \<in> set (references E fullHierarchy t). \<exists>p. fst r \<noteq> [] \<and> resolves E r p \<and> de_document E p = Inr (Some t'))}"

text \<open>A name has its answer in a set of trees: one of them declares it, or it resolves to one of them,
  to a file they already have, or to a path without a document.\<close>

definition answered :: "dep_env \<Rightarrow> bool \<Rightarrow> nat set \<Rightarrow> string \<Rightarrow> bool" where
  "answered E fullHierarchy T n \<longleftrightarrow> (\<exists>t \<in> T. n \<in> set (tm_declared (de_meta E t)))
     \<or> (\<exists>t \<in> T. \<exists>r \<in> set (references E fullHierarchy t). \<exists>p. fst r = n \<and> resolves E r p
          \<and> ((\<exists>c. weakly_canonical (de_fs E) p = Some c \<and> (\<exists>t' \<in> T. c \<in> set (tm_files (de_meta E t'))))
             \<or> de_document E p = Inr None \<or> (\<exists>t' \<in> T. de_document E p = Inr (Some t'))))"

lemma answered_mono: "answered E full T n \<Longrightarrow> T \<subseteq> T' \<Longrightarrow> answered E full T' n"
  unfolding answered_def by blast

abbreviation found :: "nat \<Rightarrow> dep_state \<Rightarrow> nat set" where
  "found root st \<equiv> insert root (set (ds_result st))"

definition dep_inv :: "dep_env \<Rightarrow> bool \<Rightarrow> nat \<Rightarrow> dep_state \<Rightarrow> bool" where
  "dep_inv E full root st \<longleftrightarrow> distinct (root # ds_result st) \<and> set (ds_trees st) = found root st
     \<and> set (ds_files st) = (\<Union>t \<in> found root st. set (tm_files (de_meta E t)))
     \<and> (\<forall>n \<in> set (ds_known st). answered E full (found root st) n)
     \<and> (\<forall>t \<in> set (ds_result st). (root, t) \<in> (depends E full root)\<^sup>*)"

definition served :: "dep_env \<Rightarrow> dep_state \<Rightarrow> reference \<Rightarrow> bool" where
  "served E st r \<longleftrightarrow> fst r = [] \<or> fst r \<in> set (ds_known st) \<or> (\<forall>p. \<not> resolves E r p)"

text \<open>The later state has more names, and more results of which those to follow are queued.\<close>

definition later :: "dep_env \<Rightarrow> bool \<Rightarrow> dep_state \<Rightarrow> dep_state \<Rightarrow> bool" where
  "later E full st st' \<longleftrightarrow> set (ds_known st) \<subseteq> set (ds_known st')
     \<and> (\<exists>new. ds_result st' = ds_result st @ new \<and> ds_queue st' = ds_queue st @ filter (expands E full) new)"

lemma later_refl: "later E full st st"
  unfolding later_def by (auto intro!: exI [of _ "[]"])

lemma later_trans: "later E full st1 st2 \<Longrightarrow> later E full st2 st3 \<Longrightarrow> later E full st1 st3"
  unfolding later_def by (auto; metis append.assoc filter_append)

lemma loadDependency_inv:
  assumes "loadDependency E full r st = Inr st'" and inv: "dep_inv E full root st"
    and r: "r \<in> set (references E full t0)" and t0: "t0 \<in> found root st" "t0 = root \<or> expands E full t0"
  shows "dep_inv E full root st' \<and> later E full st st' \<and> served E st' r"
proof (cases "served E st r")
  case True
  then have "st' = st"
    using assms(1) by (cases r) (auto simp: loadDependency_def served_def resolves_def split: if_splits option.splits)
  then show ?thesis using True inv later_refl by simp
next
  case False
  let ?st = "st\<lparr>ds_known := fst r # ds_known st\<rparr>"
  obtain p k where p: "getNearestSymbolLoc (de_fs E) (de_index E) (fst r) (snd r) = Some (p, k)"
    and n: "fst r \<noteq> []" and go: "load_path E full p ?st = Inr st'"
    using assms(1) False
    by (cases r) (auto simp: loadDependency_def served_def resolves_def split: if_splits option.splits)
  obtain c where c: "weakly_canonical (de_fs E) p = Some c"
    using go by (auto simp: load_path_def split: option.splits)
  have res: "resolves E r p" using p by (auto simp: resolves_def)
  have T: "set (ds_trees st) = found root st" "set (ds_files st) = (\<Union>t \<in> found root st. set (tm_files (de_meta E t)))"
    using inv by (auto simp: dep_inv_def)
  show ?thesis
  proof (cases "\<exists>t. de_document E p = Inr (Some t) \<and> t \<notin> set (ds_trees st) \<and> c \<notin> set (ds_files st)")
    case True
    then obtain t where t: "de_document E p = Inr (Some t)" "t \<notin> set (ds_trees st)" "c \<notin> set (ds_files st)" by blast
    let ?T = "insert t (found root st)"
    have st': "st' = \<lparr>ds_known = tm_declared (de_meta E t) @ fst r # ds_known st, ds_trees = t # ds_trees st,
        ds_files = tm_files (de_meta E t) @ ds_files st,
        ds_queue = ds_queue st @ (if expands E full t then [t] else []), ds_result = ds_result st @ [t]\<rparr>"
      using go t c by (simp add: load_path_def)
    have "(t0, t) \<in> depends E full root" using r t0(2) n res t(1) unfolding depends_def by blast
    moreover have "(root, t0) \<in> (depends E full root)\<^sup>*" using t0(1) inv by (auto simp: dep_inv_def)
    ultimately have reach: "(root, t) \<in> (depends E full root)\<^sup>*" by (rule rtrancl_into_rtrancl [rotated])
    have "answered E full ?T (fst r)" using r t0(1) res t(1) unfolding answered_def by blast
    moreover have "answered E full ?T n" if "n \<in> set (tm_declared (de_meta E t))" for n
      using that unfolding answered_def by blast
    moreover have "answered E full ?T n" if "n \<in> set (ds_known st)" for n
      using that inv answered_mono [of E full "found root st" n ?T] by (auto simp: dep_inv_def)
    ultimately have "dep_inv E full root st'"
      using inv t(2) T reach by (auto simp: dep_inv_def st' insert_commute)
    moreover have "later E full st st'" unfolding later_def st' by (auto intro!: exI [of _ "[t]"])
    ultimately show ?thesis by (simp add: served_def st')
  next
    case no: False
    then have st': "st' = st\<lparr>ds_known := fst r # ds_known st\<rparr>"
      using go c by (auto simp: load_path_def split: if_splits option.splits sum.splits)
    have "c \<in> set (ds_files st) \<or> de_document E p = Inr None \<or> (\<exists>t \<in> found root st. de_document E p = Inr (Some t))"
      using go no T c by (auto simp: load_path_def split: if_splits option.splits sum.splits)
    then have "answered E full (found root st) (fst r)"
      using r t0(1) res c T(2) unfolding answered_def by blast
    then have "dep_inv E full root st'" using inv by (auto simp: dep_inv_def st')
    moreover have "later E full st st'" unfolding later_def st' by auto
    ultimately show ?thesis by (simp add: served_def st')
  qed
qed

lemma served_later: "served E st r \<Longrightarrow> later E full st st' \<Longrightarrow> served E st' r"
  unfolding served_def later_def by blast

lemma load_all_inv:
  assumes "load_all E full rs st = Inr st'" and "dep_inv E full root st" and "set rs \<subseteq> set (references E full t0)"
    and "t0 \<in> found root st" "t0 = root \<or> expands E full t0"
  shows "dep_inv E full root st' \<and> later E full st st' \<and> (\<forall>r \<in> set rs. served E st' r)"
  using assms
proof (induction rs arbitrary: st)
  case Nil
  then show ?case by (simp add: later_refl)
next
  case (Cons r rs)
  obtain st1 where st1: "loadDependency E full r st = Inr st1" "load_all E full rs st1 = Inr st'"
    using Cons.prems(1) by (auto split: sum.splits)
  have one: "dep_inv E full root st1 \<and> later E full st st1 \<and> served E st1 r"
    using loadDependency_inv [OF st1(1) Cons.prems(2) _ Cons.prems(4,5)] Cons.prems(3) by simp
  then have "t0 \<in> found root st1" using Cons.prems(4) by (auto simp: later_def)
  then have rest: "dep_inv E full root st' \<and> later E full st1 st' \<and> (\<forall>r \<in> set rs. served E st' r)"
    using Cons.IH [OF st1(2)] Cons.prems(3,5) one by simp
  have "served E st' r" using one rest served_later [of E st1 r] by blast
  then show ?case using one rest later_trans [of E full st st1 st'] by auto
qed

text \<open>The trees to follow are those whose references have been served and those in the queue.\<close>

definition follow :: "dep_env \<Rightarrow> bool \<Rightarrow> nat \<Rightarrow> dep_state \<Rightarrow> nat set" where
  "follow E full root st = {t \<in> found root st. t = root \<or> expands E full t}"

definition followed :: "dep_env \<Rightarrow> bool \<Rightarrow> nat \<Rightarrow> dep_state \<Rightarrow> nat set \<Rightarrow> bool" where
  "followed E full root st Q \<longleftrightarrow> Q \<subseteq> follow E full root st
     \<and> (\<forall>t \<in> follow E full root st - Q. \<forall>r \<in> set (references E full t). served E st r)"

lemma followed_step:
  assumes "followed E full root st (insert t (set q))" and "dep_inv E full root st" and t: "t \<in> follow E full root st"
    and "load_all E full (references E full t) (st\<lparr>ds_queue := q\<rparr>) = Inr st'"
  shows "dep_inv E full root st' \<and> followed E full root st' (set (ds_queue st'))"
proof -
  let ?st = "st\<lparr>ds_queue := q\<rparr>"
  have "dep_inv E full root ?st" using assms(2) by (simp add: dep_inv_def)
  then have inv: "dep_inv E full root st'" and later: "later E full ?st st'"
    and now: "\<forall>r \<in> set (references E full t). served E st' r"
    using load_all_inv [OF assms(4), of root t] t by (auto simp: follow_def)
  obtain new where new: "ds_result st' = ds_result st @ new" "ds_queue st' = q @ filter (expands E full) new"
    using later by (auto simp: later_def)
  have old: "served E st' r" if "t' \<in> follow E full root st - insert t (set q)" "r \<in> set (references E full t')" for t' r
    using assms(1) that served_later [OF _ later] by (auto simp: followed_def served_def)
  have all: "follow E full root st' = follow E full root st \<union> set (filter (expands E full) new)"
    using new(1) inv by (auto simp: follow_def dep_inv_def)
  have "served E st' r" if "t' \<in> follow E full root st' - set (ds_queue st')" "r \<in> set (references E full t')" for t' r
  proof (cases "t' = t")
    case False
    then have "t' \<in> follow E full root st - insert t (set q)" using that(1) all new(2) by auto
    then show ?thesis using old that(2) by blast
  qed (use now that(2) in blast)
  moreover have "set (ds_queue st') \<subseteq> follow E full root st'"
    using assms(1) all new(2) by (auto simp: followed_def)
  ultimately have "followed E full root st' (set (ds_queue st'))" unfolding followed_def by blast
  then show ?thesis using inv by simp
qed

lemma dep_loop_closed:
  "dep_loop E full st = Inr st' \<Longrightarrow> dep_inv E full root st \<Longrightarrow> followed E full root st (set (ds_queue st))
    \<Longrightarrow> dep_inv E full root st' \<and> followed E full root st' {}"
proof (induction E full st rule: dep_loop.induct)
  case (1 E full st)
  show ?case
  proof (cases "ds_queue st")
    case Nil
    then show ?thesis using 1(2-4) by (simp add: dep_loop.simps [of E full st])
  next
    case (Cons t q)
    obtain st1 where st1: "load_all E full (references E full t) (st\<lparr>ds_queue := q\<rparr>) = Inr st1" "dep_loop E full st1 = Inr st'"
      using 1(2) Cons by (auto simp: dep_loop.simps [of E full st] split: sum.splits)
    have "t \<in> follow E full root st" using 1(4) Cons by (auto simp: followed_def)
    then show ?thesis using 1(1) [OF Cons st1(1) st1(2)] followed_step [OF _ 1(3) _ st1(1)] 1(4) Cons by simp
  qed
qed

text \<open>C40. The trees a document depends on are found without exception or not at all; then each is found
  once and not the document itself, a chain of references leads to each of them from the document,
  and no reference of a tree whose references are followed is left open: its name is missing, the
  index has no declaration near it, or one of the trees declares the name or answers it with the
  nearest declaration.\<close>

theorem dependent_trees_closed:
  assumes "getDependentTrees E root full = Inr trees"
  shows "distinct (root # trees) \<and> (\<forall>t \<in> set trees. (root, t) \<in> (depends E full root)\<^sup>*)
    \<and> (\<forall>t \<in> set (root # trees). t = root \<or> expands E full t \<longrightarrow> (\<forall>r \<in> set (references E full t).
         fst r = [] \<or> (\<forall>p. \<not> resolves E r p) \<or> answered E full (set (root # trees)) (fst r)))"
proof -
  let ?st = "start_state E root"
  obtain st' where st': "dep_loop E full ?st = Inr st'" "trees = ds_result st'"
    using assms by (cases "dep_loop E full ?st") (auto simp: getDependentTrees_def)
  have "dep_inv E full root ?st" by (auto simp: dep_inv_def start_state_def answered_def)
  moreover have "followed E full root ?st (set (ds_queue ?st))"
    by (auto simp: followed_def follow_def start_state_def)
  ultimately have inv: "dep_inv E full root st'" and fol: "followed E full root st' {}"
    using dep_loop_closed [OF st'(1)] by auto
  have "fst r = [] \<or> (\<forall>p. \<not> resolves E r p) \<or> answered E full (set (root # trees)) (fst r)"
    if "t \<in> set (root # trees)" "t = root \<or> expands E full t" "r \<in> set (references E full t)" for t r
  proof -
    have "served E st' r" using fol that st'(2) by (auto simp: followed_def follow_def)
    then show ?thesis using inv st'(2) by (auto simp: served_def dep_inv_def)
  qed
  then show ?thesis using inv st'(2) by (auto simp: dep_inv_def)
qed

section \<open>Samples\<close>

definition sample_header :: path where
  "sample_header = [''/'', ''w'', ''inc'', ''h.svh'']"

definition sample_shallow :: shallow_env where
  "sample_shallow = \<lparr>se_fs = sample_fs\<lparr>is_regular_file := (\<lambda>p. p = sample_header)\<rparr>,
     se_index = empty_indexer\<lparr>includeToFiles := [(''h.svh'', [sample_header])]\<rparr>,
     se_configured = [[''/'', ''lib'']], se_build_source = False,
     se_parse = (\<lambda>paths. [\<lparr>si_path = ''h.svh'', si_system = False, si_source = [''/'', ''w'', ''a.sv''], si_normal = None,
       si_buffer = (if [''/'', ''w'', ''inc''] \<in> set paths then Some sample_header else None)\<rparr>])\<rparr>"

theorem shallow_tree_as_expected_witness:
  "\<exists>tree. parseShallowTree sample_shallow = Inr ([[''/'', ''lib''], [''/'', ''w'', ''inc'']], tree)
    \<and> as_expected sample_shallow tree"
proof -
  have "map_sum id fst (parseShallowTree sample_shallow) = Inr [[''/'', ''lib''], [''/'', ''w'', ''inc'']]" by code_simp
  then obtain tree where t: "parseShallowTree sample_shallow = Inr ([[''/'', ''lib''], [''/'', ''w'', ''inc'']], tree)"
    by (cases "parseShallowTree sample_shallow") auto
  moreover have "se_configured sample_shallow = [[''/'', ''lib'']]" by (simp add: sample_shallow_def)
  ultimately show ?thesis using shallow_tree_as_expected [OF t] by auto
qed

definition sample_meta :: "nat \<Rightarrow> tree_meta" where
  "sample_meta t = (let m = \<lparr>tm_declared = [], tm_instances = [], tm_classPackages = [], tm_imports = [],
       tm_virtualInterfaces = [], tm_interfacePorts = [], tm_portTypes = [], tm_files = [], tm_package_like = False\<rparr>
     in if t = 0 then m\<lparr>tm_declared := [''top''], tm_imports := [(''p'', [''/'', ''w'', ''top.sv''])],
            tm_instances := [(''leaf'', [''/'', ''w'', ''top.sv'']), (''top'', [''/'', ''w'', ''top.sv''])],
            tm_files := [[''/'', ''w'', ''top.sv'']]\<rparr>
        else if t = 1 then m\<lparr>tm_declared := [''leaf''], tm_instances := [(''x'', [''/'', ''w'', ''leaf.sv''])],
            tm_files := [[''/'', ''w'', ''leaf.sv'']]\<rparr>
        else m\<lparr>tm_declared := [''p''], tm_imports := [(''leaf'', [''/'', ''w'', ''p.sv''])],
            tm_files := [[''/'', ''w'', ''p.sv'']], tm_package_like := True\<rparr>)"

definition sample_dep :: dep_env where
  "sample_dep = \<lparr>de_fs = sample_fs, de_index = empty_indexer\<lparr>symbolToFiles :=
       [(''leaf'', [([''/'', ''w'', ''leaf.sv''], 0)]), (''p'', [([''/'', ''w'', ''p.sv''], 0)])]\<rparr>,
     de_meta = sample_meta,
     de_document = (\<lambda>p. Inr (if p = [''/'', ''w'', ''leaf.sv''] then Some 1 else if p = [''/'', ''w'', ''p.sv''] then Some 2 else None))\<rparr>"

theorem dependent_trees_closed_witness:
  "getDependentTrees sample_dep 0 False = Inr [1, 2] \<and> (0, 2) \<in> (depends sample_dep False 0)\<^sup>*"
proof -
  have "getDependentTrees sample_dep 0 False = Inr [1, 2]" by code_simp
  then show ?thesis using dependent_trees_closed [of sample_dep 0 False "[1, 2]"] by simp
qed

end
