(* ===== verification/Cones.thy ===== *)
theory Cones
  imports Prelude
begin

text \<open>
  Tracing what drives a signal and what it drives, from include/ast/ConeTracer.h,
  src/ast/ServerCompilationAnalysis.cpp and src/ast/ConeResult.cpp: the two visitors of slang's
  elaborated design with the flags they save and restore (include/util/ScopedRestore.h), and the index
  of the uses of each value that finds the statements to visit (include/ast/ReferenceIndexer.h).

  A design is data: the nodes the visitors handle, and every other expression or statement as its
  children in the order of the visit. Symbols are numbers; which are parameters and what a modport
  port stands for is the record \<open>symbols\<close>. A set of leaves is a set of symbols.
\<close>

section \<open>Designs\<close>

type_synonym sym = nat

datatype port_direction = PortIn | PortOut | PortInOut | PortRef

record port =
  pt_direction :: port_direction
  pt_internal :: sym

text \<open>A case item has its expressions and its statement; a connection may have no port symbol (an
  interface) and no expression (an open port).\<close>

datatype node =
    NValue sym
  | NAssign node node
  | NCond "node list" node "node option"
  | NCase node "(node list \<times> node) list" "node option"
  | NInstance "(port option \<times> node option) list"
  | NOther "node list"

record symbols =
  concreteSymbol :: "sym \<Rightarrow> sym"
  isParameter :: "sym \<Rightarrow> bool"

definition addLeaf :: "symbols \<Rightarrow> sym \<Rightarrow> sym set \<Rightarrow> sym set" where
  "addLeaf E s leaves = (if isParameter E s then leaves else insert s leaves)"

section \<open>Drivers\<close>

record drivers_state =
  dt_conditions :: "sym set"
  dt_isLhs :: bool
  dt_isDriven :: bool
  dt_inCondition :: bool
  dt_port :: "sym option"
  dt_leaves :: "sym set"

definition drivers_value :: "symbols \<Rightarrow> sym \<Rightarrow> sym \<Rightarrow> drivers_state \<Rightarrow> drivers_state" where
  "drivers_value E root s st =
    (let c = concreteSymbol E s;
         st1 = (if dt_isLhs st \<and> c = root then st\<lparr>dt_isDriven := True\<rparr>
                else if \<not> dt_isLhs st \<and> dt_isDriven st then st\<lparr>dt_leaves := addLeaf E c (dt_leaves st)\<rparr>
                else st)
     in if dt_inCondition st then st1\<lparr>dt_conditions := insert c (dt_conditions st1)\<rparr> else st1)"

text \<open>What an assignment adds after its right side: the port and the conditions it stands under.\<close>

definition add_controls :: "symbols \<Rightarrow> drivers_state \<Rightarrow> drivers_state" where
  "add_controls E st = st\<lparr>dt_leaves :=
     {s \<in> dt_conditions st. \<not> isParameter E s}
     \<union> (case dt_port st of None \<Rightarrow> dt_leaves st | Some p \<Rightarrow> addLeaf E p (dt_leaves st))\<rparr>"

definition drivers_port :: "sym \<Rightarrow> port \<Rightarrow> (drivers_state \<Rightarrow> drivers_state) \<Rightarrow> drivers_state \<Rightarrow> drivers_state" where
  "drivers_port root p visit st =
    (if pt_direction p = PortIn \<and> pt_internal p = root
     then (visit (st\<lparr>dt_isDriven := True\<rparr>))\<lparr>dt_isDriven := False\<rparr>
     else if pt_direction p = PortOut
     then (visit (st\<lparr>dt_port := Some (pt_internal p)\<rparr>))\<lparr>dt_port := None\<rparr>
     else st)"

fun visit_drivers :: "symbols \<Rightarrow> sym \<Rightarrow> node \<Rightarrow> drivers_state \<Rightarrow> drivers_state" where
  "visit_drivers E root (NValue s) st = drivers_value E root s st"
| "visit_drivers E root (NAssign l r) st =
    (let st1 = (visit_drivers E root l (st\<lparr>dt_isLhs := True\<rparr>))\<lparr>dt_isLhs := False\<rparr>;
         st2 = (if dt_isDriven st1 then add_controls E (visit_drivers E root r st1) else st1)
     in st2\<lparr>dt_isDriven := False\<rparr>)"
| "visit_drivers E root (NCond conds ifTrue ifFalse) st =
    (let st1 = (fold (visit_drivers E root) conds (st\<lparr>dt_inCondition := True\<rparr>))\<lparr>dt_inCondition := False\<rparr>;
         st2 = visit_drivers E root ifTrue st1;
         st3 = (case ifFalse of None \<Rightarrow> st2 | Some n \<Rightarrow> visit_drivers E root n st2)
     in st3\<lparr>dt_conditions := dt_conditions st\<rparr>)"
| "visit_drivers E root (NCase sel items dflt) st =
    (let st1 = (visit_drivers E root sel (st\<lparr>dt_inCondition := True\<rparr>))\<lparr>dt_inCondition := False\<rparr>;
         st2 = fold (\<lambda>(exprs, stmt) s. visit_drivers E root stmt
            ((fold (visit_drivers E root) exprs (s\<lparr>dt_inCondition := True\<rparr>))\<lparr>dt_inCondition := False\<rparr>)) items st1;
         st3 = (case dflt of None \<Rightarrow> st2 | Some n \<Rightarrow> visit_drivers E root n st2)
     in st3\<lparr>dt_conditions := dt_conditions st\<rparr>)"
| "visit_drivers E root (NInstance ports) st = fold (\<lambda>(p, e) s. case (p, e) of
       (Some p', Some x) \<Rightarrow> drivers_port root p' (visit_drivers E root x) s
     | _ \<Rightarrow> s) ports st"
| "visit_drivers E root (NOther ns) st = fold (visit_drivers E root) ns st"

definition new_drivers_tracer :: drivers_state where
  "new_drivers_tracer = \<lparr>dt_conditions = {}, dt_isLhs = False, dt_isDriven = False, dt_inCondition = False,
     dt_port = None, dt_leaves = {}\<rparr>"


section \<open>Loads\<close>

text \<open>\<open>lt_null\<close> records that the expression of an open port was used.\<close>

record loads_state =
  lt_isLhs :: bool
  lt_foundRoot :: bool
  lt_leaves :: "sym set"
  lt_null :: bool

definition loads_value :: "symbols \<Rightarrow> sym \<Rightarrow> sym \<Rightarrow> loads_state \<Rightarrow> loads_state" where
  "loads_value E root s st = (let c = concreteSymbol E s in
     if lt_isLhs st then st\<lparr>lt_leaves := addLeaf E c (lt_leaves st)\<rparr>
     else if c = root then st\<lparr>lt_foundRoot := True\<rparr> else st)"

definition loads_port :: "symbols \<Rightarrow> sym \<Rightarrow> port \<Rightarrow> (loads_state \<Rightarrow> loads_state) \<Rightarrow> loads_state \<Rightarrow> loads_state" where
  "loads_port E root p use st =
    (if pt_direction p = PortOut \<and> pt_internal p = root
     then (use (st\<lparr>lt_foundRoot := True\<rparr>))\<lparr>lt_foundRoot := False\<rparr>
     else if pt_direction p = PortIn
     then (let st1 = use st;
               st2 = (if lt_foundRoot st1 then st1\<lparr>lt_leaves := addLeaf E (pt_internal p) (lt_leaves st1)\<rparr> else st1)
           in st2\<lparr>lt_foundRoot := False\<rparr>)
     else st)"

fun visit_loads :: "symbols \<Rightarrow> sym \<Rightarrow> node \<Rightarrow> loads_state \<Rightarrow> loads_state" where
  "visit_loads E root (NValue s) st = loads_value E root s st"
| "visit_loads E root (NAssign l r) st =
    (let st1 = (if lt_foundRoot st then st else visit_loads E root r st);
         st2 = (if lt_foundRoot st1 then (visit_loads E root l (st1\<lparr>lt_isLhs := True\<rparr>))\<lparr>lt_isLhs := False\<rparr> else st1)
     in st2\<lparr>lt_foundRoot := lt_foundRoot st\<rparr>)"
| "visit_loads E root (NCond conds ifTrue ifFalse) st =
    (let st1 = fold (visit_loads E root) conds st;
         st2 = visit_loads E root ifTrue st1;
         st3 = (case ifFalse of None \<Rightarrow> st2 | Some n \<Rightarrow> visit_loads E root n st2)
     in st3\<lparr>lt_foundRoot := lt_foundRoot st\<rparr>)"
| "visit_loads E root (NCase sel items dflt) st =
    (let st1 = visit_loads E root sel st;
         selectorFoundRoot = lt_foundRoot st1;
         st2 = fold (\<lambda>(exprs, stmt) s. visit_loads E root stmt
            (fold (visit_loads E root) exprs (s\<lparr>lt_foundRoot := selectorFoundRoot\<rparr>))) items st1;
         st3 = (case dflt of None \<Rightarrow> st2 | Some n \<Rightarrow> visit_loads E root n (st2\<lparr>lt_foundRoot := selectorFoundRoot\<rparr>))
     in st3\<lparr>lt_foundRoot := lt_foundRoot st\<rparr>)"
| "visit_loads E root (NInstance ports) st = fold (\<lambda>(p, e) s. case p of
       None \<Rightarrow> s
     | Some p' \<Rightarrow> loads_port E root p'
         (\<lambda>s. case e of None \<Rightarrow> s\<lparr>lt_null := True\<rparr> | Some x \<Rightarrow> visit_loads E root x s) s) ports st"
| "visit_loads E root (NOther ns) st = fold (visit_loads E root) ns st"

definition new_loads_tracer :: loads_state where
  "new_loads_tracer = \<lparr>lt_isLhs = False, lt_foundRoot = False, lt_leaves = {}, lt_null = False\<rparr>"

section \<open>Uses\<close>

text \<open>The members of a design: continuous assignments and procedural blocks with a number that stands
  for their identity, instances with their connections and the members of their body, and others.\<close>

type_synonym "use" = "nat \<times> node"

datatype member =
    MUse nat node
  | MInstance nat "(port option \<times> node option) list" "member list"
  | MOther "member list"

text \<open>The value expressions below a node.\<close>

fun node_values :: "node \<Rightarrow> sym list" where
  "node_values (NValue s) = [s]"
| "node_values (NAssign l r) = node_values l @ node_values r"
| "node_values (NCond conds t f) = concat (map node_values conds) @ node_values t
     @ (case f of None \<Rightarrow> [] | Some n \<Rightarrow> node_values n)"
| "node_values (NCase sel items dflt) = node_values sel
     @ concat (map (\<lambda>(es, stmt). concat (map node_values es) @ node_values stmt) items)
     @ (case dflt of None \<Rightarrow> [] | Some n \<Rightarrow> node_values n)"
| "node_values (NInstance ports) = concat (map (\<lambda>(p, e). case e of None \<Rightarrow> [] | Some x \<Rightarrow> node_values x) ports)"
| "node_values (NOther ns) = concat (map node_values ns)"

type_synonym uses = "sym \<rightharpoonup> use list"

definition add_use :: "use \<Rightarrow> sym \<Rightarrow> uses \<Rightarrow> uses" where
  "add_use u s m = m(s \<mapsto> (case m s of None \<Rightarrow> [u] | Some us \<Rightarrow> if u \<in> set us then us else us @ [u]))"

definition index_value :: "(sym \<Rightarrow> bool) \<Rightarrow> symbols \<Rightarrow> use \<Rightarrow> sym \<Rightarrow> uses \<Rightarrow> uses" where
  "index_value is_value E u s m =
    (let c = concreteSymbol E s in if is_value c then add_use u c m else m)"

definition index_connection :: "(sym \<Rightarrow> bool) \<Rightarrow> symbols \<Rightarrow> use \<Rightarrow> port option \<times> node option \<Rightarrow> uses \<Rightarrow> uses" where
  "index_connection is_value E u pe m = (case fst pe of
     None \<Rightarrow> m
   | Some p \<Rightarrow> (let m1 = (if is_value (pt_internal p) then add_use u (pt_internal p) m else m) in
       case snd pe of None \<Rightarrow> m1 | Some x \<Rightarrow> fold (index_value is_value E u) (node_values x) m1))"

fun index_member :: "(sym \<Rightarrow> bool) \<Rightarrow> symbols \<Rightarrow> member \<Rightarrow> uses \<Rightarrow> uses" where
  "index_member is_value E (MUse i n) m = fold (index_value is_value E (i, n)) (node_values n) m"
| "index_member is_value E (MInstance i ports ms) m =
     fold (index_member is_value E) ms (fold (index_connection is_value E (i, NInstance ports)) ports m)"
| "index_member is_value E (MOther ms) m = fold (index_member is_value E) ms m"

definition symbolToUses :: "(sym \<Rightarrow> bool) \<Rightarrow> symbols \<Rightarrow> member list \<Rightarrow> uses" where
  "symbolToUses is_value E ms = fold (index_member is_value E) ms Map.empty"

section \<open>Cones of a path\<close>

text \<open>A driver slang's analysis gives: an input port driver whose containing symbol is the body of an
  instance, a side effect whose containing symbol is an instance, and what contains it.\<close>

record value_driver =
  vd_input_port :: bool
  vd_parent_instance :: "node option"
  vd_side_effect :: bool
  vd_instance_body :: "node option"
  vd_containing :: node

definition driver_node :: "value_driver \<Rightarrow> node" where
  "driver_node d =
    (if vd_input_port d \<and> vd_parent_instance d \<noteq> None then the (vd_parent_instance d)
     else if vd_side_effect d \<and> vd_instance_body d \<noteq> None then the (vd_instance_body d)
     else vd_containing d)"

text \<open>\<open>cd_drivers\<close> gives the numbers of the drivers of a symbol, \<open>cd_members\<close> the elaborated design.\<close>

record compiled_design =
  cd_symbols :: symbols
  cd_lookup :: "string \<Rightarrow> sym option"
  cd_is_value :: "sym \<Rightarrow> bool"
  cd_drivers :: "sym \<Rightarrow> nat list"
  cd_driver :: "nat \<Rightarrow> value_driver"
  cd_members :: "member list"

definition lookupConeSymbol :: "compiled_design \<Rightarrow> string \<Rightarrow> sym result" where
  "lookupConeSymbol D path = (case cd_lookup D path of
     None \<Rightarrow> Inl (RuntimeError (''Could not find path in compiled design: '' @ path))
   | Some s \<Rightarrow> Inr s)"

definition cone_drivers :: "compiled_design \<Rightarrow> sym \<Rightarrow> sym \<Rightarrow> nat list" where
  "cone_drivers D found result = cd_drivers D result
     @ (if found = result then []
        else fold (\<lambda>d ds. if d \<in> set (cd_drivers D result @ ds) then ds else ds @ [d]) (cd_drivers D found) [])"

definition getDriverCone :: "compiled_design \<Rightarrow> string \<Rightarrow> sym set result" where
  "getDriverCone D path = (case lookupConeSymbol D path of
     Inl e \<Rightarrow> Inl e
   | Inr s \<Rightarrow> (let result = concreteSymbol (cd_symbols D) s in
       if \<not> cd_is_value D s \<or> \<not> cd_is_value D result
       then Inl (RuntimeError (''Path is not a value symbol: '' @ path))
       else Inr (dt_leaves (fold (\<lambda>d. visit_drivers (cd_symbols D) result (driver_node (cd_driver D d)))
         (cone_drivers D s result) new_drivers_tracer))))"

text \<open>No result of the second kind: the expression of an open port was used, which is undefined.\<close>

definition getLoadCone :: "compiled_design \<Rightarrow> string \<Rightarrow> sym set result" where
  "getLoadCone D path = (case lookupConeSymbol D path of
     Inl e \<Rightarrow> Inl e
   | Inr s \<Rightarrow> (let root = concreteSymbol (cd_symbols D) s in
       case (if cd_is_value D root then symbolToUses (cd_is_value D) (cd_symbols D) (cd_members D) root else None) of
         None \<Rightarrow> Inl (RuntimeError (''Could not find reference to: '' @ path))
     | Some uses \<Rightarrow> (let st = fold (visit_loads (cd_symbols D) root \<circ> snd) uses new_loads_tracer in
           if lt_null st then Inl Undefined else Inr (lt_leaves st))))"

text \<open>Leaves in the order of the set, with their paths.\<close>

fun getPaths :: "string list \<Rightarrow> string list \<Rightarrow> string list" where
  "getPaths [] seen = []"
| "getPaths (hier # rest) seen = (if hier \<in> set seen then getPaths rest seen else hier # getPaths rest (hier # seen))"

end
