(* ===== verification/ConeRuns.thy ===== *)
theory ConeRuns
  imports Cones
begin

text \<open>
  What the cone tracers find: the flows of a design are declared on its syntax, each with the signals
  it drives and those it depends on, and the visitors with their saved and restored flags collect
  exactly the flows of the root. Drivers and loads are dual but for the items of case statements.
\<close>

section \<open>Flows\<close>

text \<open>Expressions: values and operators over them.\<close>

fun pure :: "node \<Rightarrow> bool" where
  "pure (NValue s) = True"
| "pure (NOther ns) = list_all pure ns"
| "pure _ = False"

fun syms :: "symbols \<Rightarrow> node \<Rightarrow> sym set" where
  "syms E (NValue s) = {concreteSymbol E s}"
| "syms E (NOther ns) = (\<Union>n \<in> set ns. syms E n)"
| "syms E _ = {}"

abbreviation all_syms :: "symbols \<Rightarrow> node list \<Rightarrow> sym set" where
  "all_syms E ns \<equiv> (\<Union>n \<in> set ns. syms E n)"

text \<open>The flows of a node under the controls \<open>C\<close>: what is driven and what it depends on. With
  \<open>later\<close> the expressions of a case item control the items after it too.\<close>

type_synonym flow = "sym set \<times> sym set"

fun flows :: "symbols \<Rightarrow> bool \<Rightarrow> sym set \<Rightarrow> node \<Rightarrow> flow set" where
  "flows E later C (NValue s) = {}"
| "flows E later C (NAssign l r) = {(syms E l, syms E r \<union> C)}"
| "flows E later C (NCond conds t f) = (let D = C \<union> all_syms E conds in
     flows E later D t \<union> (case f of None \<Rightarrow> {} | Some n \<Rightarrow> flows E later D n))"
| "flows E later C (NCase sel items dflt) = (case fold (\<lambda>(exprs, stmt) (D, F).
       (if later then D \<union> all_syms E exprs else D, F \<union> flows E later (D \<union> all_syms E exprs) stmt))
       items (C \<union> syms E sel, {}) of
     (D, F) \<Rightarrow> F \<union> (case dflt of None \<Rightarrow> {} | Some n \<Rightarrow> flows E later D n))"
| "flows E later C (NInstance ports) = (\<Union>(p, e) \<in> set ports. case (p, e) of
     (Some p', Some x) \<Rightarrow> if pt_direction p' = PortIn then {({pt_internal p'}, syms E x)}
       else if pt_direction p' = PortOut then flows E later {pt_internal p'} x else {}
   | _ \<Rightarrow> {})"
| "flows E later C (NOther ns) = (\<Union>n \<in> set ns. flows E later C n)"

text \<open>The flows of \<open>F\<close> that reach the root, and those that leave it.\<close>

definition into :: "symbols \<Rightarrow> sym \<Rightarrow> flow set \<Rightarrow> sym set" where
  "into E root F = {s. \<not> isParameter E s \<and> (\<exists>(T, S) \<in> F. root \<in> T \<and> s \<in> S)}"

definition out_of :: "symbols \<Rightarrow> sym \<Rightarrow> flow set \<Rightarrow> sym set" where
  "out_of E root F = {t. \<not> isParameter E t \<and> (\<exists>(T, S) \<in> F. root \<in> S \<and> t \<in> T)}"

lemma into_simps [simp]:
  "into E root {} = {}" "into E root (F \<union> G) = into E root F \<union> into E root G"
  "into E root (\<Union>x \<in> A. f x) = (\<Union>x \<in> A. into E root (f x))"
  "into E root {(T, S)} = (if root \<in> T then {s \<in> S. \<not> isParameter E s} else {})"
  by (auto simp: into_def)

lemma out_of_simps [simp]:
  "out_of E root {} = {}" "out_of E root (F \<union> G) = out_of E root F \<union> out_of E root G"
  "out_of E root (\<Union>x \<in> A. f x) = (\<Union>x \<in> A. out_of E root (f x))"
  "out_of E root {(T, S)} = (if root \<in> S then {t \<in> T. \<not> isParameter E t} else {})"
  by (auto simp: out_of_def)

section \<open>Designs the elaborated tree has\<close>

text \<open>Assignments stand in statements, not in expressions; instances at the top; the connection of an
  output port is an assignment from an empty argument.\<close>

fun structured :: "bool \<Rightarrow> node \<Rightarrow> bool" where
  "structured outer (NValue s) = True"
| "structured outer (NAssign l r) = (pure l \<and> pure r)"
| "structured outer (NCond conds t f) = (list_all pure conds \<and> structured False t
     \<and> (case f of None \<Rightarrow> True | Some n \<Rightarrow> structured False n))"
| "structured outer (NCase sel items dflt) = (pure sel
     \<and> list_all (\<lambda>(es, stmt). list_all pure es \<and> structured False stmt) items
     \<and> (case dflt of None \<Rightarrow> True | Some n \<Rightarrow> structured False n))"
| "structured outer (NInstance ports) = (outer \<and> list_all (\<lambda>(p, e). case (p, e) of
     (Some p', Some x) \<Rightarrow> if pt_direction p' = PortIn then pure x
       else if pt_direction p' = PortOut then (case x of NAssign l r \<Rightarrow> pure l \<and> r = NOther [] | _ \<Rightarrow> False) else True
   | _ \<Rightarrow> True) ports)"
| "structured outer (NOther ns) = list_all (structured outer) ns"

section \<open>The tracer of drivers\<close>

definition controlled :: "drivers_state \<Rightarrow> sym set" where
  "controlled st = dt_conditions st \<union> set_option (dt_port st)"

text \<open>Between statements no flag is set.\<close>

definition idle :: "drivers_state \<Rightarrow> bool" where
  "idle st \<longleftrightarrow> \<not> dt_isLhs st \<and> \<not> dt_isDriven st \<and> \<not> dt_inCondition st"

definition seen_by :: "symbols \<Rightarrow> sym \<Rightarrow> sym set \<Rightarrow> drivers_state \<Rightarrow> drivers_state" where
  "seen_by E root X st = st\<lparr>
     dt_isDriven := dt_isDriven st \<or> dt_isLhs st \<and> root \<in> X,
     dt_leaves := dt_leaves st \<union> (if \<not> dt_isLhs st \<and> dt_isDriven st then {s \<in> X. \<not> isParameter E s} else {}),
     dt_conditions := dt_conditions st \<union> (if dt_inCondition st then X else {})\<rparr>"

lemma seen_by_empty [simp]: "seen_by E root {} st = st"
  by (simp add: seen_by_def)

lemma seen_by_seen_by: "seen_by E root Y (seen_by E root X st) = seen_by E root (X \<union> Y) st"
  by (rule drivers_state.equality) (auto simp: seen_by_def)

lemma fold_seen_by:
  "list_all pure ns \<Longrightarrow> (\<And>n st. n \<in> set ns \<Longrightarrow> pure n \<Longrightarrow> visit_drivers E root n st = seen_by E root (syms E n) st)
    \<Longrightarrow> fold (visit_drivers E root) ns st = seen_by E root (all_syms E ns) st"
  by (induction ns arbitrary: st) (auto simp: seen_by_seen_by)

lemma visit_pure: "pure e \<Longrightarrow> visit_drivers E root e st = seen_by E root (syms E e) st"
proof (induction e arbitrary: st)
  case (NValue s)
  show ?case
    by (rule drivers_state.equality) (auto simp: drivers_value_def seen_by_def addLeaf_def Let_def)
next
  case (NOther ns)
  then show ?case using fold_seen_by [of ns E root st] by simp
qed simp_all

lemma visit_pure_list:
  "list_all pure es \<Longrightarrow> fold (visit_drivers E root) es st = seen_by E root (all_syms E es) st"
  using visit_pure [of "NOther es" E root st] by simp

lemma visit_condition:
  "idle st \<Longrightarrow> (seen_by E root X (st\<lparr>dt_inCondition := True\<rparr>))\<lparr>dt_inCondition := False\<rparr>
    = st\<lparr>dt_conditions := dt_conditions st \<union> X\<rparr>"
  by (rule drivers_state.equality) (auto simp: seen_by_def idle_def)

definition collect :: "sym set \<Rightarrow> drivers_state \<Rightarrow> drivers_state" where
  "collect L st = st\<lparr>dt_leaves := dt_leaves st \<union> L\<rparr>"

lemma collect_simps [simp]:
  "collect {} st = st" "collect L (collect M st) = collect (M \<union> L) st"
  "idle (collect L st) = idle st" "controlled (collect L st) = controlled st"
  "dt_conditions (collect L st) = dt_conditions st" "dt_port (collect L st) = dt_port st"
  by (auto simp: collect_def idle_def controlled_def Un_assoc)

lemma visit_assign:
  assumes "pure l" "pure r" and "idle st"
  shows "visit_drivers E root (NAssign l r) st
    = collect (if root \<in> syms E l then {s \<in> syms E r \<union> controlled st. \<not> isParameter E s} else {}) st"
  using assms
  by (intro drivers_state.equality)
     (auto simp: visit_pure seen_by_def add_controls_def addLeaf_def controlled_def collect_def idle_def Let_def
       split: option.splits)

definition under :: "sym set \<Rightarrow> drivers_state \<Rightarrow> drivers_state" where
  "under K st = st\<lparr>dt_conditions := dt_conditions st \<union> K\<rparr>"

lemma under_simps [simp]:
  "under {} st = st" "under K (under J st) = under (J \<union> K) st" "collect L (under K st) = under K (collect L st)"
  "idle (under K st) = idle st" "controlled (under K st) = controlled st \<union> K"
  "(under K st)\<lparr>dt_conditions := dt_conditions st\<rparr> = st"
  "(under K (collect L st))\<lparr>dt_conditions := dt_conditions st\<rparr> = collect L st"
  by (auto simp: under_def collect_def idle_def controlled_def Un_ac)

lemma visit_condition_list:
  "list_all pure es \<Longrightarrow> idle st \<Longrightarrow>
    (fold (visit_drivers E root) es (st\<lparr>dt_inCondition := True\<rparr>))\<lparr>dt_inCondition := False\<rparr> = under (all_syms E es) st"
  by (simp add: visit_pure_list visit_condition under_def)

text \<open>What a visit of a statement does: it collects the flows into the root and leaves the flags.\<close>

definition traced :: "symbols \<Rightarrow> sym \<Rightarrow> node \<Rightarrow> drivers_state \<Rightarrow> bool" where
  "traced E root n st \<longleftrightarrow> visit_drivers E root n st = collect (into E root (flows E True (controlled st) n)) st"

lemma traced_list:
  "(\<And>n st. n \<in> set ns \<Longrightarrow> P st \<Longrightarrow> traced E root n st) \<Longrightarrow> (\<And>L st. P (collect L st) = P st) \<Longrightarrow> P st
    \<Longrightarrow> traced E root (NOther ns) st"
proof (induction ns arbitrary: st)
  case (Cons n ns)
  have "traced E root n st" "traced E root (NOther ns) (collect (into E root (flows E True (controlled st) n)) st)"
    using Cons by auto
  then show ?case by (simp add: traced_def)
qed (simp add: traced_def)

text \<open>The flows of the items of a case statement, one after the other.\<close>

fun case_flows :: "symbols \<Rightarrow> bool \<Rightarrow> (sym set \<Rightarrow> node \<Rightarrow> flow set) \<Rightarrow> sym set \<Rightarrow> (node list \<times> node) list \<Rightarrow> flow set" where
  "case_flows E later g C [] = {}"
| "case_flows E later g C ((es, stmt) # items) =
     g (C \<union> all_syms E es) stmt \<union> case_flows E later g (if later then C \<union> all_syms E es else C) items"

definition item_syms :: "symbols \<Rightarrow> (node list \<times> node) list \<Rightarrow> sym set" where
  "item_syms E items = (\<Union>(es, stmt) \<in> set items. all_syms E es)"

lemma item_syms_simps [simp]:
  "item_syms E [] = {}" "item_syms E ((es, stmt) # items) = all_syms E es \<union> item_syms E items"
  by (auto simp: item_syms_def)

lemma case_items_fold:
  "fold (\<lambda>(exprs, stmt) (D, F). (if later then D \<union> all_syms E exprs else D, F \<union> g (D \<union> all_syms E exprs) stmt)) items (C, F)
    = (if later then C \<union> item_syms E items else C, F \<union> case_flows E later g C items)"
  by (induction items arbitrary: C F) (auto simp: Un_assoc)

lemma flows_case:
  "flows E later C (NCase sel items dflt) = case_flows E later (flows E later) (C \<union> syms E sel) items
    \<union> (case dflt of None \<Rightarrow> {} | Some n \<Rightarrow>
        flows E later (if later then C \<union> syms E sel \<union> item_syms E items else C \<union> syms E sel) n)"
  by (simp only: flows.simps case_items_fold prod.case) simp

lemma traced_items:
  "(\<And>es stmt st. (es, stmt) \<in> set items \<Longrightarrow> idle st \<Longrightarrow> list_all pure es \<and> traced E root stmt st) \<Longrightarrow> idle st \<Longrightarrow>
    fold (\<lambda>(exprs, stmt) s. visit_drivers E root stmt
            ((fold (visit_drivers E root) exprs (s\<lparr>dt_inCondition := True\<rparr>))\<lparr>dt_inCondition := False\<rparr>)) items st
    = under (item_syms E items) (collect (into E root (case_flows E True (flows E True) (controlled st) items)) st)"
proof (induction items arbitrary: st)
  case (Cons i items)
  obtain es s where i: "i = (es, s)" by (cases i)
  let ?st = "under (all_syms E es) st"
  let ?L = "into E root (flows E True (controlled ?st) s)"
  have *: "list_all pure es" "traced E root s ?st"
    using Cons.prems(1) [of es s ?st] Cons.prems(2) i by auto
  have "fold (\<lambda>(exprs, stmt) s. visit_drivers E root stmt
      ((fold (visit_drivers E root) exprs (s\<lparr>dt_inCondition := True\<rparr>))\<lparr>dt_inCondition := False\<rparr>)) items (collect ?L ?st)
    = under (item_syms E items) (collect (into E root (case_flows E True (flows E True) (controlled (collect ?L ?st)) items)) (collect ?L ?st))"
    using Cons.prems i by (intro Cons.IH) auto
  then show ?case
    using * Cons.prems(2) by (simp add: i visit_condition_list traced_def)
qed simp

definition calm :: "bool \<Rightarrow> drivers_state \<Rightarrow> bool" where
  "calm outer st \<longleftrightarrow> idle st \<and> (outer \<longrightarrow> controlled st = {})"

lemma calm_collect [simp]: "calm outer (collect L st) = calm outer st"
  by (simp add: calm_def)

lemma calm_False [simp]: "calm False st = idle st"
  by (simp add: calm_def)

lemma traced_assign: "pure l \<Longrightarrow> pure r \<Longrightarrow> idle st \<Longrightarrow> traced E root (NAssign l r) st"
  by (simp add: traced_def visit_assign del: visit_drivers.simps)

lemma traced_cond:
  assumes "list_all pure conds" "idle st"
    and t: "traced E root t (under (all_syms E conds) st)"
    and f: "\<And>n L. f = Some n \<Longrightarrow> traced E root n (collect L (under (all_syms E conds) st))"
  shows "traced E root (NCond conds t f) st"
  using t f assms(1,2) unfolding traced_def
  by (cases f) (simp_all add: visit_condition_list Let_def)

lemma traced_case:
  assumes "pure sel" "idle st"
    and items: "\<And>es stmt st. (es, stmt) \<in> set items \<Longrightarrow> idle st \<Longrightarrow> list_all pure es \<and> traced E root stmt st"
    and dflt: "\<And>n st. dflt = Some n \<Longrightarrow> idle st \<Longrightarrow> traced E root n st"
  shows "traced E root (NCase sel items dflt) st"
proof -
  have "(visit_drivers E root sel (st\<lparr>dt_inCondition := True\<rparr>))\<lparr>dt_inCondition := False\<rparr> = under (syms E sel) st"
    using assms(1,2) by (simp add: visit_pure visit_condition under_def)
  then show ?thesis
    using items dflt assms(2) unfolding traced_def flows_case
    by (cases dflt) (simp_all add: traced_items [unfolded traced_def] Let_def Un_assoc del: flows.simps)
qed

text \<open>The flows through the ports of an instance.\<close>

abbreviation port_flows :: "symbols \<Rightarrow> bool \<Rightarrow> port option \<times> node option \<Rightarrow> flow set" where
  "port_flows E later pe \<equiv> (case pe of
     (Some p', Some x) \<Rightarrow> if pt_direction p' = PortIn then {({pt_internal p'}, syms E x)}
       else if pt_direction p' = PortOut then flows E later {pt_internal p'} x else {}
   | _ \<Rightarrow> {})"

abbreviation wired :: "port option \<times> node option \<Rightarrow> bool" where
  "wired pe \<equiv> (case pe of
     (Some p', Some x) \<Rightarrow> if pt_direction p' = PortIn then pure x
       else if pt_direction p' = PortOut then (case x of NAssign l r \<Rightarrow> pure l \<and> r = NOther [] | _ \<Rightarrow> False) else True
   | _ \<Rightarrow> True)"

lemma drivers_port_traced:
  assumes "wired (Some p, Some x)" "idle st" "controlled st = {}"
  shows "drivers_port root p (visit_drivers E root x) st = collect (into E root (port_flows E True (Some p, Some x))) st"
proof (cases "pt_direction p = PortOut")
  case True
  then obtain l where x: "x = NAssign l (NOther [])" "pure l"
    using assms(1) by (cases x) auto
  have "traced E root x (st\<lparr>dt_port := Some (pt_internal p)\<rparr>)"
    using x assms(2) by (simp add: traced_assign idle_def)
  then show ?thesis
    using True x assms(2,3)
    by (intro drivers_state.equality)
       (auto simp: traced_def drivers_port_def collect_def controlled_def simp del: visit_drivers.simps)
next
  case False
  then show ?thesis
    using assms by (intro drivers_state.equality)
      (auto simp: drivers_port_def visit_pure seen_by_def collect_def controlled_def idle_def)
qed

lemma traced_instance:
  "list_all wired ports \<Longrightarrow> idle st \<Longrightarrow> controlled st = {} \<Longrightarrow> traced E root (NInstance ports) st"
proof (induction ports arbitrary: st)
  case (Cons pe ports)
  obtain p e where pe: "pe = (p, e)" by (cases pe)
  let ?L = "into E root (port_flows E True pe)"
  have "(case (p, e) of (Some p', Some x) \<Rightarrow> drivers_port root p' (visit_drivers E root x) st | _ \<Rightarrow> st) = collect ?L st"
    using Cons.prems pe drivers_port_traced [of _ _ st root E] by (auto split: option.splits)
  moreover have "traced E root (NInstance ports) (collect ?L st)"
    using Cons by simp
  ultimately show ?case
    by (simp add: traced_def pe)
qed (simp add: traced_def)

theorem structured_traced: "structured outer n \<Longrightarrow> calm outer st \<Longrightarrow> traced E root n st"
proof (induction outer n arbitrary: st rule: structured.induct)
  case (1 outer s)
  then show ?case
    by (auto simp: traced_def calm_def idle_def drivers_value_def Let_def)
next
  case (2 outer l r)
  then show ?case by (simp add: traced_assign calm_def)
next
  case (3 outer conds t f)
  then show ?case
    by (intro traced_cond) (auto simp: calm_def)
next
  case (4 outer sel items dflt)
  then show ?case
    by (intro traced_case) (auto simp: calm_def list_all_iff)
next
  case (5 outer ports)
  then show ?case by (intro traced_instance) (auto simp: calm_def)
next
  case (6 outer ns)
  then show ?case
    by (intro traced_list [where P = "calm outer"]) (auto simp: list_all_iff)
qed

section \<open>The driver cone of a path\<close>

lemma set_cone_drivers:
  "set (cone_drivers D s r) = set (cd_drivers D r) \<union> (if s = r then {} else set (cd_drivers D s))"
proof -
  have "set (fold (\<lambda>d ds. if d \<in> set (base @ ds) then ds else ds @ [d]) xs ds) \<union> set base = set ds \<union> set xs \<union> set base"
    for base ds :: "nat list" and xs
    by (induction xs arbitrary: ds) auto
  from this [of "cd_drivers D r" "cd_drivers D s" "[]"] show ?thesis
    by (auto simp: cone_drivers_def)
qed

lemma visit_drivers_list:
  "(\<And>n. n \<in> set ns \<Longrightarrow> structured True n) \<Longrightarrow> calm True st \<Longrightarrow>
    fold (visit_drivers E root) ns st = collect (\<Union>n \<in> set ns. into E root (flows E True {} n)) st"
proof (induction ns arbitrary: st)
  case (Cons n ns)
  have "visit_drivers E root n st = collect (into E root (flows E True {} n)) st"
    using structured_traced [of True n st E root] Cons.prems by (simp add: traced_def calm_def)
  then show ?case
    using Cons by simp
qed simp

lemma driver_cone_flows:
  assumes "lookupConeSymbol D path = Inr s" and "root = concreteSymbol (cd_symbols D) s"
    and "cd_is_value D s" "cd_is_value D root"
    and "\<And>d. d \<in> set (cd_drivers D root) \<union> set (cd_drivers D s) \<Longrightarrow> structured True (driver_node (cd_driver D d))"
  shows "getDriverCone D path = Inr (\<Union>d \<in> set (cd_drivers D root) \<union> set (cd_drivers D s).
    into (cd_symbols D) root (flows (cd_symbols D) True {} (driver_node (cd_driver D d))))"
proof -
  let ?ns = "map (driver_node \<circ> cd_driver D) (cone_drivers D s root)"
  have "fold (visit_drivers (cd_symbols D) root) ?ns new_drivers_tracer
      = collect (\<Union>n \<in> set ?ns. into (cd_symbols D) root (flows (cd_symbols D) True {} n)) new_drivers_tracer"
    using assms(5) by (intro visit_drivers_list)
      (auto simp: set_cone_drivers calm_def idle_def controlled_def new_drivers_tracer_def split: if_splits)
  moreover have "set (cone_drivers D s root) = set (cd_drivers D root) \<union> set (cd_drivers D s)"
    by (auto simp: set_cone_drivers)
  ultimately show ?thesis
    using assms(1-4) by (simp add: getDriverCone_def fold_map o_def collect_def new_drivers_tracer_def Let_def)
qed

text \<open>C35. The driver cone of a value is what the flows into it carry, through the right sides, conditions and
  ports of the drivers the analysis names, for the value and for the modport port it was found by: the
  order of the drivers and the flags of the visitor play no part.\<close>

theorem driver_cone_of_drivers:
  assumes "lookupConeSymbol D path = Inr s" and "root = concreteSymbol (cd_symbols D) s"
    and "cd_is_value D s" "cd_is_value D root"
    and "\<And>d. d \<in> set (cd_drivers D root) \<union> set (cd_drivers D s) \<Longrightarrow> structured True (driver_node (cd_driver D d))"
  shows "getDriverCone D path = Inr (\<Union>d \<in> set (cd_drivers D root) \<union> set (cd_drivers D s).
    into (cd_symbols D) root (flows (cd_symbols D) True {} (driver_node (cd_driver D d))))"
  using assms by (rule driver_cone_flows)

text \<open>A block \<open>if (sel) r = a; else r = b;\<close> and an instance with the input port \<open>p\<close> connected to \<open>r\<close>: the
  symbols are \<open>r = 0\<close>, \<open>a = 1\<close>, \<open>b = 2\<close>, \<open>sel = 3\<close>, \<open>p = 5\<close> and the parameter 4.\<close>

definition small_block :: node where
  "small_block = NCond [NValue 3] (NAssign (NValue 0) (NOther [NValue 1, NValue 4])) (Some (NAssign (NValue 0) (NValue 2)))"

definition small_ports :: "(port option \<times> node option) list" where
  "small_ports = [(Some \<lparr>pt_direction = PortIn, pt_internal = 5\<rparr>, Some (NValue 0)), (None, None)]"

definition small_symbols :: symbols where
  "small_symbols = \<lparr>concreteSymbol = (\<lambda>s. s), isParameter = (\<lambda>s. s = 4)\<rparr>"

definition small_driver :: "nat \<Rightarrow> value_driver" where
  "small_driver d = \<lparr>vd_input_port = (d = 1), vd_parent_instance = Some (NInstance small_ports), vd_side_effect = False,
     vd_instance_body = None, vd_containing = small_block\<rparr>"

definition small_design :: compiled_design where
  "small_design = \<lparr>cd_symbols = small_symbols,
     cd_lookup = (\<lambda>p. if p = ''t.r'' then Some 0 else if p = ''t.a'' then Some 1 else if p = ''t.u.p'' then Some 5 else None),
     cd_is_value = (\<lambda>s. True), cd_drivers = (\<lambda>s. if s = 0 then [0] else if s = 5 then [1] else []),
     cd_driver = small_driver, cd_members = [MUse 0 small_block, MInstance 1 small_ports []]\<rparr>"

lemmas small_defs = small_design_def small_driver_def small_symbols_def small_ports_def small_block_def
  driver_node_def lookupConeSymbol_def

lemma driver_cone_of_drivers_witness:
  "getDriverCone small_design ''t.r'' = Inr {1, 2, 3} \<and> getDriverCone small_design ''t.u.p'' = Inr {0}"
proof -
  have "getDriverCone small_design ''t.r'' = Inr {1, 2, 3}"
    by (subst driver_cone_of_drivers [where s = 0 and root = 0])
       (auto simp: small_defs into_def Let_def)
  moreover have "getDriverCone small_design ''t.u.p'' = Inr {0}"
    by (subst driver_cone_of_drivers [where s = 5 and root = 5])
       (auto simp: small_defs into_def Let_def)
  ultimately show ?thesis by blast
qed

end
