(* ===== verification/ConeLoads.thy ===== *)
theory ConeLoads
  imports ConeRuns
begin

text \<open>
  The tracer of loads collects the flows out of the root, the index of uses misses none, and loads
  and drivers agree: a signal reported as driven by another has that one among its drivers.
\<close>

section \<open>The tracer of loads\<close>

definition met_by :: "symbols \<Rightarrow> sym \<Rightarrow> sym set \<Rightarrow> loads_state \<Rightarrow> loads_state" where
  "met_by E root X st = st\<lparr>
     lt_foundRoot := lt_foundRoot st \<or> \<not> lt_isLhs st \<and> root \<in> X,
     lt_leaves := lt_leaves st \<union> (if lt_isLhs st then {s \<in> X. \<not> isParameter E s} else {})\<rparr>"

lemma met_by_empty [simp]: "met_by E root {} st = st"
  by (simp add: met_by_def)

lemma met_by_met_by: "met_by E root Y (met_by E root X st) = met_by E root (X \<union> Y) st"
  by (rule loads_state.equality) (auto simp: met_by_def)

lemma fold_met_by:
  "list_all pure ns \<Longrightarrow> (\<And>n st. n \<in> set ns \<Longrightarrow> pure n \<Longrightarrow> visit_loads E root n st = met_by E root (syms E n) st)
    \<Longrightarrow> fold (visit_loads E root) ns st = met_by E root (all_syms E ns) st"
  by (induction ns arbitrary: st) (auto simp: met_by_met_by)

lemma loads_pure: "pure e \<Longrightarrow> visit_loads E root e st = met_by E root (syms E e) st"
proof (induction e arbitrary: st)
  case (NValue s)
  show ?case
    by (rule loads_state.equality) (auto simp: loads_value_def met_by_def addLeaf_def Let_def)
next
  case (NOther ns)
  then show ?case using fold_met_by [of ns E root st] by simp
qed simp_all

lemma loads_pure_list:
  "list_all pure es \<Longrightarrow> fold (visit_loads E root) es st = met_by E root (all_syms E es) st"
  using loads_pure [of "NOther es" E root st] by simp

text \<open>A statement that names the root outside assignments and conditions would leave it found.\<close>

fun unmentioned :: "symbols \<Rightarrow> sym \<Rightarrow> node \<Rightarrow> bool" where
  "unmentioned E root (NValue s) = (concreteSymbol E s \<noteq> root)"
| "unmentioned E root (NCond conds t f) =
    (unmentioned E root t \<and> (case f of None \<Rightarrow> True | Some n \<Rightarrow> unmentioned E root n))"
| "unmentioned E root (NCase sel items dflt) = (list_all (\<lambda>(es, stmt). unmentioned E root stmt) items
    \<and> (case dflt of None \<Rightarrow> True | Some n \<Rightarrow> unmentioned E root n))"
| "unmentioned E root (NOther ns) = list_all (unmentioned E root) ns"
| "unmentioned E root _ = True"

text \<open>The open ports whose expression is used.\<close>

fun opens :: "sym \<Rightarrow> node \<Rightarrow> bool" where
  "opens root (NInstance ports) = list_ex (\<lambda>(p, e). case (p, e) of
     (Some p', None) \<Rightarrow> pt_direction p' = PortIn \<or> pt_direction p' = PortOut \<and> pt_internal p' = root
   | _ \<Rightarrow> False) ports"
| "opens root (NOther ns) = list_ex (opens root) ns"
| "opens root _ = False"

definition gather :: "sym set \<Rightarrow> bool \<Rightarrow> loads_state \<Rightarrow> loads_state" where
  "gather L b st = st\<lparr>lt_leaves := lt_leaves st \<union> L, lt_null := lt_null st \<or> b\<rparr>"

lemma gather_simps [simp]:
  "gather {} False st = st" "gather L b (gather M c st) = gather (M \<union> L) (c \<or> b) st"
  "lt_isLhs (gather L b st) = lt_isLhs st" "lt_foundRoot (gather L b st) = lt_foundRoot st"
  "lt_leaves (gather L b st) = lt_leaves st \<union> L" "lt_null (gather L b st) = (lt_null st \<or> b)"
  "(gather L b (st\<lparr>lt_foundRoot := x\<rparr>))\<lparr>lt_foundRoot := y\<rparr> = gather L b (st\<lparr>lt_foundRoot := y\<rparr>)"
  "(gather L b st)\<lparr>lt_foundRoot := lt_foundRoot st\<rparr> = gather L b st"
  by (auto simp: gather_def Un_assoc)

definition loaded :: "symbols \<Rightarrow> sym \<Rightarrow> node \<Rightarrow> loads_state \<Rightarrow> bool" where
  "loaded E root n st \<longleftrightarrow> (\<forall>C. (root \<in> C) = lt_foundRoot st \<longrightarrow>
     visit_loads E root n st = gather (out_of E root (flows E False C n)) (opens root n) st)"

lemma loadedD: "loaded E root n st \<Longrightarrow> (root \<in> C) = lt_foundRoot st \<Longrightarrow>
    visit_loads E root n st = gather (out_of E root (flows E False C n)) (opens root n) st"
  by (simp add: loaded_def)

lemma loaded_list:
  "(\<And>n st. n \<in> set ns \<Longrightarrow> P st \<Longrightarrow> loaded E root n st) \<Longrightarrow> (\<And>L b st. P (gather L b st) = P st) \<Longrightarrow> P st
    \<Longrightarrow> loaded E root (NOther ns) st"
proof (induction ns arbitrary: st)
  case (Cons n ns)
  show ?case unfolding loaded_def
  proof (intro allI impI)
    fix C assume C: "(root \<in> C) = lt_foundRoot st"
    let ?st = "gather (out_of E root (flows E False C n)) (opens root n) st"
    have "visit_loads E root n st = ?st" "loaded E root (NOther ns) ?st"
      using Cons C by (auto intro: loadedD)
    then show "visit_loads E root (NOther (n # ns)) st =
        gather (out_of E root (flows E False C (NOther (n # ns)))) (opens root (NOther (n # ns))) st"
      using loadedD [of E root "NOther ns" ?st C] C by simp
  qed
qed (simp add: loaded_def)

lemma loaded_assign: "pure l \<Longrightarrow> pure r \<Longrightarrow> \<not> lt_isLhs st \<Longrightarrow> loaded E root (NAssign l r) st"
  unfolding loaded_def
  by (intro allI impI loads_state.equality) (auto simp: loads_pure met_by_def gather_def Let_def)

lemma statements_not_open: "structured False n \<Longrightarrow> \<not> opens root n"
  by (induction "False" n rule: structured.induct) (auto simp: list_all_iff list_ex_iff)

lemma met_by_condition: "\<not> lt_isLhs st \<Longrightarrow> met_by E root X st = st\<lparr>lt_foundRoot := lt_foundRoot st \<or> root \<in> X\<rparr>"
  by (simp add: met_by_def)

lemma loaded_cond:
  assumes conds: "list_all pure conds" and st: "\<not> lt_isLhs st"
    and t: "structured False t" "\<And>st. \<not> lt_isLhs st \<Longrightarrow> loaded E root t st"
    and f: "\<And>n. f = Some n \<Longrightarrow> structured False n"
      "\<And>n st. f = Some n \<Longrightarrow> \<not> lt_isLhs st \<Longrightarrow> loaded E root n st"
  shows "loaded E root (NCond conds t f) st"
  unfolding loaded_def
proof (intro allI impI)
  fix C assume C: "(root \<in> C) = lt_foundRoot st"
  let ?D = "C \<union> all_syms E conds"
  let ?st = "st\<lparr>lt_foundRoot := lt_foundRoot st \<or> root \<in> all_syms E conds\<rparr>"
  have st1: "fold (visit_loads E root) conds st = ?st"
    using conds st by (simp add: loads_pure_list met_by_condition)
  have "visit_loads E root t ?st = gather (out_of E root (flows E False ?D t)) False ?st"
    using loadedD [OF t(2), of ?st ?D] C st statements_not_open [OF t(1)] by simp
  moreover have "visit_loads E root n (gather L False ?st) = gather (out_of E root (flows E False ?D n)) False (gather L False ?st)"
    if "f = Some n" for n L
    using loadedD [OF f(2), of n "gather L False ?st" ?D] C st statements_not_open [OF f(1)] that by simp
  ultimately show "visit_loads E root (NCond conds t f) st
      = gather (out_of E root (flows E False C (NCond conds t f))) (opens root (NCond conds t f)) st"
    by (cases f) (simp_all add: st1 Let_def)
qed

lemma loaded_items:
  assumes "\<And>es stmt st. (es, stmt) \<in> set items \<Longrightarrow> \<not> lt_isLhs st \<Longrightarrow>
      list_all pure es \<and> structured False stmt \<and> loaded E root stmt st"
    and "\<not> lt_isLhs st"
  shows "\<exists>found. fold (\<lambda>(exprs, stmt) s. visit_loads E root stmt
            (fold (visit_loads E root) exprs (s\<lparr>lt_foundRoot := root \<in> C\<rparr>))) items st
    = (gather (out_of E root (case_flows E False (flows E False) C items)) False st)\<lparr>lt_foundRoot := found\<rparr>"
  using assms
proof (induction items arbitrary: st)
  case (Cons i items)
  obtain es stmt where i: "i = (es, stmt)" by (cases i)
  let ?st = "st\<lparr>lt_foundRoot := root \<in> C \<or> root \<in> all_syms E es\<rparr>"
  let ?L = "out_of E root (flows E False (C \<union> all_syms E es) stmt)"
  have *: "list_all pure es" "structured False stmt" "loaded E root stmt ?st"
    using Cons.prems(1) [of es stmt ?st] Cons.prems(2) i by auto
  have "visit_loads E root stmt ?st = gather ?L False ?st"
    using loadedD [OF *(3), of "C \<union> all_syms E es"] statements_not_open [OF *(2)] by simp
  moreover obtain found where "fold (\<lambda>(exprs, stmt) s. visit_loads E root stmt
            (fold (visit_loads E root) exprs (s\<lparr>lt_foundRoot := root \<in> C\<rparr>))) items (gather ?L False ?st)
    = (gather (out_of E root (case_flows E False (flows E False) C items)) False (gather ?L False ?st))\<lparr>lt_foundRoot := found\<rparr>"
    using Cons.IH [of "gather ?L False ?st"] Cons.prems i by auto
  ultimately show ?case
    using Cons.prems(2) *(1)
    by (intro exI [of _ found]) (simp add: i loads_pure_list met_by_condition)
next
  case Nil
  show ?case by (intro exI [of _ "lt_foundRoot st"]) simp
qed

lemma loaded_case:
  assumes sel: "pure sel" and st: "\<not> lt_isLhs st"
    and items: "\<And>es stmt st. (es, stmt) \<in> set items \<Longrightarrow> \<not> lt_isLhs st \<Longrightarrow>
      list_all pure es \<and> structured False stmt \<and> loaded E root stmt st"
    and dflt: "\<And>n. dflt = Some n \<Longrightarrow> structured False n"
      "\<And>n st. dflt = Some n \<Longrightarrow> \<not> lt_isLhs st \<Longrightarrow> loaded E root n st"
  shows "loaded E root (NCase sel items dflt) st"
  unfolding loaded_def
proof (intro allI impI)
  fix C assume C: "(root \<in> C) = lt_foundRoot st"
  let ?D = "C \<union> syms E sel"
  let ?st = "st\<lparr>lt_foundRoot := root \<in> ?D\<rparr>"
  have st1: "visit_loads E root sel st = ?st"
    using sel st C by (simp add: loads_pure met_by_condition)
  obtain found where st2: "fold (\<lambda>(exprs, stmt) s. visit_loads E root stmt
            (fold (visit_loads E root) exprs (s\<lparr>lt_foundRoot := root \<in> ?D\<rparr>))) items ?st
    = (gather (out_of E root (case_flows E False (flows E False) ?D items)) False ?st)\<lparr>lt_foundRoot := found\<rparr>"
    using loaded_items [OF items, of items ?st ?D] st by auto
  have "visit_loads E root n (gather L False ?st) = gather (out_of E root (flows E False ?D n)) False (gather L False ?st)"
    if "dflt = Some n" for n L
    using loadedD [OF dflt(2), of n "gather L False ?st" ?D] st statements_not_open [OF dflt(1)] that by simp
  then show "visit_loads E root (NCase sel items dflt) st
      = gather (out_of E root (flows E False C (NCase sel items dflt))) (opens root (NCase sel items dflt)) st"
    using st2 unfolding flows_case
    by (cases dflt) (simp_all add: st1 Let_def del: flows.simps)
qed

lemma loads_port_loaded:
  assumes "wired (Some p, Some x)" "\<not> lt_isLhs st" "\<not> lt_foundRoot st"
  shows "loads_port E root p (visit_loads E root x) st = gather (out_of E root (port_flows E False (Some p, Some x))) False st"
proof (cases "pt_direction p = PortOut")
  case True
  then obtain l where x: "x = NAssign l (NOther [])" "pure l"
    using assms(1) by (cases x) auto
  have "loaded E root x (st\<lparr>lt_foundRoot := True\<rparr>)"
    using x assms(2) by (simp add: loaded_assign)
  from loadedD [OF this, of "{root}"] show ?thesis
    using True x assms(2,3)
    by (intro loads_state.equality) (auto simp: loads_port_def gather_def simp del: visit_loads.simps)
next
  case False
  then show ?thesis
    using assms by (intro loads_state.equality)
      (auto simp: loads_port_def loads_pure met_by_def gather_def addLeaf_def Let_def)
qed

lemma loads_port_open:
  "\<not> lt_foundRoot st \<Longrightarrow> loads_port E root p (\<lambda>s. s\<lparr>lt_null := True\<rparr>) st
    = gather {} (opens root (NInstance [(Some p, None)])) st"
  by (rule loads_state.equality) (auto simp: loads_port_def gather_def Let_def)

lemma loaded_instance:
  "list_all wired ports \<Longrightarrow> \<not> lt_isLhs st \<Longrightarrow> \<not> lt_foundRoot st \<Longrightarrow> loaded E root (NInstance ports) st"
proof (induction ports arbitrary: st)
  case (Cons pe ports)
  obtain p e where pe: "pe = (p, e)" by (cases pe)
  let ?st = "gather (out_of E root (port_flows E False pe)) (opens root (NInstance [pe])) st"
  have st1: "(case p of None \<Rightarrow> st | Some p' \<Rightarrow> loads_port E root p'
         (\<lambda>s. case e of None \<Rightarrow> s\<lparr>lt_null := True\<rparr> | Some x \<Rightarrow> visit_loads E root x s) st) = ?st"
    using Cons.prems pe loads_port_loaded [of _ _ st E root] loads_port_open [of st E root]
    by (cases p; cases e) auto
  have "loaded E root (NInstance ports) ?st"
    using Cons by simp
  then show ?case
    using st1 Cons.prems(3) unfolding loaded_def
    by (auto simp: pe)
qed (simp add: loaded_def)

definition ready :: "bool \<Rightarrow> loads_state \<Rightarrow> bool" where
  "ready outer st \<longleftrightarrow> \<not> lt_isLhs st \<and> (outer \<longrightarrow> \<not> lt_foundRoot st)"

lemma ready_gather [simp]: "ready outer (gather L b st) = ready outer st"
  by (simp add: ready_def)

theorem structured_loaded:
  "structured outer n \<Longrightarrow> unmentioned E root n \<Longrightarrow> ready outer st \<Longrightarrow> loaded E root n st"
proof (induction outer n arbitrary: st rule: structured.induct)
  case (1 outer s)
  then show ?case
    by (auto simp: loaded_def ready_def loads_value_def Let_def)
next
  case (2 outer l r)
  then show ?case by (simp add: loaded_assign ready_def)
next
  case (3 outer conds t f)
  then show ?case
    by (intro loaded_cond) (auto simp: ready_def)
next
  case (4 outer sel items dflt)
  then show ?case
    by (intro loaded_case) (fastforce simp: ready_def list_all_iff)+
next
  case (5 outer ports)
  then show ?case by (intro loaded_instance) (auto simp: ready_def)
next
  case (6 outer ns)
  then show ?case
    by (intro loaded_list [where P = "ready outer"]) (auto simp: list_all_iff)
qed

section \<open>The index of uses\<close>

definition uses_of :: "uses \<Rightarrow> sym \<Rightarrow> use set" where
  "uses_of m c = (case m c of None \<Rightarrow> {} | Some us \<Rightarrow> set us)"

text \<open>The uses in which a value is named.\<close>

definition connection_names :: "symbols \<Rightarrow> port option \<times> node option \<Rightarrow> sym set" where
  "connection_names E pe = (case fst pe of None \<Rightarrow> {} | Some p \<Rightarrow>
     insert (pt_internal p) (case snd pe of None \<Rightarrow> {} | Some x \<Rightarrow> concreteSymbol E ` set (node_values x)))"

fun uses_at :: "symbols \<Rightarrow> sym \<Rightarrow> member \<Rightarrow> use set" where
  "uses_at E c (MUse i n) = (if c \<in> concreteSymbol E ` set (node_values n) then {(i, n)} else {})"
| "uses_at E c (MInstance i ports ms) =
    (if \<exists>pe \<in> set ports. c \<in> connection_names E pe then {(i, NInstance ports)} else {}) \<union> (\<Union>m \<in> set ms. uses_at E c m)"
| "uses_at E c (MOther ms) = (\<Union>m \<in> set ms. uses_at E c m)"

lemma uses_of_add [simp]: "uses_of (add_use u s m) c = uses_of m c \<union> (if c = s then {u} else {})"
  by (auto simp: uses_of_def add_use_def split: option.splits)

lemma uses_of_values: "uses_of (fold (index_value is_value E u) vs m) c
    = uses_of m c \<union> (if is_value c \<and> c \<in> concreteSymbol E ` set vs then {u} else {})"
  by (induction vs arbitrary: m) (auto simp: index_value_def Let_def)

lemma uses_of_connection: "uses_of (index_connection is_value E u pe m) c
    = uses_of m c \<union> (if is_value c \<and> c \<in> connection_names E pe then {u} else {})"
  by (auto simp: index_connection_def connection_names_def uses_of_values Let_def split: option.splits)

lemma uses_of_connections: "uses_of (fold (index_connection is_value E u) ports m) c
    = uses_of m c \<union> (if is_value c \<and> (\<exists>pe \<in> set ports. c \<in> connection_names E pe) then {u} else {})"
  by (induction ports arbitrary: m) (auto simp: uses_of_connection)

lemma uses_of_members:
  "(\<And>x m. x \<in> set ms \<Longrightarrow> uses_of (index_member is_value E x m) c = uses_of m c \<union> (if is_value c then uses_at E c x else {})) \<Longrightarrow>
    uses_of (fold (index_member is_value E) ms m) c = uses_of m c \<union> (if is_value c then \<Union>x \<in> set ms. uses_at E c x else {})"
  by (induction ms arbitrary: m) (auto simp: Un_assoc)

lemma uses_of_member:
  "uses_of (index_member is_value E x m) c = uses_of m c \<union> (if is_value c then uses_at E c x else {})"
  by (induction x arbitrary: m) (auto simp: uses_of_values uses_of_connections uses_of_members)

lemma uses_of_design:
  "is_value c \<Longrightarrow> uses_of (symbolToUses is_value E ms) c = (\<Union>x \<in> set ms. uses_at E c x)"
  unfolding symbolToUses_def by (subst uses_of_members [OF uses_of_member]) (simp add: uses_of_def)

text \<open>No entry of the index is empty.\<close>

definition no_empty_use :: "uses \<Rightarrow> bool" where
  "no_empty_use m \<longleftrightarrow> (\<forall>c. m c \<noteq> Some [])"

lemma fold_keeps: "(\<And>x m. x \<in> set xs \<Longrightarrow> P m \<Longrightarrow> P (f x m)) \<Longrightarrow> P m \<Longrightarrow> P (fold f xs m)"
  by (induction xs arbitrary: m) auto

lemma no_empty_add: "no_empty_use m \<Longrightarrow> no_empty_use (add_use u s m)"
  by (auto simp: no_empty_use_def add_use_def split: option.splits)

lemma no_empty_value: "no_empty_use m \<Longrightarrow> no_empty_use (index_value is_value E u s m)"
  by (simp add: index_value_def Let_def no_empty_add)

lemma no_empty_values: "no_empty_use m \<Longrightarrow> no_empty_use (fold (index_value is_value E u) vs m)"
  by (rule fold_keeps [of _ no_empty_use]) (simp_all add: no_empty_value)

lemma no_empty_connection: "no_empty_use m \<Longrightarrow> no_empty_use (index_connection is_value E u pe m)"
  by (auto simp: index_connection_def Let_def no_empty_values no_empty_add split: option.splits)

lemma no_empty_member: "no_empty_use m \<Longrightarrow> no_empty_use (index_member is_value E x m)"
proof (induction x arbitrary: m)
  case (MUse i n)
  then show ?case by (simp add: no_empty_values)
next
  case (MInstance i ports ms)
  then have "no_empty_use (fold (index_connection is_value E (i, NInstance ports)) ports m)"
    by (intro fold_keeps [of _ no_empty_use]) (simp_all add: no_empty_connection)
  then have "no_empty_use (fold (index_member is_value E) ms (fold (index_connection is_value E (i, NInstance ports)) ports m))"
    by (rule fold_keeps [of _ no_empty_use, rotated]) (rule MInstance.IH)
  then show ?case by simp
next
  case (MOther ms)
  then show ?case by (simp, intro fold_keeps [of _ no_empty_use]) simp_all
qed

lemma no_empty_design: "no_empty_use (symbolToUses is_value E ms)"
  unfolding symbolToUses_def
  by (rule fold_keeps [of _ no_empty_use]) (simp_all add: no_empty_member, simp add: no_empty_use_def)

lemma design_lookup:
  assumes "is_value c"
  obtains "symbolToUses is_value E ms c = None" "(\<Union>x \<in> set ms. uses_at E c x) = {}"
  | us where "symbolToUses is_value E ms c = Some us" "set us = (\<Union>x \<in> set ms. uses_at E c x)" "us \<noteq> []"
proof (cases "symbolToUses is_value E ms c")
  case None
  then show ?thesis
    using that(1) uses_of_design [of is_value c E ms] assms by (simp add: uses_of_def)
next
  case (Some us)
  moreover have "us \<noteq> []"
    using Some no_empty_design [of is_value E ms] by (auto simp: no_empty_use_def)
  ultimately show ?thesis
    using that(2) uses_of_design [of is_value c E ms] assms by (simp add: uses_of_def)
qed

section \<open>The load cone of a design\<close>

fun design_flows :: "symbols \<Rightarrow> bool \<Rightarrow> member \<Rightarrow> flow set" where
  "design_flows E later (MUse i n) = flows E later {} n"
| "design_flows E later (MInstance i ports ms) = flows E later {} (NInstance ports) \<union> (\<Union>m \<in> set ms. design_flows E later m)"
| "design_flows E later (MOther ms) = (\<Union>m \<in> set ms. design_flows E later m)"

fun design_ok :: "symbols \<Rightarrow> sym \<Rightarrow> member \<Rightarrow> bool" where
  "design_ok E root (MUse i n) = (structured False n \<and> unmentioned E root n)"
| "design_ok E root (MInstance i ports ms) = (list_all wired ports \<and> list_all (design_ok E root) ms)"
| "design_ok E root (MOther ms) = list_all (design_ok E root) ms"

text \<open>A node that does not name the root has no flow out of it.\<close>

definition no_source :: "sym \<Rightarrow> flow set \<Rightarrow> bool" where
  "no_source root F \<longleftrightarrow> (\<forall>(T, S) \<in> F. root \<notin> S)"

lemma no_source_simps [simp]:
  "no_source root {}" "no_source root (F \<union> G) = (no_source root F \<and> no_source root G)"
  "no_source root (\<Union>x \<in> A. f x) = (\<forall>x \<in> A. no_source root (f x))" "no_source root {(T, S)} = (root \<notin> S)"
  by (auto simp: no_source_def)

definition no_item_source :: "symbols \<Rightarrow> sym \<Rightarrow> (sym set \<Rightarrow> node \<Rightarrow> flow set) \<Rightarrow> node list \<times> node \<Rightarrow> bool" where
  "no_item_source E root g i \<longleftrightarrow> root \<notin> all_syms E (fst i) \<and> (\<forall>D. root \<notin> D \<longrightarrow> no_source root (g D (snd i)))"

lemma no_source_case_flows:
  "list_all (no_item_source E root g) items \<Longrightarrow> root \<notin> D \<Longrightarrow> no_source root (case_flows E later g D items)"
  by (induction items arbitrary: D) (auto simp: no_item_source_def)

definition names :: "symbols \<Rightarrow> node \<Rightarrow> sym set" where
  "names E n = concreteSymbol E ` set (node_values n)"

lemma names_simps [simp]:
  "names E (NValue s) = {concreteSymbol E s}" "names E (NAssign l r) = names E l \<union> names E r"
  "names E (NCond conds t f) = (\<Union>n \<in> set conds. names E n) \<union> names E t \<union> (case f of None \<Rightarrow> {} | Some n \<Rightarrow> names E n)"
  "names E (NCase sel items dflt) = names E sel
    \<union> (\<Union>(es, stmt) \<in> set items. (\<Union>n \<in> set es. names E n) \<union> names E stmt)
    \<union> (case dflt of None \<Rightarrow> {} | Some n \<Rightarrow> names E n)"
  "names E (NOther ns) = (\<Union>n \<in> set ns. names E n)"
  by (auto simp: names_def image_Un image_UN case_prod_unfold split: option.splits)

lemma pure_names: "pure n \<Longrightarrow> syms E n = names E n"
  by (induction n) (auto simp: list_all_iff)

lemma pure_list_names: "list_all pure ns \<Longrightarrow> all_syms E ns = (\<Union>n \<in> set ns. names E n)"
  using pure_names [of "NOther ns" E] by simp

lemma unnamed_no_source:
  "structured False n \<Longrightarrow> root \<notin> names E n \<Longrightarrow> root \<notin> C \<Longrightarrow> no_source root (flows E later C n)"
proof (induction "False" n arbitrary: C rule: structured.induct)
  case (4 sel items dflt)
  have "no_item_source E root (flows E later) (es, stmt)" if i: "(es, stmt) \<in> set items" for es stmt
  proof -
    have "list_all pure es" "structured False stmt"
      using 4(3) i by (auto simp: list_all_iff)
    moreover have "root \<notin> (\<Union>n \<in> set es. names E n)" "root \<notin> names E stmt"
      using 4(4) i by (force simp del: UN_iff dest: UnI1)+
    ultimately show ?thesis
      using 4(1) [OF i refl] by (simp add: no_item_source_def pure_list_names)
  qed
  then have *: "list_all (no_item_source E root (flows E later)) items"
    by (auto simp: list_all_iff)
  then have "root \<notin> item_syms E items"
    by (fastforce simp: item_syms_def list_all_iff no_item_source_def)
  moreover have "root \<notin> C \<union> syms E sel"
    using 4(3-5) by (simp add: pure_names)
  moreover have "no_source root (flows E later D n)" if "dflt = Some n" "root \<notin> D" for n D
    using 4(2) [OF that(1), of D] 4(3,4) that by simp
  ultimately show ?case
    using * unfolding flows_case
    by (cases dflt; cases later) (simp_all add: no_source_case_flows del: flows.simps)
qed (auto simp: pure_names pure_list_names list_all_iff Let_def split: option.splits)

lemma no_source_out_of: "no_source root F \<Longrightarrow> out_of E root F = {}"
  by (auto simp: no_source_def out_of_def)

text \<open>What the uses of the root in a member carry out of it is all that the member carries out.\<close>

lemma unnamed_connection:
  "wired pe \<Longrightarrow> root \<notin> connection_names E pe \<Longrightarrow> out_of E root (port_flows E later pe) = {}"
proof -
  have "out_of E root (port_flows E later (Some p, Some x)) = {}"
    if "wired (Some p, Some x)" "root \<notin> connection_names E (Some p, Some x)" for p x
  proof (cases "pt_direction p")
    case PortOut
    with that(1) obtain l where "x = NAssign l (NOther [])" by (cases x) auto
    then show ?thesis using that PortOut by (simp add: connection_names_def)
  qed (use that in \<open>simp_all add: connection_names_def pure_names names_def\<close>)
  then show "wired pe \<Longrightarrow> root \<notin> connection_names E pe \<Longrightarrow> out_of E root (port_flows E later pe) = {}"
    by (cases pe; cases "fst pe"; cases "snd pe") simp_all
qed

lemma out_of_uses:
  "design_ok E root m \<Longrightarrow> out_of E root (design_flows E later m)
    = (\<Union>u \<in> uses_at E root m. out_of E root (flows E later {} (snd u)))"
proof (induction m)
  case (MUse i n)
  then show ?case
    using no_source_out_of unnamed_no_source [of n root E "{}" later] by (simp add: names_def del: flows.simps)
next
  case (MInstance i ports ms)
  have ms: "out_of E root (\<Union>m \<in> set ms. design_flows E later m)
      = (\<Union>m \<in> set ms. \<Union>u \<in> uses_at E root m. out_of E root (flows E later {} (snd u)))"
    using MInstance by (simp add: list_all_iff)
  have "out_of E root (flows E later {} (NInstance ports)) = {}" if "\<not> (\<exists>pe \<in> set ports. root \<in> connection_names E pe)"
    using MInstance.prems that unnamed_connection [of _ root E later] by (simp add: list_all_iff)
  then show ?case
    using ms by (simp del: flows.simps)
next
  case (MOther ms)
  then show ?case by (simp add: list_all_iff)
qed

lemma structured_outer: "structured False n \<Longrightarrow> structured True n"
  by (induction "False" n rule: structured.induct) (auto simp: list_all_iff)

lemma uses_structured:
  "design_ok E root m \<Longrightarrow> u \<in> uses_at E root m \<Longrightarrow> structured True (snd u) \<and> unmentioned E root (snd u)"
proof (induction m)
  case (MInstance i ports ms)
  have "structured True (NInstance ports)" using MInstance.prems(1) by simp
  then show ?case
    using MInstance by (auto simp: list_all_iff simp del: structured.simps split: if_splits)
qed (auto simp: structured_outer list_all_iff split: if_splits)

lemma visit_uses:
  "(\<And>u. u \<in> set us \<Longrightarrow> structured True (snd u) \<and> unmentioned E root (snd u)) \<Longrightarrow> ready True st \<Longrightarrow>
    fold (visit_loads E root \<circ> snd) us st
      = gather (\<Union>u \<in> set us. out_of E root (flows E False {} (snd u))) (\<exists>u \<in> set us. opens root (snd u)) st"
proof (induction us arbitrary: st)
  case (Cons u us)
  have "loaded E root (snd u) st"
    using Cons.prems(1) [of u] Cons.prems(2) by (auto intro: structured_loaded)
  then have "visit_loads E root (snd u) st = gather (out_of E root (flows E False {} (snd u))) (opens root (snd u)) st"
    using Cons.prems(2) by (intro loadedD) (auto simp: ready_def)
  then show ?case
    using Cons by (simp add: o_def)
qed simp

lemma load_cone_flows:
  assumes "lookupConeSymbol D path = Inr s" and "root = concreteSymbol (cd_symbols D) s" "cd_is_value D root"
    and "list_all (design_ok (cd_symbols D) root) (cd_members D)"
  shows "getLoadCone D path = (let uses = \<Union>m \<in> set (cd_members D). uses_at (cd_symbols D) root m in
    if uses = {} then Inl (RuntimeError (''Could not find reference to: '' @ path))
    else if \<exists>u \<in> uses. opens root (snd u) then Inl Undefined
    else Inr (out_of (cd_symbols D) root (\<Union>m \<in> set (cd_members D). design_flows (cd_symbols D) False m)))"
proof (cases rule: design_lookup [of "cd_is_value D" root "cd_symbols D" "cd_members D", OF assms(3)])
  case 1
  then show ?thesis using assms by (simp add: getLoadCone_def Let_def)
next
  case (2 us)
  have "structured True (snd u) \<and> unmentioned (cd_symbols D) root (snd u)" if "u \<in> set us" for u
    using that 2 assms(4) uses_structured [of "cd_symbols D" root _ u] by (auto simp: list_all_iff)
  then have "fold (visit_loads (cd_symbols D) root \<circ> snd) us new_loads_tracer
      = gather (\<Union>u \<in> set us. out_of (cd_symbols D) root (flows (cd_symbols D) False {} (snd u)))
          (\<exists>u \<in> set us. opens root (snd u)) new_loads_tracer"
    by (intro visit_uses) (auto simp: ready_def new_loads_tracer_def)
  moreover have "(\<Union>u \<in> set us. out_of (cd_symbols D) root (flows (cd_symbols D) False {} (snd u)))
      = out_of (cd_symbols D) root (\<Union>m \<in> set (cd_members D). design_flows (cd_symbols D) False m)"
    using 2(2) assms(4) out_of_uses [of "cd_symbols D" root _ False] by (simp add: list_all_iff)
  ultimately show ?thesis
    using 2(1,3) assms(1-3) unfolding 2(2) [symmetric]
    by (simp add: getLoadCone_def Let_def) (simp add: new_loads_tracer_def)
qed


section \<open>Drivers and loads\<close>

text \<open>Counting the conditions of earlier case items only adds to what a statement depends on.\<close>

definition finer :: "flow set \<Rightarrow> flow set \<Rightarrow> bool" where
  "finer F G \<longleftrightarrow> (\<forall>T S. (T, S) \<in> F \<longrightarrow> (\<exists>S'. S \<subseteq> S' \<and> (T, S') \<in> G))"

lemma finer_Un: "finer F G \<Longrightarrow> finer F' G' \<Longrightarrow> finer (F \<union> F') (G \<union> G')"
  unfolding finer_def by (meson UnE UnI1 UnI2)

lemma finer_UN: "(\<And>x. x \<in> A \<Longrightarrow> finer (f x) (g x)) \<Longrightarrow> finer (\<Union>x \<in> A. f x) (\<Union>x \<in> A. g x)"
  unfolding finer_def by (meson UN_iff)

lemma finer_flow: "finer {} G" "S \<subseteq> S' \<Longrightarrow> finer {(T, S)} {(T, S')}" "finer F F"
  by (auto simp: finer_def)

lemmas finer_intros = finer_flow finer_Un finer_UN

lemma finer_case_flows:
  "(\<And>es stmt D D'. (es, stmt) \<in> set items \<Longrightarrow> D \<subseteq> D' \<Longrightarrow> finer (g D stmt) (g' D' stmt)) \<Longrightarrow> D \<subseteq> D' \<Longrightarrow>
    finer (case_flows E False g D items) (case_flows E True g' D' items)"
proof (induction items arbitrary: D D')
  case (Cons i items)
  obtain es stmt where i: "i = (es, stmt)" by (cases i)
  have "finer (g (D \<union> all_syms E es) stmt) (g' (D' \<union> all_syms E es) stmt)"
    using Cons.prems i by (intro Cons.prems(1)) auto
  moreover have "finer (case_flows E False g D items) (case_flows E True g' (D' \<union> all_syms E es) items)"
    using Cons.prems i by (intro Cons.IH) auto
  ultimately show ?case
    by (simp add: i finer_intros)
qed (simp add: finer_intros)

lemma flows_finer: "C \<subseteq> C' \<Longrightarrow> finer (flows E False C n) (flows E True C' n)"
proof (induction n arbitrary: C C')
  case (NAssign l r)
  then show ?case by (auto intro!: finer_intros)
next
  case (NCond conds t f)
  have "C \<union> all_syms E conds \<subseteq> C' \<union> all_syms E conds" using NCond.prems by blast
  then show ?case
    using NCond.IH(2,3) by (auto simp: Let_def intro!: finer_intros split: option.splits)
next
  case (NCase sel items dflt)
  have "finer (flows E False D stmt) (flows E True D' stmt)" if "(es, stmt) \<in> set items" "D \<subseteq> D'" for es stmt D D'
    using NCase.IH(3) [OF that(1) _ that(2)] by simp
  then have "finer (case_flows E False (flows E False) (C \<union> syms E sel) items)
      (case_flows E True (flows E True) (C' \<union> syms E sel) items)"
    using NCase.prems by (intro finer_case_flows) auto
  moreover have "finer (flows E False (C \<union> syms E sel) n) (flows E True (C' \<union> syms E sel \<union> item_syms E items) n)"
    if "dflt = Some n" for n
    using NCase.IH(4) that NCase.prems by (auto intro!: NCase.IH(4))
  ultimately show ?case
    unfolding flows_case by (cases dflt) (auto simp: finer_intros simp del: flows.simps)
next
  case (NInstance ports)
  have "finer (port_flows E False pe) (port_flows E True pe)" if "pe \<in> set ports" for pe
  proof (cases pe)
    case (Pair p e)
    then show ?thesis
      using NInstance.IH [of pe e _ "{pt_internal (the p)}" "{pt_internal (the p)}"] that
      by (cases p; cases e) (auto simp: finer_intros)
  qed
  then show ?case by (simp add: finer_intros)
next
  case (NOther ns)
  then show ?case by (auto intro!: finer_intros)
qed (simp add: finer_intros)

lemma design_flows_finer: "finer (design_flows E False m) (design_flows E True m)"
proof (induction m)
  case (MUse i n)
  then show ?case by (simp add: flows_finer)
next
  case (MInstance i ports ms)
  then show ?case
    using flows_finer [of "{}" "{}" E "NInstance ports"] by (simp del: flows.simps add: finer_intros)
next
  case (MOther ms)
  then show ?case by (simp add: finer_intros)
qed

lemma finer_dual: "finer F G \<Longrightarrow> t \<in> out_of E s F \<Longrightarrow> \<not> isParameter E s \<Longrightarrow> s \<in> into E t G"
  by (fastforce simp: finer_def into_def out_of_def)


text \<open>The analysis knows the drivers of a value when each flow into it is a flow of one of them.\<close>

definition drivers_known :: "compiled_design \<Rightarrow> sym \<Rightarrow> bool" where
  "drivers_known D t \<longleftrightarrow> (\<forall>m \<in> set (cd_members D). \<forall>(T, S) \<in> design_flows (cd_symbols D) True m.
     t \<in> T \<longrightarrow> (\<exists>d \<in> set (cd_drivers D t). (T, S) \<in> flows (cd_symbols D) True {} (driver_node (cd_driver D d))))"

text \<open>What the load cone of a signal reports is consistent with the driver cones: every signal in the
  load cone has the traced signal in its own driver cone.\<close>

theorem loads_have_their_driver:
  assumes "lookupConeSymbol D path = Inr s" "getLoadCone D path = Inr L" and "t \<in> L"
    and "lookupConeSymbol D path' = Inr t" "concreteSymbol (cd_symbols D) t = t" "cd_is_value D t"
    and root: "root = concreteSymbol (cd_symbols D) s" "cd_is_value D root" "\<not> isParameter (cd_symbols D) root"
    and "list_all (design_ok (cd_symbols D) root) (cd_members D)" and "drivers_known D t"
    and "\<And>d. d \<in> set (cd_drivers D t) \<Longrightarrow> structured True (driver_node (cd_driver D d))"
  shows "\<exists>L'. getDriverCone D path' = Inr L' \<and> root \<in> L'"
proof -
  let ?E = "cd_symbols D" and ?F = "\<lambda>later. \<Union>m \<in> set (cd_members D). design_flows (cd_symbols D) later m"
  have "L = out_of ?E root (?F False)"
    using assms(2) load_cone_flows [OF assms(1) root(1,2) assms(10)] by (auto simp: Let_def split: if_splits)
  moreover have "finer (?F False) (?F True)"
    by (intro finer_UN design_flows_finer)
  ultimately have "root \<in> into ?E t (?F True)"
    using finer_dual assms(3) root(3) by blast
  then have "\<exists>d \<in> set (cd_drivers D t). root \<in> into ?E t (flows ?E True {} (driver_node (cd_driver D d)))"
    using assms(11) unfolding into_def drivers_known_def by fastforce
  moreover have "getDriverCone D path' = Inr (\<Union>d \<in> set (cd_drivers D t). into ?E t (flows ?E True {} (driver_node (cd_driver D d))))"
    using driver_cone_flows [OF assms(4) assms(5) [symmetric] assms(6) assms(6)] assms(12) by auto
  ultimately show ?thesis by auto
qed

lemma loads_have_their_driver_witness: "\<exists>L'. getDriverCone small_design ''t.u.p'' = Inr L' \<and> 0 \<in> L'"
proof (rule loads_have_their_driver [where path = "''t.r''" and s = 0 and t = 5 and L = "{5}"])
  show "getLoadCone small_design ''t.r'' = Inr {5}"
    by code_simp
qed (auto simp: small_defs drivers_known_def Let_def)

text \<open>The converse fails for case items: in \<open>case (0) 1: 2 = 3; 4: 5 = 6; endcase\<close> the signal 1 is among the
  drivers of 5 and 5 is not among the loads of 1.\<close>

definition case_block :: node where
  "case_block = NCase (NValue 0) [([NValue 1], NAssign (NValue 2) (NValue 3)), ([NValue 4], NAssign (NValue 5) (NValue 6))] None"

lemma case_items_asymmetric:
  "1 \<in> dt_leaves (visit_drivers small_symbols 5 case_block new_drivers_tracer)"
  "5 \<notin> lt_leaves (visit_loads small_symbols 1 case_block new_loads_tracer)"
  by code_simp+

text \<open>An instance with an open input port among the uses makes the load cone undefined.\<close>

lemma open_port_undefined:
  "getLoadCone (small_design\<lparr>cd_members := [MInstance 0 [(Some \<lparr>pt_direction = PortIn, pt_internal = 7\<rparr>, None),
     (Some \<lparr>pt_direction = PortIn, pt_internal = 5\<rparr>, Some (NValue 0))] []]\<rparr>) ''t.r'' = Inl Undefined"
  by code_simp

text \<open>A statement that only mentions the root, such as a call, leaks into the next one.\<close>

lemma mention_leaks:
  "visit_loads small_symbols 0 (NOther [NOther [NValue 0], NAssign (NValue 1) (NValue 2)]) new_loads_tracer
    = \<lparr>lt_isLhs = False, lt_foundRoot = True, lt_leaves = {1}, lt_null = False\<rparr>"
  by code_simp

section \<open>The paths of a cone\<close>

lemma getPaths_seen: "set (getPaths ps seen) = set ps - set seen \<and> distinct (getPaths ps seen)"
  by (induction ps seen rule: getPaths.induct) auto

lemma paths_distinct: "distinct (getPaths ps []) \<and> set (getPaths ps []) = set ps"
  using getPaths_seen [of ps "[]"] by simp

end
