(* ===== verification/Hierarchy.thy ===== *)
theory Hierarchy
  imports Positions
begin

text \<open>
  The hierarchy view of an elaborated design, from include/ast/HierarchicalView.h and the scope
  queries of src/ast/ServerCompilation.cpp.

  slang's design is data: a symbol is a \<open>view_member\<close> with what the view reads of it, an instance has the
  members of its body and an interface port the symbol it is connected to. Reading a range through a
  null syntax pointer is \<open>Undefined\<close>. \<open>ConstantRange\<close> is slang's and so a record of what is asked of it.
\<close>

section \<open>The design\<close>

record view_env =
  ve_utf8 :: utf8_lib
  ve_sources :: source_manager
  ve_valid :: "source_location \<Rightarrow> bool"

record sym_info =
  sy_name :: string
  sy_syntax :: "source_range option"
  sy_location :: source_location

datatype definition_kind = DefModule | DefInterface | DefProgram

record instance_sym =
  in_info :: sym_info
  in_definition :: string
  in_def_syntax :: "source_range option"
  in_def_kind :: definition_kind

record constant_range =
  cr_left :: int
  cr_descending :: bool
  cr_width :: nat
  cr_text :: string

record iface_port =
  ip_info :: sym_info
  ip_modport :: string
  ip_conn_modport :: "string option"
  ip_range :: "constant_range option"

text \<open>A parameter has its type and value as text, a type parameter its type if there is no error; a
  value whether a port refers to it. An interface port has its definition with the body of a default
  instance, and the symbol it is connected to; the entries of a block array have their index.\<close>

datatype view_member =
    VInstance instance_sym "view_member list"
  | VParam sym_info string string
  | VTypeParam sym_info "string option"
  | VValue sym_info bool string
  | VIfacePort iface_port "(string \<times> view_member list) option" "view_member option"
  | VBlock sym_info bool string "view_member list"
  | VBlockArray sym_info string "(int \<times> sym_info \<times> view_member list) list"
  | VInstanceArray sym_info string constant_range "view_member list"
  | VModport sym_info "view_member list"
  | VOther sym_info

section \<open>Items of the view\<close>

datatype slang_kind = KInstance | KScope | KScopeArray | KInterfacePort | KInterfacePortArray
  | KPort | KParam | KLogic | KInstanceArray | KPackage

datatype decl_kind = DeclModule | DeclInterface | DeclProgram | DeclPackage

datatype hier_item =
    Var slang_kind string location "bool option" string "string option"
  | Scope slang_kind string location "bool option" "string option" "hier_item list"
  | Instance slang_kind string location "bool option" string location decl_kind bool "hier_item list"

fun joined :: "'a list result list \<Rightarrow> 'a list result" where
  "joined [] = Inr []"
| "joined (r # rs) = (case r of Inl e \<Rightarrow> Inl e | Inr xs \<Rightarrow>
     (case joined rs of Inl e \<Rightarrow> Inl e | Inr ys \<Rightarrow> Inr (xs @ ys)))"

definition syntax_range :: "source_range option \<Rightarrow> source_range result" where
  "syntax_range r = (case r of None \<Rightarrow> Inl Undefined | Some x \<Rightarrow> Inr x)"

definition getFromExpansion :: "view_env \<Rightarrow> source_range \<Rightarrow> bool option" where
  "getFromExpansion E r = (if ve_valid E (fst r) \<and> getFullPath (ve_sources E) (lbuffer (fst r)) = []
     then Some True else None)"

definition symbol_fromExpansion :: "view_env \<Rightarrow> sym_info \<Rightarrow> bool option" where
  "symbol_fromExpansion E s = (case sy_syntax s of
     Some r \<Rightarrow> getFromExpansion E r
   | None \<Rightarrow> if ve_valid E (sy_location s) \<and> getFullPath (ve_sources E) (lbuffer (sy_location s)) = []
       then Some True else None)"

abbreviation place :: "view_env \<Rightarrow> source_range \<Rightarrow> location" where
  "place E r \<equiv> toLocation_range (ve_utf8 E) (ve_sources E) r"

definition bracketed :: "int \<Rightarrow> string" where
  "bracketed i = ''['' @ to_string i @ '']''"

fun visible :: "view_member \<Rightarrow> bool" where
  "visible (VInstance i ms) = True"
| "visible (VInstanceArray s n r es) = True"
| "visible (VParam s t v) = True"
| "visible (VIfacePort p d c) = True"
| "visible (VBlock s u n ms) = True"
| "visible (VBlockArray s n es) = True"
| "visible (VValue s b t) = True"
| "visible _ = False"

definition scopeHasVisibleChildren :: "view_member list \<Rightarrow> bool" where
  "scopeHasVisibleChildren ms = list_ex visible ms"

definition declKind_of :: "definition_kind \<Rightarrow> decl_kind" where
  "declKind_of k = (case k of DefInterface \<Rightarrow> DeclInterface | DefProgram \<Rightarrow> DeclProgram | DefModule \<Rightarrow> DeclModule)"

text \<open>\<open>filled\<close> holds the children when the instance is to have them.\<close>

definition toInstance :: "view_env \<Rightarrow> instance_sym \<Rightarrow> view_member list \<Rightarrow> string \<Rightarrow> hier_item list option \<Rightarrow> hier_item result" where
  "toInstance E i body nameOverride filled =
    (case syntax_range (case sy_syntax (in_info i) of Some r \<Rightarrow> Some r | None \<Rightarrow> in_def_syntax i) of
       Inl e \<Rightarrow> Inl e
     | Inr r \<Rightarrow> (case syntax_range (in_def_syntax i) of
         Inl e \<Rightarrow> Inl e
       | Inr dr \<Rightarrow> Inr (Instance KInstance nameOverride (place E r) (getFromExpansion E r) (in_definition i) (place E dr)
           (declKind_of (in_def_kind i))
           (case filled of Some cs \<Rightarrow> cs \<noteq> [] | None \<Rightarrow> scopeHasVisibleChildren body)
           (case filled of Some cs \<Rightarrow> cs | None \<Rightarrow> []))))"

definition handleInstance :: "view_env \<Rightarrow> instance_sym \<Rightarrow> view_member list \<Rightarrow> string \<Rightarrow> hier_item list result" where
  "handleInstance E i body name = map_sum id (\<lambda>x. [x]) (toInstance E i body name None)"

text \<open>The elements of an instance array: instances only, numbered from the left bound.\<close>

fun array_elements :: "view_env \<Rightarrow> int \<Rightarrow> int \<Rightarrow> view_member list \<Rightarrow> hier_item list result" where
  "array_elements E idx step [] = Inr []"
| "array_elements E idx step (VInstance i body # es) =
     joined [handleInstance E i body (bracketed idx), array_elements E (idx + step) step es]"
| "array_elements E idx step (_ # es) = array_elements E idx step es"

definition array_step :: "constant_range \<Rightarrow> int" where
  "array_step r = (if cr_descending r then -1 else 1)"

definition getInstanceArrayChildren :: "view_env \<Rightarrow> constant_range \<Rightarrow> view_member list \<Rightarrow> hier_item list result" where
  "getInstanceArrayChildren E r es = array_elements E (cr_left r) (array_step r) es"

definition handleInstanceArray :: "view_env \<Rightarrow> sym_info \<Rightarrow> string \<Rightarrow> constant_range \<Rightarrow> view_member list \<Rightarrow> hier_item list result" where
  "handleInstanceArray E s name r es = (case getInstanceArrayChildren E r es of
     Inl e \<Rightarrow> Inl e
   | Inr elements \<Rightarrow> (case elements of
       Instance _ _ _ _ declName declLoc declKind _ _ # _ \<Rightarrow> map_sum id
         (\<lambda>sr. [Instance KInstanceArray name (place E sr) (getFromExpansion E sr) (declName @ cr_text r) declLoc declKind True elements])
         (syntax_range (sy_syntax s))
     | _ \<Rightarrow> Inr []))"

definition handleParameter :: "view_env \<Rightarrow> sym_info \<Rightarrow> string \<Rightarrow> string \<Rightarrow> hier_item list result" where
  "handleParameter E s t v = map_sum id
     (\<lambda>r. [Var KParam (sy_name s) (place E r) (symbol_fromExpansion E s) t (Some v)]) (syntax_range (sy_syntax s))"

definition handleTypeParameter :: "view_env \<Rightarrow> sym_info \<Rightarrow> string option \<Rightarrow> hier_item list result" where
  "handleTypeParameter E s t = Inr [Var KParam (sy_name s)
     (case sy_syntax s of Some r \<Rightarrow> place E r | None \<Rightarrow> toLocation_loc (ve_utf8 E) (ve_sources E) (sy_location s))
     (symbol_fromExpansion E s) ''type'' t]"

definition handleValue :: "view_env \<Rightarrow> sym_info \<Rightarrow> bool \<Rightarrow> string \<Rightarrow> hier_item list result" where
  "handleValue E s is_port t = map_sum id
     (\<lambda>r. [Var (if is_port then KPort else KLogic) (sy_name s) (place E r) (getFromExpansion E r) t None])
     (syntax_range (sy_syntax s))"

definition getSymbolSourceRange :: "sym_info \<Rightarrow> source_range" where
  "getSymbolSourceRange s = (case sy_syntax s of Some r \<Rightarrow> r | None \<Rightarrow> (sy_location s, sy_location s))"

definition getInterfacePortType :: "iface_port \<Rightarrow> (string \<times> view_member list) option \<Rightarrow> string" where
  "getInterfacePortType p d = (let r = (case d of None \<Rightarrow> [] | Some (n, _) \<Rightarrow> n) in
     if ip_modport p = [] then r else (if r = [] then r else r @ ''.'') @ ip_modport p)"

fun member_info :: "view_member \<Rightarrow> sym_info" where
  "member_info (VInstance i ms) = in_info i"
| "member_info (VParam s t v) = s"
| "member_info (VTypeParam s t) = s"
| "member_info (VValue s b t) = s"
| "member_info (VIfacePort p d c) = ip_info p"
| "member_info (VBlock s u n ms) = s"
| "member_info (VBlockArray s n es) = s"
| "member_info (VInstanceArray s n r es) = s"
| "member_info (VModport s ms) = s"
| "member_info (VOther s) = s"

definition find_modport :: "string \<Rightarrow> view_member list \<Rightarrow> view_member list" where
  "find_modport n body = (case find (\<lambda>m. sy_name (member_info m) = n) body of
     Some (VModport s ms) \<Rightarrow> ms | _ \<Rightarrow> body)"

definition getInterfacePortScope :: "iface_port \<Rightarrow> (string \<times> view_member list) option \<Rightarrow> view_member list option \<Rightarrow> view_member list" where
  "getInterfacePortScope p d iface =
    (case (case iface of Some b \<Rightarrow> Some b | None \<Rightarrow> map_option snd d) of
       None \<Rightarrow> []
     | Some body \<Rightarrow> (case ip_conn_modport p of
         Some n \<Rightarrow> find_modport n body
       | None \<Rightarrow> if ip_modport p \<noteq> [] then find_modport (ip_modport p) body else body))"

fun connected_body :: "view_member option \<Rightarrow> view_member list option" where
  "connected_body (Some (VInstance i body)) = Some body"
| "connected_body _ = None"

fun connected_element :: "nat \<Rightarrow> view_member option \<Rightarrow> view_member list option" where
  "connected_element k (Some (VInstanceArray s n r es)) = (if k < length es then connected_body (Some (es ! k)) else None)"
| "connected_element k _ = None"

definition iface_element :: "view_env \<Rightarrow> iface_port \<Rightarrow> (string \<times> view_member list) option \<Rightarrow> int \<Rightarrow> hier_item list \<Rightarrow> hier_item" where
  "iface_element E p d idx children = Scope KInterfacePort (bracketed idx) (place E (getSymbolSourceRange (ip_info p)))
     (getFromExpansion E (getSymbolSourceRange (ip_info p))) (Some (getInterfacePortType p d)) children"

definition handleInterfacePort :: "view_env \<Rightarrow> iface_port \<Rightarrow> (string \<times> view_member list) option \<Rightarrow> hier_item list \<Rightarrow> hier_item list" where
  "handleInterfacePort E p d children = [Scope (if ip_range p = None then KInterfacePort else KInterfacePortArray)
     (sy_name (ip_info p)) (place E (getSymbolSourceRange (ip_info p)))
     (getFromExpansion E (getSymbolSourceRange (ip_info p))) (Some (getInterfacePortType p d)) children]"

definition handleBlockScope :: "view_env \<Rightarrow> sym_info \<Rightarrow> string \<Rightarrow> hier_item list result \<Rightarrow> hier_item list result" where
  "handleBlockScope E s name children = (case children of
     Inl e \<Rightarrow> Inl e
   | Inr [] \<Rightarrow> Inr []
   | Inr cs \<Rightarrow> map_sum id (\<lambda>r. [Scope KScope name (place E r) (getFromExpansion E r) None cs]) (syntax_range (sy_syntax s)))"

definition handleBlockScopeArray :: "view_env \<Rightarrow> sym_info \<Rightarrow> string \<Rightarrow> hier_item list result \<Rightarrow> hier_item list result" where
  "handleBlockScopeArray E s name entries = (case entries of
     Inl e \<Rightarrow> Inl e
   | Inr [] \<Rightarrow> Inr []
   | Inr cs \<Rightarrow> map_sum id (\<lambda>r. [Scope KScopeArray name (place E r) (getFromExpansion E r) None cs]) (syntax_range (sy_syntax s)))"

section \<open>The children of a scope\<close>

text \<open>Everything an interface port shows is smaller than the port with its connection.\<close>

lemma member_size: "m \<in> set ms \<Longrightarrow> size m < Suc (size_list size ms)"
  by (induction ms) auto

lemma find_modport_size: "m \<in> set (find_modport n body) \<Longrightarrow> size m \<le> size_list size body"
proof (cases "find (\<lambda>m. sy_name (member_info m) = n) body")
  case None
  then show "m \<in> set (find_modport n body) \<Longrightarrow> size m \<le> size_list size body"
    using member_size [of m body] by (simp add: find_modport_def)
next
  case (Some x)
  then have "x \<in> set body" by (auto simp: find_Some_iff)
  then show "m \<in> set (find_modport n body) \<Longrightarrow> size m \<le> size_list size body"
    using Some member_size [of m] member_size [of x body] by (force simp: find_modport_def split: view_member.splits)
qed

lemma connected_body_size: "connected_body c = Some b \<Longrightarrow> size_list size b < size_option size c"
  by (cases c rule: connected_body.cases) auto

lemma connected_element_size:
  assumes "connected_element k c = Some b"
  shows "size_list size b < size_option size c"
proof -
  obtain s n r es where c: "c = Some (VInstanceArray s n r es)" "k < length es" "connected_body (Some (es ! k)) = Some b"
    using assms by (cases "(k, c)" rule: connected_element.cases) (auto split: if_splits)
  then show ?thesis
    using connected_body_size [OF c(3)] member_size [OF nth_mem [OF c(2)]] by simp
qed

lemma iface_scope_size:
  assumes "m \<in> set (getInterfacePortScope p d body)"
  shows "size m \<le> (case body of Some b \<Rightarrow> size_list size b | None \<Rightarrow> size_option (size_prod (\<lambda>_. 0) (size_list size)) d)"
proof -
  obtain b where b: "body = Some b \<or> body = None \<and> (\<exists>n. d = Some (n, b))"
      and m: "m \<in> set b \<or> (\<exists>n. m \<in> set (find_modport n b))"
    using assms by (cases d; cases body) (auto simp: getInterfacePortScope_def split: option.splits if_splits; blast)+
  have "size m \<le> size_list size b"
    using m member_size [of m b] find_modport_size by auto
  then show ?thesis
    using b by auto
qed

function item_of :: "view_env \<Rightarrow> view_member \<Rightarrow> hier_item list result" where
  "item_of E (VInstance i body) = handleInstance E i body (sy_name (in_info i))"
| "item_of E (VParam s t v) = handleParameter E s t v"
| "item_of E (VTypeParam s t) = handleTypeParameter E s t"
| "item_of E (VValue s b t) = handleValue E s b t"
| "item_of E (VIfacePort p d c) = map_sum id (handleInterfacePort E p d)
     (case ip_range p of
        None \<Rightarrow> joined (map (item_of E) (getInterfacePortScope p d (connected_body c)))
      | Some r \<Rightarrow> joined (map (\<lambda>k. map_sum id (\<lambda>cs. [iface_element E p d (cr_left r + int k * array_step r) cs])
          (joined (map (item_of E) (getInterfacePortScope p d (connected_element k c))))) [0..<cr_width r]))"
| "item_of E (VBlock s uninstantiated n ms) =
     (if uninstantiated then Inr [] else handleBlockScope E s n (joined (map (item_of E) ms)))"
| "item_of E (VBlockArray s n es) = handleBlockScopeArray E s n
     (joined (map (\<lambda>(i, bs, ms). handleBlockScope E bs (bracketed i) (joined (map (item_of E) ms))) es))"
| "item_of E (VInstanceArray s n r es) = handleInstanceArray E s n r es"
| "item_of E (VModport s ms) = Inr []"
| "item_of E (VOther s) = Inr []"
  by pat_completeness auto

lemma block_entry_size: "(i, s, ms) \<in> set es \<Longrightarrow> m \<in> set ms \<Longrightarrow>
    size m < Suc (size_list (size_prod (\<lambda>_. 0) (size_prod (\<lambda>_. 0) (size_list size))) es)"
  by (induction es) (auto dest: member_size)

termination item_of
proof (relation "measure (size \<circ> snd)", goal_cases)
  case 1
  then show ?case by simp
next
  case (2 E p d c m)
  then show ?case
    using iface_scope_size [of m p d "connected_body c"] connected_body_size [of c]
    by (fastforce split: option.splits)
next
  case (3 E p d c r k m)
  then show ?case
    using iface_scope_size [of m p d "connected_element k c"] connected_element_size [of k c]
    by (fastforce split: option.splits)
next
  case (4 E s u n ms m)
  then show ?case by (auto dest: member_size)
next
  case (5 E s n es x i y bs ms m)
  then show ?case by (auto dest: block_entry_size)
qed

definition getScopeChildren :: "view_env \<Rightarrow> view_member list \<Rightarrow> hier_item list result" where
  "getScopeChildren E ms = joined (map (item_of E) ms)"

section \<open>Scopes by path\<close>

text \<open>A compilation: its packages and top instances, and slang's lookup of a path, which gives the
  symbols it went through and the one found, each with its hierarchical path.\<close>

datatype scope_symbol = Member view_member | Package string "view_member list"

type_synonym located = "string \<times> scope_symbol"

record compiled =
  co_env :: view_env
  co_top :: "(instance_sym \<times> view_member list) list"
  co_packages :: "(string \<times> source_range option \<times> view_member list) list"
  co_lookup :: "string \<Rightarrow> located list \<times> located option"

definition handlePackage :: "view_env \<Rightarrow> string \<Rightarrow> source_range option \<Rightarrow> hier_item list" where
  "handlePackage E n syn = (case syn of None \<Rightarrow> [] | Some r \<Rightarrow>
     [Instance KPackage n (place E r) None n (place E r) DeclPackage False []])"

fun isHierarchicalScope :: "scope_symbol \<Rightarrow> bool" where
  "isHierarchicalScope (Package n ms) = True"
| "isHierarchicalScope (Member m) = (case m of
     VInstance _ _ \<Rightarrow> True | VInstanceArray _ _ _ _ \<Rightarrow> True | VIfacePort _ _ _ \<Rightarrow> True
   | VBlock _ _ _ _ \<Rightarrow> True | VBlockArray _ _ _ \<Rightarrow> True | _ \<Rightarrow> False)"

definition getGenerateArrayChildren :: "view_env \<Rightarrow> (int \<times> sym_info \<times> view_member list) list \<Rightarrow> hier_item list result" where
  "getGenerateArrayChildren E es =
     joined (map (\<lambda>(i, bs, ms). handleBlockScope E bs (bracketed i) (getScopeChildren E ms)) es)"

definition getInterfacePortChildren :: "view_env \<Rightarrow> iface_port \<Rightarrow> (string \<times> view_member list) option \<Rightarrow> view_member option \<Rightarrow> hier_item list result" where
  "getInterfacePortChildren E p d c = (case ip_range p of
     None \<Rightarrow> getScopeChildren E (getInterfacePortScope p d (connected_body c))
   | Some r \<Rightarrow> joined (map (\<lambda>k. map_sum id (\<lambda>cs. [iface_element E p d (cr_left r + int k * array_step r) cs])
       (getScopeChildren E (getInterfacePortScope p d (connected_element k c)))) [0..<cr_width r]))"

fun getChildrenForScopeSymbol :: "view_env \<Rightarrow> scope_symbol \<Rightarrow> hier_item list result" where
  "getChildrenForScopeSymbol E (Package n ms) = getScopeChildren E ms"
| "getChildrenForScopeSymbol E (Member (VInstance i body)) = getScopeChildren E body"
| "getChildrenForScopeSymbol E (Member (VInstanceArray s n r es)) = getInstanceArrayChildren E r es"
| "getChildrenForScopeSymbol E (Member (VIfacePort p d c)) = getInterfacePortChildren E p d c"
| "getChildrenForScopeSymbol E (Member (VBlock s u n ms)) = getScopeChildren E ms"
| "getChildrenForScopeSymbol E (Member (VBlockArray s n es)) = getGenerateArrayChildren E es"
| "getChildrenForScopeSymbol E _ = Inr []"

definition top_items :: "compiled \<Rightarrow> hier_item list result" where
  "top_items D = joined (map (\<lambda>(i, body). case getScopeChildren (co_env D) body of
       Inl e \<Rightarrow> Inl e
     | Inr cs \<Rightarrow> map_sum id (\<lambda>x. [x]) (toInstance (co_env D) i body (sy_name (in_info i)) (Some cs))) (co_top D)
     @ map (\<lambda>(n, syn, ms). Inr (handlePackage (co_env D) n syn)) (co_packages D))"

definition lookupHierSymbol :: "compiled \<Rightarrow> string \<Rightarrow> scope_symbol option" where
  "lookupHierSymbol D path = (if path = [] then None else map_option snd (snd (co_lookup D path)))"

definition getPackage :: "compiled \<Rightarrow> string \<Rightarrow> view_member list option" where
  "getPackage D n = map_option (snd \<circ> snd) (find (\<lambda>p. fst p = n) (co_packages D))"

definition tryGetScopeChildren :: "compiled \<Rightarrow> string \<Rightarrow> hier_item list option result" where
  "tryGetScopeChildren D path =
    (if path = [] then map_sum id Some (top_items D)
     else case lookupHierSymbol D path of
       Some s \<Rightarrow> if isHierarchicalScope s then map_sum id Some (getChildrenForScopeSymbol (co_env D) s) else Inr None
     | None \<Rightarrow> (case getPackage D path of
         Some ms \<Rightarrow> map_sum id Some (getScopeChildren (co_env D) ms)
       | None \<Rightarrow> Inr None))"

definition getScope :: "compiled \<Rightarrow> string \<Rightarrow> hier_item list result" where
  "getScope D path = map_sum id (\<lambda>r. case r of None \<Rightarrow> [] | Some cs \<Rightarrow> cs) (tryGetScopeChildren D path)"

definition push_scope :: "located list \<Rightarrow> located \<Rightarrow> located list" where
  "push_scope chain s = (if \<not> isHierarchicalScope (snd s) \<or> chain \<noteq> [] \<and> last chain = s then chain else chain @ [s])"

definition lookupScopeChain :: "compiled \<Rightarrow> string \<Rightarrow> located list" where
  "lookupScopeChain D path = (case co_lookup D path of (elements, found) \<Rightarrow>
     foldl push_scope [] (elements @ (case found of None \<Rightarrow> [] | Some s \<Rightarrow> [s])))"

text \<open>\<open>cancelled\<close> says at which of the checks the request is found cancelled, if at any.\<close>

definition scope_steps :: "compiled \<Rightarrow> (nat \<Rightarrow> bool) \<Rightarrow> nat \<Rightarrow> located list \<Rightarrow> (string \<times> hier_item list) list result" where
  "scope_steps D cancelled k chain = joined (map (\<lambda>(j, p, s).
     if cancelled (k + j) then Inl (RequestCancelled ''while resolving hierarchy scopes'')
     else map_sum id (\<lambda>cs. [(p, cs)]) (getChildrenForScopeSymbol (co_env D) s)) (enumerate 0 chain))"

definition getScopes :: "compiled \<Rightarrow> (nat \<Rightarrow> bool) \<Rightarrow> string \<Rightarrow> (string \<times> hier_item list) list result" where
  "getScopes D cancelled path =
    (if cancelled 0 then Inl (RequestCancelled ''before resolving root hierarchy scope'')
     else case top_items D of
       Inl e \<Rightarrow> Inl e
     | Inr roots \<Rightarrow> if path = [] then Inr [([], roots)]
         else map_sum id (\<lambda>steps. ([], roots) # steps) (scope_steps D cancelled 1 (lookupScopeChain D path)))"

end
