(* ===== verification/HierarchySearch.thy ===== *)
theory HierarchySearch
  imports Hierarchy "HOL-Library.Product_Lexorder"
begin

text \<open>
  The search over the hierarchy of a design, from \<open>ServerCompilation::searchHierarchy\<close>: the index of
  every item of the view, built on the first search by following the children of scopes and, through
  slang's lookup, those of instances, and the ranking of the items that match a query.
\<close>

section \<open>The index\<close>

record search_item =
  si_name :: string
  si_path :: string
  si_kind :: slang_kind
  si_description :: string
  si_containerName :: "string option"

fun instName :: "hier_item \<Rightarrow> string" where
  "instName (Var k n l e t v) = n"
| "instName (Scope k n l e t cs) = n"
| "instName (Instance k n l e dn dl dk h cs) = n"

fun kind_of :: "hier_item \<Rightarrow> slang_kind" where
  "kind_of (Var k n l e t v) = k"
| "kind_of (Scope k n l e t cs) = k"
| "kind_of (Instance k n l e dn dl dk h cs) = k"

definition sub_path :: "string \<Rightarrow> bool \<Rightarrow> hier_item \<Rightarrow> string" where
  "sub_path parentPath concatenateNames x =
    (if parentPath = [] then instName x else parentPath @ (if concatenateNames then [] else ''.'') @ instName x)"

text \<open>What follows the last dot.\<close>

definition label_of :: "string \<Rightarrow> string" where
  "label_of path = rev (takeWhile (\<lambda>c. c \<noteq> CHR ''.'') (rev path))"

fun description_of :: "hier_item \<Rightarrow> string" where
  "description_of (Var k n l e t v) = t @ (case v of None \<Rightarrow> [] | Some x \<Rightarrow> '' = '' @ x)"
| "description_of (Scope k n l e t cs) = (case t of None \<Rightarrow> ''scope'' | Some x \<Rightarrow> x)"
| "description_of (Instance k n l e dn dl dk h cs) = dn"

definition search_entry :: "string \<Rightarrow> string \<Rightarrow> hier_item \<Rightarrow> search_item" where
  "search_entry path containerName x = \<lparr>si_name = label_of path, si_path = path, si_kind = kind_of x,
     si_description = description_of x, si_containerName = (if containerName = [] then None else Some containerName)\<rparr>"

definition child_container :: "string \<Rightarrow> slang_kind \<Rightarrow> string \<Rightarrow> string option \<Rightarrow> string" where
  "child_container containerName k n t =
    (if k = KInterfacePort \<or> k = KInterfacePortArray then (case t of None \<Rightarrow> containerName | Some x \<Rightarrow> x)
     else containerName @ (if containerName \<noteq> [] \<and> \<not> starts_with n ''['' then ''.'' else []) @ n)"

text \<open>The children of an item with the names of their paths and their container, if there are any.\<close>

fun children_of :: "compiled \<Rightarrow> string \<Rightarrow> string \<Rightarrow> hier_item \<Rightarrow> (hier_item list \<times> bool \<times> string) option result" where
  "children_of D path container (Var k n l e t v) = Inr None"
| "children_of D path container (Scope k n l e t cs) =
     Inr (Some (cs, k = KScopeArray \<or> k = KInterfacePortArray, child_container container k n t))"
| "children_of D path container (Instance k n l e dn dl dk h cs) =
     (if cs \<noteq> [] then Inr (Some (cs, k = KInstanceArray, dn))
      else if h then (case lookupHierSymbol D path of
        None \<Rightarrow> Inr None
      | Some s \<Rightarrow> map_sum id (\<lambda>cs'. Some (cs', False, dn)) (getChildrenForScopeSymbol (co_env D) s))
      else Inr None)"

text \<open>\<open>None\<close> is a search that does not come to an end: the children of an instance are looked up by path.\<close>

partial_function (option) collect_items ::
  "compiled \<Rightarrow> hier_item list \<Rightarrow> string \<Rightarrow> bool \<Rightarrow> string \<Rightarrow> search_item list result option" where
  "collect_items D items parentPath concatenateNames containerName = (case items of
     [] \<Rightarrow> Some (Inr [])
   | x # xs \<Rightarrow> (case children_of D (sub_path parentPath concatenateNames x) containerName x of
       Inl e \<Rightarrow> Some (Inl e)
     | Inr None \<Rightarrow> Option.bind (collect_items D xs parentPath concatenateNames containerName) (\<lambda>r. Some
         (map_sum id (\<lambda>zs. search_entry (sub_path parentPath concatenateNames x) containerName x # zs) r))
     | Inr (Some (cs, cc, container)) \<Rightarrow>
         Option.bind (collect_items D cs (sub_path parentPath concatenateNames x) cc container) (\<lambda>r. (case r of
           Inl e \<Rightarrow> Some (Inl e)
         | Inr ys \<Rightarrow> Option.bind (collect_items D xs parentPath concatenateNames containerName) (\<lambda>r. Some
             (map_sum id (\<lambda>zs. search_entry (sub_path parentPath concatenateNames x) containerName x # ys @ zs) r))))))"

declare collect_items.simps [code]

definition search_index :: "compiled \<Rightarrow> search_item list result option" where
  "search_index D = (case top_items D of Inl e \<Rightarrow> Some (Inl e) | Inr roots \<Rightarrow> collect_items D roots [] False [])"

section \<open>Ranking\<close>

definition lowercase :: "string \<Rightarrow> string" where
  "lowercase s = map tolower s"

fun fuzzyMatches :: "string \<Rightarrow> string \<Rightarrow> bool" where
  "fuzzyMatches [] haystack = True"
| "fuzzyMatches (n # ns) [] = False"
| "fuzzyMatches (n # ns) (c # cs) = (if n = c then fuzzyMatches ns cs else fuzzyMatches (n # ns) cs)"

definition match_rank :: "string \<Rightarrow> search_item \<Rightarrow> nat option" where
  "match_rank lowerQuery x = (let lowerLabel = lowercase (si_name x); lowerPath = lowercase (si_path x) in
     if lowerQuery = [] then Some 0
     else if lowerLabel = lowerQuery then Some 0
     else if starts_with lowerLabel lowerQuery then Some 1
     else if sublist lowerQuery lowerLabel then Some 2
     else if sublist lowerQuery lowerPath then Some 3
     else if fuzzyMatches lowerQuery lowerPath then Some 4
     else None)"

definition match_key :: "nat \<times> search_item \<Rightarrow> nat \<times> nat \<times> string" where
  "match_key m = (fst m, length (si_path (snd m)), si_path (snd m))"

definition maxResults :: nat where
  "maxResults = 100"

text \<open>The order of matches with the same key is the sort's to choose: here it is that of the index.\<close>

definition ranked_matches :: "string \<Rightarrow> search_item list \<Rightarrow> (nat \<times> search_item) list" where
  "ranked_matches query items = List.map_filter (\<lambda>x. map_option (\<lambda>r. (r, x)) (match_rank (lowercase query) x)) items"

definition search_items :: "string \<Rightarrow> search_item list \<Rightarrow> nat \<times> search_item list" where
  "search_items query items = (let matches = ranked_matches query items in
     (length matches, map snd (take (min (length matches) maxResults) (sort_key match_key matches))))"

text \<open>The index is built on the first search after a refresh and kept.\<close>

definition searchHierarchy :: "compiled \<Rightarrow> search_item list option \<Rightarrow> string
    \<Rightarrow> ((nat \<times> search_item list) \<times> search_item list option) result option" where
  "searchHierarchy D cache query = (case cache of
     Some items \<Rightarrow> Some (Inr (search_items query items, cache))
   | None \<Rightarrow> Option.bind (search_index D) (\<lambda>r. Some
       (map_sum id (\<lambda>items. (search_items query items, Some items)) r)))"

end
