(* ===== verification/HierarchyRuns.thy ===== *)
theory HierarchyRuns
  imports HierarchySearch "HOL-Library.Multiset"
begin

text \<open>
  What the hierarchy view and its search promise: an item opens to what its scope answers, the flag
  that marks an instance as expandable, a search that comes to an end on a finite design and lists
  exactly what the view shows, and the ranking of its results.
\<close>

section \<open>Items and scopes\<close>

lemma joined_map_Inr [simp]: "joined (map Inr ys) = Inr (concat ys)"
  by (induction ys) simp_all

lemma joined_Inr_E:
  assumes "joined rs = Inr xs"
  obtains ys where "rs = map Inr ys" "xs = concat ys"
proof -
  have "\<exists>ys. rs = map Inr ys \<and> xs = concat ys"
    using assms
  proof (induction rs arbitrary: xs)
    case (Cons r rs)
    then obtain y zs where r: "r = Inr y" "joined rs = Inr zs" "xs = y @ zs"
      by (auto split: sum.splits)
    obtain ys where "rs = map Inr ys" "zs = concat ys" using Cons.IH [OF r(2)] by blast
    then show ?case using r by (intro exI [of _ "y # ys"]) simp
  qed simp
  then show thesis using that by blast
qed

fun item_children :: "hier_item \<Rightarrow> hier_item list" where
  "item_children (Var k n l e t v) = []"
| "item_children (Scope k n l e t cs) = cs"
| "item_children (Instance k n l e dn dl dk h cs) = cs"

text \<open>The view agrees with itself: the children an item of the tree is shown with are those the scope
  query answers for its symbol, for blocks, arrays and interface ports alike.\<close>

theorem item_opens_to_scope:
  assumes "item_of E m = Inr xs" "x \<in> set xs" "item_children x \<noteq> []"
  shows "xs = [x] \<and> getChildrenForScopeSymbol E (Member m) = Inr (item_children x)"
proof (cases m)
  case (VInstance i body)
  then show ?thesis
    using assms by (auto simp: handleInstance_def toInstance_def map_sum_def split: sum.splits)
next
  case (VIfacePort p d c)
  then show ?thesis
    using assms
    by (auto simp: handleInterfacePort_def getInterfacePortChildren_def getScopeChildren_def map_sum_def
        split: sum.splits option.splits)
next
  case (VBlock s u n ms)
  then show ?thesis
    using assms by (auto simp: handleBlockScope_def getScopeChildren_def map_sum_def split: sum.splits list.splits if_splits)
next
  case (VBlockArray s n es)
  then show ?thesis
    using assms by (auto simp: handleBlockScopeArray_def getGenerateArrayChildren_def getScopeChildren_def map_sum_def
        split: sum.splits list.splits)
next
  case (VInstanceArray s n r es)
  then show ?thesis
    using assms by (auto simp: handleInstanceArray_def map_sum_def split: sum.splits list.splits hier_item.splits)
qed (use assms in \<open>auto simp: handleParameter_def handleTypeParameter_def handleValue_def map_sum_def split: sum.splits\<close>)

section \<open>Expandable instances\<close>

text \<open>Members of a body that show exactly one item: no type parameters, no block or array without items.\<close>

definition shows_items :: "view_env \<Rightarrow> view_member \<Rightarrow> bool" where
  "shows_items E m \<longleftrightarrow> (\<forall>xs. item_of E m = Inr xs \<longrightarrow> (xs \<noteq> [] \<longleftrightarrow> visible m))"

lemma plain_members_show:
  "shows_items E (VInstance i ms)" "shows_items E (VParam s t v)" "shows_items E (VValue s b t)"
  "shows_items E (VIfacePort p d c)" "shows_items E (VModport s ms)" "shows_items E (VOther s)"
  by (auto simp: shows_items_def handleInstance_def handleParameter_def handleValue_def handleInterfacePort_def
      map_sum_def split: sum.splits)

text \<open>An instance is marked as expandable exactly when its scope answers any children, if its type
  parameters and its blocks and arrays do so (a body with just a type parameter, and one with just an
  uninstantiated block, are marked the wrong way).\<close>

theorem hasChildren_exact:
  assumes "list_all (shows_items E) body" "getScopeChildren E body = Inr cs"
  shows "scopeHasVisibleChildren body \<longleftrightarrow> cs \<noteq> []"
proof -
  obtain ys where ys: "map (item_of E) body = map Inr ys" "cs = concat ys"
    using assms(2) unfolding getScopeChildren_def by (rule joined_Inr_E)
  then have "list_all2 (\<lambda>m y. item_of E m = Inr y) body ys"
    by (simp add: list_all2_conv_all_nth list_eq_iff_nth_eq)
  then have "list_ex visible body \<longleftrightarrow> concat ys \<noteq> []"
    using assms(1) by (induction rule: list_all2_induct) (auto simp: shows_items_def)
  then show ?thesis by (simp add: ys(2) scopeHasVisibleChildren_def)
qed

section \<open>The search index\<close>

inductive listed :: "compiled \<Rightarrow> hier_item list \<Rightarrow> string \<Rightarrow> bool \<Rightarrow> string \<Rightarrow> string \<Rightarrow> string \<Rightarrow> hier_item \<Rightarrow> bool" for D where
  here: "x \<in> set items \<Longrightarrow> listed D items parent cc container (sub_path parent cc x) container x"
| below: "x \<in> set items \<Longrightarrow> children_of D (sub_path parent cc x) container x = Inr (Some (cs, cc', container'))
    \<Longrightarrow> listed D cs (sub_path parent cc x) cc' container' p c y
    \<Longrightarrow> listed D items parent cc container p c y"

inductive_cases listed_cases: "listed D items parent cc container p c y"

lemma listed_Nil [simp]: "\<not> listed D [] parent cc container p c y"
  by (auto elim: listed_cases)

lemma listed_more: "listed D xs parent cc container p c y \<Longrightarrow> listed D (x # xs) parent cc container p c y"
  by (erule listed_cases) (auto intro: listed.intros)

lemma listed_Cons:
  "listed D (x # xs) parent cc container p c y \<longleftrightarrow>
     p = sub_path parent cc x \<and> c = container \<and> y = x
   \<or> (\<exists>cs cc' container'. children_of D (sub_path parent cc x) container x = Inr (Some (cs, cc', container'))
        \<and> listed D cs (sub_path parent cc x) cc' container' p c y)
   \<or> listed D xs parent cc container p c y" (is "?l \<longleftrightarrow> ?r")
proof
  show "?l \<Longrightarrow> ?r" by (erule listed_cases) (auto intro: listed.intros)
  show "?r \<Longrightarrow> ?l" by (elim disjE exE conjE) (auto intro: listed.intros listed_more)
qed

abbreviation entries :: "compiled \<Rightarrow> hier_item list \<Rightarrow> string \<Rightarrow> bool \<Rightarrow> string \<Rightarrow> search_item set" where
  "entries D items parent cc container \<equiv> {search_entry p c x |p c x. listed D items parent cc container p c x}"

lemma entries_Cons:
  "entries D (x # xs) parent cc container = insert (search_entry (sub_path parent cc x) container x)
     ((case children_of D (sub_path parent cc x) container x of
         Inr (Some (cs, cc', container')) \<Rightarrow> entries D cs (sub_path parent cc x) cc' container' | _ \<Rightarrow> {})
      \<union> entries D xs parent cc container)"
  unfolding listed_Cons by (cases "children_of D (sub_path parent cc x) container x") (auto split: option.splits)

lemma collect_items_listed:
  assumes "collect_items D items parent cc container = Some r"
  shows "\<forall>xs. r = Inr xs \<longrightarrow> set xs = entries D items parent cc container"
proof (rule collect_items.raw_induct [where P = "\<lambda>D items parent cc container r.
    \<forall>xs. r = Inr xs \<longrightarrow> set xs = entries D items parent cc container", OF _ assms], goal_cases)
  case (1 collect D items parent cc container r)
  show ?case
  proof (cases items)
    case Nil
    then show ?thesis using 1(2) by auto
  next
    case (Cons x rest)
    let ?p = "sub_path parent cc x"
    have rest: "collect D rest parent cc container = Some (Inr zs) \<Longrightarrow> set zs = entries D rest parent cc container" for zs
      using 1(1) by blast
    consider e where "children_of D ?p container x = Inl e" | "children_of D ?p container x = Inr None"
      | cs cc' c' where "children_of D ?p container x = Inr (Some (cs, cc', c'))"
      by (cases "children_of D ?p container x") (auto, metis option.exhaust surj_pair)
    then show ?thesis
    proof cases
      case 1
      then show ?thesis using \<open>_ = Some r\<close> Cons by auto
    next
      case 2
      then show ?thesis
        using \<open>_ = Some r\<close> Cons rest
        by (auto simp: entries_Cons map_sum_def split: sum.splits Option.bind_splits)
    next
      case 3
      have "collect D cs ?p cc' c' = Some (Inr ys) \<Longrightarrow> set ys = entries D cs ?p cc' c'" for ys
        using 1(1) by blast
      then show ?thesis
        using 3 1(2) Cons rest
        by (auto simp: entries_Cons map_sum_def split: sum.splits Option.bind_splits)
    qed
  qed
qed


section \<open>The search comes to an end\<close>

text \<open>The paths of an elaborated design are finitely many: no longer one names a symbol.\<close>

definition finite_depth :: "compiled \<Rightarrow> nat \<Rightarrow> bool" where
  "finite_depth D N \<longleftrightarrow> (\<forall>path. N < length path \<longrightarrow> lookupHierSymbol D path = None)"

definition base_length :: "string \<Rightarrow> bool \<Rightarrow> nat" where
  "base_length parent cc = (if parent = [] then 0 else length parent + (if cc then 0 else 1))"

lemma base_length_sub: "base_length parent cc \<le> length (sub_path parent cc x)"
  by (simp add: base_length_def sub_path_def)

lemma children_descend:
  assumes "finite_depth D N" "children_of D p container x = Inr (Some (cs, cc', container'))"
  shows "size_list size cs < size x \<or> length p \<le> N \<and> length p < base_length p cc'"
proof (cases x)
  case (Instance k n l e dn dl dk h cs')
  show ?thesis
  proof (cases "cs' = []")
    case True
    then obtain s where "lookupHierSymbol D p = Some s" "cc' = False"
      using assms(2) Instance by (auto simp: map_sum_def split: if_splits option.splits sum.splits)
    moreover have "p \<noteq> []"
      using calculation by (auto simp: lookupHierSymbol_def)
    ultimately show ?thesis
      using assms(1) by (auto simp: finite_depth_def base_length_def not_less [symmetric])
  next
    case False
    then show ?thesis using assms(2) Instance by auto
  qed
qed (use assms(2) in auto)

lemma collect_items_returns:
  "finite_depth D N \<Longrightarrow> \<exists>r. collect_items D items parent cc container = Some r"
proof (induction "(Suc N - base_length parent cc, size_list size items)" arbitrary: items parent cc container
    rule: wf_induct_rule [OF wf_lex_prod [OF wf_less_than wf_less_than]])
  case (1 items parent cc container)
  show ?case
  proof (cases items)
    case Nil
    then show ?thesis by (simp add: collect_items.simps)
  next
    case (Cons x xs)
    let ?p = "sub_path parent cc x"
    obtain r where r: "collect_items D xs parent cc container = Some r"
      using 1 Cons by fastforce
    have "\<exists>r. collect_items D cs ?p cc' container' = Some r"
      if "children_of D ?p container x = Inr (Some (cs, cc', container'))" for cs cc' container'
    proof -
      have "base_length parent cc \<le> base_length ?p cc'"
        by (auto simp: base_length_def sub_path_def)
      moreover have "size_list size cs < size_list size items \<or> Suc N - base_length ?p cc' < Suc N - base_length parent cc"
        using children_descend [OF 1(2) that] base_length_sub [of parent cc x] Cons by auto
      ultimately have "((Suc N - base_length ?p cc', size_list size cs), (Suc N - base_length parent cc, size_list size items))
          \<in> less_than <*lex*> less_than"
        by auto
      then show ?thesis using 1 by blast
    qed
    then show ?thesis
      using r Cons
      by (subst collect_items.simps) (auto split: sum.splits option.splits)
  qed
qed

text \<open>The first search always comes to an end on a design of finite depth, although it follows the
  children of instances through the lookup of their paths: an index is built, or an exception leaves.\<close>

theorem search_returns:
  assumes "finite_depth D N"
  shows "\<exists>r. searchHierarchy D cache query = Some r"
proof -
  obtain r where "search_index D = Some r"
    using collect_items_returns [OF assms, of _ "[]" False "[]"]
    by (cases "top_items D") (auto simp: search_index_def)
  then show ?thesis by (cases cache) (simp_all add: searchHierarchy_def)
qed

section \<open>Ranking\<close>

text \<open>Characters of the query in order, with gaps.\<close>

lemma fuzzyMatches_subseq: "fuzzyMatches n h \<longleftrightarrow> subseq n h"
  by (induction n h rule: fuzzyMatches.induct) (auto simp: subseq_Cons2_iff)

lemma match_rank_cases:
  "match_rank q x \<noteq> None \<longleftrightarrow> subseq q (lowercase (si_path x)) \<or> sublist q (lowercase (si_name x))"
proof -
  have "sublist q l" if "prefix q l" for l :: string
    using that by (rule prefix_imp_sublist)
  moreover have "subseq q l" if "sublist q l" for l :: string
    using that by (rule sublist_imp_subseq)
  ultimately show ?thesis
    by (auto simp: match_rank_def Let_def fuzzyMatches_subseq)
qed

lemma ranked_matches_set:
  "(r, x) \<in> set (ranked_matches query items) \<longleftrightarrow> x \<in> set items \<and> match_rank (lowercase query) x = Some r"
  by (induction items) (auto simp: ranked_matches_def map_filter_simps split: option.splits)

lemma set_take_sorted_least:
  "x \<in> set (take n (sort_key f xs)) \<Longrightarrow> y \<in> set (drop n (sort_key f xs)) \<Longrightarrow> f x \<le> f y"
  using sorted_sort_key [of f xs] sorted_append [of "map f (take n (sort_key f xs))" "map f (drop n (sort_key f xs))"]
  by (metis append_take_drop_id image_eqI list.set_map map_append)

text \<open>The search answers the best matches: at most a hundred, in the order of rank, length of path
  and path, all matches being counted, and a match that is left out comes after every one answered.\<close>

theorem search_answers_best:
  assumes "search_items query items = (number, found)"
  shows "\<exists>shown left. mset (shown @ left) = mset (ranked_matches query items) \<and> found = map snd shown
    \<and> number = length (ranked_matches query items) \<and> length found = min number 100
    \<and> sorted (map match_key shown) \<and> (\<forall>m \<in> set shown. \<forall>m' \<in> set left. match_key m \<le> match_key m')"
proof -
  let ?ms = "ranked_matches query items" and ?s = "sort_key match_key (ranked_matches query items)"
  let ?n = "min (length ?ms) maxResults"
  have "mset (take ?n ?s @ drop ?n ?s) = mset ?ms" by simp
  moreover have "sorted (map match_key (take ?n ?s))"
    by (simp add: sorted_wrt_take flip: take_map)
  moreover have "\<forall>m \<in> set (take ?n ?s). \<forall>m' \<in> set (drop ?n ?s). match_key m \<le> match_key m'"
    by (intro ballI) (rule set_take_sorted_least)
  ultimately show ?thesis
    using assms by (intro exI [of _ "take ?n ?s"] exI [of _ "drop ?n ?s"]) (auto simp: search_items_def Let_def maxResults_def)
qed

section \<open>A small design\<close>

text \<open>A top module \<open>t\<close> with a port \<open>a\<close> and an instance \<open>u\<close> of a module with a type parameter.\<close>

definition small_env :: view_env where
  "small_env = \<lparr>ve_utf8 = sample_utf8, ve_sources = sample_sm [], ve_valid = (\<lambda>l. 0 < lbuffer l)\<rparr>"

definition small_sym :: "string \<Rightarrow> sym_info" where
  "small_sym n = \<lparr>sy_name = n, sy_syntax = Some (loc_at 1 0, loc_at 1 1), sy_location = loc_at 1 0\<rparr>"

definition small_inst :: "string \<Rightarrow> string \<Rightarrow> instance_sym" where
  "small_inst n d = \<lparr>in_info = small_sym n, in_definition = d, in_def_syntax = Some (loc_at 1 0, loc_at 1 1), in_def_kind = DefModule\<rparr>"

definition leaf_body :: "view_member list" where
  "leaf_body = [VTypeParam (small_sym ''T'') (Some ''int''), VValue (small_sym ''x'') False ''T'']"

definition top_body :: "view_member list" where
  "top_body = [VValue (small_sym ''a'') True ''logic'', VInstance (small_inst ''u'' ''leaf'') leaf_body,
     VBlock (small_sym ''g'') False ''g'' [VValue (small_sym ''b'') False ''logic'']]"

definition small_hierarchy :: compiled where
  "small_hierarchy = \<lparr>co_env = small_env, co_top = [(small_inst ''t'' ''top'', top_body)], co_packages = [],
     co_lookup = (\<lambda>p. ([], if p = ''t.u'' then Some (''t.u'', Member (VInstance (small_inst ''u'' ''leaf'') leaf_body)) else None))\<rparr>"

lemmas small_view_defs = small_hierarchy_def small_env_def small_sym_def small_inst_def leaf_body_def top_body_def

lemma item_opens_to_scope_witness:
  "getChildrenForScopeSymbol small_env (Member (VBlock (small_sym ''g'') False ''g'' [VValue (small_sym ''b'') False ''logic'']))
    = getScopeChildren small_env [VValue (small_sym ''b'') False ''logic'']"
proof -
  obtain l e c where x: "item_of small_env (VBlock (small_sym ''g'') False ''g'' [VValue (small_sym ''b'') False ''logic''])
      = Inr [Scope KScope ''g'' l e None [c]]" "getScopeChildren small_env [VValue (small_sym ''b'') False ''logic''] = Inr [c]"
    by (simp add: handleBlockScope_def handleValue_def syntax_range_def small_sym_def getScopeChildren_def)
  from item_opens_to_scope [OF x(1), of "Scope KScope ''g'' l e None [c]"] x(2) show ?thesis by simp
qed

lemma hasChildren_exact_witness:
  "scopeHasVisibleChildren [VValue (small_sym ''a'') True ''logic'', VOther (small_sym ''o'')]"
proof -
  have "list_all (shows_items small_env) [VValue (small_sym ''a'') True ''logic'', VOther (small_sym ''o'')]"
    by (simp add: plain_members_show)
  moreover obtain c where "getScopeChildren small_env [VValue (small_sym ''a'') True ''logic'', VOther (small_sym ''o'')] = Inr [c]"
    by (simp add: getScopeChildren_def handleValue_def syntax_range_def small_sym_def)
  ultimately show ?thesis using hasChildren_exact by blast
qed

text \<open>Bodies that are marked the wrong way.\<close>

lemma type_parameter_not_expandable:
  "\<not> scopeHasVisibleChildren [VTypeParam s t]" "\<exists>x. getScopeChildren E [VTypeParam s t] = Inr [x]"
  by (simp_all add: scopeHasVisibleChildren_def getScopeChildren_def handleTypeParameter_def)

lemma empty_block_expandable:
  "scopeHasVisibleChildren [VBlock s True n ms]" "getScopeChildren E [VBlock s True n ms] = Inr []"
  by (simp_all add: scopeHasVisibleChildren_def getScopeChildren_def)

text \<open>An array of instance arrays has no item.\<close>

lemma nested_array_hidden: "getScopeChildren E [VInstanceArray s n r [VInstanceArray s' n' r' es]] = Inr []"
  by (simp add: getScopeChildren_def handleInstanceArray_def getInstanceArrayChildren_def)

lemma small_index: "case search_index small_hierarchy of Some (Inr xs) \<Rightarrow> map si_path xs = [''t'', ''t.a'', ''t.u'', ''t.u.T'', ''t.u.x'', ''t.g'', ''t.g.b'']
    | _ \<Rightarrow> False"
  by code_simp


lemma search_returns_witness: "\<exists>r. searchHierarchy small_hierarchy None ''T'' = Some r"
proof (rule search_returns [of _ 3])
  show "finite_depth small_hierarchy 3"
    by (auto simp: finite_depth_def lookupHierSymbol_def small_hierarchy_def)
qed

lemma search_answers_best_witness:
  "\<exists>number found. search_items ''X'' [search_entry ''t'' [] (Var KPort ''t'' (toLocation_loc sample_utf8 (sample_sm []) (loc_at 0 0)) None [] None),
      search_entry ''t.x'' ''m'' (Var KPort ''x'' (toLocation_loc sample_utf8 (sample_sm []) (loc_at 0 0)) None [] None)] = (number, found)
    \<and> length found = min number 100"
  using search_answers_best by (metis surj_pair)

end
