(* ===== verification/ActiveInstances.thy ===== *)
theory ActiveInstances
  imports Positions
begin

text \<open>
  The active instance of each module and the active iteration of each generate loop, from
  src/ast/ServerCompilation.cpp, and the connection of interface ports and the projection of the
  selected instances onto a shallow compilation, from src/ast/ActiveDesignContext.cpp.

  slang's design is a parameter, a record of what the code asks of a symbol; symbols are numbers, as
  they are pointers in the code. Their locations are numbers in the order of source locations.
\<close>

section \<open>The design\<close>

type_synonym symbol = nat

datatype symbol_kind =
    SkInstance string
  | SkInterfacePort
  | SkInstanceArray "symbol list"
  | SkInstanceBody "symbol option"
  | SkGenerateBlock
  | SkGenerateArray "symbol list"
  | SkDefinition
  | SkOther

text \<open>\<open>ds_scopes\<close> are the symbols of the enclosing scopes, innermost first; \<open>ds_ports\<close> the connections
  of an instance, each to an interface port or not; \<open>ds_connection\<close> what an interface port is connected
  to, with the path and the symbol of the expression when that names a symbol; \<open>ds_members\<close> are those of
  a block, \<open>ds_body\<close> the body of an instance, \<open>ds_loop\<close> the loop an array of blocks comes from, and
  \<open>ds_definition\<close> the name of the definition of a body and \<open>ds_definition_symbol\<close> that of an instance.\<close>

record design =
  ds_kind :: "symbol \<Rightarrow> symbol_kind"
  ds_path :: "symbol \<Rightarrow> string"
  ds_name :: "symbol \<Rightarrow> string"
  ds_scopes :: "symbol \<Rightarrow> symbol list"
  ds_site :: "symbol \<Rightarrow> nat option"
  ds_where :: "symbol \<Rightarrow> location"
  ds_ports :: "symbol \<Rightarrow> (bool \<times> symbol option) list"
  ds_connection :: "symbol \<Rightarrow> symbol option \<times> (symbol list \<times> symbol) option"
  ds_has_syntax :: "symbol \<Rightarrow> bool"
  ds_members :: "symbol \<Rightarrow> symbol list"
  ds_body :: "symbol \<Rightarrow> symbol"
  ds_loop :: "symbol \<Rightarrow> nat option"
  ds_portList :: "symbol \<Rightarrow> symbol list"
  ds_location :: "symbol \<Rightarrow> nat"
  ds_definition :: "symbol \<Rightarrow> string"
  ds_definition_symbol :: "symbol \<Rightarrow> symbol"
  ds_lookup :: "string \<Rightarrow> symbol option"

abbreviation is_port :: "design \<Rightarrow> symbol \<Rightarrow> bool" where
  "is_port D s \<equiv> ds_kind D s = SkInterfacePort"

fun definition_of :: "symbol_kind \<Rightarrow> string option" where
  "definition_of (SkInstance d) = Some d"
| "definition_of _ = None"

abbreviation instance_of :: "design \<Rightarrow> symbol \<Rightarrow> string option" where
  "instance_of D s \<equiv> definition_of (ds_kind D s)"

section \<open>The connection of an interface port\<close>

record interface_connection =
  ic_sourcePath :: "symbol list"
  ic_resolvedEndpoint :: "symbol option"

definition addPathSymbol :: "design \<Rightarrow> symbol \<Rightarrow> symbol option \<Rightarrow> symbol list \<Rightarrow> symbol list" where
  "addPathSymbol D port s path = (case s of
     None \<Rightarrow> path
   | Some x \<Rightarrow> if x \<noteq> port \<and> ds_has_syntax D x \<and> x \<notin> set path then path @ [x] else path)"

text \<open>The forwarded ports of an expression, with the last that was not visited.\<close>

definition forward_element :: "design \<Rightarrow> symbol \<Rightarrow> symbol list \<Rightarrow> symbol \<Rightarrow> symbol list \<times> symbol option \<Rightarrow> symbol list \<times> symbol option" where
  "forward_element D port visited s = (\<lambda>(path, nxt).
     if is_port D s then (addPathSymbol D port (Some s) path, if s \<in> set visited then nxt else Some s)
     else (path, nxt))"

definition open_end :: "design \<Rightarrow> symbol option \<Rightarrow> bool" where
  "open_end D s = (case s of None \<Rightarrow> True | Some x \<Rightarrow> is_port D x)"

text \<open>One port of the walk: what is known after it and the port to go on with.\<close>

definition resolve_port :: "design \<Rightarrow> symbol \<Rightarrow> symbol \<Rightarrow> symbol list \<Rightarrow> interface_connection \<Rightarrow> symbol option
    \<Rightarrow> interface_connection \<times> symbol option \<times> symbol option" where
  "resolve_port D port current visited r navigable =
    (let conn = fst (ds_connection D current);
         arbitrary = snd (ds_connection D current);
         fw = (case arbitrary of
             None \<Rightarrow> (ic_sourcePath r, None)
           | Some (elements, s) \<Rightarrow> fold (forward_element D port visited) elements (ic_sourcePath r, None))
     in (\<lparr>ic_sourcePath = fst fw,
          ic_resolvedEndpoint = (if conn \<noteq> None \<and> open_end D (ic_resolvedEndpoint r) then conn else ic_resolvedEndpoint r)\<rparr>,
         if open_end D navigable then (case arbitrary of None \<Rightarrow> conn | Some (elements, s) \<Rightarrow> Some s) else navigable,
         case snd fw of Some n \<Rightarrow> Some n
         | None \<Rightarrow> (case conn of None \<Rightarrow> None | Some c \<Rightarrow> if is_port D c then Some c else None)))"

partial_function (option) resolve_loop ::
  "design \<Rightarrow> symbol \<Rightarrow> symbol \<Rightarrow> symbol list \<Rightarrow> interface_connection \<Rightarrow> symbol option \<Rightarrow> (interface_connection \<times> symbol option) option" where
  "resolve_loop D port current visited r navigable =
    (if current \<in> set visited then Some (r, navigable)
     else (case resolve_port D port current (current # visited) r navigable of
       (r', navigable', nxt) \<Rightarrow> (case nxt of
         None \<Rightarrow> Some (r', navigable')
       | Some n \<Rightarrow> if n \<in> set (current # visited) then Some (r', navigable')
           else resolve_loop D port n (current # visited) r' navigable')))"

declare resolve_loop.simps [code]

definition resolveInterfaceConnection :: "design \<Rightarrow> symbol \<Rightarrow> interface_connection option" where
  "resolveInterfaceConnection D port = map_option (\<lambda>(r, navigable). r\<lparr>ic_sourcePath := addPathSymbol D port navigable (ic_sourcePath r)\<rparr>)
     (resolve_loop D port port [] \<lparr>ic_sourcePath = [], ic_resolvedEndpoint = None\<rparr> None)"

section \<open>Selections\<close>

type_synonym qualified_instance = "string \<times> location"

text \<open>The instances by module of the analysis, and the selections kept across refreshes.\<close>

record selections =
  sl_instances :: "string \<rightharpoonup> symbol list"
  sl_active :: "string \<rightharpoonup> qualified_instance"
  sl_generate :: "string \<rightharpoonup> string"

definition toQualifiedInstance :: "design \<Rightarrow> symbol \<Rightarrow> qualified_instance" where
  "toQualifiedInstance D i = (ds_path D i, ds_where D i)"

definition select_instance :: "design \<Rightarrow> symbol \<Rightarrow> (string \<rightharpoonup> qualified_instance) \<Rightarrow> (string \<rightharpoonup> qualified_instance)" where
  "select_instance D i act = (case instance_of D i of None \<Rightarrow> act | Some d \<Rightarrow> act(d \<mapsto> toQualifiedInstance D i))"

text \<open>Elements of arrays are visited, and an interface port leads to what it is connected to.\<close>

partial_function (option) setActiveInterfaceInstances ::
  "design \<Rightarrow> symbol list \<Rightarrow> (string \<rightharpoonup> qualified_instance) \<Rightarrow> (string \<rightharpoonup> qualified_instance) option" where
  "setActiveInterfaceInstances D todo act = (case todo of
     [] \<Rightarrow> Some act
   | s # rest \<Rightarrow> (case ds_kind D s of
       SkInstance d \<Rightarrow> setActiveInterfaceInstances D rest (select_instance D s act)
     | SkInstanceArray es \<Rightarrow> setActiveInterfaceInstances D (es @ rest) act
     | SkInterfacePort \<Rightarrow> Option.bind (resolveInterfaceConnection D s) (\<lambda>c. (case ic_resolvedEndpoint c of
         Some e \<Rightarrow> if e \<noteq> s then setActiveInterfaceInstances D (e # rest) act else setActiveInterfaceInstances D rest act
       | None \<Rightarrow> setActiveInterfaceInstances D rest act))
     | _ \<Rightarrow> setActiveInterfaceInstances D rest act))"

declare setActiveInterfaceInstances.simps [code]

definition setConnectedInterfaceInstances :: "design \<Rightarrow> symbol \<Rightarrow> (string \<rightharpoonup> qualified_instance) \<Rightarrow> (string \<rightharpoonup> qualified_instance) option" where
  "setConnectedInterfaceInstances D i act =
     setActiveInterfaceInstances D (List.map_filter (\<lambda>(iface, c). if iface then c else None) (ds_ports D i)) act"

fun first_body :: "design \<Rightarrow> symbol list \<Rightarrow> symbol option" where
  "first_body D [] = None"
| "first_body D (s # ss) = (case ds_kind D s of SkInstanceBody i \<Rightarrow> Some s | _ \<Rightarrow> first_body D ss)"

definition parentInstance :: "design \<Rightarrow> symbol \<Rightarrow> symbol option" where
  "parentInstance D b = (case ds_kind D b of SkInstanceBody i \<Rightarrow> i | _ \<Rightarrow> None)"

definition getEnclosingInstance :: "design \<Rightarrow> symbol \<Rightarrow> symbol option" where
  "getEnclosingInstance D s = Option.bind (first_body D (ds_scopes D s)) (parentInstance D)"

partial_function (option) instance_chain :: "design \<Rightarrow> symbol \<Rightarrow> symbol list option" where
  "instance_chain D i = (case getEnclosingInstance D i of
     None \<Rightarrow> Some [i]
   | Some j \<Rightarrow> Option.bind (instance_chain D j) (\<lambda>c. Some (i # c)))"

declare instance_chain.simps [code]

definition activate :: "design \<Rightarrow> (string \<rightharpoonup> qualified_instance) option \<Rightarrow> symbol \<Rightarrow> (string \<rightharpoonup> qualified_instance) option" where
  "activate D act i = Option.bind act (\<lambda>a. map_option (select_instance D i) (setConnectedInterfaceInstances D i a))"

text \<open>From the outermost instance to the target, so that the deeper selections stay.\<close>

definition setActiveInstanceChain :: "design \<Rightarrow> symbol \<Rightarrow> (string \<rightharpoonup> qualified_instance) \<Rightarrow> (string \<rightharpoonup> qualified_instance) option" where
  "setActiveInstanceChain D target act =
     Option.bind (instance_chain D target) (\<lambda>chain. foldl (activate D) (Some act) (rev chain))"

definition parent_scope :: "design \<Rightarrow> symbol \<Rightarrow> symbol option" where
  "parent_scope D s = (case ds_scopes D s of [] \<Rightarrow> None | p # _ \<Rightarrow> Some p)"

fun is_generate_array :: "symbol_kind \<Rightarrow> bool" where
  "is_generate_array (SkGenerateArray es) = True"
| "is_generate_array _ = False"

definition parent_array :: "design \<Rightarrow> symbol \<Rightarrow> symbol option" where
  "parent_array D b = (case parent_scope D b of
     Some p \<Rightarrow> if is_generate_array (ds_kind D p) then Some p else None | None \<Rightarrow> None)"

definition setActiveGenerateScope :: "design \<Rightarrow> symbol \<Rightarrow> (string \<rightharpoonup> string) \<Rightarrow> (string \<rightharpoonup> string)" where
  "setActiveGenerateScope D b g = (if ds_kind D b \<noteq> SkGenerateBlock then g
     else case parent_array D b of None \<Rightarrow> g | Some a \<Rightarrow> g(ds_path D a \<mapsto> ds_path D b))"

definition setActiveGenerateScopes :: "design \<Rightarrow> symbol \<Rightarrow> (string \<rightharpoonup> string) \<Rightarrow> (string \<rightharpoonup> string)" where
  "setActiveGenerateScopes D s g = fold (setActiveGenerateScope D) (s # ds_scopes D s) g"

section \<open>Queries\<close>

definition path_depth :: "design \<Rightarrow> symbol \<Rightarrow> nat" where
  "path_depth D i = count_list (ds_path D i) (CHR ''.'')"

definition preferred_less :: "design \<Rightarrow> symbol \<Rightarrow> symbol \<Rightarrow> bool" where
  "preferred_less D a b =
    (if path_depth D a \<noteq> path_depth D b then path_depth D a < path_depth D b
     else case (ds_site D a, ds_site D b) of
       (Some la, Some lb) \<Rightarrow> if la \<noteq> lb then la < lb else ds_path D a < ds_path D b
     | (Some la, None) \<Rightarrow> True
     | (None, Some lb) \<Rightarrow> False
     | (None, None) \<Rightarrow> ds_path D a < ds_path D b)"

definition choosePreferredInstance :: "design \<Rightarrow> symbol list \<Rightarrow> symbol option" where
  "choosePreferredInstance D is = foldl (\<lambda>preferred i. case preferred of
       None \<Rightarrow> Some i | Some p \<Rightarrow> if preferred_less D i p then Some i else Some p) None is"

definition getActiveInstanceSymbol :: "design \<Rightarrow> selections \<Rightarrow> string \<Rightarrow> symbol option" where
  "getActiveInstanceSymbol D S m = (case sl_instances S m of
     None \<Rightarrow> None
   | Some is \<Rightarrow> (case (case sl_active S m of None \<Rightarrow> None | Some q \<Rightarrow> find (\<lambda>i. ds_path D i = fst q) is) of
       Some i \<Rightarrow> Some i
     | None \<Rightarrow> choosePreferredInstance D is))"

definition getActiveInstance :: "design \<Rightarrow> selections \<Rightarrow> string \<Rightarrow> qualified_instance option" where
  "getActiveInstance D S m = (case sl_instances S m of
     None \<Rightarrow> None
   | Some is \<Rightarrow> (case sl_active S m of
       Some q \<Rightarrow> Some q
     | None \<Rightarrow> map_option (toQualifiedInstance D) (getActiveInstanceSymbol D S m)))"

definition sync_module :: "design \<Rightarrow> (string \<rightharpoonup> qualified_instance) \<Rightarrow> string \<Rightarrow> symbol list \<Rightarrow> qualified_instance option" where
  "sync_module D act m is = (case (case act m of None \<Rightarrow> None | Some q \<Rightarrow> if list_ex (\<lambda>i. ds_path D i = fst q) is then Some q else None) of
     Some q \<Rightarrow> Some q
   | None \<Rightarrow> (case is of [i] \<Rightarrow> Some (toQualifiedInstance D i) | _ \<Rightarrow> None))"

definition syncActiveInstances :: "design \<Rightarrow> selections \<Rightarrow> selections" where
  "syncActiveInstances D S = S\<lparr>sl_active := (\<lambda>m. case sl_instances S m of
     None \<Rightarrow> None | Some is \<Rightarrow> if is = [] then None else sync_module D (sl_active S) m is)\<rparr>"

text \<open>A refresh analyses the new design and keeps the selections that still name an instance.\<close>

definition refresh_selections :: "design \<Rightarrow> (string \<rightharpoonup> symbol list) \<Rightarrow> selections \<Rightarrow> selections" where
  "refresh_selections D instances S = syncActiveInstances D (S\<lparr>sl_instances := instances\<rparr>)"

section \<open>Selecting by path\<close>

definition activate_chain :: "design \<Rightarrow> symbol option \<Rightarrow> selections \<Rightarrow> selections option" where
  "activate_chain D i S = (case i of
     None \<Rightarrow> Some S
   | Some j \<Rightarrow> map_option (\<lambda>a. S\<lparr>sl_active := a\<rparr>) (setActiveInstanceChain D j (sl_active S)))"

definition with_generate :: "design \<Rightarrow> symbol \<Rightarrow> selections \<Rightarrow> selections" where
  "with_generate D s S = S\<lparr>sl_generate := setActiveGenerateScopes D s (sl_generate S)\<rparr>"

definition select_connected :: "design \<Rightarrow> selections option \<Rightarrow> symbol \<Rightarrow> selections option" where
  "select_connected D S c = Option.bind S (\<lambda>S.
     if is_port D c then activate_chain D (getEnclosingInstance D c) (with_generate D c S)
     else Some (with_generate D c S))"

definition select_port :: "design \<Rightarrow> symbol \<Rightarrow> interface_connection \<Rightarrow> selections \<Rightarrow> selections option" where
  "select_port D port c S = map_option (\<lambda>S1. case ic_resolvedEndpoint c of
       Some e \<Rightarrow> if e \<notin> set (ic_sourcePath c) then with_generate D e S1 else S1
     | None \<Rightarrow> S1)
     (foldl (select_connected D) (activate_chain D (getEnclosingInstance D port) S) (ic_sourcePath c))"

definition select_target :: "design \<Rightarrow> symbol option \<Rightarrow> selections \<Rightarrow> (bool \<times> selections) option" where
  "select_target D t S = (case t of
     None \<Rightarrow> Some (False, S)
   | Some s \<Rightarrow> (case (if instance_of D s \<noteq> None then Some s else getEnclosingInstance D s) of
       None \<Rightarrow> Some (False, S)
     | Some i \<Rightarrow> map_option (\<lambda>S'. (True, S')) (activate_chain D (Some i) S)))"

text \<open>\<open>None\<close> is an endless walk through a design with a cycle.\<close>

definition setActiveInstance :: "design \<Rightarrow> string \<Rightarrow> selections \<Rightarrow> (bool \<times> selections) option" where
  "setActiveInstance D path S = (case (if path = [] then None else ds_lookup D path) of
     None \<Rightarrow> Some (False, S)
   | Some s \<Rightarrow> (let S1 = with_generate D s S in
       if is_port D s then Option.bind (resolveInterfaceConnection D s) (\<lambda>c.
         Option.bind (select_port D s c S1) (\<lambda>S2. select_target D (ic_resolvedEndpoint c) S2))
       else select_target D (Some s) S1))"

section \<open>Generate loops\<close>

text \<open>How many arrays around a loop are on their selected iteration; \<open>None\<close> if one is on another.\<close>

fun active_ancestors :: "design \<Rightarrow> (string \<rightharpoonup> string) \<Rightarrow> symbol list \<Rightarrow> nat \<Rightarrow> nat option" where
  "active_ancestors D g [] n = Some n"
| "active_ancestors D g (s # ss) n =
    (if ds_kind D s \<noteq> SkGenerateBlock then active_ancestors D g ss n
     else case parent_array D s of
       None \<Rightarrow> active_ancestors D g ss n
     | Some a \<Rightarrow> (case g (ds_path D a) of
         None \<Rightarrow> active_ancestors D g ss n
       | Some p \<Rightarrow> if p \<noteq> ds_path D s then None else active_ancestors D g ss (Suc n)))"

definition getActiveAncestorCount :: "design \<Rightarrow> (string \<rightharpoonup> string) \<Rightarrow> symbol \<Rightarrow> nat option" where
  "getActiveAncestorCount D g a = active_ancestors D g (ds_scopes D a) 0"

definition generate_key :: "design \<Rightarrow> (string \<rightharpoonup> string) \<Rightarrow> symbol \<Rightarrow> nat \<times> int \<times> string" where
  "generate_key D g a = (let n = getActiveAncestorCount D g a in
     (if n = None then 1 else 0, - int (case n of None \<Rightarrow> 0 | Some k \<Rightarrow> k), ds_path D a))"

definition key_less :: "nat \<times> int \<times> string \<Rightarrow> nat \<times> int \<times> string \<Rightarrow> bool" where
  "key_less x y = (case (x, y) of ((a, b, c), (a', b', c')) \<Rightarrow> a < a' \<or> a = a' \<and> (b < b' \<or> b = b' \<and> c < c'))"

definition chooseGenerateArray :: "design \<Rightarrow> (string \<rightharpoonup> string) \<Rightarrow> symbol list \<Rightarrow> symbol option" where
  "chooseGenerateArray D g arrays = foldl (\<lambda>best a. case best of
     None \<Rightarrow> Some a | Some b \<Rightarrow> if key_less (generate_key D g a) (generate_key D g b) then Some a else Some b) None arrays"

record active_generate_loop =
  ag_activePath :: string
  ag_iterationPaths :: "string list"

fun array_entries :: "symbol_kind \<Rightarrow> symbol list" where
  "array_entries (SkGenerateArray es) = es"
| "array_entries _ = []"

definition active_loop :: "design \<Rightarrow> (string \<rightharpoonup> string) \<Rightarrow> symbol list \<Rightarrow> active_generate_loop option" where
  "active_loop D g arrays = (case chooseGenerateArray D g arrays of
     None \<Rightarrow> None
   | Some a \<Rightarrow> (let paths = map (ds_path D) (array_entries (ds_kind D a)) in
       if paths = [] then None
       else Some \<lparr>ag_activePath =
           (case g (ds_path D a) of
              Some p \<Rightarrow> if p \<in> set paths \<and> p \<noteq> [] then p else hd paths
            | None \<Rightarrow> hd paths),
         ag_iterationPaths = paths\<rparr>))"

text \<open>The arrays of a loop below some symbols, in the order of a walk over blocks and entries.\<close>

partial_function (option) collectGenerateArrays :: "design \<Rightarrow> nat \<Rightarrow> symbol list \<Rightarrow> symbol list option" where
  "collectGenerateArrays D loop todo = (case todo of
     [] \<Rightarrow> Some []
   | s # rest \<Rightarrow> (case ds_kind D s of
       SkGenerateArray es \<Rightarrow> Option.bind (collectGenerateArrays D loop (concat (map (ds_members D) es) @ rest))
         (\<lambda>found. Some (if ds_loop D s = Some loop then s # found else found))
     | SkGenerateBlock \<Rightarrow> collectGenerateArrays D loop (ds_members D s @ rest)
     | _ \<Rightarrow> collectGenerateArrays D loop rest))"

declare collectGenerateArrays.simps [code]

definition getActiveGenerateLoop :: "design \<Rightarrow> selections \<Rightarrow> string \<Rightarrow> nat \<Rightarrow> active_generate_loop option option" where
  "getActiveGenerateLoop D S m loop = (case getActiveInstanceSymbol D S m of
     None \<Rightarrow> Some None
   | Some i \<Rightarrow> map_option (active_loop D (sl_generate S)) (collectGenerateArrays D loop (ds_members D (ds_body D i))))"

end
