(* ===== verification/ActiveInstanceRuns.thy ===== *)
theory ActiveInstanceRuns
  imports ActiveInstances "HOL-Library.Product_Lexorder"
begin

text \<open>
  What the selection of instances promises: the default instance does not depend on the order in which
  a design lists its instances, selections always name existing instances across selecting and
  refreshing, the walk over interface connections ends, and the active iteration is one of the loop's.
\<close>

section \<open>The preferred instance\<close>

text \<open>The comparison is that of a key: depth, then a valid location before none, then the path.\<close>

definition preferred_key :: "design \<Rightarrow> symbol \<Rightarrow> nat \<times> nat \<times> nat \<times> string" where
  "preferred_key D i = (path_depth D i, if ds_site D i = None then 1 else 0, case ds_site D i of None \<Rightarrow> 0 | Some l \<Rightarrow> l, ds_path D i)"

lemma preferred_less_key: "preferred_less D a b \<longleftrightarrow> preferred_key D a < preferred_key D b"
  by (cases "ds_site D a"; cases "ds_site D b") (auto simp: preferred_less_def preferred_key_def)

lemma first_least_fold:
  fixes key :: "symbol \<Rightarrow> 'a::linorder"
  assumes "foldl (\<lambda>best i. case best of None \<Rightarrow> Some i | Some p \<Rightarrow> if key i < key p then Some i else Some p) (Some p) xs = Some q"
  shows "q \<in> set (p # xs) \<and> (\<forall>i \<in> set (p # xs). key q \<le> key i)"
  using assms
proof (induction xs arbitrary: p)
  case (Cons i xs)
  let ?b = "if key i < key p then i else p"
  have "q \<in> set (?b # xs) \<and> (\<forall>j \<in> set (?b # xs). key q \<le> key j)"
    using Cons.prems by (intro Cons.IH) (simp split: if_splits)
  then show ?case by (auto split: if_splits)
qed simp

lemma first_least:
  fixes key :: "symbol \<Rightarrow> 'a::linorder"
  assumes "foldl (\<lambda>best i. case best of None \<Rightarrow> Some i | Some p \<Rightarrow> if key i < key p then Some i else Some p) None xs = r"
  shows "case r of None \<Rightarrow> xs = [] | Some q \<Rightarrow> q \<in> set xs \<and> (\<forall>i \<in> set xs. key q \<le> key i)"
proof (cases xs)
  case (Cons p ps)
  have "\<exists>q. foldl (\<lambda>best i. case best of None \<Rightarrow> Some i | Some p \<Rightarrow> if key i < key p then Some i else Some p) (Some p) ps = Some q" for p
    by (induction ps arbitrary: p) auto
  then show ?thesis
    using assms Cons first_least_fold [of key p ps] by (auto split: option.splits)
qed (use assms in simp)

lemma choosePreferredInstance_least:
  "case choosePreferredInstance D is of None \<Rightarrow> is = []
    | Some q \<Rightarrow> q \<in> set is \<and> (\<forall>i \<in> set is. preferred_key D q \<le> preferred_key D i)"
  unfolding choosePreferredInstance_def preferred_less_key by (rule first_least) (rule refl)

text \<open>The default instance of a module is deterministic: two analyses that list the same instances, with
  distinct paths, in different orders choose the same one, which no instance of the module precedes in
  depth, location and path.\<close>

theorem default_instance_deterministic:
  assumes "set is = set is'" "inj_on (ds_path D) (set is)"
  shows "choosePreferredInstance D is = choosePreferredInstance D is'
    \<and> (is \<noteq> [] \<longrightarrow> (\<exists>q \<in> set is. choosePreferredInstance D is = Some q \<and> (\<forall>i \<in> set is. \<not> preferred_less D i q)))"
proof -
  have inj: "inj_on (preferred_key D) (set is)"
    using assms(2) by (auto simp: inj_on_def preferred_key_def)
  have same: "i = j" if "i \<in> set is'" "j \<in> set is'" "preferred_key D i \<le> preferred_key D j" "preferred_key D j \<le> preferred_key D i" for i j
    using inj_onD [OF inj, of i j] that assms(1) by simp
  show ?thesis
    using choosePreferredInstance_least [of "is" D] choosePreferredInstance_least [of is' D] assms(1)
    by (cases "choosePreferredInstance D is"; cases "choosePreferredInstance D is'")
       (auto simp: preferred_less_key not_less intro: same)
qed

section \<open>Interface connections\<close>

text \<open>A design has finitely many interface ports.\<close>

definition ports_below :: "design \<Rightarrow> nat \<Rightarrow> bool" where
  "ports_below D N \<longleftrightarrow> (\<forall>s. is_port D s \<longrightarrow> s < N)"

lemma forward_element_port:
  "snd (fold (forward_element D port visited) es (path, nxt)) = Some n \<Longrightarrow> nxt = Some n \<or> is_port D n"
  by (induction es arbitrary: path nxt) (auto simp: forward_element_def split: if_splits)

lemma resolve_port_next: "resolve_port D port current visited r navigable = (r', navigable', Some n) \<Longrightarrow> is_port D n"
  by (auto simp: resolve_port_def Let_def dest: forward_element_port split: option.splits if_splits)

lemma resolve_loop_returns:
  "ports_below D N \<Longrightarrow> is_port D current \<Longrightarrow> resolve_loop D port current visited r navigable \<noteq> None"
proof (induction "card ({..<N} - set visited)" arbitrary: current visited r navigable rule: less_induct)
  case less
  show ?case
  proof (cases "current \<in> set visited")
    case False
    have "current < N" using less.prems by (auto simp: ports_below_def)
    then have "card ({..<N} - set (current # visited)) < card ({..<N} - set visited)"
      using False by (intro psubset_card_mono) auto
    then have ih: "is_port D n \<Longrightarrow> resolve_loop D port n (current # visited) r' navigable' \<noteq> None" for n r' navigable'
      using less by blast
    obtain r' navigable' nxt where step: "resolve_port D port current (current # visited) r navigable = (r', navigable', nxt)"
      by (metis surj_pair)
    show ?thesis
    proof (cases nxt)
      case (Some n)
      then show ?thesis
        using step ih [OF resolve_port_next [OF step [unfolded Some]]] by (subst resolve_loop.simps) simp
    qed (use step in \<open>simp add: resolve_loop.simps\<close>)
  qed (simp add: resolve_loop.simps)
qed

definition source_path_ok :: "design \<Rightarrow> symbol \<Rightarrow> symbol list \<Rightarrow> bool" where
  "source_path_ok D port path \<longleftrightarrow> distinct path \<and> port \<notin> set path \<and> (\<forall>s \<in> set path. ds_has_syntax D s)"

lemma addPathSymbol_ok: "source_path_ok D port path \<Longrightarrow> source_path_ok D port (addPathSymbol D port s path)"
  by (auto simp: source_path_ok_def addPathSymbol_def split: option.splits)

lemma forward_ok: "source_path_ok D port path \<Longrightarrow>
    source_path_ok D port (fst (fold (forward_element D port visited) es (path, nxt)))"
  by (induction es arbitrary: path nxt) (auto simp: forward_element_def intro: addPathSymbol_ok)

lemma resolve_port_ok: "resolve_port D port current visited r navigable = (r', navigable', nxt) \<Longrightarrow>
    source_path_ok D port (ic_sourcePath r) \<Longrightarrow> source_path_ok D port (ic_sourcePath r')"
  by (auto simp: resolve_port_def Let_def forward_ok split: option.splits)

lemma resolve_loop_ok:
  assumes "resolve_loop D port current visited r navigable = Some x"
  shows "source_path_ok D port (ic_sourcePath r) \<longrightarrow> source_path_ok D port (ic_sourcePath (fst x))"
proof (rule resolve_loop.raw_induct [where P = "\<lambda>D port current visited r navigable x.
    source_path_ok D port (ic_sourcePath r) \<longrightarrow> source_path_ok D port (ic_sourcePath (fst x))", OF _ assms], goal_cases)
  case (1 loop D port current visited r navigable x)
  then show ?case
    using resolve_port_ok [of D port current "current # visited" r navigable]
    by (auto split: if_splits option.splits prod.splits dest: 1(1))
qed

text \<open>Resolving an interface port comes to an end on every design, also when ports forward to each
  other in a cycle, and the path to its endpoint has no symbol twice, only symbols with a source, and
  not the port itself.\<close>

theorem interface_connection_resolved:
  assumes "ports_below D N" "is_port D port"
  shows "\<exists>c. resolveInterfaceConnection D port = Some c \<and> distinct (ic_sourcePath c) \<and> port \<notin> set (ic_sourcePath c)
    \<and> (\<forall>s \<in> set (ic_sourcePath c). ds_has_syntax D s)"
proof -
  obtain r n where rn: "resolve_loop D port port [] \<lparr>ic_sourcePath = [], ic_resolvedEndpoint = None\<rparr> None = Some (r, n)"
    using resolve_loop_returns [OF assms] by fastforce
  then have "source_path_ok D port (ic_sourcePath r)"
    using resolve_loop_ok [OF rn] by (simp add: source_path_ok_def)
  then show ?thesis
    using addPathSymbol_ok rn by (auto simp: resolveInterfaceConnection_def source_path_ok_def)
qed

section \<open>Selections name instances\<close>

text \<open>The analysis lists every instance under its definition.\<close>

definition instances_listed :: "design \<Rightarrow> (string \<rightharpoonup> symbol list) \<Rightarrow> bool" where
  "instances_listed D m \<longleftrightarrow> (\<forall>i d. instance_of D i = Some d \<longrightarrow> (\<exists>is. m d = Some is \<and> i \<in> set is))"

definition names_instance :: "design \<Rightarrow> (string \<rightharpoonup> symbol list) \<Rightarrow> (string \<rightharpoonup> qualified_instance) \<Rightarrow> bool" where
  "names_instance D m act \<longleftrightarrow> (\<forall>d q. act d = Some q \<longrightarrow> (\<exists>is. m d = Some is \<and> (\<exists>i \<in> set is. ds_path D i = fst q)))"

definition selections_ok :: "design \<Rightarrow> selections \<Rightarrow> bool" where
  "selections_ok D S \<longleftrightarrow> names_instance D (sl_instances S) (sl_active S)"

lemma select_names: "instances_listed D m \<Longrightarrow> names_instance D m act \<Longrightarrow> names_instance D m (select_instance D i act)"
  by (fastforce simp: names_instance_def instances_listed_def select_instance_def toQualifiedInstance_def split: option.splits)

lemma interface_names:
  assumes "setActiveInterfaceInstances D todo act = Some act'"
  shows "instances_listed D m \<longrightarrow> names_instance D m act \<longrightarrow> names_instance D m act'"
proof (rule setActiveInterfaceInstances.raw_induct [where P = "\<lambda>D todo act act'.
    instances_listed D m \<longrightarrow> names_instance D m act \<longrightarrow> names_instance D m act'", OF _ assms], goal_cases)
  case (1 walk D todo act act')
  then show ?case
    by (auto split: list.splits symbol_kind.splits Option.bind_splits option.splits if_splits
        dest!: 1(1) intro: select_names)
qed

lemma chain_names:
  assumes "instances_listed D m" "names_instance D m act" "setActiveInstanceChain D target act = Some act'"
  shows "names_instance D m act'"
proof -
  have "foldl (activate D) (Some a) chain = Some act' \<Longrightarrow> names_instance D m a \<Longrightarrow> names_instance D m act'" for a chain
  proof (induction chain arbitrary: a)
    case (Cons i chain)
    have none: "foldl (activate D) None xs = None" for xs
      by (induction xs) (simp_all add: activate_def)
    obtain b where b: "activate D (Some a) i = Some b"
      using Cons.prems(1) none by (cases "activate D (Some a) i") auto
    then have "names_instance D m b"
      using assms(1) Cons.prems(2) interface_names [of D _ a _ m]
      by (auto simp: activate_def setConnectedInterfaceInstances_def intro: select_names)
    then show ?case using Cons b by simp
  qed simp
  then show ?thesis
    using assms(2,3) by (auto simp: setActiveInstanceChain_def split: Option.bind_splits)
qed

text \<open>What every step of a selection keeps: the analysis, and selections that name its instances.\<close>

definition keeps :: "design \<Rightarrow> selections \<Rightarrow> selections \<Rightarrow> bool" where
  "keeps D S S' \<longleftrightarrow> sl_instances S' = sl_instances S
    \<and> (instances_listed D (sl_instances S) \<longrightarrow> selections_ok D S \<longrightarrow> selections_ok D S')"

lemma keeps_trans: "keeps D S S' \<Longrightarrow> keeps D S' S'' \<Longrightarrow> keeps D S S''"
  by (simp add: keeps_def)

lemma keeps_refl [simp]: "keeps D S S"
  by (simp add: keeps_def)

lemma keeps_generate: "keeps D S (with_generate D s S)"
  by (simp add: keeps_def with_generate_def selections_ok_def)

lemma keeps_chain: "activate_chain D i S = Some S' \<Longrightarrow> keeps D S S'"
  by (auto simp: activate_chain_def keeps_def selections_ok_def intro: chain_names split: option.splits)

lemma keeps_connected: "select_connected D (Some S) c = Some S' \<Longrightarrow> keeps D S S'"
  by (auto simp: select_connected_def split: if_splits intro: keeps_generate keeps_trans [OF keeps_generate keeps_chain])

lemma keeps_connecteds: "foldl (select_connected D) (Some S) cs = Some S' \<Longrightarrow> keeps D S S'"
proof (induction cs arbitrary: S)
  case (Cons c cs)
  have none: "foldl (select_connected D) None xs = None" for xs
    by (induction xs) (simp_all add: select_connected_def)
  obtain S1 where "select_connected D (Some S) c = Some S1"
    using Cons.prems none by (cases "select_connected D (Some S) c") auto
  then show ?case
    using Cons by (auto intro: keeps_trans keeps_connected)
qed (simp add: keeps_def)

lemma keeps_port: "select_port D port c S = Some S' \<Longrightarrow> keeps D S S'"
proof -
  assume *: "select_port D port c S = Some S'"
  have none: "foldl (select_connected D) None xs = None" for xs
    by (induction xs) (simp_all add: select_connected_def)
  obtain S1 S2 where S: "activate_chain D (getEnclosingInstance D port) S = Some S1"
      "foldl (select_connected D) (Some S1) (ic_sourcePath c) = Some S2"
      "S' = (case ic_resolvedEndpoint c of Some e \<Rightarrow> if e \<notin> set (ic_sourcePath c) then with_generate D e S2 else S2 | None \<Rightarrow> S2)"
    using * none by (cases "activate_chain D (getEnclosingInstance D port) S") (auto simp: select_port_def)
  then show ?thesis
    using keeps_trans [OF keeps_chain [OF S(1)] keeps_connecteds [OF S(2)]]
    by (auto intro: keeps_trans keeps_generate split: option.splits)
qed

lemma keeps_target: "select_target D t S = Some (b, S') \<Longrightarrow> keeps D S S'"
  by (auto simp: select_target_def split: option.splits if_splits intro: keeps_chain)

lemma keeps_select: "setActiveInstance D path S = Some (b, S') \<Longrightarrow> keeps D S S'"
  by (auto simp: setActiveInstance_def Let_def split: option.splits if_splits Option.bind_splits
      intro: keeps_trans [OF keeps_generate keeps_target] keeps_trans [OF keeps_generate keeps_trans [OF keeps_port keeps_target]])

lemma refresh_ok: "selections_ok D (refresh_selections D instances S)"
  by (auto simp: selections_ok_def names_instance_def refresh_selections_def syncActiveInstances_def sync_module_def
      toQualifiedInstance_def list_ex_iff split: option.splits if_splits list.splits)

text \<open>The life of a compilation: a design is analysed, paths are selected, a new design is analysed.\<close>

inductive selecting :: "design \<Rightarrow> selections \<Rightarrow> bool" where
  first: "instances_listed D m \<Longrightarrow> selecting D (refresh_selections D m \<lparr>sl_instances = m0, sl_active = Map.empty, sl_generate = Map.empty\<rparr>)"
| select_path: "selecting D S \<Longrightarrow> setActiveInstance D path S = Some (b, S') \<Longrightarrow> selecting D S'"
| refresh: "selecting D S \<Longrightarrow> instances_listed D' m \<Longrightarrow> selecting D' (refresh_selections D' m S)"

lemma selecting_listed: "selecting D S \<Longrightarrow> instances_listed D (sl_instances S)"
  by (induction rule: selecting.induct)
     (auto simp: refresh_selections_def syncActiveInstances_def keeps_def dest!: keeps_select)


section \<open>The target is selected\<close>

text \<open>Ranks that make the walks end: arrays are above their elements, ports above what they are connected
  to and instances below the instance around them.\<close>

definition well_founded_design :: "design \<Rightarrow> (symbol \<Rightarrow> nat) \<Rightarrow> bool" where
  "well_founded_design D rank \<longleftrightarrow> (\<exists>N. ports_below D N)
    \<and> (\<forall>s es e. ds_kind D s = SkInstanceArray es \<longrightarrow> e \<in> set es \<longrightarrow> rank e < rank s)
    \<and> (\<forall>s c e. is_port D s \<longrightarrow> resolveInterfaceConnection D s = Some c \<longrightarrow> ic_resolvedEndpoint c = Some e \<longrightarrow> e \<noteq> s \<longrightarrow> rank e < rank s)
    \<and> (\<forall>i j. getEnclosingInstance D i = Some j \<longrightarrow> rank j < rank i)"

lemma resolve_returns: "well_founded_design D rank \<Longrightarrow> is_port D s \<Longrightarrow> \<exists>c. resolveInterfaceConnection D s = Some c"
  using resolve_loop_returns [of D _ s s "[]"] by (fastforce simp: well_founded_design_def resolveInterfaceConnection_def)

lemma interface_step_returns:
  "well_founded_design D rank \<Longrightarrow> (\<And>act. \<exists>a. setActiveInterfaceInstances D rest act = Some a) \<Longrightarrow>
    \<exists>a. setActiveInterfaceInstances D (s # rest) act = Some a"
proof (induction "rank s" arbitrary: s rest act rule: less_induct)
  case less
  have elements: "\<exists>a. setActiveInterfaceInstances D (es @ rest) act = Some a"
    if "\<forall>e \<in> set es. rank e < rank s" for es act
    using that
  proof (induction es arbitrary: act)
    case (Cons e es)
    then show ?case using less.hyps [of e "es @ rest" act] less.prems(1) by simp
  qed (use less.prems(2) in simp)
  show ?case
  proof (cases "ds_kind D s")
    case (SkInstanceArray es)
    then have "\<forall>e \<in> set es. rank e < rank s" using less.prems(1) unfolding well_founded_design_def by blast
    then show ?thesis using SkInstanceArray elements by (subst setActiveInterfaceInstances.simps) simp
  next
    case SkInterfacePort
    then obtain c where c: "resolveInterfaceConnection D s = Some c" using resolve_returns less.prems(1) by blast
    have "rank e < rank s" if "ic_resolvedEndpoint c = Some e" "e \<noteq> s" for e
      using that SkInterfacePort c less.prems(1) unfolding well_founded_design_def by blast
    then show ?thesis
      using c SkInterfacePort less.prems(2) elements [of "[e]" for e]
      by (subst setActiveInterfaceInstances.simps) (auto split: option.splits)
  qed (use less.prems(2) in \<open>subst setActiveInterfaceInstances.simps, simp\<close>)+
qed

lemma interface_returns: "well_founded_design D rank \<Longrightarrow> \<exists>a. setActiveInterfaceInstances D todo act = Some a"
proof (induction todo arbitrary: act)
  case (Cons s todo)
  then show ?case using interface_step_returns by blast
qed (simp add: setActiveInterfaceInstances.simps)

lemma instance_chain_returns:
  "well_founded_design D rank \<Longrightarrow> \<exists>c. instance_chain D i = Some c \<and> c \<noteq> [] \<and> hd c = i"
proof (induction "rank i" arbitrary: i rule: less_induct)
  case less
  show ?case
  proof (cases "getEnclosingInstance D i")
    case (Some j)
    then have "rank j < rank i" using less.prems unfolding well_founded_design_def by blast
    then obtain c where "instance_chain D j = Some c" using less by blast
    then show ?thesis using Some by (subst instance_chain.simps) simp
  qed (subst instance_chain.simps, simp)
qed

text \<open>The walk over the blocks of generate loops ends on a tree.\<close>

definition generate_tree :: "design \<Rightarrow> (symbol \<Rightarrow> nat) \<Rightarrow> bool" where
  "generate_tree D rank \<longleftrightarrow>
     (\<forall>s es e t. ds_kind D s = SkGenerateArray es \<longrightarrow> e \<in> set es \<longrightarrow> t \<in> set (ds_members D e) \<longrightarrow> rank t < rank s)
   \<and> (\<forall>s t. ds_kind D s = SkGenerateBlock \<longrightarrow> t \<in> set (ds_members D s) \<longrightarrow> rank t < rank s)"

lemma arrays_step_returns:
  "generate_tree D rank \<Longrightarrow> \<exists>r. collectGenerateArrays D loop todo = Some r \<Longrightarrow>
    \<exists>r. collectGenerateArrays D loop (s # todo) = Some r"
proof (induction "rank s" arbitrary: s todo rule: less_induct)
  case less
  have below: "\<exists>r. collectGenerateArrays D loop (ts @ todo) = Some r" if "\<forall>t \<in> set ts. rank t < rank s" for ts
    using that
  proof (induction ts)
    case (Cons t ts)
    then show ?case using less.hyps [of t "ts @ todo"] less.prems(1) by simp
  qed (use less.prems(2) in simp)
  show ?case
  proof (cases "ds_kind D s")
    case (SkGenerateArray es)
    then have "\<forall>t \<in> set (concat (map (ds_members D) es)). rank t < rank s"
      using less.prems(1) unfolding generate_tree_def by fastforce
    then show ?thesis using SkGenerateArray below by (subst collectGenerateArrays.simps) fastforce
  next
    case SkGenerateBlock
    then have "\<forall>t \<in> set (ds_members D s). rank t < rank s" using less.prems(1) unfolding generate_tree_def by blast
    then show ?thesis using SkGenerateBlock below by (subst collectGenerateArrays.simps) simp
  qed (use less.prems(2) in \<open>subst collectGenerateArrays.simps, simp\<close>)+
qed

lemma arrays_return: "generate_tree D rank \<Longrightarrow> \<exists>r. collectGenerateArrays D loop todo = Some r"
proof (induction todo)
  case (Cons s todo)
  then show ?case using arrays_step_returns by blast
qed (simp add: collectGenerateArrays.simps)

lemma active_loop_returns: "generate_tree D rank \<Longrightarrow> getActiveGenerateLoop D S m loop \<noteq> None"
  using arrays_return [of D rank loop] by (fastforce simp: getActiveGenerateLoop_def split: option.split)

lemma activate_returns: "well_founded_design D rank \<Longrightarrow> \<exists>b. activate D (Some a) i = Some (select_instance D i b)"
  using interface_returns [of D rank] by (fastforce simp: activate_def setConnectedInterfaceInstances_def)

lemma activates_return: "well_founded_design D rank \<Longrightarrow> \<exists>b. foldl (activate D) (Some a) is = Some b"
proof (induction "is" arbitrary: a)
  case (Cons i "is")
  obtain b where "activate D (Some a) i = Some (select_instance D i b)"
    using activate_returns [OF Cons.prems] by blast
  then show ?case using Cons by simp
qed simp

lemma chain_selects:
  assumes "well_founded_design D rank"
  shows "\<exists>b. setActiveInstanceChain D i act = Some (select_instance D i b)"
proof -
  obtain c where c: "instance_chain D i = Some (i # c)"
    using instance_chain_returns [OF assms, of i] by (metis list.collapse)
  obtain a where "foldl (activate D) (Some act) (rev c) = Some a"
    using activates_return [OF assms] by blast
  then show ?thesis
    using c activate_returns [OF assms] by (simp add: setActiveInstanceChain_def)
qed

text \<open>C26. Selecting the path of an instance succeeds and takes effect: the instance is from then on the active
  one of its module, in the stored selection and for every query that asks for the symbol, whatever was
  selected before and whatever interfaces it is connected to.\<close>

theorem selected_instance_active:
  assumes "well_founded_design D rank" "instances_listed D (sl_instances S)"
    and "path \<noteq> []" "ds_lookup D path = Some i" "instance_of D i = Some d"
    and "\<And>j. instance_of D j = Some d \<Longrightarrow> ds_path D j = ds_path D i \<Longrightarrow> j = i"
    and "\<And>j is. sl_instances S d = Some is \<Longrightarrow> j \<in> set is \<Longrightarrow> instance_of D j = Some d"
  shows "\<exists>S'. setActiveInstance D path S = Some (True, S')
    \<and> getActiveInstance D S' d = Some (toQualifiedInstance D i) \<and> getActiveInstanceSymbol D S' d = Some i"
proof -
  obtain b where b: "setActiveInstanceChain D i (sl_active (with_generate D i S)) = Some (select_instance D i b)"
    using chain_selects [OF assms(1)] by blast
  let ?S = "(with_generate D i S)\<lparr>sl_active := select_instance D i b\<rparr>"
  have "\<not> is_port D i" using assms(5) by auto
  then have "setActiveInstance D path S = Some (True, ?S)"
    using assms(3-5) b by (simp add: setActiveInstance_def Let_def select_target_def activate_chain_def)
  moreover have act: "sl_active ?S d = Some (toQualifiedInstance D i)"
    using assms(5) by (simp add: select_instance_def)
  obtain "is" where "is": "sl_instances S d = Some is" "i \<in> set is"
    using assms(2,5) unfolding instances_listed_def by blast
  then have "find (\<lambda>j. ds_path D j = ds_path D i) is = Some i"
    using assms(6,7) by (cases "find (\<lambda>j. ds_path D j = ds_path D i) is") (auto simp: find_None_iff find_Some_iff, metis nth_mem)
  then have "getActiveInstanceSymbol D ?S d = Some i" "getActiveInstance D ?S d = Some (toQualifiedInstance D i)"
    using act "is" by (simp_all add: getActiveInstanceSymbol_def getActiveInstance_def toQualifiedInstance_def with_generate_def)
  ultimately show ?thesis by blast
qed

section \<open>Generate loops\<close>

lemma key_less_iff: "key_less x y \<longleftrightarrow> x < y"
  by (cases x; cases y) (auto simp: key_less_def)

lemma chooseGenerateArray_least:
  "case chooseGenerateArray D g arrays of None \<Rightarrow> arrays = []
    | Some a \<Rightarrow> a \<in> set arrays \<and> (\<forall>b \<in> set arrays. generate_key D g a \<le> generate_key D g b)"
  unfolding chooseGenerateArray_def key_less_iff by (rule first_least) (rule refl)

text \<open>The active iteration is one of the loop's, the selected one if there is a selection among them.\<close>

lemma active_loop_iteration:
  assumes "active_loop D g arrays = Some l"
  shows "\<exists>a \<in> set arrays. ag_iterationPaths l = map (ds_path D) (array_entries (ds_kind D a)) \<and> ag_activePath l \<in> set (ag_iterationPaths l)
    \<and> (\<forall>p \<in> set (ag_iterationPaths l). p \<noteq> [] \<longrightarrow> g (ds_path D a) = Some p \<longrightarrow> ag_activePath l = p)"
proof -
  obtain a where a: "chooseGenerateArray D g arrays = Some a"
    using assms by (auto simp: active_loop_def split: option.splits)
  then have "a \<in> set arrays"
    using chooseGenerateArray_least [of arrays D g] by simp
  define paths where "paths = map (ds_path D) (array_entries (ds_kind D a))"
  have l: "paths \<noteq> []" "ag_iterationPaths l = paths"
    "ag_activePath l = (case g (ds_path D a) of Some p \<Rightarrow> if p \<in> set paths \<and> p \<noteq> [] then p else hd paths | None \<Rightarrow> hd paths)"
    using assms a unfolding paths_def by (auto simp: active_loop_def Let_def split: if_splits)
  then show ?thesis
    using \<open>a \<in> set arrays\<close> hd_in_set [OF l(1)] unfolding l(2,3) paths_def [symmetric]
    by (intro bexI [of _ a]) (simp_all add: paths_def split: option.splits)
qed

section \<open>A small design\<close>

text \<open>The top \<open>t\<close> with an instance \<open>t.u\<close> of \<open>m\<close>, whose interface port is connected to \<open>t.bus\<close>.\<close>

definition small_chip :: design where
  "small_chip = \<lparr>ds_kind = (\<lambda>s. if s = 0 then SkInstance ''top'' else if s = 1 then SkInstanceBody (Some 0)
       else if s = 2 then SkInstance ''m'' else if s = 3 then SkInstanceBody (Some 2)
       else if s = 4 then SkInstance ''bus_if'' else if s = 5 then SkInterfacePort else SkOther),
     ds_path = (\<lambda>s. if s < 2 then ''t'' else if s < 4 then ''t.u'' else if s = 4 then ''t.bus'' else ''t.u.p''),
     ds_name = (\<lambda>s. []),
     ds_scopes = (\<lambda>s. if s = 2 \<or> s = 4 then [1] else if s = 5 then [3] else []),
     ds_site = Some,
     ds_where = (\<lambda>s. toLocation_loc sample_utf8 (sample_sm []) (loc_at 0 0)),
     ds_ports = (\<lambda>s. if s = 2 then [(True, Some 4), (False, Some 9)] else []),
     ds_connection = (\<lambda>s. if s = 5 then (Some 4, None) else (None, None)),
     ds_has_syntax = (\<lambda>s. True), ds_members = (\<lambda>s. []), ds_body = Suc, ds_loop = (\<lambda>s. None),
     ds_portList = (\<lambda>s. if s = 3 then [5] else []), ds_location = id, ds_definition = (\<lambda>s. if s = 3 then ''m'' else ''top''),
     ds_definition_symbol = (\<lambda>s. s + 100),
     ds_lookup = (\<lambda>p. if p = ''t.u'' then Some 2 else if p = ''t.u.p'' then Some 5 else None)\<rparr>"

definition small_chip_instances :: "string \<rightharpoonup> symbol list" where
  "small_chip_instances = [''top'' \<mapsto> [0], ''m'' \<mapsto> [2], ''bus_if'' \<mapsto> [4]]"

abbreviation fresh_selections :: selections where
  "fresh_selections \<equiv> \<lparr>sl_instances = Map.empty, sl_active = Map.empty, sl_generate = Map.empty\<rparr>"

lemma small_chip_listed: "instances_listed small_chip small_chip_instances"
  by (auto simp: instances_listed_def small_chip_def small_chip_instances_def split: if_splits)

lemma small_chip_ports: "ports_below small_chip 6" "is_port small_chip s \<longleftrightarrow> s = 5"
  by (auto simp: ports_below_def small_chip_def)

lemma small_chip_resolved: "resolveInterfaceConnection small_chip 5 = Some \<lparr>ic_sourcePath = [4], ic_resolvedEndpoint = Some 4\<rparr>"
  by (simp add: resolveInterfaceConnection_def resolve_loop.simps resolve_port_def open_end_def addPathSymbol_def Let_def)
     (simp add: small_chip_def)

lemma small_chip_well_founded: "well_founded_design small_chip (\<lambda>s. if s = 0 then 0 else if s = 5 then 2 else 1)"
  unfolding well_founded_design_def
  using small_chip_ports small_chip_resolved
  by (auto simp: small_chip_ports(2)) (auto simp: small_chip_def getEnclosingInstance_def parentInstance_def split: if_splits)

lemma default_instance_deterministic_witness:
  "choosePreferredInstance small_chip [2, 0, 4] = choosePreferredInstance small_chip [0, 4, 2]"
  using default_instance_deterministic [of "[2, 0, 4]" "[0, 4, 2]" small_chip]
  by (auto simp: small_chip_def insert_commute)

lemma interface_connection_resolved_witness:
  "\<exists>c. resolveInterfaceConnection small_chip 5 = Some c \<and> distinct (ic_sourcePath c) \<and> 5 \<notin> set (ic_sourcePath c)"
  using interface_connection_resolved [OF small_chip_ports(1), of 5] small_chip_ports(2) by blast


lemma selected_instance_active_witness:
  "\<exists>S'. setActiveInstance small_chip ''t.u'' (refresh_selections small_chip small_chip_instances fresh_selections) = Some (True, S')
    \<and> getActiveInstanceSymbol small_chip S' ''m'' = Some 2"
proof -
  let ?S = "refresh_selections small_chip small_chip_instances fresh_selections"
  have "\<exists>S'. setActiveInstance small_chip ''t.u'' ?S = Some (True, S')
      \<and> getActiveInstance small_chip S' ''m'' = Some (toQualifiedInstance small_chip 2) \<and> getActiveInstanceSymbol small_chip S' ''m'' = Some 2"
    by (rule selected_instance_active [OF small_chip_well_founded])
       (use small_chip_listed in \<open>auto simp: refresh_selections_def syncActiveInstances_def small_chip_instances_def\<close>,
        auto simp: small_chip_def split: if_splits)
  then show ?thesis by blast
qed

end
