(* ===== verification/ActiveContext.thy ===== *)
theory ActiveContext
  imports ActiveInstanceRuns
begin

text \<open>
  The projection of the selected instances onto shallow compilations and back, from
  src/ast/ActiveDesignContext.cpp and \<open>ServerCompilation::toShallowSymbol\<close>: paths are cut at an
  instance and rooted again at the one that stands for it in the other compilation.
\<close>

section \<open>Bindings\<close>

record definition_binding =
  db_instance :: symbol
  db_connections :: "string \<rightharpoonup> interface_connection"

record active_context =
  ac_design :: design
  ac_definitions :: "string \<rightharpoonup> definition_binding"
  ac_interfaceInstances :: "(nat \<times> symbol) list"

partial_function (option) first_instance :: "design \<Rightarrow> symbol list \<Rightarrow> symbol option option" where
  "first_instance D todo = (case todo of
     [] \<Rightarrow> Some None
   | s # rest \<Rightarrow> (case ds_kind D s of
       SkInstance d \<Rightarrow> Some (Some s)
     | SkInstanceArray es \<Rightarrow> first_instance D (es @ rest)
     | _ \<Rightarrow> first_instance D rest))"

declare first_instance.simps [code]

definition getFirstInterfaceInstance :: "design \<Rightarrow> symbol option \<Rightarrow> symbol option option" where
  "getFirstInterfaceInstance D s = (case s of None \<Rightarrow> Some None | Some x \<Rightarrow> first_instance D [x])"

text \<open>One port of the bound instance: the first connection of a name is kept.\<close>

definition bind_port :: "(symbol \<rightharpoonup> interface_connection) \<Rightarrow> (symbol option \<Rightarrow> symbol option option) \<Rightarrow> design \<Rightarrow> symbol
    \<Rightarrow> (definition_binding \<times> (nat \<times> symbol) list) option \<Rightarrow> (definition_binding \<times> (nat \<times> symbol) list) option" where
  "bind_port resolve firsti D p acc = Option.bind acc (\<lambda>(b, ifs).
     if \<not> is_port D p then Some (b, ifs)
     else Option.bind (resolve p) (\<lambda>c. Option.bind (firsti (ic_resolvedEndpoint c)) (\<lambda>fi.
       Some (if db_connections b (ds_name D p) = None then b\<lparr>db_connections := (db_connections b)(ds_name D p \<mapsto> c)\<rparr> else b,
         case fi of None \<Rightarrow> ifs | Some i \<Rightarrow> ifs @ [(ds_location D p, i)]))))"

definition bindInstance :: "symbol \<Rightarrow> active_context \<Rightarrow> active_context option" where
  "bindInstance i ctx = (let D = ac_design ctx in
     map_option (\<lambda>(b, ifs). ctx\<lparr>ac_definitions := (ac_definitions ctx)((case instance_of D i of None \<Rightarrow> [] | Some d \<Rightarrow> d) \<mapsto> b),
         ac_interfaceInstances := ifs\<rparr>)
       (fold (bind_port (resolveInterfaceConnection D) (getFirstInterfaceInstance D) D) (ds_portList D (ds_body D i))
         (Some (\<lparr>db_instance = i, db_connections = Map.empty\<rparr>, ac_interfaceInstances ctx))))"

definition createActiveDesignContext :: "design \<Rightarrow> selections \<Rightarrow> string list \<Rightarrow> active_context option" where
  "createActiveDesignContext D S names = foldl (\<lambda>ctx n. Option.bind ctx (\<lambda>c.
       case getActiveInstanceSymbol D S n of None \<Rightarrow> Some c | Some i \<Rightarrow> bindInstance i c))
     (Some \<lparr>ac_design = D, ac_definitions = Map.empty, ac_interfaceInstances = []\<rparr>) names"

section \<open>From the shallow compilation to the design\<close>

definition getContainingInstanceBody :: "design \<Rightarrow> symbol \<Rightarrow> symbol option" where
  "getContainingInstanceBody D s = first_body D (s # ds_scopes D s)"

text \<open>The path of a symbol below one instance, below another.\<close>

definition reroot :: "string \<Rightarrow> string \<Rightarrow> string \<Rightarrow> string option" where
  "reroot path old_root new_root = (if starts_with path old_root then Some (new_root @ drop (length old_root) path) else None)"

definition mapDesignSymbol :: "design \<Rightarrow> design \<Rightarrow> symbol \<Rightarrow> symbol \<Rightarrow> symbol \<Rightarrow> symbol \<Rightarrow> symbol option" where
  "mapDesignSymbol SD D s body parent i =
    (if s = body then Some (ds_body D i)
     else Option.bind (reroot (ds_path SD s) (ds_path SD parent) (ds_path D i)) (ds_lookup D))"

definition getDesignSymbol :: "active_context \<Rightarrow> design \<Rightarrow> symbol \<Rightarrow> symbol option" where
  "getDesignSymbol ctx SD s = (let D = ac_design ctx in
     if ds_kind SD s = SkDefinition then map_option (\<lambda>b. ds_definition_symbol D (db_instance b)) (ac_definitions ctx (ds_name SD s))
     else case Option.bind (getContainingInstanceBody SD s) (\<lambda>b. map_option (\<lambda>p. (b, p)) (parentInstance SD b)) of
       None \<Rightarrow> None
     | Some (body, parent) \<Rightarrow>
        (case (if ds_path SD s \<noteq> [] \<and> hd (ds_path SD s) \<noteq> CHR ''.'' then ds_lookup D (ds_path SD s) else None) of
           Some t \<Rightarrow> Some t
         | None \<Rightarrow> (case find (\<lambda>e. fst e = ds_location SD parent) (ac_interfaceInstances ctx) of
             Some (l, i) \<Rightarrow> mapDesignSymbol SD D s body parent i
           | None \<Rightarrow> (case ac_definitions ctx (ds_definition SD body) of
               None \<Rightarrow> None
             | Some b \<Rightarrow> mapDesignSymbol SD D s body parent (db_instance b)))))"

definition getInterfaceConnection :: "active_context \<Rightarrow> design \<Rightarrow> symbol \<Rightarrow> interface_connection option" where
  "getInterfaceConnection ctx SD port = (case getContainingInstanceBody SD port of
     None \<Rightarrow> None
   | Some body \<Rightarrow> (case ac_definitions ctx (ds_definition SD body) of
       None \<Rightarrow> None
     | Some b \<Rightarrow> db_connections b (ds_name SD port)))"

section \<open>From the design to a shallow compilation\<close>

text \<open>\<open>docs\<close> is \<open>m_moduleToDoc\<close> with the compilation of each document. The result is a symbol of the
  compilation of a module; a body without an instance is \<open>Undefined\<close>.\<close>

definition shallow_at :: "design \<Rightarrow> (string \<rightharpoonup> design) \<Rightarrow> string \<Rightarrow> symbol \<Rightarrow> symbol \<Rightarrow> symbol option" where
  "shallow_at D docs fullPath b i = Option.bind (docs (ds_definition D b)) (\<lambda>C.
     Option.bind (reroot fullPath (ds_path D i) (ds_definition D b)) (ds_lookup C))"

definition climb_from :: "design \<Rightarrow> (string \<rightharpoonup> design) \<Rightarrow> string \<Rightarrow> symbol \<Rightarrow> ((string \<times> symbol) option result, symbol option) sum" where
  "climb_from D docs fullPath b = (case parentInstance D b of
     None \<Rightarrow> Inl (Inl Undefined)
   | Some i \<Rightarrow> (case shallow_at D docs fullPath b i of
       Some t \<Rightarrow> Inl (Inr (Some (ds_definition D b, t)))
     | None \<Rightarrow> Inr (first_body D (ds_scopes D i))))"

partial_function (option) climb ::
  "design \<Rightarrow> (string \<rightharpoonup> design) \<Rightarrow> string \<Rightarrow> symbol option \<Rightarrow> (string \<times> symbol) option result option" where
  "climb D docs fullPath body =
    (if body = None then Some (Inr None)
     else (case climb_from D docs fullPath (the body) of
       Inl r \<Rightarrow> Some r
     | Inr outer \<Rightarrow> climb D docs fullPath outer))"

declare climb.simps [code]

definition toShallowSymbol :: "design \<Rightarrow> (string \<rightharpoonup> design) \<Rightarrow> symbol \<Rightarrow> (string \<times> symbol) option result option" where
  "toShallowSymbol D docs s =
    (if ds_kind D s = SkDefinition then Some (Inr (Option.bind (docs (ds_name D s)) (\<lambda>C.
         map_option (\<lambda>t. (ds_name D s, t)) (if ds_name D s = [] then None else ds_lookup C (ds_name D s)))))
     else climb D docs (ds_path D s) (first_body D (ds_scopes D s)))"

section \<open>Properties\<close>

text \<open>Making the context ends.\<close>

lemma first_instance_step:
  "well_founded_design D rank \<Longrightarrow> \<exists>r. first_instance D todo = Some r \<Longrightarrow> \<exists>r. first_instance D (s # todo) = Some r"
proof (induction "rank s" arbitrary: s todo rule: less_induct)
  case less
  have elements: "\<exists>r. first_instance D (es @ todo) = Some r" if "\<forall>e \<in> set es. rank e < rank s" for es
    using that
  proof (induction es)
    case (Cons e es)
    then show ?case using less.hyps [of e "es @ todo"] less.prems(1) by simp
  qed (use less.prems(2) in simp)
  show ?case
  proof (cases "ds_kind D s")
    case (SkInstanceArray es)
    then have "\<forall>e \<in> set es. rank e < rank s" using less.prems(1) unfolding well_founded_design_def by blast
    then show ?thesis using SkInstanceArray elements by (subst first_instance.simps) simp
  qed (use less.prems(2) in \<open>subst first_instance.simps, simp\<close>)+
qed

lemma first_instance_returns: "well_founded_design D rank \<Longrightarrow> \<exists>r. getFirstInterfaceInstance D s = Some r"
  using first_instance_step [of D rank "[]"] by (cases s) (auto simp: getFirstInterfaceInstance_def first_instance.simps [of D "[]"])

lemma bind_port_returns:
  "well_founded_design D rank \<Longrightarrow> \<exists>b. bind_port (resolveInterfaceConnection D) (getFirstInterfaceInstance D) D p (Some a) = Some b"
proof (cases "is_port D p")
  case True
  assume wf: "well_founded_design D rank"
  obtain c where "resolveInterfaceConnection D p = Some c" using resolve_returns wf True by blast
  moreover obtain r where "getFirstInterfaceInstance D (ic_resolvedEndpoint c) = Some r"
    using first_instance_returns wf by blast
  ultimately show ?thesis using True by (cases a) (simp add: bind_port_def)
qed (cases a, simp add: bind_port_def)

lemma bind_ports_return:
  "well_founded_design D rank \<Longrightarrow>
    \<exists>b. fold (bind_port (resolveInterfaceConnection D) (getFirstInterfaceInstance D) D) ps (Some a) = Some b"
proof (induction ps arbitrary: a)
  case (Cons p ps)
  then show ?case using bind_port_returns [of D rank p a] by auto
qed simp

lemma bindInstance_returns: "well_founded_design (ac_design ctx) rank \<Longrightarrow> \<exists>c. bindInstance i ctx = Some c \<and> ac_design c = ac_design ctx"
  using bind_ports_return [of "ac_design ctx" rank] by (fastforce simp: bindInstance_def Let_def)

lemma context_step_returns:
  "well_founded_design D rank \<Longrightarrow> ac_design c = D \<Longrightarrow>
    \<exists>c'. foldl (\<lambda>ctx n. Option.bind ctx (\<lambda>c. case getActiveInstanceSymbol D S n of None \<Rightarrow> Some c | Some i \<Rightarrow> bindInstance i c))
      (Some c) names = Some c'"
proof (induction names arbitrary: c)
  case (Cons n names)
  show ?case
  proof (cases "getActiveInstanceSymbol D S n")
    case (Some i)
    then obtain d where "bindInstance i c = Some d" "ac_design d = D"
      using bindInstance_returns [of c rank i] Cons.prems by auto
    then show ?thesis using Some Cons.IH [of d] Cons.prems by simp
  qed (use Cons in simp)
qed simp

lemma context_returns: "well_founded_design D rank \<Longrightarrow> createActiveDesignContext D S names \<noteq> None"
  using context_step_returns [of D rank] by (fastforce simp: createActiveDesignContext_def)

text \<open>The climb ends: every instance around is above the one below.\<close>

lemma climb_returns:
  assumes "well_founded_design D rank"
  shows "climb D docs path (first_body D (ds_scopes D s)) \<noteq> None"
proof (induction "rank s" arbitrary: s rule: less_induct)
  case less
  show ?case
  proof (cases "first_body D (ds_scopes D s)")
    case (Some b)
    show ?thesis
    proof (cases "parentInstance D b")
      case None
      then show ?thesis using Some by (subst climb.simps) (simp add: climb_from_def)
    next
      case parent: (Some i)
      then have "getEnclosingInstance D s = Some i" using Some by (simp add: getEnclosingInstance_def)
      then have "rank i < rank s" using assms unfolding well_founded_design_def by blast
      then show ?thesis
        using less Some parent by (subst climb.simps) (simp add: climb_from_def split: option.splits)
    qed
  qed (subst climb.simps, simp)
qed

lemma reroot_append [simp]: "reroot (old_root @ rest) old_root new_root = Some (new_root @ rest)"
  by (simp add: reroot_def)


text \<open>The module \<open>m\<close> on its own, with its instance \<open>m\<close> and the value \<open>m.x\<close>, and the design with \<open>t.u.x\<close>.\<close>

definition small_shallow :: design where
  "small_shallow = small_chip\<lparr>ds_kind := (\<lambda>s. if s = 0 then SkInstance ''m'' else if s = 1 then SkInstanceBody (Some 0) else SkOther),
     ds_path := (\<lambda>s. if s < 2 then ''m'' else ''m.x''), ds_scopes := (\<lambda>s. if s = 2 then [1] else []),
     ds_definition := (\<lambda>s. ''m''), ds_lookup := (\<lambda>p. if p = ''m.x'' then Some 2 else None)\<rparr>"

definition small_full :: design where
  "small_full = small_chip\<lparr>ds_path := (\<lambda>s. if s = 9 then ''t.u.x'' else ds_path small_chip s),
     ds_scopes := (\<lambda>s. if s = 9 then [3] else ds_scopes small_chip s),
     ds_lookup := (\<lambda>p. if p = ''t.u.x'' then Some 9 else None)\<rparr>"


text \<open>The context made from the selections binds the active instances.\<close>

lemma bindInstance_binds:
  assumes "bindInstance i ctx = Some ctx'" "instance_of (ac_design ctx) i = Some d"
  shows "\<exists>b. ac_definitions ctx' d = Some b \<and> db_instance b = i"
proof -
  have "fold (bind_port rs fi D) ps acc = Some (b, ifs) \<Longrightarrow> \<exists>b0 ifs0. acc = Some (b0, ifs0) \<and> db_instance b0 = db_instance b" for rs fi D ps acc b ifs
  proof (induction ps arbitrary: acc)
    case (Cons p ps)
    obtain b0 ifs0 where "bind_port rs fi D p acc = Some (b0, ifs0)" "db_instance b0 = db_instance b"
      using Cons.IH [of "bind_port rs fi D p acc"] Cons.prems by auto
    then show ?case
      by (auto simp: bind_port_def split: Option.bind_splits if_splits)
  qed simp
  then show ?thesis
    using assms unfolding bindInstance_def Let_def by fastforce
qed

end
