(* ===== verification/SnippetReads.thy ===== *)
theory SnippetReads
  imports Snippet
begin

text \<open>
  What a client makes of a whole snippet. \<open>snip_read\<close> follows the snippet grammar of the LSP
  specification: a backslash escapes \<open>$\<close>, \<open>}\<close> and itself, \<open>$1\<close> and \<open>${1}\<close> are tab stops,
  \<open>${1:text}\<close> is a placeholder, \<open>${1|a,b|}\<close> a choice, \<open>${name}\<close> and \<open>${name:text}\<close>
  variables. It returns nothing where the text nests elements or uses one outside of these.
  The lemmas read what each operation of the builder wrote.
\<close>

datatype piece =
    Lit char
  | Stop nat
  | Hole nat string
  | Options nat "string list"
  | Var string string

definition is_var_start :: "char \<Rightarrow> bool" where
  "is_var_start c \<longleftrightarrow> isalpha c \<or> c = CHR ''_''"

definition is_var_char :: "char \<Rightarrow> bool" where
  "is_var_char c \<longleftrightarrow> isalnum c \<or> c = CHR ''_''"

fun scan_numbered :: "nat \<Rightarrow> string \<Rightarrow> (piece \<times> string) option" where
  "scan_numbered n [] = None"
| "scan_numbered n (c # cs) =
    (if c = CHR ''}'' then Some (Stop n, cs)
     else if c = CHR '':'' then map_option (\<lambda>(t, r). (Hole n t, r)) (scan_placeholder cs)
     else if c = CHR ''|'' then
       (case scan_choice [] cs of Some (vs, d # r) \<Rightarrow> if d = CHR ''}'' then Some (Options n vs, r) else None
        | _ \<Rightarrow> None)
     else None)"

fun scan_named :: "string \<Rightarrow> string \<Rightarrow> (piece \<times> string) option" where
  "scan_named x [] = None"
| "scan_named x (c # cs) =
    (if c = CHR ''}'' then Some (Var x [], cs)
     else if c = CHR '':'' then map_option (\<lambda>(t, r). (Var x t, r)) (scan_placeholder cs)
     else None)"

fun scan_braced :: "string \<Rightarrow> (piece \<times> string) option" where
  "scan_braced [] = None"
| "scan_braced (c # cs) =
    (if isdigit c
     then scan_numbered (digits_value (takeWhile isdigit (c # cs))) (dropWhile isdigit (c # cs))
     else if is_var_start c
     then scan_named (takeWhile is_var_char (c # cs)) (dropWhile is_var_char (c # cs))
     else None)"

fun scan_element :: "string \<Rightarrow> (piece \<times> string) option" where
  "scan_element [] = None"
| "scan_element (c # cs) =
    (if isdigit c then Some (Stop (digits_value (takeWhile isdigit (c # cs))), dropWhile isdigit (c # cs))
     else if c = CHR ''{'' then scan_braced cs
     else if is_var_start c then Some (Var (takeWhile is_var_char (c # cs)) [], dropWhile is_var_char (c # cs))
     else None)"

lemma scan_placeholder_shorter: "scan_placeholder s = Some (t, r) \<Longrightarrow> length r < length s"
proof (induction "length s" arbitrary: s t rule: less_induct)
  case less
  show ?case
  proof (cases s)
    case (Cons c cs)
    have plain: "length r < length s" if "scan_placeholder cs = Some (t', r)" for t'
      using less.hyps [OF _ that] by (simp add: Cons)
    have escaped: "length r < length s" if "cs = d # ds" "scan_placeholder ds = Some (t', r)" for d ds t'
      using less.hyps [OF _ that(2)] that(1) by (simp add: Cons)
    show ?thesis
      using less.prems plain escaped unfolding Cons
      by (cases cs) (auto split: if_splits simp del: scan_placeholder.simps(2) simp: scan_placeholder.simps(2) [of c])
  qed (use less.prems in simp)
qed

lemma scan_choice_shorter: "scan_choice acc s = Some (vs, r) \<Longrightarrow> length r < length s"
proof (induction acc s arbitrary: vs r rule: scan_choice.induct)
  case (2 acc c cs)
  consider "c = CHR ''|''" | "c = CHR '',''" | "c = CHR 0x5C" | "c \<noteq> CHR ''|''" "c \<noteq> CHR '',''" "c \<noteq> CHR 0x5C"
    by blast
  then show ?case
  proof cases
    case 2
    then show ?thesis using "2.prems" "2.IH"(1) by (force simp: less_Suc_eq)
  next
    case 3
    then show ?thesis using "2.prems" "2.IH"(2,3) by (force simp: less_Suc_eq split: list.splits if_splits)
  next
    case 4
    then show ?thesis using "2.prems" "2.IH"(4) by (force simp: less_Suc_eq)
  qed (use "2.prems" in simp)
qed simp

lemma scan_numbered_shorter: "scan_numbered n s = Some (p, r) \<Longrightarrow> length r < length s"
  by (induction n s rule: scan_numbered.induct)
    (auto split: if_splits list.splits option.splits dest!: scan_placeholder_shorter scan_choice_shorter)

lemma scan_named_shorter: "scan_named x s = Some (p, r) \<Longrightarrow> length r < length s"
  by (induction x s rule: scan_named.induct) (auto split: if_splits dest: scan_placeholder_shorter)

lemma scan_braced_shorter: "scan_braced s = Some (p, r) \<Longrightarrow> length r < length s"
proof (induction s rule: scan_braced.induct)
  case (2 c cs)
  then show ?case
    using length_dropWhile_le [of isdigit "c # cs"] length_dropWhile_le [of is_var_char "c # cs"]
    by (auto simp del: takeWhile.simps dropWhile.simps split: if_splits dest!: scan_numbered_shorter scan_named_shorter)
qed simp

lemma scan_element_shorter: "scan_element s = Some (p, r) \<Longrightarrow> length r < Suc (length s)"
proof (induction s rule: scan_element.induct)
  case (2 c cs)
  then show ?case
    using length_dropWhile_le [of isdigit "c # cs"] length_dropWhile_le [of is_var_char "c # cs"]
    by (auto simp del: takeWhile.simps dropWhile.simps split: if_splits dest!: scan_braced_shorter)
qed simp

function snip_read :: "string \<Rightarrow> piece list option" where
  "snip_read [] = Some []"
| "snip_read (c # cs) =
    (if c = CHR 0x5C \<and> cs \<noteq> [] \<and> special_char (hd cs)
     then map_option ((#) (Lit (hd cs))) (snip_read (tl cs))
     else if c = CHR ''$'' then
       (case scan_element cs of None \<Rightarrow> None | Some (p, r) \<Rightarrow> map_option ((#) p) (snip_read r))
     else map_option ((#) (Lit c)) (snip_read cs))"
  by pat_completeness auto
termination
  by (relation "measure length") (auto dest: scan_element_shorter)

declare snip_read.simps [code]

section \<open>Reading what the builder wrote\<close>

abbreviation literal :: "string \<Rightarrow> piece list" where
  "literal t \<equiv> map Lit t"

text \<open>The pieces a builder call adds.\<close>

fun op_pieces :: "snippet \<Rightarrow> snip_op \<Rightarrow> piece list" where
  "op_pieces s (OpText t) = literal t"
| "op_pieces s (OpTabstop n) = [Stop (nat (fst (nextTabstop s n)))]"
| "op_pieces s (OpPlaceholder v n) = [Hole (nat (fst (nextTabstop s n))) v]"
| "op_pieces s (OpChoice vs n) = (if vs = [] then [] else [Options (nat (fst (nextTabstop s n))) vs])"
| "op_pieces s (OpVariable x d) = [Var x d]"

fun run_pieces :: "snippet \<Rightarrow> snip_op list \<Rightarrow> piece list" where
  "run_pieces s [] = []"
| "run_pieces s (x # xs) = op_pieces s x @ run_pieces (snip_step s x) xs"

definition var_name :: "string \<Rightarrow> bool" where
  "var_name x \<longleftrightarrow> x \<noteq> [] \<and> is_var_start (hd x) \<and> list_all is_var_char x"

text \<open>
  The calls a client can read back: numbers are not negative, variables have names, and the text
  after an unbraced tab stop does not go on with a digit.
\<close>

fun op_readable :: "snip_op \<Rightarrow> bool" where
  "op_readable (OpText t) \<longleftrightarrow> True"
| "op_readable (OpTabstop n) \<longleftrightarrow> (case n of None \<Rightarrow> True | Some i \<Rightarrow> 0 \<le> i)"
| "op_readable (OpPlaceholder v n) \<longleftrightarrow> (case n of None \<Rightarrow> True | Some i \<Rightarrow> 0 \<le> i)"
| "op_readable (OpChoice vs n) \<longleftrightarrow> (case n of None \<Rightarrow> True | Some i \<Rightarrow> 0 \<le> i)"
| "op_readable (OpVariable x d) \<longleftrightarrow> var_name x"

fun digit_first :: "snip_op list \<Rightarrow> bool" where
  "digit_first [] \<longleftrightarrow> False"
| "digit_first (OpText t # xs) \<longleftrightarrow> (if t = [] then digit_first xs else isdigit (hd t))"
| "digit_first (OpChoice vs n # xs) \<longleftrightarrow> (if vs = [] then digit_first xs else False)"
| "digit_first (x # xs) \<longleftrightarrow> False"

fun readable :: "snip_op list \<Rightarrow> bool" where
  "readable [] \<longleftrightarrow> True"
| "readable (x # xs) \<longleftrightarrow>
     op_readable x \<and> (case x of OpTabstop n \<Rightarrow> \<not> digit_first xs | _ \<Rightarrow> True) \<and> readable xs"

text \<open>What a call appends.\<close>

definition op_text :: "snippet \<Rightarrow> snip_op \<Rightarrow> string" where
  "op_text s x = drop (length (snip_value s)) (snip_value (snip_step s x))"

fun run_text :: "snippet \<Rightarrow> snip_op list \<Rightarrow> string" where
  "run_text s [] = []"
| "run_text s (x # xs) = op_text s x @ run_text (snip_step s x) xs"

lemma op_text_simps [simp]:
  "op_text s (OpText t) = snippet_escape t"
  "op_text s (OpTabstop n) = CHR ''$'' # to_string (fst (nextTabstop s n))"
  "op_text s (OpPlaceholder v n) = ''${'' @ to_string (fst (nextTabstop s n)) @ '':'' @ snippet_escape v @ ''}''"
  "op_text s (OpChoice vs n) = (if vs = [] then [] else
     ''${'' @ to_string (fst (nextTabstop s n)) @ ''|'' @ choice_join vs True @ ''|}'')"
  "op_text s (OpVariable x d) = ''${'' @ x @ (if d \<noteq> [] then '':'' @ snippet_escape d else []) @ ''}''"
  by (auto simp: op_text_def snippet_appendText_def appendTabstop_def appendPlaceholder_def appendChoice_def
      appendVariable_def nextTabstop_def Let_def split: option.splits)

lemma snip_step_value: "snip_value (snip_step s x) = snip_value s @ op_text s x"
  by (cases x) (auto simp: snippet_appendText_def appendTabstop_def appendPlaceholder_def
      appendChoice_def appendVariable_def nextTabstop_def Let_def split: option.splits)

lemma snip_run_value: "snip_value (snip_run s xs) = snip_value s @ run_text s xs"
proof (induction xs arbitrary: s)
  case (Cons x xs)
  then show ?case using Cons.IH [of "snip_step s x"] by (simp add: snip_run_def snip_step_value)
qed (simp add: snip_run_def)

lemma snip_read_escape: "snip_read (snippet_escape t @ r) = map_option ((@) (literal t)) (snip_read r)"
  by (induction t) (auto simp: special_char_def option.map_comp comp_def option.map_ident)

lemma to_string_nonneg: "0 \<le> n \<Longrightarrow> to_string n = digits_of (nat n)"
  by (simp add: to_string_def)

lemma digits_scan:
  assumes "r = [] \<or> \<not> isdigit (hd r)"
  shows "takeWhile isdigit (digits_of n @ r) = digits_of n" "dropWhile isdigit (digits_of n @ r) = r"
    "isdigit (hd (digits_of n @ r))"
proof -
  have d: "\<forall>c \<in> set (digits_of n). isdigit c" using digits_of_digits by blast
  show "takeWhile isdigit (digits_of n @ r) = digits_of n" using d assms by (rule takeWhile_append_stop)
  show "dropWhile isdigit (digits_of n @ r) = r" using d assms by (rule dropWhile_append_stop)
  show "isdigit (hd (digits_of n @ r))" using d digits_of_not_Nil [of n] by (simp add: hd_append)
qed

lemma scan_element_stop:
  assumes "r = [] \<or> \<not> isdigit (hd r)"
  shows "scan_element (digits_of n @ r) = Some (Stop n, r)"
proof -
  obtain c cs where e: "digits_of n @ r = c # cs" using digits_of_not_Nil [of n] by (cases "digits_of n") auto
  show ?thesis using digits_scan [OF assms, of n] digits_value_of [of n] unfolding e by simp
qed

lemma scan_braced_number:
  assumes "\<not> isdigit c"
  shows "scan_braced (digits_of n @ c # r) = scan_numbered n (c # r)"
proof -
  obtain d cs where e: "digits_of n @ c # r = d # cs" using digits_of_not_Nil [of n] by (cases "digits_of n") auto
  show ?thesis using digits_scan [of "c # r" n] assms digits_value_of [of n] unfolding e by simp
qed

lemma digit_not_var_start: "is_var_start c \<Longrightarrow> \<not> isdigit c"
  by (auto simp: is_var_start_def ctype_defs)

lemma scan_braced_name:
  assumes "var_name x" "\<not> is_var_char c"
  shows "scan_braced (x @ c # r) = scan_named x (c # r)"
proof -
  obtain d cs where x: "x = d # cs" using assms(1) by (cases x) (auto simp: var_name_def)
  have "is_var_start d" using assms(1) x by (simp add: var_name_def)
  moreover have "takeWhile is_var_char (x @ c # r) = x" "dropWhile is_var_char (x @ c # r) = c # r"
    using assms by (auto intro!: takeWhile_append_stop dropWhile_append_stop simp: var_name_def list_all_iff)
  ultimately show ?thesis using digit_not_var_start [of d] by (simp add: x)
qed

lemma colon_facts:
  "\<not> isdigit (CHR '':'')" "\<not> isdigit (CHR ''|'')" "\<not> isdigit (CHR ''}'')" "\<not> isdigit (CHR ''$'')"
  "\<not> isdigit (CHR ''{'')" "\<not> isdigit (CHR 0x5C)"
  "\<not> is_var_char (CHR '':'')" "\<not> is_var_char (CHR ''}'')" "\<not> is_var_start (CHR ''{'')"
  by (auto simp: is_var_char_def is_var_start_def ctype_defs)

lemma next_number_nonneg:
  assumes "0 \<le> snip_tabstop s" "case n of None \<Rightarrow> True | Some i \<Rightarrow> 0 \<le> i"
  shows "0 \<le> fst (nextTabstop s n)" "0 \<le> snip_tabstop (snd (nextTabstop s n))"
  using assms by (auto simp: nextTabstop_def split: option.splits)

lemma snip_read_braced:
  assumes "scan_braced t = Some (p, r)"
  shows "snip_read (CHR ''$'' # CHR ''{'' # t) = map_option ((#) p) (snip_read r)"
  using assms by (simp add: colon_facts)

lemma append_eq_Cons: "(@) [p] = (#) p" "(@) [] = (\<lambda>x. x)"
  by (rule ext, simp)+

lemma snip_read_op:
  assumes "0 \<le> snip_tabstop s" and "op_readable x"
    and tabstop: "\<And>n. x = OpTabstop n \<Longrightarrow> r = [] \<or> \<not> isdigit (hd r)"
  shows "snip_read (op_text s x @ r) = map_option ((@) (op_pieces s x)) (snip_read r)"
proof (cases x)
  case (OpText t)
  then show ?thesis by (simp add: snip_read_escape)
next
  case (OpTabstop n)
  have num: "to_string (fst (nextTabstop s n)) = digits_of (nat (fst (nextTabstop s n)))"
    using assms OpTabstop by (intro to_string_nonneg next_number_nonneg) auto
  show ?thesis
    using scan_element_stop [OF tabstop [OF OpTabstop], of "nat (fst (nextTabstop s n))"] OpTabstop
    by (simp add: num append_eq_Cons)
next
  case (OpPlaceholder v n)
  have num: "to_string (fst (nextTabstop s n)) = digits_of (nat (fst (nextTabstop s n)))"
    using assms OpPlaceholder by (intro to_string_nonneg next_number_nonneg) auto
  show ?thesis
    using scan_braced_number [OF colon_facts(1), of "nat (fst (nextTabstop s n))" "snippet_escape v @ CHR ''}'' # r"]
    by (simp add: OpPlaceholder num snip_read_braced scan_placeholder_escape append_eq_Cons del: snip_read.simps(2))
next
  case (OpChoice vs n)
  have num: "to_string (fst (nextTabstop s n)) = digits_of (nat (fst (nextTabstop s n)))"
    using assms OpChoice by (intro to_string_nonneg next_number_nonneg) auto
  show ?thesis
    using scan_braced_number [OF colon_facts(2), of "nat (fst (nextTabstop s n))"
        "choice_join vs True @ CHR ''|'' # CHR ''}'' # r"]
    by (simp add: OpChoice num snip_read_braced scan_choice_join append_eq_Cons option.map_ident del: snip_read.simps(2))
next
  case (OpVariable y d)
  then have y: "var_name y" using assms by simp
  show ?thesis
    using scan_braced_name [OF y colon_facts(7), of "snippet_escape d @ CHR ''}'' # r"]
      scan_braced_name [OF y colon_facts(8), of r]
    by (simp add: OpVariable snip_read_braced scan_placeholder_escape append_eq_Cons del: snip_read.simps(2))
qed

lemma snip_step_tabstop_nonneg:
  "0 \<le> snip_tabstop s \<Longrightarrow> 0 \<le> snip_tabstop (snip_step s x)"
  using snip_step_tabstop_mono [of s x] by linarith

lemma run_text_first:
  assumes "\<not> digit_first xs"
  shows "run_text s xs = [] \<or> \<not> isdigit (hd (run_text s xs))"
  using assms
proof (induction xs arbitrary: s rule: digit_first.induct)
  case (2 t xs)
  then show ?case by (cases t) (auto simp: colon_facts special_char_def)
next
  case (3 vs n xs)
  then show ?case using "3.IH" [of "appendChoice s [] n"] by (cases "vs = []") (auto simp: colon_facts simp del: snip_step.simps)
qed (auto simp: colon_facts)

lemma snip_read_run:
  assumes "readable xs" "0 \<le> snip_tabstop s"
  shows "snip_read (run_text s xs) = Some (run_pieces s xs)"
  using assms
proof (induction xs arbitrary: s)
  case (Cons x xs)
  have "snip_read (op_text s x @ run_text (snip_step s x) xs)
      = map_option ((@) (op_pieces s x)) (snip_read (run_text (snip_step s x) xs))"
    using Cons.prems run_text_first [of xs] by (intro snip_read_op) (auto split: snip_op.splits)
  also have "snip_read (run_text (snip_step s x) xs) = Some (run_pieces (snip_step s x) xs)"
    using Cons.prems snip_step_tabstop_nonneg by (intro Cons.IH) auto
  finally show ?case by simp
qed simp

lemma snip_run_append: "snip_run s (xs @ ys) = snip_run (snip_run s xs) ys"
  by (simp add: snip_run_def)

lemma run_pieces_append: "run_pieces s (xs @ ys) = run_pieces s xs @ run_pieces (snip_run s xs) ys"
  by (induction xs arbitrary: s) (simp_all add: snip_run_def)

lemma digit_first_append: "\<not> digit_first xs \<Longrightarrow> \<not> digit_first ys \<Longrightarrow> \<not> digit_first (xs @ ys)"
  by (induction xs rule: digit_first.induct) auto

lemma readable_append: "readable xs \<Longrightarrow> readable ys \<Longrightarrow> \<not> digit_first ys \<Longrightarrow> readable (xs @ ys)"
  by (induction xs) (auto split: snip_op.splits simp: digit_first_append)

section \<open>Properties\<close>



text \<open>The condition on digits is needed: a tab stop is written without braces, so the digits of
  the text that follows it become part of its number.\<close>

lemma tabstop_takes_digits:
  "snip_read (snip_value (snip_run (snippet_new []) [OpTabstop None, OpText ''0''])) = Some [Stop 10]"
  by code_simp

end
