(* ===== verification/CompletionItems.thy ===== *)
theory CompletionItems
  imports SnippetReads Symbols Positions
begin

text \<open>
  Completion items: the protocol's record with the fields the server sets, the ranks of
  \<open>include/completions/CompletionDispatch.h\<close>, the keyword items of
  \<open>src/completions/KeywordCompletions.cpp\<close>, and \<open>setCompletionEdit\<close> and
  \<open>updateCompletionEditText\<close> of \<open>src/completions/CompletionDispatch.cpp\<close>.

  The \<open>data\<close> of an item is a string (the document's URI), the fields of \<open>CompletionData\<close>, or a
  value that is neither.
\<close>

section \<open>Items\<close>

datatype text_format = PlainTextFormat | SnippetFormat

datatype item_edit = TextEdit lsp_range string | InsertReplaceEdit lsp_range lsp_range string

record completion_data =
  cd_documentUri :: string
  cd_symbolPath :: string
  cd_symbolName :: string
  cd_bufferId :: nat
  cd_offset :: nat
  cd_symbolKind :: symbol_kind
  cd_labelOnly :: bool

datatype item_data = DataUri string | DataSymbol completion_data | DataOther

record completion_item =
  ci_label :: string
  ci_detail :: "string option"
  ci_description :: "string option"
  ci_kind :: "completion_kind option"
  ci_documentation :: "string option"
  ci_sortText :: "string option"
  ci_filterText :: "string option"
  ci_insertText :: "string option"
  ci_insertTextFormat :: "text_format option"
  ci_textEdit :: "item_edit option"
  ci_data :: "item_data option"

definition plain_item :: "string \<Rightarrow> completion_kind \<Rightarrow> completion_item" where
  "plain_item label k = \<lparr>ci_label = label, ci_detail = None, ci_description = None, ci_kind = Some k,
     ci_documentation = None, ci_sortText = None, ci_filterText = None, ci_insertText = None,
     ci_insertTextFormat = None, ci_textEdit = None, ci_data = None\<rparr>"

section \<open>Ranks\<close>

definition rank_Scope :: string where "rank_Scope = ''0''"
definition rank_Imported :: string where "rank_Imported = ''1''"
definition rank_Keyword :: string where "rank_Keyword = ''2''"
definition rank_Library :: string where "rank_Library = ''3''"

definition rankCompletions :: "completion_item list \<Rightarrow> nat \<Rightarrow> string \<Rightarrow> completion_item list" where
  "rankCompletions results firstIndex rank =
     take firstIndex results @ map (\<lambda>i. i\<lparr>ci_sortText := Some rank\<rparr>) (drop firstIndex results)"

definition rank_unranked :: "string \<Rightarrow> completion_item \<Rightarrow> completion_item" where
  "rank_unranked rank i = (if ci_sortText i = None then i\<lparr>ci_sortText := Some rank\<rparr> else i)"

definition rankUnrankedCompletions ::
  "completion_item list \<Rightarrow> nat \<Rightarrow> string \<Rightarrow> completion_item list" where
  "rankUnrankedCompletions results firstIndex rank =
     take firstIndex results @ map (rank_unranked rank) (drop firstIndex results)"

section \<open>Keywords\<close>

abbreviation tab_char :: char where "tab_char \<equiv> CHR 0x09"
abbreviation nl_char :: char where "nl_char \<equiv> CHR 0x0A"

definition keyword_item :: "string \<Rightarrow> completion_item" where
  "keyword_item keyword = (plain_item keyword CK_Keyword)\<lparr>ci_filterText := Some keyword\<rparr>"

definition block_item :: "string \<Rightarrow> string \<Rightarrow> completion_item" where
  "block_item label insertText = (plain_item label CK_Snippet)
     \<lparr>ci_filterText := Some label, ci_insertText := Some insertText, ci_insertTextFormat := Some SnippetFormat\<rparr>"

definition addKeywordCompletions :: "completion_item list \<Rightarrow> completion_item list" where
  "addKeywordCompletions results = rankCompletions
     (results @ map keyword_item [''logic'', ''assign'', ''wire'', ''reg'']
      @ [block_item ''always_ff''
           (''always_ff @(${1:posedge clk}) begin'' @ [nl_char, tab_char] @ ''$0'' @ [nl_char] @ ''end''),
         block_item ''always_comb'' (''always_comb begin'' @ [nl_char, tab_char] @ ''$0'' @ [nl_char] @ ''end''),
         block_item ''always_latch'' (''always_latch begin'' @ [nl_char, tab_char] @ ''$0'' @ [nl_char] @ ''end'')])
     (length results) rank_Keyword"

section \<open>The edit of an item\<close>

text \<open>The part of a query that decides how its items edit the document.\<close>

record query_shape =
  replacementRange :: lsp_range
  followedByCall :: bool
  followedByInstantiation :: bool

definition isInstantiableKind :: "completion_kind \<Rightarrow> bool" where
  "isInstantiableKind k \<longleftrightarrow> k = CK_Module \<or> k = CK_Interface \<or> k = CK_Class"

definition instantiable_item :: "completion_item \<Rightarrow> bool" where
  "instantiable_item item \<longleftrightarrow> (case ci_kind item of None \<Rightarrow> False | Some k \<Rightarrow> isInstantiableKind k)"

definition keep_shape :: "query_shape \<Rightarrow> completion_item \<Rightarrow> completion_item" where
  "keep_shape q item =
     (if (followedByCall q \<and> ci_kind item = Some CK_Constant)
         \<or> (followedByInstantiation q \<and> instantiable_item item)
      then item\<lparr>ci_insertText := Some (ci_label item), ci_insertTextFormat := Some PlainTextFormat\<rparr>
      else item)"

definition item_text :: "completion_item \<Rightarrow> string" where
  "item_text item = (case ci_insertText item of None \<Rightarrow> ci_label item | Some t \<Rightarrow> t)"

definition label_only :: "query_shape \<Rightarrow> completion_item \<Rightarrow> bool" where
  "label_only q item \<longleftrightarrow> (followedByCall q \<and> ci_insertTextFormat item = Some SnippetFormat)
     \<or> (followedByInstantiation q \<and> instantiable_item item)"

definition edit_text :: "query_shape \<Rightarrow> completion_item \<Rightarrow> string" where
  "edit_text q item =
     (if label_only q item \<and> ci_insertTextFormat item = Some SnippetFormat
      then snip_value (snippet_appendText (snippet_new []) (ci_label item))
      else if label_only q item then ci_label item
      else item_text item)"

definition setCompletionEdit :: "query_shape \<Rightarrow> completion_item \<Rightarrow> completion_item" where
  "setCompletionEdit q item0 = (let item = keep_shape q item0 in
     item\<lparr>ci_textEdit := Some (TextEdit (replacementRange q) (edit_text q item))\<rparr>)"

fun with_new_text :: "string \<Rightarrow> item_edit \<Rightarrow> item_edit" where
  "with_new_text t (TextEdit r _) = TextEdit r t"
| "with_new_text t (InsertReplaceEdit i r _) = InsertReplaceEdit i r t"

definition updateCompletionEditText :: "completion_item \<Rightarrow> completion_item" where
  "updateCompletionEditText item =
     (case (ci_insertText item, ci_textEdit item) of
        (Some t, Some e) \<Rightarrow> item\<lparr>ci_textEdit := Some (with_new_text t e)\<rparr>
      | _ \<Rightarrow> item)"

fun new_text :: "item_edit \<Rightarrow> string" where
  "new_text (TextEdit _ t) = t"
| "new_text (InsertReplaceEdit _ _ t) = t"

section \<open>What the client inserts\<close>

text \<open>The text a client shows after it applies an item's edit: the text itself, or, for a
  snippet, the text its pieces show; a variable the client does not know shows its default or else
  its name.\<close>

fun comma_join :: "string list \<Rightarrow> string" where
  "comma_join [] = []"
| "comma_join [x] = x"
| "comma_join (x # y # ys) = x @ '', '' @ comma_join (y # ys)"


fun piece_text :: "piece \<Rightarrow> string" where
  "piece_text (Lit c) = [c]"
| "piece_text (Stop n) = []"
| "piece_text (Hole n t) = t"
| "piece_text (Options n vs) = (case vs of [] \<Rightarrow> [] | v # _ \<Rightarrow> v)"
| "piece_text (Var x d) = (if d = [] then x else d)"

definition shown :: "piece list \<Rightarrow> string" where
  "shown ps = concat (map piece_text ps)"

definition client_text :: "completion_item \<Rightarrow> string option" where
  "client_text item = (case ci_textEdit item of
     None \<Rightarrow> None
   | Some e \<Rightarrow> (if ci_insertTextFormat item = Some SnippetFormat
                then map_option shown (snip_read (new_text e)) else Some (new_text e)))"

lemma shown_simps [simp]:
  "shown [] = []" "shown (p # ps) = piece_text p @ shown ps" "shown (ps @ qs) = shown ps @ shown qs"
  by (simp_all add: shown_def)

lemma shown_literal [simp]: "shown (literal t) = t"
  by (induction t) auto

lemma comma_join_snoc: "comma_join (xs @ [x]) = (if xs = [] then x else comma_join xs @ '', '' @ x)"
  by (induction xs rule: comma_join.induct) auto

lemma snip_read_literal: "snip_read (snippet_escape t) = Some (literal t)"
  using snip_read_escape [of t "[]"] by simp

lemma length_rank [simp]:
  "length (rankCompletions rs n r) = length rs" "length (rankUnrankedCompletions rs n r) = length rs"
  by (simp_all add: rankCompletions_def rankUnrankedCompletions_def)

lemma rank_unranked_label [simp]: "ci_label (rank_unranked r i) = ci_label i"
  by (simp add: rank_unranked_def)

lemma labels_rank [simp]:
  "map ci_label (rankCompletions rs n r) = map ci_label rs"
  "map ci_label (rankUnrankedCompletions rs n r) = map ci_label rs"
  by (simp_all add: rankCompletions_def rankUnrankedCompletions_def comp_def)
    (metis append_take_drop_id map_append)+

text \<open>Where a call or an instance already follows the name, the text a client shows is the label
  alone, whatever snippet the item brings.\<close>

lemma source_shape_kept:
  assumes "followedByCall q \<and> (ci_kind item = Some CK_Constant \<or> ci_insertTextFormat item = Some SnippetFormat)
    \<or> followedByInstantiation q \<and> instantiable_item item"
  shows "client_text (setCompletionEdit q item) = Some (ci_label item)"
proof (cases "(followedByCall q \<and> ci_kind item = Some CK_Constant) \<or> (followedByInstantiation q \<and> instantiable_item item)")
  case True
  then show ?thesis
    by (auto simp: client_text_def setCompletionEdit_def keep_shape_def edit_text_def item_text_def
        label_only_def instantiable_item_def Let_def)
next
  case False
  then have "followedByCall q" "ci_insertTextFormat item = Some SnippetFormat" using assms by auto
  then show ?thesis using False
    by (auto simp: client_text_def setCompletionEdit_def keep_shape_def edit_text_def
        label_only_def Let_def snippet_appendText_def snippet_new_def snip_read_literal)
qed

text \<open>A second edit with the same text changes nothing: resolving an item whose insert text is the
  text of its edit leaves the edit alone.\<close>

lemma update_same:
  "ci_insertText item = Some t \<Longrightarrow> ci_textEdit item = Some (TextEdit r t) \<Longrightarrow> updateCompletionEditText item = item"
  by (simp add: updateCompletionEditText_def)

section \<open>Builder calls\<close>

text \<open>A snippet that a readable sequence of builder calls makes, and the text it shows.\<close>

definition built :: "snippet \<Rightarrow> string \<Rightarrow> bool" where
  "built s t \<longleftrightarrow> (\<exists>ops. s = snip_run (snippet_new []) ops \<and> readable ops
     \<and> shown (run_pieces (snippet_new []) ops) = t)"

lemma built_new: "built (snippet_new []) []"
  by (auto simp: built_def snip_run_def intro!: exI [of _ "[]"])

lemma built_run:
  assumes "built s t" "readable ops" "\<not> digit_first ops" "\<And>s. shown (run_pieces s ops) = u"
  shows "built (snip_run s ops) (t @ u)"
proof -
  obtain pre where "s = snip_run (snippet_new []) pre" "readable pre" "shown (run_pieces (snippet_new []) pre) = t"
    using assms(1) by (auto simp: built_def)
  then show ?thesis
    using assms(2-4) unfolding built_def
    by (intro exI [of _ "pre @ ops"]) (simp add: snip_run_append run_pieces_append readable_append)
qed

lemma built_text:
  assumes "built s t" "u = [] \<or> \<not> isdigit (hd u)"
  shows "built (snippet_appendText s u) (t @ u)"
  using built_run [OF assms(1), of "[OpText u]" u] assms(2) by (auto simp: snip_run_def)

lemma built_placeholder: "built s t \<Longrightarrow> built (appendPlaceholder s v None) (t @ v)"
  using built_run [of s t "[OpPlaceholder v None]" v] by (simp add: snip_run_def)

lemma built_tabstop: "built s t \<Longrightarrow> built (appendTabstop s (Some 0)) t"
  using built_run [of s t "[OpTabstop (Some 0)]" "[]"] by (simp add: snip_run_def)

lemma built_auto_tabstop: "built s t \<Longrightarrow> built (appendTabstop s None) t"
  using built_run [of s t "[OpTabstop None]" "[]"] by (simp add: snip_run_def)

lemma built_start: "built (snippet_appendText (snippet_new []) u) u"
proof -
  have "readable [OpText u]" "snippet_appendText (snippet_new []) u = snip_run (snippet_new []) [OpText u]"
    by (simp_all add: snip_run_def)
  then show ?thesis unfolding built_def by (intro exI [of _ "[OpText u]"]) simp
qed

lemma built_reads: "built s t \<Longrightarrow> map_option shown (snip_read (snip_value s)) = Some t"
  using snip_read_run [of _ "snippet_new []"] by (auto simp: built_def snip_run_value snippet_new_def)

end
