(* ===== verification/SystemTasks.thy ===== *)
theory SystemTasks
  imports CompletionItems Markdown
begin

text \<open>
  Completions of the built-in system tasks and functions
  (\<open>src/completions/SystemTaskCompletions.cpp\<close>): the signature of a documentation entry is split
  into arguments, and the item inserts a call with a placeholder for each argument that has no
  default. slang's \<open>isWhitespace\<close> and \<open>isAlphaNumeric\<close> are the parameters \<open>ws\<close> and \<open>an\<close>, its
  table of names and the documentation table are the parameters of the last section.
\<close>

section \<open>Strings\<close>

fun trim_front :: "(char \<Rightarrow> bool) \<Rightarrow> string \<Rightarrow> string" where
  "trim_front ws [] = []"
| "trim_front ws (c # cs) = (if ws c then trim_front ws cs else c # cs)"

definition trim :: "(char \<Rightarrow> bool) \<Rightarrow> string \<Rightarrow> string" where
  "trim ws s = rev (trim_front ws (rev (trim_front ws s)))"

definition isNameChar :: "(char \<Rightarrow> bool) \<Rightarrow> char \<Rightarrow> bool" where
  "isNameChar an c \<longleftrightarrow> an c \<or> c = CHR ''_'' \<or> c = CHR ''$''"

definition hasNameBoundaryBefore :: "(char \<Rightarrow> bool) \<Rightarrow> string \<Rightarrow> nat \<Rightarrow> bool" where
  "hasNameBoundaryBefore an s pos \<longleftrightarrow> pos = 0 \<or> \<not> isNameChar an (s ! (pos - 1))"

definition hasNameBoundaryAfter :: "(char \<Rightarrow> bool) \<Rightarrow> string \<Rightarrow> nat \<Rightarrow> bool" where
  "hasNameBoundaryAfter an s pos \<longleftrightarrow> pos = length s \<or> \<not> isNameChar an (s ! pos)"

definition getSystemSubroutineInsertText :: "string \<Rightarrow> string" where
  "getSystemSubroutineInsertText label =
     (if label \<noteq> [] \<and> hd label = CHR ''$'' then tl label else label)"

definition firstSignature :: "(char \<Rightarrow> bool) \<Rightarrow> string \<Rightarrow> string" where
  "firstSignature ws signature = (case find_char nl_char signature of
     Some i \<Rightarrow> trim ws (take i signature) | None \<Rightarrow> trim ws signature)"

text \<open>\<open>std::string_view::find\<close> from a position.\<close>

definition find_from :: "string \<Rightarrow> string \<Rightarrow> nat \<Rightarrow> nat option" where
  "find_from s p pos = find (\<lambda>i. prefix p (drop i s)) [pos ..< Suc (length s)]"

lemma find_from_Some:
  assumes "find_from s p pos = Some i"
  shows "pos \<le> i" "i + length p \<le> length s" "take (length p) (drop i s) = p"
proof -
  have "i \<in> set [pos ..< Suc (length s)]" and p: "prefix p (drop i s)"
    using assms unfolding find_from_def find_Some_iff by (metis nth_mem)+
  then show "pos \<le> i" "i + length p \<le> length s" using prefix_length_le [OF p] by auto
  show "take (length p) (drop i s) = p" using p by (auto simp: prefix_def)
qed

text \<open>The search for one of the names, for the first whole word it is, from \<open>pos\<close> on.\<close>

function find_name :: "(char \<Rightarrow> bool) \<Rightarrow> string \<Rightarrow> string \<Rightarrow> nat \<Rightarrow> nat option" where
  "find_name an signature name pos =
     (if name = [] then None else case find_from signature name pos of
        None \<Rightarrow> None
      | Some p \<Rightarrow> (let stop = p + length name in
          if hasNameBoundaryBefore an signature p \<and> hasNameBoundaryAfter an signature stop
          then Some stop else find_name an signature name stop))"
  by pat_completeness auto
termination
proof (relation "measure (\<lambda>(an, signature, name, pos). Suc (length signature) - pos)")
  fix an and signature name :: string and pos p stop
  assume "name \<noteq> []" "find_from signature name pos = Some p" "stop = p + length name"
  then show "((an, signature, name, stop), an, signature, name, pos)
      \<in> measure (\<lambda>(an, signature, name, pos). Suc (length signature) - pos)"
    using find_from_Some [of signature name pos p] by (cases name) auto
qed simp

declare find_name.simps [simp del]

definition findSystemSubroutineName :: "(char \<Rightarrow> bool) \<Rightarrow> string \<Rightarrow> string \<Rightarrow> string \<Rightarrow> nat option" where
  "findSystemSubroutineName an signature label insertText =
     (case find_name an signature label 0 of
        Some e \<Rightarrow> Some e | None \<Rightarrow> find_name an signature insertText 0)"

section \<open>Brackets\<close>

text \<open>The loop of \<open>findBalancedContents\<close> and \<open>findBalancedClose\<close>, over the characters from
  \<open>i\<close> on: the index of the bracket that closes the one at \<open>openPos\<close>.\<close>

fun balanced_scan :: "char \<Rightarrow> char \<Rightarrow> int \<Rightarrow> nat \<Rightarrow> string \<Rightarrow> nat option" where
  "balanced_scan openChar closeChar depth i [] = None"
| "balanced_scan openChar closeChar depth i (c # cs) =
     (if c = openChar then balanced_scan openChar closeChar (depth + 1) (Suc i) cs
      else if c = closeChar then
        (if depth - 1 = 0 then Some i else balanced_scan openChar closeChar (depth - 1) (Suc i) cs)
      else balanced_scan openChar closeChar depth (Suc i) cs)"

definition findBalancedClose :: "string \<Rightarrow> nat \<Rightarrow> char \<Rightarrow> char \<Rightarrow> nat option" where
  "findBalancedClose s openPos openChar closeChar =
     balanced_scan openChar closeChar 0 openPos (drop openPos s)"

definition findBalancedContents :: "string \<Rightarrow> nat \<Rightarrow> char \<Rightarrow> char \<Rightarrow> string option" where
  "findBalancedContents s openPos openChar closeChar =
     (case balanced_scan openChar closeChar 0 openPos (drop openPos s) of
        None \<Rightarrow> None | Some i \<Rightarrow> Some (substr s (openPos + 1) (i - openPos - 1)))"

lemma balanced_scan_bounds: "balanced_scan a b d i cs = Some j \<Longrightarrow> i \<le> j \<and> j < i + length cs"
  by (induction a b d i cs rule: balanced_scan.induct) (auto split: if_splits)

function strip_segments :: "string \<Rightarrow> nat \<Rightarrow> string" where
  "strip_segments s i =
     (if i < length s then
        (if s ! i \<noteq> CHR ''['' then s ! i # strip_segments s (Suc i)
         else case findBalancedClose s i (CHR ''['') (CHR '']'') of
           None \<Rightarrow> s ! i # strip_segments s (Suc i)
         | Some close \<Rightarrow> strip_segments s (Suc close))
      else [])"
  by pat_completeness auto
termination
  by (relation "measure (\<lambda>(s, i). length s - i)")
    (auto simp: findBalancedClose_def dest!: balanced_scan_bounds)

declare strip_segments.simps [simp del]

definition stripOptionalSegments :: "(char \<Rightarrow> bool) \<Rightarrow> string \<Rightarrow> string" where
  "stripOptionalSegments ws s = trim ws (strip_segments s 0)"

section \<open>Signatures\<close>

datatype args_kind = CallArgs | WithClause

record signature_args =
  sa_kind :: args_kind
  sa_args :: string

record system_doc =
  doc_signature :: string
  doc_description :: string

definition getSignatureArgs ::
  "(char \<Rightarrow> bool) \<Rightarrow> (char \<Rightarrow> bool) \<Rightarrow> string \<Rightarrow> system_doc \<Rightarrow> signature_args option" where
  "getSignatureArgs ws an label doc =
    (let signature = firstSignature ws (doc_signature doc);
         insertText = getSystemSubroutineInsertText label
     in case findSystemSubroutineName an signature label insertText of
       None \<Rightarrow> None
     | Some nameEnd \<Rightarrow>
        (let rst = trim ws (drop nameEnd signature) in
         if starts_with rst ''with '' then Some \<lparr>sa_kind = WithClause, sa_args = rst\<rparr>
         else if rst = [] \<or> hd rst \<noteq> CHR ''('' \<and> hd rst \<noteq> CHR ''['' then None
         else if hd rst = CHR ''['' then Some \<lparr>sa_kind = CallArgs, sa_args = []\<rparr>
         else map_option (\<lambda>args. \<lparr>sa_kind = CallArgs, sa_args = args\<rparr>)
                (findBalancedContents rst 0 (CHR ''('') (CHR '')''))))"

text \<open>\<open>piece\<close> holds the characters from \<open>start\<close> to the one being looked at.\<close>

fun split_args :: "(char \<Rightarrow> bool) \<Rightarrow> string \<Rightarrow> nat \<Rightarrow> string \<Rightarrow> string list" where
  "split_args ws piece parenDepth [] = [trim ws piece]"
| "split_args ws piece parenDepth (c # cs) =
     (if c = CHR ''('' then split_args ws (piece @ [c]) (parenDepth + 1) cs
      else if c = CHR '')'' \<and> 0 < parenDepth then split_args ws (piece @ [c]) (parenDepth - 1) cs
      else if c = CHR '','' \<and> parenDepth = 0 then trim ws piece # split_args ws [] parenDepth cs
      else split_args ws (piece @ [c]) parenDepth cs)"

definition splitSignatureArgs :: "(char \<Rightarrow> bool) \<Rightarrow> string \<Rightarrow> string list" where
  "splitSignatureArgs ws args = split_args ws [] 0 args"

lemma trim_front_shorter: "length (trim_front ws s) \<le> length s"
  by (induction s) auto

lemma trim_shorter: "length (trim ws s) \<le> length s"
  using trim_front_shorter [of ws "rev (trim_front ws s)"] trim_front_shorter [of ws s]
  by (simp add: trim_def)

function strip_front :: "(char \<Rightarrow> bool) \<Rightarrow> string \<Rightarrow> string" where
  "strip_front ws arg =
     (if arg \<noteq> [] \<and> (hd arg = CHR ''['' \<or> hd arg = CHR '','') then strip_front ws (trim ws (tl arg)) else arg)"
  by pat_completeness auto
termination
proof (relation "measure (length \<circ> snd)")
  fix ws and arg :: string
  assume "arg \<noteq> [] \<and> (hd arg = CHR ''['' \<or> hd arg = CHR '','')"
  then show "((ws, trim ws (tl arg)), ws, arg) \<in> measure (length \<circ> snd)"
    using trim_shorter [of ws "tl arg"] by (cases arg) auto
qed simp

function strip_back :: "(char \<Rightarrow> bool) \<Rightarrow> string \<Rightarrow> string" where
  "strip_back ws arg =
     (if arg \<noteq> [] \<and> (last arg = CHR ''['' \<or> last arg = CHR '']'') then strip_back ws (trim ws (butlast arg)) else arg)"
  by pat_completeness auto
termination
proof (relation "measure (length \<circ> snd)")
  fix ws and arg :: string
  assume "arg \<noteq> [] \<and> (last arg = CHR ''['' \<or> last arg = CHR '']'')"
  then show "((ws, trim ws (butlast arg)), ws, arg) \<in> measure (length \<circ> snd)"
    using trim_shorter [of ws "butlast arg"] by (cases arg rule: rev_cases) auto
qed simp

declare strip_front.simps [simp del] strip_back.simps [simp del]

definition stripOptionalArgMarkers :: "(char \<Rightarrow> bool) \<Rightarrow> string \<Rightarrow> string" where
  "stripOptionalArgMarkers ws arg = strip_back ws (strip_front ws (trim ws arg))"

text \<open>\<open>piece\<close> holds the characters before the one being looked at.\<close>

fun strip_default :: "(char \<Rightarrow> bool) \<Rightarrow> string \<Rightarrow> nat \<Rightarrow> nat \<Rightarrow> string \<Rightarrow> string" where
  "strip_default ws piece parenDepth bracketDepth [] = trim ws piece"
| "strip_default ws piece parenDepth bracketDepth (c # cs) =
     (if c = CHR ''('' then strip_default ws (piece @ [c]) (parenDepth + 1) bracketDepth cs
      else if c = CHR '')'' then strip_default ws (piece @ [c]) (parenDepth - 1) bracketDepth cs
      else if c = CHR ''['' then strip_default ws (piece @ [c]) parenDepth (bracketDepth + 1) cs
      else if c = CHR '']'' then strip_default ws (piece @ [c]) parenDepth (bracketDepth - 1) cs
      else if c = CHR ''='' \<and> parenDepth = 0 \<and> bracketDepth = 0 then trim ws piece
      else strip_default ws (piece @ [c]) parenDepth bracketDepth cs)"

definition stripDefaultValue :: "(char \<Rightarrow> bool) \<Rightarrow> string \<Rightarrow> string" where
  "stripDefaultValue ws arg = strip_default ws [] 0 0 arg"

definition hasDefaultValue :: "(char \<Rightarrow> bool) \<Rightarrow> string \<Rightarrow> bool" where
  "hasDefaultValue ws arg \<longleftrightarrow> length (stripDefaultValue ws arg) \<noteq> length (trim ws arg)"

definition getWithClausePlaceholder :: "(char \<Rightarrow> bool) \<Rightarrow> string \<Rightarrow> string" where
  "getWithClausePlaceholder ws s = (case find_char (CHR ''('') s of
     None \<Rightarrow> ''item.expr''
   | Some opn \<Rightarrow> (case findBalancedContents s opn (CHR ''('') (CHR '')'') of
       None \<Rightarrow> ''item.expr''
     | Some contents \<Rightarrow> (let placeholder = trim ws contents in
         if placeholder = [] then ''item.expr'' else placeholder)))"

text \<open>The last run of name characters of an argument without its default.\<close>

definition last_name :: "(char \<Rightarrow> bool) \<Rightarrow> string \<Rightarrow> string" where
  "last_name an arg = rev (takeWhile (isNameChar an) (dropWhile (\<lambda>c. \<not> isNameChar an c) (rev arg)))"

definition getArgumentPlaceholder :: "(char \<Rightarrow> bool) \<Rightarrow> (char \<Rightarrow> bool) \<Rightarrow> string \<Rightarrow> string option" where
  "getArgumentPlaceholder ws an arg0 =
    (let arg = stripDefaultValue ws (stripOptionalArgMarkers ws arg0) in
     if arg = [] then None
     else if arg = ''...'' then Some []
     else if last_name an arg = [] then None else Some (last_name an arg))"

definition shouldQuotePlaceholder :: "string \<Rightarrow> bool" where
  "shouldQuotePlaceholder placeholder \<longleftrightarrow> placeholder = ''format''"

definition shouldIncludeDefaultPlaceholder :: "string \<Rightarrow> bool \<Rightarrow> bool" where
  "shouldIncludeDefaultPlaceholder placeholder skippedDefault \<longleftrightarrow>
     placeholder = ''format'' \<and> \<not> skippedDefault"

section \<open>Snippets\<close>

record args_state =
  as_snippet :: snippet
  needsComma :: bool
  hasFinalTabstop :: bool
  skippedDefaultPlaceholder :: bool

definition append_argument :: "snippet \<Rightarrow> string \<Rightarrow> snippet" where
  "append_argument s placeholder =
     (if placeholder = [] then appendTabstop s (Some 0)
      else if shouldQuotePlaceholder placeholder
      then snippet_appendText (appendPlaceholder (snippet_appendText s [CHR 0x22]) placeholder None) [CHR 0x22]
      else appendPlaceholder s placeholder None)"

definition args_step :: "(char \<Rightarrow> bool) \<Rightarrow> (char \<Rightarrow> bool) \<Rightarrow> string \<Rightarrow> args_state \<Rightarrow> args_state" where
  "args_step ws an arg st =
    (case getArgumentPlaceholder ws an arg of
       None \<Rightarrow> st
     | Some placeholder \<Rightarrow>
        (let defaulted = hasDefaultValue ws (stripOptionalArgMarkers ws arg) in
         if placeholder = [] \<and> skippedDefaultPlaceholder st then st
         else if defaulted \<and> \<not> shouldIncludeDefaultPlaceholder placeholder (skippedDefaultPlaceholder st)
         then st\<lparr>skippedDefaultPlaceholder := True\<rparr>
         else (let s = (if needsComma st then snippet_appendText (as_snippet st) '', '' else as_snippet st)
               in st\<lparr>as_snippet := append_argument s placeholder, needsComma := True,
                     hasFinalTabstop := hasFinalTabstop st \<or> placeholder = []\<rparr>)))"

definition finish_args :: "string \<Rightarrow> args_state \<Rightarrow> snippet" where
  "finish_args args st =
     (if \<not> needsComma st \<and> args = ''...'' then appendTabstop (as_snippet st) (Some 0)
      else if needsComma st \<and> find_from args ''...'' 0 \<noteq> None \<and> \<not> hasFinalTabstop st
      then appendTabstop (snippet_appendText (as_snippet st) '', '') (Some 0)
      else as_snippet st)"

definition buildSnippetFromArgs ::
  "(char \<Rightarrow> bool) \<Rightarrow> (char \<Rightarrow> bool) \<Rightarrow> string \<Rightarrow> signature_args \<Rightarrow> string" where
  "buildSnippetFromArgs ws an insertText sa =
    (let s = snippet_appendText (snippet_new []) insertText in
     case sa_kind sa of
       WithClause \<Rightarrow> snip_value (snippet_appendText (appendPlaceholder
           (snippet_appendText s '' with ('') (getWithClausePlaceholder ws (sa_args sa)) None) '')'')
     | CallArgs \<Rightarrow>
        (let args = stripOptionalSegments ws (sa_args sa);
             st = \<lparr>as_snippet = snippet_appendText s ''('', needsComma = False,
                   hasFinalTabstop = False, skippedDefaultPlaceholder = False\<rparr>;
             st = fold (args_step ws an) (splitSignatureArgs ws args) st
         in snip_value (snippet_appendText (finish_args args st) '')'')))"

definition getSystemSubroutineSnippet ::
  "(char \<Rightarrow> bool) \<Rightarrow> (char \<Rightarrow> bool) \<Rightarrow> string \<Rightarrow> system_doc option \<Rightarrow> string" where
  "getSystemSubroutineSnippet ws an label doc =
    (let insertText = getSystemSubroutineInsertText label in
     case doc of
       None \<Rightarrow> insertText
     | Some d \<Rightarrow> (case getSignatureArgs ws an label d of
         Some args \<Rightarrow> buildSnippetFromArgs ws an insertText args
       | None \<Rightarrow> snip_value (snippet_appendText (snippet_new []) insertText)))"

section \<open>Items\<close>

definition system_documentation :: "system_doc \<Rightarrow> string" where
  "system_documentation doc =
    (let md = addParagraph [] (appendCodeBlock [] (doc_signature doc));
         md = (if doc_description doc \<noteq> [] then addParagraph md (appendText [] (doc_description doc)) else md)
     in document_build md)"

definition getSystemSubroutineCompletion ::
  "(char \<Rightarrow> bool) \<Rightarrow> (char \<Rightarrow> bool) \<Rightarrow> string \<Rightarrow> subroutine_kind \<Rightarrow> system_doc option \<Rightarrow> completion_item" where
  "getSystemSubroutineCompletion ws an label kind doc =
    (let detail = (case doc of Some d \<Rightarrow> '' '' @ doc_signature d
                   | None \<Rightarrow> if kind = TaskKind then '' task'' else '' function'');
         insertText = getSystemSubroutineSnippet ws an label doc;
         insertText = (if starts_with label ''$'' then [CHR 0x5C, CHR ''$''] @ insertText else insertText)
     in (plain_item label CK_Function)
          \<lparr>ci_detail := Some detail, ci_documentation := map_option system_documentation doc,
           ci_filterText := Some label, ci_insertText := Some insertText,
           ci_insertTextFormat := Some SnippetFormat\<rparr>)"

text \<open>The list is built by the first call and kept: \<open>cache\<close> is the function's static variable.\<close>

definition system_items ::
  "(char \<Rightarrow> bool) \<Rightarrow> (char \<Rightarrow> bool) \<Rightarrow> 'n list \<Rightarrow> 'n \<Rightarrow> ('n \<Rightarrow> string) \<Rightarrow> ('n \<Rightarrow> subroutine_kind option)
    \<Rightarrow> ('n \<Rightarrow> system_doc option) \<Rightarrow> completion_item list" where
  "system_items ws an names unknown label_of subroutine doc =
     concat (map (\<lambda>name.
       if name = unknown then []
       else let label = label_of name in
         if label = [] \<or> hd label \<noteq> CHR ''$'' then []
         else case subroutine name of
           None \<Rightarrow> []
         | Some k \<Rightarrow> [getSystemSubroutineCompletion ws an label k (doc name)]) names)"

definition addSystemSubroutineCompletions ::
  "completion_item list option \<Rightarrow> completion_item list \<Rightarrow> completion_item list
    \<Rightarrow> completion_item list option \<times> completion_item list" where
  "addSystemSubroutineCompletions cache items results =
     (let cached = (case cache of Some c \<Rightarrow> c | None \<Rightarrow> items) in (Some cached, results @ cached))"

end
