(* ===== verification/SystemTaskRuns.thy ===== *)
theory SystemTaskRuns
  imports SystemTasks
begin

text \<open>
  What a client shows for a completed system call: the name, and between parentheses, separated by
  commas, names of the signature's arguments.
\<close>

section \<open>The arguments of a call\<close>

definition arg_shown :: "string \<Rightarrow> string" where
  "arg_shown p = (if shouldQuotePlaceholder p then [CHR 0x22] @ p @ [CHR 0x22] else p)"

text \<open>The names a call may show, one for each argument that has a name, and those it must show,
  of the arguments without a default.\<close>

definition argument_names :: "(char \<Rightarrow> bool) \<Rightarrow> (char \<Rightarrow> bool) \<Rightarrow> string list \<Rightarrow> string list" where
  "argument_names ws an = List.map_filter (\<lambda>arg. map_option arg_shown (getArgumentPlaceholder ws an arg))"

definition required_names :: "(char \<Rightarrow> bool) \<Rightarrow> (char \<Rightarrow> bool) \<Rightarrow> string list \<Rightarrow> string list" where
  "required_names ws an = List.map_filter (\<lambda>arg. case getArgumentPlaceholder ws an arg of
     None \<Rightarrow> None
   | Some p \<Rightarrow> if p = [] \<or> hasDefaultValue ws (stripOptionalArgMarkers ws arg) then None
              else Some (arg_shown p))"

lemma names_append [simp]:
  "argument_names ws an (xs @ ys) = argument_names ws an xs @ argument_names ws an ys"
  "required_names ws an (xs @ ys) = required_names ws an xs @ required_names ws an ys"
  by (simp_all add: argument_names_def required_names_def List.map_filter_def)

lemma subseq_snoc:
  "subseq xs ys \<Longrightarrow> subseq (xs @ [a]) (ys @ [a])"
  "subseq xs ys \<Longrightarrow> subseq xs (ys @ [a])"
  by (auto intro: list_emb_append_mono list_emb_append2)

lemma built_argument: "built s t \<Longrightarrow> built (append_argument s p) (t @ arg_shown p)"
  using built_text [of "appendPlaceholder (snippet_appendText s [CHR 0x22]) p None" "t @ [CHR 0x22] @ p" "[CHR 0x22]"]
    built_placeholder [of "snippet_appendText s [CHR 0x22]" "t @ [CHR 0x22]" p]
    built_text [of s t "[CHR 0x22]"] built_tabstop [of s t] built_placeholder [of s t p]
  by (auto simp: append_argument_def arg_shown_def shouldQuotePlaceholder_def isdigit_def)

lemma not_digit_comma: "\<not> isdigit (CHR '','')" "\<not> isdigit (CHR '')'')" "\<not> isdigit (CHR ''('')" "\<not> isdigit (CHR '' '')"
  by (simp_all add: isdigit_def)

section \<open>The loop over the arguments\<close>

definition args_ok :: "(char \<Rightarrow> bool) \<Rightarrow> (char \<Rightarrow> bool) \<Rightarrow> string \<Rightarrow> string list \<Rightarrow> args_state \<Rightarrow> string list \<Rightarrow> bool" where
  "args_ok ws an head args st names \<longleftrightarrow> built (as_snippet st) (head @ comma_join names)
     \<and> needsComma st = (names \<noteq> []) \<and> subseq (required_names ws an args) names
     \<and> subseq names (argument_names ws an args)"

lemma names_single:
  "getArgumentPlaceholder ws an arg = None \<Longrightarrow> argument_names ws an [arg] = [] \<and> required_names ws an [arg] = []"
  "getArgumentPlaceholder ws an arg = Some p \<Longrightarrow> argument_names ws an [arg] = [arg_shown p]"
  "getArgumentPlaceholder ws an arg = Some p \<Longrightarrow> p = [] \<or> hasDefaultValue ws (stripOptionalArgMarkers ws arg)
     \<Longrightarrow> required_names ws an [arg] = []"
  "getArgumentPlaceholder ws an arg = Some p \<Longrightarrow> required_names ws an [arg] = [] \<or> required_names ws an [arg] = [arg_shown p]"
  by (auto simp: argument_names_def required_names_def List.map_filter_def)

lemma args_shown_step:
  assumes "args_ok ws an head args st names" "getArgumentPlaceholder ws an arg = Some p"
  shows "args_ok ws an head (args @ [arg])
    (st\<lparr>as_snippet := append_argument (if needsComma st then snippet_appendText (as_snippet st) '', '' else as_snippet st) p,
        needsComma := True, hasFinalTabstop := f\<rparr>) (names @ [arg_shown p])"
proof -
  have b: "built (as_snippet st) (head @ comma_join names)" and n: "needsComma st = (names \<noteq> [])"
    using assms(1) by (simp_all add: args_ok_def)
  have "built (if needsComma st then snippet_appendText (as_snippet st) '', '' else as_snippet st)
      (head @ comma_join names @ (if names = [] then [] else '', ''))"
    using b built_text [OF b, of "'', ''"] n by (cases "names = []") (simp_all add: not_digit_comma)
  from built_argument [OF this, of p] show ?thesis
    using assms names_single(2,4) [OF assms(2)]
    by (auto simp: args_ok_def comma_join_snoc subseq_snoc intro: list_emb_append2)
qed

lemma args_step_ok:
  assumes "args_ok ws an head args st names"
  shows "\<exists>names. args_ok ws an head (args @ [arg]) (args_step ws an arg st) names"
proof (cases "getArgumentPlaceholder ws an arg")
  case None
  then show ?thesis using assms names_single(1) [OF None] by (auto simp: args_step_def args_ok_def)
next
  case (Some p)
  let ?defaulted = "hasDefaultValue ws (stripOptionalArgMarkers ws arg)"
  consider (skip) "p = [] \<and> skippedDefaultPlaceholder st"
    | (drop) "\<not> (p = [] \<and> skippedDefaultPlaceholder st)"
        "?defaulted \<and> \<not> shouldIncludeDefaultPlaceholder p (skippedDefaultPlaceholder st)"
    | (keep) "\<not> (p = [] \<and> skippedDefaultPlaceholder st)"
        "\<not> (?defaulted \<and> \<not> shouldIncludeDefaultPlaceholder p (skippedDefaultPlaceholder st))"
    by blast
  then show ?thesis
  proof cases
    case skip
    then have "args_ok ws an head (args @ [arg]) (args_step ws an arg st) names"
      using assms Some names_single(2,3) [OF Some] by (auto simp: args_step_def args_ok_def subseq_snoc)
    then show ?thesis ..
  next
    case drop
    then have "args_ok ws an head (args @ [arg]) (args_step ws an arg st) names"
      using assms Some names_single(2,3) [OF Some] by (auto simp: args_step_def args_ok_def subseq_snoc Let_def)
    then show ?thesis ..
  next
    case keep
    have "args_ok ws an head (args @ [arg]) (args_step ws an arg st) (names @ [arg_shown p])"
      using args_shown_step [OF assms Some, of "hasFinalTabstop st \<or> p = []"] keep Some
      by (auto simp: args_step_def Let_def)
    then show ?thesis ..
  qed
qed

lemma args_loop:
  assumes "built s head"
  shows "\<exists>names. args_ok ws an head args (fold (args_step ws an) args
    \<lparr>as_snippet = s, needsComma = False, hasFinalTabstop = False, skippedDefaultPlaceholder = False\<rparr>) names"
proof (induction args rule: rev_induct)
  case Nil
  then show ?case using assms
    by (auto simp: args_ok_def argument_names_def required_names_def List.map_filter_def intro!: exI [of _ "[]"])
next
  case (snoc arg args)
  then show ?case using args_step_ok by fastforce
qed

text \<open>After the loop one empty argument may follow, the place where the cursor ends.\<close>

lemma finish_built:
  assumes "args_ok ws an head args st names"
  shows "\<exists>ns. built (finish_args a st) (head @ comma_join ns) \<and> (ns = names \<or> ns = names @ [[]])"
proof -
  have b: "built (as_snippet st) (head @ comma_join names)" and n: "needsComma st = (names \<noteq> [])"
    using assms by (simp_all add: args_ok_def)
  have "built (appendTabstop (snippet_appendText (as_snippet st) '', '') (Some 0)) (head @ comma_join (names @ [[]]))"
    if "names \<noteq> []"
    using built_tabstop [OF built_text [OF b, of "'', ''"]] that by (simp add: comma_join_snoc not_digit_comma)
  then show ?thesis using b built_tabstop [OF b] n by (auto simp: finish_args_def)
qed

section \<open>The inserted text\<close>

lemma call_args_shown:
  assumes "sa_kind sa = CallArgs" "args = splitSignatureArgs ws (stripOptionalSegments ws (sa_args sa))"
  shows "\<exists>names ns. map_option shown (snip_read (buildSnippetFromArgs ws an t sa)) = Some (t @ ''('' @ comma_join ns @ '')'')
    \<and> (ns = names \<or> ns = names @ [[]])
    \<and> subseq (required_names ws an args) names \<and> subseq names (argument_names ws an args)"
proof -
  let ?s = "snippet_appendText (snippet_appendText (snippet_new []) t) ''(''"
  let ?st = "fold (args_step ws an) args
    \<lparr>as_snippet = ?s, needsComma = False, hasFinalTabstop = False, skippedDefaultPlaceholder = False\<rparr>"
  have "built ?s (t @ ''('')" using built_text [OF built_start [of t], of "''(''"] by (simp add: not_digit_comma)
  from args_loop [OF this] obtain names where ok: "args_ok ws an (t @ ''('') args ?st names" by blast
  from finish_built [OF this, of "stripOptionalSegments ws (sa_args sa)"] obtain ns where
    b: "built (finish_args (stripOptionalSegments ws (sa_args sa)) ?st) ((t @ ''('') @ comma_join ns)"
    and ns: "ns = names \<or> ns = names @ [[]]" by blast
  from built_reads [OF built_text [OF b, of "'')''"]] show ?thesis
    using ok ns assms by (intro exI [of _ names] exI [of _ ns]) (simp add: buildSnippetFromArgs_def args_ok_def not_digit_comma Let_def)
qed

lemma with_clause_shown:
  assumes "sa_kind sa = WithClause"
  shows "map_option shown (snip_read (buildSnippetFromArgs ws an t sa))
    = Some (t @ '' with ('' @ getWithClausePlaceholder ws (sa_args sa) @ '')'')"
  using built_reads [OF built_text [OF built_placeholder [OF built_text [OF built_start [of t], of "'' with (''"]],
        of "'')''" "getWithClausePlaceholder ws (sa_args sa)"]] assms
  by (simp add: buildSnippetFromArgs_def not_digit_comma)

lemma dollar_shown:
  "map_option shown (snip_read ([CHR 0x5C, CHR ''$''] @ t)) = map_option ((#) (CHR ''$'')) (map_option shown (snip_read t))"
  by (cases "snip_read t") (simp_all add: special_char_def)

section \<open>Properties\<close>

lemma system_call_shown:
  assumes "getSignatureArgs ws an (CHR ''$'' # name) doc = Some \<lparr>sa_kind = CallArgs, sa_args = args\<rparr>"
    and "arglist = splitSignatureArgs ws (stripOptionalSegments ws args)"
  shows "\<exists>names ns. client_text (setCompletionEdit q (getSystemSubroutineCompletion ws an (CHR ''$'' # name) k (Some doc)))
      = Some (CHR ''$'' # name @ (if followedByCall q then [] else ''('' @ comma_join ns @ '')''))
    \<and> (ns = names \<or> ns = names @ [[]])
    \<and> subseq (required_names ws an arglist) names \<and> subseq names (argument_names ws an arglist)"
proof -
  let ?item = "getSystemSubroutineCompletion ws an (CHR ''$'' # name) k (Some doc)"
  have item: "ci_kind ?item = Some CK_Function" "ci_insertTextFormat ?item = Some SnippetFormat"
    "ci_label ?item = CHR ''$'' # name"
    "ci_insertText ?item = Some ([CHR 0x5C, CHR ''$''] @ buildSnippetFromArgs ws an name \<lparr>sa_kind = CallArgs, sa_args = args\<rparr>)"
    using assms(1) by (simp_all add: getSystemSubroutineCompletion_def plain_item_def getSystemSubroutineSnippet_def
        getSystemSubroutineInsertText_def Let_def)
  obtain names ns where n: "map_option shown (snip_read (buildSnippetFromArgs ws an name
        \<lparr>sa_kind = CallArgs, sa_args = args\<rparr>)) = Some (name @ ''('' @ comma_join ns @ '')'')"
    "ns = names \<or> ns = names @ [[]]" "subseq (required_names ws an arglist) names" "subseq names (argument_names ws an arglist)"
    using call_args_shown [of "\<lparr>sa_kind = CallArgs, sa_args = args\<rparr>" arglist ws an name] assms(2) by auto
  have "client_text (setCompletionEdit q ?item)
      = Some (CHR ''$'' # name @ (if followedByCall q then [] else ''('' @ comma_join ns @ '')''))"
  proof (cases "followedByCall q")
    case True
    then show ?thesis using source_shape_kept [of q ?item] item by simp
  next
    case False
    then have "client_text (setCompletionEdit q ?item) = map_option shown (snip_read ([CHR 0x5C, CHR ''$'']
        @ buildSnippetFromArgs ws an name \<lparr>sa_kind = CallArgs, sa_args = args\<rparr>))"
      using item by (simp add: client_text_def setCompletionEdit_def keep_shape_def edit_text_def label_only_def
          instantiable_item_def isInstantiableKind_def item_text_def Let_def del: snip_read.simps append.simps)
    then show ?thesis using n(1) False by (simp add: dollar_shown del: snip_read.simps append.simps)
  qed
  then show ?thesis using n(2-4) by blast
qed

text \<open>What the client inserts for a system task or function whose documented signature has an
  argument list: where a call already follows the name, the name alone; otherwise the name and a
  parenthesised list, separated by commas, of argument names of the signature in their order. Every
  argument that has a name and no default is in the list, nothing but argument names is, except one
  empty place at the end. Names hold whatever characters; none is read as a snippet element.\<close>

theorem system_call_inserted:
  assumes "getSignatureArgs ws an (CHR ''$'' # name) doc = Some \<lparr>sa_kind = CallArgs, sa_args = args\<rparr>"
    and "arglist = splitSignatureArgs ws (stripOptionalSegments ws args)"
  shows "\<exists>names ns. client_text (setCompletionEdit q (getSystemSubroutineCompletion ws an (CHR ''$'' # name) k (Some doc)))
      = Some (CHR ''$'' # name @ (if followedByCall q then [] else ''('' @ comma_join ns @ '')''))
    \<and> (ns = names \<or> ns = names @ [[]])
    \<and> subseq (required_names ws an arglist) names \<and> subseq names (argument_names ws an arglist)"
  using assms by (rule system_call_shown)

definition fdisplay_doc :: system_doc where
  "fdisplay_doc = \<lparr>doc_signature = ''task $fdisplay(int fd, string format = '' @ [CHR 0x22, CHR 0x22] @ '', ...)'',
     doc_description = []\<rparr>"

definition no_range :: lsp_range where
  "no_range = \<lparr>r_start = \<lparr>p_line = 0, p_char = 0\<rparr>, r_end = \<lparr>p_line = 0, p_char = 0\<rparr>\<rparr>"

theorem system_call_inserted_witness:
  "\<exists>names ns. client_text (setCompletionEdit (\<lparr>replacementRange = no_range, followedByCall = False, followedByInstantiation = False\<rparr>)
      (getSystemSubroutineCompletion isspace isalnum (CHR ''$'' # ''fdisplay'') TaskKind (Some fdisplay_doc)))
      = Some (CHR ''$'' # ''fdisplay'' @ (if False then [] else ''('' @ comma_join ns @ '')''))
    \<and> (ns = names \<or> ns = names @ [[]])
    \<and> subseq (required_names isspace isalnum [''int fd'', ''string format = '' @ [CHR 0x22, CHR 0x22], ''...'']) names
    \<and> subseq names (argument_names isspace isalnum [''int fd'', ''string format = '' @ [CHR 0x22, CHR 0x22], ''...''])"
proof -
  have sig: "getSignatureArgs isspace isalnum (CHR ''$'' # ''fdisplay'') fdisplay_doc
      = Some \<lparr>sa_kind = CallArgs, sa_args = ''int fd, string format = '' @ [CHR 0x22, CHR 0x22] @ '', ...''\<rparr>"
    by code_simp
  have split: "[''int fd'', ''string format = '' @ [CHR 0x22, CHR 0x22], ''...'']
      = splitSignatureArgs isspace (stripOptionalSegments isspace (''int fd, string format = '' @ [CHR 0x22, CHR 0x22] @ '', ...''))"
    by code_simp
  show ?thesis using system_call_inserted [OF sig split, of "\<lparr>replacementRange = no_range, followedByCall = False, followedByInstantiation = False\<rparr>" TaskKind]
    by simp
qed

text \<open>The text for this entry.\<close>

lemma fdisplay_inserted:
  "map_option shown (snip_read (getSystemSubroutineSnippet isspace isalnum ''$fdisplay'' (Some fdisplay_doc)))
    = Some (''fdisplay(fd, '' @ [CHR 0x22] @ ''format'' @ [CHR 0x22] @ '', )'')"
  by code_simp

end
