(* ===== verification/MemberItems.thy ===== *)
theory MemberItems
  imports CompletionItems Formatting
begin

text \<open>
  The items of symbols (\<open>src/completions/MemberCompletions.cpp\<close>): the detail text of a symbol,
  the call a subroutine item inserts, the item itself and what resolving adds to it.

  A symbol is what the functions read of it. The texts of types, of syntax printed without its
  comments and of code blocks are slang's printers' and so part of the data.
\<close>

section \<open>Symbols\<close>

datatype scope_kind = ScInstanceBody | ScCompilationUnit | ScPackage | ScRoot | ScOther

record scope_ref =
  sr_id :: nat
  sr_kind :: scope_kind
  sr_lexicalPath :: string

text \<open>The shape of a symbol that decides its detail text.\<close>

datatype array_shape =
    ArrayOf nat array_shape     \<comment> \<open>an instance array, its size and its first element\<close>
  | InstanceOf string           \<comment> \<open>an instance, the name of its definition\<close>
  | OtherElement string         \<comment> \<open>any other symbol, the name of its kind\<close>

datatype detail_shape =
    DsSubroutine subroutine_kind
  | DsTypeAlias "string option"                       \<comment> \<open>the kind of the target, unless it is an error\<close>
  | DsTypeParameter
  | DsInterfacePort "string option" string "string list"
  | DsPort direction string
  | DsInstance string
  | DsInstanceArray array_shape
  | DsOther "string option" bool "string option" string

record call_argument =
  ca_name :: string
  ca_type :: string
  ca_default :: "string option"

record member =
  mb_symbol :: symbol
  mb_name :: string
  mb_is_type :: bool
  mb_is_value :: bool
  mb_loc_valid :: bool
  mb_no_location :: bool
  mb_location :: source_location
  mb_path :: string
  mb_parent :: "scope_ref option"
  mb_shape :: detail_shape
  mb_arguments :: "call_argument list option"         \<comment> \<open>of a subroutine\<close>
  mb_return_type :: string
  mb_block :: "string option"                         \<comment> \<open>the code block of its syntax\<close>
  mb_parent_block :: "string option"                  \<comment> \<open>the code block of its syntax's parent\<close>
  mb_typed_description :: "string option"             \<comment> \<open>the lexical path of a value's type\<close>
  mb_lexical_path :: string

abbreviation mb_kind :: "member \<Rightarrow> symbol_kind" where
  "mb_kind s \<equiv> kind_of (mb_symbol s)"

definition hasSourceLocation :: "member \<Rightarrow> bool" where
  "hasSourceLocation s \<longleftrightarrow> mb_loc_valid s \<and> \<not> mb_no_location s"

section \<open>Detail texts\<close>

text \<open>\<open>array\<close> is the name of the kind of the outermost array, which is the text for an array with
  an empty dimension.\<close>

fun array_detail :: "string \<Rightarrow> string \<Rightarrow> array_shape \<Rightarrow> string" where
  "array_detail array dimensions (ArrayOf n e) =
     (if n = 0 then array else array_detail array (dimensions @ ''['' @ to_string (int n) @ '']'') e)"
| "array_detail array dimensions (InstanceOf d) = d @ dimensions"
| "array_detail array dimensions (OtherElement k) = k @ dimensions"

definition getInstanceArrayCompletionDetail :: "array_shape \<Rightarrow> string" where
  "getInstanceArrayCompletionDetail a = array_detail ''InstanceArray'' [] a"

fun shape_detail :: "detail_shape \<Rightarrow> string" where
  "shape_detail (DsSubroutine k) = subroutineString k"
| "shape_detail (DsTypeAlias target) = (case target of Some k \<Rightarrow> k | None \<Rightarrow> ''TypeAlias'')"
| "shape_detail DsTypeParameter = ''type''"
| "shape_detail (DsInterfacePort def modport dims) =
     (case def of Some d \<Rightarrow> d | None \<Rightarrow> ''interface'')
     @ (if modport \<noteq> [] then ''.'' @ modport else []) @ concat dims"
| "shape_detail (DsPort dir typ) = portString dir @ '' '' @ typ"
| "shape_detail (DsInstance d) = d"
| "shape_detail (DsInstanceArray a) = getInstanceArrayCompletionDetail a"
| "shape_detail (DsOther resolved supports typeSyntax kind) =
     (let detail = (case resolved of Some t \<Rightarrow> t | None \<Rightarrow> []) in
      if detail = [] \<and> supports
      then (case typeSyntax of Some t \<Rightarrow> t | None \<Rightarrow> kind) else detail)"

definition getMemberCompletionDetail :: "member \<Rightarrow> string result" where
  "getMemberCompletionDetail s = squashSpaces (ltrim (shape_detail (mb_shape s)))"

section \<open>Calls\<close>

definition argument_text :: "call_argument \<Rightarrow> string" where
  "argument_text a = (case ca_default a of
     Some d \<Rightarrow> ca_name a @ '' /* : '' @ ca_type a @ '' = '' @ d @ '' */''
   | None \<Rightarrow> ca_name a @ '' /* '' @ ca_type a @ '' */'')"

fun call_arguments :: "call_argument list \<Rightarrow> snippet \<Rightarrow> snippet" where
  "call_arguments [] s = s"
| "call_arguments (a # as) s =
     (let s = appendPlaceholder s (argument_text a) None;
          s = (if as \<noteq> [] then snippet_appendText s '', '' else s)
      in call_arguments as s)"

text \<open>The builder starts from the name as it is written, not from \<open>appendText\<close> of it.\<close>

definition subroutine_snippet :: "string \<Rightarrow> call_argument list \<Rightarrow> string" where
  "subroutine_snippet name args = snip_value (snippet_appendText
     (call_arguments args (snippet_appendText (snippet_new name) ''('')) '')'')"

definition setSubroutineCompletionEdit :: "member \<Rightarrow> completion_item \<Rightarrow> completion_item" where
  "setSubroutineCompletionEdit s item = (case mb_arguments s of
     None \<Rightarrow> item
   | Some args \<Rightarrow> item\<lparr>ci_insertText := Some (subroutine_snippet (mb_name s) args),
                      ci_insertTextFormat := Some SnippetFormat\<rparr>)"

section \<open>Resolving\<close>

text \<open>The syntax whose code block documents the symbol; a subroutine without syntax is documented
  by its type and name.\<close>

definition documented_block :: "member \<Rightarrow> string option" where
  "documented_block s =
     (if mb_arguments s \<noteq> None then mb_block s
      else if mb_kind s = TypeAlias then mb_block s
      else if mb_is_value s \<or> mb_kind s \<in> {Port, TypeParameter, InterfacePort}
      then (if mb_block s = None then None else if mb_parent_block s \<noteq> None then mb_parent_block s else mb_block s)
      else mb_block s)"

definition plain_documentation :: "member \<Rightarrow> string" where
  "plain_documentation s = (if mb_arguments s \<noteq> None then mb_return_type s @ '' '' @ mb_name s @ ''(...)'' else [])"

definition resolve_member :: "member \<Rightarrow> bool \<Rightarrow> completion_item \<Rightarrow> completion_item" where
  "resolve_member s resolveCallableEdit item0 =
     (let item = (if mb_arguments s \<noteq> None \<and> resolveCallableEdit then setSubroutineCompletionEdit s item0 else item0)
      in item\<lparr>ci_documentation := Some (case documented_block s of
           Some b \<Rightarrow> b | None \<Rightarrow> plain_documentation s)\<rparr>)"

section \<open>Items\<close>

definition member_data :: "string \<Rightarrow> bool \<Rightarrow> member \<Rightarrow> item_data" where
  "member_data documentUri labelOnly s = DataSymbol
     \<lparr>cd_documentUri = documentUri, cd_symbolPath = mb_path s, cd_symbolName = mb_name s,
      cd_bufferId = lbuffer (mb_location s), cd_offset = loffset (mb_location s),
      cd_symbolKind = mb_kind s, cd_labelOnly = labelOnly\<rparr>"

definition member_description :: "nat option \<Rightarrow> member \<Rightarrow> string option" where
  "member_description currentScope s = (case mb_parent s of
     None \<Rightarrow> None
   | Some p \<Rightarrow> (if currentScope \<noteq> Some (sr_id p) \<and> sr_lexicalPath p \<noteq> []
                then Some (sr_lexicalPath p) else None))"

definition finish_member :: "member \<Rightarrow> bool \<Rightarrow> completion_item \<Rightarrow> completion_item" where
  "finish_member s callable item =
     (if \<not> hasSourceLocation s then (resolve_member s callable item)\<lparr>ci_data := None\<rparr> else item)"

definition getCompletion :: "member \<Rightarrow> nat option \<Rightarrow> string \<Rightarrow> bool \<Rightarrow> bool \<Rightarrow> completion_item result" where
  "getCompletion s currentScope documentUri labelOnly deferCallableEdit =
    map_sum id (\<lambda>detail.
      let item = (plain_item (mb_name s) (toCompletionItemKind (mb_symbol s)))
            \<lparr>ci_detail := Some ('' '' @ detail), ci_description := member_description currentScope s,
             ci_filterText := Some (mb_name s), ci_data := Some (member_data documentUri labelOnly s)\<rparr>;
          item = (if mb_arguments s \<noteq> None \<and> (\<not> deferCallableEdit \<or> \<not> hasSourceLocation s)
                  then setSubroutineCompletionEdit s item else item)
      in finish_member s True item) (getMemberCompletionDetail s)"

definition getSymbolCompletion :: "member \<Rightarrow> nat option \<Rightarrow> string \<Rightarrow> completion_item result" where
  "getSymbolCompletion s currentScope documentUri = getCompletion s currentScope documentUri False False"

text \<open>The field of a struct, under its own name or a dotted path; the type text is the symbol's.\<close>

definition getHierarchicalCompletion ::
  "member \<Rightarrow> member \<Rightarrow> string \<Rightarrow> string \<Rightarrow> bool \<Rightarrow> bool \<Rightarrow> string \<Rightarrow> completion_item result" where
  "getHierarchicalCompletion parentSymbol s fieldType documentUri labelOnly deferCallableEdit completionLabel =
    (if mb_kind s = Field then
       (let label = (if completionLabel = [] then mb_name s else completionLabel) in
        Inr (finish_member s False ((plain_item label (toCompletionItemKind (mb_symbol s)))
          \<lparr>ci_detail := Some ('' '' @ fieldType),
           ci_description := Some (case mb_typed_description parentSymbol of
             Some d \<Rightarrow> d | None \<Rightarrow> mb_lexical_path parentSymbol),
           ci_filterText := Some label, ci_data := Some (member_data documentUri labelOnly s)\<rparr>)))
     else getCompletion s (map_option sr_id (mb_parent s)) documentUri labelOnly deferCallableEdit)"

section \<open>Lemmas\<close>

text \<open>The detail of a symbol is never the empty subtraction \<open>squashSpaces\<close> throws on: a text that
  starts with no space is empty or has a line.\<close>

lemma nl_space: "isspace nl"
  by (simp add: isspace_def)

lemma member_detail_total: "\<exists>t. getMemberCompletionDetail s = Inr t"
proof -
  let ?t = "ltrim (shape_detail (mb_shape s))"
  have "?t = [] \<or> \<not> isspace (hd ?t)"
    by (metis hd_dropWhile ltrim_def)
  then have "?t = [] \<or> (\<exists>c \<in> set ?t. c \<noteq> nl)"
    using nl_space by (metis list.set_sel(1))
  then show ?thesis unfolding getMemberCompletionDetail_def by (rule squash_total)
qed

lemma completion_total: "getCompletion s sc uri l d = Inr (projr (getCompletion s sc uri l d))"
  using member_detail_total [of s] by (auto simp: getCompletion_def)

lemma completion_label [simp]: "ci_label (projr (getCompletion s sc uri l d)) = mb_name s"
  using member_detail_total [of s]
  by (auto simp: getCompletion_def finish_member_def resolve_member_def setSubroutineCompletionEdit_def
      plain_item_def Let_def split: option.splits)

lemma completion_unranked [simp]: "ci_sortText (projr (getCompletion s sc uri l d)) = None"
  using member_detail_total [of s]
  by (auto simp: getCompletion_def finish_member_def resolve_member_def setSubroutineCompletionEdit_def
      plain_item_def Let_def split: option.splits)

text \<open>A name without a special character is its own snippet, so a call reads back as the name and
  the arguments' texts between parentheses.\<close>

lemma escape_plain: "list_all (\<lambda>c. \<not> special_char c) t \<Longrightarrow> snippet_escape t = t"
  by (induction t) auto

lemma plain_start: "list_all (\<lambda>c. \<not> special_char c) t \<Longrightarrow> built (snippet_new t) t"
  using built_start [of t] by (simp add: snippet_appendText_def snippet_new_def escape_plain)

lemma call_arguments_built: "built s t \<Longrightarrow> built (call_arguments as s) (t @ comma_join (map argument_text as))"
proof (induction "as" arbitrary: s t)
  case (Cons a "as")
  note ph = built_placeholder [OF Cons.prems, of "argument_text a"]
  show ?case
  proof (cases "as")
    case Nil
    then show ?thesis using ph by simp
  next
    case (Cons b bs)
    have "built (snippet_appendText (appendPlaceholder s (argument_text a) None) '', '') ((t @ argument_text a) @ '', '')"
      using built_text [OF ph, of "'', ''"] by (simp add: isdigit_def)
    from Cons.IH [OF this] show ?thesis by (simp add: Cons)
  qed
qed simp

lemma subroutine_snippet_shown:
  assumes "list_all (\<lambda>c. \<not> special_char c) name"
  shows "map_option shown (snip_read (subroutine_snippet name args))
    = Some (name @ ''('' @ comma_join (map argument_text args) @ '')'')"
  using built_reads [OF built_text [OF call_arguments_built [OF built_text [OF plain_start [OF assms], of "''(''"]], of "'')''" args]]
  by (simp add: subroutine_snippet_def isdigit_def)

text \<open>A name with a dollar sign, which SystemVerilog identifiers may have, is not.\<close>

lemma dollar_name_read_as_variable:
  "map_option shown (snip_read (subroutine_snippet ''get$bus'' [])) = Some ''getbus()''"
  by code_simp

end
