(* ===== verification/MemberLists.thy ===== *)
theory MemberLists
  imports MemberItems CompletionKinds
begin

text \<open>
  The members a position can name (\<open>MemberCompletionQuery::addCompletions\<close> and
  \<open>addExpectedEnumCompletions\<close> of \<open>src/completions/MemberCompletions.cpp\<close>): the walk from the
  scope at the cursor up to the compilation unit, with the wildcard imports of each scope, the
  names already offered and the ranks.

  slang's scopes are data: a scope with its members in order and its wildcard imports; the parent
  scopes are a list, from the scope itself up. \<open>getCompletion\<close> never throws
  (\<open>MemberItems.completion_total\<close>), so the lists hold its value.
\<close>

section \<open>Scopes\<close>

text \<open>A member as the scope holds it, and the symbol it stands for: a transparent member (an enum
  value) wraps one, an explicit import may name one.\<close>

datatype scope_member =
    PlainMember member
  | TransparentMember member member
  | ExplicitImport member "member option"

fun own_member :: "scope_member \<Rightarrow> member" where
  "own_member (PlainMember m) = m"
| "own_member (TransparentMember m w) = m"
| "own_member (ExplicitImport m i) = m"

fun offered_member :: "scope_member \<Rightarrow> member option" where
  "offered_member (PlainMember m) = Some m"
| "offered_member (TransparentMember m w) = Some w"
| "offered_member (ExplicitImport m i) = i"

text \<open>A wildcard import: nothing when its package is unknown, else whether the package is the
  standard one, and the package.\<close>

datatype scope = Scope (sc_id: nat) (sc_kind: scope_kind) (sc_members: "scope_member list")
  (sc_imports: "(bool \<times> scope) option list")

record list_request =
  lr_kind :: CompletionKinds.completion_kind
  lr_original :: "nat option"
  lr_uri :: string
  lr_labelOnly :: bool
  lr_defer :: bool
  lr_analysis :: bool
  lr_offset :: nat
  lr_operator :: "string option"            \<comment> \<open>the token before the cursor\<close>
  lr_enum :: "member list option"           \<comment> \<open>the values of the enum type of what is assigned to\<close>

section \<open>The walk\<close>

definition declaredAfterCursor :: "list_request \<Rightarrow> member \<Rightarrow> bool" where
  "declaredAfterCursor R m \<longleftrightarrow>
     (if \<not> lr_analysis R \<or> \<not> mb_loc_valid m \<or> loffset (mb_location m) \<le> lr_offset R then False
      else case mb_parent m of
        None \<Rightarrow> False
      | Some p \<Rightarrow> sr_kind p \<notin> {ScInstanceBody, ScCompilationUnit, ScPackage, ScRoot})"

definition typesOnly :: "list_request \<Rightarrow> bool" where
  "typesOnly R \<longleftrightarrow> lr_kind R = ModuleMemberKind \<or> lr_kind R = PortListKind"

definition item_of_member :: "list_request \<Rightarrow> member \<Rightarrow> completion_item" where
  "item_of_member R m = projr (getCompletion m (lr_original R) (lr_uri R) (lr_labelOnly R) (lr_defer R))"

type_synonym listing = "completion_item list \<times> string list"

definition pushCompletion :: "list_request \<Rightarrow> member \<Rightarrow> listing \<Rightarrow> listing" where
  "pushCompletion R m l =
     (if declaredAfterCursor R m then l
      else let item = item_of_member R m in
        if ci_label item \<in> set (snd l) then l
        else (fst l @ [item], snd l @ [ci_label item]))"

definition skipped_member :: "list_request \<Rightarrow> nat option \<Rightarrow> member \<Rightarrow> bool" where
  "skipped_member R prev m \<longleftrightarrow>
     prev = Some (sym_id (info (mb_symbol m)))
     \<or> mb_name m = [] \<or> mb_kind m = Package
     \<or> lr_kind R = ExpressionKind \<and> mb_kind m \<in> {ClassType, GenericClassDef}
     \<or> typesOnly R \<and> \<not> mb_is_type m \<and> mb_kind m \<noteq> GenericClassDef \<and> mb_kind m \<noteq> TypeParameter"

text \<open>A port is among the members twice, as the port and as the variable or net after it.\<close>

definition repeats_last :: "completion_item list \<Rightarrow> member \<Rightarrow> bool" where
  "repeats_last results m \<longleftrightarrow> mb_kind m \<in> {Variable, Net} \<and> results \<noteq> [] \<and> ci_label (last results) = mb_name m"

definition add_member :: "list_request \<Rightarrow> nat option \<Rightarrow> scope_member \<Rightarrow> listing \<Rightarrow> listing" where
  "add_member R prev sm l =
     (if skipped_member R prev (own_member sm) \<or> repeats_last (fst l) (own_member sm) then l
      else case offered_member sm of None \<Rightarrow> l | Some m \<Rightarrow> pushCompletion R m l)"

definition ends_walk :: "scope \<Rightarrow> bool" where
  "ends_walk sc \<longleftrightarrow> sc_kind sc \<in> {ScCompilationUnit, ScPackage}"

text \<open>The loop over the scopes; \<open>imports\<close> adds the wildcard imports of a scope.\<close>

fun walk_scopes :: "list_request \<Rightarrow> (scope \<Rightarrow> listing \<Rightarrow> listing) \<Rightarrow> nat option \<Rightarrow> scope list \<Rightarrow> listing \<Rightarrow> listing" where
  "walk_scopes R add_imports prev [] l = l"
| "walk_scopes R add_imports prev (sc # scs) l =
     (let l = fold (add_member R prev) (sc_members sc) l; l = add_imports sc l
      in if ends_walk sc then l else walk_scopes R add_imports (Some (sc_id sc)) scs l)"

definition ranked_from :: "nat \<Rightarrow> string \<Rightarrow> listing \<Rightarrow> listing" where
  "ranked_from first rank l = (rankUnrankedCompletions (fst l) first rank, snd l)"

text \<open>The call for a package: \<open>isOriginalCall\<close> is false, so no keywords, no enum values and no
  imports; a package ends its own walk.\<close>

definition addPackageCompletions :: "list_request \<Rightarrow> scope \<Rightarrow> listing \<Rightarrow> listing" where
  "addPackageCompletions R package l =
     (let scopeFirst = length (fst l)
      in ranked_from scopeFirst rank_Scope
           (walk_scopes R (\<lambda>sc l. l) None [package] (ranked_from scopeFirst rank_Keyword l)))"

definition add_import :: "list_request \<Rightarrow> (bool \<times> scope) option \<Rightarrow> listing \<Rightarrow> listing" where
  "add_import R import l = (case import of
     None \<Rightarrow> l
   | Some (is_std, package) \<Rightarrow>
       (if is_std then l
        else let importFirst = length (fst l)
             in ranked_from importFirst rank_Imported (addPackageCompletions R package l)))"

definition add_imports :: "list_request \<Rightarrow> scope \<Rightarrow> listing \<Rightarrow> listing" where
  "add_imports R sc l = fold (add_import R) (sc_imports sc) l"

section \<open>Expected enum values\<close>

definition add_enum_value :: "list_request \<Rightarrow> member \<Rightarrow> listing \<times> string list \<Rightarrow> listing \<times> string list" where
  "add_enum_value R v st =
    (let (l, existing) = st in
     if mb_name v = [] then st
     else let item = projr (getCompletion v (lr_original R) (lr_uri R) False False) in
       if ci_label item \<in> set existing then st
       else ((fst l @ [item\<lparr>ci_sortText := Some rank_Scope\<rparr>], snd l @ [ci_label item]),
             existing @ [ci_label item]))"

definition assignment_operators :: "string list" where
  "assignment_operators = [''='', ''<='', '':='']"

definition addExpectedEnumCompletions :: "list_request \<Rightarrow> listing \<Rightarrow> listing" where
  "addExpectedEnumCompletions R l =
    (if \<not> lr_analysis R then l
     else case lr_operator R of
       None \<Rightarrow> l
     | Some op \<Rightarrow> (if op \<notin> set assignment_operators then l
         else case lr_enum R of
           None \<Rightarrow> l
         | Some values \<Rightarrow> fst (fold (add_enum_value R) values (l, map ci_label (fst l)))))"

section \<open>The list\<close>

text \<open>\<open>chain\<close> is the scope and its parents, empty when there is no scope.\<close>

definition addCompletions :: "list_request \<Rightarrow> scope list \<Rightarrow> completion_item list \<Rightarrow> completion_item list" where
  "addCompletions R chain results =
    (let scopeFirst = length results;
         results = (if lr_kind R = ModuleMemberKind then addKeywordCompletions results else results);
         l = ranked_from scopeFirst rank_Keyword (results, []);
         l = addExpectedEnumCompletions R l
     in if chain = [] then fst l
        else fst (ranked_from scopeFirst rank_Scope (walk_scopes R (add_imports R) None chain l)))"

end
