(* ===== verification/MemberRuns.thy ===== *)
theory MemberRuns
  imports MemberLists
begin

text \<open>
  What \<open>addCompletions\<close> lists: for each name the first symbol of that name on the walk, once, and
  all in the rank of the scope.
\<close>

section \<open>The reference\<close>

definition member_candidates :: "list_request \<Rightarrow> nat option \<Rightarrow> scope_member list \<Rightarrow> member list" where
  "member_candidates R prev sms = filter (\<lambda>m. \<not> declaredAfterCursor R m)
     (List.map_filter offered_member (filter (\<lambda>sm. \<not> skipped_member R prev (own_member sm)) sms))"

definition import_candidates :: "list_request \<Rightarrow> (bool \<times> scope) option \<Rightarrow> member list" where
  "import_candidates R import = (case import of
     Some (False, package) \<Rightarrow> member_candidates R None (sc_members package) | _ \<Rightarrow> [])"

text \<open>The symbols on the walk, nearest first.\<close>

fun walk_candidates :: "list_request \<Rightarrow> nat option \<Rightarrow> scope list \<Rightarrow> member list" where
  "walk_candidates R prev [] = []"
| "walk_candidates R prev (sc # scs) = member_candidates R prev (sc_members sc)
     @ concat (map (import_candidates R) (sc_imports sc))
     @ (if ends_walk sc then [] else walk_candidates R (Some (sc_id sc)) scs)"

text \<open>The first of each name.\<close>

fun first_named :: "string list \<Rightarrow> member list \<Rightarrow> member list" where
  "first_named seen [] = []"
| "first_named seen (m # ms) = (if mb_name m \<in> set seen then first_named seen ms
     else m # first_named (seen @ [mb_name m]) ms)"

text \<open>In slang a transparent member and an import are symbols of kinds of their own.\<close>

definition member_ok :: "scope_member \<Rightarrow> bool" where
  "member_ok sm \<longleftrightarrow> (case sm of PlainMember m \<Rightarrow> True | _ \<Rightarrow> mb_kind (own_member sm) \<notin> {Variable, Net})"

definition scope_ok :: "scope \<Rightarrow> bool" where
  "scope_ok sc \<longleftrightarrow> list_all member_ok (sc_members sc)
     \<and> list_all (\<lambda>i. case i of None \<Rightarrow> True | Some (s, p) \<Rightarrow> list_all member_ok (sc_members p)) (sc_imports sc)"

section \<open>Pushing candidates\<close>

definition pushed :: "list_request \<Rightarrow> member list \<Rightarrow> listing \<Rightarrow> listing" where
  "pushed R ms l = (fst l @ map (item_of_member R) (first_named (snd l) ms),
     snd l @ map mb_name (first_named (snd l) ms))"

lemma item_label [simp]: "ci_label (item_of_member R m) = mb_name m"
  by (simp add: item_of_member_def)

lemma item_unranked [simp]: "ci_sortText (item_of_member R m) = None"
  by (simp add: item_of_member_def)

lemma pushed_Nil [simp]: "pushed R [] l = l"
  by (simp add: pushed_def)

lemma pushed_Cons: "\<not> declaredAfterCursor R m \<Longrightarrow> pushed R ms (pushCompletion R m l) = pushed R (m # ms) l"
  by (simp add: pushed_def pushCompletion_def Let_def)

lemma first_named_append:
  "first_named seen (ms @ ns) = first_named seen ms @ first_named (seen @ map mb_name (first_named seen ms)) ns"
  by (induction seen ms rule: first_named.induct) simp_all

lemma pushed_append: "pushed R (ms @ ns) l = pushed R ns (pushed R ms l)"
  by (simp add: pushed_def first_named_append)

lemma first_named_subset: "set (first_named seen ms) \<subseteq> set ms"
  by (induction seen ms rule: first_named.induct) auto

lemma first_named_distinct:
  "distinct (map mb_name (first_named seen ms)) \<and> mb_name ` set (first_named seen ms) \<inter> set seen = {}"
  by (induction seen ms rule: first_named.induct) auto

text \<open>The last item is no candidate that was not seen, so the check for a repeated port drops
  nothing that the names seen would not drop.\<close>

definition last_ok :: "string set \<Rightarrow> listing \<Rightarrow> bool" where
  "last_ok N l \<longleftrightarrow> fst l = [] \<or> ci_label (last (fst l)) \<in> set (snd l) \<or> ci_label (last (fst l)) \<notin> N"

lemma last_ok_push: "last_ok N l \<Longrightarrow> last_ok N (pushCompletion R m l)"
  by (auto simp: last_ok_def pushCompletion_def Let_def)

lemma last_ok_pushed: "last_ok N l \<Longrightarrow> last_ok N (pushed R ms l)"
proof (cases "first_named (snd l) ms" rule: rev_cases)
  case (snoc ys y)
  then show ?thesis by (simp add: last_ok_def pushed_def)
qed (simp add: pushed_def)

lemma add_member_pushed:
  assumes "last_ok N l" "member_ok sm"
    and N: "mb_name ` set (member_candidates R prev [sm]) \<subseteq> N"
  shows "add_member R prev sm l = pushed R (member_candidates R prev [sm]) l"
proof (cases "skipped_member R prev (own_member sm)")
  case True
  then show ?thesis by (simp add: add_member_def member_candidates_def List.map_filter_def)
next
  case False
  show ?thesis
  proof (cases "offered_member sm")
    case None
    then show ?thesis by (simp add: add_member_def member_candidates_def List.map_filter_def)
  next
    case (Some m)
    show ?thesis
    proof (cases "declaredAfterCursor R m")
      case True
      then show ?thesis using Some
        by (simp add: add_member_def member_candidates_def List.map_filter_def pushCompletion_def)
    next
      case late: False
      then have c: "member_candidates R prev [sm] = [m]"
        using False Some by (simp add: member_candidates_def List.map_filter_def)
      have "pushed R [m] l = l" if "repeats_last (fst l) (own_member sm)"
        using that assms(1,2) N Some c
        by (cases sm) (auto simp: repeats_last_def member_ok_def last_ok_def pushed_def)
      moreover have "pushed R [m] l = pushCompletion R m l" using pushed_Cons [OF late, of "[]" l] by simp
      ultimately show ?thesis using False Some c by (auto simp: add_member_def)
    qed
  qed
qed

lemma member_candidates_Cons:
  "member_candidates R prev (sm # sms) = member_candidates R prev [sm] @ member_candidates R prev sms"
  by (simp add: member_candidates_def List.map_filter_def)

lemma add_members_pushed:
  assumes "last_ok N l" "list_all member_ok sms" "mb_name ` set (member_candidates R prev sms) \<subseteq> N"
  shows "fold (add_member R prev) sms l = pushed R (member_candidates R prev sms) l"
  using assms
proof (induction sms arbitrary: l)
  case (Cons sm sms)
  have s: "add_member R prev sm l = pushed R (member_candidates R prev [sm]) l"
    using Cons.prems member_candidates_Cons [of R prev sm sms] by (intro add_member_pushed [where N = N]) auto
  show ?case
    using Cons.IH [of "add_member R prev sm l"] Cons.prems member_candidates_Cons [of R prev sm sms]
      last_ok_pushed [OF Cons.prems(1)]
    by (simp add: s pushed_append image_Un)
qed (simp add: member_candidates_def List.map_filter_def)

section \<open>Ranks\<close>

lemma rank_idem [simp]: "rank_unranked r (rank_unranked q i) = rank_unranked q i"
  by (simp add: rank_unranked_def)

lemma ranked_append:
  "n \<le> length xs \<Longrightarrow> rankUnrankedCompletions (xs @ ys) n r = rankUnrankedCompletions xs n r @ map (rank_unranked r) ys"
  by (simp add: rankUnrankedCompletions_def)

lemma ranked_all: "n = length xs \<Longrightarrow> rankUnrankedCompletions xs n r = xs"
  by (simp add: rankUnrankedCompletions_def)

lemma package_pushed:
  assumes "last_ok N l" "list_all member_ok (sc_members p)"
    "mb_name ` set (member_candidates R None (sc_members p)) \<subseteq> N"
  shows "addPackageCompletions R p l = (fst l @ map (rank_unranked rank_Scope)
      (map (item_of_member R) (first_named (snd l) (member_candidates R None (sc_members p)))),
    snd (pushed R (member_candidates R None (sc_members p)) l))"
  using add_members_pushed [OF assms]
  by (simp add: addPackageCompletions_def ranked_from_def ranked_all ranked_append pushed_def Let_def)

text \<open>Listings that differ only in items the last ranking makes equal.\<close>

definition same_listing :: "nat \<Rightarrow> listing \<Rightarrow> listing \<Rightarrow> bool" where
  "same_listing n l k \<longleftrightarrow> n \<le> length (fst l) \<and> n \<le> length (fst k) \<and> ranked_from n rank_Scope l = ranked_from n rank_Scope k"

lemma same_pushed: "same_listing n l k \<Longrightarrow> same_listing n (pushed R ms l) (pushed R ms k)"
  by (auto simp: same_listing_def ranked_from_def pushed_def ranked_append)

lemma same_labels: "same_listing n l k \<Longrightarrow> map ci_label (fst l) = map ci_label (fst k) \<and> snd l = snd k"
  unfolding same_listing_def ranked_from_def by (metis labels_rank(2) prod.inject)

lemma last_label: "map ci_label xs = map ci_label ys \<Longrightarrow> xs \<noteq> [] \<Longrightarrow> ci_label (last xs) = ci_label (last ys)"
  by (metis last_map map_is_Nil_conv)

lemma same_last_ok: "same_listing n l k \<Longrightarrow> last_ok N k \<Longrightarrow> last_ok N l"
  using same_labels [of n l k] last_label [of "fst l" "fst k"] by (auto simp: last_ok_def)

lemma same_trans: "same_listing n l k \<Longrightarrow> same_listing n k m \<Longrightarrow> same_listing n l m"
  by (simp add: same_listing_def)

lemma import_pushed:
  assumes "last_ok N l" "case i of None \<Rightarrow> True | Some (s, p) \<Rightarrow> list_all member_ok (sc_members p)"
    "mb_name ` set (import_candidates R i) \<subseteq> N" "n \<le> length (fst l)"
  shows "same_listing n (add_import R i l) (pushed R (import_candidates R i) l)"
proof (cases "\<exists>p. i = Some (False, p)")
  case True
  then obtain p where i: "i = Some (False, p)" by blast
  have "addPackageCompletions R p l = (fst l @ map (rank_unranked rank_Scope)
      (map (item_of_member R) (first_named (snd l) (member_candidates R None (sc_members p)))),
    snd (pushed R (member_candidates R None (sc_members p)) l))"
    using assms i by (intro package_pushed [where N = N]) (auto simp: import_candidates_def)
  then show ?thesis using assms(4) i
    by (simp add: add_import_def ranked_from_def ranked_append ranked_all same_listing_def pushed_def
        import_candidates_def Let_def comp_def)
next
  case False
  then show ?thesis using assms(4)
    by (cases i) (auto simp: add_import_def import_candidates_def same_listing_def)
qed

lemma imports_pushed:
  assumes "same_listing n l k" "last_ok N k"
    "list_all (\<lambda>i. case i of None \<Rightarrow> True | Some (s, p) \<Rightarrow> list_all member_ok (sc_members p)) is"
    "mb_name ` set (concat (map (import_candidates R) is)) \<subseteq> N"
  shows "same_listing n (fold (add_import R) is l) (pushed R (concat (map (import_candidates R) is)) k)"
  using assms
proof (induction "is" arbitrary: l k)
  case (Cons i "is")
  have "same_listing n (add_import R i l) (pushed R (import_candidates R i) l)"
    using Cons.prems same_last_ok [OF Cons.prems(1,2)]
    by (intro import_pushed [where N = N]) (auto simp: same_listing_def)
  then have "same_listing n (add_import R i l) (pushed R (import_candidates R i) k)"
    using same_pushed [OF Cons.prems(1)] same_trans by blast
  from Cons.IH [OF this last_ok_pushed [OF Cons.prems(2)]] Cons.prems show ?case
    by (simp add: pushed_append image_Un)
qed simp

lemma walk_pushed:
  assumes "same_listing n l k" "last_ok N k" "list_all scope_ok scs"
    "mb_name ` set (walk_candidates R prev scs) \<subseteq> N"
  shows "same_listing n (walk_scopes R (add_imports R) prev scs l) (pushed R (walk_candidates R prev scs) k)"
  using assms
proof (induction scs arbitrary: l k prev)
  case (Cons sc scs)
  let ?ms = "member_candidates R prev (sc_members sc)" and ?is = "concat (map (import_candidates R) (sc_imports sc))"
  have N: "mb_name ` set ?ms \<subseteq> N" "mb_name ` set ?is \<subseteq> N"
    using Cons.prems(4) by (auto simp: image_Un)
  have "fold (add_member R prev) (sc_members sc) l = pushed R ?ms l"
    using Cons.prems(3) N same_last_ok [OF Cons.prems(1,2)]
    by (intro add_members_pushed [where N = N]) (auto simp: scope_ok_def)
  then have "same_listing n (fold (add_member R prev) (sc_members sc) l) (pushed R ?ms k)"
    using same_pushed [OF Cons.prems(1)] by simp
  then have a: "same_listing n (add_imports R sc (fold (add_member R prev) (sc_members sc) l)) (pushed R ?is (pushed R ?ms k))"
    unfolding add_imports_def using Cons.prems(3) N last_ok_pushed [OF Cons.prems(2)]
    by (intro imports_pushed [where N = N]) (auto simp: scope_ok_def)
  show ?case
  proof (cases "ends_walk sc")
    case True
    then show ?thesis using a by (simp add: pushed_append Let_def)
  next
    case False
    from Cons.IH [OF a last_ok_pushed [OF last_ok_pushed [OF Cons.prems(2)]]] show ?thesis
      using Cons.prems(3,4) False by (simp add: pushed_append image_Un Let_def)
  qed
qed simp

section \<open>Properties\<close>

lemma list_exact:
  assumes "lr_kind R \<noteq> ModuleMemberKind" "lr_enum R = None" "list_all scope_ok chain"
    and "results = [] \<or> ci_label (last results) \<notin> mb_name ` set (walk_candidates R None chain)"
  shows "addCompletions R chain results = results @ map (\<lambda>m. (item_of_member R m)\<lparr>ci_sortText := Some rank_Scope\<rparr>)
    (first_named [] (walk_candidates R None chain))"
proof -
  let ?n = "length results"
  have e: "addExpectedEnumCompletions R l = l" for l
    using assms(2) by (auto simp: addExpectedEnumCompletions_def split: option.splits)
  have "same_listing ?n (walk_scopes R (add_imports R) None chain (results, []))
      (pushed R (walk_candidates R None chain) (results, []))"
    using assms(3,4)
    by (intro walk_pushed [where N = "mb_name ` set (walk_candidates R None chain)"])
      (auto simp: same_listing_def last_ok_def)
  then have w: "ranked_from ?n rank_Scope (walk_scopes R (add_imports R) None chain (results, []))
      = ranked_from ?n rank_Scope (pushed R (walk_candidates R None chain) (results, []))"
    by (simp add: same_listing_def)
  have "addCompletions R chain results
      = fst (ranked_from ?n rank_Scope (pushed R (walk_candidates R None chain) (results, [])))"
    using w by (cases chain) (simp_all add: addCompletions_def assms(1) e ranked_from_def ranked_all Let_def pushed_def
        del: walk_scopes.simps walk_candidates.simps add: walk_candidates.simps(1))
  then show ?thesis
    by (simp add: ranked_from_def pushed_def ranked_append ranked_all rank_unranked_def)
qed

lemma first_named_find:
  "n \<notin> set seen \<Longrightarrow> find (\<lambda>m. mb_name m = n) (first_named seen ms) = find (\<lambda>m. mb_name m = n) ms"
  by (induction seen ms rule: first_named.induct) auto


definition sample_member :: "nat \<Rightarrow> string \<Rightarrow> symbol_kind \<Rightarrow> member" where
  "sample_member i name k = \<lparr>mb_symbol = Symbol \<lparr>sym_id = i, sym_kind = k, sym_location = i,
       definitionKind = DefModule, isLocalParam = False, alias_isEnum = False\<rparr> None,
     mb_name = name, mb_is_type = False, mb_is_value = True, mb_loc_valid = True, mb_no_location = False,
     mb_location = \<lparr>lbuffer = 1, loffset = i\<rparr>, mb_path = name, mb_parent = None,
     mb_shape = DsOther None True (Some ''logic'') ''Variable'', mb_arguments = None, mb_return_type = [],
     mb_block = None, mb_parent_block = None, mb_typed_description = None, mb_lexical_path = []\<rparr>"

definition sample_request :: list_request where
  "sample_request = \<lparr>lr_kind = ExpressionKind, lr_original = Some 1, lr_uri = ''file:///a.sv'',
     lr_labelOnly = False, lr_defer = True, lr_analysis = True, lr_offset = 90, lr_operator = None, lr_enum = None\<rparr>"

definition sample_package :: scope where
  "sample_package = Scope 9 ScPackage [PlainMember (sample_member 10 ''y'' Parameter), PlainMember (sample_member 11 ''x'' Parameter)] []"

definition sample_chain :: "scope list" where
  "sample_chain = [Scope 1 ScOther [PlainMember (sample_member 2 ''x'' Variable)] [],
     Scope 3 ScInstanceBody [PlainMember (sample_member 4 ''x'' Net), PlainMember (sample_member 5 ''clk'' Port),
       PlainMember (sample_member 6 ''clk'' Variable)] [Some (False, sample_package)]]"


lemma sample_listed:
  "map (\<lambda>m. (mb_name m, sym_id (info (mb_symbol m)))) (first_named [] (walk_candidates sample_request None sample_chain))
    = [(''x'', 2), (''clk'', 5), (''y'', 10)]"
  by code_simp

text \<open>So the rank of imported members, which the caller asks for, is never given: the call for the
  package ranks them first.\<close>

lemma imported_rank_unused:
  "map (\<lambda>i. (ci_label i, ci_sortText i)) (addCompletions sample_request sample_chain [])
    = [(''x'', Some ''0''), (''clk'', Some ''0''), (''y'', Some ''0'')]"
  using list_exact [of sample_request sample_chain "[]"]
  by (simp add: sample_request_def sample_chain_def sample_package_def sample_member_def scope_ok_def
      member_ok_def comp_def rank_Scope_def walk_candidates.simps import_candidates_def member_candidates_def
      List.map_filter_def skipped_member_def declaredAfterCursor_def typesOnly_def ends_walk_def)

text \<open>A name of the walk that the item before the list has is left out, when it is the first
  variable: the check for a port's variable looks at the last item, whoever added it.\<close>

lemma library_name_hides_variable:
  "addCompletions sample_request [Scope 1 ScOther [PlainMember (sample_member 2 ''x'' Variable)] []] [plain_item ''x'' CK_Module]
    = [plain_item ''x'' CK_Module]"
  by (simp add: addCompletions_def sample_request_def ranked_from_def ranked_all addExpectedEnumCompletions_def
      add_member_def repeats_last_def sample_member_def plain_item_def skipped_member_def typesOnly_def
      add_imports_def Let_def ends_walk_def)

end
