(* ===== verification/InstanceItems.thy ===== *)
theory InstanceItems
  imports MemberLists IncludeSearch
begin

text \<open>
  Completions of instantiations (\<open>src/completions/InstanceCompletions.cpp\<close>): the names of the
  workspace index that fit a position, the instantiation a resolved module inserts, and the ports
  and parameters offered inside the list of an instance.

  The syntax of a module header and the ports and parameters of an instance are data. The index is
  the one of \<open>Indexer\<close>, whose kinds of declarations are numbers; the numbers of the four kinds the
  code tells apart are a parameter.
\<close>

section \<open>Names of the index\<close>

datatype declaration_kind = DeclModule | DeclInterface | DeclPackage | DeclClass | DeclOther

definition index_item :: "string \<Rightarrow> string \<Rightarrow> Symbols.completion_kind \<Rightarrow> string option \<Rightarrow> completion_item" where
  "index_item name detail k insertText = (plain_item name k)
     \<lparr>ci_detail := Some detail, ci_filterText := Some name, ci_insertText := insertText\<rparr>"

definition declaration_item ::
  "CompletionKinds.completion_kind \<Rightarrow> declaration_kind \<Rightarrow> string \<Rightarrow> completion_item option" where
  "declaration_item context d name = (case d of
     DeclModule \<Rightarrow> (if context \<noteq> ModuleMemberKind then None else Some (index_item name '' Module'' CK_Module None))
   | DeclInterface \<Rightarrow> Some (index_item name '' Interface'' CK_Interface
       (if context \<noteq> ModuleMemberKind then Some name else None))
   | DeclPackage \<Rightarrow> Some (index_item name '' Package'' CK_Module None)
   | DeclClass \<Rightarrow> (if context = ExpressionKind then None else Some (index_item name '' Class'' CK_Class None))
   | DeclOther \<Rightarrow> None)"

definition add_declaration ::
  "(kind_id \<Rightarrow> declaration_kind) \<Rightarrow> CompletionKinds.completion_kind \<Rightarrow> string \<Rightarrow> path \<times> kind_id \<Rightarrow> listing \<Rightarrow> listing" where
  "add_declaration decl context name entry l =
     (if name \<in> set (snd l) then l
      else (case declaration_item context (decl (snd entry)) name of
          None \<Rightarrow> fst l | Some item \<Rightarrow> fst l @ [item], snd l @ [name]))"

definition addLibraryCompletions ::
  "(kind_id \<Rightarrow> declaration_kind) \<Rightarrow> indexer \<Rightarrow> CompletionKinds.completion_kind \<Rightarrow> completion_item list \<Rightarrow> completion_item list" where
  "addLibraryCompletions decl ix context results =
     rankCompletions (fst (forEachSymbol (add_declaration decl context) ix (results, []))) (length results) rank_Library"

text \<open>The item of a name before \<open>#\<close>.\<close>

definition getInstanceCompletion :: "string \<Rightarrow> declaration_kind \<Rightarrow> string \<Rightarrow> completion_item" where
  "getInstanceCompletion name d kind_name = index_item name
     (case d of DeclModule \<Rightarrow> '' Module'' | DeclInterface \<Rightarrow> '' Interface'' | _ \<Rightarrow> kind_name) CK_Module None"

section \<open>Module headers\<close>

record param_declaration =
  pd_keyword_local :: "bool option"          \<comment> \<open>whether its keyword, if it has one, is localparam\<close>
  pd_declarators :: "(string \<times> string option) list"

record module_header =
  mh_name :: string
  mh_parameters :: "param_declaration list option"
  mh_ports :: "string list option"
  mh_block :: string

record collected_params =
  cp_names :: "string list"
  cp_defaults :: "string list"
  cp_maxLen :: nat

definition collect_declarator :: "string \<times> string option \<Rightarrow> collected_params \<Rightarrow> collected_params" where
  "collect_declarator d c = \<lparr>cp_names = cp_names c @ [fst d],
     cp_defaults = cp_defaults c @ [ltrim (case snd d of Some t \<Rightarrow> t | None \<Rightarrow> [])],
     cp_maxLen = max (cp_maxLen c) (length (fst d))\<rparr>"

fun collect_loop :: "bool \<Rightarrow> param_declaration list \<Rightarrow> collected_params \<Rightarrow> collected_params" where
  "collect_loop lastLocal [] c = c"
| "collect_loop lastLocal (p # ps) c =
     (let lastLocal = (case pd_keyword_local p of Some b \<Rightarrow> b | None \<Rightarrow> lastLocal)
      in if lastLocal then collect_loop lastLocal ps c
         else collect_loop lastLocal ps (fold collect_declarator (pd_declarators p) c))"

definition no_params :: collected_params where
  "no_params = \<lparr>cp_names = [], cp_defaults = [], cp_maxLen = 0\<rparr>"

definition collectParams :: "param_declaration list \<Rightarrow> collected_params" where
  "collectParams ps = collect_loop False ps no_params"

definition name_column :: "nat \<Rightarrow> string \<Rightarrow> string" where
  "name_column maxLen name = [tab_char] @ ''.'' @ name @ replicate (maxLen - length name) (CHR '' '') @ ''(''"

definition param_placeholder :: "string \<Rightarrow> string \<Rightarrow> string" where
  "param_placeholder name d = (if d = [] then name else name @ '' /* default '' @ d @ '' */'')"

fun append_columns :: "nat \<Rightarrow> string \<Rightarrow> (string \<times> string) list \<Rightarrow> snippet \<Rightarrow> snippet" where
  "append_columns maxLen end_text [] s = s"
| "append_columns maxLen end_text ((name, v) # xs) s =
     append_columns maxLen end_text xs
       (snippet_appendText
         (snippet_appendText (appendPlaceholder (snippet_appendText s (name_column maxLen name)) v None) '')'')
         (if xs \<noteq> [] then '','' @ [nl_char] else end_text))"

definition append_params :: "bool \<Rightarrow> collected_params \<Rightarrow> snippet \<Rightarrow> snippet" where
  "append_params excludeName c s =
     (if cp_names c = [] then s
      else let s = (if excludeName then s else snippet_appendText s '' #'');
               s = snippet_appendText s (''('' @ [nl_char]);
               s = append_columns (cp_maxLen c) ([nl_char] @ '' '')
                     (map (\<lambda>(n, d). (n, param_placeholder n d)) (zip (cp_names c) (cp_defaults c))) s
           in snippet_appendText s '')'')"

definition port_maxLen :: "string list \<Rightarrow> nat" where
  "port_maxLen names = fold (\<lambda>n m. max m (length n)) names 0"

definition append_ports :: "string list \<Rightarrow> snippet \<Rightarrow> snippet" where
  "append_ports names s =
     (if names = [] then s
      else append_columns (port_maxLen names) [nl_char] (map (\<lambda>n. (n, n)) names) (snippet_appendText s [nl_char]))"

definition instance_snippet :: "module_header \<Rightarrow> bool \<Rightarrow> string" where
  "instance_snippet header excludeName =
    (let c = (case mh_parameters header of Some ps \<Rightarrow> collectParams ps | None \<Rightarrow> no_params);
         s = (if excludeName then snippet_new [] else snippet_appendText (snippet_new []) (mh_name header));
         s = append_params excludeName c s;
         s = snippet_appendText s '' '';
         s = appendPlaceholder s (toCamelCase (mh_name header)) None;
         s = snippet_appendText s '' ('';
         s = append_ports (case mh_ports header of Some ns \<Rightarrow> ns | None \<Rightarrow> []) s
     in snip_value (snippet_appendText s '');''))"

definition resolveModuleInstance :: "module_header \<Rightarrow> completion_item \<Rightarrow> bool \<Rightarrow> completion_item" where
  "resolveModuleInstance header item0 excludeName =
    (let item = item0\<lparr>ci_documentation := Some (mh_block header)\<rparr>
     in if ci_insertText item \<noteq> None then item
        else item\<lparr>ci_insertText := Some (instance_snippet header excludeName),
                  ci_insertTextFormat := Some SnippetFormat\<rparr>)"

text \<open>The loop over the declarations of a tree: a module or interface of the name ends it.\<close>

fun resolve_tree :: "(bool \<times> module_header) list \<Rightarrow> string \<Rightarrow> bool \<Rightarrow> completion_item \<Rightarrow> completion_item" where
  "resolve_tree [] moduleName excludeName item = item"
| "resolve_tree ((instantiable, header) # ds) moduleName excludeName item =
     (if mh_name header \<noteq> moduleName then resolve_tree ds moduleName excludeName item
      else if instantiable then resolveModuleInstance header item excludeName
      else resolve_tree ds moduleName excludeName
             (item\<lparr>ci_documentation := Some (mh_block header), ci_insertText := Some (mh_name header),
                   ci_insertTextFormat := Some PlainTextFormat\<rparr>))"

end
