(* ===== verification/MemberQueries.thy ===== *)
theory MemberQueries
  imports MemberLists InstanceItems
begin

text \<open>
  The queries of \<open>src/completions/MemberCompletions.cpp\<close>: the general list of a position
  (\<open>LexicalCompletionQuery\<close>), the members after a dot (\<open>MemberAccessCompletionQuery\<close>) and after
  \<open>::\<close> (\<open>ScopedAccessCompletionQuery\<close>), and resolving a member's item. The lemmas show that the
  general list only adds to what it is given.

  Finding the symbol of a token, its scope and the symbol of a resolved item are slang's and so
  given as their results.
\<close>

section \<open>General completions\<close>

record lexical_site =
  lx_decl :: "kind_id \<Rightarrow> declaration_kind"
  lx_index :: indexer
  lx_request :: list_request
  lx_chain :: "scope list"                   \<comment> \<open>the scope at the cursor and its parents, or nothing\<close>

definition lexicalCompletions :: "lexical_site \<Rightarrow> completion_item list \<Rightarrow> completion_item list" where
  "lexicalCompletions X results =
    (let libraryFirst = length results;
         results = addLibraryCompletions (lx_decl X) (lx_index X) (lr_kind (lx_request X)) results;
         results = rankCompletions results libraryFirst rank_Library
     in if lx_chain X \<noteq> [] then addCompletions (lx_request X) (lx_chain X) results else results)"

text \<open>After \<open>::\<close> the list is the scope's own, as an expression.\<close>

definition scopedCompletions :: "bool \<Rightarrow> list_request \<Rightarrow> scope list option \<Rightarrow> completion_item list \<Rightarrow> completion_item list" where
  "scopedCompletions has_receiver R target results =
     (if \<not> lr_analysis R \<or> \<not> has_receiver then results
      else case target of
        None \<Rightarrow> results
      | Some chain \<Rightarrow> addCompletions (R\<lparr>lr_kind := ExpressionKind\<rparr>) chain results)"

section \<open>Members after a dot\<close>

text \<open>A field and the type text of its item; for a field of a struct type, the number of the type
  and its fields.\<close>

datatype field = StructField member string "(nat \<times> field list) option"

fun field_member :: "field \<Rightarrow> member" where
  "field_member (StructField m t s) = m"

fun field_text :: "field \<Rightarrow> string" where
  "field_text (StructField m t s) = t"

datatype access_member =
    AccessField field
  | AccessConstructor member
  | AccessOther member string

fun access_symbol :: "access_member \<Rightarrow> member" where
  "access_symbol (AccessField f) = field_member f"
| "access_symbol (AccessConstructor m) = m"
| "access_symbol (AccessOther m t) = m"

fun access_text :: "access_member \<Rightarrow> string" where
  "access_text (AccessField f) = field_text f"
| "access_text (AccessConstructor m) = []"
| "access_text (AccessOther m t) = t"

record access_target =
  at_symbol :: member
  at_modports :: "(string \<times> string) list option"   \<comment> \<open>of an interface definition, with their code blocks\<close>
  at_members :: "access_member list option"          \<comment> \<open>of the scope it names, if it has one\<close>
  at_struct :: "nat option"                          \<comment> \<open>the number of the type, when it is a struct\<close>
  at_uri :: string
  at_labelOnly :: bool
  at_defer :: bool

definition modport_item :: "string \<times> string \<Rightarrow> completion_item" where
  "modport_item m = (plain_item (fst m) CK_Field)\<lparr>ci_documentation := Some (snd m)\<rparr>"

definition access_item :: "access_target \<Rightarrow> member \<Rightarrow> member \<Rightarrow> string \<Rightarrow> string \<Rightarrow> completion_item" where
  "access_item A parent m t label =
     projr (getHierarchicalCompletion parent m t (at_uri A) (at_labelOnly A) (at_defer A) label)"

text \<open>The members in order; a member with the name of the one listed before it is the same port
  again.\<close>

fun access_members :: "access_target \<Rightarrow> string \<Rightarrow> access_member list \<Rightarrow> completion_item list" where
  "access_members A previousLabel [] = []"
| "access_members A previousLabel (a # as) =
     (let m = access_symbol a in
      if mb_name m = [] \<or> mb_name m = previousLabel then access_members A previousLabel as
      else case a of
        AccessConstructor _ \<Rightarrow> access_members A previousLabel as
      | _ \<Rightarrow> access_item A (at_symbol A) m (access_text a) [] # access_members A (mb_name m) as)"

fun nested_fields :: "access_target \<Rightarrow> nat list \<Rightarrow> string \<Rightarrow> field \<Rightarrow> completion_item list" where
  "nested_fields A activeTypes pre (StructField m t None) = []"
| "nested_fields A activeTypes pre (StructField m t (Some (ty, fs))) =
     (if ty \<in> set activeTypes then []
      else concat (map (\<lambda>f. if mb_name (field_member f) = [] then []
        else let label = pre @ ''.'' @ mb_name (field_member f)
             in access_item A m (field_member f) (field_text f) label
                # nested_fields A (activeTypes @ [ty]) label f) fs))"

definition member_nested :: "access_target \<Rightarrow> nat \<Rightarrow> access_member \<Rightarrow> completion_item list" where
  "member_nested A ty a = (case a of
     AccessField f \<Rightarrow> (if mb_name (field_member f) = [] then []
                      else nested_fields A [ty] (mb_name (field_member f)) f)
   | _ \<Rightarrow> [])"

definition accessCompletions :: "access_target \<Rightarrow> completion_item list \<Rightarrow> completion_item list" where
  "accessCompletions A results =
    (case at_modports A of
       Some ms \<Rightarrow> results @ map modport_item ms
     | None \<Rightarrow> (case at_members A of
         None \<Rightarrow> results
       | Some as \<Rightarrow> (let results = results @ access_members A [] as in
           case at_struct A of
             None \<Rightarrow> results
           | Some ty \<Rightarrow> results @ concat (map (member_nested A ty) as))))"

section \<open>Resolving a member\<close>

text \<open>What the server finds for the data of an item, in the order it looks: the document, an
  analysis with a compilation, the symbol. \<open>rv_cancelled\<close> is whether the request is cancelled at
  one of the two checks.\<close>

record resolve_view =
  rv_document :: bool
  rv_compilation :: bool
  rv_sameBuffer :: bool
  rv_found :: "member option"                \<comment> \<open>by the search from the item's location\<close>
  rv_lookup :: "member option"               \<comment> \<open>by the item's path; no symbol when that throws\<close>
  rv_cancelled :: "string \<Rightarrow> bool"
  rv_resolveEdits :: bool

definition check_cancelled :: "resolve_view \<Rightarrow> string \<Rightarrow> unit result" where
  "check_cancelled V what = (if rv_cancelled V what then Inl (RequestCancelled what) else Inr ())"

definition find_resolved :: "resolve_view \<Rightarrow> completion_data \<Rightarrow> member option result" where
  "find_resolved V d =
     (case (if cd_bufferId d \<noteq> 0 \<and> rv_sameBuffer V then rv_found V else None) of
        Some m \<Rightarrow> Inr (Some m)
      | None \<Rightarrow> map_sum id (\<lambda>_. rv_lookup V) (check_cancelled V ''before completion symbol lookup''))"

definition resolve_member_item :: "resolve_view \<Rightarrow> completion_item \<Rightarrow> completion_item result" where
  "resolve_member_item V item0 =
    (case ci_data item0 of
       None \<Rightarrow> Inr item0
     | Some data \<Rightarrow>
        (let item = item0\<lparr>ci_data := None\<rparr> in
         case data of
           DataSymbol d \<Rightarrow>
             (if \<not> rv_document V \<or> \<not> rv_compilation V then Inr item
              else case find_resolved V d of
                Inl e \<Rightarrow> Inl e
              | Inr None \<Rightarrow> Inr item
              | Inr (Some m) \<Rightarrow> map_sum id (\<lambda>_.
                  let item = resolve_member m (rv_resolveEdits V) item
                  in if cd_labelOnly d then item else updateCompletionEditText item)
                  (check_cancelled V ''before formatting completion item''))
         | _ \<Rightarrow> Inr item))"

section \<open>The general list adds to what it is given\<close>

definition keeps :: "nat \<Rightarrow> listing \<Rightarrow> listing \<Rightarrow> bool" where
  "keeps n l k \<longleftrightarrow> n \<le> length (fst l) \<and> n \<le> length (fst k) \<and> take n (fst k) = take n (fst l)"

lemma keeps_prefix_refl: "n \<le> length (fst l) \<Longrightarrow> keeps n l l"
  by (simp add: keeps_def)

lemma keeps_prefix_trans: "keeps n l k \<Longrightarrow> keeps n k m \<Longrightarrow> keeps n l m"
  by (simp add: keeps_def)

lemma keeps_fold:
  assumes "\<And>x k. x \<in> set xs \<Longrightarrow> n \<le> length (fst k) \<Longrightarrow> keeps n k (f x k)" and "n \<le> length (fst l)"
  shows "keeps n l (fold f xs l)"
  using assms
proof (induction xs arbitrary: l)
  case (Cons x xs)
  have "keeps n l (f x l)" using Cons.prems by simp
  moreover have "keeps n (f x l) (fold f xs (f x l))"
    using Cons.prems calculation by (intro Cons.IH) (auto simp: keeps_def)
  ultimately show ?case using keeps_prefix_trans by simp
qed (simp add: keeps_prefix_refl)

lemma keeps_push: "n \<le> length (fst l) \<Longrightarrow> keeps n l (pushCompletion R m l)"
  by (simp add: keeps_def pushCompletion_def Let_def)

lemma keeps_add_member: "n \<le> length (fst l) \<Longrightarrow> keeps n l (add_member R prev sm l)"
  by (simp add: add_member_def keeps_prefix_refl keeps_push split: option.splits)

lemma keeps_ranked: "n \<le> m \<Longrightarrow> m \<le> length (fst l) \<Longrightarrow> keeps n l (ranked_from m r l)"
  by (simp add: keeps_def ranked_from_def rankUnrankedCompletions_def)

lemma keeps_walk:
  assumes "\<And>sc k. n \<le> length (fst k) \<Longrightarrow> keeps n k (imp sc k)" and "n \<le> length (fst l)"
  shows "keeps n l (walk_scopes R imp prev scs l)"
  using assms(2)
proof (induction scs arbitrary: l prev)
  case (Cons sc scs)
  let ?a = "fold (add_member R prev) (sc_members sc) l"
  have a: "keeps n l ?a" using Cons.prems by (intro keeps_fold keeps_add_member)
  then have b: "keeps n ?a (imp sc ?a)" using assms(1) by (simp add: keeps_def)
  have ab: "keeps n l (imp sc ?a)" using a b keeps_prefix_trans by blast
  show ?case
  proof (cases "ends_walk sc")
    case False
    have "keeps n (imp sc ?a) (walk_scopes R imp (Some (sc_id sc)) scs (imp sc ?a))"
      using ab by (intro Cons.IH) (simp add: keeps_def)
    then show ?thesis using ab keeps_prefix_trans False by (simp add: Let_def)
  qed (use ab in \<open>simp add: Let_def\<close>)
qed (simp add: keeps_prefix_refl)

lemma keeps_package:
  assumes "n \<le> length (fst l)"
  shows "keeps n l (addPackageCompletions R p l)"
proof -
  let ?m = "length (fst l)"
  let ?a = "ranked_from ?m rank_Keyword l" and ?w = "\<lambda>l. walk_scopes R (\<lambda>sc l. l) None [p] l"
  have "keeps ?m l ?a" by (simp add: keeps_ranked)
  moreover have "keeps ?m ?a (?w ?a)" by (rule keeps_walk) (simp_all add: keeps_prefix_refl ranked_from_def)
  ultimately have b: "keeps ?m l (?w ?a)" using keeps_prefix_trans by blast
  have c: "keeps ?m (?w ?a) (ranked_from ?m rank_Scope (?w ?a))"
    by (rule keeps_ranked) (use b in \<open>simp_all add: keeps_def\<close>)
  have "keeps ?m l (ranked_from ?m rank_Scope (?w ?a))" using b c keeps_prefix_trans by blast
  then have k: "keeps ?m l (addPackageCompletions R p l)" by (simp add: addPackageCompletions_def Let_def)
  then have "take n (take ?m (fst (addPackageCompletions R p l))) = take n (take ?m (fst l))" by (simp add: keeps_def)
  then show ?thesis using k assms by (simp add: keeps_def min_def)
qed

lemma keeps_import: "n \<le> length (fst l) \<Longrightarrow> keeps n l (add_import R i l)"
proof (cases "\<exists>p. i = Some (False, p)")
  case True
  assume n: "n \<le> length (fst l)"
  then obtain p where "i = Some (False, p)" using True by blast
  moreover have "keeps n l (addPackageCompletions R p l)" "length (fst l) \<le> length (fst (addPackageCompletions R p l))"
    using keeps_package [OF n] keeps_package [of "length (fst l)" l R p] by (simp_all add: keeps_def)
  moreover from this have "keeps n (addPackageCompletions R p l)
      (ranked_from (length (fst l)) rank_Imported (addPackageCompletions R p l))"
    using n by (intro keeps_ranked) auto
  ultimately show ?thesis using keeps_prefix_trans by (auto simp: add_import_def Let_def)
qed (auto simp: add_import_def keeps_prefix_refl split: option.splits)

lemma keeps_imports: "n \<le> length (fst l) \<Longrightarrow> keeps n l (add_imports R sc l)"
  unfolding add_imports_def by (rule keeps_fold) (simp_all add: keeps_import)

lemma keeps_enum: "n \<le> length (fst l) \<Longrightarrow> keeps n l (addExpectedEnumCompletions R l)"
proof -
  have e: "n \<le> length (fst (fst st)) \<Longrightarrow> keeps n (fst st) (fst (fold (add_enum_value R) vs st))" for vs st
  proof (induction vs arbitrary: st)
    case (Cons v vs)
    have "keeps n (fst st) (fst (add_enum_value R v st))"
      using Cons.prems by (cases st) (simp add: add_enum_value_def keeps_def Let_def)
    moreover have "keeps n (fst (add_enum_value R v st)) (fst (fold (add_enum_value R) vs (add_enum_value R v st)))"
      using calculation by (intro Cons.IH) (simp add: keeps_def)
    ultimately show ?case using keeps_prefix_trans by simp
  qed (simp add: keeps_prefix_refl)
  assume "n \<le> length (fst l)"
  then show ?thesis using e [of "(l, map ci_label (fst l))"]
    by (auto simp: addExpectedEnumCompletions_def keeps_prefix_refl split: option.splits)
qed

lemma addCompletions_adds: "\<exists>more. addCompletions R chain rs = rs @ more"
proof -
  let ?n = "length rs"
  let ?r = "if lr_kind R = ModuleMemberKind then addKeywordCompletions rs else rs"
  have r: "?n \<le> length ?r" "take ?n ?r = rs" by (simp_all add: addKeywordCompletions_def rankCompletions_def)
  let ?a = "ranked_from ?n rank_Keyword (?r, [])"
  have a: "keeps ?n (?r, []) ?a" by (rule keeps_ranked) (use r in simp_all)
  let ?b = "addExpectedEnumCompletions R ?a"
  have b: "keeps ?n (?r, []) ?b"
    using a keeps_enum [of ?n ?a R] keeps_prefix_trans by (simp add: keeps_def)
  let ?c = "walk_scopes R (add_imports R) None chain ?b"
  have w: "keeps ?n ?b ?c"
    by (rule keeps_walk [OF keeps_imports]) (use b in \<open>simp_all add: keeps_def\<close>)
  then have c: "keeps ?n (?r, []) ?c" using b keeps_prefix_trans by blast
  have "keeps ?n ?c (ranked_from ?n rank_Scope ?c)"
    by (rule keeps_ranked) (use c in \<open>simp_all add: keeps_def\<close>)
  then have d: "keeps ?n (?r, []) (ranked_from ?n rank_Scope ?c)" using c keeps_prefix_trans by blast
  have "take ?n (addCompletions R chain rs) = rs"
    using b d r by (simp add: addCompletions_def keeps_def Let_def split: if_splits)
  then show ?thesis by (metis append_take_drop_id)
qed

lemma keeps_declaration: "n \<le> length (fst l) \<Longrightarrow> keeps n l (add_declaration decl k name e l)"
  by (auto simp: add_declaration_def keeps_def split: option.splits)

lemma addLibraryCompletions_adds: "\<exists>more. addLibraryCompletions decl ix k rs = rs @ more"
proof -
  let ?n = "length rs" and ?l = "forEachSymbol (add_declaration decl k) ix (rs, [])"
  have "keeps ?n (rs, []) ?l"
    unfolding forEachSymbol_def
    by (intro keeps_fold) (auto split: prod.splits intro!: keeps_fold keeps_declaration)
  then have "take ?n (addLibraryCompletions decl ix k rs) = rs"
    by (simp add: addLibraryCompletions_def rankCompletions_def keeps_def)
  then show ?thesis by (metis append_take_drop_id)
qed

lemma lexical_adds: "\<exists>more. lexicalCompletions X rs = rs @ more"
proof -
  obtain lib where l: "addLibraryCompletions (lx_decl X) (lx_index X) (lr_kind (lx_request X)) rs = rs @ lib"
    using addLibraryCompletions_adds by blast
  obtain lib2 where l2: "rankCompletions (rs @ lib) (length rs) rank_Library = rs @ lib2"
    by (auto simp: rankCompletions_def)
  obtain more where "addCompletions (lx_request X) (lx_chain X) (rs @ lib2) = (rs @ lib2) @ more"
    using addCompletions_adds by blast
  then show ?thesis using l l2 by (simp add: lexicalCompletions_def Let_def)
qed

end
