(* ===== verification/InstanceConnections.thy ===== *)
theory InstanceConnections
  imports MemberQueries
begin

text \<open>
  The ports and parameters offered inside the connection list or the parameter list of an instance
  (\<open>InstancePortCompletionQueryImpl\<close> of \<open>src/completions/InstanceCompletions.cpp\<close>).

  An instance is its ports and parameters in order and the connections its syntax has. The type
  text of a port is the type printer's; whether the scope at the cursor has a symbol of a name
  (\<open>Scope::find\<close>) is a parameter of the query.
\<close>

section \<open>The instance\<close>

datatype port_view =
    PortView member direction string
  | InterfacePortView member "string option"
  | MultiPortView member "port_view list"
  | OtherPortView member

fun port_member :: "port_view \<Rightarrow> member" where
  "port_member (PortView m d t) = m"
| "port_member (InterfacePortView m d) = m"
| "port_member (MultiPortView m ps) = m"
| "port_member (OtherPortView m) = m"

abbreviation port_name :: "port_view \<Rightarrow> string" where
  "port_name p \<equiv> mb_name (port_member p)"

record param_view =
  pv_member :: member
  pv_local :: bool
  pv_value_type :: "string option"           \<comment> \<open>of a value parameter\<close>

text \<open>A connection or an assignment of the syntax: its name when it is a named one. The lists are
  \<open>None\<close> when the instance has no such syntax.\<close>

record instance_site =
  is_ports :: "port_view option list"
  is_params :: "param_view option list"
  is_connections :: "string option list option"
  is_assignments :: "string option list option"
  is_parameters :: bool
  is_current :: "string option"
  is_leadingDot :: bool
  is_afterSeparator :: bool
  is_fallback :: bool
  is_scope :: "nat option"
  is_find :: "string \<Rightarrow> bool"
  is_uri :: string

definition listIsEmpty :: "instance_site \<Rightarrow> bool" where
  "listIsEmpty S =
     (case (if is_parameters S then is_assignments S else is_connections S) of
        None \<Rightarrow> True | Some cs \<Rightarrow> cs = [])"

definition generalCompletionsFit :: "instance_site \<Rightarrow> bool" where
  "generalCompletionsFit S =
     (if \<not> is_fallback S then False
      else if \<not> is_leadingDot S then \<not> is_parameters S
      else listIsEmpty S \<or> is_afterSeparator S)"

definition currentName :: "instance_site \<Rightarrow> string" where
  "currentName S = (case is_current S of Some n \<Rightarrow> n | None \<Rightarrow> [])"

text \<open>The names the syntax connects, other than the one being typed.\<close>

definition connected_names :: "string \<Rightarrow> string option list option \<Rightarrow> string list" where
  "connected_names typing cs = (case cs of
     None \<Rightarrow> [] | Some l \<Rightarrow> filter (\<lambda>n. n \<noteq> typing) (List.map_filter (\<lambda>c. c) l))"

section \<open>Items\<close>

definition getConnectionSnippet :: "string \<Rightarrow> bool \<Rightarrow> string" where
  "getConnectionSnippet name hasExpression = snip_value (snippet_appendText (appendPlaceholder
     (snippet_appendText (snippet_new []) (''.'' @ name @ ''(''))
     (if hasExpression then name else []) None) ''),'')"

definition getConnectionItem :: "instance_site \<Rightarrow> member \<Rightarrow> string \<Rightarrow> completion_item" where
  "getConnectionItem S m detail =
    (let hasExpression = (case is_scope S of None \<Rightarrow> False | Some _ \<Rightarrow> is_find S (mb_name m));
         snippet = getConnectionSnippet (mb_name m) hasExpression;
         snippet = (if \<not> is_leadingDot S then tl snippet else snippet);
         snippet = (if is_leadingDot S \<and> \<not> is_afterSeparator S then '', '' @ snippet else snippet);
         item = projr (getSymbolCompletion m (is_scope S) (is_uri S))
     in item\<lparr>ci_detail := Some detail, ci_description := None, ci_filterText := Some (mb_name m),
             ci_insertText := Some snippet, ci_insertTextFormat := Some SnippetFormat,
             ci_sortText := Some rank_Scope\<rparr>)"

definition addPort :: "instance_site \<Rightarrow> port_view \<Rightarrow> completion_item list \<Rightarrow> completion_item list" where
  "addPort S p results = (case p of
     InterfacePortView m def \<Rightarrow> results @ [getConnectionItem S m
       ('' interface'' @ (case def of Some d \<Rightarrow> '' '' @ d | None \<Rightarrow> []))]
   | PortView m dir typ \<Rightarrow> results @ [getConnectionItem S m ('' '' @ portString dir @ '' '' @ typ)]
   | _ \<Rightarrow> results)"

definition add_port_symbol ::
  "instance_site \<Rightarrow> string list \<Rightarrow> port_view option \<Rightarrow> completion_item list \<Rightarrow> completion_item list" where
  "add_port_symbol S connected p results = (case p of
     None \<Rightarrow> results
   | Some q \<Rightarrow>
      (if port_name q = [] \<or> port_name q \<in> set connected then results
       else case q of
         MultiPortView m ps \<Rightarrow> fold (\<lambda>r results.
           if port_name r \<in> set connected then results else addPort S r results) ps results
       | _ \<Rightarrow> addPort S q results))"

definition addPorts :: "instance_site \<Rightarrow> completion_item list \<Rightarrow> completion_item list" where
  "addPorts S results =
     fold (add_port_symbol S (connected_names (currentName S) (is_connections S))) (is_ports S) results"

definition add_parameter ::
  "instance_site \<Rightarrow> string list \<Rightarrow> param_view option \<Rightarrow> completion_item list \<Rightarrow> completion_item list" where
  "add_parameter S assigned p results = (case p of
     None \<Rightarrow> results
   | Some q \<Rightarrow>
      (if mb_name (pv_member q) = [] \<or> pv_local q \<or> mb_name (pv_member q) \<in> set assigned then results
       else results @ [getConnectionItem S (pv_member q)
         (case pv_value_type q of Some t \<Rightarrow> '' '' @ t | None \<Rightarrow> '' type'')]))"

definition addParameters :: "instance_site \<Rightarrow> completion_item list \<Rightarrow> completion_item list" where
  "addParameters S results =
     fold (add_parameter S (connected_names (currentName S) (is_assignments S))) (is_params S) results"

section \<open>The list\<close>

text \<open>\<open>remove_if\<close> over the items of the fallback, with the labels seen so far.\<close>

fun new_labels :: "string set \<Rightarrow> completion_item list \<Rightarrow> completion_item list" where
  "new_labels seen [] = []"
| "new_labels seen (i # is) =
     (if ci_label i \<in> seen then new_labels seen is else i # new_labels (insert (ci_label i) seen) is)"

definition instancePortCompletions ::
  "instance_site \<Rightarrow> (completion_item list \<Rightarrow> completion_item list) \<Rightarrow> completion_item list \<Rightarrow> completion_item list" where
  "instancePortCompletions S fallback results0 =
    (let results = rankCompletions (if is_parameters S then addParameters S results0 else addPorts S results0)
           (length results0) rank_Scope
     in if generalCompletionsFit S
        then (let fallbackFirst = length results;
                  all = fallback results
              in take fallbackFirst all @ new_labels (set (map ci_label (take fallbackFirst all))) (drop fallbackFirst all))
        else results)"

section \<open>What is offered\<close>

text \<open>The ports that take a connection, with those of a multi-port in its place.\<close>

fun single_ports :: "port_view \<Rightarrow> member list" where
  "single_ports (PortView m d t) = [m]"
| "single_ports (InterfacePortView m d) = [m]"
| "single_ports (MultiPortView m ps) = []"
| "single_ports (OtherPortView m) = []"

definition open_ports :: "string list \<Rightarrow> port_view option list \<Rightarrow> member list" where
  "open_ports connected ps = concat (map (\<lambda>p. case p of
     None \<Rightarrow> []
   | Some q \<Rightarrow> (if port_name q = [] \<or> port_name q \<in> set connected then []
       else case q of
         MultiPortView m qs \<Rightarrow> filter (\<lambda>m. mb_name m \<notin> set connected) (concat (map single_ports qs))
       | _ \<Rightarrow> single_ports q)) ps)"

lemma connection_label [simp]: "ci_label (getConnectionItem S m d) = mb_name m"
  by (simp add: getConnectionItem_def getSymbolCompletion_def Let_def)

lemma addPort_labels: "map ci_label (addPort S p rs) = map ci_label rs @ map mb_name (single_ports p)"
  by (cases p) (simp_all add: addPort_def)

lemma fold_multi_labels:
  "map ci_label (fold (\<lambda>r results. if port_name r \<in> set c then results else addPort S r results) ps rs)
    = map ci_label rs @ map mb_name (filter (\<lambda>m. mb_name m \<notin> set c) (concat (map single_ports ps)))"
proof (induction ps arbitrary: rs)
  case (Cons p ps)
  show ?case by (cases p) (simp_all add: Cons addPort_labels)
qed simp

lemma port_symbol_labels:
  "map ci_label (add_port_symbol S c p rs) = map ci_label rs @ map mb_name (open_ports c [p])"
  by (auto simp: add_port_symbol_def open_ports_def addPort_labels fold_multi_labels split: option.splits port_view.splits)

lemma open_ports_Cons: "open_ports c (p # ps) = open_ports c [p] @ open_ports c ps"
  by (simp add: open_ports_def)

lemma fold_ports_labels:
  "map ci_label (fold (add_port_symbol S c) ps rs) = map ci_label rs @ map mb_name (open_ports c ps)"
proof (induction ps arbitrary: rs)
  case (Cons p ps)
  show ?case by (subst open_ports_Cons) (simp add: Cons port_symbol_labels)
qed (simp add: open_ports_def)

lemma addPorts_labels:
  "map ci_label (addPorts S rs)
    = map ci_label rs @ map mb_name (open_ports (connected_names (currentName S) (is_connections S)) (is_ports S))"
  unfolding addPorts_def by (rule fold_ports_labels)

definition open_params :: "string list \<Rightarrow> param_view option list \<Rightarrow> member list" where
  "open_params assigned ps = concat (map (\<lambda>p. case p of
     None \<Rightarrow> []
   | Some q \<Rightarrow> (if mb_name (pv_member q) = [] \<or> pv_local q \<or> mb_name (pv_member q) \<in> set assigned then []
       else [pv_member q])) ps)"

lemma fold_params_labels:
  "map ci_label (fold (add_parameter S c) ps rs) = map ci_label rs @ map mb_name (open_params c ps)"
proof (induction ps arbitrary: rs)
  case (Cons p ps)
  then show ?case by (cases p) (simp_all add: add_parameter_def open_params_def)
qed (simp add: open_params_def)

lemma addParameters_labels:
  "map ci_label (addParameters S rs)
    = map ci_label rs @ map mb_name (open_params (connected_names (currentName S) (is_assignments S)) (is_params S))"
  unfolding addParameters_def by (rule fold_params_labels)

lemma new_labels_distinct:
  "distinct (map ci_label (new_labels seen is)) \<and> ci_label ` set (new_labels seen is) \<inter> seen = {}"
  by (induction seen "is" rule: new_labels.induct) auto

lemma new_labels_all: "i \<in> set is \<Longrightarrow> ci_label i \<in> seen \<or> ci_label i \<in> ci_label ` set (new_labels seen is)"
  by (induction seen "is" rule: new_labels.induct) auto

section \<open>Properties\<close>

definition offered_names :: "instance_site \<Rightarrow> string list" where
  "offered_names S = map mb_name
     (if is_parameters S then open_params (connected_names (currentName S) (is_assignments S)) (is_params S)
      else open_ports (connected_names (currentName S) (is_connections S)) (is_ports S))"

lemma own_labels:
  "map ci_label (rankCompletions (if is_parameters S then addParameters S [] else addPorts S []) 0 rank_Scope) = offered_names S"
  by (simp add: offered_names_def addParameters_labels addPorts_labels)

text \<open>Inside the list of an instance the items offered first are exactly the ports (in a parameter
  list, the parameters) that the list does not connect yet, in their order, the one being typed
  included. The general completions follow only where they fit, and none of them repeats a label: when
  the names of the instance are distinct, so are all labels of the list.\<close>

theorem open_connections_offered:
  assumes "distinct (offered_names S)"
  shows "\<exists>general. map ci_label (instancePortCompletions S (lexicalCompletions X) []) = offered_names S @ general
    \<and> (general \<noteq> [] \<longrightarrow> generalCompletionsFit S)
    \<and> distinct (map ci_label (instancePortCompletions S (lexicalCompletions X) []))"
proof -
  define own where "own = rankCompletions (if is_parameters S then addParameters S [] else addPorts S []) 0 rank_Scope"
  obtain more where m: "lexicalCompletions X own = own @ more" using lexical_adds by blast
  have l: "map ci_label own = offered_names S" unfolding own_def by (rule own_labels)
  have all: "instancePortCompletions S (lexicalCompletions X) []
      = (if generalCompletionsFit S then own @ new_labels (set (map ci_label own)) more else own)"
    using m by (simp add: instancePortCompletions_def Let_def flip: own_def)
  show ?thesis
    unfolding all using l assms new_labels_distinct [of "set (map ci_label own)" more]
    by (auto simp del: list.set_map)
qed

text \<open>The witness: an instance whose \<open>clk\<close> is connected while \<open>rst\<close> is being typed.\<close>

definition sample_port :: "string \<Rightarrow> port_view" where
  "sample_port name = PortView \<lparr>mb_symbol = Symbol \<lparr>sym_id = 0, sym_kind = Port, sym_location = 0,
       definitionKind = DefModule, isLocalParam = False, alias_isEnum = False\<rparr> None,
     mb_name = name, mb_is_type = False, mb_is_value = False, mb_loc_valid = True, mb_no_location = False,
     mb_location = \<lparr>lbuffer = 1, loffset = 0\<rparr>, mb_path = name, mb_parent = None,
     mb_shape = DsPort DirIn ''logic'', mb_arguments = None, mb_return_type = [],
     mb_block = None, mb_parent_block = None, mb_typed_description = None, mb_lexical_path = []\<rparr> DirIn ''logic''"

definition sample_site :: instance_site where
  "sample_site = \<lparr>is_ports = map (Some \<circ> sample_port) [''clk'', ''rst'', ''q''], is_params = [],
     is_connections = Some [Some ''clk'', Some ''rst''], is_assignments = None, is_parameters = False,
     is_current = Some ''rst'', is_leadingDot = False, is_afterSeparator = False, is_fallback = True,
     is_scope = None, is_find = (\<lambda>_. False), is_uri = ''file:///a.sv''\<rparr>"

lemma sample_offered: "offered_names sample_site = [''rst'', ''q'']"
  by (simp add: offered_names_def sample_site_def connected_names_def currentName_def open_ports_def
      sample_port_def List.map_filter_def)

definition empty_lexical :: lexical_site where
  "empty_lexical = \<lparr>lx_decl = (\<lambda>_. DeclOther), lx_index = empty_indexer,
     lx_request = \<lparr>lr_kind = ExpressionKind, lr_original = None, lr_uri = [], lr_labelOnly = False,
       lr_defer = True, lr_analysis = False, lr_offset = 0, lr_operator = None, lr_enum = None\<rparr>, lx_chain = []\<rparr>"

theorem open_connections_offered_witness:
  "\<exists>general. map ci_label (instancePortCompletions sample_site (lexicalCompletions empty_lexical) [])
      = offered_names sample_site @ general
    \<and> (general \<noteq> [] \<longrightarrow> generalCompletionsFit sample_site)
    \<and> distinct (map ci_label (instancePortCompletions sample_site (lexicalCompletions empty_lexical) []))"
  by (rule open_connections_offered) (simp add: sample_offered)

section \<open>What is inserted\<close>

lemma connection_snippet_shown:
  "map_option shown (snip_read (getConnectionSnippet name e)) = Some (''.'' @ name @ ''('' @ (if e then name else []) @ ''),'')"
  using built_reads [OF built_text [OF built_placeholder [OF built_start [of "''.'' @ name @ ''(''"]], of "''),''"
        "if e then name else []"]]
  by (simp add: getConnectionSnippet_def isdigit_def)

text \<open>The columns of parameters and ports.\<close>

fun columns_text :: "nat \<Rightarrow> string \<Rightarrow> (string \<times> string) list \<Rightarrow> string" where
  "columns_text maxLen end_text [] = []"
| "columns_text maxLen end_text ((name, v) # xs) = name_column maxLen name @ v @ '')''
     @ (if xs \<noteq> [] then '','' @ [nl_char] else end_text) @ columns_text maxLen end_text xs"

lemma append_columns_built:
  assumes "built s t" "\<not> isdigit (hd end_text)"
  shows "built (append_columns m end_text xs s) (t @ columns_text m end_text xs)"
  using assms(1)
proof (induction xs arbitrary: s t)
  case (Cons x xs)
  obtain name v where x: "x = (name, v)" by (cases x)
  have "built (snippet_appendText s (name_column m name)) (t @ name_column m name)"
    by (rule built_text [OF Cons.prems]) (simp add: name_column_def isdigit_def)
  from built_text [OF built_placeholder [OF this], of "'')''" v]
  have "built (snippet_appendText (appendPlaceholder (snippet_appendText s (name_column m name)) v None) '')'')
      (t @ name_column m name @ v @ '')'')" by (simp add: isdigit_def)
  from built_text [OF this, of "if xs \<noteq> [] then '','' @ [nl_char] else end_text"]
  have "built (snippet_appendText (snippet_appendText (appendPlaceholder (snippet_appendText s (name_column m name)) v None) '')'')
        (if xs \<noteq> [] then '','' @ [nl_char] else end_text))
      (t @ name_column m name @ v @ '')'' @ (if xs \<noteq> [] then '','' @ [nl_char] else end_text))"
    using assms(2) by (cases "xs = []") (simp_all add: isdigit_def)
  from Cons.IH [OF this] show ?case by (simp add: x)
qed simp

definition instance_text :: "module_header \<Rightarrow> bool \<Rightarrow> string" where
  "instance_text header excludeName =
    (let c = (case mh_parameters header of Some ps \<Rightarrow> collectParams ps | None \<Rightarrow> no_params);
         ports = (case mh_ports header of Some ns \<Rightarrow> ns | None \<Rightarrow> [])
     in (if excludeName then [] else mh_name header)
        @ (if cp_names c = [] then [] else (if excludeName then [] else '' #'') @ ''('' @ [nl_char]
            @ columns_text (cp_maxLen c) ([nl_char] @ '' '')
                (map (\<lambda>(n, d). (n, param_placeholder n d)) (zip (cp_names c) (cp_defaults c))) @ '')'')
        @ '' '' @ toCamelCase (mh_name header) @ '' (''
        @ (if ports = [] then [] else [nl_char] @ columns_text (port_maxLen ports) [nl_char] (map (\<lambda>n. (n, n)) ports))
        @ '');'')"

lemma append_params_built:
  assumes "built s t"
  shows "built (append_params ex c s) (t @ (if cp_names c = [] then [] else (if ex then [] else '' #'') @ ''('' @ [nl_char]
    @ columns_text (cp_maxLen c) ([nl_char] @ '' '')
        (map (\<lambda>(n, d). (n, param_placeholder n d)) (zip (cp_names c) (cp_defaults c))) @ '')''))"
proof (cases "cp_names c = []")
  case False
  let ?s = "if ex then s else snippet_appendText s '' #''"
  have "built ?s (t @ (if ex then [] else '' #''))" using assms built_text [OF assms, of "'' #''"] by (simp add: isdigit_def)
  from built_text [OF this, of "''('' @ [nl_char]"]
  have "built (snippet_appendText ?s (''('' @ [nl_char])) (t @ (if ex then [] else '' #'') @ ''('' @ [nl_char])"
    by (simp add: isdigit_def)
  from built_text [OF append_columns_built [OF this, of "[nl_char] @ '' ''" "cp_maxLen c"
      "map (\<lambda>(n, d). (n, param_placeholder n d)) (zip (cp_names c) (cp_defaults c))"], of "'')''"]
  show ?thesis using False by (simp add: append_params_def Let_def isdigit_def)
qed (use assms in \<open>simp add: append_params_def\<close>)

lemma append_ports_built:
  assumes "built s t"
  shows "built (append_ports ps s) (t @ (if ps = [] then [] else [nl_char]
    @ columns_text (port_maxLen ps) [nl_char] (map (\<lambda>n. (n, n)) ps)))"
  using assms append_columns_built [OF built_text [OF assms, of "[nl_char]"], of "[nl_char]" "port_maxLen ps" "map (\<lambda>n. (n, n)) ps"]
  by (cases "ps = []") (simp_all add: append_ports_def isdigit_def)

lemma instance_snippet_shown:
  "map_option shown (snip_read (instance_snippet header ex)) = Some (instance_text header ex)"
proof -
  let ?c = "case mh_parameters header of Some ps \<Rightarrow> collectParams ps | None \<Rightarrow> no_params"
  let ?ps = "case mh_ports header of Some ns \<Rightarrow> ns | None \<Rightarrow> []"
  have "built (if ex then snippet_new [] else snippet_appendText (snippet_new []) (mh_name header)) (if ex then [] else mh_name header)"
    by (simp add: built_new built_start)
  note b = built_text [OF append_ports_built [OF built_text [OF built_placeholder [OF built_text
        [OF append_params_built [OF this, of ex ?c], of "'' ''"], of "toCamelCase (mh_name header)"], of "'' (''"], of ?ps], of "'');''"]
  have "\<not> isdigit (hd '' '')" "\<not> isdigit (hd '' ('')" "\<not> isdigit (hd '');'')" by (simp_all add: isdigit_def)
  from built_reads [OF b [OF disjI2 disjI2 disjI2, OF this]] show ?thesis
    by (simp add: instance_snippet_def instance_text_def Let_def)
qed

end
