(* ===== verification/CompletionDispatch.thy ===== *)
theory CompletionDispatch
  imports InstanceConnections SystemTasks
begin

text \<open>
  The completion request and its resolve request (\<open>CompletionDispatch::getCompletions\<close> and
  \<open>getCompletionItemResolve\<close> of \<open>src/completions/CompletionDispatch.cpp\<close>), with the macro items of
  \<open>src/completions/MacroCompletions.cpp\<close> and the resolving of an instantiation of
  \<open>src/completions/InstanceCompletions.cpp\<close>.

  Loading the syntax tree of a file is slang's: the parameter \<open>dp_tree\<close> gives the macros and the
  declarations of a file that loads.
\<close>

section \<open>Macros\<close>

record macro_view =
  mv_name :: string
  mv_no_location :: bool
  mv_args :: "string list option"
  mv_block :: string

fun prefix_chars :: "string \<Rightarrow> string \<Rightarrow> bool" where
  "prefix_chars name [] = True"
| "prefix_chars [] (e # es) = False"
| "prefix_chars (a # as) (e # es) = (if tolower a \<noteq> tolower e then False else prefix_chars as es)"

definition matchesPrefix :: "string \<Rightarrow> string \<Rightarrow> bool" where
  "matchesPrefix name typedPrefix =
    (let typed = (if typedPrefix \<noteq> [] \<and> hd typedPrefix = backtick then tl typedPrefix else typedPrefix)
     in if length name < length typed then False else prefix_chars name typed)"

definition macro_item :: "string \<Rightarrow> completion_item" where
  "macro_item name = (plain_item (backtick # name) CK_Constant)
     \<lparr>ci_detail := Some '' Macro'', ci_filterText := Some (backtick # name)\<rparr>"

fun macro_args :: "bool \<Rightarrow> string list \<Rightarrow> snippet \<Rightarrow> snippet" where
  "macro_args first [] s = s"
| "macro_args first (a # as) s =
     macro_args False as (appendPlaceholder (if first then s else snippet_appendText s '', '') a None)"

definition getCompletionText :: "macro_view \<Rightarrow> string" where
  "getCompletionText macro =
    (let s = snippet_appendText (snippet_appendText (snippet_new []) [backtick]) (mv_name macro) in
     snip_value (case mv_args macro of
       None \<Rightarrow> s
     | Some args \<Rightarrow> snippet_appendText (macro_args True args (snippet_appendText s ''('')) '')''))"

definition resolve_macro :: "macro_view \<Rightarrow> completion_item \<Rightarrow> completion_item" where
  "resolve_macro macro item0 =
    (let item = item0\<lparr>ci_documentation := Some (mv_block macro)\<rparr>
     in if ci_insertText item = None
        then item\<lparr>ci_insertText := Some (getCompletionText macro), ci_insertTextFormat := Some SnippetFormat\<rparr>
        else item)"

definition macro_completion :: "macro_view \<Rightarrow> completion_item" where
  "macro_completion macro = resolve_macro macro (macro_item (mv_name macro))"

definition add_document_macro :: "string \<Rightarrow> macro_view \<Rightarrow> listing \<Rightarrow> listing" where
  "add_document_macro typedPrefix macro l =
     (if mv_no_location macro \<or> \<not> matchesPrefix (mv_name macro) typedPrefix \<or> backtick # mv_name macro \<in> set (snd l)
      then l else (fst l @ [macro_completion macro], snd l @ [backtick # mv_name macro]))"

definition add_index_macro :: "string \<Rightarrow> string \<Rightarrow> listing \<Rightarrow> listing" where
  "add_index_macro typedPrefix name l =
     (if \<not> matchesPrefix name typedPrefix \<or> backtick # name \<in> set (snd l) then l
      else (fst l @ [macro_item name], snd l @ [backtick # name]))"

definition macroCompletions ::
  "macro_view list \<Rightarrow> indexer \<Rightarrow> string \<Rightarrow> completion_item list \<Rightarrow> completion_item list" where
  "macroCompletions document_macros ix typedPrefix results =
     fst (fold (add_index_macro typedPrefix) (getAllMacroNames ix)
       (fold (add_document_macro typedPrefix) document_macros (results, [])))"

section \<open>The environment\<close>

record tree_view =
  tv_macros :: "macro_view list"
  tv_declarations :: "(bool \<times> module_header) list"

record dispatch_env =
  dp_fs :: filesystem
  dp_index :: indexer
  dp_tree :: "path \<Rightarrow> tree_view option"
  dp_uri_dot :: "char \<Rightarrow> bool"
  dp_member :: resolve_view

definition uri_file_path :: "dispatch_env \<Rightarrow> string \<Rightarrow> path result" where
  "uri_file_path D u = map_sum id (\<lambda>v. path_of_string (fst (uri_getPath v))) (uri_parse (dp_uri_dot D) u)"

section \<open>Resolving\<close>

text \<open>\<open>label.substr(1)\<close>.\<close>

definition label_tail :: "string \<Rightarrow> string result" where
  "label_tail label = (if label = [] then Inl OutOfRange else Inr (tl label))"

definition resolve_macro_item :: "dispatch_env \<Rightarrow> completion_item \<Rightarrow> completion_item result" where
  "resolve_macro_item D item =
    (case label_tail (ci_label item) of
       Inl e \<Rightarrow> Inl e
     | Inr name \<Rightarrow>
        (case getFilesForMacro (dp_index D) name of
           [] \<Rightarrow> Inr item
         | p # ps \<Rightarrow>
            (case dp_tree D p of
               None \<Rightarrow> Inr item
             | Some tree \<Rightarrow>
                (case find (\<lambda>m. mv_name m = name) (tv_macros tree) of
                   None \<Rightarrow> Inr item
                 | Some m \<Rightarrow> Inr (updateCompletionEditText (resolve_macro m item))))))"

definition load_and_resolve :: "dispatch_env \<Rightarrow> path \<Rightarrow> completion_item \<Rightarrow> bool \<Rightarrow> completion_item" where
  "load_and_resolve D p item excludeName = (case dp_tree D p of
     None \<Rightarrow> item
   | Some tree \<Rightarrow> updateCompletionEditText
       ((resolve_tree (tv_declarations tree) (ci_label item) excludeName item)\<lparr>ci_data := None\<rparr>))"

definition resolve_instance_item ::
  "dispatch_env \<Rightarrow> completion_item \<Rightarrow> path option \<Rightarrow> bool \<Rightarrow> completion_item result" where
  "resolve_instance_item D item modulePath excludeName =
    (case modulePath of
       Some p \<Rightarrow> Inr (load_and_resolve D p item excludeName)
     | None \<Rightarrow>
        (case ci_data item of
           Some (DataUri u) \<Rightarrow>
             (case uri_file_path D u of
                Inl e \<Rightarrow> Inl e
              | Inr source \<Rightarrow>
                 (case getNearestSymbolLoc (dp_fs D) (dp_index D) (ci_label item) source of
                    None \<Rightarrow> Inr item
                  | Some loc \<Rightarrow> Inr (load_and_resolve D (fst loc) item excludeName)))
         | _ \<Rightarrow> Inr item))"

definition getCompletionItemResolve :: "dispatch_env \<Rightarrow> bool \<Rightarrow> completion_item \<Rightarrow> completion_item result" where
  "getCompletionItemResolve D cancelled item =
    (if cancelled then Inl (RequestCancelled ''before resolving completion item'')
     else if ci_label item \<noteq> [] \<and> hd (ci_label item) = CHR ''$'' then Inr item
     else case ci_kind item of
       None \<Rightarrow> Inr item
     | Some k \<Rightarrow>
        (case ci_data item of
           Some (DataUri u) \<Rightarrow> resolve_instance_item D item None False
         | Some data \<Rightarrow> resolve_member_item (dp_member D) item
         | None \<Rightarrow>
            (if k = CK_Constant then resolve_macro_item D item
             else if isInstantiableKind k then resolve_instance_item D item None False
             else Inr item)))"

section \<open>The request\<close>

text \<open>The item for the name before \<open>#\<close>; \<open>kind_name\<close> is slang's name of the declaration's kind.\<close>

definition instantiationCompletions ::
  "dispatch_env \<Rightarrow> (kind_id \<Rightarrow> declaration_kind) \<Rightarrow> (kind_id \<Rightarrow> string) \<Rightarrow> path \<Rightarrow> string option
    \<Rightarrow> completion_item list \<Rightarrow> completion_item list" where
  "instantiationCompletions D decl kind_name source moduleToken results =
    (case moduleToken of
       None \<Rightarrow> results
     | Some name \<Rightarrow>
        (case getNearestSymbolLoc (dp_fs D) (dp_index D) name source of
           None \<Rightarrow> results
         | Some loc \<Rightarrow> results @ [load_and_resolve D (fst loc)
             (getInstanceCompletion name (decl (snd loc)) (kind_name (snd loc))) True]))"

definition with_document :: "string \<Rightarrow> completion_item \<Rightarrow> completion_item" where
  "with_document documentUri item =
     (if ci_data item = None \<and> instantiable_item item then item\<lparr>ci_data := Some (DataUri documentUri)\<rparr> else item)"

datatype query_kind =
    QLexical | QMemberAccess | QScopedAccess | QStructAssign | QStructMember | QMacro
  | QSystemSubroutine | QInstantiationSuffix | QInstancePorts | QSuppressed

text \<open>\<open>trigger\<close> is the character of a trigger-character request.\<close>

definition dispatchCompletions ::
  "string option \<Rightarrow> query_kind \<Rightarrow> (completion_item list \<Rightarrow> completion_item list) \<Rightarrow> query_shape \<Rightarrow> string
    \<Rightarrow> completion_item list \<Rightarrow> completion_item list" where
  "dispatchCompletions trigger kind query q documentUri results =
     (if trigger = Some ''{'' \<and> kind \<noteq> QStructAssign then results
      else map (\<lambda>item. setCompletionEdit q (with_document documentUri item)) (query results))"

end
