(* ===== verification/DispatchRuns.thy ===== *)
theory DispatchRuns
  imports CompletionDispatch
begin

text \<open>
  Lists and their resolve requests together: an item whose source already has a call or an instance
  keeps its shape when it is resolved, and an item of the index inserts the instantiation or the
  macro call its declaration asks for.
\<close>

section \<open>Items that keep their shape\<close>

definition label_fixed :: "string \<Rightarrow> completion_item \<Rightarrow> bool" where
  "label_fixed label item \<longleftrightarrow> ci_label item = label \<and> ci_insertText item = Some label
     \<and> ci_insertTextFormat item = Some PlainTextFormat \<and> (\<exists>r. ci_textEdit item = Some (TextEdit r label))"

lemma label_fixed_text: "label_fixed label item \<Longrightarrow> client_text item = Some label"
  by (auto simp: label_fixed_def client_text_def)

lemma label_fixed_update: "label_fixed label item \<Longrightarrow> label_fixed label (updateCompletionEditText item)"
  using update_same by (auto simp: label_fixed_def)

lemma label_fixed_data: "label_fixed label item \<Longrightarrow> label_fixed label (item\<lparr>ci_data := d\<rparr>)"
  "label_fixed label item \<Longrightarrow> label_fixed label (item\<lparr>ci_documentation := t\<rparr>)"
  by (auto simp: label_fixed_def)

lemma label_fixed_macro: "label_fixed label item \<Longrightarrow> label_fixed label (resolve_macro m item)"
  using label_fixed_data(2) by (auto simp: resolve_macro_def label_fixed_def)

lemma label_fixed_tree: "label_fixed label item \<Longrightarrow> label_fixed label (resolve_tree ds label ex item)"
proof (induction ds label ex item rule: resolve_tree.induct)
  case (2 instantiable header ds moduleName excludeName item)
  then show ?case by (auto simp: resolveModuleInstance_def label_fixed_def)
qed simp

lemma label_fixed_load: "label_fixed label item \<Longrightarrow> label_fixed label (load_and_resolve D p item ex)"
proof -
  assume a: "label_fixed label item"
  then have "ci_label item = label" by (simp add: label_fixed_def)
  then show ?thesis using a label_fixed_tree label_fixed_update label_fixed_data(1)
    by (simp add: load_and_resolve_def split: option.splits)
qed

lemma label_fixed_member:
  "label_fixed label item \<Longrightarrow> mb_arguments m = None \<Longrightarrow> label_fixed label (resolve_member m e item)"
  using label_fixed_data(2) by (simp add: resolve_member_def)

text \<open>The symbol a resolve request finds has the kind of the item, and only subroutines have
  arguments.\<close>

definition found_ok :: "resolve_view \<Rightarrow> completion_item \<Rightarrow> bool" where
  "found_ok V item \<longleftrightarrow> (\<forall>m. rv_found V = Some m \<or> rv_lookup V = Some m \<longrightarrow>
     Some (toCompletionItemKind (mb_symbol m)) = ci_kind item \<and> (mb_arguments m \<noteq> None \<longrightarrow> mb_kind m = Subroutine))"

definition keeps_source :: "query_shape \<Rightarrow> completion_item \<Rightarrow> bool" where
  "keeps_source q item \<longleftrightarrow> followedByCall q \<and> ci_kind item = Some CK_Constant
     \<or> followedByInstantiation q \<and> instantiable_item item"

lemma keeps_source_fixed: "keeps_source q item \<Longrightarrow> label_fixed (ci_label item) (setCompletionEdit q item)"
  by (auto simp: keeps_source_def label_fixed_def setCompletionEdit_def keep_shape_def edit_text_def
      label_only_def item_text_def instantiable_item_def Let_def)

lemma with_document_simps [simp]:
  "ci_label (with_document u item) = ci_label item" "ci_kind (with_document u item) = ci_kind item"
  "keeps_source q (with_document u item) = keeps_source q item" "found_ok V (with_document u item) = found_ok V item"
  by (simp_all add: with_document_def keeps_source_def instantiable_item_def found_ok_def)

lemma set_edit_kind [simp]: "ci_kind (setCompletionEdit q item) = ci_kind item"
  by (simp add: setCompletionEdit_def keep_shape_def Let_def)

lemma find_resolved_cases: "find_resolved V d = Inr (Some m) \<Longrightarrow> rv_found V = Some m \<or> rv_lookup V = Some m"
  by (auto simp: find_resolved_def check_cancelled_def split: option.splits if_splits)

lemma found_no_arguments:
  assumes "found_ok V item" "keeps_source q item" "rv_found V = Some m \<or> rv_lookup V = Some m"
  shows "mb_arguments m = None"
proof (rule ccontr)
  assume "mb_arguments m \<noteq> None"
  then have "mb_kind m = Subroutine" and k: "Some (toCompletionItemKind (mb_symbol m)) = ci_kind item"
    using assms by (auto simp: found_ok_def)
  then have "ci_kind item = Some CK_Function" by (simp add: toCompletionItemKind_def)
  then show False using assms(2) by (simp add: keeps_source_def instantiable_item_def isInstantiableKind_def)
qed

lemma member_resolve_fixed:
  assumes "label_fixed label item" "found_ok V item" "keeps_source q item"
    and "resolve_member_item V item = Inr item'"
  shows "label_fixed label item'"
proof (cases "ci_data item")
  case None
  then show ?thesis using assms by (simp add: resolve_member_item_def)
next
  case (Some data)
  have base: "label_fixed label (item\<lparr>ci_data := None\<rparr>)" using assms(1) by (rule label_fixed_data(1))
  show ?thesis
  proof (cases "\<exists>d m. data = DataSymbol d \<and> rv_document V \<and> rv_compilation V \<and> find_resolved V d = Inr (Some m)")
    case True
    then obtain d m where d: "data = DataSymbol d" "rv_document V" "rv_compilation V" "find_resolved V d = Inr (Some m)"
      by blast
    have "mb_arguments m = None" using found_no_arguments [OF assms(2,3) find_resolved_cases [OF d(4)]] .
    from label_fixed_member [OF base this, of "rv_resolveEdits V"] show ?thesis
      using assms(4) Some d label_fixed_update
      by (auto simp: resolve_member_item_def check_cancelled_def Let_def split: if_splits)
  next
    case False
    then show ?thesis using assms(4) Some base
      by (cases data) (auto simp: resolve_member_item_def Let_def split: if_splits sum.splits option.splits)
  qed
qed

lemma resolve_fixed:
  assumes "label_fixed label item" "found_ok (dp_member D) item" "keeps_source q item"
    and "getCompletionItemResolve D c item = Inr item'"
  shows "label_fixed label item'"
proof -
  have mac: "label_fixed label i" if "resolve_macro_item D item = Inr i" for i
    using that assms(1) label_fixed_macro label_fixed_update
    by (auto simp: resolve_macro_item_def split: sum.splits list.splits option.splits)
  have ins: "label_fixed label i" if "resolve_instance_item D item None False = Inr i" for i
    using that assms(1) label_fixed_load
    by (auto simp: resolve_instance_item_def split: sum.splits list.splits option.splits item_data.splits)
  have mem: "label_fixed label i" if "resolve_member_item (dp_member D) item = Inr i" for i
    using member_resolve_fixed [OF assms(1-3) that] .
  show ?thesis
    using assms(1,4) mac ins mem
    by (auto simp: getCompletionItemResolve_def split: if_splits option.splits item_data.splits)
qed

section \<open>Resolved declarations\<close>

lemma macro_args_built: "built s t \<Longrightarrow> built (macro_args first as s)
  (t @ (if first \<or> as = [] then [] else '', '') @ comma_join as)"
proof (induction first "as" s arbitrary: t rule: macro_args.induct)
  case (2 first a "as" s)
  have "built (if first then s else snippet_appendText s '', '') (t @ (if first then [] else '', ''))"
    using 2(2) built_text [OF 2(2), of "'', ''"] by (simp add: isdigit_def)
  from 2(1) [OF built_placeholder [OF this, of a]] show ?case by (cases "as") simp_all
qed simp

definition macro_call_text :: "macro_view \<Rightarrow> string" where
  "macro_call_text m = backtick # mv_name m
     @ (case mv_args m of None \<Rightarrow> [] | Some args \<Rightarrow> ''('' @ comma_join args @ '')'')"

lemma macro_text_shown:
  assumes "\<not> isdigit (hd (mv_name m))"
  shows "map_option shown (snip_read (getCompletionText m)) = Some (macro_call_text m)"
proof -
  let ?s = "snippet_appendText (snippet_appendText (snippet_new []) [backtick]) (mv_name m)"
  have s: "built ?s ([backtick] @ mv_name m)" by (rule built_text [OF built_start]) (use assms in simp)
  have "built (snippet_appendText (macro_args True args (snippet_appendText ?s ''('')) '')'')
      ([backtick] @ mv_name m @ ''('' @ comma_join args @ '')'')" for args
    using built_text [OF macro_args_built [OF built_text [OF s, of "''(''"], of True args], of "'')''"]
    by (simp add: isdigit_def)
  from built_reads [OF this] built_reads [OF s] show ?thesis
    by (cases "mv_args m") (simp_all add: getCompletionText_def macro_call_text_def Let_def)
qed

definition no_edit_shape :: "query_shape \<Rightarrow> bool" where
  "no_edit_shape q \<longleftrightarrow> \<not> followedByCall q \<and> \<not> followedByInstantiation q"

lemma module_resolved:
  assumes "no_edit_shape q"
    and item: "declaration_item ModuleMemberKind d name = Some item" "instantiable_item item" "hd name \<noteq> CHR ''$''"
    and "uri_file_path D u = Inr source"
    and "getNearestSymbolLoc (dp_fs D) (dp_index D) name source = Some loc"
    and "dp_tree D (fst loc) = Some tree"
    and "find (\<lambda>d. mh_name (snd d) = name) (tv_declarations tree) = Some (True, header)"
  shows "\<exists>item'. getCompletionItemResolve D False (setCompletionEdit q (with_document u item)) = Inr item'
    \<and> client_text item' = Some (instance_text header False)"
proof -
  have it: "ci_label item = name" "ci_insertText item = None" "ci_data item = None" "ci_kind item \<noteq> None"
    using item(1) by (auto simp: declaration_item_def index_item_def plain_item_def split: declaration_kind.splits)
  let ?i = "setCompletionEdit q (with_document u item)"
  have i: "ci_label ?i = name" "ci_insertText ?i = None" "ci_data ?i = Some (DataUri u)" "ci_kind ?i = ci_kind item"
      "\<exists>r t. ci_textEdit ?i = Some (TextEdit r t)"
    using it item(2) assms(1) by (auto simp: setCompletionEdit_def keep_shape_def with_document_def no_edit_shape_def Let_def)
  have t: "resolve_tree ds name False j = resolveModuleInstance header j False"
    if "find (\<lambda>d. mh_name (snd d) = name) ds = Some (True, header)" for ds j
    using that by (induction ds) (auto split: if_splits)
  have "getCompletionItemResolve D False ?i = Inr (updateCompletionEditText
      ((resolveModuleInstance header ?i False)\<lparr>ci_data := None\<rparr>))"
    using i it item(3) assms(5-7) t [OF assms(8)]
    by (auto simp: getCompletionItemResolve_def resolve_instance_item_def load_and_resolve_def)
  moreover have "client_text (updateCompletionEditText ((resolveModuleInstance header ?i False)\<lparr>ci_data := None\<rparr>))
      = Some (instance_text header False)"
    using i instance_snippet_shown [of header False]
    by (auto simp: resolveModuleInstance_def updateCompletionEditText_def client_text_def Let_def)
  ultimately show ?thesis by blast
qed

section \<open>Properties\<close>


text \<open>Resolving a module or interface of the workspace index inserts its instantiation: the name,
  a column of the overridable parameters with their defaults if it has any, an instance name in camel
  case and a column of the ports. It is the declaration of the file nearest to the requesting
  document.\<close>

theorem resolved_module_inserted:
  assumes "no_edit_shape q"
    and "declaration_item ModuleMemberKind d name = Some item" "instantiable_item item" "hd name \<noteq> CHR ''$''"
    and "uri_file_path D u = Inr source"
    and "getNearestSymbolLoc (dp_fs D) (dp_index D) name source = Some loc"
    and "dp_tree D (fst loc) = Some tree"
    and "find (\<lambda>d. mh_name (snd d) = name) (tv_declarations tree) = Some (True, header)"
  shows "\<exists>item'. getCompletionItemResolve D False (setCompletionEdit q (with_document u item)) = Inr item'
    \<and> client_text item' = Some (instance_text header False)"
  using assms by (rule module_resolved)

section \<open>Witnesses\<close>

definition fifo_header :: module_header where
  "fifo_header = \<lparr>mh_name = ''FIFO'',
     mh_parameters = Some [\<lparr>pd_keyword_local = Some False, pd_declarators = [(''W'', Some '' 8'')]\<rparr>,
       \<lparr>pd_keyword_local = Some True, pd_declarators = [(''D'', Some '' 2'')]\<rparr>],
     mh_ports = Some [''clk'', ''d''], mh_block = ''module FIFO''\<rparr>"

definition sample_dispatch :: dispatch_env where
  "sample_dispatch = \<lparr>dp_fs = \<lparr>weakly_canonical = Some, is_regular_file = (\<lambda>_. True), is_directory = (\<lambda>_. False),
       exists_path = (\<lambda>_. True), current_path = [''/'']\<rparr>,
     dp_index = empty_indexer\<lparr>symbolToFiles := [(''FIFO'', [([''/'', ''f.sv''], 1)])],
       macroToFiles := [(''M'', [[''/'', ''m.svh'']])]\<rparr>,
     dp_tree = (\<lambda>p. Some \<lparr>tv_macros = [\<lparr>mv_name = ''M'', mv_no_location = False, mv_args = Some [''x''], mv_block = ''define''\<rparr>],
       tv_declarations = [(True, fifo_header)]\<rparr>),
     dp_uri_dot = (\<lambda>_. True),
     dp_member = \<lparr>rv_document = False, rv_compilation = False, rv_sameBuffer = False, rv_found = None,
       rv_lookup = None, rv_cancelled = (\<lambda>_. False), rv_resolveEdits = False\<rparr>\<rparr>"

definition call_shape :: query_shape where
  "call_shape = \<lparr>replacementRange = \<lparr>r_start = \<lparr>p_line = 0, p_char = 0\<rparr>, r_end = \<lparr>p_line = 0, p_char = 2\<rparr>\<rparr>,
     followedByCall = True, followedByInstantiation = False\<rparr>"

definition sample_macro_item :: completion_item where
  "sample_macro_item = setCompletionEdit call_shape (with_document ''file:///top.sv'' (macro_item ''M''))"

lemma sample_macro_resolved:
  "getCompletionItemResolve sample_dispatch False sample_macro_item
    = Inr (sample_macro_item\<lparr>ci_documentation := Some ''define''\<rparr>)"
  by code_simp


definition name_shape :: query_shape where
  "name_shape = call_shape\<lparr>followedByCall := False\<rparr>"

theorem resolved_module_inserted_witness:
  "\<exists>item'. getCompletionItemResolve sample_dispatch False
      (setCompletionEdit name_shape (with_document ''file:///top.sv'' (index_item ''FIFO'' '' Module'' CK_Module None))) = Inr item'
    \<and> client_text item' = Some (instance_text fifo_header False)"
proof (rule resolved_module_inserted)
  show "no_edit_shape name_shape" by code_simp
  show "declaration_item ModuleMemberKind DeclModule ''FIFO'' = Some (index_item ''FIFO'' '' Module'' CK_Module None)"
    by (simp add: declaration_item_def)
  show "instantiable_item (index_item ''FIFO'' '' Module'' CK_Module None)" by code_simp
  show "hd ''FIFO'' \<noteq> CHR ''$''" by simp
  show "uri_file_path sample_dispatch ''file:///top.sv'' = Inr [''/'', ''top.sv'']" by code_simp
  show "getNearestSymbolLoc (dp_fs sample_dispatch) (dp_index sample_dispatch) ''FIFO'' [''/'', ''top.sv'']
      = Some ([''/'', ''f.sv''], 1)" by code_simp
  show "dp_tree sample_dispatch (fst ([''/'', ''f.sv''], 1)) = Some \<lparr>tv_macros = [\<lparr>mv_name = ''M'',
      mv_no_location = False, mv_args = Some [''x''], mv_block = ''define''\<rparr>], tv_declarations = [(True, fifo_header)]\<rparr>"
    by (simp add: sample_dispatch_def)
  show "find (\<lambda>d. mh_name (snd d) = ''FIFO'') (tv_declarations \<lparr>tv_macros = [\<lparr>mv_name = ''M'',
      mv_no_location = False, mv_args = Some [''x''], mv_block = ''define''\<rparr>], tv_declarations = [(True, fifo_header)]\<rparr>)
      = Some (True, fifo_header)"
    by (simp add: fifo_header_def)
qed

text \<open>The instantiation of the sample.\<close>

lemma fifo_instance_text:
  "instance_text fifo_header False = ''FIFO #('' @ [nl_char, tab_char] @ ''.W(W /* default 8 */)'' @ [nl_char]
     @ '' ) fifo ('' @ [nl_char, tab_char] @ ''.clk(clk),'' @ [nl_char, tab_char] @ ''.d  (d)'' @ [nl_char] @ '');''"
  by code_simp

end
