(* ===== verification/CompletionSites.thy ===== *)
theory CompletionSites
  imports SyntaxQueries CompletionDispatch
begin

text \<open>
  The kind of a completion request, from the tokens and the syntax around the cursor
  (\<open>CompletionQuery::fromLocation\<close> and its helpers in \<open>src/completions/CompletionDispatch.cpp\<close>).

  The token searches are those of \<open>SyntaxIndex\<close>. slang's token kinds are numbers there;
  \<open>se_class\<close> names the ones the code tests. The syntax at the cursor is the list of its nodes from
  \<open>getSyntaxAt\<close> up to the root, each with what the code reads of it. Which instance a name token
  refers to, and whether the cursor is in an assignment pattern, are the analysis's.
\<close>

section \<open>Tokens and nodes\<close>

datatype token_class =
    TcIdentifier | TcDollar | TcDot | TcOpenParen | TcCloseParen | TcHash | TcComma | TcColon
  | TcDoubleColon | TcApostrophe | TcInteger | TcIntegerBase | TcUnbased | TcReal | TcTime | TcString
  | TcOtherToken

record paren_range =
  pr_open :: "source_location option"
  pr_close :: "source_location option"
  pr_name :: "(string \<times> source_location) option"   \<comment> \<open>the name and where it ends\<close>

datatype site_node =
    OrderedOrWildcard
  | NamedConnection paren_range
  | NamedAssignment paren_range
  | ParameterList nat
  | HierInstance "src_token option" "source_location option" "source_location option"
  | HierInstantiation source_range bool "src_token option list"
  | EnclosingDeclaration
  | OtherNode bool

record site_env =
  se_lib :: syntax_lib
  se_buffer :: nat
  se_tokens :: "src_token list"
  se_class :: "lex_kind \<Rightarrow> token_class"
  se_keyword :: "lex_kind \<Rightarrow> bool"
  se_trivia :: "nat \<Rightarrow> trivia_kind list"
  se_nodes :: "source_location \<Rightarrow> site_node list"
  se_instance :: "nat \<Rightarrow> nat option"
  se_pattern :: "source_location \<Rightarrow> bool"

abbreviation class_of :: "site_env \<Rightarrow> src_token \<Rightarrow> token_class" where
  "class_of E t \<equiv> se_class E (tk_kind t)"

abbreviation token_before :: "site_env \<Rightarrow> source_location \<Rightarrow> src_token option" where
  "token_before E loc \<equiv> getTokenBefore (se_lib E) (se_buffer E) (se_tokens E) loc"

abbreviation token_after :: "site_env \<Rightarrow> source_location \<Rightarrow> src_token option" where
  "token_after E loc \<equiv> getTokenAfter (se_lib E) (se_buffer E) (se_tokens E) loc"

abbreviation word_at :: "site_env \<Rightarrow> source_location \<Rightarrow> src_token option" where
  "word_at E loc \<equiv> getWordTokenAt (se_lib E) (se_buffer E) (se_tokens E) loc"

section \<open>The site\<close>

record completion_site =
  st_range :: source_range
  st_target :: "src_token option"
  st_before :: "src_token option"
  st_after :: "src_token option"
  st_prefix :: string

definition word_target :: "site_env \<Rightarrow> source_location \<Rightarrow> src_token option" where
  "word_target E cursor =
    (let found = (case word_at E cursor of
           Some t \<Rightarrow> Some t
         | None \<Rightarrow> (if 0 < loffset cursor then word_at E (cursor\<lparr>loffset := loffset cursor - 1\<rparr>) else None))
     in case found of
       None \<Rightarrow> None
     | Some t \<Rightarrow> (if loc_less (se_lib E) cursor (tk_loc t) \<or> loc_less (se_lib E) (tk_end t) cursor then None else Some t))"

definition keyword_target :: "site_env \<Rightarrow> source_location \<Rightarrow> src_token option" where
  "keyword_target E cursor = (case token_before E cursor of
     Some t \<Rightarrow> (if tk_end t = cursor \<and> se_keyword E (tk_kind t) then Some t else None) | None \<Rightarrow> None)"

definition marker_target :: "site_env \<Rightarrow> source_location \<Rightarrow> src_token option" where
  "marker_target E cursor = (case token_before E cursor of
     Some t \<Rightarrow> (if tk_end t = cursor \<and> (class_of E t = TcDollar \<or> tk_raw t = [backtick]) then Some t else None)
   | None \<Rightarrow> None)"

definition target_token :: "site_env \<Rightarrow> source_location \<Rightarrow> src_token option" where
  "target_token E cursor = (case word_target E cursor of
     Some t \<Rightarrow> Some t
   | None \<Rightarrow> (case keyword_target E cursor of Some t \<Rightarrow> Some t | None \<Rightarrow> marker_target E cursor))"

definition getCompletionSite :: "site_env \<Rightarrow> source_location \<Rightarrow> completion_site" where
  "getCompletionSite E cursor =
    (let target = target_token E cursor;
         start = (case target of Some t \<Rightarrow> tk_loc t | None \<Rightarrow> cursor);
         stop = (case target of Some t \<Rightarrow> tk_end t | None \<Rightarrow> cursor)
     in \<lparr>st_range = (start, stop), st_target = target, st_before = token_before E start,
         st_after = token_after E stop,
         st_prefix = (case target of
           None \<Rightarrow> []
         | Some t \<Rightarrow> take (min (loffset cursor - loffset start) (length (tk_raw t))) (tk_raw t))\<rparr>)"

definition isSeparatedOnlyByWhitespace :: "site_env \<Rightarrow> src_token \<Rightarrow> bool" where
  "isSeparatedOnlyByWhitespace E t \<longleftrightarrow> list_all (\<lambda>k. k = TvWhitespace \<or> k = TvEndOfLine) (se_trivia E (tk_id t))"

section \<open>Written instantiations\<close>

definition is_member_node :: "site_node \<Rightarrow> bool" where
  "is_member_node n \<longleftrightarrow> (case n of EnclosingDeclaration \<Rightarrow> True | OtherNode m \<Rightarrow> m | _ \<Rightarrow> False)"

fun isWrittenInstantiation :: "site_env \<Rightarrow> source_location \<Rightarrow> site_node list \<Rightarrow> bool" where
  "isWrittenInstantiation E cursor [] = False"
| "isWrittenInstantiation E cursor (n # ns) = (case n of
     HierInstantiation typeRange parameters instances \<Rightarrow>
       (if loc_less (se_lib E) cursor (fst typeRange) \<or> loc_less (se_lib E) (snd typeRange) cursor then False
        else if parameters then True
        else list_ex (\<lambda>i. case i of Some name \<Rightarrow> \<not> tk_missing name | None \<Rightarrow> False) instances)
   | _ \<Rightarrow> (if is_member_node n then False else isWrittenInstantiation E cursor ns))"

section \<open>Literals\<close>

definition isNumberToken :: "site_env \<Rightarrow> src_token \<Rightarrow> bool" where
  "isNumberToken E t \<longleftrightarrow> class_of E t \<in> {TcInteger, TcIntegerBase, TcUnbased, TcReal, TcTime}"

definition isLiteral :: "site_env \<Rightarrow> src_token \<Rightarrow> bool" where
  "isLiteral E t \<longleftrightarrow> isNumberToken E t \<or> class_of E t = TcString"

definition isLiteralSite :: "site_env \<Rightarrow> source_location \<Rightarrow> bool" where
  "isLiteralSite E cursor =
    (if (case getTokenAt (se_lib E) (se_buffer E) (se_tokens E) cursor of
           Some t \<Rightarrow> isLiteral E t \<and> loc_less (se_lib E) (tk_loc t) cursor | None \<Rightarrow> False) then True
     else case token_before E cursor of
       None \<Rightarrow> False
     | Some t \<Rightarrow>
        (if class_of E t = TcApostrophe then
           (case token_before E (tk_loc t) of Some width \<Rightarrow> isNumberToken E width | None \<Rightarrow> False)
         else isLiteral E t \<and> tk_end t = cursor))"

section \<open>The list of an instance\<close>

record list_site =
  ls_instance :: nat
  ls_parameterList :: "nat option"
  ls_parameters :: bool
  ls_current :: "string option"

text \<open>The walk back over the connections to the parenthesis that opens the list: at most \<open>n\<close> tokens.
  What it finds: no list, the start of a parameter list with the location to go on from, or of a port
  list with the token of the instance's name; \<open>ListUnknown\<close> when the tokens allowed run out.\<close>

datatype list_start = NoList | ParameterStart source_location | PortStart "src_token option" source_location
  | ListUnknown source_location

fun walk_to_list :: "site_env \<Rightarrow> nat \<Rightarrow> int \<Rightarrow> source_location \<Rightarrow> list_start" where
  "walk_to_list E 0 depth loc = ListUnknown loc"
| "walk_to_list E (Suc n) depth loc = (case token_before E loc of
     None \<Rightarrow> NoList
   | Some t \<Rightarrow>
      (if class_of E t = TcCloseParen then walk_to_list E n (depth + 1) (tk_loc t)
       else if class_of E t \<noteq> TcOpenParen then walk_to_list E n depth (tk_loc t)
       else if 0 < depth then walk_to_list E n (depth - 1) (tk_loc t)
       else let listStart = token_before E (tk_loc t) in
         if (case listStart of Some s \<Rightarrow> class_of E s = TcHash | None \<Rightarrow> False) then ParameterStart (tk_end t)
         else PortStart listStart (tk_end t)))"

text \<open>The first name after \<open>loc\<close> that refers to an instance, among at most \<open>n\<close> tokens; \<open>None\<close> is the
  return at the end of the tokens.\<close>

fun find_instance_after :: "site_env \<Rightarrow> nat \<Rightarrow> source_location \<Rightarrow> nat option option" where
  "find_instance_after E 0 loc = Some None"
| "find_instance_after E (Suc n) loc = (case token_after E loc of
     None \<Rightarrow> None
   | Some t \<Rightarrow>
      (if class_of E t \<noteq> TcIdentifier then find_instance_after E n (tk_end t)
       else case se_instance E (tk_id t) of
         Some i \<Rightarrow> Some (Some i) | None \<Rightarrow> find_instance_after E n (tk_end t)))"

definition instance_of_name :: "site_env \<Rightarrow> bool \<Rightarrow> src_token option \<Rightarrow> list_site option" where
  "instance_of_name E parameters name = (case name of
     None \<Rightarrow> None
   | Some t \<Rightarrow> (if class_of E t \<noteq> TcIdentifier then None
       else map_option (\<lambda>i. \<lparr>ls_instance = i, ls_parameterList = None, ls_parameters = parameters, ls_current = None\<rparr>)
              (se_instance E (tk_id t))))"

definition instance_after :: "site_env \<Rightarrow> bool \<Rightarrow> source_location \<Rightarrow> list_site option" where
  "instance_after E parameters loc = (case find_instance_after E 500 loc of
     Some (Some i) \<Rightarrow> Some \<lparr>ls_instance = i, ls_parameterList = None, ls_parameters = parameters, ls_current = None\<rparr>
   | _ \<Rightarrow> None)"

definition findInstanceListByTokens :: "site_env \<Rightarrow> source_location \<Rightarrow> list_site option" where
  "findInstanceListByTokens E cursor = (case token_before E cursor of
     None \<Rightarrow> None
   | Some before \<Rightarrow>
      (if class_of E before = TcDot then
         (case walk_to_list E 500 0 (tk_loc before) of
            NoList \<Rightarrow> None
          | ParameterStart loc \<Rightarrow> instance_after E True loc
          | PortStart name loc \<Rightarrow>
             (if name = None then instance_after E False loc else instance_of_name E False name)
          | ListUnknown loc \<Rightarrow> instance_after E False loc)
       else if class_of E before = TcOpenParen then
         (case token_before E (tk_loc before) of
            None \<Rightarrow> None
          | Some hash \<Rightarrow> (if class_of E hash \<noteq> TcHash then None else instance_after E True (tk_end before)))
       else None))"

text \<open>The cursor is inside the parentheses of a connection or an assignment.\<close>

definition in_parens :: "paren_range \<Rightarrow> source_location \<Rightarrow> bool" where
  "in_parens p cursor \<longleftrightarrow> (case pr_open p of
     None \<Rightarrow> False
   | Some opn \<Rightarrow> loffset opn < loffset cursor
       \<and> (case pr_close p of None \<Rightarrow> True | Some close \<Rightarrow> loffset cursor \<le> loffset close))"

definition typed_name :: "paren_range \<Rightarrow> source_location \<Rightarrow> string option \<Rightarrow> string option" where
  "typed_name p cursor current = (case pr_name p of
     Some (name, stop) \<Rightarrow> (if loffset cursor \<le> loffset stop then Some name else current) | None \<Rightarrow> current)"

definition instance_list :: "site_env \<Rightarrow> nat option \<Rightarrow> bool \<Rightarrow> string option \<Rightarrow> src_token option \<Rightarrow> list_site option" where
  "instance_list E parameterList parameters current name = (case name of
     None \<Rightarrow> None
   | Some t \<Rightarrow> map_option (\<lambda>i. \<lparr>ls_instance = i, ls_parameterList = parameterList, ls_parameters = parameters,
        ls_current = current\<rparr>) (se_instance E (tk_id t)))"

fun list_site_walk ::
  "site_env \<Rightarrow> source_location \<Rightarrow> nat option \<Rightarrow> string option \<Rightarrow> site_node list \<Rightarrow> list_site option" where
  "list_site_walk E cursor parameterList current [] = findInstanceListByTokens E cursor"
| "list_site_walk E cursor parameterList current (n # ns) = (case n of
     OrderedOrWildcard \<Rightarrow> None
   | NamedConnection p \<Rightarrow>
       (if in_parens p cursor then None
        else list_site_walk E cursor parameterList (typed_name p cursor current) ns)
   | NamedAssignment p \<Rightarrow>
       (if in_parens p cursor then None
        else list_site_walk E cursor parameterList (typed_name p cursor current) ns)
   | ParameterList i \<Rightarrow> list_site_walk E cursor (Some i) current ns
   | HierInstance decl opn close \<Rightarrow>
       (if decl = None then None
        else case opn of
          None \<Rightarrow> None
        | Some o' \<Rightarrow>
           (if loffset cursor \<le> loffset o' then None
            else if (case close of Some c \<Rightarrow> loffset c < loffset cursor | None \<Rightarrow> False) then None
            else instance_list E None False current decl))
   | HierInstantiation typeRange parameters instances \<Rightarrow>
       (if parameterList = None then None
        else if instances = [] then None
        else instance_list E parameterList True current (hd instances))
   | EnclosingDeclaration \<Rightarrow> None
   | OtherNode m \<Rightarrow> list_site_walk E cursor parameterList current ns)"

definition findInstanceListSite :: "site_env \<Rightarrow> source_location \<Rightarrow> list_site option" where
  "findInstanceListSite E cursor = list_site_walk E cursor None None (se_nodes E cursor)"

section \<open>The query\<close>

datatype site_query =
    SuppressedSite
  | InstancePortsSite list_site bool bool
  | SystemSite
  | MacroSite string
  | ScopedSite "src_token option"
  | MemberSite "src_token option"
  | InstantiationSite "src_token option"
  | StructAssignSite
  | StructMemberSite bool
  | LexicalSite bool bool

definition has_class :: "site_env \<Rightarrow> src_token option \<Rightarrow> token_class \<Rightarrow> bool" where
  "has_class E t c \<longleftrightarrow> (case t of Some u \<Rightarrow> class_of E u = c | None \<Rightarrow> False)"

definition raw_starts :: "src_token option \<Rightarrow> char \<Rightarrow> bool" where
  "raw_starts t c \<longleftrightarrow> (case t of Some u \<Rightarrow> starts_with (tk_raw u) [c] | None \<Rightarrow> False)"

definition receiver_of :: "site_env \<Rightarrow> completion_site \<Rightarrow> src_token option" where
  "receiver_of E s = (case st_before s of Some t \<Rightarrow> token_before E (tk_loc t) | None \<Rightarrow> None)"

text \<open>\<open>trigger\<close> is the character of a trigger-character request. The result: the query and whether
  a call follows the name, as the query keeps it.\<close>

definition fromLocation :: "site_env \<Rightarrow> source_location \<Rightarrow> string option \<Rightarrow> site_query \<times> bool" where
  "fromLocation E cursor trigger =
    (let site = getCompletionSite E cursor;
         followedByCall = has_class E (st_after site) TcOpenParen
           \<and> (case st_after site of Some t \<Rightarrow> isSeparatedOnlyByWhitespace E t | None \<Rightarrow> False);
         followedByInstantiation = isWrittenInstantiation E cursor (se_nodes E cursor);
         followedByColon = has_class E (st_after site) TcColon
     in if isLiteralSite E cursor then (SuppressedSite, False)
        else case findInstanceListSite E cursor of
          Some listSite \<Rightarrow> (InstancePortsSite listSite (\<not> has_class E (st_before site) TcDot)
            (has_class E (st_before site) TcOpenParen \<or> has_class E (st_before site) TcComma), False)
        | None \<Rightarrow>
           (if raw_starts (st_target site) (CHR ''$'') then (SystemSite, followedByCall)
            else if raw_starts (st_target site) backtick then (MacroSite (st_prefix site), followedByCall)
            else if has_class E (st_before site) TcDoubleColon then (ScopedSite (receiver_of E site), followedByCall)
            else if has_class E (st_before site) TcDot then (MemberSite (receiver_of E site), followedByCall)
            else if st_target site = None \<and> has_class E (st_before site) TcHash
            then (InstantiationSite (receiver_of E site), False)
            else if se_pattern E cursor
            then (if trigger = Some ''{'' then (StructAssignSite, False) else (StructMemberSite followedByColon, False))
            else if trigger \<noteq> None \<and> st_target site = None then (SuppressedSite, False)
            else (LexicalSite followedByCall followedByInstantiation, followedByCall)))"

end
