(* ===== verification/SiteRuns.thy ===== *)
theory SiteRuns
  imports CompletionSites
begin

text \<open>
  What the classification of a request guarantees: no list inside or right after a literal, and a
  replacement range that covers the cursor and none of the neighbouring tokens.
\<close>

section \<open>Tokens around the cursor\<close>

text \<open>slang's ranges contain the locations strictly between their ends.\<close>

definition contains_inside :: "syntax_lib \<Rightarrow> bool" where
  "contains_inside lib \<longleftrightarrow> (\<forall>a c loc. lbuffer a = lbuffer loc \<and> lbuffer c = lbuffer loc
     \<and> loffset a < loffset loc \<and> loffset loc < loffset c \<longrightarrow> range_contains lib (a, c) loc)"

definition site_ok :: "site_env \<Rightarrow> source_location \<Rightarrow> bool" where
  "site_ok E cursor \<longleftrightarrow> loc_order (se_lib E) \<and> contains_inside (se_lib E)
     \<and> tokens_in_order (se_buffer E) (se_tokens E) \<and> length (se_tokens E) < 2 ^ 31 \<and> lbuffer cursor = se_buffer E"

lemma site_okD:
  assumes "site_ok E cursor"
  shows "loc_order (se_lib E)" "contains_inside (se_lib E)" "tokens_in_order (se_buffer E) (se_tokens E)"
    "length (se_tokens E) < 2 ^ 31" "lbuffer cursor = se_buffer E"
  using assms by (simp_all add: site_ok_def)

lemma token_before_scan:
  assumes "site_ok E cursor" "lbuffer loc = se_buffer E"
  shows "token_before E loc = last_of (filter (\<lambda>t. start_of t < loffset loc \<and> end_of t \<le> loffset loc) (se_tokens E))"
  using getTokenBefore_scan [OF site_okD(1,3,4) [OF assms(1)] assms(2)] .

lemma last_of_member: "last_of xs = Some x \<Longrightarrow> x \<in> set xs"
  by (cases "xs = []") (auto simp: last_of_def simp del: filter.simps)

lemma token_before_props:
  assumes "site_ok E cursor" "lbuffer loc = se_buffer E" "token_before E loc = Some t"
  shows "t \<in> set (se_tokens E)" "start_of t < loffset loc" "end_of t \<le> loffset loc"
proof -
  have "t \<in> set (filter (\<lambda>t. start_of t < loffset loc \<and> end_of t \<le> loffset loc) (se_tokens E))"
    using assms(3) unfolding token_before_scan [OF assms(1,2)] by (rule last_of_member)
  then show "t \<in> set (se_tokens E)" "start_of t < loffset loc" "end_of t \<le> loffset loc" by auto
qed

lemma token_buffers:
  assumes "tokens_in_order b toks" "t \<in> set toks"
  shows "lbuffer (tk_loc t) = b" "lbuffer (tk_end t) = b" "start_of t \<le> end_of t"
  using assms by (auto simp: tokens_in_order_def list_all_iff)

lemma location_eq: "lbuffer a = lbuffer c \<Longrightarrow> loffset a = loffset c \<Longrightarrow> a = (c :: source_location)"
  by simp

text \<open>The token that ends at the cursor is the one before it.\<close>

lemma token_before_end:
  assumes "site_ok E cursor" "t \<in> set (se_tokens E)" "start_of t < loffset cursor" "tk_end t = cursor"
  shows "token_before E cursor = Some t"
proof -
  note ok = site_okD [OF assms(1)]
  obtain i where i: "i < length (se_tokens E)" "se_tokens E ! i = t" using assms(2) by (auto simp: in_set_conv_nth)
  have "filter (\<lambda>t. start_of t < loffset cursor \<and> end_of t \<le> loffset cursor) (se_tokens E) = take (Suc i) (se_tokens E)"
  proof (rule filter_prefix)
    fix j assume j: "j < length (se_tokens E)"
    show "start_of (se_tokens E ! j) < loffset cursor \<and> end_of (se_tokens E ! j) \<le> loffset cursor \<longleftrightarrow> j < Suc i"
      using in_order_before [OF ok(3), of i j] in_order_before [OF ok(3), of j i] i j assms(3,4)
        in_order_nth(3) [OF ok(3) j] by (cases i j rule: linorder_cases) auto
  qed (use i in simp)
  then show ?thesis
    unfolding token_before_scan [OF assms(1) ok(5)] using i by (simp add: last_of_def take_Suc_conv_app_nth)
qed

text \<open>The token that holds the cursor is the token at it.\<close>

lemma token_at_inside:
  assumes "site_ok E cursor" "t \<in> set (se_tokens E)" "start_of t < loffset cursor" "loffset cursor < end_of t"
  shows "getTokenAt (se_lib E) (se_buffer E) (se_tokens E) cursor = Some t"
proof -
  note ok = site_okD [OF assms(1)]
  obtain i where i: "i < length (se_tokens E)" "se_tokens E ! i = t" using assms(2) by (auto simp: in_set_conv_nth)
  have after: "loffset cursor < start_of (se_tokens E ! j)" if "i < j" "j < length (se_tokens E)" for j
    using in_order_before [OF ok(3) that] i(2) assms(4) by simp
  let ?n = "count_upto (se_tokens E) (loffset cursor)"
  have "i < ?n" using count_upto_props(3) [OF ok(3), of "loffset cursor" i] i assms(3) by force
  moreover have "\<not> Suc i < ?n"
    using count_upto_props(1) [OF ok(3), of "loffset cursor"] count_upto_props(2) [OF ok(3), of "Suc i" "loffset cursor"]
      after [of "Suc i"] by force
  ultimately have n: "?n = Suc i" by simp
  have idx: "tokenIndexBefore (se_lib E) (se_buffer E) (se_tokens E) cursor = int i"
    using tokenIndexBefore_upto [OF ok(1,3,4,5)] n by simp
  show ?thesis using idx i ok(2,5) assms(3,4) token_buffers [OF ok(3) assms(2)]
    by (auto simp: getTokenAt_def Let_def contains_inside_def)
qed

section \<open>Literals\<close>

lemma literal_site:
  assumes "site_ok E cursor" "t \<in> set (se_tokens E)" "isLiteral E t"
    and "start_of t < loffset cursor" "loffset cursor \<le> end_of t"
  shows "isLiteralSite E cursor"
proof (cases "loffset cursor < end_of t")
  case True
  have "loc_less (se_lib E) (tk_loc t) cursor"
    using site_okD [OF assms(1)] token_buffers(1) [of "se_buffer E" "se_tokens E" t] assms(2,4) by (simp add: loc_order_def)
  then show ?thesis
    using token_at_inside [OF assms(1,2,4) True] assms(3) by (simp add: isLiteralSite_def)
next
  case False
  have e: "tk_end t = cursor"
    using token_buffers(2) [OF site_okD(3) [OF assms(1)] assms(2)] site_okD(5) [OF assms(1)] assms(5) False
    by (intro location_eq) auto
  have "class_of E t \<noteq> TcApostrophe" using assms(3) by (auto simp: isLiteral_def isNumberToken_def)
  then show ?thesis
    using token_before_end [OF assms(1,2,4) e] assms(3) e by (simp add: isLiteralSite_def)
qed

text \<open>Where the cursor is inside a literal or right after its last character, the request has no
  completions, whatever triggered it and whatever the syntax around it: the query is the suppressed
  one. The tokens are in source order, and locations are ordered as slang orders them.\<close>

theorem literal_suppressed:
  assumes "site_ok E cursor" "t \<in> set (se_tokens E)" "isLiteral E t"
    and "start_of t < loffset cursor" "loffset cursor \<le> end_of t"
  shows "fst (fromLocation E cursor trigger) = SuppressedSite"
  using literal_site [OF assms] by (simp add: fromLocation_def Let_def)

section \<open>The replacement range\<close>

lemma word_target_around:
  assumes "site_ok E cursor" "word_target E cursor = Some t"
  shows "t \<in> set (se_tokens E)" "start_of t \<le> loffset cursor" "loffset cursor \<le> end_of t"
proof -
  note ok = site_okD [OF assms(1)]
  let ?c = "cursor\<lparr>loffset := loffset cursor - 1\<rparr>"
  have w: "word_at E loc = Some u \<Longrightarrow> u \<in> set (se_tokens E)" if "lbuffer loc = se_buffer E" for loc u
    using getWordTokenAt_scan [OF ok(1,3,4) that] by (auto simp: find_Some_iff)
  show t: "t \<in> set (se_tokens E)"
    using assms(2) w [of cursor] w [of ?c] ok(5) by (auto simp: word_target_def Let_def split: option.splits if_splits)
  have "\<not> loc_less (se_lib E) cursor (tk_loc t)" "\<not> loc_less (se_lib E) (tk_end t) cursor"
    using assms(2) by (auto simp: word_target_def Let_def split: option.splits if_splits)
  then show "start_of t \<le> loffset cursor" "loffset cursor \<le> end_of t"
    using ok(1,5) token_buffers [OF ok(3) t] by (auto simp: loc_order_def)
qed

lemma target_around:
  assumes "site_ok E cursor" "target_token E cursor = Some t"
  shows "t \<in> set (se_tokens E) \<and> start_of t \<le> loffset cursor \<and> loffset cursor \<le> end_of t"
proof (cases "word_target E cursor")
  case None
  then have "token_before E cursor = Some t" "tk_end t = cursor"
    using assms(2) by (auto simp: target_token_def keyword_target_def marker_target_def split: option.splits if_splits)
  then show ?thesis using token_before_props [OF assms(1) site_okD(5) [OF assms(1)]] by auto
next
  case (Some u)
  then show ?thesis using assms word_target_around [OF assms(1), of t] by (simp add: target_token_def)
qed

text \<open>C23. The range a completion replaces starts at or before the cursor and ends at or after it; it is
  the whole token at the cursor if there is one and empty otherwise. What filters the list is the part
  of that token before the cursor. The neighbouring tokens are outside: the one before ends by the
  range's start, the one after starts at or after its end.\<close>

theorem replaced_range_covers_cursor:
  assumes "site_ok E cursor"
  shows "let s = getCompletionSite E cursor; a = loffset (fst (st_range s)); c = loffset (snd (st_range s)) in
    a \<le> loffset cursor \<and> loffset cursor \<le> c
    \<and> (case st_target s of
         None \<Rightarrow> a = c \<and> st_prefix s = []
       | Some t \<Rightarrow> t \<in> set (se_tokens E) \<and> st_range s = (tk_loc t, tk_end t)
           \<and> st_prefix s = take (loffset cursor - a) (tk_raw t))
    \<and> (\<forall>t. st_before s = Some t \<longrightarrow> t \<in> set (se_tokens E) \<and> end_of t \<le> a)
    \<and> (\<forall>t. st_after s = Some t \<longrightarrow> t \<in> set (se_tokens E) \<and> c \<le> start_of t)"
proof -
  note ok = site_okD [OF assms]
  let ?s = "getCompletionSite E cursor"
  have b: "lbuffer (fst (st_range ?s)) = se_buffer E" "lbuffer (snd (st_range ?s)) = se_buffer E"
    using target_around [OF assms] token_buffers [OF ok(3)] ok(5)
    by (auto simp: getCompletionSite_def Let_def split: option.splits)
  have bef: "\<forall>t. st_before ?s = Some t \<longrightarrow> t \<in> set (se_tokens E) \<and> end_of t \<le> loffset (fst (st_range ?s))"
    using token_before_props [OF assms b(1)] by (auto simp: getCompletionSite_def Let_def)
  have "token_after E (snd (st_range ?s)) = find (\<lambda>t. loffset (snd (st_range ?s)) \<le> start_of t) (se_tokens E)"
    by (rule getTokenAfter_scan [OF ok(1,3) b(2)])
  then have aft: "\<forall>t. st_after ?s = Some t \<longrightarrow> t \<in> set (se_tokens E) \<and> loffset (snd (st_range ?s)) \<le> start_of t"
    by (auto simp: getCompletionSite_def Let_def find_Some_iff)
  show ?thesis
    using bef aft target_around [OF assms]
    by (cases "target_token E cursor") (auto simp: getCompletionSite_def Let_def min_def)
qed

section \<open>Witnesses\<close>

definition sample_env :: site_env where
  "sample_env = \<lparr>se_lib = sample_lib, se_buffer = 1, se_tokens = sample_tokens,
     se_class = (\<lambda>k. if k = LexOther 0 then TcInteger else TcIdentifier), se_keyword = (\<lambda>_. False),
     se_trivia = (\<lambda>_. []), se_nodes = (\<lambda>_. []), se_instance = (\<lambda>_. None), se_pattern = (\<lambda>_. False)\<rparr>"

lemma sample_env_ok: "site_ok sample_env (loc_at 1 i)"
  using sample_lib_ok(1) sample_tokens_ok by (simp add: site_ok_def sample_env_def contains_inside_def sample_lib_def)

theorem literal_suppressed_witness: "fst (fromLocation sample_env (loc_at 1 5) (Some ''('')) = SuppressedSite"
  by (rule literal_suppressed [OF sample_env_ok, where t = "sample_token 1 (LexOther 0) 3 5"])
    (simp_all add: sample_env_def sample_tokens_def sample_token_def isLiteral_def isNumberToken_def)

theorem replaced_range_covers_cursor_witness:
  "let s = getCompletionSite sample_env (loc_at 1 2); a = loffset (fst (st_range s)); c = loffset (snd (st_range s)) in
    a \<le> loffset (loc_at 1 2) \<and> loffset (loc_at 1 2) \<le> c
    \<and> (case st_target s of
         None \<Rightarrow> a = c \<and> st_prefix s = []
       | Some t \<Rightarrow> t \<in> set (se_tokens sample_env) \<and> st_range s = (tk_loc t, tk_end t)
           \<and> st_prefix s = take (loffset (loc_at 1 2) - a) (tk_raw t))
    \<and> (\<forall>t. st_before s = Some t \<longrightarrow> t \<in> set (se_tokens sample_env) \<and> end_of t \<le> a)
    \<and> (\<forall>t. st_after s = Some t \<longrightarrow> t \<in> set (se_tokens sample_env) \<and> c \<le> start_of t)"
  by (rule replaced_range_covers_cursor [OF sample_env_ok])

text \<open>A trigger character with no token at the cursor never opens the general list.\<close>

lemma trigger_needs_token:
  assumes "fst (fromLocation E cursor (Some c)) = LexicalSite f i"
  shows "st_target (getCompletionSite E cursor) \<noteq> None"
  using assms by (auto simp: fromLocation_def Let_def split: if_splits option.splits)

end
