(* ===== verification/StructPatterns.thy ===== *)
theory StructPatterns
  imports MemberQueries
begin

text \<open>
  Completions in assignment patterns (\<open>src/completions/AssignmentPatternCompletions.cpp\<close>): the
  whole pattern offered after \<open>'{\<close>, with one place per field and the delimiters the parser is
  missing, and the fields not yet given inside a structured pattern.

  The pattern's syntax is what the code reads of it; the type of the pattern is its members in order.
\<close>

section \<open>The pattern\<close>

text \<open>What the parent of the pattern says of the delimiter after it. \<open>ItemOf own brace\<close>: an item of
  an outer pattern, whether the pattern is its expression, and whether the outer pattern is structured
  with a missing brace. \<open>AssignedBy own semi\<close> and \<open>InitialOf own semi\<close>: the right hand side of an
  assignment, the value of a declarator, and whether the semicolon of the statement or declaration
  is missing, if it is of a kind the code knows.\<close>

datatype pattern_parent =
    NoParent
  | ItemOf bool bool
  | AssignedBy bool "bool option"
  | InitialOf bool "bool option"
  | OtherParent

datatype pattern_key = DefaultKey | NameKey string | OtherKey

datatype pattern_syntax =
    SimplePattern "bool list" bool nat        \<comment> \<open>items missing, brace missing, line of the brace\<close>
  | StructuredPattern "(nat \<times> nat \<times> pattern_key) list"
  | OtherPattern

record pattern_site =
  ps_scope :: "(bool \<times> member \<times> string) list option"  \<comment> \<open>is a field, the member, its type text\<close>
  ps_struct :: bool
  ps_pattern :: "(pattern_syntax \<times> pattern_parent) option"
  ps_cursor :: nat
  ps_line :: nat
  ps_after_close :: "string option"           \<comment> \<open>the token after the brace, when it is not missing\<close>
  ps_parentSymbol :: member
  ps_uri :: string
  ps_defer :: bool

definition needsComma :: "pattern_parent \<Rightarrow> bool" where
  "needsComma p \<longleftrightarrow> (case p of ItemOf own brace \<Rightarrow> own \<and> brace | _ \<Rightarrow> False)"

definition needsSemicolon :: "pattern_parent \<Rightarrow> bool" where
  "needsSemicolon p \<longleftrightarrow> (case p of
     AssignedBy own semi \<Rightarrow> own \<and> semi = Some True
   | InitialOf own semi \<Rightarrow> own \<and> semi = Some True
   | _ \<Rightarrow> False)"

definition trailingDelimiter :: "pattern_parent \<Rightarrow> string" where
  "trailingDelimiter p = (if needsComma p then '','' else if needsSemicolon p then '';'' else [])"

section \<open>The whole pattern\<close>

text \<open>The loop over the members: the snippet, the label and whether no field was written yet.\<close>

definition pattern_field :: "bool \<times> member \<times> string \<Rightarrow> snippet \<times> string \<times> bool \<Rightarrow> snippet \<times> string \<times> bool" where
  "pattern_field f st =
    (let (is_field, m, t) = f; (s, label, first) = st in
     if \<not> is_field \<or> mb_name m = [] then st
     else let s = (if first then s else snippet_appendText s ('','' @ [nl_char, tab_char]));
              label = (if first then label else label @ '', '')
          in (appendTabstop (snippet_appendText (snippet_appendText s (mb_name m)) '': '') None, label @ mb_name m, False))"

definition pattern_open :: string where
  "pattern_open = [CHR 0x27, CHR ''{'']"

definition close_snippet :: "bool \<Rightarrow> bool \<Rightarrow> string \<Rightarrow> snippet \<Rightarrow> snippet" where
  "close_snippet closeBraceMissing same_line delimiter s =
     (if closeBraceMissing \<or> same_line then
        (let s = snippet_appendText s [nl_char] in
         if closeBraceMissing then snippet_appendText (snippet_appendText s ''}'') delimiter else s)
      else s)"

text \<open>The item, and the text inserted after the brace that is already there.\<close>

definition structAssignItem :: "pattern_site \<Rightarrow> (completion_item \<times> string option) option" where
  "structAssignItem S =
    (case (ps_scope S, ps_pattern S) of
       (Some members, Some (SimplePattern missing closeBraceMissing closeLine, parent)) \<Rightarrow>
        (if \<not> list_all (\<lambda>m. m) missing \<or> \<not> ps_struct S then None
         else let start = snippet_appendText (snippet_new []) [nl_char, tab_char];
                  (s, label, first) = fold pattern_field members (start, pattern_open, True);
                  delimiter = trailingDelimiter parent;
                  label = label @ ''}'';
                  s = close_snippet closeBraceMissing (closeLine = ps_line S) delimiter s;
                  item = (plain_item label CK_Snippet)\<lparr>ci_sortText := Some ''0'', ci_filterText := Some label,
                    ci_insertText := Some (snip_value s), ci_insertTextFormat := Some SnippetFormat\<rparr>;
                  hasTrailingDelimiter = (\<not> closeBraceMissing \<and> ps_after_close S = Some delimiter)
              in if first then None
                 else Some (item, if delimiter \<noteq> [] \<and> \<not> closeBraceMissing \<and> \<not> hasTrailingDelimiter
                                  then Some delimiter else None))
     | _ \<Rightarrow> None)"

section \<open>Single fields\<close>

definition existing_fields :: "pattern_site \<Rightarrow> string list" where
  "existing_fields S = (case ps_pattern S of
     Some (StructuredPattern items, _) \<Rightarrow> List.map_filter (\<lambda>(a, c, key).
       if a \<le> ps_cursor S \<and> ps_cursor S \<le> c then None
       else case key of NameKey n \<Rightarrow> Some n | _ \<Rightarrow> None) items
   | _ \<Rightarrow> [])"

definition has_default :: "pattern_site \<Rightarrow> bool" where
  "has_default S = (case ps_pattern S of
     Some (StructuredPattern items, _) \<Rightarrow>
       list_ex (\<lambda>(a, c, key). \<not> (a \<le> ps_cursor S \<and> ps_cursor S \<le> c) \<and> key = DefaultKey) items
   | _ \<Rightarrow> False)"

definition key_snippet :: "string \<Rightarrow> bool \<Rightarrow> completion_item \<Rightarrow> completion_item" where
  "key_snippet key followedByColon item =
     (if followedByColon then item
      else item\<lparr>ci_insertText := Some (snip_value (appendTabstop (snippet_appendText
                  (snippet_appendText (snippet_new []) key) '': '') None)),
                ci_insertTextFormat := Some SnippetFormat\<rparr>)"

definition structMemberItems :: "pattern_site \<Rightarrow> bool \<Rightarrow> completion_item list" where
  "structMemberItems S followedByColon =
    (case ps_scope S of
       None \<Rightarrow> []
     | Some members \<Rightarrow>
        concat (map (\<lambda>(is_field, m, t).
          if \<not> is_field \<or> mb_name m = [] \<or> mb_name m \<in> set (existing_fields S) then []
          else [key_snippet (mb_name m) followedByColon
            ((projr (getHierarchicalCompletion (ps_parentSymbol S) m t (ps_uri S) False (ps_defer S) []))
              \<lparr>ci_kind := Some CK_Field\<rparr>)]) members)
        @ (if has_default S then [] else
             [if followedByColon then plain_item ''default'' CK_Keyword
              else (plain_item ''default'' CK_Keyword)
                \<lparr>ci_insertText := Some (snip_value (appendTabstop (snippet_appendText (snippet_new []) ''default: '') None)),
                 ci_insertTextFormat := Some SnippetFormat\<rparr>]))"

section \<open>The inserted text\<close>

definition written_fields :: "(bool \<times> member \<times> string) list \<Rightarrow> string list" where
  "written_fields ms = map (\<lambda>(f, m, t). mb_name m) (filter (\<lambda>(f, m, t). f \<and> mb_name m \<noteq> []) ms)"

fun field_lines :: "string list \<Rightarrow> string" where
  "field_lines [] = []"
| "field_lines [x] = x @ '': ''"
| "field_lines (x # y # ys) = x @ '': ,'' @ [nl_char, tab_char] @ field_lines (y # ys)"

lemma field_lines_snoc:
  "field_lines (xs @ [x]) = (if xs = [] then [] else field_lines xs @ '','' @ [nl_char, tab_char]) @ x @ '': ''"
  by (induction xs rule: field_lines.induct) auto

definition stops_of :: "piece list \<Rightarrow> nat list" where
  "stops_of ps = concat (map (\<lambda>p. case p of Stop n \<Rightarrow> [n] | _ \<Rightarrow> []) ps)"

text \<open>A snippet that reads back as a text with the stops 1 to \<open>n\<close>, and hands out \<open>n + 1\<close> next.\<close>

definition stepped :: "snippet \<Rightarrow> string \<Rightarrow> nat \<Rightarrow> bool" where
  "stepped s t n \<longleftrightarrow> (\<exists>ops. s = snip_run (snippet_new []) ops \<and> readable ops
     \<and> shown (run_pieces (snippet_new []) ops) = t \<and> stops_of (run_pieces (snippet_new []) ops) = [1 ..< Suc n])
     \<and> snip_tabstop s = int n + 1"

lemma stepped_run:
  assumes "stepped s t n" "readable ops" "\<not> digit_first ops" "snip_tabstop (snip_run s ops) = int m + 1"
    and "shown (run_pieces s ops) = u" "[1 ..< Suc n] @ stops_of (run_pieces s ops) = [1 ..< Suc m]"
  shows "stepped (snip_run s ops) (t @ u) m"
proof -
  obtain pre where "s = snip_run (snippet_new []) pre" "readable pre" "shown (run_pieces (snippet_new []) pre) = t"
    "stops_of (run_pieces (snippet_new []) pre) = [1 ..< Suc n]"
    using assms(1) by (auto simp: stepped_def)
  then show ?thesis
    using assms(2-6) unfolding stepped_def
    by (intro conjI exI [of _ "pre @ ops"])
      (simp_all add: snip_run_append run_pieces_append readable_append, simp_all add: stops_of_def)
qed

lemma stops_literal: "stops_of (literal t) = []"
  by (simp add: stops_of_def)

lemma stepped_text:
  assumes "stepped s t n" "u = [] \<or> \<not> isdigit (hd u)"
  shows "stepped (snippet_appendText s u) (t @ u) n"
  using stepped_run [OF assms(1), of "[OpText u]" n u] assms
  by (auto simp: snip_run_def stops_literal stepped_def snippet_appendText_def)

lemma stepped_tabstop:
  assumes "stepped s t n"
  shows "stepped (appendTabstop s None) t (Suc n)"
proof -
  have "snip_tabstop s = int n + 1" using assms by (simp add: stepped_def)
  then have "snip_tabstop (appendTabstop s None) = int (Suc n) + 1" "fst (nextTabstop s None) = int n + 1"
    by (simp_all add: appendTabstop_def nextTabstop_def)
  then show ?thesis
    using stepped_run [OF assms, of "[OpTabstop None]" "Suc n" "[]"] by (simp add: snip_run_def stops_of_def)
qed

lemma pattern_loop:
  assumes "stepped s0 t0 0" "list_all (\<lambda>(f, m, t). mb_name m = [] \<or> \<not> isdigit (hd (mb_name m))) ms"
  shows "\<exists>s. fold pattern_field ms (s0, l0, True)
      = (s, l0 @ comma_join (written_fields ms), written_fields ms = [])
    \<and> stepped s (t0 @ field_lines (written_fields ms)) (length (written_fields ms))"
  using assms(2)
proof (induction ms rule: rev_induct)
  case Nil
  then show ?case using assms(1) by (simp add: written_fields_def)
next
  case (snoc f ms)
  obtain is_field m t where f: "f = (is_field, m, t)" by (cases f) auto
  let ?ws = "written_fields ms"
  obtain s where s: "fold pattern_field ms (s0, l0, True) = (s, l0 @ comma_join ?ws, ?ws = [])"
    "stepped s (t0 @ field_lines ?ws) (length ?ws)" using snoc by auto
  show ?case
  proof (cases "is_field \<and> mb_name m \<noteq> []")
    case False
    then have "written_fields (ms @ [f]) = ?ws" using f by (auto simp: written_fields_def)
    moreover have "pattern_field f st = st" for st using False f by (auto simp: pattern_field_def)
    ultimately show ?thesis using s by simp
  next
    case True
    let ?s = "if ?ws = [] then s else snippet_appendText s ('','' @ [nl_char, tab_char])"
    have "\<not> isdigit (hd (mb_name m))" using snoc.prems True f by auto
    have "stepped ?s (t0 @ (if ?ws = [] then [] else field_lines ?ws @ '','' @ [nl_char, tab_char])) (length ?ws)"
      using s(2) stepped_text [OF s(2), of "'','' @ [nl_char, tab_char]"] by (cases "?ws = []") (simp_all add: isdigit_def)
    from stepped_text [OF this, of "mb_name m"]
    have "stepped (snippet_appendText ?s (mb_name m))
        ((t0 @ (if ?ws = [] then [] else field_lines ?ws @ '','' @ [nl_char, tab_char])) @ mb_name m) (length ?ws)"
      using \<open>\<not> isdigit (hd (mb_name m))\<close> by simp
    from stepped_tabstop [OF stepped_text [OF this, of "'': ''"]]
    have "stepped (appendTabstop (snippet_appendText (snippet_appendText ?s (mb_name m)) '': '') None)
        (t0 @ field_lines (?ws @ [mb_name m])) (Suc (length ?ws))"
      by (simp add: isdigit_def field_lines_snoc)
    moreover have "written_fields (ms @ [f]) = ?ws @ [mb_name m]" using True f by (simp add: written_fields_def)
    moreover have "pattern_field f (s, l, first) = (appendTabstop (snippet_appendText (snippet_appendText
          (if first then s else snippet_appendText s ('','' @ [nl_char, tab_char])) (mb_name m)) '': '') None,
        (if first then l else l @ '', '') @ mb_name m, False)" for l first
      using True f by (simp add: pattern_field_def Let_def)
    ultimately show ?thesis
      using s(1) by (simp add: comma_join_snoc)
  qed
qed

definition sample_field :: "string \<Rightarrow> member" where
  "sample_field name = \<lparr>mb_symbol = Symbol \<lparr>sym_id = 0, sym_kind = Field, sym_location = 0,
       definitionKind = DefModule, isLocalParam = False, alias_isEnum = False\<rparr> None,
     mb_name = name, mb_is_type = False, mb_is_value = True, mb_loc_valid = True, mb_no_location = False,
     mb_location = \<lparr>lbuffer = 1, loffset = 0\<rparr>, mb_path = name, mb_parent = None,
     mb_shape = DsOther None True None ''Field'', mb_arguments = None, mb_return_type = [],
     mb_block = None, mb_parent_block = None, mb_typed_description = None, mb_lexical_path = []\<rparr>"

section \<open>Properties\<close>

text \<open>After \<open>'{\<close> the item of the whole pattern inserts one line per field of the struct, the
  name, a colon and a tab stop of its own, the stops numbered in order from one; then, where the closing
  brace is missing, the brace with the comma or semicolon that is missing after it, and otherwise at most
  a line break, the delimiter being added after the existing brace unless it is there already.\<close>

theorem struct_pattern_inserted:
  assumes "ps_scope S = Some members" and "ps_pattern S = Some (SimplePattern missing closeBraceMissing closeLine, parent)"
    and "list_all (\<lambda>m. m) missing" "ps_struct S" "written_fields members \<noteq> []"
    and "list_all (\<lambda>(f, m, t). mb_name m = [] \<or> \<not> isdigit (hd (mb_name m))) members"
  shows "\<exists>item after ps. structAssignItem S = Some (item, after)
    \<and> ci_label item = pattern_open @ comma_join (written_fields members) @ ''}''
    \<and> map_option snip_read (ci_insertText item) = Some (Some ps)
    \<and> stops_of ps = [1 ..< Suc (length (written_fields members))]
    \<and> shown ps = [nl_char, tab_char] @ field_lines (written_fields members)
        @ (if closeBraceMissing then [nl_char] @ ''}'' @ trailingDelimiter parent
           else if closeLine = ps_line S then [nl_char] else [])
    \<and> after = (if closeBraceMissing \<or> trailingDelimiter parent = []
                  \<or> ps_after_close S = Some (trailingDelimiter parent)
               then None else Some (trailingDelimiter parent))"
proof -
  let ?d = "trailingDelimiter parent"
  have d: "?d = [] \<or> \<not> isdigit (hd ?d)" by (simp add: trailingDelimiter_def isdigit_def)
  have "readable [OpText [nl_char, tab_char]]" by simp
  then have "stepped (snippet_appendText (snippet_new []) [nl_char, tab_char]) [nl_char, tab_char] 0"
    unfolding stepped_def
    by (intro conjI exI [of _ "[OpText [nl_char, tab_char]]"])
      (simp_all add: snip_run_def stops_of_def snippet_appendText_def snippet_new_def)
  from pattern_loop [OF this assms(6), of pattern_open] obtain s where
    s: "fold pattern_field members (snippet_appendText (snippet_new []) [nl_char, tab_char], pattern_open, True)
        = (s, pattern_open @ comma_join (written_fields members), False)"
    "stepped s ([nl_char, tab_char] @ field_lines (written_fields members)) (length (written_fields members))"
    using assms(5) by auto
  let ?tail = "if closeBraceMissing then [nl_char] @ ''}'' @ ?d else if closeLine = ps_line S then [nl_char] else []"
  let ?s = "close_snippet closeBraceMissing (closeLine = ps_line S) ?d s"
  have nl: "stepped (snippet_appendText s [nl_char])
      ([nl_char, tab_char] @ field_lines (written_fields members) @ [nl_char]) (length (written_fields members))"
    using stepped_text [OF s(2), of "[nl_char]"] by (simp add: isdigit_def)
  have "stepped ?s ([nl_char, tab_char] @ field_lines (written_fields members) @ ?tail) (length (written_fields members))"
    using s(2) nl stepped_text [OF stepped_text [OF nl, of "''}''"], of ?d] d
    by (auto simp: close_snippet_def Let_def isdigit_def)
  then obtain ops where ops: "?s = snip_run (snippet_new []) ops" "readable ops"
    "shown (run_pieces (snippet_new []) ops) = [nl_char, tab_char] @ field_lines (written_fields members) @ ?tail"
    "stops_of (run_pieces (snippet_new []) ops) = [1 ..< Suc (length (written_fields members))]"
    by (auto simp: stepped_def)
  have r: "snip_read (snip_value ?s) = Some (run_pieces (snippet_new []) ops)"
    using snip_read_run [OF ops(2), of "snippet_new []"] ops(1) by (simp add: snip_run_value snippet_new_def)
  show ?thesis
    using s(1) assms(1-4) ops(3,4) r
    by (auto simp: structAssignItem_def Let_def plain_item_def)
qed

definition packet_members :: "(bool \<times> member \<times> string) list" where
  "packet_members = [(True, sample_field ''addr'', ''int''), (True, sample_field ''data'', ''byte'')]"

definition packet_site :: pattern_site where
  "packet_site = \<lparr>ps_scope = Some packet_members,
     ps_struct = True, ps_pattern = Some (SimplePattern [True] True 0, InitialOf True (Some True)), ps_cursor = 9, ps_line = 0,
     ps_after_close = None, ps_parentSymbol = sample_field ''p'', ps_uri = ''file:///a.sv'', ps_defer = True\<rparr>"

theorem struct_pattern_inserted_witness:
  "\<exists>item after ps. structAssignItem packet_site = Some (item, after)
    \<and> ci_label item = pattern_open @ comma_join [''addr'', ''data''] @ ''}''
    \<and> map_option snip_read (ci_insertText item) = Some (Some ps)
    \<and> stops_of ps = [1, 2]
    \<and> shown ps = [nl_char, tab_char] @ ''addr: ,'' @ [nl_char, tab_char] @ ''data: '' @ [nl_char] @ ''};''
    \<and> after = None"
proof -
  have w: "written_fields packet_members = [''addr'', ''data'']" by code_simp
  have n: "list_all (\<lambda>(f, m, t). mb_name m = [] \<or> \<not> isdigit (hd (mb_name m))) packet_members"
    by (simp add: packet_members_def sample_field_def isdigit_def)
  have d: "trailingDelimiter (InitialOf True (Some True)) = '';''" by code_simp
  show ?thesis
    using struct_pattern_inserted [of packet_site packet_members "[True]" True 0 "InitialOf True (Some True)"] n
    by (simp add: w d packet_site_def upt_rec numeral_2_eq_2)
qed

end
