(* ===== verification/TokenLegend.thy ===== *)
theory TokenLegend
  imports SemanticTokens
begin

text \<open>
  The legend of the semantic tokens: every class that the collector gives a token, and with it
  every group of numbers sent to the client, uses the types and modifiers that the server
  announced in its legend.
\<close>

section \<open>Typing of token classes\<close>

definition legend_modifiers :: "u32 \<Rightarrow> bool" where
  "legend_modifiers m \<longleftrightarrow> take_bit (length modifier_names) m = m"

definition legend_class :: "token_class \<Rightarrow> bool" where
  "legend_class cls \<longleftrightarrow> legend_modifiers (c_modifiers cls)"

abbreviation legend_result :: "token_class option \<Rightarrow> bool" where
  "legend_result r \<equiv> pred_option legend_class r"

lemma type_in_legend: "type_index ty < length type_names"
  by (cases ty) (simp_all add: type_names_def)

lemma legend_modifiers_less: "legend_modifiers m \<longleftrightarrow> m < 2 ^ length modifier_names"
proof -
  have "take_bit 4 m = m \<longleftrightarrow> take_bit 4 (unat m) = unat m"
    by (simp add: word_unat_eq_iff unsigned_take_bit_eq)
  moreover have "length modifier_names = 4" by (simp add: modifier_names_def)
  ultimately show ?thesis
    by (simp add: legend_modifiers_def take_bit_nat_eq_self_iff word_less_nat_alt)
qed

lemma legend_zero [simp]: "legend_modifiers 0"
  by (simp add: legend_modifiers_def)

lemma legend_or [simp]: "legend_modifiers a \<Longrightarrow> legend_modifiers b \<Longrightarrow> legend_modifiers (or a b)"
  by (simp add: legend_modifiers_def take_bit_or)

lemma legend_bit [simp]: "legend_modifiers (modifierBit md)"
  by (cases md) (simp_all add: legend_modifiers_less modifierBit_def modifier_names_def)

lemma legend_add [simp]: "legend_class cls \<Longrightarrow> legend_class (add_modifier md cls)"
  by (simp add: legend_class_def add_modifier_def)

lemma legend_plain [simp]: "legend_class (plain_class s ty)"
  by (simp add: legend_class_def plain_class_def)

lemma legend_syntax [simp]: "legend_modifiers m \<Longrightarrow> legend_result (syntax_class ty m)"
  by (simp add: legend_class_def syntax_class_def)

lemma legend_package [simp]: "legend_result (package_class lk n)"
  by (cases "getPackage lk n") (simp_all add: legend_class_def package_class_def)

lemma legend_or_else [simp]:
  "legend_result x \<Longrightarrow> legend_result y \<Longrightarrow> legend_result (or_else x y)"
  by (cases x) (simp_all add: or_else_def)

lemma legend_symbol [simp]: "legend_result (classifySymbol s)"
  by (induction s rule: classifySymbol.induct)
     (auto simp: Let_def split: Symbols.symbol_kind.split definition_kind.split option.split)

lemma legend_symbolD: "classifySymbol s = Some cls \<Longrightarrow> legend_class cls"
  using legend_symbol [of s] by simp

lemma legend_best: "legend_result best \<Longrightarrow> legend_result (classifyBest_from best ss)"
proof (induction ss arbitrary: best)
  case (Cons s ss)
  show ?case
    by (cases s; cases best)
       (use Cons in \<open>auto dest: legend_symbolD intro!: Cons.IH split: option.split\<close>)
qed simp

lemma legend_bestD: "classifyBest ss = Some cls \<Longrightarrow> legend_class cls"
  using legend_best [of None ss] by (simp add: classifyBest_def)

lemma legend_best_of [simp]: "legend_result (classifyBest ss)"
  by (simp add: classifyBest_def legend_best)

lemma legend_indexed [simp]: "legend_result (classifyIndexed lk tok)"
  by (auto simp: classifyIndexed_def dest: legend_bestD split: list.split option.split)

lemma legend_written [simp]: "legend_result (classifySyntax lk tok)"
  by (auto simp: classifySyntax_def split: list.split node_shape.split)

lemma legend_reference [simp]: "legend_result (classifyReference lk tok)"
  by (auto simp: classifyReference_def Let_def split: option.split intro!: legend_or_else)

lemma legend_token: "legend_result (classifyToken lk tok)"
  by (simp add: classifyToken_def)

section \<open>Typing of the tokens sent\<close>

definition legend_tokens :: "semantic_token list \<Rightarrow> bool" where
  "legend_tokens ts \<longleftrightarrow> list_all (\<lambda>t. legend_modifiers (st_modifiers t)) ts"

lemma legend_one: "collect_one lk t = Some st \<Longrightarrow> legend_modifiers (st_modifiers st)"
  using legend_token [of lk]
  by (auto simp: collect_one_def legend_class_def pred_option_def split: option.splits if_splits)

lemma legend_collected:
  "collectTokens_from lk c n ts acc = Inr r \<Longrightarrow> legend_tokens acc \<Longrightarrow> legend_tokens r"
  by (induction lk c n ts acc arbitrary: r rule: collectTokens_from.induct)
     (auto simp: legend_tokens_def dest: legend_one split: if_splits option.splits)

text \<open>Numbers in groups of five whose type and modifiers the legend names.\<close>

fun legend_groups :: "u32 list \<Rightarrow> bool" where
  "legend_groups [] = True"
| "legend_groups (dl # dc # len # ty # md # ds) =
     (unat ty < length type_names \<and> md < 2 ^ length modifier_names \<and> legend_groups ds)"
| "legend_groups _ = False"

lemma legend_groups_append: "legend_groups xs \<Longrightarrow> legend_groups ys \<Longrightarrow> legend_groups (xs @ ys)"
  by (induction xs rule: legend_groups.induct) simp_all

lemma legend_emit: "legend_modifiers (st_modifiers t) \<Longrightarrow> legend_groups (emit_token prev p t)"
  using type_in_legend [of "st_type t"]
  by (simp add: emit_token_def legend_modifiers_less type_names_def unat_of_nat)

lemma legend_encoded:
  "encode_loop L c text ls rg n prev ts data = Inr r \<Longrightarrow> legend_tokens ts \<Longrightarrow> legend_groups data
    \<Longrightarrow> legend_groups r"
  by (induction L c "text" ls rg n prev ts data arbitrary: r rule: encode_loop.induct)
     (auto simp: legend_tokens_def legend_groups_append legend_emit
       split: if_splits sum.splits option.splits)

lemma legend_decoded:
  "legend_groups data \<Longrightarrow> (l, ch, n, ty, md) \<in> set (decode_rel lc data) \<Longrightarrow>
    unat ty < length type_names \<and> md < 2 ^ length modifier_names"
  by (induction lc data rule: decode_rel.induct) (auto simp: Let_def)

lemma legend_groups_length: "legend_groups data \<Longrightarrow> length data mod 5 = 0"
  by (induction data rule: legend_groups.induct) (simp_all add: mod_Suc)

section \<open>Property\<close>

text \<open>C39. What the client receives is well-formed: the numbers encoded for the tokens the
  collector found come in whole groups of five, and in each group the type is an index of the
  announced list of token types and the modifiers are a set of the announced modifiers,
  whatever slang's lookups answer.\<close>

theorem sent_tokens_in_legend:
  assumes "collectSemanticTokens lk cancelled toks = Inr ts"
    and "encodeSemanticTokens L computeLineOffsets stopped text ts rg = Inr data"
  shows "length data mod 5 = 0 \<and> list_all (\<lambda>(l, ch, n, ty, md). unat ty < length type_names
    \<and> md < 2 ^ length modifier_names) (decode_rel (0, 0) data)"
proof -
  have "legend_tokens ts"
    using assms(1) by (auto simp: collectSemanticTokens_def legend_tokens_def dest!: legend_collected)
  then have "legend_groups data"
    using assms(2) by (auto simp: encodeSemanticTokens_def Let_def dest: legend_encoded split: if_splits)
  then show ?thesis
    by (auto simp: list_all_iff legend_groups_length dest: legend_decoded)
qed

theorem sent_tokens_in_legend_witness:
  "length [0, 0, 2, 11, 8 :: u32] mod 5 = 0 \<and> list_all (\<lambda>(l, ch, n, ty, md).
     unat ty < length type_names \<and> md < 2 ^ length modifier_names)
     (decode_rel (0, 0) [0, 0, 2, 11, 8])"
proof (rule sent_tokens_in_legend)
  show "collectSemanticTokens empty_lookups (\<lambda>_. False)
    [Some \<lparr>tok_id = 1, tok_kind = SystemIdentifier, tok_missing = False, tok_raw = ''$d'',
       tok_value = ''$d'', tok_offset = 0\<rparr>, None] =
    Inr [\<lparr>st_offset = 0, st_length = 2, st_type = TT_Function, st_modifiers = 8\<rparr>]"
    by (simp add: collectSemanticTokens_def collect_one_def isInactive_def sorted_regions_def
        empty_lookups_def token_extent_def classifyToken_def syntax_class_def modifierBit_def)
  show "encodeSemanticTokens sample_utf8 lf_offsets (\<lambda>_. False) ''$d''
    [\<lparr>st_offset = 0, st_length = 2, st_type = TT_Function, st_modifiers = 8\<rparr>] None =
    Inr [0, 0, 2, 11, 8]"
    by code_simp
qed

end
