(* ===== verification/Outline.thy ===== *)
theory Outline
  imports Positions
begin

text \<open>
  The outline of a document, from src/document/SymbolTreeVisitor.cpp: the visitor that turns a
  syntax tree into the tree of document symbols, with the macros the file defines. slang's tree
  is data: a node is the tokens and texts its handler reads, its source range, and its child
  nodes in order, those of a syntax list in place of the list. What \<open>SyntaxPrinter\<close> prints is
  a text stored at the node. \<open>isMacroLoc\<close> and \<open>getFullyOriginalLoc\<close> of the source manager are
  fields of the environment beside the members that the conversions of Positions call.
\<close>

section \<open>Syntax and symbols\<close>

record name_token =
  nt_value :: string
  nt_range :: source_range

datatype outline_shape =
    GenerateBlock (begin_name: "name_token option") (block_label: "name_token option")
      (begin_keyword: name_token)
  | ModuleDeclaration (header_name: "name_token option")
  | ClassDeclaration (class_name: name_token)
  | TypedefDeclaration (typedef_name: name_token) (typedef_keyword: name_token) (is_enum: bool)
  | ForwardTypedef (typedef_name: name_token) (typedef_keyword: name_token)
  | HierarchyInstantiation (instantiated: name_token) (printed_params: "string option")
  | HierarchicalInstance (instance_decl: "name_token option")
  | ProceduralBlock (block_keyword: name_token)
  | ConditionalStatement (if_keyword: name_token)
  | ElseClause (else_keyword: name_token) (else_if: "name_token option")
  | ForLoopStatement (for_keyword: name_token)
  | CaseStatement (case_keyword: name_token)
  | FunctionDeclaration (first_token: name_token) (prototype_name: "(string \<times> source_range) option")
  | NetDeclaration (printed_type: string)
  | LocalVariableDeclaration (printed_type: string)
  | DataDeclaration (printed_type: string)
  | StructUnionMember (printed_type: string)
  | ParameterDeclaration (printed_type: string)
  | EnumType
  | PortDeclaration (printed_header: string)
  | ImplicitAnsiPort (printed_header: string) (port_declarator: name_token)
  | ParameterDeclarationStatement
  | Member (member_token: name_token)
  | Declarator (declared_name: name_token)
  | OtherSyntax

datatype outline_node =
  Node (node_shape: outline_shape) (node_range: source_range) (node_children: "outline_node list")

datatype outline_kind =
    OK_Module | OK_Class | OK_Enum | OK_Struct | OK_Object | OK_Event | OK_Function | OK_Variable
  | OK_Field | OK_EnumMember | OK_Interface | OK_TypeParameter | OK_Constant

datatype document_symbol = DocumentSymbol
  (sy_name: string) (sy_detail: "string option") (sy_kind: outline_kind) (sy_range: lsp_range)
  (sy_selection: lsp_range) (sy_children: "document_symbol list option")

record outline_env =
  oe_utf8 :: utf8_lib
  oe_sm :: source_manager
  isMacroLoc :: "source_location \<Rightarrow> bool"
  getFullyOriginalLoc :: "source_location \<Rightarrow> source_location"
  m_buffer :: nat

abbreviation shown_range :: "outline_env \<Rightarrow> source_range \<Rightarrow> lsp_range" where
  "shown_range E rg \<equiv> toRange (oe_utf8 E) (oe_sm E) rg"

abbreviation token_start :: "name_token \<Rightarrow> source_location" where
  "token_start t \<equiv> fst (nt_range t)"

section \<open>Names and ranges\<close>

definition extractRange ::
  "outline_env \<Rightarrow> name_token \<Rightarrow> outline_kind \<Rightarrow> string option \<Rightarrow> string option \<Rightarrow> bool
     \<Rightarrow> document_symbol option" where
  "extractRange E token kind detail overrideName allowMacroLocation =
     (if lbuffer (getFullyOriginalLoc E (token_start token)) \<noteq> m_buffer E
         \<or> \<not> allowMacroLocation \<and> isMacroLoc E (token_start token) then None
      else (let range = shown_range E (nt_range token) in
        if nt_value token = [] then
          (case overrideName of None \<Rightarrow> None
           | Some name \<Rightarrow> Some (DocumentSymbol name detail kind range range None))
        else Some (DocumentSymbol (nt_value token) detail kind range range None)))"

text \<open>\<open>find_first_not_of\<close> leaves a text of blanks alone.\<close>

definition nodeStr :: "string \<Rightarrow> string" where
  "nodeStr printed = (let kept = dropWhile (\<lambda>c. c = CHR 0x0A \<or> c = CHR 0x0D \<or> c = CHR '' '') printed in
     if kept = [] then printed else kept)"

fun with_range :: "lsp_range \<Rightarrow> document_symbol \<Rightarrow> document_symbol" where
  "with_range rg (DocumentSymbol n d k _ sel cs) = DocumentSymbol n d k rg sel cs"

fun with_selection :: "lsp_range \<Rightarrow> document_symbol \<Rightarrow> document_symbol" where
  "with_selection sel (DocumentSymbol n d k rg _ cs) = DocumentSymbol n d k rg sel cs"

fun with_children :: "document_symbol list \<Rightarrow> document_symbol \<Rightarrow> document_symbol" where
  "with_children [] s = s"
| "with_children cs (DocumentSymbol n d k rg sel _) = DocumentSymbol n d k rg sel (Some cs)"

text \<open>What a handler appends to the current level: nothing for a node that starts in a macro or a
  symbol without a name, else the symbol with the range of its node and what the visit of the
  children appended to a level of their own.\<close>

definition handleRecursive ::
  "outline_env \<Rightarrow> source_range \<Rightarrow> document_symbol \<Rightarrow> document_symbol list \<Rightarrow> document_symbol list"
where
  "handleRecursive E rg s children =
     (if isMacroLoc E (fst rg) then []
      else (let s' = with_children children (with_range (shown_range E rg) s) in
        if sy_name s' = [] then [] else [s']))"

section \<open>Handlers\<close>

text \<open>What a handler does with its node: nothing, the default visit of the children, a symbol
  around the children, a symbol alone, or a symbol for each declarator.\<close>

datatype reaction =
    Ignored
  | Descend
  | Around document_symbol
  | Alone document_symbol
  | PerDeclarator outline_kind "string option"

definition around_or :: "reaction \<Rightarrow> document_symbol option \<Rightarrow> reaction" where
  "around_or failed s = (case s of None \<Rightarrow> failed | Some s' \<Rightarrow> Around s')"

definition handle_generate_block ::
  "outline_env \<Rightarrow> name_token option \<Rightarrow> name_token option \<Rightarrow> name_token \<Rightarrow> reaction" where
  "handle_generate_block E beginName label begin_tok = around_or Ignored
     (case beginName of Some n \<Rightarrow> extractRange E n OK_Struct None None False
      | None \<Rightarrow> (case label of Some n \<Rightarrow> extractRange E n OK_Struct None None False
          | None \<Rightarrow> extractRange E begin_tok OK_Struct None (Some ''<anonymous block>'') False))"

definition handleModule :: "outline_env \<Rightarrow> name_token option \<Rightarrow> reaction" where
  "handleModule E header = (case header of None \<Rightarrow> Ignored
     | Some name \<Rightarrow> around_or Descend (extractRange E name OK_Module None None False))"

definition handleTypedef :: "outline_env \<Rightarrow> name_token \<Rightarrow> name_token \<Rightarrow> outline_kind \<Rightarrow> reaction" where
  "handleTypedef E name keyword kind = around_or Ignored
     (map_option (with_selection (shown_range E (nt_range keyword)))
       (extractRange E name kind None None False))"

definition handleStatement :: "outline_env \<Rightarrow> name_token \<Rightarrow> reaction" where
  "handleStatement E keyword = around_or Ignored (extractRange E keyword OK_Object None None False)"

fun with_name :: "string \<Rightarrow> document_symbol \<Rightarrow> document_symbol" where
  "with_name n (DocumentSymbol _ d k rg sel cs) = DocumentSymbol n d k rg sel cs"

definition handle_else :: "outline_env \<Rightarrow> name_token \<Rightarrow> name_token option \<Rightarrow> reaction" where
  "handle_else E else_tok conditional = around_or Ignored
     (case extractRange E else_tok OK_Object None None False of None \<Rightarrow> None
      | Some s \<Rightarrow> Some (case conditional of None \<Rightarrow> s
          | Some if_tok \<Rightarrow> with_selection
              (shown_range E (fst (nt_range else_tok), snd (nt_range if_tok))) (with_name ''else if'' s)))"

definition handle_function ::
  "outline_env \<Rightarrow> name_token \<Rightarrow> (string \<times> source_range) option \<Rightarrow> reaction" where
  "handle_function E first name =
     (if lbuffer (token_start first) \<noteq> m_buffer E then Descend
      else (case name of None \<Rightarrow> Ignored
        | Some (printed, rg) \<Rightarrow> Around (DocumentSymbol printed None OK_Function
            (shown_range E rg) (shown_range E rg) None)))"

text \<open>The overloads of \<open>handle\<close>; kinds without one are visited by default, as are the declarators
  outside the lists their declaration goes through. \<open>under_else\<close> is the test of the parent.\<close>

definition handle_node :: "outline_env \<Rightarrow> bool \<Rightarrow> outline_shape \<Rightarrow> reaction" where
  "handle_node E under_else shape = (case shape of
     GenerateBlock beginName label b \<Rightarrow> handle_generate_block E beginName label b
   | ModuleDeclaration header \<Rightarrow> handleModule E header
   | ClassDeclaration name \<Rightarrow> around_or Descend (extractRange E name OK_Class None None False)
   | TypedefDeclaration name keyword enum \<Rightarrow>
       handleTypedef E name keyword (if enum then OK_Enum else OK_Struct)
   | ForwardTypedef name keyword \<Rightarrow> handleTypedef E name keyword OK_Struct
   | HierarchyInstantiation ty params \<Rightarrow> around_or Ignored
       (extractRange E ty OK_Module (map_option nodeStr params) None False)
   | HierarchicalInstance decl \<Rightarrow> (case decl of None \<Rightarrow> Ignored
       | Some name \<Rightarrow> around_or Ignored (extractRange E name OK_Object None None False))
   | ProceduralBlock keyword \<Rightarrow> around_or Ignored (extractRange E keyword OK_Event None None False)
   | ConditionalStatement keyword \<Rightarrow> (if under_else then Descend else handleStatement E keyword)
   | ElseClause keyword conditional \<Rightarrow> handle_else E keyword conditional
   | ForLoopStatement keyword \<Rightarrow> handleStatement E keyword
   | CaseStatement keyword \<Rightarrow> handleStatement E keyword
   | FunctionDeclaration first name \<Rightarrow> handle_function E first name
   | NetDeclaration ty \<Rightarrow> PerDeclarator OK_Variable (Some (nodeStr ty))
   | LocalVariableDeclaration ty \<Rightarrow> PerDeclarator OK_Variable (Some (nodeStr ty))
   | DataDeclaration ty \<Rightarrow> PerDeclarator OK_Variable (Some (nodeStr ty))
   | StructUnionMember ty \<Rightarrow> PerDeclarator OK_Field (Some (nodeStr ty))
   | ParameterDeclaration ty \<Rightarrow> PerDeclarator OK_TypeParameter (Some (nodeStr ty))
   | EnumType \<Rightarrow> PerDeclarator OK_EnumMember None
   | PortDeclaration header \<Rightarrow> PerDeclarator OK_Interface (Some (nodeStr header))
   | ImplicitAnsiPort header name \<Rightarrow>
       (case extractRange E name OK_Interface (Some (nodeStr header)) None False of
          None \<Rightarrow> Ignored | Some s \<Rightarrow> Alone s)
   | ParameterDeclarationStatement \<Rightarrow> Descend
   | Member first \<Rightarrow> around_or Ignored (extractRange E first OK_Object None None False)
   | Declarator name \<Rightarrow> Descend
   | OtherSyntax \<Rightarrow> Descend)"

abbreviation is_else :: "outline_shape \<Rightarrow> bool" where
  "is_else sh \<equiv> (case sh of ElseClause _ _ \<Rightarrow> True | _ \<Rightarrow> False)"

section \<open>The visit\<close>

text \<open>What visiting a node appends to the current level, and what \<open>handleDeclList\<close> and the loops
  like it append for one declarator.\<close>

fun visit_outline :: "outline_env \<Rightarrow> bool \<Rightarrow> outline_node \<Rightarrow> document_symbol list"
  and declared :: "outline_env \<Rightarrow> outline_kind \<Rightarrow> string option \<Rightarrow> outline_node \<Rightarrow> document_symbol list"
where
  "visit_outline E under_else (Node sh rg cs) = (case handle_node E under_else sh of
     Ignored \<Rightarrow> []
   | Descend \<Rightarrow> concat (map (visit_outline E (is_else sh)) cs)
   | Around s \<Rightarrow> handleRecursive E rg s (concat (map (visit_outline E (is_else sh)) cs))
   | Alone s \<Rightarrow> (if isMacroLoc E (fst rg) then [] else [with_range (shown_range E rg) s])
   | PerDeclarator kind detail \<Rightarrow> concat (map (declared E kind detail) cs))"
| "declared E kind detail (Node sh rg cs) = (case sh of
     Declarator name \<Rightarrow> (case extractRange E name kind detail None False of
        None \<Rightarrow> []
      | Some s \<Rightarrow> handleRecursive E rg s (concat (map (visit_outline E False) cs)))
   | _ \<Rightarrow> [])"

text \<open>A macro defined by the tree: its name token, absent when it has no location, and the range
  of its directive.\<close>

definition macro_symbol :: "outline_env \<Rightarrow> name_token option \<times> source_range \<Rightarrow> document_symbol list" where
  "macro_symbol E m = (case fst m of None \<Rightarrow> []
     | Some name \<Rightarrow> (case extractRange E name OK_Constant None None True of
         None \<Rightarrow> [] | Some s \<Rightarrow> [with_range (shown_range E (snd m)) s]))"

text \<open>\<open>m_symbols\<close> keeps the result: a visitor that has symbols answers with them again.\<close>

definition getSymbols ::
  "outline_env \<Rightarrow> outline_node \<Rightarrow> (name_token option \<times> source_range) list \<Rightarrow> bool
     \<Rightarrow> document_symbol list \<Rightarrow> document_symbol list" where
  "getSymbols E root tree_macros macros m_symbols =
     (if m_symbols \<noteq> [] then m_symbols
      else visit_outline E False root @ (if macros then concat (map (macro_symbol E) tree_macros) else []))"

end
