(* ===== verification/OutlineRuns.thy ===== *)
theory OutlineRuns
  imports Outline
begin

text \<open>
  What the outline of a document promises a client: no symbol without a name, and at every depth a
  selection inside the range of the symbol and a range inside that of the symbol around it.
\<close>

section \<open>The ranges of a tree\<close>

text \<open>A location of this document that is not inside a macro, and containment of ranges after
  macros are expanded.\<close>

definition here :: "outline_env \<Rightarrow> source_range \<Rightarrow> bool" where
  "here E rg \<longleftrightarrow> lbuffer (getFullyOriginalLoc E (fst rg)) = m_buffer E \<and> \<not> isMacroLoc E (fst rg)"

definition within :: "outline_env \<Rightarrow> source_range \<Rightarrow> source_range \<Rightarrow> bool" where
  "within E inner outer = (let (s, e) = getFullyExpandedRange (oe_sm E) inner;
      (s', e') = getFullyExpandedRange (oe_sm E) outer in
      lbuffer s = lbuffer s' \<and> lbuffer e = lbuffer e' \<and> loffset s' \<le> loffset s \<and> loffset e \<le> loffset e')"

text \<open>The ranges a handler may select after it has looked where they start, and those it selects
  without looking.\<close>

fun selections :: "outline_shape \<Rightarrow> source_range list" where
  "selections (GenerateBlock b l k) = map nt_range (List.map_filter id [b, l] @ [k])"
| "selections (ModuleDeclaration h) = map nt_range (List.map_filter id [h])"
| "selections (ClassDeclaration n) = [nt_range n]"
| "selections (HierarchyInstantiation ty ps) = [nt_range ty]"
| "selections (HierarchicalInstance d) = map nt_range (List.map_filter id [d])"
| "selections (ProceduralBlock k) = [nt_range k]"
| "selections (ConditionalStatement k) = [nt_range k]"
| "selections (ElseClause k c) = nt_range k #
     (case c of None \<Rightarrow> [] | Some i \<Rightarrow> [(fst (nt_range k), snd (nt_range i))])"
| "selections (ForLoopStatement k) = [nt_range k]"
| "selections (CaseStatement k) = [nt_range k]"
| "selections (ImplicitAnsiPort h n) = [nt_range n]"
| "selections (Member n) = [nt_range n]"
| "selections (Declarator n) = [nt_range n]"
| "selections _ = []"

fun unguarded :: "outline_shape \<Rightarrow> source_range list" where
  "unguarded (TypedefDeclaration n k e) = [nt_range k]"
| "unguarded (ForwardTypedef n k) = [nt_range k]"
| "unguarded (FunctionDeclaration t p) = map snd (List.map_filter id [p])"
| "unguarded _ = []"

fun subnodes :: "outline_node \<Rightarrow> outline_node list" where
  "subnodes (Node sh rg cs) = Node sh rg cs # concat (map subnodes cs)"

text \<open>The tree of a document in which no declaration reaches across an include: the parts of a
  node lie within it, after the expansion of macros, and a node that is named here starts here.\<close>

definition node_ok :: "outline_env \<Rightarrow> outline_node \<Rightarrow> bool" where
  "node_ok E n \<longleftrightarrow> (\<not> isMacroLoc E (fst (node_range n)) \<longrightarrow>
     (\<forall>r \<in> set (selections (node_shape n)). here E r \<longrightarrow> here E (node_range n) \<and> within E r (node_range n)) \<and>
     (\<forall>r \<in> set (unguarded (node_shape n)). here E (node_range n) \<and> within E r (node_range n)) \<and>
     (\<forall>d \<in> set (subnodes n). here E (node_range n) \<and> here E (node_range d) \<longrightarrow>
        within E (node_range d) (node_range n)))"

definition tree_ok :: "outline_env \<Rightarrow> outline_node \<Rightarrow> bool" where
  "tree_ok E root \<longleftrightarrow> list_all (node_ok E) (subnodes root)"

text \<open>A symbol of the outline below a symbol with the range \<open>outer\<close>.\<close>

inductive placed :: "outline_env \<Rightarrow> source_range option \<Rightarrow> document_symbol \<Rightarrow> bool" for E where
  placed_symbol: "n \<noteq> [] \<Longrightarrow> within E chosen rg \<Longrightarrow> pred_option (within E rg) outer \<Longrightarrow>
    (\<And>xs. cs = Some xs \<Longrightarrow> xs \<noteq> [] \<and> (\<forall>x \<in> set xs. placed E (Some rg) x)) \<Longrightarrow>
    placed E outer (DocumentSymbol n d k (shown_range E rg) (shown_range E chosen) cs)"

section \<open>Handlers select inside their node\<close>

definition bare :: "outline_env \<Rightarrow> outline_shape \<Rightarrow> document_symbol \<Rightarrow> bool" where
  "bare E sh s \<longleftrightarrow> sy_children s = None \<and> sy_selection s \<in> shown_range E `
     (set (filter (here E) (selections sh)) \<union> set (unguarded sh))"

lemma bareI:
  "sy_children s = None \<Longrightarrow> sy_selection s = shown_range E r \<Longrightarrow>
    r \<in> set (selections sh) \<and> here E r \<or> r \<in> set (unguarded sh) \<Longrightarrow> bare E sh s"
  by (auto simp: bare_def)

lemma extractRange_Some:
  "extractRange E t k d ov False = Some s \<Longrightarrow>
     sy_name s \<noteq> [] \<or> ov \<noteq> None"
  by (auto simp: extractRange_def Let_def split: if_splits option.splits)

lemma extractRange_bare:
  assumes "extractRange E t k d ov False = Some s"
  shows "here E (nt_range t) \<and> sy_children s = None \<and> sy_selection s = shown_range E (nt_range t)"
  using assms by (auto simp: extractRange_def here_def Let_def split: if_splits option.splits)

lemma with_selects [simp]:
  "sy_selection (with_selection r s) = r" "sy_selection (with_name n s) = sy_selection s"
  "sy_children (with_selection r s) = sy_children s" "sy_children (with_name n s) = sy_children s"
  by (cases s; simp)+

lemma here_start: "fst r = fst r' \<Longrightarrow> here E r = here E r'"
  by (simp add: here_def)

lemma handle_around:
  assumes "handle_node E u sh = Around s"
  shows "bare E sh s"
proof (cases sh)
  case (ElseClause k c)
  then obtain s0 where e: "extractRange E k OK_Object None None False = Some s0"
    and s: "s = (case c of None \<Rightarrow> s0 | Some i \<Rightarrow> with_selection
      (shown_range E (token_start k, snd (nt_range i))) (with_name ''else if'' s0))"
    using assms by (auto simp: handle_node_def handle_else_def around_or_def split: option.splits)
  let ?r = "case c of None \<Rightarrow> nt_range k | Some i \<Rightarrow> (token_start k, snd (nt_range i))"
  have "here E ?r" using extractRange_bare [OF e] by (auto simp: here_def split: option.split)
  then show ?thesis
    using s ElseClause extractRange_bare [OF e]
    by (intro bareI [of _ _ ?r]) (auto split: option.splits)
qed (use assms in \<open>auto simp: handle_node_def around_or_def bare_def handle_generate_block_def
    handleModule_def handleTypedef_def handleStatement_def handle_function_def map_filter_def
    dest!: extractRange_bare split: option.splits if_splits\<close>)

lemma handle_alone:
  assumes "handle_node E u sh = Alone s"
  shows "bare E sh s \<and> sy_name s \<noteq> []"
proof (cases sh)
  case (ImplicitAnsiPort h n)
  then show ?thesis
    using assms by (auto simp: handle_node_def dest: extractRange_bare extractRange_Some
        intro: bareI [of _ _ "nt_range n"] split: option.splits)
qed (use assms in \<open>auto simp: handle_node_def around_or_def handle_generate_block_def handleModule_def
    handleTypedef_def handleStatement_def handle_else_def handle_function_def
    split: option.splits if_splits\<close>)

section \<open>The visit\<close>

lemma placed_around:
  assumes ok: "node_ok E (Node sh rg cs)" and start: "\<not> isMacroLoc E (fst rg)"
    and bare: "bare E sh s"
    and outer: "here E rg \<Longrightarrow> pred_option (within E rg) outer"
    and children: "\<And>x. here E rg \<Longrightarrow> x \<in> set xs \<Longrightarrow> placed E (Some rg) x"
    and name: "sy_name s \<noteq> []"
  shows "placed E outer (with_children xs (with_range (shown_range E rg) s))"
proof -
  obtain n d k r0 sel where s: "s = DocumentSymbol n d k r0 sel None"
    using bare by (cases s) (auto simp: bare_def)
  obtain r where r: "sel = shown_range E r"
      "r \<in> set (selections sh) \<and> here E r \<or> r \<in> set (unguarded sh)"
    using bare s by (auto simp: bare_def)
  then have w: "here E rg" "within E r rg"
    using ok start by (auto simp: node_ok_def)
  show ?thesis
    using placed_symbol [of n E r rg outer "if xs = [] then None else Some xs"] name s r(1) w(2)
      outer [OF w(1)] children [OF w(1)]
    by (cases xs) auto
qed

definition covered_by :: "outline_env \<Rightarrow> source_range option \<Rightarrow> outline_node \<Rightarrow> bool" where
  "covered_by E outer n \<longleftrightarrow> (\<forall>rg. outer = Some rg \<longrightarrow>
     (\<forall>d \<in> set (subnodes n). here E (node_range d) \<longrightarrow> within E (node_range d) rg))"

lemma covered_child:
  "covered_by E outer (Node sh rg cs) \<Longrightarrow> c \<in> set cs \<Longrightarrow> covered_by E outer c"
  by (force simp: covered_by_def)

lemma covered_self:
  "covered_by E outer (Node sh rg cs) \<Longrightarrow> here E rg \<Longrightarrow> pred_option (within E rg) outer"
  by (cases outer) (auto simp: covered_by_def)

lemma covered_inside:
  "tree_ok E (Node sh rg cs) \<Longrightarrow> here E rg \<Longrightarrow> c \<in> set cs \<Longrightarrow> covered_by E (Some rg) c"
  by (force simp: covered_by_def tree_ok_def node_ok_def here_def)

lemma tree_ok_child: "tree_ok E (Node sh rg cs) \<Longrightarrow> c \<in> set cs \<Longrightarrow> tree_ok E c"
  by (auto simp: tree_ok_def list_all_iff)

lemma tree_ok_root: "tree_ok E n \<Longrightarrow> node_ok E n"
  by (cases n) (simp add: tree_ok_def)

lemma recursive_placed:
  assumes "x \<in> set (handleRecursive E rg s (concat (map f cs)))" and "tree_ok E (Node sh rg cs)"
    and "covered_by E outer (Node sh rg cs)" and "bare E sh s"
    and "\<And>c y. here E rg \<Longrightarrow> c \<in> set cs \<Longrightarrow> y \<in> set (f c) \<Longrightarrow> placed E (Some rg) y"
  shows "placed E outer x"
proof -
  have start: "\<not> isMacroLoc E (fst rg)" and x: "x = with_children (concat (map f cs)) (with_range (shown_range E rg) s)"
    and "sy_name x \<noteq> []"
    using assms(1) by (auto simp: handleRecursive_def Let_def split: if_splits)
  moreover from this have "sy_name s \<noteq> []"
    by (cases s; cases "concat (map f cs)") auto
  ultimately show ?thesis
    using assms(5) covered_self [OF assms(3)]
    by (auto intro!: placed_around [OF tree_ok_root [OF assms(2)] start assms(4)])
qed

lemma visit_placed:
  shows "tree_ok E n \<Longrightarrow> covered_by E outer n \<Longrightarrow> x \<in> set (visit_outline E u n) \<Longrightarrow> placed E outer x"
    and "tree_ok E n \<Longrightarrow> covered_by E outer n \<Longrightarrow> x \<in> set (declared E k d n) \<Longrightarrow> placed E outer x"
proof (induction E u n and E k d n arbitrary: outer x and outer x rule: visit_outline_declared.induct)
  case (1 E u sh rg cs)
  note ok = "1.prems"(1) and cov = "1.prems"(2)
  show ?case
  proof (cases "handle_node E u sh")
    case (Around s)
    have kids: "placed E (Some rg) y" if "here E rg" "c \<in> set cs" "y \<in> set (visit_outline E (is_else sh) c)" for c y
      using "1.IH"(2) [OF Around that(2) tree_ok_child [OF ok that(2)] covered_inside [OF ok that(1,2)] that(3)] .
    show ?thesis
      using recursive_placed [OF _ ok cov handle_around [OF Around] kids] "1.prems"(3) Around by simp
  next
    case (Alone s)
    then show ?thesis
      using "1.prems"(3) handle_alone [OF Alone] placed_around [OF tree_ok_root [OF ok] _ _ covered_self [OF cov], of s "[]"]
      by (auto split: if_splits)
  next
    case Descend
    then show ?thesis
      using "1.prems"(3) "1.IH"(1) [OF Descend _ tree_ok_child [OF ok] covered_child [OF cov]] by auto
  next
    case (PerDeclarator k d)
    then show ?thesis
      using "1.prems"(3) "1.IH"(3) [OF PerDeclarator _ tree_ok_child [OF ok] covered_child [OF cov]] by auto
  next
    case Ignored
    then show ?thesis using "1.prems"(3) by simp
  qed
next
  case (2 E k d sh rg cs)
  note ok = "2.prems"(1) and cov = "2.prems"(2)
  from "2.prems"(3) obtain name s where sh: "sh = Declarator name"
      and s: "extractRange E name k d None False = Some s"
      and x: "x \<in> set (handleRecursive E rg s (concat (map (visit_outline E False) cs)))"
    by (cases sh) (auto split: option.splits simp: eq_commute [of "Some _"])
  have "bare E sh s" using sh extractRange_bare [OF s] by (auto simp: bare_def)
  moreover have "placed E (Some rg) y" if "here E rg" "c \<in> set cs" "y \<in> set (visit_outline E False c)" for c y
    using "2.IH" [OF sh s that(2) tree_ok_child [OF ok that(2)] covered_inside [OF ok that(1,2)] that(3)] .
  ultimately show ?case using recursive_placed [OF x ok cov] by blast
qed

section \<open>Property\<close>

lemma macro_placed:
  assumes "x \<in> set (macro_symbol E m)" and "pred_option (\<lambda>t. within E (nt_range t) (snd m)) (fst m)"
  shows "placed E None x"
proof (cases "fst m")
  case (Some t)
  then show ?thesis
    using assms
    by (auto simp: macro_symbol_def extractRange_def Let_def intro: placed_symbol split: if_splits)
qed (use assms(1) in \<open>simp add: macro_symbol_def\<close>)

lemma visited_placed: "tree_ok E root \<Longrightarrow> x \<in> set (visit_outline E False root) \<Longrightarrow> placed E None x"
  by (rule visit_placed(1)) (simp_all add: covered_by_def)


text \<open>A module with a port, an instance and a block, the block's keyword from a macro.\<close>

abbreviation at :: "nat \<Rightarrow> nat \<Rightarrow> source_range" where
  "at i j \<equiv> (loc_at 1 i, loc_at 1 j)"

definition sample_manager :: source_manager where
  "sample_manager = \<lparr>getSourceText = (\<lambda>_. []), getColumnNumber = (\<lambda>l. loffset l + 1),
     getRawLineNumber = (\<lambda>_. 1), getSourceLocation = (\<lambda>b n c. Some (loc_at b 0)),
     getFullyExpandedLoc = id, getFullyExpandedRange = id, getFullyOriginalRange = id,
     getFullPath = (\<lambda>_. [])\<rparr>"

definition outline_sample :: outline_env where
  "outline_sample = \<lparr>oe_utf8 = sample_utf8, oe_sm = sample_manager, isMacroLoc = (\<lambda>l. lbuffer l = 2),
     getFullyOriginalLoc = (\<lambda>l. loc_at 1 (loffset l)), m_buffer = 1\<rparr>"

definition sample_tree :: outline_node where
  "sample_tree = Node OtherSyntax (at 0 60) [
     Node (ModuleDeclaration (Some \<lparr>nt_value = ''top'', nt_range = at 7 10\<rparr>)) (at 0 60) [
       Node (ImplicitAnsiPort ''input clk'' \<lparr>nt_value = ''clk'', nt_range = at 17 20\<rparr>) (at 11 20) [],
       Node (HierarchyInstantiation \<lparr>nt_value = ''fifo'', nt_range = at 24 28\<rparr> None) (at 24 36) [
         Node (HierarchicalInstance (Some \<lparr>nt_value = ''u'', nt_range = at 29 30\<rparr>)) (at 29 35) []],
       Node (ProceduralBlock \<lparr>nt_value = ''always'', nt_range = (loc_at 2 40, loc_at 2 46)\<rparr>) (at 40 50) []]]"


text \<open>A generate block whose name does not come from the document is left out with everything
  below it, while a module's members are still shown.\<close>

lemma macro_block_hides_members:
  "visit_outline outline_sample False (Node (GenerateBlock (Some \<lparr>nt_value = ''g'', nt_range = (loc_at 2 5, loc_at 2 6)\<rparr>)
      None \<lparr>nt_value = ''begin'', nt_range = at 0 5\<rparr>) (at 0 40)
      [Node (ClassDeclaration \<lparr>nt_value = ''c'', nt_range = at 12 13\<rparr>) (at 6 30) []]) = []"
  by (simp add: handle_node_def handle_generate_block_def around_or_def extractRange_def outline_sample_def)

end
