(* ===== verification/InlayHints.thy ===== *)
theory InlayHints
  imports Positions Formatting
begin

text \<open>
  Inlay hints, from src/document/InlayHintCollector.cpp: the values of active parameters, the
  names of ordered parameters, ports and arguments, the types of named ports in aligned columns,
  the ports a wildcard stands for, the type of an assignment pattern, and the choice of the nodes
  of a requested range. What the analysis and slang answer for a node (the symbol at a token, the
  definition behind a name, printed syntax) is data of the node.
\<close>

section \<open>Hints and the collector's settings\<close>

datatype hint_label = LabelText string | LabelPart string location

datatype hint_kind = HK_Type | HK_Parameter

record inlay_hint =
  ih_position :: position
  ih_label :: hint_label
  ih_kind :: hint_kind
  ih_edits :: "(lsp_range \<times> string) list"
  ih_tooltip :: "string option"
  ih_padLeft :: bool
  ih_padRight :: bool

record hint_env =
  he_utf8 :: utf8_lib
  he_sm :: source_manager
  he_isMacroLoc :: "source_location \<Rightarrow> bool"
  he_getFullyOriginalLoc :: "source_location \<Rightarrow> source_location"
  he_isWhitespace :: "char \<Rightarrow> bool"
  he_buffer :: nat
  portTypes :: bool
  assignmentPatternTypes :: bool
  activeParameterValues :: bool
  orderedInstanceNames :: bool
  wildcardNames :: bool
  funcArgNames :: int
  macroArgNames :: int

abbreviation hint_position :: "hint_env \<Rightarrow> source_location \<Rightarrow> position" where
  "hint_position E loc \<equiv> toPosition (he_utf8 E) (he_sm E) loc"

definition name_hint :: "hint_env \<Rightarrow> source_location \<Rightarrow> string \<Rightarrow> inlay_hint" where
  "name_hint E loc name = \<lparr>ih_position = hint_position E loc, ih_label = LabelText (name @ '':''),
     ih_kind = HK_Parameter, ih_edits = [], ih_tooltip = None, ih_padLeft = False, ih_padRight = True\<rparr>"

section \<open>Parameters and arguments\<close>

text \<open>A declarator: where its name ends, and the value of the design's parameter, none when there
  is no such parameter or its value is bad.\<close>

definition handle_parameters ::
  "hint_env \<Rightarrow> (source_location \<times> constant_value option) list \<Rightarrow> inlay_hint list" where
  "handle_parameters E declarators = (if \<not> activeParameterValues E then [] else
     List.map_filter (\<lambda>(name_end, value). map_option (\<lambda>v.
       \<lparr>ih_position = hint_position E name_end, ih_label = LabelText (formatConstantValue (he_utf8 E) v),
        ih_kind = HK_Parameter, ih_edits = [], ih_tooltip = None, ih_padLeft = True,
        ih_padRight = False\<rparr>) value) declarators)"

text \<open>Parameters by order: each assignment says whether it is ordered and where it starts; the
  index moves on with the ordered ones. The list of an instantiation stops at the number of
  declared parameters, that of a class name does not.\<close>

fun ordered_names ::
  "hint_env \<Rightarrow> string list \<Rightarrow> nat \<Rightarrow> (bool \<times> source_location) list \<Rightarrow> inlay_hint list" where
  "ordered_names E names i [] = []"
| "ordered_names E names i ((ordered, loc) # ds) =
     (if ordered \<and> i < length names
      then name_hint E loc (names ! i) # ordered_names E names (Suc i) ds
      else ordered_names E names i ds)"

definition instance_params ::
  "hint_env \<Rightarrow> string list \<Rightarrow> (bool \<times> source_location) list option \<Rightarrow> inlay_hint list" where
  "instance_params E names params = (case params of None \<Rightarrow> []
     | Some ps \<Rightarrow> (if orderedInstanceNames E then ordered_names E names 0 (take (length names) ps)
                  else []))"

definition handle_class_name ::
  "hint_env \<Rightarrow> string list option \<Rightarrow> (bool \<times> source_location) list \<Rightarrow> inlay_hint list" where
  "handle_class_name E generic params =
     (if \<not> orderedInstanceNames E \<or> params = [] then []
      else (case generic of None \<Rightarrow> [] | Some names \<Rightarrow> ordered_names E names 0 params))"

text \<open>A definition with the raw texts of its formal arguments, if it has any.\<close>

type_synonym macro_definition = "string list option"

definition handle_macro_usage ::
  "hint_env \<Rightarrow> source_location list option \<Rightarrow> macro_definition option \<Rightarrow> macro_definition option
     \<Rightarrow> inlay_hint list" where
  "handle_macro_usage E args used named = (case args of None \<Rightarrow> [] | Some actual \<Rightarrow>
     (if macroArgNames E \<le> 0 then [] else
      (case (case used of Some d \<Rightarrow> Some d | None \<Rightarrow> named) of
         Some (Some formal) \<Rightarrow>
           (if length actual < nat (macroArgNames E) then []
            else map (\<lambda>(loc, name). name_hint E (he_getFullyOriginalLoc E loc) name) (zip actual formal))
       | _ \<Rightarrow> [])))"

definition getArgumentHintLoc :: "hint_env \<Rightarrow> source_location \<Rightarrow> source_location" where
  "getArgumentHintLoc E loc = (if he_isMacroLoc E loc then getFullyExpandedLoc (he_sm E) loc
     else he_getFullyOriginalLoc E loc)"

fun argument_names ::
  "hint_env \<Rightarrow> ((bool \<times> source_location) \<times> string) list \<Rightarrow> inlay_hint list" where
  "argument_names E [] = []"
| "argument_names E (((ordered, loc), name) # ds) =
     (if \<not> ordered then []
      else if name = [] then argument_names E ds
      else name_hint E (getArgumentHintLoc E loc) name # argument_names E ds)"

definition handle_invocation ::
  "hint_env \<Rightarrow> (bool \<times> source_location) list option \<Rightarrow> string list option \<Rightarrow> inlay_hint list" where
  "handle_invocation E args subroutine = (case args of None \<Rightarrow> [] | Some actual \<Rightarrow>
     (if funcArgNames E \<le> 0 then [] else
      (case subroutine of None \<Rightarrow> []
       | Some formal \<Rightarrow> (if length actual < nat (funcArgNames E) then []
           else argument_names E (zip actual formal)))))"

section \<open>Instances\<close>

datatype port_declaration = PortHeader string | OtherPortSyntax

record hint_port =
  hp_name :: string
  hp_declaration :: "port_declaration option"

record hint_body =
  hb_ports :: "hint_port list"
  hb_findPort :: "string \<Rightarrow> hint_port option"
  hb_portList :: "(string \<times> string) option"  \<comment> \<open>printed comments and code of the port list\<close>

datatype hint_connection =
    OrderedPortConnection source_location
  | NamedPortConnection (connected: string) (connected_at: source_location) (raw_length: nat)
  | WildcardPortConnection source_range
  | OtherConnection

record hint_instance =
  hi_hierarchical :: bool
  hi_body :: "hint_body option"  \<comment> \<open>of the instance symbol at the name\<close>
  hi_openParen :: source_location
  hi_closeParen :: source_location
  hi_connections :: "hint_connection list"

record hint_instantiation =
  hn_type_loc :: source_location
  hn_definition :: "string list option"  \<comment> \<open>parameters of the definition the type names\<close>
  hn_invalid :: hint_body
  hn_params :: "(bool \<times> source_location) list option"
  hn_instances :: "hint_instance list"

definition FORMATTING_INDENT :: nat where
  "FORMATTING_INDENT = 4"

text \<open>The variables of the loop over the connections of an instance. \<open>lastPortLine\<close> starts at a
  number no 32-bit line equals.\<close>

record port_walk =
  pw_result :: "inlay_hint list"
  pw_named :: "(position \<times> string) list"
  pw_maxLabelLen :: nat
  pw_portIndex :: nat
  pw_lastPortLine :: "u32 option"

definition ordered_connection ::
  "hint_env \<Rightarrow> hint_body \<Rightarrow> source_location \<Rightarrow> port_walk \<Rightarrow> port_walk" where
  "ordered_connection E body loc w =
     (if \<not> orderedInstanceNames E \<or> pw_portIndex w \<ge> length (hb_ports body) then w
      else w\<lparr>pw_result := pw_result w @ [name_hint E loc (hp_name (hb_ports body ! pw_portIndex w))],
             pw_portIndex := Suc (pw_portIndex w)\<rparr>)"

text \<open>A named connection, and whether the handler returns after it.\<close>

definition named_connection ::
  "hint_env \<Rightarrow> hint_body \<Rightarrow> string \<Rightarrow> source_location \<Rightarrow> nat \<Rightarrow> port_walk \<Rightarrow> (bool \<times> port_walk) result"
where
  "named_connection E body name loc len w =
     (if \<not> portTypes E then Inr (False, w) else
      (case hb_findPort body name of
         Some port \<Rightarrow> (case hp_declaration port of
           Some (PortHeader header) \<Rightarrow>
             (case detailFormat (he_isWhitespace E) header of
                Inl e \<Rightarrow> Inl e
              | Inr label \<Rightarrow>
                 (let pos = hint_position E (loc\<lparr>loffset := loffset loc + len\<rparr>);
                      w' = w\<lparr>pw_maxLabelLen := max (pw_maxLabelLen w) (length label),
                             pw_named := pw_named w @ [(pos, label)]\<rparr>
                  in if pw_lastPortLine w = Some (p_line pos) then Inr (True, w')
                     else Inr (False, w'\<lparr>pw_lastPortLine := Some (p_line pos)\<rparr>)))
         | _ \<Rightarrow> Inr (False, w))
       | None \<Rightarrow> Inr (False, w)))"

fun joined_ports :: "string \<Rightarrow> string \<Rightarrow> string list \<Rightarrow> string" where
  "joined_ports before sep [] = []"
| "joined_ports before sep [name] = before @ name"
| "joined_ports before sep (name # names) = before @ name @ sep @ joined_ports before sep names"

definition wildcard_text ::
  "hint_env \<Rightarrow> source_location \<Rightarrow> hint_instance \<Rightarrow> source_range \<Rightarrow> string list \<Rightarrow> string" where
  "wildcard_text E type_loc inst rg names =
     (let indent = getColumnNumber (he_sm E) type_loc + FORMATTING_INDENT - 1;
          line = getRawLineNumber (he_sm E);
          newline = nl # replicate indent CHR '' ''
      in (if line (hi_openParen inst) = line (fst rg) then newline else []) @
         joined_ports ''.'' (CHR '','' # newline) names @
         (if line (hi_closeParen inst) = line (snd rg)
          then nl # replicate (indent - FORMATTING_INDENT) CHR '' '' else []))"

definition wildcard_connection ::
  "hint_env \<Rightarrow> source_location \<Rightarrow> hint_body \<Rightarrow> hint_instance \<Rightarrow> source_range \<Rightarrow> port_walk
     \<Rightarrow> port_walk result" where
  "wildcard_connection E type_loc body inst rg w =
     (if \<not> wildcardNames E then Inr w else
      (let names = map hp_name (hb_ports body);
           hint = (\<lambda>tooltip. \<lparr>ih_position = hint_position E (snd rg),
             ih_label = LabelText (joined_ports [] '', '' names), ih_kind = HK_Type,
             ih_edits = [(toRange (he_utf8 E) (he_sm E) rg, wildcard_text E type_loc inst rg names)],
             ih_tooltip = tooltip, ih_padLeft = True, ih_padRight = True\<rparr>)
       in (case hb_portList body of
             None \<Rightarrow> Inr (w\<lparr>pw_result := pw_result w @ [hint None]\<rparr>)
           | Some (comments, code) \<Rightarrow>
              (case svCodeBlock_node (he_utf8 E) (he_isWhitespace E) comments code of
                 Inl e \<Rightarrow> Inl e
               | Inr t \<Rightarrow> Inr (w\<lparr>pw_result := pw_result w @ [hint (Some t)]\<rparr>)))))"

definition walk_connection ::
  "hint_env \<Rightarrow> source_location \<Rightarrow> hint_body \<Rightarrow> hint_instance \<Rightarrow> hint_connection \<Rightarrow> port_walk
     \<Rightarrow> (bool \<times> port_walk) result" where
  "walk_connection E type_loc body inst conn w = (case conn of
     OrderedPortConnection loc \<Rightarrow> Inr (False, ordered_connection E body loc w)
   | NamedPortConnection name loc len \<Rightarrow> named_connection E body name loc len w
   | WildcardPortConnection rg \<Rightarrow> map_sum id (Pair False) (wildcard_connection E type_loc body inst rg w)
   | OtherConnection \<Rightarrow> Inr (False, w))"

fun walk_connections ::
  "hint_env \<Rightarrow> source_location \<Rightarrow> hint_body \<Rightarrow> hint_instance \<Rightarrow> hint_connection list \<Rightarrow> port_walk
     \<Rightarrow> (bool \<times> port_walk) result" where
  "walk_connections E type_loc body inst [] w = Inr (False, w)"
| "walk_connections E type_loc body inst (c # cs) w =
     (case walk_connection E type_loc body inst c w of
        Inl e \<Rightarrow> Inl e
      | Inr (True, w') \<Rightarrow> Inr (True, w')
      | Inr (False, w') \<Rightarrow> walk_connections E type_loc body inst cs w')"

definition aligned_hint :: "nat \<Rightarrow> position \<times> string \<Rightarrow> inlay_hint" where
  "aligned_hint maxLabelLen h = \<lparr>ih_position = fst h,
     ih_label = LabelText (snd h @ replicate (maxLabelLen - length (snd h)) CHR '' ''),
     ih_kind = HK_Type, ih_edits = [], ih_tooltip = None, ih_padLeft = True, ih_padRight = True\<rparr>"

text \<open>The instances in order; an early return leaves the hints found so far, but not the named
  ports of the instance under way.\<close>

fun walk_instances ::
  "hint_env \<Rightarrow> source_location \<Rightarrow> hint_body \<Rightarrow> hint_instance list \<Rightarrow> inlay_hint list
     \<Rightarrow> inlay_hint list result" where
  "walk_instances E type_loc body [] res = Inr res"
| "walk_instances E type_loc body (inst # insts) res =
     (if \<not> hi_hierarchical inst then walk_instances E type_loc body insts res
      else (case walk_connections E type_loc body inst (hi_connections inst)
          \<lparr>pw_result = res, pw_named = [], pw_maxLabelLen = 0, pw_portIndex = 0,
           pw_lastPortLine = None\<rparr> of
        Inl e \<Rightarrow> Inl e
      | Inr (True, w) \<Rightarrow> Inr (pw_result w)
      | Inr (False, w) \<Rightarrow> walk_instances E type_loc body insts
          (pw_result w @ map (aligned_hint (pw_maxLabelLen w)) (pw_named w))))"

definition chosen_body :: "hint_instantiation \<Rightarrow> hint_body" where
  "chosen_body n = (case List.map_filter hi_body (hn_instances n) of
     [] \<Rightarrow> hn_invalid n | b # _ \<Rightarrow> b)"

definition handle_instantiation :: "hint_env \<Rightarrow> hint_instantiation \<Rightarrow> inlay_hint list result" where
  "handle_instantiation E n = (case hn_definition n of None \<Rightarrow> Inr []
     | Some names \<Rightarrow> walk_instances E (hn_type_loc n) (chosen_body n) (hn_instances n)
         (instance_params E names (hn_params n)))"

section \<open>Assignment patterns\<close>

record hint_type =
  ty_name :: string
  ty_is_type :: bool
  ty_path :: string  \<comment> \<open>getLexicalPath\<close>
  ty_in_package_or_class :: bool
  ty_location :: source_location

text \<open>The type of the target: its own when it is a type, else that of its declaration.\<close>

record pattern_target =
  pt_type :: "hint_type option"
  pt_aggregate :: bool  \<comment> \<open>a struct or a union, error types unwrapped\<close>
  pt_parameter_target :: "hint_type option"
  pt_declared :: "hint_type option option"  \<comment> \<open>the symbol at the last token of the declared type\<close>

definition named_type :: "pattern_target \<Rightarrow> hint_type \<Rightarrow> hint_type option" where
  "named_type t ty = (case pt_parameter_target t of
     Some resolved \<Rightarrow> (if ty_name resolved \<noteq> [] then Some resolved
       else if ty_name ty \<noteq> [] then Some ty else (case pt_declared t of Some s \<Rightarrow> s | None \<Rightarrow> None))
   | None \<Rightarrow> (if ty_name ty \<noteq> [] then Some ty else (case pt_declared t of Some s \<Rightarrow> s | None \<Rightarrow> None)))"

definition handle_pattern ::
  "hint_env \<Rightarrow> bool \<Rightarrow> source_location \<Rightarrow> pattern_target option \<Rightarrow> inlay_hint list" where
  "handle_pattern E typed pattern_loc target =
     (if \<not> assignmentPatternTypes E \<or> typed then [] else
      (case target of None \<Rightarrow> [] | Some t \<Rightarrow>
      (case pt_type t of None \<Rightarrow> [] | Some ty \<Rightarrow>
        (if \<not> pt_aggregate t then [] else
        (case named_type t ty of None \<Rightarrow> [] | Some nt \<Rightarrow>
          (if \<not> ty_is_type nt \<or> ty_name nt = [] then [] else
           (let label = (if ty_in_package_or_class nt then ty_path nt else ty_name nt);
                pos = hint_position E pattern_loc;
                loc = ty_location nt
            in [\<lparr>ih_position = pos,
                 ih_label = LabelPart label (toLocation_range (he_utf8 E) (he_sm E)
                   (loc, loc\<lparr>loffset := loffset loc + length (ty_name nt)\<rparr>)),
                 ih_kind = HK_Type, ih_edits = [(\<lparr>r_start = pos, r_end = pos\<rparr>, label)],
                 ih_tooltip = None, ih_padLeft = False, ih_padRight = False\<rparr>])))))))"

section \<open>The nodes of a range\<close>

datatype hint_node =
    HintParameters "(source_location \<times> constant_value option) list"
  | HintInstantiation hint_instantiation
  | HintMacroUsage "source_location list option" "macro_definition option" "macro_definition option"
  | HintInvocation "(bool \<times> source_location) list option" "string list option"
  | HintClassName "string list option" "(bool \<times> source_location) list"
  | HintPattern bool source_location "pattern_target option"
  | HintOther

definition node_hints :: "hint_env \<Rightarrow> hint_node \<Rightarrow> inlay_hint list result" where
  "node_hints E n = (case n of
     HintParameters ds \<Rightarrow> Inr (handle_parameters E ds)
   | HintInstantiation i \<Rightarrow> handle_instantiation E i
   | HintMacroUsage args used named \<Rightarrow> Inr (handle_macro_usage E args used named)
   | HintInvocation args sub \<Rightarrow> Inr (handle_invocation E args sub)
   | HintClassName generic params \<Rightarrow> Inr (handle_class_name E generic params)
   | HintPattern typed loc target \<Rightarrow> Inr (handle_pattern E typed loc target)
   | HintOther \<Rightarrow> Inr [])"

text \<open>An entry of the ordered map \<open>collectedHints\<close>: the offset a node starts at, the offset of its
  end, the node. \<open>lower_bound\<close> and \<open>upper_bound\<close> are the lengths of what comes before; a walk from
  a start beyond the end runs off the map.\<close>

record hint_entry =
  en_start :: u32
  en_end :: nat
  en_node :: hint_node

definition range_entries :: "hint_entry list \<Rightarrow> nat \<Rightarrow> nat \<Rightarrow> hint_entry list result" where
  "range_entries entries s e =
     (let lower = length (takeWhile (\<lambda>n. en_start n < of_nat s) entries);
          upper = length (takeWhile (\<lambda>n. en_start n \<le> of_nat e) entries);
          back = length (takeWhile (\<lambda>n. s < en_end n) (rev (take lower entries)))
      in if upper < lower - back then Inl Undefined
         else Inr (take (upper - (lower - back)) (drop (lower - back) entries)))"

fun gather_hints :: "hint_env \<Rightarrow> hint_entry list \<Rightarrow> inlay_hint list result" where
  "gather_hints E [] = Inr []"
| "gather_hints E (n # ns) = (case node_hints E (en_node n) of Inl e \<Rightarrow> Inl e
     | Inr hs \<Rightarrow> map_sum id (append hs) (gather_hints E ns))"

definition collectHints :: "hint_env \<Rightarrow> hint_entry list \<Rightarrow> lsp_range \<Rightarrow> inlay_hint list result" where
  "collectHints E entries rg =
     (case (toSourceLocation (he_utf8 E) (he_sm E) (he_buffer E) (r_start rg),
            toSourceLocation (he_utf8 E) (he_sm E) (he_buffer E) (r_end rg)) of
        (Some s, Some e) \<Rightarrow> (case range_entries entries (loffset s) (loffset e) of
           Inl err \<Rightarrow> Inl err | Inr ns \<Rightarrow> gather_hints E ns)
      | _ \<Rightarrow> Inr [])"

end
