(* ===== verification/InlayHintRuns.thy ===== *)
theory InlayHintRuns
  imports InlayHints
begin

text \<open>
  What the inlay hints of a range are: which nodes are asked for hints, the names given to ordered
  connections, the columns of the types of named ports, and that no syntax makes the request fail.
\<close>

section \<open>The nodes asked\<close>

text \<open>The entries of the map are ordered by their keys.\<close>

definition keys_ordered :: "hint_entry list \<Rightarrow> bool" where
  "keys_ordered = sorted_wrt (\<lambda>a b. en_start a < en_start b)"

definition touches :: "nat \<Rightarrow> nat \<Rightarrow> hint_entry \<Rightarrow> bool" where
  "touches s e n \<longleftrightarrow> unat (en_start n) \<le> e \<and> (s \<le> unat (en_start n) \<or> s < en_end n)"

lemma less_of_nat: "k < 2 ^ 32 \<Longrightarrow> w < of_nat k \<longleftrightarrow> unat (w :: u32) < k"
  by (simp add: word_less_nat_alt unat_of_nat)

lemma le_of_nat: "k < 2 ^ 32 \<Longrightarrow> w \<le> of_nat k \<longleftrightarrow> unat (w :: u32) \<le> k"
  by (simp add: word_le_nat_alt unat_of_nat)

abbreviation before_range :: "nat \<Rightarrow> hint_entry list \<Rightarrow> hint_entry list" where
  "before_range s ns \<equiv> filter (\<lambda>n. unat (en_start n) < s) ns"

abbreviation in_range :: "nat \<Rightarrow> nat \<Rightarrow> hint_entry list \<Rightarrow> hint_entry list" where
  "in_range s e ns \<equiv> filter (\<lambda>n. s \<le> unat (en_start n) \<and> unat (en_start n) \<le> e) ns"

lemma entries_split:
  assumes "keys_ordered ns" "s \<le> e"
  shows "ns = before_range s ns @ in_range s e ns @ filter (\<lambda>n. e < unat (en_start n)) ns"
  using assms(1)
proof (induction ns)
  case (Cons n ns)
  have later: "unat (en_start n) < unat (en_start m)" if "m \<in> set ns" for m
    using Cons.prems that by (simp add: keys_ordered_def word_less_nat_alt)
  have ih: "ns = before_range s ns @ in_range s e ns @ filter (\<lambda>n. e < unat (en_start n)) ns"
    using Cons by (simp add: keys_ordered_def)
  have none: "before_range s ns = []" if "s \<le> unat (en_start n)"
    using later that by (fastforce simp: filter_empty_conv)
  have none': "in_range s e ns = []" if "e < unat (en_start n)"
    using later that by (fastforce simp: filter_empty_conv)
  consider "unat (en_start n) < s" | "s \<le> unat (en_start n)" "unat (en_start n) \<le> e" | "e < unat (en_start n)"
    by linarith
  then show ?case
  proof cases
    case 2
    then show ?thesis using ih none by simp
  next
    case 3
    then show ?thesis using ih none none' assms(2) by simp
  qed (use ih assms(2) in simp)
qed simp

lemma last_while:
  "drop (length xs - length (takeWhile P (rev xs))) xs = rev (takeWhile P (rev xs))"
  by (metis rev_rev_ident rev_take take_rev takeWhile_eq_take)

text \<open>The walk: the entries from \<open>back\<close> on that reach into the range, then those that start in it.\<close>

lemma range_entries_parts:
  assumes "s \<le> e" "e < 2 ^ 32" "keys_ordered ns"
  shows "range_entries ns s e =
    Inr (rev (takeWhile (\<lambda>n. s < en_end n) (rev (before_range s ns))) @ in_range s e ns)"
proof -
  let ?R = "filter (\<lambda>n. e < unat (en_start n)) ns"
  define A M R where "A = before_range s ns" and "M = in_range s e ns" and "R = ?R"
  have ns: "ns = A @ M @ R" unfolding A_def M_def R_def using assms(3,1) by (rule entries_split)
  let ?reach = "takeWhile (\<lambda>n. s < en_end n) (rev A)"
  have "takeWhile (\<lambda>n. unat (en_start n) < s) (M @ R) = []"
  proof (cases "M @ R")
    case (Cons a ys)
    then have "a \<in> set M \<union> set R" by (metis list.set_intros(1) set_append)
    then show ?thesis using assms(1) Cons by (auto simp: M_def R_def)
  qed simp
  then have "takeWhile (\<lambda>n. unat (en_start n) < s) (A @ M @ R) = A"
    by (subst takeWhile_append2) (auto simp: A_def)
  then have lower: "takeWhile (\<lambda>n. en_start n < of_nat s) (A @ M @ R) = A"
    using assms(1,2) by (simp add: less_of_nat)
  have "takeWhile (\<lambda>n. unat (en_start n) \<le> e) R = []"
  proof (cases R)
    case (Cons a ys)
    then have "a \<in> set R" by simp
    then show ?thesis using Cons by (auto simp: R_def)
  qed simp
  then have "takeWhile (\<lambda>n. unat (en_start n) \<le> e) ((A @ M) @ R) = A @ M"
    using assms(1) by (subst takeWhile_append2) (auto simp: A_def M_def)
  then have upper: "takeWhile (\<lambda>n. en_start n \<le> of_nat e) (A @ M @ R) = A @ M"
    using assms(2) by (simp add: le_of_nat)
  have len: "length ?reach \<le> length A"
    using length_takeWhile_le [of _ "rev A"] by simp
  have "range_entries (A @ M @ R) s e = Inr (rev ?reach @ M)"
    using len last_while [of A "\<lambda>n. s < en_end n"] by (simp add: range_entries_def Let_def lower upper)
  then show ?thesis unfolding ns [symmetric] unfolding A_def M_def .
qed

lemma back_entries:
  "sorted_wrt (\<lambda>a b. en_end a \<le> en_end b) ns \<Longrightarrow>
     rev (takeWhile (\<lambda>n. s < en_end n) (rev ns)) = filter (\<lambda>n. s < en_end n) ns"
proof (induction ns rule: rev_induct)
  case (snoc n ns)
  show ?case
  proof (cases "s < en_end n")
    case False
    then have "filter (\<lambda>n. s < en_end n) ns = []"
      using snoc.prems by (fastforce simp: sorted_wrt_append filter_empty_conv)
    then show ?thesis using False by simp
  qed (use snoc in \<open>simp add: sorted_wrt_append\<close>)
qed simp

section \<open>Named and ordered ports\<close>

lemma ordered_walk:
  "orderedInstanceNames E \<Longrightarrow> pw_portIndex w \<le> length (hb_ports body) \<Longrightarrow>
   walk_connections E ty body inst (map OrderedPortConnection locs) w = Inr (False,
     w\<lparr>pw_result := pw_result w @ map (\<lambda>(loc, port). name_hint E loc (hp_name port))
          (zip locs (drop (pw_portIndex w) (hb_ports body))),
       pw_portIndex := min (length (hb_ports body)) (pw_portIndex w + length locs)\<rparr>)"
proof (induction locs arbitrary: w)
  case (Cons loc locs)
  show ?case
  proof (cases "pw_portIndex w < length (hb_ports body)")
    case True
    then have "drop (pw_portIndex w) (hb_ports body) =
        hb_ports body ! pw_portIndex w # drop (Suc (pw_portIndex w)) (hb_ports body)"
      by (simp add: Cons_nth_drop_Suc)
    then show ?thesis
      using Cons True by (simp add: walk_connection_def ordered_connection_def)
  qed (use Cons in \<open>simp add: walk_connection_def ordered_connection_def min_def\<close>)
qed simp

text \<open>Named connections: the name, where it stands and its length, with the formatted header of
  the port it names. Consecutive ones end on different lines.\<close>

fun lines_change :: "u32 option \<Rightarrow> position list \<Rightarrow> bool" where
  "lines_change l [] = True"
| "lines_change l (p # ps) = (l \<noteq> Some (p_line p) \<and> lines_change (Some (p_line p)) ps)"

definition named_at :: "hint_env \<Rightarrow> string \<times> source_location \<times> nat \<Rightarrow> position" where
  "named_at E c = (case c of (name, loc, len) \<Rightarrow> hint_position E (loc\<lparr>loffset := loffset loc + len\<rparr>))"

definition typed_as :: "hint_env \<Rightarrow> hint_body \<Rightarrow> string \<times> source_location \<times> nat \<Rightarrow> string \<Rightarrow> bool" where
  "typed_as E body c label \<longleftrightarrow> (\<exists>port header. hb_findPort body (fst c) = Some port \<and>
     hp_declaration port = Some (PortHeader header) \<and> detailFormat (he_isWhitespace E) header = Inr label)"

lemma named_walk:
  assumes "portTypes E" "list_all2 (typed_as E body) cs labels"
    and "lines_change (pw_lastPortLine w) (map (named_at E) cs)"
  shows "\<exists>last. walk_connections E ty body inst (map (\<lambda>(name, loc, len). NamedPortConnection name loc len) cs) w =
    Inr (False, w\<lparr>pw_named := pw_named w @ zip (map (named_at E) cs) labels,
       pw_maxLabelLen := fold max (map length labels) (pw_maxLabelLen w), pw_lastPortLine := last\<rparr>)"
  using assms(2,3)
proof (induction cs labels arbitrary: w rule: list_all2_induct)
  case Nil
  then show ?case by (intro exI [of _ "pw_lastPortLine w"]) simp
next
  case (Cons c cs label labels)
  obtain name loc len where c: "c = (name, loc, len)" by (cases c)
  let ?w = "w\<lparr>pw_maxLabelLen := max (pw_maxLabelLen w) (length label),
      pw_named := pw_named w @ [(named_at E c, label)], pw_lastPortLine := Some (p_line (named_at E c))\<rparr>"
  have "walk_connection E ty body inst (NamedPortConnection name loc len) w = Inr (False, ?w)"
    using Cons.hyps(1) Cons.prems assms(1) c
    by (auto simp: walk_connection_def named_connection_def typed_as_def named_at_def Let_def)
  then show ?case
    using Cons.IH [of ?w] Cons.prems c by (auto simp: max.commute)
qed

definition widest :: "string list \<Rightarrow> nat" where
  "widest labels = fold max (map length labels) 0"

lemma fold_max_ge: "m \<le> fold max ns m \<and> (\<forall>n \<in> set ns. n \<le> fold max ns (m :: nat))"
proof (induction ns arbitrary: m)
  case (Cons n ns)
  have a: "max n m \<le> fold max ns (max n m)" and b: "\<forall>k \<in> set ns. k \<le> fold max ns (max n m)"
    using Cons.IH by blast+
  show ?case using b le_trans [OF max.cobounded1 a] le_trans [OF max.cobounded2 a] by simp
qed simp

lemma widest_ge: "label \<in> set labels \<Longrightarrow> length label \<le> widest labels"
  using fold_max_ge [of 0 "map length labels"] by (auto simp: widest_def)

text \<open>The hints of an instance whose connections are all ordered, or all named.\<close>

definition ordered_hints :: "hint_env \<Rightarrow> hint_body \<Rightarrow> source_location list \<Rightarrow> inlay_hint list" where
  "ordered_hints E body locs =
     map (\<lambda>(loc, port). name_hint E loc (hp_name port)) (zip locs (hb_ports body))"

definition typed_hints ::
  "hint_env \<Rightarrow> (string \<times> source_location \<times> nat) list \<Rightarrow> string list \<Rightarrow> inlay_hint list" where
  "typed_hints E cs labels = map (aligned_hint (widest labels)) (zip (map (named_at E) cs) labels)"

lemma ordered_instance:
  assumes "orderedInstanceNames E" "hi_hierarchical inst"
    and "hi_connections inst = map OrderedPortConnection locs"
  shows "walk_instances E ty body (inst # insts) res =
    walk_instances E ty body insts (res @ ordered_hints E body locs)"
  using assms by (simp add: ordered_walk ordered_hints_def)

lemma typed_instance:
  assumes "portTypes E" "hi_hierarchical inst" "list_all2 (typed_as E body) cs labels"
    and "lines_change None (map (named_at E) cs)"
    and "hi_connections inst = map (\<lambda>(name, loc, len). NamedPortConnection name loc len) cs"
  shows "walk_instances E ty body (inst # insts) res =
    walk_instances E ty body insts (res @ typed_hints E cs labels)"
  using assms named_walk [OF assms(1,3), of "\<lparr>pw_result = res, pw_named = [], pw_maxLabelLen = 0,
      pw_portIndex = 0, pw_lastPortLine = None\<rparr>" ty inst]
  by (auto simp: typed_hints_def widest_def)

section \<open>No request fails\<close>

lemma connection_total:
  assumes "he_isWhitespace E nl"
  shows "\<exists>b w'. walk_connection E ty body inst c w = Inr (b, w')"
proof (cases c)
  case (NamedPortConnection name loc len)
  then show ?thesis
    using detail_total [of "he_isWhitespace E", OF assms]
    by (auto simp: walk_connection_def named_connection_def Let_def split: option.split port_declaration.split
        sum.split) (metis sum.distinct(1))+
next
  case (WildcardPortConnection rg)
  then show ?thesis
    using code_block_total [of "he_utf8 E" "he_isWhitespace E"]
    by (auto simp: walk_connection_def wildcard_connection_def Let_def split: option.split sum.split)
      (metis sum.distinct(1))+
qed (auto simp: walk_connection_def)

lemma connections_total:
  "he_isWhitespace E nl \<Longrightarrow> \<exists>b w'. walk_connections E ty body inst cs w = Inr (b, w')"
proof (induction cs arbitrary: w)
  case (Cons c cs)
  obtain b w' where "walk_connection E ty body inst c w = Inr (b, w')"
    using connection_total [OF Cons.prems] by blast
  then show ?case using Cons by (cases b) auto
qed auto

lemma instances_total:
  "he_isWhitespace E nl \<Longrightarrow> \<exists>hs. walk_instances E ty body insts res = Inr hs"
proof (induction insts arbitrary: res)
  case (Cons inst insts)
  obtain b w where "walk_connections E ty body inst (hi_connections inst)
      \<lparr>pw_result = res, pw_named = [], pw_maxLabelLen = 0, pw_portIndex = 0, pw_lastPortLine = None\<rparr> = Inr (b, w)"
    using connections_total [OF Cons.prems] by blast
  then show ?case using Cons by (cases b) auto
qed simp

lemma node_total: "he_isWhitespace E nl \<Longrightarrow> \<exists>hs. node_hints E n = Inr hs"
  by (cases n) (auto simp: node_hints_def handle_instantiation_def instances_total split: option.split)

lemma gather_total: "he_isWhitespace E nl \<Longrightarrow> \<exists>hs. gather_hints E ns = Inr hs"
proof (induction ns)
  case (Cons n ns)
  then show ?case using node_total [of E "en_node n"] by auto
qed simp

section \<open>Properties\<close>

text \<open>The hints of a range come from the nodes of the document that start in it, preceded by
  nodes that start before it and reach into it, in the order of the document. Where no node ends
  after a later one, these are exactly the nodes that touch the range.\<close>

theorem hints_of_range:
  assumes "s \<le> e" and "e < 2 ^ 32" and "keys_ordered ns"
  shows "\<exists>before. range_entries ns s e = Inr (before @ in_range s e ns) \<and>
    suffix before (before_range s ns) \<and> list_all (touches s e) (before @ in_range s e ns) \<and>
    (sorted_wrt (\<lambda>a b. en_end a \<le> en_end b) ns \<longrightarrow> before @ in_range s e ns = filter (touches s e) ns)"
proof -
  let ?b = "rev (takeWhile (\<lambda>n. s < en_end n) (rev (before_range s ns)))"
  have sx: "suffix ?b (before_range s ns)"
    by (metis rev_rev_ident suffix_to_prefix takeWhile_is_prefix)
  have "list_all (touches s e) ?b"
    using assms(1) by (auto simp: list_all_iff touches_def dest: set_takeWhileD)
  moreover have "list_all (touches s e) (in_range s e ns)"
    by (simp add: list_all_iff touches_def)
  moreover have "?b @ in_range s e ns = filter (touches s e) ns"
    if "sorted_wrt (\<lambda>a b. en_end a \<le> en_end b) ns"
  proof -
    have "?b = filter (touches s e) (before_range s ns)"
      using back_entries [OF sorted_wrt_filter [OF that]] assms(1)
      by (auto simp: touches_def intro!: filter_cong)
    moreover have "in_range s e ns = filter (touches s e) (in_range s e ns)"
      by (auto simp: touches_def intro!: filter_cong)
    moreover have "filter (touches s e) (filter (\<lambda>n. e < unat (en_start n)) ns) = []"
      by (simp add: touches_def filter_empty_conv)
    ultimately show ?thesis
      using arg_cong [OF entries_split [OF assms(3,1)], of "filter (touches s e)"] by simp
  qed
  ultimately show ?thesis
    using range_entries_parts [OF assms] sx by (intro exI [of _ ?b]) simp
qed

abbreviation empty_entry :: "u32 \<Rightarrow> nat \<Rightarrow> hint_entry" where
  "empty_entry i j \<equiv> \<lparr>en_start = i, en_end = j, en_node = HintOther\<rparr>"

theorem hints_of_range_witness:
  "\<exists>before. range_entries [empty_entry 0 5, empty_entry 6 20, empty_entry 25 30] 10 28 =
       Inr (before @ in_range 10 28 [empty_entry 0 5, empty_entry 6 20, empty_entry 25 30]) \<and>
    suffix before (before_range 10 [empty_entry 0 5, empty_entry 6 20, empty_entry 25 30]) \<and>
    list_all (touches 10 28) (before @ in_range 10 28 [empty_entry 0 5, empty_entry 6 20, empty_entry 25 30]) \<and>
    (sorted_wrt (\<lambda>a b. en_end a \<le> en_end b) [empty_entry 0 5, empty_entry 6 20, empty_entry 25 30] \<longrightarrow>
       before @ in_range 10 28 [empty_entry 0 5, empty_entry 6 20, empty_entry 25 30] =
       filter (touches 10 28) [empty_entry 0 5, empty_entry 6 20, empty_entry 25 30])"
  by (rule hints_of_range) (simp_all add: keys_ordered_def)

text \<open>Without that condition a node around the range is missed: an instantiation from 0 to 100 with
  a call from 10 to 20 in its first connection is not asked for the hints of the rest.\<close>

lemma enclosing_node_missed:
  "touches 50 90 (empty_entry 0 100) \<and> range_entries [empty_entry 0 100, empty_entry 10 20] 50 90 = Inr []"
  by (simp add: touches_def range_entries_def Let_def)

text \<open>What an instance is to show: nothing when it is not hierarchical, the names of its ports
  before ordered connections, the types of its ports in one column after named connections.\<close>

inductive shown_hints :: "hint_env \<Rightarrow> hint_body \<Rightarrow> hint_instance \<Rightarrow> inlay_hint list \<Rightarrow> bool"
  for E body where
  "\<not> hi_hierarchical inst \<Longrightarrow> shown_hints E body inst []"
| "hi_hierarchical inst \<Longrightarrow> orderedInstanceNames E \<Longrightarrow>
   hi_connections inst = map OrderedPortConnection locs \<Longrightarrow>
   shown_hints E body inst (ordered_hints E body locs)"
| "hi_hierarchical inst \<Longrightarrow> portTypes E \<Longrightarrow>
   hi_connections inst = map (\<lambda>(name, loc, len). NamedPortConnection name loc len) cs \<Longrightarrow>
   list_all2 (typed_as E body) cs labels \<Longrightarrow> lines_change None (map (named_at E) cs) \<Longrightarrow>
   shown_hints E body inst (typed_hints E cs labels)"

lemma shown_step:
  "shown_hints E body inst hs \<Longrightarrow>
     walk_instances E ty body (inst # insts) res = walk_instances E ty body insts (res @ hs)"
  by (induction rule: shown_hints.induct)
     (simp_all add: ordered_instance typed_instance del: walk_instances.simps(2), simp)

lemma shown_walk:
  "list_all2 (shown_hints E body) insts hss \<Longrightarrow> walk_instances E ty body insts res = Inr (res @ concat hss)"
  by (induction insts hss arbitrary: res rule: list_all2_induct)
     (simp_all add: shown_step del: walk_instances.simps(2))

lemma typed_column: "h \<in> set (typed_hints E cs labels) \<Longrightarrow>
    \<exists>t. ih_label h = LabelText t \<and> length t = widest labels"
  by (auto simp: typed_hints_def aligned_hint_def widest_ge dest!: set_zip_rightD)

text \<open>An instantiation shows the names of its parameters in order and then, instance by
  instance, the name of each port before its ordered connection, or the formatted type of each
  named port, padded so that the labels of an instance all have one width.\<close>

theorem instance_hints_shown:
  assumes "hn_definition n = Some params"
    and "list_all2 (shown_hints E (chosen_body n)) (hn_instances n) hss"
  shows "node_hints E (HintInstantiation n) =
      Inr (instance_params E params (hn_params n) @ concat hss) \<and>
    list_all (\<lambda>h. \<exists>t. ih_label h = LabelText t \<and> length t = widest labels) (typed_hints E cs labels)"
  using assms by (simp add: node_hints_def handle_instantiation_def shown_walk list_all_iff typed_column)

definition hints_sample :: hint_env where
  "hints_sample = \<lparr>he_utf8 = sample_utf8, he_sm = \<lparr>getSourceText = (\<lambda>_. replicate 90 CHR ''x''),
       getColumnNumber = (\<lambda>l. loffset l mod 30 + 1), getRawLineNumber = (\<lambda>l. loffset l div 30 + 1),
       getSourceLocation = (\<lambda>b n c. Some (loc_at b 0)), getFullyExpandedLoc = id,
       getFullyExpandedRange = id, getFullyOriginalRange = id, getFullPath = (\<lambda>_. [])\<rparr>,
     he_isMacroLoc = (\<lambda>_. False), he_getFullyOriginalLoc = id, he_isWhitespace = isspace, he_buffer = 1,
     portTypes = True, assignmentPatternTypes = True, activeParameterValues = True,
     orderedInstanceNames = True, wildcardNames = True, funcArgNames = 2, macroArgNames = 2\<rparr>"

definition fifo_body :: hint_body where
  "fifo_body = \<lparr>hb_ports = [\<lparr>hp_name = ''d'', hp_declaration = Some (PortHeader ''input byte'')\<rparr>,
       \<lparr>hp_name = ''q'', hp_declaration = Some (PortHeader ''output  bit'')\<rparr>],
     hb_findPort = (\<lambda>s. if s = ''d'' then Some \<lparr>hp_name = ''d'', hp_declaration = Some (PortHeader ''input byte'')\<rparr>
       else if s = ''q'' then Some \<lparr>hp_name = ''q'', hp_declaration = Some (PortHeader ''output  bit'')\<rparr> else None),
     hb_portList = None\<rparr>"

definition fifo_instances :: hint_instantiation where
  "fifo_instances = \<lparr>hn_type_loc = loc_at 1 0, hn_definition = Some [''W''], hn_invalid = fifo_body,
     hn_params = Some [(True, loc_at 1 6)], hn_instances = [
       \<lparr>hi_hierarchical = True, hi_body = Some fifo_body, hi_openParen = loc_at 1 10, hi_closeParen = loc_at 1 14,
        hi_connections = map OrderedPortConnection [loc_at 1 11, loc_at 1 13]\<rparr>,
       \<lparr>hi_hierarchical = True, hi_body = Some fifo_body, hi_openParen = loc_at 1 20, hi_closeParen = loc_at 1 80,
        hi_connections = map (\<lambda>(name, loc, len). NamedPortConnection name loc len)
          [(''d'', loc_at 1 31, 1), (''q'', loc_at 1 61, 1)]\<rparr>]\<rparr>"

theorem instance_hints_shown_witness:
  "node_hints hints_sample (HintInstantiation fifo_instances) =
      Inr (instance_params hints_sample [''W''] (hn_params fifo_instances) @
        concat [ordered_hints hints_sample fifo_body [loc_at 1 11, loc_at 1 13],
          typed_hints hints_sample [(''d'', loc_at 1 31, 1), (''q'', loc_at 1 61, 1)] [''input byte'', ''output bit'']]) \<and>
    list_all (\<lambda>h. \<exists>t. ih_label h = LabelText t \<and> length t = widest [''input byte'', ''output bit''])
      (typed_hints hints_sample [(''d'', loc_at 1 31, 1), (''q'', loc_at 1 61, 1)] [''input byte'', ''output bit''])"
proof (rule instance_hints_shown)
  have "detailFormat isspace ''input byte'' = Inr ''input byte''" by code_simp
  moreover have "detailFormat isspace ''output  bit'' = Inr ''output bit''" by code_simp
  ultimately have t: "list_all2 (typed_as hints_sample fifo_body)
      [(''d'', loc_at 1 31, 1), (''q'', loc_at 1 61, 1)] [''input byte'', ''output bit'']"
    by (simp add: typed_as_def hints_sample_def fifo_body_def)
  have l: "lines_change None (map (named_at hints_sample) [(''d'', loc_at 1 31, 1), (''q'', loc_at 1 61, 1)])"
    by (simp add: named_at_def hints_sample_def toPosition_def toPositionAt_def Let_def)
  show "list_all2 (shown_hints hints_sample (chosen_body fifo_instances)) (hn_instances fifo_instances)
    [ordered_hints hints_sample fifo_body [loc_at 1 11, loc_at 1 13],
     typed_hints hints_sample [(''d'', loc_at 1 31, 1), (''q'', loc_at 1 61, 1)] [''input byte'', ''output bit'']]"
    using shown_hints.intros(2) [of _ hints_sample "[loc_at 1 11, loc_at 1 13]" fifo_body]
      shown_hints.intros(3) [OF _ _ _ t l]
    by (simp add: fifo_instances_def chosen_body_def map_filter_def hints_sample_def)
qed (simp add: fifo_instances_def)

text \<open>A connection left empty does not count, so the names of the following ports are shifted.\<close>

lemma empty_connection_shifts_names:
  assumes "orderedInstanceNames E" "hb_ports body = [p, q]" "hi_hierarchical inst"
    "hi_connections inst = [OtherConnection, OrderedPortConnection loc]"
  shows "walk_instances E ty body [inst] [] = Inr [name_hint E loc (hp_name p)]"
  using assms by (simp add: walk_connection_def ordered_connection_def)

text \<open>Two named connections in a row on one line end the handler: the instance shows no type, and
  the instances after it no hint at all.\<close>

lemma shared_line_ends_instances:
  assumes "portTypes E" "hi_hierarchical inst" "typed_as E body (name, loc, len) label"
    "hi_connections inst = [NamedPortConnection name loc len, NamedPortConnection name loc len]"
  shows "walk_instances E ty body (inst # insts) res = Inr res"
  using assms by (auto simp: walk_connection_def named_connection_def typed_as_def Let_def)

end
