(* ===== verification/SymbolIndex.thy ===== *)
theory SymbolIndex
  imports Prelude
begin

text \<open>
  The index from tokens and syntax nodes to symbols, from src/document/SymbolIndexer.cpp and
  include/document/SymbolIndexer.h. The elaborated design is data: symbols, tokens and syntax nodes
  are numbers, as they are pointers in the code, and \<open>design\<close> tells of each symbol its kind with
  what the handler of that kind reads, and the symbols that slang's default visit goes to. What
  slang's lookups answer for a connection or a parameter is data of that connection.

  Every handler ends with its visits, so the recursion of the visitor is a stack of symbols still
  to be visited; a design may be circular through its type aliases.
\<close>

section \<open>Names in a syntax node\<close>

text \<open>A token child: its number, whether it is an identifier, its text. The loop goes over the
  tokens of a node before its child nodes.\<close>

datatype name_syntax = NameSyntax (is_block_clause: bool)
  (token_children: "(nat \<times> bool \<times> string) list") (node_children: "name_syntax list")

fun findNames :: "string \<Rightarrow> name_syntax \<Rightarrow> nat list \<Rightarrow> nat list" where
  "findNames name (NameSyntax b toks kids) found =
     fold (\<lambda>kid res. if res = [] \<or> is_block_clause kid then findNames name kid res else res) kids
       (found @ map fst (filter (\<lambda>(t, ident, s). ident \<and> s = name) toks))"

section \<open>The tables\<close>

record symbol_indexer =
  symdex :: "nat \<rightharpoonup> nat list"
  syntex :: "nat \<rightharpoonup> nat list"

definition add_entry :: "nat \<Rightarrow> nat \<Rightarrow> (nat \<rightharpoonup> nat list) \<Rightarrow> (nat \<rightharpoonup> nat list)" where
  "add_entry key s table = (let symbols = (case table key of None \<Rightarrow> [] | Some xs \<Rightarrow> xs) in
     table(key \<mapsto> (if s \<in> set symbols then symbols else symbols @ [s])))"

definition addSymbol_token :: "nat \<Rightarrow> nat \<Rightarrow> symbol_indexer \<Rightarrow> symbol_indexer" where
  "addSymbol_token tok s ix = ix\<lparr>symdex := add_entry tok s (symdex ix)\<rparr>"

definition addSymbol_syntax :: "nat \<Rightarrow> nat \<Rightarrow> symbol_indexer \<Rightarrow> symbol_indexer" where
  "addSymbol_syntax n s ix = ix\<lparr>syntex := add_entry n s (syntex ix)\<rparr>"

definition getSymbols_token :: "symbol_indexer \<Rightarrow> nat \<Rightarrow> nat list" where
  "getSymbols_token ix tok = (case symdex ix tok of None \<Rightarrow> [] | Some xs \<Rightarrow> xs)"

text \<open>\<open>back\<close> of an empty list is undefined; only the lookup by token tests for it.\<close>

definition getSymbol_token :: "symbol_indexer \<Rightarrow> nat \<Rightarrow> nat option" where
  "getSymbol_token ix tok = (let symbols = getSymbols_token ix tok in
     if symbols = [] then None else Some (last symbols))"

definition getSymbol_syntax :: "symbol_indexer \<Rightarrow> nat \<Rightarrow> nat option result" where
  "getSymbol_syntax ix n = (case syntex ix n of None \<Rightarrow> Inr None
     | Some symbols \<Rightarrow> (if symbols = [] then Inl Undefined else Inr (Some (last symbols))))"

text \<open>The scopes of the nearest node up the tree whose symbols have one: the symbol itself or its
  parent scope. A node is given with its ancestors.\<close>

fun scopes_of :: "(nat \<Rightarrow> bool) \<Rightarrow> (nat \<Rightarrow> nat option) \<Rightarrow> nat list \<Rightarrow> nat list \<Rightarrow> nat list" where
  "scopes_of isScope parent [] found = found"
| "scopes_of isScope parent (s # ss) found =
     (case (if isScope s then Some s else parent s) of
        Some scope \<Rightarrow> scopes_of isScope parent ss (if scope \<in> set found then found else found @ [scope])
      | None \<Rightarrow> scopes_of isScope parent ss found)"

fun getScopesForSyntax ::
  "(nat \<Rightarrow> bool) \<Rightarrow> (nat \<Rightarrow> nat option) \<Rightarrow> symbol_indexer \<Rightarrow> nat list \<Rightarrow> nat list" where
  "getScopesForSyntax isScope parent ix [] = []"
| "getScopesForSyntax isScope parent ix (n # up) =
     (case syntex ix n of None \<Rightarrow> getScopesForSyntax isScope parent ix up
      | Some symbols \<Rightarrow> (let scopes = scopes_of isScope parent symbols [] in
          if scopes \<noteq> [] then scopes else getScopesForSyntax isScope parent ix up))"

definition getScopeForSyntax ::
  "(nat \<Rightarrow> bool) \<Rightarrow> (nat \<Rightarrow> nat option) \<Rightarrow> symbol_indexer \<Rightarrow> nat list \<Rightarrow> nat option" where
  "getScopeForSyntax isScope parent ix path =
     (let scopes = getScopesForSyntax isScope parent ix path in
      if scopes = [] then None else Some (last scopes))"

section \<open>Instances\<close>

text \<open>A port connection of an elaborated instance: its port, the symbol its expression refers to,
  the interface it connects (asked for interface ports only), the symbol inside the port.\<close>

record port_connection =
  pc_port :: nat
  pc_expression :: "nat option"
  pc_iface :: "nat option"
  pc_internal :: "nat option"

text \<open>A named connection in the source: its name token, whether it has parentheses, the formal port
  of that name with the ports it joins (a multi-port) and the symbol inside it, and what the name
  means in the parent scope after the instance, and at its end.\<close>

record named_port_syntax =
  nc_token :: nat
  nc_name :: string
  nc_paren :: bool
  nc_formal :: "nat option"
  nc_joined :: "nat list option"
  nc_internal :: "nat option"
  nc_outer_after :: "nat option"
  nc_outer_end :: "nat option"

record named_param =
  np_named :: bool
  np_token :: nat
  np_name :: string
  np_symbol :: "nat option"

text \<open>The syntax of an instance with its elaboration: the named connections (other kinds are
  passed over), the connections slang made when the instance has syntax, whether the parent scope
  is that of the instance, and the instantiation it stands in.\<close>

record instance_syntax =
  is_connections :: "named_port_syntax list"
  is_elaborated :: "port_connection list option"
  is_same_parent :: bool
  is_parent :: "(nat \<times> named_param list option) option"

fun has_pair :: "nat \<Rightarrow> nat \<Rightarrow> nat list \<Rightarrow> bool" where
  "has_pair outer inner (a # b # ss) = (a = outer \<and> b = inner \<or> has_pair outer inner ss)"
| "has_pair outer inner _ = False"

definition addConnection ::
  "nat \<Rightarrow> nat option \<Rightarrow> nat option \<Rightarrow> symbol_indexer \<Rightarrow> bool \<times> symbol_indexer" where
  "addConnection tok outer inner ix = (case (outer, inner) of
     (Some out, Some inn) \<Rightarrow> (let symbols = getSymbols_token ix tok in
        (True, ix\<lparr>symdex := (symdex ix)(tok \<mapsto>
           (if has_pair out inn symbols then symbols else symbols @ [out, inn]))\<rparr>))
   | _ \<Rightarrow> (False, ix))"

definition or_else :: "'a option \<Rightarrow> 'a option \<Rightarrow> 'a option" where
  "or_else x y = (case x of Some v \<Rightarrow> Some v | None \<Rightarrow> y)"

definition matches_formal :: "named_port_syntax \<Rightarrow> nat \<Rightarrow> port_connection \<Rightarrow> bool" where
  "matches_formal c formal pc = (case nc_joined c of Some ports \<Rightarrow> pc_port pc \<in> set ports
     | None \<Rightarrow> pc_port pc = formal)"

text \<open>The shorthand \<open>.name\<close>: whether a connection was entered, and the tables.\<close>

definition index_shorthand ::
  "instance_syntax \<Rightarrow> named_port_syntax \<Rightarrow> nat \<Rightarrow> symbol_indexer \<Rightarrow> bool \<times> symbol_indexer" where
  "index_shorthand inst c formal ix = (case is_elaborated inst of
     Some pcs \<Rightarrow> fold (\<lambda>pc (done, ix').
        if \<not> matches_formal c formal pc then (done, ix') else
        (let (entered, ix'') = addConnection (nc_token c)
           (or_else (nc_outer_after c) (or_else (pc_expression pc) (pc_iface pc)))
           (Some (case pc_internal pc of Some i \<Rightarrow> i | None \<Rightarrow> pc_port pc)) ix'
         in (done \<or> entered, ix''))) pcs (False, ix)
   | None \<Rightarrow> addConnection (nc_token c)
       (if is_same_parent inst then nc_outer_after c else nc_outer_end c)
       (Some (case nc_internal c of Some i \<Rightarrow> i | None \<Rightarrow> formal)) ix)"

definition index_port :: "instance_syntax \<Rightarrow> named_port_syntax \<Rightarrow> symbol_indexer \<Rightarrow> symbol_indexer" where
  "index_port inst c ix =
     (if nc_name c = [] then ix else
      (case nc_formal c of None \<Rightarrow> ix
       | Some formal \<Rightarrow>
          (let (entered, ix') = (if nc_paren c then (False, ix) else index_shorthand inst c formal ix)
           in if entered then ix' else addSymbol_token (nc_token c) formal ix')))"

definition index_param :: "named_param \<Rightarrow> symbol_indexer \<Rightarrow> symbol_indexer" where
  "index_param p ix = (if np_named p \<and> np_name p \<noteq> [] then
     (case np_symbol p of None \<Rightarrow> ix | Some s \<Rightarrow> addSymbol_token (np_token p) s ix) else ix)"

definition indexInstanceSyntax :: "instance_syntax \<Rightarrow> nat \<Rightarrow> symbol_indexer \<Rightarrow> symbol_indexer" where
  "indexInstanceSyntax inst definition_symbol ix =
     (let ix' = fold (index_port inst) (is_connections inst) ix in
      case is_parent inst of None \<Rightarrow> ix'
      | Some (type_tok, params) \<Rightarrow>
          (let ix'' = addSymbol_token type_tok definition_symbol ix' in
           case params of None \<Rightarrow> ix'' | Some ps \<Rightarrow> fold index_param ps ix''))"

section \<open>Symbols and their handlers\<close>

text \<open>An instance: the name token of its definition's header, the definition, the definition's
  buffer, the depth, and the name and syntax when it is a hierarchical instance. An array: its name
  and the definition and syntax through its first element, or else through an invalid instance.\<close>

datatype ast_kind =
    Root | CompilationUnit | Package
  | Instance nat nat nat nat "(nat \<times> instance_syntax) option"
  | InstanceArray "(nat \<times> (nat \<times> instance_syntax) option) option"
  | GenerateBlock bool | GenerateBlockArray bool
  | EnumType
  | TypeParameter nat
  | TypeAlias nat
  | TransparentMember nat
  | EnumValue nat bool
  | OtherSymbol

record ast_symbol =
  as_kind :: ast_kind
  as_syntax :: "nat option"
  as_names :: name_syntax
  as_syntax_buffer :: nat
  as_buffer :: nat
  as_name :: string
  as_members :: "nat list"

record index_env =
  ie_buffer :: nat
  enclosingBuffers :: "nat list"
  design :: "nat \<Rightarrow> ast_symbol"

definition MAX_INSTANCE_DEPTH :: nat where
  "MAX_INSTANCE_DEPTH = 8"

definition shouldVisit :: "index_env \<Rightarrow> nat \<Rightarrow> bool" where
  "shouldVisit E buffer \<longleftrightarrow> buffer = ie_buffer E \<or> buffer \<in> set (enclosingBuffers E)"

definition indexSymbolName :: "index_env \<Rightarrow> nat \<Rightarrow> bool \<Rightarrow> symbol_indexer \<Rightarrow> symbol_indexer" where
  "indexSymbolName E s isUnnamed ix = (case as_syntax (design E s) of None \<Rightarrow> ix
     | Some n \<Rightarrow> (let ix' = addSymbol_syntax n s ix; d = design E s in
         if \<not> isUnnamed \<and> as_syntax_buffer d = ie_buffer E \<and> as_name d \<noteq> []
         then fold (\<lambda>tok. addSymbol_token tok s) (findNames (as_name d) (as_names d) []) ix'
         else ix'))"

text \<open>What a handler leaves in the tables and which symbols it visits then.\<close>

definition handle_instance ::
  "index_env \<Rightarrow> nat \<Rightarrow> nat \<Rightarrow> nat \<Rightarrow> nat \<Rightarrow> nat \<Rightarrow> (nat \<times> instance_syntax) option \<Rightarrow> symbol_indexer
     \<Rightarrow> symbol_indexer \<times> nat list" where
  "handle_instance E s header_tok definition_symbol definition_buffer depth hier ix =
     (let d = design E s in
      if as_syntax d = None then (addSymbol_token header_tok definition_symbol ix, as_members d)
      else if as_buffer d \<noteq> ie_buffer E then (ix, [])
      else (let ix1 = indexSymbolName E s False ix;
                ix2 = (case hier of None \<Rightarrow> ix1
                  | Some (name_tok, inst) \<Rightarrow>
                      indexInstanceSyntax inst definition_symbol (addSymbol_token name_tok s ix1))
            in (ix2, if definition_buffer = ie_buffer E \<and> depth < MAX_INSTANCE_DEPTH
                     then as_members d else [])))"

definition handle_array ::
  "index_env \<Rightarrow> nat \<Rightarrow> (nat \<times> (nat \<times> instance_syntax) option) option \<Rightarrow> symbol_indexer \<Rightarrow> symbol_indexer \<times> nat list"
where
  "handle_array E s hier ix = (let d = design E s in
     if as_syntax d = None \<or> as_buffer d \<noteq> ie_buffer E then (ix, []) else
     (case hier of None \<Rightarrow> (ix, [])
      | Some (name_tok, elaborated) \<Rightarrow> (let ix' = addSymbol_token name_tok s ix in
          case elaborated of None \<Rightarrow> (ix', [])
          | Some (definition_symbol, inst) \<Rightarrow> (indexInstanceSyntax inst definition_symbol ix', []))))"

definition handle_alias :: "index_env \<Rightarrow> nat \<Rightarrow> nat \<Rightarrow> symbol_indexer \<Rightarrow> symbol_indexer \<times> nat list" where
  "handle_alias E s target ix = (let d = design E s in
     if as_buffer d \<noteq> ie_buffer E then (ix, [])
     else (case as_syntax d of
        Some n \<Rightarrow> (if syntex ix n \<noteq> None then (ix, []) else (indexSymbolName E s False ix, [target]))
      | None \<Rightarrow> (indexSymbolName E s False ix, [target])))"

definition handle_symbol :: "index_env \<Rightarrow> nat \<Rightarrow> symbol_indexer \<Rightarrow> symbol_indexer \<times> nat list" where
  "handle_symbol E s ix = (let d = design E s in case as_kind d of
     Root \<Rightarrow> (ix, as_members d)
   | CompilationUnit \<Rightarrow> (ix, as_members d)
   | Package \<Rightarrow> (indexSymbolName E s False ix, if shouldVisit E (as_buffer d) then as_members d else [])
   | Instance header definition_symbol definition_buffer depth hier \<Rightarrow>
       handle_instance E s header definition_symbol definition_buffer depth hier ix
   | InstanceArray hier \<Rightarrow> handle_array E s hier ix
   | GenerateBlock isUnnamed \<Rightarrow> (indexSymbolName E s isUnnamed ix, as_members d)
   | GenerateBlockArray isUnnamed \<Rightarrow> (indexSymbolName E s isUnnamed ix, as_members d)
   | EnumType \<Rightarrow> (ix, as_members d)
   | TypeParameter alias \<Rightarrow> (ix, [alias])
   | TypeAlias target \<Rightarrow> handle_alias E s target ix
   | TransparentMember wrapped \<Rightarrow> (ix, [wrapped])
   | EnumValue tok plain \<Rightarrow> ((if plain then addSymbol_token tok s ix else ix), [])
   | OtherSymbol \<Rightarrow> (indexSymbolName E s False ix,
       if shouldVisit E (as_buffer d) then as_members d else []))"

partial_function (option) visit_all :: "index_env \<Rightarrow> nat list \<Rightarrow> symbol_indexer \<Rightarrow> symbol_indexer option" where
  "visit_all E stack ix = (case stack of [] \<Rightarrow> Some ix
     | s # ss \<Rightarrow> visit_all E (snd (handle_symbol E s ix) @ ss) (fst (handle_symbol E s ix)))"

definition empty_symbol_indexer :: symbol_indexer where
  "empty_symbol_indexer = \<lparr>symdex = Map.empty, syntex = Map.empty\<rparr>"

end
