(* ===== verification/SymbolIndexRuns.thy ===== *)
theory SymbolIndexRuns
  imports SymbolIndex "HOL-Library.Multiset"
begin

text \<open>
  What the symbol index promises: the visit of a design ends although type aliases may refer to each
  other in circles, no list in its tables is empty, and every symbol the visit comes to is found
  from its syntax and from the tokens that name it.
\<close>

section \<open>Tables only grow\<close>

definition table_le :: "(nat \<rightharpoonup> nat list) \<Rightarrow> (nat \<rightharpoonup> nat list) \<Rightarrow> bool" where
  "table_le t t' \<longleftrightarrow> (\<forall>k xs. t k = Some xs \<longrightarrow> (\<exists>xs'. t' k = Some xs' \<and> set xs \<subseteq> set xs'))"

definition filled :: "(nat \<rightharpoonup> nat list) \<Rightarrow> bool" where
  "filled t \<longleftrightarrow> (\<forall>k. t k \<noteq> Some [])"

definition grows :: "symbol_indexer \<Rightarrow> symbol_indexer \<Rightarrow> bool" where
  "grows ix ix' \<longleftrightarrow> table_le (symdex ix) (symdex ix') \<and> table_le (syntex ix) (syntex ix') \<and>
     (filled (symdex ix) \<longrightarrow> filled (symdex ix')) \<and> (filled (syntex ix) \<longrightarrow> filled (syntex ix'))"

lemma index_grows_refl [simp]: "grows ix ix"
  by (simp add: grows_def table_le_def)

lemma table_le_trans: "table_le a b \<Longrightarrow> table_le b c \<Longrightarrow> table_le a c"
  unfolding table_le_def by (meson subset_trans)

lemma index_grows_trans [trans]: "grows a b \<Longrightarrow> grows b c \<Longrightarrow> grows a c"
  unfolding grows_def using table_le_trans by blast

lemma grows_fold: "(\<And>x ix. x \<in> set xs \<Longrightarrow> grows ix (f x ix)) \<Longrightarrow> grows ix (fold f xs ix)"
proof (induction xs arbitrary: ix)
  case (Cons x xs)
  then have "grows ix (f x ix)" "grows (f x ix) (fold f xs (f x ix))" by simp_all
  then show ?case using index_grows_trans by simp
qed simp

lemma entry_le [simp]: "table_le t (add_entry k s t)"
  by (auto simp: table_le_def add_entry_def Let_def split: option.split)

lemma entry_filled [simp]: "filled t \<Longrightarrow> filled (add_entry k s t)"
  by (auto simp: filled_def add_entry_def Let_def split: option.split)

lemma entry_there: "\<exists>xs. add_entry k s t k = Some xs \<and> s \<in> set xs"
  by (auto simp: add_entry_def Let_def)

lemma table_le_refl [simp]: "table_le t t"
  by (simp add: table_le_def)

lemma grows_token [simp]: "grows ix (addSymbol_token tok s ix)"
  by (simp add: grows_def addSymbol_token_def)

lemma grows_syntax [simp]: "grows ix (addSymbol_syntax n s ix)"
  by (simp add: grows_def addSymbol_syntax_def)

lemma grows_connection_pair: "grows ix (snd (addConnection tok outer inner ix))"
  by (auto simp: addConnection_def grows_def table_le_def filled_def getSymbols_token_def Let_def
      split: option.split if_splits)

lemma shorthand_fold:
  "grows ix (snd (fold (\<lambda>pc (entered, ix'). if \<not> p pc then (entered, ix')
     else (let (e, ix'') = addConnection tok (f pc) (g pc) ix' in (entered \<or> e, ix''))) pcs (b, ix)))"
proof (induction pcs arbitrary: b ix)
  case (Cons pc pcs)
  show ?case
  proof (cases "p pc")
    case True
    obtain e ix'' where a: "addConnection tok (f pc) (g pc) ix = (e, ix'')" by fastforce
    then show ?thesis
      using Cons.IH [of ix'' "b \<or> e"] grows_connection_pair [of ix tok "f pc" "g pc"] True
      by (auto intro: index_grows_trans)
  qed (use Cons.IH in simp)
qed simp

lemma grows_shorthand: "grows ix (snd (index_shorthand inst c formal ix))"
  using shorthand_fold [of ix "matches_formal c formal"] grows_connection_pair
  by (simp add: index_shorthand_def split: option.split)

lemma grows_connection: "grows ix (index_port inst c ix)"
  using grows_shorthand [of ix inst c "the (nc_formal c)"]
  by (auto simp: index_port_def Let_def split: option.split prod.split intro: index_grows_trans)

lemma grows_instance: "grows ix (indexInstanceSyntax inst d ix)"
proof -
  let ?a = "fold (index_port inst) (is_connections inst) ix"
  have "grows ix ?a" by (rule grows_fold) (rule grows_connection)
  moreover have "grows (addSymbol_token t d ?a) (fold index_param ps (addSymbol_token t d ?a))" for t ps
    by (rule grows_fold) (simp add: index_param_def split: option.split)
  ultimately have "grows ix (fold index_param ps (addSymbol_token t d ?a))" "grows ix (addSymbol_token t d ?a)" for t ps
    using index_grows_trans grows_token by blast+
  then show ?thesis
    using \<open>grows ix ?a\<close> by (auto simp: indexInstanceSyntax_def Let_def split: option.split prod.split)
qed

lemma grows_name: "grows ix (indexSymbolName E s u ix)"
proof -
  have "grows (addSymbol_syntax n s ix) (fold (\<lambda>tok. addSymbol_token tok s) toks (addSymbol_syntax n s ix))" for n toks
    by (rule grows_fold) simp
  then show ?thesis
    by (auto simp: indexSymbolName_def Let_def split: option.split intro: index_grows_trans [OF grows_syntax])
qed

lemma grows_handle: "grows ix (fst (handle_symbol E s ix))"
proof -
  have "grows ix (indexInstanceSyntax inst d (addSymbol_token t s (indexSymbolName E s False ix)))" for inst d t
    by (rule index_grows_trans [OF grows_name index_grows_trans [OF grows_token grows_instance]])
  moreover have "grows ix (indexInstanceSyntax inst d (addSymbol_token t s ix))" for inst d t
    by (rule index_grows_trans [OF grows_token grows_instance])
  ultimately show ?thesis
    by (auto simp: handle_symbol_def handle_instance_def handle_array_def handle_alias_def grows_name Let_def
        split: ast_kind.split option.split prod.split)
qed

section \<open>What a handler records\<close>

text \<open>A symbol is recorded when its syntax leads to it, and so do the tokens with its name.\<close>

definition recorded :: "index_env \<Rightarrow> symbol_indexer \<Rightarrow> nat \<Rightarrow> bool" where
  "recorded E ix s \<longleftrightarrow> (\<forall>n. as_syntax (design E s) = Some n \<longrightarrow>
     (\<exists>xs. syntex ix n = Some xs \<and> s \<in> set xs) \<and>
     (as_syntax_buffer (design E s) = ie_buffer E \<and> as_name (design E s) \<noteq> [] \<longrightarrow>
       (\<forall>tok \<in> set (findNames (as_name (design E s)) (as_names (design E s)) []).
          \<exists>xs. symdex ix tok = Some xs \<and> s \<in> set xs)))"

text \<open>The symbols whose handler indexes their name: a symbol from a package, an instance of the
  document with syntax, a named block, and what has no handler of its own.\<close>

definition named_symbol :: "index_env \<Rightarrow> nat \<Rightarrow> bool" where
  "named_symbol E s = (case as_kind (design E s) of
     Package \<Rightarrow> True | OtherSymbol \<Rightarrow> True | GenerateBlock u \<Rightarrow> \<not> u | GenerateBlockArray u \<Rightarrow> \<not> u
   | Instance _ _ _ _ _ \<Rightarrow> as_syntax (design E s) \<noteq> None \<and> as_buffer (design E s) = ie_buffer E
   | _ \<Rightarrow> False)"

lemma table_le_in: "table_le t t' \<Longrightarrow> t k = Some xs \<Longrightarrow> x \<in> set xs \<Longrightarrow> \<exists>xs'. t' k = Some xs' \<and> x \<in> set xs'"
  unfolding table_le_def by blast

lemma recorded_grows: "recorded E ix s \<Longrightarrow> grows ix ix' \<Longrightarrow> recorded E ix' s"
  unfolding recorded_def grows_def by (meson table_le_in)

lemma fold_tokens:
  "tok \<in> set toks \<Longrightarrow> \<exists>xs. symdex (fold (\<lambda>tok. addSymbol_token tok s) toks ix) tok = Some xs \<and> s \<in> set xs"
proof (induction toks arbitrary: ix)
  case (Cons t toks)
  show ?case
  proof (cases "tok \<in> set toks")
    case False
    obtain xs where "symdex (addSymbol_token t s ix) t = Some xs" "s \<in> set xs"
      using entry_there [of t s "symdex ix"] by (auto simp: addSymbol_token_def)
    moreover have "grows (addSymbol_token t s ix) (fold (\<lambda>tok. addSymbol_token tok s) toks (addSymbol_token t s ix))"
      by (rule grows_fold) simp
    moreover have "tok = t" using False Cons.prems by simp
    ultimately show ?thesis by (auto simp: grows_def intro: table_le_in)
  qed (use Cons.IH in simp)
qed simp

lemma fold_tokens_syntex: "syntex (fold (\<lambda>tok. addSymbol_token tok s) toks ix) = syntex ix"
  by (induction toks arbitrary: ix) (simp_all add: addSymbol_token_def)

lemma name_recorded: "recorded E (indexSymbolName E s False ix) s"
  using entry_there [of _ s "syntex ix"]
  by (auto simp: recorded_def indexSymbolName_def Let_def fold_tokens fold_tokens_syntex addSymbol_syntax_def)

lemma handle_records:
  assumes "named_symbol E s"
  shows "recorded E (fst (handle_symbol E s ix)) s"
proof (cases "as_kind (design E s)")
  case (Instance h d b depth hier)
  have "recorded E (indexInstanceSyntax inst d (addSymbol_token t s (indexSymbolName E s False ix))) s" for inst t
    by (rule recorded_grows [OF name_recorded index_grows_trans [OF grows_token grows_instance]])
  then show ?thesis
    using assms Instance name_recorded
    by (auto simp: handle_symbol_def handle_instance_def named_symbol_def Let_def split: option.split prod.split)
qed (use assms name_recorded in \<open>auto simp: handle_symbol_def named_symbol_def Let_def\<close>)

section \<open>The visit ends\<close>

abbreviation is_alias :: "index_env \<Rightarrow> nat \<Rightarrow> bool" where
  "is_alias E s \<equiv> (case as_kind (design E s) of TypeAlias _ \<Rightarrow> True | _ \<Rightarrow> False)"

text \<open>Where the visit goes from a symbol that is not an alias, whatever is in the tables.\<close>

definition visits :: "index_env \<Rightarrow> nat \<Rightarrow> nat list" where
  "visits E s = (if is_alias E s then [] else snd (handle_symbol E s empty_symbol_indexer))"

lemma visits_handle: "\<not> is_alias E s \<Longrightarrow> snd (handle_symbol E s ix) = visits E s"
  by (auto simp: visits_def handle_symbol_def handle_instance_def handle_array_def Let_def
      split: ast_kind.split option.split)

text \<open>A design whose only circles go through aliases: members rank below their symbol; the aliases
  of the document have syntax, and finitely many nodes are the syntax of one.\<close>

definition design_ok :: "index_env \<Rightarrow> (nat \<Rightarrow> nat) \<Rightarrow> nat set \<Rightarrow> bool" where
  "design_ok E rank typedefs \<longleftrightarrow> finite typedefs \<and>
     (\<forall>s. \<forall>t \<in> set (visits E s). rank t < rank s) \<and>
     (\<forall>s. is_alias E s \<and> as_buffer (design E s) = ie_buffer E \<longrightarrow>
        (\<exists>n \<in> typedefs. as_syntax (design E s) = Some n))"

definition unindexed :: "nat set \<Rightarrow> symbol_indexer \<Rightarrow> nat set" where
  "unindexed typedefs ix = {n \<in> typedefs. syntex ix n = None}"

definition visit_order :: "((nat \<times> nat multiset) \<times> (nat \<times> nat multiset)) set" where
  "visit_order = less_than <*lex*> mult less_than"

lemma wf_visit_order: "wf visit_order"
  by (simp add: visit_order_def wf_mult wf_lex_prod)

abbreviation visit_measure :: "(nat \<Rightarrow> nat) \<Rightarrow> nat set \<Rightarrow> nat list \<Rightarrow> symbol_indexer \<Rightarrow> nat \<times> nat multiset" where
  "visit_measure rank typedefs stack ix \<equiv> (card (unindexed typedefs ix), mset (map rank stack))"

lemma table_le_has: "table_le t t' \<Longrightarrow> t k = Some xs \<Longrightarrow> \<exists>xs'. t' k = Some xs'"
  unfolding table_le_def by blast

lemma unindexed_grows: "grows ix ix' \<Longrightarrow> unindexed typedefs ix' \<subseteq> unindexed typedefs ix"
proof -
  assume "grows ix ix'"
  then have "syntex ix n = None" if "syntex ix' n = None" for n
    using that by (cases "syntex ix n") (auto simp: grows_def dest: table_le_has)
  then show ?thesis by (auto simp: unindexed_def)
qed

lemma stack_smaller:
  "\<forall>t \<in> set ts. rank t < rank s \<Longrightarrow>
     (mset (map rank (ts @ ss)), mset (map rank (s # ss))) \<in> mult (less_than :: (nat \<times> nat) set)"
  using one_step_implies_mult [of "{#rank s#}" "mset (map rank ts)" less_than "mset (map rank ss)"]
  by (simp add: add.commute)

lemma alias_indexes:
  assumes "snd (handle_symbol E s ix) \<noteq> []" "is_alias E s" "as_syntax (design E s) = Some n"
  shows "syntex ix n = None \<and> syntex (fst (handle_symbol E s ix)) n \<noteq> None"
proof -
  have "\<exists>xs. syntex (indexSymbolName E s False ix) n = Some xs"
    using name_recorded [of E s ix] assms(3) by (auto simp: recorded_def)
  then show ?thesis
    using assms by (auto simp: handle_symbol_def handle_alias_def Let_def split: ast_kind.splits if_splits)
qed

lemma visit_decreases:
  assumes "design_ok E rank typedefs"
  shows "(visit_measure rank typedefs (snd (handle_symbol E s ix) @ ss) (fst (handle_symbol E s ix)),
          visit_measure rank typedefs (s # ss) ix) \<in> visit_order"
proof -
  have fin: "finite (unindexed typedefs ix)" using assms by (simp add: design_ok_def unindexed_def)
  have sub: "unindexed typedefs (fst (handle_symbol E s ix)) \<subseteq> unindexed typedefs ix"
    by (rule unindexed_grows) (rule grows_handle)
  show ?thesis
  proof (cases "is_alias E s \<and> snd (handle_symbol E s ix) \<noteq> []")
    case True
    then have "as_buffer (design E s) = ie_buffer E"
      by (auto simp: handle_symbol_def handle_alias_def Let_def split: ast_kind.splits if_splits)
    then obtain n where n: "n \<in> typedefs" "as_syntax (design E s) = Some n"
      using assms True by (auto simp: design_ok_def)
    have "n \<in> unindexed typedefs ix - unindexed typedefs (fst (handle_symbol E s ix))"
      using n alias_indexes [OF _ _ n(2)] True by (simp add: unindexed_def)
    then have "card (unindexed typedefs (fst (handle_symbol E s ix))) < card (unindexed typedefs ix)"
      using sub by (intro psubset_card_mono [OF fin]) blast
    then show ?thesis by (simp add: visit_order_def)
  next
    case False
    have "\<forall>t \<in> set (snd (handle_symbol E s ix)). rank t < rank s"
      using False assms visits_handle [of E s ix] by (cases "is_alias E s") (auto simp: design_ok_def)
    then show ?thesis
      using stack_smaller [of "snd (handle_symbol E s ix)" rank s ss] card_mono [OF fin sub]
      by (auto simp: visit_order_def le_less)
  qed
qed

text \<open>The symbols the visit comes to from a stack, going through an alias only when its syntax was
  not met before, which this relation leaves out.\<close>

inductive reached :: "index_env \<Rightarrow> nat list \<Rightarrow> nat \<Rightarrow> bool" for E roots where
  "s \<in> set roots \<Longrightarrow> reached E roots s"
| "reached E roots s \<Longrightarrow> t \<in> set (visits E s) \<Longrightarrow> reached E roots t"

lemma reached_Nil: "\<not> reached E [] s"
proof
  assume "reached E [] s"
  then show False by induction auto
qed

lemma reached_mono: "reached E xs s \<Longrightarrow> set xs \<subseteq> set ys \<Longrightarrow> reached E ys s"
  by (induction rule: reached.induct) (auto intro: reached.intros)

lemma reached_unfold:
  "reached E (s # ss) t \<Longrightarrow> t = s \<or> reached E (visits E s @ ss) t"
  by (induction rule: reached.induct) (auto intro: reached.intros)

text \<open>The alias of the document was indexed, under its own symbol or another of the same syntax.\<close>

definition found :: "index_env \<Rightarrow> symbol_indexer \<Rightarrow> nat \<Rightarrow> bool" where
  "found E ix s \<longleftrightarrow> (named_symbol E s \<longrightarrow> recorded E ix s) \<and>
     (is_alias E s \<and> as_buffer (design E s) = ie_buffer E \<longrightarrow>
        (\<exists>n xs. as_syntax (design E s) = Some n \<and> syntex ix n = Some xs))"

lemma found_grows: "found E ix s \<Longrightarrow> grows ix ix' \<Longrightarrow> found E ix' s"
  unfolding found_def using recorded_grows by (fastforce simp: grows_def table_le_def)

lemma handle_found:
  assumes "design_ok E rank typedefs"
  shows "found E (fst (handle_symbol E s ix)) s"
proof -
  have "\<exists>n xs. as_syntax (design E s) = Some n \<and> syntex (fst (handle_symbol E s ix)) n = Some xs"
    if a: "is_alias E s" "as_buffer (design E s) = ie_buffer E"
  proof -
    obtain n where n: "as_syntax (design E s) = Some n"
      using assms a by (auto simp: design_ok_def)
    then show ?thesis
      using name_recorded [of E s ix] a
      by (auto simp: recorded_def handle_symbol_def handle_alias_def Let_def split: ast_kind.splits option.splits)
  qed
  then show ?thesis using handle_records by (auto simp: found_def)
qed

lemma visit_finds:
  assumes "design_ok E rank typedefs"
  shows "\<exists>ix'. visit_all E stack ix = Some ix' \<and> grows ix ix' \<and> (\<forall>s. reached E stack s \<longrightarrow> found E ix' s)"
proof (induction "visit_measure rank typedefs stack ix" arbitrary: stack ix rule: wf_induct_rule [OF wf_visit_order])
  case (1 stack ix)
  show ?case
  proof (cases stack)
    case Nil
    then show ?thesis by (simp add: visit_all.simps reached_Nil)
  next
    case (Cons s ss)
    let ?ix = "fst (handle_symbol E s ix)"
    obtain ix' where v: "visit_all E (snd (handle_symbol E s ix) @ ss) ?ix = Some ix'" and g: "grows ?ix ix'"
        and f: "\<And>t. reached E (snd (handle_symbol E s ix) @ ss) t \<Longrightarrow> found E ix' t"
      using "1.hyps" [of ?ix "snd (handle_symbol E s ix) @ ss"] visit_decreases [OF assms, of s ix ss] Cons by blast
    have "visit_all E stack ix = Some ix'" using v Cons by (simp add: visit_all.simps)
    moreover have "grows ix ix'" using index_grows_trans [OF grows_handle g] .
    moreover have "found E ix' t" if "reached E stack t" for t
    proof (cases "t = s")
      case True
      then show ?thesis using found_grows [OF handle_found [OF assms] g] by simp
    next
      case False
      then have "reached E (visits E s @ ss) t" using reached_unfold that Cons by blast
      then have "reached E (snd (handle_symbol E s ix) @ ss) t"
        using visits_handle [of E s ix] by (cases "is_alias E s") (auto simp: visits_def intro: reached_mono)
      then show ?thesis by (rule f)
    qed
    ultimately show ?thesis by blast
  qed
qed

section \<open>Property\<close>

lemma indexed_filled: "visit_all E stack empty_symbol_indexer = Some ix \<Longrightarrow> grows empty_symbol_indexer ix \<Longrightarrow>
    filled (symdex ix) \<and> filled (syntex ix)"
  by (simp add: grows_def filled_def empty_symbol_indexer_def)

lemma last_entry: "filled t \<Longrightarrow> t n = Some xs \<Longrightarrow> xs \<noteq> []"
  by (auto simp: filled_def)


text \<open>Two aliases that refer to each other, below a package.\<close>

definition circular_design :: "nat \<Rightarrow> ast_symbol" where
  "circular_design s =
     \<lparr>as_kind = (if s = 1 then Package else if s = 2 then TypeAlias 3 else if s = 3 then TypeAlias 2 else EnumValue 0 False),
      as_syntax = (if s \<in> {1, 2, 3} then Some (10 * s) else None),
      as_names = NameSyntax False [(10 * s + 1, True, if s = 1 then ''p'' else ''t'')] [],
      as_syntax_buffer = 1, as_buffer = 1, as_name = (if s = 1 then ''p'' else ''t''),
      as_members = (if s = 1 then [2, 3] else [])\<rparr>"

definition circular_env :: index_env where
  "circular_env = \<lparr>ie_buffer = 1, enclosingBuffers = [], design = circular_design\<rparr>"

lemma circular_ok: "design_ok circular_env (\<lambda>s. if s = 1 then 1 else 0) {20, 30}"
  by (auto simp: design_ok_def visits_def handle_symbol_def circular_env_def circular_design_def shouldVisit_def
      Let_def split: if_splits)


text \<open>The pairs of a shorthand connection are read two by two from the front. After a formal
  entered alone, a pair is out of step and is entered again by every further instance.\<close>

lemma pairs_out_of_step:
  assumes "symdex ix tok = Some [formal]" "formal \<noteq> outer" "inner \<noteq> outer"
  shows "getSymbols_token (snd (addConnection tok (Some outer) (Some inner)
    (snd (addConnection tok (Some outer) (Some inner) ix)))) tok = [formal, outer, inner, outer, inner]"
  using assms by (simp add: addConnection_def getSymbols_token_def)

text \<open>An alias whose syntax was met before is not entered: of the aliases that share a typedef, as
  in the instances of a parameterised module, only the first is found.\<close>

lemma shared_typedef_not_entered:
  assumes "as_kind (design E s) = TypeAlias t" "as_syntax (design E s) = Some n" "syntex ix n = Some xs"
  shows "handle_symbol E s ix = (ix, [])"
  using assms by (simp add: handle_symbol_def handle_alias_def Let_def)

end
