(* ===== verification/References.thy ===== *)
theory References
  imports Positions Symbols Indexer
begin

text \<open>
  References, renaming and highlights: \<open>ShallowAnalysis::addLocalReferences\<close>
  (src/document/ShallowAnalysis.cpp), and \<open>getDocReferences\<close>, \<open>addMemberReferences\<close>,
  \<open>getDocRename\<close> and \<open>getDocDocumentHighlight\<close> (src/ServerDriver.cpp).

  Symbols are numbers, as they are pointers in the code. A document is what the requests read of
  it: the tokens collected in it with the symbols the analysis gives each (\<open>getSymbolsAtToken\<close>),
  and the references slang's parser notes for other files. The documents, the word token at a
  location (theory SyntaxIndex) and the answers of \<open>getDefinitionInfoAt\<close> are fields of the
  environment; the index is that of theory Indexer. Requests run to their end: the checks for
  cancellation, which throw, are left out.
\<close>

section \<open>Symbols and documents\<close>

record ref_symbol =
  rs_kind :: symbol_kind
  rs_name :: string
  rs_location :: source_location
  rs_parents :: "nat list"  \<comment> \<open>the symbols of the enclosing scopes, nearest first\<close>
  rs_definition :: nat  \<comment> \<open>of an instance or an instance body\<close>
  rs_interface :: bool  \<comment> \<open>a definition of an interface\<close>
  rs_compilation_unit :: bool

record ref_token =
  rt_value :: string
  rt_raw :: string
  rt_range :: source_range
  rt_symbols :: "nat list"

text \<open>The parser's metadata: imported packages with their wildcards, scoped names (the identifier,
  and the first token on the right), instances, interface ports.\<close>

record ref_metadata =
  md_imports :: "(string \<times> source_range \<times> bool) list"
  md_classPackageNames :: "((string \<times> source_range) \<times> string \<times> source_range) list"
  md_instances :: "(string \<times> source_range) list"
  md_interfacePorts :: "(string \<times> source_range) list"

record ref_document =
  rd_uri :: uri
  rd_buffer :: nat
  rd_tokens :: "ref_token list"
  rd_metadata :: ref_metadata
  rd_hasAnalysis :: bool

text \<open>What \<open>getDefinitionInfoAt\<close> finds: the targets that are symbols, with their analysis, and the
  places the definitions are linked to.\<close>

record definition_answer =
  da_targets :: "(nat \<times> ref_document) list"
  da_links :: "(uri \<times> position) list"

record ref_env =
  re_utf8 :: utf8_lib
  re_sm :: source_manager
  re_originalLoc :: "source_location \<Rightarrow> source_location"
  re_symbol :: "nat \<Rightarrow> ref_symbol"
  re_document :: "uri \<Rightarrow> ref_document option"
  re_wordToken :: "ref_document \<Rightarrow> source_location \<Rightarrow> ref_token option"
  re_definition :: "uri \<Rightarrow> position \<Rightarrow> definition_answer option"
  re_index :: indexer
  re_isType :: "symbol_kind \<Rightarrow> bool"

abbreviation kind_at :: "ref_env \<Rightarrow> nat \<Rightarrow> symbol_kind" where
  "kind_at E s \<equiv> rs_kind (re_symbol E s)"

abbreviation loc_of :: "ref_env \<Rightarrow> nat \<Rightarrow> source_location" where
  "loc_of E s \<equiv> rs_location (re_symbol E s)"

definition same_location :: "location \<Rightarrow> location \<Rightarrow> bool" where
  "same_location a b \<longleftrightarrow> uri_eq (l_uri a) (l_uri b) \<and> l_range a = l_range b"

section \<open>References in a document\<close>

definition symbolsMatch :: "ref_env \<Rightarrow> nat \<Rightarrow> nat \<Rightarrow> bool" where
  "symbolsMatch E a b \<longleftrightarrow> a = b \<or> loc_of E a = loc_of E b"

definition token_location :: "ref_env \<Rightarrow> ref_document \<Rightarrow> ref_token \<Rightarrow> location" where
  "token_location E doc t = \<lparr>l_uri = uri_fromFile (getFullPath (re_sm E) (rd_buffer doc)),
     l_range = toRange (re_utf8 E) (re_sm E) (rt_range t)\<rparr>"

text \<open>The two loops: up to the first token at the target location, then the rest from there on.\<close>

definition addLocalReferences ::
  "ref_env \<Rightarrow> ref_document \<Rightarrow> source_location \<Rightarrow> string \<Rightarrow> location list \<Rightarrow> location list" where
  "addLocalReferences E doc targetLocation targetName references =
     (case dropWhile (\<lambda>t. \<not> (rt_value t = targetName \<and>
          (\<exists>s \<in> set (rt_symbols t). loc_of E s = targetLocation))) (rd_tokens doc) of
        [] \<Rightarrow> references
      | t # ts \<Rightarrow> (case find (\<lambda>s. loc_of E s = targetLocation) (rt_symbols t) of
          None \<Rightarrow> references
        | Some targetSymbol \<Rightarrow> references @ map (token_location E doc)
            (filter (\<lambda>u. rt_value u = targetName \<and>
               list_ex (\<lambda>s. symbolsMatch E s targetSymbol) (rt_symbols u)) (t # ts))))"

section \<open>Targets\<close>

type_synonym ref_target = "nat \<times> ref_document \<times> nat"

definition addTargetSymbol ::
  "ref_env \<Rightarrow> ref_document \<Rightarrow> nat \<Rightarrow> nat \<Rightarrow> ref_target list \<Rightarrow> ref_target list" where
  "addTargetSymbol E analysis buffer symbol targets =
     (let s = (if kind_at E symbol = InstanceBody then rs_definition (re_symbol E symbol) else symbol);
          loc = re_originalLoc E (loc_of E s)
      in if list_ex (\<lambda>(t, _). t = s \<or> kind_at E t = kind_at E s \<and> re_originalLoc E (loc_of E t) = loc) targets
         then targets else targets @ [(s, analysis, buffer)])"

abbreviation is_global :: "ref_env \<Rightarrow> nat \<Rightarrow> bool" where
  "is_global E s \<equiv> kind_at E s \<in> {Definition, Package}"

definition global_targets :: "ref_env \<Rightarrow> definition_answer option \<Rightarrow> (nat \<times> ref_document) list" where
  "global_targets E answer = (case answer of None \<Rightarrow> []
     | Some a \<Rightarrow> filter (\<lambda>(s, _). is_global E s) (da_targets a))"

definition addTargetsAt :: "ref_env \<Rightarrow> ref_document \<Rightarrow> ref_token \<Rightarrow> ref_target list \<Rightarrow> ref_target list" where
  "addTargetsAt E doc token targets =
     (let symbols = rt_symbols token;
          asked = list_ex (\<lambda>s. is_global E s \<or> kind_at E s = InstanceBody) symbols \<or> symbols = [];
          globals = (if asked then global_targets E (re_definition E (rd_uri doc)
              (r_start (toRange (re_utf8 E) (re_sm E) (rt_range token)))) else [])
      in if globals \<noteq> []
         then fold (\<lambda>(s, analysis). addTargetSymbol E analysis (rd_buffer doc) s) globals targets
         else fold (addTargetSymbol E doc (rd_buffer doc)) symbols targets)"

section \<open>References in other files\<close>

abbreviation original :: "ref_env \<Rightarrow> source_range \<Rightarrow> location" where
  "original E rg \<equiv> toOriginalLocation (re_utf8 E) (re_sm E) rg"

definition findPkgReferences :: "ref_env \<Rightarrow> string \<Rightarrow> ref_metadata \<Rightarrow> location list" where
  "findPkgReferences E name meta =
     map (\<lambda>(_, rg, _). original E rg) (filter (\<lambda>(p, _). p = name) (md_imports meta)) @
     map (\<lambda>((_, rg), _). original E rg) (filter (\<lambda>((p, _), _). p = name) (md_classPackageNames meta))"

definition findModuleReferences :: "ref_env \<Rightarrow> string \<Rightarrow> ref_metadata \<Rightarrow> location list" where
  "findModuleReferences E name meta =
     map (\<lambda>(_, rg). original E rg) (filter (\<lambda>(t, _). t = name) (md_instances meta))"

definition findInterfaceReferences :: "ref_env \<Rightarrow> string \<Rightarrow> ref_metadata \<Rightarrow> location list" where
  "findInterfaceReferences E name meta = findModuleReferences E name meta @
     map (\<lambda>(_, rg). original E rg) (filter (\<lambda>(t, _). t = name) (md_interfacePorts meta))"

text \<open>The files that refer to a name, without the file of the target; a file without a document is
  reported and passed over.\<close>

definition processReferencingFiles ::
  "ref_env \<Rightarrow> ref_document option \<Rightarrow> string \<Rightarrow> (ref_metadata \<Rightarrow> location list) \<Rightarrow> location list" where
  "processReferencingFiles E targetDoc name finder = concat (map (\<lambda>filePath.
     if (case targetDoc of Some d \<Rightarrow> filePath = path_of_string (fst (uri_getPath (rd_uri d))) | None \<Rightarrow> False)
     then [] else (case re_document E (uri_fromFile (generic_string filePath)) of
        None \<Rightarrow> [] | Some d \<Rightarrow> finder (rd_metadata d)))
     (getFilesReferencingSymbol (re_index E) name))"

definition has_wildcard :: "string \<Rightarrow> ref_metadata \<Rightarrow> bool" where
  "has_wildcard package meta = list_ex (\<lambda>(p, _, star). p = package \<and> star) (md_imports meta)"

definition member_references_in ::
  "ref_env \<Rightarrow> nat \<Rightarrow> nat \<Rightarrow> bool \<Rightarrow> ref_document \<Rightarrow> location list \<Rightarrow> location list" where
  "member_references_in E parentSymbol targetSymbol isTypeMember doc references =
     (let parent = re_symbol E parentSymbol; target = re_symbol E targetSymbol; meta = rd_metadata doc in
      if \<not> isTypeMember \<and> rs_kind parent = Package \<and> \<not> has_wildcard (rs_name parent) meta
      then references @ map (\<lambda>(_, _, rg). original E rg)
        (filter (\<lambda>((p, _), right, _). p = rs_name parent \<and> right = rs_name target) (md_classPackageNames meta))
      else addLocalReferences E doc (rs_location target) (rs_name target) references)"

text \<open>\<open>targetDoc\<close> is used without a test.\<close>

definition addMemberReferences ::
  "ref_env \<Rightarrow> nat \<Rightarrow> nat \<Rightarrow> bool \<Rightarrow> location list \<Rightarrow> location list result" where
  "addMemberReferences E parentSymbol targetSymbol isTypeMember references =
     (let targetBuffer = lbuffer (re_originalLoc E (loc_of E targetSymbol));
          targetDoc = re_document E (uri_fromFile (getFullPath (re_sm E) targetBuffer));
          files = getFilesReferencingSymbol (re_index E) (rs_name (re_symbol E parentSymbol))
      in if files = [] then Inr references else
         (case targetDoc of None \<Rightarrow> Inl Undefined
          | Some td \<Rightarrow> Inr (fold (\<lambda>filePath refs. let fileUri = uri_fromFile (generic_string filePath) in
              if uri_eq fileUri (rd_uri td) then refs
              else (case re_document E fileUri of None \<Rightarrow> refs
                | Some d \<Rightarrow> member_references_in E parentSymbol targetSymbol isTypeMember d refs))
              files references)))"

text \<open>The switch over the kind of a target. \<open>targetName\<close> is the text under the cursor.\<close>

definition addGlobalReferences ::
  "ref_env \<Rightarrow> string \<Rightarrow> ref_document option \<Rightarrow> ref_target \<Rightarrow> location list \<Rightarrow> location list result" where
  "addGlobalReferences E targetName targetDoc target references = (case target of (s, analysis, buffer) \<Rightarrow>
     (let sym = re_symbol E s; others = processReferencingFiles E targetDoc in
      if rs_kind sym = Instance \<or> rs_kind sym = InstanceBody then
        Inr (references @ others (rs_name (re_symbol E (rs_definition sym))) (findModuleReferences E targetName))
      else if rs_kind sym = Definition then
        Inr (references @ others (rs_name sym)
          (if rs_interface sym then findInterfaceReferences E targetName else findModuleReferences E targetName))
      else if rs_kind sym = Package then
        Inr (references @ others targetName (findPkgReferences E targetName))
      else (case rs_parents sym of
        parent # gParent # _ \<Rightarrow>
          (if rs_compilation_unit (re_symbol E gParent) then addMemberReferences E parent s False references
           else if kind_at E gParent = Package \<and> re_isType E (kind_at E parent)
           then addMemberReferences E gParent s True references
           else if lbuffer (re_originalLoc E (rs_location sym)) \<noteq> buffer
           then Inr (addLocalReferences E analysis (rs_location sym) targetName references)
           else Inr references)
      | _ \<Rightarrow> Inr references)))"

section \<open>One target\<close>

text \<open>The definition or package a symbol belongs to.\<close>

fun indexed_symbol :: "ref_env \<Rightarrow> nat list \<Rightarrow> nat option" where
  "indexed_symbol E [] = None"
| "indexed_symbol E (s # parents) =
     (if is_global E s then Some s
      else if kind_at E s = InstanceBody then Some (rs_definition (re_symbol E s))
      else indexed_symbol E parents)"

definition has_duplicates :: "ref_env \<Rightarrow> nat \<Rightarrow> bool" where
  "has_duplicates E s = (case indexed_symbol E (s # rs_parents (re_symbol E s)) of None \<Rightarrow> False
     | Some i \<Rightarrow> length (getFilesForSymbol (re_index E) (rs_name (re_symbol E i))) > 1)"

definition declaration_of :: "ref_env \<Rightarrow> nat \<Rightarrow> location" where
  "declaration_of E s = (let loc = re_originalLoc E (loc_of E s) in
     \<lparr>l_uri = uri_fromFile (getFullPath (re_sm E) (lbuffer loc)),
      l_range = toRange (re_utf8 E) (re_sm E)
        (loc, loc\<lparr>loffset := loffset loc + length (rs_name (re_symbol E s))\<rparr>)\<rparr>)"

definition targetDocument :: "ref_env \<Rightarrow> nat \<Rightarrow> ref_document option" where
  "targetDocument E s = re_document E
     (uri_fromFile (getFullPath (re_sm E) (lbuffer (re_originalLoc E (loc_of E s)))))"

definition declaration_references ::
  "ref_env \<Rightarrow> string \<Rightarrow> bool \<Rightarrow> nat \<Rightarrow> location list \<Rightarrow> location list" where
  "declaration_references E targetName includeDeclaration s references =
     (case targetDocument E s of None \<Rightarrow> references
      | Some doc \<Rightarrow> (let refs = addLocalReferences E doc (loc_of E s) targetName references in
          if includeDeclaration then refs
          else filter (\<lambda>l. \<not> same_location l (declaration_of E s)) refs))"

definition same_declaration :: "ref_env \<Rightarrow> nat \<Rightarrow> location \<Rightarrow> bool" where
  "same_declaration E s reference = (let loc = re_originalLoc E (loc_of E s); decl = original E (loc, loc) in
     case re_definition E (l_uri reference) (r_start (l_range reference)) of None \<Rightarrow> False
     | Some a \<Rightarrow> list_ex (\<lambda>(u, p). uri_eq u (l_uri decl) \<and> p = r_start (l_range decl)) (da_links a))"

definition join_targets :: "ref_env \<Rightarrow> location \<Rightarrow> ref_target list \<Rightarrow> ref_target list" where
  "join_targets E reference targets = (case re_document E (l_uri reference) of None \<Rightarrow> targets
     | Some doc \<Rightarrow> (if \<not> rd_hasAnalysis doc then targets else
        (case toSourceLocation (re_utf8 E) (re_sm E) (rd_buffer doc) (r_start (l_range reference)) of
           None \<Rightarrow> targets
         | Some loc \<Rightarrow> (case re_wordToken E doc loc of None \<Rightarrow> targets
             | Some token \<Rightarrow> addTargetsAt E doc token targets))))"

text \<open>A target of the list: its references are added to those found so far, of which
  \<open>existing\<close> were there; then the tokens found bring further targets, and what was there before is
  not added again. When references were taken away from before \<open>existing\<close> and the new ones do not
  make up for them, the iterators run past the end.\<close>

definition process_target ::
  "ref_env \<Rightarrow> string \<Rightarrow> bool \<Rightarrow> ref_target \<Rightarrow> ref_target list \<Rightarrow> location list
     \<Rightarrow> (ref_target list \<times> location list) result" where
  "process_target E targetName includeDeclaration target targets references =
     (let s = fst target; existing = length references;
          refs1 = declaration_references E targetName includeDeclaration s references in
      (case addGlobalReferences E targetName (targetDocument E s) target refs1 of
         Inl e \<Rightarrow> Inl e
       | Inr refs2 \<Rightarrow> (if length refs2 < existing then Inl Undefined else
          (let fresh = (if has_duplicates E s then filter (same_declaration E s) (drop existing refs2)
                        else drop existing refs2);
               before = take existing refs2
           in Inr (fold (join_targets E) fresh targets,
                   before @ filter (\<lambda>l. \<not> list_ex (\<lambda>l'. same_location l' l) before) fresh)))))"

partial_function (option) reference_loop ::
  "ref_env \<Rightarrow> string \<Rightarrow> bool \<Rightarrow> nat \<Rightarrow> ref_target list \<Rightarrow> location list \<Rightarrow> location list result option"
where
  "reference_loop E targetName includeDeclaration i targets references =
     (if i < length targets then
        (case process_target E targetName includeDeclaration (targets ! i) targets references of
           Inl e \<Rightarrow> Some (Inl e)
         | Inr (targets', references') \<Rightarrow>
             reference_loop E targetName includeDeclaration (Suc i) targets' references')
      else Some (Inr references))"

section \<open>Requests\<close>

definition word_at :: "ref_env \<Rightarrow> uri \<Rightarrow> position \<Rightarrow> (ref_document \<times> ref_token) option" where
  "word_at E u pos = (case re_document E u of None \<Rightarrow> None
     | Some doc \<Rightarrow> (case toSourceLocation (re_utf8 E) (re_sm E) (rd_buffer doc) pos of None \<Rightarrow> None
        | Some loc \<Rightarrow> map_option (Pair doc) (re_wordToken E doc loc)))"

text \<open>None when the loop does not end; no references are a null answer.\<close>

definition getDocReferences ::
  "ref_env \<Rightarrow> uri \<Rightarrow> position \<Rightarrow> bool \<Rightarrow> location list option result option" where
  "getDocReferences E u pos includeDeclaration = (case word_at E u pos of None \<Rightarrow> Some (Inr None)
     | Some (doc, token) \<Rightarrow> (let targets = addTargetsAt E doc token [] in
         if targets = [] then Some (Inr None)
         else map_option (map_sum id (\<lambda>refs. if refs = [] then None else Some refs))
           (reference_loop E (rt_raw token) includeDeclaration 0 targets [])))"

definition rename_edits :: "string \<Rightarrow> location list \<Rightarrow> (string, lsp_range \<times> string) table" where
  "rename_edits newName refs =
     fold (\<lambda>l. tab_push (uri_str (l_uri l)) (l_range l, newName)) refs []"

definition getDocRename ::
  "ref_env \<Rightarrow> uri \<Rightarrow> position \<Rightarrow> string \<Rightarrow> (string, lsp_range \<times> string) table option result option" where
  "getDocRename E u pos newName =
     map_option (map_sum id (map_option (rename_edits newName))) (getDocReferences E u pos True)"

text \<open>\<open>getSymbolAtToken\<close>: for a shorthand port connection the second of two symbols, else a modport
  port, else the last.\<close>

definition symbol_at_token :: "ref_env \<Rightarrow> (ref_token \<Rightarrow> bool) \<Rightarrow> ref_token \<Rightarrow> nat option" where
  "symbol_at_token E shorthand token = (let symbols = rt_symbols token in
     if shorthand token then
       (case symbols of [] \<Rightarrow> None | [s] \<Rightarrow> Some s | _ # s # _ \<Rightarrow> Some s)
     else (case find (\<lambda>s. kind_at E s = ModportPort) symbols of Some s \<Rightarrow> Some s
       | None \<Rightarrow> (if symbols = [] then None else Some (last symbols))))"

definition getDocDocumentHighlight ::
  "ref_env \<Rightarrow> (ref_token \<Rightarrow> bool) \<Rightarrow> uri \<Rightarrow> position \<Rightarrow> lsp_range list option" where
  "getDocDocumentHighlight E shorthand u pos = (case word_at E u pos of None \<Rightarrow> None
     | Some (doc, token) \<Rightarrow> (case symbol_at_token E shorthand token of None \<Rightarrow> None
        | Some s \<Rightarrow> (let refs = addLocalReferences E doc (loc_of E s) (rs_name (re_symbol E s)) [] in
            if refs = [] then None else Some (map l_range refs))))"

end
