(* ===== verification/ReferenceRuns.thy ===== *)
theory ReferenceRuns
  imports References
begin

text \<open>
  What references and renaming promise: the references of a document are the tokens with the name
  and a symbol declared at the place of the target; the search for tied declarations ends; and a
  rename changes nothing but occurrences of the old name.
\<close>

section \<open>References in a document\<close>

text \<open>Collected tokens with the name that stand for a symbol declared at a location.\<close>

definition refers :: "ref_env \<Rightarrow> source_location \<Rightarrow> string \<Rightarrow> ref_token \<Rightarrow> bool" where
  "refers E loc name t \<longleftrightarrow> rt_value t = name \<and> (\<exists>s \<in> set (rt_symbols t). loc_of E s = loc)"

lemma find_None_filter: "dropWhile (\<lambda>t. \<not> P t) xs = [] \<Longrightarrow> filter P xs = []"
  by (simp add: dropWhile_eq_Nil_conv filter_empty_conv)

lemma filter_dropWhile_not: "filter P (dropWhile (\<lambda>t. \<not> P t) xs) = filter P xs"
  by (induction xs) auto

lemma find_located:
  assumes "s \<in> set ss" "loc_of E s = loc"
  shows "\<exists>t. find (\<lambda>s. loc_of E s = loc) ss = Some t \<and> loc_of E t = loc"
  using assms by (induction ss) auto

lemma local_alt:
  "addLocalReferences E doc loc name refs = (case dropWhile (\<lambda>t. \<not> refers E loc name t) (rd_tokens doc) of
     [] \<Rightarrow> refs
   | t # ts \<Rightarrow> (case find (\<lambda>s. loc_of E s = loc) (rt_symbols t) of None \<Rightarrow> refs
       | Some target \<Rightarrow> refs @ map (token_location E doc) (filter (\<lambda>u. rt_value u = name \<and>
           list_ex (\<lambda>s. symbolsMatch E s target) (rt_symbols u)) (t # ts))))"
  by (simp only: addLocalReferences_def refers_def)

lemma local_filter:
  "addLocalReferences E doc loc name refs =
     refs @ map (token_location E doc) (filter (refers E loc name) (rd_tokens doc))"
proof (cases "dropWhile (\<lambda>t. \<not> refers E loc name t) (rd_tokens doc)")
  case Nil
  then show ?thesis
    unfolding local_alt Nil list.case find_None_filter [OF Nil] by simp
next
  case (Cons t ts)
  have "refers E loc name t"
    using hd_dropWhile [of "\<lambda>t. \<not> refers E loc name t" "rd_tokens doc"] Cons by simp
  then obtain s where "s \<in> set (rt_symbols t)" "loc_of E s = loc" by (auto simp: refers_def)
  then obtain target where f: "find (\<lambda>s. loc_of E s = loc) (rt_symbols t) = Some target"
      and target: "loc_of E target = loc"
    using find_located by blast
  have "filter (\<lambda>u. rt_value u = name \<and> list_ex (\<lambda>s. symbolsMatch E s target) (rt_symbols u)) (t # ts) =
      filter (refers E loc name) (t # ts)"
    using target by (intro filter_cong) (auto simp: refers_def symbolsMatch_def list_ex_iff)
  also have "\<dots> = filter (refers E loc name) (rd_tokens doc)"
    using filter_dropWhile_not [of "refers E loc name" "rd_tokens doc"] Cons by simp
  finally show ?thesis
    using Cons f by (simp add: local_alt del: filter.simps)
qed

section \<open>Occurrences of a name\<close>

definition noted_names :: "ref_metadata \<Rightarrow> (string \<times> source_range) set" where
  "noted_names meta = (\<lambda>(p, rg, _). (p, rg)) ` set (md_imports meta) \<union>
     fst ` set (md_classPackageNames meta) \<union> snd ` set (md_classPackageNames meta) \<union>
     set (md_instances meta) \<union> set (md_interfacePorts meta)"

definition mentions :: "ref_env \<Rightarrow> ref_document \<Rightarrow> string \<Rightarrow> location \<Rightarrow> bool" where
  "mentions E d n l \<longleftrightarrow> (\<exists>t \<in> set (rd_tokens d). rt_value t = n \<and> l = token_location E d t) \<or>
     (\<exists>rg. (n, rg) \<in> noted_names (rd_metadata d) \<and> l = original E rg)"

definition mentioned :: "ref_env \<Rightarrow> ref_document set \<Rightarrow> string \<Rightarrow> location \<Rightarrow> bool" where
  "mentioned E D n l \<longleftrightarrow> (\<exists>d \<in> D. mentions E d n l)"

lemma notedI:
  "(n, rg, w) \<in> set (md_imports m) \<Longrightarrow> (n, rg) \<in> noted_names m"
  "((n, rg), r) \<in> set (md_classPackageNames m) \<Longrightarrow> (n, rg) \<in> noted_names m"
  "(p, n, rg) \<in> set (md_classPackageNames m) \<Longrightarrow> (n, rg) \<in> noted_names m"
  "(n, rg) \<in> set (md_instances m) \<Longrightarrow> (n, rg) \<in> noted_names m"
  "(n, rg) \<in> set (md_interfacePorts m) \<Longrightarrow> (n, rg) \<in> noted_names m"
  unfolding noted_names_def by (force+)

lemma mentions_noted: "(n, rg) \<in> noted_names (rd_metadata d) \<Longrightarrow> mentions E d n (original E rg)"
  unfolding mentions_def by blast

lemma pkg_mentions: "l \<in> set (findPkgReferences E n (rd_metadata d)) \<Longrightarrow> mentions E d n l"
  by (auto simp: findPkgReferences_def intro!: mentions_noted intro: notedI(1,2))

lemma module_mentions: "l \<in> set (findModuleReferences E n (rd_metadata d)) \<Longrightarrow> mentions E d n l"
  by (auto simp: findModuleReferences_def intro!: mentions_noted intro: notedI(4))

lemma interface_mentions: "l \<in> set (findInterfaceReferences E n (rd_metadata d)) \<Longrightarrow> mentions E d n l"
  by (auto simp: findInterfaceReferences_def module_mentions intro!: mentions_noted intro: notedI(5))

lemma others_mentioned:
  assumes "l \<in> set (processReferencingFiles E td name finder)"
    and "\<And>u d. re_document E u = Some d \<Longrightarrow> d \<in> D"
    and "\<And>d. l \<in> set (finder (rd_metadata d)) \<Longrightarrow> mentions E d n l"
  shows "mentioned E D n l"
  using assms by (fastforce simp: processReferencingFiles_def mentioned_def split: if_splits option.splits)

section \<open>The workspace\<close>

abbreviation resolved :: "ref_env \<Rightarrow> nat \<Rightarrow> nat" where
  "resolved E s \<equiv> (if kind_at E s = InstanceBody then rs_definition (re_symbol E s) else s)"

text \<open>The symbols a token stands for, and the definitions found for it, have one name.\<close>

definition tied :: "ref_env \<Rightarrow> nat set \<Rightarrow> ref_document set \<Rightarrow> string \<Rightarrow> ref_document \<Rightarrow> ref_token \<Rightarrow> bool" where
  "tied E S D n doc token \<longleftrightarrow>
     (\<forall>s \<in> set (rt_symbols token). resolved E s \<in> S \<and> rs_name (re_symbol E (resolved E s)) = n) \<and>
     (\<forall>a. re_definition E (rd_uri doc) (r_start (toRange (re_utf8 E) (re_sm E) (rt_range token))) = Some a \<longrightarrow>
        (\<forall>(s, analysis) \<in> set (da_targets a). is_global E s \<longrightarrow>
           s \<in> S \<and> rs_name (re_symbol E s) = n \<and> analysis \<in> D))"

text \<open>The workspace: finitely many symbols \<open>S\<close>, each with the document of its declaration; the
  documents \<open>D\<close>; and at the place of a name, symbols of that name.\<close>

definition workspace_ok :: "ref_env \<Rightarrow> nat set \<Rightarrow> ref_document set \<Rightarrow> bool" where
  "workspace_ok E S D \<longleftrightarrow> finite S \<and> (\<forall>u d. re_document E u = Some d \<longrightarrow> d \<in> D) \<and>
     (\<forall>s \<in> S. targetDocument E s \<noteq> None) \<and>
     (\<forall>n l doc loc token. mentioned E D n l \<and> re_document E (l_uri l) = Some doc \<and>
        toSourceLocation (re_utf8 E) (re_sm E) (rd_buffer doc) (r_start (l_range l)) = Some loc \<and>
        re_wordToken E doc loc = Some token \<longrightarrow> tied E S D n doc token)"

definition targets_ok :: "ref_env \<Rightarrow> nat set \<Rightarrow> ref_document set \<Rightarrow> string \<Rightarrow> ref_target list \<Rightarrow> bool" where
  "targets_ok E S D n targets \<longleftrightarrow> distinct (map fst targets) \<and>
     (\<forall>(s, analysis, _) \<in> set targets. s \<in> S \<and> rs_name (re_symbol E s) = n \<and> analysis \<in> D)"

definition extends :: "ref_env \<Rightarrow> nat set \<Rightarrow> ref_document set \<Rightarrow> string \<Rightarrow> ref_target list \<Rightarrow> ref_target list \<Rightarrow> bool" where
  "extends E S D n targets targets' \<longleftrightarrow>
     (targets_ok E S D n targets \<longrightarrow> targets_ok E S D n targets' \<and> (\<exists>ts. targets' = targets @ ts))"

lemma extends_refl [simp]: "extends E S D n ts ts"
  by (simp add: extends_def)

lemma extends_trans: "extends E S D n a b \<Longrightarrow> extends E S D n b c \<Longrightarrow> extends E S D n a c"
  by (auto simp: extends_def)

lemma extends_fold:
  "(\<And>x ts. x \<in> set xs \<Longrightarrow> extends E S D n ts (f x ts)) \<Longrightarrow> extends E S D n ts (fold f xs ts)"
proof (induction xs arbitrary: ts)
  case (Cons x xs)
  then show ?case using extends_trans [of E S D n ts "f x ts"] by simp
qed simp

lemma symbol_extends:
  assumes "resolved E s \<in> S" "rs_name (re_symbol E (resolved E s)) = n" "doc \<in> D"
  shows "extends E S D n targets (addTargetSymbol E doc b s targets)"
  using assms
  by (auto simp: extends_def targets_ok_def addTargetSymbol_def Let_def list_ex_iff split: if_splits)

lemma token_extends:
  assumes "tied E S D n doc token" "doc \<in> D"
  shows "extends E S D n targets (addTargetsAt E doc token targets)"
proof -
  have symbols: "extends E S D n ts (fold (addTargetSymbol E doc (rd_buffer doc)) (rt_symbols token) ts)" for ts
    using assms by (intro extends_fold symbol_extends) (auto simp: tied_def)
  have "extends E S D n ts (fold (\<lambda>(s, an). addTargetSymbol E an (rd_buffer doc) s)
      (global_targets E (re_definition E (rd_uri doc) (r_start (toRange (re_utf8 E) (re_sm E) (rt_range token))))) ts)" for ts
  proof (intro extends_fold)
    fix x ts
    assume x: "x \<in> set (global_targets E (re_definition E (rd_uri doc)
        (r_start (toRange (re_utf8 E) (re_sm E) (rt_range token)))))"
    obtain s an where "x = (s, an)" by (cases x)
    moreover obtain a where a: "re_definition E (rd_uri doc)
        (r_start (toRange (re_utf8 E) (re_sm E) (rt_range token))) = Some a"
      using x by (cases "re_definition E (rd_uri doc) (r_start (toRange (re_utf8 E) (re_sm E) (rt_range token)))")
        (simp_all add: global_targets_def)
    ultimately have g: "is_global E s" "(s, an) \<in> set (da_targets a)"
      using x by (auto simp: global_targets_def)
    then have "s \<in> S" "rs_name (re_symbol E s) = n" "an \<in> D"
      using assms(1) a unfolding tied_def by blast+
    then show "extends E S D n ts ((\<lambda>(s, an). addTargetSymbol E an (rd_buffer doc) s) x ts)"
      using \<open>x = (s, an)\<close> g(1) by (auto intro: symbol_extends)
  qed
  then show ?thesis using symbols by (simp add: addTargetsAt_def Let_def)
qed

lemma join_extends:
  assumes "workspace_ok E S D" "mentioned E D n l"
  shows "extends E S D n targets (join_targets E l targets)"
  using assms token_extends [of E S D n]
  by (auto simp: join_targets_def workspace_ok_def split: option.split)

section \<open>One target\<close>

text \<open>A list of references continued with occurrences of a name.\<close>

definition continued :: "ref_env \<Rightarrow> ref_document set \<Rightarrow> string \<Rightarrow> location list \<Rightarrow> location list \<Rightarrow> bool" where
  "continued E D n refs refs' \<longleftrightarrow> (\<exists>new. refs' = refs @ new \<and> (\<forall>l \<in> set new. mentioned E D n l))"

lemma continued_refl [simp]: "continued E D n refs refs"
  by (simp add: continued_def)

lemma continued_append: "\<forall>l \<in> set new. mentioned E D n l \<Longrightarrow> continued E D n refs (refs @ new)"
  by (simp add: continued_def)

lemma continued_trans: "continued E D n a b \<Longrightarrow> continued E D n b c \<Longrightarrow> continued E D n a c"
  by (auto simp: continued_def)

lemma continued_fold:
  "(\<And>x refs. x \<in> set xs \<Longrightarrow> continued E D n refs (f x refs)) \<Longrightarrow> continued E D n refs (fold f xs refs)"
proof (induction xs arbitrary: refs)
  case (Cons x xs)
  then show ?case using continued_trans [of E D n refs "f x refs"] by simp
qed simp

lemma mentionedI: "d \<in> D \<Longrightarrow> mentions E d n l \<Longrightarrow> mentioned E D n l"
  unfolding mentioned_def by blast

lemma token_mentions:
  "t \<in> set (rd_tokens d) \<Longrightarrow> refers E loc n t \<Longrightarrow> mentions E d n (token_location E d t)"
  unfolding mentions_def refers_def by blast

lemma local_continued: "d \<in> D \<Longrightarrow> continued E D n refs (addLocalReferences E d loc n refs)"
  by (auto simp: local_filter intro!: continued_append mentionedI token_mentions)

lemma member_continued:
  "d \<in> D \<Longrightarrow> continued E D (rs_name (re_symbol E s)) refs (member_references_in E p s ty d refs)"
  using local_continued [of d D E]
  by (auto simp: member_references_in_def Let_def intro!: continued_append mentionedI [of d] mentions_noted
      intro: notedI(3))

lemma members_continued:
  assumes ws: "workspace_ok E S D" and s: "s \<in> S"
  shows "\<exists>refs'. addMemberReferences E p s ty refs = Inr refs' \<and> continued E D (rs_name (re_symbol E s)) refs refs'"
proof -
  obtain td where td: "targetDocument E s = Some td"
    using assms by (auto simp: workspace_ok_def)
  have known: "d \<in> D" if "re_document E u = Some d" for u d
    using ws that by (auto simp: workspace_ok_def)
  have "continued E D (rs_name (re_symbol E s)) refs (fold (\<lambda>filePath refs.
      let fileUri = uri_fromFile (generic_string filePath) in
      if uri_eq fileUri (rd_uri td) then refs
      else (case re_document E fileUri of None \<Rightarrow> refs | Some d \<Rightarrow> member_references_in E p s ty d refs)) fs refs)" for fs
    by (intro continued_fold) (auto simp: Let_def intro: member_continued known split: option.split)
  then show ?thesis
    using td by (auto simp: addMemberReferences_def targetDocument_def Let_def)
qed

lemma global_continued:
  assumes ws: "workspace_ok E S D" and t: "s \<in> S" "rs_name (re_symbol E s) = n" "an \<in> D"
  shows "\<exists>refs'. addGlobalReferences E n td (s, an, b) refs = Inr refs' \<and> continued E D n refs refs'"
proof -
  have known: "\<And>u d. re_document E u = Some d \<Longrightarrow> d \<in> D"
    using ws by (auto simp: workspace_ok_def)
  note others = others_mentioned [OF _ known]
  have "continued E D n refs (refs @ processReferencingFiles E td k (findModuleReferences E n))" for k
    by (intro continued_append ballI) (erule others, auto intro: module_mentions)
  moreover have "continued E D n refs (refs @ processReferencingFiles E td k (findInterfaceReferences E n))" for k
    by (intro continued_append ballI) (erule others, auto intro: interface_mentions)
  moreover have "continued E D n refs (refs @ processReferencingFiles E td k (findPkgReferences E n))" for k
    by (intro continued_append ballI) (erule others, auto intro: pkg_mentions)
  ultimately show ?thesis
    using members_continued [OF ws t(1), of _ _ refs] local_continued [OF t(3), of E n refs] t(2)
    by (auto simp: addGlobalReferences_def Let_def split: list.split)
qed

text \<open>The references to a target in the document of its declaration are there.\<close>

definition declared_covered :: "ref_env \<Rightarrow> string \<Rightarrow> nat \<Rightarrow> location list \<Rightarrow> bool" where
  "declared_covered E n s refs \<longleftrightarrow> (\<forall>d. \<not> has_duplicates E s \<and> targetDocument E s = Some d \<longrightarrow>
     (\<forall>t \<in> set (filter (refers E (loc_of E s) n) (rd_tokens d)).
        \<exists>l \<in> set refs. same_location l (token_location E d t)))"

lemma same_location_refl [simp]: "same_location l l"
  by (simp add: same_location_def uri_eq_def)

lemma target_step:
  assumes ws: "workspace_ok E S D" and ok: "targets_ok E S D n targets" and t: "t \<in> set targets"
    and refs: "\<forall>l \<in> set refs. mentioned E D n l"
  shows "\<exists>targets' refs'. process_target E n True t targets refs = Inr (targets', refs @ refs') \<and>
    targets_ok E S D n targets' \<and> (\<exists>ts. targets' = targets @ ts) \<and>
    (\<forall>l \<in> set (refs @ refs'). mentioned E D n l) \<and> declared_covered E n (fst t) (refs @ refs')"
proof -
  obtain s an b where sab: "t = (s, an, b)" by (cases t)
  have s: "s \<in> S" "rs_name (re_symbol E s) = n" "an \<in> D"
    using ok t sab by (auto simp: targets_ok_def)
  obtain d where d: "targetDocument E s = Some d" using ws s(1) by (auto simp: workspace_ok_def)
  then have "d \<in> D" using ws by (auto simp: workspace_ok_def targetDocument_def)
  define here where "here = map (token_location E d) (filter (refers E (loc_of E s) n) (rd_tokens d))"
  have r1: "declaration_references E n True s refs = refs @ here"
    using d by (simp add: declaration_references_def local_filter here_def)
  have here: "\<forall>l \<in> set here. mentioned E D n l"
    using \<open>d \<in> D\<close> by (auto simp: here_def intro!: mentionedI token_mentions)
  obtain new where g: "addGlobalReferences E n (targetDocument E s) (s, an, b) (refs @ here) = Inr (refs @ here @ new)"
      and new: "\<forall>l \<in> set new. mentioned E D n l"
    using global_continued [OF ws s, of "targetDocument E s" b "refs @ here"] by (auto simp: continued_def)
  define fresh where "fresh = (if has_duplicates E s then filter (same_declaration E s) (here @ new) else here @ new)"
  define kept where "kept = filter (\<lambda>l. \<not> list_ex (\<lambda>l'. same_location l' l) refs) fresh"
  have p: "process_target E n True t targets refs = Inr (fold (join_targets E) fresh targets, refs @ kept)"
    using g sab by (simp add: process_target_def Let_def r1 fresh_def kept_def)
  have fresh: "\<forall>l \<in> set fresh. mentioned E D n l"
    using here new by (auto simp: fresh_def)
  then have "extends E S D n targets (fold (join_targets E) fresh targets)"
    by (intro extends_fold join_extends [OF ws]) auto
  moreover have "declared_covered E n s (refs @ kept)"
  proof -
    have "\<exists>l \<in> set (refs @ kept). same_location l k" if "k \<in> set here" "\<not> has_duplicates E s" for k
    proof (cases "\<exists>l \<in> set refs. same_location l k")
      case False
      then have "k \<in> set kept" using that by (auto simp: kept_def fresh_def list_ex_iff)
      then show ?thesis by (intro bexI [of _ k]) simp_all
    qed auto
    then show ?thesis using d by (auto simp: declared_covered_def here_def)
  qed
  ultimately show ?thesis
    using p ok fresh refs sab by (auto simp: extends_def kept_def)
qed

lemma targets_bounded:
  assumes "workspace_ok E S D" "targets_ok E S D n targets"
  shows "length targets \<le> card S"
proof -
  have "set (map fst targets) \<subseteq> S" using assms(2) by (auto simp: targets_ok_def)
  then show ?thesis
    using assms card_mono [of S "set (map fst targets)"] distinct_card [of "map fst targets"]
    by (simp add: workspace_ok_def targets_ok_def)
qed

lemma covered_more: "declared_covered E n s refs \<Longrightarrow> declared_covered E n s (refs @ ls)"
  unfolding declared_covered_def by fastforce

lemma loop_ends:
  assumes ws: "workspace_ok E S D"
  shows "targets_ok E S D n targets \<Longrightarrow> \<forall>l \<in> set refs. mentioned E D n l \<Longrightarrow>
    \<exists>refs'. reference_loop E n True i targets refs = Some (Inr (refs @ refs')) \<and>
      (\<forall>l \<in> set (refs @ refs'). mentioned E D n l) \<and>
      (\<forall>t \<in> set (drop i targets). declared_covered E n (fst t) (refs @ refs'))"
proof (induction "card S - i" arbitrary: i targets refs rule: less_induct)
  case less
  show ?case
  proof (cases "i < length targets")
    case True
    obtain targets' new where step: "process_target E n True (targets ! i) targets refs = Inr (targets', refs @ new)"
        "targets_ok E S D n targets'" "\<forall>l \<in> set (refs @ new). mentioned E D n l"
        "declared_covered E n (fst (targets ! i)) (refs @ new)" and ts: "\<exists>ts. targets' = targets @ ts"
      using target_step [OF ws less.prems(1) nth_mem [OF True] less.prems(2)] by blast
    have "card S - Suc i < card S - i"
      using True targets_bounded [OF ws less.prems(1)] by simp
    then obtain refs' where rest: "reference_loop E n True (Suc i) targets' (refs @ new) = Some (Inr ((refs @ new) @ refs'))"
        "\<forall>l \<in> set ((refs @ new) @ refs'). mentioned E D n l"
        "\<forall>t \<in> set (drop (Suc i) targets'). declared_covered E n (fst t) ((refs @ new) @ refs')"
      using less.hyps [OF _ step(2,3)] by blast
    have "reference_loop E n True i targets refs = Some (Inr (refs @ new @ refs'))"
      using step(1) True rest(1) by (subst reference_loop.simps) simp
    moreover have "declared_covered E n (fst t) (refs @ new @ refs')" if "t \<in> set (drop i targets)" for t
    proof -
      have "t = targets ! i \<or> t \<in> set (drop (Suc i) targets')"
        using that True ts by (auto simp: Cons_nth_drop_Suc [OF True, symmetric])
      then show ?thesis using rest(3) covered_more [OF step(4), of refs'] by auto
    qed
    ultimately show ?thesis using rest(2) by (intro exI [of _ "new @ refs'"]) simp
  next
    case False
    then show ?thesis using less.prems by (intro exI [of _ "[]"]) (simp add: reference_loop.simps)
  qed
qed

section \<open>Renaming\<close>

lemma rename_edits_from:
  "fold (\<lambda>l. tab_push (uri_str (l_uri l)) (l_range l, new)) refs t = t' \<Longrightarrow>
     set (tab_get t' file) = set (tab_get t file) \<union> (\<lambda>l. (l_range l, new)) ` {l \<in> set refs. uri_str (l_uri l) = file}"
  by (induction refs arbitrary: t t') (auto simp: tab_get_push)

lemma rename_edits_set:
  "set (tab_get (rename_edits new refs) file) = (\<lambda>l. (l_range l, new)) ` {l \<in> set refs. uri_str (l_uri l) = file}"
  using rename_edits_from [of new refs "[]"] by (simp add: rename_edits_def tab_get_def)

lemma references_found:
  assumes ws: "workspace_ok E S D" and w: "word_at E u pos = Some (doc, token)"
    and raw: "rt_raw token = rt_value token" and tied: "tied E S D (rt_value token) doc token"
  shows "\<exists>r. getDocReferences E u pos True = Some (Inr r) \<and>
    (\<forall>refs. r = Some refs \<longrightarrow> (\<forall>l \<in> set refs. mentioned E D (rt_value token) l)) \<and>
    (\<forall>t \<in> set (addTargetsAt E doc token []).
       declared_covered E (rt_value token) (fst t) (case r of None \<Rightarrow> [] | Some refs \<Rightarrow> refs))"
proof (cases "addTargetsAt E doc token [] = []")
  case True
  then show ?thesis using w by (simp add: getDocReferences_def)
next
  case False
  let ?n = "rt_value token"
  have "doc \<in> D"
    using ws w by (auto simp: workspace_ok_def word_at_def split: option.splits)
  then have "targets_ok E S D ?n (addTargetsAt E doc token [])"
    using token_extends [OF tied, of "[]"] by (simp add: extends_def targets_ok_def)
  from loop_ends [OF ws this, of "[]" 0] obtain refs where
    "reference_loop E ?n True 0 (addTargetsAt E doc token []) [] = Some (Inr refs)"
    "\<forall>l \<in> set refs. mentioned E D ?n l"
    "\<forall>t \<in> set (addTargetsAt E doc token []). declared_covered E ?n (fst t) refs"
    by auto
  then show ?thesis
    using w False raw by (cases "refs = []") (auto simp: getDocReferences_def Let_def)
qed

section \<open>Properties\<close>

text \<open>C24. The references of a document are exactly the collected tokens with the wanted name that
  stand for a symbol declared at the wanted place: the search for a first such token and the
  comparison of symbols with the one found there change nothing.\<close>

theorem local_references_exact:
  "addLocalReferences E doc loc name refs =
     refs @ map (token_location E doc) (filter (\<lambda>t. rt_value t = name \<and>
       (\<exists>s \<in> set (rt_symbols t). loc_of E s = loc)) (rd_tokens doc))"
  by (simp add: local_filter refers_def [abs_def])


section \<open>A signal and a modport\<close>

text \<open>An interface with the signal \<open>sig\<close> (symbol 1), listed in a modport (symbol 2), whose token
  stands for both.\<close>

definition sig_uri :: uri where
  "sig_uri = uri_fromFile ''/bus.sv''"

definition sig_declared :: ref_token where
  "sig_declared = \<lparr>rt_value = ''sig'', rt_raw = ''sig'', rt_range = (loc_at 1 0, loc_at 1 3), rt_symbols = [1]\<rparr>"

definition sig_listed :: ref_token where
  "sig_listed = \<lparr>rt_value = ''sig'', rt_raw = ''sig'', rt_range = (loc_at 1 6, loc_at 1 9), rt_symbols = [2, 1]\<rparr>"

definition sig_document :: ref_document where
  "sig_document = \<lparr>rd_uri = sig_uri, rd_buffer = 1, rd_tokens = [sig_declared, sig_listed],
     rd_metadata = \<lparr>md_imports = [], md_classPackageNames = [], md_instances = [], md_interfacePorts = []\<rparr>,
     rd_hasAnalysis = True\<rparr>"

definition sig_symbol :: "nat \<Rightarrow> ref_symbol" where
  "sig_symbol s = \<lparr>rs_kind = (if s = 1 then Variable else if s = 2 then ModportPort else if s = 3 then InstanceBody else OtherKind),
     rs_name = (if s \<in> {1, 2} then ''sig'' else ''bus''), rs_location = loc_at 1 (if s = 2 then 6 else 0),
     rs_parents = (if s \<in> {1, 2} then [3, 4] else []), rs_definition = 5, rs_interface = False,
     rs_compilation_unit = (s = 4)\<rparr>"

definition sig_env :: ref_env where
  "sig_env = \<lparr>re_utf8 = sample_utf8,
     re_sm = \<lparr>getSourceText = (\<lambda>_. ''sig m sig;''), getColumnNumber = (\<lambda>l. loffset l + 1),
       getRawLineNumber = (\<lambda>_. 1), getSourceLocation = (\<lambda>b n c. Some (loc_at b 0)),
       getFullyExpandedLoc = id, getFullyExpandedRange = id, getFullyOriginalRange = id,
       getFullPath = (\<lambda>_. ''/bus.sv'')\<rparr>,
     re_originalLoc = id, re_symbol = sig_symbol,
     re_document = (\<lambda>u. if uri_eq u sig_uri then Some sig_document else None),
     re_wordToken = (\<lambda>_ l. if loffset l = 0 then Some sig_declared else if loffset l = 6 then Some sig_listed else None),
     re_definition = (\<lambda>_ _. None), re_index = empty_indexer, re_isType = (\<lambda>_. False)\<rparr>"

lemmas sig_defs = sig_env_def sig_document_def sig_declared_def sig_listed_def sig_symbol_def

lemma sig_document_found: "re_document sig_env (uri_fromFile ''/bus.sv'') = Some sig_document"
  by (simp add: sig_env_def sig_uri_def uri_eq_def)

lemma sig_target: "targetDocument sig_env s = Some sig_document"
  by (simp add: targetDocument_def sig_document_found) (simp add: sig_env_def sig_uri_def uri_eq_def)

lemma sig_mentions: "mentioned sig_env {sig_document} n l \<Longrightarrow> n = ''sig''"
  by (auto simp: mentioned_def mentions_def noted_names_def sig_defs)

lemma sig_tied: "tok \<in> {sig_declared, sig_listed} \<Longrightarrow> tied sig_env {1, 2} {sig_document} ''sig'' doc tok"
  by (auto simp: tied_def sig_defs)

lemma sig_workspace: "workspace_ok sig_env {1, 2} {sig_document}"
proof -
  have word: "tok \<in> {sig_declared, sig_listed}" if "re_wordToken sig_env doc loc = Some tok" for doc loc tok
    using that by (auto simp: sig_env_def split: if_splits)
  have "tied sig_env {1, 2} {sig_document} n doc tok"
    if "mentioned sig_env {sig_document} n l" "re_wordToken sig_env doc loc = Some tok" for n l doc loc tok
    using sig_tied [OF word [OF that(2)]] sig_mentions [OF that(1)] by simp
  moreover have "d = sig_document" if "re_document sig_env u = Some d" for u d
    using that by (auto simp: sig_env_def split: if_splits)
  ultimately show ?thesis
    unfolding workspace_ok_def by (intro conjI allI impI ballI) (auto simp: sig_target)
qed

lemma sig_word: "word_at sig_env sig_uri \<lparr>p_line = 0, p_char = 0\<rparr> = Some (sig_document, sig_declared)"
proof -
  have "re_document sig_env sig_uri = Some sig_document"
    using sig_document_found by (simp add: sig_uri_def)
  moreover have "toSourceLocation (re_utf8 sig_env) (re_sm sig_env) (rd_buffer sig_document) \<lparr>p_line = 0, p_char = 0\<rparr>
      = Some (loc_at 1 0)"
    by (simp add: sig_env_def sig_document_def) code_simp
  ultimately show ?thesis by (simp add: word_at_def) (simp add: sig_env_def)
qed


text \<open>Without the declarations, the same signal: the references to the modport port take its own
  declaration away from those of the signal, and the iterators pass the end.\<close>

lemma sig_ranges:
  "token_location sig_env sig_document sig_declared = \<lparr>l_uri = sig_uri, l_range =
     \<lparr>r_start = \<lparr>p_line = 0, p_char = 0\<rparr>, r_end = \<lparr>p_line = 0, p_char = 3\<rparr>\<rparr>\<rparr>"
  "token_location sig_env sig_document sig_listed = \<lparr>l_uri = sig_uri, l_range =
     \<lparr>r_start = \<lparr>p_line = 0, p_char = 6\<rparr>, r_end = \<lparr>p_line = 0, p_char = 9\<rparr>\<rparr>\<rparr>"
  by (simp add: token_location_def sig_env_def sig_document_def sig_declared_def sig_listed_def sig_uri_def, code_simp)+

lemma sig_no_duplicates: "has_duplicates sig_env s = False" if "s \<in> {1, 2}" for s
  using that by (auto simp: has_duplicates_def sig_env_def sig_symbol_def getFilesForSymbol_def empty_indexer_def tab_get_def)

lemma sig_others: "s \<in> {1, 2} \<Longrightarrow> addGlobalReferences sig_env n td (s, an, b) refs = Inr refs"
  by (auto simp: addGlobalReferences_def addMemberReferences_def sig_env_def sig_symbol_def
      getFilesReferencingSymbol_def empty_indexer_def tab_get_def)

lemma sig_refers:
  "filter (refers sig_env (loc_at 1 0) ''sig'') (rd_tokens sig_document) = [sig_declared, sig_listed]"
  "filter (refers sig_env (loc_at 1 6) ''sig'') (rd_tokens sig_document) = [sig_listed]"
  by (simp_all add: refers_def sig_defs)

lemma sig_declarations:
  "declaration_of sig_env 1 = token_location sig_env sig_document sig_declared"
  "declaration_of sig_env 2 = token_location sig_env sig_document sig_listed"
  by (simp_all add: declaration_of_def token_location_def sig_defs numeral_eq_Suc)

lemma sig_locations: "loc_of sig_env 1 = loc_at 1 0" "loc_of sig_env 2 = loc_at 1 6"
  by (simp_all add: sig_env_def sig_symbol_def)

lemma sig_joined: "join_targets sig_env (token_location sig_env sig_document sig_listed) [(1, sig_document, 1)] =
    [(1, sig_document, 1), (2, sig_document, 1)]"
proof -
  have "toSourceLocation (re_utf8 sig_env) (re_sm sig_env) (rd_buffer sig_document) \<lparr>p_line = 0, p_char = 6\<rparr>
      = Some (loc_at 1 6)"
    by (simp add: sig_env_def sig_document_def) code_simp
  moreover have "re_document sig_env sig_uri = Some sig_document"
    using sig_document_found by (simp add: sig_uri_def)
  moreover have "re_wordToken sig_env sig_document (loc_at 1 6) = Some sig_listed" "rd_hasAnalysis sig_document"
    by (simp_all add: sig_env_def sig_document_def)
  moreover have "addTargetsAt sig_env sig_document sig_listed [(1, sig_document, 1)] =
      [(1, sig_document, 1), (2, sig_document, 1)]"
    by (simp add: addTargetsAt_def addTargetSymbol_def sig_env_def sig_listed_def sig_symbol_def)
      (simp add: sig_document_def)
  ultimately show ?thesis by (simp add: join_targets_def sig_ranges)
qed

lemma references_without_declaration_undefined:
  "getDocReferences sig_env sig_uri \<lparr>p_line = 0, p_char = 0\<rparr> False = Some (Inl Undefined)"
proof -
  let ?d = "token_location sig_env sig_document sig_declared"
  let ?l = "token_location sig_env sig_document sig_listed"
  have differ: "same_location ?d ?l = False" "same_location ?l ?d = False"
    by (simp_all add: sig_ranges same_location_def)
  have start: "addTargetsAt sig_env sig_document sig_declared [] = [(1, sig_document, 1)]"
    by (simp add: addTargetsAt_def addTargetSymbol_def sig_env_def sig_declared_def sig_symbol_def)
      (simp add: sig_document_def)
  have "process_target sig_env ''sig'' False (1, sig_document, 1) [(1, sig_document, 1)] [] =
      Inr ([(1, sig_document, 1), (2, sig_document, 1)], [?l])"
    by (simp add: process_target_def declaration_references_def sig_target local_filter sig_refers sig_locations
        sig_declarations differ sig_others sig_no_duplicates sig_joined Let_def del: One_nat_def)
  moreover have "process_target sig_env ''sig'' False (2, sig_document, 1) [(1, sig_document, 1), (2, sig_document, 1)] [?l]
      = Inl Undefined"
    by (simp add: process_target_def declaration_references_def sig_target local_filter sig_refers sig_locations
        sig_declarations sig_others Let_def del: One_nat_def)
  ultimately have "reference_loop sig_env ''sig'' False 0 [(1, sig_document, 1)] [] = Some (Inl Undefined)"
    by (simp add: reference_loop.simps [of _ _ _ 0] reference_loop.simps [of _ _ _ "Suc 0"] del: One_nat_def)
  then show ?thesis
    by (simp add: getDocReferences_def sig_word start) (simp add: sig_declared_def)
qed

text \<open>An instance with the name of its module: the instantiations of the module in other files
  count as references to the instance.\<close>

lemma instance_named_as_module:
  assumes "kind_at E s = Instance" "rs_name (re_symbol E s) = name"
    and "rs_name (re_symbol E (rs_definition (re_symbol E s))) = name"
    and "getFilesReferencingSymbol (re_index E) name = [file]" and "re_document E (uri_fromFile (generic_string file)) = Some d"
    and "md_instances (rd_metadata d) = [(name, rg)]"
  shows "addGlobalReferences E name None (s, an, b) [] = Inr [original E rg]"
  using assms by (simp add: addGlobalReferences_def processReferencingFiles_def findModuleReferences_def Let_def)

text \<open>An escaped identifier is looked for with its backslash, which no token's value has.\<close>

lemma escaped_name_not_found:
  assumes "\<forall>t \<in> set (rd_tokens d). rt_value t \<noteq> raw"
  shows "addLocalReferences E d loc raw refs = refs"
  using assms by (auto simp: local_filter refers_def filter_empty_conv)

text \<open>Two uses of one macro that names a package are one place of the source and two references.\<close>

lemma macro_uses_repeated:
  assumes "md_imports m = []" "md_classPackageNames m = [((p, rg1), x), ((p, rg2), y)]"
    and "getFullyOriginalRange (re_sm E) rg1 = getFullyOriginalRange (re_sm E) rg2"
  shows "findPkgReferences E p m = [original E rg1, original E rg1]"
  using assms by (simp add: findPkgReferences_def toOriginalLocation_def)

end
