(* ===== verification/DisplayNodes.thy ===== *)
theory DisplayNodes
  imports Positions Formatting
begin

text \<open>
  Walks over a syntax tree from src/util/Formatting.cpp: the tokens that follow a node, the members
  before a declaration, the declaration a hover shows for a node, and the comment that documents it.
  slang's tree is data: a node has an identity (its address), its kind and its children, which are
  nodes, tokens or absent. A place in a tree is a node with the chain of its parents, nearest first.
\<close>

section \<open>Trees\<close>

text \<open>The kinds the walks and the hovers compare.\<close>

datatype display_kind =
    DefineDirective | MacroUsage | UndefDirective
  | ModuleDeclaration | ProgramDeclaration | PackageDeclaration | InterfaceDeclaration
  | Declarator | HierarchicalInstance | EnumTypeSyntax | TypeAssignment
  | TypedefDeclaration | TypeParameterDeclaration | StructUnionMember
  | ExplicitAnsiPort | ImplicitAnsiPort | NamedPortConnection | OrderedPortConnection | PortDeclaration
  | ContinuousAssign | ExpressionStatement | ProceduralAssignStatement | ProceduralDeassignStatement
  | ProceduralForceStatement | ProceduralReleaseStatement
  | ClassMethodDeclaration | ClassPropertyDeclaration | ParameterDeclarationStatement
  | OtherSyntax

record shown_token =
  stk_range :: source_range
  stk_raw :: string
  stk_value :: string
  stk_known :: bool  \<comment> \<open>the kind is not \<open>Unknown\<close>\<close>
  stk_trivia :: "trivia list"

abbreviation stk_loc :: "shown_token \<Rightarrow> source_location" where
  "stk_loc t \<equiv> fst (stk_range t)"

text \<open>\<open>sn_member\<close> is \<open>MemberSyntax::isKind\<close>.\<close>

datatype snode = SNode (sn_id: nat) (sn_kind: display_kind) (sn_member: bool) (sn_range: source_range)
    (sn_children: "schild list")
and schild = ChildNode snode | ChildToken shown_token | NoChild

type_synonym place = "snode \<times> snode list"

fun node_tokens :: "snode \<Rightarrow> shown_token list" and child_tokens :: "schild \<Rightarrow> shown_token list" where
  "node_tokens (SNode i k m rg cs) = concat (map child_tokens cs)"
| "child_tokens (ChildNode n) = node_tokens n"
| "child_tokens (ChildToken t) = (if stk_known t then [t] else [])"
| "child_tokens NoChild = []"

definition no_token :: shown_token where
  "no_token = \<lparr>stk_range = (loc_at 0 0, loc_at 0 0), stk_raw = [], stk_value = [], stk_known = False,
     stk_trivia = []\<rparr>"

definition first_token :: "snode \<Rightarrow> shown_token" where
  "first_token n = (case node_tokens n of [] \<Rightarrow> no_token | t # _ \<Rightarrow> t)"

text \<open>\<open>childNode(i) == current\<close>.\<close>

definition is_child :: "snode \<Rightarrow> schild \<Rightarrow> bool" where
  "is_child n c \<longleftrightarrow> (case c of ChildNode k \<Rightarrow> sn_id k = sn_id n | _ \<Rightarrow> False)"

section \<open>Walks\<close>

text \<open>The tokens given to the callback of \<open>forEachFollowingToken\<close>, until it asks to stop.\<close>

fun forEachFollowingToken :: "snode \<Rightarrow> snode list \<Rightarrow> shown_token list" where
  "forEachFollowingToken n [] = []"
| "forEachFollowingToken n (p # up) =
     (case dropWhile (\<lambda>c. \<not> is_child n c) (sn_children p) of
        [] \<Rightarrow> []
      | _ # later \<Rightarrow> concat (map child_tokens later) @ forEachFollowingToken p up)"

fun child_nodes :: "schild list \<Rightarrow> snode list" where
  "child_nodes [] = []"
| "child_nodes (ChildNode n # cs) = n # child_nodes cs"
| "child_nodes (_ # cs) = child_nodes cs"

definition getPreviousMember :: "place \<Rightarrow> place option" where
  "getPreviousMember pl = (case snd pl of
     [] \<Rightarrow> None
   | p # up \<Rightarrow>
      (if list_all (\<lambda>c. \<not> is_child (fst pl) c) (sn_children p) then None
       else (case child_nodes (rev (takeWhile (\<lambda>c. \<not> is_child (fst pl) c) (sn_children p))) of
         [] \<Rightarrow> None
       | q # _ \<Rightarrow> if sn_member q then Some (q, p # up) else None)))"

text \<open>A declaration with the members before it as \<open>findCommentBlock\<close> comes to them, for at most
  as many steps as the parent has children.\<close>

fun member_run :: "nat \<Rightarrow> place \<Rightarrow> place list" where
  "member_run 0 pl = [pl]"
| "member_run (Suc n) pl = pl # (case getPreviousMember pl of None \<Rightarrow> [] | Some q \<Rightarrow> member_run n q)"

definition place_run :: "place \<Rightarrow> place list" where
  "place_run pl = member_run (case snd pl of [] \<Rightarrow> 0 | p # _ \<Rightarrow> length (sn_children p)) pl"

definition first_trivia :: "place \<Rightarrow> trivia list" where
  "first_trivia pl = stk_trivia (first_token (fst pl))"

definition wrapper_kind :: "display_kind \<Rightarrow> node_kind" where
  "wrapper_kind k = (if k = ClassMethodDeclaration then NkClassMethodDeclaration
     else if k = ClassPropertyDeclaration then NkClassPropertyDeclaration
     else if k = ParameterDeclarationStatement then NkParameterDeclarationStatement else NkOther)"

text \<open>\<open>parent\<close> taken a number of times.\<close>

fun ancestor :: "nat \<Rightarrow> place \<Rightarrow> place" where
  "ancestor (Suc k) (n, p # up) = ancestor k (p, up)"
| "ancestor k pl = pl"

definition declaration_element :: "place \<Rightarrow> place" where
  "declaration_element pl = ancestor (getDeclarationElement
     (map (\<lambda>n. (wrapper_kind (sn_kind n), stk_loc (first_token n))) (fst pl # snd pl))) pl"

definition doc_comment_of :: "comment_format \<Rightarrow> place \<Rightarrow> string" where
  "doc_comment_of fmt pl = getDocCommentForHover fmt
     (map first_trivia (place_run (declaration_element pl)))
     (map stk_trivia (forEachFollowingToken (fst pl) (snd pl)))"

section \<open>The node that is shown\<close>

text \<open>\<open>header\<close> is the header of a module, a child of it. The parent of a declarator is read without
  a test.\<close>

definition header_of :: "(nat \<Rightarrow> snode) \<Rightarrow> place \<Rightarrow> place" where
  "header_of header pl = (header (sn_id (fst pl)), fst pl # snd pl)"

definition under_typedef :: "place \<Rightarrow> place" where
  "under_typedef pl = (case snd pl of
     p # up \<Rightarrow> if sn_kind p = TypedefDeclaration then (p, up) else pl
   | [] \<Rightarrow> pl)"

abbreviation module_kinds :: "display_kind set" where
  "module_kinds \<equiv> {ModuleDeclaration, ProgramDeclaration, PackageDeclaration, InterfaceDeclaration}"

abbreviation declarator_kinds :: "display_kind set" where
  "declarator_kinds \<equiv> {Declarator, HierarchicalInstance, EnumTypeSyntax, TypeAssignment}"

definition selectDisplayNode :: "(nat \<Rightarrow> snode) \<Rightarrow> place \<Rightarrow> place result" where
  "selectDisplayNode header pl =
    (let k = sn_kind (fst pl) in
     if k = DefineDirective then Inr pl
     else if k \<in> module_kinds
       then Inr (under_typedef (header_of header pl))
     else if k \<in> declarator_kinds
       then (case snd pl of [] \<Rightarrow> Inl Undefined | p # up \<Rightarrow> Inr (under_typedef (p, up)))
     else Inr (under_typedef pl))"

section \<open>The walk gives what follows in the text\<close>

text \<open>A place in a tree: every node is a child of the next one, and no sibling before it has its
  identity.\<close>

fun well_placed :: "snode \<Rightarrow> snode list \<Rightarrow> bool" where
  "well_placed n [] \<longleftrightarrow> True"
| "well_placed n (p # up) \<longleftrightarrow> well_placed p up \<and>
     (\<exists>before after. sn_children p = before @ ChildNode n # after \<and> (\<forall>c \<in> set before. \<not> is_child n c))"

lemma is_child_self [simp]: "is_child n (ChildNode n)"
  by (simp add: is_child_def)

lemma tokens_children: "node_tokens n = concat (map child_tokens (sn_children n))"
  by (cases n) simp

lemma dropWhile_siblings:
  "\<forall>c \<in> set before. \<not> is_child n c \<Longrightarrow>
    dropWhile (\<lambda>c. \<not> is_child n c) (before @ ChildNode n # after) = ChildNode n # after"
  "\<forall>c \<in> set before. \<not> is_child n c \<Longrightarrow>
    takeWhile (\<lambda>c. \<not> is_child n c) (before @ ChildNode n # after) = before"
  by (simp_all add: dropWhile_append2 takeWhile_append2)

lemma following_after:
  "well_placed n up \<Longrightarrow> \<exists>earlier. node_tokens (last (n # up)) = earlier @ node_tokens n @ forEachFollowingToken n up"
proof (induction up arbitrary: n)
  case (Cons p up)
  then obtain before after where split: "sn_children p = before @ ChildNode n # after"
    and first: "\<forall>c \<in> set before. \<not> is_child n c" and up: "well_placed p up" by auto
  obtain earlier where "node_tokens (last (p # up)) = earlier @ node_tokens p @ forEachFollowingToken p up"
    using Cons.IH [OF up] by blast
  moreover have "node_tokens p = concat (map child_tokens before) @ node_tokens n @ concat (map child_tokens after)"
    by (simp add: tokens_children [of p] split)
  moreover have "forEachFollowingToken n (p # up) = concat (map child_tokens after) @ forEachFollowingToken p up"
    using split first by (simp add: dropWhile_siblings)
  ultimately show ?case by (intro exI [of _ "earlier @ concat (map child_tokens before)"]) simp
qed simp

lemma child_nodes_append [simp]: "child_nodes (cs @ ds) = child_nodes cs @ child_nodes ds"
  by (induction cs rule: child_nodes.induct) auto

lemma child_nodes_rev: "child_nodes (rev cs) = rev (child_nodes cs)"
  by (induction cs rule: child_nodes.induct) auto

text \<open>The previous member is the nearest node before, if that is a member at all.\<close>

lemma previous_member_before:
  assumes "well_placed n (p # up)" and "getPreviousMember (n, p # up) = Some q"
  shows "\<exists>before between after. sn_children p = before @ ChildNode (fst q) # between @ ChildNode n # after
    \<and> child_nodes between = [] \<and> sn_member (fst q) \<and> snd q = p # up"
proof -
  obtain before after where split: "sn_children p = before @ ChildNode n # after"
    and first: "\<forall>c \<in> set before. \<not> is_child n c" using assms(1) by auto
  have nodes: "child_nodes cs = k # ks \<Longrightarrow> \<exists>a b. cs = a @ ChildNode k # b \<and> child_nodes a = []" for cs k ks
  proof (induction cs)
    case (Cons c cs)
    show ?case
    proof (cases c)
      case (ChildNode m)
      then have "m = k" using Cons.prems by simp
      then show ?thesis using ChildNode by (intro exI [of _ "[]"] exI [of _ cs]) simp
    next
      case (ChildToken t)
      then obtain a b where "cs = a @ ChildNode k # b" "child_nodes a = []" using Cons by auto
      then show ?thesis using ChildToken by (intro exI [of _ "c # a"] exI [of _ b]) simp
    next
      case NoChild
      then obtain a b where "cs = a @ ChildNode k # b" "child_nodes a = []" using Cons by auto
      then show ?thesis using NoChild by (intro exI [of _ "c # a"] exI [of _ b]) simp
    qed
  qed simp
  obtain k ks where k: "child_nodes (rev before) = k # ks" "sn_member k" "q = (k, p # up)"
    using assms(2) split first unfolding getPreviousMember_def
    by (auto simp: dropWhile_siblings split: list.splits if_splits)
  then obtain a b where "rev before = a @ ChildNode k # b" "child_nodes a = []" using nodes by blast
  then have "before = rev b @ ChildNode k # rev a" "child_nodes (rev a) = []"
    by (simp_all add: rev_swap child_nodes_rev)
  then show ?thesis using split k by auto
qed

text \<open>The tokens a doc comment is looked for behind a declaration are exactly those that follow it
  in the text of the tree, in order: the tree reads as what stands before the declaration, the
  declaration itself and the tokens of the walk.\<close>

theorem following_tokens_exact:
  assumes "well_placed n up"
  shows "\<exists>earlier. node_tokens (last (n # up)) = earlier @ node_tokens n @ forEachFollowingToken n up"
  using assms by (rule following_after)

definition plain_token :: "nat \<Rightarrow> shown_token" where
  "plain_token i = no_token\<lparr>stk_range := (loc_at 1 i, loc_at 1 (i + 1)), stk_known := True\<rparr>"

theorem following_tokens_exact_witness:
  "\<exists>earlier. node_tokens (SNode 0 OtherSyntax False (loc_at 1 0, loc_at 1 3)
       [ChildToken (plain_token 0), ChildNode (SNode 1 Declarator False (loc_at 1 1, loc_at 1 2) [ChildToken (plain_token 1)]),
        NoChild, ChildToken (plain_token 2)])
     = earlier @ [plain_token 1] @ [plain_token 2]"
  using following_tokens_exact [of "SNode 1 Declarator False (loc_at 1 1, loc_at 1 2) [ChildToken (plain_token 1)]"
      "[SNode 0 OtherSyntax False (loc_at 1 0, loc_at 1 3)
       [ChildToken (plain_token 0), ChildNode (SNode 1 Declarator False (loc_at 1 1, loc_at 1 2) [ChildToken (plain_token 1)]),
        NoChild, ChildToken (plain_token 2)]]"]
  by (simp add: is_child_def plain_token_def)

end
