(* ===== verification/Hovers.thy ===== *)
theory Hovers
  imports DisplayNodes SystemTasks Paths
begin

text \<open>
  Definitions as a client sees them, from src/document/DefinitionInfo.cpp: the text of a hover and the
  links of a definition, with the strings of types of src/util/Formatting.cpp and
  src/util/SlangExtensions.cpp. Symbols, types and analyses are numbers, as they are pointers in the
  code; what slang answers for them is a record of the environment. A macro usage range is absent where
  the code has \<open>NoLocation\<close>.
\<close>

definition result_bind :: "'a result \<Rightarrow> ('a \<Rightarrow> 'b result) \<Rightarrow> 'b result" where
  "result_bind r f = (case r of Inl e \<Rightarrow> Inl e | Inr x \<Rightarrow> f x)"

section \<open>What slang answers\<close>

text \<open>Constants: integers with width and sign, those with unknown bits, and others.\<close>

datatype hover_constant =
    IntConstant nat bool int | UnknownBits nat | BadConstant | OtherConstant nat

text \<open>The first elements of an instance array, which may be arrays again, each with its width.\<close>

datatype array_front =
    EmptyArray nat | ArrayOfInstance nat string | ArrayOfArrays nat array_front | ArrayOfOther nat

datatype symbol_class =
    ParameterClass bool hover_constant  \<comment> \<open>from a genvar\<close>
  | EnumValueClass hover_constant
  | DefinitionClass string
  | InstanceClass string string  \<comment> \<open>definition, array name\<close>
  | InstanceBodyClass "(string \<times> string) option"  \<comment> \<open>the same of the parent instance\<close>
  | InstanceArrayClass array_front
  | ModportPortClass direction "nat option"
  | InterfacePortClass
  | TypeParameterClass nat
  | TypeClass nat
  | GenvarClass
  | ProceduralBlockClass
  | PlainClass

record value_part =
  vp_type :: nat
  vp_port :: "direction option"
  vp_declared :: "(string \<times> string list) option"  \<comment> \<open>printed type syntax and dimensions\<close>

record scope_part =
  sp_lexicalPath :: string
  sp_syntax :: "place option"
  sp_enumType :: bool

record hover_symbol =
  hs_class :: symbol_class
  hs_kind :: string
  hs_name :: string
  hs_location :: source_location
  hs_value :: "value_part option"
  hs_scope :: "scope_part option"
  hs_syntax :: "place option"
  hs_path :: string

record hover_field =
  hf_type :: nat
  hf_location :: source_location
  hf_member :: "(string \<times> source_location) option"  \<comment> \<open>printed type of the member around the declarator, and its place\<close>

record hover_type =
  ht_error :: bool
  ht_canonical :: nat
  ht_error_child :: "nat option"  \<comment> \<open>the child, if the kind is \<open>ErrorType\<close>\<close>
  ht_error_kind :: bool
  ht_alias :: bool
  ht_alias_target :: nat
  ht_alias_syntax :: "place option"
  ht_record :: bool
  ht_enum :: bool
  ht_kind :: string
  ht_fields :: "hover_field list"
  ht_location :: source_location
  ht_width :: nat

datatype driver_source = SubroutineSource | ProcedureSource string | OtherSource

record value_driver =
  vd_inputPort :: bool
  vd_unidirectionalPort :: bool
  vd_viaIndirectPort :: bool
  vd_outputPort :: bool
  vd_initializer :: bool
  vd_source :: driver_source
  vd_continuous :: bool
  vd_container :: nat
  vd_symbol :: nat
  vd_expression :: "place option"
  vd_range :: "source_range option"

text \<open>A connection of an instance: its expression (the left side of an assignment) with its range, and
  the internal symbols of the port or ports it connects.\<close>

record port_connection =
  pc_expression :: "source_range option option"
  pc_internal :: "nat option list"

datatype string_mode = FriendlyString | QuotedString

record hover_env =
  he_sm :: source_manager
  he_utf8 :: utf8_lib
  he_ws :: "char \<Rightarrow> bool"
  he_originalLoc :: "source_location \<Rightarrow> source_location"
  he_isFileLoc :: "source_location \<Rightarrow> bool"
  he_isMacroLoc :: "source_location \<Rightarrow> bool"
  he_isLatestData :: "nat \<Rightarrow> bool"
  he_sourceText :: "source_range \<Rightarrow> string"
  he_contains :: "source_range \<Rightarrow> source_location \<Rightarrow> bool"
  he_symbol :: "nat \<Rightarrow> hover_symbol"
  he_type :: "nat \<Rightarrow> hover_type"
  he_typeText :: "string_mode \<Rightarrow> nat \<Rightarrow> string"  \<comment> \<open>the type printer\<close>
  he_matching :: "nat \<Rightarrow> nat \<Rightarrow> bool"
  he_constant :: "hover_constant \<Rightarrow> constant_value"
  he_sameConstant :: "hover_constant \<Rightarrow> hover_constant \<Rightarrow> bool"
  he_header :: "nat \<Rightarrow> snode"
  he_typedefName :: "nat \<Rightarrow> string"
  he_code :: "nat \<Rightarrow> string"  \<comment> \<open>\<open>printExcludingLeadingComments\<close>\<close>
  he_commented :: "nat \<Rightarrow> string"  \<comment> \<open>\<open>printWithLeadingComments\<close>\<close>
  he_connection :: "nat \<Rightarrow> nat \<Rightarrow> nat list"  \<comment> \<open>the source path of an active interface connection\<close>
  he_drivers :: "nat \<Rightarrow> nat \<Rightarrow> value_driver option list"
  he_ports :: "nat \<Rightarrow> port_connection list"
  he_cwd :: path
  he_readFile :: "string \<Rightarrow> string option"

abbreviation symbol_at :: "hover_env \<Rightarrow> nat \<Rightarrow> hover_symbol" where
  "symbol_at E s \<equiv> he_symbol E s"

section \<open>Targets\<close>

record syntax_target =
  sy_node :: place
  sy_nameToken :: shown_token
  sy_macroUsage :: "source_range option"

definition same_syntax :: "syntax_target \<Rightarrow> syntax_target \<Rightarrow> bool" where
  "same_syntax a b \<longleftrightarrow> sn_id (fst (sy_node a)) = sn_id (fst (sy_node b))
     \<and> stk_loc (sy_nameToken a) = stk_loc (sy_nameToken b) \<and> sy_macroUsage a = sy_macroUsage b"

definition fromNode :: "hover_env \<Rightarrow> place \<Rightarrow> shown_token \<Rightarrow> syntax_target" where
  "fromNode E node nameToken = \<lparr>sy_node = node, sy_nameToken = nameToken,
     sy_macroUsage =
       (if he_isMacroLoc E (stk_loc nameToken) then
          (let start = stk_loc nameToken;
               expansionRange = getFullyExpandedRange (he_sm E)
                 (start, start\<lparr>loffset := loffset start + length (stk_raw nameToken)\<rparr>)
           in if he_sourceText E expansionRange \<noteq> [] then Some expansionRange else None)
        else None)\<rparr>"

record symbol_target =
  st_syntaxes :: "syntax_target list"
  st_symbol :: nat
  st_analysis :: nat
  st_renderInterfaceConnection :: bool
  st_renderInputPortDriver :: bool
  st_generatedSignalCount :: nat

record command_line_define =
  cd_nameToken :: shown_token
  cd_sourceFile :: string

datatype macro_definition = DefinedIn syntax_target | OnCommandLine command_line_define

record subroutine_doc =
  sd_ieeeSection :: string
  sd_signature :: string
  sd_description :: string

datatype target =
    SymbolTarget symbol_target
  | PortConnectionTarget symbol_target symbol_target
  | MacroTarget macro_definition string
  | SystemSubroutineTarget shown_token subroutine_doc bool

text \<open>\<open>syntaxes.front()\<close>.\<close>

definition symbol_name_token :: "symbol_target \<Rightarrow> shown_token result" where
  "symbol_name_token t = (case st_syntaxes t of [] \<Rightarrow> Inl Undefined | s # _ \<Rightarrow> Inr (sy_nameToken s))"

definition nameToken :: "target \<Rightarrow> shown_token result" where
  "nameToken t = (case t of
     SymbolTarget s \<Rightarrow> symbol_name_token s
   | PortConnectionTarget s _ \<Rightarrow> symbol_name_token s
   | MacroTarget (DefinedIn s) _ \<Rightarrow> Inr (sy_nameToken s)
   | MacroTarget (OnCommandLine d) _ \<Rightarrow> Inr (cd_nameToken d)
   | SystemSubroutineTarget tok _ _ \<Rightarrow> Inr tok)"

section \<open>Links\<close>

record location_link =
  ll_uri :: uri
  ll_range :: lsp_range
  ll_selection :: lsp_range

definition link_to :: "uri \<Rightarrow> lsp_range \<Rightarrow> location_link" where
  "link_to u rg = \<lparr>ll_uri = u, ll_range = rg, ll_selection = rg\<rparr>"

definition getDefinition_syntax :: "hover_env \<Rightarrow> syntax_target \<Rightarrow> location_link list" where
  "getDefinition_syntax E s =
    (let targetRange = (case sy_macroUsage s of Some rg \<Rightarrow> rg | None \<Rightarrow> stk_range (sy_nameToken s))
     in [link_to (uri_fromFile (getFullPath (he_sm E) (lbuffer (fst targetRange))))
           (toRange (he_utf8 E) (he_sm E) targetRange)])"

definition same_link :: "location_link \<Rightarrow> location_link \<Rightarrow> bool" where
  "same_link a b \<longleftrightarrow> uri_eq (ll_uri a) (ll_uri b) \<and> ll_selection a = ll_selection b"

definition add_link :: "location_link \<Rightarrow> location_link list \<Rightarrow> location_link list" where
  "add_link l links = (if list_ex (\<lambda>existing. same_link existing l) links then links else links @ [l])"

definition getDefinition_symbol :: "hover_env \<Rightarrow> symbol_target \<Rightarrow> location_link list" where
  "getDefinition_symbol E t = fold (\<lambda>s. fold add_link (getDefinition_syntax E s)) (st_syntaxes t) []"

definition getDefinition_port :: "hover_env \<Rightarrow> symbol_target \<Rightarrow> symbol_target \<Rightarrow> location_link list" where
  "getDefinition_port E outer inner = fold add_link (getDefinition_symbol E inner) (getDefinition_symbol E outer)"

text \<open>The line and column of a byte, counted over the bytes before it.\<close>

fun line_and_column :: "string \<Rightarrow> u32 \<times> u32 \<Rightarrow> u32 \<times> u32" where
  "line_and_column [] p = p"
| "line_and_column (c # cs) (line, col) =
     line_and_column cs (if c = CHR 0x0A then (line + 1, 0) else (line, col + 1))"

definition define_patterns :: "string \<Rightarrow> string list" where
  "define_patterns macroName = map (\<lambda>p. p @ macroName)
     [''-D'', ''-D '', ''--define-macro='', ''--define-macro '', ''+define+'']"

definition define_position :: "string \<Rightarrow> string \<Rightarrow> position" where
  "define_position content macroName =
    (case find (\<lambda>pat. find_from content pat 0 \<noteq> None) (define_patterns macroName) of
       None \<Rightarrow> \<lparr>p_line = 0, p_char = 0\<rparr>
     | Some pat \<Rightarrow> (case line_and_column (take (the (find_from content pat 0)) content) (0, 0) of
         (line, col) \<Rightarrow> \<lparr>p_line = line, p_char = col\<rparr>))"

definition getDefinition_define :: "hover_env \<Rightarrow> command_line_define \<Rightarrow> location_link list" where
  "getDefinition_define E d = (if cd_sourceFile d = [] then [] else
     (let pos = (case he_readFile E (cd_sourceFile d) of
          None \<Rightarrow> \<lparr>p_line = 0, p_char = 0\<rparr>
        | Some content \<Rightarrow> define_position content (stk_value (cd_nameToken d)))
      in [link_to (uri_fromFile (cd_sourceFile d)) \<lparr>r_start = pos, r_end = pos\<rparr>]))"

definition getDefinition :: "hover_env \<Rightarrow> target \<Rightarrow> location_link list" where
  "getDefinition E t = (case t of
     SymbolTarget s \<Rightarrow> getDefinition_symbol E s
   | PortConnectionTarget outer inner \<Rightarrow> getDefinition_port E outer inner
   | MacroTarget (OnCommandLine d) _ \<Rightarrow> getDefinition_define E d
   | MacroTarget (DefinedIn s) _ \<Rightarrow> getDefinition_syntax E s
   | SystemSubroutineTarget _ _ _ \<Rightarrow> [])"

definition getDefinitionLspLinks :: "hover_env \<Rightarrow> target list \<Rightarrow> location_link list" where
  "getDefinitionLspLinks E targets = fold (\<lambda>t. fold add_link (getDefinition E t)) targets []"

definition getDefinitionLspLocs :: "hover_env \<Rightarrow> target list \<Rightarrow> location list" where
  "getDefinitionLspLocs E targets =
     map (\<lambda>l. \<lparr>l_uri = ll_uri l, l_range = ll_range l\<rparr>) (getDefinitionLspLinks E targets)"

end
