(* ===== verification/HoverText.thy ===== *)
theory HoverText
  imports Hovers
begin

text \<open>
  The text of hovers, from src/document/DefinitionInfo.cpp: the header of a symbol, its type and value,
  the declarations and the drivers that are shown, macros and system subroutines, and the summary of a
  parameter that has several values. A result may be missing (\<open>None\<close>) only where the search for the
  incomplete parts of a type would not end.
\<close>

type_synonym 'a run = "'a result option"

definition run_bind :: "'a run \<Rightarrow> ('a \<Rightarrow> 'b run) \<Rightarrow> 'b run" where
  "run_bind r f = Option.bind r (\<lambda>x. case x of Inl e \<Rightarrow> Some (Inl e) | Inr y \<Rightarrow> f y)"

definition number :: "nat \<Rightarrow> string" where
  "number n = to_string (int n)"

section \<open>Links into the sources\<close>

definition link_target :: "hover_env \<Rightarrow> source_location \<Rightarrow> string" where
  "link_target E originalLoc = uri_str (uri_fromFile (getFullPath (he_sm E) (lbuffer originalLoc)))
     @ ''#L'' @ number (getRawLineNumber (he_sm E) originalLoc) @ '','' @ number (getColumnNumber (he_sm E) originalLoc)"

text \<open>\<open>None\<close> is the answer \<open>false\<close>, with the paragraph unchanged.\<close>

definition appendSourceLink :: "hover_env \<Rightarrow> source_location \<Rightarrow> string \<Rightarrow> para \<Rightarrow> para option" where
  "appendSourceLink E loc label paragraph =
    (let originalLoc = he_originalLoc E loc; p = getFullPath (he_sm E) (lbuffer originalLoc) in
     if \<not> he_isFileLoc E originalLoc \<or> p = [] then None
     else (let linkLabel = (if label = []
             then filename (path_of_string p) @ '':'' @ number (getRawLineNumber (he_sm E) originalLoc)
               @ '':'' @ number (getColumnNumber (he_sm E) originalLoc)
             else [backtick] @ label @ [backtick])
       in Some (appendText (if label = [] then appendText paragraph '' at '' else paragraph)
            (''['' @ linkLabel @ ''](<'' @ link_target E originalLoc @ ''>)''))))"

section \<open>Types\<close>

definition unwrapErrorType :: "hover_env \<Rightarrow> nat \<Rightarrow> nat" where
  "unwrapErrorType E t = (let c = ht_canonical (he_type E t) in
     if ht_error_kind (he_type E c) then
       (case ht_error_child (he_type E c) of Some child \<Rightarrow> ht_canonical (he_type E child) | None \<Rightarrow> c)
     else c)"

definition getTypeParameterTargetType :: "hover_env \<Rightarrow> nat \<Rightarrow> nat option" where
  "getTypeParameterTargetType E t = (let ty = he_type E t in
     if \<not> ht_alias ty then None
     else (case ht_alias_syntax ty of
       Some (_, p # _) \<Rightarrow>
         (if sn_kind p \<noteq> TypeParameterDeclaration then None
          else if ht_error (he_type E (ht_alias_target ty)) then None else Some (ht_alias_target ty))
     | _ \<Rightarrow> None))"

definition getTypeString :: "hover_env \<Rightarrow> string_mode \<Rightarrow> nat \<Rightarrow> string" where
  "getTypeString E mode declType = (let u = unwrapErrorType E declType; ty = he_type E u in
     if ht_error ty then ''Incomplete type''
     else let shown = he_typeText E mode (if ht_error_kind (he_type E declType) then u else declType) in
       if ht_record ty \<or> ht_enum ty then take (length (ht_kind ty) - 4) (ht_kind ty) @ '' '' @ shown
       else shown)"

fun detail_all :: "(char \<Rightarrow> bool) \<Rightarrow> string list \<Rightarrow> string result" where
  "detail_all ws [] = Inr []"
| "detail_all ws (d # ds) = result_bind (detailFormat ws d) (\<lambda>a. map_sum id ((@) a) (detail_all ws ds))"

definition getDeclaredTypeString :: "hover_env \<Rightarrow> value_part \<Rightarrow> string option result" where
  "getDeclaredTypeString E v = (case vp_declared v of
     None \<Rightarrow> Inr None
   | Some (syn, dimensions) \<Rightarrow> result_bind (detailFormat (he_ws E) syn) (\<lambda>r.
       map_sum id (\<lambda>ds. let res = (if dimensions = [] then r else r @ '' '' @ ds) in if res = [] then None else Some res)
         (detail_all (he_ws E) dimensions)))"

section \<open>Incomplete parts of a type\<close>

text \<open>The subtypes found, and the types already listed.\<close>

type_synonym incomplete = "(string \<times> source_location) list \<times> nat list"

definition note_subtype :: "hover_env \<Rightarrow> hover_field \<Rightarrow> incomplete \<Rightarrow> incomplete result" where
  "note_subtype E f acc =
    result_bind (case hf_member f of
        None \<Rightarrow> Inr (''Incomplete type'', hf_location f)
      | Some (printed, loc) \<Rightarrow> map_sum id (\<lambda>txt. (txt, loc)) (detailFormat (he_ws E) printed))
     (\<lambda>(typeText, typeLocation). let t = hf_type f; ty = he_type E t;
          place = (if ht_alias ty then ht_location ty else typeLocation)
        in Inr (if t \<in> set (snd acc) then acc else (fst acc @ [(typeText, place)], snd acc @ [t])))"

text \<open>The record behind an erroneous type, unless it is being looked at already.\<close>

definition entered :: "hover_env \<Rightarrow> nat \<Rightarrow> nat list \<Rightarrow> nat option" where
  "entered E t active = (if \<not> ht_error (he_type E t) then None
     else let r = unwrapErrorType E t in
       if \<not> ht_record (he_type E r) \<or> r \<in> set active then None else Some r)"

partial_function (option) collect_fields ::
  "hover_env \<Rightarrow> hover_field list \<Rightarrow> nat list \<Rightarrow> incomplete \<Rightarrow> bool \<Rightarrow> (bool \<times> incomplete) run" where
  "collect_fields E fs0 active acc found = (case fs0 of
     [] \<Rightarrow> Some (Inr (found, acc))
   | f # fs \<Rightarrow>
      (if \<not> ht_error (he_type E (hf_type f)) then collect_fields E fs active acc found
       else (case entered E (hf_type f) active of
         None \<Rightarrow> (case note_subtype E f acc of
            Inl e \<Rightarrow> Some (Inl e) | Inr acc' \<Rightarrow> collect_fields E fs active acc' True)
       | Some r \<Rightarrow> Option.bind (collect_fields E (ht_fields (he_type E r)) (r # active) acc False)
           (\<lambda>res. case res of
              Inl e \<Rightarrow> Some (Inl e)
            | Inr (inner, acc') \<Rightarrow>
               (if inner then collect_fields E fs active acc' True
                else (case note_subtype E f acc' of
                  Inl e \<Rightarrow> Some (Inl e) | Inr acc'' \<Rightarrow> collect_fields E fs active acc'' True))))))"

declare collect_fields.simps [code]

definition collectIncompleteSubtypes :: "hover_env \<Rightarrow> nat \<Rightarrow> incomplete run" where
  "collectIncompleteSubtypes E t = (case entered E t [] of
     None \<Rightarrow> Some (Inr ([], []))
   | Some r \<Rightarrow> run_bind (collect_fields E (ht_fields (he_type E r)) [r] ([], []) False) (\<lambda>(_, acc). Some (Inr acc)))"

fun listed_links :: "hover_env \<Rightarrow> bool \<Rightarrow> (string \<times> source_location) list \<Rightarrow> para \<Rightarrow> para" where
  "listed_links E first [] p = p"
| "listed_links E first ((txt, loc) # ss) p =
     (let p1 = (if first then p else appendText p '', '') in
      listed_links E False ss (case appendSourceLink E loc txt p1 of Some p2 \<Rightarrow> p2 | None \<Rightarrow> p1))"

definition renderIncompleteSubtypes :: "hover_env \<Rightarrow> nat \<Rightarrow> para \<Rightarrow> para run" where
  "renderIncompleteSubtypes E t p = (if \<not> ht_error (he_type E t) then Some (Inr p)
     else run_bind (collectIncompleteSubtypes E t) (\<lambda>(subtypes, _).
       Some (Inr (if subtypes = [] then p
         else newLine (listed_links E True subtypes (appendText p ''Incomplete subtypes: ''))))))"

section \<open>Header, type and value\<close>

fun getPortDirectionHeader :: "direction \<Rightarrow> string" where
  "getPortDirectionHeader DirIn = ''Input''"
| "getPortDirectionHeader DirOut = ''Output''"
| "getPortDirectionHeader DirInOut = ''InOut''"
| "getPortDirectionHeader DirRef = ''Ref''"

fun getFirstInstanceElement :: "array_front \<Rightarrow> string option" where
  "getFirstInstanceElement (EmptyArray w) = None"
| "getFirstInstanceElement (ArrayOfInstance w d) = Some d"
| "getFirstInstanceElement (ArrayOfArrays w a) = getFirstInstanceElement a"
| "getFirstInstanceElement (ArrayOfOther w) = None"

fun getInstanceArrayShape :: "array_front \<Rightarrow> string" where
  "getInstanceArrayShape (EmptyArray w) = ''['' @ number w @ '']''"
| "getInstanceArrayShape (ArrayOfInstance w d) = ''['' @ number w @ '']''"
| "getInstanceArrayShape (ArrayOfArrays w a) = ''['' @ number w @ '']'' @ getInstanceArrayShape a"
| "getInstanceArrayShape (ArrayOfOther w) = ''['' @ number w @ '']''"

definition renderSymbolHeaderName :: "hover_symbol \<Rightarrow> string \<Rightarrow> para \<Rightarrow> para" where
  "renderSymbolHeaderName s kindOverride p =
    (let plain = (case Option.bind (hs_value s) vp_port of
           Some d \<Rightarrow> appendCode (appendBold p (getPortDirectionHeader d @ '' '' @ hs_kind s)) (hs_name s)
         | None \<Rightarrow> appendCode (appendBold p (hs_kind s)) (hs_name s))
     in if kindOverride \<noteq> [] then appendCode (appendBold p kindOverride) (hs_name s)
     else (case hs_class s of
       ParameterClass True _ \<Rightarrow> appendCode (appendBold p ''Genvar'') (hs_name s)
     | DefinitionClass kind \<Rightarrow> appendCode (appendBold p kind) (hs_name s)
     | InstanceClass def _ \<Rightarrow> appendCode (appendText (appendCode p def) '' '') (hs_name s)
     | InstanceArrayClass a \<Rightarrow> (case getFirstInstanceElement a of
         Some def \<Rightarrow> appendCode (appendText (appendCode p (def @ getInstanceArrayShape a)) '' '') (hs_name s)
       | None \<Rightarrow> plain)
     | ModportPortClass d _ \<Rightarrow> appendCode (appendBold p (getPortDirectionHeader d @ '' '' @ hs_kind s)) (hs_name s)
     | _ \<Rightarrow> plain))"

definition scope_path :: "hover_env \<Rightarrow> scope_part \<Rightarrow> string" where
  "scope_path E sc = sp_lexicalPath sc @ (case sp_syntax sc of
     Some (_, p # _) \<Rightarrow>
       (if sn_kind p = TypedefDeclaration \<and> \<not> sp_enumType sc then ''::'' @ he_typedefName E (sn_id p) else [])
   | _ \<Rightarrow> [])"

text \<open>The parent scope is read without a test.\<close>

definition renderSymbolHeader :: "hover_env \<Rightarrow> hover_symbol \<Rightarrow> string \<Rightarrow> para \<Rightarrow> para result" where
  "renderSymbolHeader E s kindOverride p = (case hs_scope s of
     None \<Rightarrow> Inl Undefined
   | Some sc \<Rightarrow> (let p1 = renderSymbolHeaderName s kindOverride p; lexicalPath = scope_path E sc in
       Inr (newLine (if lexicalPath = [] then p1 else appendCode (appendText p1 '' in '') lexicalPath))))"

definition is_parameter :: "hover_symbol \<Rightarrow> bool" where
  "is_parameter s \<longleftrightarrow> (case hs_class s of ParameterClass _ _ \<Rightarrow> True | _ \<Rightarrow> False)"

definition is_enum_value :: "hover_symbol \<Rightarrow> bool" where
  "is_enum_value s \<longleftrightarrow> (case hs_class s of EnumValueClass _ \<Rightarrow> True | _ \<Rightarrow> False)"

text \<open>The first of several links that can be made, or else the quoted type.\<close>

definition link_or_quoted :: "hover_env \<Rightarrow> source_location list \<Rightarrow> nat \<Rightarrow> para \<Rightarrow> para" where
  "link_or_quoted E locs t p =
    (case List.map_filter (\<lambda>l. appendSourceLink E l (getTypeString E FriendlyString t) p) locs of
       q # _ \<Rightarrow> q | [] \<Rightarrow> appendText p (getTypeString E QuotedString t))"

definition renderSymbolType :: "hover_env \<Rightarrow> hover_symbol \<Rightarrow> para \<Rightarrow> para result" where
  "renderSymbolType E s p = (case hs_value s of
     None \<Rightarrow> Inr p
   | Some v \<Rightarrow> if is_enum_value s then Inr p else
      (let t = vp_type v; ty = he_type E t in
       result_bind (if ht_error ty then getDeclaredTypeString E v else Inr None) (\<lambda>declaredType.
         let shown = (case declaredType of
             Some d \<Rightarrow> (let p1 = appendText p ''Declared Type: '' in
               (case (if ht_alias ty then appendSourceLink E (ht_location ty) d p1 else None) of
                  Some p2 \<Rightarrow> p2 | None \<Rightarrow> appendCode p1 d))
           | None \<Rightarrow> link_or_quoted E
               ((case getTypeParameterTargetType E t of Some r \<Rightarrow> [ht_location (he_type E r)] | None \<Rightarrow> [])
                 @ [ht_location ty]) t (appendText p ''Type: ''))
         in Inr (if \<not> is_parameter s \<and> \<not> ht_error ty \<and> 1 < ht_width ty
              then newLine (appendCode (appendText (newLine shown) ''Width: '') (number (ht_width ty)))
              else newLine shown))))"

definition appendTypeParameterValue :: "hover_env \<Rightarrow> nat \<Rightarrow> para \<Rightarrow> para" where
  "appendTypeParameterValue E t p = (if ht_error (he_type E t) then p
     else newLine (link_or_quoted E [ht_location (he_type E t)] t (appendText p ''Value: '')))"

definition show_constant :: "hover_env \<Rightarrow> hover_constant \<Rightarrow> string" where
  "show_constant E c = formatConstantValue (he_utf8 E) (he_constant E c)"

definition constant_line :: "hover_env \<Rightarrow> hover_constant \<Rightarrow> para \<Rightarrow> para" where
  "constant_line E c p = (if c = BadConstant then p
     else newLine (appendCode (appendText p ''Value: '') (show_constant E c)))"

definition type_lines :: "hover_env \<Rightarrow> nat \<Rightarrow> para \<Rightarrow> para run" where
  "type_lines E t p = (let ty = he_type E t in
     if ht_error (he_type E (unwrapErrorType E t)) then Some (Inr p)
     else let p1 = newLine (link_or_quoted E [ht_location ty] t
            (appendText p (if ht_error ty then ''Declared Type: '' else ''Resolved Type: '')))
       in if ht_error ty then renderIncompleteSubtypes E t p1
          else Some (Inr (if 0 < ht_width ty
            then newLine (appendCode (appendText p1 ''Resolved Width: '') (number (ht_width ty))) else p1)))"

definition renderSymbolValue :: "hover_env \<Rightarrow> hover_symbol \<Rightarrow> para \<Rightarrow> para run" where
  "renderSymbolValue E s p = (case hs_class s of
     TypeParameterClass t \<Rightarrow> Some (Inr (appendTypeParameterValue E t p))
   | TypeClass t \<Rightarrow> type_lines E t
       (case getTypeParameterTargetType E t of Some r \<Rightarrow> appendTypeParameterValue E r p | None \<Rightarrow> p)
   | ParameterClass _ c \<Rightarrow> Some (Inr (constant_line E c p))
   | EnumValueClass c \<Rightarrow> Some (Inr (constant_line E c p))
   | _ \<Rightarrow> Some (Inr p))"

section \<open>Shown syntax\<close>

text \<open>The format of doc comments; raw is \<open>None\<close>.\<close>

type_synonym doc_format = "comment_format option"

definition renderCode :: "hover_env \<Rightarrow> bool \<Rightarrow> syntax_target \<Rightarrow> para \<Rightarrow> para result" where
  "renderCode E rawDocComments t p =
    result_bind (selectDisplayNode (he_header E) (sy_node t)) (\<lambda>displayNode.
    result_bind (if rawDocComments then formatCodeWithLeadingComments (he_ws E) (he_commented E (sn_id (fst displayNode)))
                 else formatCode (he_ws E) (he_code E (sn_id (fst displayNode)))) (\<lambda>code.
      let p1 = appendCodeBlock (if paragraph_isEmpty p then p else newLine p) code in
      Inr (case sy_macroUsage t of None \<Rightarrow> p1
        | Some rg \<Rightarrow> appendCodeBlock (newLine (appendText (newLine p1) ''Expanded from '')) (he_sourceText E rg))))"

definition doc_comment_paragraph :: "doc_format \<Rightarrow> place \<Rightarrow> document \<Rightarrow> document" where
  "doc_comment_paragraph fmt displayNode doc = (case fmt of
     None \<Rightarrow> doc
   | Some f \<Rightarrow> (let docComments = doc_comment_of f displayNode in
       if docComments = [] then doc else addParagraph doc (newLine (appendText [] docComments))))"

fun syntax_paragraphs :: "hover_env \<Rightarrow> doc_format \<Rightarrow> syntax_target list \<Rightarrow> syntax_target list \<Rightarrow> document
    \<Rightarrow> document result" where
  "syntax_paragraphs E fmt rendered [] doc = Inr doc"
| "syntax_paragraphs E fmt rendered (t # ts) doc =
     (if list_ex (\<lambda>r. same_syntax r t) rendered then syntax_paragraphs E fmt rendered ts doc
      else result_bind (selectDisplayNode (he_header E) (sy_node t)) (\<lambda>displayNode.
        result_bind (renderCode E (fmt = None) t []) (\<lambda>code.
          syntax_paragraphs E fmt (rendered @ [t]) ts
            (addParagraph (doc_comment_paragraph fmt displayNode doc) code))))"

definition appendSyntaxTargets :: "hover_env \<Rightarrow> doc_format \<Rightarrow> syntax_target list \<Rightarrow> document \<Rightarrow> document result" where
  "appendSyntaxTargets E fmt targets doc = syntax_paragraphs E fmt [] targets doc"

section \<open>Drivers\<close>

record driver_group =
  dg_container :: nat
  dg_drivers :: "value_driver list"
  dg_targets :: "syntax_target list"

definition isPortDriver :: "value_driver \<Rightarrow> bool" where
  "isPortDriver d \<longleftrightarrow> vd_unidirectionalPort d \<or> vd_viaIndirectPort d"

definition getDriverInstanceDescription :: "hover_env \<Rightarrow> driver_group \<Rightarrow> string" where
  "getDriverInstanceDescription E g = (case hs_class (he_symbol E (dg_container g)) of
     InstanceClass def arrayName \<Rightarrow> def @ '' '' @ arrayName
   | InstanceBodyClass (Some (def, arrayName)) \<Rightarrow> def @ '' '' @ arrayName
   | _ \<Rightarrow> [])"

definition getDriverDescription :: "value_driver \<Rightarrow> string" where
  "getDriverDescription d =
    (if isPortDriver d then ''via port''
     else if vd_initializer d then ''by initializer''
     else (case vd_source d of
       SubroutineSource \<Rightarrow> ''by subroutine''
     | ProcedureSource kind \<Rightarrow> ''by '' @ kind
     | OtherSource \<Rightarrow> if vd_continuous d then ''by continuous assignment'' else ''by procedural assignment''))"

definition described :: "string \<Rightarrow> value_driver \<Rightarrow> string" where
  "described instanceDescription d = getDriverDescription d
     @ (if isPortDriver d \<and> instanceDescription \<noteq> [] then '' from '' @ [backtick] @ instanceDescription @ [backtick]
        else [])"

definition add_description :: "string \<Rightarrow> string list \<Rightarrow> string list" where
  "add_description t ts = (if t \<in> set ts then ts else ts @ [t])"

fun join_and :: "string list \<Rightarrow> string" where
  "join_and [] = []"
| "join_and [t] = t"
| "join_and (t # ts) = t @ '' and '' @ join_and ts"

definition getDriverGroupHeader :: "hover_env \<Rightarrow> driver_group \<Rightarrow> string" where
  "getDriverGroupHeader E g = ''Driven '' @ join_and
     (fold (\<lambda>d. add_description (described (getDriverInstanceDescription E g) d)) (dg_drivers g) [])"

fun findSyntaxAt :: "hover_env \<Rightarrow> source_location \<Rightarrow> snode list \<Rightarrow> snode \<Rightarrow> place option"
and find_in_children :: "hover_env \<Rightarrow> source_location \<Rightarrow> snode list \<Rightarrow> schild list \<Rightarrow> place option"
and find_in_child :: "hover_env \<Rightarrow> source_location \<Rightarrow> snode list \<Rightarrow> schild \<Rightarrow> place option" where
  "findSyntaxAt E loc up (SNode i k m rg cs) =
     (if \<not> he_contains E rg loc then None
      else (case find_in_children E loc (SNode i k m rg cs # up) cs of
        Some found \<Rightarrow> Some found | None \<Rightarrow> Some (SNode i k m rg cs, up)))"
| "find_in_children E loc up [] = None"
| "find_in_children E loc up (c # cs) = (case find_in_child E loc up c of
     Some found \<Rightarrow> Some found | None \<Rightarrow> find_in_children E loc up cs)"
| "find_in_child E loc up (ChildNode n) = findSyntaxAt E loc up n"
| "find_in_child E loc up (ChildToken t) = None"
| "find_in_child E loc up NoChild = None"

definition getDriverSourceNode :: "hover_env \<Rightarrow> value_driver \<Rightarrow> place option" where
  "getDriverSourceNode E d =
    (let containing = hs_syntax (he_symbol E (vd_container d)) in
     if \<not> vd_initializer d \<and> hs_class (he_symbol E (vd_container d)) = ProceduralBlockClass then containing
     else if vd_initializer d \<and> hs_syntax (he_symbol E (vd_symbol d)) \<noteq> None
       then hs_syntax (he_symbol E (vd_symbol d))
     else if vd_expression d \<noteq> None then vd_expression d
     else (case (containing, vd_range d) of
        (Some (n, up), Some rg) \<Rightarrow>
          (case findSyntaxAt E (fst rg) up n of Some found \<Rightarrow> Some found | None \<Rightarrow> containing)
      | _ \<Rightarrow> containing))"

text \<open>The nearest node of some kinds, from a node upwards.\<close>

fun enclosing :: "display_kind set \<Rightarrow> snode \<Rightarrow> snode list \<Rightarrow> place option" where
  "enclosing K n up = (if sn_kind n \<in> K then Some (n, up)
     else (case up of [] \<Rightarrow> None | p # ps \<Rightarrow> enclosing K p ps))"

declare enclosing.simps [simp del]

definition getDriverDisplayNode :: "hover_env \<Rightarrow> value_driver \<Rightarrow> place option result" where
  "getDriverDisplayNode E d = (case getDriverSourceNode E d of
     None \<Rightarrow> Inr None
   | Some (n, up) \<Rightarrow>
      (case (if isPortDriver d then enclosing {ExplicitAnsiPort, ImplicitAnsiPort, NamedPortConnection,
               OrderedPortConnection, PortDeclaration} n up
             else if vd_continuous d then enclosing {ContinuousAssign} n up else None) of
         Some pl \<Rightarrow> Inr (Some pl)
       | None \<Rightarrow>
          (case enclosing {ExpressionStatement, ProceduralAssignStatement, ProceduralDeassignStatement,
               ProceduralForceStatement, ProceduralReleaseStatement} n up of
             Some pl \<Rightarrow> Inr (Some pl)
           | None \<Rightarrow> map_sum id Some (selectDisplayNode (he_header E) (n, up)))))"

definition same_container :: "hover_env \<Rightarrow> nat \<Rightarrow> nat \<Rightarrow> bool" where
  "same_container E a b \<longleftrightarrow> a = b
     \<or> (case (hs_syntax (he_symbol E a), hs_syntax (he_symbol E b)) of
          (Some m, Some n) \<Rightarrow> sn_id (fst m) = sn_id (fst n) | _ \<Rightarrow> False)"

fun into_group :: "(driver_group \<Rightarrow> bool) \<Rightarrow> driver_group \<Rightarrow> (driver_group \<Rightarrow> driver_group)
    \<Rightarrow> driver_group list \<Rightarrow> driver_group list" where
  "into_group P new f [] = [f new]"
| "into_group P new f (g # gs) = (if P g then f g # gs else g # into_group P new f gs)"

definition with_driver :: "value_driver \<Rightarrow> syntax_target option \<Rightarrow> driver_group \<Rightarrow> driver_group" where
  "with_driver d target g = g\<lparr>dg_drivers := dg_drivers g @ [d],
     dg_targets := (case target of None \<Rightarrow> dg_targets g
       | Some t \<Rightarrow> if list_ex (\<lambda>u. same_syntax u t) (dg_targets g) then dg_targets g else dg_targets g @ [t])\<rparr>"

definition add_new :: "'a \<Rightarrow> 'a list \<Rightarrow> 'a list" where
  "add_new x xs = (if x \<in> set xs then xs else xs @ [x])"

definition connected_ports :: "hover_env \<Rightarrow> bool \<Rightarrow> value_driver \<Rightarrow> nat list \<Rightarrow> nat list" where
  "connected_ports E followPortDriver d connected =
    (if \<not> followPortDriver \<or> \<not> vd_outputPort d then connected
     else (case hs_class (he_symbol E (vd_container d)) of
       InstanceClass _ _ \<Rightarrow> fold (\<lambda>c acc. (case pc_expression c of
           None \<Rightarrow> acc
         | Some rg \<Rightarrow> if rg \<noteq> vd_range d then acc
             else fold (\<lambda>i a. case i of None \<Rightarrow> a | Some s \<Rightarrow> add_new s a) (pc_internal c) acc))
           (he_ports E (vd_container d)) connected
     | _ \<Rightarrow> connected))"

definition add_driver :: "hover_env \<Rightarrow> bool \<Rightarrow> bool \<Rightarrow> value_driver option \<Rightarrow> driver_group list \<times> nat list
    \<Rightarrow> (driver_group list \<times> nat list) result" where
  "add_driver E renderInputPortDriver followPortDriver driver st = (case driver of
     None \<Rightarrow> Inr st
   | Some d \<Rightarrow> if vd_inputPort d \<and> \<not> renderInputPortDriver then Inr st
      else result_bind (getDriverDisplayNode E d) (\<lambda>node.
        Inr (into_group (\<lambda>g. same_container E (vd_container d) (dg_container g))
               \<lparr>dg_container = vd_container d, dg_drivers = [], dg_targets = []\<rparr>
               (with_driver d (map_option (\<lambda>pl. fromNode E pl (first_token (fst pl))) node)) (fst st),
             connected_ports E followPortDriver d (snd st))))"

fun add_drivers :: "hover_env \<Rightarrow> bool \<Rightarrow> bool \<Rightarrow> value_driver option list \<Rightarrow> driver_group list \<times> nat list
    \<Rightarrow> (driver_group list \<times> nat list) result" where
  "add_drivers E inp follow [] st = Inr st"
| "add_drivers E inp follow (d # ds) st = result_bind (add_driver E inp follow d st) (add_drivers E inp follow ds)"

fun target_paragraphs :: "hover_env \<Rightarrow> para \<Rightarrow> syntax_target list \<Rightarrow> document \<Rightarrow> document result" where
  "target_paragraphs E p [] doc = Inr doc"
| "target_paragraphs E p (t # ts) doc =
     result_bind (renderCode E True t p) (\<lambda>q. target_paragraphs E [] ts (addParagraph doc q))"

definition render_group :: "hover_env \<Rightarrow> driver_group \<Rightarrow> document \<Rightarrow> document result" where
  "render_group E g doc =
    (let location = (case dg_targets g of
           [] \<Rightarrow> hs_location (he_symbol E (dg_container g))
         | t # _ \<Rightarrow> (case sy_macroUsage t of None \<Rightarrow> stk_loc (sy_nameToken t) | Some rg \<Rightarrow> fst rg));
         p = appendText [] (getDriverGroupHeader E g);
         p1 = (case appendSourceLink E location [] p of Some q \<Rightarrow> q | None \<Rightarrow> p)
     in if dg_targets g = [] then Inr (addParagraph doc p1) else target_paragraphs E p1 (dg_targets g) doc)"

text \<open>The groups, with the container syntaxes that have been shown.\<close>

fun render_groups :: "hover_env \<Rightarrow> driver_group list \<Rightarrow> document \<times> nat list \<Rightarrow> (document \<times> nat list) result" where
  "render_groups E [] st = Inr st"
| "render_groups E (g # gs) (doc, listed) = (case hs_syntax (he_symbol E (dg_container g)) of
     None \<Rightarrow> result_bind (render_group E g doc) (\<lambda>doc'. render_groups E gs (doc', listed))
   | Some n \<Rightarrow> if sn_id (fst n) \<in> set listed then render_groups E gs (doc, listed)
       else result_bind (render_group E g doc) (\<lambda>doc'. render_groups E gs (doc', listed @ [sn_id (fst n)])))"

text \<open>One level of \<open>renderDrivers\<close>, with the symbols behind the output ports to go on with. The second
  level follows no ports, so it is the last.\<close>

definition driver_level :: "hover_env \<Rightarrow> nat \<Rightarrow> bool \<Rightarrow> bool \<Rightarrow> nat \<Rightarrow> document \<times> nat list
    \<Rightarrow> (nat list \<times> document \<times> nat list) result" where
  "driver_level E analysis inp follow s st = (let sym = he_symbol E s in
     if hs_value sym = None \<or> is_enum_value sym then Inr ([], st)
     else result_bind (add_drivers E inp follow (he_drivers E analysis s) ([], [])) (\<lambda>(groups, connected).
       map_sum id (Pair connected) (render_groups E groups st)))"

fun connected_levels :: "hover_env \<Rightarrow> nat \<Rightarrow> nat list \<Rightarrow> document \<times> nat list \<Rightarrow> (document \<times> nat list) result" where
  "connected_levels E analysis [] st = Inr st"
| "connected_levels E analysis (s # ss) st =
     result_bind (driver_level E analysis False False s st) (\<lambda>(_, st'). connected_levels E analysis ss st')"

definition renderDrivers :: "hover_env \<Rightarrow> nat \<Rightarrow> nat \<Rightarrow> bool \<Rightarrow> bool \<Rightarrow> document result" where
  "renderDrivers E analysis s inp follow =
    result_bind (driver_level E analysis inp follow s ([], [])) (\<lambda>(connected, st).
      map_sum id fst (connected_levels E analysis connected st))"

section \<open>The hover of a symbol\<close>

record rendered_hover =
  rh_header :: para
  rh_type :: para
  rh_signals :: para
  rh_value :: para
  rh_syntaxes :: document
  rh_drivers :: document

definition appendTo :: "rendered_hover \<Rightarrow> document \<Rightarrow> document" where
  "appendTo h doc = document_append (document_append
     (addParagraph doc (append_paragraph (append_paragraph (append_paragraph (rh_header h) (rh_type h))
        (rh_signals h)) (rh_value h)))
     (rh_syntaxes h)) (rh_drivers h)"

definition getDriverSymbol :: "hover_env \<Rightarrow> symbol_target \<Rightarrow> nat" where
  "getDriverSymbol E t = (case hs_class (he_symbol E (st_symbol t)) of
     ModportPortClass _ (Some internal) \<Rightarrow> internal | _ \<Rightarrow> st_symbol t)"

definition interface_line :: "hover_env \<Rightarrow> symbol_target \<Rightarrow> para \<Rightarrow> para" where
  "interface_line E t p =
    (if \<not> st_renderInterfaceConnection t \<or> hs_class (he_symbol E (st_symbol t)) \<noteq> InterfacePortClass then p
     else (case rev (he_connection E (st_analysis t) (st_symbol t)) of
       [] \<Rightarrow> p
     | c # _ \<Rightarrow> (let connection = he_symbol E c in
        if he_originalLoc E (hs_location connection) = he_originalLoc E (hs_location (he_symbol E (st_symbol t))) then p
        else (let p1 = appendText p ''Connected to '' in
          newLine (case appendSourceLink E (hs_location connection) (hs_path connection) p1 of
            Some q \<Rightarrow> q | None \<Rightarrow> appendCode p1 (hs_path connection))))))"

definition renderSymbolHover :: "hover_env \<Rightarrow> doc_format \<Rightarrow> symbol_target \<Rightarrow> string \<Rightarrow> bool \<Rightarrow> rendered_hover run" where
  "renderSymbolHover E fmt t label followPortDriver = (let s = he_symbol E (st_symbol t) in
     run_bind (Some (renderSymbolHeader E s [] (if label = [] then [] else appendBold [] label))) (\<lambda>header.
     run_bind (Some (renderSymbolType E s [])) (\<lambda>ty.
     run_bind (renderSymbolValue E s []) (\<lambda>val.
     run_bind (Some (appendSyntaxTargets E fmt (st_syntaxes t) [])) (\<lambda>syntaxes.
     run_bind (Some (renderDrivers E (st_analysis t) (getDriverSymbol E t) (st_renderInputPortDriver t) followPortDriver))
       (\<lambda>drivers. Some (Inr \<lparr>rh_header = interface_line E t header, rh_type = ty,
          rh_signals = (if 1 < st_generatedSignalCount t
            then newLine (appendCode (appendText [] ''Generated signals: '') (number (st_generatedSignalCount t))) else []),
          rh_value = val, rh_syntaxes = syntaxes, rh_drivers = drivers\<rparr>)))))))"

definition deduplicatePortHoverParts :: "rendered_hover \<Rightarrow> rendered_hover \<Rightarrow> rendered_hover" where
  "deduplicatePortHoverParts outer inner = inner\<lparr>
     rh_type := if rh_type inner = rh_type outer then [] else rh_type inner,
     rh_value := if rh_value inner = rh_value outer then [] else rh_value inner,
     rh_drivers := if rh_drivers inner = rh_drivers outer then [] else rh_drivers inner\<rparr>"

definition getHover_symbol :: "hover_env \<Rightarrow> doc_format \<Rightarrow> symbol_target \<Rightarrow> document run" where
  "getHover_symbol E fmt t = run_bind (renderSymbolHover E fmt t [] True) (\<lambda>h. Some (Inr (appendTo h [])))"

definition getHover_port :: "hover_env \<Rightarrow> doc_format \<Rightarrow> symbol_target \<Rightarrow> symbol_target \<Rightarrow> document run" where
  "getHover_port E fmt outer inner =
     run_bind (renderSymbolHover E fmt outer ''Outer'' False) (\<lambda>oh.
     run_bind (renderSymbolHover E fmt inner ''Inner'' True) (\<lambda>ih.
       Some (Inr (appendTo (deduplicatePortHoverParts oh ih) (appendTo oh [])))))"

section \<open>Macros and system subroutines\<close>

definition renderMacroHeader :: "hover_env \<Rightarrow> nat \<Rightarrow> (display_kind \<Rightarrow> string) \<Rightarrow> macro_definition \<Rightarrow> para \<Rightarrow> para" where
  "renderMacroHeader E docBuffer kind_name def p = (case def of
     DefinedIn s \<Rightarrow>
      (let buf = lbuffer (stk_loc (sy_nameToken s));
           p1 = newLine (appendText (appendText (appendText p (kind_name (sn_kind (fst (sy_node s))))) '' '')
             (stk_value (sy_nameToken s)));
           pathStr = filename (path_of_string (getFullPath (he_sm E) buf))
       in if buf \<noteq> docBuffer \<and> he_isLatestData E buf \<and> pathStr \<noteq> [] \<and> hd pathStr \<noteq> CHR ''<''
          then newLine (appendCode (appendText p1 ''From '') pathStr) else p1)
   | OnCommandLine d \<Rightarrow>
      (let p1 = newLine (appendText (appendText p ''DefineDirective '') (stk_value (cd_nameToken d))) in
       if cd_sourceFile d = [] then newLine (appendText p1 ''Defined via command-line flags'')
       else (let srcPath = path_of_string (cd_sourceFile d); rel = lexically_relative srcPath (he_cwd E);
                 display = (if rel \<noteq> [] \<and> hd rel \<noteq> dotdot then generic_string rel else cd_sourceFile d)
             in newLine (appendCode (appendText p1 ''From '') display))))"

definition getHover_macro :: "hover_env \<Rightarrow> doc_format \<Rightarrow> nat \<Rightarrow> (display_kind \<Rightarrow> string) \<Rightarrow> macro_definition \<Rightarrow> string
    \<Rightarrow> document result" where
  "getHover_macro E fmt docBuffer kind_name def expansion =
    result_bind (case def of
        DefinedIn s \<Rightarrow> appendSyntaxTargets E fmt [s] [renderMacroHeader E docBuffer kind_name def []]
      | OnCommandLine _ \<Rightarrow> Inr [renderMacroHeader E docBuffer kind_name def []])
     (\<lambda>doc. if expansion = [] then Inr doc
       else map_sum id (\<lambda>block. addParagraph doc (appendText (newLine (appendText [] ''Expands to '')) block))
         (svCodeBlockString (he_utf8 E) (he_ws E) expansion))"

definition getHover_system :: "shown_token \<Rightarrow> subroutine_doc \<Rightarrow> bool \<Rightarrow> document" where
  "getHover_system tok d isTask =
    (let p = appendCode (appendText (appendBold [] (if isTask then ''System task'' else ''System function'')) '' '')
           (stk_value tok);
         p1 = (if sd_ieeeSection d = [] then p
           else appendText (appendText (appendText p ('' (IEEE 1800 '' @ [CHR 0xC2, CHR 0xA7])) (sd_ieeeSection d)) '')'');
         doc = [p1, appendCodeBlock [] (sd_signature d)]
     in if sd_description d = [] then doc else addParagraph doc (appendText [] (sd_description d)))"

section \<open>Parameters with several values\<close>

definition const_int :: "hover_constant \<Rightarrow> int" where
  "const_int c = (case c of IntConstant _ _ v \<Rightarrow> v | _ \<Rightarrow> 0)"

text \<open>The next value of an integer of some width and sign, which wraps.\<close>

definition next_value :: "hover_constant \<Rightarrow> int" where
  "next_value c = (case c of IntConstant bits isSigned v \<Rightarrow>
     (if isSigned then (if v = 2 ^ (bits - 1) - 1 then - (2 ^ (bits - 1)) else v + 1)
      else (v + 1) mod 2 ^ bits) | _ \<Rightarrow> 0)"

record summary_state =
  su_parameters :: "symbol_target list"
  su_values :: "hover_constant list"
  su_min :: "hover_constant option"
  su_max :: "hover_constant option"
  su_genvar :: "symbol_target option"
  su_isGenvar :: bool
  su_location :: "source_location option"
  su_type :: "nat option"

definition summary_parameter :: "hover_env \<Rightarrow> symbol_target \<Rightarrow> bool \<Rightarrow> hover_constant \<Rightarrow> summary_state
    \<Rightarrow> summary_state option" where
  "summary_parameter E t fromGenvar c st =
    (let s = he_symbol E (st_symbol t); loc = he_originalLoc E (hs_location s);
         ty = (case hs_value s of Some v \<Rightarrow> vp_type v | None \<Rightarrow> 0);
         first = (su_parameters st = [])
     in if \<not> first \<and> (su_location st \<noteq> Some loc \<or> fromGenvar \<noteq> su_isGenvar st
          \<or> (case su_type st of Some t0 \<Rightarrow> \<not> he_matching E ty t0 | None \<Rightarrow> True)) then None
        else (case c of
          IntConstant _ _ v \<Rightarrow> Some (st\<lparr>
            su_location := (if first then Some loc else su_location st),
            su_type := (if first then Some ty else su_type st),
            su_isGenvar := (if first then su_isGenvar st \<or> fromGenvar else su_isGenvar st),
            su_min := (case su_min st of None \<Rightarrow> Some c | Some m \<Rightarrow> if v < const_int m then Some c else Some m),
            su_max := (case su_max st of None \<Rightarrow> Some c | Some m \<Rightarrow> if const_int m < v then Some c else Some m),
            su_values := (if c \<in> set (su_values st) then su_values st else su_values st @ [c]),
            su_parameters := su_parameters st @ [t]\<rparr>)
        | _ \<Rightarrow> None))"

fun summary_scan :: "hover_env \<Rightarrow> target list \<Rightarrow> summary_state \<Rightarrow> summary_state option" where
  "summary_scan E [] st = Some st"
| "summary_scan E (t # ts) st = (case t of
     SymbolTarget s \<Rightarrow> (case hs_class (he_symbol E (st_symbol s)) of
        GenvarClass \<Rightarrow> (if su_genvar st \<noteq> None \<or> su_parameters st \<noteq> [] then None
          else summary_scan E ts (st\<lparr>su_genvar := Some s, su_isGenvar := True\<rparr>))
      | ParameterClass fromGenvar c \<Rightarrow> (case summary_parameter E s fromGenvar c st of
          None \<Rightarrow> None | Some st' \<Rightarrow> summary_scan E ts st')
      | _ \<Rightarrow> None)
   | _ \<Rightarrow> None)"

definition empty_summary :: summary_state where
  "empty_summary = \<lparr>su_parameters = [], su_values = [], su_min = None, su_max = None, su_genvar = None,
     su_isGenvar = False, su_location = None, su_type = None\<rparr>"

fun contiguous :: "hover_constant list \<Rightarrow> bool" where
  "contiguous (a # b # cs) \<longleftrightarrow> next_value a = const_int b \<and> contiguous (b # cs)"
| "contiguous _ \<longleftrightarrow> True"

fun comma_codes :: "hover_env \<Rightarrow> bool \<Rightarrow> hover_constant list \<Rightarrow> para \<Rightarrow> para" where
  "comma_codes E first [] p = p"
| "comma_codes E first (c # cs) p =
     comma_codes E False cs (appendCode (if first then p else appendText p '', '') (show_constant E c))"

definition values_line :: "hover_env \<Rightarrow> summary_state \<Rightarrow> para \<Rightarrow> para" where
  "values_line E st p =
    (let isContiguous = contiguous (sort_key const_int (su_values st)) in
     case su_values st of
       [c] \<Rightarrow> appendCode (appendText p ''Value: '') (show_constant E c)
     | cs \<Rightarrow>
        (if isContiguous then appendCode (appendText (appendCode (appendText p ''Value range: '')
             (show_constant E (the (su_min st)))) '' through '') (show_constant E (the (su_max st)))
         else comma_codes E True cs (appendText p ''Values: '')))"

definition renderElaboratedParameterSummary :: "hover_env \<Rightarrow> doc_format \<Rightarrow> target list \<Rightarrow> string option result" where
  "renderElaboratedParameterSummary E fmt targets =
    (if length targets < 2 then Inr None
     else (case summary_scan E targets empty_summary of
       None \<Rightarrow> Inr None
     | Some st \<Rightarrow> (case su_parameters st of
         [] \<Rightarrow> Inr None
       | t # _ \<Rightarrow> if length (su_values st) < 2 \<and> su_genvar st = None then Inr None
          else (let shownTarget = (case su_genvar st of Some g \<Rightarrow> g | None \<Rightarrow> t);
                    kindOverride = (if su_genvar st = None \<and> su_isGenvar st then ''Genvar'' else []) in
            result_bind (renderSymbolHeader E (he_symbol E (st_symbol shownTarget)) kindOverride []) (\<lambda>p1.
            result_bind (renderSymbolType E (he_symbol E (st_symbol t)) p1) (\<lambda>p2.
            result_bind (appendSyntaxTargets E fmt (concat (map st_syntaxes (su_parameters st)))
                [newLine (values_line E st p2)]) (\<lambda>doc.
              Inr (Some (document_build doc)))))))))"

text \<open>The values of the declarations of one parameter, each once.\<close>

fun parameter_targets :: "hover_env \<Rightarrow> target list \<Rightarrow> (symbol_target \<times> hover_constant) list option" where
  "parameter_targets E [] = Some []"
| "parameter_targets E (t # ts) = (case t of
     SymbolTarget s \<Rightarrow> (case hs_class (he_symbol E (st_symbol s)) of
        ParameterClass _ c \<Rightarrow> map_option (Cons (s, c)) (parameter_targets E ts) | _ \<Rightarrow> None)
   | _ \<Rightarrow> None)"

fun same_syntaxes :: "syntax_target list \<Rightarrow> syntax_target list \<Rightarrow> bool" where
  "same_syntaxes [] [] = True"
| "same_syntaxes (a # xs) (b # ys) = (same_syntax a b \<and> same_syntaxes xs ys)"
| "same_syntaxes _ _ = False"

fun render_values :: "hover_env \<Rightarrow> doc_format \<Rightarrow> para \<Rightarrow> (symbol_target \<times> hover_constant) list
    \<Rightarrow> hover_constant list \<Rightarrow> document \<Rightarrow> document option run" where
  "render_values E fmt sharedType [] rendered doc = Some (Inr (Some doc))"
| "render_values E fmt sharedType ((t, c) # ts) rendered doc =
     (if c = BadConstant then Some (Inr None)
      else if list_ex (\<lambda>r. he_sameConstant E r c) rendered then render_values E fmt sharedType ts rendered doc
      else run_bind (renderSymbolHover E fmt t [] True) (\<lambda>h.
        render_values E fmt sharedType ts (rendered @ [c])
          (appendTo (if rendered \<noteq> [] \<and> rh_type h = sharedType then h\<lparr>rh_type := []\<rparr> else h) doc)))"

definition renderElaboratedParameterValues :: "hover_env \<Rightarrow> doc_format \<Rightarrow> target list \<Rightarrow> string option run" where
  "renderElaboratedParameterValues E fmt targets =
    (if length targets < 2 then Some (Inr None)
     else (case parameter_targets E targets of
       None \<Rightarrow> Some (Inr None)
     | Some ps \<Rightarrow> (case ps of [] \<Rightarrow> Some (Inr None)
        | (t0, _) # others \<Rightarrow>
           if \<not> list_all (\<lambda>(t, _). same_syntaxes (st_syntaxes t) (st_syntaxes t0)) others then Some (Inr None)
           else run_bind (Some (renderSymbolType E (he_symbol E (st_symbol t0)) [])) (\<lambda>sharedType.
             run_bind (render_values E fmt sharedType ps [] []) (\<lambda>doc.
               Some (Inr (map_option document_build doc)))))))"

section \<open>The hover of a definition\<close>

definition hover_of_target :: "hover_env \<Rightarrow> doc_format \<Rightarrow> nat \<Rightarrow> (display_kind \<Rightarrow> string) \<Rightarrow> target \<Rightarrow> document run" where
  "hover_of_target E fmt docBuffer kind_name t = (case t of
     SymbolTarget s \<Rightarrow> getHover_symbol E fmt s
   | PortConnectionTarget outer inner \<Rightarrow> getHover_port E fmt outer inner
   | MacroTarget def expansion \<Rightarrow> Some (getHover_macro E fmt docBuffer kind_name def expansion)
   | SystemSubroutineTarget tok d isTask \<Rightarrow> Some (Inr (getHover_system tok d isTask)))"

fun render_targets :: "hover_env \<Rightarrow> doc_format \<Rightarrow> nat \<Rightarrow> (display_kind \<Rightarrow> string) \<Rightarrow> target list
    \<Rightarrow> (source_location \<times> document) list \<Rightarrow> (source_location \<times> document) list run" where
  "render_targets E fmt docBuffer kind_name [] rendered = Some (Inr rendered)"
| "render_targets E fmt docBuffer kind_name (t # ts) rendered =
     run_bind (Some (nameToken t)) (\<lambda>tok.
     run_bind (hover_of_target E fmt docBuffer kind_name t) (\<lambda>doc.
       render_targets E fmt docBuffer kind_name ts (add_new (stk_loc tok, doc) rendered)))"

definition getHover :: "hover_env \<Rightarrow> doc_format \<Rightarrow> nat \<Rightarrow> (display_kind \<Rightarrow> string) \<Rightarrow> target list \<Rightarrow> string run" where
  "getHover E fmt docBuffer kind_name targets =
    run_bind (Some (renderElaboratedParameterSummary E fmt targets)) (\<lambda>summary. case summary of
      Some txt \<Rightarrow> Some (Inr txt)
    | None \<Rightarrow> run_bind (renderElaboratedParameterValues E fmt targets) (\<lambda>vals. case vals of
        Some txt \<Rightarrow> Some (Inr txt)
      | None \<Rightarrow> run_bind (render_targets E fmt docBuffer kind_name targets []) (\<lambda>rendered.
          Some (Inr (document_build (foldl document_append [] (map snd rendered)))))))"

end
