(* ===== verification/HoverRuns.thy ===== *)
theory HoverRuns
  imports HoverText "HOL-Library.Multiset"
begin

text \<open>
  What definitions and hovers promise: a client gets every place of a definition once, the summary of a
  parameter states exactly the values it has, each driver of a signal is described in one group, and a
  hover always ends although types may contain themselves.
\<close>

section \<open>Links\<close>

definition link_key :: "location_link \<Rightarrow> string \<times> lsp_range" where
  "link_key l = (underlying (ll_uri l), ll_selection l)"

lemma same_link_key: "same_link a b \<longleftrightarrow> link_key a = link_key b"
  by (auto simp: same_link_def link_key_def uri_eq_def)

text \<open>The first of each key.\<close>

definition firsts :: "'a list \<Rightarrow> 'a list" where
  "firsts xs = rev (remdups (rev xs))"

lemma firsts_simps [simp]: "firsts [] = []" "set (firsts xs) = set xs" "distinct (firsts xs)"
  by (simp_all add: firsts_def)

lemma firsts_snoc: "firsts (xs @ [x]) = (if x \<in> set xs then firsts xs else firsts xs @ [x])"
  by (simp add: firsts_def)

lemma add_link_keys: "map link_key (add_link l links) = (if link_key l \<in> link_key ` set links
     then map link_key links else map link_key links @ [link_key l])"
  by (auto simp: add_link_def same_link_key list_ex_iff image_iff) metis

lemma add_links_keys:
  "map link_key links = firsts ks \<Longrightarrow> map link_key (fold add_link ls links) = firsts (ks @ map link_key ls)"
proof (induction ls arbitrary: links ks)
  case (Cons l ls)
  have "link_key ` set links = set ks" using Cons.prems firsts_simps(2) by (metis set_map)
  then have "map link_key (add_link l links) = firsts (ks @ [link_key l])"
    using Cons.prems by (simp add: add_link_keys firsts_snoc)
  then show ?case using Cons.IH by fastforce
qed simp

text \<open>The links of a target before any is left out.\<close>

definition raw_links :: "hover_env \<Rightarrow> target \<Rightarrow> location_link list" where
  "raw_links E t = (case t of
     SymbolTarget s \<Rightarrow> concat (map (getDefinition_syntax E) (st_syntaxes s))
   | PortConnectionTarget outer inner \<Rightarrow> concat (map (getDefinition_syntax E) (st_syntaxes outer @ st_syntaxes inner))
   | MacroTarget (DefinedIn s) _ \<Rightarrow> getDefinition_syntax E s
   | MacroTarget (OnCommandLine d) _ \<Rightarrow> getDefinition_define E d
   | SystemSubroutineTarget _ _ _ \<Rightarrow> [])"

lemma firsts_append_firsts: "firsts (ks @ firsts ls) = firsts (ks @ ls)"
proof (induction ls rule: rev_induct)
  case (snoc l ls)
  have s: "firsts (ks @ ls @ [l]) = (if l \<in> set ks \<union> set ls then firsts (ks @ ls) else firsts (ks @ ls) @ [l])"
    using firsts_snoc [of "ks @ ls" l] by simp
  show ?case
  proof (cases "l \<in> set ls")
    case True
    then show ?thesis using snoc s by (simp add: firsts_snoc)
  next
    case False
    then show ?thesis using snoc s firsts_snoc [of "ks @ firsts ls" l] by (simp add: firsts_snoc)
  qed
qed (simp add: firsts_def)

lemma symbol_links: "map link_key (getDefinition_symbol E t) =
    firsts (map link_key (concat (map (getDefinition_syntax E) (st_syntaxes t))))"
proof -
  have "fold (\<lambda>s. fold add_link (getDefinition_syntax E s)) ss links
      = fold add_link (concat (map (getDefinition_syntax E) ss)) links" for ss links
    by (induction ss arbitrary: links) simp_all
  then show ?thesis using add_links_keys [of "[]" "[]"] by (simp add: getDefinition_symbol_def)
qed

lemma definition_links: "firsts (ks @ map link_key (getDefinition E t)) = firsts (ks @ map link_key (raw_links E t))"
proof (cases t)
  case (PortConnectionTarget outer inner)
  have "map link_key (getDefinition E t) = firsts (map link_key (raw_links E t))"
    using PortConnectionTarget add_links_keys [OF symbol_links, of "getDefinition_symbol E inner" E outer]
      firsts_append_firsts by (simp add: getDefinition_def getDefinition_port_def raw_links_def symbol_links)
  then show ?thesis using firsts_append_firsts by metis
qed (auto simp: getDefinition_def raw_links_def symbol_links firsts_append_firsts split: macro_definition.split)

lemma links_keys: "map link_key links = firsts ks \<Longrightarrow>
    map link_key (fold (\<lambda>t. fold add_link (getDefinition E t)) ts links)
      = firsts (ks @ map link_key (concat (map (raw_links E) ts)))"
proof (induction ts arbitrary: links ks)
  case (Cons t ts)
  have "map link_key (fold add_link (getDefinition E t) links) = firsts (ks @ map link_key (raw_links E t))"
    using add_links_keys [OF Cons.prems] definition_links by metis
  from Cons.IH [OF this] show ?case by simp
qed simp

section \<open>Values of a parameter\<close>

text \<open>The constants of the parameters among the targets.\<close>

definition target_constants :: "hover_env \<Rightarrow> target \<Rightarrow> hover_constant list" where
  "target_constants E t = (case t of
     SymbolTarget s \<Rightarrow> (case hs_class (he_symbol E (st_symbol s)) of ParameterClass _ c \<Rightarrow> [c] | _ \<Rightarrow> [])
   | _ \<Rightarrow> [])"

abbreviation constants :: "hover_env \<Rightarrow> target list \<Rightarrow> hover_constant list" where
  "constants E ts \<equiv> concat (map (target_constants E) ts)"

text \<open>Constants of one integral type, inside its range.\<close>

definition in_range :: "nat \<Rightarrow> bool \<Rightarrow> int \<Rightarrow> bool" where
  "in_range bits isSigned v \<longleftrightarrow>
     (if isSigned then - (2 ^ (bits - 1)) \<le> v \<and> v < 2 ^ (bits - 1) else 0 \<le> v \<and> v < 2 ^ bits)"

definition typed_constants :: "hover_constant list \<Rightarrow> bool" where
  "typed_constants cs \<longleftrightarrow> (\<exists>bits isSigned. \<forall>c \<in> set cs. \<exists>v. c = IntConstant bits isSigned v \<and> in_range bits isSigned v)"

definition scanned :: "summary_state \<Rightarrow> hover_constant list \<Rightarrow> bool" where
  "scanned st cs \<longleftrightarrow> su_values st = firsts cs
     \<and> (if cs = [] then su_min st = None \<and> su_max st = None
        else (\<exists>m M. su_min st = Some m \<and> su_max st = Some M \<and> m \<in> set cs \<and> M \<in> set cs
          \<and> (\<forall>c \<in> set cs. const_int m \<le> const_int c \<and> const_int c \<le> const_int M)))"

lemma scanned_parameter:
  assumes "summary_parameter E t g c st = Some st'" "scanned st cs"
  shows "scanned st' (cs @ [c])"
proof -
  obtain b sg v where c: "c = IntConstant b sg v"
    using assms(1) by (auto simp: summary_parameter_def Let_def split: if_splits hover_constant.splits)
  have "su_values st' = firsts (cs @ [c])"
    using assms by (auto simp: summary_parameter_def Let_def c scanned_def firsts_snoc split: if_splits option.splits)
  moreover have "\<exists>m M. su_min st' = Some m \<and> su_max st' = Some M \<and> m \<in> set (cs @ [c]) \<and> M \<in> set (cs @ [c])
      \<and> (\<forall>k \<in> set (cs @ [c]). const_int m \<le> const_int k \<and> const_int k \<le> const_int M)"
  proof (cases "cs = []")
    case True
    then show ?thesis using assms
      by (auto simp: summary_parameter_def Let_def c scanned_def const_int_def split: if_splits option.splits)
  next
    case False
    then obtain m M where mm: "su_min st = Some m" "su_max st = Some M" "m \<in> set cs" "M \<in> set cs"
      "\<forall>k \<in> set cs. const_int m \<le> const_int k \<and> const_int k \<le> const_int M"
      using assms(2) by (auto simp: scanned_def)
    have v: "const_int c = v" by (simp add: c const_int_def)
    have "su_min st' = Some (if const_int c < const_int m then c else m)"
      "su_max st' = Some (if const_int M < const_int c then c else M)"
      using assms(1) mm(1,2) v by (auto simp: summary_parameter_def Let_def c split: if_splits option.splits)
    then show ?thesis using mm(3-) by fastforce
  qed
  ultimately show ?thesis by (auto simp: scanned_def)
qed

lemma scanned_scan: "summary_scan E ts st = Some st' \<Longrightarrow> scanned st cs \<Longrightarrow> scanned st' (cs @ constants E ts)"
proof (induction ts arbitrary: st cs)
  case (Cons t ts)
  obtain s where t: "t = SymbolTarget s" using Cons.prems(1) by (cases t) auto
  show ?case
  proof (cases "hs_class (he_symbol E (st_symbol s))")
    case (ParameterClass g c)
    then obtain st1 where "summary_parameter E s g c st = Some st1" "summary_scan E ts st1 = Some st'"
      using Cons.prems(1) t by (auto split: option.splits)
    then show ?thesis using Cons.IH [of st1 "cs @ [c]"] scanned_parameter [of E s g c st st1 cs] Cons.prems(2) t ParameterClass
      by (simp add: target_constants_def)
  next
    case GenvarClass
    then obtain st1 where "summary_scan E ts st1 = Some st'" "scanned st1 cs"
      using Cons.prems t by (auto simp: scanned_def split: if_splits)
    then show ?thesis using Cons.IH t GenvarClass by (simp add: target_constants_def)
  qed (use Cons.prems(1) t in auto)
qed simp

lemma next_value_plus:
  assumes "a = IntConstant bits isSigned v" "in_range bits isSigned v" "in_range bits isSigned w" "v < w"
  shows "next_value a = v + 1"
proof (cases isSigned)
  case False
  then have "0 \<le> v + 1" "v + 1 < 2 ^ bits" using assms(2-4) by (simp_all add: in_range_def)
  then show ?thesis using False assms(1) by (simp add: next_value_def mod_pos_pos_trivial)
qed (use assms in \<open>simp add: next_value_def in_range_def\<close>)

text \<open>A strictly increasing list of typed constants is contiguous when it has every value between its ends.\<close>

lemma contiguous_interval:
  assumes "typed_constants xs" "xs \<noteq> []" "sorted_wrt (\<lambda>a b. const_int a < const_int b) xs"
  shows "contiguous xs \<longleftrightarrow> const_int ` set xs = {const_int (hd xs) .. const_int (last xs)}"
  using assms
proof (induction xs rule: contiguous.induct)
  case (1 a b cs)
  let ?l = "const_int (last (b # cs))"
  have lb: "const_int b \<le> ?l" using 1(4) by (cases cs rule: rev_cases) auto
  have ab: "const_int a < const_int b" using 1(4) by simp
  have later: "const_int k \<ge> const_int b" if "k \<in> set (b # cs)" for k using that 1(4) by auto
  obtain bits sg where t: "\<forall>c \<in> set (a # b # cs). \<exists>v. c = IntConstant bits sg v \<and> in_range bits sg v"
    using 1(2) unfolding typed_constants_def by blast
  obtain v w where vw: "a = IntConstant bits sg v" "in_range bits sg v" "b = IntConstant bits sg w" "in_range bits sg w"
    using t by fastforce
  have nx: "next_value a = const_int a + 1"
    using next_value_plus [OF vw(1,2,4)] ab vw(1,3) by (simp add: const_int_def)
  have typed': "typed_constants (b # cs)" using t unfolding typed_constants_def by (metis list.set_intros(2))
  have sorted': "sorted_wrt (\<lambda>a b. const_int a < const_int b) (b # cs)" using 1(4) by simp
  have ih: "contiguous (b # cs) \<longleftrightarrow> const_int ` set (b # cs) = {const_int b .. ?l}"
    using 1(1) [OF typed' _ sorted'] by (simp only: list.sel list.distinct not_False_eq_True)
  have notin: "const_int a \<notin> const_int ` set (b # cs)" using later ab by fastforce
  show ?case
  proof
    assume "contiguous (a # b # cs)"
    then have "const_int b = const_int a + 1" "const_int ` set (b # cs) = {const_int b .. ?l}" using nx ih by simp_all
    moreover have "{const_int a .. ?l} = insert (const_int a) {const_int a + 1 .. ?l}" using ab lb by auto
    ultimately show "const_int ` set (a # b # cs) = {const_int (hd (a # b # cs)) .. const_int (last (a # b # cs))}" by simp
  next
    assume "const_int ` set (a # b # cs) = {const_int (hd (a # b # cs)) .. const_int (last (a # b # cs))}"
    then have all: "insert (const_int a) (const_int ` set (b # cs)) = {const_int a .. ?l}" by simp
    have "const_int a + 1 \<in> {const_int a .. ?l}" using ab lb by simp
    then have "const_int a + 1 \<in> const_int ` set (b # cs)" using all by (metis insert_iff less_irrefl zless_add1_eq)
    then have b: "const_int b = const_int a + 1" using later ab by fastforce
    have "const_int ` set (b # cs) = {const_int a .. ?l} - {const_int a}"
      using Diff_insert_absorb [OF notin] unfolding all [symmetric] by (rule sym)
    also have "\<dots> = {const_int b .. ?l}" using b by auto
    finally show "contiguous (a # b # cs)" using ih b nx by simp
  qed
qed (auto simp: typed_constants_def)

lemma typed_inj: "typed_constants cs \<Longrightarrow> inj_on const_int (set cs)"
proof (rule inj_onI)
  fix a b
  assume "typed_constants cs" "a \<in> set cs" "b \<in> set cs" and eq: "const_int a = const_int b"
  then obtain bits sg v w where "a = IntConstant bits sg v" "b = IntConstant bits sg w"
    unfolding typed_constants_def by meson
  then show "a = b" using eq by (simp add: const_int_def)
qed

lemma sorted_values:
  assumes "typed_constants cs" "distinct cs"
  shows "sorted_wrt (\<lambda>a b. const_int a < const_int b) (sort_key const_int cs)"
proof -
  have "distinct (map const_int (sort_key const_int cs))"
    using typed_inj [OF assms(1)] assms(2) by (simp add: distinct_map)
  then have "sorted_wrt (<) (map const_int (sort_key const_int cs))"
    by (simp add: strict_sorted_iff)
  then show ?thesis by (simp add: sorted_wrt_map)
qed

lemma contiguous_values:
  assumes "typed_constants cs" "cs \<noteq> []" "m \<in> set cs" "M \<in> set cs"
    "\<forall>k \<in> set cs. const_int m \<le> const_int k \<and> const_int k \<le> const_int M"
  shows "contiguous (sort_key const_int (firsts cs)) \<longleftrightarrow> const_int ` set cs = {const_int m .. const_int M}"
proof -
  let ?xs = "sort_key const_int (firsts cs)"
  have set: "set ?xs = set cs" by simp
  have ne: "?xs \<noteq> []" using assms(2) set by (metis set_empty)
  have typed: "typed_constants (firsts cs)" "typed_constants ?xs" using assms(1) by (simp_all add: typed_constants_def)
  have sorted: "sorted_wrt (\<lambda>a b. const_int a < const_int b) ?xs" using sorted_values [OF typed(1)] by simp
  have ends: "k \<in> set xs \<Longrightarrow> sorted_wrt (\<lambda>a b. const_int a < const_int b) xs \<Longrightarrow>
      const_int (hd xs) \<le> const_int k \<and> const_int k \<le> const_int (last xs)" for k xs
    by (induction xs) (auto simp: less_imp_le)
  have "const_int (hd ?xs) \<le> const_int m" "const_int M \<le> const_int (last ?xs)"
    using ends [OF _ sorted] assms(3,4) set by blast+
  moreover have "hd ?xs \<in> set cs" "last ?xs \<in> set cs" using set ne hd_in_set last_in_set by metis+
  ultimately have "const_int (hd ?xs) = const_int m" "const_int (last ?xs) = const_int M"
    using assms(5) by (metis order_antisym)+
  then show ?thesis using contiguous_interval [OF typed(2) ne sorted] set by simp
qed

lemma firsts_single: "set cs \<subseteq> {c} \<Longrightarrow> cs \<noteq> [] \<Longrightarrow> firsts cs = [c]"
proof (induction cs rule: rev_induct)
  case (snoc d ds)
  show ?case
  proof (cases "ds = []")
    case False
    then have "set ds = {c}" using snoc.prems(1) by (metis Un_subset_iff set_append set_empty subset_singleton_iff)
    then show ?thesis using snoc False by (simp add: firsts_snoc)
  qed (use snoc in \<open>simp add: firsts_def\<close>)
qed simp

lemma values_line_cases:
  "values_line E st p = (if (\<exists>c. su_values st = [c]) then appendCode (appendText p ''Value: '') (show_constant E (hd (su_values st)))
     else if contiguous (sort_key const_int (su_values st)) then appendCode (appendText (appendCode (appendText p ''Value range: '')
       (show_constant E (the (su_min st)))) '' through '') (show_constant E (the (su_max st)))
     else comma_codes E True (su_values st) (appendText p ''Values: ''))"
  by (cases "su_values st" rule: contiguous.cases) (simp_all add: values_line_def)

text \<open>C30. The summary of a parameter states exactly its values: the value if there is one, a range when
  the values are all the integers between the least and the greatest, and otherwise each value once, in
  the order they were found.\<close>

theorem summary_values_exact:
  assumes "summary_scan E targets empty_summary = Some st" "constants E targets = c # cs"
    and "typed_constants (c # cs)"
  shows "\<exists>m M. {m, M} \<subseteq> set (c # cs)
    \<and> (\<forall>k \<in> set (c # cs). const_int m \<le> const_int k \<and> const_int k \<le> const_int M)
    \<and> values_line E st p =
      (if set cs \<subseteq> {c} then appendCode (p @ ''Value: '') (show_constant E c)
       else if const_int ` set (c # cs) = {const_int m .. const_int M}
         then appendCode (appendCode (p @ ''Value range: '') (show_constant E m) @ '' through '') (show_constant E M)
       else comma_codes E True (firsts (c # cs)) (p @ ''Values: ''))"
proof -
  have "scanned empty_summary []" by (simp add: scanned_def empty_summary_def)
  from scanned_scan [OF assms(1) this] have sc: "scanned st (c # cs)" using assms(2) by simp
  then have vals: "su_values st = firsts (c # cs)" by (simp add: scanned_def)
  obtain m M where mm: "su_min st = Some m" "su_max st = Some M" "m \<in> set (c # cs)" "M \<in> set (c # cs)"
    "\<forall>k \<in> set (c # cs). const_int m \<le> const_int k \<and> const_int k \<le> const_int M"
    using sc unfolding scanned_def by (metis list.distinct(1))
  have one: "(\<exists>d. firsts (c # cs) = [d]) \<longleftrightarrow> set cs \<subseteq> {c}"
  proof
    assume "\<exists>d. firsts (c # cs) = [d]"
    then obtain d where "firsts (c # cs) = [d]" ..
    then have "set (c # cs) = {d}" using firsts_simps(2) [of "c # cs"] by simp
    then show "set cs \<subseteq> {c}" by auto
  qed (use firsts_single [of "c # cs" c] in auto)
  have "values_line E st p =
      (if set cs \<subseteq> {c} then appendCode (p @ ''Value: '') (show_constant E c)
       else if const_int ` set (c # cs) = {const_int m .. const_int M}
         then appendCode (appendCode (p @ ''Value range: '') (show_constant E m) @ '' through '') (show_constant E M)
       else comma_codes E True (firsts (c # cs)) (p @ ''Values: ''))"
    using firsts_single [of "c # cs" c] contiguous_values [OF assms(3) _ mm(3-5)] mm(1,2)
    unfolding values_line_cases vals one by (simp add: appendText_def)
  with mm(3-5) show ?thesis by blast
qed

section \<open>Groups of drivers\<close>

definition visible_drivers :: "bool \<Rightarrow> value_driver option list \<Rightarrow> value_driver list" where
  "visible_drivers inp ds = [d. Some d \<leftarrow> ds, vd_inputPort d \<longrightarrow> inp]"

definition grouped :: "hover_env \<Rightarrow> driver_group list \<Rightarrow> value_driver list \<Rightarrow> bool" where
  "grouped E gs ds \<longleftrightarrow> mset (concat (map dg_drivers gs)) = mset ds
     \<and> (\<forall>g \<in> set gs. dg_drivers g \<noteq> [] \<and> (\<forall>d \<in> set (dg_drivers g). same_container E (vd_container d) (dg_container g)))
     \<and> sorted_wrt (\<lambda>g h. \<not> same_container E (dg_container h) (dg_container g)) gs"

lemma into_group_drivers:
  "(\<And>g. dg_drivers (f g) = dg_drivers g @ [d]) \<Longrightarrow> dg_drivers new = [] \<Longrightarrow>
    mset (concat (map dg_drivers (into_group P new f gs))) = add_mset d (mset (concat (map dg_drivers gs)))"
  by (induction gs) auto

lemma into_group_containers:
  "(\<And>g. dg_container (f g) = dg_container g) \<Longrightarrow>
    map dg_container (into_group P new f gs) = map dg_container gs @ (if \<exists>g \<in> set gs. P g then [] else [dg_container new])"
  by (induction gs) auto

lemma into_group_member:
  "g \<in> set (into_group P new f gs) \<Longrightarrow> g \<in> set gs \<or> (\<exists>h \<in> set gs. P h \<and> g = f h) \<or> g = f new"
  by (induction gs) (auto split: if_splits)

lemma same_container_refl [simp]: "same_container E c c"
  by (simp add: same_container_def)

lemma containers_apart: "sorted_wrt (\<lambda>g h. \<not> same_container E (dg_container h) (dg_container g)) gs
    \<longleftrightarrow> sorted_wrt (\<lambda>a b. \<not> same_container E b a) (map dg_container gs)"
  by (simp add: sorted_wrt_map)

lemma grouped_driver:
  assumes "grouped E gs ds"
  shows "grouped E (into_group (\<lambda>g. same_container E (vd_container d) (dg_container g))
     \<lparr>dg_container = vd_container d, dg_drivers = [], dg_targets = []\<rparr> (with_driver d t) gs) (ds @ [d])"
proof -
  let ?P = "\<lambda>g. same_container E (vd_container d) (dg_container g)"
  let ?new = "\<lparr>dg_container = vd_container d, dg_drivers = [], dg_targets = []\<rparr>"
  let ?gs = "into_group ?P ?new (with_driver d t) gs"
  have f: "dg_drivers (with_driver d t g) = dg_drivers g @ [d]" "dg_container (with_driver d t g) = dg_container g" for g
    by (simp_all add: with_driver_def)
  have "mset (concat (map dg_drivers ?gs)) = mset (ds @ [d])"
    using into_group_drivers [of "with_driver d t" d ?new ?P gs] f(1) assms by (simp add: grouped_def)
  moreover have "dg_drivers g \<noteq> [] \<and> (\<forall>k \<in> set (dg_drivers g). same_container E (vd_container k) (dg_container g))"
    if "g \<in> set ?gs" for g
    using into_group_member [OF that] assms f by (fastforce simp: grouped_def)
  moreover have "sorted_wrt (\<lambda>a b. \<not> same_container E b a) (map dg_container ?gs)"
    using assms containers_apart [of E gs] into_group_containers [of "with_driver d t" ?P ?new gs] f(2)
    by (auto simp: grouped_def sorted_wrt_append)
  ultimately show ?thesis unfolding grouped_def containers_apart by blast
qed

lemma grouped_drivers:
  "add_drivers E inp follow ds st = Inr st' \<Longrightarrow> grouped E (fst st) done' \<Longrightarrow>
    grouped E (fst st') (done' @ visible_drivers inp ds)"
proof (induction ds arbitrary: st done')
  case (Cons x ds)
  obtain st1 where st1: "add_driver E inp follow x st = Inr st1" "add_drivers E inp follow ds st1 = Inr st'"
    using Cons.prems(1) by (auto simp: result_bind_def split: sum.splits)
  show ?case
  proof (cases "\<exists>d. x = Some d \<and> (vd_inputPort d \<longrightarrow> inp)")
    case True
    then obtain d where d: "x = Some d" "vd_inputPort d \<longrightarrow> inp" by blast
    then obtain t where "fst st1 = into_group (\<lambda>g. same_container E (vd_container d) (dg_container g))
        \<lparr>dg_container = vd_container d, dg_drivers = [], dg_targets = []\<rparr> (with_driver d t) (fst st)"
      using st1(1) by (auto simp: add_driver_def result_bind_def split: sum.splits)
    then have "grouped E (fst st1) (done' @ [d])" using grouped_driver Cons.prems(2) by simp
    from Cons.IH [OF st1(2) this] show ?thesis using d by (simp add: visible_drivers_def)
  next
    case False
    then have "st1 = st" "visible_drivers inp (x # ds) = visible_drivers inp ds"
      using st1(1) by (auto simp: add_driver_def visible_drivers_def split: option.splits if_splits)
    then show ?thesis using Cons st1(2) by simp
  qed
qed (simp add: visible_drivers_def)

section \<open>Hovers end\<close>

lemma bind_simps [simp]:
  "result_bind (Inr x) f = f x" "result_bind (Inl e) f = Inl e"
  "run_bind (Some (Inr y)) g = g y" "run_bind (Some (Inl e)) g = Some (Inl e)"
  by (simp_all add: result_bind_def run_bind_def)

definition root_of :: "place \<Rightarrow> snode" where
  "root_of pl = last (fst pl # snd pl)"

text \<open>The root of a tree is a compilation unit or a library map, never a declarator.\<close>

definition place_ok :: "place \<Rightarrow> bool" where
  "place_ok pl \<longleftrightarrow> sn_kind (root_of pl) \<notin> declarator_kinds"

lemma under_typedef_root: "root_of (under_typedef pl) = root_of pl"
  by (cases pl) (auto simp: under_typedef_def root_of_def split: list.splits)

lemma select_total:
  assumes "place_ok pl"
  shows "\<exists>q. selectDisplayNode header pl = Inr q \<and> place_ok q"
proof -
  obtain n up where pl: "pl = (n, up)" by (cases pl)
  have up: "up \<noteq> []" if "sn_kind n \<in> declarator_kinds"
    using assms that by (auto simp: pl place_ok_def root_of_def)
  have root: "place_ok (under_typedef q)" if "root_of q = root_of pl" for q
    using that assms by (simp add: place_ok_def under_typedef_root)
  have header: "root_of (header_of header pl) = root_of pl" by (simp add: header_of_def root_of_def pl)
  consider (here) "sn_kind n = DefineDirective"
    | (module_like) "sn_kind n \<in> module_kinds"
    | (declarator) "sn_kind n \<in> declarator_kinds"
    | (other) "sn_kind n \<noteq> DefineDirective" "sn_kind n \<notin> module_kinds" "sn_kind n \<notin> declarator_kinds" by blast
  then show ?thesis
  proof cases
    case here
    then show ?thesis using assms pl by (intro exI [of _ pl]) (simp add: selectDisplayNode_def)
  next
    case module_like
    then show ?thesis using root [OF header] pl
      by (intro exI [of _ "under_typedef (header_of header pl)"]) (auto simp: selectDisplayNode_def)
  next
    case declarator
    then obtain p ps where "up = p # ps" using up by (cases up) auto
    moreover from this have "place_ok (under_typedef (p, ps))" using root [of "(p, ps)"] by (simp add: root_of_def pl)
    ultimately show ?thesis using declarator pl
      by (intro exI [of _ "under_typedef (p, ps)"]) (auto simp: selectDisplayNode_def)
  next
    case other
    then show ?thesis using root [of pl] pl by (intro exI [of _ "under_typedef pl"]) (simp add: selectDisplayNode_def)
  qed
qed

lemma enclosing_root: "enclosing K n up = Some q \<Longrightarrow> root_of q = root_of (n, up)"
proof (induction up arbitrary: n)
  case Nil
  then show ?case by (auto simp: enclosing.simps [of K n "[]"] split: if_splits)
next
  case (Cons p up)
  show ?case
  proof (cases "sn_kind n \<in> K")
    case True
    then show ?thesis using Cons.prems by (simp add: enclosing.simps [of K n])
  next
    case False
    then have "enclosing K p up = Some q" using Cons.prems by (simp add: enclosing.simps [of K n])
    from Cons.IH [OF this] show ?thesis by (simp add: root_of_def)
  qed
qed

lemma find_syntax_root:
  "findSyntaxAt E loc up n = Some q \<Longrightarrow> root_of q = root_of (n, up)"
  "up \<noteq> [] \<Longrightarrow> find_in_children E loc up cs = Some q \<Longrightarrow> root_of q = last up"
  "up \<noteq> [] \<Longrightarrow> find_in_child E loc up c = Some q \<Longrightarrow> root_of q = last up"
proof (induction E loc up n and E loc up cs and E loc up c rule: findSyntaxAt_find_in_children_find_in_child.induct)
  case (1 E loc up i k m rg cs)
  then show ?case by (fastforce simp: root_of_def split: if_splits option.splits)
next
  case (4 E loc up n)
  then show ?case by (simp add: root_of_def)
qed (auto split: option.splits)

text \<open>What slang gives is well formed: finitely many structs and unions, and syntax in whole trees.\<close>

definition hover_ok :: "hover_env \<Rightarrow> bool" where
  "hover_ok E \<longleftrightarrow> he_ws E nl \<and> finite {r. ht_record (he_type E r)}
     \<and> (\<forall>s pl. hs_syntax (he_symbol E s) = Some pl \<longrightarrow> place_ok pl)
     \<and> (\<forall>a s d pl. Some d \<in> set (he_drivers E a s) \<longrightarrow> vd_expression d = Some pl \<longrightarrow> place_ok pl)"

lemma hover_okD:
  assumes "hover_ok E"
  shows "he_ws E nl" "finite {r. ht_record (he_type E r)}" "hs_syntax (he_symbol E s) = Some pl \<Longrightarrow> place_ok pl"
    "Some d \<in> set (he_drivers E a s) \<Longrightarrow> vd_expression d = Some pl \<Longrightarrow> place_ok pl"
  using assms unfolding hover_ok_def by blast+

lemma note_total: "he_ws E nl \<Longrightarrow> \<exists>acc'. note_subtype E f acc = Inr acc'"
proof (cases "hf_member f")
  case (Some x)
  assume "he_ws E nl"
  then obtain t where "detailFormat (he_ws E) (fst x) = Inr t" using detail_total by blast
  then show ?thesis using Some by (cases x) (simp add: note_subtype_def Let_def)
qed (simp add: note_subtype_def Let_def)

lemma entered_record: "entered E t active = Some r \<Longrightarrow> ht_record (he_type E r) \<and> r \<notin> set active"
  by (auto simp: entered_def Let_def split: if_splits)

lemma collect_returns:
  assumes "he_ws E nl" "finite R" "R = {r. ht_record (he_type E r)}"
  shows "\<exists>x. collect_fields E fs active acc found = Some (Inr x)"
proof (induction "card (R - set active)" arbitrary: fs active acc found rule: less_induct)
  case less
  have smaller: "card (R - set (r # active)) < card (R - set active)" if "entered E t active = Some r" for t r
  proof (rule psubset_card_mono)
    show "finite (R - set active)" using assms(2) by simp
    show "R - set (r # active) \<subset> R - set active" using entered_record [OF that] assms(3) by auto
  qed
  show ?case
  proof (induction fs arbitrary: acc found)
    case (Cons f fs)
    obtain n where noted: "note_subtype E f a = Inr (n a)" for a using note_total [OF assms(1)] by metis
    show ?case
    proof (cases "entered E (hf_type f) active")
      case None
      then show ?thesis using Cons noted by (subst collect_fields.simps) auto
    next
      case (Some r)
      obtain b a where "collect_fields E (ht_fields (he_type E r)) (r # active) acc False = Some (Inr (b, a))"
        using less.hyps [OF smaller [OF Some]] by (metis surj_pair)
      then show ?thesis using Some Cons noted by (subst collect_fields.simps) auto
    qed
  qed (subst collect_fields.simps, simp)
qed

lemma incomplete_returns:
  assumes "hover_ok E"
  shows "\<exists>p'. renderIncompleteSubtypes E t p = Some (Inr p')"
proof -
  have "\<exists>acc. collectIncompleteSubtypes E t = Some (Inr acc)"
  proof (cases "entered E t []")
    case (Some r)
    obtain x where "collect_fields E (ht_fields (he_type E r)) [r] ([], []) False = Some (Inr x)"
      using collect_returns [OF hover_okD(1,2) [OF assms] refl] by blast
    then show ?thesis using Some by (cases x) (simp add: collectIncompleteSubtypes_def)
  qed (simp add: collectIncompleteSubtypes_def)
  then obtain acc where "collectIncompleteSubtypes E t = Some (Inr acc)" by blast
  then show ?thesis by (cases acc) (simp add: renderIncompleteSubtypes_def)
qed

lemma value_returns: "hover_ok E \<Longrightarrow> \<exists>p'. renderSymbolValue E s p = Some (Inr p')"
  using incomplete_returns [of E]
  by (auto simp: renderSymbolValue_def type_lines_def Let_def split: symbol_class.split option.split)

lemma detail_all_total: "ws nl \<Longrightarrow> \<exists>t. detail_all ws ds = Inr t"
proof (induction ds)
  case (Cons d ds)
  then obtain a b where "detailFormat ws d = Inr a" "detail_all ws ds = Inr b" using detail_total by blast
  then show ?case by simp
qed simp

lemma type_total: "he_ws E nl \<Longrightarrow> \<exists>p'. renderSymbolType E s p = Inr p'"
proof -
  assume ws: "he_ws E nl"
  have "\<exists>d. getDeclaredTypeString E v = Inr d" for v
  proof (cases "vp_declared v")
    case (Some x)
    obtain a b where "detailFormat (he_ws E) (fst x) = Inr a" "detail_all (he_ws E) (snd x) = Inr b"
      using detail_total [of "he_ws E", OF ws] detail_all_total [of "he_ws E", OF ws] by meson
    then show ?thesis using Some by (cases x) (simp add: getDeclaredTypeString_def)
  qed (simp add: getDeclaredTypeString_def)
  then obtain d where d: "getDeclaredTypeString E v = Inr (d v)" for v by metis
  show ?thesis
  proof (cases "hs_value s")
    case (Some v)
    then show ?thesis using d by (simp add: renderSymbolType_def Let_def)
  qed (simp add: renderSymbolType_def)
qed

lemma format_total: "\<exists>t. formatCode ws printed = Inr t" "\<exists>t. formatCodeWithLeadingComments ws printed = Inr t"
proof -
  have "\<exists>t. (if isSingleLine printed then squashSpaces printed else Inr printed) = Inr t"
    using squash_total [of printed] by (cases printed) (auto simp: isSingleLine_def)
  then show "\<exists>t. formatCode ws printed = Inr t" using shift_total by (auto simp: formatCode_def)
qed (use shift_total in \<open>simp add: formatCodeWithLeadingComments_def\<close>)

lemma code_total:
  assumes "place_ok (sy_node t)"
  shows "\<exists>p'. renderCode E raw t p = Inr p'"
proof -
  obtain q where "selectDisplayNode (he_header E) (sy_node t) = Inr q" using select_total [OF assms] by blast
  moreover obtain c where "(if raw then formatCodeWithLeadingComments (he_ws E) (he_commented E (sn_id (fst q)))
      else formatCode (he_ws E) (he_code E (sn_id (fst q)))) = Inr c" using format_total by (metis (full_types))
  ultimately show ?thesis by (simp add: renderCode_def Let_def)
qed

lemma syntax_total:
  "\<forall>t \<in> set ts. place_ok (sy_node t) \<Longrightarrow> \<exists>doc'. syntax_paragraphs E fmt rendered ts doc = Inr doc'"
proof (induction ts arbitrary: rendered doc)
  case (Cons t ts)
  obtain q where q: "selectDisplayNode (he_header E) (sy_node t) = Inr q" using select_total Cons.prems by fastforce
  obtain c where "renderCode E (fmt = None) t [] = Inr c" using code_total Cons.prems by fastforce
  then show ?case using q Cons by simp
qed simp

lemma display_total:
  assumes "hover_ok E" "Some d \<in> set (he_drivers E a s)"
  shows "\<exists>r. getDriverDisplayNode E d = Inr r \<and> (\<forall>pl. r = Some pl \<longrightarrow> place_ok pl)"
proof (cases "getDriverSourceNode E d")
  case (Some pl)
  obtain n up where pl: "pl = (n, up)" by (cases pl)
  have found: "place_ok q" if "hs_syntax (he_symbol E c) = Some (m, ps)" "findSyntaxAt E l ps m = Some q" for c m ps l q
    using find_syntax_root(1) [OF that(2)] hover_okD(3) [OF assms(1) that(1)] by (simp add: place_ok_def)
  have ok: "place_ok (n, up)"
    using Some found hover_okD(3) [OF assms(1)] hover_okD(4) [OF assms] unfolding pl getDriverSourceNode_def Let_def
    by (auto split: if_splits option.splits prod.splits)
  have near: "place_ok q" if "enclosing K n up = Some q" for K q
    using enclosing_root [OF that] ok by (simp add: place_ok_def)
  obtain q where "selectDisplayNode (he_header E) (n, up) = Inr q" "place_ok q" using select_total [OF ok] by blast
  then show ?thesis using Some near unfolding pl
    by (auto simp: getDriverDisplayNode_def split: option.split)
qed (simp add: getDriverDisplayNode_def)

definition groups_ok :: "driver_group list \<Rightarrow> bool" where
  "groups_ok gs \<longleftrightarrow> (\<forall>g \<in> set gs. \<forall>t \<in> set (dg_targets g). place_ok (sy_node t))"

lemma add_drivers_total:
  assumes "hover_ok E"
  shows "\<forall>x \<in> set ds. x \<in> set (he_drivers E a s) \<Longrightarrow> groups_ok (fst st) \<Longrightarrow>
    \<exists>st'. add_drivers E inp follow ds st = Inr st' \<and> groups_ok (fst st')"
proof (induction ds arbitrary: st)
  case (Cons x ds)
  have "\<exists>st1. add_driver E inp follow x st = Inr st1 \<and> groups_ok (fst st1)"
  proof (cases "\<exists>d. x = Some d \<and> (vd_inputPort d \<longrightarrow> inp)")
    case True
    then obtain d where d: "x = Some d" "vd_inputPort d \<longrightarrow> inp" by blast
    then obtain r where r: "getDriverDisplayNode E d = Inr r" "\<forall>pl. r = Some pl \<longrightarrow> place_ok pl"
      using display_total [OF assms, of d a s] Cons.prems(1) by auto
    let ?t = "map_option (\<lambda>pl. fromNode E pl (first_token (fst pl))) r"
    have t: "\<forall>u. ?t = Some u \<longrightarrow> place_ok (sy_node u)" using r(2) by (auto simp: fromNode_def)
    have "groups_ok (into_group (\<lambda>g. same_container E (vd_container d) (dg_container g))
        \<lparr>dg_container = vd_container d, dg_drivers = [], dg_targets = []\<rparr> (with_driver d ?t) (fst st))"
      unfolding groups_ok_def
    proof
      fix g assume "g \<in> set (into_group (\<lambda>g. same_container E (vd_container d) (dg_container g))
        \<lparr>dg_container = vd_container d, dg_drivers = [], dg_targets = []\<rparr> (with_driver d ?t) (fst st))"
      from into_group_member [OF this] show "\<forall>t \<in> set (dg_targets g). place_ok (sy_node t)"
        using Cons.prems(2) t unfolding groups_ok_def with_driver_def
        by (elim disjE bexE conjE) (auto split: option.splits if_splits)
    qed
    then show ?thesis using d r(1) by (auto simp: add_driver_def)
  next
    case False
    then have "add_driver E inp follow x st = Inr st" by (auto simp: add_driver_def split: option.split)
    then show ?thesis using Cons.prems(2) by simp
  qed
  then obtain st1 where "add_driver E inp follow x st = Inr st1" "groups_ok (fst st1)" by blast
  then show ?case using Cons.IH [of st1] Cons.prems(1) by simp
qed simp

lemma targets_total: "\<forall>t \<in> set ts. place_ok (sy_node t) \<Longrightarrow> \<exists>doc'. target_paragraphs E p ts doc = Inr doc'"
proof (induction ts arbitrary: p doc)
  case (Cons t ts)
  obtain q where "renderCode E True t p = Inr q" using code_total Cons.prems by fastforce
  then show ?case using Cons by simp
qed simp

lemma groups_total: "groups_ok gs \<Longrightarrow> \<exists>st'. render_groups E gs st = Inr st'"
proof (induction gs arbitrary: st)
  case (Cons g gs)
  obtain doc seen where st: "st = (doc, seen)" by (cases st)
  have "\<forall>t \<in> set (dg_targets g). place_ok (sy_node t)" using Cons.prems by (simp add: groups_ok_def)
  then have "\<exists>doc'. render_group E g doc = Inr doc'"
    using targets_total by (cases "dg_targets g = []") (simp_all add: render_group_def Let_def)
  then obtain doc' where "render_group E g doc = Inr doc'" ..
  then show ?case using Cons unfolding st by (auto simp: groups_ok_def split: option.split)
qed simp

lemma level_total: "hover_ok E \<Longrightarrow> \<exists>r. driver_level E a inp follow s st = Inr r"
proof -
  assume ok: "hover_ok E"
  have "groups_ok (fst ([], []))" by (simp add: groups_ok_def)
  then obtain x where "add_drivers E inp follow (he_drivers E a s) ([], []) = Inr x" "groups_ok (fst x)"
    using add_drivers_total [OF ok, of "he_drivers E a s" a s "([], [])" inp follow] by blast
  then obtain gs conn where add: "add_drivers E inp follow (he_drivers E a s) ([], []) = Inr (gs, conn)" "groups_ok gs"
    by (cases x) auto
  obtain st' where "render_groups E gs st = Inr st'" using groups_total [OF add(2)] by blast
  then show ?thesis using add(1) by (simp add: driver_level_def Let_def)
qed

lemma drivers_total: "hover_ok E \<Longrightarrow> \<exists>doc. renderDrivers E a s inp follow = Inr doc"
proof -
  assume ok: "hover_ok E"
  have levels: "\<exists>st'. connected_levels E a ss st = Inr st'" for ss st
  proof (induction ss arbitrary: st)
    case (Cons x ss)
    obtain r where "driver_level E a False False x st = Inr r" using level_total [OF ok] by blast
    then show ?case using Cons by (cases r) simp
  qed simp
  obtain r where "driver_level E a inp follow s ([], []) = Inr r" using level_total [OF ok] by blast
  moreover obtain st' where "connected_levels E a (fst r) (snd r) = Inr st'" using levels by blast
  ultimately show ?thesis by (cases r) (simp add: renderDrivers_def)
qed

text \<open>Targets as they are found: a declaration with its syntax, of a symbol in some scope.\<close>

definition symbol_target_ok :: "hover_env \<Rightarrow> symbol_target \<Rightarrow> bool" where
  "symbol_target_ok E t \<longleftrightarrow> st_syntaxes t \<noteq> [] \<and> (\<forall>y \<in> set (st_syntaxes t). place_ok (sy_node y))
     \<and> hs_scope (he_symbol E (st_symbol t)) \<noteq> None"

definition target_ok :: "hover_env \<Rightarrow> target \<Rightarrow> bool" where
  "target_ok E t \<longleftrightarrow> (case t of
     SymbolTarget s \<Rightarrow> symbol_target_ok E s
   | PortConnectionTarget outer inner \<Rightarrow> symbol_target_ok E outer \<and> symbol_target_ok E inner
   | MacroTarget (DefinedIn y) _ \<Rightarrow> place_ok (sy_node y)
   | _ \<Rightarrow> True)"

lemma header_total: "hs_scope s \<noteq> None \<Longrightarrow> \<exists>p'. renderSymbolHeader E s k p = Inr p'"
  by (auto simp: renderSymbolHeader_def Let_def)

lemma syntaxes_total: "\<forall>t \<in> set ts. place_ok (sy_node t) \<Longrightarrow> \<exists>doc'. appendSyntaxTargets E fmt ts doc = Inr doc'"
  using syntax_total by (simp add: appendSyntaxTargets_def)

lemma symbol_hover_total:
  assumes "hover_ok E" "symbol_target_ok E t"
  shows "\<exists>h. renderSymbolHover E fmt t label follow = Some (Inr h)"
proof -
  let ?s = "he_symbol E (st_symbol t)"
  have t: "hs_scope ?s \<noteq> None" "\<forall>y \<in> set (st_syntaxes t). place_ok (sy_node y)"
    using assms(2) by (auto simp: symbol_target_ok_def)
  obtain h where "renderSymbolHeader E ?s [] (if label = [] then [] else appendBold [] label) = Inr h"
    using header_total [OF t(1)] by blast
  moreover obtain ty where "renderSymbolType E ?s [] = Inr ty" using type_total hover_okD(1) [OF assms(1)] by blast
  moreover obtain v where "renderSymbolValue E ?s [] = Some (Inr v)" using value_returns [OF assms(1)] by blast
  moreover obtain sy where "appendSyntaxTargets E fmt (st_syntaxes t) [] = Inr sy" using syntaxes_total [OF t(2)] by blast
  moreover obtain d where "renderDrivers E (st_analysis t) (getDriverSymbol E t) (st_renderInputPortDriver t) follow = Inr d"
    using drivers_total [OF assms(1)] by blast
  ultimately show ?thesis by (simp add: renderSymbolHover_def Let_def)
qed

lemma target_total:
  assumes "hover_ok E" "target_ok E t"
  shows "\<exists>doc. hover_of_target E fmt buf kn t = Some (Inr doc)"
proof (cases t)
  case (SymbolTarget s)
  then obtain h where "renderSymbolHover E fmt s [] True = Some (Inr h)"
    using symbol_hover_total assms by (fastforce simp: target_ok_def)
  then show ?thesis using SymbolTarget by (simp add: hover_of_target_def getHover_symbol_def)
next
  case (PortConnectionTarget a b)
  then obtain h i where "renderSymbolHover E fmt a ''Outer'' False = Some (Inr h)"
    "renderSymbolHover E fmt b ''Inner'' True = Some (Inr i)"
    using symbol_hover_total [OF assms(1)] assms(2) by (simp add: target_ok_def) metis
  then show ?thesis using PortConnectionTarget by (simp add: hover_of_target_def getHover_port_def)
next
  case (MacroTarget def expansion)
  have "\<exists>block. svCodeBlockString (he_utf8 E) (he_ws E) expansion = Inr block"
    using shift_total [of "stripBlankLines (he_ws E) (escapeInvalidUtf8 (he_utf8 E) expansion)"]
    by (auto simp: svCodeBlockString_def)
  moreover have "\<exists>doc. (case def of
        DefinedIn s \<Rightarrow> appendSyntaxTargets E fmt [s] [renderMacroHeader E buf kn def []]
      | OnCommandLine _ \<Rightarrow> Inr [renderMacroHeader E buf kn def []]) = Inr doc"
    using syntaxes_total [of "[y]" for y] MacroTarget assms(2)
    by (cases def) (simp_all add: target_ok_def)
  ultimately show ?thesis using MacroTarget by (auto simp: hover_of_target_def getHover_macro_def)
qed (simp add: hover_of_target_def)

lemma token_total: "target_ok E t \<Longrightarrow> \<exists>tok. nameToken t = Inr tok"
  by (cases t) (auto simp: target_ok_def symbol_target_ok_def nameToken_def symbol_name_token_def
      split: list.splits macro_definition.split)

lemma targets_rendered:
  "hover_ok E \<Longrightarrow> \<forall>t \<in> set ts. target_ok E t \<Longrightarrow> \<exists>r. render_targets E fmt buf kn ts rendered = Some (Inr r)"
proof (induction ts arbitrary: rendered)
  case (Cons t ts)
  obtain tok where "nameToken t = Inr tok" using token_total Cons.prems by fastforce
  moreover obtain doc where "hover_of_target E fmt buf kn t = Some (Inr doc)" using target_total Cons.prems by fastforce
  ultimately show ?case using Cons by simp
qed simp

text \<open>The parameters of a summary are targets of the definition.\<close>

lemma scan_targets:
  "summary_scan E ts st = Some st' \<Longrightarrow> (\<forall>t \<in> set (su_parameters st). P t) \<Longrightarrow> (\<forall>g. su_genvar st = Some g \<longrightarrow> P g) \<Longrightarrow>
    (\<And>s. SymbolTarget s \<in> set ts \<Longrightarrow> P s) \<Longrightarrow>
    (\<forall>t \<in> set (su_parameters st'). P t) \<and> (\<forall>g. su_genvar st' = Some g \<longrightarrow> P g)"
proof (induction ts arbitrary: st)
  case (Cons t ts)
  obtain s where t: "t = SymbolTarget s" using Cons.prems(1) by (cases t) auto
  then have P: "P s" using Cons.prems(4) by simp
  have "\<exists>st1. summary_scan E ts st1 = Some st' \<and> (\<forall>u \<in> set (su_parameters st1). P u) \<and> (\<forall>g. su_genvar st1 = Some g \<longrightarrow> P g)"
  proof (cases "hs_class (he_symbol E (st_symbol s))")
    case (ParameterClass g c)
    then obtain st1 where st1: "summary_parameter E s g c st = Some st1" "summary_scan E ts st1 = Some st'"
      using Cons.prems(1) t by (auto split: option.splits)
    have "su_parameters st1 = su_parameters st @ [s] \<and> su_genvar st1 = su_genvar st"
      using st1(1) by (auto simp: summary_parameter_def Let_def split: if_splits hover_constant.splits)
    then show ?thesis using st1(2) Cons.prems(2,3) P by (intro exI [of _ st1]) auto
  next
    case GenvarClass
    then show ?thesis using Cons.prems(1-3) t P by (auto split: if_splits)
  qed (use Cons.prems(1) t in auto)
  then show ?case using Cons.IH Cons.prems(4) by (metis list.set_intros(2))
qed simp

lemma summary_total:
  assumes "hover_ok E" "\<forall>t \<in> set ts. target_ok E t"
  shows "\<exists>r. renderElaboratedParameterSummary E fmt ts = Inr r"
proof (cases "summary_scan E ts empty_summary")
  case (Some st)
  have each: "symbol_target_ok E s" if "SymbolTarget s \<in> set ts" for s
    using bspec [OF assms(2) that] by (simp add: target_ok_def)
  have "(\<forall>t \<in> set (su_parameters st). symbol_target_ok E t) \<and> (\<forall>g. su_genvar st = Some g \<longrightarrow> symbol_target_ok E g)"
    by (rule scan_targets [OF Some]) (simp_all add: empty_summary_def each)
  then have ok: "\<forall>t \<in> set (su_parameters st). symbol_target_ok E t" "\<forall>g. su_genvar st = Some g \<longrightarrow> symbol_target_ok E g"
    by blast+
  show ?thesis
  proof (cases "su_parameters st")
    case (Cons t us)
    let ?shown = "case su_genvar st of Some g \<Rightarrow> g | None \<Rightarrow> t"
    have "symbol_target_ok E ?shown" using ok Cons by (simp split: option.split)
    then obtain p1 where p1: "renderSymbolHeader E (he_symbol E (st_symbol ?shown))
        (if su_genvar st = None \<and> su_isGenvar st then ''Genvar'' else []) [] = Inr p1"
      using header_total unfolding symbol_target_ok_def by blast
    obtain p2 where p2: "renderSymbolType E (he_symbol E (st_symbol t)) p1 = Inr p2"
      using type_total hover_okD(1) [OF assms(1)] by blast
    have "\<forall>y \<in> set (concat (map st_syntaxes (su_parameters st))). place_ok (sy_node y)"
      using ok(1) by (auto simp: symbol_target_ok_def)
    from syntaxes_total [OF this] obtain doc where
      "appendSyntaxTargets E fmt (concat (map st_syntaxes (su_parameters st))) [newLine (values_line E st p2)] = Inr doc" by blast
    then show ?thesis using Some Cons p1 p2
      by (simp add: renderElaboratedParameterSummary_def Let_def)
  qed (simp add: renderElaboratedParameterSummary_def Some)
qed (simp add: renderElaboratedParameterSummary_def)

lemma parameter_targets_ok: "parameter_targets E ts = Some ps \<Longrightarrow> \<forall>(s, c) \<in> set ps. SymbolTarget s \<in> set ts"
proof (induction ts arbitrary: ps)
  case (Cons t ts)
  then show ?case by (fastforce split: target.splits symbol_class.splits)
qed simp

lemma values_total:
  "hover_ok E \<Longrightarrow> \<forall>(t, c) \<in> set ps. symbol_target_ok E t \<Longrightarrow> \<exists>r. render_values E fmt sharedType ps rendered doc = Some (Inr r)"
proof (induction ps arbitrary: rendered doc)
  case (Cons x ps)
  obtain t c where x: "x = (t, c)" by (cases x)
  then obtain h where "renderSymbolHover E fmt t [] True = Some (Inr h)"
    using symbol_hover_total Cons.prems by fastforce
  then show ?case using Cons x by simp
qed simp

lemma parameter_values_total:
  assumes "hover_ok E" "\<forall>t \<in> set ts. target_ok E t"
  shows "\<exists>r. renderElaboratedParameterValues E fmt ts = Some (Inr r)"
proof (cases "parameter_targets E ts")
  case (Some ps)
  have "symbol_target_ok E t" if "(t, c) \<in> set ps" for t c
    using bspec [OF assms(2), of "SymbolTarget t"] parameter_targets_ok [OF Some] that by (auto simp: target_ok_def)
  then have ok: "\<forall>(t, c) \<in> set ps. symbol_target_ok E t" by blast
  show ?thesis
  proof (cases ps)
    case (Cons x others)
    obtain t0 c0 where x: "x = (t0, c0)" by (cases x)
    obtain ty where "renderSymbolType E (he_symbol E (st_symbol t0)) [] = Inr ty"
      using type_total hover_okD(1) [OF assms(1)] by blast
    moreover obtain doc where "render_values E fmt ty ps [] [] = Some (Inr doc)"
      using values_total [OF assms(1) ok] by blast
    ultimately show ?thesis using Some Cons x
      by (simp add: renderElaboratedParameterValues_def)
  qed (simp add: renderElaboratedParameterValues_def Some)
qed (simp add: renderElaboratedParameterValues_def)

section \<open>Properties\<close>

text \<open>C28. Going to a definition offers every place of every target exactly once, in the order in which the
  targets and their declarations come: the links with their duplicates left out one target at a time are
  those of the whole list with the first of each document and range kept.\<close>

theorem definition_places_once:
  "map link_key (getDefinitionLspLinks E targets) = firsts (map link_key (concat (map (raw_links E) targets)))
    \<and> distinct (map link_key (getDefinitionLspLinks E targets))
    \<and> link_key ` set (getDefinitionLspLinks E targets) = link_key ` (\<Union>t \<in> set targets. set (raw_links E t))"
proof (intro conjI)
  show eq: "map link_key (getDefinitionLspLinks E targets) = firsts (map link_key (concat (map (raw_links E) targets)))"
    using links_keys [of "[]" "[]"] by (simp add: getDefinitionLspLinks_def)
  show "distinct (map link_key (getDefinitionLspLinks E targets))" unfolding eq by simp
  have "set (map link_key (getDefinitionLspLinks E targets)) = set (map link_key (concat (map (raw_links E) targets)))"
    unfolding eq by (rule firsts_simps)
  then show "link_key ` set (getDefinitionLspLinks E targets) = link_key ` (\<Union>t \<in> set targets. set (raw_links E t))"
    by simp
qed

text \<open>Each driver that is shown is described in one group, and no two groups have the same container.\<close>

theorem drivers_grouped:
  assumes "add_drivers E inp follow ds ([], []) = Inr (groups, connected)"
  shows "mset (concat (map dg_drivers groups)) = mset (visible_drivers inp ds)
    \<and> (\<forall>g \<in> set groups. dg_drivers g \<noteq> [] \<and> (\<forall>d \<in> set (dg_drivers g). same_container E (vd_container d) (dg_container g)))
    \<and> sorted_wrt (\<lambda>g h. \<not> same_container E (dg_container h) (dg_container g)) groups"
  using grouped_drivers [OF assms, of "[]"] by (simp add: grouped_def)

text \<open>C22. The hover of a definition always ends and never fails, although the fields of erroneous types may
  lead back to the types that contain them: neither the search for incomplete subtypes nor any of the
  formatting routines throws, for any targets in scopes, with any drivers and connections.\<close>

theorem hover_always_ends:
  assumes "hover_ok E" and "\<forall>t \<in> set targets. target_ok E t"
  shows "\<exists>txt. getHover E fmt docBuffer kind_name targets = Some (Inr txt)"
proof -
  obtain s v where "renderElaboratedParameterSummary E fmt targets = Inr s"
    "renderElaboratedParameterValues E fmt targets = Some (Inr v)"
    using summary_total [OF assms] parameter_values_total [OF assms] by metis
  moreover obtain r where "render_targets E fmt docBuffer kind_name targets [] = Some (Inr r)"
    using targets_rendered [OF assms] by blast
  ultimately show ?thesis by (simp add: getHover_def split: option.split)
qed

section \<open>Examples\<close>

text \<open>A parameter with a different value in each of its instances, declared on one line.\<close>

definition sample_width :: "nat \<Rightarrow> hover_symbol" where
  "sample_width i = \<lparr>hs_class = ParameterClass False (IntConstant 32 True (int i)), hs_kind = ''Parameter'',
     hs_name = ''W'', hs_location = loc_at 1 0, hs_value = Some \<lparr>vp_type = 0, vp_port = None, vp_declared = None\<rparr>,
     hs_scope = Some \<lparr>sp_lexicalPath = ''m'', sp_syntax = None, sp_enumType = False\<rparr>, hs_syntax = None,
     hs_path = ''m.W''\<rparr>"

definition sample_int :: hover_type where
  "sample_int = \<lparr>ht_error = False, ht_canonical = 0, ht_error_child = None, ht_error_kind = False, ht_alias = False,
     ht_alias_target = 0, ht_alias_syntax = None, ht_record = False, ht_enum = False, ht_kind = ''PredefinedIntegerType'',
     ht_fields = [], ht_location = loc_at 0 0, ht_width = 32\<rparr>"

definition sample_node :: snode where
  "sample_node = SNode 0 display_kind.OtherSyntax False (loc_at 1 0, loc_at 1 1) []"

definition sample_hovers :: hover_env where
  "sample_hovers = \<lparr>he_sm = sample_sm ''parameter W = 1;'', he_utf8 = sample_utf8, he_ws = isspace, he_originalLoc = id,
     he_isFileLoc = (\<lambda>l. lbuffer l = 1), he_isMacroLoc = (\<lambda>_. False), he_isLatestData = (\<lambda>_. True),
     he_sourceText = (\<lambda>_. []), he_contains = (\<lambda>_ _. True), he_symbol = sample_width, he_type = (\<lambda>_. sample_int),
     he_typeText = (\<lambda>_ _. ''int''), he_matching = (=), he_constant = (\<lambda>c. \<lparr>cv_integer = Some (32, False),
       cv_true = True, cv_string = None, cv_toString = to_string (const_int c)\<rparr>), he_sameConstant = (=),
     he_header = (\<lambda>_. sample_node), he_typedefName = (\<lambda>_. []), he_code = (\<lambda>_. ''W = 1''), he_commented = (\<lambda>_. ''W = 1''),
     he_connection = (\<lambda>_ _. []), he_drivers = (\<lambda>_ _. []), he_ports = (\<lambda>_. []), he_cwd = [''/''], he_readFile = (\<lambda>_. None)\<rparr>"

definition sample_target :: "nat \<Rightarrow> symbol_target" where
  "sample_target i = \<lparr>st_syntaxes = [\<lparr>sy_node = (sample_node, []), sy_nameToken = no_token, sy_macroUsage = None\<rparr>],
     st_symbol = i, st_analysis = 0, st_renderInterfaceConnection = True, st_renderInputPortDriver = False,
     st_generatedSignalCount = 1\<rparr>"

theorem hover_always_ends_witness:
  "\<exists>txt. getHover sample_hovers (Some MarkdownText) 1 (\<lambda>_. ''DefineDirective'') [SymbolTarget (sample_target 3)]
     = Some (Inr txt)"
proof (rule hover_always_ends)
  show "hover_ok sample_hovers"
    by (simp add: hover_ok_def sample_hovers_def sample_int_def sample_width_def isspace_def)
  show "\<forall>t \<in> set [SymbolTarget (sample_target 3)]. target_ok sample_hovers t"
    by (simp add: target_ok_def symbol_target_ok_def sample_target_def sample_hovers_def sample_width_def
        place_ok_def root_of_def sample_node_def)
qed

definition sample_summary :: summary_state where
  "sample_summary = the (summary_scan sample_hovers
     [SymbolTarget (sample_target 4), SymbolTarget (sample_target 3), SymbolTarget (sample_target 5)] empty_summary)"

text \<open>The values 4, 3 and 5 are the range from 3 to 5.\<close>

theorem summary_values_exact_witness:
  "\<exists>m M. {m, M} \<subseteq> set [IntConstant 32 True 4, IntConstant 32 True 3, IntConstant 32 True 5]
    \<and> (\<forall>k \<in> set [IntConstant 32 True 4, IntConstant 32 True 3, IntConstant 32 True 5].
        const_int m \<le> const_int k \<and> const_int k \<le> const_int M)
    \<and> values_line sample_hovers sample_summary [] =
        appendCode (appendCode (''Value range: '') (show_constant sample_hovers m) @ '' through '') (show_constant sample_hovers M)"
proof -
  have scan: "summary_scan sample_hovers
     [SymbolTarget (sample_target 4), SymbolTarget (sample_target 3), SymbolTarget (sample_target 5)] empty_summary
     = Some sample_summary"
    by (simp add: sample_summary_def summary_parameter_def sample_hovers_def sample_target_def sample_width_def empty_summary_def)
  have typed: "typed_constants [IntConstant 32 True 4, IntConstant 32 True 3, IntConstant 32 True 5]"
    unfolding typed_constants_def by (intro exI [of _ 32] exI [of _ True]) (simp add: in_range_def)
  have found: "constants sample_hovers
     [SymbolTarget (sample_target 4), SymbolTarget (sample_target 3), SymbolTarget (sample_target 5)]
     = IntConstant 32 True 4 # [IntConstant 32 True 3, IntConstant 32 True 5]"
    by (simp add: target_constants_def sample_hovers_def sample_target_def sample_width_def)
  let ?cs = "[IntConstant 32 True 4, IntConstant 32 True 3, IntConstant 32 True 5]"
  obtain m M where mM: "{m, M} \<subseteq> set ?cs" "\<forall>k \<in> set ?cs. const_int m \<le> const_int k \<and> const_int k \<le> const_int M"
    and line: "values_line sample_hovers sample_summary [] =
      (if set [IntConstant 32 True 3, IntConstant 32 True 5] \<subseteq> {IntConstant 32 True 4}
       then appendCode ([] @ ''Value: '') (show_constant sample_hovers (IntConstant 32 True 4))
       else if const_int ` set ?cs = {const_int m .. const_int M}
         then appendCode (appendCode ([] @ ''Value range: '') (show_constant sample_hovers m) @ '' through '') (show_constant sample_hovers M)
       else comma_codes sample_hovers True (firsts ?cs) ([] @ ''Values: ''))"
    using summary_values_exact [OF scan found typed, of "[]"] by blast
  have ints: "const_int ` set ?cs = {4, 3, 5}" by (simp add: const_int_def)
  have "const_int m \<in> {4, 3, 5}" "const_int M \<in> {4, 3, 5}" using mM(1) ints by blast+
  moreover have "const_int m \<le> 3" "5 \<le> const_int M"
    using bspec [OF mM(2), of "IntConstant 32 True 3"] bspec [OF mM(2), of "IntConstant 32 True 5"]
    by (simp_all add: const_int_def)
  ultimately have "const_int m = 3" "const_int M = 5" by auto
  then have "const_int ` set ?cs = {const_int m .. const_int M}" unfolding ints by auto
  then have "values_line sample_hovers sample_summary [] =
      appendCode (appendCode (''Value range: '') (show_constant sample_hovers m) @ '' through '') (show_constant sample_hovers M)"
    using line by simp
  with mM show ?thesis by blast
qed

section \<open>The place of a define\<close>

text \<open>The name is looked for as a prefix: with \<open>FOOBAR\<close> defined before \<open>FOO\<close>, the link of \<open>FOO\<close> leads to
  the definition of \<open>FOOBAR\<close>.\<close>

lemma define_found_as_prefix:
  "define_position ''-DFOOBAR=1 -DFOO=2'' ''FOO'' = \<lparr>p_line = 0, p_char = 0\<rparr>
    \<and> define_position ''-DFOO=2'' ''FOO'' = define_position ''-DFOOBAR=1 -DFOO=2'' ''FOO''"
  by code_simp

end
