(* ===== verification/Spec2Isabelle.thy ===== *)
theory Spec2Isabelle
  imports JsonRpcRuns SemanticTokens Markdown Snippet IndexRuns DocSync Diagnostics Formatting SuggestDirs
    SyntaxQueries CompletionKinds IncludeContexts ServerRuns CodeActionRuns WcpRuns DependencyRuns ConeLoads
    HierarchyRuns ActiveContext SystemTaskRuns MemberRuns DispatchRuns SiteRuns StructPatterns
    TokenLegend OutlineRuns InlayHintRuns SymbolIndexRuns ReferenceRuns HoverRuns
begin

text \<open>
  This development models slang-server, a language server for SystemVerilog written in C++ on top of
  the compiler front end slang, and proves what makes its parts correct. Paths below are relative to
  the repository.

  \<^bold>\<open>The program.\<close> A client (an editor) talks JSON-RPC over standard input and output.
  \<open>JsonRpcServer\<close> (\<open>include/lsp/JsonRpcServer.h\<close>) reads messages on one thread and runs them on another.
  \<open>SlangServer\<close> (\<open>src/SlangServer.cpp\<close>) answers them: it keeps the configuration, the workspace index
  (\<open>src/Indexer.cpp\<close>) and a driver. \<open>ServerDriver\<close> (\<open>src/ServerDriver.cpp\<close>) keeps the open documents
  (\<open>src/document/SlangDoc.cpp\<close>) in slang's source manager, finds the trees a document depends on, and
  sends diagnostics to the client (\<open>src/ServerDiagClient.cpp\<close>). Each document has an analysis with
  indices from syntax to tokens and from tokens to symbols (\<open>src/document/SyntaxIndexer.cpp\<close>,
  \<open>SymbolIndexer.cpp\<close>), which the requests use: outline, semantic tokens, inlay hints, references and
  renaming, completions (\<open>src/completions\<close>), code actions (\<open>src/codeactions\<close>). When a build or a top
  level is chosen there is a compilation of the whole design (\<open>src/ast\<close>) with a hierarchy view,
  active instances, cones of influence and a waveform viewer on a socket.

  \<^bold>\<open>How it is modelled.\<close> Every operation is a HOL function over records and datatypes named as in the
  code. State is passed explicitly. Exceptions and undefined behaviour are the values
  \<open>Inl e\<close> of the type \<open>result\<close> (theory Prelude); a null pointer or an empty optional is
  \<open>None\<close>. Pointers are numbers. Machine integers are words where the code computes with them
  (\<open>lsp::uint\<close> in Positions, code points in Utf, the relative token encoding in SemanticTokens), and
  naturals where only list positions are meant. Loops that might not end are partial functions into
  \<open>option\<close> with a theorem that they end. Concurrent parts are inductive step relations whose steps are
  the critical sections of the code. slang, the JSON library, the file system and the sockets are not
  under src/ or are not code that can be read here; they are records of functions or data that an
  operation takes as an argument, and what the code relies on is a named hypothesis (below).

  \<^bold>\<open>Protocol and processes.\<close>
  Framing: \<open>include/lsp/JsonRpc.h\<close>, message headers on a stream with its error bits; what is sent is
  read back, and the header loop ends. JsonRpc, JsonRpcRuns: \<open>JsonRpcServer.h\<close> and
  \<open>RequestContext.h\<close>, the registry of requests and pending changes, cancellation, the reader and the
  worker as steps; invariants of the registry over every run, one reply for each request, superseded
  changes, cancellation in the queue, an orderly end. Wcp, WcpRuns: \<open>src/ast/WcpClient.cpp\<close>, frames ended by a null byte,
  the greeting and the client loop.
  Uri: \<open>src/lsp/URI.cpp\<close>; Utf: the UTF-8 and UTF-16 routines of \<open>src/util/Converters.cpp\<close>; Positions:
  the conversions between source locations and protocol positions.

  \<^bold>\<open>Documents.\<close> DocText: \<open>src/document/SlangDoc.cpp\<close>, the text of a document under incremental changes,
  compared with the client's own editing of lines. DocSync: the documents and buffers of a driver as a
  step relation; the texts of open documents are those of the editor in every reachable state.
  Diagnostics: \<open>src/ServerDiagClient.cpp\<close>; what the editor shows is what was reported last.
  SyntaxIndex, SyntaxQueries: \<open>src/document/SyntaxIndexer.cpp\<close> and its searches.
  SymbolIndex, SymbolIndexRuns: \<open>src/document/SymbolIndexer.cpp\<close>, the visit ends and is complete.
  SemanticTokens, TokenLegend: \<open>src/document/SemanticTokens.cpp\<close>, classification, encoding, legend.
  Outline, OutlineRuns: \<open>src/document/SymbolTreeVisitor.cpp\<close>. InlayHints, InlayHintRuns:
  \<open>src/document/InlayHintCollector.cpp\<close>. References, ReferenceRuns: references, renaming and highlights
  of \<open>src/ServerDriver.cpp\<close> and \<open>src/document/ShallowAnalysis.cpp\<close>. DisplayNodes, Hovers, HoverText, HoverRuns:
  \<open>src/document/DefinitionInfo.cpp\<close> with the walks over syntax of \<open>src/util/Formatting.cpp\<close>: links of definitions and
  the text of hovers, which always ends. Formatting, Markdown: \<open>src/util/Formatting.cpp\<close>
  and \<open>Markdown.cpp\<close>. Symbols: the kinds of symbols and their protocol kinds.

  \<^bold>\<open>Workspace.\<close> Paths and Tables: lexical paths of the C++ library and maps from keys to lists.
  Indexer, IndexTables, IncludeSearch, IndexRuns: \<open>src/Indexer.cpp\<close>, the tables, their updates,
  include resolution and its cache; the tables agree with the entries of the files after any sequence of
  updates. SuggestDirs: suggested index directories. Dependencies, DependencyRuns, IncludeContexts: how
  \<open>src/ServerDriver.cpp\<close> parses a document, proposes include directories, finds dependent trees and the
  sources that include a file. Config, ConfigLayers: \<open>src/Config.cpp\<close>. ServerState, ServerRuns: the
  modes of \<open>src/SlangServer.cpp\<close>, reloads, watched files (\<open>src/lsp/FileWatchers.cpp\<close>), notices of
  internal errors. CodeActions, CodeActionRuns: \<open>src/codeactions\<close> and the file of expanded macros.

  \<^bold>\<open>Completions.\<close> Snippet, SnippetReads: \<open>include/lsp/SnippetString.h\<close> and a reader of snippets as the
  protocol describes them. CompletionItems, SystemTasks, MemberItems, MemberLists, MemberQueries,
  InstanceItems, InstanceConnections, StructPatterns: the files of \<open>src/completions\<close> by name, with
  the items, the lists and the resolved items. CompletionKinds, CompletionSites: the kind of a request
  from \<open>CompletionContext.cpp\<close> and the tokens around the cursor. CompletionDispatch: the list and the
  resolve request. SystemTaskRuns, MemberRuns, SiteRuns, DispatchRuns: what these guarantee.

  \<^bold>\<open>Designs.\<close> Hierarchy, HierarchySearch, HierarchyRuns: \<open>include/ast/HierarchicalView.h\<close> and the search
  of \<open>src/ast/ServerCompilation.cpp\<close>. ActiveInstances, ActiveInstanceRuns, ActiveContext: active
  instances, interface connections and the way between shallow symbols and the design
  (\<open>ServerCompilation.cpp\<close>, \<open>ActiveDesignContext.cpp\<close>). Cones, ConeRuns, ConeLoads: \<open>include/ast/ConeTracer.h\<close>,
  the visitors of drivers and loads with the flags they save and restore, compared with the
  flows of a design.

  \<^bold>\<open>Shared lemmas and interfaces.\<close> Prelude holds the results, the character classes, string routines and
  the locale \<open>byte_codec\<close> (an encoder of single bytes and its decoder), which Uri, Snippet and Markdown
  interpret. \<open>columns\<close> (Utf) is the contract of a column measure with its inverse, \<open>file_table\<close>
  (IndexTables) that of a table from names to files, interpreted for the four tables of the index,
  \<open>context_table\<close> (JsonRpcRuns) that of a registry, interpreted for requests and for changes.

  \<^bold>\<open>Hypotheses on parameters.\<close> \<open>utf8_lib_ok\<close>: slang's decoder on valid sequences. \<open>sm_lines_ok\<close>: lines and
  columns of a source manager count from its line starts. \<open>store_ok\<close>: a source manager gives fresh
  buffers and keeps their texts. \<open>loc_order\<close>, \<open>tokens_in_order\<close>, \<open>macros_apart\<close>, \<open>parent_chains\<close>: the
  order of locations and of the tokens of a tree. \<open>documents_named\<close>: a document is found under its own
  name. \<open>reads_back\<close>: the JSON library reads what it writes and writes no line feed. \<open>finite_depth\<close>,
  \<open>ports_below\<close>, \<open>well_founded_design\<close>, \<open>instances_listed\<close>: an elaborated design is finite and its
  instances are listed. \<open>scope_ok\<close>, \<open>member_ok\<close>, \<open>found_ok\<close>, \<open>readable\<close>: what a scope and its members
  answer is consistent. \<open>tree_ok\<close>, \<open>keys_ordered\<close>: source ranges of children lie in those of their
  parents, and keys are in the order of locations. \<open>usages_ok\<close>: macro usages are nested or apart.
  \<open>hover_ok\<close>, \<open>target_ok\<close>: finitely many structs and unions, trees with a root that is no declarator, symbols in scopes.
  \<open>tied\<close>, \<open>workspace_ok\<close>: finitely many symbols name each other as ends of a connection, and documents are those
  of their buffers. Each theorem with a hypothesis has a witness that applies it to a concrete instance.

  \<^bold>\<open>Bounds and fuel.\<close> Lines and columns are below \<open>2 ^ 31\<close> where the code converts them to protocol numbers;
  longer files wrap and are excluded by hypothesis. The walks back over tokens in CompletionSites stop
  after 500 tokens, as in the code. \<open>place_run\<close> takes at most as many steps as a
  node has children, which is enough because each step goes to an earlier child. No other definition uses fuel: \<open>readJson\<close> is proved to return on
  what \<open>sendMessage\<close> writes; \<open>include_walk\<close>, \<open>collect_items\<close>, \<open>resolve_loop\<close>, \<open>first_instance\<close>,
  \<open>setActiveInterfaceInstances\<close>, \<open>instance_chain\<close>, \<open>collectGenerateArrays\<close>, \<open>climb\<close>, \<open>visit_all\<close>, \<open>collect_fields\<close> and
  \<open>reference_loop\<close> are partial functions that are proved to return under the finiteness of their input.

  \<^bold>\<open>Not modelled.\<close> Logging and timing; generated code (\<open>include/lsp/LspTypes.h\<close>) and its serialisation;
  \<open>include/lsp/LspServer.h\<close>, \<open>LspClient.h\<close> and \<open>SlangLspClient.h\<close>, which name each request once more and
  forward it; processes and sockets (\<open>src/util/Process.cpp\<close>); the main programs; the crawl over directories and its
  threads; elaboration by slang and the code that only drives it (\<open>ServerCompilation\<close>'s constructor,
  \<open>ShallowCompilation.cpp\<close>, parameter overrides); the lookups of \<open>ShallowAnalysis.cpp\<close> from a token to its
  symbols, which are slang's name lookup; how \<open>getDefinitionInfoAt\<close> collects the targets of a token from them; the table of system task documentation (data); vendored code under src/external.
\<close>

end
